(* ===== verification/Prelude.thy ===== *)
theory Prelude
  imports Main "HOL-Library.AList" "HOL-Library.Multiset"
begin

text \<open>
  What the component theories share: the error values the services raise, the sequencing of
  fallible steps, keyed tables, and the list lemmas behind the conservation proofs.
\<close>

subsection \<open>Errors and fallible steps\<close>

text \<open>
  One constructor per exception class the services throw; the string is the message of the source,
  or its fixed part when the message interpolates a value. \<open>Internal\<close> is a plain \<open>Error\<close> or a
  database error such as P2025 (the row of an \<open>update\<close> does not exist).
\<close>

datatype failure =
    BadRequest string | Forbidden string | NotFound string | Conflict string
  | ServiceUnavailable string | SettleClaimLost string | Internal string

type_synonym 'a result = "failure + 'a"

text \<open>The message of a thrown error, \<open>e.message\<close>.\<close>

primrec failure_message :: "failure \<Rightarrow> string" where
  "failure_message (BadRequest s) = s"
| "failure_message (Forbidden s) = s"
| "failure_message (NotFound s) = s"
| "failure_message (Conflict s) = s"
| "failure_message (ServiceUnavailable s) = s"
| "failure_message (SettleClaimLost s) = s"
| "failure_message (Internal s) = s"

definition bindE :: "'a result \<Rightarrow> ('a \<Rightarrow> 'b result) \<Rightarrow> 'b result" where
  "bindE m f = (case m of Inl e \<Rightarrow> Inl e | Inr x \<Rightarrow> f x)"

definition guardE :: "bool \<Rightarrow> failure \<Rightarrow> unit result" where
  "guardE b e = (if b then Inr () else Inl e)"

lemma bindE_simps [simp]: "bindE (Inl e) f = Inl e" "bindE (Inr x) f = f x"
  by (simp_all add: bindE_def)

lemma bindE_eq_Inr: "bindE m f = Inr y \<longleftrightarrow> (\<exists>x. m = Inr x \<and> f x = Inr y)"
  by (cases m) auto

lemma bindE_InrE [elim!]: "bindE m f = Inr y \<Longrightarrow> (\<And>x. m = Inr x \<Longrightarrow> f x = Inr y \<Longrightarrow> P) \<Longrightarrow> P"
  by (cases m) auto

lemma bindE_assoc: "bindE (bindE m f) g = bindE m (\<lambda>x. bindE (f x) g)"
  by (cases m) auto

lemma guardE_Inr [simp]: "guardE b e = Inr u \<longleftrightarrow> b"
  by (simp add: guardE_def)

lemma guardE_Inl [simp]: "guardE b e = Inl e' \<longleftrightarrow> \<not> b \<and> e' = e"
  by (auto simp: guardE_def)

lemma guardE_bind: "bindE (guardE b e) f = (if b then f () else Inl e)"
  by (simp add: guardE_def)

subsection \<open>Keyed tables\<close>

text \<open>
  A table of the database is an association list without duplicate keys: the order is the order in
  which \<open>findMany\<close> enumerates it. \<open>AList.update\<close> writes a row and \<open>map_of\<close> looks one up.
\<close>

type_synonym ('k, 'v) table = "('k \<times> 'v) list"

definition keyed :: "('k, 'v) table \<Rightarrow> bool" where
  "keyed t \<longleftrightarrow> distinct (map fst t)"

lemma keyed_Nil [simp]: "keyed []"
  by (simp add: keyed_def)

lemma keyed_update [simp, intro]: "keyed t \<Longrightarrow> keyed (AList.update k v t)"
  by (simp add: keyed_def distinct_update)

lemma map_of_update [simp]: "map_of (AList.update k v t) = (map_of t)(k \<mapsto> v)"
  by (rule update_conv')

text \<open>The sum of a column over a table, and what writing one row does to it.\<close>

definition col_sum :: "('v \<Rightarrow> int) \<Rightarrow> ('k, 'v) table \<Rightarrow> int" where
  "col_sum f t = sum_list (map (f \<circ> snd) t)"

lemma col_sum_update_None: "map_of t k = None \<Longrightarrow> col_sum f (AList.update k v t) = col_sum f t + f v"
  by (induction t) (auto simp: col_sum_def split: if_splits)

lemma col_sum_update_Some:
  "map_of t k = Some w \<Longrightarrow> col_sum f (AList.update k v t) = col_sum f t - f w + f v"
  by (induction t) (auto simp: col_sum_def split: if_splits)

lemmas col_sum_update = col_sum_update_None col_sum_update_Some

lemma col_sum_nonneg: "(\<And>k v. (k, v) \<in> set t \<Longrightarrow> 0 \<le> f v) \<Longrightarrow> 0 \<le> col_sum f t"
  by (auto simp: col_sum_def intro!: sum_list_nonneg)

lemma col_sum_delete:
  assumes "keyed t" and "map_of t k = Some w"
  shows "col_sum f (AList.delete k t) = col_sum f t - f w"
  using assms
proof (induction t)
  case (Cons x t)
  have "AList.delete k t = t" if "k \<notin> fst ` set t" using that by (simp add: delete_idem)
  then show ?case using Cons by (auto simp: col_sum_def keyed_def image_iff split: if_splits) 
qed simp

lemma col_sum_snoc [simp]: "col_sum f (t @ [(k, v)]) = col_sum f t + f v"
  by (simp add: col_sum_def)

lemma keyed_delete [simp]: "keyed t \<Longrightarrow> keyed (AList.delete k t)"
  by (simp add: keyed_def distinct_delete)

lemma in_set_update: "(j, w) \<in> set (AList.update k v t) \<Longrightarrow> j = k \<and> w = v \<or> (j, w) \<in> set t"
  by (induction t) (auto split: if_splits)

lemma in_set_delete: "(j, w) \<in> set (AList.delete k t) \<Longrightarrow> (j, w) \<in> set t"
  by (simp add: AList.delete_eq)

lemma col_sum_ge:
  assumes "map_of t k = Some w" and "\<And>j v. (j, v) \<in> set t \<Longrightarrow> 0 \<le> f v"
  shows "f w \<le> col_sum f t"
  using assms
proof (induction t)
  case (Cons x t)
  have "0 \<le> col_sum f t" using Cons.prems(2) by (intro col_sum_nonneg) auto
  moreover have "0 \<le> f (snd x)" using Cons.prems(2)[of "fst x" "snd x"] by simp
  ultimately show ?case using Cons by (force simp: col_sum_def split: if_splits)
qed simp

subsection \<open>Lists\<close>

text \<open>Reading past the end of an array gives \<open>undefined\<close>.\<close>

definition get_at :: "'a list \<Rightarrow> nat \<Rightarrow> 'a option" where
  "get_at xs i = (if i < length xs then Some (xs ! i) else None)"

lemma get_at_Some [simp]: "i < length xs \<Longrightarrow> get_at xs i = Some (xs ! i)"
  and get_at_None [simp]: "length xs \<le> i \<Longrightarrow> get_at xs i = None"
  by (simp_all add: get_at_def)

lemma sum_list_div_le:
  fixes xs :: "int list"
  assumes "0 < d"
  shows "sum_list (map (\<lambda>x. x div d) xs) * d \<le> sum_list xs"
proof (induction xs)
  case (Cons x xs)
  have "x div d * d \<le> x" using assms by (metis div_mult_mod_eq le_add_same_cancel1 pos_mod_sign)
  then show ?case using Cons.IH by (simp add: distrib_right)
qed simp

lemma div_less_of_mult_less:
  fixes a b q :: int
  assumes "0 < b" and "a < q * b"
  shows "a div b < q"
proof (rule ccontr)
  assume "\<not> a div b < q"
  then have "q * b \<le> a div b * b" using assms(1) by (simp add: mult_right_mono)
  also have "\<dots> \<le> a" using assms(1) by (metis div_mult_mod_eq le_add_same_cancel1 pos_mod_sign)
  finally show False using assms(2) by simp
qed

lemma le_div_of_mult_le:
  fixes a b q :: int
  assumes "0 < b" and "q * b \<le> a"
  shows "q \<le> a div b"
  using zdiv_mono1[OF assms(2,1)] assms(1) by simp

lemma div_mult_le: "0 < b \<Longrightarrow> a div b * b \<le> a" for a b :: int
  by (metis div_mult_mod_eq le_add_same_cancel1 pos_mod_sign)

lemma less_div_mult: "0 < b \<Longrightarrow> a < a div b * b + b" for a b :: int
  by (metis add_less_cancel_left div_mult_mod_eq pos_mod_bound)

text \<open>A total split by weights and rounded down share by share.\<close>

lemma weighted_split_bounds:
  fixes bs :: "int list"
  assumes "0 < d"
  shows "sum_list (map (\<lambda>b. w * b div d) bs) * d \<le> w * sum_list bs"
    and "w * sum_list bs \<le> sum_list (map (\<lambda>b. w * b div d) bs) * d + int (length bs) * (d - 1)"
proof (induction bs)
  case (Cons b bs)
  case 1
  show ?case using Cons(1) div_mult_le[OF assms, of "w * b"] by (simp add: algebra_simps)
  case 2
  show ?case using Cons(2) less_div_mult[OF assms, of "w * b"] by (simp add: algebra_simps)
qed simp_all

lemma swap_mset: "i < length xs \<Longrightarrow> j < length xs \<Longrightarrow> mset (xs[i := xs ! j, j := xs ! i]) = mset xs"
  by (rule mset_swap)

end
