(* ===== verification/Js_Number.thy ===== *)
theory Js_Number
  imports Complex_Main "HOL-Library.Log_Nat" Prelude
begin

text \<open>
  The two numeric types of the program. A JavaScript \<open>number\<close> is an IEEE 754 double: it is
  modelled by the rational it denotes, and every arithmetic operation of the source is followed
  by \<open>fl\<close>, the rounding to 53 significant bits, ties to even, that the language prescribes.
  Overflow to infinity, subnormals and NaN are left out: every value the modelled code computes
  lies between \<open>2 powi -60\<close> and \<open>2 powi 80\<close> in magnitude, or is zero. A \<open>bigint\<close> is an
  \<open>int\<close>; its \<open>/\<close> truncates towards zero and \<open>>>\<close> is the floor shift.
\<close>

subsection \<open>Rounding to 53 bits\<close>

definition round_half_even :: "rat \<Rightarrow> int" where
  "round_half_even x =
     (let f = \<lfloor>x\<rfloor>; r = x - of_int f
      in if r < 1 / 2 then f else if 1 / 2 < r then f + 1 else if even f then f else f + 1)"

definition binade :: "rat \<Rightarrow> int" where
  "binade x =
     (let (n, d) = quotient_of \<bar>x\<bar>; k = bitlen n - bitlen d
      in if 2 powi k \<le> \<bar>x\<bar> then k else k - 1)"

definition fl :: "rat \<Rightarrow> rat" where
  "fl x =
     (if x = 0 then 0
      else let u = 2 powi (binade x - 52) in of_int (round_half_even (x / u)) * u)"

definition representable :: "rat \<Rightarrow> bool" where
  "representable x \<longleftrightarrow> (\<exists>m e. \<bar>m\<bar> \<le> 2 ^ 53 \<and> x = of_int m * 2 powi e)"

lemma round_half_even_of_int [simp]: "round_half_even (of_int k) = k"
  by (simp add: round_half_even_def)

lemma round_half_even_bound: "\<bar>of_int (round_half_even x) - x\<bar> \<le> 1 / 2"
proof -
  have "of_int \<lfloor>x\<rfloor> \<le> x" "x < of_int \<lfloor>x\<rfloor> + 1" by linarith+
  then show ?thesis by (auto simp: round_half_even_def Let_def abs_le_iff)
qed

lemma round_half_even_range: "\<lfloor>x\<rfloor> \<le> round_half_even x \<and> round_half_even x \<le> \<lfloor>x\<rfloor> + 1"
  by (auto simp: round_half_even_def Let_def)

lemma round_half_even_mono: "x \<le> y \<Longrightarrow> round_half_even x \<le> round_half_even y"
proof (cases "\<lfloor>x\<rfloor> = \<lfloor>y\<rfloor>")
  case True
  assume "x \<le> y"
  with True show ?thesis by (auto simp: round_half_even_def Let_def)
next
  case False
  assume "x \<le> y"
  then have "\<lfloor>x\<rfloor> \<le> \<lfloor>y\<rfloor>" by (rule floor_mono)
  with False have "\<lfloor>x\<rfloor> + 1 \<le> \<lfloor>y\<rfloor>" by simp
  then show ?thesis using round_half_even_range[of x] round_half_even_range[of y] by linarith
qed

lemma round_half_even_minus: "round_half_even (- x) = - round_half_even x"
proof (cases "x = of_int \<lfloor>x\<rfloor>")
  case True
  then have "- x = of_int (- \<lfloor>x\<rfloor>)" by simp
  then show ?thesis using True by (metis round_half_even_of_int)
next
  case False
  have lt: "of_int \<lfloor>x\<rfloor> < x" "x < of_int \<lfloor>x\<rfloor> + 1" using False by linarith+
  then have fm: "\<lfloor>- x\<rfloor> = - \<lfloor>x\<rfloor> - 1" by (intro floor_unique) auto
  have ev: "even (- \<lfloor>x\<rfloor> - 1) \<longleftrightarrow> odd \<lfloor>x\<rfloor>" by presburger
  show ?thesis unfolding round_half_even_def Let_def fm using lt ev by auto
qed

lemma two_powi_pos [simp]: "(0::rat) < 2 powi k"
  by (simp add: zero_less_power_int)

lemma two_powi_add: "(2::rat) powi (a + b) = 2 powi a * 2 powi b"
  by (simp add: power_int_add)

lemma two_powi_le_iff [simp]: "((2::rat) powi a \<le> 2 powi b) = (a \<le> b)"
  by (metis linorder_not_le one_less_numeral_iff order_less_imp_le power_int_increasing
        power_int_strict_increasing semiring_norm(76) verit_comp_simplify1(3))

lemma two_powi_less_iff [simp]: "((2::rat) powi a < 2 powi b) = (a < b)"
  by (simp add: less_le_not_le)

lemma two_powi_nat: "0 \<le> k \<Longrightarrow> (2::rat) powi k = 2 ^ nat k"
  by (simp add: power_int_def)

lemma binade_bounds_pos:
  assumes "0 < x"
  shows "2 powi (binade x) \<le> x \<and> x < 2 powi (binade x + 1)"
proof -
  obtain n d where q: "quotient_of \<bar>x\<bar> = (n, d)" by (cases "quotient_of \<bar>x\<bar>")
  have d: "0 < d" using q by (rule quotient_of_denom_pos)
  have x: "x = of_int n / of_int d" using quotient_of_div[OF q] assms by simp
  have n: "0 < n" using assms d x by (simp add: zero_less_divide_iff)
  have bl: "2 powi (bitlen m - 1) \<le> rat_of_int m \<and> rat_of_int m < 2 powi (bitlen m)"
    if "0 < m" for m
  proof -
    have *: "2 ^ nat (bitlen m - 1) \<le> m" "m < 2 ^ nat (bitlen m)"
      using bitlen_bounds[OF that] by auto
    have "0 < bitlen m" using that compute_bitlen[of m] bitlen_nonneg[of "m div 2"] by simp
    then have "(2::rat) powi (bitlen m - 1) = of_int (2 ^ nat (bitlen m - 1))"
        "(2::rat) powi (bitlen m) = of_int (2 ^ nat (bitlen m))"
      by (simp_all add: two_powi_nat)
    then show ?thesis using * by (metis of_int_le_iff of_int_less_iff)
  qed
  let ?k = "bitlen n - bitlen d"
  have dpos: "0 < rat_of_int d" using d by simp
  have up: "x < 2 powi (?k + 1)"
  proof -
    have "rat_of_int n < 2 powi (?k + 1) * 2 powi (bitlen d - 1)"
      using bl[OF n] by (simp flip: two_powi_add)
    also have "\<dots> \<le> 2 powi (?k + 1) * of_int d" using bl[OF d] by simp
    finally show ?thesis using dpos by (simp add: x pos_divide_less_eq)
  qed
  have lo: "2 powi (?k - 1) \<le> x"
  proof -
    have "2 powi (?k - 1) * rat_of_int d \<le> 2 powi (?k - 1) * 2 powi (bitlen d)" using bl[OF d] by simp
    also have "\<dots> \<le> rat_of_int n" using bl[OF n] by (simp flip: two_powi_add)
    finally show ?thesis using dpos by (simp add: x pos_le_divide_eq)
  qed
  show ?thesis using up lo assms q by (auto simp: binade_def Let_def)
qed

lemma binade_minus [simp]: "binade (- x) = binade x"
  by (simp add: binade_def)

lemma binade_unique: "0 < x \<Longrightarrow> 2 powi k \<le> x \<Longrightarrow> x < 2 powi (k + 1) \<Longrightarrow> binade x = k"
proof -
  assume a: "0 < x" "2 powi k \<le> x" "x < 2 powi (k + 1)"
  have b: "2 powi (binade x) \<le> x" "x < 2 powi (binade x + 1)" using binade_bounds_pos[OF a(1)] by auto
  have "2 powi k < (2::rat) powi (binade x + 1)" using a b by (blast intro: le_less_trans)
  moreover have "2 powi (binade x) < (2::rat) powi (k + 1)" using a b by (blast intro: le_less_trans)
  ultimately show ?thesis by simp
qed

lemma binade_mono: "0 < x \<Longrightarrow> x \<le> y \<Longrightarrow> binade x \<le> binade y"
proof -
  assume a: "0 < x" "x \<le> y"
  have "2 powi (binade x) \<le> x" using binade_bounds_pos[OF a(1)] by auto
  also have "x < 2 powi (binade y + 1)" using a binade_bounds_pos[of y] by auto
  finally show ?thesis by simp
qed

lemma fl_0 [simp]: "fl 0 = 0"
  by (simp add: fl_def)

lemma fl_minus: "fl (- x) = - fl x"
  by (simp add: fl_def round_half_even_minus Let_def)

text \<open>For a positive argument the scaled significand lies in \<open>[2^52, 2^53]\<close>.\<close>

lemma fl_pos_bounds:
  assumes "0 < x"
  shows "2 powi (binade x) \<le> fl x \<and> fl x \<le> 2 powi (binade x + 1)"
proof -
  let ?u = "(2::rat) powi (binade x - 52)"
  have b: "2 powi (binade x) \<le> x" "x < 2 powi (binade x + 1)" using binade_bounds_pos[OF assms] by auto
  have u52: "(2::rat) powi (binade x) = 2 ^ 52 * ?u"
    using two_powi_add[of 52 "binade x - 52"] by (simp add: two_powi_nat algebra_simps)
  have u53: "(2::rat) powi (binade x + 1) = 2 ^ 53 * ?u"
    using two_powi_add[of 53 "binade x - 52"] by (simp add: two_powi_nat algebra_simps)
  have "of_int (2 ^ 52) \<le> x / ?u" using b u52 by (simp add: pos_le_divide_eq)
  then have "round_half_even (of_int (2 ^ 52)) \<le> round_half_even (x / ?u)" by (rule round_half_even_mono)
  then have lo: "2 ^ 52 \<le> round_half_even (x / ?u)" unfolding round_half_even_of_int .
  have "x / ?u \<le> of_int (2 ^ 53)" using b u53 by (simp add: pos_divide_le_eq)
  then have "round_half_even (x / ?u) \<le> round_half_even (of_int (2 ^ 53))" by (rule round_half_even_mono)
  then have hi: "round_half_even (x / ?u) \<le> 2 ^ 53" unfolding round_half_even_of_int .
  have eq: "fl x = of_int (round_half_even (x / ?u)) * ?u"
    using assms by (simp add: fl_def Let_def)
  have "of_int (2 ^ 52) * ?u \<le> fl x"
    unfolding eq using lo by (intro mult_right_mono) (simp_all only: of_int_le_iff two_powi_pos less_imp_le)
  moreover have "fl x \<le> of_int (2 ^ 53) * ?u"
    unfolding eq using hi by (intro mult_right_mono) (simp_all only: of_int_le_iff two_powi_pos less_imp_le)
  ultimately show ?thesis by (simp add: u52 u53)
qed

lemma fl_pos: "0 < x \<Longrightarrow> 0 < fl x"
  using fl_pos_bounds[of x] less_le_trans[OF two_powi_pos] by blast

lemma fl_nonneg: "0 \<le> x \<Longrightarrow> 0 \<le> fl x"
  using fl_pos[of x] by (cases "x = 0") auto

lemma fl_mono_pos: "0 < x \<Longrightarrow> x \<le> y \<Longrightarrow> fl x \<le> fl y"
proof (cases "binade x = binade y")
  case True
  assume "0 < x" "x \<le> y"
  then have "round_half_even (x / 2 powi (binade x - 52)) \<le> round_half_even (y / 2 powi (binade x - 52))"
    by (intro round_half_even_mono divide_right_mono) (auto simp: less_imp_le)
  then show ?thesis using True \<open>0 < x\<close> \<open>x \<le> y\<close> by (simp add: fl_def Let_def)
next
  case False
  assume a: "0 < x" "x \<le> y"
  then have "binade x + 1 \<le> binade y" using binade_mono[OF a] False by simp
  then have "(2::rat) powi (binade x + 1) \<le> 2 powi (binade y)" by simp
  then show ?thesis using fl_pos_bounds[of x] fl_pos_bounds[of y] a by (meson less_le_trans order_trans)
qed

lemma fl_mono: "x \<le> y \<Longrightarrow> fl x \<le> fl y"
proof -
  assume a: "x \<le> y"
  consider "0 < x" | "x \<le> 0" "0 \<le> y" | "y < 0" using a by linarith
  then show ?thesis
  proof cases
    case 1 then show ?thesis using a by (rule fl_mono_pos)
  next
    case 2
    then have "0 \<le> fl (- x)" "0 \<le> fl y" by (auto intro: fl_nonneg)
    then show ?thesis by (simp add: fl_minus)
  next
    case 3
    then have "fl (- y) \<le> fl (- x)" using a by (intro fl_mono_pos) auto
    then show ?thesis by (simp add: fl_minus)
  qed
qed


subsection \<open>Rounding error and exact values\<close>

lemma fl_error: "\<bar>fl x - x\<bar> \<le> \<bar>x\<bar> / 2 ^ 53"
proof -
  have pos: "\<bar>fl x - x\<bar> \<le> x / 2 ^ 53" if x: "0 < x" for x
  proof -
    let ?u = "(2::rat) powi (binade x - 52)"
    have b: "2 powi (binade x) \<le> x" using binade_bounds_pos[OF x] by auto
    have u52: "(2::rat) powi (binade x) = 2 ^ 52 * ?u"
      using two_powi_add[of 52 "binade x - 52"] by (simp add: two_powi_nat algebra_simps)
    have "fl x - x = (of_int (round_half_even (x / ?u)) - x / ?u) * ?u"
      using x by (simp add: fl_def Let_def left_diff_distrib)
    then have "\<bar>fl x - x\<bar> = \<bar>of_int (round_half_even (x / ?u)) - x / ?u\<bar> * ?u"
      by (simp add: abs_mult)
    also have "\<dots> \<le> 1 / 2 * ?u" by (intro mult_right_mono round_half_even_bound) simp
    also have "\<dots> \<le> x / 2 ^ 53" using b u52 by simp
    finally show ?thesis .
  qed
  consider "0 < x" | "x = 0" | "x < 0" by linarith
  then show ?thesis
  proof cases
    case 3
    then show ?thesis using pos[of "- x"] by (simp add: fl_minus abs_minus_commute)
  qed (use pos in auto)
qed

text \<open>The absolute form of the bound: half a unit in the last place.\<close>

lemma fl_ulp:
  assumes "0 < x" and "binade x = k"
  shows "\<bar>fl x - x\<bar> \<le> 2 powi (k - 53)"
proof -
  let ?u = "(2::rat) powi (binade x - 52)"
  have "fl x - x = (of_int (round_half_even (x / ?u)) - x / ?u) * ?u"
    using assms by (simp add: fl_def Let_def left_diff_distrib)
  then have "\<bar>fl x - x\<bar> = \<bar>of_int (round_half_even (x / ?u)) - x / ?u\<bar> * ?u"
    by (simp add: abs_mult)
  also have "\<dots> \<le> 1 / 2 * ?u" by (intro mult_right_mono round_half_even_bound) simp
  also have "\<dots> = 2 powi (k - 53)"
    using two_powi_add[of 1 "k - 53"] assms(2) by (simp add: two_powi_nat)
  finally show ?thesis .
qed

lemma fl_upper: "0 \<le> x \<Longrightarrow> fl x \<le> x + x / 2 ^ 53"
  and fl_lower: "0 \<le> x \<Longrightarrow> x - x / 2 ^ 53 \<le> fl x"
  using fl_error[of x] unfolding abs_le_iff by (simp_all add: abs_of_nonneg)

lemma fl_representable_pos:
  assumes x: "0 < x" and eq: "x = of_int m * 2 powi e" and m: "\<bar>m\<bar> \<le> 2 ^ 53"
  shows "fl x = x"
proof -
  let ?u = "(2::rat) powi (binade x - 52)"
  have b: "2 powi (binade x) \<le> x" using binade_bounds_pos[OF x] by auto
  obtain k :: int where k: "x / ?u = of_int k"
  proof (cases "binade x - 52 \<le> e")
    case True
    then have "x / ?u = of_int m * 2 powi (e - (binade x - 52))"
      by (simp add: eq power_int_diff)
    also have "\<dots> = of_int (m * 2 ^ nat (e - (binade x - 52)))"
      using True by (simp add: two_powi_nat)
    finally show ?thesis by (rule that)
  next
    case False
    have "(2::rat) powi (e + 53) \<le> 2 powi (binade x)" using False by simp
    also have "\<dots> \<le> of_int m * 2 powi e" using b eq by simp
    finally have "2 ^ 53 * 2 powi e \<le> rat_of_int m * 2 powi e" by (simp add: two_powi_add two_powi_nat)
    then have "rat_of_int (2 ^ 53) \<le> of_int m" by simp
    then have "2 ^ 53 \<le> m" by (simp only: of_int_le_iff)
    then have m53: "m = 2 ^ 53" using m by simp
    have x53: "x = 2 powi (e + 53)" unfolding eq m53 by (simp add: two_powi_add two_powi_nat)
    have "binade x = e + 53" using x by (intro binade_unique) (auto simp: x53)
    then have "x / ?u = 2 powi 52" by (simp add: x53 flip: power_int_diff)
    then have "x / ?u = of_int (2 ^ 52)" by (simp add: two_powi_nat)
    then show ?thesis by (rule that)
  qed
  then show ?thesis using x by (simp add: fl_def Let_def) (simp add: field_simps)
qed

lemma fl_representable: "representable x \<Longrightarrow> fl x = x"
proof -
  assume "representable x"
  then obtain m e where me: "\<bar>m\<bar> \<le> 2 ^ 53" "x = of_int m * 2 powi e" by (auto simp: representable_def)
  consider "0 < x" | "x = 0" | "x < 0" by linarith
  then show ?thesis
  proof cases
    case 1 then show ?thesis using me by (blast intro: fl_representable_pos)
  next
    case 3
    then have "fl (- x) = - x" using me by (intro fl_representable_pos[of _ "- m" e]) auto
    then show ?thesis by (simp add: fl_minus)
  qed simp
qed

lemma fl_of_int: "\<bar>k\<bar> \<le> 2 ^ 53 \<Longrightarrow> fl (of_int k) = of_int k"
  by (rule fl_representable, unfold representable_def, rule exI[of _ k], rule exI[of _ 0]) simp

lemma fl_dyadic: "\<bar>k\<bar> \<le> 2 ^ 53 \<Longrightarrow> fl (of_int k / 2 ^ n) = of_int k / 2 ^ n"
  by (rule fl_representable, unfold representable_def, rule exI[of _ k], rule exI[of _ "- int n"])
    (simp add: power_int_minus divide_inverse)

text \<open>Rounding never crosses an integer below \<open>2^53\<close>, so floors survive it.\<close>

lemma fl_floor_le: "0 \<le> x \<Longrightarrow> x \<le> 2 ^ 53 \<Longrightarrow> \<lfloor>x\<rfloor> \<le> \<lfloor>fl x\<rfloor>"
proof -
  assume a: "0 \<le> x" "x \<le> 2 ^ 53"
  then have "x \<le> of_int (2 ^ 53)" by simp
  then have "\<lfloor>x\<rfloor> \<le> \<lfloor>rat_of_int (2 ^ 53)\<rfloor>" by (rule floor_mono)
  then have r: "\<bar>\<lfloor>x\<rfloor>\<bar> \<le> 2 ^ 53" using a by (simp only: floor_of_int) simp
  have "of_int \<lfloor>x\<rfloor> \<le> x" by simp
  then have "fl (of_int \<lfloor>x\<rfloor>) \<le> fl x" by (rule fl_mono)
  then show ?thesis using r by (simp add: fl_of_int le_floor_iff)
qed

lemma fl_floor_le_of_int: "\<bar>k\<bar> \<le> 2 ^ 53 \<Longrightarrow> x \<le> of_int k \<Longrightarrow> fl x \<le> of_int k"
  using fl_mono[of x "of_int k"] by (simp add: fl_of_int)

text \<open>
  The floor of a rounded integer quotient is the exact integer quotient, as long as the operands
  stay below \<open>2^53\<close>: the quotient is further from the next integer than the rounding error.
\<close>

lemma fl_div_floor:
  assumes "0 \<le> a" and "0 < b" and "a < 2 ^ 53"
  shows "\<lfloor>fl (of_int a / of_int b)\<rfloor> = a div b"
proof (rule floor_unique)
  let ?q = "a div b" and ?x = "rat_of_int a / of_int b"
  have "b * ?q + a mod b = a" by (rule mult_div_mod_eq)
  then have q: "b * ?q \<le> a" "a + 1 \<le> b * ?q + b"
    using pos_mod_sign[OF assms(2), of a] pos_mod_bound[OF assms(2), of a] by linarith+
  have q0: "0 \<le> ?q" using assms by (simp add: pos_imp_zdiv_nonneg_iff)
  then have "1 * ?q \<le> b * ?q" using assms by (intro mult_right_mono) auto
  then have qa: "\<bar>?q\<bar> \<le> 2 ^ 53" using q q0 assms by simp
  have b: "0 < rat_of_int b" using assms by simp
  have qr: "rat_of_int b * of_int ?q \<le> of_int a" "of_int a + 1 \<le> rat_of_int b * of_int ?q + of_int b"
    using q[unfolded of_int_le_iff[where 'a = rat, symmetric]] by (simp_all only: of_int_mult of_int_add of_int_1)
  have "of_int ?q \<le> ?x" using qr(1) b by (simp add: pos_le_divide_eq mult.commute)
  then have "fl (of_int ?q) \<le> fl ?x" by (rule fl_mono)
  then show "of_int ?q \<le> fl ?x" using qa by (simp add: fl_of_int)
  have x0: "0 \<le> ?x" using assms by simp
  then have "fl ?x \<le> ?x + ?x / 2 ^ 53" by (rule fl_upper)
  also have "?x / 2 ^ 53 < 1 / of_int b"
  proof -
    have "rat_of_int a < of_int (2 ^ 53)" using assms(3) by (simp only: of_int_less_iff)
    then show ?thesis using b by (simp add: field_simps)
  qed
  also have "?x + 1 / of_int b \<le> of_int ?q + 1"
    using qr(2) b by (simp add: add_divide_distrib[symmetric] pos_divide_le_eq algebra_simps)
  finally show "fl ?x < of_int ?q + 1" by simp
qed

subsection \<open>The operations of the source\<close>

text \<open>
  \<open>js_round\<close> is \<open>Math.round\<close> (half up), \<open>js_ceil\<close> and \<open>js_floor\<close> the other two; \<open>floor2\<close> is the
  pattern \<open>Math.floor(x * 100) / 100\<close> with which every payout helper cuts a multiplier to two
  decimals. \<open>HiloService.floor2\<close> is the one place where the source names it.
\<close>

definition js_floor :: "rat \<Rightarrow> int" where
  "js_floor x = \<lfloor>x\<rfloor>"

definition js_ceil :: "rat \<Rightarrow> int" where
  "js_ceil x = \<lceil>x\<rceil>"

definition js_round :: "rat \<Rightarrow> int" where
  "js_round x = \<lfloor>x + 1 / 2\<rfloor>"

definition centi :: "int \<Rightarrow> rat" where
  "centi k = fl (of_int k / 100)"

definition floor2 :: "rat \<Rightarrow> rat" where
  "floor2 x = centi (js_floor (fl (x * 100)))"

definition bigint_div :: "int \<Rightarrow> int \<Rightarrow> int" where
  "bigint_div a b = sgn a * sgn b * (\<bar>a\<bar> div \<bar>b\<bar>)"

definition bigint_shr :: "int \<Rightarrow> nat \<Rightarrow> int" where
  "bigint_shr a n = a div 2 ^ n"

lemma bigint_div_nonneg: "0 \<le> a \<Longrightarrow> 0 < b \<Longrightarrow> bigint_div a b = a div b"
  by (cases "a = 0") (auto simp: bigint_div_def)

lemma bigint_div_ge0: "0 \<le> a \<Longrightarrow> 0 < b \<Longrightarrow> 0 \<le> bigint_div a b"
  by (simp add: bigint_div_nonneg pos_imp_zdiv_nonneg_iff)

lemma bigint_div_mult_le: "0 \<le> a \<Longrightarrow> 0 < b \<Longrightarrow> bigint_div a b * b \<le> a"
  by (simp add: bigint_div_nonneg) (metis div_mult_mod_eq le_add_same_cancel1 pos_mod_sign)

lemma bigint_div_mono: "0 \<le> a \<Longrightarrow> a \<le> a' \<Longrightarrow> 0 < b \<Longrightarrow> bigint_div a b \<le> bigint_div a' b"
  by (simp add: bigint_div_nonneg zdiv_mono1)

lemma bigint_shr_nonneg: "0 \<le> a \<Longrightarrow> 0 \<le> bigint_shr a n"
  by (simp add: bigint_shr_def pos_imp_zdiv_nonneg_iff)

lemma bigint_shr_le: "0 \<le> a \<Longrightarrow> bigint_shr a n \<le> a"
  using zdiv_mono2[of a 1 "2 ^ n"] by (simp add: bigint_shr_def)

lemma centi_mono: "j \<le> k \<Longrightarrow> centi j \<le> centi k"
  by (simp add: centi_def fl_mono divide_right_mono)

lemma centi_nonneg: "0 \<le> k \<Longrightarrow> 0 \<le> centi k"
  by (simp add: centi_def fl_nonneg)

lemma centi_0 [simp]: "centi 0 = 0"
  by (simp add: centi_def)

lemma centi_pos: "0 < k \<Longrightarrow> 0 < centi k"
  by (simp add: centi_def fl_pos)

lemma centi_100 [simp]: "centi 100 = 1"
  using fl_of_int[of 1] by (simp add: centi_def)

text \<open>
  A multiplier with two decimals survives the trip through a double: multiplied by 100 and rounded
  it gives back its hundredths. This is what makes the payouts exact integer arithmetic.
\<close>

lemma js_round_centi:
  assumes "0 \<le> k" and "k \<le> 2 ^ 50"
  shows "js_round (fl (centi k * 100)) = k"
proof -
  let ?k = "rat_of_int k" and ?y = "centi k * 100"
  have k: "0 \<le> ?k" "?k \<le> 2 ^ 50"
    using assms by (simp_all add: of_int_le_iff[of _ "2 ^ 50", symmetric, where 'a = rat] del: of_int_le_iff)
  have "\<bar>centi k - ?k / 100\<bar> \<le> ?k / 100 / 2 ^ 53" using fl_error[of "?k / 100"] k by (simp add: centi_def)
  moreover have "\<bar>?y - ?k\<bar> = 100 * \<bar>centi k - ?k / 100\<bar>" by (simp add: abs_if)
  ultimately have y: "\<bar>?y - ?k\<bar> \<le> ?k / 2 ^ 53" by simp
  have k8: "?k / 2 ^ 53 \<le> 1 / 8" using k by simp
  then have y8: "?k - 1 / 8 \<le> ?y" "?y \<le> ?k + 1 / 8" using y unfolding abs_le_iff by linarith+
  have "0 \<le> ?y" using assms by (simp add: centi_nonneg)
  then have "\<bar>?y\<bar> / 2 ^ 53 \<le> 1 / 4" using y8 k by simp
  then have "\<bar>fl ?y - ?y\<bar> \<le> 1 / 4" using fl_error[of ?y] by (rule order_trans[rotated])
  then have "\<bar>fl ?y - ?k\<bar> \<le> 3 / 8" using y8 unfolding abs_le_iff by linarith
  then have "?k \<le> fl ?y + 1 / 2" "fl ?y + 1 / 2 < ?k + 1" unfolding abs_le_iff by linarith+
  then show ?thesis unfolding js_round_def by (intro floor_unique)
qed

end
