(* ===== verification/Fair_Core.thy ===== *)
theory Fair_Core
  imports Js_Number "HOL-Library.Word"
begin

text \<open>
  \<open>packages/fair/src\<close>: the HMAC message, the uniform float stream and the single-draw games
  (crash, coinflip, dice, limbo, wheel, plinko, hi-lo, daily case).

  HMAC-SHA256 and SHA-256 come from \<open>node:crypto\<close>. They are parameters: a function from key and
  message (or from the hashed bytes) to a 256-bit digest; nothing else is used of them. Strings
  are lists of bytes, the UTF-8 encoding of the JavaScript string.
\<close>

type_synonym digest = "256 word"
type_synonym hmac = "string \<Rightarrow> string \<Rightarrow> digest"
type_synonym byte = "8 word"
type_synonym sha = "byte list \<Rightarrow> digest"

subsection \<open>Digests, hexadecimal and decimal text (hash.ts)\<close>

definition hex_digit :: "nat \<Rightarrow> char" where
  "hex_digit n = ''0123456789abcdef'' ! n"

definition hex_value :: "char \<Rightarrow> nat" where
  "hex_value c = (let n = of_char c in if n < 58 then n - 48 else n - 87)"

definition digest_hex :: "digest \<Rightarrow> string" where
  "digest_hex d = map (\<lambda>i. hex_digit (unat d div 16 ^ (63 - i) mod 16)) [0..<64]"

definition digest_byte :: "digest \<Rightarrow> nat \<Rightarrow> nat" where
  "digest_byte d i = unat d div 256 ^ (31 - i) mod 256"

definition digest_bytes :: "digest \<Rightarrow> byte list" where
  "digest_bytes d = map (\<lambda>i. of_nat (digest_byte d i)) [0..<32]"

text \<open>\<open>parseInt(s, 16)\<close> and \<open>BigInt('0x' + s)\<close> on a string of hexadecimal digits.\<close>

definition parse_hex :: "string \<Rightarrow> nat" where
  "parse_hex s = foldl (\<lambda>acc c. acc * 16 + hex_value c) 0 s"

fun decimal :: "nat \<Rightarrow> string" where
  "decimal n = (if n < 10 then [hex_digit n] else decimal (n div 10) @ [hex_digit (n mod 10)])"

declare decimal.simps [simp del]

definition hmacSha256 :: "hmac \<Rightarrow> string \<Rightarrow> string \<Rightarrow> string" where
  "hmacSha256 hmac serverSeed message = digest_hex (hmac serverSeed message)"

definition utf8 :: "string \<Rightarrow> byte list" where
  "utf8 s = map (\<lambda>c. of_nat (of_char c)) s"

definition sha256_hex :: "sha \<Rightarrow> string \<Rightarrow> string" where
  "sha256_hex sha s = digest_hex (sha (utf8 s))"

definition buildMessage :: "string \<Rightarrow> nat \<Rightarrow> string" where
  "buildMessage clientSeed nonce = clientSeed @ '':'' @ decimal nonce"

definition commitServerSeed :: "sha \<Rightarrow> string \<Rightarrow> string" where
  "commitServerSeed sha serverSeed = sha256_hex sha serverSeed"

lemma nat_less_16_cases:
  assumes "n < (16::nat)"
  shows "n \<in> {0, 1, 2, 3, 4, 5, 6, 7, 8, 9, 10, 11, 12, 13, 14, 15}"
  using assms by auto presburger

lemma hex_value_digit [simp]: "n < 16 \<Longrightarrow> hex_value (hex_digit n) = n"
  using nat_less_16_cases[of n] by (auto simp: hex_digit_def hex_value_def Let_def)

lemma parse_hex_snoc: "parse_hex (s @ [c]) = parse_hex s * 16 + hex_value c"
  by (simp add: parse_hex_def)

text \<open>The first \<open>k\<close> hexadecimal digits of a digest are its top \<open>4 k\<close> bits.\<close>

lemma parse_hex_take:
  assumes "k \<le> 64"
  shows "parse_hex (take k (digest_hex d)) = unat d div 16 ^ (64 - k)"
  using assms
proof (induction k)
  case 0
  have "unat d < 2 ^ 256" using unsigned_less[of d, where 'a = nat] by simp
  then show ?case by (simp add: parse_hex_def)
next
  case (Suc k)
  have step: "take (Suc k) (digest_hex d) =
      take k (digest_hex d) @ [hex_digit (unat d div 16 ^ (63 - k) mod 16)]"
    using Suc.prems by (simp add: take_Suc_conv_app_nth digest_hex_def)
  have "64 - k = Suc (63 - k)" using Suc.prems by simp
  then have e: "(16::nat) ^ (64 - k) = 16 ^ (63 - k) * 16" by simp
  have "parse_hex (take (Suc k) (digest_hex d)) =
      unat d div (16 ^ (63 - k) * 16) * 16 + unat d div 16 ^ (63 - k) mod 16"
    using Suc by (simp add: step parse_hex_snoc e)
  also have "\<dots> = unat d div 16 ^ (63 - k)"
    by (simp add: div_mult2_eq)
  finally show ?case using Suc.prems by simp
qed

lemma parse_hex_digest: "parse_hex (digest_hex d) = unat d"
  using parse_hex_take[of 64 d] by (simp add: digest_hex_def)

text \<open>The message of a bet determines the client seed and the nonce.\<close>

lemma hex_digit_no_colon [simp]: "n < 16 \<Longrightarrow> CHR '':'' \<noteq> hex_digit n"
  using nat_less_16_cases[of n] by (auto simp: hex_digit_def)

lemma decimal_no_colon: "CHR '':'' \<notin> set (decimal n)"
proof (induction n rule: decimal.induct)
  case (1 n)
  have "n mod 10 < 16" by (rule less_trans[of _ 10]) simp_all
  then show ?case using 1 by (subst decimal.simps) auto
qed

lemma parse_decimal: "foldl (\<lambda>acc c. acc * 10 + hex_value c) 0 (decimal n) = n"
proof (induction n rule: decimal.induct)
  case (1 n)
  then show ?case by (subst decimal.simps) auto
qed

lemma decimal_inj [simp]: "decimal m = decimal n \<longleftrightarrow> m = n"
  by (metis parse_decimal)

lemma decimal_digits: "c \<in> set (decimal n) \<Longrightarrow> c \<in> set ''0123456789''"
proof (induction n rule: decimal.induct)
  case (1 n)
  have h: "hex_digit m \<in> set ''0123456789''" if "m < 10" for m
    using nat_less_16_cases[of m] that by (auto simp: hex_digit_def)
  have "set (decimal n) = (if n < 10 then {hex_digit n} else insert (hex_digit (n mod 10)) (set (decimal (n div 10))))"
    by (subst decimal.simps) auto
  then show ?case using 1 h[of n] h[of "n mod 10"] by (auto split: if_splits)
qed

lemma first_colon_split:
  "xs @ c # ys = xs' @ c # ys' \<Longrightarrow> c \<notin> set xs \<Longrightarrow> c \<notin> set xs' \<Longrightarrow> xs = xs' \<and> ys = ys'"
proof (induction xs arbitrary: xs')
  case Nil
  then show ?case by (cases xs') auto
next
  case (Cons x xs)
  then show ?case by (cases xs') auto
qed

lemma last_colon_split:
  assumes "xs @ '':'' @ ys = xs' @ '':'' @ ys'"
    and "CHR '':'' \<notin> set ys" and "CHR '':'' \<notin> set ys'"
  shows "xs = xs' \<and> ys = ys'"
proof -
  have "rev ys @ CHR '':'' # rev xs = rev ys' @ CHR '':'' # rev xs'"
    using arg_cong[OF assms(1), of rev] by simp
  then show ?thesis using assms(2,3) by (auto dest: first_colon_split)
qed

lemma buildMessage_inj: "buildMessage c n = buildMessage c' n' \<longleftrightarrow> c = c' \<and> n = n'"
  using last_colon_split[of c "decimal n" c' "decimal n'"]
  by (auto simp: buildMessage_def decimal_no_colon)

end
