(* ===== verification/Shared_Config.thy ===== *)
theory Shared_Config
  imports Js_Number
begin

text \<open>
  The numeric constants of \<open>packages/shared/src/constants.ts\<close> that more than one component reads.
  A decimal literal of the source is the double nearest to it.
\<close>

definition LAMPORTS_PER_SOL :: int where "LAMPORTS_PER_SOL = 1000000000"

definition HOUSE_EDGE :: rat where "HOUSE_EDGE = fl (5 / 100)"

definition RTP :: rat where "RTP = fl (1 - HOUSE_EDGE)"

text \<open>The bet limits every game shares: 0.001 SOL to 100 SOL.\<close>

definition MIN_BET_LAMPORTS :: int where "MIN_BET_LAMPORTS = 1000000"

definition MAX_BET_LAMPORTS :: int where "MAX_BET_LAMPORTS = 100 * LAMPORTS_PER_SOL"

text \<open>The catalogue of games; \<open>GameType\<close> in the source is the type of its ids.\<close>

datatype game =
    Crash | Coinflip | Jackpot | Lottery | Blackjack
  | Dice | Limbo | Wheel | Plinko | Mines | Hilo | Tower | Keno

end
