(* ===== verification/Fair_Games.thy ===== *)
theory Fair_Games
  imports Fair_Core Shared_Config
begin

text \<open>
  The float stream (\<open>floats.ts\<close>) and the games that draw one number or one number per step from
  the HMAC: crash, coinflip, dice, limbo, wheel, plinko, hi-lo and the daily case.
\<close>

subsection \<open>The uniform float stream (floats.ts)\<close>

definition float4 :: "nat \<Rightarrow> nat \<Rightarrow> nat \<Rightarrow> nat \<Rightarrow> rat" where
  "float4 b0 b1 b2 b3 =
     fl (fl (fl (fl (of_nat b0 / 256) + fl (of_nat b1 / 256 ^ 2)) + fl (of_nat b2 / 256 ^ 3))
       + fl (of_nat b3 / 256 ^ 4))"

definition floatBlock :: "hmac \<Rightarrow> string \<Rightarrow> string \<Rightarrow> nat \<Rightarrow> nat \<Rightarrow> rat list" where
  "floatBlock hmac serverSeed clientSeed nonce block =
     (let d = hmac serverSeed (clientSeed @ '':'' @ decimal nonce @ '':'' @ decimal block)
      in map (\<lambda>i. float4 (digest_byte d (4 * i)) (digest_byte d (4 * i + 1))
                     (digest_byte d (4 * i + 2)) (digest_byte d (4 * i + 3))) [0..<8])"

definition floatsFromHmac :: "hmac \<Rightarrow> string \<Rightarrow> string \<Rightarrow> nat \<Rightarrow> nat \<Rightarrow> rat list" where
  "floatsFromHmac hmac serverSeed clientSeed nonce cnt =
     take cnt (concat (map (floatBlock hmac serverSeed clientSeed nonce) [0..<(cnt + 7) div 8]))"

text \<open>A float of the stream is a 32-bit fraction: no rounding happens in its four additions.\<close>

definition unit_float :: "rat \<Rightarrow> bool" where
  "unit_float u \<longleftrightarrow> (\<exists>N. 0 \<le> N \<and> N < 2 ^ 32 \<and> u = of_int N / 2 ^ 32)"

lemma digest_byte_less [simp]: "digest_byte d i < 256"
  by (simp add: digest_byte_def)

lemma float4_exact:
  assumes "b0 < 256" "b1 < 256" "b2 < 256" "b3 < 256"
  shows "float4 b0 b1 b2 b3 = of_nat (((b0 * 256 + b1) * 256 + b2) * 256 + b3) / 2 ^ 32"
proof -
  have ex: "fl (of_nat k / 2 ^ n) = of_nat k / 2 ^ n" if "k \<le> 2 ^ 53" for k n :: nat
    using fl_dyadic[of "int k" n] that by simp
  have e: "fl (of_nat b0 / 256) = of_nat b0 / 256" "fl (of_nat b1 / 65536) = of_nat b1 / 65536"
    "fl (of_nat b2 / 16777216) = of_nat b2 / 16777216"
    "fl (of_nat b3 / 4294967296) = of_nat b3 / 4294967296"
    using ex[of b0 8] ex[of b1 16] ex[of b2 24] ex[of b3 32] assms by simp_all
  have a1: "of_nat b0 / 256 + of_nat b1 / 65536 = rat_of_nat (b0 * 256 + b1) / 2 ^ 16"
    by (simp add: field_simps)
  have a2: "rat_of_nat (b0 * 256 + b1) / 2 ^ 16 + of_nat b2 / 16777216 =
      of_nat ((b0 * 256 + b1) * 256 + b2) / 2 ^ 24"
    by (simp add: field_simps)
  have a3: "rat_of_nat ((b0 * 256 + b1) * 256 + b2) / 2 ^ 24 + of_nat b3 / 4294967296 =
      of_nat (((b0 * 256 + b1) * 256 + b2) * 256 + b3) / 2 ^ 32"
    by (simp add: field_simps)
  have n: "b0 * 256 + b1 \<le> 2 ^ 53" "(b0 * 256 + b1) * 256 + b2 \<le> 2 ^ 53"
    "((b0 * 256 + b1) * 256 + b2) * 256 + b3 \<le> 2 ^ 53"
    using assms by simp_all
  have p: "(256::rat) ^ 2 = 65536" "(256::rat) ^ 3 = 16777216" "(256::rat) ^ 4 = 4294967296"
    by simp_all
  show ?thesis unfolding float4_def p e a1 ex[OF n(1)] a2 ex[OF n(2)] a3 ex[OF n(3)] ..
qed

lemma float4_unit:
  assumes "b0 < 256" "b1 < 256" "b2 < 256" "b3 < 256"
  shows "unit_float (float4 b0 b1 b2 b3)"
  unfolding unit_float_def float4_exact[OF assms] using assms
  by (intro exI[of _ "int (((b0 * 256 + b1) * 256 + b2) * 256 + b3)"]) auto

lemma length_concat_blocks: "length (concat (map (floatBlock hmac s c n) bs)) = 8 * length bs"
  by (induction bs) (auto simp: floatBlock_def Let_def)

lemma floatsFromHmac_length [simp]: "length (floatsFromHmac hmac s c n cnt) = cnt"
  by (simp add: floatsFromHmac_def length_concat_blocks)

lemma floatsFromHmac_unit: "u \<in> set (floatsFromHmac hmac s c n cnt) \<Longrightarrow> unit_float u"
  by (auto simp: floatsFromHmac_def floatBlock_def Let_def intro!: float4_unit dest!: in_set_takeD)

lemma floatsFromHmac_nth_unit: "i < cnt \<Longrightarrow> unit_float (floatsFromHmac hmac s c n cnt ! i)"
  by (rule floatsFromHmac_unit) (rule nth_mem, simp)

text \<open>\<open>Math.floor(u * m)\<close> for an integer \<open>m\<close>: exact, and in range.\<close>

lemma unit_float_scale:
  assumes "u = of_int N / 2 ^ 32" and "0 \<le> N" and "N < 2 ^ 32" and "0 < m" and "m \<le> 2 ^ 21"
  shows "js_floor (fl (u * of_int m)) = N * m div 2 ^ 32"
proof -
  have "N * m \<le> 2 ^ 32 * 2 ^ 21" using assms by (intro mult_mono) auto
  then have "\<bar>N * m\<bar> \<le> 2 ^ 53" using assms by simp
  then have "fl (of_int (N * m) / 2 ^ 32) = of_int (N * m) / 2 ^ 32" by (rule fl_dyadic)
  then have "fl (u * of_int m) = of_int (N * m) / of_int (2 ^ 32)" by (simp add: assms(1))
  then show ?thesis unfolding js_floor_def by (simp only: floor_divide_of_int_eq)
qed

lemma unit_float_range:
  assumes "unit_float u" and "0 < m" and "m \<le> 2 ^ 21"
  shows "0 \<le> js_floor (fl (u * of_int m)) \<and> js_floor (fl (u * of_int m)) < m"
proof -
  obtain N where N: "0 \<le> N" "N < 2 ^ 32" "u = of_int N / 2 ^ 32" using assms by (auto simp: unit_float_def)
  have "N * m < 2 ^ 32 * m" using N assms by (intro mult_strict_right_mono) auto
  then have "N * m div 2 ^ 32 < m" by (intro div_less_of_mult_less) (simp_all add: mult.commute)
  then show ?thesis using N assms unit_float_scale[OF N(3) N(1,2) assms(2,3)]
    by (simp add: pos_imp_zdiv_nonneg_iff)
qed

subsection \<open>Games of one 52-bit draw (crash.ts, coinflip.ts, case.ts)\<close>

text \<open>\<open>parseInt(hash.slice(0, 13), 16)\<close>: the top 52 bits of the digest.\<close>

definition hash52 :: "hmac \<Rightarrow> string \<Rightarrow> string \<Rightarrow> nat \<Rightarrow> int" where
  "hash52 hmac serverSeed clientSeed nonce =
     int (parse_hex (take 13 (hmacSha256 hmac serverSeed (buildMessage clientSeed nonce))))"

definition crash_formula :: "int \<Rightarrow> rat" where
  "crash_formula h =
     (if h mod 20 = 0 then 1
      else let e = 2 ^ 52
           in centi (js_floor (fl (fl (fl (100 * e) - of_int h) / fl (e - of_int h)))))"

definition crashPoint :: "hmac \<Rightarrow> string \<Rightarrow> string \<Rightarrow> nat \<Rightarrow> rat" where
  "crashPoint hmac serverSeed clientSeed nonce =
     crash_formula (hash52 hmac serverSeed clientSeed nonce)"

text \<open>
  \<open>growthRate ** tMs\<close> and \<open>Math.log\<close> are correctly rounded by no standard: they are parameters.
  \<open>toFixed(2)\<close> rounds the exact value to the nearest hundredth, the larger one on a tie.
\<close>

definition to_fixed2 :: "rat \<Rightarrow> rat" where
  "to_fixed2 x = centi \<lfloor>x * 100 + 1 / 2\<rfloor>"

definition crashMultiplierAt :: "(rat \<Rightarrow> int \<Rightarrow> rat) \<Rightarrow> int \<Rightarrow> rat \<Rightarrow> rat" where
  "crashMultiplierAt pow tMs growthRate =
     (if tMs \<le> 0 then 1 else max 1 (to_fixed2 (pow growthRate tMs)))"

definition crashTimeForMultiplier :: "(rat \<Rightarrow> rat) \<Rightarrow> rat \<Rightarrow> rat \<Rightarrow> int" where
  "crashTimeForMultiplier log_e multiplier growthRate =
     (if multiplier \<le> 1 then 0 else js_ceil (fl (log_e multiplier / log_e growthRate)))"

datatype side = Heads | Tails

definition coinflipResult :: "hmac \<Rightarrow> string \<Rightarrow> string \<Rightarrow> nat \<Rightarrow> side" where
  "coinflipResult hmac serverSeed clientSeed nonce =
     (let firstByte = parse_hex (take 2 (hmacSha256 hmac serverSeed (buildMessage clientSeed nonce)))
      in if firstByte mod 2 = 0 then Heads else Tails)"

definition dailyCaseRoll :: "hmac \<Rightarrow> string \<Rightarrow> string \<Rightarrow> nat \<Rightarrow> rat" where
  "dailyCaseRoll hmac serverSeed clientSeed nonce =
     fl (of_int (hash52 hmac serverSeed clientSeed nonce) / 2 ^ 52)"

definition pickCaseTier :: "('t \<Rightarrow> rat) \<Rightarrow> rat \<Rightarrow> 't list \<Rightarrow> 't result" where
  "pickCaseTier chance roll tiers =
     (if tiers = [] then Inl (Internal ''pickCaseTier: empty tier table'')
      else case List.find (\<lambda>t. roll < chance t) tiers of
             Some t \<Rightarrow> Inr t | None \<Rightarrow> Inr (last tiers))"

lemma hash52_range: "0 \<le> hash52 hmac s c n \<and> hash52 hmac s c n < 2 ^ 52"
proof -
  let ?d = "hmac s (buildMessage c n)"
  have "unat ?d < 2 ^ 256" using unsigned_less[of ?d, where 'a = nat] by simp
  then have "unat ?d div 16 ^ 51 < 2 ^ 52" by (intro less_mult_imp_div_less) simp
  then have "parse_hex (take 13 (digest_hex ?d)) < 2 ^ 52" by (simp add: parse_hex_take)
  then show ?thesis unfolding hash52_def hmacSha256_def by simp
qed

text \<open>
  The numerator \<open>100 * 2^52 - h\<close> does not fit in 53 bits: it is rounded to a multiple of 64. The
  quotient still grows with \<open>h\<close>, because the denominator loses more than the rounding can give.
\<close>

definition crash_num :: "int \<Rightarrow> rat" where
  "crash_num h = fl (fl (100 * 2 ^ 52) - of_int h)"

lemma fl_100e [simp]: "fl 450359962737049600 = 450359962737049600"
proof -
  have "100 * 2 ^ 52 = rat_of_int 100 * 2 powi 52" by (simp add: two_powi_nat)
  then have "representable (100 * 2 ^ 52)" unfolding representable_def
    by (intro exI[of _ 100] exI[of _ 52]) simp
  then show ?thesis using fl_representable[of "100 * 2 ^ 52"] by simp
qed

lemma crash_num_error:
  assumes "0 \<le> h" and "h < 2 ^ 52"
  shows "crash_num h \<le> 100 * 2 ^ 52 - of_int h + 32"
    and "100 * 2 ^ 52 - of_int h - 32 \<le> crash_num h"
proof -
  let ?x = "100 * 2 ^ 52 - rat_of_int h"
  have h: "0 \<le> rat_of_int h" "rat_of_int h < 2 ^ 52"
    using assms by (simp_all add: of_int_less_iff[of _ "2 ^ 52", symmetric, where 'a = rat] del: of_int_less_iff)
  have "binade ?x = 58" by (rule binade_unique) (use h in \<open>simp_all add: two_powi_nat\<close>)
  then have "\<bar>fl ?x - ?x\<bar> \<le> 2 powi (58 - 53)" using h by (intro fl_ulp) auto
  then have "\<bar>crash_num h - ?x\<bar> \<le> 32" by (simp add: crash_num_def two_powi_nat)
  then have "crash_num h - ?x \<le> 32" "- (crash_num h - ?x) \<le> 32" unfolding abs_le_iff by blast+
  then show "crash_num h \<le> 100 * 2 ^ 52 - of_int h + 32" "100 * 2 ^ 52 - of_int h - 32 \<le> crash_num h"
    by linarith+
qed

lemma fl_e_minus: "0 \<le> h \<Longrightarrow> h < 2 ^ 52 \<Longrightarrow> fl (2 ^ 52 - of_int h) = of_int (2 ^ 52 - h)"
  using fl_of_int[of "2 ^ 52 - h"] by simp

lemma quotient_step:
  fixes t h h' N N' :: rat
  assumes "0 \<le> h" "1 \<le> h' - h" "h' \<le> t - 1"
    and N: "100 * t - h - 32 \<le> N" "N \<le> 100 * t - h + 32" and N': "100 * t - h' - 32 \<le> N'"
  shows "N / (t - h) \<le> N' / (t - h')"
proof -
  have pos: "0 < t - h" "0 < t - h'" using assms by linarith+
  have le: "65 * (t - h) \<le> N" "N \<le> N' + 65 * (h' - h)" using assms by (simp_all add: algebra_simps)
  have "65 * (t - h) * (h' - h) \<le> N * (h' - h)" using le(1) assms by (intro mult_right_mono) auto
  moreover have "N * (t - h) \<le> (N' + 65 * (h' - h)) * (t - h)" using le(2) pos by (intro mult_right_mono) auto
  ultimately have "N * (t - h') \<le> N' * (t - h)" by (simp add: algebra_simps)
  then show ?thesis using pos by (simp add: divide_simps)
qed

lemma crash_quotient_mono:
  assumes "0 \<le> h" and "h \<le> h'" and "h' < 2 ^ 52"
  shows "crash_num h / of_int (2 ^ 52 - h) \<le> crash_num h' / of_int (2 ^ 52 - h')"
proof (cases "h = h'")
  case False
  have e: "rat_of_int (2 ^ 52 - k) = 2 ^ 52 - of_int k" for k by simp
  have "1 \<le> h' - h" "h' \<le> 2 ^ 52 - 1" using assms False by linarith+
  then have "rat_of_int 1 \<le> of_int (h' - h)" "rat_of_int h' \<le> of_int (2 ^ 52 - 1)"
    by (simp_all only: of_int_le_iff)
  then have d: "1 \<le> rat_of_int h' - of_int h" "rat_of_int h' \<le> 2 ^ 52 - 1" by simp_all
  have r: "0 \<le> h'" "h < 2 ^ 52" "0 \<le> rat_of_int h" using assms by simp_all
  show ?thesis unfolding e
    by (rule quotient_step[OF r(3) d crash_num_error(2,1)[OF assms(1) r(2)] crash_num_error(2)[OF r(1) assms(3)]])
qed simp

lemma crash_formula_alt:
  "0 \<le> h \<Longrightarrow> h < 2 ^ 52 \<Longrightarrow> h mod 20 \<noteq> 0 \<Longrightarrow>
   crash_formula h = centi \<lfloor>fl (crash_num h / of_int (2 ^ 52 - h))\<rfloor>"
  unfolding crash_formula_def Let_def crash_num_def js_floor_def by (simp only: fl_e_minus if_False)

lemma crash_ge_1:
  assumes "0 \<le> h" and "h < 2 ^ 52"
  shows "1 \<le> crash_formula h"
proof (cases "h mod 20 = 0")
  case False
  then have "0 < h" using assms by (cases "h = 0") auto
  let ?D = "rat_of_int (2 ^ 52 - h)"
  have h: "1 \<le> rat_of_int h" "0 < ?D" using \<open>0 < h\<close> assms(2) by simp_all
  have D: "?D = 2 ^ 52 - of_int h" by simp
  have "100 * ?D \<le> crash_num h"
    using crash_num_error[OF assms] h unfolding D by simp
  then have "100 \<le> crash_num h / ?D" using h by (simp add: pos_le_divide_eq)
  then have "fl (of_int 100) \<le> fl (crash_num h / ?D)" by (intro fl_mono) simp
  then have "100 \<le> fl (crash_num h / ?D)" by (subst (asm) fl_of_int) auto
  then have "centi 100 \<le> centi \<lfloor>fl (crash_num h / ?D)\<rfloor>" by (intro centi_mono) (simp add: le_floor_iff)
  then show ?thesis using False assms by (simp add: crash_formula_alt)
qed (simp add: crash_formula_def)

lemma crash_formula_mono:
  assumes "0 \<le> h" and "h \<le> h'" and "h' < 2 ^ 52" and "h' mod 20 \<noteq> 0"
  shows "crash_formula h \<le> crash_formula h'"
proof (cases "h mod 20 = 0")
  case True
  then show ?thesis using crash_ge_1[of h'] assms by (simp add: crash_formula_def)
next
  case False
  have "centi \<lfloor>fl (crash_num h / of_int (2 ^ 52 - h))\<rfloor> \<le> centi \<lfloor>fl (crash_num h' / of_int (2 ^ 52 - h'))\<rfloor>"
    using crash_quotient_mono[of h h'] assms by (intro centi_mono floor_mono fl_mono)
  moreover have "0 \<le> h'" "h < 2 ^ 52" using assms by simp_all
  ultimately show ?thesis
    by (simp only: crash_formula_alt[OF assms(1) _ False] crash_formula_alt[OF _ assms(3,4)])
qed

text \<open>
  The crash bust is decided by the top 52 bits of the digest alone: it is never below 1.00, it is
  exactly 1.00 on the multiples of 20, and on all other draws it never decreases when the draw grows,
  although the double arithmetic of the source rounds the numerator to a multiple of 64.
\<close>

theorem crash_point_monotone:
  assumes "hash52 hmac s c n \<le> hash52 hmac s' c' n'" and "hash52 hmac s' c' n' mod 20 \<noteq> 0"
  shows "1 \<le> crashPoint hmac s c n \<and> crashPoint hmac s c n \<le> crashPoint hmac s' c' n'"
  unfolding crashPoint_def using assms hash52_range by (blast intro: crash_ge_1 crash_formula_mono)

theorem crash_point_monotone_witness:
  "1 \<le> crashPoint (\<lambda>_ _. 0) ''a'' ''b'' 0 \<and>
   crashPoint (\<lambda>k _. if k = ''a'' then 0 else 2 ^ 204) ''a'' ''b'' 0
     \<le> crashPoint (\<lambda>k _. if k = ''a'' then 0 else 2 ^ 204) ''c'' ''b'' 0"
proof -
  let ?H = "(\<lambda>k _. if k = ''a'' then 0 else 2 ^ 204) :: hmac"
  have a: "hash52 ?H ''a'' ''b'' 0 = 0" "hash52 (\<lambda>_ _. 0) ''a'' ''b'' 0 = 0"
    "hash52 ?H ''c'' ''b'' 0 = 1"
    by (simp_all add: hash52_def hmacSha256_def parse_hex_take)
  show ?thesis
    using crash_point_monotone[of ?H "''a''" "''b''" 0 "''c''" "''b''" 0] a
    by (simp add: crashPoint_def crash_formula_def)
qed

subsection \<open>Games of the float stream (dice.ts, limbo.ts, wheel.ts, plinko.ts, hilo.ts)\<close>

text \<open>\<open>const [u] = floatsFromHmac(.., 1)\<close>.\<close>

definition first_float :: "hmac \<Rightarrow> string \<Rightarrow> string \<Rightarrow> nat \<Rightarrow> rat" where
  "first_float hmac serverSeed clientSeed nonce = hd (floatsFromHmac hmac serverSeed clientSeed nonce 1)"

definition diceRoll :: "hmac \<Rightarrow> string \<Rightarrow> string \<Rightarrow> nat \<Rightarrow> rat" where
  "diceRoll hmac serverSeed clientSeed nonce =
     (let u = first_float hmac serverSeed clientSeed nonce in centi (js_floor (fl (u * 10000))))"

definition limboResult :: "hmac \<Rightarrow> string \<Rightarrow> string \<Rightarrow> nat \<Rightarrow> rat \<Rightarrow> rat" where
  "limboResult hmac serverSeed clientSeed nonce edge =
     (let u = first_float hmac serverSeed clientSeed nonce;
          raw = (if u \<le> 0 then 1000000 else fl (fl (1 - edge) / u))
      in max 1 (floor2 raw))"

definition wheelSpin :: "hmac \<Rightarrow> string \<Rightarrow> string \<Rightarrow> nat \<Rightarrow> int \<Rightarrow> int" where
  "wheelSpin hmac serverSeed clientSeed nonce segmentCount =
     (let u = first_float hmac serverSeed clientSeed nonce;
          idx = js_floor (fl (u * of_int segmentCount))
      in if idx \<ge> segmentCount then segmentCount - 1 else idx)"

definition plinkoDrop :: "hmac \<Rightarrow> string \<Rightarrow> string \<Rightarrow> nat \<Rightarrow> nat \<Rightarrow> nat list \<times> nat" where
  "plinkoDrop hmac serverSeed clientSeed nonce rows =
     (let floats = floatsFromHmac hmac serverSeed clientSeed nonce rows;
          path = map (\<lambda>f. if f \<ge> 1 / 2 then 1 else 0) floats
      in (path, fold (\<lambda>b a. a + b) path 0))"

definition hiloSequence :: "hmac \<Rightarrow> string \<Rightarrow> string \<Rightarrow> nat \<Rightarrow> nat \<Rightarrow> int list" where
  "hiloSequence hmac serverSeed clientSeed nonce len =
     map (\<lambda>f. js_floor (fl (f * 52))) (floatsFromHmac hmac serverSeed clientSeed nonce len)"

definition cardRank :: "int \<Rightarrow> int" where
  "cardRank c = c mod 13"

lemma first_float_unit: "unit_float (first_float hmac s c n)"
  unfolding first_float_def by (rule floatsFromHmac_unit[of _ hmac s c n 1], rule hd_in_set) (simp flip: length_greater_0_conv)

text \<open>The 32-bit numerator of the first float: the first four bytes of block 0.\<close>

definition draw32 :: "hmac \<Rightarrow> string \<Rightarrow> string \<Rightarrow> nat \<Rightarrow> int" where
  "draw32 hmac s c n = int (unat (hmac s (c @ '':'' @ decimal n @ '':'' @ decimal 0)) div 2 ^ 224)"

lemma digest_word32:
  "((digest_byte d 0 * 256 + digest_byte d 1) * 256 + digest_byte d 2) * 256 + digest_byte d 3
     = unat d div 2 ^ 224"
proof -
  let ?x = "unat d div 2 ^ 224"
  have "unat d < 2 ^ 256" using unsigned_less[of d, where 'a = nat] by simp
  then have x: "?x < 2 ^ 32" by (intro less_mult_imp_div_less) simp
  have "digest_byte d 3 = ?x mod 256" "digest_byte d 2 = ?x div 256 mod 256"
    "digest_byte d 1 = ?x div 256 div 256 mod 256" "digest_byte d 0 = ?x div 256 div 256 div 256 mod 256"
    by (simp_all add: digest_byte_def div_mult2_eq[symmetric])
  moreover have "?x div 256 div 256 div 256 mod 256 = ?x div 256 div 256 div 256"
    using x by (simp add: div_mult2_eq[symmetric] less_mult_imp_div_less)
  ultimately show ?thesis by simp
qed

lemma first_float_draw32: "first_float hmac s c n = of_int (draw32 hmac s c n) / 2 ^ 32"
proof -
  have "first_float hmac s c n = float4 (digest_byte d 0) (digest_byte d 1) (digest_byte d 2) (digest_byte d 3)"
    if "d = hmac s (c @ '':'' @ decimal n @ '':'' @ decimal 0)" for d
    by (simp add: first_float_def floatsFromHmac_def floatBlock_def Let_def that upt_conv_Cons numeral_2_eq_2)
  then have "first_float hmac s c n = of_nat (unat d div 2 ^ 224) / 2 ^ 32"
    if "d = hmac s (c @ '':'' @ decimal n @ '':'' @ decimal 0)" for d
    using that by (simp only: float4_exact digest_byte_less digest_word32)
  then show ?thesis unfolding draw32_def by (simp only: of_int_of_nat_eq)
qed

lemma draw32_range: "0 \<le> draw32 hmac s c n \<and> draw32 hmac s c n < 2 ^ 32"
proof -
  have "unat d < 2 ^ 256" for d :: digest using unsigned_less[of d, where 'a = nat] by simp
  then have "unat d div 2 ^ 224 < 2 ^ 32" for d :: digest by (intro less_mult_imp_div_less) simp
  then show ?thesis unfolding draw32_def by (simp only: of_nat_less_iff[symmetric, where 'a = int]) simp
qed

text \<open>
  The roll is \<open>k\<close> hundredths, \<open>k\<close> the draw scaled to the 10,000 cells of the grid. A target of \<open>T\<close>
  whole units cuts the grid exactly: the double comparison agrees with the integer one.
\<close>

lemma centi_le_iff:
  assumes "0 \<le> j" "0 \<le> k" "j \<le> 2 ^ 50" "k \<le> 2 ^ 50"
  shows "centi j \<le> centi k \<longleftrightarrow> j \<le> k"
proof
  assume a: "centi j \<le> centi k"
  then have "fl (centi j * 100) \<le> fl (centi k * 100)" by (intro fl_mono) simp
  then have "js_round (fl (centi j * 100)) \<le> js_round (fl (centi k * 100))"
    unfolding js_round_def by (intro floor_mono) simp
  then show "j \<le> k" using assms by (simp add: js_round_centi)
qed (rule centi_mono)

lemma centi_less_iff:
  "0 \<le> j \<Longrightarrow> 0 \<le> k \<Longrightarrow> j \<le> 2 ^ 50 \<Longrightarrow> k \<le> 2 ^ 50 \<Longrightarrow> centi j < centi k \<longleftrightarrow> j < k"
  using centi_le_iff[of k j] by (simp add: not_le[symmetric])

lemma centi_of_whole: "\<bar>k\<bar> \<le> 2 ^ 53 \<Longrightarrow> centi (100 * k) = of_int k"
  by (simp add: centi_def fl_of_int)

definition dice_cell :: "hmac \<Rightarrow> string \<Rightarrow> string \<Rightarrow> nat \<Rightarrow> int" where
  "dice_cell hmac s c n = draw32 hmac s c n * 10000 div 2 ^ 32"

lemma dice_cell_range: "0 \<le> dice_cell hmac s c n \<and> dice_cell hmac s c n < 10000"
proof -
  let ?N = "draw32 hmac s c n"
  have "0 \<le> ?N" "?N < 2 ^ 32" using draw32_range by blast+
  then have "?N * 10000 div 2 ^ 32 < 10000" by (intro div_less_of_mult_less) simp_all
  then show ?thesis using \<open>0 \<le> ?N\<close> by (simp add: dice_cell_def pos_imp_zdiv_nonneg_iff)
qed

lemma diceRoll_cell: "diceRoll hmac s c n = centi (dice_cell hmac s c n)"
  unfolding diceRoll_def Let_def dice_cell_def
  using unit_float_scale[OF first_float_draw32, of hmac s c n 10000] draw32_range[of hmac s c n] by simp

text \<open>
  The dice roll is one of the 10,000 values 0.00 to 99.99, the draw scaled down exactly, and a
  whole-number target splits the grid without gap or overlap: roll-under \<open>T\<close> wins on the first
  \<open>100 * T\<close> cells and roll-over \<open>T\<close> on the others, whatever the double division by 100 does.
\<close>

theorem dice_grid_split:
  assumes "0 \<le> T" and "T \<le> 100"
  shows "0 \<le> dice_cell hmac s c n \<and> dice_cell hmac s c n < 10000 \<and>
    diceRoll hmac s c n = centi (dice_cell hmac s c n) \<and>
    (diceRoll hmac s c n < of_int T \<longleftrightarrow> dice_cell hmac s c n < 100 * T)"
proof -
  have "diceRoll hmac s c n < of_int T \<longleftrightarrow> centi (dice_cell hmac s c n) < centi (100 * T)"
    using assms by (simp add: diceRoll_cell centi_of_whole)
  then show ?thesis using assms dice_cell_range[of hmac s c n]
    by (subst (asm) centi_less_iff) (auto simp: diceRoll_cell)
qed

theorem dice_grid_split_witness:
  "diceRoll (\<lambda>_ _. 2 ^ 255) ''s'' ''c'' 0 = 50 \<and> \<not> diceRoll (\<lambda>_ _. 2 ^ 255) ''s'' ''c'' 0 < of_int 50"
proof -
  have "dice_cell (\<lambda>_ _. 2 ^ 255) ''s'' ''c'' 0 = 5000" by (simp add: dice_cell_def draw32_def)
  then show ?thesis using dice_grid_split[of 50 "\<lambda>_ _. 2 ^ 255" "''s''" "''c''" 0] centi_of_whole[of 50]
    by simp
qed

lemma wheelSpin_range: "0 < m \<Longrightarrow> m \<le> 2 ^ 21 \<Longrightarrow> 0 \<le> wheelSpin hmac s c n m \<and> wheelSpin hmac s c n m < m"
  using unit_float_range[OF first_float_unit, of m hmac s c n] by (simp add: wheelSpin_def Let_def)

lemma wheelSpin_unclamped:
  "0 < m \<Longrightarrow> m \<le> 2 ^ 21 \<Longrightarrow> wheelSpin hmac s c n m = draw32 hmac s c n * m div 2 ^ 32"
  using unit_float_range[OF first_float_unit, of m hmac s c n]
    unit_float_scale[OF first_float_draw32, of hmac s c n m] draw32_range[of hmac s c n]
  by (simp add: wheelSpin_def Let_def)

lemma fold_add_start: "fold (\<lambda>b a. a + b) xs (k::nat) = k + sum_list xs"
  by (induction xs arbitrary: k) auto

lemma plinkoDrop_path:
  "length (fst (plinkoDrop hmac s c n rows)) = rows \<and> set (fst (plinkoDrop hmac s c n rows)) \<subseteq> {0, 1}"
  by (auto simp: plinkoDrop_def Let_def)

lemma plinkoDrop_bin: "snd (plinkoDrop hmac s c n rows) = sum_list (fst (plinkoDrop hmac s c n rows))"
  by (simp add: plinkoDrop_def Let_def fold_add_start)

lemma sum_list_bits: "set xs \<subseteq> {0, 1} \<Longrightarrow> sum_list xs = length (filter (\<lambda>b. b = 1) xs)" for xs :: "nat list"
  by (induction xs) auto

lemma plinkoDrop_bin_le: "snd (plinkoDrop hmac s c n rows) \<le> rows"
  using plinkoDrop_path[of hmac s c n rows] length_filter_le[of _ "fst (plinkoDrop hmac s c n rows)"]
  by (simp add: plinkoDrop_bin sum_list_bits)

lemma hiloSequence_cards:
  "length (hiloSequence hmac s c n len) = len"
  "x \<in> set (hiloSequence hmac s c n len) \<Longrightarrow> 0 \<le> x \<and> x < 52"
proof -
  show "length (hiloSequence hmac s c n len) = len" by (simp add: hiloSequence_def)
  have "0 \<le> js_floor (fl (u * 52)) \<and> js_floor (fl (u * 52)) < 52" if "unit_float u" for u
    using unit_float_range[OF that, of 52] by simp
  then show "x \<in> set (hiloSequence hmac s c n len) \<Longrightarrow> 0 \<le> x \<and> x < 52"
    by (auto simp: hiloSequence_def dest: floatsFromHmac_unit)
qed

lemma cardRank_range: "0 \<le> cardRank c \<and> cardRank c < 13"
  by (simp add: cardRank_def)

text \<open>
  The games of the float stream stay on their boards, for every seed and nonce: the wheel lands on
  one of its segments (the clamp at the end of \<open>wheelSpin\<close> is never needed), a plinko ball makes one
  bounce per row and falls into the bin that counts its right bounces, and hi-lo deals exactly the
  requested number of cards of the 52.
\<close>

theorem stream_games_in_range:
  assumes "0 < m" and "m \<le> 2 ^ 21"
  shows "0 \<le> wheelSpin hmac s c n m \<and> wheelSpin hmac s c n m < m \<and>
    wheelSpin hmac s c n m = draw32 hmac s c n * m div 2 ^ 32 \<and>
    length (fst (plinkoDrop hmac s c n rows)) = rows \<and>
    snd (plinkoDrop hmac s c n rows) = length (filter (\<lambda>b. b = 1) (fst (plinkoDrop hmac s c n rows))) \<and>
    snd (plinkoDrop hmac s c n rows) \<le> rows \<and>
    length (hiloSequence hmac s c n len) = len \<and>
    set (hiloSequence hmac s c n len) \<subseteq> {0..<52}"
proof (intro conjI)
  show "set (hiloSequence hmac s c n len) \<subseteq> {0..<52}" using hiloSequence_cards(2) by auto
  show "snd (plinkoDrop hmac s c n rows) = length (filter (\<lambda>b. b = 1) (fst (plinkoDrop hmac s c n rows)))"
    using plinkoDrop_path by (simp only: plinkoDrop_bin sum_list_bits)
qed (simp_all only: wheelSpin_range[OF assms] wheelSpin_unclamped[OF assms, symmetric] plinkoDrop_path
      plinkoDrop_bin_le hiloSequence_cards(1))

theorem stream_games_in_range_witness: "wheelSpin (\<lambda>_ _. 2 ^ 255) ''s'' ''c'' 0 10 = 5"
  using stream_games_in_range[of 10 "\<lambda>_ _. 2 ^ 255" "''s''" "''c''" 0] by (simp add: draw32_def)

text \<open>Limbo never pays below 1.00, and a smaller draw gives a larger multiplier.\<close>

lemma floor2_mono: "x \<le> y \<Longrightarrow> floor2 x \<le> floor2 y"
  unfolding floor2_def js_floor_def by (intro centi_mono floor_mono fl_mono) simp

lemma limboResult_ge_1: "1 \<le> limboResult hmac s c n edge"
  by (simp add: limboResult_def Let_def)

lemma limboResult_antimono:
  assumes "0 < draw32 hmac s c n" and "draw32 hmac s c n \<le> draw32 hmac' s' c' n'" and "edge \<le> 1"
  shows "limboResult hmac' s' c' n' edge \<le> limboResult hmac s c n edge"
proof -
  let ?u = "first_float hmac s c n" and ?u' = "first_float hmac' s' c' n'"
  have u: "0 < ?u" "?u \<le> ?u'" using assms(1,2) by (simp_all add: first_float_draw32 divide_right_mono)
  moreover have "0 \<le> fl (1 - edge)" using assms(3) by (simp add: fl_nonneg)
  ultimately have "fl (fl (1 - edge) / ?u') \<le> fl (fl (1 - edge) / ?u)"
    by (intro fl_mono divide_left_mono) auto
  then have "floor2 (fl (fl (1 - edge) / ?u')) \<le> floor2 (fl (fl (1 - edge) / ?u))" by (rule floor2_mono)
  then show ?thesis using u by (auto simp: limboResult_def Let_def)
qed

text \<open>The case tier is the first whose cumulative threshold exceeds the roll.\<close>

lemma pickCaseTier_first:
  assumes "i < length tiers" and "roll < chance (tiers ! i)" and "\<forall>j < i. chance (tiers ! j) \<le> roll"
  shows "pickCaseTier chance roll tiers = Inr (tiers ! i)"
proof -
  have "List.find (\<lambda>t. roll < chance t) tiers = Some (tiers ! i)"
    using assms by (auto simp: find_Some_iff not_less intro!: exI[of _ i])
  then show ?thesis using assms(1) by (auto simp: pickCaseTier_def)
qed

lemma pickCaseTier_fallback:
  "tiers \<noteq> [] \<Longrightarrow> \<forall>t \<in> set tiers. chance t \<le> roll \<Longrightarrow> pickCaseTier chance roll tiers = Inr (last tiers)"
  using find_None_iff[of "\<lambda>t. roll < chance t" tiers] by (auto simp: pickCaseTier_def not_less)

lemma dailyCaseRoll_unit: "0 \<le> dailyCaseRoll hmac s c n \<and> dailyCaseRoll hmac s c n < 1"
proof -
  have r: "0 \<le> hash52 hmac s c n" "hash52 hmac s c n < 2 ^ 52" using hash52_range by blast+
  then have "fl (of_int (hash52 hmac s c n) / 2 ^ 52) = of_int (hash52 hmac s c n) / 2 ^ 52"
    by (intro fl_dyadic) simp
  moreover have "rat_of_int (hash52 hmac s c n) < of_int (2 ^ 52)" using r by (simp only: of_int_less_iff)
  ultimately show ?thesis using r by (simp add: dailyCaseRoll_def)
qed

end
