(* ===== verification/Fair_Shuffle.thy ===== *)
theory Fair_Shuffle
  imports Fair_Games
begin

text \<open>
  The games laid out by a Fisher-Yates shuffle of the float stream: \<open>mines.ts\<close>, \<open>keno.ts\<close> and
  \<open>tower.ts\<close>. The loop of the source is written three times there and once here.
\<close>

subsection \<open>The shuffle\<close>

text \<open>\<open>f i\<close> is the float the iteration with index \<open>i\<close> reads.\<close>

definition fy_index :: "(nat \<Rightarrow> rat) \<Rightarrow> nat \<Rightarrow> nat" where
  "fy_index f i = nat (js_floor (fl (f i * of_int (int i + 1))))"

fun fy_loop :: "(nat \<Rightarrow> rat) \<Rightarrow> nat \<Rightarrow> 'a list \<Rightarrow> 'a list" where
  "fy_loop f 0 arr = arr"
| "fy_loop f (Suc i) arr =
     (let j = fy_index f (Suc i); tmp = arr ! Suc i
      in fy_loop f i (arr[Suc i := arr ! j, j := tmp]))"

definition mineField :: "hmac \<Rightarrow> string \<Rightarrow> string \<Rightarrow> nat \<Rightarrow> nat \<Rightarrow> nat \<Rightarrow> nat list" where
  "mineField hmac serverSeed clientSeed nonce cells mines =
     (let floats = floatsFromHmac hmac serverSeed clientSeed nonce cells;
          arr = [0..<cells]
      in sort (take mines (fy_loop (\<lambda>i. floats ! (cells - 1 - i)) (cells - 1) arr)))"

definition KENO_CELLS :: nat where "KENO_CELLS = 40"

definition KENO_DRAWS :: nat where "KENO_DRAWS = 10"

definition kenoDraw :: "hmac \<Rightarrow> string \<Rightarrow> string \<Rightarrow> nat \<Rightarrow> nat list" where
  "kenoDraw hmac serverSeed clientSeed nonce =
     (let cells = KENO_CELLS;
          floats = floatsFromHmac hmac serverSeed clientSeed nonce cells;
          arr = map (\<lambda>i. i + 1) [0..<cells]
      in sort (take KENO_DRAWS (fy_loop (\<lambda>i. floats ! (cells - 1 - i)) (cells - 1) arr)))"

definition kenoHits :: "nat list \<Rightarrow> nat list \<Rightarrow> nat" where
  "kenoHits picks drawn = length (filter (\<lambda>p. p \<in> set drawn) picks)"

definition towerTraps :: "hmac \<Rightarrow> string \<Rightarrow> string \<Rightarrow> nat \<Rightarrow> nat \<Rightarrow> nat \<Rightarrow> nat \<Rightarrow> nat list list" where
  "towerTraps hmac serverSeed clientSeed nonce rows columns safePerRow =
     (let trapsPerRow = columns - safePerRow;
          floats = floatsFromHmac hmac serverSeed clientSeed nonce (rows * columns)
      in map (\<lambda>r. sort (take trapsPerRow
                (fy_loop (\<lambda>i. floats ! (r * columns + (columns - 1 - i))) (columns - 1) [0..<columns])))
           [0..<rows])"

lemma fy_index_le: "unit_float (f i) \<Longrightarrow> i < 2 ^ 20 \<Longrightarrow> fy_index f i \<le> i"
  using unit_float_range[of "f i" "int i + 1"] by (simp add: fy_index_def nat_le_iff)

lemma fy_loop_mset:
  "i < length arr \<Longrightarrow> i < 2 ^ 20 \<Longrightarrow> \<forall>k. 0 < k \<and> k \<le> i \<longrightarrow> unit_float (f k) \<Longrightarrow>
   mset (fy_loop f i arr) = mset arr"
proof (induction f i arr rule: fy_loop.induct)
  case (2 f i arr)
  have "fy_index f (Suc i) \<le> Suc i" using 2 by (intro fy_index_le) auto
  then show ?case using 2 by (simp add: Let_def swap_mset)
qed simp

text \<open>What a shuffle of \<open>n\<close> cells gives when \<open>k\<close> of them are kept and sorted.\<close>

lemma shuffle_pick:
  fixes arr :: "nat list"
  assumes "distinct arr" and "length arr = n" and "n \<le> 2 ^ 20" and "k \<le> n"
    and f: "\<And>i. i < n \<Longrightarrow> unit_float (f i)"
  defines "xs \<equiv> sort (take k (fy_loop f (n - 1) arr))"
  shows "sorted xs" and "distinct xs" and "length xs = k" and "set xs \<subseteq> set arr"
proof -
  have m: "mset (fy_loop f (n - 1) arr) = mset arr"
  proof (cases n)
    case (Suc m)
    then show ?thesis using assms by (intro fy_loop_mset) auto
  qed (use assms in simp)
  then have "distinct (fy_loop f (n - 1) arr)" "set (fy_loop f (n - 1) arr) = set arr"
    "length (fy_loop f (n - 1) arr) = n"
    using assms(1,2) by (metis mset_eq_imp_distinct_iff mset_eq_setD mset_eq_length)+
  then show "sorted xs" "distinct xs" "length xs = k" "set xs \<subseteq> set arr"
    using assms(4) by (auto simp: xs_def dest: in_set_takeD)
qed

lemma mineField_correct:
  assumes "cells \<le> 2 ^ 20" and "mines \<le> cells"
  shows "sorted (mineField hmac s c n cells mines)" and "distinct (mineField hmac s c n cells mines)"
    and "length (mineField hmac s c n cells mines) = mines"
    and "set (mineField hmac s c n cells mines) \<subseteq> {..<cells}"
proof -
  let ?f = "\<lambda>i. floatsFromHmac hmac s c n cells ! (cells - 1 - i)"
  have f: "unit_float (?f i)" if "i < cells" for i using that by (intro floatsFromHmac_nth_unit) simp
  show "sorted (mineField hmac s c n cells mines)" "distinct (mineField hmac s c n cells mines)"
    "length (mineField hmac s c n cells mines) = mines"
    "set (mineField hmac s c n cells mines) \<subseteq> {..<cells}"
    using shuffle_pick[of "[0..<cells]" cells mines ?f, OF distinct_upt _ assms f]
    by (simp_all add: mineField_def Let_def lessThan_atLeast0)
qed

lemma kenoDraw_correct:
  "sorted (kenoDraw hmac s c n)" "distinct (kenoDraw hmac s c n)"
  "length (kenoDraw hmac s c n) = KENO_DRAWS" "set (kenoDraw hmac s c n) \<subseteq> {1..KENO_CELLS}"
proof -
  let ?f = "\<lambda>i. floatsFromHmac hmac s c n KENO_CELLS ! (KENO_CELLS - 1 - i)"
  have f: "unit_float (?f i)" if "i < KENO_CELLS" for i
    using that by (intro floatsFromHmac_nth_unit) simp
  have c: "distinct (map (\<lambda>i. i + 1) [0..<KENO_CELLS])" "KENO_CELLS \<le> 2 ^ 20" "KENO_DRAWS \<le> KENO_CELLS"
    "set (map (\<lambda>i. i + 1) [0..<KENO_CELLS]) = {1..KENO_CELLS}"
    by (auto simp: distinct_map inj_on_def KENO_CELLS_def KENO_DRAWS_def image_Suc_atLeastLessThan)
  show "sorted (kenoDraw hmac s c n)" "distinct (kenoDraw hmac s c n)"
    "length (kenoDraw hmac s c n) = KENO_DRAWS" "set (kenoDraw hmac s c n) \<subseteq> {1..KENO_CELLS}"
    using shuffle_pick[of "map (\<lambda>i. i + 1) [0..<KENO_CELLS]" KENO_CELLS KENO_DRAWS ?f, OF _ _ _ _ f] c
    by (simp_all add: kenoDraw_def Let_def)
qed

lemma towerTraps_correct:
  assumes "columns \<le> 2 ^ 20" and "r < rows"
  shows "length (towerTraps hmac s c n rows columns safe) = rows"
    and "sorted (towerTraps hmac s c n rows columns safe ! r)"
    and "distinct (towerTraps hmac s c n rows columns safe ! r)"
    and "length (towerTraps hmac s c n rows columns safe ! r) = columns - safe"
    and "set (towerTraps hmac s c n rows columns safe ! r) \<subseteq> {..<columns}"
proof -
  let ?f = "\<lambda>i. floatsFromHmac hmac s c n (rows * columns) ! (r * columns + (columns - 1 - i))"
  have f: "unit_float (?f i)" if "i < columns" for i
  proof (rule floatsFromHmac_nth_unit)
    have "r * columns + (columns - 1 - i) < r * columns + columns" using that by simp
    also have "\<dots> = Suc r * columns" by simp
    also have "\<dots> \<le> rows * columns" using assms(2) by (intro mult_right_mono) auto
    finally show "r * columns + (columns - 1 - i) < rows * columns" .
  qed
  show "length (towerTraps hmac s c n rows columns safe) = rows" by (simp add: towerTraps_def Let_def)
  show "sorted (towerTraps hmac s c n rows columns safe ! r)"
    "distinct (towerTraps hmac s c n rows columns safe ! r)"
    "length (towerTraps hmac s c n rows columns safe ! r) = columns - safe"
    "set (towerTraps hmac s c n rows columns safe ! r) \<subseteq> {..<columns}"
    using shuffle_pick[of "[0..<columns]" columns "columns - safe" ?f, OF distinct_upt _ assms(1) _ f] assms(2)
    by (simp_all add: towerTraps_def Let_def lessThan_atLeast0)
qed

text \<open>
  A mine field has exactly the requested number of mines, all different, sorted, on the board; a
  keno draw is ten different numbers of 1..40; and every tower row has exactly its traps. It holds for
  every seed pair and nonce, so no shuffle of the float stream ever loses or repeats a cell.
\<close>

theorem boards_well_formed:
  assumes "cells \<le> 2 ^ 20" and "mines \<le> cells" and "columns \<le> 2 ^ 20" and "r < rows"
  shows "length (mineField hmac s c n cells mines) = mines \<and> distinct (mineField hmac s c n cells mines) \<and>
      sorted (mineField hmac s c n cells mines) \<and> set (mineField hmac s c n cells mines) \<subseteq> {..<cells} \<and>
    length (kenoDraw hmac s c n) = 10 \<and> distinct (kenoDraw hmac s c n) \<and> sorted (kenoDraw hmac s c n) \<and>
      set (kenoDraw hmac s c n) \<subseteq> {1..40} \<and>
    length (towerTraps hmac s c n rows columns safe) = rows \<and>
      length (towerTraps hmac s c n rows columns safe ! r) = columns - safe \<and>
      distinct (towerTraps hmac s c n rows columns safe ! r) \<and>
      set (towerTraps hmac s c n rows columns safe ! r) \<subseteq> {..<columns}"
  using mineField_correct[OF assms(1,2)] kenoDraw_correct[unfolded KENO_DRAWS_def KENO_CELLS_def]
    towerTraps_correct[OF assms(3,4)] by (intro conjI)

theorem boards_well_formed_witness:
  "length (mineField (\<lambda>_ _. 7) ''s'' ''c'' 0 25 3) = 3 \<and> length (towerTraps (\<lambda>_ _. 7) ''s'' ''c'' 0 8 4 3 ! 2) = 1"
  using boards_well_formed[of 25 3 4 2 8 "\<lambda>_ _. 7" "''s''" "''c''" 0 3] by simp

subsection \<open>Every layout is equally likely\<close>

text \<open>
  The loop as a list of choices: the \<open>k\<close>-th iteration swaps the last open cell with any of the open
  ones. \<open>valid_choices\<close> are the lists that stay in range; each permutation of the cells is reached by
  exactly one of them, so uniform choices give a uniform permutation.
\<close>

fun apply_swaps :: "nat list \<Rightarrow> 'a list \<Rightarrow> 'a list" where
  "apply_swaps [] arr = arr"
| "apply_swaps (j # js) arr =
     (let i = Suc (length js) in apply_swaps js (arr[i := arr ! j, j := arr ! i]))"

fun valid_choices :: "nat list \<Rightarrow> bool" where
  "valid_choices [] \<longleftrightarrow> True"
| "valid_choices (j # js) \<longleftrightarrow> j \<le> Suc (length js) \<and> valid_choices js"

lemma fy_loop_swaps: "fy_loop f m arr = apply_swaps (map (fy_index f) (rev [1..<Suc m])) arr"
proof (induction f m arr rule: fy_loop.induct)
  case (2 f i arr)
  have "rev [1..<Suc (Suc i)] = Suc i # rev [1..<Suc i]" by simp
  moreover have "length (map (fy_index f) (rev [1..<Suc i])) = i" by (simp del: upt_Suc)
  ultimately show ?case using 2 by (simp only: fy_loop.simps list.map apply_swaps.simps Let_def)
qed simp

lemma apply_swaps_suffix:
  "valid_choices js \<Longrightarrow> length js < k \<Longrightarrow> length js < length arr \<Longrightarrow> k < length arr \<Longrightarrow> apply_swaps js arr ! k = arr ! k"
proof (induction js arbitrary: arr)
  case (Cons j js)
  then show ?case by (simp add: Let_def nth_list_update)
qed simp

lemma swap_take:
  assumes "i < length arr" and "j \<le> i"
  defines "arr' \<equiv> arr[i := arr ! j, j := arr ! i]"
  shows "add_mset (arr' ! i) (mset (take i arr')) = mset (take (Suc i) arr)"
proof -
  have "mset (take (Suc i) arr') = mset (take (Suc i) arr)"
  proof -
    have "take (Suc i) arr' = (take (Suc i) arr)[i := take (Suc i) arr ! j, j := take (Suc i) arr ! i]"
      using assms by (simp add: take_update_swap)
    moreover have "i < length (take (Suc i) arr)" "j < length (take (Suc i) arr)" using assms by simp_all
    ultimately show ?thesis by (simp only: swap_mset)
  qed
  moreover have "take (Suc i) arr' = take i arr' @ [arr' ! i]"
    using assms by (intro take_Suc_conv_app_nth) simp
  ultimately show ?thesis by simp
qed

lemma choices_unique:
  assumes "distinct arr" "length js < length arr" "length js' = length js"
    and "valid_choices js" "valid_choices js'" "apply_swaps js arr = apply_swaps js' arr"
  shows "js = js'"
  using assms
proof (induction js arbitrary: js' arr)
  case (Cons j js)
  then obtain j' t where js': "js' = j' # t" "length t = length js" by (cases js') auto
  let ?i = "Suc (length js)"
  let ?a = "arr[?i := arr ! j, j := arr ! ?i]" and ?b = "arr[?i := arr ! j', j' := arr ! ?i]"
  have eq: "apply_swaps js ?a = apply_swaps t ?b" using Cons.prems js' by (simp add: Let_def)
  have "?a ! ?i = ?b ! ?i"
    using apply_swaps_suffix[of js ?i ?a] apply_swaps_suffix[of t ?i ?b] eq Cons.prems js' by simp
  then have "arr ! j = arr ! j'"
    using Cons.prems js' by (auto simp: nth_list_update split: if_splits)
  then have jj: "j = j'" using Cons.prems js' by (simp add: nth_eq_iff_index_eq)
  have "js = t"
  proof (rule Cons.IH)
    show "distinct ?a" using Cons.prems by (simp add: distinct_swap)
    show "apply_swaps js ?a = apply_swaps t ?a" using eq jj by simp
  qed (use Cons.prems js' in auto)
  then show ?case using jj js' by simp
qed simp

lemma choices_exist:
  assumes "distinct arr" "m < length arr" "length ys = length arr"
    and "mset (take (Suc m) ys) = mset (take (Suc m) arr)" "drop (Suc m) ys = drop (Suc m) arr"
  shows "\<exists>js. length js = m \<and> valid_choices js \<and> apply_swaps js arr = ys"
  using assms
proof (induction m arbitrary: arr)
  case 0
  then have "take (Suc 0) ys = take (Suc 0) arr" by (cases ys; cases arr) auto
  then have "ys = arr" using 0 by (metis append_take_drop_id)
  then show ?case by (intro exI[of _ "[]"]) simp
next
  case (Suc m)
  let ?i = "Suc m"
  have "ys ! ?i \<in> set (take (Suc ?i) ys)" using Suc.prems by (auto simp: in_set_conv_nth intro!: exI[of _ ?i])
  then have "ys ! ?i \<in> set (take (Suc ?i) arr)" using Suc.prems(4) by (metis mset_eq_setD)
  then obtain j where j: "j \<le> ?i" "arr ! j = ys ! ?i" by (auto simp: in_set_conv_nth less_Suc_eq_le)
  let ?a = "arr[?i := arr ! j, j := arr ! ?i]"
  have ai: "?a ! ?i = ys ! ?i" using j Suc.prems by (auto simp: nth_list_update)
  have "add_mset (ys ! ?i) (mset (take ?i ?a)) = add_mset (ys ! ?i) (mset (take ?i ys))"
  proof -
    have "take (Suc ?i) ys = take ?i ys @ [ys ! ?i]" using Suc.prems by (intro take_Suc_conv_app_nth) simp
    then have "add_mset (ys ! ?i) (mset (take ?i ys)) = mset (take (Suc ?i) arr)"
      using Suc.prems(4) by simp
    then show ?thesis using swap_take[of ?i arr j] j(1) ai Suc.prems(2) by simp
  qed
  then have "mset (take (Suc m) ys) = mset (take (Suc m) ?a)" by simp
  moreover have "drop (Suc m) ys = drop (Suc m) ?a"
  proof -
    have "drop (Suc ?i) ?a = drop (Suc ?i) arr" using j by simp
    then show ?thesis using ai Suc.prems by (simp add: Cons_nth_drop_Suc[symmetric])
  qed
  moreover have "distinct ?a" using Suc.prems(1,2) j(1) by (simp only: distinct_swap)
  ultimately obtain js where "length js = m" "valid_choices js" "apply_swaps js ?a = ys"
    using Suc.IH[of ?a] Suc.prems by auto
  then show ?case using j by (intro exI[of _ "j # js"]) (simp add: Let_def)
qed

text \<open>
  C25. The shuffle is unbiased: the loop performs the swaps its floats choose, and every arrangement of
  the cells comes from exactly one list of choices, the \<open>k\<close>-th among \<open>m + 1 - k\<close> equally wide
  intervals of the float. No arrangement is unreachable and none is reached twice.
\<close>

theorem shuffle_unbiased:
  assumes "distinct arr" and "length arr = Suc m" and "mset ys = mset arr"
  shows "(\<forall>f. fy_loop f m arr = apply_swaps (map (fy_index f) (rev [1..<Suc m])) arr) \<and>
    (\<exists>!js. length js = m \<and> valid_choices js \<and> apply_swaps js arr = ys)"
proof -
  have "length ys = length arr" using assms(3) by (rule mset_eq_length)
  then obtain js where "length js = m" "valid_choices js" "apply_swaps js arr = ys"
    using choices_exist[of arr m ys] assms by auto
  then show ?thesis using choices_unique[of arr js] assms(1,2) fy_loop_swaps by (metis lessI)
qed

theorem shuffle_unbiased_witness:
  "\<exists>!js. length js = 3 \<and> valid_choices js \<and> apply_swaps js [0, 1, 2, 3::nat] = [3, 1, 0, 2]"
  using shuffle_unbiased[of "[0, 1, 2, 3::nat]" 3 "[3, 1, 0, 2]"] by simp

end
