(* ===== verification/Fair_Tickets.thy ===== *)
theory Fair_Tickets
  imports Fair_Games
begin

text \<open>
  Draws over tickets: the lottery number (\<open>lottery.ts\<close>), the crash bust folded with chain entropy
  (\<open>crash.ts\<close>), the jackpot raffle (\<open>jackpot.ts\<close>) and the weighted engine draw (\<open>engine-draw.ts\<close>).
\<close>

subsection \<open>The lottery number (lottery.ts)\<close>

definition LOTTERY_DIGITS :: nat where "LOTTERY_DIGITS = 6"
definition LOTTERY_DIGIT_MAX :: nat where "LOTTERY_DIGIT_MAX = 10"
definition LOTTERY_TICKET_OFFSET :: nat where "LOTTERY_TICKET_OFFSET = 1000000"

text \<open>\<open>Buffer.alloc(32)\<close> then \<open>copy(out, 0, 0, 32)\<close>: cut at 32 bytes or padded with zeros.\<close>

definition padClientSeed32 :: "string \<Rightarrow> byte list" where
  "padClientSeed32 clientSeed =
     (let b = take 32 (utf8 clientSeed) in b @ replicate (32 - length b) 0)"

text \<open>\<open>nonce >>> 0\<close> as a little-endian 32-bit word.\<close>

definition u32le :: "nat \<Rightarrow> byte list" where
  "u32le n = map (\<lambda>i. of_nat (n mod 2 ^ 32 div 256 ^ i)) [0..<4]"

definition lotteryFinalEntropy ::
  "sha \<Rightarrow> string \<Rightarrow> byte list \<Rightarrow> byte list \<Rightarrow> nat \<Rightarrow> digest result" where
  "lotteryFinalEntropy sha serverSeed clientSeed32 slotHash nonce =
     (if length clientSeed32 \<noteq> 32 then Inl (Internal ''clientSeed32 must be exactly 32 bytes'')
      else if length slotHash \<noteq> 32 then Inl (Internal ''slotHash must be exactly 32 bytes'')
      else Inr (sha (utf8 serverSeed @ slotHash @ clientSeed32 @ u32le nonce)))"

definition lottery_roll :: "sha \<Rightarrow> digest \<Rightarrow> byte list \<Rightarrow> nat" where
  "lottery_roll sha finalEntropy tag =
     (let h = sha (digest_bytes finalEntropy @ tag)
      in foldl (\<lambda>acc i. acc * 256 + digest_byte h i) 0 [0..<8])"

definition encodeLotteryNumber :: "nat list \<Rightarrow> nat result" where
  "encodeLotteryNumber digits =
     (if length digits \<noteq> LOTTERY_DIGITS then Inl (Internal ''expected exactly 6 digits'')
      else Inr (LOTTERY_TICKET_OFFSET + foldl (\<lambda>value d. value * 10 + d) 0 digits))"

definition lotteryDraw ::
  "sha \<Rightarrow> string \<Rightarrow> byte list \<Rightarrow> byte list \<Rightarrow> nat \<Rightarrow> (nat list \<times> nat) result" where
  "lotteryDraw sha serverSeed clientSeed32 slotHash nonce =
     bindE (lotteryFinalEntropy sha serverSeed clientSeed32 slotHash nonce) (\<lambda>entropy.
       let digits = map (\<lambda>i. lottery_roll sha entropy [0x64, of_nat i] mod LOTTERY_DIGIT_MAX)
                      [0..<LOTTERY_DIGITS]
       in bindE (encodeLotteryNumber digits) (\<lambda>encoded. Inr (digits, encoded)))"

definition syntheticSlotHash :: "sha \<Rightarrow> string \<Rightarrow> string \<Rightarrow> byte list" where
  "syntheticSlotHash sha serverSeed clientSeed =
     digest_bytes (sha (utf8 (serverSeed @ '':'' @ clientSeed)))"

text \<open>The loop stops at the first mismatch; a missing digit is \<open>undefined\<close> and only equals another.\<close>

fun match_loop :: "nat \<Rightarrow> nat \<Rightarrow> nat list \<Rightarrow> nat list \<Rightarrow> nat" where
  "match_loop 0 i ticketDigits drawDigits = 0"
| "match_loop (Suc k) i ticketDigits drawDigits =
     (if get_at ticketDigits i \<noteq> get_at drawDigits i then 0
      else Suc (match_loop k (Suc i) ticketDigits drawDigits))"

definition lotteryLeadingMatch :: "nat list \<Rightarrow> nat list \<Rightarrow> nat" where
  "lotteryLeadingMatch ticketDigits drawDigits = match_loop LOTTERY_DIGITS 0 ticketDigits drawDigits"

definition lotteryBracket :: "nat \<Rightarrow> nat option" where
  "lotteryBracket matchLen =
     (if matchLen < 1 then None else Some (min matchLen LOTTERY_DIGITS - 1))"

subsection \<open>Crash from chain entropy (crash.ts)\<close>

definition crashPointFromSlot :: "sha \<Rightarrow> string \<Rightarrow> string \<Rightarrow> byte list \<Rightarrow> nat \<Rightarrow> rat result" where
  "crashPointFromSlot sha serverSeed clientSeed slotHash nonce =
     bindE (lotteryFinalEntropy sha serverSeed (padClientSeed32 clientSeed) slotHash nonce)
       (\<lambda>entropy. Inr (crash_formula (int (parse_hex (take 13 (digest_hex entropy))))))"

subsection \<open>The jackpot raffle (jackpot.ts, engine-draw.ts)\<close>

definition jackpotRoll :: "hmac \<Rightarrow> string \<Rightarrow> string \<Rightarrow> nat \<Rightarrow> int" where
  "jackpotRoll hmac serverSeed clientSeed nonce =
     int (parse_hex (hmacSha256 hmac serverSeed (buildMessage clientSeed nonce)))"

definition jackpotWinningTicket :: "hmac \<Rightarrow> string \<Rightarrow> string \<Rightarrow> nat \<Rightarrow> int \<Rightarrow> int" where
  "jackpotWinningTicket hmac serverSeed clientSeed nonce totalLamports =
     (if totalLamports \<le> 0 then 0 else jackpotRoll hmac serverSeed clientSeed nonce mod totalLamports)"

fun jackpot_ranges_from :: "int \<Rightarrow> int list \<Rightarrow> (int \<times> int) list" where
  "jackpot_ranges_from cursor [] = []"
| "jackpot_ranges_from cursor (amount # amounts) =
     (cursor, cursor + amount) # jackpot_ranges_from (cursor + amount) amounts"

definition jackpotRanges :: "int list \<Rightarrow> (int \<times> int) list" where
  "jackpotRanges amounts = jackpot_ranges_from 0 amounts"

text \<open>\<open>findIndex\<close>: -1 when no element satisfies the predicate.\<close>

fun find_index :: "('a \<Rightarrow> bool) \<Rightarrow> int \<Rightarrow> 'a list \<Rightarrow> int" where
  "find_index P i [] = -1"
| "find_index P i (x # xs) = (if P x then i else find_index P (i + 1) xs)"

definition jackpotWinnerIndex :: "int list \<Rightarrow> int \<Rightarrow> int" where
  "jackpotWinnerIndex amounts ticket =
     find_index (\<lambda>(start, stop). ticket \<ge> start \<and> ticket < stop) 0 (jackpotRanges amounts)"

definition jackpotTicketFromEntropy ::
  "sha \<Rightarrow> string \<Rightarrow> string \<Rightarrow> byte list \<Rightarrow> nat \<Rightarrow> int \<Rightarrow> int result" where
  "jackpotTicketFromEntropy sha serverSeed clientSeed entropy32 nonce totalLamports =
     (if totalLamports \<le> 0 then Inr 0
      else bindE (lotteryFinalEntropy sha serverSeed (padClientSeed32 clientSeed) entropy32 nonce)
             (\<lambda>folded. Inr (int (parse_hex (digest_hex folded)) mod totalLamports)))"

fun weighted_loop :: "int \<Rightarrow> int \<Rightarrow> int \<Rightarrow> int list \<Rightarrow> int option" where
  "weighted_loop ticket cumulative i [] = None"
| "weighted_loop ticket cumulative i (w # ws) =
     (if ticket < cumulative + w then Some i else weighted_loop ticket (cumulative + w) (i + 1) ws)"

definition weightedWinnerIndex :: "int \<Rightarrow> int list \<Rightarrow> int" where
  "weightedWinnerIndex ticket weights =
     (case weighted_loop ticket 0 0 weights of
        Some i \<Rightarrow> i | None \<Rightarrow> max 0 (int (length weights) - 1))"

text \<open>Entry \<open>i\<close> owns the tickets from the sum of the earlier amounts on, as many as its own amount.\<close>

definition owns :: "int list \<Rightarrow> nat \<Rightarrow> int \<Rightarrow> bool" where
  "owns amounts i ticket \<longleftrightarrow> i < length amounts \<and>
     sum_list (take i amounts) \<le> ticket \<and> ticket < sum_list (take (Suc i) amounts)"

lemma length_ranges [simp]: "length (jackpot_ranges_from k amounts) = length amounts"
  by (induction k amounts rule: jackpot_ranges_from.induct) auto

lemma ranges_nth:
  "i < length amounts \<Longrightarrow> jackpot_ranges_from k amounts ! i =
     (k + sum_list (take i amounts), k + sum_list (take (Suc i) amounts))"
proof (induction k amounts arbitrary: i rule: jackpot_ranges_from.induct)
  case (2 k a as)
  then show ?case by (cases i) (auto simp: add.assoc)
qed simp

lemma owner_exists:
  fixes amounts :: "int list"
  assumes "\<forall>a \<in> set amounts. 0 \<le> a" and "0 \<le> t" and "t < sum_list amounts"
  shows "\<exists>i. owns amounts i t"
  using assms
proof (induction amounts arbitrary: t)
  case (Cons a as)
  show ?case
  proof (cases "t < a")
    case True
    then show ?thesis using Cons.prems by (intro exI[of _ 0]) (simp add: owns_def)
  next
    case False
    then obtain i where "owns as i (t - a)" using Cons.IH[of "t - a"] Cons.prems by auto
    then show ?thesis by (intro exI[of _ "Suc i"]) (simp add: owns_def)
  qed
qed simp

lemma sum_take_mono:
  fixes amounts :: "int list"
  assumes "\<forall>a \<in> set amounts. 0 \<le> a" and "i \<le> j"
  shows "sum_list (take i amounts) \<le> sum_list (take j amounts)"
proof -
  have "take j amounts = take i amounts @ take (j - i) (drop i amounts)"
    using assms(2) by (metis take_add le_add_diff_inverse)
  moreover have "0 \<le> sum_list (take (j - i) (drop i amounts))"
    using assms(1) by (intro sum_list_nonneg) (auto dest: in_set_takeD in_set_dropD)
  ultimately show ?thesis by simp
qed

lemma owner_unique:
  fixes amounts :: "int list"
  assumes "\<forall>a \<in> set amounts. 0 \<le> a" and "owns amounts i t" and "owns amounts j t"
  shows "i = j"
proof (rule ccontr)
  have no: False if "owns amounts i t" "owns amounts j t" "i < j" for i j
    using that sum_take_mono[OF assms(1), of "Suc i" j] by (auto simp: owns_def)
  assume "i \<noteq> j"
  then show False using no assms(2,3) by (meson linorder_neqE_nat)
qed

lemma find_index_least:
  "(\<exists>x \<in> set xs. P x) \<Longrightarrow> \<exists>i < length xs. find_index P k xs = k + int i \<and> P (xs ! i)"
proof (induction P k xs rule: find_index.induct)
  case (2 P k x xs)
  show ?case
  proof (cases "P x")
    case False
    then obtain i where "i < length xs" "find_index P (k + 1) xs = k + 1 + int i" "P (xs ! i)"
      using 2 by auto
    then show ?thesis using False by (intro exI[of _ "Suc i"]) simp
  qed auto
qed simp

lemma jackpotWinnerIndex_owner:
  assumes "\<forall>a \<in> set amounts. 0 \<le> a" and "owns amounts i t"
  shows "jackpotWinnerIndex amounts t = int i"
proof -
  let ?P = "\<lambda>(start, stop). t \<ge> start \<and> t < stop"
  have P: "?P (jackpotRanges amounts ! k) \<longleftrightarrow> owns amounts k t" if "k < length amounts" for k
    using that by (simp add: jackpotRanges_def ranges_nth owns_def)
  have "i < length (jackpotRanges amounts)" using assms(2) by (simp add: owns_def jackpotRanges_def)
  then have "\<exists>x \<in> set (jackpotRanges amounts). ?P x"
    using P[of i] assms(2) nth_mem[of i "jackpotRanges amounts"] by (metis owns_def)
  from find_index_least[OF this, of 0] obtain k where k: "k < length (jackpotRanges amounts)"
    "jackpotWinnerIndex amounts t = int k" "?P (jackpotRanges amounts ! k)"
    by (auto simp: jackpotWinnerIndex_def)
  then have "owns amounts k t" using P[of k] by (simp add: jackpotRanges_def)
  then show ?thesis using k(2) owner_unique[OF assms] by simp
qed

lemma weighted_loop_owner:
  "owns ws i (t - cum) \<Longrightarrow> cum \<le> t \<Longrightarrow> \<forall>w \<in> set ws. 0 \<le> w \<Longrightarrow>
   weighted_loop t cum k ws = Some (k + int i)"
proof (induction t cum k ws arbitrary: i rule: weighted_loop.induct)
  case (2 t cum k w ws)
  show ?case
  proof (cases i)
    case 0
    then show ?thesis using 2 by (simp add: owns_def)
  next
    case (Suc j)
    have "0 \<le> sum_list (take j ws)"
      using 2(4) by (intro sum_list_nonneg) (auto dest: in_set_takeD)
    then have "\<not> t < cum + w" using 2(2) Suc by (simp add: owns_def)
    then show ?thesis using 2 Suc by (simp add: owns_def algebra_simps)
  qed
qed (simp add: owns_def)

lemma weightedWinnerIndex_owner:
  "\<forall>w \<in> set ws. 0 \<le> w \<Longrightarrow> owns ws i t \<Longrightarrow> 0 \<le> t \<Longrightarrow> weightedWinnerIndex t ws = int i"
  using weighted_loop_owner[of ws i t 0 0] by (simp add: weightedWinnerIndex_def)

lemma owner_interval:
  fixes amounts :: "int list"
  assumes "\<forall>a \<in> set amounts. 0 \<le> a" and "i < length amounts"
  shows "card {t. owns amounts i t} = nat (amounts ! i)"
proof -
  have "{t. owns amounts i t} = {sum_list (take i amounts)..<sum_list (take (Suc i) amounts)}"
    using assms(2) by (auto simp: owns_def)
  then show ?thesis using assms(2) by (simp add: take_Suc_conv_app_nth)
qed

text \<open>
  The raffle is fair: for every pot whose entries are not negative and every ticket below the pot
  there is exactly one winning entry, the one whose persisted range holds the ticket; the jackpot lookup
  and the engine's cumulative walk both return it; and an entry wins on exactly as many tickets as it
  paid lamports, all of them below the pot.
\<close>

theorem raffle_proportional:
  assumes "\<forall>a \<in> set amounts. 0 \<le> a"
  shows "(\<forall>t. 0 \<le> t \<and> t < sum_list amounts \<longrightarrow>
      (\<exists>!i. owns amounts i t) \<and>
      (\<forall>i. owns amounts i t \<longrightarrow>
         jackpotWinnerIndex amounts t = int i \<and> weightedWinnerIndex t amounts = int i \<and>
         jackpotRanges amounts ! i = (sum_list (take i amounts), sum_list (take (Suc i) amounts)))) \<and>
    (\<forall>i < length amounts.
      card {t. 0 \<le> t \<and> t < sum_list amounts \<and> jackpotWinnerIndex amounts t = int i} = nat (amounts ! i))"
proof (intro conjI allI impI)
  fix t assume t: "0 \<le> t \<and> t < sum_list amounts"
  then show "\<exists>!i. owns amounts i t" using owner_exists[OF assms] owner_unique[OF assms] by blast
  fix i assume i: "owns amounts i t"
  show "jackpotWinnerIndex amounts t = int i" by (rule jackpotWinnerIndex_owner[OF assms i])
  show "weightedWinnerIndex t amounts = int i" using t by (intro weightedWinnerIndex_owner[OF assms i]) simp
  show "jackpotRanges amounts ! i = (sum_list (take i amounts), sum_list (take (Suc i) amounts))"
    using i by (simp add: owns_def jackpotRanges_def ranges_nth)
next
  fix i assume i: "i < length amounts"
  have in_pot: "0 \<le> t \<and> t < sum_list amounts" if "owns amounts i t" for t
    using that sum_take_mono[OF assms, of 0 i] sum_take_mono[OF assms, of "Suc i" "length amounts"]
    by (auto simp: owns_def)
  have "0 \<le> t \<and> t < sum_list amounts \<and> jackpotWinnerIndex amounts t = int i \<longleftrightarrow> owns amounts i t" for t
  proof
    assume a: "0 \<le> t \<and> t < sum_list amounts \<and> jackpotWinnerIndex amounts t = int i"
    then obtain j where "owns amounts j t" using owner_exists[OF assms] by blast
    then show "owns amounts i t" using a jackpotWinnerIndex_owner[OF assms, of j t] by simp
  qed (use in_pot jackpotWinnerIndex_owner[OF assms] in blast)
  then show "card {t. 0 \<le> t \<and> t < sum_list amounts \<and> jackpotWinnerIndex amounts t = int i} = nat (amounts ! i)"
    using owner_interval[OF assms i] by simp
qed

theorem raffle_proportional_witness:
  "card {t. 0 \<le> t \<and> t < 60 \<and> jackpotWinnerIndex [10, 0, 50] t = 2} = 50"
proof -
  have "\<forall>i < length [10, 0, 50::int]. card {t. 0 \<le> t \<and> t < sum_list [10, 0, 50] \<and>
      jackpotWinnerIndex [10, 0, 50] t = int i} = nat ([10, 0, 50] ! i)"
    by (rule conjunct2[OF raffle_proportional]) simp
  from spec[OF this, of 2] show ?thesis by simp
qed

subsection \<open>What the lottery number promises\<close>

lemma padClientSeed32_length [simp]: "length (padClientSeed32 s) = 32"
  by (simp add: padClientSeed32_def Let_def)

lemma digest_bytes_length [simp]: "length (digest_bytes d) = 32"
  by (simp add: digest_bytes_def)

definition is_digits :: "nat list \<Rightarrow> bool" where
  "is_digits ds \<longleftrightarrow> length ds = LOTTERY_DIGITS \<and> (\<forall>d \<in> set ds. d < 10)"

lemma decimal_value_less:
  "\<forall>d \<in> set ds. d < (10::nat) \<Longrightarrow> foldl (\<lambda>value d. value * 10 + d) v ds < (v + 1) * 10 ^ length ds"
proof (induction ds arbitrary: v)
  case (Cons d ds)
  then have "foldl (\<lambda>value d. value * 10 + d) (v * 10 + d) ds < (v * 10 + d + 1) * 10 ^ length ds" by simp
  also have "\<dots> \<le> ((v + 1) * 10) * 10 ^ length ds" using Cons.prems by (intro mult_right_mono) auto
  finally show ?case by (simp add: algebra_simps)
qed simp

lemma decimal_value_inj:
  assumes "length ds = length es" "\<forall>d \<in> set ds. d < 10" "\<forall>d \<in> set es. d < (10::nat)"
    and "foldl (\<lambda>value d. value * 10 + d) 0 ds = foldl (\<lambda>value d. value * 10 + d) 0 es"
  shows "ds = es"
  using assms
proof (induction ds es rule: rev_induct2)
  case (4 d ds e es)
  then have *: "foldl (\<lambda>value d. value * 10 + d) 0 ds * 10 + d = foldl (\<lambda>value d. value * 10 + d) 0 es * 10 + e"
    "d < 10" "e < 10" by auto
  then have "d = e" by presburger
  then show ?case using 4 * by simp
qed auto

lemma encode_range:
  assumes "is_digits ds"
  shows "\<exists>v. encodeLotteryNumber ds = Inr (LOTTERY_TICKET_OFFSET + v) \<and> v < 10 ^ 6"
  using assms decimal_value_less[of ds 0] by (auto simp: is_digits_def encodeLotteryNumber_def LOTTERY_DIGITS_def)

lemma encode_inj:
  "is_digits ds \<Longrightarrow> is_digits es \<Longrightarrow> encodeLotteryNumber ds = encodeLotteryNumber es \<Longrightarrow> ds = es"
  by (rule decimal_value_inj) (auto simp: is_digits_def encodeLotteryNumber_def)

lemma match_loop_spec:
  "match_loop k i t d \<le> k \<and> (\<forall>j < match_loop k i t d. get_at t (i + j) = get_at d (i + j)) \<and>
   (match_loop k i t d < k \<longrightarrow> get_at t (i + match_loop k i t d) \<noteq> get_at d (i + match_loop k i t d))"
proof (induction k i t d rule: match_loop.induct)
  case (2 k i t d)
  then show ?case by (auto simp: less_Suc_eq_0_disj)
qed simp

lemma leading_match_iff:
  assumes "length t = LOTTERY_DIGITS" and "length d = LOTTERY_DIGITS" and "m \<le> LOTTERY_DIGITS"
  shows "m \<le> lotteryLeadingMatch t d \<longleftrightarrow> take m t = take m d"
proof
  let ?L = "lotteryLeadingMatch t d"
  have spec: "?L \<le> LOTTERY_DIGITS" "\<forall>j < ?L. get_at t j = get_at d j"
    "?L < LOTTERY_DIGITS \<longrightarrow> get_at t ?L \<noteq> get_at d ?L"
    using match_loop_spec[of LOTTERY_DIGITS 0 t d] by (simp_all add: lotteryLeadingMatch_def)
  show "take m t = take m d" if "m \<le> ?L"
    using that spec(1,2) assms by (auto simp: list_eq_iff_nth_eq)
  show "m \<le> ?L" if "take m t = take m d"
  proof (rule ccontr)
    assume "\<not> m \<le> ?L"
    then have lt: "?L < m" "?L < LOTTERY_DIGITS" using assms(3) by auto
    then have "t ! ?L = d ! ?L" using that by (metis nth_take)
    then show False using spec(3) lt assms by simp
  qed
qed

lemma lotteryDraw_digits:
  assumes "length cs = 32" and "length slot = 32"
  shows "\<exists>ds enc. lotteryDraw sha seed cs slot nonce = Inr (ds, enc) \<and> is_digits ds \<and>
    encodeLotteryNumber ds = Inr enc \<and> 1000000 \<le> enc \<and> enc < 2000000"
proof -
  obtain entropy where e: "lotteryFinalEntropy sha seed cs slot nonce = Inr entropy"
    using assms by (simp add: lotteryFinalEntropy_def)
  define ds where "ds = map (\<lambda>i. lottery_roll sha entropy [0x64, of_nat i] mod LOTTERY_DIGIT_MAX) [0..<LOTTERY_DIGITS]"
  have "is_digits ds" by (auto simp: is_digits_def ds_def LOTTERY_DIGIT_MAX_def)
  then show ?thesis using encode_range[of ds] e
    by (auto simp: lotteryDraw_def ds_def[symmetric] Let_def LOTTERY_TICKET_OFFSET_def)
qed

text \<open>
  A lottery draw with 32-byte seeds always succeeds with six digits 0..9 and a number 1xxxxxx; the
  number identifies the digits; and a ticket reaches bracket \<open>b\<close> or higher exactly when its first
  \<open>b + 1\<close> digits are those of the winning number.
\<close>

theorem lottery_draw_correct:
  assumes "length slot = 32" and "is_digits ticket"
  shows "\<exists>ds enc. lotteryDraw sha seed (padClientSeed32 client) slot nonce = Inr (ds, enc) \<and>
      is_digits ds \<and> 1000000 \<le> enc \<and> enc < 2000000 \<and>
      (encodeLotteryNumber ticket = Inr enc \<longleftrightarrow> ticket = ds) \<and>
      (\<forall>b < 6. (\<exists>b' \<ge> b. lotteryBracket (lotteryLeadingMatch ticket ds) = Some b') \<longleftrightarrow>
               take (Suc b) ticket = take (Suc b) ds)"
proof -
  obtain ds enc where d: "lotteryDraw sha seed (padClientSeed32 client) slot nonce = Inr (ds, enc)"
    "is_digits ds" "encodeLotteryNumber ds = Inr enc" "1000000 \<le> enc" "enc < 2000000"
    using lotteryDraw_digits[of "padClientSeed32 client" slot sha seed nonce] assms(1) by auto
  have "encodeLotteryNumber ticket = Inr enc \<longleftrightarrow> ticket = ds"
    using d(2,3) encode_inj[OF assms(2)] by auto
  moreover have "(\<exists>b' \<ge> b. lotteryBracket (lotteryLeadingMatch ticket ds) = Some b') \<longleftrightarrow>
      take (Suc b) ticket = take (Suc b) ds" if "b < 6" for b
    using leading_match_iff[of ticket ds "Suc b"] that d(2) assms(2)
    by (auto simp: lotteryBracket_def is_digits_def LOTTERY_DIGITS_def min_def)
  ultimately show ?thesis using d by blast
qed

theorem lottery_draw_correct_witness:
  "\<exists>ds enc. lotteryDraw (\<lambda>_. 5) ''ab'' (padClientSeed32 ''c'') (replicate 32 0) 0 = Inr (ds, enc) \<and> enc < 2000000"
  using lottery_draw_correct[of "replicate 32 0" "[1, 2, 3, 4, 5, 6]" "\<lambda>_. 5" "''ab''" "''c''" 0]
  by (auto simp: is_digits_def LOTTERY_DIGITS_def)

lemma crashPointFromSlot_ge_1:
  "length slotHash = 32 \<Longrightarrow> \<exists>m. crashPointFromSlot sha seed client slotHash nonce = Inr m \<and> 1 \<le> m"
proof -
  assume "length slotHash = 32"
  moreover have "int (parse_hex (take 13 (digest_hex d))) < 2 ^ 52" for d :: digest
    using hash52_range[of "\<lambda>_ _. d" "[]" "[]" 0] by (simp add: hash52_def hmacSha256_def)
  ultimately show ?thesis
    by (simp add: crashPointFromSlot_def lotteryFinalEntropy_def crash_ge_1)
qed

lemma jackpotWinningTicket_range:
  "0 < pot \<Longrightarrow> 0 \<le> jackpotWinningTicket hmac s c n pot \<and> jackpotWinningTicket hmac s c n pot < pot"
  by (simp add: jackpotWinningTicket_def)

lemma jackpotTicketFromEntropy_range:
  "length e = 32 \<Longrightarrow> 0 < pot \<Longrightarrow>
   \<exists>t. jackpotTicketFromEntropy sha s c e n pot = Inr t \<and> 0 \<le> t \<and> t < pot"
  by (simp add: jackpotTicketFromEntropy_def lotteryFinalEntropy_def)

end
