(* ===== verification/Fair_Cards.thy ===== *)
theory Fair_Cards
  imports Fair_Core
begin

text \<open>
  \<open>blackjack.ts\<close>: the deterministic deal, the reconstruction of a round from its public deal log,
  hand totals and the two side bets.
\<close>

subsection \<open>Cards and the deal\<close>

datatype rank = RA | R2 | R3 | R4 | R5 | R6 | R7 | R8 | R9 | R10 | RJ | RQ | RK

datatype suit = Hearts | Diamonds | Clubs | Spades

record card =
  rank :: rank
  suit :: suit

definition RANKS :: "rank list" where
  "RANKS = [RA, R2, R3, R4, R5, R6, R7, R8, R9, R10, RJ, RQ, RK]"

definition SUITS :: "suit list" where
  "SUITS = [Hearts, Diamonds, Clubs, Spades]"

definition deal_card :: "hmac \<Rightarrow> string \<Rightarrow> string \<Rightarrow> nat \<Rightarrow> nat \<Rightarrow> card" where
  "deal_card hmac serverSeed clientSeed nonce i =
     (let msg = buildMessage clientSeed nonce @ '':'' @ decimal i;
          hash = hmacSha256 hmac serverSeed msg;
          n = parse_hex (take 4 hash) mod 52
      in \<lparr> rank = RANKS ! (n mod 13), suit = SUITS ! (n div 13) \<rparr>)"

definition blackjackDeal :: "hmac \<Rightarrow> string \<Rightarrow> string \<Rightarrow> nat \<Rightarrow> nat \<Rightarrow> card list" where
  "blackjackDeal hmac serverSeed clientSeed nonce cnt =
     map (deal_card hmac serverSeed clientSeed nonce) [0..<cnt]"

datatype recipient = Seat nat | Dealer

record deal_entry =
  deckIndex :: nat
  dealtTo :: recipient
  handId :: string
  logged_card :: "card option"

record reproduced_hand =
  hand_to :: recipient
  hand_id :: string
  hand_cards :: "card list"

definition reproduceHand :: "hmac \<Rightarrow> string \<Rightarrow> string \<Rightarrow> nat \<Rightarrow> nat list \<Rightarrow> card list" where
  "reproduceHand hmac serverSeed clientSeed nonce deckIndices =
     (if deckIndices = [] then []
      else let stream = blackjackDeal hmac serverSeed clientSeed nonce (Max (set deckIndices) + 1)
           in map (\<lambda>i. stream ! i) deckIndices)"

text \<open>The template literal \<open>`${e.dealtTo}|${e.handId}`\<close>.\<close>

definition hand_key :: "deal_entry \<Rightarrow> string" where
  "hand_key e = (case dealtTo e of Seat i \<Rightarrow> decimal i | Dealer \<Rightarrow> ''dealer'') @ ''|'' @ handId e"

definition add_to_hand ::
  "card list \<Rightarrow> deal_entry \<Rightarrow> (string, reproduced_hand) table \<Rightarrow> (string, reproduced_hand) table" where
  "add_to_hand stream e hands =
     (let key = hand_key e;
          hand = (case map_of hands key of
                    Some h \<Rightarrow> h
                  | None \<Rightarrow> \<lparr> hand_to = dealtTo e, hand_id = handId e, hand_cards = [] \<rparr>)
      in AList.update key (hand \<lparr> hand_cards := hand_cards hand @ [stream ! deckIndex e] \<rparr>) hands)"

definition reproduceRound ::
  "hmac \<Rightarrow> string \<Rightarrow> string \<Rightarrow> nat \<Rightarrow> deal_entry list \<Rightarrow> reproduced_hand list" where
  "reproduceRound hmac serverSeed clientSeed nonce dealOrder =
     (if dealOrder = [] then []
      else let maxIndex = fold (\<lambda>e m. max m (deckIndex e)) dealOrder 0;
               stream = blackjackDeal hmac serverSeed clientSeed nonce (maxIndex + 1);
               hands = fold (add_to_hand stream) (sort_key deckIndex dealOrder) []
           in map snd hands)"

subsection \<open>Hand totals\<close>

definition cardValue :: "card \<Rightarrow> int" where
  "cardValue c = (case rank c of
     RA \<Rightarrow> 11 | RK \<Rightarrow> 10 | RQ \<Rightarrow> 10 | RJ \<Rightarrow> 10 | R10 \<Rightarrow> 10
   | R2 \<Rightarrow> 2 | R3 \<Rightarrow> 3 | R4 \<Rightarrow> 4 | R5 \<Rightarrow> 5 | R6 \<Rightarrow> 6 | R7 \<Rightarrow> 7 | R8 \<Rightarrow> 8 | R9 \<Rightarrow> 9)"

text \<open>The \<open>while\<close> loop that turns aces from 11 to 1: it ends because it uses up an ace.\<close>

fun downgrade :: "int \<Rightarrow> nat \<Rightarrow> int \<times> nat" where
  "downgrade t 0 = (t, 0)"
| "downgrade t (Suc aces) =
     (if t > 21 then downgrade (t - 10) aces else (t, Suc aces))"

definition handValue :: "card list \<Rightarrow> int \<times> bool" where
  "handValue cards =
     (let (tot, aces) = fold (\<lambda>c (t, a). (t + cardValue c, if rank c = RA then Suc a else a)) cards (0, 0);
          (tot', aces') = downgrade tot aces
      in (tot', aces' > 0))"

definition isBlackjack :: "card list \<Rightarrow> bool" where
  "isBlackjack cards \<longleftrightarrow> length cards = 2 \<and> fst (handValue cards) = 21"

definition isBust :: "card list \<Rightarrow> bool" where
  "isBust cards \<longleftrightarrow> fst (handValue cards) > 21"

subsection \<open>Side bets\<close>

datatype twentyone_plus_three =
  SuitedTrips | StraightFlush | ThreeOfAKind | Straight | Flush | NoTriple

datatype perfect_pairs = Perfect | Colored | Mixed | NoPair

text \<open>\<open>STRAIGHT_ORDER.indexOf(rank)\<close>.\<close>

definition straight_index :: "rank \<Rightarrow> nat" where
  "straight_index r = (case r of
     RA \<Rightarrow> 0 | R2 \<Rightarrow> 1 | R3 \<Rightarrow> 2 | R4 \<Rightarrow> 3 | R5 \<Rightarrow> 4 | R6 \<Rightarrow> 5 | R7 \<Rightarrow> 6 | R8 \<Rightarrow> 7 | R9 \<Rightarrow> 8
   | R10 \<Rightarrow> 9 | RJ \<Rightarrow> 10 | RQ \<Rightarrow> 11 | RK \<Rightarrow> 12)"

definition isStraightTriple :: "card list \<Rightarrow> bool" where
  "isStraightTriple cards =
     (let idxs = sort (map (\<lambda>c. straight_index (rank c)) cards)
      in if card (set idxs) \<noteq> 3 then False
         else let consecutive = (idxs ! 2 = idxs ! 0 + 2 \<and> idxs ! 1 = idxs ! 0 + 1);
                  aceHigh = (idxs ! 0 = 0 \<and> idxs ! 1 = 11 \<and> idxs ! 2 = 12)
              in consecutive \<or> aceHigh)"

definition evaluate21Plus3 :: "card \<Rightarrow> card \<Rightarrow> card \<Rightarrow> twentyone_plus_three" where
  "evaluate21Plus3 p1 p2 dealerUp =
     (let cards = [p1, p2, dealerUp];
          sameSuit = list_all (\<lambda>c. suit c = suit (cards ! 0)) cards;
          sameRank = list_all (\<lambda>c. rank c = rank (cards ! 0)) cards;
          straight = isStraightTriple cards
      in if sameRank \<and> sameSuit then SuitedTrips
         else if straight \<and> sameSuit then StraightFlush
         else if sameRank then ThreeOfAKind
         else if straight then Straight
         else if sameSuit then Flush
         else NoTriple)"

definition RED_SUITS :: "suit list" where
  "RED_SUITS = [Hearts, Diamonds]"

definition evaluatePerfectPairs :: "card \<Rightarrow> card \<Rightarrow> perfect_pairs" where
  "evaluatePerfectPairs p1 p2 =
     (if rank p1 \<noteq> rank p2 then NoPair
      else if suit p1 = suit p2 then Perfect
      else let sameColor = (suit p1 \<in> set RED_SUITS) = (suit p2 \<in> set RED_SUITS)
           in if sameColor then Colored else Mixed)"

subsection \<open>The best total\<close>

text \<open>The reference: aces as 1, and how many of them a total counts as 11.\<close>

definition hard_value :: "card \<Rightarrow> int" where
  "hard_value c = (if rank c = RA then 1 else cardValue c)"

definition ace_count :: "card list \<Rightarrow> nat" where
  "ace_count cards = length (filter (\<lambda>c. rank c = RA) cards)"

definition hard_total :: "card list \<Rightarrow> int" where
  "hard_total cards = sum_list (map hard_value cards)"

lemma fold_hand:
  "fold (\<lambda>c (t, a). (t + cardValue c, if rank c = RA then Suc a else a)) cards (t, a) =
     (t + hard_total cards + 10 * int (ace_count cards), a + ace_count cards)"
  by (induction cards arbitrary: t a) (auto simp: hard_total_def ace_count_def hard_value_def cardValue_def)

lemma downgrade_result:
  "\<exists>k \<le> aces. downgrade (h + 10 * int aces) aces = (h + 10 * int k, k) \<and>
     (h + 10 * int k \<le> 21 \<or> k = 0) \<and> (k < aces \<longrightarrow> 21 < h + 10 * int (Suc k))"
proof (induction aces)
  case (Suc a)
  show ?case
  proof (cases "h + 10 * int (Suc a) > 21")
    case True
    obtain k where k: "k \<le> a" "downgrade (h + 10 * int a) a = (h + 10 * int k, k)"
      "h + 10 * int k \<le> 21 \<or> k = 0" "k < a \<longrightarrow> 21 < h + 10 * int (Suc k)" using Suc by blast
    then show ?thesis using True by (intro exI[of _ k]) (auto simp: algebra_simps le_less)
  next
    case False
    then show ?thesis by (intro exI[of _ "Suc a"]) auto
  qed
qed (auto intro: exI[of _ 0])

text \<open>
  The blackjack total is the best one: it counts some of the aces as 11 and the rest as 1; if the hand
  can stay at 21 or below, no choice of aces gives a larger total that does; otherwise all aces count 1;
  and the hand is soft exactly when an ace still counts 11.
\<close>

theorem hand_value_best:
  "\<exists>k \<le> ace_count cards. fst (handValue cards) = hard_total cards + 10 * int k \<and>
    (snd (handValue cards) \<longleftrightarrow> 0 < k) \<and>
    (if hard_total cards \<le> 21
     then fst (handValue cards) \<le> 21 \<and>
       (\<forall>j \<le> ace_count cards. hard_total cards + 10 * int j \<le> 21 \<longrightarrow>
          hard_total cards + 10 * int j \<le> fst (handValue cards))
     else k = 0)"
proof -
  obtain k where k: "k \<le> ace_count cards"
    "downgrade (hard_total cards + 10 * int (ace_count cards)) (ace_count cards) = (hard_total cards + 10 * int k, k)"
    "hard_total cards + 10 * int k \<le> 21 \<or> k = 0"
    "k < ace_count cards \<longrightarrow> 21 < hard_total cards + 10 * int (Suc k)"
    by (rule exE[OF downgrade_result[of "ace_count cards" "hard_total cards"]]) (elim conjE)
  have v: "handValue cards = (hard_total cards + 10 * int k, k > 0)"
    using k(2) by (simp add: handValue_def fold_hand)
  have "int j \<le> int k" if "j \<le> ace_count cards" "hard_total cards + 10 * int j \<le> 21" for j
    using that k(4) by (cases "k < ace_count cards") auto
  then show ?thesis using k(1,3) by (intro exI[of _ k]) (auto simp: v)
qed

theorem hand_value_best_witness:
  "\<exists>k \<le> 1. fst (handValue [\<lparr> rank = RA, suit = Hearts \<rparr>, \<lparr> rank = R9, suit = Clubs \<rparr>]) = 10 + 10 * int k"
proof -
  let ?cs = "[\<lparr> rank = RA, suit = Hearts \<rparr>, \<lparr> rank = R9, suit = Clubs \<rparr>]"
  have a: "ace_count ?cs = 1" "hard_total ?cs = 10"
    by (simp_all add: ace_count_def hard_total_def hard_value_def cardValue_def)
  show ?thesis by (rule exE[OF hand_value_best[of ?cs, unfolded a]]) blast
qed

subsection \<open>Side bets do not depend on the order of the cards\<close>

lemma isStraightTriple_perm: "mset cs = mset ds \<Longrightarrow> isStraightTriple cs = isStraightTriple ds"
proof -
  assume "mset cs = mset ds"
  then have "mset (map (\<lambda>c. straight_index (rank c)) cs) = mset (map (\<lambda>c. straight_index (rank c)) ds)" by simp
  then have "sort (map (\<lambda>c. straight_index (rank c)) cs) = sort (map (\<lambda>c. straight_index (rank c)) ds)"
    by (metis mset_sort properties_for_sort sorted_sort)
  then show ?thesis by (simp add: isStraightTriple_def)
qed

lemma evaluate21Plus3_perm:
  assumes "mset [a, b, c] = mset [x, y, z]"
  shows "evaluate21Plus3 a b c = evaluate21Plus3 x y z"
proof -
  have single: "(Q u = Q u \<and> Q v = Q u \<and> Q w = Q u) = (\<exists>k. \<forall>e \<in> set [u, v, w]. Q e = k)"
    for Q :: "card \<Rightarrow> 'a" and u v w by auto
  have eq3: "(Q a = Q a \<and> Q b = Q a \<and> Q c = Q a) = (Q x = Q x \<and> Q y = Q x \<and> Q z = Q x)"
    for Q :: "card \<Rightarrow> 'a" unfolding single mset_eq_setD[OF assms] ..
  have s: "isStraightTriple [a, b, c] = isStraightTriple [x, y, z]" using assms by (rule isStraightTriple_perm)
  show ?thesis unfolding evaluate21Plus3_def Let_def s using eq3[of rank] eq3[of suit] by simp
qed

lemma evaluatePerfectPairs_sym: "evaluatePerfectPairs p q = evaluatePerfectPairs q p"
  by (auto simp: evaluatePerfectPairs_def Let_def)

subsection \<open>Reconstruction of a round from its deal log\<close>

lemma hand_key_inj: "hand_key e = hand_key f \<longleftrightarrow> dealtTo e = dealtTo f \<and> handId e = handId f"
proof
  have dig: "CHR ''|'' \<notin> set (decimal n)" "CHR ''d'' \<notin> set (decimal n)" for n
    using decimal_digits[of "CHR ''|''" n] decimal_digits[of "CHR ''d''" n] by auto
  have dealer: "decimal n \<noteq> ''dealer''" for n
  proof
    assume "decimal n = ''dealer''"
    then show False using dig(2)[of n] by simp
  qed
  assume "hand_key e = hand_key f"
  then have "(case dealtTo e of Seat i \<Rightarrow> decimal i | Dealer \<Rightarrow> ''dealer'') =
      (case dealtTo f of Seat i \<Rightarrow> decimal i | Dealer \<Rightarrow> ''dealer'') \<and> handId e = handId f"
    by (intro first_colon_split[where c = "CHR ''|''"]) (auto simp: hand_key_def dig split: recipient.split)
  then show "dealtTo e = dealtTo f \<and> handId e = handId f"
    by (auto simp: dealer dealer[symmetric] split: recipient.splits)
qed (simp add: hand_key_def)

lemma add_to_hand_keyed: "keyed t \<Longrightarrow> keyed (add_to_hand stream e t)"
  by (simp add: add_to_hand_def Let_def)

lemma add_to_hand_lookup:
  "map_of (add_to_hand stream e t) k =
     (if k \<noteq> hand_key e then map_of t k
      else Some (case map_of t k of
          None \<Rightarrow> \<lparr> hand_to = dealtTo e, hand_id = handId e, hand_cards = [stream ! deckIndex e] \<rparr>
        | Some h \<Rightarrow> h \<lparr> hand_cards := hand_cards h @ [stream ! deckIndex e] \<rparr>))"
  by (simp add: add_to_hand_def Let_def split: option.split)

lemma hands_after:
  "keyed (fold (add_to_hand stream) es []) \<and>
   map_of (fold (add_to_hand stream) es []) k =
     (case filter (\<lambda>e. hand_key e = k) es of
        [] \<Rightarrow> None
      | f # fs \<Rightarrow> Some \<lparr> hand_to = dealtTo f, hand_id = handId f,
                      hand_cards = map (\<lambda>e. stream ! deckIndex e) (f # fs) \<rparr>)"
proof (induction es arbitrary: k rule: rev_induct)
  case (snoc e es)
  have "keyed (add_to_hand stream e (fold (add_to_hand stream) es []))"
    using snoc by (intro add_to_hand_keyed) blast
  then show ?case using snoc[of k] by (auto simp: add_to_hand_lookup split: list.split)
qed simp

lemma fold_max_ge: "e \<in> set es \<Longrightarrow> deckIndex e \<le> fold (\<lambda>e m. max m (deckIndex e)) es 0"
proof -
  have ge: "m \<le> fold (\<lambda>e m. max m (deckIndex e)) es m" for es and m :: nat
    by (induction es arbitrary: m) (auto intro: order_trans[OF max.cobounded1])
  have "e \<in> set es \<Longrightarrow> deckIndex e \<le> fold (\<lambda>e m. max m (deckIndex e)) es m" for m
  proof (induction es arbitrary: m)
    case (Cons a es)
    then show ?case using ge[of "max m (deckIndex a)" es] by auto
  qed simp
  then show "e \<in> set es \<Longrightarrow> deckIndex e \<le> fold (\<lambda>e m. max m (deckIndex e)) es 0" .
qed

lemma blackjackDeal_nth [simp]: "i < k \<Longrightarrow> blackjackDeal hmac s c n k ! i = deal_card hmac s c n i"
  by (simp add: blackjackDeal_def)

lemma reproduceHand_cards: "reproduceHand hmac s c n is = map (deal_card hmac s c n) is"
  by (auto simp: reproduceHand_def Let_def less_Suc_eq_le)

text \<open>The table of hands before it is turned into a list, and what each of its rows holds.\<close>

definition round_hands ::
  "hmac \<Rightarrow> string \<Rightarrow> string \<Rightarrow> nat \<Rightarrow> deal_entry list \<Rightarrow> (string, reproduced_hand) table" where
  "round_hands hmac s c n dealOrder =
     fold (add_to_hand (blackjackDeal hmac s c n (fold (\<lambda>e m. max m (deckIndex e)) dealOrder 0 + 1)))
       (sort_key deckIndex dealOrder) []"

lemma reproduceRound_hands: "reproduceRound hmac s c n dealOrder = map snd (round_hands hmac s c n dealOrder)"
  by (simp add: reproduceRound_def round_hands_def Let_def)

lemma round_hands_keyed: "keyed (round_hands hmac s c n dealOrder)"
  unfolding round_hands_def using hands_after by blast

lemma round_hands_row:
  assumes "(k, h) \<in> set (round_hands hmac s c n dealOrder)"
  shows "\<exists>e \<in> set dealOrder. k = hand_key e \<and> hand_to h = dealtTo e \<and> hand_id h = handId e \<and>
      hand_cards h = map (deal_card hmac s c n)
        (map deckIndex (filter (\<lambda>e. hand_key e = k) (sort_key deckIndex dealOrder)))"
proof -
  let ?stream = "blackjackDeal hmac s c n (fold (\<lambda>e m. max m (deckIndex e)) dealOrder 0 + 1)"
  let ?es = "sort_key deckIndex dealOrder"
  have "map_of (round_hands hmac s c n dealOrder) k = Some h"
    using assms round_hands_keyed by (simp add: keyed_def)
  then obtain f fs where f: "filter (\<lambda>e. hand_key e = k) ?es = f # fs"
    "h = \<lparr> hand_to = dealtTo f, hand_id = handId f, hand_cards = map (\<lambda>e. ?stream ! deckIndex e) (f # fs) \<rparr>"
    unfolding round_hands_def conjunct2[OF hands_after] by (auto split: list.splits)
  have in_log: "e \<in> set dealOrder \<and> hand_key e = k" if "e \<in> set (f # fs)" for e
    using that arg_cong[OF f(1), of set] by auto
  have "?stream ! deckIndex e = deal_card hmac s c n (deckIndex e)" if "e \<in> set (f # fs)" for e
    using in_log[OF that] fold_max_ge[of e dealOrder] by (simp add: less_Suc_eq_le)
  then show ?thesis using f in_log[of f] by (intro bexI[of _ f]) simp_all
qed

lemma round_hands_cards:
  assumes "(k, h) \<in> set (round_hands hmac s c n dealOrder)"
  shows "hand_cards h = map (deal_card hmac s c n) (map deckIndex
      (filter (\<lambda>e. dealtTo e = hand_to h \<and> handId e = hand_id h) (sort_key deckIndex dealOrder)))"
proof -
  obtain e where e: "k = hand_key e" "hand_to h = dealtTo e" "hand_id h = handId e"
    "hand_cards h = map (deal_card hmac s c n)
        (map deckIndex (filter (\<lambda>e. hand_key e = k) (sort_key deckIndex dealOrder)))"
    using round_hands_row[OF assms] by blast
  have "(\<lambda>f. hand_key f = k) = (\<lambda>f. dealtTo f = hand_to h \<and> handId f = hand_id h)"
    unfolding e(1-3) hand_key_inj ..
  then show ?thesis using e(4) by simp
qed

lemma round_hands_complete:
  assumes "e \<in> set dealOrder"
  shows "\<exists>h. (hand_key e, h) \<in> set (round_hands hmac s c n dealOrder)"
proof -
  have "filter (\<lambda>f. hand_key f = hand_key e) (sort_key deckIndex dealOrder) \<noteq> []"
    using assms by (auto simp: filter_empty_conv)
  then obtain h where "map_of (round_hands hmac s c n dealOrder) (hand_key e) = Some h"
    unfolding round_hands_def conjunct2[OF hands_after] by (auto simp: neq_Nil_conv)
  then show ?thesis by (blast dest: map_of_SomeD)
qed

lemma round_hands_inj: "inj_on (\<lambda>(k, h). (hand_to h, hand_id h)) (set (round_hands hmac s c n dealOrder))"
proof (rule inj_onI)
  let ?t = "round_hands hmac s c n dealOrder"
  fix p q assume pq: "p \<in> set ?t" "q \<in> set ?t"
    "(case p of (k, h) \<Rightarrow> (hand_to h, hand_id h)) = (case q of (k, h) \<Rightarrow> (hand_to h, hand_id h))"
  obtain k h k' h' where kh: "p = (k, h)" "q = (k', h')" by (cases p, cases q)
  have "k = k'"
    using round_hands_row[OF pq(1)[unfolded kh]] round_hands_row[OF pq(2)[unfolded kh]] pq(3) hand_key_inj
    unfolding kh by auto
  then show "p = q" using eq_key_imp_eq_value[of ?t k h h'] round_hands_keyed pq(1,2)
    unfolding kh keyed_def by simp
qed

text \<open>
  C26. A round is reproduced faithfully from its public log: there is one hand per recipient and hand id
  of the log and no other, and its cards are the cards of the committed stream at the deck indices
  the log records for it, in deal order; the per-hand verifier gives the same cards.
\<close>

theorem reproduce_round_faithful:
  "distinct (map (\<lambda>h. (hand_to h, hand_id h)) (reproduceRound hmac s c n dealOrder)) \<and>
   (\<lambda>h. (hand_to h, hand_id h)) ` set (reproduceRound hmac s c n dealOrder) =
     (\<lambda>e. (dealtTo e, handId e)) ` set dealOrder \<and>
   (\<forall>h \<in> set (reproduceRound hmac s c n dealOrder).
      let is = map deckIndex (filter (\<lambda>e. dealtTo e = hand_to h \<and> handId e = hand_id h) (sort_key deckIndex dealOrder))
      in hand_cards h = map (deal_card hmac s c n) is \<and> hand_cards h = reproduceHand hmac s c n is)"
proof -
  let ?t = "round_hands hmac s c n dealOrder"
  have "distinct ?t" using round_hands_keyed by (simp add: keyed_def distinct_map)
  then have "distinct (map (\<lambda>h. (hand_to h, hand_id h)) (map snd ?t))"
    using round_hands_inj by (simp add: distinct_map o_def case_prod_unfold)
  moreover have "(\<lambda>h. (hand_to h, hand_id h)) ` set (map snd ?t) \<subseteq> (\<lambda>e. (dealtTo e, handId e)) ` set dealOrder"
    using round_hands_row[of _ _ hmac s c n dealOrder] by force
  moreover have "(dealtTo e, handId e) \<in> (\<lambda>h. (hand_to h, hand_id h)) ` set (map snd ?t)" if "e \<in> set dealOrder" for e
  proof -
    from round_hands_complete[OF that] obtain h where kh: "(hand_key e, h) \<in> set ?t" by blast
    then have "(dealtTo e, handId e) = (hand_to h, hand_id h)" using round_hands_row[OF kh] hand_key_inj by auto
    then show ?thesis using kh by force
  qed
  ultimately show ?thesis unfolding reproduceRound_hands
    by (auto simp: Let_def reproduceHand_cards dest: round_hands_cards)
qed

theorem reproduce_round_faithful_witness:
  "\<exists>h. h \<in> set (reproduceRound (\<lambda>_ _. 9) ''s'' ''c'' 0
       [\<lparr> deckIndex = 1, dealtTo = Dealer, handId = ''d'', logged_card = None \<rparr>]) \<and>
     hand_cards h = [deal_card (\<lambda>_ _. 9) ''s'' ''c'' 0 1]"
proof -
  let ?log = "[\<lparr> deckIndex = 1, dealtTo = Dealer, handId = ''d'', logged_card = None \<rparr>]"
  let ?R = "reproduceRound (\<lambda>_ _. 9) ''s'' ''c'' 0 ?log"
  note faithful = reproduce_round_faithful[of "\<lambda>_ _. 9" "''s''" "''c''" 0 ?log]
  have "(Dealer, ''d'') \<in> (\<lambda>h. (hand_to h, hand_id h)) ` set ?R"
    using conjunct1[OF conjunct2[OF faithful]] by simp
  then obtain h where h: "h \<in> set ?R" "hand_to h = Dealer" "hand_id h = ''d''" by auto
  have "hand_cards h = [deal_card (\<lambda>_ _. 9) ''s'' ''c'' 0 1]"
    using bspec[OF conjunct2[OF conjunct2[OF faithful]] h(1)] h(2,3) by (simp add: Let_def)
  then show ?thesis using h(1) by blast
qed

end
