(* ===== verification/Shared_Payouts.thy ===== *)
theory Shared_Payouts
  imports Shared_Config
begin

text \<open>
  The payout helpers of \<open>packages/shared/src/constants.ts\<close>: the multiplier of every instant and
  stepwise game, with the rounding of each double operation written out. Every helper ends in
  \<open>Math.floor(x * 100) / 100\<close>, so its result is a whole number of hundredths: the lemmas at the end
  say so, and the settlement theories rely on nothing else about the multipliers.
\<close>

definition lit :: "int \<Rightarrow> int \<Rightarrow> rat" where
  "lit n d = fl (of_int n / of_int d)"

subsection \<open>Dice\<close>

datatype dice_mode = Under | Over

definition DICE_HOUSE_EDGE :: rat where "DICE_HOUSE_EDGE = lit 1 100"
definition DICE_MIN_TARGET :: int where "DICE_MIN_TARGET = 2"
definition DICE_MAX_TARGET :: int where "DICE_MAX_TARGET = 98"

definition diceMultiplier :: "rat \<Rightarrow> dice_mode \<Rightarrow> rat \<Rightarrow> rat" where
  "diceMultiplier target mode edge =
     (let chancePct = (if mode = Over then fl (100 - target) else target)
      in floor2 (fl (fl (100 * fl (1 - edge)) / chancePct)))"

subsection \<open>Limbo\<close>

definition LIMBO_MIN_TARGET :: rat where "LIMBO_MIN_TARGET = lit 101 100"
definition LIMBO_MAX_TARGET :: rat where "LIMBO_MAX_TARGET = 1000000"

subsection \<open>Wheel\<close>

record bucket =
  multiplier :: rat
  weight :: int

definition WHEEL_BUCKETS :: "bucket list" where
  "WHEEL_BUCKETS =
     [\<lparr> multiplier = 0, weight = 32 \<rparr>, \<lparr> multiplier = lit 12 10, weight = 30 \<rparr>,
      \<lparr> multiplier = lit 15 10, weight = 14 \<rparr>, \<lparr> multiplier = 2, weight = 6 \<rparr>,
      \<lparr> multiplier = 3, weight = 3 \<rparr>, \<lparr> multiplier = 5, weight = 1 \<rparr>]"

definition WHEEL_SEGMENTS :: int where
  "WHEEL_SEGMENTS = fold (\<lambda>b a. a + weight b) WHEEL_BUCKETS 0"

definition weighted_sum :: "bucket list \<Rightarrow> rat" where
  "weighted_sum bs = fold (\<lambda>b a. fl (a + fl (of_int (weight b) * multiplier b))) bs 0"

definition wheelScaledBuckets :: "rat \<Rightarrow> bucket list" where
  "wheelScaledBuckets targetRtp =
     (let rawEv = fl (weighted_sum WHEEL_BUCKETS / of_int WHEEL_SEGMENTS);
          k = fl (targetRtp / rawEv)
      in map (\<lambda>b. \<lparr> multiplier = (if multiplier b = 0 then 0 else floor2 (fl (multiplier b * k))),
                   weight = weight b \<rparr>) WHEEL_BUCKETS)"

definition WHEEL_PAYOUT_BUCKETS :: "bucket list" where
  "WHEEL_PAYOUT_BUCKETS = wheelScaledBuckets RTP"

fun wheel_walk :: "int \<Rightarrow> int \<Rightarrow> bucket list \<Rightarrow> rat" where
  "wheel_walk index acc [] = 0"
| "wheel_walk index acc (b # bs) =
     (if index < acc + weight b then multiplier b else wheel_walk index (acc + weight b) bs)"

definition wheelMultiplier :: "int \<Rightarrow> rat" where
  "wheelMultiplier index = wheel_walk index 0 WHEEL_PAYOUT_BUCKETS"

definition wheelExpectedValue :: "bucket list \<Rightarrow> rat" where
  "wheelExpectedValue buckets =
     (let totalWeight = fold (\<lambda>b a. a + weight b) buckets 0
      in fl (weighted_sum buckets / of_int totalWeight))"

subsection \<open>Plinko\<close>

definition PLINKO_ROWS :: "nat list" where "PLINKO_ROWS = [8, 12, 16]"

definition PLINKO_SHAPES :: "nat \<Rightarrow> rat list option" where
  "PLINKO_SHAPES rows =
     (if rows = 8 then Some [13, 3, lit 13 10, lit 7 10, lit 4 10, lit 7 10, lit 13 10, 3, 13]
      else if rows = 12 then
        Some [33, 11, 4, 2, lit 11 10, lit 6 10, lit 3 10, lit 6 10, lit 11 10, 2, 4, 11, 33]
      else if rows = 16 then
        Some [110, 41, 10, 5, 3, lit 15 10, 1, lit 5 10, 1, lit 5 10, 1, lit 15 10, 3, 5, 10, 41, 110]
      else None)"

fun binomial_loop :: "int \<Rightarrow> nat \<Rightarrow> int \<Rightarrow> rat \<Rightarrow> rat" where
  "binomial_loop n 0 i c = c"
| "binomial_loop n (Suc k) i c = binomial_loop n k (i + 1) (fl (fl (c * of_int (n - i)) / of_int (i + 1)))"

definition js_binomial :: "int \<Rightarrow> int \<Rightarrow> rat" where
  "js_binomial n k = (if k < 0 \<or> k > n then 0 else binomial_loop n (nat k) 0 1)"

definition plinkoBinProbability :: "nat \<Rightarrow> nat \<Rightarrow> rat" where
  "plinkoBinProbability rows bin = fl (js_binomial (int rows) (int bin) / 2 ^ rows)"

definition plinkoExpectedValue :: "rat list \<Rightarrow> rat" where
  "plinkoExpectedValue payouts =
     (let rows = length payouts - 1
      in fold (\<lambda>(bin, mult) acc. fl (acc + fl (plinkoBinProbability rows bin * mult)))
           (enumerate 0 payouts) 0)"

definition plinkoScaledPayouts :: "nat \<Rightarrow> rat \<Rightarrow> rat list" where
  "plinkoScaledPayouts rows targetRtp =
     (case PLINKO_SHAPES rows of
        None \<Rightarrow> []
      | Some raw \<Rightarrow> let k = fl (targetRtp / plinkoExpectedValue raw) in map (\<lambda>m. floor2 (fl (m * k))) raw)"

definition plinkoPayouts :: "nat \<Rightarrow> rat list option" where
  "plinkoPayouts rows = map_of (map (\<lambda>r. (r, plinkoScaledPayouts r RTP)) PLINKO_ROWS) rows"

subsection \<open>Keno\<close>

datatype keno_risk = Low | Medium | High

definition keno_threshold :: "keno_risk \<Rightarrow> rat" where
  "keno_threshold r = (case r of Low \<Rightarrow> lit 3 10 | Medium \<Rightarrow> lit 45 100 | High \<Rightarrow> lit 6 10)"

definition keno_power :: "keno_risk \<Rightarrow> rat" where
  "keno_power r = (case r of Low \<Rightarrow> lit 12 10 | Medium \<Rightarrow> lit 22 10 | High \<Rightarrow> lit 36 10)"

fun choose_loop :: "int \<Rightarrow> int \<Rightarrow> nat \<Rightarrow> int \<Rightarrow> rat \<Rightarrow> rat" where
  "choose_loop n k 0 i r = r"
| "choose_loop n k (Suc m) i r = choose_loop n k m (i + 1) (fl (fl (r * of_int (n - k + i)) / of_int i))"

definition js_choose :: "int \<Rightarrow> int \<Rightarrow> rat" where
  "js_choose n k = (if k < 0 \<or> k > n then 0 else choose_loop n k (nat k) 1 1)"

definition kenoHitProbability :: "int \<Rightarrow> int \<Rightarrow> rat" where
  "kenoHitProbability picks hits =
     fl (fl (js_choose picks hits * js_choose (40 - picks) (10 - hits)) / js_choose 40 10)"

text \<open>\<open>**\<close> with a fractional exponent is the parameter \<open>pow\<close>.\<close>

definition kenoPaytable :: "(rat \<Rightarrow> rat \<Rightarrow> rat) \<Rightarrow> keno_risk \<Rightarrow> nat \<Rightarrow> rat \<Rightarrow> rat list" where
  "kenoPaytable pow risk picks targetRtp =
     (let minHits = max 1 (js_ceil (fl (of_nat picks * keno_threshold risk)));
          shape = map (\<lambda>h. if int h < minHits then 0 else pow (of_int (int h - minHits + 1)) (keno_power risk))
                    [0..<picks + 1];
          rawEv = fold (\<lambda>(h, w) ev. fl (ev + fl (w * kenoHitProbability (int picks) (int h))))
                    (enumerate 0 shape) 0;
          k = fl (targetRtp / rawEv)
      in map (\<lambda>w. floor2 (fl (w * k))) shape)"

subsection \<open>Mines, hi-lo and tower\<close>

definition MINES_CELLS :: int where "MINES_CELLS = 25"
definition MINES_MIN :: int where "MINES_MIN = 1"
definition MINES_MAX :: int where "MINES_MAX = 24"

fun mines_survival :: "int \<Rightarrow> int \<Rightarrow> nat \<Rightarrow> int \<Rightarrow> rat \<Rightarrow> rat" where
  "mines_survival mines cells 0 i p = p"
| "mines_survival mines cells (Suc k) i p =
     mines_survival mines cells k (i + 1) (fl (p * fl (of_int (cells - mines - i) / of_int (cells - i))))"

definition minesMultiplier :: "int \<Rightarrow> nat \<Rightarrow> rat" where
  "minesMultiplier mines picks =
     (let p = mines_survival mines MINES_CELLS picks 0 1
      in if p \<le> 0 then 0 else floor2 (fl (fl (1 - HOUSE_EDGE) / p)))"

datatype direction = Higher | Lower

definition HILO_RANKS :: int where "HILO_RANKS = 13"
definition HILO_MAX_STEPS :: nat where "HILO_MAX_STEPS = 25"

definition hiloWinProbability :: "int \<Rightarrow> direction \<Rightarrow> rat" where
  "hiloWinProbability rank direction =
     (if direction = Higher then fl (of_int (HILO_RANKS - rank) / of_int HILO_RANKS)
      else fl (of_int (rank + 1) / of_int HILO_RANKS))"

definition hiloStepMultiplier :: "int \<Rightarrow> direction \<Rightarrow> rat" where
  "hiloStepMultiplier rank direction =
     (let p = hiloWinProbability rank direction
      in if p \<le> 0 then 0 else floor2 (fl (fl (1 - HOUSE_EDGE) / p)))"

definition TOWER_ROWS :: nat where "TOWER_ROWS = 8"
definition TOWER_COLUMNS :: nat where "TOWER_COLUMNS = 3"
definition TOWER_SAFE_PER_ROW :: nat where "TOWER_SAFE_PER_ROW = 2"

definition towerMultiplier :: "(rat \<Rightarrow> nat \<Rightarrow> rat) \<Rightarrow> nat \<Rightarrow> rat" where
  "towerMultiplier pow rows =
     (let perRow = fl (of_nat TOWER_COLUMNS / of_nat TOWER_SAFE_PER_ROW)
      in floor2 (fl (fl (1 - HOUSE_EDGE) * pow perRow rows)))"

subsection \<open>Every multiplier is a whole number of hundredths\<close>

definition two_decimal :: "rat \<Rightarrow> bool" where
  "two_decimal x \<longleftrightarrow> (\<exists>k. 0 \<le> k \<and> x = centi k)"

lemma two_decimal_nonneg: "two_decimal x \<Longrightarrow> 0 \<le> x"
  by (auto simp: two_decimal_def centi_nonneg)

lemma two_decimal_0 [simp, intro]: "two_decimal 0"
  unfolding two_decimal_def by (rule exI[of _ 0]) simp

lemma two_decimal_1 [simp, intro]: "two_decimal 1"
  unfolding two_decimal_def by (rule exI[of _ 100]) simp

lemma two_decimal_floor2 [intro]: "0 \<le> x \<Longrightarrow> two_decimal (floor2 x)"
  unfolding two_decimal_def floor2_def js_floor_def
  by (rule exI[of _ "\<lfloor>fl (x * 100)\<rfloor>"]) (simp add: fl_nonneg)

lemma HOUSE_EDGE_bounds [simp, intro]: "0 \<le> HOUSE_EDGE" "HOUSE_EDGE \<le> 1"
  using fl_mono[of "5 / 100" 1] fl_of_int[of 1] by (simp_all add: HOUSE_EDGE_def fl_nonneg)

lemma fl_rtp_nonneg [simp, intro]: "0 \<le> fl (1 - HOUSE_EDGE)"
  using HOUSE_EDGE_bounds by (simp add: fl_nonneg)

lemma diceMultiplier_two_decimal:
  "0 \<le> target \<Longrightarrow> target \<le> 100 \<Longrightarrow> edge \<le> 1 \<Longrightarrow> two_decimal (diceMultiplier target mode edge)"
  by (auto simp: diceMultiplier_def Let_def intro!: two_decimal_floor2 fl_nonneg divide_nonneg_nonneg mult_nonneg_nonneg)

lemma minesMultiplier_two_decimal: "two_decimal (minesMultiplier mines picks)"
  by (auto simp: minesMultiplier_def Let_def not_le intro!: two_decimal_floor2 fl_nonneg divide_nonneg_nonneg)

lemma hiloStepMultiplier_two_decimal: "two_decimal (hiloStepMultiplier rank direction)"
  by (auto simp: hiloStepMultiplier_def Let_def not_le intro!: two_decimal_floor2 fl_nonneg divide_nonneg_nonneg)

lemma towerMultiplier_two_decimal:
  "(\<And>x n. 0 \<le> x \<Longrightarrow> 0 \<le> pow x n) \<Longrightarrow> two_decimal (towerMultiplier pow rows)"
proof -
  assume "\<And>x n. 0 \<le> x \<Longrightarrow> 0 \<le> pow x n"
  then have "0 \<le> pow (fl (of_nat TOWER_COLUMNS / of_nat TOWER_SAFE_PER_ROW)) rows" by (simp add: fl_nonneg)
  then show ?thesis
    unfolding towerMultiplier_def Let_def by (intro two_decimal_floor2 fl_nonneg mult_nonneg_nonneg) auto
qed

lemma lit_nonneg [simp, intro]: "0 \<le> n \<Longrightarrow> 0 < d \<Longrightarrow> 0 \<le> lit n d"
  by (simp add: lit_def fl_nonneg)

lemma fold_fl_nonneg:
  "(\<And>x. x \<in> set xs \<Longrightarrow> 0 \<le> g x) \<Longrightarrow> 0 \<le> a \<Longrightarrow> 0 \<le> fold (\<lambda>x a. fl (a + fl (g x))) xs a"
proof (induction xs arbitrary: a)
  case (Cons x xs)
  then have "0 \<le> fl (a + fl (g x))" by (intro fl_nonneg add_nonneg_nonneg) auto
  then show ?case using Cons by auto
qed simp

lemma wheel_buckets_nonneg: "b \<in> set WHEEL_BUCKETS \<Longrightarrow> 0 \<le> multiplier b \<and> 0 \<le> weight b"
  by (auto simp: WHEEL_BUCKETS_def)

lemma RTP_nonneg [simp, intro]: "0 \<le> RTP"
  using HOUSE_EDGE_bounds by (simp add: RTP_def fl_nonneg)

lemma WHEEL_SEGMENTS_value: "WHEEL_SEGMENTS = 86"
  by (simp add: WHEEL_SEGMENTS_def WHEEL_BUCKETS_def)

lemma wheelScaledBuckets_two_decimal:
  "0 \<le> rtp \<Longrightarrow> b \<in> set (wheelScaledBuckets rtp) \<Longrightarrow> two_decimal (multiplier b)"
proof -
  assume a: "0 \<le> rtp" "b \<in> set (wheelScaledBuckets rtp)"
  have "0 \<le> weighted_sum WHEEL_BUCKETS" unfolding weighted_sum_def
    using wheel_buckets_nonneg by (intro fold_fl_nonneg mult_nonneg_nonneg) auto
  then have "0 \<le> fl (rtp / fl (weighted_sum WHEEL_BUCKETS / of_int WHEEL_SEGMENTS))"
    using a(1) by (intro fl_nonneg divide_nonneg_nonneg) (auto simp: WHEEL_SEGMENTS_value)
  then show ?thesis using a(2) wheel_buckets_nonneg
    by (auto simp: wheelScaledBuckets_def Let_def intro!: two_decimal_floor2 fl_nonneg mult_nonneg_nonneg)
qed

lemma wheelMultiplier_two_decimal: "two_decimal (wheelMultiplier index)"
proof -
  have walk: "\<forall>b \<in> set bs. two_decimal (multiplier b) \<Longrightarrow> two_decimal (wheel_walk index acc bs)" for acc bs
    by (induction bs arbitrary: acc) auto
  have "\<forall>b \<in> set WHEEL_PAYOUT_BUCKETS. two_decimal (multiplier b)"
    unfolding WHEEL_PAYOUT_BUCKETS_def using wheelScaledBuckets_two_decimal[OF RTP_nonneg] by blast
  then show ?thesis unfolding wheelMultiplier_def by (rule walk)
qed

lemma binomial_loop_nonneg: "0 \<le> c \<Longrightarrow> 0 \<le> i \<Longrightarrow> i + int k \<le> n + 1 \<Longrightarrow> 0 \<le> binomial_loop n k i c"
proof (induction n k i c rule: binomial_loop.induct)
  case (2 n k i c)
  then have "0 \<le> fl (fl (c * of_int (n - i)) / of_int (i + 1))"
    by (intro fl_nonneg divide_nonneg_nonneg mult_nonneg_nonneg) auto
  then show ?case unfolding binomial_loop.simps using 2 by (intro 2(1)) auto
qed simp

lemma plinkoBinProbability_nonneg: "0 \<le> plinkoBinProbability rows bin"
  by (auto simp: plinkoBinProbability_def js_binomial_def intro!: fl_nonneg divide_nonneg_nonneg binomial_loop_nonneg)

lemma PLINKO_SHAPES_nonneg: "PLINKO_SHAPES rows = Some raw \<Longrightarrow> m \<in> set raw \<Longrightarrow> 0 \<le> m"
  by (auto simp: PLINKO_SHAPES_def split: if_splits)

lemma plinkoExpectedValue_nonneg: "(\<And>m. m \<in> set raw \<Longrightarrow> 0 \<le> m) \<Longrightarrow> 0 \<le> plinkoExpectedValue raw"
proof -
  assume nn: "\<And>m. m \<in> set raw \<Longrightarrow> 0 \<le> m"
  have "0 \<le> fold (\<lambda>x acc. fl (acc + fl (plinkoBinProbability (length raw - 1) (fst x) * snd x))) (enumerate 0 raw) 0"
    using nn plinkoBinProbability_nonneg
    by (intro fold_fl_nonneg mult_nonneg_nonneg) (auto simp: in_set_enumerate_eq)
  then show ?thesis by (simp add: plinkoExpectedValue_def case_prod_unfold)
qed

lemma plinkoPayouts_two_decimal:
  assumes "plinkoPayouts rows = Some tab" and "m \<in> set tab"
  shows "two_decimal m"
proof -
  have m: "m \<in> set (plinkoScaledPayouts rows RTP)"
    using assms by (auto simp: plinkoPayouts_def PLINKO_ROWS_def split: if_splits)
  show ?thesis
  proof (cases "PLINKO_SHAPES rows")
    case (Some raw)
    have "0 \<le> fl (RTP / plinkoExpectedValue raw)"
      using PLINKO_SHAPES_nonneg[OF Some] by (intro fl_nonneg divide_nonneg_nonneg plinkoExpectedValue_nonneg) auto
    then show ?thesis using m PLINKO_SHAPES_nonneg[OF Some]
      by (auto simp: plinkoScaledPayouts_def Some Let_def intro!: two_decimal_floor2 fl_nonneg mult_nonneg_nonneg)
  qed (use m in \<open>simp add: plinkoScaledPayouts_def\<close>)
qed

lemma plinkoPayouts_length:
  "plinkoPayouts rows = Some tab \<Longrightarrow> length tab = rows + 1"
  by (auto simp: plinkoPayouts_def PLINKO_ROWS_def plinkoScaledPayouts_def PLINKO_SHAPES_def Let_def split: if_splits)

lemma choose_loop_nonneg: "0 \<le> r \<Longrightarrow> 0 \<le> i \<Longrightarrow> k \<le> n \<Longrightarrow> 0 \<le> choose_loop n k m i r"
proof (induction n k m i r rule: choose_loop.induct)
  case (2 n k m i r)
  then have "0 \<le> fl (fl (r * of_int (n - k + i)) / of_int i)"
    by (intro fl_nonneg divide_nonneg_nonneg mult_nonneg_nonneg) auto
  then show ?case unfolding choose_loop.simps using 2 by (intro 2(1)) auto
qed simp

lemma js_choose_nonneg: "0 \<le> js_choose n k"
  by (auto simp: js_choose_def intro!: choose_loop_nonneg)

lemma kenoHitProbability_nonneg: "0 \<le> kenoHitProbability picks hits"
  by (auto simp: kenoHitProbability_def intro!: fl_nonneg divide_nonneg_nonneg mult_nonneg_nonneg js_choose_nonneg)

lemma kenoPaytable_two_decimal:
  assumes "\<And>x y. 0 \<le> x \<Longrightarrow> 0 \<le> pow x y" and "0 \<le> rtp"
  shows "length (kenoPaytable pow risk picks rtp) = picks + 1"
    and "m \<in> set (kenoPaytable pow risk picks rtp) \<Longrightarrow> two_decimal m"
proof -
  define minHits where "minHits = max 1 (js_ceil (fl (of_nat picks * keno_threshold risk)))"
  define shape where "shape = map (\<lambda>h. if int h < minHits then 0 else pow (of_int (int h - minHits + 1)) (keno_power risk)) [0..<picks + 1]"
  define ev where "ev = fold (\<lambda>(h, w) ev. fl (ev + fl (w * kenoHitProbability (int picks) (int h)))) (enumerate 0 shape) 0"
  have tab: "kenoPaytable pow risk picks rtp = map (\<lambda>w. floor2 (fl (w * fl (rtp / ev)))) shape"
    unfolding kenoPaytable_def Let_def minHits_def[symmetric] shape_def[symmetric] ev_def[symmetric] ..
  have nn: "0 \<le> w" if "w \<in> set shape" for w using that assms(1) by (auto simp: shape_def)
  have "0 \<le> fold (\<lambda>x ev. fl (ev + fl (snd x * kenoHitProbability (int picks) (int (fst x))))) (enumerate 0 shape) 0"
    using nn kenoHitProbability_nonneg
    by (intro fold_fl_nonneg mult_nonneg_nonneg) (auto simp: in_set_enumerate_eq)
  then have "0 \<le> ev" by (simp add: ev_def case_prod_unfold)
  then show "m \<in> set (kenoPaytable pow risk picks rtp) \<Longrightarrow> two_decimal m"
    using nn assms(2) by (auto simp: tab intro!: two_decimal_floor2 fl_nonneg mult_nonneg_nonneg divide_nonneg_nonneg)
  show "length (kenoPaytable pow risk picks rtp) = picks + 1" by (simp add: tab shape_def)
qed

subsection \<open>The house edge of dice and of the wheel\<close>

text \<open>
  \<open>floor2\<close> of a rounded integer quotient: the two roundings never carry the result over the next
  hundredth, and lose at most one.
\<close>

lemma floor2_quotient:
  fixes a b :: int
  assumes "0 \<le> a" and "0 < b" and "100 * a < 2 ^ 50"
  defines "k \<equiv> js_floor (fl (fl (of_int a / of_int b) * 100))"
  shows "k \<le> 100 * a div b" and "100 * a div b - 1 \<le> k"
proof -
  let ?x = "rat_of_int (100 * a) / of_int b" and ?q = "100 * a div b"
  have b: "0 < rat_of_int b" using assms by simp
  have x0: "0 \<le> ?x" using assms by simp
  let ?y = "fl (of_int a / of_int b) * 100"
  have y: "?y \<le> ?x * (1 + 1 / 2 ^ 53)" "?x * (1 - 1 / 2 ^ 53) \<le> ?y"
    using fl_upper[of "of_int a / of_int b"] fl_lower[of "of_int a / of_int b"] assms by (simp_all add: algebra_simps)
  have y0: "0 \<le> ?y" using assms by (simp add: fl_nonneg)
  have "fl ?y \<le> ?y * (1 + 1 / 2 ^ 53)" using fl_upper[OF y0] by (simp add: algebra_simps)
  also have "\<dots> \<le> ?x * (1 + 1 / 2 ^ 53) * (1 + 1 / 2 ^ 53)" using y(1) by (intro mult_right_mono) auto
  also have "\<dots> \<le> ?x * (1 + 1 / 2 ^ 51)" unfolding mult.assoc using x0 by (intro mult_left_mono) auto
  finally have up: "fl ?y \<le> ?x + ?x / 2 ^ 51" by (simp add: algebra_simps)
  have "?x * (1 - 1 / 2 ^ 51) \<le> ?x * ((1 - 1 / 2 ^ 53) * (1 - 1 / 2 ^ 53))" using x0 by (intro mult_left_mono) auto
  also have "\<dots> \<le> ?y * (1 - 1 / 2 ^ 53)" unfolding mult.assoc[symmetric] using y(2) by (intro mult_right_mono) auto
  also have "\<dots> \<le> fl ?y" using fl_lower[OF y0] by (simp add: algebra_simps)
  finally have lo: "?x - ?x / 2 ^ 51 \<le> fl ?y" by (simp add: algebra_simps)
  have "rat_of_int (100 * a) < of_int (2 ^ 50)" using assms(3) by (simp only: of_int_less_iff)
  then have small: "?x / 2 ^ 51 < 1 / of_int b" using b by (simp add: field_simps)
  have "b * ?q + 100 * a mod b = 100 * a" by (rule mult_div_mod_eq)
  then have q: "b * ?q \<le> 100 * a" "100 * a + 1 \<le> b * ?q + b"
    using pos_mod_sign[OF assms(2), of "100 * a"] pos_mod_bound[OF assms(2), of "100 * a"] by linarith+
  have qr: "rat_of_int b * of_int ?q \<le> of_int (100 * a)" "of_int (100 * a) + 1 \<le> rat_of_int b * of_int ?q + of_int b"
    using q[unfolded of_int_le_iff[where 'a = rat, symmetric]] by (simp_all only: of_int_mult of_int_add of_int_1)
  have "?x + 1 / of_int b \<le> of_int ?q + 1"
    using qr(2) b by (simp add: add_divide_distrib[symmetric] pos_divide_le_eq algebra_simps)
  then have "fl ?y < of_int (?q + 1)" using up small by simp
  then have "\<lfloor>fl ?y\<rfloor> < ?q + 1" by (simp only: floor_less_iff)
  then show "k \<le> ?q" unfolding k_def js_floor_def by simp
  have "of_int ?q \<le> ?x" using qr(1) b by (simp add: pos_le_divide_eq mult.commute)
  moreover have "1 / rat_of_int b \<le> 1" using assms(2) by simp
  ultimately have "of_int (?q - 1) \<le> fl ?y" using lo small by simp
  then show "?q - 1 \<le> k" unfolding k_def js_floor_def by (simp only: le_floor_iff)
qed

lemma dice_rtp_99: "fl (100 * fl (1 - DICE_HOUSE_EDGE)) = 99"
  by code_simp

text \<open>
  Dice keeps its edge at every whole target and in both modes: the multiplier is a whole number of
  hundredths, and the winning cells of the 10,000 times the multiplier are at most 99% of the stakes,
  and less than two hundredths per winning cell below it.
\<close>

theorem dice_house_edge:
  fixes T :: int
  assumes "2 \<le> T" and "T \<le> 98"
  defines "cells \<equiv> (\<lambda>mode. 100 * (case mode of Under \<Rightarrow> T | Over \<Rightarrow> 100 - T))"
  shows "\<exists>k. diceMultiplier (of_int T) mode DICE_HOUSE_EDGE = centi k \<and> 101 \<le> k \<and>
    cells mode * k \<le> 990000 \<and> 990000 - 2 * cells mode < cells mode * k"
proof -
  define C where "C = (case mode of Under \<Rightarrow> T | Over \<Rightarrow> 100 - T)"
  have C: "2 \<le> C" "C \<le> 98" using assms by (auto simp: C_def split: dice_mode.split)
  have "fl (100 - rat_of_int T) = of_int (100 - T)" using fl_of_int[of "100 - T"] assms by simp
  then have chance: "(if mode = Over then fl (100 - of_int T) else of_int T) = rat_of_int C"
    by (cases mode) (simp_all add: C_def)
  let ?k = "js_floor (fl (fl (of_int 99 / of_int C) * 100))"
  have "diceMultiplier (of_int T) mode DICE_HOUSE_EDGE = centi ?k"
    unfolding diceMultiplier_def Let_def chance dice_rtp_99 floor2_def by simp
  moreover have k: "?k \<le> 9900 div C" "9900 div C - 1 \<le> ?k" using floor2_quotient[of 99 C] C by simp_all
  moreover have "C * (9900 div C) \<le> 9900" "9900 < C * (9900 div C) + C"
    using C mult_div_mod_eq[of C 9900] pos_mod_bound[of C 9900] pos_mod_sign[of C 9900] by linarith+
  moreover have "101 \<le> ?k"
  proof (cases "C = 98")
    case True
    then show ?thesis by (simp only:) code_simp
  next
    case False
    then have "9900 div 97 \<le> 9900 div C" using C by (intro zdiv_mono2) auto
    then show ?thesis using k(2) by simp
  qed
  ultimately show ?thesis unfolding assms(3) C_def[symmetric]
  proof (intro exI[of _ ?k] conjI)
    have "C * ?k \<le> C * (9900 div C)" "C * (9900 div C - 1) \<le> C * ?k" using k C by (simp_all add: mult_left_mono)
    then have "C * ?k \<le> 9900" "9900 - 2 * C < C * ?k"
      using \<open>C * (9900 div C) \<le> 9900\<close> \<open>9900 < C * (9900 div C) + C\<close>
      by (blast intro: order_trans, unfold right_diff_distrib, linarith)
    then show "100 * C * ?k \<le> 990000" "990000 - 2 * (100 * C) < 100 * C * ?k"
      unfolding mult.assoc by linarith+
  qed
qed

theorem dice_house_edge_witness:
  "\<exists>k. diceMultiplier 50 Under DICE_HOUSE_EDGE = centi k \<and> 101 \<le> k \<and> 5000 * k \<le> 990000"
  using dice_house_edge[of 50 Under] by auto

end
