(* ===== verification/Shared_Money.thy ===== *)
theory Shared_Money
  imports Shared_Config
begin

text \<open>
  The bigint money helpers of \<open>packages/shared/src/constants.ts\<close>: emission and halving, the engine's
  play rate and dividend slices, the vault share price and strategy, the lottery pool, the drand
  beacon schedule and the daily race.
\<close>

subsection \<open>Emission (SCAD, MINING)\<close>

definition P2E_POOL_BASE :: int where "P2E_POOL_BASE = 500000000 * 1000000000"

record emission_phase =
  ratePerLamport :: int
  cumulativeCapBase :: int

definition EMISSION_PHASES :: "emission_phase list" where
  "EMISSION_PHASES =
     [\<lparr> ratePerLamport = 128, cumulativeCapBase = 75000000 * 1000000000 \<rparr>,
      \<lparr> ratePerLamport = 64, cumulativeCapBase = 150000000 * 1000000000 \<rparr>,
      \<lparr> ratePerLamport = 32, cumulativeCapBase = 225000000 * 1000000000 \<rparr>,
      \<lparr> ratePerLamport = 16, cumulativeCapBase = 300000000 * 1000000000 \<rparr>,
      \<lparr> ratePerLamport = 8, cumulativeCapBase = 375000000 * 1000000000 \<rparr>,
      \<lparr> ratePerLamport = 4, cumulativeCapBase = 450000000 * 1000000000 \<rparr>,
      \<lparr> ratePerLamport = 2, cumulativeCapBase = 500000000 * 1000000000 \<rparr>]"

text \<open>The loop returns the first phase whose cap exceeds the total: 1-based index, rate, distance.\<close>

fun phase_loop :: "int \<Rightarrow> nat \<Rightarrow> emission_phase list \<Rightarrow> (nat \<times> int \<times> int) option" where
  "phase_loop totalEmittedBase i [] = None"
| "phase_loop totalEmittedBase i (p # ps) =
     (if totalEmittedBase < cumulativeCapBase p
      then Some (i + 1, ratePerLamport p, cumulativeCapBase p - totalEmittedBase)
      else phase_loop totalEmittedBase (i + 1) ps)"

definition emissionPhaseFor :: "int \<Rightarrow> nat \<times> int \<times> int" where
  "emissionPhaseFor totalEmittedBase =
     (case phase_loop totalEmittedBase 0 EMISSION_PHASES of
        Some r \<Rightarrow> r
      | None \<Rightarrow> (length EMISSION_PHASES, ratePerLamport (last EMISSION_PHASES), 0))"

definition BLOCK_REWARD_PHASE1_BASE :: int where "BLOCK_REWARD_PHASE1_BASE = 10000 * 1000000000"

definition blockRewardFor :: "int \<Rightarrow> int" where
  "blockRewardFor totalEmittedBase =
     (let remaining = P2E_POOL_BASE - totalEmittedBase
      in if remaining \<le> 0 then 0
         else let phase = fst (emissionPhaseFor totalEmittedBase);
                  reward = bigint_shr BLOCK_REWARD_PHASE1_BASE (phase - 1)
              in if reward < remaining then reward else remaining)"

definition GENESIS_MS :: int where "GENESIS_MS = 1782864000000"
definition HOURS_PER_HALVING :: int where "HOURS_PER_HALVING = 4 * 365 * 24"
definition MS_PER_HALVING :: int where "MS_PER_HALVING = 4 * 365 * 24 * 60 * 60 * 1000"

definition GENESIS_BLOCK_REWARD_BASE :: int where
  "GENESIS_BLOCK_REWARD_BASE = bigint_div (bigint_div P2E_POOL_BASE 2) HOURS_PER_HALVING"

definition emissionEraAt :: "int \<Rightarrow> int" where
  "emissionEraAt nowMs =
     (let elapsed = nowMs - GENESIS_MS
      in if elapsed \<le> 0 then 0 else js_floor (fl (of_int elapsed / of_int MS_PER_HALVING)))"

definition blockRewardAt :: "int \<Rightarrow> int \<Rightarrow> int" where
  "blockRewardAt nowMs totalEmittedBase =
     (let remaining = P2E_POOL_BASE - totalEmittedBase
      in if remaining \<le> 0 then 0
         else let reward = bigint_shr GENESIS_BLOCK_REWARD_BASE (nat (emissionEraAt nowMs))
              in if reward < remaining then reward else remaining)"

definition msToNextHalving :: "int \<Rightarrow> int" where
  "msToNextHalving nowMs =
     (let era = emissionEraAt nowMs; nextAt = GENESIS_MS + (era + 1) * MS_PER_HALVING
      in max 0 (nextAt - nowMs))"

subsection \<open>Play rate, block shares and NGR slices (ENGINE)\<close>

definition STAKE_PLAYRATE_BPS :: int where "STAKE_PLAYRATE_BPS = 100"
definition BIG_REWARD_BPS :: int where "BIG_REWARD_BPS = 1000"
definition DIVIDEND_NGR_BPS :: int where "DIVIDEND_NGR_BPS = 1200"
definition BUYBACK_NGR_BPS :: int where "BUYBACK_NGR_BPS = 0"
definition YIELD_NGR_BPS :: int where "YIELD_NGR_BPS = 800"
definition LAMPORTS_PER_USD :: int where "LAMPORTS_PER_USD = 10000000"
definition USDS_BASE_PER_USD :: int where "USDS_BASE_PER_USD = 1000000"
definition USD_PER_SCAD :: rat where "USD_PER_SCAD = fl (1 / 10)"

definition activePlayRate :: "int \<Rightarrow> int \<Rightarrow> int" where
  "activePlayRate wageredLamports tierMultMilli =
     (if wageredLamports \<le> 0 then 0 else bigint_div (wageredLamports * tierMultMilli) 1000)"

definition stakePlayRate :: "int \<Rightarrow> int" where
  "stakePlayRate stakedScadBase =
     (if stakedScadBase \<le> 0 then 0 else bigint_div (stakedScadBase * STAKE_PLAYRATE_BPS) 10000)"

definition blockShare :: "int \<Rightarrow> int \<Rightarrow> int \<Rightarrow> int" where
  "blockShare playRate totalPlayRate reward =
     (if playRate \<le> 0 \<or> totalPlayRate \<le> 0 \<or> reward \<le> 0 then 0
      else bigint_div (reward * playRate) totalPlayRate)"

definition lamportsToUsdsBase :: "int \<Rightarrow> int" where
  "lamportsToUsdsBase lamports =
     (if lamports \<le> 0 then 0 else bigint_div (lamports * USDS_BASE_PER_USD) LAMPORTS_PER_USD)"

definition dividendPoolUsdsBase :: "int \<Rightarrow> int" where
  "dividendPoolUsdsBase ngrLamports =
     (if ngrLamports \<le> 0 then 0
      else let slice = bigint_div (ngrLamports * DIVIDEND_NGR_BPS) 10000 in lamportsToUsdsBase slice)"

definition buybackBudgetLamports :: "int \<Rightarrow> int" where
  "buybackBudgetLamports ngrLamports =
     (if ngrLamports \<le> 0 then 0 else bigint_div (ngrLamports * BUYBACK_NGR_BPS) 10000)"

definition ngrRedistributionBps :: int where
  "ngrRedistributionBps = DIVIDEND_NGR_BPS + BUYBACK_NGR_BPS + YIELD_NGR_BPS"

definition vaultYieldSliceLamports :: "int \<Rightarrow> int" where
  "vaultYieldSliceLamports ngrLamports =
     (if ngrLamports \<le> 0 then 0 else bigint_div (ngrLamports * YIELD_NGR_BPS) 10000)"

definition lamportsToScadBase :: "int \<Rightarrow> int" where
  "lamportsToScadBase lamports =
     (if lamports \<le> 0 then 0
      else let scadBasePerUsd = js_round (fl (10 ^ 9 / USD_PER_SCAD))
           in bigint_div (lamports * scadBasePerUsd) LAMPORTS_PER_USD)"

subsection \<open>Vault (VAULT)\<close>

definition RAY :: int where "RAY = 1000000000000000000"
definition INITIAL_INDEX_RAY :: int where "INITIAL_INDEX_RAY = 1000000000000000000"
definition EARLY_EXIT_PENALTY_BPS :: int where "EARLY_EXIT_PENALTY_BPS = 1000"
definition MIN_DEPOSIT_SCAD_BASE :: int where "MIN_DEPOSIT_SCAD_BASE = 1000000000"
definition MIN_ACCRUAL_SCAD_BASE :: int where "MIN_ACCRUAL_SCAD_BASE = 1000000"

record boost_tier =
  minScadBase :: int
  multiplierBps :: int
  label :: string

definition BOOST_TIERS :: "boost_tier list" where
  "BOOST_TIERS =
     [\<lparr> minScadBase = 0, multiplierBps = 10000, label = ''Base'' \<rparr>,
      \<lparr> minScadBase = 10000000000000, multiplierBps = 11000, label = ''Bronze'' \<rparr>,
      \<lparr> minScadBase = 50000000000000, multiplierBps = 12500, label = ''Silver'' \<rparr>,
      \<lparr> minScadBase = 250000000000000, multiplierBps = 15000, label = ''Gold'' \<rparr>,
      \<lparr> minScadBase = 1000000000000000, multiplierBps = 20000, label = ''Diamond'' \<rparr>]"

definition scadBoostTier :: "int \<Rightarrow> boost_tier" where
  "scadBoostTier holdingsBase =
     fold (\<lambda>t tier. if holdingsBase \<ge> minScadBase t then t else tier) BOOST_TIERS (hd BOOST_TIERS)"

definition nextScadBoostTier :: "int \<Rightarrow> boost_tier option" where
  "nextScadBoostTier holdingsBase = List.find (\<lambda>t. holdingsBase < minScadBase t) BOOST_TIERS"

definition boostedAprBps :: "rat \<Rightarrow> rat \<Rightarrow> int" where
  "boostedAprBps baseAprBps multBps = js_round (fl (fl (baseAprBps * multBps) / 10000))"

definition sharesForDeposit :: "int \<Rightarrow> int \<Rightarrow> int" where
  "sharesForDeposit assets indexRay =
     (if assets \<le> 0 \<or> indexRay \<le> 0 then 0 else bigint_div (assets * RAY) indexRay)"

definition assetsForShares :: "int \<Rightarrow> int \<Rightarrow> int" where
  "assetsForShares shares indexRay =
     (if shares \<le> 0 \<or> indexRay \<le> 0 then 0 else bigint_div (shares * indexRay) RAY)"

definition applyAccrual :: "int \<Rightarrow> int \<Rightarrow> int \<Rightarrow> int" where
  "applyAccrual indexRay totalShares yieldAssets =
     (if totalShares \<le> 0 \<or> yieldAssets \<le> 0 then indexRay
      else indexRay + bigint_div (yieldAssets * RAY) totalShares)"

definition earlyExitPenalty :: "int \<Rightarrow> int" where
  "earlyExitPenalty assets =
     (if assets \<le> 0 then 0 else bigint_div (assets * EARLY_EXIT_PENALTY_BPS) 10000)"

subsection \<open>Vault strategy\<close>

definition bufferTargetAssets :: "int \<Rightarrow> int \<Rightarrow> int" where
  "bufferTargetAssets totalAssets bufferBps =
     (if totalAssets \<le> 0 then 0 else bigint_div (totalAssets * bufferBps) 10000)"

definition investableExcess :: "int \<Rightarrow> int \<Rightarrow> int \<Rightarrow> int \<Rightarrow> int \<Rightarrow> int" where
  "investableExcess liquid invested totalAssets bufferBps maxInvestedBps =
     (if totalAssets \<le> 0 \<or> liquid \<le> 0 then 0
      else let target = bufferTargetAssets totalAssets bufferBps;
               aboveBuffer = (if liquid > target then liquid - target else 0);
               investCap = bigint_div (totalAssets * maxInvestedBps) 10000;
               capRoom = (if invested \<ge> investCap then 0 else investCap - invested)
           in if aboveBuffer < capRoom then aboveBuffer else capRoom)"

definition divestForBufferFloor :: "int \<Rightarrow> int \<Rightarrow> int \<Rightarrow> int \<Rightarrow> int \<Rightarrow> int" where
  "divestForBufferFloor liquid invested totalAssets bufferBps floorBps =
     (if totalAssets \<le> 0 \<or> invested \<le> 0 then 0
      else let floorAssets = bufferTargetAssets totalAssets floorBps
           in if liquid \<ge> floorAssets then 0
              else let target = bufferTargetAssets totalAssets bufferBps;
                       need = target - liquid
                   in if need < invested then need else invested)"

definition unwindForWithdrawal :: "int \<Rightarrow> int \<Rightarrow> int" where
  "unwindForWithdrawal net liquid = (if net > liquid then net - liquid else 0)"

definition minOutAfterSlippage :: "int \<Rightarrow> int \<Rightarrow> int" where
  "minOutAfterSlippage amount slippageBps =
     (if amount \<le> 0 then 0 else bigint_div (amount * (10000 - slippageBps)) 10000)"

definition harvestableYield :: "int \<Rightarrow> int \<Rightarrow> int" where
  "harvestableYield strategyValue invested =
     (if strategyValue > invested then strategyValue - invested else 0)"

definition vaultStrategyDrift :: "int \<Rightarrow> int \<Rightarrow> int \<Rightarrow> int \<Rightarrow> int \<times> bool" where
  "vaultStrategyDrift totalAssets liquid strategyValue toleranceBps =
     (let drift = liquid + strategyValue - totalAssets;
          absDrift = (if drift < 0 then - drift else drift);
          tol = bigint_div (totalAssets * toleranceBps) 10000
      in (drift, absDrift \<le> tol))"

subsection \<open>Lottery money (LOTTERY)\<close>

definition TREASURY_FEE_BPS :: int where "TREASURY_FEE_BPS = 2000"
definition REWARDS_BREAKDOWN_BPS :: "int list" where
  "REWARDS_BREAKDOWN_BPS = [125, 375, 750, 1250, 2500, 5000]"
definition DISCOUNT_DIVISOR :: int where "DISCOUNT_DIVISOR = 2000"
definition DRAW_HOURS_LOCAL :: "int list" where "DRAW_HOURS_LOCAL = [12]"
definition DRAW_TZ_OFFSET_MINUTES :: int where "DRAW_TZ_OFFSET_MINUTES = 180"

definition ticketPriceScadBase :: "rat \<Rightarrow> rat \<Rightarrow> int" where
  "ticketPriceScadBase usd usdPerScad = js_round (fl (fl (usd / usdPerScad) * 10 ^ 9))"

definition scadBaseToLamports :: "int \<Rightarrow> rat \<Rightarrow> rat \<Rightarrow> int" where
  "scadBaseToLamports scadBase usdPerScad usdPerSol =
     (let usd = fl (fl (fl (of_int scadBase) / 10 ^ 9) * usdPerScad)
      in js_round (fl (fl (usd / usdPerSol) * of_int LAMPORTS_PER_SOL)))"

definition bulkDiscountTotal :: "int \<Rightarrow> int \<Rightarrow> int" where
  "bulkDiscountTotal priceBase n =
     bigint_div (priceBase * n * (DISCOUNT_DIVISOR + 1 - n)) DISCOUNT_DIVISOR"

definition lotteryPoolSplit :: "int \<Rightarrow> int list \<times> int" where
  "lotteryPoolSplit totalPool =
     (let burn = bigint_div (totalPool * TREASURY_FEE_BPS) 10000;
          toWinners = totalPool - burn;
          brackets = map (\<lambda>bps. bigint_div (toWinners * bps) 10000) REWARDS_BREAKDOWN_BPS
      in (brackets, burn))"

text \<open>
  \<open>Date.UTC\<close> of the year, month and day of a timestamp is the start of its day. One of the candidates is
  always later than now (\<open>next_draw_spec\<close>), so the last case stands for no behaviour of the code.
\<close>

definition nextLotteryDrawAt :: "int \<Rightarrow> int" where
  "nextLotteryDrawAt nowMs =
     (let offsetMs = DRAW_TZ_OFFSET_MINUTES * 60 * 1000;
          local = nowMs + offsetMs;
          localDayStart = local div 86400000 * 86400000;
          hours = sort DRAW_HOURS_LOCAL;
          candidates = map (\<lambda>h. localDayStart + h * 3600000) hours
                     @ map (\<lambda>h. localDayStart + 24 * 3600000 + h * 3600000) hours
      in (case List.find (\<lambda>t. t > local) candidates of Some nextLocal \<Rightarrow> nextLocal - offsetMs | None \<Rightarrow> 0))"

subsection \<open>Beacon and race\<close>

definition BEACON_GENESIS_TIME_SEC :: int where "BEACON_GENESIS_TIME_SEC = 1692803367"
definition BEACON_PERIOD_SEC :: int where "BEACON_PERIOD_SEC = 3"

definition beaconRoundTimeMs :: "int \<Rightarrow> int" where
  "beaconRoundTimeMs round_no = (BEACON_GENESIS_TIME_SEC + (round_no - 1) * BEACON_PERIOD_SEC) * 1000"

definition beaconRoundAfter :: "int \<Rightarrow> int" where
  "beaconRoundAfter ms =
     (let elapsed = fl (of_int (ms - BEACON_GENESIS_TIME_SEC * 1000) / of_int (BEACON_PERIOD_SEC * 1000))
      in js_floor elapsed + 2)"

definition DAILY_POOL_LAMPORTS :: int where "DAILY_POOL_LAMPORTS = 50 * LAMPORTS_PER_SOL"

definition PAYOUT_BPS :: "int list" where
  "PAYOUT_BPS = [3000, 2000, 1400, 1000, 800, 600, 500, 300, 200, 200]"

definition racePrizeLamports :: "nat \<Rightarrow> int" where
  "racePrizeLamports rankIndex =
     (case get_at PAYOUT_BPS rankIndex of
        None \<Rightarrow> 0 | Some bps \<Rightarrow> bigint_div (DAILY_POOL_LAMPORTS * bps) 10000)"

subsection \<open>Emission never exceeds the pool\<close>

lemma emissionEraAt_exact:
  assumes "nowMs < 2 ^ 53"
  shows "emissionEraAt nowMs = max 0 ((nowMs - GENESIS_MS) div MS_PER_HALVING)"
proof (cases "nowMs \<le> GENESIS_MS")
  case True
  then have "(nowMs - GENESIS_MS) div MS_PER_HALVING \<le> 0 div MS_PER_HALVING"
    by (intro zdiv_mono1) (auto simp: MS_PER_HALVING_def)
  then show ?thesis using True by (simp add: emissionEraAt_def)
next
  case False
  then have "js_floor (fl (of_int (nowMs - GENESIS_MS) / of_int MS_PER_HALVING)) = (nowMs - GENESIS_MS) div MS_PER_HALVING"
    unfolding js_floor_def using assms by (intro fl_div_floor) (auto simp: GENESIS_MS_def MS_PER_HALVING_def)
  then show ?thesis using False
    by (simp add: emissionEraAt_def Let_def pos_imp_zdiv_nonneg_iff MS_PER_HALVING_def)
qed

lemma emissionEraAt_mono: "a \<le> b \<Longrightarrow> b < 2 ^ 53 \<Longrightarrow> emissionEraAt a \<le> emissionEraAt b"
proof -
  assume a: "a \<le> b" "b < 2 ^ 53"
  then have "(a - GENESIS_MS) div MS_PER_HALVING \<le> (b - GENESIS_MS) div MS_PER_HALVING"
    by (intro zdiv_mono1) (auto simp: MS_PER_HALVING_def)
  then show ?thesis using a by (simp only: emissionEraAt_exact[of a] emissionEraAt_exact[of b] max.mono)
qed

lemma bigint_shr_antimono: "0 \<le> x \<Longrightarrow> m \<le> n \<Longrightarrow> bigint_shr x n \<le> bigint_shr x m"
  by (simp add: bigint_shr_def) (intro zdiv_mono2, auto)

lemma bigint_shr_Suc: "bigint_shr x (Suc n) = bigint_shr x n div 2"
  by (simp add: bigint_shr_def zdiv_zmult2_eq[symmetric] mult.commute)

lemma GENESIS_BLOCK_REWARD_value: "GENESIS_BLOCK_REWARD_BASE = 7134703196347"
  by (simp add: GENESIS_BLOCK_REWARD_BASE_def bigint_div_nonneg P2E_POOL_BASE_def HOURS_PER_HALVING_def)

lemma blockRewardAt_bounds:
  "0 \<le> blockRewardAt nowMs E \<and> (E \<le> P2E_POOL_BASE \<longrightarrow> E + blockRewardAt nowMs E \<le> P2E_POOL_BASE)"
  by (auto simp: blockRewardAt_def Let_def GENESIS_BLOCK_REWARD_value bigint_shr_nonneg)

lemma blockRewardFor_bounds:
  "0 \<le> blockRewardFor E \<and> (E \<le> P2E_POOL_BASE \<longrightarrow> E + blockRewardFor E \<le> P2E_POOL_BASE)"
  by (auto simp: blockRewardFor_def Let_def BLOCK_REWARD_PHASE1_BASE_def bigint_shr_nonneg)

text \<open>Minting a run of blocks, each at its own time, from an already emitted total.\<close>

definition mint_blocks :: "int list \<Rightarrow> int \<Rightarrow> int" where
  "mint_blocks ts emitted = fold (\<lambda>t e. e + blockRewardAt t e) ts emitted"

lemma mint_blocks_bounds:
  "E \<le> P2E_POOL_BASE \<Longrightarrow> E \<le> mint_blocks ts E \<and> mint_blocks ts E \<le> P2E_POOL_BASE"
proof (induction ts arbitrary: E)
  case (Cons t ts)
  then have "E \<le> E + blockRewardAt t E" "E + blockRewardAt t E \<le> P2E_POOL_BASE"
    using blockRewardAt_bounds by auto
  then show ?case using Cons.IH[of "E + blockRewardAt t E"] by (auto simp: mint_blocks_def)
qed (simp add: mint_blocks_def)

text \<open>
  Mining emission is bounded and falls over time: whatever the times of the blocks, the total emitted
  never decreases and never passes the 500M pool; a later block never mints more from the same total;
  and one halving period later the uncapped subsidy is exactly halved (rounded down).
\<close>

theorem emission_bounded:
  assumes "0 \<le> E" and "E \<le> P2E_POOL_BASE" and "a \<le> b" and "GENESIS_MS \<le> a" and "b + MS_PER_HALVING < 2 ^ 53"
  shows "E \<le> mint_blocks ts E \<and> mint_blocks ts E \<le> P2E_POOL_BASE \<and>
    blockRewardAt b E \<le> blockRewardAt a E \<and>
    emissionEraAt (a + MS_PER_HALVING) = emissionEraAt a + 1 \<and>
    blockRewardAt (a + MS_PER_HALVING) 0 = blockRewardAt a 0 div 2"
proof (intro conjI)
  show "E \<le> mint_blocks ts E" "mint_blocks ts E \<le> P2E_POOL_BASE" using mint_blocks_bounds assms(2) by auto
  have b53: "b < 2 ^ 53" using assms by (simp add: MS_PER_HALVING_def)
  have "nat (emissionEraAt a) \<le> nat (emissionEraAt b)" using emissionEraAt_mono[OF assms(3) b53] by simp
  then have "bigint_shr GENESIS_BLOCK_REWARD_BASE (nat (emissionEraAt b)) \<le>
      bigint_shr GENESIS_BLOCK_REWARD_BASE (nat (emissionEraAt a))"
    by (intro bigint_shr_antimono) (simp_all add: GENESIS_BLOCK_REWARD_value)
  then show "blockRewardAt b E \<le> blockRewardAt a E" by (simp add: blockRewardAt_def Let_def)
  have "a < 2 ^ 53" "a + MS_PER_HALVING < 2 ^ 53" using assms b53 by auto
  then show era: "emissionEraAt (a + MS_PER_HALVING) = emissionEraAt a + 1"
  proof -
    have "(a + MS_PER_HALVING - GENESIS_MS) div MS_PER_HALVING = (a - GENESIS_MS) div MS_PER_HALVING + 1"
      using div_add_self2[of MS_PER_HALVING "a - GENESIS_MS"] by (simp add: MS_PER_HALVING_def algebra_simps)
    moreover have "0 \<le> (a - GENESIS_MS) div MS_PER_HALVING"
      using assms(4) by (simp add: pos_imp_zdiv_nonneg_iff MS_PER_HALVING_def)
    ultimately show ?thesis using \<open>a < 2 ^ 53\<close> \<open>a + MS_PER_HALVING < 2 ^ 53\<close> by (simp add: emissionEraAt_exact)
  qed
  have "0 \<le> emissionEraAt a" using \<open>a < 2 ^ 53\<close> by (simp add: emissionEraAt_exact)
  then have n: "nat (emissionEraAt a + 1) = Suc (nat (emissionEraAt a))" by simp
  have le: "bigint_shr GENESIS_BLOCK_REWARD_BASE k \<le> 7134703196347" for k
    using bigint_shr_le[of GENESIS_BLOCK_REWARD_BASE k] by (simp add: GENESIS_BLOCK_REWARD_value)
  have "bigint_shr GENESIS_BLOCK_REWARD_BASE k < P2E_POOL_BASE" for k
    using le[of k] by (simp add: P2E_POOL_BASE_def)
  then show "blockRewardAt (a + MS_PER_HALVING) 0 = blockRewardAt a 0 div 2"
    unfolding blockRewardAt_def Let_def era n bigint_shr_Suc
    by (simp add: bigint_shr_Suc[symmetric])
qed

theorem emission_bounded_witness:
  "mint_blocks [GENESIS_MS, GENESIS_MS + 3600000] 0 \<le> P2E_POOL_BASE \<and>
   blockRewardAt (GENESIS_MS + MS_PER_HALVING) 0 = blockRewardAt GENESIS_MS 0 div 2"
  using emission_bounded[of 0 GENESIS_MS GENESIS_MS "[GENESIS_MS, GENESIS_MS + 3600000]"]
  by (simp add: GENESIS_MS_def MS_PER_HALVING_def P2E_POOL_BASE_def)

subsection \<open>Beacon, lottery pool and draw time\<close>

lemma beaconRoundAfter_exact:
  assumes "BEACON_GENESIS_TIME_SEC * 1000 \<le> ms" and "ms < 2 ^ 53"
  shows "beaconRoundAfter ms = (ms - BEACON_GENESIS_TIME_SEC * 1000) div 3000 + 2"
proof -
  have "js_floor (fl (of_int (ms - BEACON_GENESIS_TIME_SEC * 1000) / of_int 3000)) =
      (ms - BEACON_GENESIS_TIME_SEC * 1000) div 3000"
    unfolding js_floor_def using assms by (intro fl_div_floor) (auto simp: BEACON_GENESIS_TIME_SEC_def)
  then show ?thesis by (simp add: beaconRoundAfter_def BEACON_PERIOD_SEC_def)
qed

text \<open>
  The beacon round folded into a result is the first one published strictly after betting closed:
  its publication time is after the close, and every earlier round was already published at the close,
  so the round is a function of the close time and nobody can choose another.
\<close>

theorem beacon_round_first_after:
  assumes "BEACON_GENESIS_TIME_SEC * 1000 \<le> ms" and "ms < 2 ^ 53"
  shows "ms < beaconRoundTimeMs (beaconRoundAfter ms) \<and>
    (\<forall>r. ms < beaconRoundTimeMs r \<longleftrightarrow> beaconRoundAfter ms \<le> r) \<and>
    beaconRoundTimeMs (beaconRoundAfter ms) \<le> ms + 3000"
proof -
  let ?d = "ms - BEACON_GENESIS_TIME_SEC * 1000"
  have q: "?d div 3000 * 3000 \<le> ?d" "?d < ?d div 3000 * 3000 + 3000"
    by (rule div_mult_le less_div_mult, simp)+
  have "ms < beaconRoundTimeMs r \<longleftrightarrow> ?d div 3000 + 2 \<le> r" for r
    using q by (simp add: beaconRoundTimeMs_def BEACON_PERIOD_SEC_def algebra_simps) linarith
  moreover have "beaconRoundTimeMs (?d div 3000 + 2) \<le> ms + 3000"
    using q by (simp add: beaconRoundTimeMs_def BEACON_PERIOD_SEC_def algebra_simps)
  ultimately show ?thesis by (simp add: beaconRoundAfter_exact[OF assms])
qed

theorem beacon_round_first_after_witness:
  "1700000000000 < beaconRoundTimeMs (beaconRoundAfter 1700000000000)"
  using beacon_round_first_after[of 1700000000000] by (simp add: BEACON_GENESIS_TIME_SEC_def)

lemma lottery_split_spec:
  assumes "0 \<le> pool"
  shows "snd (lotteryPoolSplit pool) = pool div 5 \<and> length (fst (lotteryPoolSplit pool)) = 6 \<and>
    list_all (\<lambda>b. 0 \<le> b) (fst (lotteryPoolSplit pool)) \<and>
    snd (lotteryPoolSplit pool) + sum_list (fst (lotteryPoolSplit pool)) \<le> pool \<and>
    pool \<le> snd (lotteryPoolSplit pool) + sum_list (fst (lotteryPoolSplit pool)) + 5"
proof -
  define w where "w = pool - pool div 5"
  have burn: "bigint_div (pool * TREASURY_FEE_BPS) 10000 = pool div 5"
    using assms zdiv_zmult2_eq[of 2000 "pool * 2000" 5]
    by (simp add: bigint_div_nonneg TREASURY_FEE_BPS_def)
  have w0: "0 \<le> w" using zdiv_mono2[of pool 1 5] assms by (simp add: w_def)
  have split: "lotteryPoolSplit pool = (map (\<lambda>bps. w * bps div 10000) REWARDS_BREAKDOWN_BPS, pool div 5)"
    unfolding lotteryPoolSplit_def Let_def burn w_def[symmetric]
    using w0 by (simp add: bigint_div_nonneg REWARDS_BREAKDOWN_BPS_def)
  have "list_all (\<lambda>b. 0 \<le> b) (fst (lotteryPoolSplit pool))"
    using w0 by (simp add: split REWARDS_BREAKDOWN_BPS_def pos_imp_zdiv_nonneg_iff)
  moreover have "sum_list (fst (lotteryPoolSplit pool)) \<le> w" "w \<le> sum_list (fst (lotteryPoolSplit pool)) + 5"
  proof -
    have r: "sum_list REWARDS_BREAKDOWN_BPS = 10000" "length REWARDS_BREAKDOWN_BPS = 6"
      by (simp_all add: REWARDS_BREAKDOWN_BPS_def)
    show "sum_list (fst (lotteryPoolSplit pool)) \<le> w" "w \<le> sum_list (fst (lotteryPoolSplit pool)) + 5"
      using weighted_split_bounds[of 10000 w REWARDS_BREAKDOWN_BPS] unfolding r split fst_conv by simp_all
  qed
  moreover have "length (fst (lotteryPoolSplit pool)) = 6" by (simp add: split REWARDS_BREAKDOWN_BPS_def)
  moreover have "snd (lotteryPoolSplit pool) = pool div 5" by (simp add: split)
  ultimately show ?thesis unfolding w_def by linarith
qed

text \<open>
  The lottery pool is split without creating money: the burn is a fifth of the pool rounded down, no
  slice is negative, burn and brackets together never exceed the pool, and at most five base units of
  it are left over as dust.
\<close>

theorem lottery_pool_conserved:
  assumes "0 \<le> pool"
  shows "snd (lotteryPoolSplit pool) = pool div 5 \<and> length (fst (lotteryPoolSplit pool)) = 6 \<and>
    list_all (\<lambda>b. 0 \<le> b) (fst (lotteryPoolSplit pool)) \<and>
    snd (lotteryPoolSplit pool) + sum_list (fst (lotteryPoolSplit pool)) \<le> pool \<and>
    pool \<le> snd (lotteryPoolSplit pool) + sum_list (fst (lotteryPoolSplit pool)) + 5"
  using lottery_split_spec[OF assms] .

theorem lottery_pool_conserved_witness:
  "snd (lotteryPoolSplit 1003) = 200 \<and> 200 + sum_list (fst (lotteryPoolSplit 1003)) \<le> 1003"
  using lottery_pool_conserved[of 1003] by simp

lemma next_draw_spec:
  "nowMs < nextLotteryDrawAt nowMs \<and> nextLotteryDrawAt nowMs \<le> nowMs + 86400000 \<and>
   (nextLotteryDrawAt nowMs + 3 * 3600000) mod 86400000 = 12 * 3600000"
proof -
  let ?l = "nowMs + 10800000"
  let ?s = "?l div 86400000 * 86400000"
  have s: "?s \<le> ?l" "?l < ?s + 86400000"
    by (rule div_mult_le less_div_mult, simp)+
  have m: "(?l div 86400000 * 86400000 + 43200000) mod 86400000 = 43200000"
    "(?l div 86400000 * 86400000 + 129600000) mod 86400000 = 43200000"
    by simp_all
  show ?thesis using s m
    by (simp add: nextLotteryDrawAt_def DRAW_TZ_OFFSET_MINUTES_def DRAW_HOURS_LOCAL_def Let_def algebra_simps)
qed

subsection \<open>NGR slices, block shares and the race\<close>

lemma ngr_redistribution_cap: "ngrRedistributionBps = 2000"
  by (simp add: ngrRedistributionBps_def DIVIDEND_NGR_BPS_def BUYBACK_NGR_BPS_def YIELD_NGR_BPS_def)

text \<open>
  At most a fifth of the net revenue is given away: for every NGR the dividend in lamport value, the
  buyback and the vault yield together are at most 20% of it, and all of them are zero on a loss.
\<close>

theorem ngr_slices_capped:
  assumes "0 \<le> ngr"
  shows "dividendPoolUsdsBase ngr * 10 + buybackBudgetLamports ngr + vaultYieldSliceLamports ngr \<le> ngr div 5 \<and>
    0 \<le> dividendPoolUsdsBase ngr \<and> 0 \<le> vaultYieldSliceLamports ngr \<and>
    dividendPoolUsdsBase (- ngr) = 0 \<and> buybackBudgetLamports (- ngr) = 0 \<and> vaultYieldSliceLamports (- ngr) = 0"
proof -
  have d: "dividendPoolUsdsBase ngr = ngr * 1200 div 10000 * 1000000 div 10000000"
    and v: "vaultYieldSliceLamports ngr = ngr * 800 div 10000"
    and b: "buybackBudgetLamports ngr = 0"
    using assms by (auto simp: dividendPoolUsdsBase_def vaultYieldSliceLamports_def buybackBudgetLamports_def
        lamportsToUsdsBase_def bigint_div_nonneg DIVIDEND_NGR_BPS_def YIELD_NGR_BPS_def BUYBACK_NGR_BPS_def
        Let_def USDS_BASE_PER_USD_def LAMPORTS_PER_USD_def pos_imp_zdiv_nonneg_iff)
  have aux: "X * 10 + B \<le> ngr div 5"
    if "A * 10000 \<le> ngr * 1200" "B * 10000 \<le> ngr * 800" "X * 10000000 \<le> A * 1000000" for A B X :: int
    using that by (intro le_div_of_mult_le) (simp, unfold distrib_right, linarith)
  have "ngr * 1200 div 10000 * 1000000 div 10000000 * 10 + ngr * 800 div 10000 \<le> ngr div 5"
    by (rule aux[of "ngr * 1200 div 10000"]) (rule div_mult_le, simp)+
  moreover have "dividendPoolUsdsBase (- ngr) = 0" "buybackBudgetLamports (- ngr) = 0" "vaultYieldSliceLamports (- ngr) = 0"
    using assms by (simp_all add: dividendPoolUsdsBase_def buybackBudgetLamports_def vaultYieldSliceLamports_def)
  ultimately show ?thesis using assms by (simp add: d v b pos_imp_zdiv_nonneg_iff)
qed

theorem ngr_slices_capped_witness:
  "dividendPoolUsdsBase 1000000 * 10 + buybackBudgetLamports 1000000 + vaultYieldSliceLamports 1000000 \<le> 200000"
  using ngr_slices_capped[of 1000000] by simp

lemma blockShare_nonneg: "0 \<le> blockShare p t r"
  by (auto simp: blockShare_def bigint_div_ge0)

lemma blockShare_mult_le: "0 \<le> p \<Longrightarrow> 0 \<le> r \<Longrightarrow> blockShare p t r * t \<le> r * p \<or> t \<le> 0"
  by (auto simp: blockShare_def bigint_div_mult_le)

lemma blockShare_sum:
  fixes ps :: "int list"
  assumes "\<forall>p \<in> set ps. 0 \<le> p" and "sum_list ps \<le> t" and "0 \<le> r"
  shows "sum_list (map (\<lambda>p. blockShare p t r) ps) \<le> r"
proof (cases "0 < t")
  case True
  have "sum_list (map (\<lambda>p. blockShare p t r) ps) * t \<le> r * sum_list ps"
    using assms(1) 
  proof (induction ps)
    case (Cons p ps)
    then show ?case using blockShare_mult_le[of p r t] assms(3) True by (simp add: algebra_simps)
  qed simp
  also have "\<dots> \<le> r * t" using assms by (intro mult_left_mono) auto
  finally show ?thesis using True by simp
qed (use assms in \<open>simp add: blockShare_def\<close>)

lemma race_prize_total: "sum_list (map racePrizeLamports [0..<10]) = DAILY_POOL_LAMPORTS"
  by (simp add: racePrizeLamports_def PAYOUT_BPS_def DAILY_POOL_LAMPORTS_def LAMPORTS_PER_SOL_def
      get_at_def upt_conv_Cons bigint_div_nonneg)

lemma race_prize_beyond: "10 \<le> i \<Longrightarrow> racePrizeLamports i = 0"
  by (simp add: racePrizeLamports_def PAYOUT_BPS_def)

subsection \<open>Vault share price\<close>

lemma RAY_pos [simp]: "0 < RAY"
  by (simp add: RAY_def)

lemma RAY_mult_nonneg [simp, intro]: "0 \<le> a \<Longrightarrow> 0 \<le> a * RAY" "0 \<le> a \<Longrightarrow> 0 \<le> RAY * a"
  by (simp_all add: RAY_def)

lemma shares_mult_le: "0 \<le> a \<Longrightarrow> 0 \<le> i \<Longrightarrow> sharesForDeposit a i * i \<le> a * RAY"
  by (cases "i = 0") (auto simp: sharesForDeposit_def intro!: bigint_div_mult_le)

lemma sharesForDeposit_nonneg: "0 \<le> sharesForDeposit a i"
  by (auto simp: sharesForDeposit_def not_le intro!: bigint_div_ge0)

lemma assetsForShares_nonneg: "0 \<le> assetsForShares s i"
  by (auto simp: assetsForShares_def bigint_div_ge0)

lemma assets_mult_le: "0 \<le> s \<Longrightarrow> 0 \<le> i \<Longrightarrow> assetsForShares s i * RAY \<le> s * i"
  by (auto simp: assetsForShares_def intro: bigint_div_mult_le)

lemma vault_round_trip: "0 \<le> a \<Longrightarrow> 0 < i \<Longrightarrow> assetsForShares (sharesForDeposit a i) i \<le> a"
proof -
  assume a: "0 \<le> a" "0 < i"
  have "assetsForShares (sharesForDeposit a i) i * RAY \<le> sharesForDeposit a i * i"
    using a sharesForDeposit_nonneg by (intro assets_mult_le) auto
  also have "\<dots> \<le> a * RAY" using a by (intro shares_mult_le) auto
  finally show ?thesis by simp
qed

lemma applyAccrual_mono: "i \<le> applyAccrual i s y"
  by (auto simp: applyAccrual_def not_le intro!: bigint_div_ge0)

lemma applyAccrual_backed: "0 \<le> s \<Longrightarrow> 0 \<le> y \<Longrightarrow> s * applyAccrual i s y \<le> s * i + y * RAY"
proof (cases "s \<le> 0 \<or> y \<le> 0")
  case False
  then have "bigint_div (y * RAY) s * s \<le> y * RAY" by (intro bigint_div_mult_le) auto
  then show ?thesis using False by (simp add: applyAccrual_def algebra_simps)
qed (auto simp: applyAccrual_def)

lemma earlyExitPenalty_bounds: "0 \<le> a \<Longrightarrow> 0 \<le> earlyExitPenalty a \<and> earlyExitPenalty a \<le> a"
  by (auto simp: earlyExitPenalty_def EARLY_EXIT_PENALTY_BPS_def bigint_div_nonneg)

end
