(* ===== verification/Store.thy ===== *)
theory Store
  imports Prelude Fair_Games
begin

text \<open>
  The database of \<open>apps/api\<close> as far as the modelled services read and write it
  (\<open>prisma/schema.prisma\<close>), and the helpers of \<open>apps/api/src/prisma\<close> that every money movement goes
  through. Ids are opaque naturals and times are milliseconds. A table is an association list; a new
  row takes the key \<open>fresh_key\<close>, which no row has, where the database would draw a random UUID.
\<close>

subsection \<open>Rows\<close>

datatype currency = Jeton | Scad | Scad_staked | Usds | Scad_vault

record user =
  banned :: bool
  playBalanceLamports :: int
  scadiumBalance :: int
  scadiumStaked :: int
  usdsBalance :: int
  scadiumVault :: int
  totalWagered :: int
  totalWon :: int
  totalLost :: int
  biggestWin :: int
  gamesPlayed :: int
  referredById :: "nat option"
  signupIpHash :: "string option"
  fundedAt :: "int option"
  ageConfirmedAt :: "int option"
  selfExcludedUntil :: "int option"
  coolOffUntil :: "int option"
  dailyDepositLimitLamports :: "int option"
  dailyLossLimitLamports :: "int option"
  dailyWagerLimitLamports :: "int option"
  autoStakeEnabled :: bool
  stakeLockedUntil :: "int option"
  walletAddress :: string
  scadiumReserved :: int
  usdsReserved :: int
  cashbackBaselineLost :: int
  lastDailyCaseAt :: "int option"
  freeTicketBaselineWagered :: int

record ledger_row =
  l_userId :: nat
  l_currency :: currency
  l_delta :: int
  l_reason :: string
  l_refType :: string
  l_refId :: "nat option"
  l_balanceAfter :: int

datatype bet_status = BetPending | BetWon | BetLost | BetRefunded

record bet =
  b_userId :: nat
  b_gameType :: game
  b_amountLamports :: int
  b_payoutLamports :: int
  b_multiplier :: "rat option"
  b_status :: bet_status
  b_nonce :: "nat option"
  b_seedId :: "nat option"
  b_createdAt :: int

record client_seed =
  cs_clientSeed :: string
  cs_nonce :: nat
  cs_serverSeed :: string
  cs_serverSeedHash :: string
  cs_nextServerSeed :: string
  cs_nextServerSeedHash :: string
  cs_rotatedAt :: "int option"

record referral =
  rf_referrerId :: nat
  rf_volumeLamports :: int
  rf_commissionLamports :: int
  rf_commissionClaimedLamports :: int
  rf_flagged :: bool
  rf_createdAt :: int

text \<open>
  A round of mines, tower or hi-lo: \<open>stateJson.secret\<close>, \<open>stateJson.public\<close> and, once settled, the game
  detail that is published with it.
\<close>

datatype round_status = RoundActive | RoundWon | RoundLost

datatype round_secret =
    Mines_secret "nat list" nat
  | Tower_secret "nat list list"
  | Hilo_secret "int list"

datatype round_public =
    Mines_public nat "nat list"
  | Tower_public nat "nat list"
  | Hilo_public nat int int nat rat

datatype round_result =
    Mines_hit "nat list" nat "nat list" nat
  | Mines_cashed "nat list" nat "nat list"
  | Tower_hit "nat list list" "nat list" nat nat
  | Tower_cashed "nat list list" "nat list" nat
  | Hilo_bust "int list" nat "int option"
  | Hilo_cashed "int list" nat nat

record instant_round =
  ir_userId :: nat
  ir_gameType :: game
  ir_stakeLamports :: int
  ir_status :: round_status
  ir_serverSeedHash :: string
  ir_clientSeed :: string
  ir_nonce :: nat
  ir_multiplier :: rat
  ir_secret :: round_secret
  ir_public :: round_public
  ir_result :: "round_result option"
  ir_betId :: "nat option"
  ir_endedAt :: "int option"

datatype flip_status = FlipOpen | FlipMatched | FlipResolving | FlipCompleted | FlipCancelled

record coinflip_game =
  cf_creatorId :: nat
  cf_creatorSide :: side
  cf_joinerId :: "nat option"
  cf_amountLamports :: int
  cf_result :: "side option"
  cf_winnerId :: "nat option"
  cf_status :: flip_status
  cf_seedId :: nat
  cf_nonce :: nat
  cf_vsHouse :: bool
  cf_expiresAt :: "int option"
  cf_resolvedAt :: "int option"

record seed_row =
  sd_serverSeed :: string
  sd_serverSeedHash :: string
  sd_clientSeed :: string
  sd_nonce :: nat
  sd_revealedAt :: "int option"

record vault_pool =
  vp_termDays :: int
  vp_totalAssets :: int
  vp_totalShares :: int
  vp_indexRay :: int
  vp_weightBps :: int
  vp_aprBps :: int
  vp_active :: bool
  vp_lastAccrualAt :: int

record vault_position =
  vo_userId :: nat
  vo_poolId :: nat
  vo_shares :: int
  vo_principal :: int
  vo_maturesAt :: int

datatype vault_event_kind = VaultDeposit | VaultWithdraw | VaultEarlyExit | VaultAccrue

record vault_event =
  ve_userId :: "nat option"
  ve_poolId :: nat
  ve_kind :: vault_event_kind
  ve_assetsDelta :: int
  ve_sharesDelta :: int
  ve_penaltyAssets :: int
  ve_indexRayAfter :: int
  ve_txSignature :: "string option"

record accrual_round =
  ar_distributed :: bool
  ar_ngrLamports :: int
  ar_yieldScad :: int
  ar_poolCount :: int
  ar_distributedAt :: "int option"

datatype stake_kind = Stake | AutoStake | Unstake

record stake_event =
  se_userId :: nat
  se_kind :: stake_kind
  se_amountScad :: int
  se_stakedAfter :: int

record distribution_round =
  dr_ngrLamports :: int
  dr_poolUsds :: int
  dr_totalStakedSnapshot :: int
  dr_participantCount :: int
  dr_distributed :: bool
  dr_distributedAt :: "int option"

record distribution_claim =
  dc_period :: int
  dc_userId :: nat
  dc_stakedAmount :: int
  dc_shareUsds :: int

record engine_block =
  eb_rewardScad :: int
  eb_totalPlayRate :: int
  eb_participantCount :: int
  eb_winnerId :: "nat option"
  eb_bigRewardScad :: int
  eb_drawSeed :: "string option"
  eb_drawSeedHash :: "string option"
  eb_distributed :: bool
  eb_distributedAt :: "int option"

record engine_share =
  es_period :: int
  es_userId :: nat
  es_playRate :: int
  es_shareScad :: int

datatype draw_status = DrawOpen | DrawDrawn

record lottery_draw =
  ld_drawIndex :: int
  ld_seedId :: nat
  ld_nonce :: nat
  ld_status :: draw_status
  ld_winningDigits :: "nat list"
  ld_slotHash :: "string option"
  ld_targetSlot :: "int option"
  ld_beaconRound :: "int option"
  ld_fairness :: "string option"
  ld_commitTxSignature :: "string option"
  ld_revealTxSignature :: "string option"
  ld_ticketPriceScadBase :: int
  ld_injectionScadBase :: int
  ld_rolloverScadBase :: int
  ld_totalPoolScadBase :: int
  ld_burnScadBase :: int
  ld_bracketWinnerCounts :: "nat list"
  ld_bracketAmountsScadBase :: "int list"
  ld_bracketRolloverScadBase :: "int list"
  ld_potLamports :: int
  ld_ticketCount :: nat
  ld_drawAt :: int
  ld_drawnAt :: "int option"

record lottery_ticket =
  lt_drawId :: nat
  lt_userId :: nat
  lt_digits :: "nat list"
  lt_costLamports :: int
  lt_payoutLamports :: int
  lt_costScadBase :: int
  lt_payoutScadBase :: int
  lt_matchLen :: nat
  lt_bracket :: "nat option"
  lt_won :: bool
  lt_txSignature :: "string option"
  lt_txIndex :: nat
  lt_prizeTxSignature :: "string option"
  lt_free :: bool
  lt_createdAt :: int

datatype custody_kind = Deposit | Withdraw

datatype custody_status = Held | Credited | Pending | Sent | Confirmed | Failed

datatype held_reason =
    Unattributed | Ambiguous_sender | Below_minimum | Held_paused | Held_deposit_limit | Held_age_unverified
  | Held_open_play_positions

record custody_transfer =
  ct_kind :: custody_kind
  ct_status :: custody_status
  ct_userId :: "nat option"
  ct_wallet :: string
  ct_amountLamports :: int
  ct_txSignature :: "string option"
  ct_slot :: "int option"
  ct_lastValidBlockHeight :: "int option"
  ct_attempts :: nat
  ct_heldReason :: "held_reason option"
  ct_error :: "string option"
  ct_settledAt :: "int option"
  ct_createdAt :: int

datatype reward_kind = Wager_reward | Cashback | Daily_case | Airdrop_reward | Dividend

datatype claim_status = Claim_pending | Claim_confirmed | Claim_failed | Claim_offchain

record case_trail =
  tr_tier :: string
  tr_roll :: rat
  tr_serverSeedHash :: string
  tr_clientSeed :: string
  tr_nonce :: nat

record reward_claim =
  rc_userId :: nat
  rc_kind :: reward_kind
  rc_period :: int
  rc_amountScad :: int
  rc_status :: claim_status
  rc_attempts :: nat
  rc_txSignature :: "string option"
  rc_result :: "case_trail option"

datatype jackpot_status = JackpotOpen | JackpotDrawn | JackpotRefunded

text \<open>A row of \<open>jr_ranges\<close> is the owner of an entry, its amount and its ticket range.\<close>

record jackpot_round =
  jr_seedId :: nat
  jr_nonce :: nat
  jr_status :: jackpot_status
  jr_totalLamports :: int
  jr_winnerId :: "nat option"
  jr_winningTicket :: "int option"
  jr_payoutLamports :: int
  jr_closeAt :: "int option"
  jr_drawnAt :: "int option"
  jr_ranges :: "(nat \<times> int \<times> int \<times> int) list option"
  jr_beaconRound :: "int option"
  jr_slotHash :: "string option"

record jackpot_entry =
  je_roundId :: nat
  je_userId :: nat
  je_amountLamports :: int

datatype crash_status = CrashWaiting | CrashRunning | CrashBusted

record crash_round =
  xr_seedId :: nat
  xr_nonce :: nat
  xr_status :: crash_status
  xr_bustMultiplier :: "rat option"
  xr_startedAt :: "int option"
  xr_endedAt :: "int option"
  xr_entropyStatus :: "string option"
  xr_targetSlot :: "int option"
  xr_slotHash :: "string option"
  xr_beaconRound :: "int option"

text \<open>A user has one bet in a round and one scheduled bet, so these tables are keyed by them.\<close>

record crash_bet =
  xb_amountLamports :: int
  xb_remainingLamports :: int
  xb_autoCashoutMultiplier :: "rat option"
  xb_cashoutMultiplier :: "rat option"
  xb_payoutLamports :: int
  xb_won :: bool

record scheduled_bet =
  xs_amountLamports :: int
  xs_autoCashoutMultiplier :: "rat option"

text \<open>Of the JSON state of a blackjack round its seats: who sits there and what they bet.\<close>

record seat_bet =
  mainLamports :: int
  side21p3Lamports :: int
  sidePerfectPairsLamports :: int

record blackjack_round =
  br_tableId :: nat
  br_seedId :: nat
  br_nonce :: nat
  br_seats :: "(nat \<times> seat_bet option) list"
  br_endedAt :: "int option"

datatype table_status = Table_waiting | Table_betting | Table_dealing | Table_player_turns | Table_dealer_turn | Table_settling

record blackjack_table =
  bt_name :: string
  bt_status :: table_status
  bt_maxSeats :: nat

text \<open>
  The database. An hour period \<open>YYYYMMDDHH\<close> is the number of its hour since 1970, which the key
  spells out. Of the rows of rounds that are not modelled the tables keep the columns that the modelled
  queries filter on.
\<close>

record db =
  users :: "(nat, user) table"
  ledger :: "ledger_row list"
  bets :: "bet list"
  clientSeeds :: "(nat, client_seed) table"
  referrals :: "(nat, referral) table"
  wagerLeaderboard :: "(string \<times> nat, int) table"
  idempotencyKeys :: "(nat \<times> string \<times> string, string option) table"
  sessions :: "nat list"
  instantRounds :: "(nat, instant_round) table"
  coinflipGames :: "(nat, coinflip_game) table"
  seeds :: "(nat, seed_row) table"
  lotteryDraws :: "(nat, lottery_draw) table"
  lotteryTickets :: "(nat, lottery_ticket) table"
  jackpotRounds :: "(nat, jackpot_round) table"
  jackpotEntries :: "jackpot_entry list"
  settlementFailures :: "(string \<times> nat option) list"
  crashRounds :: "(nat, crash_round) table"
  crashBets :: "(nat \<times> nat, crash_bet) table"
  scheduledCrashBets :: "(nat, scheduled_bet) table"
  blackjackTables :: "(nat, blackjack_table) table"
  blackjackRounds :: "(nat, blackjack_round) table"
  custodyTransfers :: "(nat, custody_transfer) table"
  linkedWallets :: "(nat \<times> string) list"
  scanCursor :: "string option"
  rewardClaims :: "(nat, reward_claim) table"
  vaultPools :: "(nat, vault_pool) table"
  vaultPositions :: "(nat, vault_position) table"
  vaultEvents :: "vault_event list"
  vaultAccrualRounds :: "(int, accrual_round) table"
  stakeEvents :: "stake_event list"
  distributionRounds :: "(int, distribution_round) table"
  distributionClaims :: "distribution_claim list"
  engineBlocks :: "(int, engine_block) table"
  engineShares :: "engine_share list"
  totalEmittedScad :: "int option"

definition empty_db :: db where
  "empty_db = \<lparr>users = [], ledger = [], bets = [], clientSeeds = [], referrals = [], wagerLeaderboard = [],
     idempotencyKeys = [], sessions = [], instantRounds = [], coinflipGames = [], seeds = [],
     lotteryDraws = [], lotteryTickets = [], jackpotRounds = [], jackpotEntries = [], settlementFailures = [], crashRounds = [],
     crashBets = [], scheduledCrashBets = [], blackjackTables = [], blackjackRounds = [], custodyTransfers = [],
     linkedWallets = [], scanCursor = None, rewardClaims = [],
     vaultPools = [], vaultPositions = [], vaultEvents = [], vaultAccrualRounds = [], stakeEvents = [],
     distributionRounds = [], distributionClaims = [], engineBlocks = [], engineShares = [],
     totalEmittedScad = None\<rparr>"

lemma empty_db_sel [simp]:
  "users empty_db = []"
  "ledger empty_db = []"
  "bets empty_db = []"
  "clientSeeds empty_db = []"
  "referrals empty_db = []"
  "wagerLeaderboard empty_db = []"
  "idempotencyKeys empty_db = []"
  "sessions empty_db = []"
  "instantRounds empty_db = []"
  "coinflipGames empty_db = []"
  "seeds empty_db = []"
  "lotteryDraws empty_db = []"
  "lotteryTickets empty_db = []"
  "jackpotRounds empty_db = []"
  "jackpotEntries empty_db = []"
  "settlementFailures empty_db = []"
  "crashRounds empty_db = []"
  "crashBets empty_db = []"
  "scheduledCrashBets empty_db = []"
  "blackjackTables empty_db = []"
  "blackjackRounds empty_db = []"
  "custodyTransfers empty_db = []"
  "linkedWallets empty_db = []"
  "scanCursor empty_db = None"
  "rewardClaims empty_db = []"
  "vaultPools empty_db = []"
  "vaultPositions empty_db = []"
  "vaultEvents empty_db = []"
  "vaultAccrualRounds empty_db = []"
  "stakeEvents empty_db = []"
  "distributionRounds empty_db = []"
  "distributionClaims empty_db = []"
  "engineBlocks empty_db = []"
  "engineShares empty_db = []"
  "totalEmittedScad empty_db = None"
  by (simp_all add: empty_db_def)

definition new_user :: user where
  "new_user = \<lparr>banned = False, playBalanceLamports = 10000000000, scadiumBalance = 0, scadiumStaked = 0,
     usdsBalance = 0, scadiumVault = 0, totalWagered = 0, totalWon = 0, totalLost = 0, biggestWin = 0,
     gamesPlayed = 0, referredById = None, signupIpHash = None, fundedAt = None, ageConfirmedAt = None,
     selfExcludedUntil = None, coolOffUntil = None, dailyDepositLimitLamports = None,
     dailyLossLimitLamports = None, dailyWagerLimitLamports = None, autoStakeEnabled = True,
     stakeLockedUntil = None, walletAddress = '''', scadiumReserved = 0, usdsReserved = 0, cashbackBaselineLost = 0,
     lastDailyCaseAt = None, freeTicketBaselineWagered = 0\<rparr>"

lemma new_user_sel [simp]:
  "banned new_user = False"
  "playBalanceLamports new_user = 10000000000"
  "scadiumBalance new_user = 0"
  "scadiumStaked new_user = 0"
  "usdsBalance new_user = 0"
  "scadiumVault new_user = 0"
  "totalWagered new_user = 0"
  "totalWon new_user = 0"
  "totalLost new_user = 0"
  "biggestWin new_user = 0"
  "gamesPlayed new_user = 0"
  "referredById new_user = None"
  "signupIpHash new_user = None"
  "fundedAt new_user = None"
  "ageConfirmedAt new_user = None"
  "selfExcludedUntil new_user = None"
  "coolOffUntil new_user = None"
  "dailyDepositLimitLamports new_user = None"
  "dailyLossLimitLamports new_user = None"
  "dailyWagerLimitLamports new_user = None"
  "autoStakeEnabled new_user = True"
  "stakeLockedUntil new_user = None"
  "walletAddress new_user = ''''"
  "scadiumReserved new_user = 0"
  "usdsReserved new_user = 0"
  "cashbackBaselineLost new_user = 0"
  "lastDailyCaseAt new_user = None"
  "freeTicketBaselineWagered new_user = 0"
  by (simp_all add: new_user_def)

end
