(* ===== verification/Ledger.thy ===== *)
theory Ledger
  imports Store
begin

text \<open>
  The money core of \<open>apps/api/src/prisma\<close>: \<open>applyBalanceDelta\<close>, the one function through which every
  balance moves, with its append-only ledger. A transaction is a function from the database to a
  result: \<open>Inl\<close> is the exception that rolls everything back, \<open>Inr\<close> carries the value and the committed
  database.

  The abstract specification is double-entry posting. \<open>posts ps d d'\<close> says that \<open>d'\<close> differs from \<open>d\<close> in
  money exactly by the postings \<open>ps\<close>, in that order, each with its ledger row and running balance.
  Every command of the services refines a list of postings (locale \<open>money_command\<close>); what the ledger
  guarantees follows from that once and for all.
\<close>

subsection \<open>Rows and updates\<close>

definition fresh_key :: "(nat, 'v) table \<Rightarrow> nat" where
  "fresh_key t = foldr (\<lambda>(k, _) m. max (Suc k) m) t 0"

lemma fresh_key_greater: "(k, v) \<in> set t \<Longrightarrow> k < fresh_key t"
  by (induction t) (auto simp: fresh_key_def less_Suc_eq_le max_def split: if_splits)

lemma map_of_fresh [simp]: "map_of t (fresh_key t) = None"
  using fresh_key_greater[of "fresh_key t" _ t] by (metis less_irrefl map_of_SomeD not_Some_eq)

definition insert_row :: "'v \<Rightarrow> (nat, 'v) table \<Rightarrow> nat \<times> (nat, 'v) table" where
  "insert_row v t = (fresh_key t, t @ [(fresh_key t, v)])"

lemma map_of_snoc_fresh [simp]: "map_of (t @ [(fresh_key t, v)]) = (map_of t)(fresh_key t \<mapsto> v)"
  by (rule ext) (auto simp: map_add_def map_of_append split: option.splits)

lemma keyed_snoc_fresh [simp]: "keyed t \<Longrightarrow> keyed (t @ [(fresh_key t, v)])"
  using fresh_key_greater[of "fresh_key t" _ t] by (force simp: keyed_def)

text \<open>\<open>update\<close> of a row that does not exist is Prisma's error P2025.\<close>

definition updateUser :: "nat \<Rightarrow> (user \<Rightarrow> user) \<Rightarrow> db \<Rightarrow> db result" where
  "updateUser uid f d = (case map_of (users d) uid of
      None \<Rightarrow> Inl (Internal ''P2025'')
    | Some u \<Rightarrow> Inr (d\<lparr>users := AList.update uid (f u) (users d)\<rparr>))"

text \<open>A raw \<open>UPDATE\<close> or an \<open>updateMany\<close> that matches no row changes nothing.\<close>

definition executeUser :: "nat \<Rightarrow> (user \<Rightarrow> user) \<Rightarrow> db \<Rightarrow> db" where
  "executeUser uid f d = (case map_of (users d) uid of
      None \<Rightarrow> d
    | Some u \<Rightarrow> d\<lparr>users := AList.update uid (f u) (users d)\<rparr>)"

subsection \<open>applyBalanceDelta\<close>

fun balance :: "currency \<Rightarrow> user \<Rightarrow> int" where
  "balance Jeton u = playBalanceLamports u"
| "balance Scad u = scadiumBalance u"
| "balance Scad_staked u = scadiumStaked u"
| "balance Usds u = usdsBalance u"
| "balance Scad_vault u = scadiumVault u"

fun increment :: "currency \<Rightarrow> int \<Rightarrow> user \<Rightarrow> user" where
  "increment Jeton x u = u\<lparr>playBalanceLamports := playBalanceLamports u + x\<rparr>"
| "increment Scad x u = u\<lparr>scadiumBalance := scadiumBalance u + x\<rparr>"
| "increment Scad_staked x u = u\<lparr>scadiumStaked := scadiumStaked u + x\<rparr>"
| "increment Usds x u = u\<lparr>usdsBalance := usdsBalance u + x\<rparr>"
| "increment Scad_vault x u = u\<lparr>scadiumVault := scadiumVault u + x\<rparr>"

lemma balance_increment [simp]:
  "balance c (increment c' x u) = (if c = c' then balance c u + x else balance c u)"
  by (cases c; cases c') simp_all

lemma banned_increment [simp]: "banned (increment c x u) = banned u"
  by (cases c) simp_all

record meta =
  reason :: string
  refType :: string
  refId :: "nat option"
  currency :: currency
  maxBalance :: "int option"

text \<open>The defaults of the source: \<open>currency\<close> is \<open>jeton\<close>, there is no cap and no reference.\<close>

definition jeton_meta :: "string \<Rightarrow> string \<Rightarrow> meta" where
  "jeton_meta why ref = \<lparr>reason = why, refType = ref, refId = None, currency = Jeton, maxBalance = None\<rparr>"

lemma jeton_meta_sel [simp]:
  "currency (jeton_meta w r) = Jeton" "maxBalance (jeton_meta w r) = None" "refId (jeton_meta w r) = None"
  "reason (jeton_meta w r) = w" "refType (jeton_meta w r) = r"
  by (simp_all add: jeton_meta_def)

definition applyBalanceDelta :: "nat \<Rightarrow> int \<Rightarrow> meta \<Rightarrow> db \<Rightarrow> (int \<times> db) result" where
  "applyBalanceDelta userId delta m d =
     (let c = currency m in
      bindE
        (if delta < 0 then
           (case map_of (users d) userId of
              None \<Rightarrow> Inl (BadRequest ''Insufficient balance'')
            | Some u \<Rightarrow>
                if \<not> banned u \<and> balance c u \<ge> - delta
                then Inr (d\<lparr>users := AList.update userId (increment c delta u) (users d)\<rparr>)
                else Inl (BadRequest ''Insufficient balance''))
         else if delta > 0 then
           (case maxBalance m of
              Some cap \<Rightarrow>
                (case map_of (users d) userId of
                   None \<Rightarrow> Inl (BadRequest ''balance cap reached'')
                 | Some u \<Rightarrow>
                     if balance c u \<le> cap - delta
                     then Inr (d\<lparr>users := AList.update userId (increment c delta u) (users d)\<rparr>)
                     else Inl (BadRequest ''balance cap reached''))
            | None \<Rightarrow> updateUser userId (increment c delta) d)
         else Inr d)
        (\<lambda>d. case map_of (users d) userId of
            None \<Rightarrow> Inl (Internal ''P2025'')
          | Some u \<Rightarrow>
              let balanceAfter = balance c u in
              Inr (balanceAfter,
                   d\<lparr>ledger := ledger d @
                       [\<lparr>l_userId = userId, l_currency = c, l_delta = delta, l_reason = reason m,
                         l_refType = refType m, l_refId = refId m, l_balanceAfter = balanceAfter\<rparr>]\<rparr>)))"

definition deriveBalance :: "nat \<Rightarrow> db \<Rightarrow> int" where
  "deriveBalance userId d = sum_list (map l_delta (filter (\<lambda>r. l_userId r = userId) (ledger d)))"

text \<open>What it succeeds on, and everything it then does.\<close>

lemma applyBalanceDelta_Inr:
  "applyBalanceDelta uid x m d = Inr (b, d') \<longleftrightarrow>
     (\<exists>u. map_of (users d) uid = Some u
        \<and> (x < 0 \<longrightarrow> \<not> banned u \<and> 0 \<le> balance (currency m) u + x)
        \<and> (0 < x \<longrightarrow> (\<forall>cap. maxBalance m = Some cap \<longrightarrow> balance (currency m) u + x \<le> cap))
        \<and> b = balance (currency m) u + x
        \<and> d' = d\<lparr>users := (if x = 0 then users d else AList.update uid (increment (currency m) x u) (users d)),
                 ledger := ledger d @ [\<lparr>l_userId = uid, l_currency = currency m, l_delta = x,
                   l_reason = reason m, l_refType = refType m, l_refId = refId m, l_balanceAfter = b\<rparr>]\<rparr>)"
  by (cases "x < 0"; cases "0 < x")
     (auto simp: applyBalanceDelta_def updateUser_def Let_def split: option.splits if_splits)

lemma applyBalanceDelta_frame:
  assumes "applyBalanceDelta u x m d = Inr (b, d')"
  shows "coinflipGames d' = coinflipGames d" "instantRounds d' = instantRounds d" "bets d' = bets d"
    "clientSeeds d' = clientSeeds d" "referrals d' = referrals d" "sessions d' = sessions d" "seeds d' = seeds d"
    "vaultPools d' = vaultPools d" "vaultPositions d' = vaultPositions d" "idempotencyKeys d' = idempotencyKeys d"
    "vaultEvents d' = vaultEvents d" "vaultAccrualRounds d' = vaultAccrualRounds d" "stakeEvents d' = stakeEvents d"
    "distributionRounds d' = distributionRounds d" "distributionClaims d' = distributionClaims d"
    "engineBlocks d' = engineBlocks d" "engineShares d' = engineShares d" "totalEmittedScad d' = totalEmittedScad d"
    "lotteryDraws d' = lotteryDraws d" "lotteryTickets d' = lotteryTickets d" "jackpotRounds d' = jackpotRounds d"
    "custodyTransfers d' = custodyTransfers d" "linkedWallets d' = linkedWallets d" "scanCursor d' = scanCursor d"
    "rewardClaims d' = rewardClaims d" "jackpotEntries d' = jackpotEntries d" "settlementFailures d' = settlementFailures d" "crashRounds d' = crashRounds d" "crashBets d' = crashBets d"
    "scheduledCrashBets d' = scheduledCrashBets d" "blackjackTables d' = blackjackTables d" "blackjackRounds d' = blackjackRounds d"
  using assms by (auto simp: applyBalanceDelta_Inr)

subsection \<open>The money view and postings\<close>

definition bal :: "db \<Rightarrow> nat \<Rightarrow> currency \<Rightarrow> int" where
  "bal d uid c = (case map_of (users d) uid of None \<Rightarrow> 0 | Some u \<Rightarrow> balance c u)"

type_synonym posting = "nat \<times> currency \<times> int"

definition posting_of :: "ledger_row \<Rightarrow> posting" where
  "posting_of r = (l_userId r, l_currency r, l_delta r)"

definition post1 :: "(nat \<Rightarrow> currency \<Rightarrow> int) \<Rightarrow> posting \<Rightarrow> nat \<Rightarrow> currency \<Rightarrow> int" where
  "post1 b p = (case p of (u, c, x) \<Rightarrow> b(u := (b u)(c := b u c + x)))"

definition replay :: "(nat \<Rightarrow> currency \<Rightarrow> int) \<Rightarrow> posting list \<Rightarrow> nat \<Rightarrow> currency \<Rightarrow> int" where
  "replay b ps = foldl post1 b ps"

text \<open>
  A chain of ledger rows from the balances \<open>b\<close>: every row states the balance it leaves, and no debit
  leaves a negative one.
\<close>

fun chained :: "(nat \<Rightarrow> currency \<Rightarrow> int) \<Rightarrow> ledger_row list \<Rightarrow> bool" where
  "chained b [] = True"
| "chained b (r # rs) =
     (let b' = post1 b (posting_of r) in
      l_balanceAfter r = b' (l_userId r) (l_currency r)
      \<and> (l_delta r < 0 \<longrightarrow> 0 \<le> l_balanceAfter r) \<and> chained b' rs)"

lemma replay_append [simp]: "replay b (ps @ qs) = replay (replay b ps) qs"
  by (simp add: replay_def)

lemma chained_append:
  "chained b (rs @ qs) \<longleftrightarrow> chained b rs \<and> chained (replay b (map posting_of rs)) qs"
  by (induction rs arbitrary: b) (auto simp: Let_def replay_def)

definition posts :: "posting list \<Rightarrow> db \<Rightarrow> db \<Rightarrow> bool" where
  "posts ps d d' \<longleftrightarrow> (\<exists>rs. ledger d' = ledger d @ rs \<and> map posting_of rs = ps
      \<and> chained (bal d) rs \<and> bal d' = replay (bal d) ps)"

definition same_money :: "db \<Rightarrow> db \<Rightarrow> bool" where
  "same_money d d' \<longleftrightarrow> bal d' = bal d \<and> ledger d' = ledger d"

lemma posts_Nil: "posts [] d d' \<longleftrightarrow> same_money d d'"
  by (auto simp: posts_def same_money_def replay_def)

lemma posts_refl [simp]: "posts [] d d"
  by (simp add: posts_Nil same_money_def)

lemma posts_trans: "posts ps d d1 \<Longrightarrow> posts qs d1 d2 \<Longrightarrow> posts (ps @ qs) d d2"
  unfolding posts_def by (auto simp: chained_append)

lemma posts_same: "posts ps d d1 \<Longrightarrow> same_money d1 d2 \<Longrightarrow> posts ps d d2"
  using posts_trans[of ps d d1 "[]" d2] by (simp add: posts_Nil)

lemma posts_Cons: "posts [p] d d1 \<Longrightarrow> posts ps d1 d2 \<Longrightarrow> posts (p # ps) d d2"
  using posts_trans[of "[p]"] by simp

lemma applyBalanceDelta_posts:
  assumes "applyBalanceDelta uid x m d = Inr (b, d')"
  shows "posts [(uid, currency m, x)] d d'"
proof -
  obtain u where u: "map_of (users d) uid = Some u" "x < 0 \<Longrightarrow> 0 \<le> balance (currency m) u + x"
    "b = balance (currency m) u + x"
    and d': "d' = d\<lparr>users := (if x = 0 then users d else AList.update uid (increment (currency m) x u) (users d)),
                 ledger := ledger d @ [\<lparr>l_userId = uid, l_currency = currency m, l_delta = x,
                   l_reason = reason m, l_refType = refType m, l_refId = refId m, l_balanceAfter = b\<rparr>]\<rparr>"
    using assms unfolding applyBalanceDelta_Inr by blast
  have "bal d' = replay (bal d) [(uid, currency m, x)]"
    by (intro ext) (auto simp: bal_def replay_def post1_def d' u(1))
  moreover have "post1 (bal d) (uid, currency m, x) uid (currency m) = b" "x < 0 \<longrightarrow> 0 \<le> b"
    using u by (simp_all add: post1_def bal_def)
  ultimately show ?thesis unfolding posts_def by (simp add: d' posting_of_def)
qed

text \<open>Row updates that leave the balance columns alone.\<close>

definition keeps_balance :: "(user \<Rightarrow> user) \<Rightarrow> bool" where
  "keeps_balance f \<longleftrightarrow> (\<forall>c u. balance c (f u) = balance c u)"

lemma keeps_balanceI: "(\<And>u. playBalanceLamports (f u) = playBalanceLamports u) \<Longrightarrow>
    (\<And>u. scadiumBalance (f u) = scadiumBalance u) \<Longrightarrow> (\<And>u. scadiumStaked (f u) = scadiumStaked u) \<Longrightarrow>
    (\<And>u. usdsBalance (f u) = usdsBalance u) \<Longrightarrow> (\<And>u. scadiumVault (f u) = scadiumVault u) \<Longrightarrow> keeps_balance f"
  unfolding keeps_balance_def by (intro allI, case_tac c) simp_all

lemma updateUser_same: "updateUser uid f d = Inr d' \<Longrightarrow> keeps_balance f \<Longrightarrow> same_money d d'"
  by (auto simp: updateUser_def same_money_def bal_def keeps_balance_def fun_eq_iff split: option.splits if_splits)

lemma executeUser_same: "keeps_balance f \<Longrightarrow> same_money d (executeUser uid f d)"
  by (auto simp: executeUser_def same_money_def bal_def keeps_balance_def fun_eq_iff split: option.splits if_splits)

lemma same_moneyI: "users d' = users d \<Longrightarrow> ledger d' = ledger d \<Longrightarrow> same_money d d'"
  by (simp add: same_money_def bal_def fun_eq_iff)

lemma same_money_refl [simp]: "same_money d d"
  by (simp add: same_money_def)

lemma same_money_trans: "same_money d d1 \<Longrightarrow> same_money d1 d2 \<Longrightarrow> same_money d d2"
  by (simp add: same_money_def)

lemma replay_balance: "replay b ps u c = b u c + sum_list (map (\<lambda>(v, k, x). if v = u \<and> k = c then x else 0) ps)"
  by (induction ps arbitrary: b) (auto simp: replay_def post1_def split: prod.splits)

lemma posts_bal: "posts ps d d' \<Longrightarrow>
    bal d' u c = bal d u c + sum_list (map (\<lambda>(v, k, x). if v = u \<and> k = c then x else 0) ps)"
  by (auto simp: posts_def replay_balance)

subsection \<open>What the ledger guarantees\<close>

text \<open>
  \<open>books d\<close>: the ledger is a chain from some nonnegative opening balances, and the live balances are
  what replaying it gives.
\<close>

definition books :: "db \<Rightarrow> bool" where
  "books d \<longleftrightarrow> (\<exists>b0. (\<forall>u c. 0 \<le> b0 u c) \<and> chained b0 (ledger d)
      \<and> bal d = replay b0 (map posting_of (ledger d)))"

lemma posts_books: "posts ps d d' \<Longrightarrow> books d \<Longrightarrow> books d'"
  unfolding books_def posts_def by (elim exE conjE, rule_tac x = b0 in exI) (auto simp: chained_append)

lemma chained_nonneg:
  assumes "chained b rs" and "\<And>u c. 0 \<le> b u c"
  shows "0 \<le> replay b (map posting_of rs) u c"
  using assms
proof (induction rs arbitrary: b)
  case (Cons r rs)
  have step: "0 \<le> post1 b (posting_of r) v k" for v k
  proof (cases "v = l_userId r \<and> k = l_currency r")
    case True
    show ?thesis
    proof (cases "l_delta r < 0")
      case neg: True
      then show ?thesis using Cons.prems(1) True by (simp add: Let_def)
    next
      case False
      then show ?thesis using Cons.prems(2)[of v k] True by (simp add: post1_def posting_of_def)
    qed
  next
    case False
    then show ?thesis using Cons.prems(2)[of v k] by (auto simp: post1_def posting_of_def)
  qed
  have "chained (post1 b (posting_of r)) rs" using Cons.prems(1) by (simp add: Let_def)
  from Cons.IH[OF this step] show ?case by (simp add: replay_def)
qed (simp add: replay_def)

lemma books_nonneg: "books d \<Longrightarrow> 0 \<le> bal d u c"
  unfolding books_def using chained_nonneg by metis

text \<open>The row of a user and currency that was written last.\<close>

definition last_row :: "nat \<Rightarrow> currency \<Rightarrow> ledger_row list \<Rightarrow> ledger_row option" where
  "last_row u c rs = (let mine = filter (\<lambda>r. l_userId r = u \<and> l_currency r = c) rs
                      in if mine = [] then None else Some (last mine))"

lemma chained_last:
  assumes "chained b rs" and "last_row u c rs = Some r"
  shows "l_balanceAfter r = replay b (map posting_of rs) u c"
  using assms
proof (induction rs rule: rev_induct)
  case (snoc q rs)
  have q: "l_balanceAfter q = post1 (replay b (map posting_of rs)) (posting_of q) (l_userId q) (l_currency q)"
    using snoc.prems(1) by (simp add: chained_append Let_def)
  show ?case
  proof (cases "l_userId q = u \<and> l_currency q = c")
    case True
    then have "r = q" using snoc.prems(2) by (auto simp: last_row_def Let_def split: if_splits)
    then show ?thesis using q True by (simp add: replay_def)
  next
    case False
    then have "last_row u c rs = Some r" using snoc.prems(2) by (auto simp: last_row_def Let_def)
    then have "l_balanceAfter r = replay b (map posting_of rs) u c"
      using snoc.IH snoc.prems(1) by (simp add: chained_append)
    moreover have "post1 (replay b (map posting_of rs)) (posting_of q) u c = replay b (map posting_of rs) u c"
      using False by (auto simp: post1_def posting_of_def)
    ultimately show ?thesis by (simp add: replay_def)
  qed
qed (simp add: last_row_def)

lemma books_last: "books d \<Longrightarrow> last_row u c (ledger d) = Some r \<Longrightarrow> l_balanceAfter r = bal d u c"
  unfolding books_def using chained_last by metis

subsection \<open>Commands that move money\<close>

locale money_command =
  fixes run :: "'i \<Rightarrow> db \<Rightarrow> ('o \<times> db) result"
    and journal :: "'i \<Rightarrow> db \<Rightarrow> 'o \<Rightarrow> posting list"
  assumes refines: "run i d = Inr (r, d') \<Longrightarrow> posts (journal i d r) d d'"
begin

lemma keeps_books: "run i d = Inr (r, d') \<Longrightarrow> books d \<Longrightarrow> books d'"
  using refines posts_books by blast

lemma no_overdraft: "run i d = Inr (r, d') \<Longrightarrow> books d \<Longrightarrow> 0 \<le> bal d' u c"
  using keeps_books books_nonneg by blast

lemma moves_exactly: "run i d = Inr (r, d') \<Longrightarrow>
    bal d' u c = bal d u c + sum_list (map (\<lambda>(v, k, x). if v = u \<and> k = c then x else 0) (journal i d r))"
  using refines posts_bal by blast

lemma leaves_others_alone:
  assumes "run i d = Inr (r, d')" and "\<forall>p \<in> set (journal i d r). fst p \<noteq> u"
  shows "bal d' u c = bal d u c"
proof -
  have "sum_list (map (\<lambda>(v, k, x). if v = u \<and> k = c then x else 0) ps) = 0"
    if "\<forall>p \<in> set ps. fst p \<noteq> u" for ps :: "posting list" using that by (induction ps) auto
  from this[OF assms(2)] show ?thesis using moves_exactly[OF assms(1)] by simp
qed

lemma ledger_grows: "run i d = Inr (r, d') \<Longrightarrow> \<exists>rs. ledger d' = ledger d @ rs \<and> map posting_of rs = journal i d r"
  using refines unfolding posts_def by blast

end

text \<open>\<open>applyBalanceDelta\<close> itself is a command of one posting.\<close>

interpretation delta: money_command "\<lambda>(uid, x, m). applyBalanceDelta uid x m" "\<lambda>(uid, x, m) _ _. [(uid, currency m, x)]"
  by unfold_locales (auto intro: applyBalanceDelta_posts)

end
