(* ===== verification/Transactions.thy ===== *)
theory Transactions
  imports Ledger Shared_Config "HOL-Library.Sublist"
begin

text \<open>
  What surrounds a money movement: the Serializable retry loop (\<open>prisma/with-serializable.ts\<close>),
  idempotency keys (\<open>prisma/idempotency.ts\<close>), the round exposure guard (\<open>common/exposure-guard.ts\<close>)
  and the settlement gates (\<open>games/settle-claim.ts\<close>).
\<close>

subsection \<open>withSerializable\<close>

text \<open>
  What a failed attempt throws: whether it is Prisma's typed error, its \<open>code\<close> and \<open>meta.code\<close> when they
  are strings, and its message.
\<close>

record thrown =
  t_prismaKnown :: bool
  t_code :: "string option"
  t_metaCode :: "string option"
  t_message :: string

definition RETRYABLE_PG_CODES :: "string list" where
  "RETRYABLE_PG_CODES = [''40001'', ''40P01'']"

definition includes_string :: "string \<Rightarrow> string \<Rightarrow> bool" where
  "includes_string s t \<longleftrightarrow> list_ex (\<lambda>r. take (length t) r = t) (suffixes s)"

definition isRetryable :: "thrown \<Rightarrow> bool" where
  "isRetryable e =
     (if t_prismaKnown e \<and> t_code e = Some ''P2034'' then True
      else if (\<exists>c \<in> set_option (t_code e). c \<in> set RETRYABLE_PG_CODES) then True
      else if (\<exists>c \<in> set_option (t_metaCode e). c \<in> set RETRYABLE_PG_CODES) then True
      else list_ex (\<lambda>c. includes_string (t_message e) c) RETRYABLE_PG_CODES)"

text \<open>
  \<open>tx k\<close> is what \<open>prisma.$transaction(fn)\<close> gives on attempt \<open>k\<close>; the database may have changed between
  attempts. The result carries the attempts made and the milliseconds slept.
\<close>

function serializable_loop :: "(nat \<Rightarrow> thrown + 'a) \<Rightarrow> nat \<Rightarrow> nat \<Rightarrow> nat list \<Rightarrow> nat \<Rightarrow> thrown option
    \<Rightarrow> (thrown option + 'a) \<times> nat list \<times> nat" where
  "serializable_loop tx attempts attempt made slept lastError =
     (if attempt \<le> attempts then
        (case tx attempt of
           Inr v \<Rightarrow> (Inr v, made @ [attempt], slept)
         | Inl e \<Rightarrow>
             if \<not> isRetryable e \<or> attempt = attempts then (Inl (Some e), made @ [attempt], slept)
             else serializable_loop tx attempts (attempt + 1) (made @ [attempt]) (slept + 5 * attempt) (Some e))
      else (Inl lastError, made, slept))"
  by pat_completeness auto
termination by (relation "measure (\<lambda>(_, n, k, _). Suc n - k)") auto

declare serializable_loop.simps [simp del]

definition withSerializable :: "(nat \<Rightarrow> thrown + 'a) \<Rightarrow> nat \<Rightarrow> (thrown option + 'a) \<times> nat list \<times> nat" where
  "withSerializable tx attempts = serializable_loop tx attempts 1 [] 0 None"

definition conflicts :: "thrown + 'a \<Rightarrow> bool" where
  "conflicts r \<longleftrightarrow> (case r of Inl e \<Rightarrow> isRetryable e | Inr _ \<Rightarrow> False)"

definition lift_thrown :: "thrown + 'a \<Rightarrow> thrown option + 'a" where
  "lift_thrown r = (case r of Inl e \<Rightarrow> Inl (Some e) | Inr v \<Rightarrow> Inr v)"

lemma serializable_loop_spec:
  assumes "attempt \<le> n"
  shows "\<exists>k. attempt \<le> k \<and> k \<le> n \<and> (\<forall>j. attempt \<le> j \<longrightarrow> j < k \<longrightarrow> conflicts (tx j))
    \<and> (k = n \<or> \<not> conflicts (tx k))
    \<and> fst (serializable_loop tx n attempt made slept le) = lift_thrown (tx k)
    \<and> fst (snd (serializable_loop tx n attempt made slept le)) = made @ [attempt..<Suc k]"
  using assms
proof (induction "n - attempt" arbitrary: attempt made slept le)
  case 0
  then show ?case
    by (intro exI[of _ n]) (cases "tx n"; auto simp: serializable_loop.simps lift_thrown_def)
next
  case (Suc m)
  have less: "attempt < n" using Suc.hyps(2) by simp
  show ?case
  proof (cases "conflicts (tx attempt)")
    case False
    then show ?thesis using less
      by (intro exI[of _ attempt])
        (auto simp: serializable_loop.simps[of tx n attempt] lift_thrown_def conflicts_def split: sum.splits)
  next
    case True
    then obtain e where e: "tx attempt = Inl e" "isRetryable e" by (auto simp: conflicts_def split: sum.splits)
    have rec: "serializable_loop tx n attempt made slept le =
        serializable_loop tx n (attempt + 1) (made @ [attempt]) (slept + 5 * attempt) (Some e)"
      using less by (subst serializable_loop.simps) (simp add: e)
    have "m = n - (attempt + 1)" "attempt + 1 \<le> n" using Suc.hyps(2) by auto
    from Suc.hyps(1)[OF this, of "made @ [attempt]" "slept + 5 * attempt" "Some e"]
    obtain k where k: "attempt + 1 \<le> k" "k \<le> n"
      "\<forall>j. attempt + 1 \<le> j \<longrightarrow> j < k \<longrightarrow> conflicts (tx j)" "k = n \<or> \<not> conflicts (tx k)"
      "fst (serializable_loop tx n attempt made slept le) = lift_thrown (tx k)"
      "fst (snd (serializable_loop tx n attempt made slept le)) = (made @ [attempt]) @ [attempt + 1..<Suc k]"
      unfolding rec by blast
    have "conflicts (tx j)" if "attempt \<le> j" "j < k" for j
      using that k(3) True by (cases "j = attempt") auto
    moreover have "[attempt..<Suc k] = attempt # [attempt + 1..<Suc k]" using k(1) by (simp add: upt_conv_Cons)
    ultimately show ?thesis using k by (intro exI[of _ k]) auto
  qed
qed

text \<open>
  The retry loop makes attempts 1, 2, ... one after the other and stops at the first that commits or
  fails for another reason than a conflict, at the latest at the last allowed one; its result is that
  attempt's, and every attempt before it lost a race. So a closure that stops conflicting within the
  allowed attempts gets its result, and none is committed twice.
\<close>

theorem serializable_retries:
  assumes "0 < n"
  shows "\<exists>k. 1 \<le> k \<and> k \<le> n \<and> (\<forall>j. 1 \<le> j \<longrightarrow> j < k \<longrightarrow> conflicts (tx j)) \<and> (k = n \<or> \<not> conflicts (tx k))
    \<and> fst (withSerializable tx n) = lift_thrown (tx k)
    \<and> fst (snd (withSerializable tx n)) = [1..<Suc k]"
  using serializable_loop_spec[of 1 n tx "[]" 0 None] assms unfolding withSerializable_def by simp

definition sample_tx :: "nat \<Rightarrow> thrown + int" where
  "sample_tx k = (if k < 3 then Inl \<lparr>t_prismaKnown = True, t_code = Some ''P2034'', t_metaCode = None, t_message = ''''\<rparr>
                  else Inr 7)"

theorem serializable_retries_witness:
  "(\<exists>k. 1 \<le> k \<and> k \<le> 5 \<and> fst (withSerializable sample_tx 5) = lift_thrown (sample_tx k))
     \<and> withSerializable sample_tx 5 = (Inr 7, [1, 2, 3], 15)"
proof
  show "\<exists>k. 1 \<le> k \<and> k \<le> 5 \<and> fst (withSerializable sample_tx 5) = lift_thrown (sample_tx k)"
    using serializable_retries[of 5 sample_tx] by auto
  show "withSerializable sample_tx 5 = (Inr 7, [1, 2, 3], 15)" by code_simp
qed

subsection \<open>Idempotency keys\<close>

text \<open>The stored response is the serialised JSON text; a claimed key without one is still in flight.\<close>

definition has_key :: "string option \<Rightarrow> bool" where
  "has_key key \<longleftrightarrow> key \<noteq> None \<and> key \<noteq> Some ''''"

definition claimIdempotency :: "nat \<Rightarrow> string \<Rightarrow> string option \<Rightarrow> db \<Rightarrow> (string option \<times> db) result" where
  "claimIdempotency userId scope key d =
     (if \<not> has_key key then Inr (None, d)
      else case map_of (idempotencyKeys d) (userId, scope, the key) of
        None \<Rightarrow> Inr (None, d\<lparr>idempotencyKeys := AList.update (userId, scope, the key) None (idempotencyKeys d)\<rparr>)
      | Some (Some response) \<Rightarrow> Inr (Some response, d)
      | Some None \<Rightarrow> Inl (Conflict ''Request already in progress''))"

definition storeIdempotency :: "nat \<Rightarrow> string \<Rightarrow> string option \<Rightarrow> string \<Rightarrow> db \<Rightarrow> db result" where
  "storeIdempotency userId scope key response d =
     (if \<not> has_key key then Inr d
      else case map_of (idempotencyKeys d) (userId, scope, the key) of
        None \<Rightarrow> Inl (Internal ''P2025'')
      | Some _ \<Rightarrow> Inr (d\<lparr>idempotencyKeys :=
            AList.update (userId, scope, the key) (Some response) (idempotencyKeys d)\<rparr>))"

lemma claim_same: "claimIdempotency u s k d = Inr (r, d') \<Longrightarrow> same_money d d'"
  by (auto simp: claimIdempotency_def intro!: same_moneyI split: if_splits option.splits)

lemma store_same: "storeIdempotency u s k r d = Inr d' \<Longrightarrow> same_money d d'"
  by (auto simp: storeIdempotency_def intro!: same_moneyI split: if_splits option.splits)

lemma claim_after_store:
  assumes "storeIdempotency u s k r d = Inr d'" and "has_key k"
  shows "claimIdempotency u s k d' = Inr (Some r, d')"
  using assms by (auto simp: storeIdempotency_def claimIdempotency_def split: if_splits option.splits)

subsection \<open>The exposure guard of a round\<close>

record exposure_guard =
  houseBalanceLamports :: int
  maxRoundExposureBps :: int
  reserved :: int

definition MAX_WIN_PER_BET_LAMPORTS :: int where "MAX_WIN_PER_BET_LAMPORTS = 50 * LAMPORTS_PER_SOL"

definition MAX_ROUND_EXPOSURE_BPS :: int where "MAX_ROUND_EXPOSURE_BPS = 2000"

definition new_guard :: "int \<Rightarrow> exposure_guard" where
  "new_guard house = \<lparr>houseBalanceLamports = house, maxRoundExposureBps = MAX_ROUND_EXPOSURE_BPS, reserved = 0\<rparr>"

definition potential :: "int \<Rightarrow> rat \<Rightarrow> int" where
  "potential stakeLamports maxMultiplier =
     (let raw = stakeLamports * js_ceil maxMultiplier; cap = MAX_WIN_PER_BET_LAMPORTS
      in if raw < cap then raw else cap)"

definition roundCapLamports :: "exposure_guard \<Rightarrow> int" where
  "roundCapLamports g = bigint_div (houseBalanceLamports g * maxRoundExposureBps g) 10000"

definition reserve :: "int \<Rightarrow> exposure_guard \<Rightarrow> bool \<times> exposure_guard" where
  "reserve potentialLamports g =
     (if potentialLamports \<le> 0 then (False, g)
      else if reserved g + potentialLamports > roundCapLamports g then (False, g)
      else (True, g\<lparr>reserved := reserved g + potentialLamports\<rparr>))"

definition release :: "int \<Rightarrow> exposure_guard \<Rightarrow> exposure_guard" where
  "release potentialLamports g =
     g\<lparr>reserved := (if reserved g > potentialLamports then reserved g - potentialLamports else 0)\<rparr>"

lemma roundCap_reserved [simp]: "roundCapLamports (g\<lparr>reserved := r\<rparr>) = roundCapLamports g"
  by (simp add: roundCapLamports_def)

text \<open>Offering the bets of a round one after the other: the accepted potentials and the guard left.\<close>

fun offer :: "int list \<Rightarrow> exposure_guard \<Rightarrow> int list \<times> exposure_guard" where
  "offer [] g = ([], g)"
| "offer (p # ps) g =
     (let (ok, g1) = reserve p g; (acc, g2) = offer ps g1 in (if ok then p # acc else acc, g2))"

lemma offer_Cons [simp]:
  "fst (offer (p # ps) g) = (if fst (reserve p g) then [p] else []) @ fst (offer ps (snd (reserve p g)))"
  "snd (offer (p # ps) g) = snd (offer ps (snd (reserve p g)))"
  by (simp_all add: Let_def split: prod.splits)

declare offer.simps(2) [simp del]

lemma reserve_cases:
  "fst (reserve p g) \<longleftrightarrow> 0 < p \<and> reserved g + p \<le> roundCapLamports g"
  "snd (reserve p g) = (if 0 < p \<and> reserved g + p \<le> roundCapLamports g then g\<lparr>reserved := reserved g + p\<rparr> else g)"
  by (auto simp: reserve_def)

lemma offer_reserved: "reserved (snd (offer ps g)) = reserved g + sum_list (fst (offer ps g))
    \<and> roundCapLamports (snd (offer ps g)) = roundCapLamports g"
  by (induction ps arbitrary: g) (simp_all add: reserve_cases)

lemma offer_cap: "reserved g \<le> roundCapLamports g \<Longrightarrow>
    reserved (snd (offer ps g)) \<le> roundCapLamports (snd (offer ps g))"
  by (induction ps arbitrary: g) (simp_all add: reserve_cases)

lemma offer_pos: "p \<in> set (fst (offer ps g)) \<Longrightarrow> 0 < p"
  by (induction ps arbitrary: g) (auto simp: reserve_cases split: if_splits)

lemma release_bounds:
  "0 \<le> p \<Longrightarrow> 0 \<le> reserved g \<Longrightarrow> 0 \<le> reserved (release p g) \<and> reserved (release p g) \<le> reserved g"
  by (auto simp: release_def)

lemma offer_all_accepted:
  assumes "\<And>p. p \<in> set ps \<Longrightarrow> 0 < p" and "reserved g + sum_list ps \<le> roundCapLamports g"
  shows "fst (offer ps g) = ps"
  using assms
proof (induction ps arbitrary: g)
  case (Cons p ps)
  have rest: "0 \<le> sum_list ps" using Cons.prems(1) by (auto intro!: sum_list_nonneg simp: less_imp_le)
  moreover have "0 < p" using Cons.prems(1) by simp
  ultimately have "0 < p \<and> reserved g + p \<le> roundCapLamports g" using Cons.prems(2) by simp
  moreover have "fst (offer ps (g\<lparr>reserved := reserved g + p\<rparr>)) = ps"
    using Cons.prems by (intro Cons.IH) auto
  ultimately show ?case by (simp add: reserve_cases)
qed simp

text \<open>
  The exposure guard bounds what a round can cost the house: the potential payouts of the bets
  it accepts, each of them positive, never exceed a fifth of the house balance in total, whatever the
  bets and their order; and it refuses nothing that fits.
\<close>

theorem exposure_bounded:
  assumes "0 \<le> house"
  shows "sum_list (fst (offer bs (new_guard house))) \<le> house div 5
    \<and> (\<forall>b \<in> set (fst (offer bs (new_guard house))). 0 < b)
    \<and> ((\<forall>b \<in> set bs. 0 < b) \<and> sum_list bs \<le> house div 5 \<longrightarrow> fst (offer bs (new_guard house)) = bs)"
proof (intro conjI impI)
  have cap: "roundCapLamports (new_guard house) = house div 5"
    using assms by (cases "house = 0") (simp_all add: roundCapLamports_def new_guard_def MAX_ROUND_EXPOSURE_BPS_def bigint_div_def)
  have zero: "reserved (new_guard house) = 0" by (simp add: new_guard_def)
  show "sum_list (fst (offer bs (new_guard house))) \<le> house div 5"
    using offer_cap[of "new_guard house" bs] offer_reserved[of bs "new_guard house"] assms
    by (simp add: cap zero)
  show "\<forall>b \<in> set (fst (offer bs (new_guard house))). 0 < b" using offer_pos by blast
  show "fst (offer bs (new_guard house)) = bs" if "(\<forall>b \<in> set bs. 0 < b) \<and> sum_list bs \<le> house div 5"
    using that offer_all_accepted[of bs "new_guard house"] by (simp add: cap zero)
qed

theorem exposure_bounded_witness:
  "sum_list (fst (offer [4000, 0, 9000, 5000] (new_guard 50000))) \<le> 10000
     \<and> fst (offer [4000, 0, 9000, 5000] (new_guard 50000)) = [4000, 5000]"
proof
  show "sum_list (fst (offer [4000, 0, 9000, 5000] (new_guard 50000))) \<le> 10000"
    using exposure_bounded[of 50000 "[4000, 0, 9000, 5000]"] by simp
  show "fst (offer [4000, 0, 9000, 5000] (new_guard 50000)) = [4000, 5000]" by code_simp
qed

subsection \<open>Settlement gates\<close>

definition assertStillLeader :: "bool \<Rightarrow> string \<Rightarrow> unit result" where
  "assertStillLeader isLeader gameName =
     guardE isLeader (SettleClaimLost (gameName @ '': lost leadership mid-settle''))"

definition assertRoundClaimed :: "nat \<Rightarrow> string \<Rightarrow> unit result" where
  "assertRoundClaimed matched gameName =
     (if matched = 0 then Inl (SettleClaimLost (gameName @ '': already settled by another settler'')) else Inr ())"

end
