(* ===== verification/Seeds.thy ===== *)
theory Seeds
  imports Ledger Fair_Core
begin

text \<open>
  \<open>apps/api/src/fairness/seed-manager.service.ts\<close>: each player's client seed, nonce, active server seed
  and pre-committed next one. The random generators are arguments: \<open>fresh_seeds\<close> holds what
  \<open>generateClientSeed\<close> and the two calls of \<open>generateServerSeed\<close> in \<open>mintPair\<close> give. An operation that
  commits in two transactions returns its outcome next to the database it leaves.
\<close>

record fresh_seeds =
  fs_client :: string
  fs_server :: string
  fs_next :: string

record pair_view =
  pv_serverSeedHash :: string
  pv_nextServerSeedHash :: string
  pv_clientSeed :: string
  pv_nonce :: nat

record seed_ctx =
  ctx_serverSeed :: string
  ctx_serverSeedHash :: string
  ctx_clientSeed :: string
  ctx_nonce :: nat

definition mintPair :: "sha \<Rightarrow> fresh_seeds \<Rightarrow> client_seed" where
  "mintPair sha fs =
     \<lparr>cs_clientSeed = fs_client fs, cs_nonce = 0,
      cs_serverSeed = fs_server fs, cs_serverSeedHash = commitServerSeed sha (fs_server fs),
      cs_nextServerSeed = fs_next fs, cs_nextServerSeedHash = commitServerSeed sha (fs_next fs),
      cs_rotatedAt = None\<rparr>"

definition seed_view :: "client_seed \<Rightarrow> pair_view" where
  "seed_view row = \<lparr>pv_serverSeedHash = cs_serverSeedHash row, pv_nextServerSeedHash = cs_nextServerSeedHash row,
     pv_clientSeed = cs_clientSeed row, pv_nonce = cs_nonce row\<rparr>"

definition put_seed :: "nat \<Rightarrow> client_seed \<Rightarrow> db \<Rightarrow> db" where
  "put_seed uid row d = d\<lparr>clientSeeds := AList.update uid row (clientSeeds d)\<rparr>"

definition getOrCreateActivePair :: "sha \<Rightarrow> fresh_seeds \<Rightarrow> nat \<Rightarrow> db \<Rightarrow> pair_view \<times> db" where
  "getOrCreateActivePair sha fs userId d = (case map_of (clientSeeds d) userId of
      Some row \<Rightarrow> (seed_view row, d)
    | None \<Rightarrow> (seed_view (mintPair sha fs), put_seed userId (mintPair sha fs) d))"

text \<open>\<open>String.trim\<close> on ASCII text.\<close>

definition is_space :: "char \<Rightarrow> bool" where
  "is_space c \<longleftrightarrow> of_char c \<in> {9, 10, 11, 12, 13, 32 :: nat}"

definition js_trim :: "string \<Rightarrow> string" where
  "js_trim s = rev (dropWhile is_space (rev (dropWhile is_space s)))"

definition setClientSeed :: "sha \<Rightarrow> fresh_seeds \<Rightarrow> nat \<Rightarrow> string \<Rightarrow> db \<Rightarrow> pair_view result \<times> db" where
  "setClientSeed sha fs userId clientSeed d =
     (let trimmed = js_trim clientSeed in
      if length trimmed < 1 \<or> length trimmed > 64
      then (Inl (BadRequest ''clientSeed must be 1-64 characters''), d)
      else
        let d1 = snd (getOrCreateActivePair sha fs userId d) in
        case map_of (clientSeeds d1) userId of
          None \<Rightarrow> (Inl (Internal ''P2025''), d1)
        | Some row \<Rightarrow>
            let updated = row\<lparr>cs_clientSeed := trimmed, cs_nonce := 0\<rparr>
            in (Inr (seed_view updated), put_seed userId updated d1))"

record rotation =
  ro_revealedServerSeed :: string
  ro_serverSeedHash :: string
  ro_nextServerSeedHash :: string

definition has_active_round :: "nat \<Rightarrow> db \<Rightarrow> bool" where
  "has_active_round userId d \<longleftrightarrow> list_ex (\<lambda>(_, r). ir_userId r = userId \<and> ir_status r = RoundActive) (instantRounds d)"

definition rotateServerSeed ::
  "sha \<Rightarrow> fresh_seeds \<Rightarrow> string \<Rightarrow> int \<Rightarrow> nat \<Rightarrow> db \<Rightarrow> rotation result \<times> db" where
  "rotateServerSeed sha fs freshNext now userId d =
     (let d1 = snd (getOrCreateActivePair sha fs userId d) in
      if has_active_round userId d1
      then (Inl (Conflict ''Finish your in-progress round before rotating the server seed''), d1)
      else case map_of (clientSeeds d1) userId of
        None \<Rightarrow> (Inl (Internal ''P2025''), d1)
      | Some row \<Rightarrow>
          let updated = row\<lparr>cs_serverSeed := cs_nextServerSeed row, cs_serverSeedHash := cs_nextServerSeedHash row,
                cs_nextServerSeed := freshNext, cs_nextServerSeedHash := commitServerSeed sha freshNext,
                cs_nonce := 0, cs_rotatedAt := Some now\<rparr>
          in (Inr \<lparr>ro_revealedServerSeed = cs_serverSeed row, ro_serverSeedHash = cs_serverSeedHash updated,
                   ro_nextServerSeedHash = cs_nextServerSeedHash updated\<rparr>, put_seed userId updated d1))"

text \<open>Increment the nonce of an existing row and return its derivation context.\<close>

definition bump_nonce :: "nat \<Rightarrow> db \<Rightarrow> (seed_ctx \<times> db) result" where
  "bump_nonce userId d = (case map_of (clientSeeds d) userId of
      None \<Rightarrow> Inl (Internal ''P2025'')
    | Some row \<Rightarrow>
        let updated = row\<lparr>cs_nonce := cs_nonce row + 1\<rparr>
        in Inr (\<lparr>ctx_serverSeed = cs_serverSeed updated, ctx_serverSeedHash = cs_serverSeedHash updated,
                 ctx_clientSeed = cs_clientSeed updated, ctx_nonce = cs_nonce updated\<rparr>, put_seed userId updated d))"

definition nextNonce :: "sha \<Rightarrow> fresh_seeds \<Rightarrow> nat \<Rightarrow> db \<Rightarrow> (nat \<times> db) result" where
  "nextNonce sha fs userId d =
     (let d1 = snd (getOrCreateActivePair sha fs userId d)
      in bindE (bump_nonce userId d1) (\<lambda>(ctx, d2). Inr (ctx_nonce ctx, d2)))"

definition reserveSeedContext :: "sha \<Rightarrow> fresh_seeds \<Rightarrow> nat \<Rightarrow> db \<Rightarrow> (seed_ctx \<times> db) result" where
  "reserveSeedContext sha fs userId d = bump_nonce userId (snd (getOrCreateActivePair sha fs userId d))"

definition consumeNonce :: "sha \<Rightarrow> fresh_seeds \<Rightarrow> nat \<Rightarrow> db \<Rightarrow> (seed_ctx \<times> db) result" where
  "consumeNonce sha fs userId d =
     (let d1 = (case map_of (clientSeeds d) userId of
                  Some _ \<Rightarrow> d | None \<Rightarrow> put_seed userId (mintPair sha fs) d)
      in bump_nonce userId d1)"

subsection \<open>Rows and the money view\<close>

definition seed_row_of :: "sha \<Rightarrow> fresh_seeds \<Rightarrow> nat \<Rightarrow> db \<Rightarrow> client_seed" where
  "seed_row_of sha fs uid d = (case map_of (clientSeeds d) uid of Some row \<Rightarrow> row | None \<Rightarrow> mintPair sha fs)"

lemma put_seed_simps [simp]:
  "map_of (clientSeeds (put_seed uid row d)) = (map_of (clientSeeds d))(uid \<mapsto> row)"
  "instantRounds (put_seed uid row d) = instantRounds d" "users (put_seed uid row d) = users d"
  "ledger (put_seed uid row d) = ledger d" "bets (put_seed uid row d) = bets d"
  "referrals (put_seed uid row d) = referrals d" "coinflipGames (put_seed uid row d) = coinflipGames d"
  "seeds (put_seed uid row d) = seeds d" "wagerLeaderboard (put_seed uid row d) = wagerLeaderboard d"
  by (simp_all add: put_seed_def)

lemma put_seed_twice: "put_seed uid r2 (put_seed uid r1 d) = put_seed uid r2 d"
  by (simp add: put_seed_def)

lemma getOrCreate_db: "snd (getOrCreateActivePair sha fs uid d) =
    (case map_of (clientSeeds d) uid of Some _ \<Rightarrow> d | None \<Rightarrow> put_seed uid (mintPair sha fs) d)"
  by (simp add: getOrCreateActivePair_def split: option.splits)

text \<open>The three ways to take a nonce are one and the same.\<close>

definition bumped :: "client_seed \<Rightarrow> client_seed" where
  "bumped row = row\<lparr>cs_nonce := cs_nonce row + 1\<rparr>"

definition ctx_of :: "client_seed \<Rightarrow> seed_ctx" where
  "ctx_of row = \<lparr>ctx_serverSeed = cs_serverSeed row, ctx_serverSeedHash = cs_serverSeedHash row,
     ctx_clientSeed = cs_clientSeed row, ctx_nonce = cs_nonce row\<rparr>"

lemma consumeNonce_eq: "consumeNonce sha fs uid d =
    (let row = bumped (seed_row_of sha fs uid d) in Inr (ctx_of row, put_seed uid row d))"
  by (auto simp: consumeNonce_def bump_nonce_def seed_row_of_def bumped_def ctx_of_def Let_def put_seed_twice
      split: option.splits)

lemma reserve_eq_consume: "reserveSeedContext sha fs uid d = consumeNonce sha fs uid d"
  by (simp add: reserveSeedContext_def consumeNonce_def getOrCreate_db)

lemma consumeNonce_same: "consumeNonce sha fs uid d = Inr (ctx, d') \<Longrightarrow> same_money d d'"
  by (auto simp: consumeNonce_eq Let_def intro!: same_moneyI)

subsection \<open>Commitments\<close>

definition committed :: "sha \<Rightarrow> client_seed \<Rightarrow> bool" where
  "committed sha row \<longleftrightarrow> cs_serverSeedHash row = commitServerSeed sha (cs_serverSeed row)
     \<and> cs_nextServerSeedHash row = commitServerSeed sha (cs_nextServerSeed row)"

definition all_committed :: "sha \<Rightarrow> db \<Rightarrow> bool" where
  "all_committed sha d \<longleftrightarrow> (\<forall>uid row. map_of (clientSeeds d) uid = Some row \<longrightarrow> committed sha row)"

lemma committed_mint [simp]: "committed sha (mintPair sha fs)"
  by (simp add: committed_def mintPair_def)

lemma committed_row: "all_committed sha d \<Longrightarrow> committed sha (seed_row_of sha fs uid d)"
  by (auto simp: all_committed_def seed_row_of_def split: option.splits)

lemma all_committed_put: "all_committed sha d \<Longrightarrow> committed sha row \<Longrightarrow> all_committed sha (put_seed uid row d)"
  by (auto simp: all_committed_def)

lemma setClientSeed_eq: "setClientSeed sha fs uid s d =
    (let t = js_trim s; row = (seed_row_of sha fs uid d)\<lparr>cs_clientSeed := t, cs_nonce := 0\<rparr> in
     if length t < 1 \<or> length t > 64 then (Inl (BadRequest ''clientSeed must be 1-64 characters''), d)
     else (Inr (seed_view row), put_seed uid row d))"
  by (auto simp: setClientSeed_def getOrCreate_db seed_row_of_def Let_def put_seed_twice split: option.splits)

lemma rotateServerSeed_eq: "rotateServerSeed sha fs nxt now uid d =
    (let row = seed_row_of sha fs uid d;
         row' = row\<lparr>cs_serverSeed := cs_nextServerSeed row, cs_serverSeedHash := cs_nextServerSeedHash row,
                cs_nextServerSeed := nxt, cs_nextServerSeedHash := commitServerSeed sha nxt,
                cs_nonce := 0, cs_rotatedAt := Some now\<rparr> in
     if has_active_round uid d
     then (Inl (Conflict ''Finish your in-progress round before rotating the server seed''),
           snd (getOrCreateActivePair sha fs uid d))
     else (Inr \<lparr>ro_revealedServerSeed = cs_serverSeed row, ro_serverSeedHash = cs_nextServerSeedHash row,
                ro_nextServerSeedHash = commitServerSeed sha nxt\<rparr>, put_seed uid row' d))"
  by (auto simp: rotateServerSeed_def getOrCreate_db seed_row_of_def has_active_round_def Let_def put_seed_twice
      split: option.splits)

lemma all_committed_consume:
  "all_committed sha d \<Longrightarrow> consumeNonce sha fs uid d = Inr (ctx, d') \<Longrightarrow>
     all_committed sha d' \<and> ctx_serverSeedHash ctx = commitServerSeed sha (ctx_serverSeed ctx)"
  using committed_row[of sha d fs uid]
  by (auto simp: consumeNonce_eq Let_def bumped_def ctx_of_def committed_def intro!: all_committed_put)

text \<open>
  Seeds are committed before use and revealed only when harmless. With every stored hash the hash of
  its seed, a rotation is refused exactly while the player has an active round, and then the stored
  pair is the one already published; otherwise the revealed seed hashes to the hash that was published
  as active, the new active hash is the one that was published as next, and all hashes stay correct,
  as they do when the client seed changes or a nonce is taken.
\<close>

theorem rotation_honest:
  assumes "all_committed sha d"
    and before_def: "before = fst (getOrCreateActivePair sha fs uid d)"
    and out_def: "out = rotateServerSeed sha fs nxt now uid d"
  shows "(has_active_round uid d \<longleftrightarrow> (\<exists>e. fst out = Inl e))
    \<and> (\<forall>r. fst out = Inr r \<longrightarrow> commitServerSeed sha (ro_revealedServerSeed r) = pv_serverSeedHash before
          \<and> ro_serverSeedHash r = pv_nextServerSeedHash before)
    \<and> (has_active_round uid d \<longrightarrow> fst (getOrCreateActivePair sha fs uid (snd out)) = before)
    \<and> all_committed sha (snd out) \<and> all_committed sha (snd (setClientSeed sha fs uid s d))"
proof -
  define row where "row = seed_row_of sha fs uid d"
  have row: "committed sha row" unfolding row_def by (rule committed_row[OF assms(1)])
  have before: "before = seed_view row"
    by (auto simp: before_def row_def getOrCreateActivePair_def seed_row_of_def split: option.splits)
  have created: "all_committed sha (snd (getOrCreateActivePair sha fs uid d))"
    using assms(1) by (auto simp: getOrCreate_db intro!: all_committed_put split: option.splits)
  have again: "fst (getOrCreateActivePair sha fs uid (snd (getOrCreateActivePair sha fs uid d))) = seed_view row"
    by (auto simp: getOrCreateActivePair_def row_def seed_row_of_def split: option.splits)
  have set: "all_committed sha (snd (setClientSeed sha fs uid s d))"
    using row assms(1) by (auto simp: setClientSeed_eq Let_def committed_def row_def intro!: all_committed_put)
  show ?thesis
  proof (cases "has_active_round uid d")
    case True
    then show ?thesis using created again set by (simp add: out_def rotateServerSeed_eq Let_def before)
  next
    case False
    then show ?thesis using row assms(1) set
      by (auto simp: out_def rotateServerSeed_eq Let_def before seed_view_def committed_def row_def[symmetric]
          intro!: all_committed_put)
  qed
qed

definition sample_row :: client_seed where
  "sample_row = \<lparr>cs_clientSeed = ''luck'', cs_nonce = 0, cs_serverSeed = ''a'', cs_serverSeedHash = ''h'',
     cs_nextServerSeed = ''b'', cs_nextServerSeedHash = ''i'', cs_rotatedAt = None\<rparr>"

definition sample_fresh :: fresh_seeds where
  "sample_fresh = \<lparr>fs_client = ''luck'', fs_server = ''a'', fs_next = ''b''\<rparr>"

theorem rotation_honest_witness:
  "fst (rotateServerSeed (\<lambda>bs. of_nat (length bs)) sample_fresh ''next'' 5 1 empty_db)
     = Inr \<lparr>ro_revealedServerSeed = ''a'', ro_serverSeedHash = commitServerSeed (\<lambda>bs. of_nat (length bs)) ''b'',
            ro_nextServerSeedHash = commitServerSeed (\<lambda>bs. of_nat (length bs)) ''next''\<rparr>
   \<and> all_committed (\<lambda>bs. of_nat (length bs))
        (snd (rotateServerSeed (\<lambda>bs. of_nat (length bs)) sample_fresh ''next'' 5 1 empty_db))"
proof -
  have "all_committed (\<lambda>bs. of_nat (length bs)) empty_db" by (simp add: all_committed_def empty_db_def)
  from rotation_honest[OF this refl refl, where fs = sample_fresh and uid = 1 and nxt = "''next''" and now = 5 and s = "''x''"]
  have "all_committed (\<lambda>bs. of_nat (length bs))
      (snd (rotateServerSeed (\<lambda>bs. of_nat (length bs)) sample_fresh ''next'' 5 1 empty_db))" by (elim conjE)
  then show ?thesis
    by (intro conjI) (simp add: rotateServerSeed_eq has_active_round_def seed_row_of_def mintPair_def sample_fresh_def Let_def)
qed

subsection \<open>No context is used twice\<close>

datatype seed_cmd = Take fresh_seeds | Rotate fresh_seeds string int

fun seed_run :: "sha \<Rightarrow> nat \<Rightarrow> seed_cmd list \<Rightarrow> db \<Rightarrow> seed_ctx list" where
  "seed_run sha uid [] d = []"
| "seed_run sha uid (Take fs # cmds) d =
     (case consumeNonce sha fs uid d of
        Inl _ \<Rightarrow> seed_run sha uid cmds d
      | Inr (ctx, d1) \<Rightarrow> ctx # seed_run sha uid cmds d1)"
| "seed_run sha uid (Rotate fs nxt now # cmds) d =
     seed_run sha uid cmds (snd (rotateServerSeed sha fs nxt now uid d))"

fun minted :: "seed_cmd list \<Rightarrow> string list" where
  "minted [] = []"
| "minted (Take fs # cmds) = minted cmds"
| "minted (Rotate fs nxt now # cmds) = nxt # minted cmds"

definition stream_key :: "seed_ctx \<Rightarrow> string \<times> string \<times> nat" where
  "stream_key c = (ctx_serverSeed c, ctx_clientSeed c, ctx_nonce c)"

lemma seed_run_fresh:
  assumes "map_of (clientSeeds d) uid = Some row"
    and "distinct (cs_serverSeed row # cs_nextServerSeed row # minted cmds)"
  shows "distinct (map stream_key (seed_run sha uid cmds d))
    \<and> (\<forall>c \<in> set (seed_run sha uid cmds d).
         ctx_serverSeed c = cs_serverSeed row \<and> cs_nonce row < ctx_nonce c
       \<or> ctx_serverSeed c \<in> set (cs_nextServerSeed row # minted cmds))"
  using assms
proof (induction cmds arbitrary: d row)
  case (Cons cmd cmds)
  show ?case
  proof (cases cmd)
    case (Take fs)
    have c: "consumeNonce sha fs uid d = Inr (ctx_of (bumped row), put_seed uid (bumped row) d)"
      by (simp add: consumeNonce_eq seed_row_of_def Cons.prems(1) Let_def)
    have row: "cs_serverSeed (bumped row) = cs_serverSeed row" "cs_nextServerSeed (bumped row) = cs_nextServerSeed row"
      "cs_nonce (bumped row) = cs_nonce row + 1" "ctx_serverSeed (ctx_of (bumped row)) = cs_serverSeed row"
      "ctx_nonce (ctx_of (bumped row)) = cs_nonce row + 1" by (simp_all add: bumped_def ctx_of_def)
    let ?rest = "seed_run sha uid cmds (put_seed uid (bumped row) d)"
    have "distinct (cs_serverSeed (bumped row) # cs_nextServerSeed (bumped row) # minted cmds)"
      using Cons.prems(2) by (simp add: row Take)
    from Cons.IH[OF _ this, of "put_seed uid (bumped row) d"]
    have IH: "distinct (map stream_key ?rest)"
      "\<And>c. c \<in> set ?rest \<Longrightarrow> ctx_serverSeed c = cs_serverSeed row \<and> cs_nonce row + 1 < ctx_nonce c
        \<or> ctx_serverSeed c \<in> set (cs_nextServerSeed row # minted cmds)" by (auto simp: row)
    have "stream_key (ctx_of (bumped row)) \<noteq> stream_key c" if "c \<in> set ?rest" for c
    proof
      assume "stream_key (ctx_of (bumped row)) = stream_key c"
      then have "ctx_serverSeed c = cs_serverSeed row" "ctx_nonce c = cs_nonce row + 1"
        by (simp_all add: stream_key_def row)
      then show False using IH(2)[OF that] Cons.prems(2) by (simp add: Take)
    qed
    then have "stream_key (ctx_of (bumped row)) \<notin> stream_key ` set ?rest" by (metis imageE)
    moreover have "ctx_serverSeed c = cs_serverSeed row \<and> cs_nonce row < ctx_nonce c
        \<or> ctx_serverSeed c \<in> set (cs_nextServerSeed row # minted cmds)" if "c \<in> set ?rest" for c
      using IH(2)[OF that] by auto
    ultimately show ?thesis using IH(1) by (simp add: Take c row)
  next
    case (Rotate fs nxt now)
    show ?thesis
    proof (cases "has_active_round uid d")
      case True
      then have "snd (rotateServerSeed sha fs nxt now uid d) = d"
        by (simp add: rotateServerSeed_eq getOrCreate_db Cons.prems(1) Let_def)
      then show ?thesis using Cons.IH[OF Cons.prems(1)] Cons.prems(2) by (auto simp: Rotate)
    next
      case False
      define row' where "row' = row\<lparr>cs_serverSeed := cs_nextServerSeed row, cs_serverSeedHash := cs_nextServerSeedHash row,
                cs_nextServerSeed := nxt, cs_nextServerSeedHash := commitServerSeed sha nxt,
                cs_nonce := 0, cs_rotatedAt := Some now\<rparr>"
      have d': "snd (rotateServerSeed sha fs nxt now uid d) = put_seed uid row' d"
        using False by (simp add: rotateServerSeed_eq row'_def seed_row_of_def Cons.prems(1) Let_def)
      have "distinct (cs_serverSeed row' # cs_nextServerSeed row' # minted cmds)"
        using Cons.prems(2) by (simp add: row'_def Rotate)
      from Cons.IH[OF _ this, of "put_seed uid row' d"] show ?thesis by (auto simp: Rotate d' row'_def)
    qed
  qed
qed simp

text \<open>
  No two bets share a derivation context. However nonces are taken and seeds rotated, with rotation
  refused or not, as long as the minted server seeds differ from each other and from the active pair,
  the triples of server seed, client seed and nonce handed out are pairwise distinct.
\<close>

theorem contexts_never_repeat:
  assumes "map_of (clientSeeds d) uid = Some row"
    and "distinct (cs_serverSeed row # cs_nextServerSeed row # minted cmds)"
  shows "distinct (map stream_key (seed_run sha uid cmds d))"
  using seed_run_fresh[OF assms] by blast

definition sample_seeds_db :: db where
  "sample_seeds_db = empty_db\<lparr>clientSeeds := [(1, sample_row)]\<rparr>"

theorem contexts_never_repeat_witness:
  "map stream_key (seed_run (\<lambda>_. 0) 1 [Take sample_fresh, Rotate sample_fresh ''x'' 9, Take sample_fresh] sample_seeds_db)
     = [(''a'', ''luck'', 1), (''b'', ''luck'', 1)]
   \<and> distinct (map stream_key (seed_run (\<lambda>_. 0) 1 [Take sample_fresh, Rotate sample_fresh ''x'' 9, Take sample_fresh] sample_seeds_db))"
proof
  let ?cmds = "[Take sample_fresh, Rotate sample_fresh ''x'' 9, Take sample_fresh]"
  show "map stream_key (seed_run (\<lambda>_. 0) 1 ?cmds sample_seeds_db) = [(''a'', ''luck'', 1), (''b'', ''luck'', 1)]"
    by (simp add: consumeNonce_eq rotateServerSeed_eq seed_row_of_def sample_seeds_db_def sample_row_def Let_def
        has_active_round_def empty_db_def bumped_def ctx_of_def stream_key_def)
  show "distinct (map stream_key (seed_run (\<lambda>_. 0) 1 ?cmds sample_seeds_db))"
    by (rule contexts_never_repeat[of _ _ sample_row]) (simp_all add: sample_seeds_db_def sample_row_def)
qed

text \<open>
  Changing the client seed breaks this: \<open>setClientSeed\<close> resets the nonce but keeps the active server
  seed, so a player who sets the seed already in use gets the very contexts of the earlier bets again,
  and with them the same, now known, outcomes.
\<close>

theorem client_seed_reset_replays:
  assumes "map_of (clientSeeds d) uid = Some row" and "cs_nonce row = 0"
    and "js_trim (cs_clientSeed row) = cs_clientSeed row" and "length (cs_clientSeed row) \<in> {1..64}"
    and "consumeNonce sha fs uid d = Inr (c1, d1)"
    and "setClientSeed sha fs uid (cs_clientSeed row) d1 = (out, d2)"
    and "consumeNonce sha fs uid d2 = Inr (c2, d3)"
  shows "c2 = c1 \<and> (\<exists>v. out = Inr v)"
proof -
  have d1: "d1 = put_seed uid (bumped row) d" and c1: "c1 = ctx_of (bumped row)"
    using assms(1,5) by (simp_all add: consumeNonce_eq seed_row_of_def Let_def)
  define row' where "row' = (bumped row)\<lparr>cs_clientSeed := cs_clientSeed row, cs_nonce := 0\<rparr>"
  have same: "row' = row" using assms(2) by (simp add: row'_def bumped_def)
  have "setClientSeed sha fs uid (cs_clientSeed row) d1 = (Inr (seed_view row'), put_seed uid row' d1)"
    using assms(3,4) by (auto simp: setClientSeed_eq d1 seed_row_of_def Let_def row'_def bumped_def)
  then have "d2 = put_seed uid row d1" "out = Inr (seed_view row)" using assms(6) same by simp_all
  then show ?thesis using assms(7) by (simp add: consumeNonce_eq seed_row_of_def Let_def c1)
qed

theorem client_seed_reset_replays_witness:
  "\<exists>c v d1 d2 d3. consumeNonce (\<lambda>_. 0) sample_fresh 1 sample_seeds_db = Inr (c, d1)
     \<and> setClientSeed (\<lambda>_. 0) sample_fresh 1 ''luck'' d1 = (Inr v, d2)
     \<and> consumeNonce (\<lambda>_. 0) sample_fresh 1 d2 = Inr (c, d3)"
proof -
  obtain c1 d1 where 1: "consumeNonce (\<lambda>_. 0) sample_fresh 1 sample_seeds_db = Inr (c1, d1)"
    by (simp add: consumeNonce_eq Let_def)
  obtain r d2 where 2: "setClientSeed (\<lambda>_. 0) sample_fresh 1 (cs_clientSeed sample_row) d1 = (r, d2)" by force
  obtain c2 d3 where 3: "consumeNonce (\<lambda>_. 0) sample_fresh 1 d2 = Inr (c2, d3)"
    by (simp add: consumeNonce_eq Let_def)
  have "js_trim (cs_clientSeed sample_row) = cs_clientSeed sample_row" by code_simp
  from client_seed_reset_replays[OF _ _ this _ 1 2 3]
  have "c2 = c1 \<and> (\<exists>v. r = Inr v)" by (simp add: sample_seeds_db_def sample_row_def)
  then show ?thesis using 1 2 3 by (auto simp: sample_row_def)
qed

end
