(* ===== verification/Proof_Of_Wager.thy ===== *)
theory Proof_Of_Wager
  imports Ledger Shared_Money Fair_Core
begin

text \<open>
  \<open>apps/api/src/proof-of-wager/proof-of-wager.service.ts\<close>: the leaderboard buckets every settlement feeds,
  the accrual multiplier, and the emission counter with its cache. The service object is the record
  \<open>pow_state\<close>. Failures of the cache refreshes are an argument: \<open>None\<close> is a read that threw.
\<close>

subsection \<open>Period keys\<close>

text \<open>
  The proleptic Gregorian calendar of JavaScript's \<open>Date\<close>, in days since 1970-01-01, counted from March
  so that the leap day is the last day of its year.
\<close>

definition civil_of_days :: "int \<Rightarrow> int \<times> int \<times> int" where
  "civil_of_days z =
     (let z = z + 719468; era = z div 146097; doe = z mod 146097;
          yoe = (doe - doe div 1460 + doe div 36524 - doe div 146096) div 365;
          doy = doe - (365 * yoe + yoe div 4 - yoe div 100);
          mp = (5 * doy + 2) div 153;
          dd = doy - (153 * mp + 2) div 5 + 1;
          mm = (if mp < 10 then mp + 3 else mp - 9)
      in (yoe + era * 400 + (if mm \<le> 2 then 1 else 0), mm, dd))"

definition days_of_civil :: "int \<Rightarrow> int \<Rightarrow> int \<Rightarrow> int" where
  "days_of_civil y mm dd =
     (let y = (if mm \<le> 2 then y - 1 else y); era = y div 400; yoe = y mod 400;
          doy = (153 * (if mm > 2 then mm - 3 else mm + 9) + 2) div 5 + dd - 1;
          doe = yoe * 365 + yoe div 4 - yoe div 100 + doy
      in era * 146097 + doe - 719468)"

definition pad2 :: "int \<Rightarrow> string" where
  "pad2 n = (let s = decimal (nat n) in if length s < 2 then ''0'' @ s else s)"

definition MS_PER_DAY :: int where "MS_PER_DAY = 86400000"

definition periodKeys :: "int \<Rightarrow> string \<times> string" where
  "periodKeys now =
     (let day = now div MS_PER_DAY;
          (y, mm, dd) = civil_of_days day;
          daily = ''daily:'' @ decimal (nat y) @ pad2 mm @ pad2 dd;
          dayNum = (day + 3) mod 7;
          thursday = day - dayNum + 3;
          thursdayYear = fst (civil_of_days thursday);
          firstThursday = days_of_civil thursdayYear 1 4;
          week = 1 + js_round (fl (of_int ((thursday - firstThursday) * MS_PER_DAY) / of_int (7 * MS_PER_DAY)))
      in (daily, ''weekly:'' @ decimal (nat thursdayYear) @ pad2 week))"

lemma periodKeys_day: "now div MS_PER_DAY = now' div MS_PER_DAY \<Longrightarrow> periodKeys now = periodKeys now'"
  by (simp add: periodKeys_def)

text \<open>Every day of a week that starts on Monday has the same weekly key.\<close>

lemma periodKeys_week:
  assumes "(now div MS_PER_DAY + 3) div 7 = (now' div MS_PER_DAY + 3) div 7"
  shows "snd (periodKeys now) = snd (periodKeys now')"
proof -
  have th: "z - (z + 3) mod 7 + 3 = 7 * ((z + 3) div 7)" for z :: int
    by (simp add: minus_mod_eq_mult_div[symmetric])
  show ?thesis
    by (simp add: periodKeys_def th assms Let_def split: prod.splits)
qed

subsection \<open>accrue\<close>

definition upsert_board :: "string \<Rightarrow> nat \<Rightarrow> int \<Rightarrow> db \<Rightarrow> db" where
  "upsert_board period uid stake d = d\<lparr>wagerLeaderboard :=
     AList.update (period, uid)
       ((case map_of (wagerLeaderboard d) (period, uid) of None \<Rightarrow> 0 | Some w \<Rightarrow> w) + stake) (wagerLeaderboard d)\<rparr>"

definition accrue :: "int \<Rightarrow> nat \<Rightarrow> int \<Rightarrow> db \<Rightarrow> int \<times> db" where
  "accrue now userId stakeLamports d =
     (if stakeLamports \<le> 0 then (0, d)
      else let (daily, weekly) = periodKeys now
           in (0, upsert_board weekly userId stakeLamports (upsert_board daily userId stakeLamports d)))"

lemma upsert_board_frame [simp]:
  "users (upsert_board p u s d) = users d" "ledger (upsert_board p u s d) = ledger d"
  "bets (upsert_board p u s d) = bets d" "referrals (upsert_board p u s d) = referrals d"
  "clientSeeds (upsert_board p u s d) = clientSeeds d" "instantRounds (upsert_board p u s d) = instantRounds d"
  "coinflipGames (upsert_board p u s d) = coinflipGames d" "seeds (upsert_board p u s d) = seeds d"
  by (simp_all add: upsert_board_def)

lemma accrue_frame [simp]:
  "users (snd (accrue now u s d)) = users d" "ledger (snd (accrue now u s d)) = ledger d"
  "bets (snd (accrue now u s d)) = bets d" "referrals (snd (accrue now u s d)) = referrals d"
  "clientSeeds (snd (accrue now u s d)) = clientSeeds d" "instantRounds (snd (accrue now u s d)) = instantRounds d"
  "coinflipGames (snd (accrue now u s d)) = coinflipGames d" "seeds (snd (accrue now u s d)) = seeds d"
  by (simp_all add: accrue_def Let_def split: prod.splits)

lemma accrue_same: "same_money d (snd (accrue now u s d))"
  by (rule same_moneyI) simp_all

definition board :: "db \<Rightarrow> string \<Rightarrow> nat \<Rightarrow> int" where
  "board d period uid = (case map_of (wagerLeaderboard d) (period, uid) of None \<Rightarrow> 0 | Some w \<Rightarrow> w)"

lemma board_upsert: "board (upsert_board p u s d) q v = board d q v + (if q = p \<and> v = u then s else 0)"
  by (auto simp: board_def upsert_board_def split: option.splits)

lemma daily_not_weekly: "fst (periodKeys now) \<noteq> snd (periodKeys now')"
  by (simp add: periodKeys_def Let_def split: prod.splits)

lemma board_accrue:
  assumes "0 < s"
  shows "board (snd (accrue now u s d)) q v =
    board d q v + (if v = u \<and> (q = fst (periodKeys now) \<or> q = snd (periodKeys now)) then s else 0)"
  using assms daily_not_weekly[of now now]
  by (cases "periodKeys now") (auto simp: accrue_def board_upsert)

subsection \<open>Multipliers\<close>

definition WAGER_TIERS :: "(int \<times> rat) list" where
  "WAGER_TIERS = [(0, 1), (10 * LAMPORTS_PER_SOL, fl (11 / 10)), (100 * LAMPORTS_PER_SOL, fl (125 / 100)),
     (1000 * LAMPORTS_PER_SOL, fl (15 / 10))]"

definition MAX_MULTIPLIER :: rat where "MAX_MULTIPLIER = 5"

definition tierMultiplier :: "int \<Rightarrow> rat" where
  "tierMultiplier lifetimeWagered =
     foldl (\<lambda>mult (threshold, tier). if lifetimeWagered \<ge> threshold then tier else mult) 1 WAGER_TIERS"

definition effectiveMultiplier :: "int \<Rightarrow> rat \<Rightarrow> rat" where
  "effectiveMultiplier lifetimeWagered campaignMult =
     min (fl (tierMultiplier lifetimeWagered * campaignMult)) MAX_MULTIPLIER"

record campaign =
  wc_multiplier :: rat
  wc_gameType :: "game option"
  wc_startsAt :: int
  wc_endsAt :: int
  wc_active :: bool

record pow_state =
  campaignCache :: "campaign list"
  campaignCacheAt :: int
  cachedEmitted :: int
  cachedEmittedAt :: int
  pendingEmitted :: int

definition CACHE_TTL_MS :: int where "CACHE_TTL_MS = 60000"

fun best_campaign :: "int \<Rightarrow> game option \<Rightarrow> campaign list \<Rightarrow> rat \<Rightarrow> rat" where
  "best_campaign now g [] best = best"
| "best_campaign now g (c # cs) best =
     (if \<not> wc_active c then best_campaign now g cs best
      else if wc_startsAt c > now \<or> wc_endsAt c < now then best_campaign now g cs best
      else if wc_gameType c \<noteq> None \<and> wc_gameType c \<noteq> g then best_campaign now g cs best
      else best_campaign now g cs (if wc_multiplier c > best then wc_multiplier c else best))"

definition campaignMultiplier :: "int \<Rightarrow> game option \<Rightarrow> campaign list option \<Rightarrow> pow_state \<Rightarrow> rat \<times> pow_state" where
  "campaignMultiplier now gameType activeRows st =
     (let st1 = (if now - campaignCacheAt st > CACHE_TTL_MS
                 then (case activeRows of
                         None \<Rightarrow> st
                       | Some cs \<Rightarrow> st\<lparr>campaignCache := cs, campaignCacheAt := now\<rparr>)
                 else st)
      in (best_campaign now gameType (campaignCache st1) 1, st1))"

lemma best_campaign_ge: "best \<le> best_campaign now g cs best"
  by (induction cs arbitrary: best) (auto intro: order_trans[OF less_imp_le])

lemma best_campaign_in: "best_campaign now g cs best = best \<or>
    (\<exists>c \<in> set cs. wc_active c \<and> wc_startsAt c \<le> now \<and> now \<le> wc_endsAt c
       \<and> (wc_gameType c = None \<or> wc_gameType c = g) \<and> best_campaign now g cs best = wc_multiplier c)"
proof (induction cs arbitrary: best)
  case (Cons c cs)
  then show ?case
  proof (cases "wc_active c \<and> \<not> (wc_startsAt c > now \<or> wc_endsAt c < now) \<and> \<not> (wc_gameType c \<noteq> None \<and> wc_gameType c \<noteq> g)")
    case True
    then show ?thesis using Cons.IH[of best] Cons.IH[of "wc_multiplier c"] by (auto simp: not_less)
  next
    case False
    then have "best_campaign now g (c # cs) best = best_campaign now g cs best" by auto
    then show ?thesis using Cons.IH[of best] by auto
  qed
qed simp

lemma best_campaign_upper:
  assumes "c \<in> set cs" "wc_active c" "wc_startsAt c \<le> now" "now \<le> wc_endsAt c"
    "wc_gameType c = None \<or> wc_gameType c = g"
  shows "wc_multiplier c \<le> best_campaign now g cs best"
  using assms(1)
proof (induction cs arbitrary: best)
  case (Cons x cs)
  show ?case
  proof (cases "x = c")
    case True
    then have "best_campaign now g (x # cs) best = best_campaign now g cs (if wc_multiplier c > best then wc_multiplier c else best)"
      using assms(2-5) by auto
    then show ?thesis using best_campaign_ge[of "wc_multiplier c" now g cs] best_campaign_ge[of best now g cs] by auto
  next
    case False
    then show ?thesis using Cons by auto
  qed
qed simp

subsection \<open>The emission counter\<close>

text \<open>
  \<open>refreshEmission\<close> flushes the buffer and re-reads the persisted total. \<open>ok\<close> is false when the database
  call throws: then nothing changes. Concurrent callers share one refresh, so it is one step.
\<close>

definition refreshEmission :: "bool \<Rightarrow> int \<Rightarrow> pow_state \<times> db \<Rightarrow> pow_state \<times> db" where
  "refreshEmission ok now = (\<lambda>(st, d).
     if \<not> ok then (st, d)
     else
       let (st1, d1) =
             (if pendingEmitted st > 0
              then (st\<lparr>pendingEmitted := pendingEmitted st - pendingEmitted st\<rparr>,
                    d\<lparr>totalEmittedScad := Some ((case totalEmittedScad d of None \<Rightarrow> 0 | Some t \<Rightarrow> t) + pendingEmitted st)\<rparr>)
              else (st, d))
       in (st1\<lparr>cachedEmitted := (case totalEmittedScad d1 of None \<Rightarrow> 0 | Some t \<Rightarrow> t), cachedEmittedAt := now\<rparr>, d1))"

definition effectiveEmitted :: "bool \<Rightarrow> int \<Rightarrow> pow_state \<times> db \<Rightarrow> int \<times> pow_state \<times> db" where
  "effectiveEmitted ok now s =
     (let stale = (cachedEmittedAt (fst s) = 0 \<or> now - cachedEmittedAt (fst s) > CACHE_TTL_MS);
          (st1, d1) = (if stale then refreshEmission ok now s else s)
      in (cachedEmitted st1 + pendingEmitted st1, st1, d1))"

definition totalEmitted :: "bool \<Rightarrow> int \<Rightarrow> pow_state \<times> db \<Rightarrow> int \<times> pow_state \<times> db" where
  "totalEmitted = effectiveEmitted"

record earn_rate =
  er_baseRewardPerLamport :: int
  er_tierMultiplier :: rat
  er_campaignMultiplier :: rat
  er_effectiveMultiplier :: rat
  er_scadPerSolWagered :: int

definition earnRate :: "bool \<Rightarrow> int \<Rightarrow> campaign list option \<Rightarrow> nat \<Rightarrow> game option \<Rightarrow> pow_state \<times> db
    \<Rightarrow> earn_rate \<times> pow_state \<times> db" where
  "earnRate ok now rows userId gameType s =
     (let (campaignMult, st1) = campaignMultiplier now gameType rows (fst s);
          lifetimeWagered = (case map_of (users (snd s)) userId of None \<Rightarrow> 0 | Some u \<Rightarrow> totalWagered u);
          multiplier = effectiveMultiplier lifetimeWagered campaignMult;
          (emitted, s2) = totalEmitted ok now (st1, snd s);
          (_, ratePerLamport, _) = emissionPhaseFor emitted;
          base = LAMPORTS_PER_SOL * ratePerLamport;
          scaled = js_round (fl (multiplier * 1000))
      in (\<lparr>er_baseRewardPerLamport = ratePerLamport, er_tierMultiplier = tierMultiplier lifetimeWagered,
           er_campaignMultiplier = campaignMult, er_effectiveMultiplier = multiplier,
           er_scadPerSolWagered = bigint_div (base * scaled) 1000\<rparr>, s2))"

text \<open>A refresh never loses or invents emission: persisted plus buffered stays the same.\<close>

definition emission_sum :: "pow_state \<times> db \<Rightarrow> int" where
  "emission_sum s = (case totalEmittedScad (snd s) of None \<Rightarrow> 0 | Some t \<Rightarrow> t) + pendingEmitted (fst s)"

lemma refresh_keeps_emission: "emission_sum (refreshEmission ok now s) = emission_sum s"
  by (cases s) (auto simp: refreshEmission_def emission_sum_def split: option.splits)

lemma refresh_exact:
  assumes "0 \<le> pendingEmitted (fst s)"
  shows "cachedEmitted (fst (refreshEmission True now s)) + pendingEmitted (fst (refreshEmission True now s)) = emission_sum s"
  using assms by (cases s) (auto simp: refreshEmission_def emission_sum_def split: option.splits)

lemma tierMultiplier_mono: "a \<le> b \<Longrightarrow> tierMultiplier a \<le> tierMultiplier b"
proof -
  assume ab: "a \<le> b"
  have "(1::rat) \<le> fl (11 / 10)" "fl (11 / 10) \<le> (fl (125 / 100) :: rat)" "fl (125 / 100) \<le> (fl (15 / 10) :: rat)"
    by code_simp+
  then show ?thesis using ab
    by (auto simp: tierMultiplier_def WAGER_TIERS_def LAMPORTS_PER_SOL_def)
qed

text \<open>
  The wager multiplier is bounded and driven by the rules alone: it never exceeds five, grows with
  lifetime wagering, uses the best campaign that is active now and covers the game, and no campaign
  makes it smaller than having none.
\<close>

theorem wager_multiplier_sound:
  assumes "campaignCacheAt st + CACHE_TTL_MS < now" and "a \<le> b"
    and "campaignMultiplier now g (Some cs) st = (m, st')"
  shows "effectiveMultiplier a m \<le> effectiveMultiplier b m \<and> effectiveMultiplier b m \<le> MAX_MULTIPLIER
    \<and> 1 \<le> m
    \<and> (m = 1 \<or> (\<exists>c \<in> set cs. wc_active c \<and> wc_startsAt c \<le> now \<and> now \<le> wc_endsAt c
          \<and> (wc_gameType c = None \<or> wc_gameType c = g) \<and> m = wc_multiplier c))
    \<and> (\<forall>c \<in> set cs. wc_active c \<and> wc_startsAt c \<le> now \<and> now \<le> wc_endsAt c
          \<and> (wc_gameType c = None \<or> wc_gameType c = g) \<longrightarrow> wc_multiplier c \<le> m)"
proof -
  have m: "m = best_campaign now g cs 1"
    using assms(1,3) by (simp add: campaignMultiplier_def Let_def)
  have "1 \<le> m" unfolding m by (rule best_campaign_ge)
  then have "fl (tierMultiplier a * m) \<le> fl (tierMultiplier b * m)"
    using tierMultiplier_mono[OF assms(2)] by (intro fl_mono mult_right_mono) auto
  then have "effectiveMultiplier a m \<le> effectiveMultiplier b m" by (simp add: effectiveMultiplier_def)
  moreover have "effectiveMultiplier b m \<le> MAX_MULTIPLIER" by (simp add: effectiveMultiplier_def)
  ultimately show ?thesis
    using \<open>1 \<le> m\<close> best_campaign_in[of now g cs 1] best_campaign_upper[of _ cs now g 1] unfolding m by blast
qed

definition sample_campaign :: campaign where
  "sample_campaign = \<lparr>wc_multiplier = 2, wc_gameType = Some Dice, wc_startsAt = 0, wc_endsAt = 200000, wc_active = True\<rparr>"

definition sample_pow :: pow_state where
  "sample_pow = \<lparr>campaignCache = [], campaignCacheAt = 0, cachedEmitted = 0, cachedEmittedAt = 0, pendingEmitted = 0\<rparr>"

theorem wager_multiplier_sound_witness:
  "fst (campaignMultiplier 100000 (Some Dice) (Some [sample_campaign]) sample_pow) = 2
     \<and> effectiveMultiplier 5 2 \<le> effectiveMultiplier 7 2"
proof -
  have m: "campaignMultiplier 100000 (Some Dice) (Some [sample_campaign]) sample_pow
      = (2, sample_pow\<lparr>campaignCache := [sample_campaign], campaignCacheAt := 100000\<rparr>)"
    by (simp add: campaignMultiplier_def sample_campaign_def sample_pow_def CACHE_TTL_MS_def)
  have "campaignCacheAt sample_pow + CACHE_TTL_MS < 100000" by (simp add: sample_pow_def CACHE_TTL_MS_def)
  from wager_multiplier_sound[OF this _ m, of 5 7] show ?thesis by (simp add: m)
qed

end
