(* ===== verification/Responsible_Gambling.thy ===== *)
theory Responsible_Gambling
  imports Ledger Proof_Of_Wager
begin

text \<open>
  \<open>apps/api/src/responsible-gambling/rg.service.ts\<close>: daily limits, cooling-off and self-exclusion, with
  \<open>games/coinflip/cancel-open-flip.ts\<close>, which a block uses to refund the player's open flips. The
  maintenance switch, the real-money switch and the clock are arguments. An operation that commits in
  several transactions returns its outcome next to the database it leaves.
\<close>

subsection \<open>cancelOpenFlip\<close>

definition claim_flip :: "(coinflip_game \<Rightarrow> bool) \<Rightarrow> (coinflip_game \<Rightarrow> coinflip_game) \<Rightarrow> nat \<Rightarrow> db \<Rightarrow> nat \<times> db" where
  "claim_flip p f gameId d = (case map_of (coinflipGames d) gameId of
      None \<Rightarrow> (0, d)
    | Some g \<Rightarrow> if p g then (1, d\<lparr>coinflipGames := AList.update gameId (f g) (coinflipGames d)\<rparr>) else (0, d))"

definition cancelOpenFlip :: "int \<Rightarrow> nat \<Rightarrow> db \<Rightarrow> (bool \<times> db) result" where
  "cancelOpenFlip now gameId d =
     (let (claimed, d1) = claim_flip (\<lambda>g. cf_status g = FlipOpen)
            (\<lambda>g. g\<lparr>cf_status := FlipCancelled, cf_resolvedAt := Some now\<rparr>) gameId d
      in if claimed = 0 then Inr (False, d1)
         else case map_of (coinflipGames d1) gameId of
           None \<Rightarrow> Inl (Internal ''P2025'')
         | Some g \<Rightarrow>
             bindE (applyBalanceDelta (cf_creatorId g) (cf_amountLamports g)
                 ((jeton_meta ''refund'' ''CoinflipGame'')\<lparr>refId := Some gameId\<rparr>) d1)
               (\<lambda>(_, d2). Inr (True, d2)))"

lemma cancelOpenFlip_cases:
  assumes "cancelOpenFlip now gid d = Inr (b, d')"
  obtains "\<not> b" "d' = d" "\<And>g. map_of (coinflipGames d) gid = Some g \<Longrightarrow> cf_status g \<noteq> FlipOpen"
  | g x where "b" "map_of (coinflipGames d) gid = Some g" "cf_status g = FlipOpen"
      "applyBalanceDelta (cf_creatorId g) (cf_amountLamports g) ((jeton_meta ''refund'' ''CoinflipGame'')\<lparr>refId := Some gid\<rparr>)
         (d\<lparr>coinflipGames := AList.update gid (g\<lparr>cf_status := FlipCancelled, cf_resolvedAt := Some now\<rparr>) (coinflipGames d)\<rparr>)
       = Inr (x, d')"
proof (cases "map_of (coinflipGames d) gid")
  case None
  then show thesis using assms that(1) by (simp add: cancelOpenFlip_def claim_flip_def)
next
  case (Some g)
  show thesis
  proof (cases "cf_status g = FlipOpen")
    case True
    then show thesis using assms Some that(2)[of g] by (auto simp: cancelOpenFlip_def claim_flip_def Let_def)
  next
    case False
    then show thesis using assms Some that(1) by (auto simp: cancelOpenFlip_def claim_flip_def)
  qed
qed

definition cancel_journal :: "nat \<Rightarrow> db \<Rightarrow> bool \<Rightarrow> posting list" where
  "cancel_journal gid d b = (case map_of (coinflipGames d) gid of
     Some g \<Rightarrow> if b then [(cf_creatorId g, Jeton, cf_amountLamports g)] else [] | None \<Rightarrow> [])"

lemma cancelOpenFlip_posts:
  assumes "cancelOpenFlip now gid d = Inr (b, d')"
  shows "posts (cancel_journal gid d b) d d'"
  using assms
proof (cases rule: cancelOpenFlip_cases)
  case 1
  then show ?thesis by (simp add: cancel_journal_def split: option.splits)
next
  case (2 g x)
  have "posts [] d (d\<lparr>coinflipGames := AList.update gid (g\<lparr>cf_status := FlipCancelled, cf_resolvedAt := Some now\<rparr>) (coinflipGames d)\<rparr>)"
    by (simp add: posts_Nil same_moneyI)
  from posts_trans[OF this applyBalanceDelta_posts[OF 2(4)]] show ?thesis by (simp add: cancel_journal_def 2)
qed

lemma cancelOpenFlip_games:
  assumes "cancelOpenFlip now gid d = Inr (b, d')"
  shows "map_of (coinflipGames d') = (case map_of (coinflipGames d) gid of
      Some g \<Rightarrow> if b then (map_of (coinflipGames d))(gid \<mapsto> g\<lparr>cf_status := FlipCancelled, cf_resolvedAt := Some now\<rparr>)
                else map_of (coinflipGames d) | None \<Rightarrow> map_of (coinflipGames d))"
    and "b \<longleftrightarrow> (\<exists>g. map_of (coinflipGames d) gid = Some g \<and> cf_status g = FlipOpen)"
  using assms by (cases rule: cancelOpenFlip_cases; auto simp: applyBalanceDelta_frame split: option.splits)+

interpretation flip_cancel: money_command "\<lambda>(now, gid). cancelOpenFlip now gid" "\<lambda>(now, gid). cancel_journal gid"
  by unfold_locales (auto intro: cancelOpenFlip_posts)

subsection \<open>The wager gate\<close>

definition startOfUtcDay :: "int \<Rightarrow> int" where
  "startOfUtcDay now = now div MS_PER_DAY * MS_PER_DAY"

definition pendingStakes :: "nat \<Rightarrow> db \<Rightarrow> int" where
  "pendingStakes userId d =
     sum_list (map (cf_amountLamports \<circ> snd)
       (filter (\<lambda>(_, g). cf_creatorId g = userId \<and> cf_status g = FlipOpen) (coinflipGames d)))
     + sum_list (map (lt_costLamports \<circ> snd)
         (filter (\<lambda>(_, t). lt_userId t = userId
            \<and> (case map_of (lotteryDraws d) (lt_drawId t) of Some r \<Rightarrow> ld_status r = DrawOpen | None \<Rightarrow> False)) (lotteryTickets d)))"

definition bets_since :: "nat \<Rightarrow> int \<Rightarrow> db \<Rightarrow> bet list" where
  "bets_since userId from d = filter (\<lambda>b. b_userId b = userId \<and> from \<le> b_createdAt b) (bets d)"

record wager_env =
  paused :: bool
  realMoneyEnabled :: bool
  now_ms :: int

definition assertCanWager :: "wager_env \<Rightarrow> nat \<Rightarrow> int \<Rightarrow> db \<Rightarrow> unit result" where
  "assertCanWager env userId amount d =
     (if paused env then Inl (ServiceUnavailable ''Wagering is paused for maintenance'')
      else case map_of (users d) userId of
        None \<Rightarrow> Inl (Internal ''P2025'')
      | Some u \<Rightarrow>
        if realMoneyEnabled env \<and> ageConfirmedAt u = None then Inl (Forbidden ''Age verification required'')
        else if (case selfExcludedUntil u of Some t \<Rightarrow> t > now_ms env | None \<Rightarrow> False)
          then Inl (Forbidden ''Self-excluded until'')
        else if (case coolOffUntil u of Some t \<Rightarrow> t > now_ms env | None \<Rightarrow> False)
          then Inl (Forbidden ''Cooling-off until'')
        else if amount \<le> 0 then Inr ()
        else if dailyWagerLimitLamports u = None \<and> dailyLossLimitLamports u = None then Inr ()
        else
          let today = bets_since userId (startOfUtcDay (now_ms env)) d;
              wagered = sum_list (map b_amountLamports today) + pendingStakes userId d;
              paid = sum_list (map b_payoutLamports today)
          in if (case dailyWagerLimitLamports u of Some limit \<Rightarrow> wagered + amount > limit | None \<Rightarrow> False)
               then Inl (Forbidden ''Daily wager limit reached'')
             else if (case dailyLossLimitLamports u of
                  Some limit \<Rightarrow> (if wagered - paid > 0 then wagered - paid else 0) + amount > limit | None \<Rightarrow> False)
               then Inl (Forbidden ''Daily loss limit reached'')
             else Inr ())"

datatype deposit_block = Blocked_paused | Blocked_age_unverified | Blocked_deposit_limit

definition depositBlock :: "wager_env \<Rightarrow> nat \<Rightarrow> int \<Rightarrow> db \<Rightarrow> deposit_block option result" where
  "depositBlock env userId amount d =
     (if paused env then Inr (Some Blocked_paused)
      else case map_of (users d) userId of
        None \<Rightarrow> Inl (Internal ''P2025'')
      | Some u \<Rightarrow>
        if realMoneyEnabled env \<and> ageConfirmedAt u = None then Inr (Some Blocked_age_unverified)
        else case dailyDepositLimitLamports u of
          None \<Rightarrow> Inr None
        | Some limit \<Rightarrow>
            let today = sum_list (map (ct_amountLamports \<circ> snd) (filter (\<lambda>(_, t). ct_userId t = Some userId \<and> ct_kind t = Deposit
                  \<and> ct_status t = Credited \<and> (case ct_settledAt t of Some s \<Rightarrow> startOfUtcDay (now_ms env) \<le> s | None \<Rightarrow> False))
                  (custodyTransfers d)))
            in Inr (if today + amount > limit then Some Blocked_deposit_limit else None))"

subsection \<open>Limits and blocks\<close>

record rg_state =
  rs_selfExcludedUntil :: "int option"
  rs_coolOffUntil :: "int option"
  rs_dailyDeposit :: "int option"
  rs_dailyLoss :: "int option"
  rs_dailyWager :: "int option"

definition rg_view :: "nat \<Rightarrow> db \<Rightarrow> rg_state result" where
  "rg_view userId d = (case map_of (users d) userId of
      None \<Rightarrow> Inl (Internal ''P2025'')
    | Some u \<Rightarrow> Inr \<lparr>rs_selfExcludedUntil = selfExcludedUntil u, rs_coolOffUntil = coolOffUntil u,
        rs_dailyDeposit = dailyDepositLimitLamports u, rs_dailyLoss = dailyLossLimitLamports u,
        rs_dailyWager = dailyWagerLimitLamports u\<rparr>)"

text \<open>A field that is \<open>undefined\<close> is left alone (\<open>None\<close>); \<open>null\<close> clears the limit (\<open>Some None\<close>).\<close>

definition setLimits :: "nat \<Rightarrow> int option option \<Rightarrow> int option option \<Rightarrow> int option option \<Rightarrow> db
    \<Rightarrow> (rg_state \<times> db) result" where
  "setLimits userId dailyDeposit dailyLoss dailyWager d =
     bindE (updateUser userId (\<lambda>u. u\<lparr>
         dailyDepositLimitLamports := (case dailyDeposit of None \<Rightarrow> dailyDepositLimitLamports u | Some v \<Rightarrow> v),
         dailyLossLimitLamports := (case dailyLoss of None \<Rightarrow> dailyLossLimitLamports u | Some v \<Rightarrow> v),
         dailyWagerLimitLamports := (case dailyWager of None \<Rightarrow> dailyWagerLimitLamports u | Some v \<Rightarrow> v)\<rparr>) d)
       (\<lambda>d1. bindE (rg_view userId d1) (\<lambda>v. Inr (v, d1)))"

datatype block_field = Cool_off | Self_exclusion

fun block_of :: "block_field \<Rightarrow> user \<Rightarrow> int option" where
  "block_of Cool_off u = coolOffUntil u"
| "block_of Self_exclusion u = selfExcludedUntil u"

fun set_block :: "block_field \<Rightarrow> int \<Rightarrow> user \<Rightarrow> user" where
  "set_block Cool_off t u = u\<lparr>coolOffUntil := Some t\<rparr>"
| "set_block Self_exclusion t u = u\<lparr>selfExcludedUntil := Some t\<rparr>"

definition extend :: "int \<Rightarrow> nat \<Rightarrow> block_field \<Rightarrow> int \<Rightarrow> db \<Rightarrow> (rg_state \<times> db) result" where
  "extend now userId field until d =
     (if until \<le> now then Inl (BadRequest ''must be a future date'')
      else case map_of (users d) userId of
        None \<Rightarrow> Inl (Forbidden ''Cannot shorten an active block'')
      | Some u \<Rightarrow>
          if (case block_of field u of None \<Rightarrow> True | Some t \<Rightarrow> t \<le> until)
          then (let d1 = d\<lparr>users := AList.update userId (set_block field until u) (users d)\<rparr>
                in bindE (rg_view userId d1) (\<lambda>v. Inr (v, d1)))
          else Inl (Forbidden ''Cannot shorten an active block''))"

fun cancel_each :: "int \<Rightarrow> nat list \<Rightarrow> db \<Rightarrow> unit result \<times> db" where
  "cancel_each now [] d = (Inr (), d)"
| "cancel_each now (gid # gids) d = (case cancelOpenFlip now gid d of
      Inl e \<Rightarrow> (Inl e, d)
    | Inr (_, d1) \<Rightarrow> cancel_each now gids d1)"

definition cancelOpenFlips :: "int \<Rightarrow> nat \<Rightarrow> db \<Rightarrow> unit result \<times> db" where
  "cancelOpenFlips now userId d =
     cancel_each now (map fst (filter (\<lambda>(_, g). cf_creatorId g = userId \<and> cf_status g = FlipOpen) (coinflipGames d))) d"

definition setCoolOff :: "int \<Rightarrow> nat \<Rightarrow> int \<Rightarrow> db \<Rightarrow> rg_state result \<times> db" where
  "setCoolOff now userId until d = (case extend now userId Cool_off until d of
      Inl e \<Rightarrow> (Inl e, d)
    | Inr (res, d1) \<Rightarrow> (case cancelOpenFlips now userId d1 of
        (Inl e, d2) \<Rightarrow> (Inl e, d2)
      | (Inr _, d2) \<Rightarrow> (Inr res, d2)))"

definition setSelfExclusion :: "int \<Rightarrow> nat \<Rightarrow> int \<Rightarrow> db \<Rightarrow> rg_state result \<times> db" where
  "setSelfExclusion now userId until d = (case extend now userId Self_exclusion until d of
      Inl e \<Rightarrow> (Inl e, d)
    | Inr (res, d1) \<Rightarrow> (case cancelOpenFlips now userId d1 of
        (Inl e, d2) \<Rightarrow> (Inl e, d2)
      | (Inr _, d2) \<Rightarrow> (Inr res, d2\<lparr>sessions := filter (\<lambda>u. u \<noteq> userId) (sessions d2)\<rparr>)))"

subsection \<open>A block holds and empties the table\<close>

definition blocked_until :: "block_field \<Rightarrow> int \<Rightarrow> nat \<Rightarrow> db \<Rightarrow> bool" where
  "blocked_until f T uid d \<longleftrightarrow> (\<exists>u t. map_of (users d) uid = Some u \<and> block_of f u = Some t \<and> T \<le> t)"

lemma block_of_increment [simp]: "block_of f (increment c x u) = block_of f u"
  by (cases c; cases f) simp_all

lemma blocked_delta:
  "applyBalanceDelta v x m d = Inr (b, d') \<Longrightarrow> blocked_until f T uid d \<Longrightarrow> blocked_until f T uid d'"
  by (auto simp: applyBalanceDelta_Inr blocked_until_def)

lemma blocked_cancel:
  assumes "cancelOpenFlip now gid d = Inr (b, d')" and "blocked_until f T uid d"
  shows "blocked_until f T uid d'"
  using assms(1)
proof (cases rule: cancelOpenFlip_cases)
  case (2 g x)
  show ?thesis by (rule blocked_delta[OF 2(4)]) (use assms(2) in \<open>simp add: blocked_until_def\<close>)
qed (use assms in simp)

lemma blocked_cancel_each: "blocked_until f T uid d \<Longrightarrow> blocked_until f T uid (snd (cancel_each now gids d))"
  by (induction gids arbitrary: d) (auto split: sum.splits dest: blocked_cancel)

lemma blocked_extend:
  assumes "extend now v g t d = Inr (r, d')"
  shows "blocked_until f T uid d \<Longrightarrow> blocked_until f T uid d'" and "blocked_until g t v d'"
  using assms
  by (auto simp: extend_def blocked_until_def Let_def split: if_splits option.splits;
      cases g; cases f; auto)+

lemma blocked_setLimits:
  assumes "setLimits v a b c d = Inr (r, d')" and "blocked_until f T uid d"
  shows "blocked_until f T uid d'"
  using assms by (cases f) (auto simp: setLimits_def updateUser_def blocked_until_def split: option.splits)

lemma blocked_refuses:
  assumes "blocked_until f T uid d" and "now_ms env < T"
  shows "\<exists>e. assertCanWager env uid amount d = Inl e"
  using assms by (cases f) (auto simp: assertCanWager_def blocked_until_def)

datatype rg_cmd =
    Set_limits nat "int option option" "int option option" "int option option"
  | Set_cool_off int nat int
  | Set_self_exclusion int nat int

fun rg_step :: "rg_cmd \<Rightarrow> db \<Rightarrow> db" where
  "rg_step (Set_limits u a b c) d = (case setLimits u a b c d of Inl _ \<Rightarrow> d | Inr (_, d') \<Rightarrow> d')"
| "rg_step (Set_cool_off now u t) d = snd (setCoolOff now u t d)"
| "rg_step (Set_self_exclusion now u t) d = snd (setSelfExclusion now u t d)"

lemma blocked_cancelOpenFlips:
  assumes "extend now u g t d = Inr (r, d1)" and "blocked_until f T uid d" and "cancelOpenFlips now u d1 = (o2, d2)"
  shows "blocked_until f T uid d2"
proof -
  have "blocked_until f T uid d1" by (rule blocked_extend(1)[OF assms(1,2)])
  from blocked_cancel_each[OF this] show ?thesis using assms(3) unfolding cancelOpenFlips_def by (metis snd_conv)
qed

lemma blocked_setCoolOff: "blocked_until f T uid d \<Longrightarrow> blocked_until f T uid (snd (setCoolOff now u t d))"
  by (cases "extend now u Cool_off t d"; cases "cancelOpenFlips now u (snd (projr (extend now u Cool_off t d)))")
    (auto simp: setCoolOff_def split: sum.splits dest: blocked_cancelOpenFlips)

lemma blocked_setSelfExclusion: "blocked_until f T uid d \<Longrightarrow> blocked_until f T uid (snd (setSelfExclusion now u t d))"
proof (cases "extend now u Self_exclusion t d"; cases "cancelOpenFlips now u (snd (projr (extend now u Self_exclusion t d)))")
  fix e o2 d2
  assume b: "blocked_until f T uid d" and "extend now u Self_exclusion t d = Inl e"
  then show ?thesis by (simp add: setSelfExclusion_def)
next
  fix p o2 d2
  assume b: "blocked_until f T uid d" and e: "extend now u Self_exclusion t d = Inr p"
    and c: "cancelOpenFlips now u (snd (projr (extend now u Self_exclusion t d))) = (o2, d2)"
  obtain r d1 where p: "p = (r, d1)" by force
  have "blocked_until f T uid d2" by (rule blocked_cancelOpenFlips[OF e[unfolded p] b]) (use c in \<open>simp add: e p\<close>)
  then show ?thesis using c by (cases o2) (simp_all add: setSelfExclusion_def e p blocked_until_def)
qed

lemma blocked_run: "blocked_until f T uid d \<Longrightarrow> blocked_until f T uid (fold rg_step cmds d)"
proof (induction cmds arbitrary: d)
  case (Cons c cmds)
  have "blocked_until f T uid (rg_step c d)"
    using Cons.prems by (cases c) (auto intro: blocked_setLimits blocked_setCoolOff blocked_setSelfExclusion split: sum.splits)
  then show ?case using Cons.IH by simp
qed simp

definition open_flips :: "nat \<Rightarrow> db \<Rightarrow> (nat \<times> coinflip_game) list" where
  "open_flips uid d = filter (\<lambda>(_, g). cf_creatorId g = uid \<and> cf_status g = FlipOpen) (coinflipGames d)"

lemma cancel_each_spec:
  assumes "cancel_each now gids d = (Inr (), d')" and "distinct gids"
    and "\<And>gid. gid \<in> set gids \<Longrightarrow> \<exists>g. map_of (coinflipGames d) gid = Some g \<and> cf_status g = FlipOpen \<and> cf_creatorId g = u"
  shows "posts (map (\<lambda>gid. (u, Jeton, cf_amountLamports (the (map_of (coinflipGames d) gid)))) gids) d d'"
    and "\<And>gid. map_of (coinflipGames d') gid = (if gid \<in> set gids
           then Some ((the (map_of (coinflipGames d) gid))\<lparr>cf_status := FlipCancelled, cf_resolvedAt := Some now\<rparr>)
           else map_of (coinflipGames d) gid)"
proof -
  have "posts (map (\<lambda>gid. (u, Jeton, cf_amountLamports (the (map_of (coinflipGames d) gid)))) gids) d d'
    \<and> (\<forall>gid. map_of (coinflipGames d') gid = (if gid \<in> set gids
           then Some ((the (map_of (coinflipGames d) gid))\<lparr>cf_status := FlipCancelled, cf_resolvedAt := Some now\<rparr>)
           else map_of (coinflipGames d) gid))"
    using assms
  proof (induction gids arbitrary: d)
    case (Cons gid gids)
    obtain b d1 where 1: "cancelOpenFlip now gid d = Inr (b, d1)" and 2: "cancel_each now gids d1 = (Inr (), d')"
      using Cons.prems(1) by (auto split: sum.splits)
    obtain g where g: "map_of (coinflipGames d) gid = Some g" "cf_status g = FlipOpen" "cf_creatorId g = u"
      using Cons.prems(3)[of gid] by auto
    have b: "b" using cancelOpenFlip_games(2)[OF 1] g by blast
    have upd: "map_of (coinflipGames d1) = (map_of (coinflipGames d))(gid \<mapsto> g\<lparr>cf_status := FlipCancelled, cf_resolvedAt := Some now\<rparr>)"
      using cancelOpenFlip_games(1)[OF 1] b g by simp
    have rest: "map_of (coinflipGames d1) k = map_of (coinflipGames d) k" if "k \<in> set gids" for k
      using that Cons.prems(2) by (auto simp: upd)
    note IH = Cons.IH[OF 2]
    have hyp: "distinct gids" "\<And>k. k \<in> set gids \<Longrightarrow> \<exists>g. map_of (coinflipGames d1) k = Some g \<and> cf_status g = FlipOpen \<and> cf_creatorId g = u"
      using Cons.prems(2,3) rest by auto
    from IH[OF hyp] have post: "posts (map (\<lambda>k. (u, Jeton, cf_amountLamports (the (map_of (coinflipGames d1) k)))) gids) d1 d'"
      and games: "\<And>k. map_of (coinflipGames d') k = (if k \<in> set gids
           then Some ((the (map_of (coinflipGames d1) k))\<lparr>cf_status := FlipCancelled, cf_resolvedAt := Some now\<rparr>)
           else map_of (coinflipGames d1) k)" by blast+
    have same: "map (\<lambda>k. (u, Jeton, cf_amountLamports (the (map_of (coinflipGames d1) k)))) gids
        = map (\<lambda>k. (u, Jeton, cf_amountLamports (the (map_of (coinflipGames d) k)))) gids"
      using rest by simp
    have "posts [(u, Jeton, cf_amountLamports g)] d d1"
      using cancelOpenFlip_posts[OF 1] by (simp add: cancel_journal_def g b)
    from posts_trans[OF this post[unfolded same]] show ?case
      using games rest Cons.prems(2) by (auto simp: g upd)
  qed simp
  then show "posts (map (\<lambda>gid. (u, Jeton, cf_amountLamports (the (map_of (coinflipGames d) gid)))) gids) d d'"
    and "\<And>gid. map_of (coinflipGames d') gid = (if gid \<in> set gids
           then Some ((the (map_of (coinflipGames d) gid))\<lparr>cf_status := FlipCancelled, cf_resolvedAt := Some now\<rparr>)
           else map_of (coinflipGames d) gid)" by blast+
qed

lemma extend_frame:
  assumes "extend now u f t d = Inr (r, d')"
  shows "coinflipGames d' = coinflipGames d" "same_money d d'"
proof -
  show "coinflipGames d' = coinflipGames d"
    using assms by (auto simp: extend_def Let_def split: if_splits option.splits)
  have "keeps_balance (set_block f t)" by (cases f) (auto intro!: keeps_balanceI)
  then show "same_money d d'" using assms
    by (auto simp: extend_def Let_def same_money_def bal_def keeps_balance_def fun_eq_iff split: if_splits option.splits)
qed

text \<open>
  C17. Self-exclusion works at once and cannot be undone early. When it succeeds, every open flip of the
  player is cancelled and its stake refunded exactly once, the player's sessions are gone, and whatever
  limits and blocks anybody sets afterwards, no wager of theirs is accepted before the end date.
\<close>

theorem self_exclusion_holds:
  assumes "setSelfExclusion now uid until d = (Inr r, d')" and "keyed (coinflipGames d)" and "now_ms env < until"
  shows "(\<exists>e. assertCanWager env uid amount (fold rg_step cmds d') = Inl e)
    \<and> (\<forall>gid g. map_of (coinflipGames d') gid = Some g \<and> cf_creatorId g = uid \<longrightarrow> cf_status g \<noteq> FlipOpen)
    \<and> bal d' uid Jeton = bal d uid Jeton + sum_list (map (cf_amountLamports \<circ> snd) (open_flips uid d))
    \<and> uid \<notin> set (sessions d')"
proof -
  obtain r1 d1 d2 where 1: "extend now uid Self_exclusion until d = Inr (r1, d1)"
    and 2: "cancelOpenFlips now uid d1 = (Inr (), d2)" and d': "d' = d2\<lparr>sessions := filter (\<lambda>u. u \<noteq> uid) (sessions d2)\<rparr>"
    using assms(1) by (auto simp: setSelfExclusion_def split: sum.splits prod.splits)
  have games1: "coinflipGames d1 = coinflipGames d" and money1: "same_money d d1" using extend_frame[OF 1] by auto
  let ?gids = "map fst (open_flips uid d)"
  have c: "cancel_each now ?gids d1 = (Inr (), d2)"
    using 2 by (simp add: cancelOpenFlips_def open_flips_def games1)
  have dist: "distinct ?gids" using assms(2) by (simp add: open_flips_def keyed_def distinct_map_filter)
  have row: "map_of (coinflipGames d1) k = Some g" if "(k, g) \<in> set (open_flips uid d)" for k g
    using that assms(2) by (auto simp: open_flips_def games1 keyed_def)
  have pre: "\<exists>g. map_of (coinflipGames d1) gid = Some g \<and> cf_status g = FlipOpen \<and> cf_creatorId g = uid"
    if "gid \<in> set ?gids" for gid using that row by (fastforce simp: open_flips_def)
  note spec = cancel_each_spec[OF c dist pre]
  have "blocked_until Self_exclusion until uid d2"
    using blocked_cancel_each[OF blocked_extend(2)[OF 1], of now ?gids] c by simp
  then have "blocked_until Self_exclusion until uid d'" by (simp add: d' blocked_until_def)
  from blocked_refuses[OF blocked_run[OF this] assms(3)]
  have "\<exists>e. assertCanWager env uid amount (fold rg_step cmds d') = Inl e" .
  moreover have "cf_status g \<noteq> FlipOpen" if g: "map_of (coinflipGames d') gid = Some g" "cf_creatorId g = uid" for gid g
  proof (cases "gid \<in> set ?gids")
    case True
    then show ?thesis using g spec(2)[of gid] by (auto simp: d')
  next
    case False
    then have "map_of (coinflipGames d) gid = Some g" using g spec(2)[of gid] by (simp add: d' games1)
    then have "(gid, g) \<in> set (coinflipGames d)" by (rule map_of_SomeD)
    then show ?thesis using False g(2) by (force simp: open_flips_def)
  qed
  moreover have "bal d' uid Jeton = bal d uid Jeton + sum_list (map (cf_amountLamports \<circ> snd) (open_flips uid d))"
  proof -
    have "bal d' uid Jeton = bal d2 uid Jeton" by (simp add: d' bal_def)
    also have "\<dots> = bal d1 uid Jeton + sum_list (map (\<lambda>gid. cf_amountLamports (the (map_of (coinflipGames d1) gid))) ?gids)"
      using posts_bal[OF spec(1), of uid Jeton] by (simp add: comp_def)
    also have "map (\<lambda>gid. cf_amountLamports (the (map_of (coinflipGames d1) gid))) ?gids
        = map (cf_amountLamports \<circ> snd) (open_flips uid d)" using row by auto
    finally show ?thesis using money1 by (simp add: same_money_def)
  qed
  moreover have "uid \<notin> set (sessions d')" by (simp add: d')
  ultimately show ?thesis by blast
qed

definition sample_flip :: coinflip_game where
  "sample_flip = \<lparr>cf_creatorId = 1, cf_creatorSide = Heads, cf_joinerId = None, cf_amountLamports = 2000000,
     cf_result = None, cf_winnerId = None, cf_status = FlipOpen, cf_seedId = 0, cf_nonce = 0, cf_vsHouse = False,
     cf_expiresAt = Some 9000, cf_resolvedAt = None\<rparr>"

definition sample_flip_db :: db where
  "sample_flip_db = empty_db\<lparr>users := [(1, new_user), (2, new_user)], coinflipGames := [(5, sample_flip)],
     seeds := [(0, \<lparr>sd_serverSeed = ''s'', sd_serverSeedHash = ''h'', sd_clientSeed = ''c'', sd_nonce = 0, sd_revealedAt = None\<rparr>)],
     sessions := [1, 2]\<rparr>"

theorem self_exclusion_holds_witness:
  "\<exists>r d'. setSelfExclusion 100 1 500 sample_flip_db = (Inr r, d') \<and> bal d' 1 Jeton = 10002000000
     \<and> (\<exists>e. assertCanWager \<lparr>paused = False, realMoneyEnabled = False, now_ms = 400\<rparr> 1 7
           (fold rg_step [Set_self_exclusion 200 1 300] d') = Inl e)"
proof -
  have "\<exists>r d'. setSelfExclusion 100 1 500 sample_flip_db = (Inr r, d')"
    by (simp add: setSelfExclusion_def extend_def sample_flip_db_def rg_view_def cancelOpenFlips_def cancelOpenFlip_def
        claim_flip_def sample_flip_def applyBalanceDelta_def updateUser_def jeton_meta_def)
  then obtain r d' where run: "setSelfExclusion 100 1 500 sample_flip_db = (Inr r, d')" by blast
  have "keyed (coinflipGames sample_flip_db)" by (simp add: sample_flip_db_def keyed_def)
  from self_exclusion_holds[OF run this, of "\<lparr>paused = False, realMoneyEnabled = False, now_ms = 400\<rparr>" 7 "[Set_self_exclusion 200 1 300]"]
  have "(\<exists>e. assertCanWager \<lparr>paused = False, realMoneyEnabled = False, now_ms = 400\<rparr> 1 7
           (fold rg_step [Set_self_exclusion 200 1 300] d') = Inl e)"
    "bal d' 1 Jeton = bal sample_flip_db 1 Jeton + sum_list (map (cf_amountLamports \<circ> snd) (open_flips 1 sample_flip_db))"
    by simp_all
  moreover have "bal sample_flip_db 1 Jeton = 10000000000" "open_flips 1 sample_flip_db = [(5, sample_flip)]"
    by (simp_all add: bal_def sample_flip_db_def open_flips_def sample_flip_def)
  ultimately show ?thesis using run by (intro exI[of _ r] exI[of _ d']) (simp add: sample_flip_def)
qed

end
