(* ===== verification/Economy.thy ===== *)
theory Economy
  imports Ledger
begin

text \<open>
  \<open>apps/api/src/custody/economy.ts\<close>: the rules that keep free play money away from deposited money. An
  account is real once \<open>fundedAt\<close> is set. \<open>enforced\<close> is \<open>economyEnforced()\<close>, the configuration switch of
  custody. The row locks of the source do not show in a model where a transaction is one step.
\<close>

datatype pooled_game = Pooled_jackpot | Pooled_lottery

definition isReal :: "nat \<Rightarrow> db \<Rightarrow> bool result" where
  "isReal userId d = (case map_of (users d) userId of
      None \<Rightarrow> Inl (Internal ''P2025'') | Some u \<Rightarrow> Inr (fundedAt u \<noteq> None))"

definition isRealLocked :: "nat \<Rightarrow> db \<Rightarrow> bool" where
  "isRealLocked userId d = (case map_of (users d) userId of None \<Rightarrow> False | Some u \<Rightarrow> fundedAt u \<noteq> None)"

definition assertDepositedOnly :: "bool \<Rightarrow> nat \<Rightarrow> db \<Rightarrow> unit result" where
  "assertDepositedOnly enforced userId d =
     (if \<not> enforced then Inr ()
      else bindE (isReal userId d) (\<lambda>real.
        guardE real (Forbidden ''Deposit SOL to play: it is played with deposited funds only'')))"

definition is_play_user :: "nat \<Rightarrow> db \<Rightarrow> bool" where
  "is_play_user uid d \<longleftrightarrow> (case map_of (users d) uid of None \<Rightarrow> False | Some u \<Rightarrow> fundedAt u = None)"

definition assertPooledEntry :: "bool \<Rightarrow> nat \<Rightarrow> pooled_game \<Rightarrow> nat \<Rightarrow> db \<Rightarrow> unit result" where
  "assertPooledEntry enforced userId pool roundId d =
     (if \<not> enforced then Inr ()
      else bindE (assertDepositedOnly enforced userId d) (\<lambda>_.
        let playEntry = (case pool of
              Pooled_jackpot \<Rightarrow> list_ex (\<lambda>e. je_roundId e = roundId \<and> is_play_user (je_userId e) d) (jackpotEntries d)
            | Pooled_lottery \<Rightarrow> list_ex (\<lambda>(_, t). lt_drawId t = roundId \<and> is_play_user (lt_userId t) d) (lotteryTickets d))
        in guardE (\<not> playEntry) (Forbidden ''still holds play-money entries: join the next one'')))"

definition assertSameEconomy :: "bool \<Rightarrow> nat \<Rightarrow> nat \<Rightarrow> db \<Rightarrow> unit result" where
  "assertSameEconomy enforced creatorId joinerId d =
     (if \<not> enforced then Inr ()
      else bindE (isReal creatorId d) (\<lambda>real.
        guardE (real = isRealLocked joinerId d) (Forbidden ''This flip is played with the other balance type'')))"

definition assertPlayOnly :: "bool \<Rightarrow> nat \<Rightarrow> db \<Rightarrow> unit result" where
  "assertPlayOnly enforced userId d =
     (if \<not> enforced then Inr ()
      else bindE (isReal userId d) (\<lambda>real. guardE (\<not> real) (Forbidden ''a play-money feature'')))"

text \<open>The filter is the predicate it selects by; \<open>undefined\<close> selects everyone.\<close>

definition promotionRecipients :: "bool \<Rightarrow> user \<Rightarrow> bool" where
  "promotionRecipients enforced u \<longleftrightarrow> (enforced \<longrightarrow> fundedAt u = None)"

definition stillPlay :: "bool \<Rightarrow> nat list \<Rightarrow> db \<Rightarrow> nat set" where
  "stillPlay enforced userIds d =
     (if \<not> enforced \<or> userIds = [] then set userIds
      else {u \<in> set userIds. is_play_user u d})"

definition sharesEconomy :: "bool \<Rightarrow> nat \<Rightarrow> nat \<Rightarrow> db \<Rightarrow> bool result" where
  "sharesEconomy enforced referrerId refereeId d =
     (if \<not> enforced then Inr True
      else bindE (isReal refereeId d) (\<lambda>real. Inr (isRealLocked referrerId d = real)))"

definition round_in :: "('s \<Rightarrow> bool) \<Rightarrow> (nat, 's) table \<Rightarrow> nat \<Rightarrow> bool" where
  "round_in p t r = (case map_of t r of None \<Rightarrow> False | Some s \<Rightarrow> p s)"

definition openPlayPositions :: "nat \<Rightarrow> db \<Rightarrow> string list" where
  "openPlayPositions userId d =
     (if length (filter (\<lambda>((r, u), _). u = userId \<and> round_in (\<lambda>r. xr_status r \<in> {CrashWaiting, CrashRunning}) (crashRounds d) r) (crashBets d))
         + length (filter (\<lambda>(u, _). u = userId) (scheduledCrashBets d)) > 0 then [''crash''] else [])
     @ (if length (filter (\<lambda>(_, g). cf_status g \<in> {FlipOpen, FlipMatched, FlipResolving}
           \<and> (cf_creatorId g = userId \<or> cf_joinerId g = Some userId)) (coinflipGames d)) > 0 then [''coinflip''] else [])
     @ (if length (filter (\<lambda>e. je_userId e = userId \<and> round_in (\<lambda>r. jr_status r = JackpotOpen) (jackpotRounds d) (je_roundId e)) (jackpotEntries d)) > 0
        then [''jackpot''] else [])
     @ (if length (filter (\<lambda>(_, t). lt_userId t = userId \<and> round_in (\<lambda>r. ld_status r = DrawOpen) (lotteryDraws d) (lt_drawId t))
           (lotteryTickets d)) > 0 then [''lottery''] else [])
     @ (if length (filter (\<lambda>(_, r). ir_userId r = userId \<and> ir_status r = RoundActive) (instantRounds d)) > 0
        then [''instant''] else [])
     @ (if length (filter (\<lambda>(_, r). br_endedAt r = None \<and> userId \<in> fst ` set (br_seats r)) (blackjackRounds d)) > 0 then [''blackjack''] else [])"

subsection \<open>The economies do not mix\<close>

lemma assertSameEconomy_Inr: "assertSameEconomy True c j d = Inr () \<Longrightarrow> isReal c d = Inr (isRealLocked j d)"
  by (auto simp: assertSameEconomy_def split: sum.splits)

lemma assertPooledEntry_Inr:
  assumes "assertPooledEntry True u pool r d = Inr ()"
  shows "isReal u d = Inr True"
  using assms by (auto simp: assertPooledEntry_def assertDepositedOnly_def)

lemma openPlayPositions_flip:
  assumes "(g, row) \<in> set (coinflipGames d)" and "cf_status row = FlipOpen" and "cf_creatorId row = u"
  shows "''coinflip'' \<in> set (openPlayPositions u d)"
proof -
  have "(g, row) \<in> set (filter (\<lambda>(_, g). cf_status g \<in> {FlipOpen, FlipMatched, FlipResolving}
           \<and> (cf_creatorId g = u \<or> cf_joinerId g = Some u)) (coinflipGames d))" using assms by simp
  then have "length (filter (\<lambda>(_, g). cf_status g \<in> {FlipOpen, FlipMatched, FlipResolving}
           \<and> (cf_creatorId g = u \<or> cf_joinerId g = Some u)) (coinflipGames d)) > 0"
    by (rule length_pos_if_in_set)
  then show ?thesis unfolding openPlayPositions_def by (simp del: length_greater_0_conv)
qed

end
