(* ===== verification/Affiliates.thy ===== *)
theory Affiliates
  imports Economy Shared_Payouts
begin

text \<open>
  \<open>apps/api/src/affiliates/affiliates.service.ts\<close>: the commission a referrer earns on a referred player's
  wagers, accrued inside each settlement and claimed later.
\<close>

subsection \<open>Rates\<close>

definition AFFILIATE_TIERS :: "(int \<times> rat) list" where
  "AFFILIATE_TIERS = [(0, fl (5 / 100)), (10 * LAMPORTS_PER_SOL, fl (8 / 100)),
     (100 * LAMPORTS_PER_SOL, fl (12 / 100)), (1000 * LAMPORTS_PER_SOL, fl (15 / 100))]"

text \<open>The loop runs from the highest threshold down and stops at the first one reached.\<close>

definition tierCommission :: "int \<Rightarrow> rat" where
  "tierCommission referredVolumeLamports =
     (case find (\<lambda>(threshold, _). referredVolumeLamports \<ge> threshold) (rev AFFILIATE_TIERS) of
        None \<Rightarrow> snd (hd AFFILIATE_TIERS)
      | Some (_, rate) \<Rightarrow> rate)"

fun GAME_HOUSE_EDGE :: "game \<Rightarrow> rat" where
  "GAME_HOUSE_EDGE Crash = HOUSE_EDGE"
| "GAME_HOUSE_EDGE Coinflip = HOUSE_EDGE"
| "GAME_HOUSE_EDGE Jackpot = fl (5 / 100)"
| "GAME_HOUSE_EDGE Lottery = 0"
| "GAME_HOUSE_EDGE Blackjack = fl (5 / 1000)"
| "GAME_HOUSE_EDGE Dice = DICE_HOUSE_EDGE"
| "GAME_HOUSE_EDGE Limbo = HOUSE_EDGE"
| "GAME_HOUSE_EDGE Wheel = HOUSE_EDGE"
| "GAME_HOUSE_EDGE Plinko = HOUSE_EDGE"
| "GAME_HOUSE_EDGE Mines = HOUSE_EDGE"
| "GAME_HOUSE_EDGE Tower = HOUSE_EDGE"
| "GAME_HOUSE_EDGE Hilo = HOUSE_EDGE"
| "GAME_HOUSE_EDGE Keno = HOUSE_EDGE"

definition PPM :: int where "PPM = 1000000"

definition referralCommission :: "int \<Rightarrow> game \<Rightarrow> rat \<Rightarrow> int" where
  "referralCommission stakeLamports gameType rate =
     (let edgePpm = js_round (fl (GAME_HOUSE_EDGE gameType * 1000000));
          ratePpm = js_round (fl (rate * 1000000))
      in bigint_div (stakeLamports * edgePpm * ratePpm) (PPM * PPM))"

subsection \<open>Accrual\<close>

definition referred_volume :: "nat \<Rightarrow> db \<Rightarrow> int" where
  "referred_volume referrerId d =
     sum_list (map (rf_volumeLamports \<circ> snd) (filter (\<lambda>(_, r). rf_referrerId r = referrerId) (referrals d)))"

definition upsert_referral :: "int \<Rightarrow> nat \<Rightarrow> nat \<Rightarrow> int \<Rightarrow> int \<Rightarrow> bool \<Rightarrow> db \<Rightarrow> db" where
  "upsert_referral now referrerId refereeId stake commission sameIp d = d\<lparr>referrals := AList.update refereeId
     (case map_of (referrals d) refereeId of
        None \<Rightarrow> \<lparr>rf_referrerId = referrerId, rf_volumeLamports = stake, rf_commissionLamports = commission,
                  rf_commissionClaimedLamports = 0, rf_flagged = sameIp, rf_createdAt = now\<rparr>
      | Some r \<Rightarrow> r\<lparr>rf_volumeLamports := rf_volumeLamports r + stake,
                    rf_commissionLamports := rf_commissionLamports r + commission,
                    rf_flagged := rf_flagged r \<or> sameIp\<rparr>) (referrals d)\<rparr>"

definition creditReferral :: "bool \<Rightarrow> int \<Rightarrow> nat \<Rightarrow> int \<Rightarrow> game \<Rightarrow> db \<Rightarrow> db result" where
  "creditReferral enforced now refereeId stakeLamports gameType d =
     (if stakeLamports \<le> 0 then Inr d
      else case map_of (users d) refereeId of
        None \<Rightarrow> Inr d
      | Some referee \<Rightarrow>
         (case referredById referee of
            None \<Rightarrow> Inr d
          | Some referrerId \<Rightarrow>
              let rate = tierCommission (referred_volume referrerId d);
                  referrerHash = (case map_of (users d) referrerId of None \<Rightarrow> None | Some u \<Rightarrow> signupIpHash u);
                  sameIp = (signupIpHash referee \<noteq> None \<and> signupIpHash referee \<noteq> Some ''''
                            \<and> signupIpHash referee = referrerHash)
              in bindE (if sameIp then Inr False else sharesEconomy enforced referrerId refereeId d) (\<lambda>earns.
                   let commission = (if earns then referralCommission stakeLamports gameType rate else 0)
                   in Inr (upsert_referral now referrerId refereeId stakeLamports commission sameIp d))))"

subsection \<open>Claiming\<close>

definition claim_rows :: "nat \<Rightarrow> db \<Rightarrow> (nat \<times> referral) list" where
  "claim_rows userId d = filter (\<lambda>(_, r). rf_referrerId r = userId \<and> \<not> rf_flagged r) (referrals d)"

definition unclaimed :: "referral \<Rightarrow> int" where
  "unclaimed r = rf_commissionLamports r - rf_commissionClaimedLamports r"

definition advance_claimed :: "nat \<Rightarrow> int \<Rightarrow> db \<Rightarrow> db result" where
  "advance_claimed rid target d = (case map_of (referrals d) rid of
      None \<Rightarrow> Inl (Internal ''P2025'')
    | Some r \<Rightarrow> Inr (d\<lparr>referrals := AList.update rid (r\<lparr>rf_commissionClaimedLamports := target\<rparr>) (referrals d)\<rparr>))"

fun advance_all :: "(nat \<times> int) list \<Rightarrow> db \<Rightarrow> db result" where
  "advance_all [] d = Inr d"
| "advance_all ((rid, target) # as) d = bindE (advance_claimed rid target d) (advance_all as)"

definition claim :: "nat \<Rightarrow> db \<Rightarrow> (int \<times> db) result" where
  "claim userId d =
     (let rows = filter (\<lambda>(_, r). unclaimed r > 0) (claim_rows userId d);
          claimable = sum_list (map (unclaimed \<circ> snd) rows);
          toAdvance = map (\<lambda>(rid, r). (rid, rf_commissionLamports r)) rows
      in if claimable \<le> 0 then Inl (BadRequest ''No commission to claim'')
         else bindE (advance_all toAdvance d) (\<lambda>d1.
              bindE (applyBalanceDelta userId claimable (jeton_meta ''affiliate_commission'' ''Referral'') d1) (\<lambda>(_, d2).
                Inr (claimable, d2))))"

record affiliate_stats =
  as_referralCount :: nat
  as_totalVolumeLamports :: int
  as_totalCommissionLamports :: int
  as_claimedCommissionLamports :: int
  as_claimableCommissionLamports :: int

definition stats :: "nat \<Rightarrow> db \<Rightarrow> affiliate_stats result" where
  "stats userId d = (case map_of (users d) userId of
      None \<Rightarrow> Inl (NotFound ''User not found'')
    | Some _ \<Rightarrow>
        let rows = map snd (filter (\<lambda>(_, r). rf_referrerId r = userId) (referrals d));
            earned = sum_list (map rf_commissionLamports rows);
            claimed = sum_list (map rf_commissionClaimedLamports rows);
            claimable = earned - claimed
        in Inr \<lparr>as_referralCount = length rows, as_totalVolumeLamports = sum_list (map rf_volumeLamports rows),
                as_totalCommissionLamports = earned, as_claimedCommissionLamports = claimed,
                as_claimableCommissionLamports = (if claimable > 0 then claimable else 0)\<rparr>)"

subsection \<open>The commission stays below the edge\<close>

lemma tierCommission_cases: "tierCommission v \<in> {fl (5 / 100), fl (8 / 100), fl (12 / 100), fl (15 / 100)}"
  by (simp add: tierCommission_def AFFILIATE_TIERS_def)

lemma tier_ppm: "js_round (fl (tierCommission v * 1000000)) \<in> {50000, 80000, 120000, 150000}"
proof -
  have "js_round (fl (fl (5 / 100) * 1000000)) = 50000" "js_round (fl (fl (8 / 100) * 1000000)) = 80000"
    "js_round (fl (fl (12 / 100) * 1000000)) = 120000" "js_round (fl (fl (15 / 100) * 1000000)) = 150000"
    by code_simp+
  then show ?thesis using tierCommission_cases[of v] by auto
qed

definition edge_ppm :: "game \<Rightarrow> int" where
  "edge_ppm g = (if g = Lottery then 0 else if g = Blackjack then 5000 else if g = Dice then 10000 else 50000)"

lemma edge_ppm: "js_round (fl (GAME_HOUSE_EDGE g * 1000000)) = edge_ppm g"
proof -
  have "js_round (fl (HOUSE_EDGE * 1000000)) = 50000" "js_round (fl (fl (5 / 100) * 1000000)) = 50000"
    "js_round (fl (0 * 1000000)) = 0" "js_round (fl (fl (5 / 1000) * 1000000)) = 5000"
    "js_round (fl (DICE_HOUSE_EDGE * 1000000)) = 10000" by code_simp+
  then show ?thesis by (cases g) (simp_all add: edge_ppm_def)
qed

lemma edge_ppm_nonneg: "0 \<le> edge_ppm g"
  by (simp add: edge_ppm_def)

lemma referralCommission_eq:
  assumes "0 \<le> stake"
  shows "referralCommission stake g (tierCommission v)
    = stake * edge_ppm g * js_round (fl (tierCommission v * 1000000)) div (PPM * PPM)"
proof -
  have "0 \<le> stake * edge_ppm g * js_round (fl (tierCommission v * 1000000))"
    using assms edge_ppm_nonneg tier_ppm[of v] by (intro mult_nonneg_nonneg) auto
  then show ?thesis
    by (simp add: referralCommission_def edge_ppm bigint_div_def PPM_def Let_def sgn_if)
qed

lemma commission_nonneg: "0 < s \<Longrightarrow> 0 \<le> referralCommission s g (tierCommission v)"
  using edge_ppm_nonneg[of g] tier_ppm[of v]
  by (subst referralCommission_eq) (auto simp: PPM_def pos_imp_zdiv_nonneg_iff)

text \<open>
  A referrer is paid out of what the house expects to keep: the commission on a wager is at least
  zero and at most 15\% of the stake times the game's edge, so it stays below the edge, and in
  a coinflip between two players referred by one account both commissions together are at most a fiftieth
  of the stake, when the house takes a tenth of it from the pot.
\<close>

theorem commission_below_edge:
  assumes "0 < stake"
  shows "0 \<le> referralCommission stake g (tierCommission v)
    \<and> PPM * 100 * referralCommission stake g (tierCommission v) \<le> 15 * stake * edge_ppm g
    \<and> referralCommission stake Coinflip (tierCommission v) + referralCommission stake Coinflip (tierCommission w)
        \<le> stake div 50"
proof -
  define r where "r v = js_round (fl (tierCommission v * 1000000))" for v
  have r: "0 \<le> r v" "r v \<le> 150000" for v using tier_ppm[of v] by (auto simp: r_def)
  have c: "referralCommission stake g (tierCommission v) = stake * edge_ppm g * r v div (PPM * PPM)" for g v
    using assms by (simp add: referralCommission_eq r_def)
  have up: "PPM * PPM * referralCommission stake g (tierCommission v) \<le> stake * edge_ppm g * 150000" for g v
  proof -
    have "PPM * PPM * referralCommission stake g (tierCommission v) \<le> stake * edge_ppm g * r v"
      using div_mult_le[of "PPM * PPM" "stake * edge_ppm g * r v"] by (simp add: c PPM_def mult.commute)
    also have "\<dots> \<le> stake * edge_ppm g * 150000"
      using r(2)[of v] assms edge_ppm_nonneg[of g] by (intro mult_left_mono) auto
    finally show ?thesis .
  qed
  have "0 \<le> referralCommission stake g (tierCommission v)" by (rule commission_nonneg[OF assms])
  moreover have "PPM * 100 * referralCommission stake g (tierCommission v) \<le> 15 * stake * edge_ppm g"
    using up[of g v] by (simp add: PPM_def)
  moreover have "referralCommission stake Coinflip (tierCommission v) + referralCommission stake Coinflip (tierCommission w)
        \<le> stake div 50"
    using up[of Coinflip v] up[of Coinflip w] assms by (simp add: PPM_def edge_ppm_def)
  ultimately show ?thesis by blast
qed

theorem commission_below_edge_witness:
  "referralCommission 1000000000 Coinflip (tierCommission 0) = 2500000
     \<and> 0 \<le> referralCommission 1000000000 Dice (tierCommission 0)"
proof
  show "referralCommission 1000000000 Coinflip (tierCommission 0) = 2500000" by code_simp
  show "0 \<le> referralCommission 1000000000 Dice (tierCommission 0)"
    using commission_below_edge[of 1000000000 Dice 0 0] by simp
qed


subsection \<open>Money frame and single payment\<close>

lemma upsert_referral_frame [simp]:
  "users (upsert_referral now a b s c f d) = users d" "ledger (upsert_referral now a b s c f d) = ledger d"
  "bets (upsert_referral now a b s c f d) = bets d" "clientSeeds (upsert_referral now a b s c f d) = clientSeeds d"
  "instantRounds (upsert_referral now a b s c f d) = instantRounds d"
  "coinflipGames (upsert_referral now a b s c f d) = coinflipGames d" "seeds (upsert_referral now a b s c f d) = seeds d"
  by (simp_all add: upsert_referral_def)

lemma creditReferral_upsert:
  assumes "creditReferral enforced now u s g d = Inr d'" and "d' \<noteq> d"
  shows "\<exists>referrer c f. d' = upsert_referral now referrer u s c f d
    \<and> (c = 0 \<or> c = referralCommission s g (tierCommission (referred_volume referrer d))) \<and> 0 < s"
proof -
  have s: "0 < s" using assms by (cases "s \<le> 0") (simp_all add: creditReferral_def)
  then have ns: "(s \<le> 0) = False" by simp
  obtain referee where r: "map_of (users d) u = Some referee"
    using assms by (auto simp: creditReferral_def split: option.splits if_splits)
  obtain referrer where rr: "referredById referee = Some referrer"
    using assms s r by (auto simp: creditReferral_def split: option.splits)
  define same where "same = (signupIpHash referee \<noteq> None \<and> signupIpHash referee \<noteq> Some []
     \<and> signupIpHash referee = (case map_of (users d) referrer of None \<Rightarrow> None | Some u \<Rightarrow> signupIpHash u))"
  have "bindE (if same then Inr False else sharesEconomy enforced referrer u d) (\<lambda>earns.
      Inr (upsert_referral now referrer u s
        (if earns then referralCommission s g (tierCommission (referred_volume referrer d)) else 0) same d)) = Inr d'"
    using assms(1) unfolding creditReferral_def r rr same_def ns option.case if_False Let_def .
  then obtain earns where "d' = upsert_referral now referrer u s
        (if earns then referralCommission s g (tierCommission (referred_volume referrer d)) else 0) same d"
    unfolding bindE_eq_Inr by blast
  then show ?thesis using s by (cases earns) (simp; blast)+
qed

lemma creditReferral_frame:
  assumes "creditReferral enforced now u s g d = Inr d'"
  shows "users d' = users d" "ledger d' = ledger d" "bets d' = bets d" "clientSeeds d' = clientSeeds d"
    "instantRounds d' = instantRounds d" "coinflipGames d' = coinflipGames d" "seeds d' = seeds d"
  using creditReferral_upsert[OF assms] by (cases "d' = d"; force)+

lemma creditReferral_same: "creditReferral enforced now u s g d = Inr d' \<Longrightarrow> same_money d d'"
  using creditReferral_frame by (intro same_moneyI) auto

text \<open>Every row: nothing claimed beyond what was earned, and no negative commission.\<close>

definition commissions_ok :: "db \<Rightarrow> bool" where
  "commissions_ok d \<longleftrightarrow> keyed (referrals d)
     \<and> (\<forall>(k, r) \<in> set (referrals d). 0 \<le> rf_commissionClaimedLamports r \<and> rf_commissionClaimedLamports r \<le> rf_commissionLamports r)"

lemma set_update: "(k, v) \<in> set (AList.update k' v' t) \<Longrightarrow> (k = k' \<and> v = v') \<or> (k, v) \<in> set t"
  by (induction t) (auto split: if_splits)

lemma creditReferral_ok:
  assumes "creditReferral enforced now u s g d = Inr d'" and "commissions_ok d"
  shows "commissions_ok d'"
proof (cases "d' = d")
  case False
  from creditReferral_upsert[OF assms(1) False] obtain referrer c f
    where 2: "d' = upsert_referral now referrer u s c f d"
      "c = 0 \<or> c = referralCommission s g (tierCommission (referred_volume referrer d))" "0 < s" by blast
  have c: "0 \<le> c" using 2(2) commission_nonneg[OF 2(3)] by auto
  define row where "row = (case map_of (referrals d) u of
        None \<Rightarrow> \<lparr>rf_referrerId = referrer, rf_volumeLamports = s, rf_commissionLamports = c,
                  rf_commissionClaimedLamports = 0, rf_flagged = f, rf_createdAt = now\<rparr>
      | Some r \<Rightarrow> r\<lparr>rf_volumeLamports := rf_volumeLamports r + s,
                    rf_commissionLamports := rf_commissionLamports r + c, rf_flagged := rf_flagged r \<or> f\<rparr>)"
  have row: "0 \<le> rf_commissionClaimedLamports row \<and> rf_commissionClaimedLamports row \<le> rf_commissionLamports row"
    using assms(2) c by (auto simp: row_def commissions_ok_def split: option.splits dest!: map_of_SomeD)
  have d': "referrals d' = AList.update u row (referrals d)" by (simp add: 2(1) upsert_referral_def row_def)
  show ?thesis unfolding commissions_ok_def
  proof (intro conjI ballI)
    show "keyed (referrals d')" using assms(2) by (simp add: d' commissions_ok_def)
    fix p assume "p \<in> set (referrals d')"
    then have "p = (u, row) \<or> p \<in> set (referrals d)"
      unfolding d' using set_update[of "fst p" "snd p" u row "referrals d"] by (metis prod.collapse)
    then show "case p of (k, r) \<Rightarrow> 0 \<le> rf_commissionClaimedLamports r \<and> rf_commissionClaimedLamports r \<le> rf_commissionLamports r"
      using row assms(2) by (auto simp: commissions_ok_def)
  qed
qed (use assms in simp)

lemma update_in_place: "keyed t \<Longrightarrow> map_of t k = Some w \<Longrightarrow>
    AList.update k v t = map (\<lambda>(j, x). (j, if j = k then v else x)) t"
proof (induction t)
  case (Cons p t)
  obtain j x where p: "p = (j, x)" by force
  show ?case
  proof (cases "j = k")
    case True
    have "k \<notin> fst ` set t" using Cons.prems(1) by (simp add: keyed_def p True)
    then have "map (\<lambda>(j, x). (j, if j = k then v else x)) t = t" by (intro map_idI) force
    then show ?thesis by (simp add: p True)
  next
    case False
    then show ?thesis using Cons by (simp add: p keyed_def)
  qed
qed simp

definition claimed_upto :: "(nat \<times> int) list \<Rightarrow> nat \<times> referral \<Rightarrow> nat \<times> referral" where
  "claimed_upto as = (\<lambda>(k, r). (k, case map_of as k of None \<Rightarrow> r | Some t \<Rightarrow> r\<lparr>rf_commissionClaimedLamports := t\<rparr>))"

lemma advance_all_eq:
  assumes "keyed (referrals d)" and "distinct (map fst as)" and "fst ` set as \<subseteq> fst ` set (referrals d)"
  shows "advance_all as d = Inr (d\<lparr>referrals := map (claimed_upto as) (referrals d)\<rparr>)"
  using assms
proof (induction as arbitrary: d)
  case Nil
  have "map (claimed_upto []) (referrals d) = referrals d" by (intro map_idI) (auto simp: claimed_upto_def)
  then show ?case by simp
next
  case (Cons a as)
  obtain k t where a: "a = (k, t)" by force
  have "k \<in> fst ` set (referrals d)" using Cons.prems(3) a by auto
  then obtain r where r: "map_of (referrals d) k = Some r"
    by (metis (no_types, lifting) domIff dom_map_of_conv_image_fst option.exhaust)
  let ?f = "\<lambda>(j, x). (j, if j = k then r\<lparr>rf_commissionClaimedLamports := t\<rparr> else x)"
  define d1 where "d1 = d\<lparr>referrals := map ?f (referrals d)\<rparr>"
  have 1: "advance_claimed k t d = Inr d1"
    by (simp add: advance_claimed_def r update_in_place[OF Cons.prems(1) r] d1_def)
  have keys: "map fst (referrals d1) = map fst (referrals d)" by (auto simp: d1_def)
  have "advance_all as d1 = Inr (d1\<lparr>referrals := map (claimed_upto as) (referrals d1)\<rparr>)"
  proof (rule Cons.IH)
    show "keyed (referrals d1)" using Cons.prems(1) keys by (simp add: keyed_def)
    show "distinct (map fst as)" using Cons.prems(2) by simp
    have "fst ` set (referrals d1) = fst ` set (referrals d)" using keys by (metis set_map)
    then show "fst ` set as \<subseteq> fst ` set (referrals d1)" using Cons.prems(3) by simp
  qed
  moreover have "map (claimed_upto as) (referrals d1) = map (claimed_upto (a # as)) (referrals d)"
  proof -
    have "claimed_upto as (?f p) = claimed_upto (a # as) p" if p: "p \<in> set (referrals d)" for p
    proof -
      obtain j x where jx: "p = (j, x)" by force
      show ?thesis
      proof (cases "j = k")
        case True
        have "map_of (referrals d) j = Some x" using p Cons.prems(1) jx by (simp add: keyed_def)
        then have "x = r" using r True by simp
        moreover have "map_of as k = None" using Cons.prems(2) by (simp add: a map_of_eq_None_iff)
        ultimately show ?thesis by (simp add: claimed_upto_def jx True a)
      next
        case False
        then show ?thesis by (simp add: claimed_upto_def jx a)
      qed
    qed
    then show ?thesis by (simp add: d1_def)
  qed
  ultimately show ?case by (simp add: a 1) (simp add: d1_def)
qed

lemma claim_eq:
  assumes "keyed (referrals d)" and "claim uid d = Inr (x, d')"
  defines "rows \<equiv> filter (\<lambda>(_, r). unclaimed r > 0) (claim_rows uid d)"
  shows "x = sum_list (map (unclaimed \<circ> snd) rows)" and "0 < x"
    and "referrals d' = map (claimed_upto (map (\<lambda>(rid, r). (rid, rf_commissionLamports r)) rows)) (referrals d)"
    and "posts [(uid, Jeton, x)] d d'"
proof -
  let ?as = "map (\<lambda>(rid, r). (rid, rf_commissionLamports r)) rows"
  have keys: "map fst ?as = map fst rows" by auto
  have sub: "set rows \<subseteq> set (referrals d)" by (auto simp: rows_def claim_rows_def)
  have "distinct (map fst rows)"
    using assms(1) by (simp add: rows_def claim_rows_def keyed_def distinct_map_filter)
  moreover have "fst ` set ?as \<subseteq> fst ` set (referrals d)" using sub keys by (metis image_mono set_map)
  ultimately have adv: "advance_all ?as d = Inr (d\<lparr>referrals := map (claimed_upto ?as) (referrals d)\<rparr>)"
    by (intro advance_all_eq[OF assms(1)]) (simp_all only: keys)
  let ?x = "sum_list (map (unclaimed \<circ> snd) rows)" and ?d1 = "d\<lparr>referrals := map (claimed_upto ?as) (referrals d)\<rparr>"
  obtain b where pos: "0 < ?x" and x: "x = ?x"
    and ap: "applyBalanceDelta uid ?x (jeton_meta ''affiliate_commission'' ''Referral'') ?d1 = Inr (b, d')"
    using assms(2) adv unfolding claim_def rows_def by (auto simp: Let_def split: if_splits)
  show "x = ?x" "0 < x" using pos x by simp_all
  show "referrals d' = map (claimed_upto ?as) (referrals d)" using ap by (auto simp: applyBalanceDelta_Inr)
  have "posts [] d ?d1" by (simp add: posts_Nil same_moneyI)
  from posts_trans[OF this applyBalanceDelta_posts[OF ap]] show "posts [(uid, Jeton, x)] d d'" by (simp add: x)
qed

lemma claim_posts: "claim uid d = Inr (x, d') \<Longrightarrow> posts [(uid, Jeton, x)] d d'"
proof -
  assume "claim uid d = Inr (x, d')"
  then obtain d1 b where "advance_all (map (\<lambda>(rid, r). (rid, rf_commissionLamports r))
      (filter (\<lambda>(_, r). unclaimed r > 0) (claim_rows uid d))) d = Inr d1"
    and ap: "applyBalanceDelta uid x (jeton_meta ''affiliate_commission'' ''Referral'') d1 = Inr (b, d')"
    by (auto simp: claim_def Let_def split: if_splits)
  moreover have "advance_all as d = Inr d1 \<Longrightarrow> same_money d d1" for as d d1
  proof (induction as arbitrary: d)
    case (Cons a as)
    then obtain d2 where "advance_claimed (fst a) (snd a) d = Inr d2" "advance_all as d2 = Inr d1" by (cases a) auto
    moreover from this(1) have "same_money d d2"
      by (auto simp: advance_claimed_def intro!: same_moneyI split: option.splits)
    ultimately show ?case using Cons.IH same_money_trans by blast
  qed simp
  ultimately have "same_money d d1" by blast
  then have "posts [] d d1" by (simp add: posts_Nil)
  from posts_trans[OF this applyBalanceDelta_posts[OF ap]] show ?thesis by simp
qed

interpretation affiliate_claim: money_command claim "\<lambda>uid _ x. [(uid, Jeton, x)]"
  by unfold_locales (rule claim_posts)

text \<open>
  C16. Commission is paid at most once. A claim credits exactly what the referrer's unflagged referrals
  have earned and not yet paid out, which is positive, keeps every row's claimed amount within what it
  earned, and leaves nothing: a second claim fails until another wager is settled.
\<close>

theorem commission_paid_once:
  assumes "commissions_ok d" and "claim uid d = Inr (x, d')"
  shows "x = sum_list (map (unclaimed \<circ> snd) (claim_rows uid d)) \<and> 0 < x
    \<and> bal d' uid Jeton = bal d uid Jeton + x \<and> commissions_ok d'
    \<and> claim uid d' = Inl (BadRequest ''No commission to claim'')"
proof -
  have keyed: "keyed (referrals d)" and le: "\<And>k r. (k, r) \<in> set (referrals d) \<Longrightarrow>
      0 \<le> rf_commissionClaimedLamports r \<and> rf_commissionClaimedLamports r \<le> rf_commissionLamports r"
    using assms(1) by (auto simp: commissions_ok_def)
  define rows where "rows = filter (\<lambda>(_, r). unclaimed r > 0) (claim_rows uid d)"
  define as where "as = map (\<lambda>(rid, r). (rid, rf_commissionLamports r)) rows"
  note eq = claim_eq[OF keyed assms(2), folded rows_def, folded as_def]
  have drop: "sum_list (map (unclaimed \<circ> snd) (filter (\<lambda>(_, r). unclaimed r > 0) xs)) = sum_list (map (unclaimed \<circ> snd) xs)"
    if "\<And>k r. (k, r) \<in> set xs \<Longrightarrow> 0 \<le> unclaimed r" for xs :: "(nat \<times> referral) list"
    using that
  proof (induction xs)
    case (Cons p xs)
    obtain k r where p: "p = (k, r)" by force
    have "0 \<le> unclaimed r" using Cons.prems[of k r] p by simp
    then show ?case using Cons.IH Cons.prems by (auto simp: p)
  qed simp
  have x: "x = sum_list (map (unclaimed \<circ> snd) (claim_rows uid d))"
    unfolding eq(1) rows_def by (rule drop) (use le in \<open>fastforce simp: claim_rows_def unclaimed_def\<close>)
  have lookup: "map_of as k = (if rf_referrerId r = uid \<and> \<not> rf_flagged r \<and> 0 < unclaimed r
      then Some (rf_commissionLamports r) else None)" if "(k, r) \<in> set (referrals d)" for k r
  proof -
    have dist: "distinct (map fst as)" "map fst as = map fst rows"
      using keyed by (auto simp: as_def rows_def claim_rows_def keyed_def distinct_map_filter comp_def case_prod_beta)
    have only: "r' = r" if "(k, r') \<in> set (referrals d)" for r'
      using that \<open>(k, r) \<in> set (referrals d)\<close> keyed by (metis keyed_def map_of_is_SomeI option.inject)
    show ?thesis
    proof (cases "rf_referrerId r = uid \<and> \<not> rf_flagged r \<and> 0 < unclaimed r")
      case True
      then have "(k, rf_commissionLamports r) \<in> set as"
        using that by (force simp: as_def rows_def claim_rows_def)
      then show ?thesis using True dist by (simp add: map_of_is_SomeI)
    next
      case False
      have "k \<notin> fst ` set as"
      proof
        assume "k \<in> fst ` set as"
        then have "k \<in> fst ` set rows" using dist(2) by (metis set_map)
        then obtain r' where "(k, r') \<in> set rows" by auto
        then show False using False only by (auto simp: rows_def claim_rows_def)
      qed
      then show ?thesis using False by (auto simp: map_of_eq_None_iff)
    qed
  qed
  have after: "\<exists>r. (k, r) \<in> set (referrals d) \<and> r' = (if rf_referrerId r = uid \<and> \<not> rf_flagged r \<and> 0 < unclaimed r
      then r\<lparr>rf_commissionClaimedLamports := rf_commissionLamports r\<rparr> else r)" if "(k, r') \<in> set (referrals d')" for k r'
  proof -
    obtain r where "(k, r) \<in> set (referrals d)" "(k, r') = claimed_upto as (k, r)"
      using \<open>(k, r') \<in> set (referrals d')\<close> unfolding eq(3) by (auto simp: claimed_upto_def)
    then show ?thesis using lookup[of k r] by (intro exI[of _ r]) (auto simp: claimed_upto_def)
  qed
  have "map fst (referrals d') = map fst (referrals d)" unfolding eq(3) by (auto simp: claimed_upto_def)
  then have ok: "commissions_ok d'" unfolding commissions_ok_def
    using keyed le order_trans[OF conjunct1[OF le] conjunct2[OF le]] by (auto simp: keyed_def dest!: after)
  have "unclaimed r' = 0" if "(k, r') \<in> set (claim_rows uid d')" for k r'
    using after[of k r'] that le by (fastforce simp: claim_rows_def unclaimed_def split: if_splits)
  then have "filter (\<lambda>(_, r). unclaimed r > 0) (claim_rows uid d') = []"
    by (auto simp: filter_empty_conv)
  then have "claim uid d' = Inl (BadRequest ''No commission to claim'')" by (simp add: claim_def)
  moreover have "bal d' uid Jeton = bal d uid Jeton + x"
    using affiliate_claim.moves_exactly[OF assms(2), of uid Jeton] by simp
  ultimately show ?thesis using x eq(2) ok by blast
qed

definition sample_referral_db :: db where
  "sample_referral_db = empty_db\<lparr>users := [(1, new_user)], referrals :=
     [(2, \<lparr>rf_referrerId = 1, rf_volumeLamports = 500, rf_commissionLamports = 30,
           rf_commissionClaimedLamports = 10, rf_flagged = False, rf_createdAt = 0\<rparr>)]\<rparr>"

theorem commission_paid_once_witness:
  "\<exists>d'. claim 1 sample_referral_db = Inr (20, d') \<and> claim 1 d' = Inl (BadRequest ''No commission to claim'')"
proof -
  have ok: "commissions_ok sample_referral_db" by (simp add: commissions_ok_def sample_referral_db_def keyed_def)
  have "\<exists>d'. claim 1 sample_referral_db = Inr (20, d')"
    by (simp add: sample_referral_db_def claim_def claim_rows_def unclaimed_def advance_claimed_def
        applyBalanceDelta_def updateUser_def jeton_meta_def)
  then obtain d' where "claim 1 sample_referral_db = Inr (20, d')" ..
  then show ?thesis using commission_paid_once[OF ok] by blast
qed

end
