(* ===== verification/Fair_Derive.thy ===== *)
theory Fair_Derive
  imports Fair_Games Fair_Shuffle Fair_Tickets Shared_Payouts "HOL-Library.List_Lexorder" "HOL-Library.Char_ord"
begin

text \<open>
  \<open>packages/fair/src/derive.ts\<close>: the single derivation every game goes through. Without on-chain entropy
  it passes the seed context through; with it, the round entropy and a hash of the game's parameters
  are folded into the server seed. \<open>String(x)\<close> of a number is the parameter \<open>num_text\<close>.
\<close>

datatype param_value = Num_value rat | Text_value string | Bool_value bool

type_synonym game_params = "(string \<times> param_value) list"

fun param_text :: "(rat \<Rightarrow> string) \<Rightarrow> param_value \<Rightarrow> string" where
  "param_text num_text (Num_value r) = num_text r"
| "param_text num_text (Text_value s) = s"
| "param_text num_text (Bool_value b) = (if b then ''true'' else ''false'')"

fun join_lines :: "string list \<Rightarrow> string" where
  "join_lines [] = []"
| "join_lines [s] = s"
| "join_lines (s # t # ss) = s @ [CHR 0x0A] @ join_lines (t # ss)"

definition gameParamsHash :: "sha \<Rightarrow> (rat \<Rightarrow> string) \<Rightarrow> game_params \<Rightarrow> byte list" where
  "gameParamsHash sha num_text params =
     (let canonical = join_lines (map (\<lambda>(k, v). k @ ''='' @ param_text num_text v) (sort_key fst params))
      in digest_bytes (sha (utf8 canonical)))"

definition rngEntropy :: "sha \<Rightarrow> string \<Rightarrow> byte list \<Rightarrow> byte list \<Rightarrow> nat \<Rightarrow> byte list \<Rightarrow> digest result" where
  "rngEntropy sha serverSeed clientSeed32 slotHash nonce paramsHash =
     (if length clientSeed32 \<noteq> 32 then Inl (Internal ''clientSeed32 must be exactly 32 bytes'')
      else if length slotHash \<noteq> 32 then Inl (Internal ''slotHash must be exactly 32 bytes'')
      else if length paramsHash \<noteq> 32 then Inl (Internal ''paramsHash must be exactly 32 bytes'')
      else Inr (sha (utf8 serverSeed @ slotHash @ clientSeed32 @ u32le nonce @ paramsHash)))"

record seed_context =
  sc_serverSeed :: string
  sc_clientSeed :: string
  sc_nonce :: nat

definition deriveSeedContext ::
  "sha \<Rightarrow> (rat \<Rightarrow> string) \<Rightarrow> string \<Rightarrow> string \<Rightarrow> nat \<Rightarrow> byte list option \<Rightarrow> game_params \<Rightarrow> seed_context result" where
  "deriveSeedContext sha num_text serverSeed clientSeed nonce onchainEntropy params =
     (case onchainEntropy of
        None \<Rightarrow> Inr \<lparr>sc_serverSeed = serverSeed, sc_clientSeed = clientSeed, sc_nonce = nonce\<rparr>
      | Some entropy \<Rightarrow>
          bindE (rngEntropy sha serverSeed (padClientSeed32 clientSeed) entropy nonce (gameParamsHash sha num_text params))
            (\<lambda>folded. Inr \<lparr>sc_serverSeed = digest_hex folded, sc_clientSeed = clientSeed, sc_nonce = nonce\<rparr>))"

definition offchainSlotHash :: "sha \<Rightarrow> string \<Rightarrow> string \<Rightarrow> byte list" where
  "offchainSlotHash sha serverSeed clientSeed = syntheticSlotHash sha serverSeed clientSeed"

text \<open>
  \<open>deriveOutcome\<close>: one route per game. \<open>Number(p.key ?? default)\<close> of a parameter is its value when that is
  a whole number or decimal text; the callers pass nothing else, and the model rejects it.
\<close>

datatype game_outcome =
    Crash_at rat | Flip_side side | Dice_roll rat | Limbo_result rat | Wheel_index int
  | Plinko_path "nat list" nat | Mines_field "nat list" | Hilo_cards "int list"
  | Tower_traps "nat list list" | Keno_drawn "nat list" | Jackpot_ticket int

definition is_digits :: "string \<Rightarrow> bool" where
  "is_digits s \<longleftrightarrow> s \<noteq> [] \<and> list_all (\<lambda>c. CHR ''0'' \<le> c \<and> c \<le> CHR ''9'') s"

definition parse_decimal :: "string \<Rightarrow> nat" where
  "parse_decimal s = foldl (\<lambda>acc c. acc * 10 + hex_value c) 0 s"

definition param_nat :: "string \<Rightarrow> nat \<Rightarrow> game_params \<Rightarrow> nat result" where
  "param_nat k dflt params = (case map_of params k of
      None \<Rightarrow> Inr dflt
    | Some (Num_value r) \<Rightarrow>
        if r = of_int \<lfloor>r\<rfloor> \<and> 0 \<le> r then Inr (nat \<lfloor>r\<rfloor>) else Inl (Internal ''not a whole number'')
    | Some (Text_value s) \<Rightarrow> if is_digits s then Inr (parse_decimal s) else Inl (Internal ''not a whole number'')
    | Some (Bool_value b) \<Rightarrow> Inr (if b then 1 else 0))"

definition deriveOutcome ::
  "hmac \<Rightarrow> sha \<Rightarrow> (rat \<Rightarrow> string) \<Rightarrow> game \<Rightarrow> string \<Rightarrow> string \<Rightarrow> nat \<Rightarrow> byte list option \<Rightarrow> game_params
     \<Rightarrow> game_outcome result" where
  "deriveOutcome hmac sha num_text gameType serverSeed clientSeed nonce onchainEntropy p =
     bindE (deriveSeedContext sha num_text serverSeed clientSeed nonce onchainEntropy p) (\<lambda>ctx.
       let s = sc_serverSeed ctx; c = sc_clientSeed ctx; n = sc_nonce ctx in
       case gameType of
         Crash \<Rightarrow> Inr (Crash_at (crashPoint hmac s c n))
       | Coinflip \<Rightarrow> Inr (Flip_side (coinflipResult hmac s c n))
       | Dice \<Rightarrow> Inr (Dice_roll (diceRoll hmac s c n))
       | Limbo \<Rightarrow> Inr (Limbo_result (limboResult hmac s c n HOUSE_EDGE))
       | Wheel \<Rightarrow> Inr (Wheel_index (wheelSpin hmac s c n WHEEL_SEGMENTS))
       | Plinko \<Rightarrow> bindE (param_nat ''rows'' 16 p) (\<lambda>rows.
           Inr (case plinkoDrop hmac s c n rows of (path, bin) \<Rightarrow> Plinko_path path bin))
       | Mines \<Rightarrow> bindE (param_nat ''mines'' 3 p) (\<lambda>k. Inr (Mines_field (mineField hmac s c n (nat MINES_CELLS) k)))
       | Hilo \<Rightarrow> bindE (param_nat ''length'' 26 p) (\<lambda>k. Inr (Hilo_cards (hiloSequence hmac s c n k)))
       | Tower \<Rightarrow> Inr (Tower_traps (towerTraps hmac s c n TOWER_ROWS TOWER_COLUMNS TOWER_SAFE_PER_ROW))
       | Keno \<Rightarrow> Inr (Keno_drawn (kenoDraw hmac s c n))
       | Jackpot \<Rightarrow> bindE (param_nat ''totalLamports'' 1 p) (\<lambda>t.
           Inr (Jackpot_ticket (jackpotWinningTicket hmac s c n (int t))))
       | _ \<Rightarrow> Inl (Internal ''deriveOutcome: unsupported gameType''))"

subsection \<open>The fold\<close>

lemma length_padClientSeed32 [simp]: "length (padClientSeed32 c) = 32"
  by (simp add: padClientSeed32_def Let_def)

lemma length_gameParamsHash [simp]: "length (gameParamsHash sha num_text p) = 32"
  by (simp add: gameParamsHash_def digest_bytes_def)

lemma deriveSeedContext_passthrough [simp]:
  "deriveSeedContext sha nt s c n None p = Inr \<lparr>sc_serverSeed = s, sc_clientSeed = c, sc_nonce = n\<rparr>"
  by (simp add: deriveSeedContext_def)

lemma deriveSeedContext_onchain:
  "deriveSeedContext sha nt s c n (Some e) p =
     (if length e = 32
      then Inr \<lparr>sc_serverSeed = digest_hex (sha (utf8 s @ e @ padClientSeed32 c @ u32le n @ gameParamsHash sha nt p)),
                sc_clientSeed = c, sc_nonce = n\<rparr>
      else Inl (Internal ''slotHash must be exactly 32 bytes''))"
  by (simp add: deriveSeedContext_def rngEntropy_def)

text \<open>The hash does not depend on the order in which the parameters are listed.\<close>

lemma sort_key_fst_perm:
  fixes ps qs :: "('k::linorder \<times> 'v) list"
  assumes "mset ps = mset qs" and "distinct (map fst ps)"
  shows "sort_key fst ps = sort_key fst qs"
  using assms by (intro sort_key_inj_key_eq) (simp_all add: distinct_map)

lemma gameParamsHash_perm:
  "mset ps = mset qs \<Longrightarrow> distinct (map fst ps) \<Longrightarrow> gameParamsHash sha nt ps = gameParamsHash sha nt qs"
  by (simp add: gameParamsHash_def sort_key_fst_perm[of ps qs])

text \<open>
  One derivation serves off-chain and on-chain play. Without round entropy every game is its own
  draw on the given seed context; with 32 bytes of it, it is the same draw with the folded server
  seed in place of the given one, the client seed and nonce are kept, the order in which the game
  parameters are listed does not matter, and entropy of another length is refused.
\<close>

theorem derive_one_source:
  assumes "distinct (map fst ps)" and "mset ps = mset qs" and "length e = 32"
    and folded_def: "folded = digest_hex (sha (utf8 s @ e @ padClientSeed32 c @ u32le n @ gameParamsHash sha nt ps))"
  shows "deriveOutcome hmac sha nt g s c n (Some e) ps = deriveOutcome hmac sha nt g folded c n None ps
    \<and> deriveOutcome hmac sha nt g s c n (Some e) qs = deriveOutcome hmac sha nt g s c n (Some e) ps
    \<and> deriveOutcome hmac sha nt g s c n (Some (e @ x # xs)) ps = Inl (Internal ''slotHash must be exactly 32 bytes'')"
proof (intro conjI)
  show "deriveOutcome hmac sha nt g s c n (Some e) ps = deriveOutcome hmac sha nt g folded c n None ps"
    using assms(3) by (simp add: deriveOutcome_def deriveSeedContext_onchain folded_def)
  have hash: "gameParamsHash sha nt qs = gameParamsHash sha nt ps"
    using gameParamsHash_perm[OF assms(2,1)] by simp
  have "distinct (map fst qs)" "set ps = set qs"
    using assms(1,2) by (metis mset_eq_imp_distinct_iff mset_map) (metis assms(2) set_mset_mset)
  then have "map_of qs = map_of ps" using assms(1) by (metis map_of_inject_set)
  then have number: "param_nat k d qs = param_nat k d ps" for k d by (simp add: param_nat_def)
  show "deriveOutcome hmac sha nt g s c n (Some e) qs = deriveOutcome hmac sha nt g s c n (Some e) ps"
    by (cases g) (simp_all add: deriveOutcome_def deriveSeedContext_onchain hash number)
  show "deriveOutcome hmac sha nt g s c n (Some (e @ x # xs)) ps = Inl (Internal ''slotHash must be exactly 32 bytes'')"
    using assms(3) by (simp add: deriveOutcome_def deriveSeedContext_onchain)
qed

definition toy_hmac :: hmac where
  "toy_hmac k msg = of_nat (parse_hex (take 8 k) * 2 ^ 200 + sum_list (map of_char msg))"

definition toy_sha :: sha where
  "toy_sha bs = of_nat (sum_list (map unat bs) * 2 ^ 220)"

theorem derive_one_source_witness:
  "deriveOutcome toy_hmac toy_sha (\<lambda>_. ''3'') Keno ''ab'' ''c'' 7 (Some (replicate 32 1)) [(''risk'', Text_value ''low''), (''picks'', Text_value ''1,2'')]
   = deriveOutcome toy_hmac toy_sha (\<lambda>_. ''3'') Keno ''ab'' ''c'' 7 (Some (replicate 32 1)) [(''picks'', Text_value ''1,2''), (''risk'', Text_value ''low'')]"
  using derive_one_source[of "[(''picks'', Text_value ''1,2''), (''risk'', Text_value ''low'')]"
    "[(''risk'', Text_value ''low''), (''picks'', Text_value ''1,2'')]" "replicate 32 1" _ toy_sha "''ab''" "''c''" 7 "\<lambda>_. ''3''" toy_hmac Keno, OF _ _ _ refl]
  by (simp add: add_mset_commute)

end
