(* ===== verification/Instant.thy ===== *)
theory Instant
  imports Transactions Seeds Responsible_Gambling Affiliates Fair_Derive Fair_Shuffle
begin

text \<open>
  \<open>apps/api/src/games/instant/instant-settle.ts\<close>, the one settlement path of dice, limbo, wheel, plinko and
  keno, and the five services that call it. \<open>play_env\<close> holds everything the code takes from outside:
  switches and clock, hash functions, random seeds, JavaScript's number printing and powers, and the
  on-chain randomness driver, which is absent (\<open>None\<close>) or gives the round's entropy or nothing. The
  live feed and the display copy \<open>resultJson\<close> of the response fields are left out.
\<close>

record play_env =
  env_wager :: wager_env
  env_enforced :: bool
  env_hmac :: hmac
  env_sha :: sha
  env_text :: "rat \<Rightarrow> string"
  env_fresh :: fresh_seeds
  env_pow :: "rat \<Rightarrow> rat \<Rightarrow> rat"
  env_powi :: "rat \<Rightarrow> nat \<Rightarrow> rat"
  env_chain :: "(seed_ctx \<Rightarrow> byte list option) option"

abbreviation env_now :: "play_env \<Rightarrow> int" where
  "env_now env \<equiv> now_ms (env_wager env)"

datatype instant_detail =
    Dice_detail rat rat dice_mode
  | Limbo_detail rat rat
  | Wheel_detail int int
  | Plinko_detail nat nat "nat list"
  | Keno_detail "nat list" keno_risk "nat list" nat

type_synonym instant_outcome = "rat \<times> instant_detail"

record instant_result =
  in_betId :: nat
  in_gameType :: game
  in_amountLamports :: int
  in_payoutLamports :: int
  in_multiplier :: rat
  in_won :: bool
  in_balanceLamports :: int
  in_detail :: instant_detail
  in_serverSeedHash :: string
  in_clientSeed :: string
  in_nonce :: nat

subsection \<open>settleInstantBet\<close>

definition instant_payout :: "int \<Rightarrow> rat \<Rightarrow> int" where
  "instant_payout amountLamports m =
     (if m > 0 then bigint_div (amountLamports * js_round (fl (m * 100))) 100 else 0)"

text \<open>The seed reserved before the transaction when the chain is live.\<close>

definition prepare_seed :: "play_env \<Rightarrow> nat \<Rightarrow> db \<Rightarrow> ((seed_ctx option \<times> byte list option) \<times> db) result" where
  "prepare_seed env userId d = (case env_chain env of
      None \<Rightarrow> Inr ((None, None), d)
    | Some roundEntropy \<Rightarrow>
        bindE (reserveSeedContext (env_sha env) (env_fresh env) userId d)
          (\<lambda>(ctx, d1). Inr ((Some ctx, roundEntropy ctx), d1)))"

definition fold_seed :: "play_env \<Rightarrow> nat \<Rightarrow> game_params \<Rightarrow> seed_ctx option \<times> byte list option \<Rightarrow> db
    \<Rightarrow> (seed_ctx \<times> db) result" where
  "fold_seed env userId params = (\<lambda>(reserved_ctx, onchainEntropy) d.
     bindE (case reserved_ctx of
              Some ctx \<Rightarrow> Inr (ctx, d)
            | None \<Rightarrow> consumeNonce (env_sha env) (env_fresh env) userId d)
       (\<lambda>(ctx, d1).
         bindE (deriveSeedContext (env_sha env) (env_text env) (ctx_serverSeed ctx) (ctx_clientSeed ctx)
                  (ctx_nonce ctx) onchainEntropy params)
           (\<lambda>folded. Inr (\<lparr>ctx_serverSeed = sc_serverSeed folded, ctx_serverSeedHash = ctx_serverSeedHash ctx,
                           ctx_clientSeed = sc_clientSeed folded, ctx_nonce = sc_nonce folded\<rparr>, d1))))"

text \<open>The lifetime aggregates, and \<open>biggestWin\<close> by a raw \<open>GREATEST\<close>.\<close>

definition bump_stats :: "int \<Rightarrow> int \<Rightarrow> user \<Rightarrow> user" where
  "bump_stats stake netProfit u =
     u\<lparr>totalWagered := totalWagered u + stake,
       totalWon := totalWon u + (if netProfit > 0 then netProfit else 0),
       totalLost := totalLost u + (if netProfit < 0 then - netProfit else 0),
       gamesPlayed := gamesPlayed u + 1\<rparr>"

definition raise_biggest :: "int \<Rightarrow> user \<Rightarrow> user" where
  "raise_biggest netProfit u = u\<lparr>biggestWin := max (biggestWin u) netProfit\<rparr>"

definition game_name :: "game \<Rightarrow> string" where
  "game_name g = (case g of Crash \<Rightarrow> ''crash'' | Coinflip \<Rightarrow> ''coinflip'' | Jackpot \<Rightarrow> ''jackpot''
     | Lottery \<Rightarrow> ''lottery'' | Blackjack \<Rightarrow> ''blackjack'' | Dice \<Rightarrow> ''dice'' | Limbo \<Rightarrow> ''limbo''
     | Wheel \<Rightarrow> ''wheel'' | Plinko \<Rightarrow> ''plinko'' | Mines \<Rightarrow> ''mines'' | Hilo \<Rightarrow> ''hilo'' | Tower \<Rightarrow> ''tower''
     | Keno \<Rightarrow> ''keno'')"

definition create_bet :: "bet \<Rightarrow> db \<Rightarrow> nat \<times> db" where
  "create_bet b d = (length (bets d), d\<lparr>bets := bets d @ [b]\<rparr>)"

text \<open>
  The tail that instant and stateful settlements share: aggregates, wager volume, commission and the
  unified bet row.
\<close>

definition record_settlement ::
  "play_env \<Rightarrow> nat \<Rightarrow> game \<Rightarrow> int \<Rightarrow> int \<Rightarrow> bet \<Rightarrow> db \<Rightarrow> (nat \<times> db) result" where
  "record_settlement env userId gameType stake netProfit b d =
     bindE (updateUser userId (bump_stats stake netProfit) d) (\<lambda>d4.
       let d5 = executeUser userId (raise_biggest netProfit) d4;
           d6 = snd (accrue (env_now env) userId stake d5) in
     bindE (creditReferral (env_enforced env) (env_now env) userId stake gameType d6) (\<lambda>d7.
       Inr (create_bet b d7)))"

definition settle_instant_tx ::
  "play_env \<Rightarrow> nat \<Rightarrow> game \<Rightarrow> int \<Rightarrow> game_params \<Rightarrow> (seed_ctx \<Rightarrow> instant_outcome)
     \<Rightarrow> seed_ctx option \<times> byte list option \<Rightarrow> db \<Rightarrow> (instant_result \<times> db) result" where
  "settle_instant_tx env userId gameType amountLamports params resolve prepared d =
     bindE (applyBalanceDelta userId (- amountLamports) (jeton_meta (game_name gameType @ ''_bet'') ''Bet'') d) (\<lambda>(_, d1).
     bindE (fold_seed env userId params prepared d1) (\<lambda>(seed, d2).
       let (m, detail) = resolve seed;
           payoutLamports = instant_payout amountLamports m;
           netProfit = payoutLamports - amountLamports;
           won = (netProfit > 0) in
     bindE (if payoutLamports > 0
            then applyBalanceDelta userId payoutLamports (jeton_meta (game_name gameType @ ''_settle'') ''Bet'') d2
            else Inr (0, d2)) (\<lambda>(_, d3).
     bindE (record_settlement env userId gameType amountLamports netProfit
             \<lparr>b_userId = userId, b_gameType = gameType, b_amountLamports = amountLamports,
              b_payoutLamports = payoutLamports, b_multiplier = Some m, b_status = (if won then BetWon else BetLost),
              b_nonce = Some (ctx_nonce seed), b_seedId = None, b_createdAt = env_now env\<rparr> d3) (\<lambda>(betId, d4).
       case map_of (users d4) userId of
         None \<Rightarrow> Inl (Internal ''P2025'')
       | Some u \<Rightarrow>
           Inr (\<lparr>in_betId = betId, in_gameType = gameType, in_amountLamports = amountLamports,
                 in_payoutLamports = payoutLamports, in_multiplier = m, in_won = won,
                 in_balanceLamports = playBalanceLamports u, in_detail = detail,
                 in_serverSeedHash = ctx_serverSeedHash seed, in_clientSeed = ctx_clientSeed seed,
                 in_nonce = ctx_nonce seed\<rparr>, d4)))))"

definition settleInstantBet ::
  "play_env \<Rightarrow> nat \<Rightarrow> game \<Rightarrow> int \<Rightarrow> game_params \<Rightarrow> (seed_ctx \<Rightarrow> instant_outcome) \<Rightarrow> db
     \<Rightarrow> instant_result result \<times> db" where
  "settleInstantBet env userId gameType amountLamports params resolve d =
     (if amountLamports \<le> 0 then (Inl (BadRequest ''amount must be positive''), d)
      else case assertCanWager (env_wager env) userId amountLamports d of
        Inl e \<Rightarrow> (Inl e, d)
      | Inr _ \<Rightarrow> (case prepare_seed env userId d of
          Inl e \<Rightarrow> (Inl e, d)
        | Inr (prepared, d1) \<Rightarrow> (case settle_instant_tx env userId gameType amountLamports params resolve prepared d1 of
            Inl e \<Rightarrow> (Inl e, d1)
          | Inr (r, d2) \<Rightarrow> (Inr r, d2))))"

subsection \<open>The five services\<close>

definition bet_in_range :: "int \<Rightarrow> bool" where
  "bet_in_range amountLamports \<longleftrightarrow> \<not> (amountLamports < MIN_BET_LAMPORTS \<or> amountLamports > MAX_BET_LAMPORTS)"

definition mode_text :: "dice_mode \<Rightarrow> string" where
  "mode_text m = (case m of Under \<Rightarrow> ''under'' | Over \<Rightarrow> ''over'')"

definition dice_resolve :: "play_env \<Rightarrow> rat \<times> dice_mode \<Rightarrow> seed_ctx \<Rightarrow> instant_outcome" where
  "dice_resolve env = (\<lambda>(target, mode) s.
     let m = diceMultiplier target mode DICE_HOUSE_EDGE;
         roll = diceRoll (env_hmac env) (ctx_serverSeed s) (ctx_clientSeed s) (ctx_nonce s);
         won = (if mode = Over then roll \<ge> target else roll < target)
     in (if won then m else 0, Dice_detail roll target mode))"

definition dice_play :: "play_env \<Rightarrow> nat \<Rightarrow> int \<Rightarrow> rat \<Rightarrow> dice_mode \<Rightarrow> db \<Rightarrow> instant_result result \<times> db" where
  "dice_play env userId amountLamports target mode d =
     (if target < of_int DICE_MIN_TARGET \<or> target > of_int DICE_MAX_TARGET
      then (Inl (BadRequest ''target must be in [2, 98]''), d)
      else if \<not> bet_in_range amountLamports then (Inl (BadRequest ''bet amount out of range''), d)
      else settleInstantBet env userId Dice amountLamports
             [(''target'', Num_value target), (''mode'', Text_value (mode_text mode))]
             (dice_resolve env (target, mode)) d)"

definition limbo_resolve :: "play_env \<Rightarrow> rat \<Rightarrow> seed_ctx \<Rightarrow> instant_outcome" where
  "limbo_resolve env targetMult s =
     (let result = limboResult (env_hmac env) (ctx_serverSeed s) (ctx_clientSeed s) (ctx_nonce s) HOUSE_EDGE;
          won = (result \<ge> targetMult)
      in (if won then targetMult else 0, Limbo_detail result targetMult))"

definition limbo_play :: "play_env \<Rightarrow> nat \<Rightarrow> int \<Rightarrow> rat \<Rightarrow> db \<Rightarrow> instant_result result \<times> db" where
  "limbo_play env userId amountLamports target d =
     (if target < LIMBO_MIN_TARGET \<or> target > LIMBO_MAX_TARGET
      then (Inl (BadRequest ''target must be in [1.01, 1000000]''), d)
      else if \<not> bet_in_range amountLamports then (Inl (BadRequest ''bet amount out of range''), d)
      else let targetMult = floor2 target
           in settleInstantBet env userId Limbo amountLamports [(''target'', Num_value targetMult)]
                (limbo_resolve env targetMult) d)"

definition wheel_resolve :: "play_env \<Rightarrow> seed_ctx \<Rightarrow> instant_outcome" where
  "wheel_resolve env s =
     (let index = wheelSpin (env_hmac env) (ctx_serverSeed s) (ctx_clientSeed s) (ctx_nonce s) WHEEL_SEGMENTS
      in (wheelMultiplier index, Wheel_detail index WHEEL_SEGMENTS))"

definition wheel_play :: "play_env \<Rightarrow> nat \<Rightarrow> int \<Rightarrow> db \<Rightarrow> instant_result result \<times> db" where
  "wheel_play env userId amountLamports d =
     (if \<not> bet_in_range amountLamports then (Inl (BadRequest ''bet amount out of range''), d)
      else settleInstantBet env userId Wheel amountLamports [(''segments'', Num_value (of_int WHEEL_SEGMENTS))]
             (wheel_resolve env) d)"

definition plinko_resolve :: "play_env \<Rightarrow> nat \<times> rat list \<Rightarrow> seed_ctx \<Rightarrow> instant_outcome" where
  "plinko_resolve env = (\<lambda>(rows, payouts) s.
     let (path, bin) = plinkoDrop (env_hmac env) (ctx_serverSeed s) (ctx_clientSeed s) (ctx_nonce s) rows;
         m = (case get_at payouts bin of None \<Rightarrow> 0 | Some x \<Rightarrow> x)
     in (m, Plinko_detail rows bin path))"

definition plinko_play :: "play_env \<Rightarrow> nat \<Rightarrow> int \<Rightarrow> nat \<Rightarrow> db \<Rightarrow> instant_result result \<times> db" where
  "plinko_play env userId amountLamports rows d = (case plinkoPayouts rows of
      None \<Rightarrow> (Inl (BadRequest ''rows must be one of 8, 12, 16''), d)
    | Some payouts \<Rightarrow>
        if \<not> bet_in_range amountLamports then (Inl (BadRequest ''bet amount out of range''), d)
        else settleInstantBet env userId Plinko amountLamports [(''rows'', Num_value (of_nat rows))]
               (plinko_resolve env (rows, payouts)) d)"

definition KENO_MIN_PICKS :: nat where "KENO_MIN_PICKS = 1"
definition KENO_MAX_PICKS :: nat where "KENO_MAX_PICKS = 10"

definition risk_text :: "keno_risk \<Rightarrow> string" where
  "risk_text r = (case r of Low \<Rightarrow> ''low'' | Medium \<Rightarrow> ''medium'' | High \<Rightarrow> ''high'')"

fun join_commas :: "string list \<Rightarrow> string" where
  "join_commas [] = []"
| "join_commas [s] = s"
| "join_commas (s # t # ss) = s @ '','' @ join_commas (t # ss)"

definition keno_resolve :: "play_env \<Rightarrow> nat list \<times> keno_risk \<Rightarrow> seed_ctx \<Rightarrow> instant_outcome" where
  "keno_resolve env = (\<lambda>(picks, risk) s.
     let tab = kenoPaytable (env_pow env) risk (length picks) RTP;
         drawn = kenoDraw (env_hmac env) (ctx_serverSeed s) (ctx_clientSeed s) (ctx_nonce s);
         hits = kenoHits picks drawn
     in (case get_at tab hits of None \<Rightarrow> 0 | Some x \<Rightarrow> x, Keno_detail picks risk drawn hits))"

text \<open>The request's picks are integers; the others fail the check before anything else looks at them.\<close>

definition keno_play :: "play_env \<Rightarrow> nat \<Rightarrow> int \<Rightarrow> int list \<Rightarrow> keno_risk \<Rightarrow> db \<Rightarrow> instant_result result \<times> db" where
  "keno_play env userId amountLamports requested risk d =
     (let picks = sort (remdups requested) in
      if length picks < KENO_MIN_PICKS \<or> length picks > KENO_MAX_PICKS \<or> length picks \<noteq> length requested
         \<or> list_ex (\<lambda>p. p < 1 \<or> p > int KENO_CELLS) picks
      then (Inl (BadRequest ''pick 1-10 distinct numbers in 1..40''), d)
      else if \<not> bet_in_range amountLamports then (Inl (BadRequest ''bet amount out of range''), d)
      else let cells = map nat picks
           in settleInstantBet env userId Keno amountLamports
                [(''picks'', Text_value (join_commas (map decimal cells))), (''risk'', Text_value (risk_text risk))]
                (keno_resolve env (cells, risk)) d)"

subsection \<open>Frames\<close>

lemma keeps_stats [simp]: "keeps_balance (bump_stats a n)" "keeps_balance (raise_biggest n)"
  by (auto intro!: keeps_balanceI simp: bump_stats_def raise_biggest_def)

lemma executeUser_frame [simp]:
  "ledger (executeUser u f d) = ledger d" "bets (executeUser u f d) = bets d" "seeds (executeUser u f d) = seeds d"
  "instantRounds (executeUser u f d) = instantRounds d" "coinflipGames (executeUser u f d) = coinflipGames d"
  "clientSeeds (executeUser u f d) = clientSeeds d" "referrals (executeUser u f d) = referrals d"
  by (simp_all add: executeUser_def split: option.splits)

lemma fold_seed_frame:
  assumes "fold_seed env u ps prep d = Inr (s, d')"
  shows "users d' = users d" "ledger d' = ledger d" "bets d' = bets d" "referrals d' = referrals d"
    "instantRounds d' = instantRounds d" "coinflipGames d' = coinflipGames d" "seeds d' = seeds d"
  using assms by (auto simp: fold_seed_def consumeNonce_eq Let_def split: prod.splits option.splits)

lemma fold_seed_same: "fold_seed env u ps prep d = Inr (s, d') \<Longrightarrow> same_money d d'"
  by (intro same_moneyI) (auto dest: fold_seed_frame)

lemma prepare_seed_frame:
  assumes "prepare_seed env u d = Inr (p, d')"
  shows "users d' = users d" "ledger d' = ledger d" "bets d' = bets d" "referrals d' = referrals d"
    "instantRounds d' = instantRounds d" "coinflipGames d' = coinflipGames d" "seeds d' = seeds d"
  using assms by (auto simp: prepare_seed_def reserve_eq_consume consumeNonce_eq Let_def split: option.splits)

lemma prepare_seed_same: "prepare_seed env u d = Inr (p, d') \<Longrightarrow> same_money d d'"
  by (intro same_moneyI) (auto dest: prepare_seed_frame)

lemma create_bet_simps [simp]:
  "users (snd (create_bet b d)) = users d" "ledger (snd (create_bet b d)) = ledger d"
  "bets (snd (create_bet b d)) = bets d @ [b]" "instantRounds (snd (create_bet b d)) = instantRounds d"
  "coinflipGames (snd (create_bet b d)) = coinflipGames d" "seeds (snd (create_bet b d)) = seeds d"
  "clientSeeds (snd (create_bet b d)) = clientSeeds d" "fst (create_bet b d) = length (bets d)"
  by (simp_all add: create_bet_def)

lemma updateUser_Inr: "updateUser uid f d = Inr d' \<longleftrightarrow>
    (\<exists>u. map_of (users d) uid = Some u \<and> d' = d\<lparr>users := AList.update uid (f u) (users d)\<rparr>)"
  by (auto simp: updateUser_def split: option.splits)

lemma record_settlement_spec:
  assumes "record_settlement env uid g stake net b d = Inr (betId, d')"
  shows "same_money d d'" "bets d' = bets d @ [b]" "betId = length (bets d)"
    "instantRounds d' = instantRounds d" "coinflipGames d' = coinflipGames d"
    "\<exists>u. map_of (users d) uid = Some u
       \<and> map_of (users d') = (map_of (users d))(uid \<mapsto> raise_biggest net (bump_stats stake net u))"
    "clientSeeds d' = clientSeeds d" "seeds d' = seeds d"
proof -
  obtain u d4 d7 where u: "map_of (users d) uid = Some u"
    and d4: "d4 = d\<lparr>users := AList.update uid (bump_stats stake net u) (users d)\<rparr>"
    and c: "creditReferral (env_enforced env) (env_now env) uid stake g
        (snd (accrue (env_now env) uid stake (executeUser uid (raise_biggest net) d4))) = Inr d7"
    and b: "(betId, d') = create_bet b d7"
    using assms by (auto simp: record_settlement_def updateUser_Inr Let_def)
  have x: "executeUser uid (raise_biggest net) d4
      = d4\<lparr>users := AList.update uid (raise_biggest net (bump_stats stake net u)) (users d4)\<rparr>"
    by (simp add: executeUser_def d4)
  note fr = creditReferral_frame[OF c]
  have d': "d' = snd (create_bet b d7)" "betId = fst (create_bet b d7)" using b by (metis fst_conv snd_conv)+
  have "same_money d d4" using u updateUser_same[of uid "bump_stats stake net" d d4] by (simp add: updateUser_Inr d4)
  moreover have "same_money d4 (executeUser uid (raise_biggest net) d4)" by (rule executeUser_same) simp
  moreover have "same_money (executeUser uid (raise_biggest net) d4) d'"
    by (rule same_moneyI) (simp_all add: d' fr)
  ultimately show "same_money d d'" by (blast intro: same_money_trans)
  show "bets d' = bets d @ [b]" "betId = length (bets d)" "instantRounds d' = instantRounds d"
    "coinflipGames d' = coinflipGames d" "seeds d' = seeds d" by (simp_all add: d' fr d4)
  show "clientSeeds d' = clientSeeds d" by (simp add: d' fr d4)
  show "\<exists>u. map_of (users d) uid = Some u
       \<and> map_of (users d') = (map_of (users d))(uid \<mapsto> raise_biggest net (bump_stats stake net u))"
    using u by (intro exI[of _ u]) (simp add: d' fr x[unfolded d4] d4)
qed

lemma posts_read: "posts ps d d' \<Longrightarrow> map_of (users d') u = Some r \<Longrightarrow>
    playBalanceLamports r = bal d u Jeton + sum_list (map (\<lambda>(v, k, x). if v = u \<and> k = Jeton then x else 0) ps)"
  using posts_bal[of ps d d' u Jeton] by (simp add: bal_def[of d'])

definition settle_journal :: "nat \<Rightarrow> int \<Rightarrow> int \<Rightarrow> posting list" where
  "settle_journal u stake payout = (u, Jeton, - stake) # (if payout > 0 then [(u, Jeton, payout)] else [])"

lemma settle_instant_unfold:
  assumes "settle_instant_tx env uid g a ps resolve prep d = Inr (r, d')"
  obtains seed d1 d2 d3 x y m detail u where
    "applyBalanceDelta uid (- a) (jeton_meta (game_name g @ ''_bet'') ''Bet'') d = Inr (x, d1)"
    "fold_seed env uid ps prep d1 = Inr (seed, d2)" "resolve seed = (m, detail)"
    "(if instant_payout a m > 0
            then applyBalanceDelta uid (instant_payout a m) (jeton_meta (game_name g @ ''_settle'') ''Bet'') d2
            else Inr (0, d2)) = Inr (y, d3)"
    "record_settlement env uid g a (instant_payout a m - a)
       \<lparr>b_userId = uid, b_gameType = g, b_amountLamports = a, b_payoutLamports = instant_payout a m,
        b_multiplier = Some m, b_status = (if instant_payout a m - a > 0 then BetWon else BetLost),
        b_nonce = Some (ctx_nonce seed), b_seedId = None, b_createdAt = env_now env\<rparr> d3 = Inr (in_betId r, d')"
    "map_of (users d') uid = Some u"
    "in_payoutLamports r = instant_payout a m" "in_multiplier r = m" "in_won r = (instant_payout a m - a > 0)"
    "in_balanceLamports r = playBalanceLamports u" "in_nonce r = ctx_nonce seed" "in_detail r = detail"
  using assms unfolding settle_instant_tx_def
  by (elim bindE_InrE) (auto simp: Let_def split: prod.splits option.splits elim!: bindE_InrE)

subsection \<open>The payout\<close>

lemma instant_payout_nonneg: "0 \<le> a \<Longrightarrow> 0 \<le> instant_payout a m"
proof -
  assume a: "0 \<le> a"
  have "0 \<le> js_round (fl (m * 100))" if "0 < m"
    using that fl_nonneg[of "m * 100"] by (simp add: js_round_def)
  then show ?thesis using a
    by (auto simp: instant_payout_def bigint_div_def sgn_if pos_imp_zdiv_nonneg_iff)
qed

text \<open>A multiplier of whole hundredths is paid exactly, rounded down to a lamport.\<close>

lemma instant_payout_exact:
  assumes "0 \<le> a" and "0 \<le> k" and "k \<le> 2 ^ 50"
  shows "instant_payout a (centi k) = a * k div 100"
proof (cases "k = 0")
  case True
  then show ?thesis by (simp add: instant_payout_def centi_def)
next
  case False
  then have "0 < k" using assms(2) by simp
  then have "0 < centi k" using centi_less_iff[of 0 k] assms by (simp add: centi_def)
  moreover have "js_round (fl (centi k * 100)) = k" by (rule js_round_centi) (use assms in auto)
  ultimately show ?thesis using assms by (simp add: instant_payout_def bigint_div_def sgn_if)
qed

text \<open>
  What every instant game promises its settlement: on valid parameters the multiplier is a whole number of
  hundredths, so the payout is the stake times it, rounded down.
\<close>

locale instant_game =
  fixes valid :: "'p \<Rightarrow> bool" and resolve :: "'p \<Rightarrow> seed_ctx \<Rightarrow> instant_outcome"
  assumes hundredths: "valid p \<Longrightarrow> two_decimal (fst (resolve p s))"
begin

lemma payout_floor:
  assumes "valid p" and "0 \<le> a"
  shows "\<exists>k. 0 \<le> k \<and> fst (resolve p s) = centi k
    \<and> (k \<le> 2 ^ 50 \<longrightarrow> instant_payout a (fst (resolve p s)) = a * k div 100)"
  using hundredths[OF assms(1), of s] instant_payout_exact[OF assms(2)] unfolding two_decimal_def by metis

lemma loss_pays_nothing: "fst (resolve p s) = 0 \<Longrightarrow> instant_payout a (fst (resolve p s)) = 0"
  by (simp add: instant_payout_def)

end

lemma DICE_HOUSE_EDGE_le: "DICE_HOUSE_EDGE \<le> 1"
  by code_simp

interpretation dice: instant_game "\<lambda>(target, _ :: dice_mode). 0 \<le> target \<and> target \<le> (100 :: rat)" "dice_resolve env" for env
  by unfold_locales (auto simp: dice_resolve_def Let_def DICE_HOUSE_EDGE_le intro!: diceMultiplier_two_decimal)

interpretation limbo: instant_game two_decimal "limbo_resolve env" for env
  by unfold_locales (auto simp: limbo_resolve_def Let_def)

interpretation wheel: instant_game "\<lambda>_. True" "\<lambda>_ :: unit. wheel_resolve env" for env
  by unfold_locales (auto simp: wheel_resolve_def Let_def intro: wheelMultiplier_two_decimal)

interpretation plinko: instant_game "\<lambda>(rows, payouts). plinkoPayouts rows = Some payouts" "plinko_resolve env" for env
  by unfold_locales
    (auto simp: plinko_resolve_def Let_def get_at_def intro: plinkoPayouts_two_decimal split: prod.splits)

interpretation keno: instant_game "\<lambda>_. \<forall>x y. 0 \<le> x \<longrightarrow> 0 \<le> env_pow env x y" "keno_resolve env" for env
proof (unfold_locales, goal_cases)
  case (1 p s)
  have "two_decimal m" if "m \<in> set (kenoPaytable (env_pow env) (snd p) (length (fst p)) RTP)" for m
    using that 1 by (intro kenoPaytable_two_decimal(2)[OF _ RTP_nonneg, of "env_pow env"]) auto
  then show ?case
    by (auto simp: keno_resolve_def Let_def get_at_def case_prod_beta)
qed

subsection \<open>The settlement moves the stake and the payout, and nothing else\<close>

lemma settle_instant_all:
  assumes "settle_instant_tx env uid g a ps resolve prep d = Inr (r, d')"
  shows "posts (settle_journal uid a (in_payoutLamports r)) d d'
    \<and> in_balanceLamports r = bal d' uid Jeton
    \<and> in_payoutLamports r = instant_payout a (in_multiplier r) \<and> in_won r = (in_payoutLamports r > a)
    \<and> (\<exists>b. bets d' = bets d @ [b] \<and> b_userId b = uid \<and> b_gameType b = g \<and> b_amountLamports b = a
       \<and> b_payoutLamports b = in_payoutLamports r \<and> b_nonce b = Some (in_nonce r))
    \<and> (\<exists>u0 u1. map_of (users d) uid = Some u0 \<and> map_of (users d') uid = Some u1
       \<and> totalWagered u1 = totalWagered u0 + a \<and> gamesPlayed u1 = gamesPlayed u0 + 1
       \<and> totalWon u1 - totalLost u1 = totalWon u0 - totalLost u0 + in_payoutLamports r - a)
    \<and> instantRounds d' = instantRounds d \<and> coinflipGames d' = coinflipGames d"
  using assms
proof (cases rule: settle_instant_unfold)
  case (1 seed d1 d2 d3 x y m detail u)
  let ?p = "instant_payout a m"
  note rec = record_settlement_spec[OF 1(5)]
  have p1: "posts [(uid, Jeton, - a)] d d1" using applyBalanceDelta_posts[OF 1(1)] by simp
  have p2: "posts (if ?p > 0 then [(uid, Jeton, ?p)] else []) d2 d3"
    using 1(4) applyBalanceDelta_posts[of uid ?p "jeton_meta (game_name g @ ''_settle'') ''Bet''" d2 y d3] by (auto split: if_splits)
  have "posts ([(uid, Jeton, - a)] @ (if ?p > 0 then [(uid, Jeton, ?p)] else [])) d d'"
    by (rule posts_same[OF posts_trans[OF posts_same[OF p1 fold_seed_same[OF 1(2)]] p2] rec(1)])
  then have posts: "posts (settle_journal uid a (in_payoutLamports r)) d d'"
    by (simp add: settle_journal_def 1)
  have f1: "bets d1 = bets d" "instantRounds d1 = instantRounds d" "coinflipGames d1 = coinflipGames d"
    using applyBalanceDelta_frame[OF 1(1)] by simp_all
  have f3: "bets d3 = bets d2 \<and> instantRounds d3 = instantRounds d2 \<and> coinflipGames d3 = coinflipGames d2"
    using 1(4) applyBalanceDelta_frame[of uid ?p _ d2 y d3] by (auto split: if_splits)
  note f2 = fold_seed_frame[OF 1(2)]
  obtain u0 where u0: "map_of (users d) uid = Some u0"
    and u1: "map_of (users d1) uid = Some (if a = 0 then u0 else increment Jeton (- a) u0)"
    using 1(1) by (auto simp: applyBalanceDelta_Inr)
  obtain u3 where u3: "map_of (users d3) uid = Some u3"
    and stat: "totalWagered u3 = totalWagered u0" "totalWon u3 = totalWon u0" "totalLost u3 = totalLost u0"
      "gamesPlayed u3 = gamesPlayed u0"
    using 1(4) u1 f2(1) by (auto simp: applyBalanceDelta_Inr split: if_splits)
  have u': "map_of (users d') uid = Some (raise_biggest (?p - a) (bump_stats a (?p - a) u3))"
    using rec(6) u3 by auto
  have stats: "\<exists>u0 u1. map_of (users d) uid = Some u0 \<and> map_of (users d') uid = Some u1
       \<and> totalWagered u1 = totalWagered u0 + a \<and> gamesPlayed u1 = gamesPlayed u0 + 1
       \<and> totalWon u1 - totalLost u1 = totalWon u0 - totalLost u0 + in_payoutLamports r - a"
    using u0 u' stat by (intro exI[of _ u0] exI[of _ "raise_biggest (?p - a) (bump_stats a (?p - a) u3)"])
      (simp add: raise_biggest_def bump_stats_def 1)
  have bet: "\<exists>b. bets d' = bets d @ [b] \<and> b_userId b = uid \<and> b_gameType b = g \<and> b_amountLamports b = a
       \<and> b_payoutLamports b = in_payoutLamports r \<and> b_nonce b = Some (in_nonce r)"
    using rec(2) f1 f2 f3 1 by auto
  have "in_balanceLamports r = bal d' uid Jeton" by (simp add: bal_def 1)
  then show ?thesis using posts stats bet rec(4,5) f1 f2 f3 by (simp add: 1)
qed

lemmas settle_instant_spec = settle_instant_all[THEN conjunct1]
  settle_instant_all[THEN conjunct2, THEN conjunct1]
  settle_instant_all[THEN conjunct2, THEN conjunct2, THEN conjunct1]
  settle_instant_all[THEN conjunct2, THEN conjunct2, THEN conjunct2]

interpretation instant_settle: money_command
  "\<lambda>(env, uid, g, a, ps, resolve, prep). settle_instant_tx env uid g a ps resolve prep"
  "\<lambda>(env, uid, g, a, ps, resolve, prep) _ r. settle_journal uid a (in_payoutLamports r)"
  by unfold_locales (auto dest: settle_instant_spec(1))


end
