(* ===== verification/Stateful.thy ===== *)
theory Stateful
  imports Instant
begin

text \<open>
  \<open>apps/api/src/games/instant/stateful-round.ts\<close>: the persisted rounds of mines, tower and hi-lo, from
  \<open>start\<close> over \<open>advance\<close> to the terminal settlement. The games themselves are the callbacks \<open>build\<close> and
  \<open>apply\<close> (theory \<open>Round_Games\<close>); what they promise is the locale \<open>stateful_game\<close>.
\<close>

record round_view =
  rv_roundId :: nat
  rv_gameType :: game
  rv_status :: round_status
  rv_stakeLamports :: int
  rv_multiplier :: rat
  rv_state :: round_public
  rv_result :: "round_result option"
  rv_serverSeedHash :: string
  rv_clientSeed :: string
  rv_nonce :: nat

record round_settled =
  rs_roundId :: nat
  rs_betId :: nat
  rs_won :: bool
  rs_stakeLamports :: int
  rs_payoutLamports :: int
  rs_multiplier :: rat
  rs_balanceLamports :: int
  rs_result :: round_result

datatype round_reply = Still_open round_view | Round_over round_settled

datatype step_result = Continue round_public rat | Settle bool rat round_result

definition viewOf :: "nat \<Rightarrow> instant_round \<Rightarrow> round_view" where
  "viewOf rid r = \<lparr>rv_roundId = rid, rv_gameType = ir_gameType r, rv_status = ir_status r,
     rv_stakeLamports = ir_stakeLamports r, rv_multiplier = ir_multiplier r, rv_state = ir_public r,
     rv_result = ir_result r, rv_serverSeedHash = ir_serverSeedHash r, rv_clientSeed = ir_clientSeed r,
     rv_nonce = ir_nonce r\<rparr>"

definition is_active :: "nat \<Rightarrow> game \<Rightarrow> nat \<times> instant_round \<Rightarrow> bool" where
  "is_active uid g = (\<lambda>(_, r). ir_userId r = uid \<and> ir_gameType r = g \<and> ir_status r = RoundActive)"

subsection \<open>Start\<close>

definition start_round_tx ::
  "play_env \<Rightarrow> nat \<Rightarrow> game \<Rightarrow> int \<Rightarrow> game_params \<Rightarrow> (seed_ctx \<Rightarrow> round_secret \<times> round_public \<times> rat)
     \<Rightarrow> seed_ctx option \<times> byte list option \<Rightarrow> db \<Rightarrow> (round_view \<times> db) result" where
  "start_round_tx env userId gameType stakeLamports params build prepared d =
     (if list_ex (is_active userId gameType) (instantRounds d)
      then Inl (Conflict ''a round is already in progress'')
      else
     bindE (applyBalanceDelta userId (- stakeLamports) (jeton_meta (game_name gameType @ ''_bet'') ''InstantRound'') d) (\<lambda>(_, d1).
     bindE (fold_seed env userId params prepared d1) (\<lambda>(seed, d2).
       let (secret, public, m) = build seed;
           row = \<lparr>ir_userId = userId, ir_gameType = gameType, ir_stakeLamports = stakeLamports, ir_status = RoundActive,
                 ir_serverSeedHash = ctx_serverSeedHash seed, ir_clientSeed = ctx_clientSeed seed,
                 ir_nonce = ctx_nonce seed, ir_multiplier = m, ir_secret = secret, ir_public = public,
                 ir_result = None, ir_betId = None, ir_endedAt = None\<rparr>;
           (rid, rows) = insert_row row (instantRounds d2)
       in Inr (viewOf rid row, d2\<lparr>instantRounds := rows\<rparr>))))"

definition startStatefulRound ::
  "play_env \<Rightarrow> nat \<Rightarrow> game \<Rightarrow> int \<Rightarrow> game_params \<Rightarrow> (seed_ctx \<Rightarrow> round_secret \<times> round_public \<times> rat) \<Rightarrow> db
     \<Rightarrow> round_view result \<times> db" where
  "startStatefulRound env userId gameType stakeLamports params build d =
     (if stakeLamports \<le> 0 then (Inl (BadRequest ''amount must be positive''), d)
      else case assertCanWager (env_wager env) userId stakeLamports d of
        Inl e \<Rightarrow> (Inl e, d)
      | Inr _ \<Rightarrow> (case prepare_seed env userId d of
          Inl e \<Rightarrow> (Inl e, d)
        | Inr (prepared, d1) \<Rightarrow> (case start_round_tx env userId gameType stakeLamports params build prepared d1 of
            Inl e \<Rightarrow> (Inl e, d1)
          | Inr (v, d2) \<Rightarrow> (Inr v, d2))))"

subsection \<open>Advance\<close>

definition put_round :: "nat \<Rightarrow> instant_round \<Rightarrow> db \<Rightarrow> db" where
  "put_round rid r d = d\<lparr>instantRounds := AList.update rid r (instantRounds d)\<rparr>"

definition round_payout :: "int \<Rightarrow> bool \<Rightarrow> rat \<Rightarrow> int" where
  "round_payout stake stepWon m =
     (if stepWon \<and> m > 0 then bigint_div (stake * js_round (fl (m * 100))) 100 else 0)"

definition advanceStatefulRound ::
  "play_env \<Rightarrow> nat \<Rightarrow> nat \<Rightarrow> game \<Rightarrow> (round_secret \<Rightarrow> round_public \<Rightarrow> step_result result) \<Rightarrow> db
     \<Rightarrow> (round_reply \<times> db) result" where
  "advanceStatefulRound env userId roundId gameType step d =
     (case map_of (instantRounds d) roundId of
        None \<Rightarrow> Inl (NotFound ''round not found'')
      | Some r \<Rightarrow>
        if ir_userId r \<noteq> userId \<or> ir_gameType r \<noteq> gameType then Inl (NotFound ''round not found'')
        else if ir_status r \<noteq> RoundActive then Inl (Conflict ''round is no longer active'')
        else bindE (step (ir_secret r) (ir_public r)) (\<lambda>s. case s of
          Continue public m \<Rightarrow>
            let updated = r\<lparr>ir_multiplier := m, ir_public := public\<rparr>
            in Inr (Still_open (viewOf roundId updated), put_round roundId updated d)
        | Settle stepWon m detail \<Rightarrow>
            let stake = ir_stakeLamports r;
                payoutLamports = round_payout stake stepWon m;
                netProfit = payoutLamports - stake;
                won = (stepWon \<and> netProfit > 0) in
            bindE (if payoutLamports > 0
                   then applyBalanceDelta userId payoutLamports
                          ((jeton_meta (game_name gameType @ ''_settle'') ''InstantRound'')\<lparr>refId := Some roundId\<rparr>) d
                   else Inr (0, d)) (\<lambda>(_, d1).
            bindE (record_settlement env userId gameType stake netProfit
                \<lparr>b_userId = userId, b_gameType = gameType, b_amountLamports = stake,
                 b_payoutLamports = payoutLamports, b_multiplier = Some m, b_status = (if won then BetWon else BetLost),
                 b_nonce = Some (ir_nonce r), b_seedId = None, b_createdAt = env_now env\<rparr> d1) (\<lambda>(betId, d2).
              let settled = r\<lparr>ir_status := (if won then RoundWon else RoundLost), ir_multiplier := m,
                    ir_betId := Some betId, ir_endedAt := Some (env_now env), ir_result := Some detail\<rparr>;
                  d3 = put_round roundId settled d2
              in case map_of (users d3) userId of
                   None \<Rightarrow> Inl (Internal ''P2025'')
                 | Some u \<Rightarrow>
                     Inr (Round_over \<lparr>rs_roundId = roundId, rs_betId = betId, rs_won = won, rs_stakeLamports = stake,
                            rs_payoutLamports = payoutLamports, rs_multiplier = m,
                            rs_balanceLamports = playBalanceLamports u, rs_result = detail\<rparr>, d3)))))"

definition getActiveRound :: "nat \<Rightarrow> game \<Rightarrow> db \<Rightarrow> round_view option" where
  "getActiveRound userId gameType d =
     (case filter (is_active userId gameType) (rev (instantRounds d)) of
        [] \<Rightarrow> None | (rid, r) # _ \<Rightarrow> Some (viewOf rid r))"

subsection \<open>One step of the round machinery\<close>

lemma put_round_simps [simp]:
  "map_of (instantRounds (put_round rid r d)) = (map_of (instantRounds d))(rid \<mapsto> r)"
  "users (put_round rid r d) = users d" "ledger (put_round rid r d) = ledger d" "bets (put_round rid r d) = bets d"
  "clientSeeds (put_round rid r d) = clientSeeds d" "coinflipGames (put_round rid r d) = coinflipGames d"
  by (simp_all add: put_round_def)

lemma round_payout_nonneg: "0 \<le> stake \<Longrightarrow> 0 \<le> round_payout stake w m"
  using instant_payout_nonneg[of stake m] by (auto simp: round_payout_def instant_payout_def split: if_splits)

definition round_journal :: "nat \<Rightarrow> db \<Rightarrow> round_reply \<Rightarrow> posting list" where
  "round_journal uid d reply = (case reply of
     Still_open _ \<Rightarrow> []
   | Round_over s \<Rightarrow> if rs_payoutLamports s > 0 then [(uid, Jeton, rs_payoutLamports s)] else [])"

lemma advance_cases:
  assumes "advanceStatefulRound env uid rid g step d = Inr (reply, d')"
  obtains r public m where "map_of (instantRounds d) rid = Some r" "ir_userId r = uid" "ir_gameType r = g"
      "ir_status r = RoundActive" "step (ir_secret r) (ir_public r) = Inr (Continue public m)"
      "d' = put_round rid (r\<lparr>ir_multiplier := m, ir_public := public\<rparr>) d"
      "reply = Still_open (viewOf rid (r\<lparr>ir_multiplier := m, ir_public := public\<rparr>))"
  | r stepWon m detail s r' where "map_of (instantRounds d) rid = Some r" "ir_userId r = uid" "ir_gameType r = g"
      "ir_status r = RoundActive" "step (ir_secret r) (ir_public r) = Inr (Settle stepWon m detail)"
      "reply = Round_over s" "rs_payoutLamports s = round_payout (ir_stakeLamports r) stepWon m"
      "rs_stakeLamports s = ir_stakeLamports r" "rs_multiplier s = m" "rs_balanceLamports s = bal d' uid Jeton"
      "rs_won s = (stepWon \<and> rs_payoutLamports s > ir_stakeLamports r)"
      "map_of (instantRounds d') = (map_of (instantRounds d))(rid \<mapsto> r')"
      "ir_userId r' = uid" "ir_gameType r' = g" "ir_status r' \<noteq> RoundActive" "ir_secret r' = ir_secret r" "ir_result r' = Some detail"
      "posts (round_journal uid d reply) d d'" "\<exists>b. bets d' = bets d @ [b] \<and> b_userId b = uid \<and> b_gameType b = g
         \<and> b_amountLamports b = ir_stakeLamports r \<and> b_payoutLamports b = rs_payoutLamports s"
      "clientSeeds d' = clientSeeds d"
proof -
  obtain r where r: "map_of (instantRounds d) rid = Some r" "ir_userId r = uid" "ir_gameType r = g" "ir_status r = RoundActive"
    using assms by (auto simp: advanceStatefulRound_def split: option.splits if_splits)
  obtain st where st: "step (ir_secret r) (ir_public r) = Inr st"
    using assms r by (auto simp: advanceStatefulRound_def)
  show thesis
  proof (cases st)
    case (Continue public m)
    then show thesis using assms r st that(1) by (simp add: advanceStatefulRound_def Let_def)
  next
    case (Settle stepWon m detail)
    let ?p = "round_payout (ir_stakeLamports r) stepWon m"
    let ?won = "stepWon \<and> ?p - ir_stakeLamports r > 0"
    let ?bet = "\<lparr>b_userId = uid, b_gameType = g, b_amountLamports = ir_stakeLamports r,
                 b_payoutLamports = ?p, b_multiplier = Some m, b_status = (if ?won then BetWon else BetLost),
                 b_nonce = Some (ir_nonce r), b_seedId = None, b_createdAt = env_now env\<rparr>"
    obtain x d1 betId d2 where
      a: "(if ?p > 0 then applyBalanceDelta uid ?p
             ((jeton_meta (game_name g @ ''_settle'') ''InstantRound'')\<lparr>refId := Some rid\<rparr>) d else Inr (0, d)) = Inr (x, d1)"
      and b: "record_settlement env uid g (ir_stakeLamports r) (?p - ir_stakeLamports r) ?bet d1 = Inr (betId, d2)"
      and c: "(let settled = r\<lparr>ir_status := (if ?won then RoundWon else RoundLost), ir_multiplier := m,
                    ir_betId := Some betId, ir_endedAt := Some (env_now env), ir_result := Some detail\<rparr>;
                  d3 = put_round rid settled d2
              in case map_of (users d3) uid of
                   None \<Rightarrow> Inl (Internal ''P2025'')
                 | Some u \<Rightarrow>
                     Inr (Round_over \<lparr>rs_roundId = rid, rs_betId = betId, rs_won = ?won, rs_stakeLamports = ir_stakeLamports r,
                            rs_payoutLamports = ?p, rs_multiplier = m,
                            rs_balanceLamports = playBalanceLamports u, rs_result = detail\<rparr>, d3)) = Inr (reply, d')"
      using assms r st unfolding advanceStatefulRound_def Settle
      by (simp add: Let_def del: diff_gt_0_iff_gt) (elim bindE_InrE, auto simp: Let_def simp del: diff_gt_0_iff_gt)
    note rec = record_settlement_spec[OF b]
    define r' where "r' = r\<lparr>ir_status := (if ?won then RoundWon else RoundLost), ir_multiplier := m,
                    ir_betId := Some betId, ir_endedAt := Some (env_now env), ir_result := Some detail\<rparr>"
    obtain u where u: "map_of (users d2) uid = Some u" and d': "d' = put_round rid r' d2"
      and reply: "reply = Round_over \<lparr>rs_roundId = rid, rs_betId = betId, rs_won = ?won, rs_stakeLamports = ir_stakeLamports r,
                            rs_payoutLamports = ?p, rs_multiplier = m,
                            rs_balanceLamports = playBalanceLamports u, rs_result = detail\<rparr>"
      using c unfolding Let_def r'_def[symmetric] by (auto split: option.splits)
    have post1: "posts (if ?p > 0 then [(uid, Jeton, ?p)] else []) d d1"
      using a applyBalanceDelta_posts[of uid ?p _ d x d1] by (fastforce split: if_splits)
    have "same_money d1 d'" using rec(1) by (rule same_money_trans) (simp add: d' same_moneyI)
    from posts_same[OF post1 this] have post: "posts (round_journal uid d reply) d d'"
      by (simp add: round_journal_def reply split: if_splits)
    have fr: "instantRounds d1 = instantRounds d \<and> bets d1 = bets d \<and> clientSeeds d1 = clientSeeds d"
      using a applyBalanceDelta_frame[of uid ?p _ d x d1] by (auto split: if_splits)
    show thesis
      by (rule that(2)[OF r st[unfolded Settle] reply _ _ _ _ _ _ _ _ _ _ _ post, of r'])
        (use rec u fr in \<open>auto simp: d' r'_def bal_def r\<close>)
  qed
qed

lemma advance_posts:
  "advanceStatefulRound env uid rid g step d = Inr (reply, d') \<Longrightarrow> posts (round_journal uid d reply) d d'"
  by (erule advance_cases) (auto simp: round_journal_def posts_Nil same_moneyI)

interpretation round_advance: money_command
  "\<lambda>(env, uid, rid, g, step). advanceStatefulRound env uid rid g step" "\<lambda>(env, uid, rid, g, step). round_journal uid"
  by unfold_locales (auto intro: advance_posts)

lemma start_cases:
  assumes "start_round_tx env uid g stake ps build prep d = Inr (v, d')"
  obtains x d1 d2 seed row where
    "\<not> list_ex (is_active uid g) (instantRounds d)"
    "applyBalanceDelta uid (- stake) (jeton_meta (game_name g @ ''_bet'') ''InstantRound'') d = Inr (x, d1)"
    "fold_seed env uid ps prep d1 = Inr (seed, d2)"
    "ir_userId row = uid" "ir_gameType row = g" "ir_stakeLamports row = stake" "ir_status row = RoundActive"
    "(ir_secret row, ir_public row, ir_multiplier row) = build seed" "ir_nonce row = ctx_nonce seed"
    "v = viewOf (fresh_key (instantRounds d)) row"
    "instantRounds d' = instantRounds d @ [(fresh_key (instantRounds d), row)]"
    "posts [(uid, Jeton, - stake)] d d'" "bets d' = bets d"
    "ir_serverSeedHash row = ctx_serverSeedHash seed" "clientSeeds d' = clientSeeds d2"
proof -
  obtain x d1 seed d2 where 1: "\<not> list_ex (is_active uid g) (instantRounds d)"
    "applyBalanceDelta uid (- stake) (jeton_meta (game_name g @ ''_bet'') ''InstantRound'') d = Inr (x, d1)"
    "fold_seed env uid ps prep d1 = Inr (seed, d2)"
    using assms by (auto simp: start_round_tx_def split: if_splits)
  obtain secret public m where b: "build seed = (secret, public, m)" by (cases "build seed") auto
  define row where "row = \<lparr>ir_userId = uid, ir_gameType = g, ir_stakeLamports = stake, ir_status = RoundActive,
                 ir_serverSeedHash = ctx_serverSeedHash seed, ir_clientSeed = ctx_clientSeed seed,
                 ir_nonce = ctx_nonce seed, ir_multiplier = m, ir_secret = secret, ir_public = public,
                 ir_result = None, ir_betId = None, ir_endedAt = None\<rparr>"
  have fr: "instantRounds d2 = instantRounds d" "bets d2 = bets d"
    using fold_seed_frame[OF 1(3)] applyBalanceDelta_frame[OF 1(2)] by simp_all
  have out: "v = viewOf (fresh_key (instantRounds d)) row"
    "d' = d2\<lparr>instantRounds := instantRounds d @ [(fresh_key (instantRounds d), row)]\<rparr>"
    using assms 1 by (auto simp: start_round_tx_def b row_def insert_row_def fr Let_def)
  have "posts [(uid, Jeton, - stake)] d d1" using applyBalanceDelta_posts[OF 1(2)] by simp
  moreover have "same_money d1 d'"
    using fold_seed_same[OF 1(3)] by (rule same_money_trans) (simp add: out same_moneyI)
  ultimately have "posts [(uid, Jeton, - stake)] d d'" by (rule posts_same)
  then show thesis using that[of x d1 seed d2 row] 1 out fr by (simp add: row_def b)
qed

interpretation round_start: money_command
  "\<lambda>(env, uid, g, stake, ps, build, prep). start_round_tx env uid g stake ps build prep"
  "\<lambda>(env, uid, g, stake, ps, build, prep) _ _. [(uid, Jeton, - stake)]"
  by unfold_locales (auto elim: start_cases)

text \<open>A settlement of an existing player is never stuck.\<close>

lemma creditReferral_total:
  "map_of (users d) uid = Some u \<Longrightarrow> \<exists>d'. creditReferral enforced now uid stake g d = Inr d'"
  by (auto simp: creditReferral_def sharesEconomy_def isReal_def Let_def split: option.splits)

lemma record_settlement_ok:
  assumes "map_of (users d) uid = Some u"
  shows "\<exists>betId d'. record_settlement env uid g stake net b d = Inr (betId, d')"
proof -
  define d4 where "d4 = d\<lparr>users := AList.update uid (bump_stats stake net u) (users d)\<rparr>"
  define d6 where "d6 = snd (accrue (env_now env) uid stake (executeUser uid (raise_biggest net) d4))"
  have "\<exists>v. map_of (users d6) uid = Some v" by (simp add: d6_def d4_def executeUser_def)
  then obtain d7 where "creditReferral (env_enforced env) (env_now env) uid stake g d6 = Inr d7"
    using creditReferral_total by blast
  then show ?thesis using assms
    by (simp add: record_settlement_def updateUser_def Let_def create_bet_def d4_def[symmetric] d6_def[symmetric])
qed

lemma advance_ok:
  assumes "map_of (instantRounds d) rid = Some r" "ir_userId r = uid" "ir_gameType r = g" "ir_status r = RoundActive"
    and "step (ir_secret r) (ir_public r) = Inr st" and "map_of (users d) uid = Some u"
  shows "\<exists>reply d'. advanceStatefulRound env uid rid g step d = Inr (reply, d')"
proof (cases st)
  case (Continue public m)
  then show ?thesis using assms by (simp add: advanceStatefulRound_def Let_def)
next
  case (Settle stepWon m detail)
  let ?p = "round_payout (ir_stakeLamports r) stepWon m"
  let ?meta = "(jeton_meta (game_name g @ ''_settle'') ''InstantRound'')\<lparr>refId := Some rid\<rparr>"
  obtain x d1 u1 where a: "(if ?p > 0 then applyBalanceDelta uid ?p ?meta d else Inr (0, d)) = Inr (x, d1)"
    and u1: "map_of (users d1) uid = Some u1"
    using assms(6) by (cases "?p > 0") (auto simp: applyBalanceDelta_def updateUser_def Let_def)
  define b where "b = \<lparr>b_userId = uid, b_gameType = g, b_amountLamports = ir_stakeLamports r,
     b_payoutLamports = ?p, b_multiplier = Some m,
     b_status = (if stepWon \<and> ?p - ir_stakeLamports r > 0 then BetWon else BetLost),
     b_nonce = Some (ir_nonce r), b_seedId = None, b_createdAt = env_now env\<rparr>"
  obtain betId d2 where rec: "record_settlement env uid g (ir_stakeLamports r) (?p - ir_stakeLamports r) b d1 = Inr (betId, d2)"
    using record_settlement_ok[OF u1] by blast
  obtain v where v: "map_of (users d2) uid = Some v" using record_settlement_spec(6)[OF rec] by auto
  show ?thesis using assms(1-5) a rec v unfolding Settle b_def
    by (simp add: advanceStatefulRound_def Let_def del: diff_gt_0_iff_gt)
qed


subsection \<open>One active round, bound to the committed seed\<close>

text \<open>At most one round of a player and game is active.\<close>

definition one_active :: "db \<Rightarrow> bool" where
  "one_active d \<longleftrightarrow> (\<forall>i j r s. map_of (instantRounds d) i = Some r \<longrightarrow> map_of (instantRounds d) j = Some s \<longrightarrow>
     ir_status r = RoundActive \<longrightarrow> ir_status s = RoundActive \<longrightarrow> ir_userId r = ir_userId s \<longrightarrow>
     ir_gameType r = ir_gameType s \<longrightarrow> i = j)"

text \<open>Every active round was built from the server seed that is still committed for its owner.\<close>

definition seeds_hidden :: "db \<Rightarrow> bool" where
  "seeds_hidden d \<longleftrightarrow> (\<forall>i r. map_of (instantRounds d) i = Some r \<longrightarrow> ir_status r = RoundActive \<longrightarrow>
     (\<exists>cs. map_of (clientSeeds d) (ir_userId r) = Some cs \<and> cs_serverSeedHash cs = ir_serverSeedHash r))"

datatype round_cmd =
    Start_round play_env nat game int game_params "seed_ctx \<Rightarrow> round_secret \<times> round_public \<times> rat"
  | Advance_round play_env nat nat game "round_secret \<Rightarrow> round_public \<Rightarrow> step_result result"
  | Rotate_seed sha fresh_seeds string int nat
  | Change_seed sha fresh_seeds nat string

fun round_step :: "round_cmd \<Rightarrow> db \<Rightarrow> db" where
  "round_step (Start_round env uid g stake ps build) d = snd (startStatefulRound env uid g stake ps build d)"
| "round_step (Advance_round env uid rid g step) d =
     (case advanceStatefulRound env uid rid g step d of Inl _ \<Rightarrow> d | Inr (_, d') \<Rightarrow> d')"
| "round_step (Rotate_seed sha fs nxt now uid) d = snd (rotateServerSeed sha fs nxt now uid d)"
| "round_step (Change_seed sha fs uid s) d = snd (setClientSeed sha fs uid s d)"

fun off_chain :: "round_cmd \<Rightarrow> bool" where
  "off_chain (Start_round env _ _ _ _ _) = (env_chain env = None)"
| "off_chain _ = True"

lemma fold_seed_off:
  assumes "fold_seed env u ps (None, None) d = Inr (s, d')"
  shows "d' = put_seed u (bumped (seed_row_of (env_sha env) (env_fresh env) u d)) d
    \<and> ctx_serverSeedHash s = cs_serverSeedHash (seed_row_of (env_sha env) (env_fresh env) u d)"
  using assms by (auto simp: fold_seed_def consumeNonce_eq deriveSeedContext_def Let_def bumped_def ctx_of_def)

lemma start_round_run:
  assumes "startStatefulRound env uid g stake ps build d = (Inr v, d')"
  obtains d1 prep where "prepare_seed env uid d = Inr (prep, d1)"
    "start_round_tx env uid g stake ps build prep d1 = Inr (v, d')"
  using assms by (auto simp: startStatefulRound_def split: if_splits sum.splits)

lemma seed_row_hash: "map_of (clientSeeds d) u = Some cs \<Longrightarrow> seed_row_of sha fs u d = cs"
  by (simp add: seed_row_of_def)

lemma seeds_hidden_put:
  assumes "seeds_hidden d" and "cs_serverSeedHash row = cs_serverSeedHash (seed_row_of sha fs uid d)"
  shows "seeds_hidden (put_seed uid row d)"
  using assms unfolding seeds_hidden_def
  by (auto simp: seed_row_hash) (metis option.inject seed_row_hash)

lemma seeds_hidden_start:
  assumes "env_chain env = None" and "seeds_hidden d"
  shows "seeds_hidden (snd (startStatefulRound env uid g stake ps build d))"
proof (cases "startStatefulRound env uid g stake ps build d")
  case (Pair out d')
  show ?thesis
  proof (cases out)
    case (Inl e)
    then show ?thesis using assms Pair
      by (auto simp: startStatefulRound_def prepare_seed_def split: if_splits sum.splits)
  next
    case (Inr v)
    obtain d0 prep where "prepare_seed env uid d = Inr (prep, d0)"
      and tx: "start_round_tx env uid g stake ps build prep d0 = Inr (v, d')"
      by (rule start_round_run[OF Pair[unfolded Inr]])
    then have "prep = (None, None)" "d0 = d" using assms(1) by (simp_all add: prepare_seed_def)
    with tx have "start_round_tx env uid g stake ps build (None, None) d = Inr (v, d')" by simp
    then show ?thesis
    proof (cases rule: start_cases)
      case (1 x d1 d2 seed row)
      have eq: "clientSeeds d1 = clientSeeds d" using applyBalanceDelta_frame[OF 1(2)] by simp
      note off = fold_seed_off[OF 1(3)]
      have row1: "seed_row_of (env_sha env) (env_fresh env) uid d1 = seed_row_of (env_sha env) (env_fresh env) uid d"
        by (simp add: seed_row_of_def eq)
      define cs where "cs = bumped (seed_row_of (env_sha env) (env_fresh env) uid d)"
      have seeds: "map_of (clientSeeds d') = (map_of (clientSeeds d))(uid \<mapsto> cs)"
        using off 1(15) by (simp add: row1 cs_def eq)
      have hash: "ir_serverSeedHash row = cs_serverSeedHash cs" using off 1(14) by (simp add: row1 cs_def bumped_def)
      have old: "cs_serverSeedHash cs = cs_serverSeedHash c" if "map_of (clientSeeds d) uid = Some c" for c
        using seed_row_hash[OF that] by (simp add: cs_def bumped_def)
      have rounds: "map_of (instantRounds d') = (map_of (instantRounds d))(fresh_key (instantRounds d) \<mapsto> row)"
        unfolding 1(11) by (rule map_of_snoc_fresh)
      show ?thesis unfolding seeds_hidden_def Pair snd_conv
      proof (intro allI impI)
        fix i r assume i: "map_of (instantRounds d') i = Some r" and act: "ir_status r = RoundActive"
        show "\<exists>cs. map_of (clientSeeds d') (ir_userId r) = Some cs \<and> cs_serverSeedHash cs = ir_serverSeedHash r"
        proof (cases "i = fresh_key (instantRounds d)")
          case True
          then show ?thesis using i rounds seeds hash 1(4) by auto
        next
          case False
          then have "map_of (instantRounds d) i = Some r" using i rounds by simp
          then obtain c where "map_of (clientSeeds d) (ir_userId r) = Some c" "cs_serverSeedHash c = ir_serverSeedHash r"
            using assms(2) act unfolding seeds_hidden_def by blast
          then show ?thesis using seeds old by (cases "ir_userId r = uid") auto
        qed
      qed
    qed
  qed
qed

text \<open>The rounds after a start or a settled step, seen as a map.\<close>

lemma seeds_hidden_advance:
  assumes "seeds_hidden d" and "advanceStatefulRound env uid rid g step d = Inr (reply, d')"
  shows "seeds_hidden d'"
  using assms(2)
proof (cases rule: advance_cases)
  case (1 r public m)
  then show ?thesis using assms(1) unfolding seeds_hidden_def by (auto split: if_splits)
next
  case (2 r stepWon m detail s r')
  then show ?thesis using assms(1) unfolding seeds_hidden_def by (auto split: if_splits)
qed

lemma one_active_advance:
  assumes "one_active d" and "advanceStatefulRound env uid rid g step d = Inr (reply, d')"
  shows "one_active d'"
  using assms(2)
proof (cases rule: advance_cases)
  case (1 r public m)
  then show ?thesis using assms(1) unfolding one_active_def by (auto split: if_splits)
next
  case (2 r stepWon m detail s r')
  then show ?thesis using assms(1) unfolding one_active_def by (auto split: if_splits)
qed

lemma one_active_same: "instantRounds d' = instantRounds d \<Longrightarrow> one_active d \<Longrightarrow> one_active d'"
  by (simp add: one_active_def)

lemma one_active_start_tx:
  assumes "one_active d" and "start_round_tx env uid g stake ps build prep d = Inr (v, d')"
  shows "one_active d'"
  using assms(2)
proof (cases rule: start_cases)
  case (1 x d1 d2 seed row)
  have none: "\<not> (ir_status r = RoundActive \<and> ir_userId r = uid \<and> ir_gameType r = g)"
    if "map_of (instantRounds d) i = Some r" for i r
    using 1(1) map_of_SomeD[OF that] by (auto simp: list_ex_iff is_active_def)
  have rounds: "map_of (instantRounds d') = (map_of (instantRounds d))(fresh_key (instantRounds d) \<mapsto> row)"
    unfolding 1(11) by (rule map_of_snoc_fresh)
  show ?thesis unfolding one_active_def
  proof (intro allI impI)
    fix i j r s
    assume A: "map_of (instantRounds d') i = Some r" "map_of (instantRounds d') j = Some s"
      "ir_status r = RoundActive" "ir_status s = RoundActive" "ir_userId r = ir_userId s" "ir_gameType r = ir_gameType s"
    show "i = j"
    proof (cases "i = fresh_key (instantRounds d)"; cases "j = fresh_key (instantRounds d)")
      assume ij: "i \<noteq> fresh_key (instantRounds d)" "j \<noteq> fresh_key (instantRounds d)"
      show ?thesis using assms(1) A ij unfolding one_active_def rounds by (metis fun_upd_apply)
    qed (use A none 1(4,5) in \<open>auto simp: rounds\<close>)
  qed
qed

lemma one_active_start:
  assumes "one_active d"
  shows "one_active (snd (startStatefulRound env uid g stake ps build d))"
proof (cases "prepare_seed env uid d")
  case (Inr p)
  then obtain prep d1 where p: "p = (prep, d1)" by (cases p)
  have "one_active d1" using assms prepare_seed_frame[OF Inr[unfolded p]] by (simp add: one_active_same)
  then show ?thesis using assms one_active_start_tx[of d1 env uid g stake ps build prep]
    by (auto simp: startStatefulRound_def Inr p split: sum.splits)
qed (use assms in \<open>auto simp: startStatefulRound_def split: sum.splits\<close>)

lemma getOrCreate_rounds [simp]: "instantRounds (snd (getOrCreateActivePair sha fs uid d)) = instantRounds d"
  by (simp add: getOrCreate_db split: option.splits)

lemma one_active_seeds:
  assumes "one_active d"
  shows "one_active (snd (rotateServerSeed sha fs nxt now uid d))" "one_active (snd (setClientSeed sha fs uid s d))"
  using assms by (auto simp: one_active_def rotateServerSeed_eq setClientSeed_eq Let_def)

lemma seeds_hidden_created:
  assumes "seeds_hidden d"
  shows "seeds_hidden (snd (getOrCreateActivePair sha fs uid d))"
  using assms by (auto simp: getOrCreate_db seed_row_of_def split: option.splits intro!: seeds_hidden_put[of _ _ sha fs])

lemma seeds_hidden_rotate:
  assumes "seeds_hidden d"
  shows "seeds_hidden (snd (rotateServerSeed sha fs nxt now uid d))"
proof (cases "has_active_round uid d")
  case False
  then have "ir_userId r \<noteq> uid" if "map_of (instantRounds d) i = Some r" "ir_status r = RoundActive" for i r
    using map_of_SomeD[OF that(1)] that(2) by (auto simp: has_active_round_def list_ex_iff)
  then show ?thesis using assms False unfolding seeds_hidden_def by (auto simp: rotateServerSeed_eq Let_def)
qed (simp add: rotateServerSeed_eq Let_def seeds_hidden_created assms)

lemma seeds_hidden_change:
  assumes "seeds_hidden d"
  shows "seeds_hidden (snd (setClientSeed sha fs uid s d))"
  using assms by (auto simp: setClientSeed_eq Let_def intro!: seeds_hidden_put)

lemma round_step_safe:
  assumes "one_active d"
  shows "one_active (round_step c d)" and "seeds_hidden d \<Longrightarrow> off_chain c \<Longrightarrow> seeds_hidden (round_step c d)"
  by (cases c; use assms in \<open>auto simp: one_active_start one_active_seeds dest: one_active_advance split: sum.splits\<close>)
    (cases c; auto simp: seeds_hidden_start seeds_hidden_rotate seeds_hidden_change dest: seeds_hidden_advance split: sum.splits)

text \<open>
  C13. Whatever a player sends, in whatever order, to start, advance, rotate and change seeds: there is
  never more than one active round of a player and game, and as long as no chain entropy is used every
  active round is still bound to the server seed its owner has committed to, so that no rotation has
  revealed the layout of a board in play.
\<close>

theorem boards_stay_hidden:
  assumes "one_active d" and "seeds_hidden d" and "list_all off_chain cmds"
  shows "one_active (fold round_step cmds d) \<and> seeds_hidden (fold round_step cmds d)"
  using assms by (induction cmds arbitrary: d) (simp_all add: round_step_safe)

definition offline_env :: play_env where
  "offline_env = \<lparr>env_wager = \<lparr>paused = False, realMoneyEnabled = False, now_ms = 0\<rparr>, env_enforced = False,
     env_hmac = toy_hmac, env_sha = toy_sha, env_text = (\<lambda>_. ''''), env_fresh = sample_fresh,
     env_pow = (\<lambda>x _. x), env_powi = (\<lambda>x n. x ^ n), env_chain = None\<rparr>"

lemma offline_env_sel [simp]:
  "env_chain offline_env = None" "env_sha offline_env = toy_sha" "env_fresh offline_env = sample_fresh"
  "env_powi offline_env = (\<lambda>x n. x ^ n)" "env_hmac offline_env = toy_hmac" "env_enforced offline_env = False"
  "env_wager offline_env = \<lparr>paused = False, realMoneyEnabled = False, now_ms = 0\<rparr>"
  by (simp_all add: offline_env_def)

definition rich_db :: db where
  "rich_db = empty_db\<lparr>users := [(1, new_user\<lparr>playBalanceLamports := 1000000000\<rparr>)], clientSeeds := [(1, sample_row)]\<rparr>"

lemma rich_db_sel [simp]:
  "users rich_db = [(1, new_user\<lparr>playBalanceLamports := 1000000000\<rparr>)]" "clientSeeds rich_db = [(1, sample_row)]"
  "instantRounds rich_db = []" "ledger rich_db = []"
  by (simp_all add: rich_db_def)

theorem boards_stay_hidden_witness:
  "one_active (fold round_step
      [Start_round offline_env 1 Tower 5 [] (\<lambda>_. (Tower_secret [[0]], Tower_public 0 [], 0)),
       Rotate_seed toy_sha sample_fresh ''x'' 7 1, Advance_round offline_env 1 0 Tower (\<lambda>_ _. Inr (Continue (Tower_public 1 [2]) 1))]
      rich_db) \<and>
   seeds_hidden (fold round_step
      [Start_round offline_env 1 Tower 5 [] (\<lambda>_. (Tower_secret [[0]], Tower_public 0 [], 0)),
       Rotate_seed toy_sha sample_fresh ''x'' 7 1, Advance_round offline_env 1 0 Tower (\<lambda>_ _. Inr (Continue (Tower_public 1 [2]) 1))]
      rich_db)"
  by (rule boards_stay_hidden) (simp_all add: one_active_def seeds_hidden_def)

text \<open>
  C32. With a live chain the nonce is reserved and the entropy fetched before the transaction, and nothing
  ties the reserved seed to the row that a rotation changes meanwhile: the rotation is accepted, reveals
  the very seed, and the round then opens on the revealed seed.
\<close>

theorem reserved_seed_revealed:
  assumes "prepare_seed env uid d = Inr ((Some c, entropy), d1)" and "\<not> has_active_round uid d"
    and "start_round_tx env uid g stake ps build (Some c, entropy) (snd (rotateServerSeed sha fs nxt now uid d1)) = Inr (v, d2)"
  shows "\<exists>rot r. fst (rotateServerSeed sha fs nxt now uid d1) = Inr rot \<and> ro_revealedServerSeed rot = ctx_serverSeed c
    \<and> map_of (instantRounds d2) (rv_roundId v) = Some r \<and> ir_status r = RoundActive
    \<and> ir_serverSeedHash r = ctx_serverSeedHash c"
proof -
  have "env_chain env \<noteq> None" using assms(1) by (auto simp: prepare_seed_def split: option.splits)
  then have d1: "d1 = put_seed uid (bumped (seed_row_of (env_sha env) (env_fresh env) uid d)) d"
    and c: "c = ctx_of (bumped (seed_row_of (env_sha env) (env_fresh env) uid d))"
    using assms(1) by (auto simp: prepare_seed_def reserve_eq_consume consumeNonce_eq Let_def)
  have act: "\<not> has_active_round uid d1" using assms(2) by (simp add: d1 has_active_round_def)
  have row1: "cs_serverSeed (seed_row_of sha fs uid d1) = ctx_serverSeed c"
    by (simp add: d1 c ctx_of_def seed_row_hash)
  obtain rot where rot: "fst (rotateServerSeed sha fs nxt now uid d1) = Inr rot" "ro_revealedServerSeed rot = ctx_serverSeed c"
    using act by (simp add: rotateServerSeed_eq Let_def row1)
  from assms(3) show ?thesis
  proof (cases rule: start_cases)
    case (1 x e1 e2 seed row)
    have "ctx_serverSeedHash seed = ctx_serverSeedHash c"
      using 1(3) by (auto simp: fold_seed_def)
    moreover have "map_of (instantRounds d2) (rv_roundId v) = Some row"
      unfolding 1(10,11) viewOf_def by (simp del: map_of_append)
    ultimately show ?thesis using rot 1(7,14) by (auto simp del: map_of_append)
  qed
qed


definition online_env :: play_env where
  "online_env = offline_env\<lparr>env_chain := Some (\<lambda>_. None)\<rparr>"

lemma rich_reserve:
  "prepare_seed online_env 1 rich_db = Inr ((Some (ctx_of (bumped sample_row)), None), put_seed 1 (bumped sample_row) rich_db)"
  by (simp add: prepare_seed_def online_env_def reserve_eq_consume consumeNonce_eq seed_row_of_def Let_def offline_env_def)

lemma rich_start:
  "\<exists>v d2. start_round_tx online_env 1 Tower 5 [] (\<lambda>_. (Tower_secret [[0]], Tower_public 0 [], 0)) (Some (ctx_of (bumped sample_row)), None)
     (snd (rotateServerSeed toy_sha sample_fresh ''x'' 7 1 (put_seed 1 (bumped sample_row) rich_db))) = Inr (v, d2)"
  by (simp add: start_round_tx_def rotateServerSeed_eq has_active_round_def seed_row_of_def applyBalanceDelta_def
      jeton_meta_def fold_seed_def deriveSeedContext_def insert_row_def Let_def)

theorem reserved_seed_revealed_witness:
  "\<exists>v d2 rot. fst (rotateServerSeed toy_sha sample_fresh ''x'' 7 1 (put_seed 1 (bumped sample_row) rich_db)) = Inr rot
     \<and> start_round_tx online_env 1 Tower 5 [] (\<lambda>_. (Tower_secret [[0]], Tower_public 0 [], 0)) (Some (ctx_of (bumped sample_row)), None)
         (snd (rotateServerSeed toy_sha sample_fresh ''x'' 7 1 (put_seed 1 (bumped sample_row) rich_db))) = Inr (v, d2)
     \<and> ro_revealedServerSeed rot = ctx_serverSeed (ctx_of (bumped sample_row))"
proof -
  obtain v d2 where s: "start_round_tx online_env 1 Tower 5 [] (\<lambda>_. (Tower_secret [[0]], Tower_public 0 [], 0)) (Some (ctx_of (bumped sample_row)), None)
     (snd (rotateServerSeed toy_sha sample_fresh ''x'' 7 1 (put_seed 1 (bumped sample_row) rich_db))) = Inr (v, d2)"
    using rich_start by blast
  have "\<not> has_active_round 1 rich_db" by (simp add: has_active_round_def)
  from reserved_seed_revealed[OF rich_reserve this s] show ?thesis using s by blast
qed

end
