(* ===== verification/Round_Games.thy ===== *)
theory Round_Games
  imports Stateful
begin

text \<open>
  \<open>apps/api/src/games/mines\<close>, \<open>tower\<close> and \<open>hilo\<close>: the boards dealt at the start of a round and the steps a
  player makes on them, as the callbacks of theory \<open>Stateful\<close>. The contract between the two is the locale
  \<open>stateful_game\<close>: a well-formed board stays well-formed under every step, a step brings the end of the
  round nearer, and a settled multiplier is a whole number of hundredths. A result published at the end
  keeps the board, the progress and the step that ended it, not the figures computed from them.
\<close>

subsection \<open>Mines\<close>

definition type_error :: "step_result result" where
  "type_error = Inl (Internal ''TypeError'')"

definition safeCells :: "nat \<Rightarrow> int" where
  "safeCells mineCount = MINES_CELLS - int mineCount"

definition mines_build :: "hmac \<Rightarrow> nat \<Rightarrow> seed_ctx \<Rightarrow> round_secret \<times> round_public \<times> rat" where
  "mines_build hmac mines seed =
     (let field = mineField hmac (ctx_serverSeed seed) (ctx_clientSeed seed) (ctx_nonce seed) (nat MINES_CELLS) mines
      in (Mines_secret field mines, Mines_public mines [], 0))"

definition mines_start :: "play_env \<Rightarrow> nat \<Rightarrow> int \<Rightarrow> nat \<Rightarrow> db \<Rightarrow> round_view result \<times> db" where
  "mines_start env userId amountLamports mines d =
     (if int mines < MINES_MIN \<or> int mines > MINES_MAX then (Inl (BadRequest ''mines must be in [1, 24]''), d)
      else if \<not> bet_in_range amountLamports then (Inl (BadRequest ''bet amount out of range''), d)
      else startStatefulRound env userId Mines amountLamports [(''mines'', Num_value (of_nat mines))]
             (mines_build (env_hmac env) mines) d)"

definition mines_pick_step :: "nat \<Rightarrow> round_secret \<Rightarrow> round_public \<Rightarrow> step_result result" where
  "mines_pick_step cell secret public = (case (secret, public) of
     (Mines_secret mines mineCount, Mines_public _ revealed) \<Rightarrow>
       if cell \<in> set revealed then Inl (BadRequest ''cell already revealed'')
       else if cell \<in> set mines then Inr (Settle False 0 (Mines_hit mines mineCount revealed cell))
       else
         let nextRevealed = revealed @ [cell];
             m = minesMultiplier (int mineCount) (length nextRevealed)
         in if int (length nextRevealed) \<ge> safeCells mineCount
            then Inr (Settle True m (Mines_cashed mines mineCount nextRevealed))
            else Inr (Continue (Mines_public mineCount nextRevealed) m)
   | _ \<Rightarrow> type_error)"

definition mines_pick :: "play_env \<Rightarrow> nat \<Rightarrow> nat \<Rightarrow> rat \<Rightarrow> db \<Rightarrow> (round_reply \<times> db) result" where
  "mines_pick env userId roundId cell d =
     (if of_int \<lfloor>cell\<rfloor> \<noteq> cell \<or> cell < 0 \<or> cell \<ge> of_int MINES_CELLS then Inl (BadRequest ''cell out of range'')
      else advanceStatefulRound env userId roundId Mines (mines_pick_step (nat \<lfloor>cell\<rfloor>)) d)"

definition mines_cashout_step :: "round_secret \<Rightarrow> round_public \<Rightarrow> step_result result" where
  "mines_cashout_step secret public = (case (secret, public) of
     (Mines_secret mines mineCount, Mines_public _ revealed) \<Rightarrow>
       if length revealed < 1 then Inl (BadRequest ''reveal at least one tile before cashing out'')
       else Inr (Settle True (minesMultiplier (int mineCount) (length revealed)) (Mines_cashed mines mineCount revealed))
   | _ \<Rightarrow> type_error)"

definition mines_cashout :: "play_env \<Rightarrow> nat \<Rightarrow> nat \<Rightarrow> db \<Rightarrow> (round_reply \<times> db) result" where
  "mines_cashout env userId roundId d = advanceStatefulRound env userId roundId Mines mines_cashout_step d"

definition mines_active :: "nat \<Rightarrow> db \<Rightarrow> round_view option" where
  "mines_active userId d = getActiveRound userId Mines d"

subsection \<open>Tower\<close>

definition tower_build :: "hmac \<Rightarrow> seed_ctx \<Rightarrow> round_secret \<times> round_public \<times> rat" where
  "tower_build hmac seed =
     (let traps = towerTraps hmac (ctx_serverSeed seed) (ctx_clientSeed seed) (ctx_nonce seed)
                    TOWER_ROWS TOWER_COLUMNS TOWER_SAFE_PER_ROW
      in (Tower_secret traps, Tower_public 0 [], 0))"

definition tower_start :: "play_env \<Rightarrow> nat \<Rightarrow> int \<Rightarrow> db \<Rightarrow> round_view result \<times> db" where
  "tower_start env userId amountLamports d =
     (if \<not> bet_in_range amountLamports then (Inl (BadRequest ''bet amount out of range''), d)
      else startStatefulRound env userId Tower amountLamports [] (tower_build (env_hmac env)) d)"

text \<open>Reading a row that is not there throws (\<open>traps[currentRow]!.includes\<close> on \<open>undefined\<close>).\<close>

definition tower_pick_step :: "(rat \<Rightarrow> nat \<Rightarrow> rat) \<Rightarrow> nat \<Rightarrow> round_secret \<Rightarrow> round_public \<Rightarrow> step_result result" where
  "tower_pick_step pow column secret public = (case (secret, public) of
     (Tower_secret traps, Tower_public currentRow picks) \<Rightarrow>
       (case get_at traps currentRow of
          None \<Rightarrow> type_error
        | Some row \<Rightarrow>
            if column \<in> set row then Inr (Settle False 0 (Tower_hit traps picks currentRow column))
            else
              let nextRow = currentRow + 1; nextPicks = picks @ [column]; m = towerMultiplier pow nextRow
              in if nextRow \<ge> TOWER_ROWS then Inr (Settle True m (Tower_cashed traps nextPicks nextRow))
                 else Inr (Continue (Tower_public nextRow nextPicks) m))
   | _ \<Rightarrow> type_error)"

definition tower_pick :: "play_env \<Rightarrow> nat \<Rightarrow> nat \<Rightarrow> rat \<Rightarrow> db \<Rightarrow> (round_reply \<times> db) result" where
  "tower_pick env userId roundId column d =
     (if of_int \<lfloor>column\<rfloor> \<noteq> column \<or> column < 0 \<or> column \<ge> of_nat TOWER_COLUMNS
      then Inl (BadRequest ''column out of range'')
      else advanceStatefulRound env userId roundId Tower (tower_pick_step (env_powi env) (nat \<lfloor>column\<rfloor>)) d)"

definition tower_cashout_step :: "(rat \<Rightarrow> nat \<Rightarrow> rat) \<Rightarrow> round_secret \<Rightarrow> round_public \<Rightarrow> step_result result" where
  "tower_cashout_step pow secret public = (case (secret, public) of
     (Tower_secret traps, Tower_public currentRow picks) \<Rightarrow>
       if currentRow < 1 then Inl (BadRequest ''clear at least one row before cashing out'')
       else Inr (Settle True (towerMultiplier pow currentRow) (Tower_cashed traps picks currentRow))
   | _ \<Rightarrow> type_error)"

definition tower_cashout :: "play_env \<Rightarrow> nat \<Rightarrow> nat \<Rightarrow> db \<Rightarrow> (round_reply \<times> db) result" where
  "tower_cashout env userId roundId d =
     advanceStatefulRound env userId roundId Tower (tower_cashout_step (env_powi env)) d"

definition tower_active :: "nat \<Rightarrow> db \<Rightarrow> round_view option" where
  "tower_active userId d = getActiveRound userId Tower d"

subsection \<open>Hi-Lo\<close>

definition hilo_floor2 :: "rat \<Rightarrow> rat" where
  "hilo_floor2 x = floor2 x"

definition hilo_build :: "hmac \<Rightarrow> seed_ctx \<Rightarrow> round_secret \<times> round_public \<times> rat" where
  "hilo_build hmac seed =
     (let sequence = hiloSequence hmac (ctx_serverSeed seed) (ctx_clientSeed seed) (ctx_nonce seed) (HILO_MAX_STEPS + 1);
          base = sequence ! 0
      in (Hilo_secret sequence, Hilo_public 0 base (cardRank base) 0 1, 0))"

definition hilo_start :: "play_env \<Rightarrow> nat \<Rightarrow> int \<Rightarrow> db \<Rightarrow> round_view result \<times> db" where
  "hilo_start env userId amountLamports d =
     (if \<not> bet_in_range amountLamports then (Inl (BadRequest ''bet amount out of range''), d)
      else startStatefulRound env userId Hilo amountLamports [] (hilo_build (env_hmac env)) d)"

text \<open>
  A card beyond the end of the sequence is \<open>undefined\<close>: its rank is NaN, both comparisons are false and
  the guess is a bust without a next card.
\<close>

definition hilo_guess_step :: "direction \<Rightarrow> round_secret \<Rightarrow> round_public \<Rightarrow> step_result result" where
  "hilo_guess_step direction secret public = (case (secret, public) of
     (Hilo_secret sequence, Hilo_public index _ _ steps cumMult) \<Rightarrow>
       (case (get_at sequence index, get_at sequence (index + 1)) of
          (Some current, Some nextCard) \<Rightarrow>
            let currentRank = cardRank current; nextRank = cardRank nextCard;
                correct = (if direction = Higher then nextRank \<ge> currentRank else nextRank \<le> currentRank)
            in if \<not> correct then Inr (Settle False 0 (Hilo_bust sequence index (Some nextCard)))
               else
                 let stepMult = hiloStepMultiplier currentRank direction;
                     newCum = hilo_floor2 (fl (cumMult * stepMult));
                     newIndex = index + 1; newSteps = steps + 1
                 in if newSteps \<ge> HILO_MAX_STEPS
                    then Inr (Settle True newCum (Hilo_cashed sequence newIndex newSteps))
                    else Inr (Continue (Hilo_public newIndex nextCard nextRank newSteps newCum) newCum)
        | (_, nextCard) \<Rightarrow> Inr (Settle False 0 (Hilo_bust sequence index nextCard)))
   | _ \<Rightarrow> type_error)"

definition hilo_guess :: "play_env \<Rightarrow> nat \<Rightarrow> nat \<Rightarrow> direction \<Rightarrow> db \<Rightarrow> (round_reply \<times> db) result" where
  "hilo_guess env userId roundId direction d =
     advanceStatefulRound env userId roundId Hilo (hilo_guess_step direction) d"

definition hilo_cashout_step :: "round_secret \<Rightarrow> round_public \<Rightarrow> step_result result" where
  "hilo_cashout_step secret public = (case (secret, public) of
     (Hilo_secret sequence, Hilo_public index _ _ steps cumMult) \<Rightarrow>
       if steps < 1 then Inl (BadRequest ''make at least one correct guess before cashing out'')
       else Inr (Settle True cumMult (Hilo_cashed sequence index steps))
   | _ \<Rightarrow> type_error)"

definition hilo_cashout :: "play_env \<Rightarrow> nat \<Rightarrow> nat \<Rightarrow> db \<Rightarrow> (round_reply \<times> db) result" where
  "hilo_cashout env userId roundId d = advanceStatefulRound env userId roundId Hilo hilo_cashout_step d"

definition hilo_active :: "nat \<Rightarrow> db \<Rightarrow> round_view option" where
  "hilo_active userId d = getActiveRound userId Hilo d"

subsection \<open>The contract of a game\<close>

text \<open>
  \<open>fits\<close> says that a secret board, the public progress and the multiplier shown belong together; \<open>left\<close>
  bounds the steps still possible.
\<close>

definition all_fit :: "(round_secret \<Rightarrow> round_public \<Rightarrow> rat \<Rightarrow> bool) \<Rightarrow> game \<Rightarrow> db \<Rightarrow> bool" where
  "all_fit fits g d \<longleftrightarrow> (\<forall>i r. map_of (instantRounds d) i = Some r \<longrightarrow> ir_gameType r = g \<longrightarrow> ir_status r = RoundActive \<longrightarrow>
     fits (ir_secret r) (ir_public r) (ir_multiplier r))"

text \<open>Playing on: the progress after steps that all keep the round open.\<close>

fun play_on :: "('c \<Rightarrow> round_secret \<Rightarrow> round_public \<Rightarrow> step_result result) \<Rightarrow> 'c list \<Rightarrow> round_secret \<Rightarrow> round_public
    \<Rightarrow> round_public option" where
  "play_on step [] s p = Some p"
| "play_on step (c # cs) s p = (case step c s p of Inr (Continue p' m') \<Rightarrow> play_on step cs s p' | _ \<Rightarrow> None)"

locale stateful_game =
  fixes step :: "'c \<Rightarrow> round_secret \<Rightarrow> round_public \<Rightarrow> step_result result"
    and valid :: "'c \<Rightarrow> bool"
    and fits :: "round_secret \<Rightarrow> round_public \<Rightarrow> rat \<Rightarrow> bool"
    and left :: "round_public \<Rightarrow> nat"
  assumes keeps_fit: "valid c \<Longrightarrow> fits s p m \<Longrightarrow> step c s p = Inr (Continue p' m') \<Longrightarrow> fits s p' m'"
    and nearer: "fits s p m \<Longrightarrow> step c s p = Inr (Continue p' m') \<Longrightarrow> left p' < left p"
    and pays_hundredths: "fits s p m \<Longrightarrow> step c s p = Inr (Settle w m' detail) \<Longrightarrow> two_decimal m'"
    and lost_is_zero: "fits s p m \<Longrightarrow> step c s p = Inr (Settle False m' detail) \<Longrightarrow> m' = 0"
    and no_crash: "fits s p m \<Longrightarrow> step c s p \<noteq> Inl (Internal what)"
begin

lemma all_fit_advance:
  assumes "all_fit fits g d" and "valid c" and "advanceStatefulRound env uid rid g (step c) d = Inr (reply, d')"
  shows "all_fit fits g d'"
  using assms(3)
proof (cases rule: advance_cases)
  case (1 r public m)
  have "fits (ir_secret r) public m" using assms(1,2) 1 keeps_fit unfolding all_fit_def by blast
  then show ?thesis using assms(1) 1 unfolding all_fit_def by (auto split: if_splits)
next
  case (2 r stepWon m detail s r')
  then show ?thesis using assms(1) unfolding all_fit_def by (auto split: if_splits)
qed

lemma payout_exact:
  assumes "all_fit fits g d" and "advanceStatefulRound env uid rid g (step c) d = Inr (Round_over s, d')"
    and "0 \<le> rs_stakeLamports s"
  shows "\<exists>k. 0 \<le> k \<and> rs_multiplier s = centi k
    \<and> (k \<le> 2 ^ 50 \<longrightarrow> rs_payoutLamports s = rs_stakeLamports s * k div 100)"
  using assms(2)
proof (cases rule: advance_cases)
  case (2 r stepWon m detail s r')
  have fits: "fits (ir_secret r) (ir_public r) (ir_multiplier r)" using assms(1) 2 unfolding all_fit_def by blast
  from pays_hundredths[OF fits 2(5)] obtain k where k: "0 \<le> k" "m = centi k" unfolding two_decimal_def by blast
  have "m = 0" if "\<not> stepWon" using lost_is_zero[OF fits] 2(5) that by (cases stepWon) auto
  then have "round_payout (ir_stakeLamports r) stepWon m = instant_payout (ir_stakeLamports r) m"
    by (auto simp: round_payout_def instant_payout_def)
  then show ?thesis using 2 k instant_payout_exact[of "ir_stakeLamports r" k] assms(3) by auto
qed simp

text \<open>From a fitting position at most \<open>left\<close> steps keep the round open.\<close>

lemma play_on_bounded:
  "list_all valid cs \<Longrightarrow> fits s p m \<Longrightarrow> play_on step cs s p = Some q \<Longrightarrow> length cs + left q \<le> left p"
proof (induction cs arbitrary: p m)
  case (Cons c cs)
  from Cons.prems(3) obtain p' m' where st: "step c s p = Inr (Continue p' m')" and rest: "play_on step cs s p' = Some q"
    by (auto split: sum.splits step_result.splits)
  show ?case using Cons.IH[OF _ keeps_fit[OF _ Cons.prems(2) st] rest] nearer[OF Cons.prems(2) st] Cons.prems(1) by simp
qed simp

lemma play_on_ends: "list_all valid cs \<Longrightarrow> fits s p m \<Longrightarrow> left p < length cs \<Longrightarrow> play_on step cs s p = None"
  using play_on_bounded[of cs s p m] by (cases "play_on step cs s p") auto

end

subsection \<open>Mines, tower and hi-lo keep it\<close>

datatype mines_cmd = Mines_pick nat | Mines_cashout

fun mines_step :: "mines_cmd \<Rightarrow> round_secret \<Rightarrow> round_public \<Rightarrow> step_result result" where
  "mines_step (Mines_pick cell) = mines_pick_step cell"
| "mines_step Mines_cashout = mines_cashout_step"

fun mines_valid :: "mines_cmd \<Rightarrow> bool" where
  "mines_valid (Mines_pick cell) = (int cell < MINES_CELLS)"
| "mines_valid Mines_cashout = True"

text \<open>Every revealed cell is a different safe cell of the board, and some safe cell is left.\<close>

fun mines_fits :: "round_secret \<Rightarrow> round_public \<Rightarrow> rat \<Rightarrow> bool" where
  "mines_fits (Mines_secret mines n) (Mines_public n' revealed) m \<longleftrightarrow>
     n' = n \<and> distinct mines \<and> length mines = n \<and> set mines \<subseteq> {..<25}
     \<and> distinct revealed \<and> set revealed \<subseteq> {..<25} - set mines \<and> length revealed + n < 25
     \<and> m = (if revealed = [] then 0 else minesMultiplier (int n) (length revealed))"
| "mines_fits _ _ _ \<longleftrightarrow> False"

fun mines_left :: "round_public \<Rightarrow> nat" where
  "mines_left (Mines_public n revealed) = 24 - n - length revealed"
| "mines_left _ = 0"

lemma mines_fits_cases:
  assumes "mines_fits s p m"
  obtains mines n revealed where "s = Mines_secret mines n" "p = Mines_public n revealed"
    "distinct mines" "length mines = n" "set mines \<subseteq> {..<25}" "distinct revealed"
    "set revealed \<subseteq> {..<25} - set mines" "length revealed + n < 25"
    "m = (if revealed = [] then 0 else minesMultiplier (int n) (length revealed))"
  using assms by (cases s; cases p) auto

lemmas mines_step_defs = mines_pick_step_def mines_cashout_step_def safeCells_def MINES_CELLS_def Let_def

interpretation mines: stateful_game mines_step mines_valid mines_fits mines_left
proof
  fix c s p m p' m'
  assume "mines_fits s p m" and st: "mines_step c s p = Inr (Continue p' m')"
  then show "mines_left p' < mines_left p"
    by (elim mines_fits_cases, cases c) (auto simp: mines_step_defs split: if_splits)
  assume "mines_valid c"
  then show "mines_fits s p' m'" using \<open>mines_fits s p m\<close> st
    by (elim mines_fits_cases, cases c) (auto simp: mines_step_defs split: if_splits)
next
  fix c s p m w m' detail
  assume "mines_fits s p m" and "mines_step c s p = Inr (Settle w m' detail)"
  then show "two_decimal m'"
    by (elim mines_fits_cases, cases c) (auto simp: mines_step_defs minesMultiplier_two_decimal split: if_splits)
next
  fix c s p m m' detail
  assume "mines_fits s p m" and "mines_step c s p = Inr (Settle False m' detail)"
  then show "m' = 0"
    by (elim mines_fits_cases, cases c) (auto simp: mines_step_defs split: if_splits)
next
  fix c s p m what
  assume "mines_fits s p m"
  then show "mines_step c s p \<noteq> Inl (Internal what)"
    by (elim mines_fits_cases, cases c) (auto simp: mines_step_defs)
qed

datatype tower_cmd = Tower_pick nat | Tower_cashout

fun tower_step :: "(rat \<Rightarrow> nat \<Rightarrow> rat) \<Rightarrow> tower_cmd \<Rightarrow> round_secret \<Rightarrow> round_public \<Rightarrow> step_result result" where
  "tower_step pow (Tower_pick column) = tower_pick_step pow column"
| "tower_step pow Tower_cashout = tower_cashout_step pow"

fun tower_valid :: "tower_cmd \<Rightarrow> bool" where
  "tower_valid (Tower_pick column) = (column < TOWER_COLUMNS)"
| "tower_valid Tower_cashout = True"

text \<open>\<open>Math.pow\<close> of a non-negative base is not negative.\<close>

definition pow_nonneg :: "(rat \<Rightarrow> nat \<Rightarrow> rat) \<Rightarrow> bool" where
  "pow_nonneg pow \<longleftrightarrow> (\<forall>x n. 0 \<le> x \<longrightarrow> 0 \<le> pow x n)"

text \<open>The climber has a safe pick for every row below the current one, and is not at the top.\<close>

fun tower_fits :: "(rat \<Rightarrow> nat \<Rightarrow> rat) \<Rightarrow> round_secret \<Rightarrow> round_public \<Rightarrow> rat \<Rightarrow> bool" where
  "tower_fits pow (Tower_secret traps) (Tower_public row picks) m \<longleftrightarrow>
     pow_nonneg pow \<and> length traps = TOWER_ROWS \<and> row < TOWER_ROWS \<and> length picks = row
     \<and> list_all (\<lambda>i. picks ! i < TOWER_COLUMNS \<and> picks ! i \<notin> set (traps ! i)) [0..<row]
     \<and> m = (if row = 0 then 0 else towerMultiplier pow row)"
| "tower_fits _ _ _ _ \<longleftrightarrow> False"

fun tower_left :: "round_public \<Rightarrow> nat" where
  "tower_left (Tower_public row picks) = 7 - row"
| "tower_left _ = 0"

lemma tower_fits_cases:
  assumes "tower_fits pow s p m"
  obtains traps row picks where "s = Tower_secret traps" "p = Tower_public row picks" "pow_nonneg pow"
    "length traps = TOWER_ROWS" "row < TOWER_ROWS" "length picks = row"
    "list_all (\<lambda>i. picks ! i < TOWER_COLUMNS \<and> picks ! i \<notin> set (traps ! i)) [0..<row]"
    "m = (if row = 0 then 0 else towerMultiplier pow row)"
  using assms by (cases s; cases p) auto

lemma tower_multiplier_hundredths: "pow_nonneg pow \<Longrightarrow> two_decimal (towerMultiplier pow rows)"
  by (rule towerMultiplier_two_decimal) (simp add: pow_nonneg_def)

lemmas tower_step_defs = tower_pick_step_def tower_cashout_step_def Let_def

interpretation tower: stateful_game "tower_step pow" tower_valid "tower_fits pow" tower_left for pow
proof
  fix c s p m p' m'
  assume "tower_fits pow s p m" and st: "tower_step pow c s p = Inr (Continue p' m')"
  then show "tower_left p' < tower_left p"
    by (elim tower_fits_cases, cases c) (auto simp: tower_step_defs TOWER_ROWS_def split: if_splits)
  assume "tower_valid c"
  then show "tower_fits pow s p' m'" using \<open>tower_fits pow s p m\<close> st
    by (elim tower_fits_cases, cases c) (auto simp: tower_step_defs nth_append list_all_iff split: if_splits)
next
  fix c s p m w m' detail
  assume "tower_fits pow s p m" and "tower_step pow c s p = Inr (Settle w m' detail)"
  then show "two_decimal m'"
    by (elim tower_fits_cases, cases c) (auto simp: tower_step_defs tower_multiplier_hundredths split: if_splits)
next
  fix c s p m m' detail
  assume "tower_fits pow s p m" and "tower_step pow c s p = Inr (Settle False m' detail)"
  then show "m' = 0"
    by (elim tower_fits_cases, cases c) (auto simp: tower_step_defs split: if_splits)
next
  fix c s p m what
  assume "tower_fits pow s p m"
  then show "tower_step pow c s p \<noteq> Inl (Internal what)"
    by (elim tower_fits_cases, cases c) (auto simp: tower_step_defs)
qed

datatype hilo_cmd = Hilo_guess direction | Hilo_cashout

fun hilo_step :: "hilo_cmd \<Rightarrow> round_secret \<Rightarrow> round_public \<Rightarrow> step_result result" where
  "hilo_step (Hilo_guess direction) = hilo_guess_step direction"
| "hilo_step Hilo_cashout = hilo_cashout_step"

text \<open>The shown card is the one the committed sequence has at the current index, and a next card is left.\<close>

fun hilo_fits :: "round_secret \<Rightarrow> round_public \<Rightarrow> rat \<Rightarrow> bool" where
  "hilo_fits (Hilo_secret sequence) (Hilo_public index shown rank steps cumMult) m \<longleftrightarrow>
     length sequence = HILO_MAX_STEPS + 1 \<and> set sequence \<subseteq> {0..<52} \<and> index = steps \<and> steps < HILO_MAX_STEPS
     \<and> shown = sequence ! index \<and> rank = cardRank shown \<and> two_decimal cumMult
     \<and> m = (if steps = 0 then 0 else cumMult)"
| "hilo_fits _ _ _ \<longleftrightarrow> False"

fun hilo_left :: "round_public \<Rightarrow> nat" where
  "hilo_left (Hilo_public index shown rank steps cumMult) = 24 - steps"
| "hilo_left _ = 0"

lemma hilo_fits_cases:
  assumes "hilo_fits s p m"
  obtains sequence index cumMult where "s = Hilo_secret sequence"
    "p = Hilo_public index (sequence ! index) (cardRank (sequence ! index)) index cumMult"
    "length sequence = HILO_MAX_STEPS + 1" "set sequence \<subseteq> {0..<52}" "index < HILO_MAX_STEPS" "two_decimal cumMult"
    "m = (if index = 0 then 0 else cumMult)"
  using assms by (cases s; cases p) auto

lemma hilo_product_hundredths: "two_decimal c \<Longrightarrow> two_decimal (hilo_floor2 (fl (c * hiloStepMultiplier r dir)))"
  unfolding hilo_floor2_def
  by (intro two_decimal_floor2 fl_nonneg mult_nonneg_nonneg two_decimal_nonneg hiloStepMultiplier_two_decimal)

lemmas hilo_step_defs = hilo_guess_step_def hilo_cashout_step_def Let_def

interpretation hilo: stateful_game hilo_step "\<lambda>_. True" hilo_fits hilo_left
proof
  fix c s p m p' m'
  assume "hilo_fits s p m" and st: "hilo_step c s p = Inr (Continue p' m')"
  then show "hilo_left p' < hilo_left p"
    by (elim hilo_fits_cases, cases c) (auto simp: hilo_step_defs HILO_MAX_STEPS_def split: if_splits)
  show "hilo_fits s p' m'" using \<open>hilo_fits s p m\<close> st
    by (elim hilo_fits_cases, cases c) (auto simp: hilo_step_defs hilo_product_hundredths split: if_splits)
next
  fix c s p m w m' detail
  assume "hilo_fits s p m" and "hilo_step c s p = Inr (Settle w m' detail)"
  then show "two_decimal m'"
    by (elim hilo_fits_cases, cases c) (auto simp: hilo_step_defs hilo_product_hundredths split: if_splits)
next
  fix c s p m m' detail
  assume "hilo_fits s p m" and "hilo_step c s p = Inr (Settle False m' detail)"
  then show "m' = 0"
    by (elim hilo_fits_cases, cases c) (auto simp: hilo_step_defs split: if_splits)
next
  fix c s p m what
  assume "hilo_fits s p m"
  then show "hilo_step c s p \<noteq> Inl (Internal what)"
    by (elim hilo_fits_cases, cases c) (auto simp: hilo_step_defs)
qed

subsection \<open>Dealing\<close>

lemma mines_build_fits:
  assumes "0 < n" and "\<not> 24 < n" and "mines_build hmac n seed = (s, p, m)"
  shows "mines_fits s p m"
  using assms mineField_correct[of 25 n hmac] by (auto simp: mines_build_def Let_def MINES_CELLS_def)

lemma tower_build_fits: "pow_nonneg pow \<Longrightarrow> tower_build hmac seed = (s, p, m) \<Longrightarrow> tower_fits pow s p m"
  using towerTraps_correct(1)[of 3 0 8 hmac]
  by (auto simp: tower_build_def Let_def TOWER_ROWS_def TOWER_COLUMNS_def)

lemma hilo_build_fits: "hilo_build hmac seed = (s, p, m) \<Longrightarrow> hilo_fits s p m"
  using hiloSequence_cards[where hmac = hmac]
  by (auto simp: hilo_build_def Let_def HILO_MAX_STEPS_def)

lemma start_rounds:
  obtains "instantRounds (snd (startStatefulRound env uid g stake ps build d)) = instantRounds d"
  | seed row where "instantRounds (snd (startStatefulRound env uid g stake ps build d)) =
        instantRounds d @ [(fresh_key (instantRounds d), row)]"
      "ir_gameType row = g" "ir_userId row = uid" "(ir_secret row, ir_public row, ir_multiplier row) = build seed"
proof (cases "startStatefulRound env uid g stake ps build d")
  case (Pair out d')
  show ?thesis
  proof (cases out)
    case (Inl e)
    then have "instantRounds d' = instantRounds d"
      using Pair by (auto simp: startStatefulRound_def dest: prepare_seed_frame split: if_splits sum.splits)
    then show ?thesis using that(1) Pair by simp
  next
    case (Inr v)
    obtain d1 prep where p: "prepare_seed env uid d = Inr (prep, d1)"
      and tx: "start_round_tx env uid g stake ps build prep d1 = Inr (v, d')"
      by (rule start_round_run[OF Pair[unfolded Inr]])
    from tx show ?thesis
      by (cases rule: start_cases) (use that(2) Pair prepare_seed_frame[OF p] in auto)
  qed
qed

lemma all_fit_start:
  assumes "all_fit fits g d"
    and built: "\<And>seed s p m. g' = g \<Longrightarrow> build seed = (s, p, m) \<Longrightarrow> fits s p m"
  shows "all_fit fits g (snd (startStatefulRound env uid g' stake ps build d))"
proof (rule start_rounds[of env uid g' stake ps build d])
  fix seed row
  assume rounds: "instantRounds (snd (startStatefulRound env uid g' stake ps build d)) =
      instantRounds d @ [(fresh_key (instantRounds d), row)]" and row: "ir_gameType row = g'"
    and b: "(ir_secret row, ir_public row, ir_multiplier row) = build seed"
  show ?thesis unfolding all_fit_def rounds map_of_snoc_fresh
    using assms(1) built[OF _ b[symmetric]] row unfolding all_fit_def by auto
qed (use assms(1) in \<open>simp add: all_fit_def\<close>)

lemma all_fit_other:
  assumes "all_fit fits g d" and "advanceStatefulRound env uid rid g' step d = Inr (reply, d')" and "g' \<noteq> g"
  shows "all_fit fits g d'"
  using assms(2)
proof (cases rule: advance_cases)
  case (1 r public m)
  then show ?thesis using assms(1,3) unfolding all_fit_def by (auto split: if_splits)
next
  case (2 r stepWon m detail s r')
  then show ?thesis using assms(1,3) unfolding all_fit_def by (auto split: if_splits)
qed

subsection \<open>Everything a player can do\<close>

datatype board_move =
    Pick_cell nat rat | Cash_mines nat | Pick_column nat rat | Cash_tower nat | Guess_card nat direction | Cash_hilo nat

fun make_move :: "play_env \<Rightarrow> nat \<Rightarrow> board_move \<Rightarrow> db \<Rightarrow> (round_reply \<times> db) result" where
  "make_move env uid (Pick_cell rid cell) = mines_pick env uid rid cell"
| "make_move env uid (Cash_mines rid) = mines_cashout env uid rid"
| "make_move env uid (Pick_column rid column) = tower_pick env uid rid column"
| "make_move env uid (Cash_tower rid) = tower_cashout env uid rid"
| "make_move env uid (Guess_card rid direction) = hilo_guess env uid rid direction"
| "make_move env uid (Cash_hilo rid) = hilo_cashout env uid rid"

datatype board_cmd = Deal_mines int nat | Deal_tower int | Deal_hilo int | Move board_move

fun board_step :: "play_env \<times> nat \<times> board_cmd \<Rightarrow> db \<Rightarrow> db" where
  "board_step (env, uid, Deal_mines amount n) d = snd (mines_start env uid amount n d)"
| "board_step (env, uid, Deal_tower amount) d = snd (tower_start env uid amount d)"
| "board_step (env, uid, Deal_hilo amount) d = snd (hilo_start env uid amount d)"
| "board_step (env, uid, Move mv) d = (case make_move env uid mv d of Inl _ \<Rightarrow> d | Inr (_, d') \<Rightarrow> d')"

definition boards_fit :: "(rat \<Rightarrow> nat \<Rightarrow> rat) \<Rightarrow> db \<Rightarrow> bool" where
  "boards_fit pow d \<longleftrightarrow> all_fit mines_fits Mines d \<and> all_fit (tower_fits pow) Tower d \<and> all_fit hilo_fits Hilo d"

text \<open>A move is an advance of one of the three games with a valid step.\<close>

lemma make_move_cases:
  assumes "make_move env uid mv d = Inr out"
  obtains (Mines) rid c where "mines_valid c" "advanceStatefulRound env uid rid Mines (mines_step c) d = Inr out"
  | (Tower) rid c where "tower_valid c" "advanceStatefulRound env uid rid Tower (tower_step (env_powi env) c) d = Inr out"
  | (Hilo) rid c where "advanceStatefulRound env uid rid Hilo (hilo_step c) d = Inr out"
proof (cases mv)
  case (Pick_cell rid cell)
  then show ?thesis using assms that(1)[of "Mines_pick (nat \<lfloor>cell\<rfloor>)" rid]
    by (auto simp: mines_pick_def MINES_CELLS_def floor_less_iff split: if_splits)
next
  case (Pick_column rid column)
  then show ?thesis using assms that(2)[of "Tower_pick (nat \<lfloor>column\<rfloor>)" rid]
    by (auto simp: tower_pick_def TOWER_COLUMNS_def nat_less_iff floor_less_iff split: if_splits)
qed (use assms that(1)[of Mines_cashout] that(2)[of Tower_cashout] that(3)[of _ Hilo_cashout] that(3)[of _ "Hilo_guess _"] in
      \<open>simp_all add: mines_cashout_def tower_cashout_def hilo_cashout_def hilo_guess_def\<close>)

lemma boards_fit_move:
  assumes "boards_fit pow d" and "env_powi env = pow" and "make_move env uid mv d = Inr (reply, d')"
  shows "boards_fit pow d'"
  using assms(3)
proof (cases rule: make_move_cases)
  case (Mines rid c)
  then show ?thesis using assms(1) mines.all_fit_advance[OF _ Mines] all_fit_other[OF _ Mines(2)]
    by (simp add: boards_fit_def)
next
  case (Tower rid c)
  then show ?thesis using assms(1) tower.all_fit_advance[OF _ Tower[unfolded assms(2)]] all_fit_other[OF _ Tower(2)]
    by (simp add: boards_fit_def)
next
  case (Hilo rid c)
  then show ?thesis using assms(1) hilo.all_fit_advance[OF _ _ Hilo] all_fit_other[OF _ Hilo]
    by (simp add: boards_fit_def)
qed

lemma boards_fit_deal:
  assumes "boards_fit pow d" and "pow_nonneg pow"
  shows "boards_fit pow (snd (mines_start env uid a n d))" "boards_fit pow (snd (tower_start env uid a d))"
    "boards_fit pow (snd (hilo_start env uid a d))"
  using assms
  by (auto simp: boards_fit_def mines_start_def tower_start_def hilo_start_def MINES_MIN_def MINES_MAX_def
      intro!: all_fit_start intro: mines_build_fits tower_build_fits hilo_build_fits)

text \<open>
  C22. Boards are played by the rules. From a state where every active round fits its board, any sequence of
  deals, picks, guesses and cash-outs by any players leads to such a state again: a mines round has
  revealed distinct safe cells only and has one left, a tower climber has a safe pick in every row
  passed, a hi-lo round shows the committed card of its index, and the multiplier shown is the one of
  the progress made.
\<close>

theorem boards_well_played:
  assumes "boards_fit pow d" and "pow_nonneg pow" and "list_all (\<lambda>(env, uid, c). env_powi env = pow) cmds"
  shows "boards_fit pow (fold board_step cmds d)"
  using assms
proof (induction cmds arbitrary: d)
  case (Cons c cmds)
  obtain env uid cmd where c: "c = (env, uid, cmd)" by (cases c)
  have "boards_fit pow (board_step c d)"
    using Cons.prems boards_fit_move[OF Cons.prems(1), of env uid]
    by (cases cmd) (auto simp: c boards_fit_deal split: sum.splits)
  then show ?case using Cons by simp
qed simp

theorem boards_well_played_witness:
  "boards_fit (\<lambda>x n. x ^ n) (fold board_step
     [(offline_env, 1, Deal_mines 1000000 3), (offline_env, 1, Move (Pick_cell 0 7)), (offline_env, 1, Deal_tower 1000000)] rich_db)"
  by (rule boards_well_played) (simp_all add: boards_fit_def all_fit_def pow_nonneg_def)

text \<open>
  No round lasts forever. On a fitting position of mines a sequence of more steps than there are safe
  cells left besides the last, in tower more than the rows below the top, in hi-lo more than the cards
  before the last guess, always ends the round or is refused on the way.
\<close>

theorem rounds_end:
  shows "(mines_fits s p m \<longrightarrow> list_all mines_valid ms \<longrightarrow> 24 < length ms \<longrightarrow> play_on mines_step ms s p = None)
    \<and> (tower_fits pow s p m \<longrightarrow> list_all tower_valid ts \<longrightarrow> 7 < length ts \<longrightarrow> play_on (tower_step pow) ts s p = None)
    \<and> (hilo_fits s p m \<longrightarrow> 24 < length hs \<longrightarrow> play_on hilo_step hs s p = None)"
proof (intro conjI impI)
  assume m: "mines_fits s p m" "list_all mines_valid ms" "24 < length ms"
  then have "mines_left p \<le> 24" by (elim mines_fits_cases) simp
  with m show "play_on mines_step ms s p = None" by (intro mines.play_on_ends) auto
next
  assume t: "tower_fits pow s p m" "list_all tower_valid ts" "7 < length ts"
  then have "tower_left p \<le> 7" by (elim tower_fits_cases) simp
  with t show "play_on (tower_step pow) ts s p = None" by (intro tower.play_on_ends) auto
next
  assume h: "hilo_fits s p m" "24 < length hs"
  then have "hilo_left p \<le> 24" by (elim hilo_fits_cases) simp
  with h show "play_on hilo_step hs s p = None" by (intro hilo.play_on_ends) (auto simp: list_all_iff)
qed

theorem rounds_end_witness:
  "play_on mines_step (map Mines_pick [0..<25]) (Mines_secret [3] 1) (Mines_public 1 [])  = None
   \<and> play_on (tower_step (\<lambda>x n. x ^ n)) (replicate 8 (Tower_pick 1)) (Tower_secret (replicate 8 [0])) (Tower_public 0 []) = None"
proof -
  have t: "tower_fits (\<lambda>x n. x ^ n) (Tower_secret (replicate 8 [0])) (Tower_public 0 []) 0"
    by (simp add: pow_nonneg_def TOWER_ROWS_def)
  have "mines_fits (Mines_secret [3] 1) (Mines_public 1 []) 0" by simp
  moreover have "list_all mines_valid (map Mines_pick [0..<25])" by (simp add: list_all_iff MINES_CELLS_def)
  moreover have "list_all tower_valid (replicate 8 (Tower_pick 1))" by (simp add: list_all_iff TOWER_COLUMNS_def)
  ultimately show ?thesis
    using rounds_end[of "Mines_secret [3] 1" "Mines_public 1 []" 0 "map Mines_pick [0..<25]"]
      rounds_end[of "Tower_secret (replicate 8 [0])" "Tower_public 0 []" 0 _ "\<lambda>x n. x ^ n" "replicate 8 (Tower_pick 1)"] t
    by simp
qed

text \<open>
  What a finished round pays is exact: the multiplier is a whole number of hundredths and the payout is
  the stake times it, rounded down to whole lamports, nothing on a bust.
\<close>

theorem round_payout_exact:
  assumes "boards_fit (env_powi env) d" and "make_move env uid mv d = Inr (Round_over s, d')" and "0 \<le> rs_stakeLamports s"
  shows "\<exists>k. 0 \<le> k \<and> rs_multiplier s = centi k
    \<and> (k \<le> 2 ^ 50 \<longrightarrow> rs_payoutLamports s = rs_stakeLamports s * k div 100)"
  using assms(2)
proof (cases rule: make_move_cases)
  case (Mines rid c)
  then show ?thesis using mines.payout_exact[OF _ Mines(2) assms(3)] assms(1) by (simp add: boards_fit_def)
next
  case (Tower rid c)
  then show ?thesis using tower.payout_exact[OF _ Tower(2) assms(3)] assms(1) by (simp add: boards_fit_def)
next
  case (Hilo rid c)
  then show ?thesis using hilo.payout_exact[OF _ Hilo assms(3)] assms(1) by (simp add: boards_fit_def)
qed

definition open_mines :: instant_round where
  "open_mines = \<lparr>ir_userId = 1, ir_gameType = Mines, ir_stakeLamports = 1000000, ir_status = RoundActive,
     ir_serverSeedHash = ''h'', ir_clientSeed = ''luck'', ir_nonce = 1, ir_multiplier = minesMultiplier 1 1,
     ir_secret = Mines_secret [3] 1, ir_public = Mines_public 1 [0], ir_result = None, ir_betId = None, ir_endedAt = None\<rparr>"

definition open_mines_db :: db where
  "open_mines_db = rich_db\<lparr>instantRounds := [(0, open_mines)]\<rparr>"

lemma open_mines_cashed:
  "\<exists>s d'. make_move offline_env 1 (Cash_mines 0) open_mines_db = Inr (Round_over s, d') \<and> rs_stakeLamports s = 1000000"
proof -
  have row: "map_of (instantRounds open_mines_db) 0 = Some open_mines" "map_of (users open_mines_db) 1 \<noteq> None"
    "ir_userId open_mines = 1" "ir_gameType open_mines = Mines" "ir_status open_mines = RoundActive"
    "ir_stakeLamports open_mines = 1000000"
    by (simp_all add: open_mines_db_def open_mines_def)
  have st: "mines_cashout_step (ir_secret open_mines) (ir_public open_mines)
      = Inr (Settle True (minesMultiplier 1 1) (Mines_cashed [3] 1 [0]))"
    by (simp add: mines_cashout_step_def open_mines_def)
  obtain reply d' where out: "advanceStatefulRound offline_env 1 0 Mines mines_cashout_step open_mines_db = Inr (reply, d')"
    using advance_ok[where step = mines_cashout_step and env = offline_env, OF row(1,3-5) st] row(2) by blast
  then show ?thesis
    by (cases rule: advance_cases) (use row st out in \<open>auto simp: mines_cashout_def\<close>)
qed

theorem round_payout_exact_witness:
  "\<exists>s d' k. make_move offline_env 1 (Cash_mines 0) open_mines_db = Inr (Round_over s, d') \<and> rs_multiplier s = centi k"
proof -
  obtain s d' where s: "make_move offline_env 1 (Cash_mines 0) open_mines_db = Inr (Round_over s, d')"
    and stake: "rs_stakeLamports s = 1000000" using open_mines_cashed by blast
  have "boards_fit (env_powi offline_env) open_mines_db"
    by (auto simp: boards_fit_def all_fit_def open_mines_db_def open_mines_def)
  from round_payout_exact[OF this s] stake show ?thesis using s by auto
qed

end
