(* ===== verification/Progress.thy ===== *)
theory Progress
  imports Stateful
begin

text \<open>
  When the shared steps of a settlement succeed: no step of it deletes an account, and on an existing
  account crediting, the statistics and the referral bookkeeping cannot fail.
\<close>

definition user_ids :: "db \<Rightarrow> nat set" where
  "user_ids d = dom (map_of (users d))"

lemma user_idsI: "map_of (users d) uid = Some u \<Longrightarrow> uid \<in> user_ids d"
  by (auto simp: user_ids_def)

lemma user_ids_same: "users d' = users d \<Longrightarrow> user_ids d' = user_ids d"
  by (simp add: user_ids_def)

lemma delta_ids: "applyBalanceDelta uid x m d = Inr (b, d') \<Longrightarrow> user_ids d' = user_ids d \<and> uid \<in> user_ids d"
  by (auto simp: applyBalanceDelta_Inr user_ids_def split: if_splits)

lemma update_ids: "updateUser uid f d = Inr d' \<Longrightarrow> user_ids d' = user_ids d \<and> uid \<in> user_ids d"
  by (auto simp: updateUser_Inr user_ids_def split: if_splits)

lemma execute_ids [simp]: "user_ids (executeUser uid f d) = user_ids d"
  by (auto simp: executeUser_def user_ids_def split: option.splits if_splits)

lemma accrue_ids [simp]: "user_ids (snd (accrue now uid s d)) = user_ids d"
  by (simp add: user_ids_def)

lemma create_bet_ids [simp]: "user_ids (snd (create_bet b d)) = user_ids d"
  by (simp add: user_ids_def)

lemma referral_ids: "creditReferral e now u s g d = Inr d' \<Longrightarrow> user_ids d' = user_ids d"
  by (rule user_ids_same) (rule creditReferral_frame)

lemma credit_ok:
  assumes "uid \<in> user_ids d" and "0 \<le> x" and "maxBalance m = None"
  obtains b d' where "applyBalanceDelta uid x m d = Inr (b, d')"
proof -
  obtain u where "map_of (users d) uid = Some u" using assms(1) by (auto simp: user_ids_def)
  then have "\<exists>b d'. applyBalanceDelta uid x m d = Inr (b, d')"
    using assms(2,3) unfolding applyBalanceDelta_Inr by auto
  then show thesis using that by blast
qed

lemma debit_ok:
  assumes "map_of (users d) uid = Some u" and "\<not> banned u" and "0 \<le> balance (currency m) u - x" and "0 \<le> x"
  obtains b d' where "applyBalanceDelta uid (- x) m d = Inr (b, d')"
proof -
  have "\<exists>b d'. applyBalanceDelta uid (- x) m d = Inr (b, d')"
    using assms unfolding applyBalanceDelta_Inr by auto
  then show thesis using that by blast
qed

lemma update_ok:
  assumes "uid \<in> user_ids d"
  obtains d' where "updateUser uid f d = Inr d'"
  using assms by (auto simp: updateUser_def user_ids_def)

lemma referral_ok:
  assumes "uid \<in> user_ids d"
  obtains d' where "creditReferral e now uid s g d = Inr d'"
proof -
  obtain u where "map_of (users d) uid = Some u" using assms by (auto simp: user_ids_def)
  then show thesis using creditReferral_total[of d uid u e now s g] that by blast
qed

end
