(* ===== verification/Coinflip.thy ===== *)
theory Coinflip
  imports Progress Transactions
begin

text \<open>
  \<open>apps/api/src/games/coinflip/coinflip.service.ts\<close>: creating a flip, joining it, playing it against the
  house, cancelling it, the expiry sweep, and \<open>resolve\<close>, the settlement they share. The flip a request
  returns is the record \<open>flip_dto\<close>; what is stored under an idempotency key is its JSON text, given by the
  argument \<open>json\<close>. Names and wallets, which are only displayed, are left out, as are broadcasts and receipts.
\<close>

definition OPEN_TTL_MS :: int where "OPEN_TTL_MS = 60 * 60000"

definition MAX_OPEN_PER_USER :: nat where "MAX_OPEN_PER_USER = 5"

definition PAYOUT_MULTIPLIER :: rat where
  "PAYOUT_MULTIPLIER = fl (of_int (js_round (fl (fl (2 * RTP) * 100))) / 100)"

lemma PAYOUT_MULTIPLIER_value: "PAYOUT_MULTIPLIER = centi 190" "js_round (fl (PAYOUT_MULTIPLIER * 100)) = 190"
  by code_simp+

datatype opponent = Opp_player nat "seed_ctx option" "byte list option" | Opp_house

record settled_side =
  ss_betId :: nat
  ss_userId :: nat
  ss_payout :: int
  ss_multiplier :: rat
  ss_won :: bool

record flip_dto =
  fd_id :: nat
  fd_creatorId :: nat
  fd_creatorSide :: side
  fd_creatorFunded :: bool
  fd_joinerId :: "nat option"
  fd_vsHouse :: bool
  fd_amountLamports :: int
  fd_result :: "side option"
  fd_winnerId :: "nat option"
  fd_status :: flip_status
  fd_resolvedAt :: "int option"
  fd_expiresAt :: "int option"
  fd_serverSeedHash :: "string option"
  fd_serverSeed :: "string option"
  fd_clientSeed :: "string option"
  fd_nonce :: nat

datatype flip_reply = Fresh_flip flip_dto "settled_side list" | Replayed_flip string

definition joinable :: "int \<Rightarrow> coinflip_game \<Rightarrow> bool" where
  "joinable now g \<longleftrightarrow> cf_status g = FlipOpen
     \<and> (case cf_expiresAt g of None \<Rightarrow> True | Some t \<Rightarrow> t > now)"

definition serialize :: "nat \<Rightarrow> coinflip_game \<Rightarrow> db \<Rightarrow> flip_dto" where
  "serialize gid g d =
     (let seed = map_of (seeds d) (cf_seedId g) in
      \<lparr>fd_id = gid, fd_creatorId = cf_creatorId g, fd_creatorSide = cf_creatorSide g,
       fd_creatorFunded = (case map_of (users d) (cf_creatorId g) of None \<Rightarrow> False | Some u \<Rightarrow> fundedAt u \<noteq> None),
       fd_joinerId = cf_joinerId g, fd_vsHouse = cf_vsHouse g, fd_amountLamports = cf_amountLamports g,
       fd_result = cf_result g, fd_winnerId = cf_winnerId g, fd_status = cf_status g,
       fd_resolvedAt = cf_resolvedAt g, fd_expiresAt = cf_expiresAt g,
       fd_serverSeedHash = map_option sd_serverSeedHash seed,
       fd_serverSeed = (if cf_status g = FlipCompleted then map_option sd_serverSeed seed else None),
       fd_clientSeed = map_option sd_clientSeed seed, fd_nonce = cf_nonce g\<rparr>)"

lemma serialize_sel [simp]:
  "fd_creatorId (serialize gid g d) = cf_creatorId g" "fd_creatorSide (serialize gid g d) = cf_creatorSide g"
  "fd_winnerId (serialize gid g d) = cf_winnerId g" "fd_status (serialize gid g d) = cf_status g"
  "fd_result (serialize gid g d) = cf_result g" "fd_nonce (serialize gid g d) = cf_nonce g"
  "fd_amountLamports (serialize gid g d) = cf_amountLamports g" "fd_joinerId (serialize gid g d) = cf_joinerId g"
  "fd_serverSeedHash (serialize gid g d) = map_option sd_serverSeedHash (map_of (seeds d) (cf_seedId g))"
  "fd_clientSeed (serialize gid g d) = map_option sd_clientSeed (map_of (seeds d) (cf_seedId g))"
  "fd_serverSeed (serialize gid g d) = (if cf_status g = FlipCompleted then map_option sd_serverSeed (map_of (seeds d) (cf_seedId g)) else None)"
  by (simp_all add: serialize_def Let_def)

definition flip_in_range :: "int \<Rightarrow> bool" where
  "flip_in_range amount \<longleftrightarrow> \<not> (amount < MIN_BET_LAMPORTS \<or> amount > MAX_BET_LAMPORTS)"

subsection \<open>Queries\<close>

text \<open>Newest first, or by amount with the newest first among equals; the page size is clamped to 1..100.\<close>

definition page :: "int \<Rightarrow> nat" where
  "page limit = nat (min (max limit 1) 100)"

definition listOpen :: "int \<Rightarrow> int \<Rightarrow> bool \<Rightarrow> db \<Rightarrow> flip_dto list" where
  "listOpen now limit by_amount d =
     (let newest = rev (filter (\<lambda>(_, g). joinable now g) (coinflipGames d))
      in map (\<lambda>(gid, g). serialize gid g d)
           (take (page limit) (if by_amount then sort_key (\<lambda>(_, g). - cf_amountLamports g) newest else newest)))"

definition listRecent :: "int \<Rightarrow> db \<Rightarrow> flip_dto list" where
  "listRecent limit d =
     map (\<lambda>(gid, g). serialize gid g d)
       (take (page limit) (sort_key (\<lambda>(_, g). case cf_resolvedAt g of None \<Rightarrow> 0 | Some t \<Rightarrow> - t)
          (rev (filter (\<lambda>(_, g). cf_status g = FlipCompleted) (coinflipGames d)))))"

definition countOpen :: "int \<Rightarrow> db \<Rightarrow> nat" where
  "countOpen now d = length (filter (\<lambda>(_, g). joinable now g) (coinflipGames d))"

definition listMine :: "nat \<Rightarrow> db \<Rightarrow> flip_dto list" where
  "listMine userId d = map (\<lambda>(gid, g). serialize gid g d)
     (rev (filter (\<lambda>(_, g). cf_creatorId g = userId \<and> cf_status g = FlipOpen) (coinflipGames d)))"

subsection \<open>Settlement\<close>

definition winner_payout :: "int \<Rightarrow> int" where
  "winner_payout stake = bigint_div (stake * js_round (fl (PAYOUT_MULTIPLIER * 100))) 100"

definition flip_stats :: "int \<Rightarrow> int \<Rightarrow> bool \<Rightarrow> user \<Rightarrow> user" where
  "flip_stats stake profit won u =
     (if won then u\<lparr>totalWon := totalWon u + profit, totalWagered := totalWagered u + stake, gamesPlayed := gamesPlayed u + 1\<rparr>
      else u\<lparr>totalLost := totalLost u + stake, totalWagered := totalWagered u + stake, gamesPlayed := gamesPlayed u + 1\<rparr>)"

definition settle_side :: "play_env \<Rightarrow> int \<Rightarrow> nat \<Rightarrow> nat \<Rightarrow> nat \<times> bool \<Rightarrow> db \<Rightarrow> (settled_side \<times> db) result" where
  "settle_side env stake seedId nonce = (\<lambda>(uid, won) d.
     let winnerPayout = winner_payout stake; profit = winnerPayout - stake in
     bindE (updateUser uid (flip_stats stake profit won) d) (\<lambda>d1.
       let d2 = (if won then executeUser uid (raise_biggest profit) d1 else d1);
           d3 = snd (accrue (env_now env) uid stake d2);
           payout = (if won then winnerPayout else 0);
           m = (if won then PAYOUT_MULTIPLIER else 0);
           (betId, d4) = create_bet \<lparr>b_userId = uid, b_gameType = Coinflip, b_amountLamports = stake,
               b_payoutLamports = payout, b_multiplier = Some m, b_status = (if won then BetWon else BetLost),
               b_nonce = Some nonce, b_seedId = Some seedId, b_createdAt = env_now env\<rparr> d3 in
     bindE (if won then applyBalanceDelta uid winnerPayout ((jeton_meta ''coinflip_payout'' ''Bet'')\<lparr>refId := Some betId\<rparr>) d4
            else Inr (0, d4)) (\<lambda>(_, d5).
     bindE (creditReferral (env_enforced env) (env_now env) uid stake Coinflip d5) (\<lambda>d6.
       Inr (\<lparr>ss_betId = betId, ss_userId = uid, ss_payout = payout, ss_multiplier = m, ss_won = won\<rparr>, d6)))))"

fun settle_sides :: "play_env \<Rightarrow> int \<Rightarrow> nat \<Rightarrow> nat \<Rightarrow> (nat \<times> bool) list \<Rightarrow> db \<Rightarrow> (settled_side list \<times> db) result" where
  "settle_sides env stake seedId nonce [] d = Inr ([], d)"
| "settle_sides env stake seedId nonce (s # rest) d =
     bindE (settle_side env stake seedId nonce s d) (\<lambda>(x, d1).
     bindE (settle_sides env stake seedId nonce rest d1) (\<lambda>(xs, d2). Inr (x # xs, d2)))"

text \<open>Taking the other side: the joiner's debit and seed, or the creator's seed against the house.\<close>

definition take_side :: "play_env \<Rightarrow> nat \<Rightarrow> coinflip_game \<Rightarrow> seed_row \<Rightarrow> opponent \<Rightarrow> db \<Rightarrow> ((seed_ctx \<times> string) \<times> db) result" where
  "take_side env gid g seed opp d = (case opp of
     Opp_player uid reserved_ctx onchainEntropy \<Rightarrow>
       (case map_of (users d) uid of
          None \<Rightarrow> Inl (NotFound ''User not found'')
        | Some joiner \<Rightarrow>
            if banned joiner then Inl (Forbidden ''Account banned'')
            else bindE (applyBalanceDelta uid (- cf_amountLamports g)
                     ((jeton_meta ''coinflip_stake'' ''CoinflipGame'')\<lparr>refId := Some gid\<rparr>) d) (\<lambda>(_, d1).
                 bindE (case reserved_ctx of Some ctx \<Rightarrow> Inr (ctx, d1)
                        | None \<Rightarrow> consumeNonce (env_sha env) (env_fresh env) uid d1) (\<lambda>(ctx, d2).
                 bindE (case onchainEntropy of None \<Rightarrow> Inr (sd_serverSeed seed)
                        | Some e \<Rightarrow> bindE (deriveSeedContext (env_sha env) (env_text env) (sd_serverSeed seed)
                              (ctx_clientSeed ctx) (ctx_nonce ctx) (Some e) []) (\<lambda>c. Inr (sc_serverSeed c))) (\<lambda>flipSeed.
                 Inr ((ctx, flipSeed), d2)))))
   | Opp_house \<Rightarrow>
       bindE (consumeNonce (env_sha env) (env_fresh env) (cf_creatorId g) d) (\<lambda>(ctx, d1).
       Inr ((ctx, sd_serverSeed seed), d1)))"

definition resolve :: "play_env \<Rightarrow> nat \<Rightarrow> coinflip_game \<Rightarrow> opponent \<Rightarrow> db \<Rightarrow> ((flip_dto \<times> settled_side list) \<times> db) result" where
  "resolve env gid g opp d =
     (let (claimed, d1) = claim_flip (joinable (env_now env)) (\<lambda>r. r\<lparr>cf_status := FlipResolving\<rparr>) gid d in
      if claimed = 0 then Inl (BadRequest ''Flip not joinable'')
      else case map_of (seeds d) (cf_seedId g) of
        None \<Rightarrow> Inl (Internal ''Seed missing for flip'')
      | Some seed \<Rightarrow>
         if sd_serverSeed seed = '''' then Inl (Internal ''Seed missing for flip'')
         else
         bindE (take_side env gid g seed opp d1) (\<lambda>((ctx, flipSeed), d2).
           let stake = cf_amountLamports g;
               nonce = ctx_nonce ctx;
               outcome = coinflipResult (env_hmac env) flipSeed (ctx_clientSeed ctx) nonce;
               creatorWins = (outcome = cf_creatorSide g);
               sides = (cf_creatorId g, creatorWins) # (case opp of Opp_player uid _ _ \<Rightarrow> [(uid, \<not> creatorWins)] | Opp_house \<Rightarrow> []) in
         bindE (settle_sides env stake (cf_seedId g) nonce sides d2) (\<lambda>(settles, d3).
           let d4 = d3\<lparr>seeds := AList.update (cf_seedId g)
                      (seed\<lparr>sd_clientSeed := ctx_clientSeed ctx, sd_nonce := nonce, sd_revealedAt := Some (env_now env)\<rparr>) (seeds d3)\<rparr>;
               winnerId = (if creatorWins then Some (cf_creatorId g)
                           else case opp of Opp_player uid _ _ \<Rightarrow> Some uid | Opp_house \<Rightarrow> None);
               updated = g\<lparr>cf_joinerId := (case opp of Opp_player uid _ _ \<Rightarrow> Some uid | Opp_house \<Rightarrow> None),
                 cf_vsHouse := (opp = Opp_house), cf_result := Some outcome, cf_winnerId := winnerId,
                 cf_status := FlipCompleted, cf_resolvedAt := Some (env_now env), cf_nonce := nonce, cf_expiresAt := None\<rparr>;
               d5 = d4\<lparr>coinflipGames := AList.update gid updated (coinflipGames d4)\<rparr>
           in Inr ((serialize gid updated d5, settles), d5))))"

subsection \<open>Commands\<close>

definition create_flip_tx :: "play_env \<Rightarrow> string \<Rightarrow> (flip_dto \<Rightarrow> string) \<Rightarrow> nat \<Rightarrow> side \<Rightarrow> int \<Rightarrow> bool \<Rightarrow> string option \<Rightarrow> db
    \<Rightarrow> (flip_reply \<times> db) result" where
  "create_flip_tx env serverSeed json userId flip_side amountLamports vsHouse key d =
     bindE (claimIdempotency userId ''coinflip_create'' key d) (\<lambda>(replay, d0). case replay of
       Some response \<Rightarrow> Inr (Replayed_flip response, d0)
     | None \<Rightarrow>
        (case map_of (users d0) userId of
           None \<Rightarrow> Inl (NotFound ''User not found'')
         | Some u \<Rightarrow>
            if banned u then Inl (Forbidden ''Account banned'')
            else if \<not> vsHouse \<and> length (filter (\<lambda>(_, g). cf_creatorId g = userId \<and> cf_status g = FlipOpen) (coinflipGames d0))
                      \<ge> MAX_OPEN_PER_USER
            then Inl (BadRequest ''You already have 5 open flips - cancel one, or flip against the house'')
            else
              let gameId = fresh_key (coinflipGames d0) in
            bindE (applyBalanceDelta userId (- amountLamports)
                     ((jeton_meta ''coinflip_stake'' ''CoinflipGame'')\<lparr>refId := Some gameId\<rparr>) d0) (\<lambda>(_, d1).
              let (seedId, seedRows) = insert_row \<lparr>sd_serverSeed = serverSeed,
                      sd_serverSeedHash = commitServerSeed (env_sha env) serverSeed, sd_clientSeed = '''', sd_nonce = 0,
                      sd_revealedAt = None\<rparr> (seeds d1);
                  g = \<lparr>cf_creatorId = userId, cf_creatorSide = flip_side, cf_joinerId = None,
                      cf_amountLamports = amountLamports, cf_result = None, cf_winnerId = None, cf_status = FlipOpen,
                      cf_seedId = seedId, cf_nonce = 0, cf_vsHouse = False,
                      cf_expiresAt = (if vsHouse then None else Some (env_now env + OPEN_TTL_MS)), cf_resolvedAt = None\<rparr>;
                  d2 = d1\<lparr>seeds := seedRows, coinflipGames := coinflipGames d1 @ [(gameId, g)]\<rparr>
              in if vsHouse
                 then bindE (resolve env gameId g Opp_house d2) (\<lambda>((dto, settles), d3).
                      bindE (storeIdempotency userId ''coinflip_create'' key (json dto) d3) (\<lambda>d4.
                      Inr (Fresh_flip dto settles, d4)))
                 else let dto = serialize gameId g d2 in
                      bindE (storeIdempotency userId ''coinflip_create'' key (json dto) d2) (\<lambda>d3.
                      Inr (Fresh_flip dto [], d3)))))"

definition create_flip :: "play_env \<Rightarrow> string \<Rightarrow> (flip_dto \<Rightarrow> string) \<Rightarrow> nat \<Rightarrow> side \<Rightarrow> int \<Rightarrow> bool \<Rightarrow> string option \<Rightarrow> db
    \<Rightarrow> (flip_reply \<times> db) result" where
  "create_flip env serverSeed json userId flip_side amountLamports vsHouse key d =
     (if \<not> flip_in_range amountLamports then Inl (BadRequest ''Bet out of range'')
      else bindE (assertCanWager (env_wager env) userId amountLamports d) (\<lambda>_.
        create_flip_tx env serverSeed json userId flip_side amountLamports vsHouse key d))"

definition join_flip_tx :: "play_env \<Rightarrow> (flip_dto \<Rightarrow> string) \<Rightarrow> nat \<Rightarrow> nat \<Rightarrow> seed_ctx option \<Rightarrow> byte list option \<Rightarrow> string option \<Rightarrow> db
    \<Rightarrow> (flip_reply \<times> db) result" where
  "join_flip_tx env json userId gid reserved_ctx onchainEntropy key d =
     bindE (claimIdempotency userId ''coinflip_join'' key d) (\<lambda>(replay, d0). case replay of
       Some response \<Rightarrow> Inr (Replayed_flip response, d0)
     | None \<Rightarrow>
        (case map_of (coinflipGames d0) gid of
           None \<Rightarrow> Inl (NotFound ''Flip not found'')
         | Some g \<Rightarrow>
             if cf_creatorId g = userId then Inl (BadRequest ''Cannot join your own flip'')
             else
             bindE (assertSameEconomy (env_enforced env) (cf_creatorId g) userId d0) (\<lambda>_.
             bindE (resolve env gid g (Opp_player userId reserved_ctx onchainEntropy) d0) (\<lambda>((dto, settles), d1).
             bindE (storeIdempotency userId ''coinflip_join'' key (json dto) d1) (\<lambda>d2.
             Inr (Fresh_flip dto settles, d2))))))"

text \<open>The seed is reserved before the transaction only for an open flip of somebody else.\<close>

definition prepare_join :: "play_env \<Rightarrow> nat \<Rightarrow> nat \<Rightarrow> db \<Rightarrow> ((seed_ctx option \<times> byte list option) \<times> db) result" where
  "prepare_join env userId gid d = (case (env_chain env, map_of (coinflipGames d) gid) of
     (Some roundEntropy, Some g) \<Rightarrow>
       (case map_of (seeds d) (cf_seedId g) of
          Some seed \<Rightarrow>
            if cf_status g = FlipOpen \<and> sd_serverSeed seed \<noteq> '''' \<and> cf_creatorId g \<noteq> userId
            then bindE (reserveSeedContext (env_sha env) (env_fresh env) userId d) (\<lambda>(ctx, d1).
                 Inr ((Some ctx, roundEntropy (ctx\<lparr>ctx_serverSeed := sd_serverSeed seed\<rparr>)), d1))
            else Inr ((None, None), d)
        | None \<Rightarrow> Inr ((None, None), d))
   | _ \<Rightarrow> Inr ((None, None), d))"

definition join_flip :: "play_env \<Rightarrow> (flip_dto \<Rightarrow> string) \<Rightarrow> nat \<Rightarrow> nat \<Rightarrow> string option \<Rightarrow> db \<Rightarrow> flip_reply result \<times> db" where
  "join_flip env json userId gid key d =
     (let amount = (case map_of (coinflipGames d) gid of None \<Rightarrow> 0 | Some g \<Rightarrow> cf_amountLamports g) in
      case assertCanWager (env_wager env) userId amount d of
        Inl e \<Rightarrow> (Inl e, d)
      | Inr _ \<Rightarrow> (case prepare_join env userId gid d of
          Inl e \<Rightarrow> (Inl e, d)
        | Inr ((reserved_ctx, onchainEntropy), d1) \<Rightarrow>
           (case join_flip_tx env json userId gid reserved_ctx onchainEntropy key d1 of
              Inl e \<Rightarrow> (Inl e, d1)
            | Inr (r, d2) \<Rightarrow> (Inr r, d2))))"

definition playHouse :: "play_env \<Rightarrow> nat \<Rightarrow> nat \<Rightarrow> db \<Rightarrow> ((flip_dto \<times> settled_side list) \<times> db) result" where
  "playHouse env userId gid d = (case map_of (coinflipGames d) gid of
     None \<Rightarrow> Inl (NotFound ''Flip not found'')
   | Some g \<Rightarrow>
       if cf_creatorId g \<noteq> userId then Inl (Forbidden ''Only the creator can play this flip against the house'')
       else resolve env gid g Opp_house d)"

definition cancel_flip :: "int \<Rightarrow> nat \<Rightarrow> nat \<Rightarrow> db \<Rightarrow> (flip_dto \<times> db) result" where
  "cancel_flip now userId gid d = (case map_of (coinflipGames d) gid of
     None \<Rightarrow> Inl (NotFound ''Flip not found'')
   | Some g \<Rightarrow>
       if cf_creatorId g \<noteq> userId then Inl (Forbidden ''Only the creator can cancel'')
       else bindE (cancelOpenFlip now gid d) (\<lambda>(cancelled, d1).
         if \<not> cancelled then Inl (BadRequest ''Only open flips can be cancelled'')
         else case map_of (coinflipGames d1) gid of
           None \<Rightarrow> Inl (Internal ''P2025'')
         | Some g' \<Rightarrow> Inr (serialize gid g' d1, d1)))"

text \<open>The sweep stops at the first error and reports what it had expired until then.\<close>

fun expire_each :: "int \<Rightarrow> nat list \<Rightarrow> nat \<Rightarrow> db \<Rightarrow> nat \<times> db" where
  "expire_each now [] n d = (n, d)"
| "expire_each now (gid # rest) n d = (case cancelOpenFlip now gid d of
     Inl _ \<Rightarrow> (n, d)
   | Inr (b, d1) \<Rightarrow> expire_each now rest (if b then n + 1 else n) d1)"

definition expireStale :: "int \<Rightarrow> db \<Rightarrow> nat \<times> db" where
  "expireStale now d =
     (let stale = map fst (filter (\<lambda>(_, g). cf_status g = FlipOpen
            \<and> (case cf_expiresAt g of None \<Rightarrow> False | Some t \<Rightarrow> t \<le> now)) (coinflipGames d))
      in expire_each now (take 100 stale) 0 d)"

subsection \<open>What a settlement does\<close>

lemma winner_payout_eq: "0 \<le> stake \<Longrightarrow> winner_payout stake = stake * 190 div 100"
  by (simp add: winner_payout_def PAYOUT_MULTIPLIER_value(2) bigint_div_def sgn_if)

lemma winner_payout_bounds:
  assumes "0 \<le> stake"
  shows "0 \<le> winner_payout stake" "winner_payout stake \<le> 2 * stake"
  using assms by (simp_all add: winner_payout_eq)

lemma keeps_flip_stats [simp]: "keeps_balance (flip_stats stake profit won)"
  by (auto intro!: keeps_balanceI simp: flip_stats_def)

lemma updateUser_frame:
  assumes "updateUser uid f d = Inr d'"
  shows "ledger d' = ledger d" "bets d' = bets d" "seeds d' = seeds d" "coinflipGames d' = coinflipGames d"
    "instantRounds d' = instantRounds d" "idempotencyKeys d' = idempotencyKeys d"
  using assms by (auto simp: updateUser_Inr)

definition side_journal :: "int \<Rightarrow> (nat \<times> bool) list \<Rightarrow> posting list" where
  "side_journal stake sides = concat (map (\<lambda>(uid, won). if won then [(uid, Jeton, winner_payout stake)] else []) sides)"

lemma settle_side_spec:
  assumes "settle_side env stake sid n (uid, won) d = Inr (s, d')"
  shows "posts (if won then [(uid, Jeton, winner_payout stake)] else []) d d'"
    and "ss_userId s = uid" "ss_won s = won" "ss_payout s = (if won then winner_payout stake else 0)"
    and "\<exists>b. bets d' = bets d @ [b] \<and> b_userId b = uid \<and> b_amountLamports b = stake
          \<and> b_payoutLamports b = (if won then winner_payout stake else 0)"
    and "coinflipGames d' = coinflipGames d" "seeds d' = seeds d"
proof -
  let ?profit = "winner_payout stake - stake"
  let ?bet = "\<lparr>b_userId = uid, b_gameType = Coinflip, b_amountLamports = stake,
               b_payoutLamports = (if won then winner_payout stake else 0),
               b_multiplier = Some (if won then PAYOUT_MULTIPLIER else 0), b_status = (if won then BetWon else BetLost),
               b_nonce = Some n, b_seedId = Some sid, b_createdAt = env_now env\<rparr>"
  obtain d1 where u: "updateUser uid (flip_stats stake ?profit won) d = Inr d1"
    using assms by (auto simp: settle_side_def Let_def)
  define d2 where "d2 = (if won then executeUser uid (raise_biggest ?profit) d1 else d1)"
  define d3 where "d3 = snd (accrue (env_now env) uid stake d2)"
  define d4 where "d4 = snd (create_bet ?bet d3)"
  let ?meta = "(jeton_meta ''coinflip_payout'' ''Bet'')\<lparr>refId := Some (fst (create_bet ?bet d3))\<rparr>"
  have "settle_side env stake sid n (uid, won) d =
     bindE (if won then applyBalanceDelta uid (winner_payout stake) ?meta d4 else Inr (0, d4)) (\<lambda>(_, d5).
     bindE (creditReferral (env_enforced env) (env_now env) uid stake Coinflip d5) (\<lambda>d6.
       Inr (\<lparr>ss_betId = fst (create_bet ?bet d3), ss_userId = uid, ss_payout = (if won then winner_payout stake else 0),
             ss_multiplier = (if won then PAYOUT_MULTIPLIER else 0), ss_won = won\<rparr>, d6)))"
    by (simp only: settle_side_def Let_def u bindE_simps case_prod_beta fst_conv snd_conv d2_def d3_def d4_def)
  from this[unfolded assms, symmetric]
  obtain x d5 where a: "(if won then applyBalanceDelta uid (winner_payout stake) ?meta d4 else Inr (0, d4)) = Inr (x, d5)"
    and c: "creditReferral (env_enforced env) (env_now env) uid stake Coinflip d5 = Inr d'"
    by (elim bindE_InrE) (auto simp del: create_bet_simps)
  have "same_money d d1" using updateUser_same[OF u] by simp
  moreover have "same_money d1 d2" by (auto simp: d2_def intro: executeUser_same)
  moreover have "same_money d2 d4" by (rule same_moneyI) (simp_all add: d4_def d3_def)
  ultimately have "same_money d d4" by (blast intro: same_money_trans)
  moreover have "posts (if won then [(uid, Jeton, winner_payout stake)] else []) d4 d5"
    using a applyBalanceDelta_posts[of uid "winner_payout stake" _ d4 x d5] by (fastforce split: if_splits)
  ultimately have "posts ([] @ (if won then [(uid, Jeton, winner_payout stake)] else [])) d d5"
    by (blast intro: posts_trans posts_Nil[THEN iffD2])
  then show "posts (if won then [(uid, Jeton, winner_payout stake)] else []) d d'"
    using posts_same[OF _ creditReferral_same[OF c]] by simp
  have fr: "bets d5 = bets d4 \<and> coinflipGames d5 = coinflipGames d4 \<and> seeds d5 = seeds d4"
    using a applyBalanceDelta_frame[of uid "winner_payout stake" _ d4 x d5] by (auto split: if_splits)
  show "coinflipGames d' = coinflipGames d" "seeds d' = seeds d"
    using fr creditReferral_frame[OF c] updateUser_frame[OF u] by (simp_all add: d4_def d3_def d2_def)
  show "\<exists>b. bets d' = bets d @ [b] \<and> b_userId b = uid \<and> b_amountLamports b = stake
          \<and> b_payoutLamports b = (if won then winner_payout stake else 0)"
    using fr creditReferral_frame[OF c] updateUser_frame[OF u] by (simp add: d4_def d3_def d2_def)
qed (use assms in \<open>auto simp: settle_side_def Let_def split: prod.splits\<close>)

lemma settle_sides_spec:
  assumes "settle_sides env stake sid n sides d = Inr (ss, d')"
  shows "posts (side_journal stake sides) d d' \<and> map ss_userId ss = map fst sides \<and> map ss_won ss = map snd sides
    \<and> (\<exists>bs. bets d' = bets d @ bs \<and> map b_userId bs = map fst sides \<and> list_all (\<lambda>b. b_amountLamports b = stake) bs
         \<and> map b_payoutLamports bs = map (\<lambda>(_, won). if won then winner_payout stake else 0) sides)
    \<and> coinflipGames d' = coinflipGames d \<and> seeds d' = seeds d"
  using assms
proof (induction sides arbitrary: d ss)
  case (Cons s sides)
  obtain uid won where s: "s = (uid, won)" by (cases s)
  obtain x d1 xs where x: "settle_side env stake sid n (uid, won) d = Inr (x, d1)"
    and rest: "settle_sides env stake sid n sides d1 = Inr (xs, d')" and ss: "ss = x # xs"
    using Cons.prems by (auto simp: s)
  note one = settle_side_spec[OF x] and ih = Cons.IH[OF rest]
  have "posts (side_journal stake (s # sides)) d d'"
    using posts_trans[OF one(1)] ih by (auto simp: s side_journal_def)
  moreover obtain b bs where "bets d1 = bets d @ [b]" "b_userId b = uid" "b_amountLamports b = stake"
    "b_payoutLamports b = (if won then winner_payout stake else 0)" "bets d' = bets d1 @ bs"
    "map b_userId bs = map fst sides" "list_all (\<lambda>b. b_amountLamports b = stake) bs"
    "map b_payoutLamports bs = map (\<lambda>(_, won). if won then winner_payout stake else 0) sides"
    using one(5) ih by blast
  ultimately show ?case using one ih by (auto simp: s ss intro!: exI[of _ "b # bs"])
qed (simp add: side_journal_def posts_Nil)

lemma take_side_spec:
  assumes "take_side env gid g seed opp d = Inr ((ctx, flipSeed), d')"
  shows "posts (case opp of Opp_player uid _ _ \<Rightarrow> [(uid, Jeton, - cf_amountLamports g)] | Opp_house \<Rightarrow> []) d d'
    \<and> coinflipGames d' = coinflipGames d \<and> seeds d' = seeds d \<and> bets d' = bets d
    \<and> (case opp of Opp_player uid r None \<Rightarrow> flipSeed = sd_serverSeed seed | Opp_house \<Rightarrow> flipSeed = sd_serverSeed seed | _ \<Rightarrow> True)"
proof (cases opp)
  case (Opp_player uid r e)
  then obtain x d1 where a: "applyBalanceDelta uid (- cf_amountLamports g)
      ((jeton_meta ''coinflip_stake'' ''CoinflipGame'')\<lparr>refId := Some gid\<rparr>) d = Inr (x, d1)"
    and c: "(case r of Some ctx \<Rightarrow> Inr (ctx, d1) | None \<Rightarrow> consumeNonce (env_sha env) (env_fresh env) uid d1) = Inr (ctx, d')"
    and f: "e = None \<longrightarrow> flipSeed = sd_serverSeed seed"
    using assms by (auto simp: take_side_def split: option.splits if_splits)
  have "same_money d1 d' \<and> coinflipGames d' = coinflipGames d1 \<and> seeds d' = seeds d1 \<and> bets d' = bets d1"
    using c consumeNonce_same[of _ _ uid d1 ctx d'] by (auto simp: consumeNonce_eq Let_def split: option.splits)
  then show ?thesis
    using posts_same[OF applyBalanceDelta_posts[OF a]] applyBalanceDelta_frame[OF a] f
    by (auto simp: Opp_player split: option.splits)
next
  case Opp_house
  then show ?thesis using assms consumeNonce_same[of _ _ "cf_creatorId g" d ctx d']
    by (auto simp: take_side_def posts_Nil consumeNonce_eq Let_def)
qed

text \<open>The money of a settlement: the joiner's stake in, the winner's payout out.\<close>

definition flip_journal :: "opponent \<Rightarrow> int \<Rightarrow> nat option \<Rightarrow> posting list" where
  "flip_journal opp stake winner =
     (case opp of Opp_player uid _ _ \<Rightarrow> [(uid, Jeton, - stake)] | Opp_house \<Rightarrow> [])
     @ (case winner of Some w \<Rightarrow> [(w, Jeton, winner_payout stake)] | None \<Rightarrow> [])"

fun opp_user :: "opponent \<Rightarrow> nat option" where
  "opp_user (Opp_player uid _ _) = Some uid"
| "opp_user Opp_house = None"

lemma resolve_cases:
  assumes "resolve env gid g opp d = Inr ((dto, settles), d')" and "map_of (coinflipGames d) gid = Some g"
  obtains seed and ctx :: seed_ctx and flipSeed updated where "joinable (env_now env) g" "map_of (seeds d) (cf_seedId g) = Some seed"
    "posts (flip_journal opp (cf_amountLamports g) (cf_winnerId updated)) d d'"
    "map_of (coinflipGames d') = (map_of (coinflipGames d))(gid \<mapsto> updated)"
    "col_sum f (coinflipGames d') = col_sum f (coinflipGames d) - f g + f updated"
    "map_of (seeds d') = (map_of (seeds d))(cf_seedId g \<mapsto> seed\<lparr>sd_clientSeed := ctx_clientSeed ctx, sd_nonce := ctx_nonce ctx,
        sd_revealedAt := Some (env_now env)\<rparr>)"
    "dto = serialize gid updated d'" "cf_status updated = FlipCompleted" "cf_amountLamports updated = cf_amountLamports g"
    "cf_creatorId updated = cf_creatorId g" "cf_seedId updated = cf_seedId g" "cf_creatorSide updated = cf_creatorSide g"
    "cf_nonce updated = ctx_nonce ctx" "cf_joinerId updated = opp_user opp"
    "cf_result updated = Some (coinflipResult (env_hmac env) flipSeed (ctx_clientSeed ctx) (ctx_nonce ctx))"
    "cf_winnerId updated = (if cf_result updated = Some (cf_creatorSide g) then Some (cf_creatorId g) else opp_user opp)"
    "case opp of Opp_player uid r None \<Rightarrow> flipSeed = sd_serverSeed seed | Opp_house \<Rightarrow> flipSeed = sd_serverSeed seed | _ \<Rightarrow> True"
    "\<exists>bs. bets d' = bets d @ bs \<and> map b_userId bs = cf_creatorId g # (case opp_user opp of None \<Rightarrow> [] | Some u \<Rightarrow> [u])
        \<and> list_all (\<lambda>b. b_amountLamports b = cf_amountLamports g) bs"
proof -
  define d1 where "d1 = d\<lparr>coinflipGames := AList.update gid (g\<lparr>cf_status := FlipResolving\<rparr>) (coinflipGames d)\<rparr>"
  have j: "joinable (env_now env) g" using assms by (auto simp: resolve_def claim_flip_def split: if_splits)
  then have claim: "claim_flip (joinable (env_now env)) (\<lambda>r. r\<lparr>cf_status := FlipResolving\<rparr>) gid d = (1, d1)"
    using assms(2) by (simp add: claim_flip_def d1_def)
  obtain seed where seed: "map_of (seeds d) (cf_seedId g) = Some seed" "sd_serverSeed seed \<noteq> ''''"
    using assms(1) by (auto simp: resolve_def claim split: option.splits if_splits)
  obtain ctx flipSeed d2 where t: "take_side env gid g seed opp d1 = Inr ((ctx, flipSeed), d2)"
    using assms(1) seed by (auto simp: resolve_def claim)
  let ?outcome = "coinflipResult (env_hmac env) flipSeed (ctx_clientSeed ctx) (ctx_nonce ctx)"
  let ?creatorWins = "?outcome = cf_creatorSide g"
  define sides where "sides = (cf_creatorId g, ?creatorWins) # (case opp of Opp_player uid _ _ \<Rightarrow> [(uid, \<not> ?creatorWins)] | Opp_house \<Rightarrow> [])"
  obtain ss d3 where s: "settle_sides env (cf_amountLamports g) (cf_seedId g) (ctx_nonce ctx) sides d2 = Inr (ss, d3)"
    using assms(1) seed t by (auto simp: resolve_def claim Let_def sides_def simp del: settle_sides.simps)
  define updated where "updated = g\<lparr>cf_joinerId := opp_user opp,
                 cf_vsHouse := (opp = Opp_house), cf_result := Some ?outcome,
                 cf_winnerId := (if ?creatorWins then Some (cf_creatorId g)
                           else opp_user opp),
                 cf_status := FlipCompleted, cf_resolvedAt := Some (env_now env), cf_nonce := ctx_nonce ctx, cf_expiresAt := None\<rparr>"
  define seed' where "seed' = seed\<lparr>sd_clientSeed := ctx_clientSeed ctx, sd_nonce := ctx_nonce ctx, sd_revealedAt := Some (env_now env)\<rparr>"
  define d5 where "d5 = d3\<lparr>seeds := AList.update (cf_seedId g) seed' (seeds d3), coinflipGames := AList.update gid updated (coinflipGames d3)\<rparr>"
  have out: "dto = serialize gid updated d5" "d' = d5"
    using assms(1) seed t s unfolding resolve_def claim prod.case Let_def d5_def seed'_def updated_def
    by ((cases opp; auto simp: sides_def simp del: settle_sides.simps)+)
  note ts = take_side_spec[OF t] and ss = settle_sides_spec[OF s]
  have upd: "cf_status updated = FlipCompleted" "cf_amountLamports updated = cf_amountLamports g"
    "cf_creatorId updated = cf_creatorId g" "cf_seedId updated = cf_seedId g" "cf_creatorSide updated = cf_creatorSide g"
    "cf_nonce updated = ctx_nonce ctx" "cf_joinerId updated = opp_user opp" "cf_result updated = Some ?outcome"
    "cf_winnerId updated = (if cf_result updated = Some (cf_creatorSide g) then Some (cf_creatorId g) else opp_user opp)"
    by (simp_all add: updated_def)
  have "same_money d d1" "same_money d3 d5" by (auto intro: same_moneyI simp: d1_def d5_def)
  then have "posts ([] @ (case opp of Opp_player uid _ _ \<Rightarrow> [(uid, Jeton, - cf_amountLamports g)] | Opp_house \<Rightarrow> [])
      @ side_journal (cf_amountLamports g) sides) d d5"
    using ts ss by (meson posts_Nil posts_same posts_trans)
  also have "[] @ (case opp of Opp_player uid _ _ \<Rightarrow> [(uid, Jeton, - cf_amountLamports g)] | Opp_house \<Rightarrow> [])
      @ side_journal (cf_amountLamports g) sides = flip_journal opp (cf_amountLamports g) (cf_winnerId updated)"
    by (cases opp) (auto simp: flip_journal_def side_journal_def sides_def updated_def)
  finally have "posts (flip_journal opp (cf_amountLamports g) (cf_winnerId updated)) d d'" by (simp add: out(2))
  moreover have games: "coinflipGames d' = AList.update gid updated (AList.update gid (g\<lparr>cf_status := FlipResolving\<rparr>) (coinflipGames d))"
    and sds: "seeds d3 = seeds d" using ts ss by (simp_all add: out d5_def d1_def)
  moreover have "col_sum f (coinflipGames d') = col_sum f (coinflipGames d) - f g + f updated"
    using assms(2) by (simp add: games col_sum_update)
  moreover have "\<exists>bs. bets d' = bets d @ bs \<and> map b_userId bs = cf_creatorId g # (case opp_user opp of None \<Rightarrow> [] | Some u \<Rightarrow> [u])
        \<and> list_all (\<lambda>b. b_amountLamports b = cf_amountLamports g) bs"
    using ts ss by (cases opp) (auto simp: out d5_def d1_def sides_def)
  moreover have "map_of (seeds d') = (map_of (seeds d))(cf_seedId g \<mapsto> seed')" using sds by (simp add: out d5_def)
  moreover have "map_of (coinflipGames d') = (map_of (coinflipGames d))(gid \<mapsto> updated)" by (simp add: games)
  ultimately show thesis
    using that[of seed updated ctx flipSeed, OF j seed(1) _ _ _ _ _ upd] ts out by (simp add: seed'_def)
qed

interpretation flip_settle: money_command
  "\<lambda>(env, gid, g, opp) d. if map_of (coinflipGames d) gid = Some g then resolve env gid g opp d else Inl (Internal ''stale'')"
  "\<lambda>(env, gid, g, opp) d out. flip_journal opp (cf_amountLamports g) (fd_winnerId (fst out))"
proof
  fix i d r d'
  assume "(case i of (env, gid, g, opp) \<Rightarrow> \<lambda>d. if map_of (coinflipGames d) gid = Some g then resolve env gid g opp d
      else Inl (Internal ''stale'')) d = Inr (r, d')"
  then obtain env gid g opp dto ss where i: "i = (env, gid, g, opp)" "r = (dto, ss)"
    and g: "map_of (coinflipGames d) gid = Some g" and r: "resolve env gid g opp d = Inr ((dto, ss), d')"
    by (cases i; cases r) (auto split: if_splits)
  from r g show "posts ((case i of (env, gid, g, opp) \<Rightarrow> \<lambda>d out. flip_journal opp (cf_amountLamports g) (fd_winnerId (fst out))) d r) d d'"
    by (rule resolve_cases) (simp add: i)
qed

text \<open>
  C15. A flip is settled once. Settling an open flip moves exactly the joiner's stake and the winner's 1.9 times
  the stake, records one bet of that stake per player and completes the flip; after that no join, house
  call, cancellation or sweep can touch it: settling it again is refused and cancelling it refunds nothing.
\<close>

theorem flip_settled_once:
  assumes "map_of (coinflipGames d) gid = Some g" and "resolve env gid g opp d = Inr ((dto, settles), d')"
  shows "posts (flip_journal opp (cf_amountLamports g) (fd_winnerId dto)) d d'
    \<and> fd_status dto = FlipCompleted
    \<and> (\<exists>bs. bets d' = bets d @ bs \<and> map b_userId bs = cf_creatorId g # (case opp_user opp of None \<Rightarrow> [] | Some u \<Rightarrow> [u])
          \<and> list_all (\<lambda>b. b_amountLamports b = cf_amountLamports g) bs)
    \<and> (\<forall>env' g' opp'. resolve env' gid g' opp' d' = Inl (BadRequest ''Flip not joinable''))
    \<and> (\<forall>now. cancelOpenFlip now gid d' = Inr (False, d'))"
  using assms(2,1)
proof (rule resolve_cases)
  fix seed updated and ctx :: seed_ctx
  assume u: "map_of (coinflipGames d') = (map_of (coinflipGames d))(gid \<mapsto> updated)" "cf_status updated = FlipCompleted"
    "dto = serialize gid updated d'" "posts (flip_journal opp (cf_amountLamports g) (cf_winnerId updated)) d d'"
    "\<exists>bs. bets d' = bets d @ bs \<and> map b_userId bs = cf_creatorId g # (case opp_user opp of None \<Rightarrow> [] | Some u \<Rightarrow> [u])
          \<and> list_all (\<lambda>b. b_amountLamports b = cf_amountLamports g) bs"
  then have "resolve env' gid g' opp' d' = Inl (BadRequest ''Flip not joinable'')" for env' g' opp'
    by (simp add: resolve_def claim_flip_def joinable_def)
  moreover have "cancelOpenFlip now gid d' = Inr (False, d')" for now
    using u by (simp add: cancelOpenFlip_def claim_flip_def)
  ultimately show ?thesis using u by simp
qed

text \<open>
  A flip can be verified. Without chain entropy the reply of a settled flip carries everything its result
  is computed from: the revealed server seed, whose hash is the one the flip was opened with when the
  stored hash is the seed's, and the client seed and nonce of the player who did not choose the moment.
\<close>

theorem flip_verifiable:
  assumes "map_of (coinflipGames d) gid = Some g" and "map_of (seeds d) (cf_seedId g) = Some seed"
    and "sd_serverSeedHash seed = commitServerSeed (env_sha env) (sd_serverSeed seed)"
    and "resolve env gid g opp d = Inr ((dto, settles), d')" and "opp = Opp_house \<or> opp = Opp_player uid r None"
  shows "fd_serverSeed dto = Some (sd_serverSeed seed)
    \<and> fd_serverSeedHash (serialize gid g d) = Some (commitServerSeed (env_sha env) (sd_serverSeed seed))
    \<and> fd_serverSeed (serialize gid g d) = None
    \<and> (\<exists>c. fd_clientSeed dto = Some c
         \<and> fd_result dto = Some (coinflipResult (env_hmac env) (sd_serverSeed seed) c (fd_nonce dto)))
    \<and> fd_winnerId dto = (if fd_result dto = Some (fd_creatorSide dto) then Some (fd_creatorId dto) else opp_user opp)"
  using assms(4,1)
proof (rule resolve_cases)
  fix seed' updated flipSeed and ctx :: seed_ctx
  assume u: "joinable (env_now env) g" "map_of (seeds d) (cf_seedId g) = Some seed'"
    "map_of (seeds d') = (map_of (seeds d))(cf_seedId g \<mapsto> seed'\<lparr>sd_clientSeed := ctx_clientSeed ctx, sd_nonce := ctx_nonce ctx,
        sd_revealedAt := Some (env_now env)\<rparr>)"
    "dto = serialize gid updated d'" "cf_status updated = FlipCompleted" "cf_creatorId updated = cf_creatorId g"
    "cf_seedId updated = cf_seedId g" "cf_creatorSide updated = cf_creatorSide g" "cf_nonce updated = ctx_nonce ctx"
    "cf_result updated = Some (coinflipResult (env_hmac env) flipSeed (ctx_clientSeed ctx) (ctx_nonce ctx))"
    "cf_winnerId updated = (if cf_result updated = Some (cf_creatorSide g) then Some (cf_creatorId g) else opp_user opp)"
    "case opp of Opp_player uid r None \<Rightarrow> flipSeed = sd_serverSeed seed' | Opp_house \<Rightarrow> flipSeed = sd_serverSeed seed' | _ \<Rightarrow> True"
  moreover have "seed' = seed" using u(2) assms(2) by simp
  moreover have "flipSeed = sd_serverSeed seed" using calculation assms(5) by auto
  ultimately show ?thesis using assms(2,3) by (simp add: joinable_def)
qed

text \<open>
  A retried request does not stake twice. When a creation or a join with an idempotency key has gone
  through, the same request on the database it left returns the stored reply and changes nothing.
\<close>

theorem flip_replay:
  assumes "has_key key"
  shows "(create_flip_tx env s json uid sd a h key d = Inr (Fresh_flip dto ss, d1) \<longrightarrow>
      create_flip_tx env' s' json uid sd a h key d1 = Inr (Replayed_flip (json dto), d1))
    \<and> (join_flip_tx env json uid gid r e key d = Inr (Fresh_flip dto ss, d1) \<longrightarrow>
      join_flip_tx env' json uid gid r' e' key d1 = Inr (Replayed_flip (json dto), d1))"
proof (intro conjI impI)
  assume "create_flip_tx env s json uid sd a h key d = Inr (Fresh_flip dto ss, d1)"
  then obtain d0 where "storeIdempotency uid ''coinflip_create'' key (json dto) d0 = Inr d1"
    by (auto simp: create_flip_tx_def Let_def split: option.splits if_splits prod.splits)
  from claim_after_store[OF this assms] show "create_flip_tx env' s' json uid sd a h key d1 = Inr (Replayed_flip (json dto), d1)"
    by (simp add: create_flip_tx_def)
next
  assume "join_flip_tx env json uid gid r e key d = Inr (Fresh_flip dto ss, d1)"
  then obtain d0 where "storeIdempotency uid ''coinflip_join'' key (json dto) d0 = Inr d1"
    by (auto simp: join_flip_tx_def Let_def split: option.splits if_splits prod.splits)
  from claim_after_store[OF this assms] show "join_flip_tx env' json uid gid r' e' key d1 = Inr (Replayed_flip (json dto), d1)"
    by (simp add: join_flip_tx_def)
qed

subsection \<open>A settlement is never stuck\<close>

lemma settle_side_ok:
  assumes "uid \<in> user_ids d" and "0 \<le> stake"
  obtains s d' where "settle_side env stake sid n (uid, won) d = Inr (s, d')" "user_ids d' = user_ids d"
proof -
  let ?profit = "winner_payout stake - stake"
  obtain d1 where up: "updateUser uid (flip_stats stake ?profit won) d = Inr d1" by (rule update_ok[OF assms(1)])
  let ?bet = "\<lparr>b_userId = uid, b_gameType = Coinflip, b_amountLamports = stake,
               b_payoutLamports = (if won then winner_payout stake else 0),
               b_multiplier = Some (if won then PAYOUT_MULTIPLIER else 0), b_status = (if won then BetWon else BetLost),
               b_nonce = Some n, b_seedId = Some sid, b_createdAt = env_now env\<rparr>"
  define d3 where "d3 = snd (accrue (env_now env) uid stake (if won then executeUser uid (raise_biggest ?profit) d1 else d1))"
  define d4 where "d4 = snd (create_bet ?bet d3)"
  let ?meta = "(jeton_meta ''coinflip_payout'' ''Bet'')\<lparr>refId := Some (fst (create_bet ?bet d3))\<rparr>"
  have ids: "user_ids d4 = user_ids d" using update_ids[OF up] by (simp add: d4_def d3_def)
  obtain x d5 where a: "(if won then applyBalanceDelta uid (winner_payout stake) ?meta d4 else Inr (0, d4)) = Inr (x, d5)"
  proof (cases won)
    case True
    have "uid \<in> user_ids d4" "0 \<le> winner_payout stake" "maxBalance ?meta = None"
      using ids assms winner_payout_bounds by simp_all
    then obtain b d5 where "applyBalanceDelta uid (winner_payout stake) ?meta d4 = Inr (b, d5)" by (rule credit_ok)
    then show ?thesis using that True by simp
  qed simp
  have ids5: "user_ids d5 = user_ids d" using a ids delta_ids[of uid _ ?meta d4 x d5] by (auto split: if_splits)
  then obtain d6 where c: "creditReferral (env_enforced env) (env_now env) uid stake Coinflip d5 = Inr d6"
    using referral_ok[of uid d5] assms(1) by metis
  have "\<exists>s. settle_side env stake sid n (uid, won) d = Inr (s, d6)"
    unfolding settle_side_def prod.case Let_def up bindE_simps case_prod_beta d3_def[symmetric] d4_def[symmetric] a fst_conv snd_conv c
    by simp
  then show thesis using that referral_ids[OF c] ids5 by auto
qed

lemma settle_sides_ok:
  assumes "fst ` set sides \<subseteq> user_ids d" and "0 \<le> stake"
  shows "\<exists>ss d'. settle_sides env stake sid n sides d = Inr (ss, d')"
  using assms(1)
proof (induction sides arbitrary: d)
  case (Cons s sides)
  obtain uid won where s: "s = (uid, won)" by (cases s)
  have "uid \<in> user_ids d" using Cons.prems by (simp add: s)
  then obtain x d1 where x: "settle_side env stake sid n (uid, won) d = Inr (x, d1)" and ids: "user_ids d1 = user_ids d"
    using assms(2) by (rule settle_side_ok)
  obtain xs d2 where "settle_sides env stake sid n sides d1 = Inr (xs, d2)"
    using Cons.IH[of d1] Cons.prems ids by auto
  then show ?case by (simp add: s x)
qed simp

lemma resolve_ok:
  assumes "map_of (coinflipGames d) gid = Some g" and "joinable (env_now env) g" and "0 \<le> cf_amountLamports g"
    and "map_of (seeds d) (cf_seedId g) = Some seed" and "sd_serverSeed seed \<noteq> ''''" and "cf_creatorId g \<in> user_ids d"
    and "case opp of Opp_house \<Rightarrow> True
           | Opp_player uid r e \<Rightarrow> e = None \<and> (\<exists>u. map_of (users d) uid = Some u \<and> \<not> banned u
               \<and> cf_amountLamports g \<le> playBalanceLamports u)"
  shows "\<exists>out. resolve env gid g opp d = Inr out"
proof -
  define d1 where "d1 = d\<lparr>coinflipGames := AList.update gid (g\<lparr>cf_status := FlipResolving\<rparr>) (coinflipGames d)\<rparr>"
  have claim: "claim_flip (joinable (env_now env)) (\<lambda>r. r\<lparr>cf_status := FlipResolving\<rparr>) gid d = (1, d1)"
    using assms(1,2) by (simp add: claim_flip_def d1_def)
  have "\<exists>ctx flipSeed d2. take_side env gid g seed opp d1 = Inr ((ctx, flipSeed), d2) \<and> user_ids d2 = user_ids d
    \<and> set_option (opp_user opp) \<subseteq> user_ids d"
  proof (cases opp)
    case Opp_house
    then show ?thesis by (simp add: take_side_def consumeNonce_eq Let_def user_ids_def d1_def)
  next
    case (Opp_player uid r e)
    then obtain u where u: "map_of (users d1) uid = Some u" "\<not> banned u" "0 \<le> playBalanceLamports u - cf_amountLamports g"
      and e: "e = None" using assms(7) by (auto simp: d1_def)
    let ?meta = "(jeton_meta ''coinflip_stake'' ''CoinflipGame'')\<lparr>refId := Some gid\<rparr>"
    have "0 \<le> balance (currency ?meta) u - cf_amountLamports g" using u(3) by simp
    with u(1,2) obtain b d2 where a: "applyBalanceDelta uid (- cf_amountLamports g) ?meta d1 = Inr (b, d2)"
      using assms(3) by (rule debit_ok)
    show ?thesis
      using u a delta_ids[OF a] by (cases r) (auto simp: Opp_player e take_side_def consumeNonce_eq Let_def user_ids_def d1_def)
  qed
  then obtain ctx flipSeed d2 where t: "take_side env gid g seed opp d1 = Inr ((ctx, flipSeed), d2)"
    and ids: "user_ids d2 = user_ids d" "set_option (opp_user opp) \<subseteq> user_ids d" by blast
  let ?wins = "coinflipResult (env_hmac env) flipSeed (ctx_clientSeed ctx) (ctx_nonce ctx) = cf_creatorSide g"
  let ?sides = "(cf_creatorId g, ?wins) # (case opp of Opp_player uid _ _ \<Rightarrow> [(uid, \<not> ?wins)] | Opp_house \<Rightarrow> [])"
  have "fst ` set ?sides \<subseteq> user_ids d2" using ids assms(6) by (cases opp) auto
  from settle_sides_ok[OF this assms(3)] obtain ss d3
    where "settle_sides env (cf_amountLamports g) (cf_seedId g) (ctx_nonce ctx) ?sides d2 = Inr (ss, d3)" by blast
  then show ?thesis
    using assms(4,5) t by (simp add: resolve_def claim Let_def del: settle_sides.simps)
qed

text \<open>
  An open flip can always be finished. When its seed row and its creator exist, the creator's call of the
  house succeeds, and a join succeeds for every player who is not banned, holds the stake and plays in
  the creator's economy.
\<close>

theorem flip_never_stuck:
  assumes "map_of (coinflipGames d) gid = Some g" and "joinable (env_now env) g" and "0 \<le> cf_amountLamports g"
    and "map_of (seeds d) (cf_seedId g) = Some seed" and "sd_serverSeed seed \<noteq> ''''" and "cf_creatorId g \<in> user_ids d"
    and "map_of (users d) uid = Some u" and "\<not> banned u" and "cf_amountLamports g \<le> playBalanceLamports u"
    and "uid \<noteq> cf_creatorId g" and "assertSameEconomy (env_enforced env) (cf_creatorId g) uid d = Inr ()"
  shows "(\<exists>out. playHouse env (cf_creatorId g) gid d = Inr out)
    \<and> (\<exists>out. join_flip_tx env json uid gid None None None d = Inr out)"
proof
  show "\<exists>out. playHouse env (cf_creatorId g) gid d = Inr out"
    using resolve_ok[OF assms(1-6), of Opp_house] assms(1) by (simp add: playHouse_def)
  obtain dto ss d' where "resolve env gid g (Opp_player uid None None) d = Inr ((dto, ss), d')"
    using resolve_ok[OF assms(1-6), of "Opp_player uid None None"] assms(7-9) by fastforce
  then show "\<exists>out. join_flip_tx env json uid gid None None None d = Inr out"
    using assms(1,10,11) by (auto simp: join_flip_tx_def claimIdempotency_def storeIdempotency_def has_key_def)
qed

definition flip_db :: db where
  "flip_db = sample_flip_db\<lparr>seeds := [(0, \<lparr>sd_serverSeed = ''s'', sd_serverSeedHash = commitServerSeed toy_sha ''s'',
     sd_clientSeed = '''', sd_nonce = 0, sd_revealedAt = None\<rparr>)]\<rparr>"

lemma flip_db_sel [simp]:
  "coinflipGames flip_db = [(5, sample_flip)]" "users flip_db = [(1, new_user), (2, new_user)]"
  "map_of (seeds flip_db) (cf_seedId sample_flip) = Some \<lparr>sd_serverSeed = ''s'',
     sd_serverSeedHash = commitServerSeed toy_sha ''s'', sd_clientSeed = '''', sd_nonce = 0, sd_revealedAt = None\<rparr>"
  "joinable 0 sample_flip" "cf_amountLamports sample_flip = 2000000" "cf_creatorId sample_flip = 1"
  by (simp_all add: flip_db_def sample_flip_db_def sample_flip_def joinable_def)

lemma flip_db_resolves:
  obtains dto ss d' where "resolve offline_env 5 sample_flip (Opp_player 2 None None) flip_db = Inr ((dto, ss), d')"
proof -
  have "\<exists>out. resolve offline_env 5 sample_flip (Opp_player 2 None None) flip_db = Inr out"
    by (rule resolve_ok[of _ _ _ _ "\<lparr>sd_serverSeed = ''s'',
     sd_serverSeedHash = commitServerSeed toy_sha ''s'', sd_clientSeed = '''', sd_nonce = 0, sd_revealedAt = None\<rparr>"])
      (simp_all add: user_ids_def)
  then show thesis using that by fastforce
qed

theorem flip_never_stuck_witness:
  "(\<exists>out. playHouse offline_env 1 5 flip_db = Inr out)
   \<and> (\<exists>out. join_flip_tx offline_env (\<lambda>_. ''{}'') 2 5 None None None flip_db = Inr out)"
  using flip_never_stuck[of flip_db 5 sample_flip offline_env _ 2 new_user "\<lambda>_. ''{}''"]
  by (simp add: user_ids_def assertSameEconomy_def)

theorem flip_settled_once_witness:
  "\<exists>dto ss d'. resolve offline_env 5 sample_flip (Opp_player 2 None None) flip_db = Inr ((dto, ss), d')
     \<and> cancelOpenFlip 7 5 d' = Inr (False, d')"
proof -
  obtain dto ss d' where r: "resolve offline_env 5 sample_flip (Opp_player 2 None None) flip_db = Inr ((dto, ss), d')"
    by (rule flip_db_resolves)
  have "map_of (coinflipGames flip_db) 5 = Some sample_flip" by simp
  from flip_settled_once[OF this r] show ?thesis using r by blast
qed

theorem flip_verifiable_witness:
  "\<exists>dto ss d' c. resolve offline_env 5 sample_flip (Opp_player 2 None None) flip_db = Inr ((dto, ss), d')
     \<and> fd_result dto = Some (coinflipResult toy_hmac ''s'' c (fd_nonce dto))"
proof -
  obtain dto ss d' where r: "resolve offline_env 5 sample_flip (Opp_player 2 None None) flip_db = Inr ((dto, ss), d')"
    by (rule flip_db_resolves)
  have "map_of (coinflipGames flip_db) 5 = Some sample_flip" by simp
  from flip_verifiable[OF this flip_db_sel(3) _ r, of 2 None] show ?thesis using r by auto
qed

theorem flip_replay_witness:
  "\<exists>dto ss d1. create_flip_tx offline_env ''s'' (\<lambda>_. ''{}'') 1 Heads 5 False (Some ''k'') rich_db = Inr (Fresh_flip dto ss, d1)
     \<and> create_flip_tx offline_env ''t'' (\<lambda>_. ''{}'') 1 Heads 5 False (Some ''k'') d1 = Inr (Replayed_flip ''{}'', d1)"
proof -
  have key: "has_key (Some ''k'')" by (simp add: has_key_def)
  have "\<exists>dto ss d1. create_flip_tx offline_env ''s'' (\<lambda>_. ''{}'') 1 Heads 5 False (Some ''k'') rich_db = Inr (Fresh_flip dto ss, d1)"
    by (simp add: create_flip_tx_def claimIdempotency_def storeIdempotency_def key applyBalanceDelta_def jeton_meta_def
        insert_row_def Let_def rich_db_def MAX_OPEN_PER_USER_def)
  then obtain dto ss d1 where run:
    "create_flip_tx offline_env ''s'' (\<lambda>_. ''{}'') 1 Heads 5 False (Some ''k'') rich_db = Inr (Fresh_flip dto ss, d1)" by blast
  from flip_replay[where env' = offline_env and s' = "''t''", OF key, THEN conjunct1, rule_format, OF run]
  show ?thesis using run by blast
qed

end
