(* ===== verification/Coinflip_Escrow.thy ===== *)
theory Coinflip_Escrow
  imports Coinflip
begin

text \<open>
  The stakes of open coinflips as an escrow next to the balances: what creating, joining, cancelling and
  expiring flips does to the sum of both.
\<close>

subsection \<open>Stakes in escrow\<close>

text \<open>What the ledger has moved in a currency, and the stakes locked in open flips.\<close>

definition posted :: "currency \<Rightarrow> db \<Rightarrow> int" where
  "posted c d = sum_list (map l_delta (filter (\<lambda>r. l_currency r = c) (ledger d)))"

definition escrow :: "db \<Rightarrow> int" where
  "escrow d = col_sum (\<lambda>g. if cf_status g = FlipOpen then cf_amountLamports g else 0) (coinflipGames d)"

definition held :: "db \<Rightarrow> int" where
  "held d = posted Jeton d + escrow d"

lemma posts_posted: "posts ps d d' \<Longrightarrow> posted c d' = posted c d + sum_list (map (\<lambda>(u, k, x). if k = c then x else 0) ps)"
proof -
  assume "posts ps d d'"
  then obtain rs where rs: "ledger d' = ledger d @ rs" "map posting_of rs = ps" unfolding posts_def by blast
  have "sum_list (map l_delta (filter (\<lambda>r. l_currency r = c) rs)) = sum_list (map (\<lambda>(u, k, x). if k = c then x else 0) (map posting_of rs))"
    by (induction rs) (auto simp: posting_of_def)
  then show ?thesis using rs by (simp add: posted_def)
qed

lemma same_posted: "same_money d d' \<Longrightarrow> posted c d' = posted c d"
  by (simp add: posted_def same_money_def)

definition stakes_ok :: "db \<Rightarrow> bool" where
  "stakes_ok d \<longleftrightarrow> (\<forall>i g. map_of (coinflipGames d) i = Some g \<longrightarrow> 0 \<le> cf_amountLamports g)"

lemma escrow_update:
  "map_of (coinflipGames d) gid = Some g \<Longrightarrow> cf_status g = FlipOpen \<Longrightarrow> cf_status u \<noteq> FlipOpen \<Longrightarrow>
     coinflipGames d' = AList.update gid u (coinflipGames d) \<Longrightarrow> escrow d' = escrow d - cf_amountLamports g"
  by (simp add: escrow_def col_sum_update)

lemma held_cancel:
  assumes "cancelOpenFlip now gid d = Inr (b, d')"
  shows "held d' = held d" and "stakes_ok d \<Longrightarrow> stakes_ok d'"
proof -
  from assms have "held d' = held d \<and> (stakes_ok d \<longrightarrow> stakes_ok d')"
  proof (cases rule: cancelOpenFlip_cases)
    case (2 g x)
    let ?d = "d\<lparr>coinflipGames := AList.update gid (g\<lparr>cf_status := FlipCancelled, cf_resolvedAt := Some now\<rparr>) (coinflipGames d)\<rparr>"
    have "escrow d' = escrow d - cf_amountLamports g"
      by (rule escrow_update[OF 2(2,3), of "g\<lparr>cf_status := FlipCancelled, cf_resolvedAt := Some now\<rparr>"])
        (simp_all add: applyBalanceDelta_frame[OF 2(4)])
    moreover have "posted Jeton d' = posted Jeton ?d + cf_amountLamports g"
      using posts_posted[OF applyBalanceDelta_posts[OF 2(4)], of Jeton] by simp
    moreover have "posted Jeton ?d = posted Jeton d" by (rule same_posted) (rule same_moneyI; simp)
    ultimately show ?thesis using 2(2) by (auto simp: held_def stakes_ok_def applyBalanceDelta_frame[OF 2(4)])
  qed auto
  then show "held d' = held d" "stakes_ok d \<Longrightarrow> stakes_ok d'" by simp_all
qed

lemma held_resolve:
  assumes "resolve env gid g opp d = Inr ((dto, ss), d')" and "map_of (coinflipGames d) gid = Some g"
  shows "held d' = held d - cf_amountLamports g
      + sum_list (map (\<lambda>(u, k, x). x) (flip_journal opp (cf_amountLamports g) (fd_winnerId dto)))"
    and "stakes_ok d \<Longrightarrow> stakes_ok d'"
proof -
  let ?f = "\<lambda>g. if cf_status g = FlipOpen then cf_amountLamports g else 0"
  have jeton: "sum_list (map (\<lambda>(u, k, x). if k = Jeton then x else 0) (flip_journal opp a w))
      = sum_list (map (\<lambda>(u, k, x). x) (flip_journal opp a w))" for a w
    by (cases opp; cases w) (simp_all add: flip_journal_def)
  have "held d' = held d - cf_amountLamports g
      + sum_list (map (\<lambda>(u, k, x). x) (flip_journal opp (cf_amountLamports g) (fd_winnerId dto)))
    \<and> (stakes_ok d \<longrightarrow> stakes_ok d')"
    using assms
  proof (rule resolve_cases[where f = ?f])
    fix seed updated and ctx :: seed_ctx
    assume u: "joinable (env_now env) g" "posts (flip_journal opp (cf_amountLamports g) (cf_winnerId updated)) d d'"
      "map_of (coinflipGames d') = (map_of (coinflipGames d))(gid \<mapsto> updated)"
      "col_sum ?f (coinflipGames d') = col_sum ?f (coinflipGames d) - ?f g + ?f updated"
      "cf_status updated = FlipCompleted" "cf_amountLamports updated = cf_amountLamports g" "dto = serialize gid updated d'"
    have "escrow d' = escrow d - cf_amountLamports g" using u by (simp add: escrow_def joinable_def)
    moreover have "posted Jeton d' = posted Jeton d
        + sum_list (map (\<lambda>(u, k, x). x) (flip_journal opp (cf_amountLamports g) (fd_winnerId dto)))"
      using posts_posted[OF u(2), of Jeton] u(7) by (simp add: jeton)
    ultimately show ?thesis using u(3,6) assms(2) by (auto simp: held_def stakes_ok_def)
  qed
  then show "held d' = held d - cf_amountLamports g
      + sum_list (map (\<lambda>(u, k, x). x) (flip_journal opp (cf_amountLamports g) (fd_winnerId dto)))"
    and "stakes_ok d \<Longrightarrow> stakes_ok d'" by simp_all
qed

lemma held_same:
  assumes "same_money d d'" and "coinflipGames d' = coinflipGames d"
  shows "held d' = held d" "stakes_ok d' = stakes_ok d"
  using assms same_posted by (simp_all add: held_def escrow_def stakes_ok_def)

lemma idempotency_games:
  "claimIdempotency u s k d = Inr (r, d') \<Longrightarrow> coinflipGames d' = coinflipGames d"
  "storeIdempotency u s k x d = Inr d' \<Longrightarrow> coinflipGames d' = coinflipGames d"
  by (auto simp: claimIdempotency_def storeIdempotency_def split: if_splits option.splits)

lemmas held_claim = held_same[OF claim_same idempotency_games(1)]
lemmas held_store = held_same[OF store_same idempotency_games(2)]

lemma held_create:
  assumes "create_flip env s json uid sd a False key d = Inr (r, d')" and "stakes_ok d"
  shows "held d' = held d \<and> stakes_ok d'"
proof -
  have tx: "create_flip_tx env s json uid sd a False key d = Inr (r, d')" and a: "0 \<le> a"
    using assms(1) by (auto simp: create_flip_def flip_in_range_def MIN_BET_LAMPORTS_def split: if_splits)
  obtain replay d0 where c: "claimIdempotency uid ''coinflip_create'' key d = Inr (replay, d0)"
    using tx by (auto simp: create_flip_tx_def)
  note h0 = held_claim[OF c c]
  show ?thesis
  proof (cases replay)
    case (Some x)
    then show ?thesis using tx c h0 assms(2) by (simp add: create_flip_tx_def)
  next
    case None
    let ?gid = "fresh_key (coinflipGames d0)"
    obtain x d1 where p: "applyBalanceDelta uid (- a) ((jeton_meta ''coinflip_stake'' ''CoinflipGame'')\<lparr>refId := Some ?gid\<rparr>) d0 = Inr (x, d1)"
      using tx c None by (auto simp: create_flip_tx_def Let_def split: option.splits if_splits)
    obtain sid sr where ins: "insert_row \<lparr>sd_serverSeed = s, sd_serverSeedHash = commitServerSeed (env_sha env) s,
        sd_clientSeed = '''', sd_nonce = 0, sd_revealedAt = None\<rparr> (seeds d1) = (sid, sr)" by fastforce
    define g where "g = \<lparr>cf_creatorId = uid, cf_creatorSide = sd, cf_joinerId = None,
        cf_amountLamports = a, cf_result = None, cf_winnerId = None, cf_status = FlipOpen,
        cf_seedId = sid, cf_nonce = 0, cf_vsHouse = False, cf_expiresAt = Some (env_now env + OPEN_TTL_MS), cf_resolvedAt = None\<rparr>"
    define d2 where "d2 = d1\<lparr>seeds := sr, coinflipGames := coinflipGames d1 @ [(?gid, g)]\<rparr>"
    note d2 = d2_def
    have g: "cf_status g = FlipOpen" "cf_amountLamports g = a" by (simp_all add: g_def)
    have st: "storeIdempotency uid ''coinflip_create'' key (json (serialize ?gid g d2)) d2 = Inr d'"
      using tx c p None ins by (auto simp: create_flip_tx_def Let_def g_def d2_def split: option.splits if_splits)
    have games: "coinflipGames d2 = coinflipGames d0 @ [(fresh_key (coinflipGames d0), g)]"
      using applyBalanceDelta_frame[OF p] d2 by simp
    have "posted Jeton d2 = posted Jeton d1" by (rule same_posted) (rule same_moneyI; simp add: d2)
    moreover have "posted Jeton d1 = posted Jeton d0 - a" using posts_posted[OF applyBalanceDelta_posts[OF p], of Jeton] by simp
    moreover have "escrow d2 = escrow d0 + a" using g by (simp add: escrow_def games col_sum_def)
    ultimately have "held d2 = held d0" by (simp add: held_def)
    moreover have "stakes_ok d2" using h0 assms(2) g a unfolding stakes_ok_def games map_of_snoc_fresh by auto
    ultimately show ?thesis using held_store[OF st st] h0 by simp
  qed
qed

lemma flip_journal_player:
  "0 \<le> a \<Longrightarrow> sum_list (map (\<lambda>(u, k, x). x) (flip_journal (Opp_player uid r e) a w)) \<le> a"
  using winner_payout_bounds[of a] by (cases w) (simp_all add: flip_journal_def)

lemma held_join:
  assumes "stakes_ok d"
  shows "held (snd (join_flip env json uid gid key d)) \<le> held d \<and> stakes_ok (snd (join_flip env json uid gid key d))"
proof -
  have tx: "held d' \<le> held d0 \<and> stakes_ok d'"
    if t: "join_flip_tx env json uid gid r e key d0 = Inr (out, d')" and ok: "stakes_ok d0" for r e d0 out d'
  proof -
    obtain replay d1 where c: "claimIdempotency uid ''coinflip_join'' key d0 = Inr (replay, d1)"
      using t by (auto simp: join_flip_tx_def)
    note h = held_claim[OF c c]
    show ?thesis
    proof (cases replay)
      case (Some x)
      then show ?thesis using t c h ok by (simp add: join_flip_tx_def)
    next
      case None
      then obtain g dto ss d2 where g: "map_of (coinflipGames d1) gid = Some g"
        and res: "resolve env gid g (Opp_player uid r e) d1 = Inr ((dto, ss), d2)"
        and st: "storeIdempotency uid ''coinflip_join'' key (json dto) d2 = Inr d'"
        using t c by (auto simp: join_flip_tx_def split: option.splits if_splits)
      have "0 \<le> cf_amountLamports g" using ok h(2) g by (auto simp: stakes_ok_def)
      then show ?thesis
        using held_resolve[OF res g] held_store[OF st st] h ok flip_journal_player[of "cf_amountLamports g" uid r e "fd_winnerId dto"]
        by simp
    qed
  qed
  have prep: "held d1 = held d \<and> stakes_ok d1" if "prepare_join env uid gid d = Inr (p, d1)" for p d1
  proof -
    have "same_money d d1 \<and> coinflipGames d1 = coinflipGames d"
      using that by (auto simp: prepare_join_def reserve_eq_consume consumeNonce_eq Let_def same_moneyI split: option.splits if_splits)
    then show ?thesis using held_same assms by blast
  qed
  show ?thesis
    using assms prep tx by (fastforce simp: join_flip_def Let_def split: option.splits sum.splits prod.splits)
qed

lemma held_expire_each: "stakes_ok d \<Longrightarrow> held (snd (expire_each now gids n d)) = held d \<and> stakes_ok (snd (expire_each now gids n d))"
proof (induction gids arbitrary: n d)
  case (Cons gid gids)
  show ?case
  proof (cases "cancelOpenFlip now gid d")
    case (Inr out)
    obtain b d1 where "out = (b, d1)" by (cases out)
    then show ?thesis using Cons held_cancel[of now gid d b d1] Inr by simp
  qed (use Cons.prems in simp)
qed simp

datatype flip_cmd =
    Create_flip play_env string "flip_dto \<Rightarrow> string" nat side int "string option"
  | Join_flip play_env "flip_dto \<Rightarrow> string" nat nat "string option"
  | Cancel_flip int nat nat
  | Expire_flips int

fun flip_run :: "flip_cmd \<Rightarrow> db \<Rightarrow> db" where
  "flip_run (Create_flip env s json uid sd a key) d =
     (case create_flip env s json uid sd a False key d of Inl _ \<Rightarrow> d | Inr (_, d') \<Rightarrow> d')"
| "flip_run (Join_flip env json uid gid key) d = snd (join_flip env json uid gid key d)"
| "flip_run (Cancel_flip now uid gid) d = (case cancel_flip now uid gid d of Inl _ \<Rightarrow> d | Inr (_, d') \<Rightarrow> d')"
| "flip_run (Expire_flips now) d = snd (expireStale now d)"

lemma held_run: "stakes_ok d \<Longrightarrow> held (flip_run c d) \<le> held d \<and> stakes_ok (flip_run c d)"
proof (cases c)
  case (Cancel_flip now uid gid)
  assume "stakes_ok d"
  then show ?thesis using held_cancel[of now gid d]
    by (auto simp: Cancel_flip cancel_flip_def split: sum.splits option.splits if_splits)
qed (auto simp: held_join held_expire_each expireStale_def Let_def dest: held_create split: sum.splits)

text \<open>
  C4. Flips between players create no money. Whatever players do with flips against each other, create, join,
  cancel or let them expire, in any order, the balances moved by the ledger together with the stakes
  still locked in open flips never grow: what one player wins was staked, and the house never pays in.
\<close>

theorem flips_conserve:
  assumes "stakes_ok d"
  shows "held (fold flip_run cmds d) \<le> held d \<and> stakes_ok (fold flip_run cmds d)"
  using assms
proof (induction cmds arbitrary: d)
  case (Cons c cmds)
  then show ?case using held_run[of d c] by fastforce
qed simp

theorem flips_conserve_witness:
  "held (fold flip_run [Cancel_flip 7 1 5, Expire_flips 99999] flip_db) \<le> held flip_db"
  by (rule flips_conserve[THEN conjunct1]) (simp add: stakes_ok_def)

end
