(* ===== verification/Periods.thy ===== *)
theory Periods
  imports Proof_Of_Wager
begin

text \<open>
  The period keys of \<open>apps/api/src/queue/queue.constants.ts\<close> and the \<open>hourWindow\<close> that the hourly services
  parse them back with. The keys are written and read back for every time from 1970 up to the year 9999;
  beyond it the year has five digits and the slices of the source cut the wrong fields.
\<close>

subsection \<open>Keys\<close>

definition HOUR_MS :: int where "HOUR_MS = 3600000"

definition dayPeriod :: "int \<Rightarrow> string" where
  "dayPeriod ms = (let (y, mm, dd) = civil_of_days (ms div MS_PER_DAY)
                   in decimal (nat y) @ pad2 mm @ pad2 dd)"

definition periodForHour :: "int \<Rightarrow> string" where
  "periodForHour ms = (let (y, mm, dd) = civil_of_days (ms div MS_PER_DAY)
                       in decimal (nat y) @ pad2 mm @ pad2 dd @ pad2 (ms mod MS_PER_DAY div HOUR_MS))"

definition lastCompletedHourPeriod :: "int \<Rightarrow> string" where
  "lastCompletedHourPeriod ms = periodForHour (ms - ms mod HOUR_MS - 1)"

definition lastCompletedDayPeriod :: "int \<Rightarrow> string" where
  "lastCompletedDayPeriod ms = dayPeriod (ms - ms mod MS_PER_DAY - 1)"

definition tenMinuteBucket :: "int \<Rightarrow> int" where
  "tenMinuteBucket ms = js_floor (fl (of_int ms / 600000))"

definition slice_str :: "nat \<Rightarrow> nat \<Rightarrow> string \<Rightarrow> string" where
  "slice_str a b s = take (b - a) (drop a s)"

text \<open>\<open>Number\<close> of a string of decimal digits.\<close>

definition parse_dec :: "string \<Rightarrow> int" where
  "parse_dec s = int (foldl (\<lambda>acc c. acc * 10 + hex_value c) 0 s)"

definition dayPeriodStartMs :: "string \<Rightarrow> int" where
  "dayPeriodStartMs p = days_of_civil (parse_dec (slice_str 0 4 p)) (parse_dec (slice_str 4 6 p)) (parse_dec (slice_str 6 8 p)) * MS_PER_DAY"

definition hourWindow :: "string \<Rightarrow> int \<times> int" where
  "hourWindow p =
     (let start = days_of_civil (parse_dec (slice_str 0 4 p)) (parse_dec (slice_str 4 6 p)) (parse_dec (slice_str 6 8 p)) * MS_PER_DAY
                  + parse_dec (slice_str 8 10 p) * HOUR_MS
      in (start, start + HOUR_MS))"

subsection \<open>The calendar\<close>

text \<open>The days before year \<open>y\<close> of an era of 400 years that start in March, and the year of a day of the era.\<close>

definition era_days :: "int \<Rightarrow> int" where "era_days y = 365 * y + y div 4 - y div 100"

definition year_of_era :: "int \<Rightarrow> int" where
  "year_of_era e = (e - e div 1460 + e div 36524 - e div 146096) div 365"

lemma div_lipschitz:
  fixes a b k :: int
  assumes "a \<le> b" and "0 < k"
  shows "b div k - a div k \<le> b - a"
proof -
  have "(b - a) * 1 \<le> (b - a) * k" using assms by (intro mult_left_mono) auto
  then have "b \<le> a + (b - a) * k" by simp
  then have "b div k \<le> (a + (b - a) * k) div k" using assms(2) by (rule zdiv_mono1)
  then show ?thesis using assms(2) by simp
qed

lemma era_days_mono: assumes "y \<le> y'" shows "era_days y \<le> era_days y'"
proof -
  have "y' div 100 - y div 100 \<le> y' - y" using assms by (rule div_lipschitz) simp
  moreover have "y div 4 \<le> y' div 4" using assms by (rule zdiv_mono1) simp
  ultimately show ?thesis unfolding era_days_def using assms by linarith
qed

lemma year_of_era_mono: assumes "a \<le> b" shows "year_of_era a \<le> year_of_era b"
proof -
  have 1: "b div 1460 - a div 1460 \<le> b - a" using assms by (rule div_lipschitz) simp
  have d: "e div 146096 = e div 36524 div 4" for e :: int
    using zdiv_zmult2_eq[of 4 e 36524] by simp
  have "a div 36524 \<le> b div 36524" using assms by (rule zdiv_mono1) simp
  then have 2: "b div 36524 div 4 - a div 36524 div 4 \<le> b div 36524 - a div 36524"
    by (rule div_lipschitz) simp
  show ?thesis unfolding year_of_era_def d using 1 2 by (intro zdiv_mono1) linarith+
qed

lemma year_of_era_check:
  assumes "0 \<le> y" and "y \<le> 399"
  shows "year_of_era (era_days y) = y" and "year_of_era (era_days (y + 1) - 1) = y"
proof -
  have "list_all (\<lambda>y. year_of_era (era_days y) = y \<and> year_of_era (era_days (y + 1) - 1) = y) [0..399]"
    unfolding year_of_era_def era_days_def by code_simp
  then show "year_of_era (era_days y) = y" and "year_of_era (era_days (y + 1) - 1) = y"
    using assms by (simp_all add: list_all_iff)
qed

lemma era_year_exists:
  "0 \<le> e \<Longrightarrow> e < era_days (int n) \<Longrightarrow> \<exists>k<n. era_days (int k) \<le> e \<and> e < era_days (int k + 1)"
proof (induction n)
  case (Suc n)
  show ?case
  proof (cases "e < era_days (int n)")
    case True
    then show ?thesis using Suc less_Suc_eq by blast
  next
    case False
    then show ?thesis using Suc.prems by (intro exI[of _ n]) (simp add: algebra_simps)
  qed
qed (simp add: era_days_def)

lemma era_year_length: "era_days (y + 1) \<le> era_days y + 366"
proof -
  have "(y + 1) div 4 - y div 4 \<le> y + 1 - y" by (rule div_lipschitz) simp_all
  moreover have "y div 100 \<le> (y + 1) div 100" by (rule zdiv_mono1) simp_all
  moreover have "p - q \<le> y + 1 - y \<Longrightarrow> s \<le> r \<Longrightarrow> 365 * (y + 1) + p - r \<le> 365 * y + q - s + 366" for p q r s :: int
    by simp
  ultimately show ?thesis unfolding era_days_def by blast
qed

lemma year_of_era_spec:
  assumes "0 \<le> e" and "e < 146097"
  shows "0 \<le> year_of_era e \<and> year_of_era e \<le> 399 \<and> era_days (year_of_era e) \<le> e \<and> e \<le> era_days (year_of_era e) + 365"
proof (cases "e = 146096")
  case True
  then show ?thesis by (simp add: year_of_era_def era_days_def)
next
  case False
  then have "e < era_days (int 400)" using assms by (simp add: era_days_def)
  then obtain k where k: "k < 400" "era_days (int k) \<le> e" "e < era_days (int k + 1)"
    using era_year_exists[OF assms(1)] by blast
  have "year_of_era e = int k"
    using year_of_era_mono[OF k(2)] year_of_era_mono[of e "era_days (int k + 1) - 1"] k year_of_era_check[of "int k"] by simp
  then show ?thesis using k era_year_length[of "int k"] by simp
qed


lemma month_bounds:
  fixes doy mp :: int
  assumes "0 \<le> doy" and "doy \<le> 365" and "mp = (5 * doy + 2) div 153"
  shows "0 \<le> mp \<and> mp \<le> 11 \<and> 1 \<le> doy - (153 * mp + 2) div 5 + 1 \<and> doy - (153 * mp + 2) div 5 + 1 \<le> 31"
    and "10 \<le> mp \<Longrightarrow> 306 \<le> doy"
proof -
  have m: "mp * 153 \<le> 5 * doy + 2" "5 * doy + 2 < mp * 153 + 153"
    using assms(3) div_mult_le[of 153 "5 * doy + 2"] less_div_mult[of 153 "5 * doy + 2"] by simp_all
  have d: "(153 * mp + 2) div 5 * 5 \<le> 153 * mp + 2" "153 * mp + 2 < (153 * mp + 2) div 5 * 5 + 5"
    by (rule div_mult_le less_div_mult, simp)+
  show "0 \<le> mp \<and> mp \<le> 11 \<and> 1 \<le> doy - (153 * mp + 2) div 5 + 1 \<and> doy - (153 * mp + 2) div 5 + 1 \<le> 31"
    using m d assms(1,2) by linarith
  show "10 \<le> mp \<Longrightarrow> 306 \<le> doy" using m by linarith
qed

text \<open>A day is found again from its date, which has four digits of year up to the year 9999.\<close>

lemma civil_round_trip:
  assumes "civil_of_days z = (y, mm, dd)"
  shows "days_of_civil y mm dd = z" and "1 \<le> mm \<and> mm \<le> 12" and "1 \<le> dd \<and> dd \<le> 31"
    and "0 \<le> z \<Longrightarrow> 1000 \<le> y" and "z < 2932897 \<Longrightarrow> y < 10000"
proof -
  define e where "e = (z + 719468) mod 146097"
  define era where "era = (z + 719468) div 146097"
  define k where "k = year_of_era e"
  define doy where "doy = e - era_days k"
  define mp where "mp = (5 * doy + 2) div 153"
  have z: "z = era * 146097 + e - 719468" unfolding era_def e_def using div_mult_mod_eq[of "z + 719468" 146097] by linarith
  have e: "0 \<le> e" "e < 146097" by (simp_all add: e_def)
  have k: "0 \<le> k" "k \<le> 399" and doy: "0 \<le> doy" "doy \<le> 365"
    using year_of_era_spec[OF e] by (auto simp: k_def doy_def)
  note mp = month_bounds[OF doy mp_def]
  have out: "y = k + era * 400 + (if mp < 10 then 0 else 1)" "mm = (if mp < 10 then mp + 3 else mp - 9)"
      "dd = doy - (153 * mp + 2) div 5 + 1"
    using assms mp(1) unfolding civil_of_days_def Let_def e_def[symmetric] era_def[symmetric]
      year_of_era_def[of e, folded k_def, symmetric] doy_def[unfolded era_days_def, symmetric] mp_def[symmetric]
    by (auto split: if_splits)
  have kk: "(k + era * 400) div 400 = era" "(k + era * 400) mod 400 = k" "k mod 400 = k" using k by simp_all
  have "(if mm \<le> 2 then y - 1 else y) = k + era * 400" "(if mm > 2 then mm - 3 else mm + 9) = mp"
    using mp(1) by (auto simp: out)
  then show "days_of_civil y mm dd = z"
    unfolding days_of_civil_def Let_def by (simp add: kk out(3) z doy_def era_days_def)
  show "1 \<le> mm \<and> mm \<le> 12" and "1 \<le> dd \<and> dd \<le> 31" using mp(1) by (auto simp: out)
  show "1000 \<le> y" if "0 \<le> z"
  proof -
    have "4 \<le> era" unfolding era_def using that by (intro le_div_of_mult_le) simp_all
    then show ?thesis using k by (simp add: out(1))
  qed
  show "y < 10000" if "z < 2932897"
  proof (rule ccontr)
    assume "\<not> y < 10000"
    then have "10000 \<le> k + era * 400 + (if mp < 10 then 0 else 1)" by (simp add: out(1))
    then have "25 \<le> era \<or> era = 24 \<and> k = 399 \<and> 10 \<le> mp" using k by (auto split: if_splits)
    then show False
      using that z e mp(2) doy by (auto simp: doy_def era_days_def)
  qed
qed

subsection \<open>Reading a key back\<close>

lemma parse_dec_decimal [simp]: "0 \<le> n \<Longrightarrow> parse_dec (decimal (nat n)) = n"
  by (simp add: parse_dec_def parse_decimal)

lemma decimal_one [simp]: "n < 10 \<Longrightarrow> decimal n = [hex_digit n]"
  by (subst decimal.simps) simp

lemma decimal_step: "10 \<le> n \<Longrightarrow> decimal n = decimal (n div 10) @ [hex_digit (n mod 10)]"
  by (subst decimal.simps) simp

lemma length_decimal_4: assumes "1000 \<le> n" and "n < 10000" shows "length (decimal n) = 4"
proof -
  have "1 \<le> n div 10 div 10 div 10" "n div 10 div 10 div 10 < 10" "10 \<le> n div 10 div 10" "10 \<le> n div 10" "10 \<le> n"
    using assms by simp_all
  then show ?thesis
    using decimal_step[of n] decimal_step[of "n div 10"] decimal_step[of "n div 10 div 10"]
      decimal_one[of "n div 10 div 10 div 10"] by simp
qed

lemma pad2_spec: assumes "0 \<le> n" and "n < 100" shows "length (pad2 n) = 2 \<and> parse_dec (pad2 n) = n"
proof -
  have p: "parse_dec (decimal (nat n)) = n" using assms by simp
  show ?thesis
  proof (cases "nat n < 10")
    case True
    then have l: "length (decimal (nat n)) = 1" by simp
    have q: "pad2 n = ''0'' @ decimal (nat n)" using l by (simp add: pad2_def Let_def del: decimal_one)
    have r: "parse_dec (''0'' @ s) = parse_dec s" for s
      by (simp add: parse_dec_def hex_value_def)
    show ?thesis unfolding q r p using l by simp
  next
    case False
    then have "length (decimal (nat n)) = 2"
      using assms decimal_step[of "nat n"] decimal_one[of "nat n div 10"] by simp
    then show ?thesis using p by (simp add: pad2_def Let_def)
  qed
qed

lemma key_slices:
  assumes "civil_of_days z = (y, mm, dd)" and "0 \<le> z" and "z < 2932897" and "s = decimal (nat y) @ pad2 mm @ pad2 dd @ t"
  shows "parse_dec (slice_str 0 4 s) = y" and "parse_dec (slice_str 4 6 s) = mm" and "parse_dec (slice_str 6 8 s) = dd"
    and "drop 8 s = t"
proof -
  have y: "length (decimal (nat y)) = 4" "0 \<le> y"
    using civil_round_trip(4,5)[OF assms(1)] assms(2,3) length_decimal_4[of "nat y"] by auto
  have "length (pad2 mm) = 2 \<and> parse_dec (pad2 mm) = mm" "length (pad2 dd) = 2 \<and> parse_dec (pad2 dd) = dd"
    using civil_round_trip(2,3)[OF assms(1)] by (auto intro!: pad2_spec)
  then show "parse_dec (slice_str 0 4 s) = y" and "parse_dec (slice_str 4 6 s) = mm" and "parse_dec (slice_str 6 8 s) = dd"
    and "drop 8 s = t"
    using y by (simp_all add: assms(4) slice_str_def)
qed

definition YEAR_10000_MS :: int where "YEAR_10000_MS = 253402300800000"

lemma day_in_range: "0 \<le> ms \<Longrightarrow> ms < YEAR_10000_MS \<Longrightarrow> 0 \<le> ms div MS_PER_DAY \<and> ms div MS_PER_DAY < 2932897"
  by (auto simp: MS_PER_DAY_def YEAR_10000_MS_def pos_imp_zdiv_nonneg_iff intro!: div_less_of_mult_less)

lemma day_round_trip:
  assumes "0 \<le> ms" and "ms < YEAR_10000_MS"
  shows "dayPeriodStartMs (dayPeriod ms) = ms div MS_PER_DAY * MS_PER_DAY"
proof -
  obtain y mm dd where c: "civil_of_days (ms div MS_PER_DAY) = (y, mm, dd)" by (metis prod_cases3)
  note k = key_slices[OF c _ _, of "dayPeriod ms" "[]"]
  show ?thesis using k day_in_range[OF assms] civil_round_trip(1)[OF c]
    by (simp add: dayPeriodStartMs_def dayPeriod_def c)
qed

lemma hour_round_trip:
  assumes "0 \<le> ms" and "ms < YEAR_10000_MS"
  shows "hourWindow (periodForHour ms) = (ms - ms mod HOUR_MS, ms - ms mod HOUR_MS + HOUR_MS)"
proof -
  obtain y mm dd where c: "civil_of_days (ms div MS_PER_DAY) = (y, mm, dd)" by (metis prod_cases3)
  let ?h = "ms mod MS_PER_DAY div HOUR_MS"
  have h: "0 \<le> ?h" "?h < 100"
    by (auto simp: MS_PER_DAY_def HOUR_MS_def pos_imp_zdiv_nonneg_iff intro!: div_less_of_mult_less)
  have key: "periodForHour ms = decimal (nat y) @ pad2 mm @ pad2 dd @ pad2 ?h"
    by (simp add: periodForHour_def c)
  note z = day_in_range[OF assms]
  note k = key_slices[OF c conjunct1[OF z] conjunct2[OF z] key]
  have "slice_str 8 10 (periodForHour ms) = take 2 (drop 8 (periodForHour ms))" by (simp add: slice_str_def)
  then have hh: "parse_dec (slice_str 8 10 (periodForHour ms)) = ?h"
    using pad2_spec[OF h] unfolding k(4) by simp
  have "ms mod MS_PER_DAY mod HOUR_MS = ms mod HOUR_MS"
    by (simp add: MS_PER_DAY_def HOUR_MS_def mod_mod_cancel)
  then have "ms div MS_PER_DAY * MS_PER_DAY + ?h * HOUR_MS = ms - ms mod HOUR_MS"
    using div_mult_mod_eq[of ms MS_PER_DAY] div_mult_mod_eq[of "ms mod MS_PER_DAY" HOUR_MS] by linarith
  then show ?thesis unfolding hourWindow_def hh k(1-3) civil_round_trip(1)[OF c] by (simp add: Let_def)
qed


subsection \<open>Hours by number\<close>

text \<open>
  The tables key an hour by its number since 1970. \<open>lastCompletedHourPeriod now\<close> is the key of hour
  \<open>lastCompletedHour now\<close>, and \<open>hour_bounds\<close> is its window.
\<close>

definition lastCompletedHour :: "int \<Rightarrow> int" where
  "lastCompletedHour now = (now - now mod HOUR_MS - 1) div HOUR_MS"

definition hour_bounds :: "int \<Rightarrow> int \<times> int" where
  "hour_bounds p = (p * HOUR_MS, p * HOUR_MS + HOUR_MS)"

lemma lastCompletedHour_eq: "lastCompletedHour now = now div HOUR_MS - 1"
proof -
  have "now - now mod HOUR_MS - 1 = (now div HOUR_MS - 1) * HOUR_MS + (HOUR_MS - 1)"
    using div_mult_mod_eq[of now HOUR_MS] by (simp add: algebra_simps)
  moreover have "((now div HOUR_MS - 1) * HOUR_MS + (HOUR_MS - 1)) div HOUR_MS = now div HOUR_MS - 1"
    by (simp add: HOUR_MS_def)
  ultimately show ?thesis by (simp only: lastCompletedHour_def)
qed

lemma hour_parts: "ms div MS_PER_DAY = ms div HOUR_MS div 24" "ms mod MS_PER_DAY div HOUR_MS = ms div HOUR_MS mod 24"
proof -
  have d: "MS_PER_DAY = HOUR_MS * 24" by (simp add: MS_PER_DAY_def HOUR_MS_def)
  show "ms div MS_PER_DAY = ms div HOUR_MS div 24" unfolding d by (rule zdiv_zmult2_eq) simp
  have "ms mod (HOUR_MS * 24) = HOUR_MS * (ms div HOUR_MS mod 24) + ms mod HOUR_MS"
    by (rule zmod_zmult2_eq) simp
  moreover have "(HOUR_MS * (ms div HOUR_MS mod 24) + ms mod HOUR_MS) div HOUR_MS = ms div HOUR_MS mod 24"
    by (simp add: HOUR_MS_def)
  ultimately show "ms mod MS_PER_DAY div HOUR_MS = ms div HOUR_MS mod 24" by (simp add: d)
qed

text \<open>
  Period keys can be read back: up to the year 9999 the key of an hour parses to exactly the window of that
  hour, the key of a day to its midnight, two times have the same hour key exactly when they fall in the same
  hour, and the key an hourly job settles denotes the whole hour before the current one, which is the hour
  \<open>lastCompletedHour\<close>.
\<close>

theorem period_keys_round_trip:
  assumes "0 \<le> a" and "a < YEAR_10000_MS" and "0 \<le> b" and "b < YEAR_10000_MS"
  shows "hourWindow (periodForHour a) = hour_bounds (a div HOUR_MS)
    \<and> dayPeriodStartMs (dayPeriod a) = a div MS_PER_DAY * MS_PER_DAY
    \<and> (periodForHour a = periodForHour b \<longleftrightarrow> a div HOUR_MS = b div HOUR_MS)
    \<and> (HOUR_MS \<le> a \<longrightarrow> hourWindow (lastCompletedHourPeriod a) = hour_bounds (lastCompletedHour a)
          \<and> snd (hour_bounds (lastCompletedHour a)) = a div HOUR_MS * HOUR_MS)"
proof (intro conjI impI)
  have w: "hourWindow (periodForHour m) = hour_bounds (m div HOUR_MS)" if "0 \<le> m" "m < YEAR_10000_MS" for m
    using hour_round_trip[OF that] by (simp add: hour_bounds_def minus_mod_eq_div_mult)
  show "hourWindow (periodForHour a) = hour_bounds (a div HOUR_MS)" using w assms by blast
  show "dayPeriodStartMs (dayPeriod a) = a div MS_PER_DAY * MS_PER_DAY" using assms by (simp add: day_round_trip)
  have "a div HOUR_MS = b div HOUR_MS" if "periodForHour a = periodForHour b"
    using w[of a] w[of b] assms that by (simp add: hour_bounds_def HOUR_MS_def)
  then show "periodForHour a = periodForHour b \<longleftrightarrow> a div HOUR_MS = b div HOUR_MS"
    by (auto simp: periodForHour_def hour_parts)
  show "snd (hour_bounds (lastCompletedHour a)) = a div HOUR_MS * HOUR_MS"
    by (simp add: hour_bounds_def lastCompletedHour_eq algebra_simps)
  show "hourWindow (lastCompletedHourPeriod a) = hour_bounds (lastCompletedHour a)" if "HOUR_MS \<le> a"
  proof -
    have "1 \<le> a div HOUR_MS" using that by (intro le_div_of_mult_le) (simp_all add: HOUR_MS_def)
    then have "HOUR_MS \<le> a div HOUR_MS * HOUR_MS" by (simp add: HOUR_MS_def)
    then have "0 \<le> a - a mod HOUR_MS - 1" using minus_mod_eq_div_mult[of a HOUR_MS] by (simp add: HOUR_MS_def)
    moreover have "a - a mod HOUR_MS - 1 < YEAR_10000_MS" using assms(2) pos_mod_sign[of HOUR_MS a] by (simp add: HOUR_MS_def)
    ultimately show ?thesis using w by (simp add: lastCompletedHourPeriod_def lastCompletedHour_def)
  qed
qed

theorem period_keys_round_trip_witness:
  "hourWindow (periodForHour 1767225600000) = hour_bounds (1767225600000 div HOUR_MS)
   \<and> periodForHour 1767225600000 = ''2026010100'' \<and> lastCompletedHourPeriod 1767225600000 = ''2025123123''"
proof (intro conjI)
  show "hourWindow (periodForHour 1767225600000) = hour_bounds (1767225600000 div HOUR_MS)"
    using period_keys_round_trip[of 1767225600000 1767225600000] by (simp add: YEAR_10000_MS_def)
qed code_simp+


text \<open>The bets and the net revenue of a window, which every hourly job aggregates.\<close>

definition bets_between :: "int \<times> int \<Rightarrow> db \<Rightarrow> bet list" where
  "bets_between w d = filter (\<lambda>b. fst w \<le> b_createdAt b \<and> b_createdAt b < snd w) (bets d)"

definition hour_ngr :: "int \<Rightarrow> db \<Rightarrow> int" where
  "hour_ngr p d =
     (let agg = bets_between (hour_bounds p) d
      in sum_list (map b_amountLamports agg) - sum_list (map b_payoutLamports agg))"

end
