(* ===== verification/Vault.thy ===== *)
theory Vault
  imports Periods
begin

text \<open>
  The term vault: \<open>apps/api/src/vault/vault.service.ts\<close> (deposit, withdraw and the queries) and
  \<open>vault-accrual.service.ts\<close> (the hourly yield). The columns of a pool are integers of 64 bits (\<open>BigInt\<close>)
  and 32 bits (\<open>Int\<close>); writing a value outside of them is an error, so that the transaction rolls back.
  The accrual reads its pools before its transaction begins, so its two halves are separate definitions.
\<close>

subsection \<open>Pools\<close>

definition int8 :: "int \<Rightarrow> bool" where "int8 x \<longleftrightarrow> - (2 ^ 63) \<le> x \<and> x < 2 ^ 63"

definition int4 :: "int \<Rightarrow> bool" where "int4 x \<longleftrightarrow> - (2 ^ 31) \<le> x \<and> x < 2 ^ 31"

definition pool_fits :: "vault_pool \<Rightarrow> bool" where
  "pool_fits p \<longleftrightarrow> int8 (vp_totalAssets p) \<and> int8 (vp_totalShares p) \<and> int8 (vp_indexRay p) \<and> int4 (vp_aprBps p)"

definition update_pool :: "nat \<Rightarrow> (vault_pool \<Rightarrow> vault_pool) \<Rightarrow> db \<Rightarrow> db result" where
  "update_pool pid f d = (case map_of (vaultPools d) pid of
      None \<Rightarrow> Inl (Internal ''P2025'')
    | Some p \<Rightarrow>
        if pool_fits (f p) then Inr (d\<lparr>vaultPools := AList.update pid (f p) (vaultPools d)\<rparr>)
        else Inl (Internal ''Unable to fit integer value''))"

definition pools :: "db \<Rightarrow> (nat \<times> vault_pool) list" where
  "pools d = sort_key (\<lambda>(_, p). vp_termDays p) (filter (\<lambda>(_, p). vp_active p) (vaultPools d))"

record position_view =
  po_id :: nat
  po_poolId :: nat
  po_termDays :: int
  po_shares :: int
  po_principal :: int
  po_value :: int
  po_earned :: int
  po_maturesAt :: int
  po_matured :: bool
  po_indexRay :: int
  po_aprBps :: int

definition position_view :: "int \<Rightarrow> nat \<Rightarrow> vault_position \<Rightarrow> vault_pool \<Rightarrow> position_view" where
  "position_view now pid pos pool =
     (let value = assetsForShares (vo_shares pos) (vp_indexRay pool) in
      \<lparr>po_id = pid, po_poolId = vo_poolId pos, po_termDays = vp_termDays pool, po_shares = vo_shares pos,
       po_principal = vo_principal pos, po_value = value, po_earned = value - vo_principal pos,
       po_maturesAt = vo_maturesAt pos, po_matured = (vo_maturesAt pos \<le> now),
       po_indexRay = vp_indexRay pool, po_aprBps = vp_aprBps pool\<rparr>)"

text \<open>Newest first; every position has its pool.\<close>

definition positions :: "int \<Rightarrow> nat \<Rightarrow> db \<Rightarrow> position_view list" where
  "positions now userId d =
     List.map_filter (\<lambda>(pid, pos). map_option (position_view now pid pos) (map_of (vaultPools d) (vo_poolId pos)))
       (filter (\<lambda>(_, pos). vo_userId pos = userId) (rev (vaultPositions d)))"

subsection \<open>deposit\<close>

definition vault_meta :: "currency \<Rightarrow> string \<Rightarrow> nat \<Rightarrow> meta" where
  "vault_meta c why ref = \<lparr>reason = why, refType = ''VaultEvent'', refId = Some ref, currency = c, maxBalance = None\<rparr>"

record deposit_receipt =
  vd_positionId :: nat
  vd_shares :: int
  vd_principal :: int
  vd_maturesAt :: int

definition vault_deposit :: "int \<Rightarrow> nat \<Rightarrow> nat \<Rightarrow> int \<Rightarrow> db \<Rightarrow> (deposit_receipt \<times> db) result" where
  "vault_deposit now userId poolId amount d =
     (if amount < MIN_DEPOSIT_SCAD_BASE then Inl (BadRequest ''Minimum deposit is 1 SCAD'')
      else case map_of (vaultPools d) poolId of
        None \<Rightarrow> Inl (NotFound ''Vault pool not found'')
      | Some pool \<Rightarrow>
          if \<not> vp_active pool then Inl (NotFound ''Vault pool not found'')
          else let shares = sharesForDeposit amount (vp_indexRay pool) in
          if shares \<le> 0 then Inl (BadRequest ''Deposit too small to mint shares'')
          else
          bindE (applyBalanceDelta userId (- amount) (vault_meta Scad ''vault_deposit'' poolId) d) (\<lambda>(_, d1).
          bindE (applyBalanceDelta userId amount (vault_meta Scad_vault ''vault_deposit'' poolId) d1) (\<lambda>(_, d2).
          bindE (update_pool poolId (\<lambda>p. p\<lparr>vp_totalAssets := vp_totalAssets p + amount,
                   vp_totalShares := vp_totalShares p + shares\<rparr>) d2) (\<lambda>d3.
            let maturesAt = now + vp_termDays pool * MS_PER_DAY;
                (posId, ps) = insert_row \<lparr>vo_userId = userId, vo_poolId = poolId, vo_shares = shares,
                  vo_principal = amount, vo_maturesAt = maturesAt\<rparr> (vaultPositions d3);
                event = \<lparr>ve_userId = Some userId, ve_poolId = poolId, ve_kind = VaultDeposit, ve_assetsDelta = amount,
                  ve_sharesDelta = shares, ve_penaltyAssets = 0, ve_indexRayAfter = vp_indexRay pool,
                  ve_txSignature = None\<rparr>
            in Inr (\<lparr>vd_positionId = posId, vd_shares = shares, vd_principal = amount, vd_maturesAt = maturesAt\<rparr>,
                    d3\<lparr>vaultPositions := ps, vaultEvents := vaultEvents d3 @ [event]\<rparr>)))))"

subsection \<open>withdraw\<close>

record withdraw_receipt =
  vw_positionId :: nat
  vw_sharesBurned :: int
  vw_grossAssets :: int
  vw_penaltyAssets :: int
  vw_netAssets :: int
  vw_early :: bool

text \<open>The amounts of a withdrawal, computed from the position and the pool before anything is written.\<close>

record withdraw_quote =
  wq_gross :: int
  wq_isEarly :: bool
  wq_penalty :: int
  wq_net :: int
  wq_principalPortion :: int
  wq_newTotalShares :: int
  wq_newTotalAssets :: int
  wq_newIndexRay :: int

definition withdraw_quote :: "int \<Rightarrow> vault_position \<Rightarrow> vault_pool \<Rightarrow> int \<Rightarrow> withdraw_quote" where
  "withdraw_quote now pos pool sharesToBurn =
     (let gross = assetsForShares sharesToBurn (vp_indexRay pool);
          isEarly = vo_maturesAt pos > now;
          penalty = (if isEarly then earlyExitPenalty gross else 0);
          net = gross - penalty;
          principalPortion = (if sharesToBurn = vo_shares pos then vo_principal pos
                              else bigint_div (vo_principal pos * sharesToBurn) (vo_shares pos));
          newTotalShares = vp_totalShares pool - sharesToBurn
      in \<lparr>wq_gross = gross, wq_isEarly = isEarly, wq_penalty = penalty, wq_net = net,
          wq_principalPortion = principalPortion, wq_newTotalShares = newTotalShares,
          wq_newTotalAssets = (if newTotalShares \<le> 0 then 0 else vp_totalAssets pool - net),
          wq_newIndexRay = (if newTotalShares \<le> 0 then INITIAL_INDEX_RAY
                            else applyAccrual (vp_indexRay pool) newTotalShares penalty)\<rparr>)"

definition vault_withdraw :: "int \<Rightarrow> nat \<Rightarrow> nat \<Rightarrow> int option \<Rightarrow> db \<Rightarrow> (withdraw_receipt \<times> db) result" where
  "vault_withdraw now userId positionId shares d =
     (case map_of (vaultPositions d) positionId of
        None \<Rightarrow> Inl (NotFound ''Vault position not found'')
      | Some pos \<Rightarrow>
        if vo_userId pos \<noteq> userId then Inl (NotFound ''Vault position not found'')
        else case map_of (vaultPools d) (vo_poolId pos) of
          None \<Rightarrow> Inl (Internal ''missing pool'')
        | Some pool \<Rightarrow>
          let sharesToBurn = (case shares of None \<Rightarrow> vo_shares pos | Some s \<Rightarrow> s) in
          if sharesToBurn \<le> 0 then Inl (BadRequest ''Shares must be positive'')
          else if sharesToBurn > vo_shares pos then Inl (BadRequest ''Shares exceed position'')
          else
          let q = withdraw_quote now pos pool sharesToBurn;
              why = (if wq_isEarly q then ''vault_early_exit'' else ''vault_withdraw'')
          in
          bindE (applyBalanceDelta userId (- wq_principalPortion q) (vault_meta Scad_vault why positionId) d) (\<lambda>(_, d1).
          bindE (if wq_net q > 0 then applyBalanceDelta userId (wq_net q) (vault_meta Scad why positionId) d1
                 else Inr (0, d1)) (\<lambda>(_, d2).
          bindE (update_pool (vo_poolId pos) (\<lambda>p. p\<lparr>
                   vp_totalShares := (if wq_newTotalShares q < 0 then 0 else wq_newTotalShares q),
                   vp_totalAssets := wq_newTotalAssets q, vp_indexRay := wq_newIndexRay q\<rparr>) d2) (\<lambda>d3.
            let remainingShares = vo_shares pos - sharesToBurn;
                ps = (if remainingShares \<le> 0 then AList.delete positionId (vaultPositions d3)
                      else AList.update positionId
                             (pos\<lparr>vo_shares := remainingShares, vo_principal := vo_principal pos - wq_principalPortion q\<rparr>)
                             (vaultPositions d3));
                event = \<lparr>ve_userId = Some userId, ve_poolId = vo_poolId pos,
                  ve_kind = (if wq_isEarly q then VaultEarlyExit else VaultWithdraw), ve_assetsDelta = - wq_net q,
                  ve_sharesDelta = - sharesToBurn, ve_penaltyAssets = wq_penalty q, ve_indexRayAfter = wq_newIndexRay q,
                  ve_txSignature = None\<rparr>
            in Inr (\<lparr>vw_positionId = positionId, vw_sharesBurned = sharesToBurn, vw_grossAssets = wq_gross q,
                     vw_penaltyAssets = wq_penalty q, vw_netAssets = wq_net q, vw_early = wq_isEarly q\<rparr>,
                    d3\<lparr>vaultPositions := ps, vaultEvents := vaultEvents d3 @ [event]\<rparr>)))))"

subsection \<open>Hourly accrual\<close>

definition DISTRIBUTION_INTERVAL_MS :: int where "DISTRIBUTION_INTERVAL_MS = 60 * 60 * 1000"

definition round_done :: "int \<Rightarrow> db \<Rightarrow> bool" where
  "round_done period d = (case map_of (vaultAccrualRounds d) period of None \<Rightarrow> False | Some r \<Rightarrow> ar_distributed r)"

lemma round_done_iff: "round_done period d \<longleftrightarrow> (\<exists>r. map_of (vaultAccrualRounds d) period = Some r \<and> ar_distributed r)"
  by (simp add: round_done_def split: option.splits)

text \<open>
  What is read before the transaction: nothing more to do when the round of the hour is settled, otherwise
  its revenue, its yield in SCAD and the eligible pools as they are at that moment.
\<close>

record accrual_plan =
  ap_period :: int
  ap_ngr :: int
  ap_totalYield :: int
  ap_pools :: "(nat \<times> vault_pool) list"
  ap_totalWeight :: int

definition pool_weight :: "vault_pool \<Rightarrow> int" where
  "pool_weight p = vp_weightBps p * vp_totalShares p"

definition accrual_plan :: "int \<Rightarrow> db \<Rightarrow> accrual_plan option" where
  "accrual_plan now d =
     (let period = lastCompletedHour now;
          ngr = hour_ngr period d;
          ps = filter (\<lambda>(_, p). vp_active p \<and> vp_totalShares p > 0) (vaultPools d)
      in if round_done period d then None
         else Some \<lparr>ap_period = period, ap_ngr = ngr,
                ap_totalYield = lamportsToScadBase (vaultYieldSliceLamports ngr),
                ap_pools = ps, ap_totalWeight = sum_list (map (pool_weight \<circ> snd) ps)\<rparr>)"

definition upsert_accrual_round :: "int \<Rightarrow> (accrual_round \<Rightarrow> accrual_round) \<Rightarrow> db \<Rightarrow> db" where
  "upsert_accrual_round period f d =
     (let row = (case map_of (vaultAccrualRounds d) period of
            None \<Rightarrow> \<lparr>ar_distributed = False, ar_ngrLamports = 0, ar_yieldScad = 0, ar_poolCount = 0, ar_distributedAt = None\<rparr>
          | Some r \<Rightarrow> r)
      in d\<lparr>vaultAccrualRounds := AList.update period (f row) (vaultAccrualRounds d)\<rparr>)"

text \<open>The loop of the transaction over the pools read before it, with \<open>allocated\<close>, \<open>credited\<close> and \<open>mirror\<close>.\<close>

type_synonym accrual_totals = "int \<times> int \<times> (nat \<times> int \<times> int) list"

definition pool_apr :: "int \<Rightarrow> vault_pool \<Rightarrow> int" where
  "pool_apr poolYield p =
     (let valueBefore = assetsForShares (vp_totalShares p) (vp_indexRay p);
          roundsPerYear = js_round (fl (of_int (365 * 24 * 60 * 60 * 1000) / of_int DISTRIBUTION_INTERVAL_MS))
      in if valueBefore > 0 then js_floor (fl (of_int (bigint_div (poolYield * 10000 * roundsPerYear) valueBefore))) else 0)"

fun credit_pools ::
  "int \<Rightarrow> int \<Rightarrow> int \<Rightarrow> (nat \<times> vault_pool) list \<Rightarrow> accrual_totals \<Rightarrow> db \<Rightarrow> (accrual_totals \<times> db) result" where
  "credit_pools now totalYield totalWeight [] acc d = Inr (acc, d)"
| "credit_pools now totalYield totalWeight ((pid, p) # ps) (allocated, credited, mirror) d =
     (let poolYield = bigint_div (totalYield * pool_weight p) totalWeight in
      if poolYield \<le> 0 then credit_pools now totalYield totalWeight ps (allocated, credited, mirror) d
      else
        let newIndex = applyAccrual (vp_indexRay p) (vp_totalShares p) poolYield in
        bindE (update_pool pid (\<lambda>q. q\<lparr>vp_indexRay := newIndex, vp_totalAssets := vp_totalAssets q + poolYield,
                 vp_lastAccrualAt := now, vp_aprBps := pool_apr poolYield p\<rparr>) d) (\<lambda>d1.
          let event = \<lparr>ve_userId = None, ve_poolId = pid, ve_kind = VaultAccrue, ve_assetsDelta = poolYield,
                ve_sharesDelta = 0, ve_penaltyAssets = 0, ve_indexRayAfter = newIndex, ve_txSignature = None\<rparr>
          in credit_pools now totalYield totalWeight ps
               (allocated + poolYield, credited + 1, mirror @ [(length (vaultEvents d1), vp_termDays p, poolYield)])
               (d1\<lparr>vaultEvents := vaultEvents d1 @ [event]\<rparr>)))"

record accrual_reply =
  ay_period :: int
  ay_poolCount :: nat
  ay_yieldScad :: int

definition accrual_settle :: "int \<Rightarrow> accrual_plan \<Rightarrow> db \<Rightarrow> ((accrual_reply \<times> (nat \<times> int \<times> int) list) \<times> db) result" where
  "accrual_settle now plan d =
     (let period = ap_period plan; ngr = ap_ngr plan in
      if ap_totalYield plan < MIN_ACCRUAL_SCAD_BASE \<or> ap_pools plan = [] \<or> ap_totalWeight plan \<le> 0
      then Inr ((\<lparr>ay_period = period, ay_poolCount = 0, ay_yieldScad = 0\<rparr>, []),
                upsert_accrual_round period (\<lambda>r. r\<lparr>ar_distributed := True, ar_distributedAt := Some now,
                  ar_ngrLamports := ngr, ar_yieldScad := 0\<rparr>) d)
      else
        let reply = \<lparr>ay_period = period, ay_poolCount = length (ap_pools plan), ay_yieldScad = ap_totalYield plan\<rparr>;
            d1 = upsert_accrual_round period (\<lambda>r. r) d
        in if round_done period d1 then Inr ((reply, []), d1)
           else bindE (credit_pools now (ap_totalYield plan) (ap_totalWeight plan) (ap_pools plan) (0, 0, []) d1)
             (\<lambda>((allocated, credited, mirror), d2).
               Inr ((reply, mirror), upsert_accrual_round period (\<lambda>r. r\<lparr>ar_distributed := True,
                 ar_distributedAt := Some now, ar_ngrLamports := ngr, ar_yieldScad := allocated,
                 ar_poolCount := credited\<rparr>) d2)))"

text \<open>After the commit the yield is mirrored on chain, when it is enabled, and its event gets the signature.\<close>

definition stamp_event :: "(int \<Rightarrow> int \<Rightarrow> string option) \<Rightarrow> nat \<times> int \<times> int \<Rightarrow> db \<Rightarrow> db" where
  "stamp_event vaultAccrue m d = (case m of (eventId, termDays, amount) \<Rightarrow>
     (case vaultAccrue termDays amount of
        None \<Rightarrow> d
      | Some sig \<Rightarrow> d\<lparr>vaultEvents := (vaultEvents d)[eventId := (vaultEvents d ! eventId)\<lparr>ve_txSignature := Some sig\<rparr>]\<rparr>))"

definition vault_accrue :: "(int \<Rightarrow> int \<Rightarrow> string option) option \<Rightarrow> int \<Rightarrow> db \<Rightarrow> (accrual_reply \<times> db) result" where
  "vault_accrue chain now d =
     (case accrual_plan now d of
        None \<Rightarrow> Inr (\<lparr>ay_period = lastCompletedHour now, ay_poolCount = 0, ay_yieldScad = 0\<rparr>, d)
      | Some plan \<Rightarrow>
          bindE (accrual_settle now plan d) (\<lambda>((reply, mirror), d1).
            Inr (reply, case chain of None \<Rightarrow> d1 | Some f \<Rightarrow> fold (stamp_event f) mirror d1)))"

subsection \<open>Solvency\<close>

definition pool_shares :: "nat \<Rightarrow> (nat, vault_position) table \<Rightarrow> int" where
  "pool_shares pid t = col_sum (\<lambda>r. if vo_poolId r = pid then vo_shares r else 0) t"

definition user_principal :: "nat \<Rightarrow> (nat, vault_position) table \<Rightarrow> int" where
  "user_principal uid t = col_sum (\<lambda>r. if vo_userId r = uid then vo_principal r else 0) t"

text \<open>A pool is backed when its assets cover all its shares at the current price.\<close>

definition backed :: "vault_pool \<Rightarrow> bool" where
  "backed p \<longleftrightarrow> 0 < vp_indexRay p \<and> 0 \<le> vp_totalShares p \<and> vp_totalShares p * vp_indexRay p \<le> vp_totalAssets p * RAY"

definition positions_ok :: "db \<Rightarrow> bool" where
  "positions_ok d \<longleftrightarrow> keyed (vaultPositions d)
     \<and> (\<forall>k r. (k, r) \<in> set (vaultPositions d) \<longrightarrow> 0 < vo_shares r \<and> 0 \<le> vo_principal r)"

definition pools_ok :: "db \<Rightarrow> bool" where
  "pools_ok d \<longleftrightarrow> keyed (vaultPools d) \<and> (\<forall>pid p. map_of (vaultPools d) pid = Some p \<longrightarrow>
     backed p \<and> 0 \<le> vp_weightBps p \<and> vp_totalShares p = pool_shares pid (vaultPositions d))"

definition principals_ok :: "db \<Rightarrow> bool" where
  "principals_ok d \<longleftrightarrow> (\<forall>uid. bal d uid Scad_vault = user_principal uid (vaultPositions d))"

definition vault_ok :: "db \<Rightarrow> bool" where
  "vault_ok d \<longleftrightarrow> positions_ok d \<and> pools_ok d \<and> principals_ok d"

text \<open>Minting at the current price, burning with the penalty left behind, and yield all keep a pool backed.\<close>

lemma backed_deposit:
  assumes "backed p" and "0 \<le> a"
  shows "backed (p\<lparr>vp_totalAssets := vp_totalAssets p + a, vp_totalShares := vp_totalShares p + sharesForDeposit a (vp_indexRay p)\<rparr>)"
proof -
  have "sharesForDeposit a (vp_indexRay p) * vp_indexRay p \<le> a * RAY"
    using assms by (intro shares_mult_le) (auto simp: backed_def)
  then show ?thesis using assms sharesForDeposit_nonneg[of a "vp_indexRay p"] by (simp add: backed_def algebra_simps)
qed

lemma backed_withdraw:
  assumes "backed p" and "0 < s" and "s < vp_totalShares p" and "net = assetsForShares s (vp_indexRay p) - pen" and "0 \<le> pen"
  shows "backed (p\<lparr>vp_totalShares := vp_totalShares p - s, vp_totalAssets := vp_totalAssets p - net,
    vp_indexRay := applyAccrual (vp_indexRay p) (vp_totalShares p - s) pen\<rparr>)"
proof -
  have i: "0 < vp_indexRay p" using assms(1) by (simp add: backed_def)
  have "(net + pen) * RAY \<le> s * vp_indexRay p"
    using assms i assets_mult_le[of s "vp_indexRay p"] by simp
  moreover have "(vp_totalShares p - s) * applyAccrual (vp_indexRay p) (vp_totalShares p - s) pen
      \<le> (vp_totalShares p - s) * vp_indexRay p + pen * RAY"
    using assms by (intro applyAccrual_backed) auto
  moreover have "0 < applyAccrual (vp_indexRay p) (vp_totalShares p - s) pen" using applyAccrual_mono i by (rule less_le_trans[rotated])
  ultimately show ?thesis using assms(1-3,5) by (simp add: backed_def algebra_simps)
qed

lemma backed_accrue:
  assumes "backed p" and "0 \<le> y"
  shows "backed (p\<lparr>vp_indexRay := applyAccrual (vp_indexRay p) (vp_totalShares p) y, vp_totalAssets := vp_totalAssets p + y,
    vp_lastAccrualAt := t, vp_aprBps := a\<rparr>)"
proof -
  have "0 < applyAccrual (vp_indexRay p) (vp_totalShares p) y"
    using assms(1) applyAccrual_mono[of "vp_indexRay p"] by (auto simp: backed_def intro: less_le_trans)
  then show ?thesis using assms applyAccrual_backed[of "vp_totalShares p" y "vp_indexRay p"]
    by (simp add: backed_def algebra_simps)
qed

subsection \<open>What the operations do\<close>

lemma vault_meta_sel [simp]:
  "currency (vault_meta c w r) = c" "maxBalance (vault_meta c w r) = None" "refId (vault_meta c w r) = Some r"
  "reason (vault_meta c w r) = w" "refType (vault_meta c w r) = ''VaultEvent''"
  by (simp_all add: vault_meta_def)

lemma update_pool_cases:
  assumes "update_pool pid f d = Inr d'"
  obtains p where "map_of (vaultPools d) pid = Some p" and "pool_fits (f p)"
    and "d' = d\<lparr>vaultPools := AList.update pid (f p) (vaultPools d)\<rparr>"
  using assms by (auto simp: update_pool_def split: option.splits if_splits)

lemma deposit_cases:
  assumes "vault_deposit now uid pid a d = Inr (r, d')"
  obtains pool where "map_of (vaultPools d) pid = Some pool" and "vp_active pool" and "MIN_DEPOSIT_SCAD_BASE \<le> a"
    and "vd_shares r = sharesForDeposit a (vp_indexRay pool)" and "0 < vd_shares r" and "vd_principal r = a"
    and "vd_maturesAt r = now + vp_termDays pool * MS_PER_DAY"
    and "posts [(uid, Scad, - a), (uid, Scad_vault, a)] d d'"
    and "vaultPools d' = AList.update pid (pool\<lparr>vp_totalAssets := vp_totalAssets pool + a,
                   vp_totalShares := vp_totalShares pool + vd_shares r\<rparr>) (vaultPools d)"
    and "vd_positionId r = fresh_key (vaultPositions d)"
    and "vaultPositions d' = vaultPositions d @ [(fresh_key (vaultPositions d), \<lparr>vo_userId = uid, vo_poolId = pid,
           vo_shares = vd_shares r, vo_principal = a, vo_maturesAt = now + vp_termDays pool * MS_PER_DAY\<rparr>)]"
proof -
  let ?f = "\<lambda>shares p. p\<lparr>vp_totalAssets := vp_totalAssets p + a, vp_totalShares := vp_totalShares p + shares\<rparr>"
  obtain pool b1 d1 b2 d2 d3 where p: "map_of (vaultPools d) pid = Some pool" "vp_active pool"
      "MIN_DEPOSIT_SCAD_BASE \<le> a" "0 < sharesForDeposit a (vp_indexRay pool)"
    and 1: "applyBalanceDelta uid (- a) (vault_meta Scad ''vault_deposit'' pid) d = Inr (b1, d1)"
    and 2: "applyBalanceDelta uid a (vault_meta Scad_vault ''vault_deposit'' pid) d1 = Inr (b2, d2)"
    and 3: "update_pool pid (?f (sharesForDeposit a (vp_indexRay pool))) d2 = Inr d3"
    and r: "vd_shares r = sharesForDeposit a (vp_indexRay pool)" "vd_principal r = a"
      "vd_maturesAt r = now + vp_termDays pool * MS_PER_DAY" "vd_positionId r = fresh_key (vaultPositions d3)"
      "users d' = users d3" "ledger d' = ledger d3" "vaultPools d' = vaultPools d3"
      "vaultPositions d' = vaultPositions d3 @ [(fresh_key (vaultPositions d3), \<lparr>vo_userId = uid, vo_poolId = pid,
           vo_shares = sharesForDeposit a (vp_indexRay pool), vo_principal = a,
           vo_maturesAt = now + vp_termDays pool * MS_PER_DAY\<rparr>)]"
    using assms unfolding vault_deposit_def
    by (auto simp: Let_def insert_row_def not_le not_less split: if_splits option.splits)
  note fr = applyBalanceDelta_frame[OF 1] applyBalanceDelta_frame[OF 2]
  have d3: "d3 = d2\<lparr>vaultPools := AList.update pid (?f (sharesForDeposit a (vp_indexRay pool)) pool) (vaultPools d2)\<rparr>"
    using 3 p(1) fr by (auto elim!: update_pool_cases)
  have "posts [(uid, Scad, - a), (uid, Scad_vault, a)] d d2"
    using posts_Cons[OF _ applyBalanceDelta_posts[OF 2]] applyBalanceDelta_posts[OF 1] by simp
  then have "posts [(uid, Scad, - a), (uid, Scad_vault, a)] d d'"
    by (rule posts_same) (rule same_moneyI; simp add: r d3)
  then show thesis using that p r fr d3 by simp
qed



text \<open>The receipt of a withdrawal and what it pays.\<close>

definition withdraw_journal :: "nat \<Rightarrow> withdraw_quote \<Rightarrow> posting list" where
  "withdraw_journal uid q = (uid, Scad_vault, - wq_principalPortion q)
     # (if wq_net q > 0 then [(uid, Scad, wq_net q)] else [])"

lemma withdraw_cases:
  assumes "vault_withdraw now uid k shares d = Inr (r, d')"
  obtains pos pool s q where
        "map_of (vaultPositions d) k = Some pos" and "vo_userId pos = uid"
    and "map_of (vaultPools d) (vo_poolId pos) = Some pool"
    and "s = (case shares of None \<Rightarrow> vo_shares pos | Some s \<Rightarrow> s)" and "0 < s" and "s \<le> vo_shares pos"
    and "q = withdraw_quote now pos pool s"
    and "r = \<lparr>vw_positionId = k, vw_sharesBurned = s, vw_grossAssets = wq_gross q, vw_penaltyAssets = wq_penalty q,
           vw_netAssets = wq_net q, vw_early = wq_isEarly q\<rparr>"
    and "posts (withdraw_journal uid q) d d'"
    and "vaultPools d' = AList.update (vo_poolId pos) (pool\<lparr>
           vp_totalShares := (if wq_newTotalShares q < 0 then 0 else wq_newTotalShares q),
           vp_totalAssets := wq_newTotalAssets q, vp_indexRay := wq_newIndexRay q\<rparr>) (vaultPools d)"
    and "vaultPositions d' = (if s = vo_shares pos then AList.delete k (vaultPositions d)
           else AList.update k (pos\<lparr>vo_shares := vo_shares pos - s, vo_principal := vo_principal pos - wq_principalPortion q\<rparr>)
                  (vaultPositions d))"
proof -
  obtain pos pool where p: "map_of (vaultPositions d) k = Some pos" "vo_userId pos = uid"
      "map_of (vaultPools d) (vo_poolId pos) = Some pool"
    using assms unfolding vault_withdraw_def by (auto split: option.splits if_splits)
  define s where "s = (case shares of None \<Rightarrow> vo_shares pos | Some s \<Rightarrow> s)"
  define q where "q = withdraw_quote now pos pool s"
  let ?f = "\<lambda>p. p\<lparr>vp_totalShares := (if wq_newTotalShares q < 0 then 0 else wq_newTotalShares q),
    vp_totalAssets := wq_newTotalAssets q, vp_indexRay := wq_newIndexRay q\<rparr>"
  let ?w = "if wq_isEarly q then ''vault_early_exit'' else ''vault_withdraw''"
  have s: "0 < s" "s \<le> vo_shares pos"
    using assms p unfolding vault_withdraw_def by (auto simp: s_def Let_def split: if_splits)
  obtain b1 d1 b2 d2 d3 where
      1: "applyBalanceDelta uid (- wq_principalPortion q) (vault_meta Scad_vault ?w k) d = Inr (b1, d1)"
    and 2: "(if wq_net q > 0 then applyBalanceDelta uid (wq_net q) (vault_meta Scad ?w k) d1 else Inr (0, d1)) = Inr (b2, d2)"
    and 3: "update_pool (vo_poolId pos) ?f d2 = Inr d3"
    and r: "r = \<lparr>vw_positionId = k, vw_sharesBurned = s, vw_grossAssets = wq_gross q, vw_penaltyAssets = wq_penalty q,
        vw_netAssets = wq_net q, vw_early = wq_isEarly q\<rparr>"
      "users d' = users d3" "ledger d' = ledger d3" "vaultPools d' = vaultPools d3"
      "vaultPositions d' = (if vo_shares pos - s \<le> 0 then AList.delete k (vaultPositions d3)
           else AList.update k (pos\<lparr>vo_shares := vo_shares pos - s, vo_principal := vo_principal pos - wq_principalPortion q\<rparr>)
                  (vaultPositions d3))"
    using assms p s unfolding vault_withdraw_def by (auto simp: Let_def simp flip: s_def q_def)
  have fr1: "vaultPools d1 = vaultPools d" "vaultPositions d1 = vaultPositions d" using applyBalanceDelta_frame[OF 1] by simp_all
  have fr2: "vaultPools d2 = vaultPools d1 \<and> vaultPositions d2 = vaultPositions d1"
    using 2 by (auto simp: applyBalanceDelta_frame split: if_splits)
  have d3: "d3 = d2\<lparr>vaultPools := AList.update (vo_poolId pos) (?f pool) (vaultPools d2)\<rparr>"
    using 3 p(3) fr1 fr2 by (auto elim!: update_pool_cases)
  have two: "posts (if wq_net q > 0 then [(uid, Scad, wq_net q)] else []) d1 d2"
    using 2 by (auto dest!: applyBalanceDelta_posts split: if_splits)
  have "posts [(uid, Scad_vault, - wq_principalPortion q)] d d1" using applyBalanceDelta_posts[OF 1] by simp
  then have "posts (withdraw_journal uid q) d d2"
    unfolding withdraw_journal_def using two by (rule posts_Cons)
  then have "posts (withdraw_journal uid q) d d'"
    by (rule posts_same) (rule same_moneyI; simp add: r d3)
  then show thesis using that[OF p s_def s q_def r(1)] s r fr1 fr2 d3 by auto
qed


subsection \<open>The invariant\<close>

lemma vault_ok_update:
  assumes "vault_ok d" and "positions_ok d'"
    and "vaultPools d' = AList.update pid p (vaultPools d)" and "backed p" and "0 \<le> vp_weightBps p"
    and "vp_totalShares p = pool_shares pid (vaultPositions d')"
    and "\<And>j. j \<noteq> pid \<Longrightarrow> pool_shares j (vaultPositions d') = pool_shares j (vaultPositions d)"
    and "\<And>u. bal d' u Scad_vault - bal d u Scad_vault = user_principal u (vaultPositions d') - user_principal u (vaultPositions d)"
  shows "vault_ok d'"
  unfolding vault_ok_def
proof (intro conjI)
  show "positions_ok d'" by fact
  show "pools_ok d'" using assms by (auto simp: vault_ok_def pools_ok_def)
  show "principals_ok d'" unfolding principals_ok_def
  proof
    fix u show "bal d' u Scad_vault = user_principal u (vaultPositions d')"
      using assms(8)[of u] assms(1) by (simp add: vault_ok_def principals_ok_def)
  qed
qed

lemma vault_ok_pool:
  assumes "vault_ok d" and "map_of (vaultPools d) pid = Some p"
  shows "backed p" "0 \<le> vp_weightBps p" "vp_totalShares p = pool_shares pid (vaultPositions d)"
  using assms by (auto simp: vault_ok_def pools_ok_def)

lemma deposit_ok:
  assumes "vault_deposit now uid pid a d = Inr (r, d')" and "vault_ok d"
  shows "vault_ok d'"
  using assms(1)
proof (cases rule: deposit_cases)
  case (1 pool)
  have a: "0 < a" using 1(3) by (simp add: MIN_DEPOSIT_SCAD_BASE_def)
  note p = vault_ok_pool[OF assms(2) 1(1)]
  show ?thesis
  proof (rule vault_ok_update[OF assms(2) _ 1(9)])
    show "positions_ok d'" using assms(2) 1(5) a by (auto simp: vault_ok_def positions_ok_def 1(11))
    show "backed (pool\<lparr>vp_totalAssets := vp_totalAssets pool + a, vp_totalShares := vp_totalShares pool + vd_shares r\<rparr>)"
      using backed_deposit[OF p(1), of a] a by (simp add: 1(4))
    show "bal d' u Scad_vault - bal d u Scad_vault = user_principal u (vaultPositions d') - user_principal u (vaultPositions d)" for u
      using posts_bal[OF 1(8), of u Scad_vault] by (simp add: 1(11) user_principal_def)
  qed (use p in \<open>simp_all add: 1(11) pool_shares_def\<close>)
qed

lemma quote_simps:
  "wq_gross (withdraw_quote now pos pool s) = assetsForShares s (vp_indexRay pool)"
  "wq_isEarly (withdraw_quote now pos pool s) = (vo_maturesAt pos > now)"
  "wq_penalty (withdraw_quote now pos pool s) = (if vo_maturesAt pos > now then earlyExitPenalty (assetsForShares s (vp_indexRay pool)) else 0)"
  "wq_net (withdraw_quote now pos pool s) = wq_gross (withdraw_quote now pos pool s) - wq_penalty (withdraw_quote now pos pool s)"
  "wq_principalPortion (withdraw_quote now pos pool s) = (if s = vo_shares pos then vo_principal pos else bigint_div (vo_principal pos * s) (vo_shares pos))"
  "wq_newTotalShares (withdraw_quote now pos pool s) = vp_totalShares pool - s"
  "wq_newTotalAssets (withdraw_quote now pos pool s) = (if vp_totalShares pool \<le> s then 0 else vp_totalAssets pool - wq_net (withdraw_quote now pos pool s))"
  "wq_newIndexRay (withdraw_quote now pos pool s) = (if vp_totalShares pool \<le> s then INITIAL_INDEX_RAY
     else applyAccrual (vp_indexRay pool) (vp_totalShares pool - s) (wq_penalty (withdraw_quote now pos pool s)))"
  by (auto simp: withdraw_quote_def Let_def)

lemma quote_penalty: "0 \<le> wq_penalty (withdraw_quote now pos pool s)" "0 \<le> wq_net (withdraw_quote now pos pool s)"
  using earlyExitPenalty_bounds[OF assetsForShares_nonneg] assetsForShares_nonneg by (auto simp: quote_simps)

lemma quote_portion:
  assumes "0 \<le> vo_principal pos" and "0 < s" and "s \<le> vo_shares pos"
  shows "0 \<le> wq_principalPortion (withdraw_quote now pos pool s)"
    and "wq_principalPortion (withdraw_quote now pos pool s) \<le> vo_principal pos"
proof -
  have "vo_principal pos * s \<le> vo_principal pos * vo_shares pos" using assms by (intro mult_left_mono) auto
  then have "vo_principal pos * s div vo_shares pos \<le> vo_principal pos"
    using assms zdiv_mono1[of "vo_principal pos * s" "vo_principal pos * vo_shares pos" "vo_shares pos"] by simp
  then show "0 \<le> wq_principalPortion (withdraw_quote now pos pool s)"
    and "wq_principalPortion (withdraw_quote now pos pool s) \<le> vo_principal pos"
    using assms by (simp_all add: quote_simps bigint_div_nonneg pos_imp_zdiv_nonneg_iff)
qed

lemma withdraw_ok:
  assumes "vault_withdraw now uid k shares d = Inr (r, d')" and "vault_ok d"
  shows "vault_ok d'"
  using assms(1)
proof (cases rule: withdraw_cases)
  case (1 pos pool s q)
  have ps: "keyed (vaultPositions d)" "\<And>j v. (j, v) \<in> set (vaultPositions d) \<Longrightarrow> 0 < vo_shares v \<and> 0 \<le> vo_principal v"
    using assms(2) by (auto simp: vault_ok_def positions_ok_def)
  have pos: "0 < vo_shares pos" "0 \<le> vo_principal pos" using ps(2)[OF map_of_SomeD[OF 1(1)]] by simp_all
  note p = vault_ok_pool[OF assms(2) 1(3)]
  note portion = quote_portion[OF pos(2) 1(5,6), of now pool, folded 1(7)]
  have shares: "pool_shares j (vaultPositions d') = pool_shares j (vaultPositions d) - (if vo_poolId pos = j then s else 0)" for j
    using col_sum_delete[OF ps(1) 1(1)] col_sum_update_Some[OF 1(1)] by (simp add: 1(11) pool_shares_def)
  have principal: "user_principal u (vaultPositions d') = user_principal u (vaultPositions d) - (if u = uid then wq_principalPortion q else 0)" for u
    using col_sum_delete[OF ps(1) 1(1)] col_sum_update_Some[OF 1(1)] 1(2) by (auto simp: 1(11) user_principal_def 1(7) quote_simps)
  have "vo_shares pos \<le> pool_shares (vo_poolId pos) (vaultPositions d)"
    unfolding pool_shares_def using col_sum_ge[OF 1(1), of "\<lambda>r. if vo_poolId r = vo_poolId pos then vo_shares r else 0"] ps(2)
    by (force dest: less_imp_le)
  then have le: "s \<le> vp_totalShares pool" using p(3) 1(6) by simp
  show ?thesis
  proof (rule vault_ok_update[OF assms(2) _ 1(10)])
    show "positions_ok d'"
      unfolding positions_ok_def 1(11) using ps portion 1(6)
      by (auto dest: in_set_update in_set_delete)
    show "backed (pool\<lparr>vp_totalShares := if wq_newTotalShares q < 0 then 0 else wq_newTotalShares q,
        vp_totalAssets := wq_newTotalAssets q, vp_indexRay := wq_newIndexRay q\<rparr>)"
    proof (cases "vp_totalShares pool \<le> s")
      case True
      then show ?thesis using le by (simp add: 1(7) quote_simps backed_def INITIAL_INDEX_RAY_def)
    next
      case False
      then show ?thesis
        using backed_withdraw[OF p(1) 1(5) _ quote_simps(4)[of now pos pool s, unfolded quote_simps(1)] quote_penalty(1)]
        by (simp add: 1(7) quote_simps(6-8))
    qed
    show "bal d' u Scad_vault - bal d u Scad_vault = user_principal u (vaultPositions d') - user_principal u (vaultPositions d)" for u
      using posts_bal[OF 1(9), of u Scad_vault] by (simp add: principal withdraw_journal_def)
  qed (use p le in \<open>simp_all add: shares 1(7) quote_simps\<close>)
qed


lemma vault_ok_frame:
  "vaultPools d' = vaultPools d \<Longrightarrow> vaultPositions d' = vaultPositions d \<Longrightarrow> bal d' = bal d \<Longrightarrow> vault_ok d' = vault_ok d"
  by (simp add: vault_ok_def positions_ok_def pools_ok_def principals_ok_def)

lemma upsert_accrual_frame [simp]:
  "vaultPools (upsert_accrual_round p f d) = vaultPools d" "vaultPositions (upsert_accrual_round p f d) = vaultPositions d"
  "users (upsert_accrual_round p f d) = users d" "ledger (upsert_accrual_round p f d) = ledger d"
  "bets (upsert_accrual_round p f d) = bets d" "vaultEvents (upsert_accrual_round p f d) = vaultEvents d"
  by (simp_all add: upsert_accrual_round_def Let_def)

lemma bal_users: "users d' = users d \<Longrightarrow> bal d' = bal d"
  by (simp add: bal_def fun_eq_iff)

lemma vault_ok_cong:
  "vault_ok d \<Longrightarrow> users d' = users d \<Longrightarrow> vaultPools d' = vaultPools d \<Longrightarrow> vaultPositions d' = vaultPositions d \<Longrightarrow> vault_ok d'"
  using vault_ok_frame[OF _ _ bal_users] by blast

lemma credit_pools_ok:
  assumes "credit_pools now Y W ps acc d = Inr (acc', d')" and "vault_ok d" and "0 \<le> Y" and "0 < W"
    and "distinct (map fst ps)" and "\<And>pid p. (pid, p) \<in> set ps \<Longrightarrow> map_of (vaultPools d) pid = Some p"
  shows "vault_ok d' \<and> users d' = users d \<and> ledger d' = ledger d \<and> vaultAccrualRounds d' = vaultAccrualRounds d
    \<and> fst acc \<le> fst acc' \<and> (fst acc' - fst acc) * W \<le> Y * sum_list (map (pool_weight \<circ> snd) ps)"
  using assms
proof (induction now Y W ps acc d arbitrary: acc' d' rule: credit_pools.induct)
  case (2 now Y W pid p ps allocated credited mirror d)
  let ?y = "bigint_div (Y * pool_weight p) W"
  let ?f = "\<lambda>q. q\<lparr>vp_indexRay := applyAccrual (vp_indexRay p) (vp_totalShares p) ?y, vp_totalAssets := vp_totalAssets q + ?y,
      vp_lastAccrualAt := now, vp_aprBps := pool_apr ?y p\<rparr>"
  have p: "map_of (vaultPools d) pid = Some p" using 2(8) by simp
  note pk = vault_ok_pool[OF 2(4) p]
  have w: "0 \<le> pool_weight p" using pk by (simp add: pool_weight_def backed_def)
  have yw: "?y * W \<le> Y * pool_weight p" using w 2(5,6) by (intro bigint_div_mult_le) auto
  show ?case
  proof (cases "?y \<le> 0")
    case True
    have "vault_ok d' \<and> users d' = users d \<and> ledger d' = ledger d \<and> vaultAccrualRounds d' = vaultAccrualRounds d
      \<and> allocated \<le> fst acc' \<and> (fst acc' - allocated) * W \<le> Y * sum_list (map (pool_weight \<circ> snd) ps)"
      using 2(1)[OF refl True, of acc' d'] 2(3-8) True by (simp add: Let_def comp_def)
    moreover have "0 \<le> Y * pool_weight p" using w 2(5) by simp
    ultimately show ?thesis by (simp add: distrib_left comp_def)
  next
    case False
    obtain d1 where u: "update_pool pid ?f d = Inr d1"
      using 2(3) False by (cases "update_pool pid ?f d") (auto simp: Let_def)
    have d1: "d1 = d\<lparr>vaultPools := AList.update pid (?f p) (vaultPools d)\<rparr>"
      using u p by (auto elim!: update_pool_cases)
    define e where "e = \<lparr>ve_userId = None, ve_poolId = pid, ve_kind = VaultAccrue, ve_assetsDelta = ?y,
                ve_sharesDelta = 0, ve_penaltyAssets = 0, ve_indexRayAfter = applyAccrual (vp_indexRay p) (vp_totalShares p) ?y,
                ve_txSignature = None\<rparr>"
    let ?d2 = "d1\<lparr>vaultEvents := vaultEvents d1 @ [e]\<rparr>"
    have run: "credit_pools now Y W ps (allocated + ?y, credited + 1, mirror @ [(length (vaultEvents d1), vp_termDays p, ?y)]) ?d2 = Inr (acc', d')"
      using 2(3) False u by (simp add: Let_def e_def)
    have dist: "distinct (map fst ps)" using 2(7) by simp
    have later: "map_of (vaultPools ?d2) pid' = Some p'" if "(pid', p') \<in> set ps" for pid' p'
    proof -
      have "pid' \<noteq> pid" using 2(7) that by (force simp: image_iff)
      then show ?thesis using 2(8)[of pid' p'] that by (simp add: d1)
    qed
    have ok: "vault_ok ?d2"
    proof (rule vault_ok_update[OF 2(4), of _ pid "?f p"])
      show "positions_ok ?d2" using 2(4) by (simp add: vault_ok_def positions_ok_def d1)
      show "backed (?f p)" using backed_accrue[OF pk(1), of ?y] False by simp
    qed (use pk in \<open>simp_all add: d1 bal_def\<close>)
    have "vault_ok d' \<and> users d' = users ?d2 \<and> ledger d' = ledger ?d2 \<and> vaultAccrualRounds d' = vaultAccrualRounds ?d2
      \<and> allocated + ?y \<le> fst acc' \<and> (fst acc' - (allocated + ?y)) * W \<le> Y * sum_list (map (pool_weight \<circ> snd) ps)"
      using 2(2)[OF refl False refl refl run[unfolded e_def] ok[unfolded e_def] 2(5,6) dist] later
      unfolding e_def[symmetric] by (simp only: fst_conv)
    then show ?thesis using yw False by (simp add: d1 comp_def algebra_simps)
  qed
qed auto


lemma plan_pools:
  assumes "accrual_plan now d = Some plan" and "keyed (vaultPools d)"
  shows "distinct (map fst (ap_pools plan))"
    and "(pid, p) \<in> set (ap_pools plan) \<Longrightarrow> map_of (vaultPools d) pid = Some p"
    and "ap_totalWeight plan = sum_list (map (pool_weight \<circ> snd) (ap_pools plan))"
    and "ap_period plan = lastCompletedHour now" and "0 \<le> ap_totalYield plan"
proof -
  have plan: "ap_pools plan = filter (\<lambda>(_, p). vp_active p \<and> vp_totalShares p > 0) (vaultPools d)"
    "ap_totalWeight plan = sum_list (map (pool_weight \<circ> snd) (ap_pools plan))" "ap_period plan = lastCompletedHour now"
    "ap_totalYield plan = lamportsToScadBase (vaultYieldSliceLamports (ap_ngr plan))"
    using assms(1) by (auto simp: accrual_plan_def Let_def split: if_splits)
  then show "distinct (map fst (ap_pools plan))" and "ap_totalWeight plan = sum_list (map (pool_weight \<circ> snd) (ap_pools plan))"
    and "ap_period plan = lastCompletedHour now"
    using assms(2) by (simp_all add: keyed_def distinct_map_filter)
  show "(pid, p) \<in> set (ap_pools plan) \<Longrightarrow> map_of (vaultPools d) pid = Some p"
    using assms(2) by (auto simp: plan keyed_def)
  have "0 \<le> js_round (fl (10 ^ 9 / USD_PER_SCAD))" "0 < LAMPORTS_PER_USD" by code_simp+
  then show "0 \<le> ap_totalYield plan"
    by (auto simp: plan(4) lamportsToScadBase_def Let_def not_le intro!: bigint_div_ge0)
qed

lemma upsert_accrual_map:
  "map_of (vaultAccrualRounds (upsert_accrual_round p f d)) q =
     (if q = p then Some (f (case map_of (vaultAccrualRounds d) p of
            None \<Rightarrow> \<lparr>ar_distributed = False, ar_ngrLamports = 0, ar_yieldScad = 0, ar_poolCount = 0, ar_distributedAt = None\<rparr>
          | Some r \<Rightarrow> r)) else map_of (vaultAccrualRounds d) q)"
  by (simp add: upsert_accrual_round_def Let_def)

text \<open>
  Settling the plan in the state it was read from: no money moves, every pool stays backed, the hour is
  settled, and the pools receive no more than the yield of the hour.
\<close>

lemma settle_ok:
  assumes "accrual_plan now d = Some plan" and "accrual_settle now plan d = Inr (x, d')" and "vault_ok d"
  shows "vault_ok d' \<and> same_money d d' \<and> round_done (lastCompletedHour now) d'
    \<and> (\<forall>r. map_of (vaultAccrualRounds d') (lastCompletedHour now) = Some r \<longrightarrow>
          0 \<le> ar_yieldScad r \<and> ar_yieldScad r \<le> ap_totalYield plan)"
proof -
  have keyed: "keyed (vaultPools d)" using assms(3) by (simp add: vault_ok_def pools_ok_def)
  note plan = plan_pools[OF assms(1) keyed]
  have open_round: "\<not> round_done (lastCompletedHour now) d"
    using assms(1) by (auto simp: accrual_plan_def Let_def split: if_splits)
  let ?d1 = "upsert_accrual_round (lastCompletedHour now) (\<lambda>r. r) d"
  have not_raced: "\<not> round_done (lastCompletedHour now) ?d1"
    using open_round by (auto simp: round_done_def upsert_accrual_map split: option.splits)
  show ?thesis
  proof (cases "ap_totalYield plan < MIN_ACCRUAL_SCAD_BASE \<or> ap_pools plan = [] \<or> ap_totalWeight plan \<le> 0")
    case True
    then have d': "d' = upsert_accrual_round (lastCompletedHour now) (\<lambda>r. r\<lparr>ar_distributed := True, ar_distributedAt := Some now,
                  ar_ngrLamports := ap_ngr plan, ar_yieldScad := 0\<rparr>) d"
      using assms(2) by (simp add: accrual_settle_def plan(4) Let_def)
    have "vault_ok d'" by (rule vault_ok_cong[OF assms(3)]) (simp_all add: d')
    then show ?thesis using plan(5) by (auto simp: d' round_done_def upsert_accrual_map intro: same_moneyI)
  next
    case False
    then obtain a c m d2 where run: "credit_pools now (ap_totalYield plan) (ap_totalWeight plan) (ap_pools plan) (0, 0, []) ?d1 = Inr ((a, c, m), d2)"
      and d': "d' = upsert_accrual_round (lastCompletedHour now) (\<lambda>r. r\<lparr>ar_distributed := True, ar_distributedAt := Some now,
                  ar_ngrLamports := ap_ngr plan, ar_yieldScad := a, ar_poolCount := c\<rparr>) d2"
      using assms(2) not_raced unfolding accrual_settle_def plan(4) by (auto simp: Let_def)
    have ok1: "vault_ok ?d1" by (rule vault_ok_cong[OF assms(3)]) simp_all
    have W: "0 < ap_totalWeight plan" using False by simp
    have read: "map_of (vaultPools ?d1) pid = Some p" if "(pid, p) \<in> set (ap_pools plan)" for pid p
      using plan(2)[OF that] by simp
    note credited = credit_pools_ok[OF run ok1 plan(5) W plan(1) read, folded plan(3)]
    have "vault_ok d2" "users d2 = users d" "ledger d2 = ledger d" "0 \<le> a"
        "a * ap_totalWeight plan \<le> ap_totalYield plan * ap_totalWeight plan"
      using credited by simp_all
    then have c: "vault_ok d2" "users d2 = users d" "ledger d2 = ledger d" "0 \<le> a" "a \<le> ap_totalYield plan"
      using W by simp_all
    have "vault_ok d'" by (rule vault_ok_cong[OF c(1)]) (simp_all add: d')
    then show ?thesis using c by (auto simp: d' round_done_def upsert_accrual_map intro: same_moneyI)
  qed
qed

lemma stamp_frame [simp]:
  "users (stamp_event f m d) = users d" "ledger (stamp_event f m d) = ledger d" "vaultPools (stamp_event f m d) = vaultPools d"
  "vaultPositions (stamp_event f m d) = vaultPositions d" "vaultAccrualRounds (stamp_event f m d) = vaultAccrualRounds d"
  by (auto simp: stamp_event_def split: prod.splits option.splits)

lemma stamps_frame [simp]:
  "users (fold (stamp_event f) ms d) = users d" "ledger (fold (stamp_event f) ms d) = ledger d"
  "vaultPools (fold (stamp_event f) ms d) = vaultPools d" "vaultPositions (fold (stamp_event f) ms d) = vaultPositions d"
  "vaultAccrualRounds (fold (stamp_event f) ms d) = vaultAccrualRounds d"
  by (induction ms arbitrary: d) simp_all

lemma vault_accrue_ok:
  assumes "vault_accrue chain now d = Inr (r, d')" and "vault_ok d"
  shows "vault_ok d' \<and> same_money d d' \<and> round_done (lastCompletedHour now) d'"
proof (cases "accrual_plan now d")
  case None
  then show ?thesis using assms by (auto simp: vault_accrue_def accrual_plan_def Let_def split: if_splits)
next
  case (Some plan)
  then obtain m d1 where s: "accrual_settle now plan d = Inr ((r, m), d1)"
    and d': "d' = (case chain of None \<Rightarrow> d1 | Some f \<Rightarrow> fold (stamp_event f) m d1)"
    using assms(1) by (auto simp: vault_accrue_def)
  have f: "users d' = users d1" "ledger d' = ledger d1" "vaultPools d' = vaultPools d1" "vaultPositions d' = vaultPositions d1"
    "vaultAccrualRounds d' = vaultAccrualRounds d1"
    by (simp_all add: d' split: option.splits)
  have ok: "vault_ok d1" "same_money d d1" "round_done (lastCompletedHour now) d1"
    using settle_ok[OF Some s assms(2)] by simp_all
  have "vault_ok d'" by (rule vault_ok_cong[OF ok(1)]) (simp_all add: f)
  moreover have "same_money d d'" using ok(2) by (rule same_money_trans) (rule same_moneyI; simp add: f)
  ultimately show ?thesis using ok(3) f(5) by (simp add: round_done_def)
qed

datatype vault_cmd =
    Deposit_cmd int nat nat int
  | Withdraw_cmd int nat nat "int option"
  | Accrue_cmd "(int \<Rightarrow> int \<Rightarrow> string option) option" int

definition commit :: "db \<Rightarrow> ('a \<times> db) result \<Rightarrow> db" where
  "commit d m = (case m of Inl _ \<Rightarrow> d | Inr (_, d') \<Rightarrow> d')"

fun vault_run :: "vault_cmd \<Rightarrow> db \<Rightarrow> db" where
  "vault_run (Deposit_cmd now uid pid a) d = commit d (vault_deposit now uid pid a d)"
| "vault_run (Withdraw_cmd now uid k s) d = commit d (vault_withdraw now uid k s d)"
| "vault_run (Accrue_cmd chain now) d = commit d (vault_accrue chain now d)"

lemma vault_run_ok: "vault_ok d \<Longrightarrow> vault_ok (vault_run c d)"
  by (cases c) (auto simp: commit_def split: sum.splits intro: deposit_ok withdraw_ok vault_accrue_ok[THEN conjunct1])


subsection \<open>What holders can rely on\<close>

lemma values_covered:
  assumes "vault_ok d" and "map_of (vaultPools d) pid = Some p"
  shows "col_sum (\<lambda>r. if vo_poolId r = pid then assetsForShares (vo_shares r) (vp_indexRay p) else 0) (vaultPositions d)
      \<le> vp_totalAssets p"
proof -
  have i: "0 < vp_indexRay p" using vault_ok_pool(1)[OF assms] by (simp add: backed_def)
  have pos: "0 \<le> vo_shares r" if "(k, r) \<in> set (vaultPositions d)" for k r
    using assms(1) that by (force simp: vault_ok_def positions_ok_def)
  have "col_sum (\<lambda>r. if vo_poolId r = pid then assetsForShares (vo_shares r) (vp_indexRay p) else 0) t * RAY
      \<le> col_sum (\<lambda>r. if vo_poolId r = pid then vo_shares r else 0) t * vp_indexRay p"
    if "\<forall>x \<in> set t. 0 \<le> vo_shares (snd x)" for t :: "(nat, vault_position) table"
    using that
  proof (induction t)
    case (Cons x t)
    have "assetsForShares (vo_shares (snd x)) (vp_indexRay p) * RAY \<le> vo_shares (snd x) * vp_indexRay p"
      using Cons.prems i by (intro assets_mult_le) auto
    then show ?case using Cons.IH Cons.prems by (simp add: col_sum_def distrib_right)
  qed (simp add: col_sum_def)
  from this[of "vaultPositions d"] pos have "col_sum (\<lambda>r. if vo_poolId r = pid then assetsForShares (vo_shares r) (vp_indexRay p) else 0) (vaultPositions d) * RAY
      \<le> vp_totalShares p * vp_indexRay p"
    using vault_ok_pool(3)[OF assms] by (fastforce simp: pool_shares_def)
  also have "\<dots> \<le> vp_totalAssets p * RAY" using vault_ok_pool(1)[OF assms] by (simp add: backed_def)
  finally show ?thesis by simp
qed


text \<open>
  A withdrawal pays what its shares are worth: the gross value at the current price less a tenth of it before
  maturity, moved by exactly two postings, never more than the pool holds. The value of no other position falls,
  the shares are gone from the position, and a position that is withdrawn whole cannot be withdrawn again.
\<close>

theorem vault_withdraw_pays:
  assumes "vault_ok d" and "vault_withdraw now uid k shares d = Inr (r, d')"
  shows "\<exists>pos pool pool' portion. map_of (vaultPositions d) k = Some pos \<and> vo_userId pos = uid
    \<and> map_of (vaultPools d) (vo_poolId pos) = Some pool \<and> map_of (vaultPools d') (vo_poolId pos) = Some pool'
    \<and> vw_grossAssets r = vw_sharesBurned r * vp_indexRay pool div RAY
    \<and> vw_penaltyAssets r = (if now < vo_maturesAt pos then vw_grossAssets r * 1000 div 10000 else 0)
    \<and> vw_netAssets r = vw_grossAssets r - vw_penaltyAssets r \<and> vw_netAssets r \<le> vp_totalAssets pool
    \<and> 0 \<le> portion \<and> portion \<le> vo_principal pos
    \<and> posts ((uid, Scad_vault, - portion) # (if vw_netAssets r > 0 then [(uid, Scad, vw_netAssets r)] else [])) d d'
    \<and> vp_totalShares pool' = vp_totalShares pool - vw_sharesBurned r
    \<and> (vp_totalShares pool' \<noteq> 0 \<longrightarrow> vp_indexRay pool \<le> vp_indexRay pool')
    \<and> (\<forall>j. j \<noteq> k \<longrightarrow> map_of (vaultPositions d') j = map_of (vaultPositions d) j)
    \<and> map_of (vaultPositions d') k = (if vw_sharesBurned r = vo_shares pos then None
         else Some (pos\<lparr>vo_shares := vo_shares pos - vw_sharesBurned r, vo_principal := vo_principal pos - portion\<rparr>))"
  using assms(2)
proof (cases rule: withdraw_cases)
  case (1 pos pool s q)
  have ps: "keyed (vaultPositions d)" "\<And>j v. (j, v) \<in> set (vaultPositions d) \<Longrightarrow> 0 < vo_shares v \<and> 0 \<le> vo_principal v"
    using assms(1) by (auto simp: vault_ok_def positions_ok_def)
  have pos: "0 \<le> vo_principal pos" using ps(2)[OF map_of_SomeD[OF 1(1)]] by simp
  note p = vault_ok_pool[OF assms(1) 1(3)]
  have i: "0 < vp_indexRay pool" using p(1) by (simp add: backed_def)
  have "vo_shares pos \<le> vp_totalShares pool"
    unfolding p(3) pool_shares_def
    using col_sum_ge[OF 1(1), of "\<lambda>r. if vo_poolId r = vo_poolId pos then vo_shares r else 0"] ps(2) by (force dest: less_imp_le)
  then have le: "s \<le> vp_totalShares pool" using 1(6) by simp
  have gross: "wq_gross q = s * vp_indexRay pool div RAY"
    using 1(5) i by (simp add: 1(7) quote_simps assetsForShares_def bigint_div_nonneg)
  have pen: "wq_penalty q = (if now < vo_maturesAt pos then wq_gross q * 1000 div 10000 else 0)"
    using assetsForShares_nonneg[of s "vp_indexRay pool"]
    by (auto simp: 1(7) quote_simps earlyExitPenalty_def bigint_div_nonneg EARLY_EXIT_PENALTY_BPS_def)
  have "s * vp_indexRay pool \<le> vp_totalShares pool * vp_indexRay pool" using le i by (intro mult_right_mono) auto
  also have "\<dots> \<le> vp_totalAssets pool * RAY" using p(1) by (simp add: backed_def)
  finally have "wq_gross q \<le> vp_totalAssets pool"
    using zdiv_mono1[of "s * vp_indexRay pool" "vp_totalAssets pool * RAY" RAY] RAY_pos
    by (simp add: gross del: RAY_pos)
  then have net: "wq_net q \<le> vp_totalAssets pool" using quote_penalty(1)[of now pos pool s] by (simp add: 1(7) quote_simps(4))
  note portion = quote_portion[OF pos 1(5,6), of now pool, folded 1(7)]
  let ?p' = "pool\<lparr>vp_totalShares := if wq_newTotalShares q < 0 then 0 else wq_newTotalShares q,
     vp_totalAssets := wq_newTotalAssets q, vp_indexRay := wq_newIndexRay q\<rparr>"
  have idx: "vp_totalShares ?p' = vp_totalShares pool - s" "vp_totalShares ?p' \<noteq> 0 \<longrightarrow> vp_indexRay pool \<le> vp_indexRay ?p'"
    using le applyAccrual_mono by (auto simp: 1(7) quote_simps)
  have map: "map_of (vaultPositions d') j = (if j = k then (if s = vo_shares pos then None
      else Some (pos\<lparr>vo_shares := vo_shares pos - s, vo_principal := vo_principal pos - wq_principalPortion q\<rparr>))
      else map_of (vaultPositions d) j)" for j
    by (simp add: 1(11) delete_conv')
  have m': "map_of (vaultPools d') (vo_poolId pos) = Some ?p'" by (simp add: 1(10))
  have r: "vw_grossAssets r = wq_gross q" "vw_penaltyAssets r = wq_penalty q" "vw_netAssets r = wq_net q" "vw_sharesBurned r = s"
    by (simp_all add: 1(8))
  have post: "posts ((uid, Scad_vault, - wq_principalPortion q) # (if wq_net q > 0 then [(uid, Scad, wq_net q)] else [])) d d'"
    using 1(9) by (simp add: withdraw_journal_def)
  have split: "wq_net q = wq_gross q - wq_penalty q" by (simp add: 1(7) quote_simps(4))
  have others: "\<forall>j. j \<noteq> k \<longrightarrow> map_of (vaultPositions d') j = map_of (vaultPositions d) j" by (simp add: map)
  have mine: "map_of (vaultPositions d') k = (if s = vo_shares pos then None
      else Some (pos\<lparr>vo_shares := vo_shares pos - s, vo_principal := vo_principal pos - wq_principalPortion q\<rparr>))"
    by (simp add: map)
  show ?thesis unfolding r
    by (intro exI conjI) (rule 1(1) 1(2) 1(3) m' gross pen split net portion post idx others mine)+
qed


definition vault_sample :: "int \<Rightarrow> db" where
  "vault_sample stake = empty_db\<lparr>
     users := [(1, new_user\<lparr>scadiumVault := stake\<rparr>), (2, new_user\<lparr>scadiumBalance := 1000000000000000\<rparr>)],
     bets := [\<lparr>b_userId = 2, b_gameType = Dice, b_amountLamports = 1000000000000, b_payoutLamports = 0,
       b_multiplier = None, b_status = BetLost, b_nonce = None, b_seedId = None, b_createdAt = 999 * HOUR_MS + 1\<rparr>],
     vaultPools := [(0, \<lparr>vp_termDays = 30, vp_totalAssets = stake, vp_totalShares = stake, vp_indexRay = INITIAL_INDEX_RAY,
       vp_weightBps = 1000, vp_aprBps = 0, vp_active = True, vp_lastAccrualAt = 0\<rparr>)],
     vaultPositions := [(0, \<lparr>vo_userId = 1, vo_poolId = 0, vo_shares = stake, vo_principal = stake, vo_maturesAt = 0\<rparr>)]\<rparr>"

lemma vault_sample_ok: "0 < stake \<Longrightarrow> vault_ok (vault_sample stake)"
  by (auto simp: vault_ok_def positions_ok_def pools_ok_def principals_ok_def vault_sample_def backed_def keyed_def
      pool_shares_def user_principal_def col_sum_def bal_def INITIAL_INDEX_RAY_def RAY_def)


theorem vault_withdraw_pays_witness:
  "\<exists>r d' pos. vault_withdraw 7 1 0 (Some 300000) (vault_sample 1000000) = Inr (r, d')
     \<and> map_of (vaultPositions (vault_sample 1000000)) 0 = Some pos \<and> vw_grossAssets r = 300000 \<and> vw_penaltyAssets r = 0
     \<and> map_of (vaultPositions d') 0 = Some (pos\<lparr>vo_shares := 700000, vo_principal := 700000\<rparr>)"
proof -
  let ?out = "vault_withdraw 7 1 0 (Some 300000) (vault_sample 1000000)"
  have run: "case ?out of Inl _ \<Rightarrow> False | Inr (r, d') \<Rightarrow> vw_grossAssets r = 300000 \<and> vw_sharesBurned r = 300000 \<and> vw_penaltyAssets r = 0
      \<and> bal d' 1 Scad_vault = 700000" by code_simp
  obtain r d' where o: "?out = Inr (r, d')" and v: "vw_grossAssets r = 300000" "vw_sharesBurned r = 300000" "vw_penaltyAssets r = 0"
      "bal d' 1 Scad_vault = 700000"
    using run by (cases ?out) auto
  have "vault_ok (vault_sample 1000000)" by (simp add: vault_sample_ok)
  from vault_withdraw_pays[OF this o] obtain pos portion where
    p: "map_of (vaultPositions (vault_sample 1000000)) 0 = Some pos"
    and post: "posts ((1, Scad_vault, - portion) # (if vw_netAssets r > 0 then [(1, Scad, vw_netAssets r)] else [])) (vault_sample 1000000) d'"
    and m: "map_of (vaultPositions d') 0 = (if vw_sharesBurned r = vo_shares pos then None
         else Some (pos\<lparr>vo_shares := vo_shares pos - vw_sharesBurned r, vo_principal := vo_principal pos - portion\<rparr>))" by blast
  have pos: "vo_shares pos = 1000000" "vo_principal pos = 1000000" using p by (auto simp: vault_sample_def)
  have "bal d' 1 Scad_vault = 1000000 - portion"
    using posts_bal[OF post, of 1 Scad_vault] by (simp add: vault_sample_def bal_def)
  then have "portion = 300000" using v(4) by simp
  then show ?thesis using o v p m pos by auto
qed

text \<open>
  Two limits of the accrual. The pools are read before the transaction and their new index is written as an
  absolute value: a deposit that commits in between makes the pool promise more than it holds. And the index is a
  64-bit column: where the yield of an hour is more than about eight times the stake of a pool, the write fails and
  takes the yield of every pool with it, and each later run for that hour fails in the same way.
\<close>

theorem accrual_hazards:
  "vault_ok (vault_sample 100000000000000)
   \<and> (\<exists>plan r d1 x d2 p. accrual_plan (1000 * HOUR_MS) (vault_sample 100000000000000) = Some plan
        \<and> vault_deposit (1000 * HOUR_MS) 2 0 100000000000000 (vault_sample 100000000000000) = Inr (r, d1)
        \<and> accrual_settle (1000 * HOUR_MS) plan d1 = Inr (x, d2)
        \<and> map_of (vaultPools d2) 0 = Some p \<and> \<not> backed p)
   \<and> vault_ok (vault_sample 1000000000000)
   \<and> vault_accrue None (1000 * HOUR_MS) (vault_sample 1000000000000) = Inl (Internal ''Unable to fit integer value'')"
proof (intro conjI)
  show "vault_ok (vault_sample 100000000000000)" "vault_ok (vault_sample 1000000000000)" by (simp_all add: vault_sample_ok)
  show "vault_accrue None (1000 * HOUR_MS) (vault_sample 1000000000000) = Inl (Internal ''Unable to fit integer value'')"
    by code_simp
  let ?d = "vault_sample 100000000000000"
  let ?check = "case accrual_plan (1000 * HOUR_MS) ?d of None \<Rightarrow> False | Some plan \<Rightarrow>
      (case vault_deposit (1000 * HOUR_MS) 2 0 100000000000000 ?d of Inl _ \<Rightarrow> False | Inr (_, d1) \<Rightarrow>
      (case accrual_settle (1000 * HOUR_MS) plan d1 of Inl _ \<Rightarrow> False | Inr (_, d2) \<Rightarrow>
      (case map_of (vaultPools d2) 0 of None \<Rightarrow> False | Some p \<Rightarrow> \<not> backed p)))"
  have check: "?check" by code_simp
  obtain plan where 1: "accrual_plan (1000 * HOUR_MS) ?d = Some plan"
    using check by (cases "accrual_plan (1000 * HOUR_MS) ?d") simp_all
  obtain r d1 where 2: "vault_deposit (1000 * HOUR_MS) 2 0 100000000000000 ?d = Inr (r, d1)"
    using check 1 by (cases "vault_deposit (1000 * HOUR_MS) 2 0 100000000000000 ?d") auto
  obtain x d2 where 3: "accrual_settle (1000 * HOUR_MS) plan d1 = Inr (x, d2)"
    using check 1 2 by (cases "accrual_settle (1000 * HOUR_MS) plan d1") auto
  obtain p where 4: "map_of (vaultPools d2) 0 = Some p"
    using check 1 2 3 by (cases "map_of (vaultPools d2) 0") auto
  show "\<exists>plan r d1 x d2 p. accrual_plan (1000 * HOUR_MS) ?d = Some plan
        \<and> vault_deposit (1000 * HOUR_MS) 2 0 100000000000000 ?d = Inr (r, d1)
        \<and> accrual_settle (1000 * HOUR_MS) plan d1 = Inr (x, d2)
        \<and> map_of (vaultPools d2) 0 = Some p \<and> \<not> backed p"
    using check 1 2 3 4 by simp
qed

interpretation vault_in: money_command "\<lambda>(now, uid, pid, a). vault_deposit now uid pid a"
    "\<lambda>(now, uid, pid, a) _ _. [(uid, Scad, - a), (uid, Scad_vault, a)]"
  by unfold_locales (auto elim!: deposit_cases)

text \<open>A deposit moves the stake between two balances of one user and nobody else's.\<close>

lemma deposit_total: "vault_deposit now uid pid a d = Inr (r, d') \<Longrightarrow>
    bal d' v Scad + bal d' v Scad_vault = bal d v Scad + bal d v Scad_vault"
  using vault_in.moves_exactly[of "(now, uid, pid, a)" d r d' v Scad] vault_in.moves_exactly[of "(now, uid, pid, a)" d r d' v Scad_vault]
  by simp

end
