(* ===== verification/Vault_Strategy.thy ===== *)
theory Vault_Strategy
  imports Shared_Money
begin

text \<open>
  \<open>apps/api/src/vault/vault-strategy.service.ts\<close>: when a pool's assets are moved into its yield strategy and back.
  The calls to the chain are arguments: \<open>vaultInvest\<close>, \<open>vaultDivest\<close>, \<open>vaultHarvest\<close> give the signature of
  the transaction or nothing, \<open>readStrategyValue\<close> the worth of the position or nothing.
\<close>

datatype strategy = No_strategy | Jito_stake | Kamino_lend

definition BUFFER_BPS :: int where "BUFFER_BPS = 1500"
definition BUFFER_FLOOR_BPS :: int where "BUFFER_FLOOR_BPS = 1000"
definition MAX_INVESTED_BPS :: int where "MAX_INVESTED_BPS = 8500"
definition MIN_INVEST_BASE :: int where "MIN_INVEST_BASE = 1000000000"
definition DRIFT_TOLERANCE_BPS :: int where "DRIFT_TOLERANCE_BPS = 1"

record pool_snapshot =
  sn_termDays :: int
  sn_strategy :: strategy
  sn_totalAssets :: int
  sn_liquid :: int
  sn_invested :: int

datatype rebalance_plan = Hold | Invest int | Divest int

definition planRebalance :: "pool_snapshot \<Rightarrow> rebalance_plan" where
  "planRebalance snap =
     (if sn_strategy snap = No_strategy \<or> sn_totalAssets snap \<le> 0 then Hold
      else let toInvest = investableExcess (sn_liquid snap) (sn_invested snap) (sn_totalAssets snap) BUFFER_BPS MAX_INVESTED_BPS
           in if toInvest \<ge> MIN_INVEST_BASE then Invest toInvest
              else let toDivest = divestForBufferFloor (sn_liquid snap) (sn_invested snap) (sn_totalAssets snap) BUFFER_BPS BUFFER_FLOOR_BPS
                   in if toDivest > 0 then Divest toDivest else Hold)"

definition planHarvest :: "int \<Rightarrow> int \<Rightarrow> int" where
  "planHarvest strategyValue invested = harvestableYield strategyValue invested"

record chain_vault =
  vaultInvest :: "int \<Rightarrow> int \<Rightarrow> string option"
  vaultDivest :: "int \<Rightarrow> int \<Rightarrow> string option"
  vaultHarvest :: "int \<Rightarrow> string option"
  readStrategyValue :: "int \<Rightarrow> int option"

text \<open>The plan with its signature; \<open>None\<close> for the chain is the disabled chain.\<close>

definition rebalance :: "chain_vault option \<Rightarrow> pool_snapshot \<Rightarrow> rebalance_plan \<times> string option" where
  "rebalance chain snap =
     (let plan = planRebalance snap in
      case plan of
        Hold \<Rightarrow> (Hold, None)
      | Invest amount \<Rightarrow> (plan, case chain of None \<Rightarrow> None | Some c \<Rightarrow> vaultInvest c (sn_termDays snap) amount)
      | Divest amount \<Rightarrow> (plan, case chain of None \<Rightarrow> None | Some c \<Rightarrow> vaultDivest c (sn_termDays snap) amount))"

definition harvest :: "chain_vault option \<Rightarrow> int \<Rightarrow> int \<times> string option" where
  "harvest chain termDays =
     (case chain of
        None \<Rightarrow> (0, None)
      | Some c \<Rightarrow> (case readStrategyValue c termDays of
            None \<Rightarrow> (0, None)
          | Some strategyValue \<Rightarrow> (0, vaultHarvest c termDays)))"

record drift_report =
  df_drift :: int
  df_ok :: bool
  df_unwindShortfall :: bool

definition strategyDrift :: "chain_vault option \<Rightarrow> int \<Rightarrow> int \<Rightarrow> int \<Rightarrow> int option \<Rightarrow> drift_report option" where
  "strategyDrift chain termDays totalAssets liquid queuedWithdrawal =
     (case chain of
        None \<Rightarrow> None
      | Some c \<Rightarrow>
          let strategyValue = (case readStrategyValue c termDays of None \<Rightarrow> 0 | Some v \<Rightarrow> v);
              (drift, ok) = vaultStrategyDrift totalAssets liquid strategyValue DRIFT_TOLERANCE_BPS;
              queued = (case queuedWithdrawal of None \<Rightarrow> 0 | Some q \<Rightarrow> q)
          in Some \<lparr>df_drift = drift, df_ok = ok, df_unwindShortfall = (queued > liquid + strategyValue)\<rparr>)"

text \<open>Carrying out a plan moves the amount between the two sides.\<close>

fun moved :: "rebalance_plan \<Rightarrow> int \<times> int \<Rightarrow> int \<times> int" where
  "moved Hold (l, i) = (l, i)"
| "moved (Invest a) (l, i) = (l - a, i + a)"
| "moved (Divest a) (l, i) = (l + a, i - a)"

text \<open>
  A rebalance never strands a pool: on a pool whose liquid and invested assets are not negative the plan leaves
  both nonnegative and their sum unchanged. An investment is at least the minimum and leaves the buffer of 15%
  liquid and at most 85% invested; a divestment happens only below the 10% floor and either refills the buffer
  exactly or recalls everything; and once carried out, the next plan never reverses the move.
\<close>

theorem rebalance_safe:
  assumes "0 \<le> sn_liquid s" and "0 \<le> sn_invested s"
    and "moved (planRebalance s) (sn_liquid s, sn_invested s) = (l, i)"
  shows "0 \<le> l \<and> 0 \<le> i \<and> l + i = sn_liquid s + sn_invested s
    \<and> planRebalance (s\<lparr>sn_liquid := l, sn_invested := i\<rparr>) = Hold
    \<and> (\<forall>a. planRebalance s = Invest a \<longrightarrow> MIN_INVEST_BASE \<le> a
          \<and> sn_totalAssets s * 1500 div 10000 \<le> l \<and> i \<le> sn_totalAssets s * 8500 div 10000)
    \<and> (\<forall>a. planRebalance s = Divest a \<longrightarrow> sn_liquid s < sn_totalAssets s * 1000 div 10000
          \<and> (l = sn_totalAssets s * 1500 div 10000 \<or> i = 0 \<and> l \<le> sn_totalAssets s * 1500 div 10000))"
proof (cases "sn_strategy s = No_strategy \<or> sn_totalAssets s \<le> 0")
  case True
  then show ?thesis using assms by (auto simp: planRebalance_def)
next
  case False
  define t where "t = sn_totalAssets s * 1500 div 10000"
  define f where "f = sn_totalAssets s * 1000 div 10000"
  define c where "c = sn_totalAssets s * 8500 div 10000"
  have T: "0 < sn_totalAssets s" using False by simp
  have ftc: "0 \<le> f" "f \<le> t" "0 \<le> c" unfolding f_def t_def c_def using T by (simp_all add: zdiv_mono1 pos_imp_zdiv_nonneg_iff)
  have target: "bufferTargetAssets (sn_totalAssets s) BUFFER_BPS = t" "bufferTargetAssets (sn_totalAssets s) BUFFER_FLOOR_BPS = f"
    "bigint_div (sn_totalAssets s * MAX_INVESTED_BPS) 10000 = c"
    using T by (simp_all add: bufferTargetAssets_def BUFFER_BPS_def BUFFER_FLOOR_BPS_def MAX_INVESTED_BPS_def
        bigint_div_nonneg t_def f_def c_def)
  have excess: "investableExcess x y (sn_totalAssets s) BUFFER_BPS MAX_INVESTED_BPS =
      (if x \<le> 0 then 0 else min (max (x - t) 0) (max (c - y) 0))" for x y
    using T by (auto simp: investableExcess_def target Let_def)
  have refill: "divestForBufferFloor x y (sn_totalAssets s) BUFFER_BPS BUFFER_FLOOR_BPS =
      (if y \<le> 0 \<or> f \<le> x then 0 else min (t - x) y)" for x y
    using T by (auto simp: divestForBufferFloor_def target Let_def)
  have plan: "planRebalance (s\<lparr>sn_liquid := x, sn_invested := y\<rparr>) =
      (let e = (if x \<le> 0 then 0 else min (max (x - t) 0) (max (c - y) 0)) in
       if MIN_INVEST_BASE \<le> e then Invest e
       else let v = (if y \<le> 0 \<or> f \<le> x then 0 else min (t - x) y) in if 0 < v then Divest v else Hold)" for x y
    using False by (simp add: planRebalance_def excess refill Let_def)
  have min: "0 < MIN_INVEST_BASE" by (simp add: MIN_INVEST_BASE_def)
  let ?L = "sn_liquid s" and ?I = "sn_invested s"
  have quiet: "planRebalance (s\<lparr>sn_liquid := x, sn_invested := y\<rparr>) = Hold"
    if "x \<le> t \<or> c \<le> y" "y \<le> 0 \<or> f \<le> x" for x y
    using that min by (auto simp: plan Let_def)
  define e where "e = (if ?L \<le> 0 then 0 else min (max (?L - t) 0) (max (c - ?I) 0))"
  define v where "v = (if ?I \<le> 0 \<or> f \<le> ?L then 0 else min (t - ?L) ?I)"
  have here: "planRebalance s = (if MIN_INVEST_BASE \<le> e then Invest e else if 0 < v then Divest v else Hold)"
    using plan[where x = ?L and y = ?I] by (simp add: e_def v_def Let_def)
  show ?thesis unfolding t_def[symmetric] f_def[symmetric] c_def[symmetric]
  proof (cases "MIN_INVEST_BASE \<le> e")
    case True
    then have li: "l = ?L - e" "i = ?I + e" using here assms(3) by simp_all
    have "e \<le> ?L - t" "e \<le> c - ?I" "e = ?L - t \<or> e = c - ?I"
      using True min by (auto simp: e_def min_def max_def split: if_splits)
    then show "0 \<le> l \<and> 0 \<le> i \<and> l + i = ?L + ?I \<and> planRebalance (s\<lparr>sn_liquid := l, sn_invested := i\<rparr>) = Hold
      \<and> (\<forall>a. planRebalance s = Invest a \<longrightarrow> MIN_INVEST_BASE \<le> a \<and> t \<le> l \<and> i \<le> c)
      \<and> (\<forall>a. planRebalance s = Divest a \<longrightarrow> ?L < f \<and> (l = t \<or> i = 0 \<and> l \<le> t))"
      using True here li assms ftc min quiet[where x = l and y = i] by auto
  next
    case no: False
    show "0 \<le> l \<and> 0 \<le> i \<and> l + i = ?L + ?I \<and> planRebalance (s\<lparr>sn_liquid := l, sn_invested := i\<rparr>) = Hold
      \<and> (\<forall>a. planRebalance s = Invest a \<longrightarrow> MIN_INVEST_BASE \<le> a \<and> t \<le> l \<and> i \<le> c)
      \<and> (\<forall>a. planRebalance s = Divest a \<longrightarrow> ?L < f \<and> (l = t \<or> i = 0 \<and> l \<le> t))"
    proof (cases "0 < v")
      case True
      then have li: "l = ?L + v" "i = ?I - v" using here assms(3) no by simp_all
      have "v \<le> t - ?L" "v \<le> ?I" "v = t - ?L \<or> v = ?I" "?L < f"
        using True by (auto simp: v_def min_def split: if_splits)
      then show ?thesis using True here li assms ftc no quiet[where x = l and y = i] by auto
    next
      case False
      then have "planRebalance s = Hold" using here no by simp
      moreover have "s\<lparr>sn_liquid := ?L, sn_invested := ?I\<rparr> = s" by simp
      ultimately show ?thesis using assms by auto
    qed
  qed
qed

theorem rebalance_safe_witness:
  "planRebalance (\<lparr>sn_termDays = 30, sn_strategy = Jito_stake, sn_totalAssets = 100000000000, sn_liquid = 15000000000,
     sn_invested = 85000000000\<rparr>) = Hold"
  using rebalance_safe[of "\<lparr>sn_termDays = 30, sn_strategy = Jito_stake, sn_totalAssets = 100000000000, sn_liquid = 100000000000,
     sn_invested = 0\<rparr>" 15000000000 85000000000]
  by (simp add: planRebalance_def investableExcess_def bufferTargetAssets_def BUFFER_BPS_def MAX_INVESTED_BPS_def
      MIN_INVEST_BASE_def bigint_div_nonneg)

end
