(* ===== verification/Custody.thy ===== *)
theory Custody
  imports Transactions Responsible_Gambling
begin

text \<open>
  Withdrawals of \<open>apps/api/src/custody\<close>: the settings (\<open>custody.config.ts\<close>), the view of a transfer
  (\<open>transfer-view.ts\<close>) and \<open>withdrawal.service.ts\<close>. Every call of the service to the chain
  (\<open>custody-chain.ts\<close>) is a read whose answer is an argument, and every write to the database is guarded
  by the state the row had when it was read; several processes drive the same row at once, so a handler is
  split where it waits: the decision it takes on what it read, and the compare-and-set it then makes.
\<close>

subsection \<open>Settings and views\<close>

record custody_cfg =
  minDepositLamports :: int
  minWithdrawLamports :: int
  maxWithdrawLamports :: int
  dailyWithdrawLamports :: int
  feeReserveLamports :: int
  withdrawMaxAttempts :: nat
  expiryMarginBlocks :: int
  scanPage :: nat

definition default_custody :: custody_cfg where
  "default_custody = \<lparr>minDepositLamports = bigint_div LAMPORTS_PER_SOL 100, minWithdrawLamports = bigint_div LAMPORTS_PER_SOL 100,
     maxWithdrawLamports = 10 * LAMPORTS_PER_SOL, dailyWithdrawLamports = 25 * LAMPORTS_PER_SOL,
     feeReserveLamports = bigint_div LAMPORTS_PER_SOL 100, withdrawMaxAttempts = 5, expiryMarginBlocks = 150, scanPage = 1000\<rparr>"

record transfer_view =
  tv_id :: nat
  tv_kind :: custody_kind
  tv_status :: custody_status
  tv_amountLamports :: int
  tv_wallet :: string
  tv_txSignature :: "string option"
  tv_heldReason :: "held_reason option"
  tv_createdAt :: int
  tv_settledAt :: "int option"

definition transferView :: "nat \<Rightarrow> custody_transfer \<Rightarrow> transfer_view" where
  "transferView i row = \<lparr>tv_id = i, tv_kind = ct_kind row, tv_status = ct_status row,
     tv_amountLamports = ct_amountLamports row, tv_wallet = ct_wallet row, tv_txSignature = ct_txSignature row,
     tv_heldReason = ct_heldReason row, tv_createdAt = ct_createdAt row, tv_settledAt = ct_settledAt row\<rparr>"

definition custody_meta :: "string \<Rightarrow> nat \<Rightarrow> meta" where
  "custody_meta why i = (jeton_meta why ''CustodyTransfer'')\<lparr>refId := Some i\<rparr>"

definition put_transfer :: "nat \<Rightarrow> custody_transfer \<Rightarrow> db \<Rightarrow> db" where
  "put_transfer i row d = d\<lparr>custodyTransfers := AList.update i row (custodyTransfers d)\<rparr>"

text \<open>\<open>updateMany\<close> of one row: how many rows matched, and the table after it.\<close>

definition cas_transfer ::
  "nat \<Rightarrow> (custody_transfer \<Rightarrow> bool) \<Rightarrow> (custody_transfer \<Rightarrow> custody_transfer) \<Rightarrow> db \<Rightarrow> nat \<times> db" where
  "cas_transfer i p f d = (case map_of (custodyTransfers d) i of
      None \<Rightarrow> (0, d)
    | Some row \<Rightarrow> if p row then (1, put_transfer i (f row) d) else (0, d))"

definition findTransfer :: "nat \<Rightarrow> db \<Rightarrow> custody_transfer result" where
  "findTransfer i d = (case map_of (custodyTransfers d) i of None \<Rightarrow> Inl (Internal ''P2025'') | Some row \<Rightarrow> Inr row)"

subsection \<open>request\<close>

datatype withdraw_reply = Fresh_view transfer_view | Replayed_view string

definition own_wallets :: "nat \<Rightarrow> user \<Rightarrow> db \<Rightarrow> string list" where
  "own_wallets userId u d = walletAddress u # map snd (filter (\<lambda>(v, _). v = userId) (linkedWallets d))"

definition new_withdrawal :: "nat \<Rightarrow> string \<Rightarrow> int \<Rightarrow> int \<Rightarrow> custody_transfer" where
  "new_withdrawal userId wallet amount now = \<lparr>ct_kind = Withdraw, ct_status = Pending, ct_userId = Some userId, ct_wallet = wallet,
     ct_amountLamports = amount, ct_txSignature = None, ct_slot = None, ct_lastValidBlockHeight = None, ct_attempts = 0,
     ct_heldReason = None, ct_error = None, ct_settledAt = None, ct_createdAt = now\<rparr>"

definition withdraw_tx ::
  "custody_cfg \<Rightarrow> int \<Rightarrow> (transfer_view \<Rightarrow> string) \<Rightarrow> nat \<Rightarrow> int \<Rightarrow> string option \<Rightarrow> string option \<Rightarrow> db
     \<Rightarrow> (withdraw_reply \<times> db) result" where
  "withdraw_tx cfg now json userId amount wallet key d =
     bindE (claimIdempotency userId ''custody-withdraw'' key d) (\<lambda>(replay, d0). case replay of
        Some stored \<Rightarrow> Inr (Replayed_view stored, d0)
      | None \<Rightarrow> (case map_of (users d0) userId of
          None \<Rightarrow> Inl (Internal ''P2025'')
        | Some u \<Rightarrow>
          if fundedAt u = None then Inl (Forbidden ''Only deposited funds can be withdrawn: deposit first'')
          else let w = (case wallet of None \<Rightarrow> walletAddress u | Some w \<Rightarrow> w) in
          if w \<notin> set (own_wallets userId u d0) then Inl (BadRequest ''Withdrawals go only to a wallet linked to your account'')
          else
          let mine = filter (\<lambda>t. ct_userId t = Some userId \<and> ct_kind t = Withdraw) (map snd (custodyTransfers d0));
              inFlight = length (filter (\<lambda>t. ct_status t \<in> {Pending, Sent}) mine);
              today = sum_list (map ct_amountLamports (filter (\<lambda>t. ct_status t \<in> {Pending, Sent, Confirmed}
                        \<and> startOfUtcDay now \<le> ct_createdAt t) mine)) in
          if inFlight > 0 then Inl (Conflict ''A withdrawal is already in progress'')
          else if today + amount > dailyWithdrawLamports cfg then Inl (Forbidden ''Daily withdrawal limit reached'')
          else
          let row = new_withdrawal userId w amount now;
              (i, rows) = insert_row row (custodyTransfers d0) in
          bindE (applyBalanceDelta userId (- amount) (custody_meta ''custody_withdraw'' i) (d0\<lparr>custodyTransfers := rows\<rparr>)) (\<lambda>(_, d1).
          let out = transferView i row in
          bindE (storeIdempotency userId ''custody-withdraw'' key (json out) d1) (\<lambda>d2.
            Inr (Fresh_view out, d2)))))"

definition request_withdrawal ::
  "custody_cfg \<Rightarrow> bool \<Rightarrow> bool \<Rightarrow> int \<Rightarrow> (transfer_view \<Rightarrow> string) \<Rightarrow> nat \<Rightarrow> int \<Rightarrow> string option \<Rightarrow> string option \<Rightarrow> db
     \<Rightarrow> (withdraw_reply \<times> db) result" where
  "request_withdrawal cfg active is_paused now json userId amount wallet key d =
     (if \<not> active then Inl (ServiceUnavailable ''Wallet deposits are offline'')
      else if amount < minWithdrawLamports cfg then Inl (BadRequest ''The minimum withdrawal'')
      else if amount > maxWithdrawLamports cfg then Inl (BadRequest ''The maximum withdrawal'')
      else if is_paused then Inl (ServiceUnavailable ''Withdrawals are paused for maintenance'')
      else withdraw_tx cfg now json userId amount wallet key d)"

subsection \<open>send\<close>

datatype send_action = Refund_unsent | Send_wait | Send_sign

text \<open>\<open>hot\<close> is the balance of the hot wallet, read only when the earlier checks pass.\<close>

definition send_decide :: "custody_cfg \<Rightarrow> bool \<Rightarrow> bool \<Rightarrow> int \<Rightarrow> custody_transfer \<Rightarrow> send_action result" where
  "send_decide cfg is_paused active hot row =
     (if ct_attempts row \<ge> withdrawMaxAttempts cfg then Inr Refund_unsent
      else if is_paused then Inr Send_wait
      else if \<not> active then Inl (ServiceUnavailable ''Wallet deposits are offline'')
      else if hot < ct_amountLamports row + feeReserveLamports cfg then Inr Send_wait
      else Inr Send_sign)"

text \<open>The signature is stored, guarded by the status and the attempt count of the row that was read.\<close>

definition send_cas :: "nat \<Rightarrow> custody_transfer \<Rightarrow> string \<Rightarrow> int \<Rightarrow> db \<Rightarrow> nat \<times> db" where
  "send_cas i row signature expiry d =
     cas_transfer i (\<lambda>r. ct_status r = Pending \<and> ct_attempts r = ct_attempts row)
       (\<lambda>r. r\<lparr>ct_status := Sent, ct_txSignature := Some signature, ct_lastValidBlockHeight := Some expiry,
              ct_attempts := ct_attempts row + 1, ct_error := None\<rparr>) d"

subsection \<open>check\<close>

record signature_state =
  ss_found :: bool
  ss_failed :: bool
  ss_settled :: bool
  ss_slot :: "int option"

datatype check_action = Check_wait | Check_confirm "int option" | Check_refund string | Check_retry string

definition check_decide :: "custody_cfg \<Rightarrow> int \<Rightarrow> signature_state \<Rightarrow> custody_transfer \<Rightarrow> check_action result" where
  "check_decide cfg finalized state row =
     (case ct_txSignature row of
        None \<Rightarrow> Inl (Internal ''no signature'')
      | Some signature \<Rightarrow>
        if ss_found state \<and> \<not> ss_settled state then Inr Check_wait
        else if ss_found state \<and> \<not> ss_failed state then Inr (Check_confirm (ss_slot state))
        else bindE
          (if ss_found state then Inr True
           else case ct_lastValidBlockHeight row of
             None \<Rightarrow> Inl (Internal ''no expiry height'')
           | Some expiry \<Rightarrow> Inr (\<not> finalized \<le> expiry + expiryMarginBlocks cfg)) (\<lambda>dead.
          if \<not> dead then Inr Check_wait
          else let why = (if ss_found state then ''failed on chain: '' @ signature else ''expired unseen: '' @ signature)
          in if ct_attempts row \<ge> withdrawMaxAttempts cfg then Inr (Check_refund why) else Inr (Check_retry why)))"

definition confirm_cas :: "nat \<Rightarrow> custody_transfer \<Rightarrow> int option \<Rightarrow> int \<Rightarrow> db \<Rightarrow> nat \<times> db" where
  "confirm_cas i row slot now d =
     cas_transfer i (\<lambda>r. ct_status r = Sent \<and> ct_txSignature r = ct_txSignature row)
       (\<lambda>r. r\<lparr>ct_status := Confirmed, ct_slot := slot, ct_settledAt := Some now\<rparr>) d"

definition retry_cas :: "nat \<Rightarrow> custody_transfer \<Rightarrow> string \<Rightarrow> db \<Rightarrow> nat \<times> db" where
  "retry_cas i row why d =
     cas_transfer i (\<lambda>r. ct_status r = Sent \<and> ct_txSignature r = ct_txSignature row)
       (\<lambda>r. r\<lparr>ct_status := Pending, ct_txSignature := None, ct_lastValidBlockHeight := None, ct_error := Some why\<rparr>) d"

subsection \<open>refund\<close>

definition refund_cas :: "nat \<Rightarrow> custody_transfer \<Rightarrow> string \<Rightarrow> int \<Rightarrow> db \<Rightarrow> nat \<times> db" where
  "refund_cas i row why now d =
     cas_transfer i (\<lambda>r. ct_status r = ct_status row \<and> ct_txSignature r = ct_txSignature row)
       (\<lambda>r. r\<lparr>ct_status := Failed, ct_error := Some why, ct_settledAt := Some now\<rparr>) d"

definition refund_withdrawal :: "nat \<Rightarrow> custody_transfer \<Rightarrow> string \<Rightarrow> int \<Rightarrow> db \<Rightarrow> (custody_transfer \<times> db) result" where
  "refund_withdrawal i row why now d =
     (let (matched, d1) = refund_cas i row why now d in
      bindE (if matched = 1
             then (case ct_userId row of
                 None \<Rightarrow> Inl (Internal ''no user'')
               | Some uid \<Rightarrow> bindE (applyBalanceDelta uid (ct_amountLamports row) (custody_meta ''custody_withdraw_refund'' i) d1)
                   (\<lambda>(_, d2). Inr d2))
             else Inr d1) (\<lambda>d2.
      bindE (findTransfer i d2) (\<lambda>r. Inr (r, d2))))"

subsection \<open>step, drive and resumeAll\<close>

text \<open>
  One call of \<open>step\<close> without interference: \<open>reads\<close> answers the chain and maintenance reads and \<open>sign\<close> is
  \<open>signTransfer\<close>. The broadcast signature, if any, is part of the outcome.
\<close>

record chain_reads =
  rd_paused :: bool
  rd_active :: bool
  rd_hot :: int
  rd_finalized :: int
  rd_state :: "string \<Rightarrow> signature_state"
  rd_sign :: "nat \<Rightarrow> string \<Rightarrow> int \<Rightarrow> string \<times> int"
  rd_now :: int

definition send_withdrawal ::
  "custody_cfg \<Rightarrow> chain_reads \<Rightarrow> nat \<Rightarrow> custody_transfer \<Rightarrow> db \<Rightarrow> (custody_transfer \<times> string option) result \<times> db" where
  "send_withdrawal cfg rd i row d =
     (case send_decide cfg (rd_paused rd) (rd_active rd) (rd_hot rd) row of
        Inl e \<Rightarrow> (Inl e, d)
      | Inr Refund_unsent \<Rightarrow> (case refund_withdrawal i row ''no signature landed'' (rd_now rd) d of
            Inl e \<Rightarrow> (Inl e, d) | Inr (r, d1) \<Rightarrow> (Inr (r, None), d1))
      | Inr Send_wait \<Rightarrow> (Inr (row, None), d)
      | Inr Send_sign \<Rightarrow>
          let (signature, expiry) = rd_sign rd i (ct_wallet row) (ct_amountLamports row);
              (matched, d1) = send_cas i row signature expiry d
          in (bindE (findTransfer i d1) (\<lambda>r. Inr (r, if matched = 0 then None else Some signature)), d1))"

definition check_withdrawal ::
  "custody_cfg \<Rightarrow> chain_reads \<Rightarrow> nat \<Rightarrow> custody_transfer \<Rightarrow> db \<Rightarrow> custody_transfer result \<times> db" where
  "check_withdrawal cfg rd i row d =
     (case bindE (case ct_txSignature row of None \<Rightarrow> Inl (Internal ''no signature'') | Some s \<Rightarrow> Inr (rd_state rd s))
             (\<lambda>state. check_decide cfg (rd_finalized rd) state row) of
        Inl e \<Rightarrow> (Inl e, d)
      | Inr Check_wait \<Rightarrow> (Inr row, d)
      | Inr (Check_confirm slot) \<Rightarrow> (let d1 = snd (confirm_cas i row slot (rd_now rd) d) in (findTransfer i d1, d1))
      | Inr (Check_refund why) \<Rightarrow> (case refund_withdrawal i row why (rd_now rd) d of
            Inl e \<Rightarrow> (Inl e, d) | Inr (r, d1) \<Rightarrow> (Inr r, d1))
      | Inr (Check_retry why) \<Rightarrow> (let d1 = snd (retry_cas i row why d) in (findTransfer i d1, d1)))"

definition step_withdrawal ::
  "custody_cfg \<Rightarrow> chain_reads \<Rightarrow> nat \<Rightarrow> db \<Rightarrow> (custody_transfer \<times> string option) result \<times> db" where
  "step_withdrawal cfg rd i d =
     (case findTransfer i d of
        Inl e \<Rightarrow> (Inl e, d)
      | Inr row \<Rightarrow>
          if ct_kind row \<noteq> Withdraw then (Inr (row, None), d)
          else if ct_status row = Pending then send_withdrawal cfg rd i row d
          else if ct_status row = Sent
               then (let (out, d1) = check_withdrawal cfg rd i row d in (bindE out (\<lambda>r. Inr (r, None)), d1))
          else (Inr (row, None), d))"

text \<open>\<open>drive\<close> polls until the row settles; the list of reads is what the clock and the stop flag leave of the window.\<close>

fun drive :: "custody_cfg \<Rightarrow> chain_reads list \<Rightarrow> nat \<Rightarrow> db \<Rightarrow> (custody_transfer \<times> string option) result \<times> db" where
  "drive cfg [] i d = (bindE (findTransfer i d) (\<lambda>r. Inr (r, None)), d)"
| "drive cfg (rd # rds) i d =
     (case step_withdrawal cfg rd i d of
        (Inl e, d1) \<Rightarrow> (Inl e, d1)
      | (Inr (row, sig), d1) \<Rightarrow>
          if rds \<noteq> [] \<and> (ct_status row = Pending \<or> ct_status row = Sent) then drive cfg rds i d1 else (Inr (row, sig), d1))"

definition unfinished :: "db \<Rightarrow> nat list" where
  "unfinished d = map fst (filter (\<lambda>(_, t). ct_kind t = Withdraw \<and> ct_status t \<in> {Pending, Sent}) (custodyTransfers d))"

definition resumeAll :: "custody_cfg \<Rightarrow> bool \<Rightarrow> (nat \<Rightarrow> chain_reads) \<Rightarrow> db \<Rightarrow> db" where
  "resumeAll cfg active rd d =
     (if \<not> active then d else fold (\<lambda>i d. snd (step_withdrawal cfg (rd i) i d)) (unfinished d) d)"

end
