(* ===== verification/Custody_Chain.thy ===== *)
theory Custody_Chain
  imports Custody
begin

text \<open>
  Withdrawals running against the chain. Any number of processes drive the withdrawals (request handlers, the
  job, a restarted server), and each waits between reading a row, reading the chain, signing and writing. A
  state keeps the database, the chain, and the set of \<open>intents\<close>: what some process has read or signed and
  may still act on, at any later time, more than once, or never. The chain is the documented behaviour of
  Solana, as rules of the relation: a signature stands for one transaction, a broadcast transaction can land
  only up to the expiry height of its blockhash and at most once, a landed one can be dropped by a fork until it
  is settled, and heights only grow.
\<close>

subsection \<open>The chain and its transactions\<close>

record signed_tx =
  sx_row :: nat
  sx_wallet :: string
  sx_amount :: int
  sx_expiry :: int

record chain =
  signed :: "string \<Rightarrow> signed_tx option"
  released :: "string set"
  landed :: "string \<Rightarrow> (bool \<times> bool) option"
  height :: int

text \<open>A landed signature has whether it failed and whether it is settled.\<close>

definition state_of :: "chain \<Rightarrow> int option \<Rightarrow> string \<Rightarrow> signature_state" where
  "state_of c slot s = (case landed c s of
      None \<Rightarrow> \<lparr>ss_found = False, ss_failed = False, ss_settled = False, ss_slot = None\<rparr>
    | Some (f, st) \<Rightarrow> \<lparr>ss_found = True, ss_failed = f, ss_settled = st, ss_slot = slot\<rparr>)"

definition paid :: "chain \<Rightarrow> string \<Rightarrow> bool" where
  "paid c s \<longleftrightarrow> (\<exists>st. landed c s = Some (False, st))"

text \<open>A dead signature failed for good or expired unseen: no value moved and none ever will.\<close>

definition dead :: "chain \<Rightarrow> string \<Rightarrow> bool" where
  "dead c s \<longleftrightarrow> landed c s = Some (True, True)
     \<or> landed c s = None \<and> (\<forall>x. signed c s = Some x \<longrightarrow> sx_expiry x < height c)"

datatype intent =
    Store_signature nat custody_transfer string int
  | Look_after nat custody_transfer int
  | Act nat custody_transfer check_action

record custody_sys =
  cdb :: db
  cchain :: chain
  intents :: "intent set"

definition custody_row :: "ledger_row \<Rightarrow> bool" where
  "custody_row r \<longleftrightarrow> l_refType r = ''CustodyTransfer'' \<and> l_reason r \<in> {''custody_withdraw'', ''custody_withdraw_refund''}"

definition tx_of :: "nat \<Rightarrow> custody_transfer \<Rightarrow> int \<Rightarrow> signed_tx" where
  "tx_of i row expiry = \<lparr>sx_row = i, sx_wallet = ct_wallet row, sx_amount = ct_amountLamports row, sx_expiry = expiry\<rparr>"

text \<open>The withdrawals of the table; deposits live in it too and are none of these processes' business.\<close>

definition withdrawals :: "db \<Rightarrow> nat \<Rightarrow> custody_transfer option" where
  "withdrawals d i = (case map_of (custodyTransfers d) i of
      None \<Rightarrow> None | Some r \<Rightarrow> if ct_kind r = Withdraw then Some r else None)"

text \<open>One step of a process of the service, of any other writer of the database, or of the chain.\<close>

inductive custody_step :: "custody_cfg \<Rightarrow> custody_sys \<Rightarrow> custody_sys \<Rightarrow> bool" for cfg where
  Request: "request_withdrawal cfg active is_paused now json uid amount wallet key (cdb s) = Inr (r, d') \<Longrightarrow>
     custody_step cfg s (s\<lparr>cdb := d'\<rparr>)"
| Sign: "withdrawals (cdb s) i = Some row \<Longrightarrow> ct_status row = Pending \<Longrightarrow>
     send_decide cfg is_paused active hot row = Inr Send_sign \<Longrightarrow>
     signed (cchain s) sig = None \<or> signed (cchain s) sig = Some (tx_of i row expiry) \<Longrightarrow>
     custody_step cfg s (s\<lparr>cchain := (cchain s)\<lparr>signed := (signed (cchain s))(sig \<mapsto> tx_of i row expiry)\<rparr>,
       intents := insert (Store_signature i row sig expiry) (intents s)\<rparr>)"
| Store: "Store_signature i row sig expiry \<in> intents s \<Longrightarrow> send_cas i row sig expiry (cdb s) = (n, d') \<Longrightarrow>
     custody_step cfg s (s\<lparr>cdb := d', cchain := (if n = 0 then cchain s
       else (cchain s)\<lparr>released := insert sig (released (cchain s))\<rparr>)\<rparr>)"
| Give_up: "withdrawals (cdb s) i = Some row \<Longrightarrow> ct_status row = Pending \<Longrightarrow>
     send_decide cfg is_paused active hot row = Inr Refund_unsent \<Longrightarrow>
     custody_step cfg s (s\<lparr>intents := insert (Act i row (Check_refund ''no signature landed'')) (intents s)\<rparr>)"
| Read_height: "withdrawals (cdb s) i = Some row \<Longrightarrow> ct_status row = Sent \<Longrightarrow>
     custody_step cfg s (s\<lparr>intents := insert (Look_after i row (height (cchain s))) (intents s)\<rparr>)"
| Look: "Look_after i row finalized \<in> intents s \<Longrightarrow> ct_txSignature row = Some sig \<Longrightarrow>
     check_decide cfg finalized (state_of (cchain s) slot sig) row = Inr act \<Longrightarrow>
     custody_step cfg s (s\<lparr>intents := insert (Act i row act) (intents s)\<rparr>)"
| Confirm: "Act i row (Check_confirm slot) \<in> intents s \<Longrightarrow>
     custody_step cfg s (s\<lparr>cdb := snd (confirm_cas i row slot now (cdb s))\<rparr>)"
| Retry: "Act i row (Check_retry why) \<in> intents s \<Longrightarrow>
     custody_step cfg s (s\<lparr>cdb := snd (retry_cas i row why (cdb s))\<rparr>)"
| Refund: "Act i row (Check_refund why) \<in> intents s \<Longrightarrow> refund_withdrawal i row why now (cdb s) = Inr (r, d') \<Longrightarrow>
     custody_step cfg s (s\<lparr>cdb := d'\<rparr>)"
| Elsewhere: "withdrawals d' = withdrawals (cdb s) \<Longrightarrow> ledger d' = ledger (cdb s) @ rs \<Longrightarrow>
     list_all (\<lambda>r. \<not> custody_row r) rs \<Longrightarrow> custody_step cfg s (s\<lparr>cdb := d'\<rparr>)"
| Land: "sig \<in> released (cchain s) \<Longrightarrow> landed (cchain s) sig = None \<Longrightarrow> signed (cchain s) sig = Some x \<Longrightarrow>
     height (cchain s) \<le> sx_expiry x \<Longrightarrow>
     custody_step cfg s (s\<lparr>cchain := (cchain s)\<lparr>landed := (landed (cchain s))(sig \<mapsto> (failed, False))\<rparr>\<rparr>)"
| Drop: "landed (cchain s) sig = Some (failed, False) \<Longrightarrow>
     custody_step cfg s (s\<lparr>cchain := (cchain s)\<lparr>landed := (landed (cchain s))(sig := None)\<rparr>\<rparr>)"
| Settle: "landed (cchain s) sig = Some (failed, False) \<Longrightarrow>
     custody_step cfg s (s\<lparr>cchain := (cchain s)\<lparr>landed := (landed (cchain s))(sig \<mapsto> (failed, True))\<rparr>\<rparr>)"
| Advance: "height (cchain s) \<le> h \<Longrightarrow> custody_step cfg s (s\<lparr>cchain := (cchain s)\<lparr>height := h\<rparr>\<rparr>)"

definition custody_init :: "custody_sys \<Rightarrow> bool" where
  "custody_init s \<longleftrightarrow> (\<forall>i. withdrawals (cdb s) i = None) \<and> list_all (\<lambda>r. \<not> custody_row r) (ledger (cdb s))
     \<and> intents s = {} \<and> (\<forall>sig. landed (cchain s) sig = None \<and> signed (cchain s) sig = None) \<and> released (cchain s) = {}"

inductive custody_reach :: "custody_cfg \<Rightarrow> custody_sys \<Rightarrow> bool" for cfg where
  Start: "custody_init s \<Longrightarrow> custody_reach cfg s"
| Step: "custody_reach cfg s \<Longrightarrow> custody_step cfg s s' \<Longrightarrow> custody_reach cfg s'"

inductive_cases custody_stepE: "custody_step cfg s s'"

subsection \<open>The invariant\<close>

definition same_core :: "custody_transfer \<Rightarrow> custody_transfer \<Rightarrow> bool" where
  "same_core r r' \<longleftrightarrow> ct_kind r' = ct_kind r \<and> ct_wallet r' = ct_wallet r \<and> ct_amountLamports r' = ct_amountLamports r
     \<and> ct_userId r' = ct_userId r"

definition current :: "custody_transfer \<Rightarrow> string \<Rightarrow> bool" where
  "current r s \<longleftrightarrow> ct_status r \<in> {Sent, Confirmed} \<and> ct_txSignature r = Some s"

text \<open>A row whose signature is stored has the expiry of the transaction it signed.\<close>

definition carries :: "chain \<Rightarrow> nat \<Rightarrow> custody_transfer \<Rightarrow> string \<Rightarrow> bool" where
  "carries c i r s \<longleftrightarrow> ct_txSignature r = Some s \<and> (\<exists>h. ct_lastValidBlockHeight r = Some h \<and> signed c s = Some (tx_of i r h))"

definition row_ok :: "chain \<Rightarrow> nat \<Rightarrow> custody_transfer \<Rightarrow> bool" where
  "row_ok c i r \<longleftrightarrow> (case ct_status r of
      Pending \<Rightarrow> ct_txSignature r = None
    | Sent \<Rightarrow> (\<exists>s. carries c i r s)
    | Confirmed \<Rightarrow> (\<exists>s. carries c i r s \<and> landed c s = Some (False, True))
    | Failed \<Rightarrow> True
    | _ \<Rightarrow> False)"

fun intent_row :: "intent \<Rightarrow> nat \<times> custody_transfer" where
  "intent_row (Store_signature i row s h) = (i, row)"
| "intent_row (Look_after i row h) = (i, row)"
| "intent_row (Act i row a) = (i, row)"

fun intent_ok :: "chain \<Rightarrow> intent \<Rightarrow> bool" where
  "intent_ok c (Store_signature i row s h) = (ct_status row = Pending \<and> signed c s = Some (tx_of i row h))"
| "intent_ok c (Look_after i row h) = (ct_status row = Sent \<and> h \<le> height c \<and> (\<exists>s. carries c i row s))"
| "intent_ok c (Act i row (Check_confirm slot)) =
     (ct_status row = Sent \<and> (\<exists>s. carries c i row s \<and> landed c s = Some (False, True)))"
| "intent_ok c (Act i row (Check_retry why)) = (ct_status row = Sent \<and> (\<exists>s. carries c i row s \<and> dead c s))"
| "intent_ok c (Act i row (Check_refund why)) =
     (ct_status row = Pending \<and> ct_txSignature row = None \<or> ct_status row = Sent \<and> (\<exists>s. carries c i row s \<and> dead c s))"
| "intent_ok c (Act i row Check_wait) = True"

definition withdrawal_net :: "nat \<Rightarrow> nat \<Rightarrow> db \<Rightarrow> int" where
  "withdrawal_net uid i d =
     sum_list (map l_delta (filter (\<lambda>r. custody_row r \<and> l_refId r = Some i \<and> l_userId r = uid) (ledger d)))"

definition rows_ok :: "(nat \<Rightarrow> custody_transfer option) \<Rightarrow> chain \<Rightarrow> bool" where
  "rows_ok T c \<longleftrightarrow> (\<forall>i r. T i = Some r \<longrightarrow> row_ok c i r)"

definition signed_ok :: "(nat \<Rightarrow> custody_transfer option) \<Rightarrow> chain \<Rightarrow> bool" where
  "signed_ok T c \<longleftrightarrow> (\<forall>sig x. signed c sig = Some x \<longrightarrow>
     (\<exists>r. T (sx_row x) = Some r \<and> sx_wallet x = ct_wallet r \<and> sx_amount x = ct_amountLamports r))"

definition released_ok :: "(nat \<Rightarrow> custody_transfer option) \<Rightarrow> chain \<Rightarrow> bool" where
  "released_ok T c \<longleftrightarrow> (\<forall>sig \<in> released c. \<exists>x r. signed c sig = Some x \<and> T (sx_row x) = Some r \<and> (dead c sig \<or> current r sig))
     \<and> (\<forall>sig. landed c sig \<noteq> None \<longrightarrow> sig \<in> released c)"

definition intents_ok :: "(nat \<Rightarrow> custody_transfer option) \<Rightarrow> chain \<Rightarrow> intent set \<Rightarrow> bool" where
  "intents_ok T c its \<longleftrightarrow> (\<forall>it \<in> its. intent_ok c it
     \<and> (\<exists>r. T (fst (intent_row it)) = Some r \<and> same_core r (snd (intent_row it))))"

definition money_ok :: "(nat \<Rightarrow> custody_transfer option) \<Rightarrow> db \<Rightarrow> bool" where
  "money_ok T d \<longleftrightarrow> (\<forall>i uid. withdrawal_net uid i d = (case T i of
        None \<Rightarrow> 0
      | Some r \<Rightarrow> if ct_userId r = Some uid \<and> ct_status r \<noteq> Failed then - ct_amountLamports r else 0))"

definition custody_inv :: "custody_sys \<Rightarrow> bool" where
  "custody_inv s \<longleftrightarrow> (let T = withdrawals (cdb s); c = cchain s in
     rows_ok T c \<and> signed_ok T c \<and> released_ok T c \<and> intents_ok T c (intents s) \<and> money_ok T (cdb s))"

lemma custody_invI:
  assumes "rows_ok (withdrawals (cdb s)) (cchain s)" and "signed_ok (withdrawals (cdb s)) (cchain s)"
    and "released_ok (withdrawals (cdb s)) (cchain s)" and "intents_ok (withdrawals (cdb s)) (cchain s) (intents s)"
    and "money_ok (withdrawals (cdb s)) (cdb s)"
  shows "custody_inv s"
  using assms by (simp add: custody_inv_def Let_def)

lemma custody_invD:
  assumes "custody_inv s"
  shows "rows_ok (withdrawals (cdb s)) (cchain s)" "signed_ok (withdrawals (cdb s)) (cchain s)"
    "released_ok (withdrawals (cdb s)) (cchain s)" "intents_ok (withdrawals (cdb s)) (cchain s) (intents s)"
    "money_ok (withdrawals (cdb s)) (cdb s)"
  using assms by (simp_all add: custody_inv_def Let_def)

subsection \<open>What the writes do\<close>

lemma same_core_refl [simp]: "same_core r r"
  by (simp add: same_core_def)

lemma withdrawals_put [simp]:
  "withdrawals (put_transfer i r d) = (withdrawals d)(i := (if ct_kind r = Withdraw then Some r else None))"
  by (auto simp: withdrawals_def put_transfer_def)

lemma put_transfer_frame [simp]: "ledger (put_transfer i r d) = ledger d" "users (put_transfer i r d) = users d"
  by (simp_all add: put_transfer_def)

lemma withdrawals_Some: "withdrawals d i = Some r \<longleftrightarrow> map_of (custodyTransfers d) i = Some r \<and> ct_kind r = Withdraw"
  by (auto simp: withdrawals_def split: option.splits if_splits)

lemma cas_withdrawal:
  assumes "cas_transfer i p f d = (n, d')" and "withdrawals d i = Some r" and "ct_kind (f r) = Withdraw"
  shows "n = (if p r then 1 else 0)" and "d' = (if p r then put_transfer i (f r) d else d)"
    and "withdrawals d' = (if p r then (withdrawals d)(i \<mapsto> f r) else withdrawals d)" and "ledger d' = ledger d"
  using assms by (auto simp: cas_transfer_def withdrawals_Some split: if_splits)

lemma net_append: "withdrawal_net uid i (d\<lparr>ledger := ledger d @ rs\<rparr>) = withdrawal_net uid i d
    + sum_list (map l_delta (filter (\<lambda>r. custody_row r \<and> l_refId r = Some i \<and> l_userId r = uid) rs))"
  by (simp add: withdrawal_net_def)

lemma net_cong: "ledger d' = ledger d \<Longrightarrow> withdrawal_net uid i d' = withdrawal_net uid i d"
  by (simp add: withdrawal_net_def)

lemma delta_net:
  assumes "applyBalanceDelta uid x (custody_meta why i) d = Inr (b, d')" and "why \<in> {''custody_withdraw'', ''custody_withdraw_refund''}"
  shows "withdrawal_net v j d' = withdrawal_net v j d + (if v = uid \<and> j = i then x else 0)"
  using assms by (auto simp: applyBalanceDelta_Inr withdrawal_net_def custody_meta_def custody_row_def)

lemma request_cases:
  assumes "request_withdrawal cfg active p now json uid a w key d = Inr (r, d')"
  obtains (replayed) "withdrawals d' = withdrawals d" and "ledger d' = ledger d"
  | (fresh) i row where "withdrawals d i = None" and "withdrawals d' = (withdrawals d)(i \<mapsto> row)"
      and "row = new_withdrawal uid (ct_wallet row) a now"
      and "\<And>v j. withdrawal_net v j d' = withdrawal_net v j d + (if v = uid \<and> j = i then - a else 0)"
proof -
  have tx: "withdraw_tx cfg now json uid a w key d = Inr (r, d')"
    using assms by (auto simp: request_withdrawal_def split: if_splits)
  obtain replay d0 where c: "claimIdempotency uid ''custody-withdraw'' key d = Inr (replay, d0)"
    using tx by (auto simp: withdraw_tx_def)
  have c0: "custodyTransfers d0 = custodyTransfers d" "ledger d0 = ledger d"
    using c by (auto simp: claimIdempotency_def split: if_splits option.splits)
  show thesis
  proof (cases replay)
    case (Some x)
    then show thesis using tx c c0 by (intro replayed) (auto simp: withdraw_tx_def withdrawals_def fun_eq_iff)
  next
    case None
    let ?i = "fresh_key (custodyTransfers d)"
    obtain wal b d1 out where 1: "applyBalanceDelta uid (- a) (custody_meta ''custody_withdraw'' ?i)
          (d0\<lparr>custodyTransfers := custodyTransfers d @ [(?i, new_withdrawal uid wal a now)]\<rparr>) = Inr (b, d1)"
      and 2: "storeIdempotency uid ''custody-withdraw'' key out d1 = Inr d'"
      using tx c None unfolding withdraw_tx_def by (auto simp: Let_def insert_row_def c0 split: option.splits if_splits)
    have d': "custodyTransfers d' = custodyTransfers d1" "ledger d' = ledger d1"
      using 2 by (auto simp: storeIdempotency_def split: if_splits option.splits)
    have t: "custodyTransfers d1 = custodyTransfers d @ [(?i, new_withdrawal uid wal a now)]"
      using applyBalanceDelta_frame[OF 1] by simp
    show thesis
    proof (rule fresh[of ?i "new_withdrawal uid wal a now"])
      show "withdrawals d ?i = None" by (simp add: withdrawals_def)
      show "withdrawals d' = (withdrawals d)(?i \<mapsto> new_withdrawal uid wal a now)"
        unfolding withdrawals_def d' t map_of_snoc_fresh by (rule ext) (simp add: new_withdrawal_def)
      show "new_withdrawal uid wal a now = new_withdrawal uid (ct_wallet (new_withdrawal uid wal a now)) a now"
        by (simp add: new_withdrawal_def)
      show "withdrawal_net v j d' = withdrawal_net v j d + (if v = uid \<and> j = ?i then - a else 0)" for v j
        using delta_net[OF 1, of v j] net_cong[OF d'(2)] net_cong[of "d0\<lparr>custodyTransfers := _\<rparr>" d] c0 by simp
    qed
  qed
qed


lemma refund_cases:
  assumes "refund_withdrawal i row why now d = Inr (r, d')" and "withdrawals d i = Some cur" and "same_core cur row"
  obtains (lost) "withdrawals d' = withdrawals d" and "ledger d' = ledger d"
  | (refunded) uid where "ct_status cur = ct_status row" and "ct_txSignature cur = ct_txSignature row" and "ct_userId cur = Some uid"
      and "withdrawals d' = (withdrawals d)(i \<mapsto> cur\<lparr>ct_status := Failed, ct_error := Some why, ct_settledAt := Some now\<rparr>)"
      and "\<And>v j. withdrawal_net v j d' = withdrawal_net v j d + (if v = uid \<and> j = i then ct_amountLamports cur else 0)"
proof -
  obtain n d1 where c: "refund_cas i row why now d = (n, d1)" by force
  have kind: "ct_kind cur = Withdraw" using assms(2) by (simp add: withdrawals_Some)
  note cas = cas_withdrawal[OF c[unfolded refund_cas_def] assms(2)]
  show thesis
  proof (cases "ct_status cur = ct_status row \<and> ct_txSignature cur = ct_txSignature row")
    case True
    then obtain uid b d2 where u: "ct_userId row = Some uid"
      and 1: "applyBalanceDelta uid (ct_amountLamports row) (custody_meta ''custody_withdraw_refund'' i) d1 = Inr (b, d2)" and 2: "d' = d2"
      using assms(1) c cas(1) kind by (auto simp: refund_withdrawal_def split: option.splits)
    have w: "withdrawals d' = withdrawals d1" using applyBalanceDelta_frame[OF 1] by (simp add: 2 withdrawals_def fun_eq_iff)
    have core: "ct_userId cur = Some uid" "ct_amountLamports row = ct_amountLamports cur"
      using assms(3) u by (simp_all add: same_core_def)
    show thesis
    proof (rule refunded[of uid])
      show "withdrawals d' = (withdrawals d)(i \<mapsto> cur\<lparr>ct_status := Failed, ct_error := Some why, ct_settledAt := Some now\<rparr>)"
        using cas(3) True kind w by simp
      show "withdrawal_net v j d' = withdrawal_net v j d + (if v = uid \<and> j = i then ct_amountLamports cur else 0)" for v j
        using delta_net[OF 1, of v j] net_cong[of d1 d] cas(4) kind by (simp add: 2 core)
    qed (use True core in auto)
  next
    case False
    then have "n = 0" "d1 = d" using cas(1,2) kind by auto
    then have "d' = d" using assms(1) c by (auto simp: refund_withdrawal_def)
    then show thesis by (intro lost) simp_all
  qed
qed

subsection \<open>Steps of the chain\<close>

lemma row_ok_mono:
  assumes "row_ok c i r" and "\<And>s x. signed c s = Some x \<Longrightarrow> signed c' s = Some x"
    and "\<And>s. landed c s = Some (False, True) \<Longrightarrow> landed c' s = Some (False, True)"
  shows "row_ok c' i r"
  using assms by (fastforce simp: row_ok_def carries_def split: custody_status.splits)

lemma intent_ok_mono:
  assumes "intent_ok c it" and "\<And>s x. signed c s = Some x \<Longrightarrow> signed c' s = Some x"
    and "\<And>s. landed c s = Some (False, True) \<Longrightarrow> landed c' s = Some (False, True)"
    and "\<And>s. signed c s \<noteq> None \<Longrightarrow> dead c s \<Longrightarrow> dead c' s" and "height c \<le> height c'"
  shows "intent_ok c' it"
proof (cases it)
  case (Act i row a)
  then show ?thesis using assms by (cases a) (fastforce simp: carries_def)+
qed (use assms in \<open>fastforce simp: carries_def\<close>)+

lemma chain_step_inv:
  assumes "custody_inv s" and "s' = s\<lparr>cchain := c'\<rparr>"
    and "signed c' = signed (cchain s)" and "released c' = released (cchain s)"
    and "\<And>sig. landed (cchain s) sig = Some (False, True) \<Longrightarrow> landed c' sig = Some (False, True)"
    and "\<And>sig. signed (cchain s) sig \<noteq> None \<Longrightarrow> dead (cchain s) sig \<Longrightarrow> dead c' sig"
    and "height (cchain s) \<le> height c'" and "\<And>sig. landed c' sig \<noteq> None \<Longrightarrow> sig \<in> released c'"
  shows "custody_inv s'"
proof (rule custody_invI)
  note inv = custody_invD[OF assms(1)]
  show "rows_ok (withdrawals (cdb s')) (cchain s')" using inv(1) row_ok_mono[of "cchain s" _ _ c'] assms(3,5) by (simp add: rows_ok_def assms(2))
  show "signed_ok (withdrawals (cdb s')) (cchain s')" using inv(2) by (simp add: signed_ok_def assms(2,3))
  show "released_ok (withdrawals (cdb s')) (cchain s')"
    using inv(3) assms(6,8) by (fastforce simp: released_ok_def assms(2-4))
  show "intents_ok (withdrawals (cdb s')) (cchain s') (intents s')"
    using inv(4) intent_ok_mono[of "cchain s" _ c'] assms(3,5-7) by (simp add: intents_ok_def assms(2))
  show "money_ok (withdrawals (cdb s')) (cdb s')" using inv(5) by (simp add: assms(2))
qed

lemma land_inv:
  assumes "custody_inv s" and "sig \<in> released (cchain s)" and "landed (cchain s) sig = None" and "signed (cchain s) sig = Some x"
    and "height (cchain s) \<le> sx_expiry x"
  shows "custody_inv (s\<lparr>cchain := (cchain s)\<lparr>landed := (landed (cchain s))(sig \<mapsto> (failed, False))\<rparr>\<rparr>)"
  by (rule chain_step_inv[OF assms(1) refl])
    (use assms custody_invD(3)[OF assms(1)] in \<open>auto simp: dead_def released_ok_def split: if_splits\<close>)

lemma drop_inv:
  assumes "custody_inv s" and "landed (cchain s) sig = Some (failed, False)"
  shows "custody_inv (s\<lparr>cchain := (cchain s)\<lparr>landed := (landed (cchain s))(sig := None)\<rparr>\<rparr>)"
  by (rule chain_step_inv[OF assms(1) refl])
    (use assms custody_invD(3)[OF assms(1)] in \<open>auto simp: dead_def released_ok_def split: if_splits\<close>)

lemma settle_inv:
  assumes "custody_inv s" and "landed (cchain s) sig = Some (failed, False)"
  shows "custody_inv (s\<lparr>cchain := (cchain s)\<lparr>landed := (landed (cchain s))(sig \<mapsto> (failed, True))\<rparr>\<rparr>)"
proof -
  have "landed (cchain s) sg \<noteq> None \<Longrightarrow> sg \<in> released (cchain s)" for sg
    using custody_invD(3)[OF assms(1)] by (simp add: released_ok_def)
  from this[of sig] this show ?thesis
    by (intro chain_step_inv[OF assms(1) refl]) (use assms in \<open>auto simp: dead_def split: if_splits\<close>)
qed

lemma advance_inv:
  assumes "custody_inv s" and "height (cchain s) \<le> h"
  shows "custody_inv (s\<lparr>cchain := (cchain s)\<lparr>height := h\<rparr>\<rparr>)"
  by (rule chain_step_inv[OF assms(1) refl])
    (use assms custody_invD(3)[OF assms(1)] in \<open>auto simp: dead_def released_ok_def split: if_splits\<close>)


subsection \<open>Steps on a row\<close>

lemma released_frame:
  "dead (c\<lparr>released := R\<rparr>) = dead c" "carries (c\<lparr>released := R\<rparr>) = carries c"
  "row_ok (c\<lparr>released := R\<rparr>) = row_ok c" "intent_ok (c\<lparr>released := R\<rparr>) it = intent_ok c it"
proof -
  show 1: "dead (c\<lparr>released := R\<rparr>) = dead c" by (simp add: dead_def fun_eq_iff)
  show 2: "carries (c\<lparr>released := R\<rparr>) = carries c" by (simp add: carries_def fun_eq_iff)
  show "row_ok (c\<lparr>released := R\<rparr>) = row_ok c" unfolding row_ok_def 2
    by (intro ext) (auto split: custody_status.splits)
  show "intent_ok (c\<lparr>released := R\<rparr>) it = intent_ok c it"
    by (cases "(c, it)" rule: intent_ok.cases) (simp_all add: 1 2)
qed

lemma row_step_inv:
  assumes "custody_inv s" and "withdrawals (cdb s) i = Some r" and "withdrawals d' = (withdrawals (cdb s))(i \<mapsto> r')"
    and "same_core r r'" and "row_ok (cchain s) i r'" and "rel = released (cchain s) \<or> rel = insert sig (released (cchain s))"
    and "rel \<noteq> released (cchain s) \<Longrightarrow> \<exists>x. signed (cchain s) sig = Some x \<and> sx_row x = i"
    and "\<And>sg x. sg \<in> rel \<Longrightarrow> signed (cchain s) sg = Some x \<Longrightarrow> sx_row x = i \<Longrightarrow> dead (cchain s) sg \<or> current r' sg"
    and "\<And>v j. withdrawal_net v j d' = withdrawal_net v j (cdb s)
          + (if j = i \<and> ct_userId r = Some v \<and> ct_status r' = Failed \<and> ct_status r \<noteq> Failed then ct_amountLamports r else 0)"
    and "ct_status r = Failed \<Longrightarrow> ct_status r' = Failed"
  shows "custody_inv (s\<lparr>cdb := d', cchain := (cchain s)\<lparr>released := rel\<rparr>\<rparr>)"
proof (rule custody_invI)
  note inv = custody_invD[OF assms(1)]
  let ?c = "(cchain s)\<lparr>released := rel\<rparr>" and ?T = "(withdrawals (cdb s))(i \<mapsto> r')"
  note simps = released_frame
  have same: "ct_wallet r' = ct_wallet r" "ct_amountLamports r' = ct_amountLamports r" "ct_userId r' = ct_userId r" "ct_kind r' = ct_kind r"
    using assms(4) by (simp_all add: same_core_def)
  show "rows_ok (withdrawals (cdb (s\<lparr>cdb := d', cchain := ?c\<rparr>))) (cchain (s\<lparr>cdb := d', cchain := ?c\<rparr>))"
    using inv(1) assms(5) by (simp add: rows_ok_def simps assms(3))
  show "signed_ok (withdrawals (cdb (s\<lparr>cdb := d', cchain := ?c\<rparr>))) (cchain (s\<lparr>cdb := d', cchain := ?c\<rparr>))"
    using inv(2) assms(2) by (fastforce simp: signed_ok_def assms(3) same)
  show "intents_ok (withdrawals (cdb (s\<lparr>cdb := d', cchain := ?c\<rparr>))) (cchain (s\<lparr>cdb := d', cchain := ?c\<rparr>)) (intents (s\<lparr>cdb := d', cchain := ?c\<rparr>))"
    using inv(4) assms(2) by (fastforce simp: intents_ok_def simps assms(3) same same_core_def)
  show "money_ok (withdrawals (cdb (s\<lparr>cdb := d', cchain := ?c\<rparr>))) (cdb (s\<lparr>cdb := d', cchain := ?c\<rparr>))"
    using inv(5) assms(2,9,10) by (auto simp: money_ok_def assms(3) same)
  have "\<exists>x q. signed (cchain s) sg = Some x \<and> ?T (sx_row x) = Some q \<and> (dead (cchain s) sg \<or> current q sg)" if "sg \<in> rel" for sg
  proof -
    have "\<exists>x. signed (cchain s) sg = Some x \<and> (sx_row x = i \<or>
        (\<exists>q. withdrawals (cdb s) (sx_row x) = Some q \<and> (dead (cchain s) sg \<or> current q sg)))"
    proof (cases "sg \<in> released (cchain s)")
      case True
      then show ?thesis using inv(3) by (fastforce simp: released_ok_def)
    next
      case False
      then have "sg = sig" "rel \<noteq> released (cchain s)" using that assms(6) by auto
      then show ?thesis using assms(7) by blast
    qed
    then show ?thesis using assms(8)[OF that] by force
  qed
  moreover have "landed (cchain s) sg \<noteq> None \<longrightarrow> sg \<in> rel" for sg
    using inv(3) assms(6) by (auto simp: released_ok_def)
  ultimately show "released_ok (withdrawals (cdb (s\<lparr>cdb := d', cchain := ?c\<rparr>))) (cchain (s\<lparr>cdb := d', cchain := ?c\<rparr>))"
    by (simp add: released_ok_def simps assms(3))
qed

lemma quiet_step_inv:
  assumes "custody_inv s" and "withdrawals d' = withdrawals (cdb s)" and "\<And>v j. withdrawal_net v j d' = withdrawal_net v j (cdb s)"
  shows "custody_inv (s\<lparr>cdb := d'\<rparr>)"
  using custody_invD[OF assms(1)] by (intro custody_invI) (simp_all add: assms(2) money_ok_def assms(3))

lemma intent_step_inv:
  assumes "custody_inv s" and "intent_ok (cchain s) it" and "withdrawals (cdb s) (fst (intent_row it)) = Some r"
    and "same_core r (snd (intent_row it))"
  shows "custody_inv (s\<lparr>intents := insert it (intents s)\<rparr>)"
  using custody_invD[OF assms(1)] assms(2-4) by (intro custody_invI) (auto simp: intents_ok_def)

lemma released_row:
  assumes "custody_inv s" and "sg \<in> released (cchain s)" and "signed (cchain s) sg = Some x" and "withdrawals (cdb s) (sx_row x) = Some r"
  shows "dead (cchain s) sg \<or> current r sg"
  using custody_invD(3)[OF assms(1)] assms(2-4) by (fastforce simp: released_ok_def)

lemma row_inv: "custody_inv s \<Longrightarrow> withdrawals (cdb s) i = Some r \<Longrightarrow> row_ok (cchain s) i r"
  using custody_invD(1) by (auto simp: rows_ok_def)

lemma intent_inv:
  assumes "custody_inv s" and "it \<in> intents s"
  obtains r where "intent_ok (cchain s) it" and "withdrawals (cdb s) (fst (intent_row it)) = Some r" and "same_core r (snd (intent_row it))"
  using custody_invD(4)[OF assms(1)] assms(2) by (auto simp: intents_ok_def)

lemma request_inv:
  assumes "custody_inv s" and "request_withdrawal cfg active p now json uid a w key (cdb s) = Inr (r, d')"
  shows "custody_inv (s\<lparr>cdb := d'\<rparr>)"
  using assms(2)
proof (cases rule: request_cases)
  case replayed
  then show ?thesis using net_cong by (intro quiet_step_inv[OF assms(1)])
next
  case (fresh i row)
  note inv = custody_invD[OF assms(1)]
  have row: "ct_status row = Pending" "ct_txSignature row = None" "ct_userId row = Some uid" "ct_amountLamports row = a"
    by (subst fresh(3), simp add: new_withdrawal_def)+
  show ?thesis
  proof (rule custody_invI)
    show "rows_ok (withdrawals (cdb (s\<lparr>cdb := d'\<rparr>))) (cchain (s\<lparr>cdb := d'\<rparr>))"
      using inv(1) row by (simp add: rows_ok_def fresh(2) row_ok_def)
    show "signed_ok (withdrawals (cdb (s\<lparr>cdb := d'\<rparr>))) (cchain (s\<lparr>cdb := d'\<rparr>))"
      using inv(2) fresh(1) by (fastforce simp: signed_ok_def fresh(2))
    show "released_ok (withdrawals (cdb (s\<lparr>cdb := d'\<rparr>))) (cchain (s\<lparr>cdb := d'\<rparr>))"
      using inv(3) fresh(1) by (fastforce simp: released_ok_def fresh(2))
    show "intents_ok (withdrawals (cdb (s\<lparr>cdb := d'\<rparr>))) (cchain (s\<lparr>cdb := d'\<rparr>)) (intents (s\<lparr>cdb := d'\<rparr>))"
      using inv(4) fresh(1) by (fastforce simp: intents_ok_def fresh(2))
    show "money_ok (withdrawals (cdb (s\<lparr>cdb := d'\<rparr>))) (cdb (s\<lparr>cdb := d'\<rparr>))"
      using inv(5) fresh(1) row by (auto simp: money_ok_def fresh(2,4))
  qed
qed


lemma sign_inv:
  assumes "custody_inv s" and "withdrawals (cdb s) i = Some row" and "ct_status row = Pending"
    and "signed (cchain s) sig = None \<or> signed (cchain s) sig = Some (tx_of i row h)"
  shows "custody_inv (s\<lparr>cchain := (cchain s)\<lparr>signed := (signed (cchain s))(sig \<mapsto> tx_of i row h)\<rparr>,
       intents := insert (Store_signature i row sig h) (intents s)\<rparr>)"
    (is "custody_inv (s\<lparr>cchain := ?c, intents := ?I\<rparr>)")
proof (rule custody_invI)
  note inv = custody_invD[OF assms(1)]
  have signed: "signed (cchain s) sg = Some x \<Longrightarrow> signed ?c sg = Some x" for sg x using assms(4) by auto
  have rel: "sg \<in> released (cchain s) \<Longrightarrow> signed (cchain s) sg \<noteq> None" for sg
    using inv(3) by (fastforce simp: released_ok_def)
  have dead: "signed (cchain s) sg \<noteq> None \<Longrightarrow> dead ?c sg = dead (cchain s) sg" for sg
    using assms(4) by (auto simp: dead_def)
  show "rows_ok (withdrawals (cdb (s\<lparr>cchain := ?c, intents := ?I\<rparr>))) (cchain (s\<lparr>cchain := ?c, intents := ?I\<rparr>))"
    using inv(1) row_ok_mono[of "cchain s" _ _ ?c, OF _ signed] by (simp add: rows_ok_def)
  show "signed_ok (withdrawals (cdb (s\<lparr>cchain := ?c, intents := ?I\<rparr>))) (cchain (s\<lparr>cchain := ?c, intents := ?I\<rparr>))"
    using inv(2) assms(2) by (auto simp: signed_ok_def tx_of_def)
  show "released_ok (withdrawals (cdb (s\<lparr>cchain := ?c, intents := ?I\<rparr>))) (cchain (s\<lparr>cchain := ?c, intents := ?I\<rparr>))"
    unfolding released_ok_def
  proof (intro conjI ballI)
    fix sg assume "sg \<in> released (cchain (s\<lparr>cchain := ?c, intents := ?I\<rparr>))"
    then have "sg \<in> released (cchain s)" by simp
    moreover from this obtain x r where "signed (cchain s) sg = Some x" "withdrawals (cdb s) (sx_row x) = Some r"
        "dead (cchain s) sg \<or> current r sg" using inv(3) by (fastforce simp: released_ok_def)
    ultimately show "\<exists>x r. signed (cchain (s\<lparr>cchain := ?c, intents := ?I\<rparr>)) sg = Some x \<and>
        withdrawals (cdb (s\<lparr>cchain := ?c, intents := ?I\<rparr>)) (sx_row x) = Some r
        \<and> (dead (cchain (s\<lparr>cchain := ?c, intents := ?I\<rparr>)) sg \<or> current r sg)"
      using signed[of sg x] dead[of sg] by (intro exI[of _ x] exI[of _ r]) simp
  qed (use inv(3) in \<open>simp add: released_ok_def\<close>)
  have "intent_ok ?c it" if "it \<in> intents s" for it
    using inv(4) that intent_ok_mono[of "cchain s" it ?c, OF _ signed] dead by (simp add: intents_ok_def)
  then show "intents_ok (withdrawals (cdb (s\<lparr>cchain := ?c, intents := ?I\<rparr>))) (cchain (s\<lparr>cchain := ?c, intents := ?I\<rparr>))
      (intents (s\<lparr>cchain := ?c, intents := ?I\<rparr>))"
    using inv(4) assms(2,3) by (auto simp: intents_ok_def)
  show "money_ok (withdrawals (cdb (s\<lparr>cchain := ?c, intents := ?I\<rparr>))) (cdb (s\<lparr>cchain := ?c, intents := ?I\<rparr>))"
    using inv(5) by simp
qed

lemma store_inv:
  assumes "custody_inv s" and "Store_signature i row sig h \<in> intents s" and "send_cas i row sig h (cdb s) = (n, d')"
  shows "custody_inv (s\<lparr>cdb := d', cchain := (if n = 0 then cchain s
       else (cchain s)\<lparr>released := insert sig (released (cchain s))\<rparr>)\<rparr>)"
proof -
  obtain r where it: "signed (cchain s) sig = Some (tx_of i row h)" and r: "withdrawals (cdb s) i = Some r" and core: "same_core r row"
    using intent_inv[OF assms(1,2)] by auto
  have kind: "ct_kind r = Withdraw" using r by (simp add: withdrawals_Some)
  let ?r = "r\<lparr>ct_status := Sent, ct_txSignature := Some sig, ct_lastValidBlockHeight := Some h, ct_attempts := ct_attempts row + 1, ct_error := None\<rparr>"
  note cas = cas_withdrawal[OF assms(3)[unfolded send_cas_def] r]
  show ?thesis
  proof (cases "ct_status r = Pending \<and> ct_attempts r = ct_attempts row")
    case False
    then have "n = 0" "d' = cdb s" using cas(1,2) kind by auto
    then show ?thesis using assms(1) by simp
  next
    case True
    have "tx_of i row h = tx_of i ?r h" using core by (simp add: tx_of_def same_core_def)
    then have "carries (cchain s) i ?r sig" using it by (simp add: carries_def)
    then have ok: "row_ok (cchain s) i ?r" by (auto simp: row_ok_def)
    have "custody_inv (s\<lparr>cdb := d', cchain := (cchain s)\<lparr>released := insert sig (released (cchain s))\<rparr>\<rparr>)"
    proof (rule row_step_inv[OF assms(1) r _ _ ok])
      show "withdrawals d' = (withdrawals (cdb s))(i \<mapsto> ?r)" using cas(3) True kind by simp
      show "dead (cchain s) sg \<or> current ?r sg"
        if "sg \<in> insert sig (released (cchain s))" "signed (cchain s) sg = Some x" "sx_row x = i" for sg x
        using released_row[OF assms(1) _ that(2), of r] that r True by (auto simp: current_def)
    qed (use it cas(4) kind True in \<open>auto simp: same_core_def tx_of_def intro: net_cong\<close>)
    then show ?thesis using cas(1) True kind by simp
  qed
qed

lemma confirm_inv:
  assumes "custody_inv s" and "Act i row (Check_confirm slot) \<in> intents s"
  shows "custody_inv (s\<lparr>cdb := snd (confirm_cas i row slot now (cdb s))\<rparr>)"
proof -
  obtain r sig where it: "carries (cchain s) i row sig" "landed (cchain s) sig = Some (False, True)"
    and r: "withdrawals (cdb s) i = Some r" and core: "same_core r row"
    by (rule intent_inv[OF assms(1,2)]) auto
  have kind: "ct_kind r = Withdraw" using r by (simp add: withdrawals_Some)
  let ?r = "r\<lparr>ct_status := Confirmed, ct_slot := slot, ct_settledAt := Some now\<rparr>"
  obtain n d' where o: "confirm_cas i row slot now (cdb s) = (n, d')" by force
  note cas = cas_withdrawal[OF o[unfolded confirm_cas_def] r]
  show ?thesis
  proof (cases "ct_status r = Sent \<and> ct_txSignature r = ct_txSignature row")
    case False
    then have "d' = cdb s" using cas(2) kind by auto
    then show ?thesis using assms(1) o by simp
  next
    case True
    obtain s' where s': "carries (cchain s) i r s'" using row_inv[OF assms(1) r] True by (auto simp: row_ok_def)
    then have "s' = sig" using it(1) True by (simp add: carries_def)
    then have ok: "row_ok (cchain s) i ?r" using s' it(2) by (simp add: row_ok_def carries_def tx_of_def)
    have "custody_inv (s\<lparr>cdb := d', cchain := (cchain s)\<lparr>released := released (cchain s)\<rparr>\<rparr>)"
    proof (rule row_step_inv[OF assms(1) r _ _ ok])
      show "withdrawals d' = (withdrawals (cdb s))(i \<mapsto> ?r)" using cas(3) True kind by simp
      show "dead (cchain s) sg \<or> current ?r sg"
        if "sg \<in> released (cchain s)" "signed (cchain s) sg = Some x" "sx_row x = i" for sg x
        using released_row[OF assms(1) that(1,2), of r] that(3) r by (auto simp: current_def)
    qed (use cas(4) kind True in \<open>auto simp: same_core_def intro: net_cong\<close>)
    then show ?thesis by (simp add: o)
  qed
qed

lemma retry_inv:
  assumes "custody_inv s" and "Act i row (Check_retry why) \<in> intents s"
  shows "custody_inv (s\<lparr>cdb := snd (retry_cas i row why (cdb s))\<rparr>)"
proof -
  obtain r sig where it: "carries (cchain s) i row sig" "dead (cchain s) sig"
    and r: "withdrawals (cdb s) i = Some r" and core: "same_core r row"
    by (rule intent_inv[OF assms(1,2)]) auto
  have kind: "ct_kind r = Withdraw" using r by (simp add: withdrawals_Some)
  let ?r = "r\<lparr>ct_status := Pending, ct_txSignature := None, ct_lastValidBlockHeight := None, ct_error := Some why\<rparr>"
  obtain n d' where o: "retry_cas i row why (cdb s) = (n, d')" by force
  note cas = cas_withdrawal[OF o[unfolded retry_cas_def] r]
  show ?thesis
  proof (cases "ct_status r = Sent \<and> ct_txSignature r = ct_txSignature row")
    case False
    then have "d' = cdb s" using cas(2) kind by auto
    then show ?thesis using assms(1) o by simp
  next
    case True
    have "custody_inv (s\<lparr>cdb := d', cchain := (cchain s)\<lparr>released := released (cchain s)\<rparr>\<rparr>)"
    proof (rule row_step_inv[OF assms(1) r])
      show "withdrawals d' = (withdrawals (cdb s))(i \<mapsto> ?r)" using cas(3) True kind by simp
      show "row_ok (cchain s) i ?r" by (simp add: row_ok_def)
      show "dead (cchain s) sg \<or> current ?r sg"
        if "sg \<in> released (cchain s)" "signed (cchain s) sg = Some x" "sx_row x = i" for sg x
        using released_row[OF assms(1) that(1,2), of r] that(3) r True it by (auto simp: current_def carries_def)
    qed (use cas(4) kind True in \<open>auto simp: same_core_def intro: net_cong\<close>)
    then show ?thesis by (simp add: o)
  qed
qed

lemma refund_inv:
  assumes "custody_inv s" and "Act i row (Check_refund why) \<in> intents s"
    and "refund_withdrawal i row why now (cdb s) = Inr (out, d')"
  shows "custody_inv (s\<lparr>cdb := d'\<rparr>)"
proof -
  obtain r where it: "ct_status row = Pending \<and> ct_txSignature row = None
        \<or> ct_status row = Sent \<and> (\<exists>sg. carries (cchain s) i row sg \<and> dead (cchain s) sg)"
    and r: "withdrawals (cdb s) i = Some r" and core: "same_core r row"
    using intent_inv[OF assms(1,2)] by auto
  have kind: "ct_kind r = Withdraw" using r by (simp add: withdrawals_Some)
  from assms(3) r core show ?thesis
  proof (cases rule: refund_cases)
    case lost
    then show ?thesis using net_cong by (intro quiet_step_inv[OF assms(1)])
  next
    case (refunded uid)
    let ?r = "r\<lparr>ct_status := Failed, ct_error := Some why, ct_settledAt := Some now\<rparr>"
    have "custody_inv (s\<lparr>cdb := d', cchain := (cchain s)\<lparr>released := released (cchain s)\<rparr>\<rparr>)"
    proof (rule row_step_inv[OF assms(1) r refunded(4)])
      show "row_ok (cchain s) i ?r" by (simp add: row_ok_def)
      show "dead (cchain s) sg \<or> current ?r sg"
        if "sg \<in> released (cchain s)" "signed (cchain s) sg = Some x" "sx_row x = i" for sg x
        using released_row[OF assms(1) that(1,2), of r] that(3) r it refunded(1,2) by (auto simp: current_def carries_def)
      show "withdrawal_net v j d' = withdrawal_net v j (cdb s)
          + (if j = i \<and> ct_userId r = Some v \<and> ct_status ?r = Failed \<and> ct_status r \<noteq> Failed then ct_amountLamports r else 0)" for v j
        using refunded(1,3) it by (auto simp: refunded(5))
    qed (auto simp: same_core_def)
    then show ?thesis by simp
  qed
qed


lemma look_inv:
  assumes "custody_inv s" and "0 \<le> expiryMarginBlocks cfg" and "Look_after i row finalized \<in> intents s" and "ct_txSignature row = Some sig"
    and "check_decide cfg finalized (state_of (cchain s) slot sig) row = Inr act"
  shows "custody_inv (s\<lparr>intents := insert (Act i row act) (intents s)\<rparr>)"
proof -
  obtain r where it: "ct_status row = Sent" "finalized \<le> height (cchain s)" "\<exists>s'. carries (cchain s) i row s'"
    and r: "withdrawals (cdb s) i = Some r" and core: "same_core r row"
    by (rule intent_inv[OF assms(1,3)]) auto
  obtain h where c: "carries (cchain s) i row sig" and h: "ct_lastValidBlockHeight row = Some h" "signed (cchain s) sig = Some (tx_of i row h)"
    using it(3) assms(4) by (auto simp: carries_def)
  have "intent_ok (cchain s) (Act i row act)"
  proof (cases "landed (cchain s) sig")
    case None
    then have "act = Check_wait \<or> h + expiryMarginBlocks cfg < finalized
        \<and> (act = Check_refund (''expired unseen: '' @ sig) \<or> act = Check_retry (''expired unseen: '' @ sig))"
      using assms(4,5) h by (auto simp: check_decide_def state_of_def Let_def split: if_splits)
    moreover have "dead (cchain s) sig" if "h + expiryMarginBlocks cfg < finalized"
      using None h that it(2) assms(2) by (auto simp: dead_def tx_of_def)
    ultimately show ?thesis using it(1) c by auto
  next
    case (Some fs)
    then show ?thesis using assms(4,5) it(1) c
      by (cases fs) (auto simp: check_decide_def state_of_def Let_def dead_def split: if_splits)
  qed
  then show ?thesis using r core by (intro intent_step_inv[OF assms(1)]) simp_all
qed

lemma elsewhere_inv:
  assumes "custody_inv s" and "withdrawals d' = withdrawals (cdb s)" and "ledger d' = ledger (cdb s) @ rs"
    and "list_all (\<lambda>r. \<not> custody_row r) rs"
  shows "custody_inv (s\<lparr>cdb := d'\<rparr>)"
proof (rule quiet_step_inv[OF assms(1,2)])
  have "filter (\<lambda>r. custody_row r \<and> l_refId r = Some j \<and> l_userId r = v) rs = []" for v j
    using assms(4) by (auto simp: filter_empty_conv list_all_iff)
  then show "withdrawal_net v j d' = withdrawal_net v j (cdb s)" for v j by (simp add: withdrawal_net_def assms(3))
qed

lemma custody_step_inv:
  assumes "0 \<le> expiryMarginBlocks cfg" and "custody_inv s" and "custody_step cfg s s'"
  shows "custody_inv s'"
  using assms(3)
proof cases
  case (Give_up i row)
  then have "ct_txSignature row = None" using row_inv[OF assms(2), of i row] by (simp add: row_ok_def)
  then show ?thesis using Give_up by (auto intro!: intent_step_inv[OF assms(2)])
next
  case Store
  show ?thesis unfolding Store(1) by (rule store_inv[OF assms(2) Store(2,3)])
next
  case (Read_height i row)
  then have "\<exists>sg. carries (cchain s) i row sg" using row_inv[OF assms(2), of i row] by (simp add: row_ok_def)
  then show ?thesis using Read_height by (auto intro!: intent_step_inv[OF assms(2)])
qed (use assms(1,2) in \<open>auto intro: request_inv sign_inv store_inv look_inv confirm_inv retry_inv refund_inv elsewhere_inv
        land_inv drop_inv settle_inv advance_inv\<close>)

lemma custody_reach_inv:
  assumes "0 \<le> expiryMarginBlocks cfg" and "custody_reach cfg s"
  shows "custody_inv s"
  using assms(2)
proof induction
  case (Start s)
  have "filter (\<lambda>r. custody_row r \<and> l_refId r = Some i \<and> l_userId r = uid) (ledger (cdb s)) = []" for uid i
    using Start by (auto simp: custody_init_def list_all_iff filter_empty_conv)
  then have "withdrawal_net uid i (cdb s) = 0" for uid i by (simp add: withdrawal_net_def)
  then show ?case using Start
    by (intro custody_invI) (auto simp: custody_init_def rows_ok_def signed_ok_def released_ok_def intents_ok_def money_ok_def)
qed (rule custody_step_inv[OF assms(1)])


subsection \<open>A withdrawal is paid at most once\<close>

text \<open>
  C1. However many processes drive a withdrawal and however they interleave with each other, with forks and with
  expiring transactions: at most one of all the transactions ever signed for it lands successfully, and that one
  pays the requested amount to the requested wallet. A refunded withdrawal has no successful transaction and never
  gets one; a confirmed one has exactly one, settled. The balance is charged the amount, except that a refund gives
  it back exactly once.
\<close>

theorem withdrawal_paid_once:
  assumes "0 \<le> expiryMarginBlocks cfg" and "custody_reach cfg s" and "withdrawals (cdb s) i = Some r"
  shows "(\<forall>sg sg' x x'. paid (cchain s) sg \<and> paid (cchain s) sg' \<and> signed (cchain s) sg = Some x \<and> signed (cchain s) sg' = Some x'
          \<and> sx_row x = i \<and> sx_row x' = i \<longrightarrow> sg = sg')
    \<and> (\<forall>sg x. paid (cchain s) sg \<and> signed (cchain s) sg = Some x \<and> sx_row x = i \<longrightarrow>
          sx_wallet x = ct_wallet r \<and> sx_amount x = ct_amountLamports r \<and> ct_status r \<noteq> Failed \<and> ct_txSignature r = Some sg)
    \<and> (ct_status r = Failed \<longrightarrow> (\<forall>sg x. sg \<in> released (cchain s) \<and> signed (cchain s) sg = Some x \<and> sx_row x = i \<longrightarrow> dead (cchain s) sg))
    \<and> (ct_status r = Confirmed \<longrightarrow> (\<exists>sg x. landed (cchain s) sg = Some (False, True) \<and> signed (cchain s) sg = Some x \<and> sx_row x = i))
    \<and> (\<forall>uid. ct_userId r = Some uid \<longrightarrow>
          withdrawal_net uid i (cdb s) = (if ct_status r = Failed then 0 else - ct_amountLamports r))"
proof -
  have inv: "custody_inv s" by (rule custody_reach_inv[OF assms(1,2)])
  note parts = custody_invD[OF inv]
  have one: "current r sg \<and> sx_wallet x = ct_wallet r \<and> sx_amount x = ct_amountLamports r"
    if "paid (cchain s) sg" "signed (cchain s) sg = Some x" "sx_row x = i" for sg x
  proof -
    have "sg \<in> released (cchain s)" using that(1) parts(3) by (auto simp: paid_def released_ok_def)
    then have "dead (cchain s) sg \<or> current r sg" using released_row[OF inv _ that(2)] that(3) assms(3) by blast
    moreover have "\<not> dead (cchain s) sg" using that(1) by (auto simp: paid_def dead_def)
    ultimately show ?thesis using parts(2) that(2,3) assms(3) by (fastforce simp: signed_ok_def)
  qed
  have failed: "dead (cchain s) sg" if "ct_status r = Failed" "sg \<in> released (cchain s)" "signed (cchain s) sg = Some x" "sx_row x = i" for sg x
    using released_row[OF inv that(2,3)] that(1,4) assms(3) by (simp add: current_def)
  have confirmed: "\<exists>sg x. landed (cchain s) sg = Some (False, True) \<and> signed (cchain s) sg = Some x \<and> sx_row x = i" if "ct_status r = Confirmed"
    using row_inv[OF inv assms(3)] that by (fastforce simp: row_ok_def carries_def tx_of_def)
  have money: "withdrawal_net uid i (cdb s) = (if ct_status r = Failed then 0 else - ct_amountLamports r)" if "ct_userId r = Some uid" for uid
    using parts(5) that assms(3) by (simp add: money_ok_def)
  have uniq: "sg = sg'" if "paid (cchain s) sg" "paid (cchain s) sg'" "signed (cchain s) sg = Some x" "signed (cchain s) sg' = Some x'"
      "sx_row x = i" "sx_row x' = i" for sg sg' x x'
    using one[OF that(1,3,5)] one[OF that(2,4,6)] by (simp add: current_def)
  show ?thesis
  proof (intro conjI)
    show "\<forall>sg x. paid (cchain s) sg \<and> signed (cchain s) sg = Some x \<and> sx_row x = i \<longrightarrow>
          sx_wallet x = ct_wallet r \<and> sx_amount x = ct_amountLamports r \<and> ct_status r \<noteq> Failed \<and> ct_txSignature r = Some sg"
    proof (intro allI impI, elim conjE)
      fix sg x
      assume "paid (cchain s) sg" "signed (cchain s) sg = Some x" "sx_row x = i"
      from one[OF this] show "sx_wallet x = ct_wallet r \<and> sx_amount x = ct_amountLamports r \<and> ct_status r \<noteq> Failed
          \<and> ct_txSignature r = Some sg" by (auto simp: current_def)
    qed
  qed (use uniq failed confirmed money in blast)+
qed

text \<open>A settled withdrawal is final.\<close>

lemma settled_is_final:
  assumes "0 \<le> expiryMarginBlocks cfg" and "custody_reach cfg s" and "custody_step cfg s s'"
    and "withdrawals (cdb s) i = Some r" and "ct_status r \<in> {Confirmed, Failed}"
  shows "withdrawals (cdb s') i = Some r"
proof -
  have inv: "custody_inv s" by (rule custody_reach_inv[OF assms(1,2)])
  have cas: "withdrawals (snd (cas_transfer j p f d)) i = Some r" if "\<not> p r" "withdrawals d i = Some r" for j p f d
    using that by (auto simp: cas_transfer_def withdrawals_Some put_transfer_def split: option.splits)
  have act: "ct_status row \<in> {Pending, Sent}" if "Act j row a \<in> intents s" "a \<noteq> Check_wait" for j row a
  proof -
    have "intent_ok (cchain s) (Act j row a)" by (rule intent_inv[OF inv that(1)])
    then show ?thesis using that(2) by (cases a) auto
  qed
  from assms(3) show ?thesis
  proof cases
    case Request
    then show ?thesis using assms(4) by (auto elim!: request_cases)
  next
    case (Store j row sg h n d')
    have "withdrawals (snd (send_cas j row sg h (cdb s))) i = Some r"
      unfolding send_cas_def by (rule cas) (use assms(4,5) in auto)
    then show ?thesis by (simp add: Store(1,3))
  next
    case (Confirm j row slot now)
    then show ?thesis using cas[OF _ assms(4)] assms(5) by (auto simp: confirm_cas_def)
  next
    case (Retry j row why)
    then show ?thesis using cas[OF _ assms(4)] assms(5) by (auto simp: retry_cas_def)
  next
    case (Refund j row why now q d')
    obtain cur where cur: "withdrawals (cdb s) j = Some cur" "same_core cur row"
      by (rule intent_inv[OF inv Refund(2)]) auto
    from Refund(3) cur show ?thesis
    proof (cases rule: refund_cases)
      case (refunded uid)
      have "ct_status row \<in> {Pending, Sent}" using act[OF Refund(2)] by simp
      then have "j \<noteq> i" using refunded(1) cur(1) assms(4,5) by auto
      then show ?thesis using assms(4) by (simp add: Refund(1) refunded(4))
    qed (use assms(4) Refund(1) in simp)
  qed (use assms(4) in auto)
qed


definition custody_sample :: custody_sys where
  "custody_sample = \<lparr>cdb = empty_db\<lparr>users := [(1, new_user\<lparr>fundedAt := Some 0, walletAddress := ''W''\<rparr>)]\<rparr>,
     cchain = \<lparr>signed = (\<lambda>_. None), released = {}, landed = (\<lambda>_. None), height = 100\<rparr>, intents = {}\<rparr>"

text \<open>A run of one withdrawal up to its confirmation.\<close>

theorem withdrawal_paid_once_witness:
  "\<exists>s r. custody_reach default_custody s \<and> withdrawals (cdb s) 0 = Some r \<and> ct_status r = Confirmed
     \<and> withdrawal_net 1 0 (cdb s) = - 20000000"
proof -
  let ?cfg = default_custody
  define d1 where "d1 = snd (projr (request_withdrawal ?cfg True False 5 (\<lambda>_. ''j'') 1 20000000 None None (cdb custody_sample)))"
  define r0 where "r0 = new_withdrawal 1 ''W'' 20000000 5"
  have q1: "request_withdrawal ?cfg True False 5 (\<lambda>_. ''j'') 1 20000000 None None (cdb custody_sample) = Inr (Fresh_view (transferView 0 r0), d1)"
    unfolding d1_def r0_def by (simp add: custody_sample_def request_withdrawal_def withdraw_tx_def default_custody_def
        claimIdempotency_def storeIdempotency_def has_key_def own_wallets_def insert_row_def fresh_key_def new_withdrawal_def Let_def
        applyBalanceDelta_def custody_meta_def LAMPORTS_PER_SOL_def bigint_div_nonneg)
  have q2: "map_of (custodyTransfers d1) 0 = Some r0" unfolding d1_def r0_def by code_simp
  have w1: "withdrawals d1 0 = Some r0" using q2 by (simp add: withdrawals_def r0_def new_withdrawal_def)
  let ?tx = "tx_of 0 r0 250"
  let ?c0 = "\<lparr>signed = (\<lambda>_. None), released = {}, landed = (\<lambda>_. None), height = 100\<rparr> :: chain"
  let ?c1 = "?c0\<lparr>signed := (signed ?c0)(''S'' \<mapsto> ?tx)\<rparr>"
  let ?c2 = "?c1\<lparr>released := insert ''S'' (released ?c1)\<rparr>"
  let ?c3 = "?c2\<lparr>landed := (landed ?c2)(''S'' \<mapsto> (False, False))\<rparr>"
  let ?c4 = "?c3\<lparr>landed := (landed ?c3)(''S'' \<mapsto> (False, True))\<rparr>"
  define r1 where "r1 = r0\<lparr>ct_status := Sent, ct_txSignature := Some ''S'', ct_lastValidBlockHeight := Some 250, ct_attempts := ct_attempts r0 + 1, ct_error := None\<rparr>"
  define r2 where "r2 = r1\<lparr>ct_status := Confirmed, ct_slot := Some 9, ct_settledAt := Some 8\<rparr>"
  let ?d2 = "put_transfer 0 r1 d1" and ?d3 = "put_transfer 0 r2 (put_transfer 0 r1 d1)"
  let ?i1 = "Store_signature 0 r0 ''S'' 250" and ?i2 = "Look_after 0 r1 100" and ?i3 = "Act 0 r1 (Check_confirm (Some 9))"
  have kinds: "ct_kind r0 = Withdraw" "ct_kind r1 = Withdraw" "ct_kind r2 = Withdraw" "ct_status r0 = Pending"
    "ct_status r1 = Sent" "ct_txSignature r1 = Some ''S''" "ct_lastValidBlockHeight r1 = Some 250" "ct_attempts r0 = 0" "ct_amountLamports r0 = 20000000"
    by (simp_all add: r0_def r1_def r2_def new_withdrawal_def)
  have 0: "custody_reach ?cfg custody_sample"
    by (rule Start) (simp add: custody_init_def custody_sample_def withdrawals_def)
  have 1: "custody_reach ?cfg \<lparr>cdb = d1, cchain = ?c0, intents = {}\<rparr>" using Step[OF 0 Request[OF q1]] by (simp add: custody_sample_def)
  have 2: "custody_reach ?cfg \<lparr>cdb = d1, cchain = ?c1, intents = {?i1}\<rparr>"
    using Step[OF 1, of "\<lparr>cdb = d1, cchain = ?c1, intents = {?i1}\<rparr>"]
      custody_step.Sign[of "\<lparr>cdb = d1, cchain = ?c0, intents = {}\<rparr>" 0 r0 ?cfg False True 30000000 "''S''" 250] w1 kinds
    by (simp add: send_decide_def default_custody_def custody_sample_def LAMPORTS_PER_SOL_def bigint_div_nonneg)
  have cas: "send_cas 0 r0 ''S'' 250 d1 = (1, ?d2)"
    using q2 kinds by (simp add: send_cas_def cas_transfer_def r1_def)
  have 3: "custody_reach ?cfg \<lparr>cdb = ?d2, cchain = ?c2, intents = {?i1}\<rparr>"
    using Step[OF 2, of "\<lparr>cdb = ?d2, cchain = ?c2, intents = {?i1}\<rparr>"]
      custody_step.Store[of 0 r0 "''S''" 250 "\<lparr>cdb = d1, cchain = ?c1, intents = {?i1}\<rparr>" 1 ?d2 ?cfg] cas by simp
  have 4: "custody_reach ?cfg \<lparr>cdb = ?d2, cchain = ?c3, intents = {?i1}\<rparr>"
    using Step[OF 3, of "\<lparr>cdb = ?d2, cchain = ?c3, intents = {?i1}\<rparr>"]
      custody_step.Land[of "''S''" "\<lparr>cdb = ?d2, cchain = ?c2, intents = {?i1}\<rparr>" ?tx ?cfg False]
    by (simp add: custody_sample_def tx_of_def)
  have 5: "custody_reach ?cfg \<lparr>cdb = ?d2, cchain = ?c4, intents = {?i1}\<rparr>"
    using Step[OF 4, of "\<lparr>cdb = ?d2, cchain = ?c4, intents = {?i1}\<rparr>"]
      custody_step.Settle[of "\<lparr>cdb = ?d2, cchain = ?c3, intents = {?i1}\<rparr>" "''S''" False ?cfg] by simp
  have 6: "custody_reach ?cfg \<lparr>cdb = ?d2, cchain = ?c4, intents = {?i2, ?i1}\<rparr>"
    using Step[OF 5, of "\<lparr>cdb = ?d2, cchain = ?c4, intents = {?i2, ?i1}\<rparr>"]
      custody_step.Read_height[of "\<lparr>cdb = ?d2, cchain = ?c4, intents = {?i1}\<rparr>" 0 r1 ?cfg] kinds
    by (simp add: custody_sample_def)
  have 7: "custody_reach ?cfg \<lparr>cdb = ?d2, cchain = ?c4, intents = {?i3, ?i2, ?i1}\<rparr>"
    using Step[OF 6, of "\<lparr>cdb = ?d2, cchain = ?c4, intents = {?i3, ?i2, ?i1}\<rparr>"]
      custody_step.Look[of 0 r1 100 "\<lparr>cdb = ?d2, cchain = ?c4, intents = {?i2, ?i1}\<rparr>" "''S''" ?cfg "Some 9" "Check_confirm (Some 9)"] kinds
    by (simp add: check_decide_def state_of_def)
  have cas2: "confirm_cas 0 r1 (Some 9) 8 ?d2 = (1, ?d3)"
    using kinds by (simp add: confirm_cas_def cas_transfer_def r2_def put_transfer_def)
  have 8: "custody_reach ?cfg \<lparr>cdb = ?d3, cchain = ?c4, intents = {?i3, ?i2, ?i1}\<rparr>"
    using Step[OF 7, of "\<lparr>cdb = ?d3, cchain = ?c4, intents = {?i3, ?i2, ?i1}\<rparr>"]
      custody_step.Confirm[of 0 r1 "Some 9" "\<lparr>cdb = ?d2, cchain = ?c4, intents = {?i3, ?i2, ?i1}\<rparr>" ?cfg 8] cas2 by simp
  have w: "withdrawals ?d3 0 = Some r2" using kinds by simp
  have "withdrawal_net 1 0 ?d3 = - 20000000"
    using withdrawal_paid_once[OF _ 8, of 0 r2] w by (simp add: default_custody_def r2_def r1_def r0_def new_withdrawal_def)
  then show ?thesis using 8 w by (intro exI[of _ "\<lparr>cdb = ?d3, cchain = ?c4, intents = {?i3, ?i2, ?i1}\<rparr>"] exI[of _ r2]) (simp add: r2_def)
qed

end
