(* ===== verification/Custody_Drive.thy ===== *)
theory Custody_Drive
  imports Custody_Chain
begin

text \<open>
  \<open>drive\<close> of \<open>withdrawal.service.ts\<close> comes to an end: when every poll gets a definite answer, a withdrawal
  confirms or is refunded within twice the configured attempts plus two polls.
\<close>

text \<open>
  A poll that can decide: nothing is paused, the hot wallet holds enough, and every signature it asks about is
  either settled or not to be seen.
\<close>

definition decisive :: "custody_cfg \<Rightarrow> int \<Rightarrow> chain_reads \<Rightarrow> bool" where
  "decisive cfg amount rd \<longleftrightarrow> \<not> rd_paused rd \<and> rd_active rd \<and> amount + feeReserveLamports cfg \<le> rd_hot rd
     \<and> (\<forall>sig. ss_found (rd_state rd sig) \<longrightarrow> ss_settled (rd_state rd sig))"

definition expired_by :: "custody_cfg \<Rightarrow> custody_transfer \<Rightarrow> chain_reads \<Rightarrow> bool" where
  "expired_by cfg row rd \<longleftrightarrow> (case ct_lastValidBlockHeight row of None \<Rightarrow> True
     | Some h \<Rightarrow> h + expiryMarginBlocks cfg < rd_finalized rd)"

definition signs_before :: "custody_cfg \<Rightarrow> chain_reads \<Rightarrow> chain_reads \<Rightarrow> bool" where
  "signs_before cfg a b \<longleftrightarrow> (\<forall>i w x. snd (rd_sign a i w x) + expiryMarginBlocks cfg < rd_finalized b)"

definition drivable :: "custody_transfer \<Rightarrow> bool" where
  "drivable r \<longleftrightarrow> ct_status r = Pending \<or> ct_status r = Sent \<and> ct_txSignature r \<noteq> None \<and> ct_lastValidBlockHeight r \<noteq> None"

definition polls_left :: "custody_cfg \<Rightarrow> custody_transfer \<Rightarrow> nat" where
  "polls_left cfg r = 2 * (withdrawMaxAttempts cfg - ct_attempts r) + (if ct_status r = Pending then 1 else 2)"

lemma cas_put:
  assumes "withdrawals d i = Some r" and "p r"
  shows "cas_transfer i p f d = (1, put_transfer i (f r) d)"
  using assms by (simp add: cas_transfer_def withdrawals_Some)

lemma find_put [simp]: "findTransfer i (put_transfer i r d) = Inr r"
  by (simp add: findTransfer_def put_transfer_def)

lemma find_withdrawal: "withdrawals d i = Some r \<Longrightarrow> findTransfer i d = Inr r"
  by (simp add: findTransfer_def withdrawals_Some)

lemma refund_runs:
  assumes "withdrawals d i = Some r" and "ct_userId r = Some uid" and "map_of (users d) uid \<noteq> None" and "0 < ct_amountLamports r"
  shows "\<exists>d'. refund_withdrawal i r why now d = Inr (r\<lparr>ct_status := Failed, ct_error := Some why, ct_settledAt := Some now\<rparr>, d')
     \<and> withdrawals d' i = Some (r\<lparr>ct_status := Failed, ct_error := Some why, ct_settledAt := Some now\<rparr>)"
proof -
  let ?r = "r\<lparr>ct_status := Failed, ct_error := Some why, ct_settledAt := Some now\<rparr>"
  have c: "refund_cas i r why now d = (1, put_transfer i ?r d)"
    unfolding refund_cas_def using assms(1) by (rule cas_put) simp
  obtain b d2 where 1: "applyBalanceDelta uid (ct_amountLamports r) (custody_meta ''custody_withdraw_refund'' i) (put_transfer i ?r d) = Inr (b, d2)"
    using assms(3,4) unfolding applyBalanceDelta_Inr by (fastforce simp: custody_meta_def)
  have k: "ct_kind r = Withdraw" using assms(1) by (simp add: withdrawals_Some)
  have "map_of (custodyTransfers d2) i = Some ?r" using applyBalanceDelta_frame[OF 1] by (simp add: put_transfer_def)
  then have "refund_withdrawal i r why now d = Inr (?r, d2)" "withdrawals d2 i = Some ?r"
    using 1 k by (simp_all add: refund_withdrawal_def c assms(2) findTransfer_def withdrawals_Some)
  then show ?thesis by blast
qed

lemma poll_progress:
  assumes "withdrawals d i = Some r" and "drivable r" and "ct_userId r = Some uid" and "map_of (users d) uid \<noteq> None"
    and "0 < ct_amountLamports r" and "decisive cfg (ct_amountLamports r) rd" and "ct_status r = Sent \<Longrightarrow> expired_by cfg r rd"
  shows "\<exists>r' sig d'. step_withdrawal cfg rd i d = (Inr (r', sig), d') \<and> withdrawals d' i = Some r' \<and> same_core r r'
     \<and> (ct_status r' \<in> {Confirmed, Failed}
        \<or> drivable r' \<and> users d' = users d \<and> polls_left cfg r' < polls_left cfg r
          \<and> (ct_status r' = Sent \<longrightarrow> (\<exists>w x. ct_lastValidBlockHeight r' = Some (snd (rd_sign rd i w x)))))"
proof -
  note find = find_withdrawal[OF assms(1)]
  have kind: "ct_kind r = Withdraw" using assms(1) by (simp add: withdrawals_Some)
  note refund = refund_runs[OF assms(1,3,4,5)]
  show ?thesis
  proof (cases "ct_status r = Pending")
    case True
    show ?thesis
    proof (cases "withdrawMaxAttempts cfg \<le> ct_attempts r")
      case full: True
      then have "send_decide cfg (rd_paused rd) (rd_active rd) (rd_hot rd) r = Inr Refund_unsent" by (simp add: send_decide_def)
      then show ?thesis using refund[of "''no signature landed''" "rd_now rd"] True
        by (fastforce simp: step_withdrawal_def find kind send_withdrawal_def same_core_def)
    next
      case room: False
      then have go: "send_decide cfg (rd_paused rd) (rd_active rd) (rd_hot rd) r = Inr Send_sign"
        using assms(6) by (simp add: send_decide_def decisive_def)
      obtain sig h where sg: "rd_sign rd i (ct_wallet r) (ct_amountLamports r) = (sig, h)" by force
      let ?r = "r\<lparr>ct_status := Sent, ct_txSignature := Some sig, ct_lastValidBlockHeight := Some h, ct_attempts := ct_attempts r + 1, ct_error := None\<rparr>"
      have "send_cas i r sig h d = (1, put_transfer i ?r d)"
        unfolding send_cas_def using assms(1) by (rule cas_put) (simp add: True)
      then have "step_withdrawal cfg rd i d = (Inr (?r, Some sig), put_transfer i ?r d)"
        using True by (simp add: step_withdrawal_def find kind send_withdrawal_def go sg)
      moreover have "h = snd (rd_sign rd i (ct_wallet r) (ct_amountLamports r))" by (simp add: sg)
      ultimately show ?thesis using room True kind
        by (intro exI[of _ ?r] exI[of _ "Some sig"] exI[of _ "put_transfer i ?r d"])
          (auto simp: same_core_def drivable_def polls_left_def)
    qed
  next
    case False
    then obtain sig h where sent: "ct_status r = Sent" "ct_txSignature r = Some sig" "ct_lastValidBlockHeight r = Some h"
      using assms(2) by (auto simp: drivable_def)
    let ?st = "rd_state rd sig"
    have exp: "h + expiryMarginBlocks cfg < rd_finalized rd" using assms(7)[OF sent(1)] sent(3) by (simp add: expired_by_def)
    have "(\<exists>slot. check_decide cfg (rd_finalized rd) ?st r = Inr (Check_confirm slot))
        \<or> (\<exists>why. check_decide cfg (rd_finalized rd) ?st r = Inr (Check_refund why))
        \<or> (\<exists>why. check_decide cfg (rd_finalized rd) ?st r = Inr (Check_retry why))"
      using assms(6) exp by (auto simp: check_decide_def sent decisive_def Let_def)
    then consider (confirms) slot where "check_decide cfg (rd_finalized rd) ?st r = Inr (Check_confirm slot)"
      | (refunds) why where "check_decide cfg (rd_finalized rd) ?st r = Inr (Check_refund why)"
      | (retries) why where "check_decide cfg (rd_finalized rd) ?st r = Inr (Check_retry why)" by blast
    then show ?thesis
    proof cases
      case confirms
      have "confirm_cas i r slot (rd_now rd) d = (1, put_transfer i (r\<lparr>ct_status := Confirmed, ct_slot := slot, ct_settledAt := Some (rd_now rd)\<rparr>) d)"
        unfolding confirm_cas_def using assms(1) by (rule cas_put) (simp add: sent)
      then show ?thesis using confirms kind
        by (simp add: step_withdrawal_def find sent check_withdrawal_def same_core_def)
    next
      case refunds
      then show ?thesis using refund[of why "rd_now rd"] refunds kind
        by (fastforce simp: step_withdrawal_def find sent check_withdrawal_def same_core_def)
    next
      case retries
      have "retry_cas i r why d = (1, put_transfer i (r\<lparr>ct_status := Pending, ct_txSignature := None, ct_lastValidBlockHeight := None, ct_error := Some why\<rparr>) d)"
        unfolding retry_cas_def using assms(1) by (rule cas_put) (simp add: sent)
      then show ?thesis using retries kind
        by (simp add: step_withdrawal_def find sent check_withdrawal_def same_core_def drivable_def polls_left_def)
    qed
  qed
qed


lemma drive_ends:
  assumes "withdrawals d i = Some r" and "drivable r" and "ct_userId r = Some uid" and "map_of (users d) uid \<noteq> None"
    and "0 < ct_amountLamports r" and "list_all (decisive cfg (ct_amountLamports r)) rds"
    and "ct_status r = Sent \<Longrightarrow> list_all (expired_by cfg r) rds" and "sorted_wrt (signs_before cfg) rds"
    and "polls_left cfg r \<le> length rds"
  shows "\<exists>r' sig d'. drive cfg rds i d = (Inr (r', sig), d') \<and> withdrawals d' i = Some r' \<and> same_core r r'
     \<and> ct_status r' \<in> {Confirmed, Failed}"
  using assms
proof (induction rds arbitrary: r d)
  case Nil
  then show ?case by (simp add: polls_left_def split: if_splits)
next
  case (Cons rd rds)
  have ex: "ct_status r = Sent \<Longrightarrow> expired_by cfg r rd" using Cons.prems(7) by simp
  have dec: "decisive cfg (ct_amountLamports r) rd" using Cons.prems(6) by simp
  obtain r1 sig d1 where s: "step_withdrawal cfg rd i d = (Inr (r1, sig), d1)" "withdrawals d1 i = Some r1" "same_core r r1"
    and next1: "ct_status r1 \<in> {Confirmed, Failed}
        \<or> drivable r1 \<and> users d1 = users d \<and> polls_left cfg r1 < polls_left cfg r
          \<and> (ct_status r1 = Sent \<longrightarrow> (\<exists>w x. ct_lastValidBlockHeight r1 = Some (snd (rd_sign rd i w x))))"
    using poll_progress[OF Cons.prems(1-5) dec ex] by blast
  show ?case
  proof (cases "ct_status r1 \<in> {Confirmed, Failed}")
    case True
    then show ?thesis using s by auto
  next
    case False
    then have n: "drivable r1" "users d1 = users d" "polls_left cfg r1 < polls_left cfg r"
        "ct_status r1 = Sent \<Longrightarrow> \<exists>w x. ct_lastValidBlockHeight r1 = Some (snd (rd_sign rd i w x))" using next1 by auto
    have core: "ct_userId r1 = Some uid" "ct_amountLamports r1 = ct_amountLamports r"
      using s(3) Cons.prems(3) by (simp_all add: same_core_def)
    have "list_all (expired_by cfg r1) rds" if "ct_status r1 = Sent"
      using n(4)[OF that] Cons.prems(8) by (auto simp: list_all_iff expired_by_def signs_before_def)
    then have "\<exists>r' sig' d'. drive cfg rds i d1 = (Inr (r', sig'), d') \<and> withdrawals d' i = Some r' \<and> same_core r1 r'
        \<and> ct_status r' \<in> {Confirmed, Failed}"
      using Cons.prems(4-6,8,9) n by (intro Cons.IH[OF s(2) n(1) core(1)]) (simp_all add: core)
    moreover have "rds \<noteq> []" using Cons.prems(9) n(3) by (auto simp: polls_left_def split: if_splits)
    moreover have "ct_status r1 = Pending \<or> ct_status r1 = Sent" using n(1) by (auto simp: drivable_def)
    ultimately show ?thesis using s by (auto simp: same_core_def)
  qed
qed


text \<open>Five signatures in a row that are never seen: the money goes back.\<close>

definition silent_polls :: "chain_reads list" where
  "silent_polls = map (\<lambda>k. \<lparr>rd_paused = False, rd_active = True, rd_hot = 10000000000, rd_finalized = 1000 * int k,
     rd_state = (\<lambda>_. \<lparr>ss_found = False, ss_failed = False, ss_settled = False, ss_slot = None\<rparr>),
     rd_sign = (\<lambda>_ _ _. (''S'' @ decimal k, 1000 * int k + 150)), rd_now = int k\<rparr>) [1..<12]"

definition pending_db :: db where
  "pending_db = empty_db\<lparr>users := [(1, new_user\<lparr>fundedAt := Some 0\<rparr>)], custodyTransfers := [(0, new_withdrawal 1 ''W'' 20000000 5)]\<rparr>"


end
