(* ===== verification/Custody_Deposit.thy ===== *)
theory Custody_Deposit
  imports Custody_Chain Economy
begin

text \<open>
  Deposits: \<open>apps/api/src/custody/deposit.service.ts\<close>. What the chain says about a signature is the argument
  \<open>treasuryTx\<close>, the classification of \<open>custody-chain.ts\<close>, and the pages of the treasury's history are the list
  \<open>signatures\<close>. Every database transaction of the service is one step here.
\<close>

datatype treasury_tx = Tx_missing | Tx_failed | Tx_outbound | Tx_unrelated | Tx_inbound int int "string list"

definition HOLD_RETRY_BATCH :: nat where "HOLD_RETRY_BATCH = 100"

subsection \<open>owners and record\<close>

text \<open>The accounts that own one of the wallets, each with the wallet: the primary wallet before a linked one.\<close>

definition owners :: "string list \<Rightarrow> db \<Rightarrow> (nat \<times> string) list" where
  "owners wallets d =
     (if wallets = [] then []
      else let primary = map (\<lambda>(i, u). (i, walletAddress u)) (filter (\<lambda>(_, u). walletAddress u \<in> set wallets) (users d))
           in foldl (\<lambda>acc (i, a). if i \<in> set (map fst acc) then acc else acc @ [(i, a)]) primary
                (filter (\<lambda>(_, a). a \<in> set wallets) (linkedWallets d)))"

definition by_signature :: "string \<Rightarrow> db \<Rightarrow> (nat \<times> custody_transfer) option" where
  "by_signature s d = List.find (\<lambda>(_, t). ct_txSignature t = Some s) (custodyTransfers d)"

text \<open>
  Recording a signature: no row for dust from an unknown wallet, one new held row otherwise. The signature column
  is unique, so that a row another process has inserted in the meantime is returned instead.
\<close>

definition new_deposit :: "string \<Rightarrow> int \<Rightarrow> int \<Rightarrow> string list \<Rightarrow> int \<Rightarrow> db \<Rightarrow> custody_transfer" where
  "new_deposit s slot amount signers now d =
     (let os = owners signers d;
          owner = (case os of [o1] \<Rightarrow> Some o1 | _ \<Rightarrow> None)
      in \<lparr>ct_kind = Deposit, ct_status = Held, ct_userId = map_option fst owner,
          ct_wallet = (case owner of Some (_, w) \<Rightarrow> w | None \<Rightarrow> (case signers of [] \<Rightarrow> '''' | w # _ \<Rightarrow> w)),
          ct_amountLamports = amount, ct_txSignature = Some s, ct_slot = Some slot, ct_lastValidBlockHeight = None,
          ct_attempts = 0,
          ct_heldReason = (if owner \<noteq> None then None else if length os > 1 then Some Ambiguous_sender else Some Unattributed),
          ct_error = None, ct_settledAt = None, ct_createdAt = now\<rparr>)"

definition record_deposit ::
  "custody_cfg \<Rightarrow> int \<Rightarrow> string \<Rightarrow> int \<Rightarrow> int \<Rightarrow> string list \<Rightarrow> db \<Rightarrow> (nat \<times> custody_transfer) option \<times> db" where
  "record_deposit cfg now s slot amount signers d =
     (if owners signers d = [] \<and> amount < minDepositLamports cfg then (None, d)
      else case by_signature s d of
        Some row \<Rightarrow> (Some row, d)
      | None \<Rightarrow>
          let row = new_deposit s slot amount signers now d;
              (i, rows) = insert_row row (custodyTransfers d)
          in (Some (i, row), d\<lparr>custodyTransfers := rows\<rparr>))"

subsection \<open>credit\<close>

definition forfeit :: "int \<Rightarrow> nat \<Rightarrow> db \<Rightarrow> db" where
  "forfeit now userId d =
     executeUser userId (\<lambda>u. u\<lparr>fundedAt := Some now, freeTicketBaselineWagered := totalWagered u\<rparr>)
       (d\<lparr>referrals := map (\<lambda>(k, r). (k, if rf_referrerId r = userId \<and> rf_commissionClaimedLamports r < rf_commissionLamports r
            then r\<lparr>rf_commissionClaimedLamports := rf_commissionLamports r\<rparr> else r)) (referrals d)\<rparr>)"

definition convert :: "int \<Rightarrow> nat \<Rightarrow> int \<Rightarrow> nat \<Rightarrow> db \<Rightarrow> db result" where
  "convert now userId playBalance transferId d =
     (if playBalance > 0
      then bindE (applyBalanceDelta userId (- playBalance) (custody_meta ''custody_conversion'' transferId) d)
             (\<lambda>(_, d1). Inr (forfeit now userId d1))
      else Inr (forfeit now userId d))"

definition hold_of :: "deposit_block \<Rightarrow> held_reason" where
  "hold_of b = (case b of Blocked_paused \<Rightarrow> Held_paused | Blocked_age_unverified \<Rightarrow> Held_age_unverified
     | Blocked_deposit_limit \<Rightarrow> Held_deposit_limit)"

definition hold :: "nat \<Rightarrow> custody_transfer \<Rightarrow> held_reason \<Rightarrow> nat option \<Rightarrow> db \<Rightarrow> custody_transfer \<times> db" where
  "hold i row why userId d = (let held = row\<lparr>ct_heldReason := Some why, ct_userId := userId\<rparr> in (held, put_transfer i held d))"

definition pay_in :: "int \<Rightarrow> nat \<Rightarrow> custody_transfer \<Rightarrow> nat \<Rightarrow> user \<Rightarrow> db \<Rightarrow> (custody_transfer \<times> db) result" where
  "pay_in now i row userId u d =
     bindE (if fundedAt u = None then convert now userId (playBalanceLamports u) i d else Inr d) (\<lambda>d1.
     bindE (applyBalanceDelta userId (ct_amountLamports row) (custody_meta ''custody_deposit'' i) d1) (\<lambda>(_, d2).
       let credited = row\<lparr>ct_status := Credited, ct_userId := Some userId, ct_heldReason := None, ct_settledAt := Some now\<rparr>
       in Inr (credited, put_transfer i credited d2)))"

definition credit_to :: "custody_cfg \<Rightarrow> wager_env \<Rightarrow> nat \<Rightarrow> custody_transfer \<Rightarrow> nat \<Rightarrow> db \<Rightarrow> (custody_transfer \<times> db) result" where
  "credit_to cfg env i row userId d =
     (if ct_amountLamports row < minDepositLamports cfg then Inr (hold i row Below_minimum (Some userId) d)
      else bindE (depositBlock env userId (ct_amountLamports row) d) (\<lambda>blocked. case blocked of
        Some b \<Rightarrow> Inr (hold i row (hold_of b) (Some userId) d)
      | None \<Rightarrow> (case map_of (users d) userId of
          None \<Rightarrow> Inl (Internal ''P2025'')
        | Some u \<Rightarrow>
            if fundedAt u = None \<and> openPlayPositions userId d \<noteq> [] then Inr (hold i row Held_open_play_positions (Some userId) d)
            else pay_in (now_ms env) i row userId u d)))"

definition owner_of :: "custody_transfer \<Rightarrow> db \<Rightarrow> nat option" where
  "owner_of row d = (case ct_userId row of
      Some u \<Rightarrow> Some u
    | None \<Rightarrow> (case owners [ct_wallet row] d of [(u, _)] \<Rightarrow> Some u | _ \<Rightarrow> None))"

definition credit :: "custody_cfg \<Rightarrow> wager_env \<Rightarrow> nat \<Rightarrow> db \<Rightarrow> (custody_transfer \<times> db) result" where
  "credit cfg env i d =
     bindE (findTransfer i d) (\<lambda>row.
       if ct_status row \<noteq> Held \<or> ct_heldReason row = Some Ambiguous_sender then Inr (row, d)
       else case owner_of row d of
         None \<Rightarrow> Inr (hold i row Unattributed None d)
       | Some userId \<Rightarrow> credit_to cfg env i row userId d)"

subsection \<open>confirm and scan\<close>

datatype confirm_reply = Deposit_row nat custody_transfer | Not_visible_yet

definition settle_known ::
  "custody_cfg \<Rightarrow> wager_env \<Rightarrow> nat \<Rightarrow> custody_transfer \<Rightarrow> db \<Rightarrow> confirm_reply result \<times> db" where
  "settle_known cfg env i row d =
     (if ct_status row \<noteq> Held then (Inr (Deposit_row i row), d)
      else case credit cfg env i d of
        Inl e \<Rightarrow> (Inl e, d)
      | Inr (r, d1) \<Rightarrow> (Inr (Deposit_row i r), d1))"

definition confirm_deposit ::
  "custody_cfg \<Rightarrow> wager_env \<Rightarrow> bool \<Rightarrow> (string \<Rightarrow> treasury_tx) \<Rightarrow> string \<Rightarrow> db \<Rightarrow> confirm_reply result \<times> db" where
  "confirm_deposit cfg env active treasuryTx s d =
     (if \<not> active then (Inl (ServiceUnavailable ''Wallet deposits are offline''), d)
      else case by_signature s d of
        Some (i, known) \<Rightarrow>
          if ct_kind known \<noteq> Deposit then (Inl (BadRequest ''Not a deposit''), d) else settle_known cfg env i known d
      | None \<Rightarrow> (case treasuryTx s of
          Tx_missing \<Rightarrow> (Inr Not_visible_yet, d)
        | Tx_inbound slot amount signers \<Rightarrow>
            (case record_deposit cfg (now_ms env) s slot amount signers d of
               (None, d1) \<Rightarrow> (Inl (BadRequest ''Below the minimum deposit, from a wallet that is not linked to any account''), d1)
             | (Some (i, row), d1) \<Rightarrow> settle_known cfg env i row d1)
        | _ \<Rightarrow> (Inl (BadRequest ''Not a deposit to the treasury''), d)))"

fun scan_signatures ::
  "custody_cfg \<Rightarrow> wager_env \<Rightarrow> (string \<Rightarrow> treasury_tx) \<Rightarrow> string list \<Rightarrow> nat \<Rightarrow> db \<Rightarrow> nat \<times> db" where
  "scan_signatures cfg env treasuryTx [] recorded d = (recorded, d)"
| "scan_signatures cfg env treasuryTx (s # ss) recorded d =
     (let next = (\<lambda>n d. scan_signatures cfg env treasuryTx ss n (d\<lparr>scanCursor := Some s\<rparr>)) in
      if by_signature s d \<noteq> None then next recorded d
      else case treasuryTx s of
        Tx_missing \<Rightarrow> (recorded, d)
      | Tx_inbound slot amount signers \<Rightarrow>
          (let (row, d1) = record_deposit cfg (now_ms env) s slot amount signers d
           in next (if row = None then recorded else recorded + 1) d1)
      | _ \<Rightarrow> next recorded d)"

text \<open>An error on one held deposit is logged and the next one is tried.\<close>

fun retry_each :: "custody_cfg \<Rightarrow> wager_env \<Rightarrow> nat list \<Rightarrow> nat \<Rightarrow> db \<Rightarrow> nat \<times> db" where
  "retry_each cfg env [] credited d = (credited, d)"
| "retry_each cfg env (i # is) credited d =
     (case credit cfg env i d of
        Inl _ \<Rightarrow> retry_each cfg env is credited d
      | Inr (row, d1) \<Rightarrow> retry_each cfg env is (if ct_status row = Credited then credited + 1 else credited) d1)"

definition retryHeld :: "custody_cfg \<Rightarrow> wager_env \<Rightarrow> db \<Rightarrow> nat \<times> db" where
  "retryHeld cfg env d =
     retry_each cfg env (take HOLD_RETRY_BATCH (map fst (filter (\<lambda>(_, t). ct_kind t = Deposit \<and> ct_status t = Held) (custodyTransfers d)))) 0 d"

definition scanOnce ::
  "custody_cfg \<Rightarrow> wager_env \<Rightarrow> bool \<Rightarrow> (string option \<Rightarrow> string list) \<Rightarrow> (string \<Rightarrow> treasury_tx) \<Rightarrow> db \<Rightarrow> (nat \<times> nat) result \<times> db" where
  "scanOnce cfg env active signaturesSince treasuryTx d =
     (if \<not> active then (Inl (ServiceUnavailable ''Wallet deposits are offline''), d)
      else let (recorded, d1) = scan_signatures cfg env treasuryTx (signaturesSince (scanCursor d)) 0 d;
               (credited, d2) = retryHeld cfg env d1
           in (Inr (recorded, credited), d2))"


subsection \<open>What a credit does\<close>

lemma put_transfer_sel [simp]: "custodyTransfers (put_transfer i r d) = AList.update i r (custodyTransfers d)"
  "ledger (put_transfer i r d) = ledger d" "users (put_transfer i r d) = users d" "referrals (put_transfer i r d) = referrals d"
  by (simp_all add: put_transfer_def)

lemma custody_meta_sel [simp]: "reason (custody_meta w i) = w" "refId (custody_meta w i) = Some i" "currency (custody_meta w i) = Jeton"
  "maxBalance (custody_meta w i) = None"
  by (simp_all add: custody_meta_def)

lemma executeUser_rows [simp]: "ledger (executeUser u f d) = ledger d" "custodyTransfers (executeUser u f d) = custodyTransfers d"
  "referrals (executeUser u f d) = referrals d"
  by (simp_all add: executeUser_def split: option.splits)

definition convert_journal :: "nat \<Rightarrow> int \<Rightarrow> posting list" where
  "convert_journal uid play = (if play > 0 then [(uid, Jeton, - play)] else [])"

lemma forfeit_spec:
  shows "same_money d (forfeit now uid d)" "custodyTransfers (forfeit now uid d) = custodyTransfers d" "ledger (forfeit now uid d) = ledger d"
    "map_of (users d) uid = Some u \<Longrightarrow>
       map_of (users (forfeit now uid d)) uid = Some (u\<lparr>fundedAt := Some now, freeTicketBaselineWagered := totalWagered u\<rparr>)"
    "(k, r) \<in> set (referrals (forfeit now uid d)) \<Longrightarrow> rf_referrerId r = uid \<Longrightarrow> rf_commissionLamports r \<le> rf_commissionClaimedLamports r"
proof -
  show "same_money d (forfeit now uid d)" unfolding forfeit_def
    by (rule same_money_trans[OF same_moneyI executeUser_same]) (auto intro!: keeps_balanceI)
  show "custodyTransfers (forfeit now uid d) = custodyTransfers d" "ledger (forfeit now uid d) = ledger d"
    by (simp_all add: forfeit_def)
  show "map_of (users d) uid = Some u \<Longrightarrow>
       map_of (users (forfeit now uid d)) uid = Some (u\<lparr>fundedAt := Some now, freeTicketBaselineWagered := totalWagered u\<rparr>)"
    by (simp add: forfeit_def executeUser_def)
  assume "(k, r) \<in> set (referrals (forfeit now uid d))" and u: "rf_referrerId r = uid"
  then obtain r0 where "r = (if rf_referrerId r0 = uid \<and> rf_commissionClaimedLamports r0 < rf_commissionLamports r0
            then r0\<lparr>rf_commissionClaimedLamports := rf_commissionLamports r0\<rparr> else r0)"
    by (fastforce simp: forfeit_def)
  then show "rf_commissionLamports r \<le> rf_commissionClaimedLamports r" using u
    by (cases "rf_referrerId r0 = uid \<and> rf_commissionClaimedLamports r0 < rf_commissionLamports r0") auto
qed

lemma convert_spec:
  assumes "convert now uid play i d = Inr d'"
  obtains d1 conv where "d' = forfeit now uid d1" "posts (convert_journal uid play) d d1" "custodyTransfers d1 = custodyTransfers d"
    "ledger d1 = ledger d @ conv" "\<forall>c\<in>set conv. l_reason c = ''custody_conversion''"
    "(map_of (users d1) uid = None) = (map_of (users d) uid = None)"
proof (cases "play > 0")
  case True
  then obtain b d1 where a: "applyBalanceDelta uid (- play) (custody_meta ''custody_conversion'' i) d = Inr (b, d1)"
    and d': "d' = forfeit now uid d1" using assms by (auto simp: convert_def)
  show ?thesis
    by (rule that[of d1 "[\<lparr>l_userId = uid, l_currency = Jeton, l_delta = - play, l_reason = ''custody_conversion'',
           l_refType = refType (custody_meta ''custody_conversion'' i), l_refId = Some i, l_balanceAfter = b\<rparr>]"])
       (use True a d' applyBalanceDelta_posts[OF a] in \<open>auto simp: convert_journal_def applyBalanceDelta_Inr\<close>)
next
  case False
  then show ?thesis using assms that[of d "[]"] by (simp add: convert_def convert_journal_def)
qed

text \<open>A credit leaves the row as it was, holds it, or moves the money and settles it.\<close>

lemma credit_to_cases:
  assumes "credit_to cfg env i row uid d = Inr out"
  obtains (held) why where "out = hold i row why (Some uid) d"
    | (paid) u where "minDepositLamports cfg \<le> ct_amountLamports row" "depositBlock env uid (ct_amountLamports row) d = Inr None"
        "map_of (users d) uid = Some u" "fundedAt u = None \<Longrightarrow> openPlayPositions uid d = []" "pay_in (now_ms env) i row uid u d = Inr out"
  using assms unfolding credit_to_def by (auto split: if_splits option.splits)

lemma credit_cases:
  assumes "credit cfg env i d = Inr out"
  obtains (kept) row where "findTransfer i d = Inr row" "out = (row, d)"
    | (held) row why uid where "findTransfer i d = Inr row" "ct_status row = Held" "out = hold i row why uid d"
    | (paid) row uid u where "findTransfer i d = Inr row" "ct_status row = Held" "minDepositLamports cfg \<le> ct_amountLamports row"
        "depositBlock env uid (ct_amountLamports row) d = Inr None" "map_of (users d) uid = Some u"
        "fundedAt u = None \<Longrightarrow> openPlayPositions uid d = []" "pay_in (now_ms env) i row uid u d = Inr out"
proof -
  obtain row where row: "findTransfer i d = Inr row" using assms by (auto simp: credit_def)
  show ?thesis
  proof (cases "ct_status row \<noteq> Held \<or> ct_heldReason row = Some Ambiguous_sender")
    case True then show ?thesis using kept[OF row] assms row by (auto simp: credit_def)
  next
    case False
    show ?thesis
    proof (cases "owner_of row d")
      case None then show ?thesis using held[OF row] assms row False by (auto simp: credit_def)
    next
      case (Some uid)
      then have c: "credit_to cfg env i row uid d = Inr out" using assms row False by (auto simp: credit_def)
      from c show ?thesis
        by (cases rule: credit_to_cases) (use held[OF row] paid[OF row] False in auto)
    qed
  qed
qed


text \<open>The money of a payment: the play balance goes on a first deposit, then the deposit comes in.\<close>

lemma pay_in_spec:
  assumes "pay_in now i row uid u d = Inr (row', d')" and u: "map_of (users d) uid = Some u"
  obtains rs r where "row' = row\<lparr>ct_status := Credited, ct_userId := Some uid, ct_heldReason := None, ct_settledAt := Some now\<rparr>"
    "custodyTransfers d' = AList.update i row' (custodyTransfers d)"
    "ledger d' = ledger d @ rs @ [r]" "\<forall>c\<in>set rs. l_reason c = ''custody_conversion''"
    "l_reason r = ''custody_deposit''" "l_refId r = Some i" "posting_of r = (uid, Jeton, ct_amountLamports row)"
    "posts ((if fundedAt u = None then convert_journal uid (playBalanceLamports u) else []) @ [(uid, Jeton, ct_amountLamports row)]) d d'"
    "fundedAt u = None \<Longrightarrow> map_option fundedAt (map_of (users d') uid) = Some (Some now)
       \<and> (\<forall>(k, r)\<in>set (referrals d'). rf_referrerId r = uid \<longrightarrow> rf_commissionLamports r \<le> rf_commissionClaimedLamports r)"
proof -
  obtain d1 b d2 where c: "(if fundedAt u = None then convert now uid (playBalanceLamports u) i d else Inr d) = Inr d1"
    and a: "applyBalanceDelta uid (ct_amountLamports row) (custody_meta ''custody_deposit'' i) d1 = Inr (b, d2)"
    and row': "row' = row\<lparr>ct_status := Credited, ct_userId := Some uid, ct_heldReason := None, ct_settledAt := Some now\<rparr>"
    and d': "d' = put_transfer i row' d2" using assms(1) unfolding pay_in_def Let_def
    by (elim bindE_InrE) (auto simp del: convert_def)
  obtain rs where d1: "posts (if fundedAt u = None then convert_journal uid (playBalanceLamports u) else []) d d1"
    "custodyTransfers d1 = custodyTransfers d" "ledger d1 = ledger d @ rs" "\<forall>c\<in>set rs. l_reason c = ''custody_conversion''"
    and real: "fundedAt u = None \<Longrightarrow> map_option fundedAt (map_of (users d1) uid) = Some (Some now)
       \<and> (\<forall>(k, r)\<in>set (referrals d1). rf_referrerId r = uid \<longrightarrow> rf_commissionLamports r \<le> rf_commissionClaimedLamports r)"
  proof (cases "fundedAt u = None")
    case True
    then have "convert now uid (playBalanceLamports u) i d = Inr d1" using c by simp
    then obtain d0 conv where e: "d1 = forfeit now uid d0" "posts (convert_journal uid (playBalanceLamports u)) d d0"
      "custodyTransfers d0 = custodyTransfers d" "ledger d0 = ledger d @ conv" "\<forall>c\<in>set conv. l_reason c = ''custody_conversion''"
      "(map_of (users d0) uid = None) = (map_of (users d) uid = None)" by (rule convert_spec)
    obtain u0 where "map_of (users d0) uid = Some u0" using e(6) u by auto
    then have "map_option fundedAt (map_of (users d1) uid) = Some (Some now)" using e(1) by (simp add: forfeit_spec(4))
    moreover have "\<forall>(k, r)\<in>set (referrals d1). rf_referrerId r = uid \<longrightarrow> rf_commissionLamports r \<le> rf_commissionClaimedLamports r"
      using e(1) forfeit_spec(5) by auto
    ultimately show ?thesis using that[of conv] e posts_same[OF e(2) forfeit_spec(1)] True by (simp add: forfeit_spec(2,3))
  next
    case False
    then have "d1 = d" using c by (simp only: if_False sum.inject)
    then show ?thesis using that[of "[]"] False by (simp only: if_False append_Nil2 posts_refl list.set ball_empty simp_thms)
  qed
  have d2: "custodyTransfers d2 = custodyTransfers d1" "referrals d2 = referrals d1" using applyBalanceDelta_frame[OF a] by simp_all
  have f2: "map_option fundedAt (map_of (users d2) uid) = map_option fundedAt (map_of (users d1) uid)"
    using a by (auto simp: applyBalanceDelta_Inr)
  obtain r where r: "ledger d2 = ledger d1 @ [r]" "l_reason r = ''custody_deposit''" "l_refId r = Some i"
    "posting_of r = (uid, Jeton, ct_amountLamports row)" using a by (auto simp: applyBalanceDelta_Inr posting_of_def)
  have "posts [(uid, Jeton, ct_amountLamports row)] d1 d'"
    using applyBalanceDelta_posts[OF a] posts_same[of _ _ d2 d'] by (simp add: d' same_moneyI)
  with d1(1) have p: "posts ((if fundedAt u = None then convert_journal uid (playBalanceLamports u) else [])
      @ [(uid, Jeton, ct_amountLamports row)]) d d'" by (rule posts_trans)
  show ?thesis by (rule that[OF row' _ _ d1(4) r(2,3,4) p]) (use d' d1 d2 r real f2 in auto)
qed

subsection \<open>One deposit, one credit\<close>

text \<open>The credits of a row: the ledger rows that refer to it. What they should be follows from the row alone.\<close>

definition credits :: "nat \<Rightarrow> db \<Rightarrow> posting list" where
  "credits i d = map posting_of (filter (\<lambda>r. l_reason r = ''custody_deposit'' \<and> l_refId r = Some i) (ledger d))"

fun credit_due :: "custody_transfer option \<Rightarrow> posting list" where
  "credit_due None = []"
| "credit_due (Some t) = (if ct_kind t = Deposit \<and> ct_status t = Credited then [(the (ct_userId t), Jeton, ct_amountLamports t)] else [])"

definition inbound :: "(string \<Rightarrow> treasury_tx) \<Rightarrow> string \<Rightarrow> int option" where
  "inbound chain s = (case chain s of Tx_inbound _ a _ \<Rightarrow> Some a | _ \<Rightarrow> None)"

definition deposit_row_ok :: "(string \<Rightarrow> treasury_tx) \<Rightarrow> custody_transfer \<Rightarrow> bool" where
  "deposit_row_ok chain t \<longleftrightarrow> (ct_status t = Held \<longrightarrow> ct_kind t = Deposit)
     \<and> (ct_kind t = Deposit \<longrightarrow> (\<exists>s. ct_txSignature t = Some s \<and> inbound chain s = Some (ct_amountLamports t)))"

definition deposits_sound :: "(string \<Rightarrow> treasury_tx) \<Rightarrow> db \<Rightarrow> bool" where
  "deposits_sound chain d \<longleftrightarrow> keyed (custodyTransfers d)
     \<and> (\<forall>i t. map_of (custodyTransfers d) i = Some t \<longrightarrow> deposit_row_ok chain t)
     \<and> (\<forall>i j t t' s. map_of (custodyTransfers d) i = Some t \<longrightarrow> map_of (custodyTransfers d) j = Some t'
          \<longrightarrow> ct_txSignature t = Some s \<longrightarrow> ct_txSignature t' = Some s \<longrightarrow> i = j)
     \<and> (\<forall>i. credits i d = credit_due (map_of (custodyTransfers d) i))"

lemma credits_append: "ledger d' = ledger d @ rs \<Longrightarrow>
    credits i d' = credits i d @ map posting_of (filter (\<lambda>r. l_reason r = ''custody_deposit'' \<and> l_refId r = Some i) rs)"
  by (simp add: credits_def)

lemma findTransfer_Inr: "findTransfer i d = Inr row \<longleftrightarrow> map_of (custodyTransfers d) i = Some row"
  by (simp add: findTransfer_def split: option.splits)

text \<open>Rewriting one row, with the ledger rows that belong to the change, keeps the table sound.\<close>

lemma rewrite_sound:
  assumes s: "deposits_sound chain d" and row: "map_of (custodyTransfers d) i = Some row"
    and T: "custodyTransfers d' = AList.update i row' (custodyTransfers d)"
    and core: "ct_kind row' = ct_kind row" "ct_txSignature row' = ct_txSignature row" "ct_amountLamports row' = ct_amountLamports row"
      "ct_status row = Held"
    and L: "\<And>j. credits j d' = (if j = i then credit_due (Some row') else credits j d)"
  shows "deposits_sound chain d'"
proof -
  have k: "keyed (custodyTransfers d)" and ok: "\<And>i t. map_of (custodyTransfers d) i = Some t \<Longrightarrow> deposit_row_ok chain t"
    and one: "\<And>i j t t' s. map_of (custodyTransfers d) i = Some t \<Longrightarrow> map_of (custodyTransfers d) j = Some t'
          \<Longrightarrow> ct_txSignature t = Some s \<Longrightarrow> ct_txSignature t' = Some s \<Longrightarrow> i = j"
    and cr: "\<And>i. credits i d = credit_due (map_of (custodyTransfers d) i)"
    using s unfolding deposits_sound_def by blast+
  have m: "map_of (custodyTransfers d') = (map_of (custodyTransfers d))(i \<mapsto> row')" by (simp add: T)
  have r': "deposit_row_ok chain row'" using ok[OF row] core by (simp add: deposit_row_ok_def)
  have sig: "\<exists>t. map_of (custodyTransfers d) j = Some t \<and> ct_txSignature t = ct_txSignature t'"
    if "map_of (custodyTransfers d') j = Some t'" for j t'
    using that row core by (auto simp: m split: if_splits)
  show ?thesis unfolding deposits_sound_def
  proof (intro conjI allI impI)
    show "keyed (custodyTransfers d')" using k by (simp add: T)
    show "deposit_row_ok chain t" if "map_of (custodyTransfers d') j = Some t" for j t
      using that ok r' by (auto simp: m split: if_splits)
    show "a = j" if "map_of (custodyTransfers d') a = Some t" "map_of (custodyTransfers d') j = Some t'"
      "ct_txSignature t = Some x" "ct_txSignature t' = Some x" for a j t t' x
      using sig[OF that(1)] sig[OF that(2)] that(3,4) one by metis
    show "credits j d' = credit_due (map_of (custodyTransfers d') j)" for j
      using L[of j] cr[of j] by (simp add: m)
  qed
qed


lemma deposits_sound_cong: "deposits_sound chain d \<Longrightarrow> custodyTransfers d' = custodyTransfers d \<Longrightarrow> ledger d' = ledger d
    \<Longrightarrow> deposits_sound chain d'"
  unfolding deposits_sound_def credits_def by simp

lemma hold_sound:
  assumes "deposits_sound chain d" and "findTransfer i d = Inr row" and "ct_status row = Held"
  shows "deposits_sound chain (snd (hold i row why uid d))"
proof (rule rewrite_sound[OF assms(1), where i = i and row = row and row' = "row\<lparr>ct_heldReason := Some why, ct_userId := uid\<rparr>"])
  have "credits i d = credit_due (Some row)" using assms by (simp add: deposits_sound_def findTransfer_Inr)
  then show "credits j (snd (hold i row why uid d)) =
      (if j = i then credit_due (Some (row\<lparr>ct_heldReason := Some why, ct_userId := uid\<rparr>)) else credits j d)" for j
    using assms(3) by (simp add: hold_def Let_def credits_def)
qed (use assms in \<open>auto simp: findTransfer_Inr hold_def Let_def\<close>)

lemma pay_in_sound:
  assumes s: "deposits_sound chain d" and row: "findTransfer i d = Inr row" "ct_status row = Held"
    and u: "map_of (users d) uid = Some u" and p: "pay_in now i row uid u d = Inr out"
  shows "deposits_sound chain (snd out)"
proof -
  obtain row' d' where out: "out = (row', d')" by (cases out)
  obtain rs r where p: "row' = row\<lparr>ct_status := Credited, ct_userId := Some uid, ct_heldReason := None, ct_settledAt := Some now\<rparr>"
    "custodyTransfers d' = AList.update i row' (custodyTransfers d)"
    "ledger d' = ledger d @ rs @ [r]" "\<forall>c\<in>set rs. l_reason c = ''custody_conversion''"
    "l_reason r = ''custody_deposit''" "l_refId r = Some i" "posting_of r = (uid, Jeton, ct_amountLamports row)"
    by (rule pay_in_spec[OF p[unfolded out] u]) (rule that, assumption+)
  have T: "map_of (custodyTransfers d) i = Some row" using row(1) by (simp add: findTransfer_Inr)
  have D: "ct_kind row = Deposit" and c: "credits i d = credit_due (Some row)"
    using s T row(2) by (auto simp: deposits_sound_def deposit_row_ok_def)
  have none: "filter (\<lambda>r. l_reason r = ''custody_deposit'' \<and> l_refId r = Some j) rs = []" for j
    using p(4) by (simp add: filter_empty_conv)
  have "deposits_sound chain d'"
  proof (rule rewrite_sound[OF s T p(2)])
    show "credits j d' = (if j = i then credit_due (Some row') else credits j d)" for j
      using c D row(2) none[of j] p(5,6,7) by (simp add: credits_append[OF p(3)] p(1))
  qed (use p(1) row(2) in simp_all)
  then show ?thesis by (simp add: out)
qed

lemma credit_sound:
  assumes "deposits_sound chain d" and "credit cfg env i d = Inr out"
  shows "deposits_sound chain (snd out)"
  using assms(2) by (cases rule: credit_cases) (use assms(1) hold_sound pay_in_sound in auto)

lemma custody_sel: "custodyTransfers (d\<lparr>custodyTransfers := t\<rparr>) = t"
  by simp

lemma record_snd:
  "snd (record_deposit cfg now s slot amount signers d) =
     (if (owners signers d = [] \<and> amount < minDepositLamports cfg) \<or> by_signature s d \<noteq> None then d
      else d\<lparr>custodyTransfers := custodyTransfers d @ [(fresh_key (custodyTransfers d), new_deposit s slot amount signers now d)]\<rparr>)"
  by (cases "by_signature s d") (simp_all add: record_deposit_def insert_row_def Let_def)

lemma record_sound:
  assumes s: "deposits_sound chain d" and a: "inbound chain s = Some amount"
  shows "deposits_sound chain (snd (record_deposit cfg now s slot amount signers d))"
proof (cases "(owners signers d = [] \<and> amount < minDepositLamports cfg) \<or> by_signature s d \<noteq> None")
  case True
  then show ?thesis using s by (simp only: record_snd if_True)
next
  case False
  define row where "row = new_deposit s slot amount signers now d"
  let ?T = "custodyTransfers d" and ?i = "fresh_key (custodyTransfers d)"
  have row: "ct_kind row = Deposit" "ct_status row = Held" "ct_txSignature row = Some s" "ct_amountLamports row = amount"
    by (simp_all add: row_def new_deposit_def Let_def)
  have d': "snd (record_deposit cfg now s slot amount signers d) = d\<lparr>custodyTransfers := ?T @ [(?i, row)]\<rparr>"
    using False unfolding record_snd row_def by (simp only: if_False)
  have fresh: "ct_txSignature t \<noteq> Some s" if "map_of ?T j = Some t" for j t
    using False map_of_SomeD[OF that] by (auto simp: by_signature_def find_None_iff)
  have m: "map_of (?T @ [(?i, row)]) = (map_of ?T)(?i \<mapsto> row)" by (rule map_of_snoc_fresh)
  have "keyed (?T @ [(?i, row)])" using s by (auto simp: deposits_sound_def keyed_def dest: fresh_key_greater)
  moreover have "deposit_row_ok chain t" if "((map_of ?T)(?i \<mapsto> row)) j = Some t" for j t
    using that s row a by (auto simp: deposits_sound_def deposit_row_ok_def split: if_splits)
  moreover have "j = k" if "((map_of ?T)(?i \<mapsto> row)) j = Some t" "((map_of ?T)(?i \<mapsto> row)) k = Some t'"
      "ct_txSignature t = Some x" "ct_txSignature t' = Some x" for j k t t' x
    using that s row(3) fresh unfolding deposits_sound_def by (auto split: if_splits)
  moreover have "credits j d = credit_due (((map_of ?T)(?i \<mapsto> row)) j)" for j
    using s row(2) by (auto simp: deposits_sound_def)
  moreover have "credits j (d\<lparr>custodyTransfers := ?T @ [(?i, row)]\<rparr>) = credits j d" for j by (simp add: credits_def)
  ultimately show ?thesis
    unfolding d' deposits_sound_def by (simp only: db.select_convs db.update_convs custody_sel m) blast
qed


text \<open>What a process reads of the chain: nothing yet, or what the chain has.\<close>

definition reads_chain :: "(string \<Rightarrow> treasury_tx) \<Rightarrow> (string \<Rightarrow> treasury_tx) \<Rightarrow> bool" where
  "reads_chain chain tv \<longleftrightarrow> (\<forall>s. tv s = Tx_missing \<or> tv s = chain s)"

lemma reads_inbound:
  assumes "reads_chain chain tv" and "tv s = Tx_inbound slot a sg"
  shows "inbound chain s = Some a"
proof -
  from assms(1) have "tv s = Tx_missing \<or> tv s = chain s" by (simp add: reads_chain_def)
  with assms(2) have "chain s = Tx_inbound slot a sg" by auto
  then show ?thesis by (simp add: inbound_def)
qed

lemma settle_sound:
  assumes "deposits_sound chain d"
  shows "deposits_sound chain (snd (settle_known cfg env i row d))"
proof (cases "credit cfg env i d")
  case (Inr out)
  then show ?thesis using assms credit_sound[OF assms Inr] by (cases out) (simp add: settle_known_def)
qed (simp add: settle_known_def assms)

lemma confirm_sound:
  assumes s: "deposits_sound chain d" and c: "reads_chain chain tv"
  shows "deposits_sound chain (snd (confirm_deposit cfg env active tv s d))"
proof (cases "by_signature s d")
  case (Some p) then show ?thesis using s settle_sound by (cases p) (auto simp: confirm_deposit_def)
next
  case None
  show ?thesis
  proof (cases "tv s")
    case (Tx_inbound slot a sg)
    have "deposits_sound chain (snd (record_deposit cfg (now_ms env) s slot a sg d))"
      by (rule record_sound[OF s reads_inbound[OF c Tx_inbound]])
    then show ?thesis using s None Tx_inbound settle_sound
      by (cases "record_deposit cfg (now_ms env) s slot a sg d") (auto simp: confirm_deposit_def split: option.splits)
  qed (use s None in \<open>auto simp: confirm_deposit_def\<close>)
qed

lemma scan_signatures_sound:
  assumes "reads_chain chain tv" and "deposits_sound chain d"
  shows "deposits_sound chain (snd (scan_signatures cfg env tv ss n d))"
  using assms(2)
proof (induction ss arbitrary: n d)
  case (Cons s ss)
  have next_ok: "deposits_sound chain (snd (scan_signatures cfg env tv ss m (d1\<lparr>scanCursor := Some s\<rparr>)))"
    if "deposits_sound chain d1" for m d1 by (rule Cons.IH[OF deposits_sound_cong[OF that]]) simp_all
  show ?case
  proof (cases "by_signature s d \<noteq> None")
    case True then show ?thesis using next_ok[OF Cons.prems] by (simp add: Let_def)
  next
    case False
    show ?thesis
    proof (cases "tv s")
      case (Tx_inbound slot a sg)
      have "deposits_sound chain (snd (record_deposit cfg (now_ms env) s slot a sg d))"
        by (rule record_sound[OF Cons.prems reads_inbound[OF assms(1) Tx_inbound]])
      then show ?thesis using next_ok False Tx_inbound
        by (cases "record_deposit cfg (now_ms env) s slot a sg d") (simp add: Let_def)
    qed (use False Cons.prems next_ok in \<open>simp_all add: Let_def\<close>)
  qed
qed simp

lemma retry_each_sound: "deposits_sound chain d \<Longrightarrow> deposits_sound chain (snd (retry_each cfg env is n d))"
proof (induction "is" arbitrary: n d)
  case (Cons i "is")
  show ?case
  proof (cases "credit cfg env i d")
    case (Inr out)
    then show ?thesis using Cons.IH[OF credit_sound[OF Cons.prems Inr]] by (cases out) simp
  qed (simp add: Cons)
qed simp

lemma scan_once_sound:
  assumes "deposits_sound chain d" and "reads_chain chain tv"
  shows "deposits_sound chain (snd (scanOnce cfg env active since tv d))"
proof -
  have "deposits_sound chain (snd (scan_signatures cfg env tv (since (scanCursor d)) 0 d))"
    by (rule scan_signatures_sound[OF assms(2,1)])
  moreover have "snd (scanOnce cfg env active since tv d) = (if active
      then snd (retryHeld cfg env (snd (scan_signatures cfg env tv (since (scanCursor d)) 0 d))) else d)"
    by (simp add: scanOnce_def Let_def split: prod.split)
  ultimately show ?thesis using assms(1) by (simp add: retryHeld_def retry_each_sound)
qed

datatype deposit_cmd =
    Confirm_signature wager_env bool "string \<Rightarrow> treasury_tx" string
  | Scan wager_env bool "string option \<Rightarrow> string list" "string \<Rightarrow> treasury_tx"

fun deposit_step :: "custody_cfg \<Rightarrow> deposit_cmd \<Rightarrow> db \<Rightarrow> db" where
  "deposit_step cfg (Confirm_signature env active tv s) d = snd (confirm_deposit cfg env active tv s d)"
| "deposit_step cfg (Scan env active since tv) d = snd (scanOnce cfg env active since tv d)"

fun cmd_view :: "deposit_cmd \<Rightarrow> string \<Rightarrow> treasury_tx" where
  "cmd_view (Confirm_signature env active tv s) = tv"
| "cmd_view (Scan env active since tv) = tv"

lemma deposit_run_sound:
  assumes "deposits_sound chain d" and "list_all (\<lambda>c. reads_chain chain (cmd_view c)) cmds"
  shows "deposits_sound chain (fold (deposit_step cfg) cmds d)"
  using assms
proof (induction cmds arbitrary: d)
  case (Cons c cmds)
  then show ?case using confirm_sound scan_once_sound by (cases c) auto
qed simp


text \<open>
  C2. Deposits are credited exactly once. Take any sequence of confirmations and treasury scans, by any number of
  processes, each of which sees of the chain either nothing yet or what the chain has. Afterwards a deposit row still
  states the amount that the chain transferred with its signature, no other row has this signature, and the ledger
  holds exactly one credit for it, of this amount to its owner, if the row is credited, and none otherwise.
\<close>

theorem deposit_credited_once:
  assumes "deposits_sound chain d" and "list_all (\<lambda>c. reads_chain chain (cmd_view c)) cmds"
    and "map_of (custodyTransfers (fold (deposit_step cfg) cmds d)) i = Some t" and "ct_kind t = Deposit"
  shows "\<exists>s. ct_txSignature t = Some s \<and> inbound chain s = Some (ct_amountLamports t)
     \<and> (\<forall>j t'. map_of (custodyTransfers (fold (deposit_step cfg) cmds d)) j = Some t' \<and> ct_txSignature t' = Some s \<longrightarrow> j = i)
     \<and> credits i (fold (deposit_step cfg) cmds d)
         = (if ct_status t = Credited then [(the (ct_userId t), Jeton, ct_amountLamports t)] else [])"
proof -
  have s: "deposits_sound chain (fold (deposit_step cfg) cmds d)" by (rule deposit_run_sound[OF assms(1,2)])
  then obtain x where x: "ct_txSignature t = Some x" "inbound chain x = Some (ct_amountLamports t)"
    using assms(3,4) unfolding deposits_sound_def deposit_row_ok_def by blast
  moreover have "credits i (fold (deposit_step cfg) cmds d) = credit_due (Some t)"
    using s assms(3) unfolding deposits_sound_def by metis
  moreover have "\<forall>j t'. map_of (custodyTransfers (fold (deposit_step cfg) cmds d)) j = Some t' \<and> ct_txSignature t' = Some x \<longrightarrow> j = i"
    using s assms(3) x(1) unfolding deposits_sound_def by blast
  ultimately show ?thesis using assms(4) by auto
qed

definition deposit_chain :: "string \<Rightarrow> treasury_tx" where
  "deposit_chain s = (if s = ''s1'' then Tx_inbound 5 20000000 [''w''] else Tx_missing)"

definition deposit_db :: db where
  "deposit_db = empty_db\<lparr>users := [(7, new_user\<lparr>walletAddress := ''w''\<rparr>)]\<rparr>"

definition deposit_env :: wager_env where
  "deposit_env = \<lparr>paused = False, realMoneyEnabled = False, now_ms = 1000\<rparr>"

definition deposit_cmds :: "deposit_cmd list" where
  "deposit_cmds = [Confirm_signature deposit_env True (\<lambda>_. Tx_missing) ''s1'', Scan deposit_env True (\<lambda>_. [''s1'']) deposit_chain,
     Confirm_signature deposit_env True deposit_chain ''s1'', Scan deposit_env True (\<lambda>_. [''s1'']) deposit_chain]"

lemma deposit_db_sound: "deposits_sound deposit_chain deposit_db"
  by (simp add: deposits_sound_def deposit_db_def credits_def)

definition deposit_end :: db where
  "deposit_end = fold (deposit_step default_custody) deposit_cmds deposit_db"

lemma deposit_end_row: "map_of (custodyTransfers deposit_end) 0 = Some \<lparr>ct_kind = Deposit, ct_status = Credited, ct_userId = Some 7,
   ct_wallet = ''w'', ct_amountLamports = 20000000, ct_txSignature = Some ''s1'', ct_slot = Some 5, ct_lastValidBlockHeight = None,
   ct_attempts = 0, ct_heldReason = None, ct_error = None, ct_settledAt = Some 1000, ct_createdAt = 1000\<rparr>"
  by code_simp


theorem deposit_credited_once_witness:
  "credits 0 (fold (deposit_step default_custody) deposit_cmds deposit_db) = [(7, Jeton, 20000000)]"
  using deposit_credited_once[OF deposit_db_sound _ deposit_end_row[unfolded deposit_end_def]]
  by (simp add: deposit_cmds_def reads_chain_def deposit_chain_def)

text \<open>
  The first deposit turns the account into a real-money one, and nothing earned with play money survives to be
  withdrawn. Whenever a credit settles a held deposit, the deposit reaches the minimum and passes the deposit limits,
  and the money that moves is the deposit and nothing else, except that the first deposit of an account also takes
  the whole play balance away: the balance is then the deposit, no play position is open, no referral commission is
  left to claim, and the account is marked as funded.
\<close>

theorem first_deposit_converts:
  assumes "credit cfg env i d = Inr (row', d')" and "findTransfer i d = Inr row" and "ct_status row = Held"
    and "ct_status row' = Credited" and "\<forall>v. 0 \<le> bal d v Jeton"
  shows "\<exists>uid u. map_of (users d) uid = Some u \<and> ct_userId row' = Some uid
     \<and> ct_amountLamports row' = ct_amountLamports row \<and> minDepositLamports cfg \<le> ct_amountLamports row
     \<and> depositBlock env uid (ct_amountLamports row) d = Inr None
     \<and> (fundedAt u \<noteq> None \<longrightarrow> posts [(uid, Jeton, ct_amountLamports row)] d d')
     \<and> (fundedAt u = None \<longrightarrow> openPlayPositions uid d = []
          \<and> posts ((if 0 < playBalanceLamports u then [(uid, Jeton, - playBalanceLamports u)] else [])
               @ [(uid, Jeton, ct_amountLamports row)]) d d'
          \<and> bal d' uid Jeton = ct_amountLamports row
          \<and> map_option fundedAt (map_of (users d') uid) = Some (Some (now_ms env))
          \<and> (\<forall>(k, r)\<in>set (referrals d'). rf_referrerId r = uid \<longrightarrow> rf_commissionLamports r \<le> rf_commissionClaimedLamports r))"
  using assms(1)
proof (cases rule: credit_cases)
  case (paid row0 uid u)
  have r0: "row0 = row" using paid(1) assms(2) by simp
  note P = pay_in_spec[OF paid(7) paid(5)]
  have shape: "ct_userId row' = Some uid" "ct_amountLamports row' = ct_amountLamports row" by (rule P; simp add: r0)+
  have money: "posts ((if fundedAt u = None then convert_journal uid (playBalanceLamports u) else [])
     @ [(uid, Jeton, ct_amountLamports row)]) d d'" by (rule P) (simp only: r0)
  have real: "fundedAt u = None \<Longrightarrow> map_option fundedAt (map_of (users d') uid) = Some (Some (now_ms env))
       \<and> (\<forall>(k, r)\<in>set (referrals d'). rf_referrerId r = uid \<longrightarrow> rf_commissionLamports r \<le> rf_commissionClaimedLamports r)"
    by (rule P) simp
  have "0 \<le> playBalanceLamports u" "bal d uid Jeton = playBalanceLamports u"
    using assms(5)[rule_format, of uid] paid(5) by (auto simp: bal_def)
  then have "bal d' uid Jeton = ct_amountLamports row" if "fundedAt u = None"
    using posts_bal[OF money, of uid Jeton] that by (auto simp: convert_journal_def)
  moreover have "posts [(uid, Jeton, ct_amountLamports row)] d d'" if "fundedAt u \<noteq> None"
    using money that by (simp only: if_False append_Nil)
  moreover have "posts ((if 0 < playBalanceLamports u then [(uid, Jeton, - playBalanceLamports u)] else [])
     @ [(uid, Jeton, ct_amountLamports row)]) d d'" if "fundedAt u = None"
    using money that by (simp only: if_True convert_journal_def refl)
  ultimately show ?thesis using paid(3-6) shape real unfolding r0
    by (intro exI[of _ uid] exI[of _ u] conjI impI) blast+
qed (use assms in \<open>auto simp: hold_def Let_def\<close>)

theorem first_deposit_converts_witness:
  "case credit default_custody deposit_env 0 (deposit_db\<lparr>custodyTransfers := [(0, new_deposit ''s1'' 5 20000000 [''w''] 1 deposit_db)]\<rparr>) of
     Inr (row', d') \<Rightarrow> bal d' 7 Jeton = 20000000 | Inl e \<Rightarrow> False"
proof -
  define d where "d = deposit_db\<lparr>custodyTransfers := [(0, new_deposit ''s1'' 5 20000000 [''w''] 1 deposit_db)]\<rparr>"
  have run: "case credit default_custody deposit_env 0 d of Inr (row', d') \<Rightarrow> ct_status row' = Credited \<and> ct_userId row' = Some 7 | Inl e \<Rightarrow> False"
    unfolding d_def by code_simp
  then obtain row' d' where c: "credit default_custody deposit_env 0 d = Inr (row', d')" "ct_status row' = Credited" "ct_userId row' = Some 7"
    by (auto split: sum.splits)
  have f: "findTransfer 0 d = Inr (new_deposit ''s1'' 5 20000000 [''w''] 1 deposit_db)"
    by (simp add: findTransfer_Inr d_def)
  have "\<forall>v. 0 \<le> bal d v Jeton" by (simp add: bal_def d_def deposit_db_def)
  from first_deposit_converts[OF c(1) f _ c(2) this] c(3)
  have "bal d' 7 Jeton = 20000000"
    by (auto simp: new_deposit_def d_def deposit_db_def Let_def)
  then show ?thesis using c(1) by (simp add: d_def)
qed


subsection \<open>Held deposits that block the queue\<close>

definition held_deposits :: "db \<Rightarrow> (nat \<times> custody_transfer) list" where
  "held_deposits d = filter (\<lambda>(_, t). ct_kind t = Deposit \<and> ct_status t = Held) (custodyTransfers d)"

text \<open>Deposits that no later credit can settle: too small, or signed by several accounts.\<close>

definition dead_end :: "custody_cfg \<Rightarrow> custody_transfer \<Rightarrow> bool" where
  "dead_end cfg t \<longleftrightarrow> ct_heldReason t = Some Ambiguous_sender
     \<or> ct_heldReason t = Some Below_minimum \<and> ct_userId t \<noteq> None \<and> ct_amountLamports t < minDepositLamports cfg"

definition queue_blocked :: "custody_cfg \<Rightarrow> db \<Rightarrow> bool" where
  "queue_blocked cfg d \<longleftrightarrow> keyed (custodyTransfers d) \<and> HOLD_RETRY_BATCH \<le> length (held_deposits d)
     \<and> list_all (\<lambda>(_, t). dead_end cfg t) (take HOLD_RETRY_BATCH (held_deposits d))"

lemma update_idle: "map_of t k = Some v \<Longrightarrow> keyed t \<Longrightarrow> AList.update k v t = t"
  by (induction t) (auto simp: keyed_def rev_image_eqI)

lemma credit_dead_end:
  assumes "keyed (custodyTransfers d)" and "(i, t) \<in> set (held_deposits d)" and "dead_end cfg t"
  shows "credit cfg env i d = Inr (t, d)"
proof -
  have t: "map_of (custodyTransfers d) i = Some t" "ct_status t = Held"
    using assms(1,2) by (auto simp: held_deposits_def keyed_def)
  have f: "findTransfer i d = Inr t" by (simp add: findTransfer_Inr t)
  show ?thesis
  proof (cases "ct_heldReason t = Some Ambiguous_sender")
    case True then show ?thesis by (simp add: credit_def f)
  next
    case False
    then have b: "ct_heldReason t = Some Below_minimum" "ct_userId t \<noteq> None" "ct_amountLamports t < minDepositLamports cfg"
      using assms(3) by (auto simp: dead_end_def)
    obtain uid where uid: "ct_userId t = Some uid" using b(2) by auto
    have same: "t\<lparr>ct_heldReason := Some Below_minimum, ct_userId := Some uid\<rparr> = t" using b(1) uid by (cases t) simp
    have "put_transfer i t d = d" using update_idle[OF t(1) assms(1)] by (simp add: put_transfer_def)
    then have "hold i t Below_minimum (Some uid) d = (t, d)" unfolding hold_def same by simp
    then show ?thesis using b uid t(2) by (simp add: credit_def f owner_of_def credit_to_def)
  qed
qed

lemma retry_dead_ends:
  assumes "keyed (custodyTransfers d)" and "set ts \<subseteq> set (held_deposits d)" and "list_all (\<lambda>(_, t). dead_end cfg t) ts"
  shows "retry_each cfg env (map fst ts) n d = (n, d)"
  using assms(2,3)
proof (induction ts)
  case (Cons p ts)
  obtain i t where p: "p = (i, t)" by (cases p)
  have "credit cfg env i d = Inr (t, d)" by (rule credit_dead_end[OF assms(1)]) (use Cons.prems p in auto)
  moreover have "ct_status t \<noteq> Credited" using Cons.prems p by (auto simp: held_deposits_def)
  ultimately show ?case using Cons p by simp
qed simp

lemma record_keeps_queue:
  assumes "queue_blocked cfg d"
  shows "queue_blocked cfg (snd (record_deposit cfg now s slot amount signers d))
     \<and> ledger (snd (record_deposit cfg now s slot amount signers d)) = ledger d"
proof -
  have app: "queue_blocked cfg (d\<lparr>custodyTransfers := custodyTransfers d @ [(fresh_key (custodyTransfers d), t)]\<rparr>)" for t
    using assms by (auto simp: queue_blocked_def held_deposits_def keyed_def dest: fresh_key_greater)
  show ?thesis using assms app unfolding record_snd by (simp split: if_split)
qed

lemma scan_keeps_queue: "queue_blocked cfg d \<Longrightarrow> queue_blocked cfg (snd (scan_signatures cfg env tv ss n d))
     \<and> ledger (snd (scan_signatures cfg env tv ss n d)) = ledger d"
proof (induction ss arbitrary: n d)
  case (Cons s ss)
  have nxt: "queue_blocked cfg (snd (scan_signatures cfg env tv ss m (d1\<lparr>scanCursor := Some s\<rparr>)))
     \<and> ledger (snd (scan_signatures cfg env tv ss m (d1\<lparr>scanCursor := Some s\<rparr>))) = ledger d1"
    if "queue_blocked cfg d1" for m d1
    using Cons.IH[of "d1\<lparr>scanCursor := Some s\<rparr>" m] that by (simp add: queue_blocked_def held_deposits_def)
  show ?case
  proof (cases "by_signature s d \<noteq> None")
    case False
    show ?thesis
    proof (cases "tv s")
      case (Tx_inbound slot a sg)
      then show ?thesis using False nxt record_keeps_queue[OF Cons.prems, of "now_ms env" s slot a sg]
        by (cases "record_deposit cfg (now_ms env) s slot a sg d") (simp add: Let_def)
    qed (use False Cons.prems nxt in \<open>simp_all add: Let_def\<close>)
  qed (use nxt[OF Cons.prems] in \<open>simp add: Let_def\<close>)
qed simp

text \<open>
  Deposits that can never be credited starve the others. When the hundred oldest held deposits are below the
  minimum or signed by several accounts, every scan spends its whole retry batch on them: whatever the chain holds,
  it credits nothing and moves no money, and the queue is blocked again at the end, so that no later scan credits
  anything either.
\<close>

theorem held_queue_starves:
  assumes "queue_blocked cfg d"
  shows "queue_blocked cfg (snd (scanOnce cfg env active since tv d))
     \<and> ledger (snd (scanOnce cfg env active since tv d)) = ledger d
     \<and> (case fst (scanOnce cfg env active since tv d) of Inr (_, credited) \<Rightarrow> credited = 0 | Inl _ \<Rightarrow> \<not> active)"
proof -
  obtain n d1 where sc: "scan_signatures cfg env tv (since (scanCursor d)) 0 d = (n, d1)" by fastforce
  have d1: "queue_blocked cfg d1" "ledger d1 = ledger d"
    using scan_keeps_queue[OF assms, of env tv "since (scanCursor d)" 0] by (simp_all add: sc)
  have "retry_each cfg env (map fst (take HOLD_RETRY_BATCH (held_deposits d1))) 0 d1 = (0, d1)"
    by (rule retry_dead_ends[OF _ set_take_subset]) (use d1(1) in \<open>simp_all add: queue_blocked_def\<close>)
  then have "retryHeld cfg env d1 = (0, d1)" by (simp only: retryHeld_def held_deposits_def take_map)
  then show ?thesis using assms d1 by (auto simp: scanOnce_def Let_def sc)
qed


text \<open>A hundred deposits of one lamport, and one of a hundred SOL behind them.\<close>

definition dust_row :: custody_transfer where
  "dust_row = \<lparr>ct_kind = Deposit, ct_status = Held, ct_userId = Some 8, ct_wallet = ''x'', ct_amountLamports = 1,
     ct_txSignature = None, ct_slot = Some 1, ct_lastValidBlockHeight = None, ct_attempts = 0, ct_heldReason = Some Below_minimum,
     ct_error = None, ct_settledAt = None, ct_createdAt = 1\<rparr>"

definition dust_db :: db where
  "dust_db = empty_db\<lparr>users := [(7, new_user)],
     custodyTransfers := map (\<lambda>i. (i, dust_row)) [0..<100]
       @ [(100, dust_row\<lparr>ct_userId := Some 7, ct_amountLamports := 100000000000, ct_heldReason := None\<rparr>)]\<rparr>"

lemma dust_blocks: "queue_blocked default_custody dust_db"
proof -
  have h: "held_deposits dust_db = map (\<lambda>i. (i, dust_row)) [0..<100]
       @ [(100, dust_row\<lparr>ct_userId := Some 7, ct_amountLamports := 100000000000, ct_heldReason := None\<rparr>)]"
    by (simp add: held_deposits_def dust_db_def dust_row_def filter_map comp_def del: upt_rec_numeral)
  have "dead_end default_custody dust_row"
    by (simp add: dead_end_def dust_row_def default_custody_def LAMPORTS_PER_SOL_def bigint_div_def)
  moreover have "keyed (custodyTransfers dust_db)"
    by (simp add: keyed_def dust_db_def comp_def del: upt_rec_numeral)
  ultimately show ?thesis
    by (simp add: queue_blocked_def h HOLD_RETRY_BATCH_def list_all_iff del: upt_rec_numeral)
qed

theorem held_queue_starves_witness:
  "ledger (snd (scanOnce default_custody deposit_env True (\<lambda>_. []) deposit_chain dust_db)) = []"
  using held_queue_starves[OF dust_blocks, of deposit_env True "\<lambda>_. []" deposit_chain] by (simp add: dust_db_def)

end
