(* ===== verification/Staking.thy ===== *)
theory Staking
  imports Transactions Periods
begin

text \<open>
  The liquid staking tier of the engine: \<open>apps/api/src/staking/staking.service.ts\<close>. \<open>chain\<close> says whether the
  chain is live, which the summary only reports.
\<close>

subsection \<open>Summary\<close>

definition MIN_STAKE_SCAD_BASE :: int where "MIN_STAKE_SCAD_BASE = 1000000000"

definition rounds_per_year :: rat where
  "rounds_per_year = 365 * 24 * 60 * 60 * 1000 / (60 * 60 * 1000)"

definition estimateApyPct :: "distribution_round option \<Rightarrow> rat" where
  "estimateApyPct lastRound = (case lastRound of
      None \<Rightarrow> 0
    | Some r \<Rightarrow> if dr_totalStakedSnapshot r \<le> 0 then 0
        else let perRoundYield = fl (fl (of_int (dr_poolUsds r)) / fl (of_int (dr_totalStakedSnapshot r)))
             in fl (of_int (js_round (fl (fl (fl (perRoundYield * rounds_per_year) * 100) * 100))) / 100))"

record stake_summary =
  ss_spendableScad :: int
  ss_stakedScad :: int
  ss_usdsBalance :: int
  ss_usdsReserved :: int
  ss_totalUsdsEarned :: int
  ss_estApyPct :: rat
  ss_autoStakeEnabled :: bool
  ss_minStakeScad :: int
  ss_chainEnabled :: bool

text \<open>Newest first: a row without a time comes before all others in descending order.\<close>

definition newest :: "('a \<Rightarrow> int option) \<Rightarrow> 'a list \<Rightarrow> 'a list" where
  "newest t xs = filter (\<lambda>x. t x = None) xs @ sort_key (\<lambda>x. - the (t x)) (filter (\<lambda>x. t x \<noteq> None) xs)"

definition first_row :: "'a list \<Rightarrow> 'a option" where
  "first_row xs = (case xs of [] \<Rightarrow> None | x # _ \<Rightarrow> Some x)"

definition serializeSummary :: "bool \<Rightarrow> nat \<Rightarrow> db \<Rightarrow> stake_summary result" where
  "serializeSummary chain userId d = (case map_of (users d) userId of
      None \<Rightarrow> Inl (NotFound ''User not found'')
    | Some u \<Rightarrow>
        let earned = sum_list (map dc_shareUsds (filter (\<lambda>c. dc_userId c = userId) (distributionClaims d)));
            lastRound = first_row (newest dr_distributedAt
              (filter (\<lambda>r. dr_distributed r \<and> dr_totalStakedSnapshot r > 0) (map snd (distributionRounds d))))
        in Inr \<lparr>ss_spendableScad = scadiumBalance u, ss_stakedScad = scadiumStaked u, ss_usdsBalance = usdsBalance u,
             ss_usdsReserved = usdsReserved u, ss_totalUsdsEarned = earned, ss_estApyPct = estimateApyPct lastRound,
             ss_autoStakeEnabled = autoStakeEnabled u, ss_minStakeScad = MIN_STAKE_SCAD_BASE, ss_chainEnabled = chain\<rparr>)"

subsection \<open>Stake and unstake\<close>

definition stake_meta :: "currency \<Rightarrow> string \<Rightarrow> meta" where
  "stake_meta c why = (jeton_meta why ''StakeEvent'')\<lparr>currency := c\<rparr>"

fun kind_name :: "stake_kind \<Rightarrow> string" where
  "kind_name Stake = ''stake''"
| "kind_name AutoStake = ''auto_stake''"
| "kind_name Unstake = ''unstake''"

definition create_stake_event :: "nat \<Rightarrow> stake_kind \<Rightarrow> int \<Rightarrow> int \<Rightarrow> db \<Rightarrow> db" where
  "create_stake_event userId kind amount stakedAfter d =
     d\<lparr>stakeEvents := stakeEvents d @ [\<lparr>se_userId = userId, se_kind = kind, se_amountScad = amount, se_stakedAfter = stakedAfter\<rparr>]\<rparr>"

text \<open>Spendable to staked, with the lock cleared and the event recorded: the body that every stake shares.\<close>

definition stake_legs :: "nat \<Rightarrow> int \<Rightarrow> stake_kind \<Rightarrow> db \<Rightarrow> db result" where
  "stake_legs userId amount kind d =
     bindE (applyBalanceDelta userId (- amount) (stake_meta Scad (kind_name kind)) d) (\<lambda>(_, d1).
     bindE (applyBalanceDelta userId amount (stake_meta Scad_staked (kind_name kind)) d1) (\<lambda>(stakedAfter, d2).
     bindE (updateUser userId (\<lambda>u. u\<lparr>stakeLockedUntil := None\<rparr>) d2) (\<lambda>d3.
       Inr (create_stake_event userId kind amount stakedAfter d3))))"

definition move :: "bool \<Rightarrow> nat \<Rightarrow> int \<Rightarrow> stake_kind \<Rightarrow> db \<Rightarrow> (stake_summary \<times> db) result" where
  "move chain userId amount kind d =
     bindE (stake_legs userId amount kind d) (\<lambda>d1.
     bindE (serializeSummary chain userId d1) (\<lambda>s. Inr (s, d1)))"

definition stake :: "bool \<Rightarrow> nat \<Rightarrow> int \<Rightarrow> db \<Rightarrow> (stake_summary \<times> db) result" where
  "stake chain userId amount d =
     (if amount < MIN_STAKE_SCAD_BASE then Inl (BadRequest ''Minimum stake'') else move chain userId amount Stake d)"

text \<open>The whole balance is read before the transaction of \<open>move\<close> begins; \<open>d\<close> is what it reads.\<close>

definition claimAndStake :: "bool \<Rightarrow> nat \<Rightarrow> db \<Rightarrow> db \<Rightarrow> (stake_summary \<times> db) result" where
  "claimAndStake chain userId d d' = (case map_of (users d) userId of
      None \<Rightarrow> Inl (NotFound ''User not found'')
    | Some u \<Rightarrow> if scadiumBalance u < MIN_STAKE_SCAD_BASE then Inl (BadRequest ''Nothing to stake'')
        else move chain userId (scadiumBalance u) AutoStake d')"

definition unstake :: "bool \<Rightarrow> nat \<Rightarrow> int \<Rightarrow> db \<Rightarrow> (stake_summary \<times> db) result" where
  "unstake chain userId amount d =
     (if amount \<le> 0 then Inl (BadRequest ''Amount must be positive'')
      else case map_of (users d) userId of
        None \<Rightarrow> Inl (NotFound ''User not found'')
      | Some u \<Rightarrow> if amount > scadiumStaked u then Inl (BadRequest ''Amount exceeds staked balance'')
          else
          bindE (applyBalanceDelta userId (- amount) (stake_meta Scad_staked ''unstake'') d) (\<lambda>(stakedAfter, d1).
          bindE (applyBalanceDelta userId amount (stake_meta Scad ''unstake'') d1) (\<lambda>(_, d2).
          let d3 = create_stake_event userId Unstake amount stakedAfter d2 in
          bindE (serializeSummary chain userId d3) (\<lambda>s. Inr (s, d3)))))"

subsection \<open>Auto-stake\<close>

definition autoStakeSweep :: "nat \<Rightarrow> db \<Rightarrow> (int \<times> db) result" where
  "autoStakeSweep userId d = (case map_of (users d) userId of
      None \<Rightarrow> Inr (0, d)
    | Some u \<Rightarrow>
        if \<not> autoStakeEnabled u then Inr (0, d)
        else if scadiumBalance u < MIN_STAKE_SCAD_BASE then Inr (0, d)
        else bindE (stake_legs userId (scadiumBalance u) AutoStake d) (\<lambda>d1. Inr (scadiumBalance u, d1)))"

definition getAutoStake :: "nat \<Rightarrow> db \<Rightarrow> bool result" where
  "getAutoStake userId d = (case map_of (users d) userId of None \<Rightarrow> Inl (NotFound ''User not found'') | Some u \<Rightarrow> Inr (autoStakeEnabled u))"

text \<open>Two transactions: the sweep, and then the read. An error of the sweep is the error of the call.\<close>

definition summary :: "bool \<Rightarrow> nat \<Rightarrow> db \<Rightarrow> stake_summary result \<times> db" where
  "summary chain userId d = (case autoStakeSweep userId d of
      Inl e \<Rightarrow> (Inl e, d)
    | Inr (_, d1) \<Rightarrow> (serializeSummary chain userId d1, d1))"

definition setAutoStake :: "nat \<Rightarrow> bool \<Rightarrow> db \<Rightarrow> bool result \<times> db" where
  "setAutoStake userId enabled d =
     (if map_of (users d) userId = None then (Inl (NotFound ''User not found''), d)
      else let d1 = executeUser userId (\<lambda>u. u\<lparr>autoStakeEnabled := enabled\<rparr>) d in
        if enabled then (case autoStakeSweep userId d1 of
            Inl e \<Rightarrow> (Inl e, d1)
          | Inr (_, d2) \<Rightarrow> (Inr enabled, d2))
        else (Inr enabled, d1))"


subsection \<open>The staked balance and its trail\<close>

text \<open>
  \<open>staked_events\<close> is what the recorded events of a user add up to. A move between the two columns of one user
  keeps their sum and keeps the staked balance in step with the events; \<open>stake_moves\<close> says so of two databases.
\<close>

fun signed_amount :: "stake_event \<Rightarrow> int" where
  "signed_amount e = (if se_kind e = Unstake then - se_amountScad e else se_amountScad e)"

definition staked_events :: "nat \<Rightarrow> db \<Rightarrow> int" where
  "staked_events u d = sum_list (map signed_amount (filter (\<lambda>e. se_userId e = u) (stakeEvents d)))"

definition stake_moves :: "db \<Rightarrow> db \<Rightarrow> bool" where
  "stake_moves d d' \<longleftrightarrow> (\<forall>u. bal d' u Scad_staked - staked_events u d' = bal d u Scad_staked - staked_events u d
     \<and> bal d' u Scad + bal d' u Scad_staked = bal d u Scad + bal d u Scad_staked
     \<and> (\<forall>c. c \<noteq> Scad \<longrightarrow> c \<noteq> Scad_staked \<longrightarrow> bal d' u c = bal d u c))
     \<and> (books d \<longrightarrow> books d')"

lemma stake_moves_refl [simp]: "stake_moves d d"
  by (simp add: stake_moves_def)

lemma stake_moves_trans: "stake_moves d d1 \<Longrightarrow> stake_moves d1 d2 \<Longrightarrow> stake_moves d d2"
  by (simp add: stake_moves_def)

lemma same_stake_moves: "same_money d d' \<Longrightarrow> stakeEvents d' = stakeEvents d \<Longrightarrow> stake_moves d d'"
  by (simp add: stake_moves_def same_money_def staked_events_def books_def)

lemma stake_meta_sel [simp]: "currency (stake_meta c w) = c" "maxBalance (stake_meta c w) = None"
  by (simp_all add: stake_meta_def)

lemma updateUser_events: "updateUser u f d = Inr d' \<Longrightarrow> stakeEvents d' = stakeEvents d"
  by (auto simp: updateUser_def split: option.splits)

lemma journal_stake_moves:
  assumes "posts [(u, c, - x), (u, c', x)] d d'" and "{c, c'} = {Scad, Scad_staked}"
    and "stakeEvents d' = stakeEvents d @ [e]" and "se_userId e = u" and "signed_amount e = (if c' = Scad_staked then x else - x)"
  shows "stake_moves d d'"
proof -
  have cc: "(c = Scad \<and> c' = Scad_staked) \<or> (c = Scad_staked \<and> c' = Scad)" using assms(2) by (auto simp: doubleton_eq_iff)
  have "staked_events v d' = staked_events v d + (if v = u then signed_amount e else 0)" for v
    using assms(3,4) by (simp add: staked_events_def)
  then show ?thesis using cc assms(5) posts_bal[OF assms(1)] posts_books[OF assms(1)]
    unfolding stake_moves_def by auto
qed

lemma create_event_simps [simp]: "users (create_stake_event u k a s d) = users d" "ledger (create_stake_event u k a s d) = ledger d"
  "stakeEvents (create_stake_event u k a s d) = stakeEvents d @ [\<lparr>se_userId = u, se_kind = k, se_amountScad = a, se_stakedAfter = s\<rparr>]"
  by (simp_all add: create_stake_event_def)

lemma stake_legs_spec:
  assumes "stake_legs u a k d = Inr d'"
  shows "posts [(u, Scad, - a), (u, Scad_staked, a)] d d'"
    and "stakeEvents d' = stakeEvents d @ [\<lparr>se_userId = u, se_kind = k, se_amountScad = a, se_stakedAfter = bal d' u Scad_staked\<rparr>]"
proof -
  obtain b1 d1 b2 d2 d3 where l: "applyBalanceDelta u (- a) (stake_meta Scad (kind_name k)) d = Inr (b1, d1)"
    "applyBalanceDelta u a (stake_meta Scad_staked (kind_name k)) d1 = Inr (b2, d2)"
    "updateUser u (\<lambda>u. u\<lparr>stakeLockedUntil := None\<rparr>) d2 = Inr d3" "d' = create_stake_event u k a b2 d3"
    using assms by (auto simp: stake_legs_def)
  have s: "same_money d2 d3" by (rule updateUser_same[OF l(3)]) (auto intro: keeps_balanceI)
  then have s': "same_money d2 d'" using same_money_trans[OF s same_moneyI[of d' d3]] l(4) by simp
  have p2: "posts [(u, Scad_staked, a)] d1 d'" using posts_same[OF applyBalanceDelta_posts[OF l(2)] s'] by simp
  have p1: "posts [(u, Scad, - a)] d d1" using applyBalanceDelta_posts[OF l(1)] by simp
  show "posts [(u, Scad, - a), (u, Scad_staked, a)] d d'" using posts_Cons[OF p1 p2] .
  have "b2 = bal d2 u Scad_staked" using l(2) by (auto simp: applyBalanceDelta_Inr bal_def)
  then show "stakeEvents d' = stakeEvents d @ [\<lparr>se_userId = u, se_kind = k, se_amountScad = a, se_stakedAfter = bal d' u Scad_staked\<rparr>]"
    using l(4) updateUser_events[OF l(3)] applyBalanceDelta_frame[OF l(2)] applyBalanceDelta_frame[OF l(1)] s'
    by (simp add: same_money_def)
qed

lemma unstake_spec:
  assumes "unstake chain u a d = Inr (s, d')"
  shows "posts [(u, Scad_staked, - a), (u, Scad, a)] d d'" and "0 < a"
    and "stakeEvents d' = stakeEvents d @ [\<lparr>se_userId = u, se_kind = Unstake, se_amountScad = a, se_stakedAfter = bal d' u Scad_staked\<rparr>]"
proof -
  obtain b1 d1 b2 d2 where l: "applyBalanceDelta u (- a) (stake_meta Scad_staked ''unstake'') d = Inr (b1, d1)"
    "applyBalanceDelta u a (stake_meta Scad ''unstake'') d1 = Inr (b2, d2)" "d' = create_stake_event u Unstake a b1 d2" "0 < a"
    using assms by (auto simp: unstake_def Let_def split: if_splits option.splits)
  have p1: "posts [(u, Scad_staked, - a)] d d1" using applyBalanceDelta_posts[OF l(1)] by simp
  have p2: "posts [(u, Scad, a)] d1 d'" using posts_same[OF applyBalanceDelta_posts[OF l(2)], of d'] l(3) by (simp add: same_moneyI)
  show "posts [(u, Scad_staked, - a), (u, Scad, a)] d d'" using posts_Cons[OF p1 p2] .
  show "0 < a" by (rule l(4))
  have "b1 = bal d1 u Scad_staked" using l(1) by (auto simp: applyBalanceDelta_Inr bal_def)
  then have "b1 = bal d' u Scad_staked" using posts_bal[OF p2, of u Scad_staked] by simp
  then show "stakeEvents d' = stakeEvents d @ [\<lparr>se_userId = u, se_kind = Unstake, se_amountScad = a, se_stakedAfter = bal d' u Scad_staked\<rparr>]"
    using l(3) applyBalanceDelta_frame[OF l(2)] applyBalanceDelta_frame[OF l(1)] by simp
qed

lemma move_spec:
  assumes "move chain u a k d = Inr (s, d')"
  shows "stake_legs u a k d = Inr d'"
  using assms by (auto simp: move_def)

interpretation staking_in: money_command "\<lambda>(u, a). stake chain u a" "\<lambda>(u, a) _ _. [(u, Scad, - a), (u, Scad_staked, a)]" for chain
  by unfold_locales (auto simp: stake_def split: if_splits dest!: move_spec intro: stake_legs_spec(1))

interpretation staking_out: money_command "\<lambda>(u, a). unstake chain u a" "\<lambda>(u, a) _ _. [(u, Scad_staked, - a), (u, Scad, a)]" for chain
  by unfold_locales (auto intro: unstake_spec(1))

subsection \<open>Any sequence of calls\<close>

lemma legs_stake_moves:
  assumes "stake_legs u a k d = Inr d'" and "k \<noteq> Unstake"
  shows "stake_moves d d'"
  by (rule journal_stake_moves[OF stake_legs_spec(1)[OF assms(1)] _ stake_legs_spec(2)[OF assms(1)]]) (use assms(2) in auto)

lemma unstake_stake_moves:
  assumes "unstake chain u a d = Inr (s, d')"
  shows "stake_moves d d'"
  by (rule journal_stake_moves[OF unstake_spec(1)[OF assms] _ unstake_spec(3)[OF assms]]) auto

lemma sweep_stake_moves: "autoStakeSweep u d = Inr (x, d') \<Longrightarrow> stake_moves d d'"
  by (auto simp: autoStakeSweep_def split: option.splits if_splits intro: legs_stake_moves)

datatype stake_cmd =
    Do_stake nat int
  | Do_claim nat db
  | Do_unstake nat int
  | Do_summary nat
  | Do_auto nat bool

fun stake_step :: "bool \<Rightarrow> stake_cmd \<Rightarrow> db \<Rightarrow> db" where
  "stake_step chain (Do_stake u a) d = (case stake chain u a d of Inl _ \<Rightarrow> d | Inr (_, d') \<Rightarrow> d')"
| "stake_step chain (Do_claim u seen) d = (case claimAndStake chain u seen d of Inl _ \<Rightarrow> d | Inr (_, d') \<Rightarrow> d')"
| "stake_step chain (Do_unstake u a) d = (case unstake chain u a d of Inl _ \<Rightarrow> d | Inr (_, d') \<Rightarrow> d')"
| "stake_step chain (Do_summary u) d = snd (summary chain u d)"
| "stake_step chain (Do_auto u b) d = snd (setAutoStake u b d)"

lemma stake_step_moves: "stake_moves d (stake_step chain c d)"
proof (cases c)
  case (Do_stake u a)
  then show ?thesis by (auto simp: stake_def split: sum.splits prod.splits if_splits dest!: move_spec intro: legs_stake_moves)
next
  case (Do_claim u seen)
  then show ?thesis
    by (auto simp: claimAndStake_def split: sum.splits prod.splits option.splits if_splits dest!: move_spec intro: legs_stake_moves)
next
  case (Do_unstake u a)
  then show ?thesis by (auto split: sum.splits prod.splits intro: unstake_stake_moves)
next
  case (Do_summary u)
  then show ?thesis by (auto simp: summary_def split: sum.splits prod.splits intro: sweep_stake_moves)
next
  case (Do_auto u b)
  have "stake_moves d (executeUser u (\<lambda>u. u\<lparr>autoStakeEnabled := b\<rparr>) d)"
    by (rule same_stake_moves[OF executeUser_same]) (auto intro: keeps_balanceI simp: executeUser_def split: option.splits)
  then show ?thesis using Do_auto
    by (auto simp: setAutoStake_def Let_def split: sum.splits prod.splits intro: stake_moves_trans[OF _ sweep_stake_moves])
qed

lemma stake_run_moves: "stake_moves d (fold (stake_step chain) cmds d)"
  by (induction cmds arbitrary: d) (auto intro: stake_moves_trans stake_step_moves)

text \<open>
  C19. Staking only moves money between the two columns of one player, and its trail adds up. Take any sequence of
  stakes, whole-balance stakes (on any balance that was read, stale or not), unstakes, summaries with their automatic
  sweep, and changes of the automatic setting. If at first every staked balance is the sum of the recorded events,
  with unstakes negative, it still is; the spendable and the staked balance of every player have the same sum as
  before; no other balance has moved; and no balance is negative.
\<close>

theorem stake_trail:
  assumes "books d" and "\<forall>u. bal d u Scad_staked = staked_events u d"
  shows "bal (fold (stake_step chain) cmds d) u Scad_staked = staked_events u (fold (stake_step chain) cmds d)
    \<and> bal (fold (stake_step chain) cmds d) u Scad + bal (fold (stake_step chain) cmds d) u Scad_staked
        = bal d u Scad + bal d u Scad_staked
    \<and> (c \<noteq> Scad \<longrightarrow> c \<noteq> Scad_staked \<longrightarrow> bal (fold (stake_step chain) cmds d) u c = bal d u c)
    \<and> 0 \<le> bal (fold (stake_step chain) cmds d) u c"
proof -
  let ?d = "fold (stake_step chain) cmds d"
  have m: "stake_moves d ?d" by (rule stake_run_moves)
  then have "books ?d" using assms(1) by (simp add: stake_moves_def)
  then have "0 \<le> bal ?d u c" by (rule books_nonneg)
  moreover have "bal ?d u Scad_staked - staked_events u ?d = bal d u Scad_staked - staked_events u d"
    "bal ?d u Scad + bal ?d u Scad_staked = bal d u Scad + bal d u Scad_staked"
    "c \<noteq> Scad \<longrightarrow> c \<noteq> Scad_staked \<longrightarrow> bal ?d u c = bal d u c"
    using m unfolding stake_moves_def by blast+
  moreover have "bal d u Scad_staked = staked_events u d" using assms(2) by blast
  ultimately show ?thesis by simp
qed

definition stake_db :: db where
  "stake_db = empty_db\<lparr>users := [(3, new_user\<lparr>scadiumBalance := 5000000000, playBalanceLamports := 0\<rparr>)]\<rparr>"

definition stake_cmds :: "stake_cmd list" where
  "stake_cmds = [Do_stake 3 1000000000, Do_unstake 3 400000000, Do_unstake 3 700000000, Do_summary 3]"

lemma stake_end: "staked_events 3 (fold (stake_step False) stake_cmds stake_db) = 5000000000"
  by code_simp

theorem stake_trail_witness: "bal (fold (stake_step False) stake_cmds stake_db) 3 Scad_staked = 5000000000"
proof -
  have "bal stake_db u c = (if u = 3 \<and> c = Scad then 5000000000 else 0)" for u c
    by (cases c) (auto simp: bal_def stake_db_def)
  then have "books stake_db" "\<forall>u. bal stake_db u Scad_staked = staked_events u stake_db"
    by (auto simp: books_def stake_db_def replay_def staked_events_def intro!: exI[of _ "bal stake_db"])
  from stake_trail[OF this, of False stake_cmds 3 Scad] show ?thesis by (simp add: stake_end)
qed

end
