(* ===== verification/Distribution.thy ===== *)
theory Distribution
  imports Staking
begin

text \<open>
  The hourly staker dividend: \<open>apps/api/src/engine/distribution.service.ts\<close>. As in the vault accrual, the plan of a
  round is read before its transaction, so the two halves are separate definitions: the settlement may run on a
  database that other commands have changed in between.
\<close>

definition MIN_DIVIDEND_POOL_USDS_BASE :: int where "MIN_DIVIDEND_POOL_USDS_BASE = 1000"

definition dividend_done :: "int \<Rightarrow> db \<Rightarrow> bool" where
  "dividend_done period d = (case map_of (distributionRounds d) period of None \<Rightarrow> False | Some r \<Rightarrow> dr_distributed r)"

record planned_dividend =
  dp_period :: int
  dp_ngr :: int
  dp_poolUsds :: int
  dp_stakers :: "(nat \<times> int) list"
  dp_totalStaked :: int

definition stakers_of :: "db \<Rightarrow> (nat \<times> int) list" where
  "stakers_of d = map (\<lambda>(i, u). (i, scadiumStaked u)) (filter (\<lambda>(_, u). scadiumStaked u > 0) (users d))"

definition dividend_plan :: "int \<Rightarrow> db \<Rightarrow> planned_dividend option" where
  "dividend_plan now d =
     (let period = lastCompletedHour now in
      if dividend_done period d then None
      else let ngr = hour_ngr period d; stakers = stakers_of d
           in Some \<lparr>dp_period = period, dp_ngr = ngr, dp_poolUsds = dividendPoolUsdsBase ngr,
                dp_stakers = stakers, dp_totalStaked = sum_list (map snd stakers)\<rparr>)"

definition upsert_dividend :: "int \<Rightarrow> (distribution_round \<Rightarrow> distribution_round) \<Rightarrow> db \<Rightarrow> db" where
  "upsert_dividend period f d =
     (let row = (case map_of (distributionRounds d) period of
            None \<Rightarrow> \<lparr>dr_ngrLamports = 0, dr_poolUsds = 0, dr_totalStakedSnapshot = 0, dr_participantCount = 0,
                      dr_distributed = False, dr_distributedAt = None\<rparr>
          | Some r \<Rightarrow> r)
      in d\<lparr>distributionRounds := AList.update period (f row) (distributionRounds d)\<rparr>)"

definition dividend_meta :: "int \<Rightarrow> meta" where
  "dividend_meta period = (jeton_meta ''dividend_credit'' ''DistributionRound'')\<lparr>currency := Usds, refId := Some (nat period)\<rparr>"

definition dividend_share :: "int \<Rightarrow> int \<Rightarrow> int \<Rightarrow> int" where
  "dividend_share poolUsds totalStaked staked = bigint_div (poolUsds * staked) totalStaked"

fun pay_dividends :: "int \<Rightarrow> int \<Rightarrow> int \<Rightarrow> (nat \<times> int) list \<Rightarrow> nat \<Rightarrow> db \<Rightarrow> (nat \<times> db) result" where
  "pay_dividends period poolUsds totalStaked [] paid d = Inr (paid, d)"
| "pay_dividends period poolUsds totalStaked ((uid, staked) # ss) paid d =
     (let share = dividend_share poolUsds totalStaked staked in
      if share \<le> 0 then pay_dividends period poolUsds totalStaked ss paid d
      else
        let d1 = d\<lparr>distributionClaims := distributionClaims d @
                   [\<lparr>dc_period = period, dc_userId = uid, dc_stakedAmount = staked, dc_shareUsds = share\<rparr>]\<rparr>
        in bindE (applyBalanceDelta uid share (dividend_meta period) d1) (\<lambda>(_, d2).
             pay_dividends period poolUsds totalStaked ss (paid + 1) d2))"

record dividend_reply =
  dy_period :: int
  dy_participantCount :: nat
  dy_poolUsds :: int

definition dividend_settle :: "int \<Rightarrow> planned_dividend \<Rightarrow> db \<Rightarrow> (dividend_reply \<times> db) result" where
  "dividend_settle now plan d =
     (let period = dp_period plan; pool = dp_poolUsds plan; total = dp_totalStaked plan in
      if pool < MIN_DIVIDEND_POOL_USDS_BASE \<or> dp_stakers plan = [] \<or> total \<le> 0
      then Inr (\<lparr>dy_period = period, dy_participantCount = 0, dy_poolUsds = 0\<rparr>,
                upsert_dividend period (\<lambda>r. \<lparr>dr_ngrLamports = dp_ngr plan, dr_poolUsds = 0, dr_totalStakedSnapshot = total,
                  dr_participantCount = 0, dr_distributed = True, dr_distributedAt = Some now\<rparr>) d)
      else
        let d1 = upsert_dividend period (\<lambda>r. r) d;
            reply = \<lparr>dy_period = period, dy_participantCount = length (dp_stakers plan), dy_poolUsds = pool\<rparr>
        in if dividend_done period d1 then Inr (reply, d1)
           else bindE (pay_dividends period pool total (dp_stakers plan) 0 d1) (\<lambda>(paid, d2).
             Inr (reply, upsert_dividend period (\<lambda>r. \<lparr>dr_ngrLamports = dp_ngr plan, dr_poolUsds = pool, dr_totalStakedSnapshot = total,
                  dr_participantCount = int paid, dr_distributed = True, dr_distributedAt = Some now\<rparr>) d2)))"

definition distribute :: "int \<Rightarrow> db \<Rightarrow> (dividend_reply \<times> db) result" where
  "distribute now d = (case dividend_plan now d of
      None \<Rightarrow> Inr (\<lparr>dy_period = lastCompletedHour now, dy_participantCount = 0, dy_poolUsds = 0\<rparr>, d)
    | Some plan \<Rightarrow> dividend_settle now plan d)"

subsection \<open>Views\<close>

definition recentRounds :: "int \<Rightarrow> db \<Rightarrow> (int \<times> distribution_round) list" where
  "recentRounds limit d =
     take (nat (min (max limit 1) 100)) (newest (dr_distributedAt \<circ> snd) (filter (\<lambda>(_, r). dr_distributed r) (distributionRounds d)))"

record engine_stats =
  st_totalStakedScad :: int
  st_totalDistributedUsds :: int
  st_dividendNgrBps :: int
  st_lastRound :: "(int \<times> distribution_round) option"

definition engineStats :: "db \<Rightarrow> engine_stats" where
  "engineStats d = \<lparr>st_totalStakedScad = sum_list (map (scadiumStaked \<circ> snd) (users d)),
     st_totalDistributedUsds = sum_list (map (dr_poolUsds \<circ> snd) (distributionRounds d)),
     st_dividendNgrBps = DIVIDEND_NGR_BPS,
     st_lastRound = first_row (newest (dr_distributedAt \<circ> snd) (filter (\<lambda>(_, r). dr_distributed r) (distributionRounds d)))\<rparr>"

subsection \<open>What a round pays\<close>

definition dividend_journal :: "planned_dividend \<Rightarrow> posting list" where
  "dividend_journal plan =
     (if dp_poolUsds plan < MIN_DIVIDEND_POOL_USDS_BASE \<or> dp_totalStaked plan \<le> 0 then []
      else map (\<lambda>(u, s). (u, Usds, dividend_share (dp_poolUsds plan) (dp_totalStaked plan) s))
             (filter (\<lambda>(_, s). dividend_share (dp_poolUsds plan) (dp_totalStaked plan) s > 0) (dp_stakers plan)))"

lemma dividend_meta_sel [simp]: "currency (dividend_meta p) = Usds" "maxBalance (dividend_meta p) = None"
  by (simp_all add: dividend_meta_def)

lemma upsert_dividend_frame [simp]: "users (upsert_dividend p f d) = users d" "ledger (upsert_dividend p f d) = ledger d"
  "distributionClaims (upsert_dividend p f d) = distributionClaims d"
  by (simp_all add: upsert_dividend_def Let_def)

lemma upsert_dividend_same: "same_money d (upsert_dividend p f d)"
  by (rule same_moneyI) simp_all

lemma upsert_dividend_done: "dividend_done q (upsert_dividend p f d) =
    (if q = p then dr_distributed (f (case map_of (distributionRounds d) p of
            None \<Rightarrow> \<lparr>dr_ngrLamports = 0, dr_poolUsds = 0, dr_totalStakedSnapshot = 0, dr_participantCount = 0,
                      dr_distributed = False, dr_distributedAt = None\<rparr> | Some r \<Rightarrow> r)) else dividend_done q d)"
  by (simp add: dividend_done_def upsert_dividend_def Let_def)

lemma upsert_dividend_id [simp]: "dividend_done p (upsert_dividend p (\<lambda>r. r) d) = dividend_done p d"
  unfolding upsert_dividend_done by (simp add: dividend_done_def split: option.splits)

lemma pay_dividends_all:
  assumes "pay_dividends p pool tot ss n d = Inr (paid, d')"
  shows "posts (map (\<lambda>(u, s). (u, Usds, dividend_share pool tot s)) (filter (\<lambda>(_, s). dividend_share pool tot s > 0) ss)) d d'
    \<and> distributionClaims d' = distributionClaims d @
      map (\<lambda>(u, s). \<lparr>dc_period = p, dc_userId = u, dc_stakedAmount = s, dc_shareUsds = dividend_share pool tot s\<rparr>)
        (filter (\<lambda>(_, s). dividend_share pool tot s > 0) ss)
    \<and> distributionRounds d' = distributionRounds d
    \<and> paid = n + length (filter (\<lambda>(_, s). dividend_share pool tot s > 0) ss)"
  using assms
proof (induction ss arbitrary: n d)
  case (Cons x ss)
  obtain u s where x: "x = (u, s)" by (cases x)
  let ?share = "dividend_share pool tot s"
  show ?case
  proof (cases "?share \<le> 0")
    case True then show ?thesis using Cons x by (simp add: Let_def)
  next
    case False
    define d1 where "d1 = d\<lparr>distributionClaims := distributionClaims d @
         [\<lparr>dc_period = p, dc_userId = u, dc_stakedAmount = s, dc_shareUsds = ?share\<rparr>]\<rparr>"
    obtain b d2 where a: "applyBalanceDelta u ?share (dividend_meta p) d1 = Inr (b, d2)"
      and rest: "pay_dividends p pool tot ss (n + 1) d2 = Inr (paid, d')"
      using Cons.prems x False by (auto simp: Let_def d1_def)
    have same: "same_money d d1" by (rule same_moneyI) (simp_all add: d1_def)
    have "posts [(u, Usds, ?share)] d d2"
      using posts_trans[of "[]" d d1] applyBalanceDelta_posts[OF a] same by (simp add: posts_Nil)
    then show ?thesis using Cons.IH[OF rest] applyBalanceDelta_frame[OF a] False posts_Cons
      by (auto simp: x d1_def)
  qed
qed simp

lemma settle_paying:
  assumes "MIN_DIVIDEND_POOL_USDS_BASE \<le> dp_poolUsds plan" and "dp_stakers plan \<noteq> []" and "0 < dp_totalStaked plan"
    and "\<not> dividend_done (dp_period plan) d" and "dividend_settle now plan d = Inr (reply, d')"
  obtains paid d1 where "pay_dividends (dp_period plan) (dp_poolUsds plan) (dp_totalStaked plan) (dp_stakers plan) 0
       (upsert_dividend (dp_period plan) (\<lambda>r. r) d) = Inr (paid, d1)"
    "d' = upsert_dividend (dp_period plan) (\<lambda>r. \<lparr>dr_ngrLamports = dp_ngr plan, dr_poolUsds = dp_poolUsds plan,
       dr_totalStakedSnapshot = dp_totalStaked plan, dr_participantCount = int paid, dr_distributed = True, dr_distributedAt = Some now\<rparr>) d1"
proof -
  have nd: "\<not> dividend_done (dp_period plan) (upsert_dividend (dp_period plan) (\<lambda>r. r) d)"
    using assms(4) by simp
  have "\<not> (dp_poolUsds plan < MIN_DIVIDEND_POOL_USDS_BASE \<or> dp_stakers plan = [] \<or> dp_totalStaked plan \<le> 0)" using assms(1-3) by auto
  with assms(5) nd show ?thesis unfolding dividend_settle_def Let_def
    by (simp only: if_False) (auto intro: that)
qed

text \<open>The shares of a round fit in its pool.\<close>

lemma dividend_shares_fit:
  assumes "\<forall>s \<in> set ss. 0 \<le> s" and "sum_list ss \<le> tot" and "0 < tot" and "0 \<le> pool"
  shows "sum_list (map (dividend_share pool tot) ss) \<le> pool"
proof -
  have "sum_list (map (\<lambda>s. pool * s div tot) ss) \<le> pool"
  proof -
    have "sum_list (map (\<lambda>s. pool * s div tot) ss) * tot \<le> pool * sum_list ss"
    proof (induction ss)
      case (Cons s ss)
      have "pool * s div tot * tot \<le> pool * s" by (rule div_mult_le[OF assms(3)])
      then show ?case using Cons by (simp add: algebra_simps)
    qed simp
    also have "\<dots> \<le> pool * tot" using assms by (intro mult_left_mono) auto
    finally show ?thesis using assms(3) by simp
  qed
  moreover have "dividend_share pool tot s = pool * s div tot" if "s \<in> set ss" for s
    using that assms by (simp add: dividend_share_def bigint_div_nonneg)
  ultimately show ?thesis by (simp cong: map_cong)
qed

lemma sum_filter_le: "sum_list (map f (filter (\<lambda>x. f x > 0) xs)) \<le> sum_list (map f xs)"
  if "\<And>x. x \<in> set xs \<Longrightarrow> 0 \<le> f x" for f :: "'a \<Rightarrow> int"
  using that by (induction xs) (auto simp: add_increasing)

lemma plan_shape:
  assumes "dividend_plan now d = Some plan"
  shows "\<forall>s \<in> set (map snd (dp_stakers plan)). 0 < s" and "dp_totalStaked plan = sum_list (map snd (dp_stakers plan))"
    and "dp_period plan = lastCompletedHour now"
  using assms by (auto simp: dividend_plan_def Let_def stakers_of_def split: if_splits)

lemma journal_fits:
  assumes "dividend_plan now d = Some plan"
  shows "sum_list (map (\<lambda>(_, _, x). x) (dividend_journal plan)) \<le> max 0 (dp_poolUsds plan)"
proof (cases "dp_poolUsds plan < MIN_DIVIDEND_POOL_USDS_BASE \<or> dp_totalStaked plan \<le> 0")
  case False
  let ?f = "dividend_share (dp_poolUsds plan) (dp_totalStaked plan)"
  have pos: "0 \<le> dp_poolUsds plan" "0 < dp_totalStaked plan" using False by (auto simp: MIN_DIVIDEND_POOL_USDS_BASE_def)
  have nn: "0 \<le> s" if "s \<in> set (map snd (dp_stakers plan))" for s using plan_shape(1)[OF assms] that by fastforce
  have "sum_list (map (\<lambda>(_, _, x). x) (dividend_journal plan)) = sum_list (map (?f \<circ> snd) (filter (\<lambda>x. (?f \<circ> snd) x > 0) (dp_stakers plan)))"
    using False by (simp add: dividend_journal_def comp_def case_prod_unfold)
  also have "\<dots> \<le> sum_list (map (?f \<circ> snd) (dp_stakers plan))"
    by (rule sum_filter_le) (use nn pos in \<open>auto simp: dividend_share_def bigint_div_ge0\<close>)
  also have "\<dots> = sum_list (map ?f (map snd (dp_stakers plan)))" by simp
  also have "\<dots> \<le> dp_poolUsds plan"
    by (rule dividend_shares_fit) (use nn pos plan_shape(2)[OF assms] in auto)
  finally show ?thesis by simp
qed (simp add: dividend_journal_def)

lemma dividend_settle_spec:
  assumes "dividend_settle now plan d = Inr (reply, d')"
  shows "posts (if dividend_done (dp_period plan) d then [] else dividend_journal plan) d d' \<and> dividend_done (dp_period plan) d'
    \<and> (\<not> dividend_done (dp_period plan) d \<longrightarrow>
         map (\<lambda>c. (dc_userId c, Usds, dc_shareUsds c)) (drop (length (distributionClaims d)) (distributionClaims d')) = dividend_journal plan)"
proof -
  let ?p = "dp_period plan" and ?none = "dp_poolUsds plan < MIN_DIVIDEND_POOL_USDS_BASE \<or> dp_stakers plan = [] \<or> dp_totalStaked plan \<le> 0"
  show "posts (if dividend_done ?p d then [] else dividend_journal plan) d d' \<and> dividend_done ?p d'
    \<and> (\<not> dividend_done ?p d \<longrightarrow>
         map (\<lambda>c. (dc_userId c, Usds, dc_shareUsds c)) (drop (length (distributionClaims d)) (distributionClaims d')) = dividend_journal plan)"
  proof (cases "?none \<or> dividend_done ?p d")
    case False
    then have c: "MIN_DIVIDEND_POOL_USDS_BASE \<le> dp_poolUsds plan" "dp_stakers plan \<noteq> []" "0 < dp_totalStaked plan" "\<not> dividend_done ?p d" by auto
    obtain paid d1 where p: "pay_dividends ?p (dp_poolUsds plan) (dp_totalStaked plan) (dp_stakers plan) 0 (upsert_dividend ?p (\<lambda>r. r) d) = Inr (paid, d1)"
      and d': "d' = upsert_dividend ?p (\<lambda>r. \<lparr>dr_ngrLamports = dp_ngr plan, dr_poolUsds = dp_poolUsds plan,
       dr_totalStakedSnapshot = dp_totalStaked plan, dr_participantCount = int paid, dr_distributed = True, dr_distributedAt = Some now\<rparr>) d1"
      by (rule settle_paying[OF c assms])
    note P = pay_dividends_all[OF p]
    have "posts (dividend_journal plan) (upsert_dividend ?p (\<lambda>r. r) d) d'"
      using posts_same[OF conjunct1[OF P], of d'] c upsert_dividend_same by (simp add: d' dividend_journal_def)
    then have "posts (dividend_journal plan) d d'"
      using posts_trans[of "[]" d "upsert_dividend ?p (\<lambda>r. r) d"] by (simp add: posts_Nil upsert_dividend_same)
    then show ?thesis using c P by (auto simp: d' upsert_dividend_done dividend_journal_def comp_def case_prod_unfold)
  next
    case True
    then have "posts [] d d' \<and> dividend_done ?p d' \<and> distributionClaims d' = distributionClaims d"
      using assms by (auto simp: dividend_settle_def Let_def posts_Nil upsert_dividend_same upsert_dividend_done split: if_splits)
    moreover have "dividend_journal plan = []" if "?none" using that by (auto simp: dividend_journal_def)
    ultimately show ?thesis using True by auto
  qed
qed

interpretation dividends: money_command distribute
    "\<lambda>now d _. case dividend_plan now d of None \<Rightarrow> [] | Some plan \<Rightarrow> if dividend_done (dp_period plan) d then [] else dividend_journal plan"
  by unfold_locales (auto simp: distribute_def split: option.splits dest: dividend_settle_spec)

text \<open>
  C18. A dividend round pays every staker their share of the pool, once. Take the plan that a worker has read and the
  database on which its transaction runs, which may have changed since. If the round was not settled meanwhile, what
  is paid is exactly the rounded-down share of each staker in the plan, in USDS, with one claim row per payment, and
  together it is at most the pool; if it was, nothing is paid. Afterwards the round is settled: whatever plan for the
  same hour another worker still holds moves no money, and a later call for that hour changes nothing at all.
\<close>

theorem dividends_paid_once:
  assumes "dividend_plan now0 d0 = Some plan" and "dividend_settle now plan d = Inr (reply, d')"
  shows "posts (if dividend_done (dp_period plan) d then [] else dividend_journal plan) d d'
    \<and> (\<not> dividend_done (dp_period plan) d \<longrightarrow>
         map (\<lambda>c. (dc_userId c, Usds, dc_shareUsds c)) (drop (length (distributionClaims d)) (distributionClaims d')) = dividend_journal plan)
    \<and> sum_list (map (\<lambda>(_, _, x). x) (dividend_journal plan)) \<le> max 0 (dp_poolUsds plan)
    \<and> dividend_done (dp_period plan) d'
    \<and> (\<forall>now1 plan1. dp_period plan1 = dp_period plan \<longrightarrow>
         (case dividend_settle now1 plan1 d' of Inl _ \<Rightarrow> False | Inr (_, d'') \<Rightarrow> same_money d' d''))
    \<and> (\<forall>now1. lastCompletedHour now1 = dp_period plan \<longrightarrow> (\<exists>r. distribute now1 d' = Inr (r, d')))"
proof -
  let ?p = "dp_period plan"
  note paid = dividend_settle_spec[OF assms(2)]
  have "case dividend_settle now1 plan1 d' of Inl _ \<Rightarrow> False | Inr (_, d'') \<Rightarrow> same_money d' d''" if "dp_period plan1 = ?p" for now1 plan1
  proof -
    have "dividend_done ?p (upsert_dividend ?p (\<lambda>r. r) d')"
      using paid by simp
    then show ?thesis using that by (simp add: dividend_settle_def Let_def upsert_dividend_same)
  qed
  moreover have "\<exists>r. distribute now1 d' = Inr (r, d')" if "lastCompletedHour now1 = ?p" for now1
    using paid that by (simp add: distribute_def dividend_plan_def Let_def)
  ultimately show ?thesis using journal_fits[OF assms(1)] paid by blast
qed

definition dividend_db :: db where
  "dividend_db = empty_db\<lparr>users := [(1, new_user\<lparr>scadiumStaked := 3000000000\<rparr>), (2, new_user\<lparr>scadiumStaked := 1000000000\<rparr>), (3, new_user)],
     bets := [\<lparr>b_userId = 3, b_gameType = Dice, b_amountLamports = 1000000, b_payoutLamports = 0, b_multiplier = None, b_status = BetLost,
       b_nonce = None, b_seedId = None, b_createdAt = 100\<rparr>]\<rparr>"

theorem dividends_paid_once_witness:
  "case dividend_plan HOUR_MS dividend_db of None \<Rightarrow> False | Some plan \<Rightarrow>
     (case dividend_settle HOUR_MS plan dividend_db of Inl _ \<Rightarrow> False
      | Inr (_, d') \<Rightarrow> posts [(1, Usds, 9000), (2, Usds, 3000)] dividend_db d')"
proof -
  have "case dividend_plan HOUR_MS dividend_db of None \<Rightarrow> False | Some plan \<Rightarrow>
     (case dividend_settle HOUR_MS plan dividend_db of Inl _ \<Rightarrow> False
      | Inr (_, d') \<Rightarrow> dividend_journal plan = [(1, Usds, 9000), (2, Usds, 3000)] \<and> \<not> dividend_done (dp_period plan) dividend_db)"
    by code_simp
  then obtain plan reply d' where c: "dividend_plan HOUR_MS dividend_db = Some plan" "dividend_settle HOUR_MS plan dividend_db = Inr (reply, d')"
    "dividend_journal plan = [(1, Usds, 9000), (2, Usds, 3000)]" "\<not> dividend_done (dp_period plan) dividend_db"
    by (auto split: option.splits sum.splits)
  from dividends_paid_once[OF c(1,2)] have "posts [(1, Usds, 9000), (2, Usds, 3000)] dividend_db d'" using c(3,4) by simp
  then show ?thesis using c(1,2) by simp
qed

end
