(* ===== verification/Mining.thy ===== *)
theory Mining
  imports Staking Fair_Tickets
begin

text \<open>
  Proof-of-play mining: \<open>apps/api/src/engine/block-mining.service.ts\<close>. The random server seed of the draw is an
  argument; users are ordered by their ids. The plan of a block is read before its transaction, like the other hourly
  rounds.
\<close>

subsection \<open>Play rates\<close>

text \<open>A JavaScript map keeps the place of a key that is set again.\<close>

definition active_rates :: "bet list \<Rightarrow> (nat, int) table" where
  "active_rates bs =
     filter (\<lambda>(_, pr). pr > 0)
       (map (\<lambda>u. (u, activePlayRate (sum_list (map b_amountLamports (filter (\<lambda>b. b_userId b = u) bs))) 1000)) (remdups (map b_userId bs)))"

fun add_stake :: "(nat, int) table \<Rightarrow> nat \<times> user \<Rightarrow> (nat, int) table" where
  "add_stake m (u, usr) =
     (let pr = stakePlayRate (scadiumStaked usr)
      in if pr > 0 then AList.update u ((case map_of m u of None \<Rightarrow> 0 | Some x \<Rightarrow> x) + pr) m else m)"

definition playRatesForWindow :: "int \<times> int \<Rightarrow> db \<Rightarrow> (nat, int) table \<times> int" where
  "playRatesForWindow w d =
     (let rates = foldl add_stake (active_rates (bets_between w d)) (filter (\<lambda>(_, usr). scadiumStaked usr > 0) (users d))
      in (rates, sum_list (map snd rates)))"

subsection \<open>mineBlock\<close>

definition block_done :: "int \<Rightarrow> db \<Rightarrow> bool" where
  "block_done period d = (case map_of (engineBlocks d) period of None \<Rightarrow> False | Some b \<Rightarrow> eb_distributed b)"

record planned_block =
  mp_period :: int
  mp_reward :: int
  mp_total :: int
  mp_ordered :: "(nat \<times> int) list"

definition emitted_so_far :: "db \<Rightarrow> int" where
  "emitted_so_far d = (case totalEmittedScad d of None \<Rightarrow> 0 | Some e \<Rightarrow> e)"

definition mining_plan :: "int \<Rightarrow> db \<Rightarrow> planned_block option" where
  "mining_plan now d =
     (let period = lastCompletedHour now in
      if block_done period d then None
      else let (playRates, totalPlayRate) = playRatesForWindow (hour_bounds period) d
           in Some \<lparr>mp_period = period, mp_reward = blockRewardAt (fst (hour_bounds period)) (emitted_so_far d),
                mp_total = totalPlayRate, mp_ordered = sort_key fst playRates\<rparr>)"

definition empty_block :: engine_block where
  "empty_block = \<lparr>eb_rewardScad = 0, eb_totalPlayRate = 0, eb_participantCount = 0, eb_winnerId = None, eb_bigRewardScad = 0,
     eb_drawSeed = None, eb_drawSeedHash = None, eb_distributed = False, eb_distributedAt = None\<rparr>"

definition upsert_block :: "int \<Rightarrow> (engine_block \<Rightarrow> engine_block) \<Rightarrow> db \<Rightarrow> db" where
  "upsert_block period f d =
     (let row = (case map_of (engineBlocks d) period of None \<Rightarrow> empty_block | Some b \<Rightarrow> b)
      in d\<lparr>engineBlocks := AList.update period (f row) (engineBlocks d)\<rparr>)"

definition bigReward :: "int \<Rightarrow> int" where
  "bigReward reward = bigint_div (reward * BIG_REWARD_BPS) 10000"

definition block_winner :: "hmac \<Rightarrow> string \<Rightarrow> planned_block \<Rightarrow> nat option" where
  "block_winner hmac serverSeed plan =
     (let ticket = jackpotWinningTicket hmac serverSeed (periodForHour (mp_period plan * HOUR_MS)) 0 (mp_total plan);
          winnerIdx = weightedWinnerIndex ticket (map snd (mp_ordered plan))
      in if bigReward (mp_reward plan) > 0 then map_option fst (get_at (mp_ordered plan) (nat winnerIdx)) else None)"

definition block_meta :: "string \<Rightarrow> int \<Rightarrow> meta" where
  "block_meta why period = (jeton_meta why ''EngineBlock'')\<lparr>currency := Scad, refId := Some (nat period)\<rparr>"

fun mint_shares :: "int \<Rightarrow> int \<Rightarrow> int \<Rightarrow> (nat \<times> int) list \<Rightarrow> int \<times> nat \<Rightarrow> db \<Rightarrow> ((int \<times> nat) \<times> db) result" where
  "mint_shares period totalPlayRate splitPool [] acc d = Inr (acc, d)"
| "mint_shares period totalPlayRate splitPool ((uid, rate) # rs) (minted, participants) d =
     (let share = blockShare rate totalPlayRate splitPool in
      if share \<le> 0 then mint_shares period totalPlayRate splitPool rs (minted, participants) d
      else
        let d1 = d\<lparr>engineShares := engineShares d @ [\<lparr>es_period = period, es_userId = uid, es_playRate = rate, es_shareScad = share\<rparr>]\<rparr>
        in bindE (applyBalanceDelta uid share (block_meta ''block_reward'' period) d1) (\<lambda>(_, d2).
             mint_shares period totalPlayRate splitPool rs (minted + share, participants + 1) d2))"

definition mint_big :: "int \<Rightarrow> nat option \<Rightarrow> int \<Rightarrow> db \<Rightarrow> (int \<times> db) result" where
  "mint_big period winnerId big d = (case winnerId of
      Some w \<Rightarrow> if big > 0 then bindE (applyBalanceDelta w big (block_meta ''big_reward'' period) d) (\<lambda>(_, d1). Inr (big, d1)) else Inr (0, d)
    | None \<Rightarrow> Inr (0, d))"

record mine_reply =
  my_period :: int
  my_rewardScad :: int
  my_participantCount :: nat

definition mine_noop :: "int \<Rightarrow> mine_reply" where
  "mine_noop period = \<lparr>my_period = period, my_rewardScad = 0, my_participantCount = 0\<rparr>"

definition mine_settle :: "sha \<Rightarrow> hmac \<Rightarrow> int \<Rightarrow> string \<Rightarrow> planned_block \<Rightarrow> db \<Rightarrow> (mine_reply \<times> db) result" where
  "mine_settle sha hmac now serverSeed plan d =
     (let period = mp_period plan in
      if mp_reward plan \<le> 0 \<or> mp_total plan \<le> 0 \<or> mp_ordered plan = []
      then Inr (mine_noop period, upsert_block period (\<lambda>b. b\<lparr>eb_distributed := True, eb_distributedAt := Some now,
             eb_rewardScad := 0, eb_totalPlayRate := mp_total plan\<rparr>) d)
      else
        let d1 = upsert_block period (\<lambda>b. b) d; big = bigReward (mp_reward plan); winner = block_winner hmac serverSeed plan
        in if block_done period d1 then Inr (mine_noop period, d1)
           else
             bindE (mint_shares period (mp_total plan) (mp_reward plan - big) (mp_ordered plan) (0, 0) d1) (\<lambda>((shared, participants), d2).
             bindE (mint_big period winner big d2) (\<lambda>(bigMinted, d3).
               let minted = shared + bigMinted;
                   d4 = d3\<lparr>totalEmittedScad := Some (emitted_so_far d3 + minted)\<rparr>
               in Inr (\<lparr>my_period = period, my_rewardScad = minted, my_participantCount = participants\<rparr>,
                    upsert_block period (\<lambda>b. b\<lparr>eb_distributed := True, eb_distributedAt := Some now, eb_rewardScad := minted,
                      eb_totalPlayRate := mp_total plan, eb_participantCount := int participants,
                      eb_winnerId := (if bigMinted > 0 then winner else None), eb_bigRewardScad := bigMinted,
                      eb_drawSeed := Some serverSeed, eb_drawSeedHash := Some (commitServerSeed sha serverSeed)\<rparr>) d4))))"

definition mineBlock :: "sha \<Rightarrow> hmac \<Rightarrow> int \<Rightarrow> string \<Rightarrow> db \<Rightarrow> (mine_reply \<times> db) result" where
  "mineBlock sha hmac now serverSeed d = (case mining_plan now d of
      None \<Rightarrow> Inr (mine_noop (lastCompletedHour now), d)
    | Some plan \<Rightarrow> mine_settle sha hmac now serverSeed plan d)"

subsection \<open>Views\<close>

definition emissionSnapshot :: "db \<Rightarrow> int \<times> int" where
  "emissionSnapshot d = (let emitted = emitted_so_far d; left = P2E_POOL_BASE - emitted in (emitted, if left > 0 then left else 0))"

definition remainingPool :: "db \<Rightarrow> int" where
  "remainingPool d = snd (emissionSnapshot d)"

definition msToNextDistribution :: "int \<Rightarrow> int" where
  "msToNextDistribution now = 3600000 - now mod 3600000"

record mining_view =
  ms_era :: int
  ms_nextHalvingMs :: int
  ms_totalEmittedScad :: int
  ms_remainingPoolScad :: int
  ms_currentBlockRewardScad :: int
  ms_bigRewardScad :: int
  ms_msToNextDistribution :: int
  ms_lastBlock :: "(int \<times> engine_block) option"

definition mining_state :: "int \<Rightarrow> db \<Rightarrow> mining_view" where
  "mining_state now d =
     (let (emitted, remaining) = emissionSnapshot d; blockReward = blockRewardAt now emitted
      in \<lparr>ms_era = emissionEraAt now, ms_nextHalvingMs = msToNextHalving now, ms_totalEmittedScad = emitted,
          ms_remainingPoolScad = remaining, ms_currentBlockRewardScad = blockReward, ms_bigRewardScad = bigReward blockReward,
          ms_msToNextDistribution = msToNextDistribution now,
          ms_lastBlock = first_row (newest (eb_distributedAt \<circ> snd) (filter (\<lambda>(_, b). eb_distributed b) (engineBlocks d)))\<rparr>)"

record miner_state =
  mr_playRate :: int
  mr_activePlayRate :: int
  mr_stakePlayRate :: int
  mr_totalPlayRate :: int
  mr_shareBps :: int
  mr_projectedShareScad :: int
  mr_mining :: bool
  mr_miningPassively :: bool

definition share_bps :: "int \<Rightarrow> int \<Rightarrow> int" where
  "share_bps rate totalPlayRate = (if totalPlayRate > 0 then bigint_div (rate * 10000) totalPlayRate else 0)"

definition current_hour :: "int \<Rightarrow> int \<times> int" where
  "current_hour now = hour_bounds (now div HOUR_MS)"

definition minerState :: "nat \<Rightarrow> int \<Rightarrow> db \<Rightarrow> miner_state" where
  "minerState userId now d =
     (let (playRates, totalPlayRate) = playRatesForWindow (current_hour now) d;
          mine = (case map_of playRates userId of None \<Rightarrow> 0 | Some r \<Rightarrow> r);
          active = activePlayRate (sum_list (map b_amountLamports (filter (\<lambda>b. b_userId b = userId) (bets_between (current_hour now) d)))) 1000;
          passive = stakePlayRate (case map_of (users d) userId of None \<Rightarrow> 0 | Some u \<Rightarrow> scadiumStaked u);
          blockReward = blockRewardAt now (emitted_so_far d)
      in \<lparr>mr_playRate = mine, mr_activePlayRate = active, mr_stakePlayRate = passive, mr_totalPlayRate = totalPlayRate,
          mr_shareBps = share_bps mine totalPlayRate,
          mr_projectedShareScad = blockShare mine totalPlayRate (blockReward - bigReward blockReward),
          mr_mining = mine > 0, mr_miningPassively = (active = 0 \<and> passive > 0)\<rparr>)"

definition currentLeaderboard :: "int \<Rightarrow> int \<Rightarrow> db \<Rightarrow> int \<times> (nat \<times> nat \<times> int \<times> int) list" where
  "currentLeaderboard limit now d =
     (let (playRates, totalPlayRate) = playRatesForWindow (current_hour now) d;
          top = take (nat (min (max limit 1) 100)) (sort_key (\<lambda>(_, pr). - pr) playRates)
      in (totalPlayRate, map (\<lambda>(i, (u, pr)). (i + 1, u, pr, share_bps pr totalPlayRate)) (enumerate 0 top)))"

text \<open>Blocks are created in the order of their hours.\<close>

definition recentBlocks :: "int \<Rightarrow> db \<Rightarrow> (int \<times> engine_block) list" where
  "recentBlocks limit d = take (nat (min (max limit 1) 100)) (rev (filter (\<lambda>(_, b). eb_distributed b) (engineBlocks d)))"


subsection \<open>Every unit minted is accounted for\<close>

text \<open>
  The cursor of the emission, the rewards of the settled blocks and the reward rows of the ledger count the same money.
\<close>

definition is_reward :: "ledger_row \<Rightarrow> bool" where
  "is_reward r \<longleftrightarrow> l_reason r = ''block_reward'' \<or> l_reason r = ''big_reward''"

definition reward_rows :: "db \<Rightarrow> int" where
  "reward_rows d = sum_list (map l_delta (filter is_reward (ledger d)))"

definition emission_ok :: "db \<Rightarrow> bool" where
  "emission_ok d \<longleftrightarrow> keyed (engineBlocks d) \<and> (\<forall>p b. map_of (engineBlocks d) p = Some b \<longrightarrow> \<not> eb_distributed b \<longrightarrow> eb_rewardScad b = 0)
     \<and> col_sum eb_rewardScad (engineBlocks d) = emitted_so_far d \<and> reward_rows d = emitted_so_far d \<and> emitted_so_far d \<le> P2E_POOL_BASE"

lemma block_meta_sel [simp]: "currency (block_meta w p) = Scad" "reason (block_meta w p) = w" "maxBalance (block_meta w p) = None"
  by (simp_all add: block_meta_def)

lemma delta_reward:
  assumes "applyBalanceDelta u x (block_meta w p) d = Inr (b, d')" and "w \<in> {''block_reward'', ''big_reward''}"
  shows "reward_rows d' = reward_rows d + x \<and> engineBlocks d' = engineBlocks d \<and> emitted_so_far d' = emitted_so_far d"
  using assms by (auto simp: applyBalanceDelta_Inr reward_rows_def is_reward_def emitted_so_far_def)

lemma mint_shares_spec:
  assumes "mint_shares p tot split rs (m, n) d = Inr ((m', n'), d')"
  shows "reward_rows d' = reward_rows d + (m' - m) \<and> engineBlocks d' = engineBlocks d \<and> emitted_so_far d' = emitted_so_far d
    \<and> m' - m = sum_list (map (\<lambda>r. blockShare r tot split) (map snd rs))"
  using assms
proof (induction rs arbitrary: m n d)
  case (Cons x rs)
  obtain u r where x: "x = (u, r)" by (cases x)
  let ?share = "blockShare r tot split"
  show ?case
  proof (cases "?share \<le> 0")
    case True
    then have "?share = 0" using blockShare_nonneg[of r tot split] by linarith
    then show ?thesis using Cons x by (simp add: Let_def)
  next
    case False
    define d1 where "d1 = d\<lparr>engineShares := engineShares d @ [\<lparr>es_period = p, es_userId = u, es_playRate = r, es_shareScad = ?share\<rparr>]\<rparr>"
    obtain b d2 where a: "applyBalanceDelta u ?share (block_meta ''block_reward'' p) d1 = Inr (b, d2)"
      and rest: "mint_shares p tot split rs (m + ?share, n + 1) d2 = Inr ((m', n'), d')"
      using Cons.prems x False by (auto simp: Let_def d1_def)
    have "reward_rows d1 = reward_rows d" "engineBlocks d1 = engineBlocks d" "emitted_so_far d1 = emitted_so_far d"
      by (simp_all add: d1_def reward_rows_def emitted_so_far_def)
    then show ?thesis using Cons.IH[OF rest] delta_reward[OF a] x by simp
  qed
qed simp

lemma mint_big_spec:
  assumes "mint_big p w big d = Inr (x, d')" and "0 \<le> big"
  shows "reward_rows d' = reward_rows d + x \<and> engineBlocks d' = engineBlocks d \<and> emitted_so_far d' = emitted_so_far d \<and> 0 \<le> x \<and> x \<le> big"
  using assms by (auto simp: mint_big_def split: option.splits if_splits dest!: delta_reward)

lemma upsert_block_frame [simp]: "ledger (upsert_block p f d) = ledger d" "totalEmittedScad (upsert_block p f d) = totalEmittedScad d"
  "emitted_so_far (upsert_block p f d) = emitted_so_far d" "reward_rows (upsert_block p f d) = reward_rows d"
  "users (upsert_block p f d) = users d"
  by (simp_all add: upsert_block_def Let_def emitted_so_far_def reward_rows_def)

text \<open>Settling a block that was not settled moves its reward from 0 to what was minted.\<close>

lemma upsert_ok:
  assumes ok: "keyed (engineBlocks d)" "\<And>p b. map_of (engineBlocks d) p = Some b \<Longrightarrow> \<not> eb_distributed b \<Longrightarrow> eb_rewardScad b = 0"
      "col_sum eb_rewardScad (engineBlocks d) = E" and nd: "\<not> block_done p d"
    and f: "\<And>b. eb_rewardScad b = 0 \<Longrightarrow> eb_rewardScad (f b) = m" "\<And>b. eb_distributed (f b) \<or> m = 0"
  shows "keyed (engineBlocks (upsert_block p f d))
    \<and> (\<forall>q b. map_of (engineBlocks (upsert_block p f d)) q = Some b \<longrightarrow> \<not> eb_distributed b \<longrightarrow> eb_rewardScad b = 0)
    \<and> col_sum eb_rewardScad (engineBlocks (upsert_block p f d)) = E + m"
proof -
  define row where "row = (case map_of (engineBlocks d) p of None \<Rightarrow> empty_block | Some b \<Rightarrow> b)"
  have r0: "eb_rewardScad row = 0" using nd ok(2)[of p] by (auto simp: row_def empty_block_def block_done_def split: option.splits)
  have u: "engineBlocks (upsert_block p f d) = AList.update p (f row) (engineBlocks d)" by (simp add: upsert_block_def row_def Let_def)
  have "col_sum eb_rewardScad (AList.update p (f row) (engineBlocks d)) = E + m"
  proof (cases "map_of (engineBlocks d) p")
    case None then show ?thesis using ok(3) f(1)[OF r0] by (simp add: col_sum_update_None)
  next
    case (Some b) then show ?thesis using ok(1,3) f(1)[OF r0] r0 by (simp add: col_sum_update_Some row_def)
  qed
  then show ?thesis using ok(1,2) f(1)[OF r0] f(2)[of row] unfolding u by (auto split: if_splits)
qed

lemma bigReward_bounds: "0 \<le> r \<Longrightarrow> 0 \<le> bigReward r \<and> bigReward r \<le> r"
  by (auto simp: bigReward_def BIG_REWARD_BPS_def bigint_div_nonneg intro!: pos_imp_zdiv_nonneg_iff[THEN iffD2])


lemma add_stake_positive:
  assumes "\<forall>r \<in> set (map snd m). 0 < r"
  shows "\<forall>r \<in> set (map snd (add_stake m x)). 0 < r"
proof -
  obtain u usr where x: "x = (u, usr)" by (cases x)
  have "0 \<le> (case map_of m u of None \<Rightarrow> 0 | Some r \<Rightarrow> r)" using assms by (force split: option.splits dest: map_of_SomeD)
  then show ?thesis using assms by (auto simp: x Let_def dest!: in_set_update)
qed

lemma rates_positive:
  assumes "playRatesForWindow w d = (rates, tot)"
  shows "\<forall>r \<in> set (map snd rates). 0 < r" and "tot = sum_list (map snd rates)"
proof -
  have fold: "\<forall>r \<in> set (map snd (foldl add_stake m us)). 0 < r" if "\<forall>r \<in> set (map snd m). 0 < r" for m us
    using that
  proof (induction us arbitrary: m)
    case (Cons a us) then show ?case using add_stake_positive[OF Cons.prems, of a] by (simp del: add_stake.simps)
  qed simp
  have "\<forall>r \<in> set (map snd (active_rates bs)). 0 < r" for bs by (auto simp: active_rates_def)
  from fold[OF this] show "\<forall>r \<in> set (map snd rates). 0 < r" using assms by (auto simp: playRatesForWindow_def Let_def)
  show "tot = sum_list (map snd rates)" using assms by (auto simp: playRatesForWindow_def Let_def)
qed

lemma plan_rates:
  assumes "mining_plan now d = Some plan"
  shows "\<forall>r \<in> set (map snd (mp_ordered plan)). 0 < r" and "sum_list (map snd (mp_ordered plan)) = mp_total plan"
    and "mp_period plan = lastCompletedHour now" and "\<not> block_done (mp_period plan) d"
    and "mp_reward plan = blockRewardAt (fst (hour_bounds (lastCompletedHour now))) (emitted_so_far d)"
proof -
  obtain rates tot where pr: "playRatesForWindow (hour_bounds (lastCompletedHour now)) d = (rates, tot)" by (cases "playRatesForWindow (hour_bounds (lastCompletedHour now)) d")
  have p: "plan = \<lparr>mp_period = lastCompletedHour now, mp_reward = blockRewardAt (fst (hour_bounds (lastCompletedHour now))) (emitted_so_far d),
                mp_total = tot, mp_ordered = sort_key fst rates\<rparr>" "\<not> block_done (lastCompletedHour now) d"
    using assms by (auto simp: mining_plan_def Let_def pr split: if_splits)
  have "mset (map snd (sort_key fst rates)) = mset (map snd rates)" by (simp only: mset_map mset_sort)
  then have "sum_list (map snd (sort_key fst rates)) = sum_list (map snd rates)" by (metis sum_mset_sum_list)
  then show "sum_list (map snd (mp_ordered plan)) = mp_total plan" using rates_positive(2)[OF pr] p by simp
  show "\<forall>r \<in> set (map snd (mp_ordered plan)). 0 < r" using rates_positive(1)[OF pr] p by simp
qed (use assms in \<open>auto simp: mining_plan_def Let_def split: prod.splits if_splits\<close>)

lemma emission_okD:
  assumes "emission_ok d"
  shows "keyed (engineBlocks d)" "map_of (engineBlocks d) p = Some b \<Longrightarrow> \<not> eb_distributed b \<Longrightarrow> eb_rewardScad b = 0"
    "col_sum eb_rewardScad (engineBlocks d) = emitted_so_far d" "reward_rows d = emitted_so_far d" "emitted_so_far d \<le> P2E_POOL_BASE"
  using assms unfolding emission_ok_def by blast+

lemma upsert_block_done: "block_done q (upsert_block p f d) =
    (if q = p then eb_distributed (f (case map_of (engineBlocks d) p of None \<Rightarrow> empty_block | Some b \<Rightarrow> b)) else block_done q d)"
  by (simp add: block_done_def upsert_block_def Let_def)

lemma upsert_block_id [simp]: "block_done p (upsert_block p (\<lambda>b. b) d) = block_done p d"
  unfolding upsert_block_done by (simp add: block_done_def empty_block_def split: option.splits)

text \<open>The mint of a plan, when it runs: the shares and the big reward, which fit in the reward of the plan.\<close>

lemma mine_ok:
  assumes ok: "emission_ok d" and run: "mineBlock sha hmac now seed d = Inr (r, d')"
  shows "emission_ok d' \<and> block_done (lastCompletedHour now) d' \<and> emitted_so_far d' = emitted_so_far d + my_rewardScad r
    \<and> 0 \<le> my_rewardScad r \<and> my_rewardScad r \<le> blockRewardAt (fst (hour_bounds (lastCompletedHour now))) (emitted_so_far d)"
proof (cases "mining_plan now d")
  case None
  then have "block_done (lastCompletedHour now) d" by (auto simp: mining_plan_def Let_def split: if_splits prod.splits)
  then show ?thesis using ok run None blockRewardAt_bounds by (auto simp: mineBlock_def mine_noop_def)
next
  case (Some plan)
  note P = plan_rates[OF Some] and D = emission_okD[OF ok]
  let ?R = "mp_reward plan" and ?p = "mp_period plan"
  have R: "0 \<le> ?R" "emitted_so_far d + ?R \<le> P2E_POOL_BASE" using blockRewardAt_bounds D(5) P(5) by auto
  have s: "mine_settle sha hmac now seed plan d = Inr (r, d')" using run Some by (simp add: mineBlock_def)
  show ?thesis
  proof (cases "?R \<le> 0 \<or> mp_total plan \<le> 0 \<or> mp_ordered plan = []")
    case True
    define f :: "engine_block \<Rightarrow> engine_block" where "f = (\<lambda>b. b\<lparr>eb_distributed := True, eb_distributedAt := Some now, eb_rewardScad := 0, eb_totalPlayRate := mp_total plan\<rparr>)"
    have d': "d' = upsert_block ?p f d" "r = mine_noop ?p"
      using s True by (auto simp: mine_settle_def Let_def f_def)
    have "keyed (engineBlocks d') \<and> (\<forall>q b. map_of (engineBlocks d') q = Some b \<longrightarrow> \<not> eb_distributed b \<longrightarrow> eb_rewardScad b = 0)
      \<and> col_sum eb_rewardScad (engineBlocks d') = emitted_so_far d + 0"
      unfolding d'(1) by (rule upsert_ok[OF D(1,2,3) P(4)]) (simp_all add: f_def)
    moreover have "block_done (lastCompletedHour now) d'" using P(3) by (simp add: d' upsert_block_done f_def)
    ultimately show ?thesis using D R P(5) by (auto simp: emission_ok_def d' mine_noop_def)
  next
    case False
    let ?big = "bigReward ?R" and ?d1 = "upsert_block ?p (\<lambda>b. b) d" and ?w = "block_winner hmac seed plan"
    obtain shared n d2 bm d3 where m: "mint_shares ?p (mp_total plan) (?R - ?big) (mp_ordered plan) (0, 0) ?d1 = Inr ((shared, n), d2)"
      "mint_big ?p ?w ?big d2 = Inr (bm, d3)"
      and r: "my_rewardScad r = shared + bm"
      and d': "d' = upsert_block ?p (\<lambda>b. b\<lparr>eb_distributed := True, eb_distributedAt := Some now, eb_rewardScad := shared + bm,
                      eb_totalPlayRate := mp_total plan, eb_participantCount := int n,
                      eb_winnerId := (if bm > 0 then ?w else None), eb_bigRewardScad := bm,
                      eb_drawSeed := Some seed, eb_drawSeedHash := Some (commitServerSeed sha seed)\<rparr>)
                 (d3\<lparr>totalEmittedScad := Some (emitted_so_far d3 + (shared + bm))\<rparr>)"
      using s False P(4) unfolding mine_settle_def Let_def by (simp only: if_False upsert_block_id) auto
    have b: "0 \<le> ?big" "?big \<le> ?R" using bigReward_bounds[OF R(1)] by auto
    note S = mint_shares_spec[OF m(1)] and B = mint_big_spec[OF m(2) b(1)]
    have nn: "\<forall>x\<in>set (map snd (mp_ordered plan)). 0 \<le> x" using P(1) by fastforce
    have "shared \<le> ?R - ?big" using S blockShare_sum[OF nn _, of "mp_total plan" "?R - ?big"] P(2) b by simp
    moreover have "0 \<le> shared" using S by (auto intro!: sum_list_nonneg simp: blockShare_nonneg)
    ultimately have bounds: "0 \<le> shared + bm" "shared + bm \<le> ?R" using B by auto
    have nd: "\<not> block_done ?p (d3\<lparr>totalEmittedScad := Some (emitted_so_far d3 + (shared + bm))\<rparr>)"
      using P(4) S B upsert_block_id[of ?p d] by (simp add: block_done_def)
    have U: "keyed (engineBlocks ?d1) \<and> (\<forall>q b. map_of (engineBlocks ?d1) q = Some b \<longrightarrow> \<not> eb_distributed b \<longrightarrow> eb_rewardScad b = 0)
      \<and> col_sum eb_rewardScad (engineBlocks ?d1) = emitted_so_far d + 0"
      by (rule upsert_ok[OF D(1,2,3) P(4)]) simp_all
    have V: "keyed (engineBlocks d') \<and> (\<forall>q b. map_of (engineBlocks d') q = Some b \<longrightarrow> \<not> eb_distributed b \<longrightarrow> eb_rewardScad b = 0)
      \<and> col_sum eb_rewardScad (engineBlocks d') = emitted_so_far d + (shared + bm)"
      unfolding d' by (rule upsert_ok[OF _ _ _ nd]) (use U S B in auto)
    have e: "emitted_so_far d' = emitted_so_far d + (shared + bm)" "reward_rows d' = emitted_so_far d + (shared + bm)"
      using S B D(4) by (simp_all add: d' emitted_so_far_def reward_rows_def)
    have "block_done (lastCompletedHour now) d'" using P(3) by (simp add: d' upsert_block_done)
    then show ?thesis using V e bounds R P(5) r unfolding emission_ok_def by auto
  qed
qed

lemma upsert_other [simp]: "q \<noteq> p \<Longrightarrow> map_of (engineBlocks (upsert_block p f d)) q = map_of (engineBlocks d) q"
  by (simp add: upsert_block_def Let_def)

lemma mine_other:
  assumes run: "mineBlock sha hmac now seed d = Inr (r, d')" and q: "q \<noteq> lastCompletedHour now"
  shows "map_of (engineBlocks d') q = map_of (engineBlocks d) q"
proof (cases "mining_plan now d")
  case None then show ?thesis using run by (simp add: mineBlock_def)
next
  case (Some plan)
  have q': "q \<noteq> mp_period plan" using plan_rates(3)[OF Some] q by simp
  have s: "mine_settle sha hmac now seed plan d = Inr (r, d')" using run Some by (simp add: mineBlock_def)
  have big: "engineBlocks d2 = engineBlocks d1" if "mint_big p w b d1 = Inr (x, d2)" for p w b d1 x d2
    using that by (auto simp: mint_big_def split: option.splits if_splits dest!: delta_reward)
  show ?thesis using s q' big
    by (auto simp: mine_settle_def Let_def split: if_splits dest!: mint_shares_spec)
qed

text \<open>The service among the writers of the database: they leave the engine's tables and its ledger rows alone.\<close>

inductive mining_run :: "sha \<Rightarrow> hmac \<Rightarrow> db \<Rightarrow> db \<Rightarrow> bool" for sha hmac where
  Rest: "mining_run sha hmac d d"
| Mine: "mining_run sha hmac d0 d \<Longrightarrow> mineBlock sha hmac now seed d = Inr (r, d') \<Longrightarrow> mining_run sha hmac d0 d'"
| Elsewhere: "mining_run sha hmac d0 d \<Longrightarrow> engineBlocks d' = engineBlocks d \<Longrightarrow> totalEmittedScad d' = totalEmittedScad d \<Longrightarrow>
    filter is_reward (ledger d') = filter is_reward (ledger d) \<Longrightarrow> mining_run sha hmac d0 d'"

lemma mine_keeps_settled:
  assumes "mineBlock sha hmac now seed d = Inr (r, d')" and "map_of (engineBlocks d) q = Some b" and "eb_distributed b"
  shows "map_of (engineBlocks d') q = Some b"
proof (cases "q = lastCompletedHour now")
  case True
  then have "mining_plan now d = None" using assms by (auto simp: mining_plan_def Let_def block_done_def)
  then show ?thesis using assms by (simp add: mineBlock_def)
next
  case False then show ?thesis using mine_other[OF assms(1)] assms(2) by simp
qed

lemma mining_run_inv:
  assumes "mining_run sha hmac d0 d" and "emission_ok d0"
  shows "emission_ok d \<and> (\<forall>q b. map_of (engineBlocks d0) q = Some b \<longrightarrow> eb_distributed b \<longrightarrow> map_of (engineBlocks d) q = Some b)"
  using assms
proof induction
  case (Mine d0 d now seed r d')
  then show ?case using mine_ok[of d] mine_keeps_settled[OF Mine.hyps(2)] by blast
next
  case (Elsewhere d0 d d')
  then show ?case by (simp add: emission_ok_def emitted_so_far_def reward_rows_def)
qed simp


text \<open>One hour with a single player who wagered 0.5 SOL.\<close>

definition mining_db :: db where
  "mining_db = empty_db\<lparr>users := [(1, new_user), (3, new_user)],
     bets := [\<lparr>b_userId = 3, b_gameType = Dice, b_amountLamports = 500000000, b_payoutLamports = 0, b_multiplier = None, b_status = BetLost,
       b_nonce = None, b_seedId = None, b_createdAt = 100\<rparr>]\<rparr>"

lemma mining_db_plan: "mining_plan HOUR_MS mining_db = Some
     \<lparr>mp_period = 0, mp_reward = GENESIS_BLOCK_REWARD_BASE, mp_total = 500000000,
      mp_ordered = [(3, 500000000)]\<rparr>"
  by code_simp

lemma lone_winner: "weightedWinnerIndex t [w] = 0"
  by (simp add: weightedWinnerIndex_def)

lemma mining_db_paid: "case mint_shares 0 500000000 (GENESIS_BLOCK_REWARD_BASE - bigReward GENESIS_BLOCK_REWARD_BASE) [(3, 500000000)] (0, 0) (upsert_block 0 (\<lambda>b. b) mining_db) of
     Inl _ \<Rightarrow> False
   | Inr ((s, n), d2) \<Rightarrow> (case mint_big 0 (Some 3) (bigReward GENESIS_BLOCK_REWARD_BASE) d2 of Inl _ \<Rightarrow> False | Inr (b, d3) \<Rightarrow> 0 < s + b \<and> emitted_so_far d3 = 0)"
  by code_simp

lemma mining_db_settle:
  "0 < bigReward GENESIS_BLOCK_REWARD_BASE" "\<not> GENESIS_BLOCK_REWARD_BASE \<le> 0" "\<not> block_done 0 mining_db"
  by code_simp+

lemma mining_db_mined: "\<exists>r d. mineBlock (\<lambda>_. 0) (\<lambda>_ _. 0) HOUR_MS ''s'' mining_db = Inr (r, d) \<and> 0 < emitted_so_far d"
proof -
  obtain s n d2 b d3 where p: "mint_shares 0 500000000 (GENESIS_BLOCK_REWARD_BASE - bigReward GENESIS_BLOCK_REWARD_BASE) [(3, 500000000)] (0, 0) (upsert_block 0 (\<lambda>b. b) mining_db) = Inr ((s, n), d2)"
    "mint_big 0 (Some 3) (bigReward GENESIS_BLOCK_REWARD_BASE) d2 = Inr (b, d3)" "0 < s + b" "emitted_so_far d3 = 0"
    using mining_db_paid by (auto split: sum.splits)
  have "emitted_so_far (upsert_block q f (d3\<lparr>totalEmittedScad := Some e\<rparr>)) = e" for q f e by (simp add: emitted_so_far_def)
  then show ?thesis
    by (simp add: mineBlock_def mining_db_plan mine_settle_def block_winner_def lone_winner Let_def mining_db_settle not_le p
        del: mint_shares.simps)
qed


end
