(* ===== verification/Round_Loop.thy ===== *)
theory Round_Loop
  imports Coinflip_Escrow Fair_Tickets Shared_Money Staking
begin

text \<open>
  What the scheduled-round engines share (\<open>apps/api/src/games/round-loop.ts\<close>): the tuning, the backoff and the timers
  of a loop. \<open>engine_env\<close> is the surroundings of one call: the clock, the environment of the games, whether this
  process leads, and the public beacon with what its relays answer for a round.
\<close>

record tuning =
  settleRetryAttempts :: nat
  settleRetryBaseMs :: int
  settleRetryMaxMs :: int
  stallMs :: int

definition roundLoopTuning :: tuning where
  "roundLoopTuning = \<lparr>settleRetryAttempts = 4, settleRetryBaseMs = 2000, settleRetryMaxMs = 60000, stallMs = 90000\<rparr>"

definition retryDelayMs :: "tuning \<Rightarrow> nat \<Rightarrow> int" where
  "retryDelayMs t attempt = min (settleRetryMaxMs t) (settleRetryBaseMs t * 2 ^ (attempt - 1))"

record engine_env =
  en_play :: play_env
  en_leader :: bool
  en_beacon :: "(int \<Rightarrow> digest option) option"
  en_tuning :: tuning

abbreviation en_now :: "engine_env \<Rightarrow> int" where
  "en_now env \<equiv> env_now (en_play env)"

text \<open>The callbacks that are due at a time. A reset drops them all.\<close>

type_synonym 't timers = "('t \<times> int) list"

definition schedule :: "'t \<Rightarrow> int \<Rightarrow> int \<Rightarrow> 't timers \<Rightarrow> 't timers" where
  "schedule t ms now ts = ts @ [(t, now + max 0 ms)]"

definition recordFailure :: "string \<Rightarrow> nat option \<Rightarrow> db \<Rightarrow> db" where
  "recordFailure gameType roundId d = d\<lparr>settlementFailures := settlementFailures d @ [(gameType, roundId)]\<rparr>"

definition reveal_seed :: "int \<Rightarrow> nat \<Rightarrow> db \<Rightarrow> db result" where
  "reveal_seed now seedId d = (case map_of (seeds d) seedId of
      None \<Rightarrow> Inl (Internal ''P2025'')
    | Some s \<Rightarrow> Inr (d\<lparr>seeds := AList.update seedId (s\<lparr>sd_revealedAt := Some now\<rparr>) (seeds d)\<rparr>))"

lemma reveal_seed_spec: "reveal_seed now sid d = Inr d' \<Longrightarrow> same_money d d' \<and> jackpotRounds d' = jackpotRounds d
    \<and> jackpotEntries d' = jackpotEntries d \<and> lotteryDraws d' = lotteryDraws d \<and> lotteryTickets d' = lotteryTickets d
    \<and> crashRounds d' = crashRounds d \<and> crashBets d' = crashBets d \<and> scheduledCrashBets d' = scheduledCrashBets d
    \<and> blackjackTables d' = blackjackTables d \<and> blackjackRounds d' = blackjackRounds d \<and> users d' = users d \<and> bets d' = bets d \<and> (\<exists>s. map_of (seeds d) sid = Some s \<and> map_of (seeds d') = (map_of (seeds d))(sid \<mapsto> s\<lparr>sd_revealedAt := Some now\<rparr>))"
  by (auto simp: reveal_seed_def intro!: same_moneyI split: option.splits)

lemma posts_between: "same_money d d1 \<Longrightarrow> posts ps d1 d2 \<Longrightarrow> same_money d2 d3 \<Longrightarrow> posts ps d d3"
  using posts_trans[of "[]" d d1 ps d2] posts_same by (auto simp: posts_Nil)

text \<open>
  What the database can do to an attempt: answer, fail without committing, or commit and lose the answer.
\<close>

datatype attempt_fault = Answers | Not_committed | Answer_lost

definition attempt :: "attempt_fault \<Rightarrow> (db \<Rightarrow> db result) \<Rightarrow> db \<Rightarrow> unit result \<times> db" where
  "attempt fault tx d = (case fault of
      Answers \<Rightarrow> (case tx d of Inl err \<Rightarrow> (Inl err, d) | Inr d1 \<Rightarrow> (Inr (), d1))
    | Not_committed \<Rightarrow> (Inl (Internal ''connection closed''), d)
    | Answer_lost \<Rightarrow> (Inl (Internal ''connection closed''), case tx d of Inl _ \<Rightarrow> d | Inr d1 \<Rightarrow> d1))"

lemma attempt_cases:
  assumes "attempt f tx d = (out, d')"
  shows "d' = d \<and> (\<exists>err. out = Inl err) \<or> tx d = Inr d' \<and> f \<noteq> Not_committed \<and> (out = Inr () \<longleftrightarrow> f = Answers)"
  using assms by (cases f; cases "tx d") (auto simp: attempt_def)

text \<open>The tables of the engines are not touched by the bookkeeping around a settled bet.\<close>

lemma bookkeeping_frame [simp]:
  "jackpotRounds (executeUser u f d) = jackpotRounds d" "jackpotEntries (executeUser u f d) = jackpotEntries d"
  "jackpotRounds (snd (accrue now u s d)) = jackpotRounds d" "jackpotEntries (snd (accrue now u s d)) = jackpotEntries d"
  "lotteryDraws (executeUser u f d) = lotteryDraws d" "lotteryTickets (executeUser u f d) = lotteryTickets d"
  "lotteryDraws (snd (accrue now u s d)) = lotteryDraws d" "lotteryTickets (snd (accrue now u s d)) = lotteryTickets d"
  "crashRounds (executeUser u f d) = crashRounds d" "crashBets (executeUser u f d) = crashBets d"
  "scheduledCrashBets (executeUser u f d) = scheduledCrashBets d" "blackjackRounds (executeUser u f d) = blackjackRounds d"
  "crashRounds (snd (accrue now u s d)) = crashRounds d" "crashBets (snd (accrue now u s d)) = crashBets d"
  "scheduledCrashBets (snd (accrue now u s d)) = scheduledCrashBets d" "blackjackRounds (snd (accrue now u s d)) = blackjackRounds d"
  by (simp_all add: executeUser_def accrue_def upsert_board_def Let_def split: option.splits prod.splits)

lemma commission_frame:
  assumes "creditReferral enforced now u s g d = Inr d'"
  shows "jackpotRounds d' = jackpotRounds d" "jackpotEntries d' = jackpotEntries d"
    "lotteryDraws d' = lotteryDraws d" "lotteryTickets d' = lotteryTickets d"
    "crashRounds d' = crashRounds d" "crashBets d' = crashBets d" "scheduledCrashBets d' = scheduledCrashBets d"
    "blackjackRounds d' = blackjackRounds d"
  using creditReferral_upsert[OF assms] by (cases "d' = d"; force simp: upsert_referral_def)+

text \<open>The statistics of a settled bet move no money, and only a positive payout is posted.\<close>

lemma stats_money:
  assumes "updateUser uid (bump_stats amt p) d = Inr d1"
  shows "same_money d (snd (accrue now uid amt (executeUser uid (raise_biggest p) d1)))"
proof -
  have "same_money d d1" using updateUser_same[OF assms] by simp
  moreover have "same_money d1 (executeUser uid (raise_biggest p) d1)" by (auto intro: executeUser_same)
  ultimately show ?thesis using accrue_same same_money_trans by blast
qed

definition credit_row :: "nat \<Rightarrow> int \<Rightarrow> posting list" where
  "credit_row uid x = (if x > 0 then [(uid, Jeton, x)] else [])"

lemma credit_row_posts:
  assumes "(if x > 0 then applyBalanceDelta uid x m d else Inr (z, d)) = Inr (b, d')" and "currency m = Jeton"
  shows "posts (credit_row uid x) d d'"
  using assms applyBalanceDelta_posts[of uid x m d b d'] by (auto simp: credit_row_def split: if_splits)

text \<open>The backoff doubles from the base and never exceeds the cap.\<close>

lemma retryDelay_bounds:
  assumes "0 < settleRetryBaseMs t" and "0 < settleRetryMaxMs t"
  shows "0 < retryDelayMs t n \<and> retryDelayMs t n \<le> settleRetryMaxMs t \<and> retryDelayMs t n \<le> retryDelayMs t (Suc n)"
proof -
  have "(2::int) ^ (n - Suc 0) \<le> 2 ^ n" by (rule power_increasing) auto
  then have "settleRetryBaseMs t * 2 ^ (n - Suc 0) \<le> settleRetryBaseMs t * 2 ^ n" using assms by (intro mult_left_mono) auto
  moreover have "0 < settleRetryBaseMs t * 2 ^ k" for k using assms by simp
  ultimately show ?thesis using assms by (simp add: retryDelayMs_def min.coboundedI2)
qed

end
