(* ===== verification/Jackpot.thy ===== *)
theory Jackpot
  imports Round_Loop
begin

text \<open>
  The jackpot: \<open>apps/api/src/games/jackpot\<close> (\<open>jackpot.engine.ts\<close>, \<open>jackpot.service.ts\<close>). The engine keeps the live round
  in memory and the rounds and entries in the database. A transaction is a definition of its own; the code around it
  runs before or after, so that entries and settlements can interleave at the transactions. The demo bots, the
  broadcasts and the on-chain receipts are not modelled; a round has no id while the placeholder stands in.
\<close>

definition JACKPOT_MIN_ENTRY_LAMPORTS :: int where "JACKPOT_MIN_ENTRY_LAMPORTS = 10000000"
definition JACKPOT_MAX_ENTRY_LAMPORTS :: int where "JACKPOT_MAX_ENTRY_LAMPORTS = 50 * LAMPORTS_PER_SOL"
definition ROUND_WINDOW_MS :: int where "ROUND_WINDOW_MS = 45000"
definition MIN_PLAYERS :: nat where "MIN_PLAYERS = 2"
definition SOLO_WAIT_MS :: int where "SOLO_WAIT_MS = 5 * 60000"
definition JACKPOT_HOUSE_EDGE :: rat where "JACKPOT_HOUSE_EDGE = fl (5 / 100)"

subsection \<open>The engine in memory\<close>

record current_round =
  cr_id :: "nat option"
  cr_seedId :: nat
  cr_serverSeed :: string
  cr_serverSeedHash :: string
  cr_clientSeed :: string
  cr_nonce :: nat
  cr_closeAt :: "int option"
  cr_status :: jackpot_status
  cr_totalLamports :: int
  cr_players :: "nat list"

record jackpot_result =
  lr_roundId :: nat
  lr_status :: jackpot_status
  lr_winnerId :: "nat option"
  lr_payoutLamports :: int
  lr_totalLamports :: int
  lr_winningTicket :: "int option"
  lr_serverSeed :: string
  lr_drawnAt :: int
  lr_beaconRound :: "int option"

datatype jackpot_timer = Draw_due "nat option" | Retry_settle nat | Boot_rounds

record jackpot_engine =
  jk_current :: current_round
  jk_lastResult :: "jackpot_result option"
  jk_recovering :: bool
  jk_settling :: bool
  jk_settleFailures :: nat
  jk_timers :: "jackpot_timer timers"

definition placeholderRound :: current_round where
  "placeholderRound = \<lparr>cr_id = None, cr_seedId = 0, cr_serverSeed = '''', cr_serverSeedHash = '''', cr_clientSeed = '''', cr_nonce = 0,
     cr_closeAt = None, cr_status = JackpotOpen, cr_totalLamports = 0, cr_players = []\<rparr>"

text \<open>Entries in the order of their creation.\<close>

definition entries_of :: "nat \<Rightarrow> db \<Rightarrow> jackpot_entry list" where
  "entries_of roundId d = filter (\<lambda>e. je_roundId e = roundId) (jackpotEntries d)"

definition pot :: "jackpot_entry list \<Rightarrow> int" where
  "pot es = sum_list (map je_amountLamports es)"

definition rebuildRound :: "nat \<Rightarrow> jackpot_round \<Rightarrow> db \<Rightarrow> current_round result" where
  "rebuildRound rid r d = (case map_of (seeds d) (jr_seedId r) of
      None \<Rightarrow> Inl (Internal ''P2025'')
    | Some seed \<Rightarrow> Inr \<lparr>cr_id = Some rid, cr_seedId = jr_seedId r, cr_serverSeed = sd_serverSeed seed,
        cr_serverSeedHash = sd_serverSeedHash seed, cr_clientSeed = sd_clientSeed seed, cr_nonce = sd_nonce seed,
        cr_closeAt = jr_closeAt r, cr_status = JackpotOpen, cr_totalLamports = pot (entries_of rid d),
        cr_players = remdups (map je_userId (entries_of rid d))\<rparr>)"

definition armCloseTimer :: "int \<Rightarrow> jackpot_engine \<Rightarrow> jackpot_engine" where
  "armCloseTimer now e = (case cr_closeAt (jk_current e) of
      None \<Rightarrow> e
    | Some c \<Rightarrow> e\<lparr>jk_timers := schedule (Draw_due (cr_id (jk_current e))) (c - now) now (jk_timers e)\<rparr>)"

definition getOpenRound :: "int \<Rightarrow> jackpot_engine \<Rightarrow> (nat option \<times> int option) option" where
  "getOpenRound now e =
     (let c = jk_current e in
      if cr_status c \<noteq> JackpotOpen \<or> (case cr_closeAt c of None \<Rightarrow> False | Some t \<Rightarrow> t \<le> now) then None
      else Some (cr_id c, cr_closeAt c))"

text \<open>The clock: the first player starts the solo deadline, the second one the countdown.\<close>

definition next_close :: "int \<Rightarrow> nat \<Rightarrow> nat \<Rightarrow> int option \<Rightarrow> int option" where
  "next_close now before after closeAt =
     (if before = 0 \<and> after \<ge> 1 \<and> after < MIN_PLAYERS then Some (now + SOLO_WAIT_MS)
      else if before < MIN_PLAYERS \<and> after \<ge> MIN_PLAYERS then Some (now + ROUND_WINDOW_MS)
      else closeAt)"

definition onEntry :: "int \<Rightarrow> nat \<Rightarrow> nat \<Rightarrow> int \<Rightarrow> jackpot_engine \<Rightarrow> db \<Rightarrow> (jackpot_engine \<times> db) result" where
  "onEntry now roundId userId amountLamports e d =
     (let c = jk_current e in
      if cr_id c \<noteq> Some roundId \<or> cr_status c \<noteq> JackpotOpen then Inr (e, d)
      else
        let players = (if userId \<in> set (cr_players c) then cr_players c else cr_players c @ [userId]);
            closeAt = next_close now (length (cr_players c)) (length players) (cr_closeAt c);
            clockMoved = (closeAt \<noteq> cr_closeAt c);
            c' = c\<lparr>cr_totalLamports := cr_totalLamports c + amountLamports, cr_players := players, cr_closeAt := closeAt\<rparr>;
            e' = e\<lparr>jk_current := c'\<rparr>
        in case map_of (jackpotRounds d) roundId of
             None \<Rightarrow> Inl (Internal ''P2025'')
           | Some r \<Rightarrow>
               let r' = r\<lparr>jr_totalLamports := cr_totalLamports c', jr_closeAt := (if clockMoved then closeAt else jr_closeAt r)\<rparr>
               in Inr (if clockMoved then armCloseTimer now e' else e', d\<lparr>jackpotRounds := AList.update roundId r' (jackpotRounds d)\<rparr>))"

record jackpot_meta =
  jm_roundId :: "nat option"
  jm_status :: jackpot_status
  jm_serverSeedHash :: string
  jm_clientSeed :: string
  jm_nonce :: nat
  jm_closeAt :: "int option"
  jm_beaconRound :: "int option"
  jm_totalLamports :: int
  jm_playerCount :: nat
  jm_lastResult :: "jackpot_result option"

definition jackpot_view :: "engine_env \<Rightarrow> jackpot_engine \<Rightarrow> jackpot_meta" where
  "jackpot_view env e =
     (let c = jk_current e in
      \<lparr>jm_roundId = cr_id c, jm_status = cr_status c, jm_serverSeedHash = cr_serverSeedHash c, jm_clientSeed = cr_clientSeed c,
       jm_nonce = cr_nonce c, jm_closeAt = cr_closeAt c,
       jm_beaconRound = (case (en_beacon env, cr_closeAt c) of
          (Some _, Some t) \<Rightarrow> if length (cr_players c) \<ge> MIN_PLAYERS then Some (beaconRoundAfter t) else None
        | _ \<Rightarrow> None),
       jm_totalLamports = cr_totalLamports c, jm_playerCount = length (cr_players c), jm_lastResult = jk_lastResult e\<rparr>)"

text \<open>The random seeds of the new round are arguments.\<close>

definition openNewRound :: "engine_env \<Rightarrow> string \<Rightarrow> string \<Rightarrow> jackpot_engine \<Rightarrow> db \<Rightarrow> jackpot_engine \<times> db" where
  "openNewRound env serverSeed clientSeed e d =
     (if \<not> en_leader env then (e, d)
      else
        let hash = commitServerSeed (env_sha (en_play env)) serverSeed;
            (seedId, seedRows) = insert_row \<lparr>sd_serverSeed = serverSeed, sd_serverSeedHash = hash, sd_clientSeed = clientSeed,
               sd_nonce = 0, sd_revealedAt = None\<rparr> (seeds d);
            (rid, rounds) = insert_row \<lparr>jr_seedId = seedId, jr_nonce = 0, jr_status = JackpotOpen, jr_totalLamports = 0,
               jr_winnerId = None, jr_winningTicket = None, jr_payoutLamports = 0, jr_closeAt = None, jr_drawnAt = None,
               jr_ranges = None, jr_beaconRound = None, jr_slotHash = None\<rparr> (jackpotRounds d)
        in (e\<lparr>jk_current := \<lparr>cr_id = Some rid, cr_seedId = seedId, cr_serverSeed = serverSeed, cr_serverSeedHash = hash,
               cr_clientSeed = clientSeed, cr_nonce = 0, cr_closeAt = None, cr_status = JackpotOpen, cr_totalLamports = 0,
               cr_players = []\<rparr>, jk_settleFailures := 0\<rparr>,
            d\<lparr>seeds := seedRows, jackpotRounds := rounds\<rparr>))"

subsection \<open>Settlement\<close>

definition jackpot_payout :: "int \<Rightarrow> int" where
  "jackpot_payout total_pot = bigint_div (total_pot * js_round (fl (fl (1 - JACKPOT_HOUSE_EDGE) * 1000))) 1000"

text \<open>\<open>draw_ctx\<close> is what the code outside the transaction hands to it.\<close>

record draw_ctx =
  dx_roundId :: nat
  dx_seedId :: nat
  dx_serverSeed :: string
  dx_drawSeed :: string
  dx_clientSeed :: string
  dx_nonce :: nat
  dx_forceRefund :: bool
  dx_beacon :: "(int \<times> digest) option"

definition drawn_ticket :: "play_env \<Rightarrow> draw_ctx \<Rightarrow> int \<Rightarrow> int result" where
  "drawn_ticket env x total_pot = (case dx_beacon x of
      Some (_, value) \<Rightarrow> jackpotTicketFromEntropy (env_sha env) (dx_serverSeed x) (dx_clientSeed x) (digest_bytes value) (dx_nonce x) total_pot
    | None \<Rightarrow> Inr (jackpotWinningTicket (env_hmac env) (dx_drawSeed x) (dx_clientSeed x) (dx_nonce x) total_pot))"

definition drawn_winner :: "jackpot_entry list \<Rightarrow> int \<Rightarrow> jackpot_entry" where
  "drawn_winner entries ticket =
     (let winnerIdx = jackpotWinnerIndex (map je_amountLamports entries) ticket
      in if winnerIdx < 0 then hd entries else entries ! nat winnerIdx)"

definition range_rows :: "jackpot_entry list \<Rightarrow> (nat \<times> int \<times> int \<times> int) list" where
  "range_rows entries = map (\<lambda>(e, (start, stop)). (je_userId e, je_amountLamports e, start, stop))
     (zip entries (jackpotRanges (map je_amountLamports entries)))"

text \<open>\<open>updateMany\<close> on an open round, with the number of rows it matched.\<close>

definition update_open_round :: "nat \<Rightarrow> (jackpot_round \<Rightarrow> jackpot_round) \<Rightarrow> db \<Rightarrow> nat \<times> db" where
  "update_open_round roundId f d = (case map_of (jackpotRounds d) roundId of
      None \<Rightarrow> (0, d)
    | Some r \<Rightarrow>
        if jr_status r = JackpotOpen then (1, d\<lparr>jackpotRounds := AList.update roundId (f r) (jackpotRounds d)\<rparr>) else (0, d))"

definition claim_jackpot :: "nat \<Rightarrow> (jackpot_round \<Rightarrow> jackpot_round) \<Rightarrow> db \<Rightarrow> db result" where
  "claim_jackpot roundId f d =
     (let (count, d1) = update_open_round roundId f d in bindE (assertRoundClaimed count ''jackpot'') (\<lambda>_. Inr d1))"

definition jackpot_meta_of :: "string \<Rightarrow> nat \<Rightarrow> meta" where
  "jackpot_meta_of why roundId = (jeton_meta why ''JackpotRound'')\<lparr>refId := Some roundId\<rparr>"

fun refund_entries :: "nat \<Rightarrow> jackpot_entry list \<Rightarrow> db \<Rightarrow> db result" where
  "refund_entries roundId [] d = Inr d"
| "refund_entries roundId (e # es) d =
     bindE (applyBalanceDelta (je_userId e) (je_amountLamports e) (jackpot_meta_of ''jackpot_refund'' roundId) d)
       (\<lambda>(_, d1). refund_entries roundId es d1)"

definition by_user :: "jackpot_entry list \<Rightarrow> (nat, int) table" where
  "by_user entries = foldl (\<lambda>m e. AList.update (je_userId e)
     ((case map_of m (je_userId e) of None \<Rightarrow> 0 | Some a \<Rightarrow> a) + je_amountLamports e) m) [] entries"

definition settle_player :: "play_env \<Rightarrow> draw_ctx \<Rightarrow> nat \<Rightarrow> int \<Rightarrow> nat \<times> int \<Rightarrow> db \<Rightarrow> db result" where
  "settle_player env x winnerId payout = (\<lambda>(uid, amount) d.
     let won = (uid = winnerId);
         credited = (if won then payout else 0);
         profit = credited - amount;
         m = (if amount > 0 then fl (fl (of_int credited) / fl (of_int amount)) else 0) in
     bindE (updateUser uid (bump_stats amount profit) d) (\<lambda>d1.
       let d2 = executeUser uid (raise_biggest profit) d1;
           d3 = snd (accrue (env_now env) uid amount d2) in
     bindE (creditReferral (env_enforced env) (env_now env) uid amount Jackpot d3) (\<lambda>d4.
     bindE (if credited > 0
            then applyBalanceDelta uid credited ((jeton_meta ''jackpot_settle'' ''Bet'')\<lparr>refId := Some (length (bets d4))\<rparr>) d4
            else Inr (0, d4)) (\<lambda>(_, d5).
     Inr (snd (create_bet \<lparr>b_userId = uid, b_gameType = Jackpot, b_amountLamports = amount, b_payoutLamports = credited,
       b_multiplier = Some m, b_status = (if won then BetWon else BetLost), b_nonce = Some (dx_nonce x),
       b_seedId = Some (dx_seedId x), b_createdAt = env_now env\<rparr> d5))))))"

fun settle_players :: "play_env \<Rightarrow> draw_ctx \<Rightarrow> nat \<Rightarrow> int \<Rightarrow> (nat \<times> int) list \<Rightarrow> db \<Rightarrow> db result" where
  "settle_players env x winnerId payout [] d = Inr d"
| "settle_players env x winnerId payout (p # ps) d =
     bindE (settle_player env x winnerId payout p d) (settle_players env x winnerId payout ps)"

datatype jackpot_outcome = Refunded_round int | Drawn_round int nat int int

definition draw_pot :: "play_env \<Rightarrow> draw_ctx \<Rightarrow> jackpot_entry list \<Rightarrow> db \<Rightarrow> (jackpot_outcome \<times> db) result" where
  "draw_pot env x entries d =
     (let total_pot = pot entries in
      bindE (drawn_ticket env x total_pot) (\<lambda>ticket.
        let winnerId = je_userId (drawn_winner entries ticket);
            payout = jackpot_payout total_pot in
      bindE (claim_jackpot (dx_roundId x) (\<lambda>r. r\<lparr>jr_status := JackpotDrawn, jr_totalLamports := total_pot,
          jr_winnerId := Some winnerId, jr_winningTicket := Some ticket, jr_payoutLamports := payout,
          jr_drawnAt := Some (env_now env), jr_ranges := Some (range_rows entries),
          jr_beaconRound := map_option fst (dx_beacon x), jr_slotHash := map_option (digest_hex \<circ> snd) (dx_beacon x)\<rparr>) d) (\<lambda>d1.
      bindE (settle_players env x winnerId payout (by_user entries) d1) (\<lambda>d2.
      bindE (reveal_seed (env_now env) (dx_seedId x) d2) (\<lambda>d3.
        Inr (Drawn_round total_pot winnerId ticket payout, d3))))))"

definition refund_pot :: "play_env \<Rightarrow> draw_ctx \<Rightarrow> jackpot_entry list \<Rightarrow> db \<Rightarrow> (jackpot_outcome \<times> db) result" where
  "refund_pot env x entries d =
     bindE (claim_jackpot (dx_roundId x) (\<lambda>r. r\<lparr>jr_status := JackpotRefunded, jr_totalLamports := pot entries,
        jr_drawnAt := Some (env_now env)\<rparr>) d) (\<lambda>d1.
     bindE (refund_entries (dx_roundId x) entries d1) (\<lambda>d2.
     bindE (reveal_seed (env_now env) (dx_seedId x) d2) (\<lambda>d3. Inr (Refunded_round (pot entries), d3))))"

definition settle_tx :: "engine_env \<Rightarrow> draw_ctx \<Rightarrow> db \<Rightarrow> (jackpot_outcome \<times> db) result" where
  "settle_tx env x d =
     bindE (assertStillLeader (en_leader env) ''jackpot'') (\<lambda>_.
       let entries = entries_of (dx_roundId x) d in
       if length (remdups (map je_userId entries)) < MIN_PLAYERS \<or> dx_forceRefund x
       then refund_pot (en_play env) x entries d
       else draw_pot (en_play env) x entries d)"


subsection \<open>Around the transaction\<close>

definition force_refund :: "engine_env \<Rightarrow> jackpot_engine \<Rightarrow> bool" where
  "force_refund env e \<longleftrightarrow> settleRetryAttempts (en_tuning env) \<le> jk_settleFailures e"

text \<open>The beacon is asked when the memory knows two players; the on-chain program only without a beacon.\<close>

definition beacon_value :: "engine_env \<Rightarrow> bool \<Rightarrow> current_round \<Rightarrow> (int \<times> digest) option result" where
  "beacon_value env force c = (case (en_beacon env, cr_closeAt c) of
      (Some randomness, Some t) \<Rightarrow>
        if \<not> force \<and> length (cr_players c) \<ge> MIN_PLAYERS
        then (case randomness (beaconRoundAfter t) of
                None \<Rightarrow> Inl (Internal ''beacon round unavailable'')
              | Some v \<Rightarrow> Inr (Some (beaconRoundAfter t, v)))
        else Inr None
    | _ \<Rightarrow> Inr None)"

definition draw_seed :: "engine_env \<Rightarrow> bool \<Rightarrow> current_round \<Rightarrow> string result" where
  "draw_seed env force c = (case env_chain (en_play env) of
      None \<Rightarrow> Inr (cr_serverSeed c)
    | Some roundEntropy \<Rightarrow>
        if force \<or> en_beacon env \<noteq> None then Inr (cr_serverSeed c)
        else (case roundEntropy \<lparr>ctx_serverSeed = cr_serverSeed c, ctx_serverSeedHash = cr_serverSeedHash c,
                 ctx_clientSeed = cr_clientSeed c, ctx_nonce = cr_nonce c\<rparr> of
            None \<Rightarrow> Inr (cr_serverSeed c)
          | Some entropy \<Rightarrow> bindE (deriveSeedContext (env_sha (en_play env)) (env_text (en_play env)) (cr_serverSeed c)
              (cr_clientSeed c) (cr_nonce c) (Some entropy) []) (\<lambda>s. Inr (sc_serverSeed s))))"

definition prepare_draw :: "engine_env \<Rightarrow> nat \<Rightarrow> jackpot_engine \<Rightarrow> draw_ctx result" where
  "prepare_draw env roundId e =
     (let c = jk_current e; force = force_refund env e in
      bindE (draw_seed env force c) (\<lambda>drawSeed.
      bindE (beacon_value env force c) (\<lambda>beacon.
      Inr \<lparr>dx_roundId = roundId, dx_seedId = cr_seedId c, dx_serverSeed = cr_serverSeed c, dx_drawSeed = drawSeed,
        dx_clientSeed = cr_clientSeed c, dx_nonce = cr_nonce c, dx_forceRefund = force, dx_beacon = beacon\<rparr>)))"

definition setLastResult :: "int \<Rightarrow> nat \<Rightarrow> (int \<times> digest) option \<Rightarrow> jackpot_outcome \<Rightarrow> jackpot_engine \<Rightarrow> jackpot_engine" where
  "setLastResult now roundId beacon out e = (let c = jk_current e in
     e\<lparr>jk_lastResult := Some (case out of
        Refunded_round total_pot \<Rightarrow> \<lparr>lr_roundId = roundId, lr_status = JackpotRefunded, lr_winnerId = None, lr_payoutLamports = 0,
          lr_totalLamports = total_pot, lr_winningTicket = None, lr_serverSeed = cr_serverSeed c, lr_drawnAt = now, lr_beaconRound = None\<rparr>
      | Drawn_round total_pot winnerId ticket payout \<Rightarrow> \<lparr>lr_roundId = roundId, lr_status = JackpotDrawn, lr_winnerId = Some winnerId,
          lr_payoutLamports = payout, lr_totalLamports = total_pot, lr_winningTicket = Some ticket, lr_serverSeed = cr_serverSeed c,
          lr_drawnAt = now, lr_beaconRound = map_option fst beacon\<rparr>)\<rparr>)"

definition outcome_status :: "jackpot_outcome \<Rightarrow> jackpot_status" where
  "outcome_status out = (case out of Refunded_round _ \<Rightarrow> JackpotRefunded | Drawn_round _ _ _ _ \<Rightarrow> JackpotDrawn)"

definition after_settle :: "engine_env \<Rightarrow> string \<times> string \<Rightarrow> nat \<Rightarrow> (int \<times> digest) option \<Rightarrow> jackpot_outcome \<Rightarrow> jackpot_engine \<Rightarrow> db
    \<Rightarrow> jackpot_engine \<times> db" where
  "after_settle env fresh roundId beacon out e d =
     (let e1 = e\<lparr>jk_settleFailures := 0, jk_current := (jk_current e)\<lparr>cr_status := outcome_status out\<rparr>\<rparr>;
          e2 = setLastResult (en_now env) roundId beacon out e1
      in if jk_recovering e2 then (e2, d) else openNewRound env (fst fresh) (snd fresh) e2 d)"

definition settle_failed :: "engine_env \<Rightarrow> nat \<Rightarrow> jackpot_engine \<Rightarrow> db \<Rightarrow> jackpot_engine \<times> db" where
  "settle_failed env roundId e d =
     (let n = jk_settleFailures e + 1 in
      (e\<lparr>jk_settleFailures := n, jk_timers := schedule (Retry_settle roundId) (retryDelayMs (en_tuning env) n) (en_now env) (jk_timers e)\<rparr>,
       if n = 1 then recordFailure ''jackpot'' (Some roundId) d else d))"

text \<open>
  The failure of the transaction. An error of the on-chain fold is thrown before the \<open>try\<close>: the loop's guard logs it and
  schedules a boot.
\<close>

definition settleRound :: "engine_env \<Rightarrow> string \<times> string \<Rightarrow> nat \<Rightarrow> jackpot_engine \<Rightarrow> db \<Rightarrow> bool result \<times> jackpot_engine \<times> db" where
  "settleRound env fresh roundId e d = (case draw_seed env (force_refund env e) (jk_current e) of
      Inl err \<Rightarrow> (Inl err, e, d)
    | Inr _ \<Rightarrow> (case bindE (prepare_draw env roundId e) (\<lambda>x. bindE (settle_tx env x d) (\<lambda>(out, d1). Inr (dx_beacon x, out, d1))) of
          Inr (beacon, out, d1) \<Rightarrow> (Inr True, after_settle env fresh roundId beacon out e d1)
        | Inl (SettleClaimLost _) \<Rightarrow> (Inr True, e, d)
        | Inl _ \<Rightarrow> (Inr False, settle_failed env roundId e d)))"

definition drawAndSettle :: "engine_env \<Rightarrow> string \<times> string \<Rightarrow> nat option \<Rightarrow> bool \<Rightarrow> jackpot_engine \<Rightarrow> db \<Rightarrow> bool result \<times> jackpot_engine \<times> db" where
  "drawAndSettle env fresh roundId force e d =
     (let c = jk_current e in
      if \<not> en_leader env \<or> jk_settling e then (Inr False, e, d)
      else if cr_id c \<noteq> roundId \<or> cr_status c \<noteq> JackpotOpen then (Inr False, e, d)
      else if \<not> force \<and> (case cr_closeAt c of None \<Rightarrow> True | Some t \<Rightarrow> en_now env < t) then (Inr False, e, d)
      else settleRound env fresh (case roundId of None \<Rightarrow> 0 | Some r \<Rightarrow> r) e d)"

subsection \<open>Recovery and the loop\<close>

definition stranded_rounds :: "db \<Rightarrow> (nat \<times> jackpot_round) list" where
  "stranded_rounds d = filter (\<lambda>(_, r). jr_status r = JackpotOpen) (jackpotRounds d)"

definition live_round :: "int \<Rightarrow> (nat \<times> jackpot_round) list \<Rightarrow> (nat \<times> jackpot_round) option" where
  "live_round now rows = find (\<lambda>(_, r). case jr_closeAt r of None \<Rightarrow> True | Some t \<Rightarrow> t > now) (rev rows)"

text \<open>Recovery stops, with a retry scheduled, at the first round that does not settle.\<close>

fun recover_each :: "engine_env \<Rightarrow> string \<times> string \<Rightarrow> (nat \<times> jackpot_round) list \<Rightarrow> jackpot_engine \<Rightarrow> db \<Rightarrow> bool \<times> jackpot_engine \<times> db" where
  "recover_each env fresh [] e d = (True, e, d)"
| "recover_each env fresh ((rid, r) # rest) e d = (case rebuildRound rid r d of
      Inl _ \<Rightarrow> recover_each env fresh rest e (recordFailure ''jackpot'' (Some rid) d)
    | Inr c \<Rightarrow> (case drawAndSettle env fresh (Some rid) True (e\<lparr>jk_current := c\<rparr>) d of
          (Inr True, e1, d1) \<Rightarrow> recover_each env fresh rest e1 d1
        | (Inr False, e1, d1) \<Rightarrow> (False, e1, d1)
        | (Inl _, e1, d1) \<Rightarrow> recover_each env fresh rest e1 (recordFailure ''jackpot'' (Some rid) d1)))"

definition recoverStrandedRounds :: "engine_env \<Rightarrow> string \<times> string \<Rightarrow> jackpot_engine \<Rightarrow> db \<Rightarrow> bool \<times> jackpot_engine \<times> db" where
  "recoverStrandedRounds env fresh e d =
     (let stranded = stranded_rounds d in
      if stranded = [] then (False, e, d)
      else
        let live = live_round (en_now env) stranded;
            toSettle = filter (\<lambda>r. Some r \<noteq> live) stranded;
            (all_settled, e1, d1) = recover_each env fresh toSettle (e\<lparr>jk_recovering := True\<rparr>) d;
            e2 = e1\<lparr>jk_recovering := False\<rparr>
        in if \<not> all_settled then (True, e2, d1)
           else case live of
                  None \<Rightarrow> (False, e2, d1)
                | Some (rid, r) \<Rightarrow> (case rebuildRound rid r d1 of
                      Inl _ \<Rightarrow> (False, e2, d1)
                    | Inr c \<Rightarrow> (True, armCloseTimer (en_now env) (e2\<lparr>jk_current := c\<rparr>), d1)))"

definition bootRounds :: "engine_env \<Rightarrow> string \<times> string \<Rightarrow> jackpot_engine \<Rightarrow> db \<Rightarrow> jackpot_engine \<times> db" where
  "bootRounds env fresh e d =
     (let (resumed, e1, d1) = recoverStrandedRounds env fresh (e\<lparr>jk_timers := []\<rparr>) d
      in if resumed then (e1, d1) else openNewRound env (fst fresh) (snd fresh) e1 d1)"

definition guard_boot :: "engine_env \<Rightarrow> bool result \<times> jackpot_engine \<times> db \<Rightarrow> jackpot_engine \<times> db" where
  "guard_boot env = (\<lambda>(r, e, d). case r of
      Inr _ \<Rightarrow> (e, d)
    | Inl _ \<Rightarrow> (e\<lparr>jk_timers := schedule Boot_rounds (retryDelayMs (en_tuning env) 2) (en_now env) (jk_timers e)\<rparr>, d))"

definition fire :: "engine_env \<Rightarrow> string \<times> string \<Rightarrow> jackpot_timer \<Rightarrow> jackpot_engine \<Rightarrow> db \<Rightarrow> jackpot_engine \<times> db" where
  "fire env fresh t e d = (case t of
      Draw_due rid \<Rightarrow> guard_boot env (drawAndSettle env fresh rid False e d)
    | Retry_settle rid \<Rightarrow> guard_boot env (drawAndSettle env fresh (Some rid) True e d)
    | Boot_rounds \<Rightarrow> bootRounds env fresh e d)"

definition watchdog :: "engine_env \<Rightarrow> string \<times> string \<Rightarrow> jackpot_engine \<Rightarrow> db \<Rightarrow> jackpot_engine \<times> db" where
  "watchdog env fresh e d =
     (let c = jk_current e in
      case (cr_id c, cr_closeAt c) of
        (Some rid, Some t) \<Rightarrow>
          if cr_status c = JackpotOpen \<and> \<not> jk_settling e \<and> \<not> jk_recovering e \<and> en_leader env
             \<and> en_now env > t + stallMs (en_tuning env)
          then guard_boot env (drawAndSettle env fresh (Some rid) False e d) else (e, d)
      | _ \<Rightarrow> (e, d))"


subsection \<open>The service\<close>

record enter_reply =
  er_roundId :: nat
  er_amountLamports :: int

datatype entered = Fresh_entry enter_reply | Replayed_entry string

definition create_entry :: "nat \<Rightarrow> nat \<Rightarrow> int \<Rightarrow> db \<Rightarrow> db result" where
  "create_entry roundId userId amount d =
     (if list_ex (\<lambda>e. je_roundId e = roundId \<and> je_userId e = userId) (jackpotEntries d)
      then Inl (BadRequest ''Already entered this round'')
      else Inr (d\<lparr>jackpotEntries := jackpotEntries d @ [\<lparr>je_roundId = roundId, je_userId = userId, je_amountLamports = amount\<rparr>]\<rparr>))"

definition enter_tx :: "bool \<Rightarrow> (enter_reply \<Rightarrow> string) \<Rightarrow> nat \<Rightarrow> nat \<Rightarrow> int \<Rightarrow> string option \<Rightarrow> db \<Rightarrow> (entered \<times> db) result" where
  "enter_tx enforced json roundId userId amount key d =
     bindE (claimIdempotency userId ''jackpot_enter'' key d) (\<lambda>(replay, d0). case replay of
       Some response \<Rightarrow> Inr (Replayed_entry response, d0)
     | None \<Rightarrow>
        bindE (assertPooledEntry enforced userId Pooled_jackpot roundId d0) (\<lambda>_.
        bindE (applyBalanceDelta userId (- amount) (jackpot_meta_of ''jackpot_entry'' roundId) d0) (\<lambda>(_, d1).
        bindE (create_entry roundId userId amount d1) (\<lambda>d2.
          let (stillOpen, d3) = update_open_round roundId (\<lambda>r. r\<lparr>jr_status := JackpotOpen\<rparr>) d2 in
        bindE (guardE (stillOpen \<noteq> 0) (BadRequest ''Round just closed - your bet was not placed'')) (\<lambda>_.
          let reply = \<lparr>er_roundId = roundId, er_amountLamports = amount\<rparr> in
        bindE (storeIdempotency userId ''jackpot_enter'' key (json reply) d3) (\<lambda>d4.
          Inr (Fresh_entry reply, d4)))))))"

text \<open>What is checked before the transaction; its result is the round that the transaction enters.\<close>

definition enter_checks :: "engine_env \<Rightarrow> nat \<Rightarrow> int \<Rightarrow> jackpot_engine \<Rightarrow> db \<Rightarrow> nat result" where
  "enter_checks env userId amount e d =
     bindE (guardE (JACKPOT_MIN_ENTRY_LAMPORTS \<le> amount \<and> amount \<le> JACKPOT_MAX_ENTRY_LAMPORTS) (BadRequest ''Entry out of range'')) (\<lambda>_.
     bindE (assertCanWager (env_wager (en_play env)) userId amount d) (\<lambda>_.
     (case getOpenRound (en_now env) e of
        None \<Rightarrow> Inl (BadRequest ''No open round'')
      | Some (rid, _) \<Rightarrow>
         (case map_of (users d) userId of
            None \<Rightarrow> Inl (NotFound ''User not found'')
          | Some u \<Rightarrow>
              if banned u then Inl (Forbidden ''Account banned'')
              else case rid of None \<Rightarrow> Inl (Internal ''invalid uuid'') | Some r \<Rightarrow> Inr r))))"

definition enter :: "engine_env \<Rightarrow> (enter_reply \<Rightarrow> string) \<Rightarrow> nat \<Rightarrow> int \<Rightarrow> string option \<Rightarrow> jackpot_engine \<Rightarrow> db
    \<Rightarrow> entered result \<times> jackpot_engine \<times> db" where
  "enter env json userId amount key e d =
     (case bindE (enter_checks env userId amount e d) (\<lambda>rid.
           bindE (enter_tx (env_enforced (en_play env)) json rid userId amount key d) (\<lambda>(r, d1). Inr (rid, r, d1))) of
        Inl err \<Rightarrow> (Inl err, e, d)
      | Inr (rid, Replayed_entry s, d1) \<Rightarrow> (Inr (Replayed_entry s), e, d1)
      | Inr (rid, Fresh_entry r, d1) \<Rightarrow> (case onEntry (en_now env) rid userId amount e d1 of
            Inl err \<Rightarrow> (Inl err, e, d1)
          | Inr (e1, d2) \<Rightarrow> (Inr (Fresh_entry r), e1, d2)))"

definition to_fixed4 :: "rat \<Rightarrow> rat" where
  "to_fixed4 x = fl (of_int \<lfloor>x * 10000 + 1 / 2\<rfloor> / 10000)"

definition win_chance :: "int \<Rightarrow> int \<Rightarrow> rat" where
  "win_chance amount total_pot = (if total_pot > 0 then to_fixed4 (fl (fl (of_int amount) / fl (of_int total_pot))) else 0)"

definition snapshot :: "engine_env \<Rightarrow> jackpot_engine \<Rightarrow> db \<Rightarrow> jackpot_meta \<times> (nat \<times> int \<times> rat) list" where
  "snapshot env e d =
     (let m = jackpot_view env e;
          entries = (case jm_roundId m of None \<Rightarrow> [] | Some rid \<Rightarrow> entries_of rid d);
          players = map (\<lambda>(u, a). (u, a, win_chance a (pot entries))) (by_user entries)
      in (m, sort_key (\<lambda>(_, a, _). - fl (of_int a)) players))"

record my_entry =
  me_roundId :: nat
  me_status :: jackpot_status
  me_myAmountLamports :: int
  me_totalLamports :: int
  me_won :: bool
  me_payoutLamports :: int

definition myEntries :: "nat \<Rightarrow> nat \<Rightarrow> db \<Rightarrow> my_entry list" where
  "myEntries userId limit d =
     map (\<lambda>(rid, r). let mine = filter (\<lambda>e. je_userId e = userId) (entries_of rid d); won = (jr_winnerId r = Some userId) in
         \<lparr>me_roundId = rid, me_status = jr_status r, me_myAmountLamports = pot mine, me_totalLamports = jr_totalLamports r,
          me_won = won, me_payoutLamports = (if won then jr_payoutLamports r else 0)\<rparr>)
       (take limit (rev (filter (\<lambda>(rid, _). list_ex (\<lambda>e. je_userId e = userId) (entries_of rid d)) (jackpotRounds d))))"

record round_dto =
  rd_id :: nat
  rd_status :: jackpot_status
  rd_totalLamports :: int
  rd_payoutLamports :: int
  rd_winningTicket :: "int option"
  rd_winnerId :: "nat option"
  rd_drawnAt :: "int option"
  rd_serverSeed :: "string option"
  rd_serverSeedHash :: string
  rd_clientSeed :: string
  rd_nonce :: nat
  rd_ranges :: "(nat \<times> int \<times> int \<times> int) list"
  rd_beaconRound :: "int option"
  rd_entropy :: "string option"

definition serializeRound :: "nat \<Rightarrow> jackpot_round \<Rightarrow> seed_row \<Rightarrow> round_dto" where
  "serializeRound rid r seed = \<lparr>rd_id = rid, rd_status = jr_status r, rd_totalLamports = jr_totalLamports r,
     rd_payoutLamports = jr_payoutLamports r, rd_winningTicket = jr_winningTicket r, rd_winnerId = jr_winnerId r,
     rd_drawnAt = jr_drawnAt r, rd_serverSeed = (if sd_revealedAt seed = None then None else Some (sd_serverSeed seed)),
     rd_serverSeedHash = sd_serverSeedHash seed, rd_clientSeed = sd_clientSeed seed, rd_nonce = jr_nonce r,
     rd_ranges = (case jr_ranges r of None \<Rightarrow> [] | Some rs \<Rightarrow> rs), rd_beaconRound = jr_beaconRound r, rd_entropy = jr_slotHash r\<rparr>"

text \<open>A foreign key makes sure that the seed of a round exists.\<close>

definition with_seed :: "db \<Rightarrow> nat \<times> jackpot_round \<Rightarrow> round_dto option" where
  "with_seed d = (\<lambda>(rid, r). map_option (serializeRound rid r) (map_of (seeds d) (jr_seedId r)))"

definition recent :: "nat \<Rightarrow> db \<Rightarrow> round_dto list" where
  "recent limit d = List.map_filter (with_seed d)
     (take limit (newest (jr_drawnAt \<circ> snd) (filter (\<lambda>(_, r). jr_status r = JackpotDrawn) (jackpotRounds d))))"

definition find_round :: "nat \<Rightarrow> db \<Rightarrow> round_dto result" where
  "find_round rid d = (case map_of (jackpotRounds d) rid of
      None \<Rightarrow> Inl (NotFound ''Round not found or not drawn yet'')
    | Some r \<Rightarrow>
        if jr_status r = JackpotOpen then Inl (NotFound ''Round not found or not drawn yet'')
        else case with_seed d (rid, r) of None \<Rightarrow> Inl (Internal ''P2025'') | Some dto \<Rightarrow> Inr dto)"


subsection \<open>The money of a settlement\<close>

lemma jackpot_payout_eq: "0 \<le> t \<Longrightarrow> jackpot_payout t = t * 950 div 1000"
proof -
  have "js_round (fl (fl (1 - JACKPOT_HOUSE_EDGE) * 1000)) = 950" by code_simp
  then show "0 \<le> t \<Longrightarrow> jackpot_payout t = t * 950 div 1000" by (simp add: jackpot_payout_def bigint_div_def sgn_if)
qed

lemma jackpot_payout_bounds: "0 \<le> t \<Longrightarrow> 0 \<le> jackpot_payout t \<and> jackpot_payout t \<le> t"
  using zdiv_mono2[of "t * 950" 950 1000] by (simp add: jackpot_payout_eq pos_imp_zdiv_nonneg_iff)

text \<open>The tables of the game, which the settlement of the players does not touch.\<close>

definition same_pots :: "db \<Rightarrow> db \<Rightarrow> bool" where
  "same_pots d d' \<longleftrightarrow> jackpotRounds d' = jackpotRounds d \<and> jackpotEntries d' = jackpotEntries d \<and> seeds d' = seeds d"

lemma same_pots_refl [simp]: "same_pots d d"
  by (simp add: same_pots_def)

lemma same_pots_trans: "same_pots d d1 \<Longrightarrow> same_pots d1 d2 \<Longrightarrow> same_pots d d2"
  by (simp add: same_pots_def)

lemma same_pots_delta: "applyBalanceDelta u a m d = Inr (b, d') \<Longrightarrow> same_pots d d'"
  by (simp add: same_pots_def applyBalanceDelta_frame)

definition refund_journal :: "jackpot_entry list \<Rightarrow> posting list" where
  "refund_journal es = map (\<lambda>e. (je_userId e, Jeton, je_amountLamports e)) es"

lemma meta_of_sel [simp]: "currency (jackpot_meta_of w r) = Jeton" "reason (jackpot_meta_of w r) = w" "maxBalance (jackpot_meta_of w r) = None"
  by (simp_all add: jackpot_meta_of_def)

lemma refund_entries_spec:
  "refund_entries rid es d = Inr d' \<Longrightarrow> posts (refund_journal es) d d' \<and> same_pots d d'"
proof (induction es arbitrary: d)
  case (Cons e es)
  then obtain b d1 where a: "applyBalanceDelta (je_userId e) (je_amountLamports e) (jackpot_meta_of ''jackpot_refund'' rid) d = Inr (b, d1)"
    "refund_entries rid es d1 = Inr d'" by auto
  then show ?case using Cons.IH[OF a(2)] posts_Cons[OF applyBalanceDelta_posts[OF a(1)]] same_pots_delta[OF a(1)] same_pots_trans
    by (auto simp: refund_journal_def)
qed (simp add: refund_journal_def)

lemma settle_player_spec:
  assumes "settle_player env x w payout (uid, amount) d = Inr d'"
  shows "posts (if uid = w \<and> payout > 0 then [(uid, Jeton, payout)] else []) d d' \<and> same_pots d d'
    \<and> (\<exists>b. bets d' = bets d @ [b] \<and> b_userId b = uid \<and> b_amountLamports b = amount \<and> b_payoutLamports b = (if uid = w then payout else 0))"
proof -
  let ?credited = "if uid = w then payout else 0"
  let ?profit = "?credited - amount"
  obtain d1 where u: "updateUser uid (bump_stats amount ?profit) d = Inr d1"
    using assms by (auto simp: settle_player_def Let_def)
  define d3 where "d3 = snd (accrue (env_now env) uid amount (executeUser uid (raise_biggest ?profit) d1))"
  define bet where "bet = \<lparr>b_userId = uid, b_gameType = Jackpot, b_amountLamports = amount, b_payoutLamports = ?credited,
       b_multiplier = Some (if amount > 0 then fl (fl (of_int ?credited) / fl (of_int amount)) else 0),
       b_status = (if uid = w then BetWon else BetLost), b_nonce = Some (dx_nonce x),
       b_seedId = Some (dx_seedId x), b_createdAt = env_now env\<rparr>"
  have "settle_player env x w payout (uid, amount) d =
     bindE (creditReferral (env_enforced env) (env_now env) uid amount Jackpot d3) (\<lambda>d4.
     bindE (if ?credited > 0
            then applyBalanceDelta uid ?credited ((jeton_meta ''jackpot_settle'' ''Bet'')\<lparr>refId := Some (length (bets d4))\<rparr>) d4
            else Inr (0, d4)) (\<lambda>(_, d5). Inr (snd (create_bet bet d5))))"
    by (simp only: settle_player_def Let_def u bindE_simps prod.case d3_def bet_def)
  from this[unfolded assms, symmetric]
  obtain d4 b d5 where c: "creditReferral (env_enforced env) (env_now env) uid amount Jackpot d3 = Inr d4"
    and a: "(if ?credited > 0 then applyBalanceDelta uid ?credited ((jeton_meta ''jackpot_settle'' ''Bet'')\<lparr>refId := Some (length (bets d4))\<rparr>) d4
            else Inr (0, d4)) = Inr (b, d5)"
    and d'_eq: "d' = snd (create_bet bet d5)"
    by (elim bindE_InrE) (auto simp del: create_bet_simps)
  have d': "d' = d5\<lparr>bets := bets d5 @ [bet]\<rparr> \<and> b_userId bet = uid \<and> b_amountLamports bet = amount \<and> b_payoutLamports bet = ?credited"
    by (simp add: d'_eq create_bet_def bet_def)
  have "same_money d d1" using updateUser_same[OF u] by simp
  moreover have "same_money d1 (executeUser uid (raise_biggest ?profit) d1)" by (auto intro: executeUser_same)
  moreover have "same_money (executeUser uid (raise_biggest ?profit) d1) d3" unfolding d3_def by (rule accrue_same)
  moreover have "same_money d3 d4" by (rule creditReferral_same[OF c])
  ultimately have s: "same_money d d4" by (blast intro: same_money_trans)
  have "posts (if uid = w \<and> payout > 0 then [(uid, Jeton, payout)] else []) d4 d5"
    using a applyBalanceDelta_posts[of uid payout _ d4 b d5] by (fastforce split: if_splits)
  then have p: "posts (if uid = w \<and> payout > 0 then [(uid, Jeton, payout)] else []) d d5"
    using posts_trans[of "[]" d d4] s by (simp add: posts_Nil)
  have "same_money d5 d'" using d' by (auto intro!: same_moneyI)
  with p have P: "posts (if uid = w \<and> payout > 0 then [(uid, Jeton, payout)] else []) d d'" by (rule posts_same)
  have f: "same_pots d d1 \<and> bets d1 = bets d" using u by (auto simp: updateUser_Inr same_pots_def)
  have g: "same_pots d1 d3 \<and> bets d3 = bets d1" by (simp add: d3_def same_pots_def)
  have h: "same_pots d3 d4 \<and> bets d4 = bets d3" using creditReferral_frame[OF c] commission_frame[OF c] by (simp add: same_pots_def)
  have k: "same_pots d4 d5 \<and> bets d5 = bets d4"
    using a applyBalanceDelta_frame[of uid payout _ d4 b d5] by (auto simp: same_pots_def split: if_splits)
  show ?thesis using P f g h k d' by (auto simp: same_pots_def)
qed


lemma settle_players_spec:
  assumes "settle_players env x w payout ps d = Inr d'" and "distinct (map fst ps)"
  shows "posts (if w \<in> fst ` set ps \<and> payout > 0 then [(w, Jeton, payout)] else []) d d' \<and> same_pots d d'
    \<and> (\<exists>bs. bets d' = bets d @ bs \<and> map (\<lambda>b. (b_userId b, b_amountLamports b)) bs = ps
         \<and> map b_payoutLamports bs = map (\<lambda>(u, _). if u = w then payout else 0) ps)"
  using assms
proof (induction ps arbitrary: d)
  case (Cons p ps)
  obtain uid amount where p: "p = (uid, amount)" by (cases p)
  obtain d1 where s: "settle_player env x w payout (uid, amount) d = Inr d1" "settle_players env x w payout ps d1 = Inr d'"
    using Cons.prems p by auto
  note one = settle_player_spec[OF s(1)] and ih = Cons.IH[OF s(2)]
  have d: "distinct (map fst ps)" "uid \<notin> fst ` set ps" using Cons.prems p by auto
  have "posts (if w \<in> fst ` set (p # ps) \<and> payout > 0 then [(w, Jeton, payout)] else []) d d'"
    using posts_trans[OF conjunct1[OF one] conjunct1[OF ih[OF d(1)]]] d(2) p by (auto split: if_splits)
  moreover have "same_pots d d'" using one ih[OF d(1)] same_pots_trans by blast
  moreover obtain b bs where "bets d1 = bets d @ [b]" "b_userId b = uid" "b_amountLamports b = amount"
    "b_payoutLamports b = (if uid = w then payout else 0)" "bets d' = bets d1 @ bs"
    "map (\<lambda>b. (b_userId b, b_amountLamports b)) bs = ps" "map b_payoutLamports bs = map (\<lambda>(u, _). if u = w then payout else 0) ps"
    using one ih[OF d(1)] by blast
  ultimately show ?case using p by (auto intro!: exI[of _ "b # bs"])
qed (simp add: posts_Nil)

text \<open>The contributions by player: every player once, and together the pot.\<close>

lemma by_user_fold:
  fixes es :: "jackpot_entry list"
  defines "f \<equiv> \<lambda>m e. AList.update (je_userId e) ((case map_of m (je_userId e) of None \<Rightarrow> 0 | Some a \<Rightarrow> a) + je_amountLamports e) m"
  assumes "distinct (map fst m)"
  shows "distinct (map fst (foldl f m es)) \<and> fst ` set (foldl f m es) = fst ` set m \<union> je_userId ` set es
    \<and> sum_list (map snd (foldl f m es)) = sum_list (map snd m) + pot es"
  using assms(2)
proof (induction es arbitrary: m)
  case (Cons e es)
  have "distinct (map fst (f m e))" using Cons.prems unfolding f_def by (rule distinct_update)
  moreover have "sum_list (map snd (f m e)) = sum_list (map snd m) + je_amountLamports e"
  proof (cases "map_of m (je_userId e)")
    case None then show ?thesis using col_sum_update_None[OF None, where f = "\<lambda>x. x"] by (simp add: f_def col_sum_def comp_def)
  next
    case (Some a) then show ?thesis using col_sum_update_Some[OF Some, where f = "\<lambda>x. x"] by (simp add: f_def col_sum_def comp_def)
  qed
  moreover have "fst ` set (f m e) = insert (je_userId e) (fst ` set m)" by (auto simp: f_def dom_update)
  ultimately show ?case using Cons.IH[of "f m e"] by (simp add: pot_def)
qed (simp add: pot_def)

lemma by_user_spec:
  "distinct (map fst (by_user es)) \<and> fst ` set (by_user es) = je_userId ` set es \<and> sum_list (map snd (by_user es)) = pot es"
  using by_user_fold[of "[]" es] by (simp add: by_user_def)

definition outcome_journal :: "jackpot_entry list \<Rightarrow> jackpot_outcome \<Rightarrow> posting list" where
  "outcome_journal es out = (case out of
      Refunded_round _ \<Rightarrow> refund_journal es
    | Drawn_round _ winnerId _ payout \<Rightarrow> if payout > 0 then [(winnerId, Jeton, payout)] else [])"

lemma claim_jackpot_Inr: "claim_jackpot rid f d = Inr d1 \<longleftrightarrow>
    (\<exists>r. map_of (jackpotRounds d) rid = Some r \<and> jr_status r = JackpotOpen
      \<and> d1 = d\<lparr>jackpotRounds := AList.update rid (f r) (jackpotRounds d)\<rparr>)"
  by (auto simp: claim_jackpot_def update_open_round_def assertRoundClaimed_def split: option.splits if_splits)

lemma find_index_less: "xs \<noteq> [] \<Longrightarrow> 0 \<le> k \<Longrightarrow> find_index P k xs < k + int (length xs)"
proof (induction P k xs rule: find_index.induct)
  case (2 P i x xs) then show ?case by (cases xs) auto
qed simp

lemma drawn_winner_in: "es \<noteq> [] \<Longrightarrow> drawn_winner es t \<in> set es"
proof -
  assume es: "es \<noteq> []"
  have "jackpotWinnerIndex (map je_amountLamports es) t < int (length es)"
    using find_index_less[of "jackpotRanges (map je_amountLamports es)" 0] es
    by (force simp: jackpotWinnerIndex_def jackpotRanges_def)
  then show ?thesis using es by (auto simp: drawn_winner_def Let_def nat_less_iff)
qed


definition few_players :: "jackpot_entry list \<Rightarrow> bool" where
  "few_players es \<longleftrightarrow> length (remdups (map je_userId es)) < MIN_PLAYERS"

definition outcome_ok :: "play_env \<Rightarrow> draw_ctx \<Rightarrow> jackpot_entry list \<Rightarrow> jackpot_outcome \<Rightarrow> bool" where
  "outcome_ok env x es out = (case out of
      Refunded_round total_pot \<Rightarrow> total_pot = pot es \<and> (few_players es \<or> dx_forceRefund x)
    | Drawn_round total_pot winnerId ticket payout \<Rightarrow> total_pot = pot es \<and> payout = jackpot_payout (pot es) \<and> \<not> few_players es
        \<and> \<not> dx_forceRefund x \<and> drawn_ticket env x (pot es) = Inr ticket \<and> winnerId = je_userId (drawn_winner es ticket))"

lemma settle_tx_cases:
  assumes "settle_tx env x d = Inr (out, d')"
  obtains r r' where "map_of (jackpotRounds d) (dx_roundId x) = Some r" "jr_status r = JackpotOpen"
    "jackpotRounds d' = AList.update (dx_roundId x) r' (jackpotRounds d)" "jr_status r' = outcome_status out"
    "jackpotEntries d' = jackpotEntries d" "posts (outcome_journal (entries_of (dx_roundId x) d) out) d d'"
    "outcome_ok (en_play env) x (entries_of (dx_roundId x) d) out" "en_leader env"
    "jr_beaconRound r' = (case out of Drawn_round _ _ _ _ \<Rightarrow> map_option fst (dx_beacon x) | _ \<Rightarrow> jr_beaconRound r)"
    "\<exists>s. map_of (seeds d') (dx_seedId x) = Some s \<and> sd_revealedAt s = Some (en_now env)"
proof -
  let ?es = "entries_of (dx_roundId x) d" and ?env = "en_play env"
  have lead: "en_leader env" using assms by (auto simp: settle_tx_def assertStillLeader_def guardE_def split: if_splits)
  show thesis
  proof (cases "few_players ?es \<or> dx_forceRefund x")
    case True
    then have "refund_pot ?env x ?es d = Inr (out, d')"
      using assms lead by (simp add: settle_tx_def assertStillLeader_def guardE_def few_players_def Let_def)
    define f :: "jackpot_round \<Rightarrow> jackpot_round" where "f = (\<lambda>r. r\<lparr>jr_status := JackpotRefunded, jr_totalLamports := pot ?es, jr_drawnAt := Some (env_now ?env)\<rparr>)"
    obtain d1 d2 where c: "claim_jackpot (dx_roundId x) f d = Inr d1" "refund_entries (dx_roundId x) ?es d1 = Inr d2"
      "reveal_seed (env_now ?env) (dx_seedId x) d2 = Inr d'" and out: "out = Refunded_round (pot ?es)"
      using \<open>refund_pot ?env x ?es d = Inr (out, d')\<close> by (auto simp: refund_pot_def f_def)
    from c(1) obtain r where r: "map_of (jackpotRounds d) (dx_roundId x) = Some r" "jr_status r = JackpotOpen"
      and d1: "d1 = d\<lparr>jackpotRounds := AList.update (dx_roundId x) (f r) (jackpotRounds d)\<rparr>" unfolding claim_jackpot_Inr by auto
    note R = refund_entries_spec[OF c(2)] and S = reveal_seed_spec[OF c(3)]
    have "same_money d d1" by (rule same_moneyI) (simp_all add: d1)
    then have "posts (refund_journal ?es) d d'" using R S posts_between by blast
    with r out True R S lead show thesis
      by (intro that[of r "f r"]) (auto simp: d1 f_def same_pots_def outcome_journal_def outcome_ok_def outcome_status_def)
  next
    case False
    then have "draw_pot ?env x ?es d = Inr (out, d')"
      using assms lead by (simp add: settle_tx_def assertStillLeader_def guardE_def few_players_def Let_def)
    then obtain ticket where t: "drawn_ticket ?env x (pot ?es) = Inr ticket" by (auto simp: draw_pot_def Let_def)
    define w where "w = je_userId (drawn_winner ?es ticket)"
    define f :: "jackpot_round \<Rightarrow> jackpot_round" where "f = (\<lambda>r. r\<lparr>jr_status := JackpotDrawn, jr_totalLamports := pot ?es, jr_winnerId := Some w,
          jr_winningTicket := Some ticket, jr_payoutLamports := jackpot_payout (pot ?es), jr_drawnAt := Some (env_now ?env),
          jr_ranges := Some (range_rows ?es), jr_beaconRound := map_option fst (dx_beacon x),
          jr_slotHash := map_option (digest_hex \<circ> snd) (dx_beacon x)\<rparr>)"
    obtain d1 d2 where c: "claim_jackpot (dx_roundId x) f d = Inr d1"
      "settle_players ?env x w (jackpot_payout (pot ?es)) (by_user ?es) d1 = Inr d2"
      "reveal_seed (env_now ?env) (dx_seedId x) d2 = Inr d'"
      and out: "out = Drawn_round (pot ?es) w ticket (jackpot_payout (pot ?es))"
      using \<open>draw_pot ?env x ?es d = Inr (out, d')\<close> t by (auto simp: draw_pot_def Let_def w_def f_def)
    from c(1) obtain r where r: "map_of (jackpotRounds d) (dx_roundId x) = Some r" "jr_status r = JackpotOpen"
      and d1: "d1 = d\<lparr>jackpotRounds := AList.update (dx_roundId x) (f r) (jackpotRounds d)\<rparr>" unfolding claim_jackpot_Inr by auto
    note R = settle_players_spec[OF c(2)] and S = reveal_seed_spec[OF c(3)] and B = by_user_spec[of ?es]
    have "?es \<noteq> []" using False by (auto simp: few_players_def MIN_PLAYERS_def)
    then have w: "w \<in> fst ` set (by_user ?es)" using B drawn_winner_in by (simp add: w_def)
    have "same_money d d1" by (rule same_moneyI) (simp_all add: d1)
    moreover have "posts (outcome_journal ?es out) d1 d2" using R B w out by (auto simp: outcome_journal_def)
    ultimately have "posts (outcome_journal ?es out) d d'" using S posts_between by blast
    with r out False R B S lead t show thesis
      by (intro that[of r "f r"]) (auto simp: d1 same_pots_def outcome_ok_def outcome_status_def f_def w_def)
  qed
qed


lemma drawn_ticket_range: "0 < t \<Longrightarrow> drawn_ticket env x t = Inr k \<Longrightarrow> 0 \<le> k \<and> k < t"
  by (auto simp: drawn_ticket_def jackpotTicketFromEntropy_def jackpotWinningTicket_def split: option.splits prod.splits)

lemma pot_positive: "es \<noteq> [] \<Longrightarrow> \<forall>e \<in> set es. 0 < je_amountLamports e \<Longrightarrow> 0 < pot es"
proof (induction es)
  case (Cons e es) then show ?case by (cases es) (auto simp: pot_def)
qed simp

lemma drawn_winner_owns:
  assumes "\<forall>e \<in> set es. 0 < je_amountLamports e" and "es \<noteq> []" and "drawn_ticket env x (pot es) = Inr k"
  shows "\<exists>i. owns (map je_amountLamports es) i k \<and> drawn_winner es k = es ! i"
proof -
  have k: "0 \<le> k" "k < sum_list (map je_amountLamports es)"
    using drawn_ticket_range[OF pot_positive[OF assms(2,1)] assms(3)] by (auto simp: pot_def)
  have nn: "\<forall>a \<in> set (map je_amountLamports es). 0 \<le> a" using assms(1) by force
  from owner_exists[OF nn k] obtain i where i: "owns (map je_amountLamports es) i k" by blast
  then show ?thesis using jackpotWinnerIndex_owner[OF nn i] by (auto simp: drawn_winner_def Let_def)
qed

lemma settle_tx_closed:
  assumes "map_of (jackpotRounds d) (dx_roundId x) = Some r" and "jr_status r \<noteq> JackpotOpen"
  shows "\<exists>e. settle_tx env x d = Inl e"
proof (cases "settle_tx env x d")
  case (Inr y) then show ?thesis using assms settle_tx_cases[of env x d "fst y" "snd y"] by (metis option.inject prod.collapse)
qed blast

lemma enter_tx_cases:
  assumes "enter_tx enforced json rid uid amount key d = Inr (out, d')"
  obtains (Replayed) s where "out = Replayed_entry s" "same_money d d'" "same_pots d d'"
  | (Fresh) r where "out = Fresh_entry \<lparr>er_roundId = rid, er_amountLamports = amount\<rparr>" "map_of (jackpotRounds d) rid = Some r" "jr_status r = JackpotOpen"
      "jackpotRounds d' = AList.update rid (r\<lparr>jr_status := JackpotOpen\<rparr>) (jackpotRounds d)"
      "jackpotEntries d' = jackpotEntries d @ [\<lparr>je_roundId = rid, je_userId = uid, je_amountLamports = amount\<rparr>]"
      "\<forall>e \<in> set (entries_of rid d). je_userId e \<noteq> uid" "posts [(uid, Jeton, - amount)] d d'"
proof -
  obtain replay d0 where c: "claimIdempotency uid ''jackpot_enter'' key d = Inr (replay, d0)"
    using assms by (auto simp: enter_tx_def)
  have c': "same_money d d0" "same_pots d d0"
    using claim_same[OF c] c by (auto simp: same_pots_def claimIdempotency_def split: if_splits option.splits)
  show thesis
  proof (cases replay)
    case (Some s) then show thesis using assms c c' Replayed by (auto simp: enter_tx_def)
  next
    case None
    let ?d2 = "\<lambda>d1 :: db. d1\<lparr>jackpotEntries := jackpotEntries d1 @ [\<lparr>je_roundId = rid, je_userId = uid, je_amountLamports = amount\<rparr>]\<rparr>"
    obtain b d1 d3 n where a: "applyBalanceDelta uid (- amount) (jackpot_meta_of ''jackpot_entry'' rid) d0 = Inr (b, d1)"
      and ce: "create_entry rid uid amount d1 = Inr (?d2 d1)"
      and u: "update_open_round rid (\<lambda>r. r\<lparr>jr_status := JackpotOpen\<rparr>) (?d2 d1) = (n, d3)" "n \<noteq> 0"
      and st: "storeIdempotency uid ''jackpot_enter'' key (json \<lparr>er_roundId = rid, er_amountLamports = amount\<rparr>) d3 = Inr d'"
      and out: "out = Fresh_entry \<lparr>er_roundId = rid, er_amountLamports = amount\<rparr>"
      using assms c None by (auto simp: enter_tx_def Let_def create_entry_def guardE_def split: prod.splits if_splits)
    have s: "same_money d3 d'" "same_pots d3 d'"
      using store_same[OF st] st by (auto simp: same_pots_def storeIdempotency_def split: if_splits option.splits)
    note p1 = same_pots_delta[OF a]
    obtain r where r: "map_of (jackpotRounds d) rid = Some r" "jr_status r = JackpotOpen"
      and d3: "d3 = (?d2 d1)\<lparr>jackpotRounds := AList.update rid (r\<lparr>jr_status := JackpotOpen\<rparr>) (jackpotRounds d)\<rparr>"
      using u p1 c'(2) by (auto simp: update_open_round_def same_pots_def split: option.splits if_splits)
    have "same_money d1 d3" by (rule same_moneyI) (simp_all add: d3)
    then have "posts [(uid, Jeton, - amount)] d d'"
      using posts_between[OF c'(1) applyBalanceDelta_posts[OF a]] s(1) same_money_trans by fastforce
    moreover have "\<forall>e \<in> set (entries_of rid d). je_userId e \<noteq> uid"
      using ce p1 c'(2) by (auto simp: create_entry_def entries_of_def same_pots_def list_ex_iff split: if_splits)
    ultimately show thesis using Fresh[OF out r] s(2) p1 c'(2) by (simp add: same_pots_def d3)
  qed
qed

text \<open>
  C3. Settlement of a jackpot: it refines its journal. Below two players, or after the last retry, every entry is given
  back exactly; otherwise one player, the owner of the drawn ticket in the ranges of the entries, is paid 95% of the pot,
  rounded down, and nobody else anything. The round was open, and after it neither another settlement nor a
  new entry of the round can commit.
\<close>

theorem pot_settled_once:
  assumes "settle_tx env x d = Inr (out, d')" and "\<forall>e \<in> set (entries_of (dx_roundId x) d). 0 < je_amountLamports e"
  shows "posts (outcome_journal (entries_of (dx_roundId x) d) out) d d'
    \<and> (case out of
        Refunded_round total_pot \<Rightarrow> total_pot = pot (entries_of (dx_roundId x) d)
      | Drawn_round total_pot winnerId ticket payout \<Rightarrow> total_pot = pot (entries_of (dx_roundId x) d) \<and> payout = total_pot * 950 div 1000
          \<and> (\<exists>i. owns (map je_amountLamports (entries_of (dx_roundId x) d)) i ticket \<and> je_userId (entries_of (dx_roundId x) d ! i) = winnerId))
    \<and> (\<exists>err. settle_tx env2 (x\<lparr>dx_forceRefund := f, dx_beacon := b, dx_drawSeed := s\<rparr>) d' = Inl err)
      \<and> enter_tx enforced json (dx_roundId x) uid amount key d' \<noteq> Inr (Fresh_entry reply, d'')"
proof -
  obtain r' where r': "jackpotRounds d' = AList.update (dx_roundId x) r' (jackpotRounds d)" "jr_status r' = outcome_status out"
    and p: "posts (outcome_journal (entries_of (dx_roundId x) d) out) d d'"
    and ok: "outcome_ok (en_play env) x (entries_of (dx_roundId x) d) out"
    using settle_tx_cases[OF assms(1)] by metis
  have m: "map_of (jackpotRounds d') (dx_roundId x) = Some r'" "jr_status r' \<noteq> JackpotOpen"
    using r' by (auto simp: outcome_status_def split: jackpot_outcome.splits)
  have w: "case out of
        Refunded_round total_pot \<Rightarrow> total_pot = pot (entries_of (dx_roundId x) d)
      | Drawn_round total_pot winnerId ticket payout \<Rightarrow> total_pot = pot (entries_of (dx_roundId x) d) \<and> payout = total_pot * 950 div 1000
          \<and> (\<exists>i. owns (map je_amountLamports (entries_of (dx_roundId x) d)) i ticket \<and> je_userId (entries_of (dx_roundId x) d ! i) = winnerId)"
  proof (cases out)
    case (Drawn_round t w k p)
    have "entries_of (dx_roundId x) d \<noteq> []" using ok by (auto simp: Drawn_round outcome_ok_def few_players_def MIN_PLAYERS_def)
    then show ?thesis using ok drawn_winner_owns[OF assms(2)] pot_positive[OF _ assms(2)] jackpot_payout_eq
      by (fastforce simp: Drawn_round outcome_ok_def)
  qed (use ok in \<open>simp add: outcome_ok_def\<close>)
  have "enter_tx enforced json (dx_roundId x) uid amount key d' \<noteq> Inr (Fresh_entry reply, d'')"
    using m by (auto elim: enter_tx_cases)
  then have "(\<exists>err. settle_tx env2 (x\<lparr>dx_forceRefund := f, dx_beacon := b, dx_drawSeed := s\<rparr>) d' = Inl err)
      \<and> enter_tx enforced json (dx_roundId x) uid amount key d' \<noteq> Inr (Fresh_entry reply, d'')"
    using settle_tx_closed[of d' _ r' env2] m by simp
  with p w show ?thesis by blast
qed


subsection \<open>A settlement that can be retried\<close>

lemma settle_player_ok:
  assumes "uid \<in> user_ids d" and "0 \<le> payout"
  shows "\<exists>d'. settle_player env x w payout (uid, amount) d = Inr d' \<and> user_ids d' = user_ids d"
proof -
  let ?credited = "if uid = w then payout else 0"
  let ?profit = "?credited - amount"
  obtain d1 where up: "updateUser uid (bump_stats amount ?profit) d = Inr d1" by (rule update_ok[OF assms(1)])
  define d3 where "d3 = snd (accrue (env_now env) uid amount (executeUser uid (raise_biggest ?profit) d1))"
  have ids: "user_ids d3 = user_ids d" using update_ids[OF up] by (simp add: d3_def)
  then obtain d4 where c: "creditReferral (env_enforced env) (env_now env) uid amount Jackpot d3 = Inr d4"
    using referral_ok[of uid d3] assms(1) by metis
  have ids4: "user_ids d4 = user_ids d" using referral_ids[OF c] ids by simp
  let ?meta = "(jeton_meta ''jackpot_settle'' ''Bet'')\<lparr>refId := Some (length (bets d4))\<rparr>"
  have "\<exists>b d5. (if ?credited > 0 then applyBalanceDelta uid ?credited ?meta d4 else Inr (0, d4)) = Inr (b, d5)"
  proof (cases "?credited > 0")
    case True
    have "uid \<in> user_ids d4" "0 \<le> ?credited" "maxBalance ?meta = None" using ids4 assms by simp_all
    then obtain b d5 where "applyBalanceDelta uid ?credited ?meta d4 = Inr (b, d5)" by (rule credit_ok)
    then show ?thesis using True by auto
  qed simp
  then obtain b d5 where a: "(if ?credited > 0 then applyBalanceDelta uid ?credited ?meta d4 else Inr (0, d4)) = Inr (b, d5)" by blast
  have ids5: "user_ids d5 = user_ids d" using a ids4 delta_ids[of uid ?credited ?meta d4 b d5] by (auto split: if_splits)
  have "\<exists>bet. settle_player env x w payout (uid, amount) d = Inr (snd (create_bet bet d5))"
    unfolding settle_player_def prod.case Let_def up bindE_simps d3_def[symmetric] c a by blast
  then show ?thesis using ids5 by (auto simp: user_ids_def)
qed

lemma settle_players_ok:
  assumes "fst ` set ps \<subseteq> user_ids d" and "0 \<le> payout"
  shows "\<exists>d'. settle_players env x w payout ps d = Inr d' \<and> user_ids d' = user_ids d"
  using assms(1)
proof (induction ps arbitrary: d)
  case (Cons p ps)
  obtain uid amount where p: "p = (uid, amount)" by (cases p)
  obtain d1 where "settle_player env x w payout (uid, amount) d = Inr d1" "user_ids d1 = user_ids d"
    using settle_player_ok[of uid d payout env x w amount] Cons.prems assms(2) p by auto
  then show ?case using Cons.IH[of d1] Cons.prems p by auto
qed simp

lemma refund_entries_ok:
  assumes "je_userId ` set es \<subseteq> user_ids d" and "\<forall>e \<in> set es. 0 \<le> je_amountLamports e"
  shows "\<exists>d'. refund_entries rid es d = Inr d'"
  using assms
proof (induction es arbitrary: d)
  case (Cons e es)
  have "je_userId e \<in> user_ids d" "0 \<le> je_amountLamports e" "maxBalance (jackpot_meta_of ''jackpot_refund'' rid) = None"
    using Cons.prems by simp_all
  then obtain b d1 where a: "applyBalanceDelta (je_userId e) (je_amountLamports e) (jackpot_meta_of ''jackpot_refund'' rid) d = Inr (b, d1)"
    by (rule credit_ok)
  then show ?case using Cons.IH[of d1] Cons.prems delta_ids[OF a] by auto
qed simp

lemma drawn_ticket_ok: "\<exists>k. drawn_ticket env x t = Inr k"
  by (auto simp: drawn_ticket_def jackpotTicketFromEntropy_def lotteryFinalEntropy_def split: option.splits)

text \<open>An open round can be settled when its seed row and the accounts of its players exist.\<close>

definition settleable :: "nat \<Rightarrow> nat \<Rightarrow> db \<Rightarrow> bool" where
  "settleable rid seedId d \<longleftrightarrow> (\<exists>r. map_of (jackpotRounds d) rid = Some r \<and> jr_status r = JackpotOpen) \<and> map_of (seeds d) seedId \<noteq> None
     \<and> je_userId ` set (entries_of rid d) \<subseteq> user_ids d \<and> (\<forall>e \<in> set (entries_of rid d). 0 \<le> je_amountLamports e)"

lemma settle_tx_ok:
  assumes "settleable (dx_roundId x) (dx_seedId x) d" and "en_leader env"
  shows "\<exists>out d'. settle_tx env x d = Inr (out, d')"
proof -
  let ?es = "entries_of (dx_roundId x) d" and ?env = "en_play env"
  obtain r where r: "map_of (jackpotRounds d) (dx_roundId x) = Some r" "jr_status r = JackpotOpen"
    using assms(1) by (auto simp: settleable_def)
  have users: "je_userId ` set ?es \<subseteq> user_ids d" and nn: "\<forall>e \<in> set ?es. 0 \<le> je_amountLamports e"
    and seed: "map_of (seeds d) (dx_seedId x) \<noteq> None" using assms(1) by (auto simp: settleable_def)
  have claim: "\<exists>d1. claim_jackpot (dx_roundId x) f d = Inr d1 \<and> user_ids d1 = user_ids d \<and> seeds d1 = seeds d" for f
    using r unfolding claim_jackpot_Inr by (auto simp: user_ids_def)
  have reveal: "\<exists>d'. reveal_seed now (dx_seedId x) d2 = Inr d'" if "seeds d2 = seeds d" for now d2
    using that seed by (auto simp: reveal_seed_def)
  have refund: "\<exists>out. refund_pot ?env x ?es d = Inr out"
  proof -
    obtain d1 where c: "claim_jackpot (dx_roundId x) (\<lambda>r. r\<lparr>jr_status := JackpotRefunded, jr_totalLamports := pot ?es,
        jr_drawnAt := Some (env_now ?env)\<rparr>) d = Inr d1" "user_ids d1 = user_ids d" "seeds d1 = seeds d" using claim by blast
    obtain d2 where e: "refund_entries (dx_roundId x) ?es d1 = Inr d2" using refund_entries_ok users nn c(2) by metis
    have "seeds d2 = seeds d" using refund_entries_spec[OF e] c(3) by (simp add: same_pots_def)
    from reveal[OF this, of "env_now ?env"] show ?thesis using c e by (auto simp: refund_pot_def)
  qed
  have draw: "\<exists>out. draw_pot ?env x ?es d = Inr out"
  proof -
    obtain k where k: "drawn_ticket ?env x (pot ?es) = Inr k" using drawn_ticket_ok by blast
    let ?w = "je_userId (drawn_winner ?es k)"
    define f :: "jackpot_round \<Rightarrow> jackpot_round" where "f = (\<lambda>r. r\<lparr>jr_status := JackpotDrawn, jr_totalLamports := pot ?es, jr_winnerId := Some ?w,
          jr_winningTicket := Some k, jr_payoutLamports := jackpot_payout (pot ?es), jr_drawnAt := Some (env_now ?env),
          jr_ranges := Some (range_rows ?es), jr_beaconRound := map_option fst (dx_beacon x),
          jr_slotHash := map_option (digest_hex \<circ> snd) (dx_beacon x)\<rparr>)"
    obtain d1 where c: "claim_jackpot (dx_roundId x) f d = Inr d1" "user_ids d1 = user_ids d" "seeds d1 = seeds d" using claim by blast
    have "0 \<le> pot ?es" using nn by (auto simp: pot_def intro!: sum_list_nonneg)
    then obtain d2 where e: "settle_players ?env x ?w (jackpot_payout (pot ?es)) (by_user ?es) d1 = Inr d2"
      using settle_players_ok[of "by_user ?es" d1] by_user_spec[of ?es] users c(2) jackpot_payout_bounds by metis
    have "seeds d2 = seeds d" using settle_players_spec[OF e] by_user_spec[of ?es] c(3) by (simp add: same_pots_def)
    from reveal[OF this, of "env_now ?env"] show ?thesis using k c(1) e by (auto simp: draw_pot_def Let_def f_def)
  qed
  show ?thesis using refund draw assms(2) by (simp add: settle_tx_def assertStillLeader_def guardE_def Let_def)
qed


text \<open>An engine whose current round is open in the database, and the attempts of its retry timer.\<close>

definition holds_round :: "nat \<Rightarrow> jackpot_engine \<Rightarrow> bool" where
  "holds_round rid e \<longleftrightarrow> cr_id (jk_current e) = Some rid \<and> cr_status (jk_current e) = JackpotOpen \<and> \<not> jk_settling e"

definition round_over :: "nat \<Rightarrow> db \<Rightarrow> bool" where
  "round_over rid d \<longleftrightarrow> (\<exists>r. map_of (jackpotRounds d) rid = Some r \<and> jr_status r \<noteq> JackpotOpen)"

fun retry_settle :: "(engine_env \<times> string \<times> string) list \<Rightarrow> nat \<Rightarrow> jackpot_engine \<Rightarrow> db \<Rightarrow> jackpot_engine \<times> db" where
  "retry_settle [] rid e d = (e, d)"
| "retry_settle ((env, fresh) # envs) rid e d = (case drawAndSettle env fresh (Some rid) True e d of
      (Inr False, e1, d1) \<Rightarrow> retry_settle envs rid e1 d1
    | (_, e1, d1) \<Rightarrow> (e1, d1))"

lemma openNewRound_keeps:
  assumes "openNewRound env s c e d = (e', d')" and "map_of (jackpotRounds d) rid = Some r"
  shows "map_of (jackpotRounds d') rid = Some r"
  using assms by (auto simp: openNewRound_def insert_row_def Let_def split: if_splits)

lemma settle_attempt:
  assumes "holds_round rid e" and "settleable rid (cr_seedId (jk_current e)) d" and "en_leader env" and "env_chain (en_play env) = None"
  shows "(\<exists>e' d'. drawAndSettle env fresh (Some rid) True e d = (Inr True, e', d') \<and> round_over rid d')
    \<or> \<not> force_refund env e \<and> drawAndSettle env fresh (Some rid) True e d = (Inr False, settle_failed env rid e d)"
proof -
  let ?c = "jk_current e"
  have run: "drawAndSettle env fresh (Some rid) True e d = settleRound env fresh rid e d"
    using assms(1,3) by (simp add: drawAndSettle_def holds_round_def Let_def)
  have seed: "draw_seed env f ?c = Inr (cr_serverSeed ?c)" for f using assms(4) by (simp add: draw_seed_def)
  show ?thesis
  proof (cases "beacon_value env (force_refund env e) ?c")
    case (Inl err)
    then have "\<not> force_refund env e" "\<exists>s. err = Internal s" by (auto simp: beacon_value_def split: option.splits if_splits)
    then show ?thesis using Inl seed by (auto simp: run settleRound_def prepare_draw_def Let_def)
  next
    case (Inr b)
    then obtain x where x: "prepare_draw env rid e = Inr x" "dx_roundId x = rid" "dx_seedId x = cr_seedId ?c" "dx_beacon x = b"
      using seed by (auto simp: prepare_draw_def Let_def)
    then obtain out d1 where s: "settle_tx env x d = Inr (out, d1)" using settle_tx_ok assms(2,3) by metis
    obtain r' where r': "map_of (jackpotRounds d1) rid = Some r'" "jr_status r' \<noteq> JackpotOpen"
      using settle_tx_cases[OF s] x(2) by (metis map_of_update fun_upd_same outcome_status_def jackpot_outcome.exhaust jackpot_outcome.case jackpot_status.distinct(1,3))
    obtain e' d' where a: "after_settle env fresh rid b out e d1 = (e', d')" by fastforce
    have "map_of (jackpotRounds d') rid = Some r'"
      using a r'(1) openNewRound_keeps by (auto simp: after_settle_def Let_def split: if_splits)
    then show ?thesis using x s a r' seed by (auto simp: run settleRound_def round_over_def)
  qed
qed

lemma settle_failed_keeps:
  assumes "settle_failed env rid e d = (e', d')"
  shows "jk_settleFailures e' = jk_settleFailures e + 1 \<and> jk_current e' = jk_current e \<and> jk_settling e' = jk_settling e
    \<and> (settleable r s d' \<longleftrightarrow> settleable r s d)"
proof -
  have "entries_of r d' = entries_of r d" "jackpotRounds d' = jackpotRounds d" "seeds d' = seeds d" "user_ids d' = user_ids d"
    using assms by (auto simp: settle_failed_def Let_def recordFailure_def entries_of_def user_ids_def split: if_splits)
  then show ?thesis using assms by (auto simp: settle_failed_def Let_def settleable_def)
qed

text \<open>
  C24. A jackpot round is not parked for ever: whatever the beacon answers, the round that the engine holds is drawn or refunded
  after at most one attempt more than the configured number of retries, since the last one refunds without asking anyone.
\<close>

theorem jackpot_retries_end:
  assumes "holds_round rid e" and "settleable rid (cr_seedId (jk_current e)) d"
    and "\<forall>(env, _) \<in> set envs. en_leader env \<and> env_chain (en_play env) = None \<and> settleRetryAttempts (en_tuning env) \<le> attempts"
    and "attempts - jk_settleFailures e < length envs"
  shows "round_over rid (snd (retry_settle envs rid e d))"
  using assms
proof (induction envs arbitrary: e d)
  case (Cons x envs)
  obtain env fresh where x: "x = (env, fresh)" by (cases x)
  have env: "en_leader env" "env_chain (en_play env) = None" "settleRetryAttempts (en_tuning env) \<le> attempts"
    using Cons.prems(3) by (auto simp: x)
  from settle_attempt[OF Cons.prems(1,2) env(1,2), of fresh] show ?case
  proof (elim disjE exE conjE)
    fix e' d' assume "drawAndSettle env fresh (Some rid) True e d = (Inr True, e', d')" "round_over rid d'"
    then show ?thesis by (simp add: x)
  next
    assume nf: "\<not> force_refund env e" and run: "drawAndSettle env fresh (Some rid) True e d = (Inr False, settle_failed env rid e d)"
    obtain e' d' where f: "settle_failed env rid e d = (e', d')" by fastforce
    note k = settle_failed_keeps[OF f]
    have "attempts - jk_settleFailures e' < length envs"
      using nf env(3) Cons.prems(4) k by (auto simp: force_refund_def)
    moreover have "holds_round rid e'" "settleable rid (cr_seedId (jk_current e')) d'" using Cons.prems(1,2) k by (auto simp: holds_round_def)
    ultimately have "round_over rid (snd (retry_settle envs rid e' d'))" using Cons.IH Cons.prems(3) by simp
    then show ?thesis using run f by (simp add: x)
  qed
qed simp

lemma settle_tx_over:
  assumes "settle_tx env x d = Inr (out, d')"
  shows "round_over (dx_roundId x) d'"
  using assms by (rule settle_tx_cases) (auto simp: round_over_def outcome_status_def split: jackpot_outcome.splits)

text \<open>The ticks that drive a round: its draw timer, its retry timer and the watchdog.\<close>

datatype tick = Draw_tick "nat option" | Retry_tick nat | Watch_tick

definition run_tick :: "(engine_env \<times> string \<times> string) \<times> tick \<Rightarrow> jackpot_engine \<times> db \<Rightarrow> jackpot_engine \<times> db" where
  "run_tick = (\<lambda>((env, fresh), t) (e, d). case t of
      Draw_tick rid \<Rightarrow> fire env fresh (Draw_due rid) e d
    | Retry_tick rid \<Rightarrow> fire env fresh (Retry_settle rid) e d
    | Watch_tick \<Rightarrow> watchdog env fresh e d)"

lemma draw_of_settled_round:
  assumes "holds_round rid e" and "round_over rid d" and "env_chain (en_play env) = None"
  shows "\<exists>b e' d'. drawAndSettle env fresh rid' force e d = (Inr b, e', d') \<and> jk_current e' = jk_current e \<and> jk_settling e' = jk_settling e
    \<and> jackpotRounds d' = jackpotRounds d"
proof -
  have seed: "draw_seed env f c = Inr (cr_serverSeed c)" for f c using assms(3) by (simp add: draw_seed_def)
  have failed: "\<exists>e' d'. settle_failed env r e d = (e', d') \<and> jk_current e' = jk_current e \<and> jk_settling e' = jk_settling e
      \<and> jackpotRounds d' = jackpotRounds d" for r
    by (simp add: settle_failed_def Let_def recordFailure_def)
  have "\<exists>b e' d'. settleRound env fresh rid e d = (Inr b, e', d') \<and> jk_current e' = jk_current e \<and> jk_settling e' = jk_settling e
      \<and> jackpotRounds d' = jackpotRounds d"
  proof (cases "bindE (prepare_draw env rid e) (\<lambda>x. bindE (settle_tx env x d) (\<lambda>(out, d1). Inr (dx_beacon x, out, d1)))")
    case (Inl err)
    then show ?thesis using failed seed by (cases err) (auto simp: settleRound_def)
  next
    case (Inr y)
    then obtain x out d1 where x: "prepare_draw env rid e = Inr x" "settle_tx env x d = Inr (out, d1)" by auto
    then have "dx_roundId x = rid" by (auto simp: prepare_draw_def Let_def)
    then show ?thesis using settle_tx_closed[of d x _ env] x assms(2) by (auto simp: round_over_def)
  qed
  then show ?thesis using assms(1) by (auto simp: drawAndSettle_def holds_round_def Let_def)
qed

lemma tick_of_settled_round:
  assumes "holds_round rid e" and "round_over rid d" and "env_chain (en_play env) = None" and "run_tick ((env, fresh), t) (e, d) = (e', d')"
  shows "jk_current e' = jk_current e \<and> holds_round rid e' \<and> round_over rid d'"
proof -
  have g: "jk_current e' = jk_current e \<and> holds_round rid e' \<and> round_over rid d'"
    if "guard_boot env (drawAndSettle env fresh rid' force e d) = (e', d')" for rid' force
    using draw_of_settled_round[OF assms(1-3), of fresh rid' force] that assms(1,2)
    by (auto simp: guard_boot_def holds_round_def round_over_def)
  show ?thesis using assms(1,2,4) g
    by (cases t) (auto simp: run_tick_def fire_def watchdog_def Let_def split: option.splits if_splits)
qed

text \<open>
  A settlement whose commit is not acknowledged stops the jackpot: when the transaction has committed and the engine counts a
  failure, every later attempt finds the round settled and returns without opening another one. However long the timers
  and the watchdog tick, the engine keeps the settled round as its current one and accepts no entry.
\<close>

theorem lost_commit_stalls:
  assumes "holds_round rid e" and "cr_closeAt (jk_current e) = Some closeAt"
    and "settle_tx env x d = Inr (out, d1)" and "dx_roundId x = rid" and "settle_failed env rid e d1 = (e2, d2)"
    and "\<forall>((env, _), _) \<in> set ticks. env_chain (en_play env) = None" and "closeAt \<le> now"
  shows "getOpenRound now (fst (fold run_tick ticks (e2, d2))) = None"
proof -
  have h: "holds_round rid e2" "jk_current e2 = jk_current e" using assms(1) settle_failed_keeps[OF assms(5)] by (simp_all add: holds_round_def)
  have "round_over rid d1"
    using settle_tx_over[OF assms(3)] assms(4) by simp
  then have o: "round_over rid d2" using assms(5) by (auto simp: settle_failed_def Let_def recordFailure_def round_over_def)
  have "jk_current (fst (fold run_tick ticks (e2, d2))) = jk_current e2"
    using assms(6) h(1) o
  proof (induction ticks arbitrary: e2 d2)
    case (Cons t ticks)
    obtain env fresh k where t: "t = ((env, fresh), k)" by (metis prod.exhaust)
    obtain e3 d3 where s: "run_tick t (e2, d2) = (e3, d3)" by fastforce
    have "env_chain (en_play env) = None" using Cons.prems(1) t by simp
    from tick_of_settled_round[OF Cons.prems(2,3) this s[unfolded t]]
    have "jk_current e3 = jk_current e2 \<and> holds_round rid e3 \<and> round_over rid d3" .
    then show ?case using Cons.IH[of e3 d3] Cons.prems(1) s by simp
  qed simp
  then show ?thesis using assms(2,7) h(2) by (simp add: getOpenRound_def)
qed


text \<open>
  What a jackpot ticket depends on: with the beacon enabled, the ticket of a drawn round folds in the first beacon value
  after the close exactly when the memory of the engine knows two players. The draw itself counts the entries of the
  database: a round whose second entry has committed but is not registered in memory yet is drawn all the same, and its
  ticket then follows from the server seed alone, which the operator knew while entries were open.
\<close>

theorem ticket_source:
  assumes "prepare_draw env rid e = Inr x" and "settle_tx env x d = Inr (Drawn_round total_pot winnerId ticket payout, d')"
    and "en_beacon env = Some randomness" and "cr_closeAt (jk_current e) = Some closeAt"
  shows "if MIN_PLAYERS \<le> length (cr_players (jk_current e))
    then \<exists>v. randomness (beaconRoundAfter closeAt) = Some v
      \<and> jackpotTicketFromEntropy (env_sha (en_play env)) (cr_serverSeed (jk_current e)) (cr_clientSeed (jk_current e)) (digest_bytes v)
          (cr_nonce (jk_current e)) total_pot = Inr ticket
    else ticket = jackpotWinningTicket (env_hmac (en_play env)) (cr_serverSeed (jk_current e)) (cr_clientSeed (jk_current e))
          (cr_nonce (jk_current e)) total_pot"
proof -
  obtain r' where "outcome_ok (en_play env) x (entries_of (dx_roundId x) d) (Drawn_round total_pot winnerId ticket payout)"
    using settle_tx_cases[OF assms(2)] by metis
  then have t: "drawn_ticket (en_play env) x total_pot = Inr ticket" "\<not> dx_forceRefund x" by (auto simp: outcome_ok_def)
  let ?c = "jk_current e"
  have seed: "draw_seed env f ?c = Inr (cr_serverSeed ?c)" for f
    using assms(3) by (auto simp: draw_seed_def split: option.splits)
  obtain b where b: "beacon_value env (force_refund env e) ?c = Inr b"
    and x: "x = \<lparr>dx_roundId = rid, dx_seedId = cr_seedId ?c, dx_serverSeed = cr_serverSeed ?c, dx_drawSeed = cr_serverSeed ?c,
        dx_clientSeed = cr_clientSeed ?c, dx_nonce = cr_nonce ?c, dx_forceRefund = force_refund env e, dx_beacon = b\<rparr>"
    using assms(1) seed by (auto simp: prepare_draw_def Let_def)
  have "\<not> force_refund env e" using t(2) x by simp
  then show ?thesis using b t(1) assms(3,4) by (auto simp: beacon_value_def x drawn_ticket_def split: if_splits option.splits)
qed

subsection \<open>Entries and settlements in any order\<close>

text \<open>
  The transactions of the jackpot as steps on the database. An entry is checked against an engine and a database that may be
  older than its transaction, it is registered in memory at any time after it, and a settlement runs with whatever was
  prepared before.
\<close>

inductive jackpot_step :: "db \<Rightarrow> db \<Rightarrow> bool" where
  Enter: "enter_checks env uid amount e d0 = Inr rid \<Longrightarrow> enter_tx enforced json rid uid amount key d = Inr (out, d') \<Longrightarrow> jackpot_step d d'"
| Register: "onEntry now rid uid amount e d = Inr (e', d') \<Longrightarrow> jackpot_step d d'"
| Settle: "settle_tx env x d = Inr (out, d') \<Longrightarrow> jackpot_step d d'"
| Open_round: "openNewRound env s c e d = (e', d') \<Longrightarrow> jackpot_step d d'"

inductive jackpot_run :: "db \<Rightarrow> db \<Rightarrow> bool" where
  Start: "jackpot_run d d"
| Step: "jackpot_run d0 d \<Longrightarrow> jackpot_step d d' \<Longrightarrow> jackpot_run d0 d'"

definition round_open :: "nat \<Rightarrow> db \<Rightarrow> bool" where
  "round_open rid d \<longleftrightarrow> (case map_of (jackpotRounds d) rid of None \<Rightarrow> False | Some r \<Rightarrow> jr_status r = JackpotOpen)"

definition locked :: "db \<Rightarrow> int" where
  "locked d = pot (filter (\<lambda>e. round_open (je_roundId e) d) (jackpotEntries d))"

definition pots_ok :: "db \<Rightarrow> bool" where
  "pots_ok d \<longleftrightarrow> (\<forall>e \<in> set (jackpotEntries d). 0 \<le> je_amountLamports e \<and> map_of (jackpotRounds d) (je_roundId e) \<noteq> None)"

definition pooled :: "db \<Rightarrow> int" where
  "pooled d = posted Jeton d + locked d"

lemma pot_split: "pot (filter P es) = pot (filter (\<lambda>e. P e \<and> Q e) es) + pot (filter (\<lambda>e. P e \<and> \<not> Q e) es)"
  by (induction es) (auto simp: pot_def)

lemma pot_nonneg: "\<forall>e \<in> set es. 0 \<le> je_amountLamports e \<Longrightarrow> 0 \<le> pot es"
  by (auto simp: pot_def intro!: sum_list_nonneg)

lemma enter_step:
  assumes "enter_tx enforced json rid uid amount key d = Inr (out, d')" and "0 \<le> amount" and "pots_ok d"
  shows "pooled d' = pooled d \<and> pots_ok d' \<and> (round_over r d \<longrightarrow> round_over r d' \<and> entries_of r d' = entries_of r d)"
  using assms(1)
proof (cases rule: enter_tx_cases)
  case (Replayed s)
  then show ?thesis using same_posted[OF Replayed(2)] assms(3)
    by (auto simp: pooled_def locked_def round_open_def pots_ok_def same_pots_def round_over_def entries_of_def)
next
  case (Fresh row)
  have o: "round_open q d' = round_open q d" for q using Fresh(2-4) by (auto simp: round_open_def)
  have "locked d' = locked d + amount" using o Fresh(2,3,5) by (simp add: locked_def pot_def round_open_def)
  moreover have "posted Jeton d' = posted Jeton d - amount" using posts_posted[OF Fresh(7), of Jeton] by simp
  ultimately show ?thesis using Fresh(2-5) assms(2,3)
    by (auto simp: pooled_def pots_ok_def round_over_def entries_of_def)
qed

lemma settle_step:
  assumes "settle_tx env x d = Inr (out, d')" and "pots_ok d"
  shows "pooled d' \<le> pooled d \<and> pots_ok d' \<and> (round_over r d \<longrightarrow> round_over r d' \<and> entries_of r d' = entries_of r d)"
  using assms(1)
proof (rule settle_tx_cases)
  fix row row'
  let ?rid = "dx_roundId x" and ?es = "entries_of (dx_roundId x) d"
  assume row: "map_of (jackpotRounds d) ?rid = Some row" "jr_status row = JackpotOpen"
    and d': "jackpotRounds d' = AList.update ?rid row' (jackpotRounds d)" "jr_status row' = outcome_status out" "jackpotEntries d' = jackpotEntries d"
    and p: "posts (outcome_journal ?es out) d d'" and ok: "outcome_ok (en_play env) x ?es out"
  have over: "jr_status row' \<noteq> JackpotOpen" using d'(2) by (auto simp: outcome_status_def split: jackpot_outcome.splits)
  have o: "round_open q d' \<longleftrightarrow> round_open q d \<and> q \<noteq> ?rid" for q using d'(1) over by (auto simp: round_open_def)
  have "filter (\<lambda>e. round_open (je_roundId e) d \<and> je_roundId e = ?rid) (jackpotEntries d) = ?es"
    using row by (auto simp: entries_of_def round_open_def intro!: filter_cong)
  then have locked: "locked d = pot ?es + locked d'"
    using pot_split[of "\<lambda>e. round_open (je_roundId e) d" "jackpotEntries d" "\<lambda>e. je_roundId e = ?rid"] by (simp add: locked_def d'(3) o)
  have nn: "0 \<le> pot ?es" using assms(2) by (intro pot_nonneg) (auto simp: pots_ok_def entries_of_def)
  have "sum_list (map (\<lambda>(u, k, x). if k = Jeton then x else 0) (refund_journal es)) = pot es" for es
    by (induction es) (auto simp: refund_journal_def pot_def)
  then have "sum_list (map (\<lambda>(u, k, x). if k = Jeton then x else 0) (outcome_journal ?es out)) \<le> pot ?es"
    using ok jackpot_payout_bounds[OF nn] nn by (cases out) (auto simp: outcome_journal_def outcome_ok_def)
  then have "posted Jeton d' \<le> posted Jeton d + pot ?es" using posts_posted[OF p, of Jeton] by linarith
  then show ?thesis using locked row d' over assms(2) by (auto simp: pooled_def pots_ok_def round_over_def entries_of_def)
qed


lemma register_step:
  assumes "onEntry now rid uid amount e d = Inr (e', d')" and "pots_ok d"
  shows "pooled d' = pooled d \<and> pots_ok d' \<and> (round_over r d \<longrightarrow> round_over r d' \<and> entries_of r d' = entries_of r d)"
proof (cases "d' = d")
  case False
  then obtain row where r: "map_of (jackpotRounds d) rid = Some row"
    using assms(1) by (auto simp: onEntry_def Let_def split: if_splits option.splits)
  have "\<exists>row'. jr_status row' = jr_status row \<and> d' = d\<lparr>jackpotRounds := AList.update rid row' (jackpotRounds d)\<rparr>"
    using assms(1) False r by (auto simp: onEntry_def Let_def split: if_splits) (rule exI, rule conjI[rotated], rule refl, simp)+
  then obtain row' where row: "map_of (jackpotRounds d) rid = Some row" "jr_status row' = jr_status row"
    "d' = d\<lparr>jackpotRounds := AList.update rid row' (jackpotRounds d)\<rparr>" using r by blast
  have "same_money d d'" by (rule same_moneyI) (simp_all add: row)
  moreover have "round_open q d' = round_open q d" for q using row by (auto simp: round_open_def)
  ultimately show ?thesis using same_posted row assms(2)
    by (auto simp: pooled_def locked_def pots_ok_def round_over_def entries_of_def)
qed (use assms in simp)

lemma open_step:
  assumes "openNewRound env s c e d = (e', d')" and "pots_ok d"
  shows "pooled d' = pooled d \<and> pots_ok d' \<and> (round_over r d \<longrightarrow> round_over r d' \<and> entries_of r d' = entries_of r d)"
proof (cases "d' = d")
  case False
  then obtain rows row where d': "d' = d\<lparr>seeds := rows, jackpotRounds := jackpotRounds d @ [(fresh_key (jackpotRounds d), row)]\<rparr>"
    using assms(1) by (auto simp: openNewRound_def insert_row_def Let_def split: if_splits)
  let ?k = "fresh_key (jackpotRounds d)"
  have "same_money d d'" by (rule same_moneyI) (simp_all add: d')
  moreover have "round_open q d' = round_open q d" if "q \<noteq> ?k" for q using that by (auto simp: round_open_def d' map_add_def split: option.splits)
  moreover have "je_roundId x \<noteq> ?k" if "x \<in> set (jackpotEntries d)" for x using that assms(2) by (auto simp: pots_ok_def)
  ultimately have "locked d' = locked d" and "posted Jeton d' = posted Jeton d"
    using same_posted by (auto simp: locked_def d' intro!: arg_cong[where f = pot] filter_cong)
  moreover have "pots_ok d'" using assms(2) by (auto simp: pots_ok_def d')
  moreover have "round_over r d \<longrightarrow> round_over r d' \<and> entries_of r d' = entries_of r d" by (auto simp: round_over_def entries_of_def d')
  ultimately show ?thesis by (simp add: pooled_def)
qed (use assms in simp)

lemma jackpot_step_inv:
  assumes "jackpot_step d d'" and "pots_ok d"
  shows "pooled d' \<le> pooled d \<and> pots_ok d' \<and> (round_over r d \<longrightarrow> round_over r d' \<and> entries_of r d' = entries_of r d)"
  using assms
proof cases
  case (Enter env uid amount e d0 rid enforced json key out)
  have "0 \<le> amount" using Enter(1) by (auto simp: enter_checks_def guardE_def JACKPOT_MIN_ENTRY_LAMPORTS_def split: if_splits)
  from enter_step[OF Enter(2) this assms(2)] show ?thesis by simp
next
  case Register then show ?thesis using register_step assms(2) by fastforce
next
  case Settle then show ?thesis using settle_step assms(2) by fastforce
next
  case Open_round then show ?thesis using open_step assms(2) by fastforce
qed

text \<open>
  C6. The jackpot makes no money and orphans no entry. However entries, their registrations, settlements and new rounds
  interleave, what the ledger has moved together with the entries of the open rounds never grows, and a round that is over
  stays over with the same entries: nothing is ever debited for a round that has been settled.
\<close>

theorem jackpot_conserves:
  assumes "jackpot_run d0 d" and "pots_ok d0"
  shows "pooled d \<le> pooled d0 \<and> pots_ok d \<and> (\<forall>r. round_over r d0 \<longrightarrow> round_over r d \<and> entries_of r d = entries_of r d0)"
  using assms
proof induction
  case (Step d0 d d')
  note I = Step.IH[OF Step.prems]
  then have S: "pooled d' \<le> pooled d \<and> pots_ok d' \<and> (round_over r d \<longrightarrow> round_over r d' \<and> entries_of r d' = entries_of r d)" for r
    using jackpot_step_inv[OF Step.hyps(2)] by blast
  from I S show ?case by (metis order_trans)
qed simp

text \<open>A pot of two players, of whom the engine has registered one when the solo deadline passes.\<close>

definition jackpot_db :: db where
  "jackpot_db = empty_db\<lparr>users := [(1, new_user), (2, new_user)],
     seeds := [(0, \<lparr>sd_serverSeed = ''s'', sd_serverSeedHash = ''h'', sd_clientSeed = ''c'', sd_nonce = 0, sd_revealedAt = None\<rparr>)],
     jackpotRounds := [(4, \<lparr>jr_seedId = 0, jr_nonce = 0, jr_status = JackpotOpen, jr_totalLamports = 0, jr_winnerId = None,
       jr_winningTicket = None, jr_payoutLamports = 0, jr_closeAt = Some 0, jr_drawnAt = None, jr_ranges = None, jr_beaconRound = None,
       jr_slotHash = None\<rparr>)],
     jackpotEntries := [\<lparr>je_roundId = 4, je_userId = 1, je_amountLamports = 30000000\<rparr>, \<lparr>je_roundId = 4, je_userId = 2, je_amountLamports = 10000000\<rparr>]\<rparr>"

definition solo_engine :: jackpot_engine where
  "solo_engine = \<lparr>jk_current = \<lparr>cr_id = Some 4, cr_seedId = 0, cr_serverSeed = ''s'', cr_serverSeedHash = ''h'', cr_clientSeed = ''c'',
       cr_nonce = 0, cr_closeAt = Some 0, cr_status = JackpotOpen, cr_totalLamports = 30000000, cr_players = [1]\<rparr>,
     jk_lastResult = None, jk_recovering = False, jk_settling = False, jk_settleFailures = 0, jk_timers = []\<rparr>"

definition beacon_env :: engine_env where
  "beacon_env = \<lparr>en_play = offline_env, en_leader = True, en_beacon = Some (\<lambda>_. None), en_tuning = roundLoopTuning\<rparr>"

definition solo_draw :: draw_ctx where
  "solo_draw = \<lparr>dx_roundId = 4, dx_seedId = 0, dx_serverSeed = ''s'', dx_drawSeed = ''s'', dx_clientSeed = ''c'', dx_nonce = 0,
     dx_forceRefund = False, dx_beacon = None\<rparr>"

lemma jackpot_db_entries: "entries_of 4 jackpot_db = jackpotEntries jackpot_db" "jackpotEntries jackpot_db =
    [\<lparr>je_roundId = 4, je_userId = 1, je_amountLamports = 30000000\<rparr>, \<lparr>je_roundId = 4, je_userId = 2, je_amountLamports = 10000000\<rparr>]"
  by (simp_all add: entries_of_def jackpot_db_def)

lemma jackpot_db_settleable: "settleable 4 0 jackpot_db"
  unfolding settleable_def jackpot_db_entries by (simp add: jackpot_db_def user_ids_def)

lemma solo_prepare: "prepare_draw beacon_env 4 solo_engine = Inr solo_draw"
  by (simp add: prepare_draw_def draw_seed_def beacon_value_def force_refund_def beacon_env_def solo_engine_def solo_draw_def
      roundLoopTuning_def MIN_PLAYERS_def Let_def offline_env_def)

lemma solo_settles:
  obtains winnerId ticket payout d' where "settle_tx beacon_env solo_draw jackpot_db = Inr (Drawn_round 40000000 winnerId ticket payout, d')"
proof -
  obtain out d' where s: "settle_tx beacon_env solo_draw jackpot_db = Inr (out, d')"
    using settle_tx_ok[of solo_draw jackpot_db beacon_env] jackpot_db_settleable by (auto simp: solo_draw_def beacon_env_def)
  then have "outcome_ok offline_env solo_draw (entries_of 4 jackpot_db) out"
    by (rule settle_tx_cases) (simp add: solo_draw_def beacon_env_def)
  then have "\<exists>w k p. out = Drawn_round 40000000 w k p"
    by (cases out) (auto simp: outcome_ok_def jackpot_db_entries pot_def few_players_def MIN_PLAYERS_def solo_draw_def)
  then show thesis using s that by blast
qed

theorem ticket_source_witness:
  "\<exists>winnerId ticket payout d'. settle_tx beacon_env solo_draw jackpot_db = Inr (Drawn_round 40000000 winnerId ticket payout, d')
     \<and> ticket = jackpotWinningTicket toy_hmac ''s'' ''c'' 0 40000000"
proof -
  obtain w k p d' where s: "settle_tx beacon_env solo_draw jackpot_db = Inr (Drawn_round 40000000 w k p, d')" by (rule solo_settles)
  have "en_beacon beacon_env = Some (\<lambda>_. None)" "cr_closeAt (jk_current solo_engine) = Some 0" by (simp_all add: beacon_env_def solo_engine_def)
  from ticket_source[OF solo_prepare s this] show ?thesis using s by (simp add: solo_engine_def beacon_env_def MIN_PLAYERS_def)
qed

theorem pot_settled_once_witness:
  "\<exists>winnerId ticket payout d'. settle_tx beacon_env solo_draw jackpot_db = Inr (Drawn_round 40000000 winnerId ticket payout, d') \<and> payout = 38000000"
proof -
  obtain w k p d' where s: "settle_tx beacon_env solo_draw jackpot_db = Inr (Drawn_round 40000000 w k p, d')" by (rule solo_settles)
  have "\<forall>e \<in> set (entries_of (dx_roundId solo_draw) jackpot_db). 0 < je_amountLamports e" by (simp add: solo_draw_def jackpot_db_entries)
  from pot_settled_once[OF s this] show ?thesis using s by simp
qed

theorem jackpot_conserves_witness:
  "\<exists>out d. settle_tx beacon_env solo_draw jackpot_db = Inr (out, d) \<and> pooled d \<le> pooled jackpot_db"
proof -
  obtain w k p d' where s: "settle_tx beacon_env solo_draw jackpot_db = Inr (Drawn_round 40000000 w k p, d')" by (rule solo_settles)
  have "pots_ok jackpot_db" unfolding pots_ok_def jackpot_db_entries by (simp add: jackpot_db_def)
  from jackpot_conserves[OF jackpot_run.Step[OF jackpot_run.Start jackpot_step.Settle[OF s]] this] show ?thesis using s by blast
qed

lemma solo_holds: "holds_round 4 solo_engine" "cr_seedId (jk_current solo_engine) = 0" "cr_closeAt (jk_current solo_engine) = Some 0"
  by (simp_all add: holds_round_def solo_engine_def)

theorem jackpot_retries_end_witness:
  "round_over 4 (snd (retry_settle (replicate 5 (beacon_env, ''a'', ''b'')) 4 solo_engine jackpot_db))"
  using jackpot_retries_end[of 4 solo_engine jackpot_db "replicate 5 (beacon_env, ''a'', ''b'')" 4] solo_holds jackpot_db_settleable
  by (simp add: beacon_env_def roundLoopTuning_def)

theorem lost_commit_stalls_witness:
  "\<exists>out d1. settle_tx beacon_env solo_draw jackpot_db = Inr (out, d1)
     \<and> getOpenRound 5 (fst (fold run_tick [((beacon_env, ''a'', ''b''), Retry_tick 4), ((beacon_env, ''a'', ''b''), Watch_tick)]
         (settle_failed beacon_env 4 solo_engine d1))) = None"
proof -
  obtain w k p d1 where s: "settle_tx beacon_env solo_draw jackpot_db = Inr (Drawn_round 40000000 w k p, d1)" by (rule solo_settles)
  obtain e2 d2 where f: "settle_failed beacon_env 4 solo_engine d1 = (e2, d2)" by fastforce
  have r: "dx_roundId solo_draw = 4" by (simp add: solo_draw_def)
  from lost_commit_stalls[OF solo_holds(1,3) s r f, of "[((beacon_env, ''a'', ''b''), Retry_tick 4), ((beacon_env, ''a'', ''b''), Watch_tick)]" 5]
  show ?thesis using s f by (auto simp: beacon_env_def)
qed


end
