(* ===== verification/Lottery.thy ===== *)
theory Lottery
  imports Round_Loop Progress
begin

text \<open>
  The lottery: \<open>apps/api/src/games/lottery\<close> (\<open>lottery.settlement.ts\<close>, \<open>lottery.engine.ts\<close>). As for the jackpot, a
  transaction is a definition of its own. What the chain answers (the reveal, the current slot, the commitment) is an
  argument; the payments that are sent to it after a settlement are not modelled, nor are the broadcasts.
\<close>

definition USD_PER_SOL :: rat where "USD_PER_SOL = 150"
definition BRACKET_COUNT :: nat where "BRACKET_COUNT = 6"
definition INJECTION_SCAD_BASE :: int where "INJECTION_SCAD_BASE = 1000 * 1000000000"
definition TICKET_PRICE_USD :: rat where "TICKET_PRICE_USD = 1"
definition TARGET_SLOT_OFFSET :: int where "TARGET_SLOT_OFFSET = 50"

abbreviation to_lamports :: "int \<Rightarrow> int" where
  "to_lamports scad \<equiv> scadBaseToLamports scad USD_PER_SCAD USD_PER_SOL"

subsection \<open>The split of a pool (lottery.settlement.ts)\<close>

record bracket_settlement =
  bs_slices :: "int list"
  bs_perWinner :: "int list"
  bs_rollover :: "int list"
  bs_burn :: int
  bs_nextRollover :: int

definition bracket_share :: "int \<Rightarrow> nat \<Rightarrow> int \<times> int" where
  "bracket_share amount n =
     (if n > 0 then let w = bigint_div amount (int n) in (w, amount - w * int n) else (0, amount))"

definition splitBracketPrizes :: "int \<Rightarrow> nat list \<Rightarrow> bracket_settlement" where
  "splitBracketPrizes totalPool counts =
     (let (slices, burn) = lotteryPoolSplit totalPool;
          shares = map (\<lambda>b. bracket_share (slices ! b) (counts ! b)) [0..<BRACKET_COUNT];
          rollover = map snd shares;
          winnerShare = totalPool - burn;
          splitResidual = winnerShare - sum_list slices
      in \<lparr>bs_slices = slices, bs_perWinner = map fst shares, bs_rollover = rollover, bs_burn = burn,
          bs_nextRollover = sum_list rollover + splitResidual\<rparr>)"

subsection \<open>The engine in memory\<close>

record current_draw =
  cd_id :: "nat option"
  cd_drawIndex :: int
  cd_seedId :: nat
  cd_serverSeed :: string
  cd_serverSeedHash :: string
  cd_clientSeed :: string
  cd_nonce :: nat
  cd_drawAt :: int
  cd_status :: draw_status
  cd_ticketCount :: nat
  cd_ticketPriceScadBase :: int
  cd_injectionScadBase :: int
  cd_rolloverScadBase :: int
  cd_salesScadBase :: int
  cd_potLamports :: int
  cd_commitTxSignature :: "string option"
  cd_targetSlot :: "int option"

record draw_result =
  ll_drawId :: nat
  ll_digits :: "nat list"
  ll_slotHash :: string
  ll_fairness :: string
  ll_beaconRound :: "int option"
  ll_winnersCount :: nat
  ll_bracketWinnerCounts :: "nat list"
  ll_totalPool :: int
  ll_burn :: int
  ll_topPrize :: int
  ll_revealTxSignature :: "string option"
  ll_drawnAt :: int

datatype lottery_timer = Settle_due | Boot_draws

record lottery_engine =
  lk_current :: current_draw
  lk_lastResult :: "draw_result option"
  lk_carryRollover :: int
  lk_recovering :: bool
  lk_settling :: bool
  lk_settleFailures :: nat
  lk_timers :: "lottery_timer timers"

text \<open>What the on-chain lottery answers, when it is enabled.\<close>

record lottery_chain =
  lc_reveal :: "int \<Rightarrow> string \<Rightarrow> (nat list \<times> string \<times> digest) option"
  lc_currentSlot :: "int option"
  lc_commit :: "int \<Rightarrow> int \<Rightarrow> string option"

record lottery_env = engine_env +
  en_lottery :: "lottery_chain option"

definition placeholderDraw :: current_draw where
  "placeholderDraw = \<lparr>cd_id = None, cd_drawIndex = 0, cd_seedId = 0, cd_serverSeed = '''', cd_serverSeedHash = '''', cd_clientSeed = '''',
     cd_nonce = 0, cd_drawAt = 0, cd_status = DrawOpen, cd_ticketCount = 0, cd_ticketPriceScadBase = 0, cd_injectionScadBase = 0,
     cd_rolloverScadBase = 0, cd_salesScadBase = 0, cd_potLamports = 0, cd_commitTxSignature = None, cd_targetSlot = None\<rparr>"

definition new_lottery_engine :: lottery_engine where
  "new_lottery_engine = \<lparr>lk_current = placeholderDraw, lk_lastResult = None, lk_carryRollover = 0, lk_recovering = False,
     lk_settling = False, lk_settleFailures = 0, lk_timers = []\<rparr>"

definition tickets_of :: "nat \<Rightarrow> db \<Rightarrow> (nat \<times> lottery_ticket) list" where
  "tickets_of drawId d = filter (\<lambda>(_, t). lt_drawId t = drawId) (lotteryTickets d)"

definition rebuildDraw :: "nat \<Rightarrow> lottery_draw \<Rightarrow> db \<Rightarrow> current_draw result" where
  "rebuildDraw did r d = (case map_of (seeds d) (ld_seedId r) of
      None \<Rightarrow> Inl (Internal ''P2025'')
    | Some seed \<Rightarrow>
        let ts = map snd (tickets_of did d) in
        Inr \<lparr>cd_id = Some did, cd_drawIndex = ld_drawIndex r, cd_seedId = ld_seedId r, cd_serverSeed = sd_serverSeed seed,
          cd_serverSeedHash = sd_serverSeedHash seed, cd_clientSeed = sd_clientSeed seed, cd_nonce = sd_nonce seed,
          cd_drawAt = ld_drawAt r, cd_status = DrawOpen, cd_ticketCount = length ts,
          cd_ticketPriceScadBase = ld_ticketPriceScadBase r, cd_injectionScadBase = ld_injectionScadBase r,
          cd_rolloverScadBase = ld_rolloverScadBase r, cd_salesScadBase = sum_list (map lt_costScadBase ts),
          cd_potLamports = sum_list (map lt_costLamports ts), cd_commitTxSignature = ld_commitTxSignature r,
          cd_targetSlot = ld_targetSlot r\<rparr>)"

definition armDrawTimer :: "int \<Rightarrow> int \<Rightarrow> lottery_engine \<Rightarrow> lottery_engine" where
  "armDrawTimer now drawAt e = e\<lparr>lk_timers := schedule Settle_due (drawAt - now) now []\<rparr>"

definition retry_later :: "lottery_env \<Rightarrow> nat option \<Rightarrow> lottery_engine \<Rightarrow> db \<Rightarrow> lottery_engine \<times> db" where
  "retry_later env did e d =
     (let n = lk_settleFailures e + 1 in
      (e\<lparr>lk_settleFailures := n, lk_timers := schedule Settle_due (retryDelayMs (en_tuning env) n) (env_now (en_play env)) (lk_timers e)\<rparr>,
       if n = 1 then recordFailure ''lottery'' did d else d))"

definition getOpenDraw :: "int \<Rightarrow> lottery_engine \<Rightarrow> (nat option \<times> int \<times> int) option" where
  "getOpenDraw now e =
     (let c = lk_current e in
      if cd_status c \<noteq> DrawOpen \<or> cd_drawAt c \<le> now then None else Some (cd_id c, cd_drawIndex c, cd_drawAt c))"

definition currentPool :: "lottery_engine \<Rightarrow> int" where
  "currentPool e = (let c = lk_current e in cd_salesScadBase c + cd_injectionScadBase c + cd_rolloverScadBase c)"

text \<open>The tickets are registered with the draw that is current now; the one they were sold for is not looked at.\<close>

definition onTicketSold :: "int \<Rightarrow> int \<Rightarrow> nat \<Rightarrow> lottery_engine \<Rightarrow> db \<Rightarrow> (lottery_engine \<times> db) result" where
  "onTicketSold scadBase lamports n e d =
     (let c = lk_current e;
          c' = c\<lparr>cd_ticketCount := cd_ticketCount c + n, cd_salesScadBase := cd_salesScadBase c + scadBase,
                 cd_potLamports := cd_potLamports c + lamports\<rparr>
      in case cd_id c of
           None \<Rightarrow> Inl (Internal ''P2025'')
         | Some did \<Rightarrow> (case map_of (lotteryDraws d) did of
             None \<Rightarrow> Inl (Internal ''P2025'')
           | Some r \<Rightarrow> Inr (e\<lparr>lk_current := c'\<rparr>, d\<lparr>lotteryDraws := AList.update did
               (r\<lparr>ld_ticketCount := cd_ticketCount c', ld_potLamports := cd_potLamports c'\<rparr>) (lotteryDraws d)\<rparr>)))"

definition scad_number :: "int \<Rightarrow> rat" where
  "scad_number base = fl (fl (of_int base) / 10 ^ 9)"

record lottery_snapshot =
  ls_drawId :: "nat option"
  ls_drawIndex :: int
  ls_status :: draw_status
  ls_serverSeedHash :: string
  ls_clientSeed :: string
  ls_nonce :: nat
  ls_drawAt :: int
  ls_ticketCount :: nat
  ls_potLamports :: int
  ls_ticketPriceScadBase :: int
  ls_totalPoolScadBase :: int
  ls_latestWinningPrizeScad :: rat
  ls_commitTxSignature :: "string option"
  ls_targetSlot :: "int option"
  ls_beaconRound :: "int option"
  ls_lastDrawFairness :: "string option"
  ls_lastResult :: "draw_result option"

definition lottery_view :: "lottery_env \<Rightarrow> lottery_engine \<Rightarrow> lottery_snapshot" where
  "lottery_view env e =
     (let c = lk_current e; pool = currentPool e; jackpotSlice = fst (lotteryPoolSplit pool) ! (BRACKET_COUNT - 1)
      in \<lparr>ls_drawId = cd_id c, ls_drawIndex = cd_drawIndex c, ls_status = cd_status c, ls_serverSeedHash = cd_serverSeedHash c,
          ls_clientSeed = cd_clientSeed c, ls_nonce = cd_nonce c, ls_drawAt = cd_drawAt c, ls_ticketCount = cd_ticketCount c,
          ls_potLamports = cd_potLamports c, ls_ticketPriceScadBase = cd_ticketPriceScadBase c, ls_totalPoolScadBase = pool,
          ls_latestWinningPrizeScad = (case lk_lastResult e of
             Some l \<Rightarrow> if scad_number (ll_topPrize l) > 0 then scad_number (ll_topPrize l) else scad_number jackpotSlice
           | None \<Rightarrow> scad_number jackpotSlice),
          ls_commitTxSignature = cd_commitTxSignature c, ls_targetSlot = cd_targetSlot c,
          ls_beaconRound = (if en_beacon env \<noteq> None \<and> en_lottery env = None \<and> cd_drawAt c \<noteq> 0
             then Some (beaconRoundAfter (cd_drawAt c)) else None),
          ls_lastDrawFairness = map_option ll_fairness (lk_lastResult e), ls_lastResult = lk_lastResult e\<rparr>)"

text \<open>A new draw takes the rollover that the engine carries. Its random seeds are arguments.\<close>

definition openNewDraw :: "lottery_env \<Rightarrow> string \<Rightarrow> string \<Rightarrow> lottery_engine \<Rightarrow> db \<Rightarrow> lottery_engine \<times> db" where
  "openNewDraw env serverSeed clientSeed e d =
     (if \<not> en_leader env then (e, d)
      else
        let hash = commitServerSeed (env_sha (en_play env)) serverSeed;
            (seedId, seedRows) = insert_row \<lparr>sd_serverSeed = serverSeed, sd_serverSeedHash = hash, sd_clientSeed = clientSeed,
               sd_nonce = 0, sd_revealedAt = None\<rparr> (seeds d);
            drawIndex = foldl max 0 (map (ld_drawIndex \<circ> snd) (lotteryDraws d)) + 1;
            price = ticketPriceScadBase TICKET_PRICE_USD USD_PER_SCAD;
            rollover = lk_carryRollover e;
            drawAt = nextLotteryDrawAt (env_now (en_play env));
            targetSlot = map_option (\<lambda>c. (case lc_currentSlot c of None \<Rightarrow> 0 | Some s \<Rightarrow> s) + TARGET_SLOT_OFFSET) (en_lottery env);
            commitSig = (case (en_lottery env, targetSlot) of (Some c, Some s) \<Rightarrow> lc_commit c drawIndex s | _ \<Rightarrow> None);
            (did, rows) = insert_row \<lparr>ld_drawIndex = drawIndex, ld_seedId = seedId, ld_nonce = 0, ld_status = DrawOpen,
               ld_winningDigits = [], ld_slotHash = None, ld_targetSlot = targetSlot, ld_beaconRound = None, ld_fairness = None,
               ld_commitTxSignature = commitSig, ld_revealTxSignature = None, ld_ticketPriceScadBase = price,
               ld_injectionScadBase = INJECTION_SCAD_BASE, ld_rolloverScadBase = rollover, ld_totalPoolScadBase = 0, ld_burnScadBase = 0,
               ld_bracketWinnerCounts = [], ld_bracketAmountsScadBase = [], ld_bracketRolloverScadBase = [], ld_potLamports = 0,
               ld_ticketCount = 0, ld_drawAt = drawAt, ld_drawnAt = None\<rparr> (lotteryDraws d);
            e1 = e\<lparr>lk_carryRollover := 0, lk_current := \<lparr>cd_id = Some did, cd_drawIndex = drawIndex, cd_seedId = seedId,
               cd_serverSeed = serverSeed, cd_serverSeedHash = hash, cd_clientSeed = clientSeed, cd_nonce = 0, cd_drawAt = drawAt,
               cd_status = DrawOpen, cd_ticketCount = 0, cd_ticketPriceScadBase = price, cd_injectionScadBase = INJECTION_SCAD_BASE,
               cd_rolloverScadBase = rollover, cd_salesScadBase = 0, cd_potLamports = 0, cd_commitTxSignature = commitSig,
               cd_targetSlot = targetSlot\<rparr>\<rparr>
        in (armDrawTimer (env_now (en_play env)) drawAt e1, d\<lparr>seeds := seedRows, lotteryDraws := rows\<rparr>))"

subsection \<open>Settlement\<close>

text \<open>The entropy of a draw: the winning digits, the slot hash in hex, its source, the beacon round and the reveal.\<close>

record draw_entropy =
  de_digits :: "nat list"
  de_slotHash :: string
  de_fairness :: string
  de_beaconRound :: "int option"
  de_revealSig :: "string option"

definition draw_digits :: "lottery_env \<Rightarrow> current_draw \<Rightarrow> byte list \<Rightarrow> nat list result" where
  "draw_digits env c slot =
     bindE (lotteryDraw (env_sha (en_play env)) (cd_serverSeed c) (padClientSeed32 (cd_clientSeed c)) slot (cd_nonce c)) (\<lambda>(digits, _). Inr digits)"

definition entropy_of :: "lottery_env \<Rightarrow> current_draw \<Rightarrow> draw_entropy result" where
  "entropy_of env c =
     (case (case en_lottery env of None \<Rightarrow> None | Some chain \<Rightarrow> lc_reveal chain (cd_drawIndex c) (cd_serverSeed c)) of
        Some (digits, signature, slotHash) \<Rightarrow> Inr \<lparr>de_digits = digits, de_slotHash = digest_hex slotHash, de_fairness = ''onchain'',
           de_beaconRound = None, de_revealSig = Some signature\<rparr>
      | None \<Rightarrow> (case en_beacon env of
          Some randomness \<Rightarrow> (case randomness (beaconRoundAfter (cd_drawAt c)) of
              None \<Rightarrow> Inl (Internal ''beacon round unavailable'')
            | Some v \<Rightarrow> bindE (draw_digits env c (digest_bytes v)) (\<lambda>digits.
                Inr \<lparr>de_digits = digits, de_slotHash = digest_hex v, de_fairness = ''drand-quicknet'',
                  de_beaconRound = Some (beaconRoundAfter (cd_drawAt c)), de_revealSig = None\<rparr>))
        | None \<Rightarrow>
            let synthetic = env_sha (en_play env) (utf8 (cd_serverSeed c @ '':'' @ cd_clientSeed c)) in
            bindE (draw_digits env c (syntheticSlotHash (env_sha (en_play env)) (cd_serverSeed c) (cd_clientSeed c))) (\<lambda>digits.
              Inr \<lparr>de_digits = digits, de_slotHash = digest_hex synthetic, de_fairness = ''synthetic-not-fair'',
                de_beaconRound = None, de_revealSig = None\<rparr>)))"

record ticket_result =
  tr_id :: nat
  tr_ticket :: lottery_ticket
  tr_matchLen :: nat
  tr_bracket :: "nat option"
  tr_payoutScad :: int
  tr_payoutLamports :: int
  tr_won :: bool

definition ticket_bracket :: "nat list \<Rightarrow> lottery_ticket \<Rightarrow> nat option" where
  "ticket_bracket digits t = lotteryBracket (lotteryLeadingMatch (lt_digits t) digits)"

definition winner_counts :: "nat list \<Rightarrow> (nat \<times> lottery_ticket) list \<Rightarrow> nat list" where
  "winner_counts digits ts = map (\<lambda>b. length (filter (\<lambda>(_, t). ticket_bracket digits t = Some b) ts)) [0..<BRACKET_COUNT]"

definition result_of :: "nat list \<Rightarrow> int list \<Rightarrow> nat \<times> lottery_ticket \<Rightarrow> ticket_result" where
  "result_of digits perWinner = (\<lambda>(tid, t).
     let bracket = ticket_bracket digits t; payout = (case bracket of None \<Rightarrow> 0 | Some b \<Rightarrow> perWinner ! b)
     in \<lparr>tr_id = tid, tr_ticket = t, tr_matchLen = lotteryLeadingMatch (lt_digits t) digits, tr_bracket = bracket,
         tr_payoutScad = payout, tr_payoutLamports = to_lamports payout, tr_won = payout > 0\<rparr>)"

record user_totals =
  ut_wagered :: int
  ut_won :: int
  ut_lost :: int
  ut_games :: nat
  ut_biggest :: int

definition add_result :: "(nat, user_totals) table \<Rightarrow> ticket_result \<Rightarrow> (nat, user_totals) table" where
  "add_result m r =
     (let t = tr_ticket r; cost = lt_costLamports t; payout = tr_payoutLamports r;
          netProfit = (if payout > cost then payout - cost else 0);
          netLoss = (if cost > payout then cost - payout else 0);
          a = (case map_of m (lt_userId t) of
                 None \<Rightarrow> \<lparr>ut_wagered = 0, ut_won = 0, ut_lost = 0, ut_games = 0, ut_biggest = 0\<rparr> | Some a \<Rightarrow> a)
      in AList.update (lt_userId t) \<lparr>ut_wagered = ut_wagered a + cost, ut_won = ut_won a + netProfit, ut_lost = ut_lost a + netLoss,
           ut_games = ut_games a + 1, ut_biggest = (if netProfit > ut_biggest a then netProfit else ut_biggest a)\<rparr> m)"

definition bump_totals :: "user_totals \<Rightarrow> user \<Rightarrow> user" where
  "bump_totals a u = u\<lparr>totalWagered := totalWagered u + ut_wagered a, totalWon := totalWon u + ut_won a,
     totalLost := totalLost u + ut_lost a, gamesPlayed := gamesPlayed u + int (ut_games a)\<rparr>"

definition settle_user :: "play_env \<Rightarrow> nat \<times> user_totals \<Rightarrow> db \<Rightarrow> db result" where
  "settle_user env = (\<lambda>(uid, a) d.
     bindE (updateUser uid (bump_totals a) d) (\<lambda>d1.
       let d2 = (if ut_biggest a > 0 then executeUser uid (raise_biggest (ut_biggest a)) d1 else d1);
           d3 = snd (accrue (env_now env) uid (ut_wagered a) d2)
       in creditReferral (env_enforced env) (env_now env) uid (ut_wagered a) Lottery d3))"

fun settle_users :: "play_env \<Rightarrow> (nat \<times> user_totals) list \<Rightarrow> db \<Rightarrow> db result" where
  "settle_users env [] d = Inr d"
| "settle_users env (u # us) d = bindE (settle_user env u d) (settle_users env us)"

fun pay_prizes :: "ticket_result list \<Rightarrow> db \<Rightarrow> db result" where
  "pay_prizes [] d = Inr d"
| "pay_prizes (r # rs) d =
     (if tr_payoutLamports r \<le> 0 then pay_prizes rs d
      else bindE (applyBalanceDelta (lt_userId (tr_ticket r)) (tr_payoutLamports r)
                    ((jeton_meta ''lottery_prize'' ''LotteryTicket'')\<lparr>refId := Some (tr_id r)\<rparr>) d) (\<lambda>(_, d1). pay_prizes rs d1))"

definition write_results :: "ticket_result list \<Rightarrow> db \<Rightarrow> db" where
  "write_results rs d = d\<lparr>lotteryTickets := foldl (\<lambda>m r. AList.update (tr_id r)
     ((tr_ticket r)\<lparr>lt_matchLen := tr_matchLen r, lt_bracket := tr_bracket r, lt_payoutScadBase := tr_payoutScad r,
        lt_payoutLamports := tr_payoutLamports r, lt_won := tr_won r\<rparr>) m) (lotteryTickets d) rs\<rparr>"

definition ticket_bet :: "int \<Rightarrow> current_draw \<Rightarrow> ticket_result \<Rightarrow> bet" where
  "ticket_bet now c r = \<lparr>b_userId = lt_userId (tr_ticket r), b_gameType = Lottery, b_amountLamports = lt_costLamports (tr_ticket r),
     b_payoutLamports = tr_payoutLamports r, b_multiplier = None, b_status = (if tr_won r then BetWon else BetLost),
     b_nonce = Some (cd_nonce c), b_seedId = Some (cd_seedId c), b_createdAt = now\<rparr>"

definition update_open_draw :: "nat \<Rightarrow> (lottery_draw \<Rightarrow> lottery_draw) \<Rightarrow> db \<Rightarrow> nat \<times> db" where
  "update_open_draw did f d = (case map_of (lotteryDraws d) did of
      None \<Rightarrow> (0, d)
    | Some r \<Rightarrow> if ld_status r = DrawOpen then (1, d\<lparr>lotteryDraws := AList.update did (f r) (lotteryDraws d)\<rparr>) else (0, d))"

definition claim_draw :: "nat \<Rightarrow> (lottery_draw \<Rightarrow> lottery_draw) \<Rightarrow> db \<Rightarrow> db result" where
  "claim_draw did f d =
     (let (n, d1) = update_open_draw did f d in bindE (assertRoundClaimed n ''lottery'') (\<lambda>_. Inr d1))"

record draw_settled =
  sl_totalPool :: int
  sl_counts :: "nat list"
  sl_settlement :: bracket_settlement
  sl_results :: "ticket_result list"

definition settle_of :: "current_draw \<Rightarrow> draw_entropy \<Rightarrow> (nat \<times> lottery_ticket) list \<Rightarrow> draw_settled" where
  "settle_of c ent ts =
     (let counts = winner_counts (de_digits ent) ts;
          totalPool = sum_list (map (lt_costScadBase \<circ> snd) ts) + cd_injectionScadBase c + cd_rolloverScadBase c;
          s = splitBracketPrizes totalPool counts
      in \<lparr>sl_totalPool = totalPool, sl_counts = counts, sl_settlement = s,
          sl_results = map (result_of (de_digits ent) (bs_perWinner s)) ts\<rparr>)"

definition settle_draw_tx :: "lottery_env \<Rightarrow> nat \<Rightarrow> current_draw \<Rightarrow> draw_entropy \<Rightarrow> db \<Rightarrow> (draw_settled \<times> db) result" where
  "settle_draw_tx env did c ent d =
     bindE (assertStillLeader (en_leader env) ''lottery'') (\<lambda>_.
       let sl = settle_of c ent (tickets_of did d); s = sl_settlement sl; results = sl_results sl in
     bindE (claim_draw did (\<lambda>r. r\<lparr>ld_status := DrawDrawn, ld_winningDigits := de_digits ent, ld_slotHash := Some (de_slotHash ent),
          ld_drawnAt := Some (env_now (en_play env)), ld_revealTxSignature := de_revealSig ent, ld_fairness := Some (de_fairness ent),
          ld_beaconRound := de_beaconRound ent, ld_totalPoolScadBase := sl_totalPool sl, ld_burnScadBase := bs_burn s,
          ld_bracketWinnerCounts := sl_counts sl, ld_bracketAmountsScadBase := bs_slices s,
          ld_bracketRolloverScadBase := bs_rollover s\<rparr>) d) (\<lambda>d1.
     bindE (settle_users (en_play env) (foldl add_result [] results) d1) (\<lambda>d2.
     bindE (if en_lottery env = None then pay_prizes results d2 else Inr d2) (\<lambda>d3.
       let d4 = write_results results d3; d5 = d4\<lparr>bets := bets d4 @ map (ticket_bet (env_now (en_play env)) c) results\<rparr> in
     bindE (reveal_seed (env_now (en_play env)) (cd_seedId c) d5) (\<lambda>d6. Inr (sl, d6))))))"


subsection \<open>Around the transaction\<close>

definition after_draw :: "lottery_env \<Rightarrow> string \<times> string \<Rightarrow> nat \<Rightarrow> draw_entropy \<Rightarrow> draw_settled \<Rightarrow> lottery_engine \<Rightarrow> db \<Rightarrow> lottery_engine \<times> db" where
  "after_draw env fresh did ent sl e d =
     (let s = sl_settlement sl;
          result = \<lparr>ll_drawId = did, ll_digits = de_digits ent, ll_slotHash = de_slotHash ent, ll_fairness = de_fairness ent,
             ll_beaconRound = de_beaconRound ent, ll_winnersCount = length (filter tr_won (sl_results sl)),
             ll_bracketWinnerCounts = sl_counts sl, ll_totalPool = sl_totalPool sl, ll_burn = bs_burn s,
             ll_topPrize = foldl max 0 (map tr_payoutScad (sl_results sl)), ll_revealTxSignature = de_revealSig ent,
             ll_drawnAt = env_now (en_play env)\<rparr>;
          e1 = e\<lparr>lk_settleFailures := 0, lk_current := (lk_current e)\<lparr>cd_status := DrawDrawn\<rparr>,
                 lk_carryRollover := bs_nextRollover s, lk_lastResult := Some result\<rparr>
      in if lk_recovering e1 then (e1, d) else openNewDraw env (fst fresh) (snd fresh) e1 d)"

text \<open>Only the beacon and the transaction schedule a retry; a lost claim counts as settled.\<close>

definition settleDraw :: "lottery_env \<Rightarrow> string \<times> string \<Rightarrow> nat \<Rightarrow> lottery_engine \<Rightarrow> db \<Rightarrow> bool \<times> lottery_engine \<times> db" where
  "settleDraw env fresh did e d = (case entropy_of env (lk_current e) of
      Inl _ \<Rightarrow> (False, retry_later env (Some did) e d)
    | Inr ent \<Rightarrow> (case settle_draw_tx env did (lk_current e) ent d of
          Inr (sl, d1) \<Rightarrow> (True, after_draw env fresh did ent sl e d1)
        | Inl (SettleClaimLost _) \<Rightarrow> (True, e, d)
        | Inl _ \<Rightarrow> (False, retry_later env (Some did) e d)))"

text \<open>The placeholder has the empty id, which no row has: the transaction refuses it, and the failure is recorded under it.\<close>

definition draw_now :: "lottery_env \<Rightarrow> string \<times> string \<Rightarrow> lottery_engine \<Rightarrow> db \<Rightarrow> bool \<times> lottery_engine \<times> db" where
  "draw_now env fresh e d =
     (if \<not> en_leader env \<or> lk_settling e then (False, e, d)
      else case cd_id (lk_current e) of
        None \<Rightarrow> (False, retry_later env None e d)
      | Some did \<Rightarrow> settleDraw env fresh did e d)"

definition open_draws :: "db \<Rightarrow> (nat \<times> lottery_draw) list" where
  "open_draws d = filter (\<lambda>(_, r). ld_status r = DrawOpen) (lotteryDraws d)"

definition live_draw :: "int \<Rightarrow> (nat \<times> lottery_draw) list \<Rightarrow> (nat \<times> lottery_draw) option" where
  "live_draw now rows = find (\<lambda>(_, r). ld_drawAt r > now) (rev rows)"

fun recover_draws :: "lottery_env \<Rightarrow> string \<times> string \<Rightarrow> (nat \<times> lottery_draw) list \<Rightarrow> lottery_engine \<Rightarrow> db \<Rightarrow> bool \<times> lottery_engine \<times> db" where
  "recover_draws env fresh [] e d = (True, e, d)"
| "recover_draws env fresh ((did, r) # rest) e d = (case rebuildDraw did r d of
      Inl _ \<Rightarrow> recover_draws env fresh rest e (recordFailure ''lottery'' (Some did) d)
    | Inr c \<Rightarrow> (case draw_now env fresh (e\<lparr>lk_current := c\<rparr>) d of
          (True, e1, d1) \<Rightarrow> recover_draws env fresh rest e1 d1
        | (False, e1, d1) \<Rightarrow> (False, e1, d1)))"

definition recoverStrandedDraws :: "lottery_env \<Rightarrow> string \<times> string \<Rightarrow> lottery_engine \<Rightarrow> db \<Rightarrow> bool \<times> lottery_engine \<times> db" where
  "recoverStrandedDraws env fresh e d =
     (let stranded = open_draws d in
      if stranded = [] then (False, e, d)
      else
        let live = live_draw (env_now (en_play env)) stranded;
            toSettle = filter (\<lambda>r. Some r \<noteq> live) stranded;
            (all_settled, e1, d1) = recover_draws env fresh toSettle (e\<lparr>lk_recovering := True\<rparr>) d;
            e2 = e1\<lparr>lk_recovering := False\<rparr>
        in if \<not> all_settled then (True, e2, d1)
           else case live of
                  None \<Rightarrow> (False, e2, d1)
                | Some (did, r) \<Rightarrow> (case rebuildDraw did r d1 of
                      Inl _ \<Rightarrow> (False, e2, d1)
                    | Inr c \<Rightarrow> (True, armDrawTimer (env_now (en_play env)) (cd_drawAt c) (e2\<lparr>lk_current := c\<rparr>), d1)))"

definition bootDraws :: "lottery_env \<Rightarrow> string \<times> string \<Rightarrow> lottery_engine \<Rightarrow> db \<Rightarrow> lottery_engine \<times> db" where
  "bootDraws env fresh e d =
     (let (resumed, e1, d1) = recoverStrandedDraws env fresh (e\<lparr>lk_timers := []\<rparr>) d
      in if resumed then (e1, d1) else openNewDraw env (fst fresh) (snd fresh) e1 d1)"

definition forceDraw :: "lottery_env \<Rightarrow> string \<times> string \<Rightarrow> lottery_engine \<Rightarrow> db \<Rightarrow> lottery_engine \<times> db" where
  "forceDraw env fresh e d =
     (if cd_status (lk_current e) \<noteq> DrawOpen \<or> lk_settling e then (e, d)
      else snd (draw_now env fresh (e\<lparr>lk_timers := []\<rparr>) d))"

definition lottery_watchdog :: "lottery_env \<Rightarrow> string \<times> string \<Rightarrow> lottery_engine \<Rightarrow> db \<Rightarrow> lottery_engine \<times> db" where
  "lottery_watchdog env fresh e d =
     (let c = lk_current e in
      if cd_id c = None \<or> cd_status c \<noteq> DrawOpen \<or> lk_settling e \<or> lk_recovering e \<or> \<not> en_leader env then (e, d)
      else if env_now (en_play env) > cd_drawAt c + stallMs (en_tuning env) then snd (draw_now env fresh e d) else (e, d))"

definition fire_draw :: "lottery_env \<Rightarrow> string \<times> string \<Rightarrow> lottery_timer \<Rightarrow> lottery_engine \<Rightarrow> db \<Rightarrow> lottery_engine \<times> db" where
  "fire_draw env fresh t e d = (case t of Settle_due \<Rightarrow> snd (draw_now env fresh e d) | Boot_draws \<Rightarrow> bootDraws env fresh e d)"


subsection \<open>The pool of a draw\<close>

lemma bracket_share_exact:
  assumes "0 \<le> amount"
  shows "fst (bracket_share amount n) * int n + snd (bracket_share amount n) = amount"
    and "0 \<le> fst (bracket_share amount n)" "0 \<le> snd (bracket_share amount n)"
proof -
  have d: "bigint_div amount (int n) = amount div int n" if "n > 0" using assms that by (intro bigint_div_nonneg) simp_all
  have le: "amount div int n * int n \<le> amount" if "n > 0"
    using that by (metis minus_mod_eq_div_mult le_add_same_cancel1 pos_mod_sign diff_add_cancel add.commute of_nat_0_less_iff)
  show "fst (bracket_share amount n) * int n + snd (bracket_share amount n) = amount"
    by (simp add: bracket_share_def Let_def)
  show "0 \<le> fst (bracket_share amount n)" "0 \<le> snd (bracket_share amount n)"
    using assms le by (auto simp: bracket_share_def Let_def d pos_imp_zdiv_nonneg_iff)
qed

lemma split_fields:
  assumes "0 \<le> pool" and "length counts = BRACKET_COUNT"
  shows "length (bs_slices (splitBracketPrizes pool counts)) = 6" "length (bs_perWinner (splitBracketPrizes pool counts)) = 6"
    and "bs_burn (splitBracketPrizes pool counts) = pool div 5"
    and "\<forall>b < 6. 0 \<le> bs_perWinner (splitBracketPrizes pool counts) ! b"
    and "sum_list (map (\<lambda>b. bs_perWinner (splitBracketPrizes pool counts) ! b * int (counts ! b)) [0..<6])
       + bs_burn (splitBracketPrizes pool counts) + bs_nextRollover (splitBracketPrizes pool counts) = pool"
    and "0 \<le> bs_nextRollover (splitBracketPrizes pool counts)"
proof -
  note L = lottery_split_spec[OF assms(1)]
  obtain slices burn where sp: "lotteryPoolSplit pool = (slices, burn)" by fastforce
  have len: "length slices = 6" and burn: "burn = pool div 5" and nn: "\<And>b. b < 6 \<Longrightarrow> 0 \<le> slices ! b" and le: "burn + sum_list slices \<le> pool"
    using L by (auto simp: sp list_all_length)
  let ?s = "splitBracketPrizes pool counts" and ?sh = "\<lambda>b. bracket_share (slices ! b) (counts ! b)"
  have s: "bs_slices ?s = slices" "bs_perWinner ?s = map (fst \<circ> ?sh) [0..<6]" "bs_burn ?s = burn"
    "bs_nextRollover ?s = sum_list (map (snd \<circ> ?sh) [0..<6]) + (pool - burn - sum_list slices)"
    by (simp_all add: splitBracketPrizes_def sp BRACKET_COUNT_def Let_def)
  show "length (bs_slices ?s) = 6" "length (bs_perWinner ?s) = 6" "bs_burn ?s = pool div 5" using s len burn by simp_all
  show "\<forall>b < 6. 0 \<le> bs_perWinner ?s ! b" using s nn bracket_share_exact(2) by simp
  have "map (\<lambda>b. slices ! b) [0..<6] = slices" using len by (metis map_nth)
  moreover have "sum_list (map (\<lambda>b. fst (?sh b) * int (counts ! b)) [0..<6]) + sum_list (map (\<lambda>b. snd (?sh b)) [0..<6])
      = sum_list (map (\<lambda>b. slices ! b) [0..<6])"
    unfolding sum_list_addf[symmetric] using nn bracket_share_exact(1) by (intro arg_cong[where f = sum_list] map_cong) auto
  ultimately have e: "sum_list (map (\<lambda>b. fst (?sh b) * int (counts ! b)) [0..<6]) + sum_list (map (\<lambda>b. snd (?sh b)) [0..<6]) = sum_list slices"
    by simp
  have m: "map (\<lambda>b. bs_perWinner ?s ! b * int (counts ! b)) [0..<6] = map (\<lambda>b. fst (?sh b) * int (counts ! b)) [0..<6]" using s by simp
  show "sum_list (map (\<lambda>b. bs_perWinner ?s ! b * int (counts ! b)) [0..<6]) + bs_burn ?s + bs_nextRollover ?s = pool"
    unfolding m using e s by (simp add: comp_def)
  have "0 \<le> sum_list (map (snd \<circ> ?sh) [0..<6])" using nn bracket_share_exact(3) by (intro sum_list_nonneg) auto
  then show "0 \<le> bs_nextRollover ?s" using s le by simp
qed

text \<open>The prizes of the tickets, bracket by bracket.\<close>

lemma sum_by_bracket:
  fixes w :: "nat \<Rightarrow> int"
  assumes "\<forall>x \<in> set xs. \<forall>b. g x = Some b \<longrightarrow> b < n"
  shows "sum_list (map (\<lambda>x. case g x of None \<Rightarrow> 0 | Some b \<Rightarrow> w b) xs) = sum_list (map (\<lambda>b. w b * int (length (filter (\<lambda>x. g x = Some b) xs))) [0..<n])"
  using assms
proof (induction xs)
  case (Cons x xs)
  have "sum_list (map (\<lambda>b. w b * int (length (filter (\<lambda>y. g y = Some b) (x # xs)))) [0..<n])
      = sum_list (map (\<lambda>b. w b * int (length (filter (\<lambda>y. g y = Some b) xs)) + (if g x = Some b then w b else 0)) [0..<n])"
    by (intro arg_cong[where f = sum_list] map_cong) (auto simp: algebra_simps)
  moreover have "sum_list (map (\<lambda>b. if g x = Some b then w b else 0) [0..<n]) = (case g x of None \<Rightarrow> 0 | Some b \<Rightarrow> w b)"
  proof (cases "g x")
    case (Some b)
    then have "b < n" using Cons.prems by simp
    then show ?thesis using Some by (simp add: interv_sum_list_conv_sum_set_nat)
  qed simp
  ultimately show ?case using Cons by (simp add: sum_list_addf)
qed simp

lemma bracket_less: "ticket_bracket digits t = Some b \<Longrightarrow> b < 6"
  by (auto simp: ticket_bracket_def lotteryBracket_def LOTTERY_DIGITS_def split: if_splits)

lemma settle_of_exact:
  assumes "\<forall>(_, t) \<in> set ts. 0 \<le> lt_costScadBase t" and "0 \<le> cd_injectionScadBase c" and "0 \<le> cd_rolloverScadBase c"
  shows "sum_list (map tr_payoutScad (sl_results (settle_of c ent ts))) + bs_burn (sl_settlement (settle_of c ent ts))
      + bs_nextRollover (sl_settlement (settle_of c ent ts)) = sl_totalPool (settle_of c ent ts)"
    and "0 \<le> bs_nextRollover (sl_settlement (settle_of c ent ts))" "bs_burn (sl_settlement (settle_of c ent ts)) = sl_totalPool (settle_of c ent ts) div 5"
    and "\<forall>r \<in> set (sl_results (settle_of c ent ts)). 0 \<le> tr_payoutScad r"
proof -
  let ?counts = "winner_counts (de_digits ent) ts"
  define pool where "pool = sum_list (map (lt_costScadBase \<circ> snd) ts) + cd_injectionScadBase c + cd_rolloverScadBase c"
  have "0 \<le> sum_list (map (lt_costScadBase \<circ> snd) ts)" using assms(1) by (intro sum_list_nonneg) auto
  then have pool: "0 \<le> pool" using assms(2,3) by (simp add: pool_def)
  have lc: "length ?counts = BRACKET_COUNT" by (simp add: winner_counts_def)
  note F = split_fields[OF pool lc]
  let ?w = "bs_perWinner (splitBracketPrizes pool ?counts)"
  have s: "settle_of c ent ts = \<lparr>sl_totalPool = pool, sl_counts = ?counts, sl_settlement = splitBracketPrizes pool ?counts,
      sl_results = map (result_of (de_digits ent) ?w) ts\<rparr>" by (simp add: settle_of_def Let_def pool_def)
  have p: "tr_payoutScad (result_of (de_digits ent) ?w x) = (case ticket_bracket (de_digits ent) (snd x) of None \<Rightarrow> 0 | Some b \<Rightarrow> ?w ! b)" for x
    by (cases x) (simp add: result_of_def Let_def)
  have cp: "(\<lambda>(_, t). ticket_bracket (de_digits ent) t = Some b) = (\<lambda>x :: nat \<times> lottery_ticket. ticket_bracket (de_digits ent) (snd x) = Some b)" for b
    by auto
  have "sum_list (map tr_payoutScad (sl_results (settle_of c ent ts)))
      = sum_list (map (\<lambda>x. case ticket_bracket (de_digits ent) (snd x) of None \<Rightarrow> 0 | Some b \<Rightarrow> ?w ! b) ts)"
    by (simp add: s comp_def p)
  also have "\<dots> = sum_list (map (\<lambda>b. ?w ! b * int (length (filter (\<lambda>x. ticket_bracket (de_digits ent) (snd x) = Some b) ts))) [0..<6])"
    by (rule sum_by_bracket) (auto dest: bracket_less)
  also have "\<dots> = sum_list (map (\<lambda>b. ?w ! b * int (?counts ! b)) [0..<6])"
    by (intro arg_cong[where f = sum_list] map_cong) (auto simp: winner_counts_def BRACKET_COUNT_def cp)
  finally show "sum_list (map tr_payoutScad (sl_results (settle_of c ent ts))) + bs_burn (sl_settlement (settle_of c ent ts))
      + bs_nextRollover (sl_settlement (settle_of c ent ts)) = sl_totalPool (settle_of c ent ts)"
    using F(5) by (simp add: s)
  show "0 \<le> bs_nextRollover (sl_settlement (settle_of c ent ts))" "bs_burn (sl_settlement (settle_of c ent ts)) = sl_totalPool (settle_of c ent ts) div 5"
    using F by (simp_all add: s)
  show "\<forall>r \<in> set (sl_results (settle_of c ent ts)). 0 \<le> tr_payoutScad r"
    using F(4) p by (auto simp: s dest: bracket_less split: option.splits)
qed


lemma sum_nonneg_costs: "\<forall>(_, t) \<in> set (lotteryTickets d). 0 \<le> lt_costScadBase t \<Longrightarrow> \<forall>(_, t) \<in> set (tickets_of did d). 0 \<le> lt_costScadBase t"
  by (auto simp: tickets_of_def)

subsection \<open>What a settlement does to the books\<close>

definition same_lottery :: "db \<Rightarrow> db \<Rightarrow> bool" where
  "same_lottery d d' \<longleftrightarrow> lotteryDraws d' = lotteryDraws d \<and> lotteryTickets d' = lotteryTickets d \<and> bets d' = bets d"

lemma same_lottery_refl [simp]: "same_lottery d d" by (simp add: same_lottery_def)

lemma same_lottery_trans: "same_lottery d d1 \<Longrightarrow> same_lottery d1 d2 \<Longrightarrow> same_lottery d d2"
  by (simp add: same_lottery_def)

lemma settle_user_spec:
  assumes "settle_user env (uid, a) d = Inr d'"
  shows "same_money d d' \<and> same_lottery d d'"
proof -
  obtain d1 where u: "updateUser uid (bump_totals a) d = Inr d1" using assms by (auto simp: settle_user_def)
  define d2 where "d2 = (if ut_biggest a > 0 then executeUser uid (raise_biggest (ut_biggest a)) d1 else d1)"
  have c: "creditReferral (env_enforced env) (env_now env) uid (ut_wagered a) Lottery (snd (accrue (env_now env) uid (ut_wagered a) d2)) = Inr d'"
    using assms u by (simp add: settle_user_def Let_def d2_def)
  have "same_money d d1" using updateUser_same[OF u] by (simp add: keeps_balanceI bump_totals_def)
  moreover have "same_money d1 d2" by (auto simp: d2_def intro: executeUser_same)
  moreover have "same_money d2 d'" using accrue_same creditReferral_same[OF c] same_money_trans by blast
  moreover have "same_lottery d d2" using u by (auto simp: updateUser_Inr same_lottery_def d2_def)
  moreover have "same_lottery d2 d'" using commission_frame[OF c] creditReferral_frame[OF c] by (simp add: same_lottery_def)
  ultimately show ?thesis using same_money_trans same_lottery_trans by blast
qed

lemma settle_users_spec: "settle_users env us d = Inr d' \<Longrightarrow> same_money d d' \<and> same_lottery d d'"
proof (induction us arbitrary: d)
  case (Cons u us)
  obtain uid a d1 where "u = (uid, a)" "settle_user env (uid, a) d = Inr d1" "settle_users env us d1 = Inr d'"
    using Cons.prems by (cases u) auto
  then show ?case using settle_user_spec Cons.IH same_money_trans same_lottery_trans by blast
qed simp

definition prize_journal :: "ticket_result list \<Rightarrow> posting list" where
  "prize_journal rs = map (\<lambda>r. (lt_userId (tr_ticket r), Jeton, tr_payoutLamports r)) (filter (\<lambda>r. 0 < tr_payoutLamports r) rs)"

lemma pay_prizes_spec: "pay_prizes rs d = Inr d' \<Longrightarrow> posts (prize_journal rs) d d' \<and> same_lottery d d'"
proof (induction rs arbitrary: d)
  case (Cons r rs)
  show ?case
  proof (cases "tr_payoutLamports r \<le> 0")
    case True then show ?thesis using Cons by (simp add: prize_journal_def)
  next
    case False
    then obtain b d1 where a: "applyBalanceDelta (lt_userId (tr_ticket r)) (tr_payoutLamports r)
        ((jeton_meta ''lottery_prize'' ''LotteryTicket'')\<lparr>refId := Some (tr_id r)\<rparr>) d = Inr (b, d1)" "pay_prizes rs d1 = Inr d'"
      using Cons.prems by auto
    have "same_lottery d d1" using applyBalanceDelta_frame[OF a(1)] by (simp add: same_lottery_def)
    then show ?thesis using Cons.IH[OF a(2)] posts_Cons[OF applyBalanceDelta_posts[OF a(1)]] False same_lottery_trans
      by (auto simp: prize_journal_def)
  qed
qed (simp add: prize_journal_def)

lemma claim_draw_Inr: "claim_draw did f d = Inr d1 \<longleftrightarrow>
    (\<exists>r. map_of (lotteryDraws d) did = Some r \<and> ld_status r = DrawOpen
      \<and> d1 = d\<lparr>lotteryDraws := AList.update did (f r) (lotteryDraws d)\<rparr>)"
  by (auto simp: claim_draw_def update_open_draw_def assertRoundClaimed_def split: option.splits if_splits)


lemma bindE_chain: "bindE a (\<lambda>x. bindE (b x) (\<lambda>y. bindE (g y) (\<lambda>z. bindE (h z) (\<lambda>v. Inr (k, v))))) = Inr (r, q) \<Longrightarrow>
    \<exists>x y z. a = Inr x \<and> b x = Inr y \<and> g y = Inr z \<and> h z = Inr q \<and> r = k"
  by auto

lemma settle_draw_cases:
  assumes "settle_draw_tx env did c ent d = Inr (sl, d')"
  obtains r r' where "map_of (lotteryDraws d) did = Some r" "ld_status r = DrawOpen" "en_leader env"
    "sl = settle_of c ent (tickets_of did d)"
    "lotteryDraws d' = AList.update did r' (lotteryDraws d)" "ld_status r' = DrawDrawn"
    "ld_winningDigits r' = de_digits ent" "ld_totalPoolScadBase r' = sl_totalPool sl" "ld_burnScadBase r' = bs_burn (sl_settlement sl)"
    "lotteryTickets d' = lotteryTickets (write_results (sl_results sl) d)"
    "bets d' = bets d @ map (ticket_bet (env_now (en_play env)) c) (sl_results sl)"
    "posts (if en_lottery env = None then prize_journal (sl_results sl) else []) d d'"
    "\<exists>s. map_of (seeds d') (cd_seedId c) = Some s \<and> sd_revealedAt s = Some (env_now (en_play env))"
proof -
  have lead: "en_leader env" using assms by (auto simp: settle_draw_tx_def assertStillLeader_def guardE_def split: if_splits)
  define s where "s = settle_of c ent (tickets_of did d)"
  define f :: "lottery_draw \<Rightarrow> lottery_draw" where "f = (\<lambda>r. r\<lparr>ld_status := DrawDrawn, ld_winningDigits := de_digits ent, ld_slotHash := Some (de_slotHash ent),
          ld_drawnAt := Some (env_now (en_play env)), ld_revealTxSignature := de_revealSig ent, ld_fairness := Some (de_fairness ent),
          ld_beaconRound := de_beaconRound ent, ld_totalPoolScadBase := sl_totalPool s, ld_burnScadBase := bs_burn (sl_settlement s),
          ld_bracketWinnerCounts := sl_counts s, ld_bracketAmountsScadBase := bs_slices (sl_settlement s),
          ld_bracketRolloverScadBase := bs_rollover (sl_settlement s)\<rparr>)"
  let ?now = "env_now (en_play env)"
  define w where "w = (\<lambda>d3. (write_results (sl_results s) d3)\<lparr>bets := bets (write_results (sl_results s) d3) @ map (ticket_bet ?now c) (sl_results s)\<rparr>)"
  have "settle_draw_tx env did c ent d = bindE (claim_draw did f d) (\<lambda>d1.
      bindE (settle_users (en_play env) (foldl add_result [] (sl_results s)) d1) (\<lambda>d2.
      bindE (if en_lottery env = None then pay_prizes (sl_results s) d2 else Inr d2) (\<lambda>d3.
      bindE (reveal_seed ?now (cd_seedId c) (w d3)) (\<lambda>d6. Inr (s, d6)))))"
    using lead by (simp add: settle_draw_tx_def Let_def assertStillLeader_def guardE_def f_def s_def w_def cong: if_cong)
  from bindE_chain[OF this[unfolded assms, symmetric]]
  obtain d1 d2 d3 where c: "claim_draw did f d = Inr d1" "settle_users (en_play env) (foldl add_result [] (sl_results s)) d1 = Inr d2"
    "(if en_lottery env = None then pay_prizes (sl_results s) d2 else Inr d2) = Inr d3"
    and rv: "reveal_seed ?now (cd_seedId c) (w d3) = Inr d'" and sl: "sl = s"
    by blast
  obtain r where r: "map_of (lotteryDraws d) did = Some r" "ld_status r = DrawOpen"
    and d1: "d1 = d\<lparr>lotteryDraws := AList.update did (f r) (lotteryDraws d)\<rparr>" using c(1) unfolding claim_draw_Inr by auto
  note U = settle_users_spec[OF c(2)] and R = reveal_seed_spec[OF rv]
  have P: "posts (if en_lottery env = None then prize_journal (sl_results s) else []) d2 d3 \<and> same_lottery d2 d3"
    using c(3) pay_prizes_spec by (auto split: if_splits)
  have "same_money d d1" by (rule same_moneyI) (simp_all add: d1)
  moreover have "same_money d3 (w d3)" by (rule same_moneyI) (simp_all add: w_def write_results_def)
  ultimately have p: "posts (if en_lottery env = None then prize_journal (sl_results s) else []) d d'"
    using U P R posts_between same_money_trans by blast
  show thesis
    using r lead sl p U P R by (intro that[of r "f r"]) (auto simp: s_def f_def d1 w_def same_lottery_def write_results_def)
qed

definition draw_over :: "nat \<Rightarrow> db \<Rightarrow> bool" where
  "draw_over did d \<longleftrightarrow> (case map_of (lotteryDraws d) did of None \<Rightarrow> False | Some r \<Rightarrow> ld_status r = DrawDrawn)"

lemma settle_over: "draw_over did d \<Longrightarrow> en_leader env \<Longrightarrow>
    settle_draw_tx env did c ent d = Inl (SettleClaimLost ''lottery: already settled by another settler'')"
  by (auto simp: draw_over_def settle_draw_tx_def assertStillLeader_def guardE_def Let_def claim_draw_def update_open_draw_def
      assertRoundClaimed_def split: option.splits)

text \<open>
  C28. A lottery draw is settled once and pays out of its pool. A settlement needs an open draw and ends it; the prizes of its
  tickets, the burn (a fifth of the pool) and what rolls over to the next draw are together exactly the ticket sales, the
  injection and the rollover it started from. Off-chain the ledger gets the prizes and nothing else. A second settlement of
  the draw loses the claim.
\<close>

theorem draw_settled_once:
  assumes "settle_draw_tx env did c ent d = Inr (sl, d')"
    and "\<forall>(_, t) \<in> set (lotteryTickets d). 0 \<le> lt_costScadBase t" and "0 \<le> cd_injectionScadBase c" and "0 \<le> cd_rolloverScadBase c"
  shows "\<not> draw_over did d \<and> draw_over did d'
    \<and> sl_totalPool sl = sum_list (map (lt_costScadBase \<circ> snd) (tickets_of did d)) + cd_injectionScadBase c + cd_rolloverScadBase c
    \<and> sum_list (map tr_payoutScad (sl_results sl)) + bs_burn (sl_settlement sl) + bs_nextRollover (sl_settlement sl) = sl_totalPool sl
    \<and> bs_burn (sl_settlement sl) = sl_totalPool sl div 5 \<and> 0 \<le> bs_nextRollover (sl_settlement sl)
    \<and> posts (if en_lottery env = None then prize_journal (sl_results sl) else []) d d'
    \<and> settle_draw_tx env did c' ent' d' = Inl (SettleClaimLost ''lottery: already settled by another settler'')"
  using assms(1)
proof (rule settle_draw_cases)
  fix r r'
  assume a: "map_of (lotteryDraws d) did = Some r" "ld_status r = DrawOpen" "en_leader env" "sl = settle_of c ent (tickets_of did d)"
    "lotteryDraws d' = AList.update did r' (lotteryDraws d)" "ld_status r' = DrawDrawn"
    "posts (if en_lottery env = None then prize_journal (sl_results sl) else []) d d'"
  then have "draw_over did d'" "\<not> draw_over did d" by (simp_all add: draw_over_def)
  with settle_of_exact[OF sum_nonneg_costs[OF assms(2)] assms(3,4)] settle_over[of did d' env c' ent'] a
  show ?thesis by (simp add: settle_of_def Let_def)
qed


subsection \<open>What rolls over\<close>

lemma openNewDraw_spec:
  assumes "openNewDraw env s cs e d = (e', d')" and "en_leader env"
  shows "\<exists>did r. cd_id (lk_current e') = Some did \<and> map_of (lotteryDraws d) did = None \<and> map_of (lotteryDraws d') did = Some r
    \<and> ld_status r = DrawOpen \<and> ld_rolloverScadBase r = lk_carryRollover e \<and> cd_rolloverScadBase (lk_current e') = lk_carryRollover e
    \<and> ld_injectionScadBase r = INJECTION_SCAD_BASE \<and> lk_carryRollover e' = 0"
  using assms by (intro exI[of _ "fresh_key (lotteryDraws d)"]) (auto simp: openNewDraw_def insert_row_def Let_def armDrawTimer_def simp del: map_of_append)

lemma boot_without_draws:
  assumes "open_draws d = []"
  shows "bootDraws env fresh e d = openNewDraw env (fst fresh) (snd fresh) (e\<lparr>lk_timers := []\<rparr>) d"
  using assms by (simp add: bootDraws_def recoverStrandedDraws_def)

text \<open>
  What rolls over is kept in memory only. The engine that settles a draw hands its rollover to the draw it opens next; but
  when that engine stops between the two, the one that boots opens a draw whose rollover is nothing, and what the winners of the
  settled draw left in the pool is in no draw. A draw that is settled while recovering replaces what was carried before it.
\<close>

theorem rollover_in_memory_only:
  assumes "settle_draw_tx env did c ent d = Inr (sl, d1)" and "open_draws d1 = []" and "en_leader env'"
  shows "(\<not> lk_recovering e \<longrightarrow> after_draw env fresh did ent sl e d1 = (e2, d2) \<longrightarrow>
        (\<exists>did2 r. cd_id (lk_current e2) = Some did2 \<and> map_of (lotteryDraws d2) did2 = Some r \<and> ld_rolloverScadBase r = bs_nextRollover (sl_settlement sl)))
    \<and> (lk_recovering e \<longrightarrow> lk_carryRollover (fst (after_draw env fresh did ent sl e d1)) = bs_nextRollover (sl_settlement sl))
    \<and> (bootDraws env' fresh' new_lottery_engine d1 = (e3, d3) \<longrightarrow>
        (\<exists>did3 r. cd_id (lk_current e3) = Some did3 \<and> map_of (lotteryDraws d3) did3 = Some r \<and> ld_rolloverScadBase r = 0))"
proof -
  have lead: "en_leader env" using assms(1) by (rule settle_draw_cases)
  have "\<exists>did2 r. cd_id (lk_current e2) = Some did2 \<and> map_of (lotteryDraws d2) did2 = Some r \<and> ld_rolloverScadBase r = bs_nextRollover (sl_settlement sl)"
    if n: "\<not> lk_recovering e" and a: "after_draw env fresh did ent sl e d1 = (e2, d2)"
  proof -
    obtain e1 where "openNewDraw env (fst fresh) (snd fresh) e1 d1 = (e2, d2)" "lk_carryRollover e1 = bs_nextRollover (sl_settlement sl)"
      using n a by (simp add: after_draw_def Let_def)
    with openNewDraw_spec[OF _ lead] show ?thesis by metis
  qed
  moreover have "\<exists>did3 r. cd_id (lk_current e3) = Some did3 \<and> map_of (lotteryDraws d3) did3 = Some r \<and> ld_rolloverScadBase r = 0"
    if "bootDraws env' fresh' new_lottery_engine d1 = (e3, d3)"
    using that openNewDraw_spec[OF _ assms(3)] unfolding boot_without_draws[OF assms(2)] by (force simp: new_lottery_engine_def)
  moreover have "lk_recovering e \<Longrightarrow> lk_carryRollover (fst (after_draw env fresh did ent sl e d1)) = bs_nextRollover (sl_settlement sl)"
    by (simp add: after_draw_def Let_def)
  ultimately show ?thesis by blast
qed


subsection \<open>A draw that can be settled\<close>

lemma settle_user_ok:
  assumes "uid \<in> user_ids d"
  shows "\<exists>d'. settle_user env (uid, a) d = Inr d' \<and> user_ids d' = user_ids d"
proof -
  obtain d1 where up: "updateUser uid (bump_totals a) d = Inr d1" by (rule update_ok[OF assms])
  define d2 where "d2 = snd (accrue (env_now env) uid (ut_wagered a)
      (if ut_biggest a > 0 then executeUser uid (raise_biggest (ut_biggest a)) d1 else d1))"
  have ids: "user_ids d2 = user_ids d" using update_ids[OF up] by (simp add: d2_def)
  then obtain d3 where c: "creditReferral (env_enforced env) (env_now env) uid (ut_wagered a) Lottery d2 = Inr d3"
    using referral_ok[of uid d2] assms by metis
  then have "settle_user env (uid, a) d = Inr d3" unfolding settle_user_def prod.case Let_def up bindE_simps d2_def[symmetric] .
  then show ?thesis using referral_ids[OF c] ids by simp
qed

lemma settle_users_ok: "fst ` set us \<subseteq> user_ids d \<Longrightarrow> \<exists>d'. settle_users env us d = Inr d' \<and> user_ids d' = user_ids d"
proof (induction us arbitrary: d)
  case (Cons u us)
  obtain uid a d1 where "u = (uid, a)" "settle_user env u d = Inr d1" "user_ids d1 = user_ids d"
    using settle_user_ok[of "fst u" d env "snd u"] Cons.prems by (cases u) auto
  then show ?case using Cons.IH[of d1] Cons.prems by auto
qed simp

lemma pay_prizes_ok: "(\<lambda>r. lt_userId (tr_ticket r)) ` set rs \<subseteq> user_ids d \<Longrightarrow> \<exists>d'. pay_prizes rs d = Inr d' \<and> user_ids d' = user_ids d"
proof (induction rs arbitrary: d)
  case (Cons r rs)
  let ?meta = "(jeton_meta ''lottery_prize'' ''LotteryTicket'')\<lparr>refId := Some (tr_id r)\<rparr>"
  show ?case
  proof (cases "tr_payoutLamports r \<le> 0")
    case False
    have "lt_userId (tr_ticket r) \<in> user_ids d" "0 \<le> tr_payoutLamports r" "maxBalance ?meta = None" using Cons.prems False by simp_all
    then obtain b d1 where a: "applyBalanceDelta (lt_userId (tr_ticket r)) (tr_payoutLamports r) ?meta d = Inr (b, d1)" by (rule credit_ok)
    then show ?thesis using Cons.IH[of d1] Cons.prems False delta_ids[OF a] by auto
  qed (use Cons in auto)
qed simp

lemma totals_owners: "fst ` set (foldl add_result m rs) = fst ` set m \<union> (\<lambda>r. lt_userId (tr_ticket r)) ` set rs"
  by (induction rs arbitrary: m) (auto simp: add_result_def Let_def dom_update)

lemma settle_of_owners: "(\<lambda>r. lt_userId (tr_ticket r)) ` set (sl_results (settle_of c ent ts)) = (lt_userId \<circ> snd) ` set ts"
  by (force simp: settle_of_def Let_def result_of_def)

lemma seeds_settle_users: "settle_users env us d = Inr d' \<Longrightarrow> seeds d' = seeds d"
proof (induction us arbitrary: d)
  case (Cons u us)
  obtain uid a d1 where u: "u = (uid, a)" "settle_user env (uid, a) d = Inr d1" "settle_users env us d1 = Inr d'"
    using Cons.prems by (cases u) auto
  have "seeds d1 = seeds d" using u(2) creditReferral_frame(7) by (fastforce simp: settle_user_def Let_def updateUser_Inr)
  then show ?case using Cons.IH[OF u(3)] by simp
qed simp

lemma seeds_pay_prizes: "pay_prizes rs d = Inr d' \<Longrightarrow> seeds d' = seeds d"
  by (induction rs arbitrary: d) (auto split: if_splits dest!: applyBalanceDelta_frame(7))

lemma settle_draw_ok:
  assumes "map_of (lotteryDraws d) did = Some r" and "ld_status r = DrawOpen" and "en_leader env"
    and "map_of (seeds d) (cd_seedId c) = Some seed" and "(lt_userId \<circ> snd) ` set (tickets_of did d) \<subseteq> user_ids d"
  shows "\<exists>sl d'. settle_draw_tx env did c ent d = Inr (sl, d')"
proof -
  define sl where "sl = settle_of c ent (tickets_of did d)"
  have own: "(\<lambda>r. lt_userId (tr_ticket r)) ` set (sl_results sl) \<subseteq> user_ids d" using assms(5) unfolding sl_def settle_of_owners .
  define f :: "lottery_draw \<Rightarrow> lottery_draw" where "f = (\<lambda>r. r\<lparr>ld_status := DrawDrawn, ld_winningDigits := de_digits ent, ld_slotHash := Some (de_slotHash ent),
          ld_drawnAt := Some (env_now (en_play env)), ld_revealTxSignature := de_revealSig ent, ld_fairness := Some (de_fairness ent),
          ld_beaconRound := de_beaconRound ent, ld_totalPoolScadBase := sl_totalPool sl, ld_burnScadBase := bs_burn (sl_settlement sl),
          ld_bracketWinnerCounts := sl_counts sl, ld_bracketAmountsScadBase := bs_slices (sl_settlement sl),
          ld_bracketRolloverScadBase := bs_rollover (sl_settlement sl)\<rparr>)"
  define d1 where "d1 = d\<lparr>lotteryDraws := AList.update did (f r) (lotteryDraws d)\<rparr>"
  have 1: "claim_draw did f d = Inr d1" using assms(1,2) unfolding claim_draw_Inr d1_def by blast
  have ids1: "user_ids d1 = user_ids d" "seeds d1 = seeds d" by (simp_all add: d1_def user_ids_def)
  have "fst ` set (foldl add_result [] (sl_results sl)) \<subseteq> user_ids d1" using own ids1 by (simp add: totals_owners)
  then obtain d2 where 2: "settle_users (en_play env) (foldl add_result [] (sl_results sl)) d1 = Inr d2" and ids2: "user_ids d2 = user_ids d1"
    using settle_users_ok by blast
  obtain d3 where 3: "(if en_lottery env = None then pay_prizes (sl_results sl) d2 else Inr d2) = Inr d3"
    using pay_prizes_ok[of "sl_results sl" d2] own ids1 ids2 by (cases "en_lottery env = None") auto
  have "seeds d2 = seeds d1" using 2 seeds_settle_users by blast
  moreover have "seeds d3 = seeds d2" using 3 seeds_pay_prizes by (auto split: if_splits)
  ultimately have "seeds (write_results (sl_results sl) d3) = seeds d" using ids1 by (simp add: write_results_def)
  then obtain d6 where "reveal_seed (env_now (en_play env)) (cd_seedId c)
      ((write_results (sl_results sl) d3)\<lparr>bets := bets (write_results (sl_results sl) d3) @ map (ticket_bet (env_now (en_play env)) c) (sl_results sl)\<rparr>) = Inr d6"
    using assms(4) by (auto simp: reveal_seed_def)
  then have "settle_draw_tx env did c ent d = Inr (sl, d6)"
    using assms(3) 1 2 3 by (simp add: settle_draw_tx_def assertStillLeader_def guardE_def Let_def sl_def[symmetric] f_def[symmetric])
  then show ?thesis by blast
qed

text \<open>A draw with one ticket of five digits that match.\<close>

definition lottery_db :: db where
  "lottery_db = empty_db\<lparr>users := [(1, new_user)],
     seeds := [(0, \<lparr>sd_serverSeed = ''s'', sd_serverSeedHash = ''h'', sd_clientSeed = ''c'', sd_nonce = 0, sd_revealedAt = None\<rparr>)],
     lotteryDraws := [(7, \<lparr>ld_drawIndex = 1, ld_seedId = 0, ld_nonce = 0, ld_status = DrawOpen, ld_winningDigits = [], ld_slotHash = None,
       ld_targetSlot = None, ld_beaconRound = None, ld_fairness = None, ld_commitTxSignature = None, ld_revealTxSignature = None,
       ld_ticketPriceScadBase = 10000000000, ld_injectionScadBase = INJECTION_SCAD_BASE, ld_rolloverScadBase = 500, ld_totalPoolScadBase = 0,
       ld_burnScadBase = 0, ld_bracketWinnerCounts = [], ld_bracketAmountsScadBase = [], ld_bracketRolloverScadBase = [], ld_potLamports = 0,
       ld_ticketCount = 1, ld_drawAt = 100, ld_drawnAt = None\<rparr>)],
     lotteryTickets := [(3, \<lparr>lt_drawId = 7, lt_userId = 1, lt_digits = [1, 2, 3, 4, 5, 6], lt_costLamports = 6666667, lt_payoutLamports = 0,
       lt_costScadBase = 10000000000, lt_payoutScadBase = 0, lt_matchLen = 0, lt_bracket = None, lt_won = False, lt_txSignature = None,
       lt_txIndex = 0, lt_prizeTxSignature = None, lt_free = False, lt_createdAt = 5\<rparr>)]\<rparr>"

definition lottery_env0 :: lottery_env where
  "lottery_env0 = \<lparr>en_play = offline_env, en_leader = True, en_beacon = None, en_tuning = roundLoopTuning, en_lottery = None\<rparr>"

definition open_draw7 :: current_draw where
  "open_draw7 = placeholderDraw\<lparr>cd_id := Some 7, cd_drawAt := 100, cd_ticketPriceScadBase := 10000000000, cd_injectionScadBase := INJECTION_SCAD_BASE,
     cd_rolloverScadBase := 500\<rparr>"

definition entropy7 :: draw_entropy where
  "entropy7 = \<lparr>de_digits = [1, 2, 3, 4, 5, 0], de_slotHash = '''', de_fairness = ''synthetic-not-fair'', de_beaconRound = None, de_revealSig = None\<rparr>"

lemma lottery_db_ok: "map_of (lotteryDraws lottery_db) 7 \<noteq> None" "\<forall>(_, t) \<in> set (lotteryTickets lottery_db). 0 \<le> lt_costScadBase t"
  "tickets_of 7 lottery_db = lotteryTickets lottery_db" "(lt_userId \<circ> snd) ` set (tickets_of 7 lottery_db) \<subseteq> user_ids lottery_db"
  by (simp_all add: lottery_db_def tickets_of_def user_ids_def)

lemma draw7_settles: "\<exists>sl d'. settle_draw_tx lottery_env0 7 open_draw7 entropy7 lottery_db = Inr (sl, d')"
  by (rule settle_draw_ok[OF _ _ _ _ lottery_db_ok(4)]) (auto simp: lottery_db_def lottery_env0_def open_draw7_def placeholderDraw_def)

lemma draw7_rollover: "bs_nextRollover (sl_settlement (settle_of open_draw7 entropy7 (tickets_of 7 lottery_db))) = 606000000300"
proof -
  have "winner_counts (de_digits entropy7) (lotteryTickets lottery_db) = [0, 0, 0, 0, 1, 0]" by code_simp
  moreover have "bs_nextRollover (splitBracketPrizes 1010000000500 [0, 0, 0, 0, 1, 0]) = 606000000300" by code_simp
  ultimately show ?thesis unfolding lottery_db_ok(3)
    by (simp add: settle_of_def Let_def) (simp add: lottery_db_def open_draw7_def INJECTION_SCAD_BASE_def)
qed

theorem draw_settled_once_witness:
  "\<exists>sl d'. settle_draw_tx lottery_env0 7 open_draw7 entropy7 lottery_db = Inr (sl, d') \<and> sl_totalPool sl = 1010000000500
     \<and> bs_burn (sl_settlement sl) = 202000000100"
proof -
  obtain sl d' where s: "settle_draw_tx lottery_env0 7 open_draw7 entropy7 lottery_db = Inr (sl, d')" using draw7_settles by blast
  have "0 \<le> cd_injectionScadBase open_draw7" "0 \<le> cd_rolloverScadBase open_draw7" by (simp_all add: open_draw7_def INJECTION_SCAD_BASE_def)
  from draw_settled_once[OF s lottery_db_ok(2) this, of open_draw7 entropy7] s show ?thesis unfolding lottery_db_ok(3)
    by (simp add: lottery_db_def open_draw7_def INJECTION_SCAD_BASE_def)
qed

theorem rollover_in_memory_only_witness:
  "\<exists>sl d1 e3 d3 did3 r. settle_draw_tx lottery_env0 7 open_draw7 entropy7 lottery_db = Inr (sl, d1)
     \<and> bootDraws lottery_env0 (''a'', ''b'') new_lottery_engine d1 = (e3, d3)
     \<and> bs_nextRollover (sl_settlement sl) = 606000000300
     \<and> cd_id (lk_current e3) = Some did3 \<and> map_of (lotteryDraws d3) did3 = Some r \<and> ld_rolloverScadBase r = 0"
proof -
  obtain sl d1 where s: "settle_draw_tx lottery_env0 7 open_draw7 entropy7 lottery_db = Inr (sl, d1)" using draw7_settles by blast
  have n: "bs_nextRollover (sl_settlement sl) = 606000000300"
    using settle_draw_cases[OF s] draw7_rollover by metis
  from s have "open_draws d1 = []" by (rule settle_draw_cases) (simp add: open_draws_def lottery_db_def)
  moreover obtain e3 d3 where b: "bootDraws lottery_env0 (''a'', ''b'') new_lottery_engine d1 = (e3, d3)" by fastforce
  moreover have "en_leader lottery_env0" by (simp add: lottery_env0_def)
  ultimately show ?thesis using rollover_in_memory_only[OF s, of lottery_env0 new_lottery_engine "(''a'', ''b'')" _ _ "(''a'', ''b'')" e3 d3] s n by blast
qed

end
