(* ===== verification/Lottery_Tickets.thy ===== *)
theory Lottery_Tickets
  imports Lottery Staking Periods
begin

text \<open>
  The lottery's tickets: \<open>apps/api/src/games/lottery/lottery.service.ts\<close>. They are bought off-chain out of the balance,
  confirmed from an on-chain purchase, or earned by wagering. What the chain says of a purchase is an argument.
\<close>

definition MAX_TICKETS_PER_PURCHASE :: nat where "MAX_TICKETS_PER_PURCHASE = 100"
definition FREE_TICKET_PER_WAGER_LAMPORTS :: int where "FREE_TICKET_PER_WAGER_LAMPORTS = LAMPORTS_PER_SOL"

subsection \<open>Prices\<close>

record batch_charge =
  bc_perTicketScad :: int
  bc_perTicketLamports :: int
  bc_debitScad :: int
  bc_debitLamports :: int

definition batchCharge :: "int \<Rightarrow> nat \<Rightarrow> batch_charge result" where
  "batchCharge price n =
     (if n = 0 then Inl (Internal ''RangeError: Division by zero'')
      else let perTicketScad = bigint_div (bulkDiscountTotal price (int n)) (int n);
               perTicketLamports = to_lamports perTicketScad
           in Inr \<lparr>bc_perTicketScad = perTicketScad, bc_perTicketLamports = perTicketLamports,
                   bc_debitScad = perTicketScad * int n, bc_debitLamports = perTicketLamports * int n\<rparr>)"

record bulk_quote =
  bq_count :: nat
  bq_unitScadBase :: int
  bq_totalScadBase :: int
  bq_totalScad :: rat
  bq_discountBps :: int
  bq_totalLamports :: int

definition bulkPrice :: "int \<Rightarrow> nat \<Rightarrow> bulk_quote result" where
  "bulkPrice unit n =
     (let whole = bulkDiscountTotal unit (int n); full = unit * int n;
          discountBps = (if full > 0 then bigint_div ((full - whole) * 10000) full else 0)
      in bindE (batchCharge unit n) (\<lambda>c. Inr \<lparr>bq_count = n, bq_unitScadBase = unit, bq_totalScadBase = whole,
           bq_totalScad = scad_number whole, bq_discountBps = discountBps, bq_totalLamports = bc_debitLamports c\<rparr>))"

definition validateDigits :: "int list \<Rightarrow> unit result" where
  "validateDigits digits = guardE (length digits = LOTTERY_DIGITS \<and> \<not> list_ex (\<lambda>d. d < 0 \<or> d > 9) digits)
     (BadRequest ''Ticket must be 6 digits, each 0..9'')"

subsection \<open>Writing tickets\<close>

definition new_ticket :: "int \<Rightarrow> nat \<Rightarrow> nat \<Rightarrow> int list \<Rightarrow> int \<Rightarrow> int \<Rightarrow> lottery_ticket" where
  "new_ticket now drawId userId digits scadBase lamports =
     \<lparr>lt_drawId = drawId, lt_userId = userId, lt_digits = map nat digits, lt_costLamports = lamports, lt_payoutLamports = 0,
      lt_costScadBase = scadBase, lt_payoutScadBase = 0, lt_matchLen = 0, lt_bracket = None, lt_won = False,
      lt_txSignature = None, lt_txIndex = 0, lt_prizeTxSignature = None, lt_free = False, lt_createdAt = now\<rparr>"

record ticket_dto =
  td_id :: nat
  td_drawId :: nat
  td_digits :: "nat list"

text \<open>A purchase on the chain is unique by its signature and the index of the ticket in it.\<close>

definition create_ticket :: "lottery_ticket \<Rightarrow> db \<Rightarrow> (ticket_dto \<times> db) result" where
  "create_ticket t d =
     (if lt_txSignature t \<noteq> None
         \<and> list_ex (\<lambda>(_, u). lt_txSignature u = lt_txSignature t \<and> lt_txIndex u = lt_txIndex t) (lotteryTickets d)
      then Inl (Internal ''P2002'')
      else let (tid, rows) = insert_row t (lotteryTickets d)
           in Inr (\<lparr>td_id = tid, td_drawId = lt_drawId t, td_digits = lt_digits t\<rparr>, d\<lparr>lotteryTickets := rows\<rparr>))"

fun create_tickets :: "lottery_ticket list \<Rightarrow> db \<Rightarrow> (ticket_dto list \<times> db) result" where
  "create_tickets [] d = Inr ([], d)"
| "create_tickets (t # ts) d = bindE (create_ticket t d) (\<lambda>(dto, d1). bindE (create_tickets ts d1) (\<lambda>(dtos, d2). Inr (dto # dtos, d2)))"

definition assertDrawStillOpen :: "nat \<Rightarrow> db \<Rightarrow> db result" where
  "assertDrawStillOpen drawId d =
     (let (n, d1) = update_open_draw drawId (\<lambda>r. r\<lparr>ld_status := DrawOpen\<rparr>) d
      in bindE (guardE (n \<noteq> 0) (BadRequest ''Draw just closed - your ticket was not bought'')) (\<lambda>_. Inr d1))"

text \<open>The open draw that an operation works on; the placeholder's empty id is refused by the database.\<close>

definition open_draw_for :: "lottery_env \<Rightarrow> string \<Rightarrow> lottery_engine \<Rightarrow> (nat option \<times> int) result" where
  "open_draw_for env message e = (case getOpenDraw (env_now (en_play env)) e of
      None \<Rightarrow> Inl (BadRequest message)
    | Some (did, drawIndex, _) \<Rightarrow> Inr (did, drawIndex))"

definition needs_id :: "nat option \<Rightarrow> nat result" where
  "needs_id i = (case i of None \<Rightarrow> Inl (Internal ''invalid uuid'') | Some did \<Rightarrow> Inr did)"

definition active_user :: "nat \<Rightarrow> db \<Rightarrow> user result" where
  "active_user userId d = (case map_of (users d) userId of
      None \<Rightarrow> Inl (NotFound ''User not found'')
    | Some u \<Rightarrow> if banned u then Inl (Forbidden ''Account banned'') else Inr u)"

subsection \<open>A purchase on the chain\<close>

record ticket_event =
  te_buyer :: string
  te_drawIndex :: int
  te_digits :: "int list"

fun check_events :: "string \<Rightarrow> int \<Rightarrow> ticket_event list \<Rightarrow> unit result" where
  "check_events wallet drawIndex [] = Inr ()"
| "check_events wallet drawIndex (ev # evs) =
     (if te_buyer ev \<noteq> wallet then Inl (BadRequest ''Ticket was bought by a different wallet'')
      else if te_drawIndex ev \<noteq> drawIndex then Inl (BadRequest ''Ticket belongs to a different draw'')
      else check_events wallet drawIndex evs)"

definition confirm_tx :: "lottery_env \<Rightarrow> nat \<Rightarrow> nat \<Rightarrow> string \<Rightarrow> int \<Rightarrow> ticket_event list \<Rightarrow> db \<Rightarrow> (ticket_dto list \<times> db) result" where
  "confirm_tx env did userId signature perTicketScad events d =
     bindE (create_tickets (map (\<lambda>(i, ev). (new_ticket (env_now (en_play env)) did userId (te_digits ev) perTicketScad (to_lamports perTicketScad))
         \<lparr>lt_txSignature := Some signature, lt_txIndex := i\<rparr>) (enumerate 0 events)) d) (\<lambda>(dtos, d1).
     bindE (assertDrawStillOpen did d1) (\<lambda>d2. Inr (dtos, d2)))"

record ticket_reply =
  cr_txSignature :: string
  cr_count :: nat
  cr_totalScad :: rat
  cr_tickets :: "ticket_dto list"

definition confirmTicket :: "lottery_env \<Rightarrow> nat \<Rightarrow> string \<Rightarrow> ticket_event list \<Rightarrow> lottery_engine \<Rightarrow> db \<Rightarrow> ticket_reply result \<times> lottery_engine \<times> db" where
  "confirmTicket env userId signature events e d =
     (let checks =
        bindE (guardE (en_lottery env \<noteq> None) (BadRequest ''On-chain lottery is not enabled'')) (\<lambda>_.
        bindE (assertCanWager (env_wager (en_play env)) userId 0 d) (\<lambda>_.
        bindE (open_draw_for env ''No open draw'' e) (\<lambda>(did, drawIndex).
        bindE (active_user userId d) (\<lambda>u.
        bindE (guardE (events \<noteq> []) (BadRequest ''Transaction not found or not a ticket purchase'')) (\<lambda>_.
        bindE (check_events (walletAddress u) drawIndex events) (\<lambda>_. needs_id did))))));
          totalScad = bulkDiscountTotal (cd_ticketPriceScadBase (lk_current e)) (int (length events));
          perTicketScad = bigint_div totalScad (int (length events))
      in case bindE checks (\<lambda>did. confirm_tx env did userId signature perTicketScad events d) of
           Inl err \<Rightarrow> (Inl err, e, d)
         | Inr (dtos, d1) \<Rightarrow> (case onTicketSold totalScad (to_lamports totalScad) (length dtos) e d1 of
               Inl err \<Rightarrow> (Inl err, e, d1)
             | Inr (e1, d2) \<Rightarrow> (Inr \<lparr>cr_txSignature = signature, cr_count = length dtos, cr_totalScad = scad_number totalScad,
                 cr_tickets = dtos\<rparr>, e1, d2)))"

subsection \<open>Free tickets\<close>

record free_status =
  fs_available :: int
  fs_progressLamports :: int
  fs_perWagerLamports :: int

definition freeTicketStatus :: "nat \<Rightarrow> db \<Rightarrow> free_status result" where
  "freeTicketStatus userId d = (case map_of (users d) userId of
      None \<Rightarrow> Inl (NotFound ''User not found'')
    | Some u \<Rightarrow>
        let per = FREE_TICKET_PER_WAGER_LAMPORTS; spare = totalWagered u - freeTicketBaselineWagered u;
            available = bigint_div spare per; progress = spare - bigint_div spare per * per
        in Inr \<lparr>fs_available = max 0 available, fs_progressLamports = progress, fs_perWagerLamports = per\<rparr>)"

text \<open>The guarded update takes one ticket's wager off the watermark, or matches nothing.\<close>

definition spend_free_ticket :: "nat \<Rightarrow> db \<Rightarrow> nat \<times> db" where
  "spend_free_ticket userId d = (case map_of (users d) userId of
      None \<Rightarrow> (0, d)
    | Some u \<Rightarrow>
        if totalWagered u - freeTicketBaselineWagered u \<ge> FREE_TICKET_PER_WAGER_LAMPORTS
        then (1, d\<lparr>users := AList.update userId
               (u\<lparr>freeTicketBaselineWagered := freeTicketBaselineWagered u + FREE_TICKET_PER_WAGER_LAMPORTS\<rparr>) (users d)\<rparr>)
        else (0, d))"

definition free_ticket_tx :: "lottery_env \<Rightarrow> nat \<Rightarrow> nat \<Rightarrow> int list \<Rightarrow> db \<Rightarrow> (ticket_dto \<times> db) result" where
  "free_ticket_tx env did userId digits d =
     bindE (active_user userId d) (\<lambda>_.
     bindE (assertPooledEntry (env_enforced (en_play env)) userId Pooled_lottery did d) (\<lambda>_.
       let (spent, d1) = spend_free_ticket userId d in
     bindE (guardE (spent \<noteq> 0) (BadRequest ''No free tickets earned yet'')) (\<lambda>_.
     bindE (create_ticket ((new_ticket (env_now (en_play env)) did userId digits 0 0)\<lparr>lt_free := True\<rparr>) d1) (\<lambda>(dto, d2).
     bindE (assertDrawStillOpen did d2) (\<lambda>d3. Inr (dto, d3))))))"

definition useFreeTicket :: "lottery_env \<Rightarrow> nat \<Rightarrow> int list \<Rightarrow> lottery_engine \<Rightarrow> db \<Rightarrow> ticket_dto result \<times> lottery_engine \<times> db" where
  "useFreeTicket env userId digits e d =
     (let checks =
        bindE (assertCanWager (env_wager (en_play env)) userId 0 d) (\<lambda>_.
        bindE (validateDigits digits) (\<lambda>_.
        bindE (open_draw_for env ''No open draw'' e) (\<lambda>(did, _).
        bindE (active_user userId d) (\<lambda>_. needs_id did))))
      in case bindE checks (\<lambda>did. free_ticket_tx env did userId digits d) of
           Inl err \<Rightarrow> (Inl err, e, d)
         | Inr (dto, d1) \<Rightarrow> (case onTicketSold 0 0 1 e d1 of
               Inl err \<Rightarrow> (Inl err, e, d1)
             | Inr (e1, d2) \<Rightarrow> (Inr dto, e1, d2)))"


subsection \<open>Buying off-chain\<close>

record purchase_reply =
  pr_count :: nat
  pr_totalScadBase :: int
  pr_totalLamports :: int
  pr_tickets :: "ticket_dto list"

datatype purchase = Fresh_purchase purchase_reply | Replayed_purchase string

definition serializePurchase :: "ticket_dto list \<Rightarrow> int \<Rightarrow> int \<Rightarrow> purchase_reply" where
  "serializePurchase tickets totalScadBase totalLamports =
     \<lparr>pr_count = length tickets, pr_totalScadBase = totalScadBase, pr_totalLamports = totalLamports, pr_tickets = tickets\<rparr>"

definition buy_tx :: "lottery_env \<Rightarrow> (purchase_reply \<Rightarrow> string) \<Rightarrow> nat \<Rightarrow> nat \<Rightarrow> int list list \<Rightarrow> batch_charge \<Rightarrow> string option \<Rightarrow> db
    \<Rightarrow> (purchase \<times> db) result" where
  "buy_tx env json did userId picks charge key d =
     bindE (claimIdempotency userId ''lottery_buy'' key d) (\<lambda>(replay, d0). case replay of
       Some response \<Rightarrow> Inr (Replayed_purchase response, d0)
     | None \<Rightarrow>
        bindE (assertPooledEntry (env_enforced (en_play env)) userId Pooled_lottery did d0) (\<lambda>_.
        bindE (applyBalanceDelta userId (- bc_debitLamports charge) ((jeton_meta ''lottery_ticket'' ''LotteryDraw'')\<lparr>refId := Some did\<rparr>) d0) (\<lambda>(_, d1).
        bindE (create_tickets (map (\<lambda>digits. new_ticket (env_now (en_play env)) did userId digits (bc_perTicketScad charge) (bc_perTicketLamports charge)) picks) d1) (\<lambda>(dtos, d2).
        bindE (assertDrawStillOpen did d2) (\<lambda>d3.
          let reply = serializePurchase dtos (bc_debitScad charge) (bc_debitLamports charge) in
        bindE (storeIdempotency userId ''lottery_buy'' key (json reply) d3) (\<lambda>d4. Inr (Fresh_purchase reply, d4)))))))"

definition buy_checks :: "lottery_env \<Rightarrow> nat \<Rightarrow> int list list \<Rightarrow> lottery_engine \<Rightarrow> db \<Rightarrow> (nat \<times> batch_charge) result" where
  "buy_checks env userId picks e d =
     (let n = length picks in
     bindE (guardE (1 \<le> n \<and> n \<le> MAX_TICKETS_PER_PURCHASE) (BadRequest ''Buy between 1 and 100 tickets at a time'')) (\<lambda>_.
     bindE (if list_all (\<lambda>p. validateDigits p = Inr ()) picks then Inr () else Inl (BadRequest ''Ticket must be 6 digits, each 0..9'')) (\<lambda>_.
     bindE (guardE (en_lottery env = None) (BadRequest ''Tickets are bought on-chain with $SCAD'')) (\<lambda>_.
     bindE (batchCharge (cd_ticketPriceScadBase (lk_current e)) n) (\<lambda>charge.
     bindE (assertCanWager (env_wager (en_play env)) userId (bc_debitLamports charge) d) (\<lambda>_.
     bindE (open_draw_for env ''No open draw - the next one starts shortly'' e) (\<lambda>(did, _).
     bindE (active_user userId d) (\<lambda>_. bindE (needs_id did) (\<lambda>i. Inr (i, charge))))))))))"

definition buyTickets :: "lottery_env \<Rightarrow> (purchase_reply \<Rightarrow> string) \<Rightarrow> nat \<Rightarrow> int list list \<Rightarrow> string option \<Rightarrow> lottery_engine \<Rightarrow> db
    \<Rightarrow> purchase result \<times> lottery_engine \<times> db" where
  "buyTickets env json userId picks key e d =
     (case bindE (buy_checks env userId picks e d) (\<lambda>(did, charge).
           bindE (buy_tx env json did userId picks charge key d) (\<lambda>(out, d1). Inr (charge, out, d1))) of
        Inl err \<Rightarrow> (Inl err, e, d)
      | Inr (_, Replayed_purchase s, d1) \<Rightarrow> (Inr (Replayed_purchase s), e, d1)
      | Inr (charge, Fresh_purchase reply, d1) \<Rightarrow>
          (case onTicketSold (bc_debitScad charge) (bc_debitLamports charge) (length picks) e d1 of
             Inl err \<Rightarrow> (Inl err, e, d1)
           | Inr (e1, d2) \<Rightarrow> (Inr (Fresh_purchase reply), e1, d2)))"

subsection \<open>What is shown\<close>

text \<open>The local time of the draw, as \<open>YYYYMMDDHHMMSS\<close>.\<close>

definition gameNumber :: "int \<Rightarrow> string" where
  "gameNumber drawAt =
     (let t = drawAt + DRAW_TZ_OFFSET_MINUTES * 60000; (y, mm, dd) = civil_of_days (t div MS_PER_DAY); s = t mod MS_PER_DAY div 1000
      in decimal (nat y) @ pad2 mm @ pad2 dd @ pad2 (s div 3600) @ pad2 (s div 60 mod 60) @ pad2 (s mod 60))"

record my_ticket =
  mt_id :: nat
  mt_drawId :: nat
  mt_gameNumber :: string
  mt_digits :: "nat list"
  mt_costScad :: rat
  mt_matchLen :: nat
  mt_bracket :: "nat option"
  mt_payoutScad :: rat
  mt_free :: bool
  mt_txSignature :: "string option"
  mt_prizeTxSignature :: "string option"
  mt_won :: bool
  mt_drawStatus :: draw_status
  mt_drawDigits :: "nat list"
  mt_createdAt :: int

definition my_ticket_of :: "nat \<times> lottery_ticket \<Rightarrow> lottery_draw \<Rightarrow> my_ticket" where
  "my_ticket_of = (\<lambda>(tid, t) draw. \<lparr>mt_id = tid, mt_drawId = lt_drawId t, mt_gameNumber = gameNumber (ld_drawAt draw), mt_digits = lt_digits t,
     mt_costScad = scad_number (lt_costScadBase t), mt_matchLen = lt_matchLen t, mt_bracket = lt_bracket t,
     mt_payoutScad = scad_number (lt_payoutScadBase t), mt_free = lt_free t, mt_txSignature = lt_txSignature t,
     mt_prizeTxSignature = lt_prizeTxSignature t, mt_won = lt_won t, mt_drawStatus = ld_status draw, mt_drawDigits = ld_winningDigits draw,
     mt_createdAt = lt_createdAt t\<rparr>)"

text \<open>Foreign keys make sure that a ticket's draw, its owner and a draw's seed exist.\<close>

definition with_draw :: "db \<Rightarrow> (nat \<times> lottery_ticket \<Rightarrow> lottery_draw \<Rightarrow> 'a) \<Rightarrow> nat \<times> lottery_ticket \<Rightarrow> 'a option" where
  "with_draw d f x = map_option (f x) (map_of (lotteryDraws d) (lt_drawId (snd x)))"

definition myTickets :: "nat \<Rightarrow> nat \<Rightarrow> bool \<Rightarrow> db \<Rightarrow> my_ticket list" where
  "myTickets userId limit wonOnly d = List.map_filter (with_draw d my_ticket_of)
     (take limit (newest (Some \<circ> lt_createdAt \<circ> snd)
       (filter (\<lambda>(_, t). lt_userId t = userId \<and> (wonOnly \<longrightarrow> lt_won t)) (lotteryTickets d))))"

record ticket_stats =
  ts_totalTickets :: nat
  ts_winningTickets :: nat
  ts_totalPrizeScad :: rat

definition myStats :: "nat \<Rightarrow> db \<Rightarrow> ticket_stats" where
  "myStats userId d =
     (let mine = filter (\<lambda>t. lt_userId t = userId) (map snd (lotteryTickets d))
      in \<lparr>ts_totalTickets = length mine, ts_winningTickets = length (filter lt_won mine),
          ts_totalPrizeScad = scad_number (sum_list (map lt_payoutScadBase mine))\<rparr>)"

record winner_dto =
  wn_walletAddress :: string
  wn_digits :: "nat list"
  wn_matchLen :: nat
  wn_bracket :: "nat option"
  wn_payoutScad :: rat

definition winner_of :: "db \<Rightarrow> lottery_ticket \<Rightarrow> winner_dto option" where
  "winner_of d t = map_option (\<lambda>u. \<lparr>wn_walletAddress = walletAddress u, wn_digits = lt_digits t, wn_matchLen = lt_matchLen t,
     wn_bracket = lt_bracket t, wn_payoutScad = scad_number (lt_payoutScadBase t)\<rparr>) (map_of (users d) (lt_userId t))"

record draw_dto =
  dd_drawId :: nat
  dd_draw :: lottery_draw
  dd_gameNumber :: string
  dd_totalPoolScad :: rat
  dd_burnScad :: rat
  dd_bracketAmountsScad :: "rat list"
  dd_serverSeed :: "string option"
  dd_serverSeedHash :: string
  dd_clientSeed :: string

definition draw_dto_of :: "bool \<Rightarrow> nat \<times> lottery_draw \<Rightarrow> seed_row \<Rightarrow> draw_dto" where
  "draw_dto_of shown = (\<lambda>(did, r) seed. \<lparr>dd_drawId = did, dd_draw = r, dd_gameNumber = gameNumber (ld_drawAt r),
     dd_totalPoolScad = scad_number (ld_totalPoolScadBase r), dd_burnScad = scad_number (ld_burnScadBase r),
     dd_bracketAmountsScad = map scad_number (ld_bracketAmountsScadBase r),
     dd_serverSeed = (if shown then Some (sd_serverSeed seed) else None), dd_serverSeedHash = sd_serverSeedHash seed,
     dd_clientSeed = sd_clientSeed seed\<rparr>)"

definition drawResults :: "int \<Rightarrow> nat \<Rightarrow> db \<Rightarrow> (draw_dto \<times> nat \<times> winner_dto list) result" where
  "drawResults drawIndex winnersLimit d = (case find (\<lambda>(_, r). ld_drawIndex r = drawIndex) (lotteryDraws d) of
      None \<Rightarrow> Inl (NotFound ''Draw not found'')
    | Some (did, r) \<Rightarrow> (case map_of (seeds d) (ld_seedId r) of
          None \<Rightarrow> Inl (Internal ''P2025'')
        | Some seed \<Rightarrow>
            let won = filter lt_won (map snd (tickets_of did d)) in
            Inr (draw_dto_of (ld_status r = DrawDrawn) (did, r) seed, length won,
                 List.map_filter (winner_of d) (take winnersLimit (sort_key (\<lambda>t. - lt_payoutScadBase t) won)))))"

definition jackpotWinners :: "nat \<Rightarrow> db \<Rightarrow> (int \<times> string \<times> int option \<times> winner_dto) list" where
  "jackpotWinners limit d = List.map_filter
     (\<lambda>x. case (with_draw d (\<lambda>_ r. (ld_drawIndex r, gameNumber (ld_drawAt r), ld_drawnAt r)) x, winner_of d (snd x)) of
        (Some (i, g, at'), Some w) \<Rightarrow> Some (i, g, at', w) | _ \<Rightarrow> None)
     (take limit (newest (Some \<circ> lt_createdAt \<circ> snd) (filter (\<lambda>(_, t). lt_bracket t = Some (BRACKET_COUNT - 1)) (lotteryTickets d))))"

definition recentDraws :: "nat \<Rightarrow> db \<Rightarrow> draw_dto list" where
  "recentDraws limit d = List.map_filter (\<lambda>x. map_option (draw_dto_of True x) (map_of (seeds d) (ld_seedId (snd x))))
     (take limit (newest (ld_drawnAt \<circ> snd) (filter (\<lambda>(_, r). ld_status r = DrawDrawn) (lotteryDraws d))))"


subsection \<open>A purchase\<close>

lemma create_tickets_spec:
  assumes "create_tickets ts d = Inr (dtos, d')"
  shows "\<exists>rows. d' = d\<lparr>lotteryTickets := lotteryTickets d @ rows\<rparr> \<and> map snd rows = ts \<and> map fst rows = map td_id dtos"
  using assms
proof (induction ts arbitrary: d dtos)
  case (Cons t ts)
  obtain dto dtos' d1 where c: "create_ticket t d = Inr (dto, d1)" "create_tickets ts d1 = Inr (dtos', d')" and dtos: "dtos = dto # dtos'"
    using Cons.prems by auto
  have "d1 = d\<lparr>lotteryTickets := lotteryTickets d @ [(td_id dto, t)]\<rparr>"
    using c(1) by (auto simp: create_ticket_def insert_row_def Let_def split: if_splits)
  moreover obtain rows where "d' = d1\<lparr>lotteryTickets := lotteryTickets d1 @ rows\<rparr>" "map snd rows = ts" "map fst rows = map td_id dtos'"
    using Cons.IH[OF c(2)] by blast
  ultimately show ?case using dtos by (intro exI[of _ "(td_id dto, t) # rows"]) simp
qed simp

lemma assertDrawStillOpen_Inr: "assertDrawStillOpen did d = Inr d' \<longleftrightarrow>
    (\<exists>r. map_of (lotteryDraws d) did = Some r \<and> ld_status r = DrawOpen \<and> d' = d\<lparr>lotteryDraws := AList.update did (r\<lparr>ld_status := DrawOpen\<rparr>) (lotteryDraws d)\<rparr>)"
  by (auto simp: assertDrawStillOpen_def update_open_draw_def guardE_def split: option.splits if_splits)

lemma still_open_over: "draw_over did d \<Longrightarrow> lotteryDraws d1 = lotteryDraws d \<Longrightarrow>
    assertDrawStillOpen did d1 = Inl (BadRequest ''Draw just closed - your ticket was not bought'')"
  by (auto simp: draw_over_def assertDrawStillOpen_def update_open_draw_def guardE_def split: option.splits)

lemma claim_frame_lottery: "claimIdempotency u s k d = Inr (r, d') \<Longrightarrow> same_money d d' \<and> lotteryDraws d' = lotteryDraws d \<and> lotteryTickets d' = lotteryTickets d"
  using claim_same[of u s k d r d'] by (auto simp: claimIdempotency_def split: if_splits option.splits)

lemma store_frame_lottery: "storeIdempotency u s k r d = Inr d' \<Longrightarrow> same_money d d' \<and> lotteryDraws d' = lotteryDraws d \<and> lotteryTickets d' = lotteryTickets d"
  using store_same[of u s k r d d'] by (auto simp: storeIdempotency_def split: if_splits option.splits)

definition bought :: "lottery_env \<Rightarrow> nat \<Rightarrow> nat \<Rightarrow> batch_charge \<Rightarrow> int list list \<Rightarrow> lottery_ticket list" where
  "bought env did userId charge picks = map (\<lambda>digits. new_ticket (env_now (en_play env)) did userId digits (bc_perTicketScad charge) (bc_perTicketLamports charge)) picks"

lemma buy_tx_cases:
  assumes "buy_tx env json did uid picks charge key d = Inr (out, d')"
  obtains (Replay) s where "out = Replayed_purchase s" "same_money d d'" "lotteryDraws d' = lotteryDraws d" "lotteryTickets d' = lotteryTickets d"
  | (Fresh) rows r reply where "out = Fresh_purchase reply" "map_of (lotteryDraws d) did = Some r" "ld_status r = DrawOpen"
      "lotteryDraws d' = AList.update did (r\<lparr>ld_status := DrawOpen\<rparr>) (lotteryDraws d)"
      "lotteryTickets d' = lotteryTickets d @ rows" "map snd rows = bought env did uid charge picks"
      "posts [(uid, Jeton, - bc_debitLamports charge)] d d'" "map fst rows = map td_id (pr_tickets reply)"
proof -
  obtain replay d0 where c: "claimIdempotency uid ''lottery_buy'' key d = Inr (replay, d0)" using assms by (auto simp: buy_tx_def)
  note C = claim_frame_lottery[OF c]
  show thesis
  proof (cases replay)
    case (Some s) then show thesis using assms c C Replay by (auto simp: buy_tx_def)
  next
    case None
    obtain b d1 dtos d2 d3 where a: "applyBalanceDelta uid (- bc_debitLamports charge) ((jeton_meta ''lottery_ticket'' ''LotteryDraw'')\<lparr>refId := Some did\<rparr>) d0 = Inr (b, d1)"
      and ct: "create_tickets (bought env did uid charge picks) d1 = Inr (dtos, d2)" and o: "assertDrawStillOpen did d2 = Inr d3"
      and st: "storeIdempotency uid ''lottery_buy'' key (json (serializePurchase dtos (bc_debitScad charge) (bc_debitLamports charge))) d3 = Inr d'"
      and out: "out = Fresh_purchase (serializePurchase dtos (bc_debitScad charge) (bc_debitLamports charge))"
      using assms c None by (auto simp: buy_tx_def Let_def bought_def)
    obtain rows where rows: "d2 = d1\<lparr>lotteryTickets := lotteryTickets d1 @ rows\<rparr>" "map snd rows = bought env did uid charge picks" "map fst rows = map td_id dtos"
      using create_tickets_spec[OF ct] by blast
    obtain r where r: "map_of (lotteryDraws d2) did = Some r" "ld_status r = DrawOpen"
      "d3 = d2\<lparr>lotteryDraws := AList.update did (r\<lparr>ld_status := DrawOpen\<rparr>) (lotteryDraws d2)\<rparr>" using o unfolding assertDrawStillOpen_Inr by blast
    have "same_money d1 d3" by (rule same_moneyI) (simp_all add: r rows)
    then have "posts [(uid, Jeton, - bc_debitLamports charge)] d d'"
      using posts_between[of d d0 _ d1 d'] C applyBalanceDelta_posts[OF a] store_frame_lottery[OF st] same_money_trans by fastforce
    then show thesis using Fresh[OF out, of r rows] r rows C applyBalanceDelta_frame[OF a] store_frame_lottery[OF st]
      by (simp add: serializePurchase_def)
  qed
qed

lemma buy_checks_Inr:
  assumes "buy_checks env uid picks e d = Inr (did, charge)"
  shows "picks \<noteq> [] \<and> length picks \<le> 100 \<and> batchCharge (cd_ticketPriceScadBase (lk_current e)) (length picks) = Inr charge
    \<and> list_all (\<lambda>p. validateDigits p = Inr ()) picks"
  using assms by (auto simp: buy_checks_def Let_def guardE_def MAX_TICKETS_PER_PURCHASE_def split: if_splits)

lemma div_times_le: "0 < b \<Longrightarrow> a div b * b \<le> (a::int)"
  using pos_mod_sign[of b a] minus_mod_eq_div_mult[of a b] by linarith

text \<open>A batch is never charged more than its discounted price.\<close>

lemma batchCharge_le:
  assumes "batchCharge price n = Inr c" and "0 \<le> price" and "n \<le> 100"
  shows "bc_debitScad c \<le> bulkDiscountTotal price (int n) \<and> bulkDiscountTotal price (int n) \<le> price * int n"
proof -
  have n: "0 < n" using assms(1) by (simp add: batchCharge_def split: if_splits)
  define w where "w = bulkDiscountTotal price (int n)"
  have pn: "0 \<le> price * int n * (2001 - int n)" using assms(2,3) by simp
  then have w: "w = price * int n * (2001 - int n) div 2000"
    by (simp add: w_def bulkDiscountTotal_def DISCOUNT_DIVISOR_def bigint_div_nonneg)
  have "price * int n * (2001 - int n) \<le> price * int n * 2000" using assms(2) n by (intro mult_left_mono) auto
  then have "w \<le> price * int n" unfolding w by linarith
  moreover have "0 \<le> w" using pn w by simp
  then have "bigint_div w (int n) * int n \<le> w" using n by (simp add: bigint_div_nonneg div_times_le)
  moreover have "bc_debitScad c = bigint_div w (int n) * int n" using assms(1) n by (auto simp: batchCharge_def Let_def w_def)
  ultimately show ?thesis by (simp add: w_def)
qed

text \<open>
  Buying tickets. A purchase that commits debits exactly the sum of what its tickets record as their price, for the picks
  that were asked for and in the draw that was open, and in SCAD that sum is at most the discounted price of the batch, which is at most
  the list price. Nobody else's balance moves.
\<close>

theorem tickets_bought:
  assumes "buy_checks env uid picks e d = Inr (did, charge)" and "buy_tx env json did uid picks charge key d = Inr (Fresh_purchase reply, d')"
    and "0 \<le> cd_ticketPriceScadBase (lk_current e)"
  shows "\<exists>rows. lotteryTickets d' = lotteryTickets d @ rows \<and> map (lt_digits \<circ> snd) rows = map (map nat) picks
    \<and> (\<forall>(_, t) \<in> set rows. lt_drawId t = did \<and> lt_userId t = uid \<and> \<not> lt_won t)
    \<and> map fst rows = map td_id (pr_tickets reply)
    \<and> posts [(uid, Jeton, - sum_list (map (lt_costLamports \<circ> snd) rows))] d d'
    \<and> sum_list (map (lt_costScadBase \<circ> snd) rows) \<le> bulkDiscountTotal (cd_ticketPriceScadBase (lk_current e)) (int (length picks))
    \<and> bulkDiscountTotal (cd_ticketPriceScadBase (lk_current e)) (int (length picks)) \<le> cd_ticketPriceScadBase (lk_current e) * int (length picks)
    \<and> (\<exists>r. map_of (lotteryDraws d) did = Some r \<and> ld_status r = DrawOpen)"
  using assms(2)
proof (cases rule: buy_tx_cases)
  case (Fresh rows r reply')
  note B = buy_checks_Inr[OF assms(1)]
  have ch: "bc_debitLamports charge = bc_perTicketLamports charge * int (length picks)" "bc_debitScad charge = bc_perTicketScad charge * int (length picks)"
    using B by (auto simp: batchCharge_def Let_def split: if_splits)
  have m: "map (f \<circ> snd) rows = map f (bought env did uid charge picks)" for f :: "lottery_ticket \<Rightarrow> 'x"
    using Fresh(6) by (metis map_map)
  have c: "sum_list (map (lt_costLamports \<circ> snd) rows) = bc_debitLamports charge" "sum_list (map (lt_costScadBase \<circ> snd) rows) = bc_debitScad charge"
    unfolding m ch by (simp_all add: bought_def new_ticket_def comp_def sum_list_triv mult.commute)
  have dg: "map (lt_digits \<circ> snd) rows = map (map nat) picks" unfolding m by (simp add: bought_def new_ticket_def comp_def)
  have "\<forall>t \<in> snd ` set rows. lt_drawId t = did \<and> lt_userId t = uid \<and> \<not> lt_won t"
    using Fresh(6) by (simp flip: set_map) (auto simp: bought_def new_ticket_def)
  then have own: "\<forall>(_, t) \<in> set rows. lt_drawId t = did \<and> lt_userId t = uid \<and> \<not> lt_won t" by auto
  show ?thesis using Fresh c dg own B batchCharge_le[of "cd_ticketPriceScadBase (lk_current e)" "length picks" charge] assms(3)
    by (intro exI[of _ rows]) simp
qed simp


subsection \<open>A draw that is over\<close>

lemma create_ticket_frame: "create_ticket t d = Inr (dto, d') \<Longrightarrow> lotteryDraws d' = lotteryDraws d"
  by (auto simp: create_ticket_def Let_def split: if_splits prod.splits)

lemma create_tickets_frame: "create_tickets ts d = Inr (dtos, d') \<Longrightarrow> lotteryDraws d' = lotteryDraws d"
  using create_tickets_spec by fastforce

lemma spend_frame: "lotteryDraws (snd (spend_free_ticket uid d)) = lotteryDraws d"
  by (simp add: spend_free_ticket_def Let_def split: option.splits)

text \<open>
  C40. A draw that has been drawn sells no ticket. Neither a confirmation of an on-chain purchase nor a free ticket commits for it, and
  a purchase only when it repeats one that had already committed, which moves nothing.
\<close>

theorem drawn_draw_sells_nothing:
  assumes "draw_over did d"
  shows "(\<exists>err. confirm_tx env did uid signature perTicket events d = Inl err)
    \<and> (\<exists>err. free_ticket_tx env did uid digits d = Inl err)
    \<and> (case buy_tx env json did uid picks charge key d of
         Inl _ \<Rightarrow> True
       | Inr (out, d') \<Rightarrow> (\<exists>s. out = Replayed_purchase s) \<and> same_money d d' \<and> lotteryTickets d' = lotteryTickets d)"
proof -
  have fails: "\<exists>err. y = Inl err" if "\<And>x. y \<noteq> Inr x" for y :: "'x result" using that by (cases y) auto
  have "confirm_tx env did uid signature perTicket events d \<noteq> Inr x" for x
    using still_open_over[OF assms create_tickets_frame] by (auto simp: confirm_tx_def)
  then have "\<exists>err. confirm_tx env did uid signature perTicket events d = Inl err" by (rule fails)
  moreover have "free_ticket_tx env did uid digits d \<noteq> Inr x" for x
  proof
    assume a: "free_ticket_tx env did uid digits d = Inr x"
    obtain n d1 where sp: "spend_free_ticket uid d = (n, d1)" by fastforce
    then obtain dto d2 where c: "create_ticket ((new_ticket (env_now (en_play env)) did uid digits 0 0)\<lparr>lt_free := True\<rparr>) d1 = Inr (dto, d2)"
      and o: "\<exists>d3. assertDrawStillOpen did d2 = Inr d3" using a by (auto simp: free_ticket_tx_def)
    have "lotteryDraws d2 = lotteryDraws d" using create_ticket_frame[OF c] spend_frame[of uid d] sp by simp
    then show False using still_open_over[OF assms] o by auto
  qed
  then have "\<exists>err. free_ticket_tx env did uid digits d = Inl err" by (rule fails)
  moreover have "(\<exists>s. out = Replayed_purchase s) \<and> same_money d d' \<and> lotteryTickets d' = lotteryTickets d"
    if "buy_tx env json did uid picks charge key d = Inr (out, d')" for out d'
    using that
  proof (cases rule: buy_tx_cases)
    case (Fresh rows r reply) then show ?thesis using assms by (simp add: draw_over_def)
  qed simp
  ultimately show ?thesis by (simp split: sum.splits)
qed

theorem drawn_draw_sells_nothing_witness:
  "\<exists>sl d1 err. settle_draw_tx lottery_env0 7 open_draw7 entropy7 lottery_db = Inr (sl, d1)
     \<and> free_ticket_tx lottery_env0 7 1 [1, 2, 3, 4, 5, 6] d1 = Inl err"
proof -
  obtain sl d1 where s: "settle_draw_tx lottery_env0 7 open_draw7 entropy7 lottery_db = Inr (sl, d1)" using draw7_settles by blast
  then have "draw_over 7 d1" by (rule settle_draw_cases) (simp add: draw_over_def)
  from drawn_draw_sells_nothing[OF this] show ?thesis using s by blast
qed

subsection \<open>Free tickets are earned\<close>

text \<open>The free tickets that a list of requests gets, in their order.\<close>

fun free_tickets :: "nat \<Rightarrow> (lottery_env \<times> nat \<times> int list) list \<Rightarrow> db \<Rightarrow> nat \<times> db" where
  "free_tickets uid [] d = (0, d)"
| "free_tickets uid ((env, did, digits) # rs) d = (case free_ticket_tx env did uid digits d of
      Inl _ \<Rightarrow> free_tickets uid rs d
    | Inr (_, d1) \<Rightarrow> (case free_tickets uid rs d1 of (n, d2) \<Rightarrow> (Suc n, d2)))"

lemma free_ticket_tx_spec:
  assumes "free_ticket_tx env did uid digits d = Inr (dto, d')" and "map_of (users d) uid = Some u"
  shows "map_of (users d') uid = Some (u\<lparr>freeTicketBaselineWagered := freeTicketBaselineWagered u + FREE_TICKET_PER_WAGER_LAMPORTS\<rparr>)
    \<and> FREE_TICKET_PER_WAGER_LAMPORTS \<le> totalWagered u - freeTicketBaselineWagered u \<and> posts [] d d'"
proof -
  obtain n d1 where sp: "spend_free_ticket uid d = (n, d1)" by fastforce
  then obtain d2 where c: "create_ticket ((new_ticket (env_now (en_play env)) did uid digits 0 0)\<lparr>lt_free := True\<rparr>) d1 = Inr (dto, d2)"
    and o: "assertDrawStillOpen did d2 = Inr d'" and n: "n \<noteq> 0" using assms(1) by (auto simp: free_ticket_tx_def guardE_def split: if_splits)
  have le: "FREE_TICKET_PER_WAGER_LAMPORTS \<le> totalWagered u - freeTicketBaselineWagered u"
    and d1: "d1 = d\<lparr>users := AList.update uid (u\<lparr>freeTicketBaselineWagered := freeTicketBaselineWagered u + FREE_TICKET_PER_WAGER_LAMPORTS\<rparr>) (users d)\<rparr>"
    using sp n assms(2) by (auto simp: spend_free_ticket_def split: if_splits)
  have d2: "users d2 = users d1" "ledger d2 = ledger d1" using c by (auto simp: create_ticket_def Let_def split: if_splits prod.splits)
  have d': "users d' = users d2" "ledger d' = ledger d2" using o unfolding assertDrawStillOpen_Inr by auto
  have "executeUser uid (\<lambda>u. u\<lparr>freeTicketBaselineWagered := freeTicketBaselineWagered u + FREE_TICKET_PER_WAGER_LAMPORTS\<rparr>) d = d1"
    using assms(2) by (simp add: executeUser_def d1)
  moreover have "keeps_balance (\<lambda>u. u\<lparr>freeTicketBaselineWagered := freeTicketBaselineWagered u + FREE_TICKET_PER_WAGER_LAMPORTS\<rparr>)"
    by (rule keeps_balanceI) simp_all
  ultimately have "same_money d d1" using executeUser_same by blast
  moreover have "same_money d1 d'" by (rule same_moneyI) (simp_all add: d2 d')
  ultimately show ?thesis using le by (auto simp: posts_Nil d1 d2 d' intro: same_money_trans)
qed

text \<open>
  Free tickets are earned. Of any requests for free tickets at most as many succeed as \<open>freeTicketStatus\<close> says are available: one per whole SOL
  that was wagered since the watermark. They move no money, and the watermark never passes what was wagered.
\<close>

theorem free_tickets_earned:
  assumes "map_of (users d) uid = Some u" and "freeTicketBaselineWagered u \<le> totalWagered u" and "free_tickets uid rs d = (n, d')"
  shows "\<exists>s u'. freeTicketStatus uid d = Inr s \<and> int n \<le> fs_available s \<and> fs_available s * LAMPORTS_PER_SOL \<le> totalWagered u - freeTicketBaselineWagered u
    \<and> posts [] d d' \<and> map_of (users d') uid = Some u' \<and> freeTicketBaselineWagered u' = freeTicketBaselineWagered u + int n * LAMPORTS_PER_SOL
    \<and> freeTicketBaselineWagered u' \<le> totalWagered u' \<and> totalWagered u' = totalWagered u"
proof -
  have spent: "\<exists>u'. map_of (users d') uid = Some u' \<and> freeTicketBaselineWagered u' = freeTicketBaselineWagered u + int n * LAMPORTS_PER_SOL
      \<and> freeTicketBaselineWagered u' \<le> totalWagered u' \<and> totalWagered u' = totalWagered u \<and> posts [] d d'"
    using assms
  proof (induction rs arbitrary: d u n)
    case (Cons r rs)
    obtain env did digits where r: "r = (env, did, digits)" by (cases r)
    show ?case
    proof (cases "free_ticket_tx env did uid digits d")
      case (Inl err) then show ?thesis using Cons r by simp
    next
      case (Inr x)
      obtain dto d1 where x: "x = (dto, d1)" by (cases x)
      note S = free_ticket_tx_spec[OF Inr[unfolded x] Cons.prems(1)]
      obtain m where m: "free_tickets uid rs d1 = (m, d')" "n = Suc m" using Cons.prems(3) r Inr x by (auto split: prod.splits)
      from Cons.IH[OF conjunct1[OF S] _ m(1)] S obtain u' where "map_of (users d') uid = Some u'"
        "freeTicketBaselineWagered u' = freeTicketBaselineWagered u + FREE_TICKET_PER_WAGER_LAMPORTS + int m * LAMPORTS_PER_SOL"
        "freeTicketBaselineWagered u' \<le> totalWagered u'" "totalWagered u' = totalWagered u" "posts [] d1 d'" by auto
      then show ?thesis using S m(2) posts_trans[of "[]" d d1 "[]" d'] by (auto simp: FREE_TICKET_PER_WAGER_LAMPORTS_def algebra_simps)
    qed
  qed simp
  define spare where "spare = totalWagered u - freeTicketBaselineWagered u"
  have p: "0 < LAMPORTS_PER_SOL" "0 \<le> spare" using assms(2) by (simp_all add: LAMPORTS_PER_SOL_def spare_def)
  have st: "freeTicketStatus uid d = Inr \<lparr>fs_available = spare div LAMPORTS_PER_SOL, fs_progressLamports = spare - spare div LAMPORTS_PER_SOL * LAMPORTS_PER_SOL,
      fs_perWagerLamports = LAMPORTS_PER_SOL\<rparr>"
    using assms(1) p by (simp add: freeTicketStatus_def Let_def FREE_TICKET_PER_WAGER_LAMPORTS_def spare_def[symmetric] bigint_div_nonneg pos_imp_zdiv_nonneg_iff)
  have "int n * LAMPORTS_PER_SOL \<le> spare" using spent by (auto simp: spare_def)
  then have "int n \<le> spare div LAMPORTS_PER_SOL" using p zdiv_mono1[of "int n * LAMPORTS_PER_SOL" spare LAMPORTS_PER_SOL] by simp
  moreover have "spare div LAMPORTS_PER_SOL * LAMPORTS_PER_SOL \<le> spare" using p by (intro div_times_le)
  ultimately show ?thesis using spent by (intro exI[of _ "\<lparr>fs_available = spare div LAMPORTS_PER_SOL, fs_progressLamports = spare - spare div LAMPORTS_PER_SOL * LAMPORTS_PER_SOL,
      fs_perWagerLamports = LAMPORTS_PER_SOL\<rparr>"]) (auto simp: st spare_def)
qed

theorem free_tickets_earned_witness:
  "fst (free_tickets 1 (replicate 3 (lottery_env0, 7, [1, 2, 3, 4, 5, 6])) (lottery_db\<lparr>users := [(1, new_user\<lparr>totalWagered := 2500000000\<rparr>)]\<rparr>)) \<le> 2"
proof -
  let ?d = "lottery_db\<lparr>users := [(1, new_user\<lparr>totalWagered := 2500000000\<rparr>)]\<rparr>"
  obtain n d' where f: "free_tickets 1 (replicate 3 (lottery_env0, 7, [1, 2, 3, 4, 5, 6])) ?d = (n, d')" by fastforce
  have "map_of (users ?d) 1 = Some (new_user\<lparr>totalWagered := 2500000000\<rparr>)" by simp
  from free_tickets_earned[OF this _ f] f show ?thesis by (auto simp: LAMPORTS_PER_SOL_def)
qed

text \<open>Two tickets for a player who may wager.\<close>

definition lottery_engine7 :: lottery_engine where
  "lottery_engine7 = new_lottery_engine\<lparr>lk_current := open_draw7\<lparr>cd_drawAt := 10 ^ 15\<rparr>\<rparr>"


definition charge2 :: batch_charge where
  "charge2 = \<lparr>bc_perTicketScad = 9995000000, bc_perTicketLamports = 6663333, bc_debitScad = 19990000000, bc_debitLamports = 13326666\<rparr>"

lemma charge2_charged: "batchCharge 10000000000 2 = Inr charge2" by code_simp

lemma buy_checks2: "buy_checks lottery_env0 1 [[1, 2, 3, 4, 5, 6], [0, 0, 0, 0, 0, 0]] lottery_engine7 lottery_db = Inr (7, charge2)"
proof -
  have "assertCanWager (env_wager offline_env) 1 (bc_debitLamports charge2) lottery_db = Inr ()"
    by (simp add: assertCanWager_def offline_env_def lottery_db_def charge2_def)
  moreover have "open_draw_for lottery_env0 m lottery_engine7 = Inr (Some 7, 0)" for m
    by (simp add: open_draw_for_def getOpenDraw_def lottery_engine7_def new_lottery_engine_def open_draw7_def placeholderDraw_def lottery_env0_def offline_env_def)
  moreover have "active_user 1 lottery_db = Inr new_user" by (simp add: active_user_def lottery_db_def)
  moreover have "cd_ticketPriceScadBase (lk_current lottery_engine7) = 10000000000" by (simp add: lottery_engine7_def new_lottery_engine_def open_draw7_def)
  ultimately show ?thesis
    using charge2_charged by (simp add: buy_checks_def Let_def guardE_def validateDigits_def LOTTERY_DIGITS_def MAX_TICKETS_PER_PURCHASE_def needs_id_def lottery_env0_def numeral_2_eq_2)
qed

lemma buys2: "\<exists>reply d'. buy_tx lottery_env0 (\<lambda>_. ''{}'') 7 1 [[1, 2, 3, 4, 5, 6], [0, 0, 0, 0, 0, 0]] charge2 None lottery_db = Inr (Fresh_purchase reply, d')"
proof -
  obtain b d1 where a: "applyBalanceDelta 1 (- bc_debitLamports charge2) ((jeton_meta ''lottery_ticket'' ''LotteryDraw'')\<lparr>refId := Some 7\<rparr>) lottery_db = Inr (b, d1)"
    using debit_ok[of lottery_db 1 new_user "(jeton_meta ''lottery_ticket'' ''LotteryDraw'')\<lparr>refId := Some 7\<rparr>" "bc_debitLamports charge2"]
    by (auto simp: lottery_db_def charge2_def)
  have "map_of (lotteryDraws d1) 7 \<noteq> None" "\<forall>r. map_of (lotteryDraws d1) 7 = Some r \<longrightarrow> ld_status r = DrawOpen"
    using applyBalanceDelta_frame[OF a] by (simp_all add: lottery_db_def)
  then show ?thesis using a
    by (auto simp: buy_tx_def claimIdempotency_def storeIdempotency_def has_key_def assertPooledEntry_def lottery_env0_def offline_env_def Let_def
        create_ticket_def insert_row_def new_ticket_def assertDrawStillOpen_def update_open_draw_def guardE_def)
qed

theorem tickets_bought_witness:
  "\<exists>reply d'. buy_tx lottery_env0 (\<lambda>_. ''{}'') 7 1 [[1, 2, 3, 4, 5, 6], [0, 0, 0, 0, 0, 0]] charge2 None lottery_db = Inr (Fresh_purchase reply, d')
     \<and> (\<exists>x. posts [(1, Jeton, - x)] lottery_db d')"
proof -
  obtain reply d' where b: "buy_tx lottery_env0 (\<lambda>_. ''{}'') 7 1 [[1, 2, 3, 4, 5, 6], [0, 0, 0, 0, 0, 0]] charge2 None lottery_db = Inr (Fresh_purchase reply, d')"
    using buys2 by blast
  have "0 \<le> cd_ticketPriceScadBase (lk_current lottery_engine7)" by (simp add: lottery_engine7_def new_lottery_engine_def open_draw7_def)
  from tickets_bought[OF buy_checks2 b this] show ?thesis using b by blast
qed

end
