(* ===== verification/Crash.thy ===== *)
theory Crash
  imports Round_Loop Progress
begin

text \<open>
  Crash: \<open>apps/api/src/games/crash/crash.engine.ts\<close>. The engine keeps the round, its bets and the queue of the next round in
  memory; the rows of the bets in the database are what a restart recovers from. What is synchronous in the source is one
  function here, and every transaction is one. The steps of the loop run without a reset of the timers in between; the requests of the
  players run between them. What the chain answers is part of the environment; broadcasts, receipts and the mirror in Redis are not modelled.
\<close>

definition CRASH_MIN_BET_LAMPORTS :: int where "CRASH_MIN_BET_LAMPORTS = 1000000"
definition CRASH_MAX_BET_LAMPORTS :: int where "CRASH_MAX_BET_LAMPORTS = 100 * LAMPORTS_PER_SOL"
definition MIN_CASHOUT_MULTIPLIER :: rat where "MIN_CASHOUT_MULTIPLIER = fl (101 / 100)"
definition MAX_CASHOUT_MULTIPLIER :: rat where "MAX_CASHOUT_MULTIPLIER = 1000000"
definition BET_WINDOW_MS :: int where "BET_WINDOW_MS = 15000"
definition TICK_RATE_HZ :: int where "TICK_RATE_HZ = 20"
definition CRASH_ENTROPY_SLOT_DELTA :: int where "CRASH_ENTROPY_SLOT_DELTA = 35"
definition HISTORY_SIZE :: nat where "HISTORY_SIZE = 50"

subsection \<open>The engine in memory\<close>

record live_bet =
  lv_amountLamports :: int
  lv_originalAmountLamports :: int
  lv_payoutLamports :: int
  lv_autoCashout :: "rat option"
  lv_cashedOutAt :: "rat option"

record crash_live =
  xc_id :: "nat option"
  xc_seedId :: nat
  xc_serverSeed :: string
  xc_serverSeedHash :: string
  xc_clientSeed :: string
  xc_nonce :: nat
  xc_bustPoint :: rat
  xc_phase :: crash_status
  xc_startedAt :: "int option"
  xc_waitingStartedAt :: "int option"
  xc_bets :: "(nat, live_bet) table"
  xc_targetSlot :: "int option"
  xc_beaconRound :: "int option"
  xc_betsClosed :: bool
  xc_exposure :: "exposure_guard option"

record history_item =
  xh_roundId :: nat
  xh_bustPoint :: rat
  xh_serverSeed :: "string option"
  xh_serverSeedHash :: string
  xh_clientSeed :: string
  xh_nonce :: nat
  xh_beaconRound :: "int option"
  xh_slotHash :: "string option"

datatype crash_timer = Begin_run | Tick_run | Start_round | Resume_loop

text \<open>\<open>xe_gen\<close> is the generation of the timers, which every reset bumps.\<close>

record crash_engine =
  xe_current :: crash_live
  xe_history :: "history_item list"
  xe_nextRoundBets :: "(nat, scheduled_bet) table"
  xe_timers :: "crash_timer timers"
  xe_gen :: nat
  xe_lastProgressAt :: int
  xe_draining :: bool
  xe_currentEntropy :: "string option"

record crash_env = engine_env +
  cn_enabled :: bool
  cn_bankroll :: "int option"
  cn_entropyOn :: bool
  cn_currentSlot :: "int option"
  cn_slotHash :: "int \<Rightarrow> digest option"

abbreviation x_now :: "crash_env \<Rightarrow> int" where
  "x_now env \<equiv> env_now (en_play env)"

definition placeholder_crash :: crash_live where
  "placeholder_crash = \<lparr>xc_id = None, xc_seedId = 0, xc_serverSeed = '''', xc_serverSeedHash = '''', xc_clientSeed = '''', xc_nonce = 0,
     xc_bustPoint = 0, xc_phase = CrashWaiting, xc_startedAt = None, xc_waitingStartedAt = None, xc_bets = [], xc_targetSlot = None,
     xc_beaconRound = None, xc_betsClosed = False, xc_exposure = None\<rparr>"

definition new_crash_engine :: "int \<Rightarrow> crash_engine" where
  "new_crash_engine now = \<lparr>xe_current = placeholder_crash, xe_history = [], xe_nextRoundBets = [], xe_timers = [], xe_gen = 0,
     xe_lastProgressAt = now, xe_draining = False, xe_currentEntropy = None\<rparr>"

definition reset_timers :: "crash_engine \<Rightarrow> crash_engine" where
  "reset_timers e = e\<lparr>xe_timers := [], xe_gen := xe_gen e + 1\<rparr>"

text \<open>The multiplier at which a bet reaches the most it may win; \<open>None\<close> is infinity.\<close>

definition capMultiplier :: "live_bet \<Rightarrow> rat option" where
  "capMultiplier b =
     (if lv_amountLamports b \<le> 0 then None
      else let payoutRoom = lv_originalAmountLamports b + MAX_WIN_PER_BET_LAMPORTS - lv_payoutLamports b
           in Some (centi (js_floor (fl (of_int (bigint_div (payoutRoom * 100) (lv_amountLamports b)))))))"

subsection \<open>Requests of the players\<close>

definition placeBet :: "crash_env \<Rightarrow> nat option option \<Rightarrow> nat \<Rightarrow> int \<Rightarrow> rat option \<Rightarrow> crash_engine \<Rightarrow> crash_engine result" where
  "placeBet env roundId userId amount autoCashout e =
     (let c = xe_current e in
     bindE (guardE (\<not> xe_draining e) (Internal ''The server is restarting - betting resumes in a moment'')) (\<lambda>_.
     bindE (guardE (xc_phase c = CrashWaiting \<and> \<not> xc_betsClosed c) (Internal ''Betting window closed'')) (\<lambda>_.
     bindE (guardE (roundId = None \<or> roundId = Some (xc_id c)) (Internal ''Betting window closed'')) (\<lambda>_.
     bindE (guardE (map_of (xc_bets c) userId = None) (Internal ''You already have a bet in this round'')) (\<lambda>_.
     bindE (case xc_exposure c of
              None \<Rightarrow> Inr None
            | Some g \<Rightarrow>
                if cn_enabled env
                then let most = (case autoCashout of None \<Rightarrow> MAX_CASHOUT_MULTIPLIER | Some a \<Rightarrow> a);
                         (ok, g1) = reserve (potential amount most) g
                     in if ok then Inr (Some g1) else Inl (Internal ''Round exposure limit reached'')
                else Inr (Some g)) (\<lambda>exposure.
       let bet = \<lparr>lv_amountLamports = amount, lv_originalAmountLamports = amount, lv_payoutLamports = 0, lv_autoCashout = autoCashout, lv_cashedOutAt = None\<rparr>
       in Inr (e\<lparr>xe_current := c\<lparr>xc_exposure := exposure, xc_bets := AList.update userId bet (xc_bets c)\<rparr>\<rparr>)))))))"

definition scheduleBet :: "nat \<Rightarrow> int \<Rightarrow> rat option \<Rightarrow> crash_engine \<Rightarrow> crash_engine result" where
  "scheduleBet userId amount autoCashout e =
     bindE (guardE (\<not> xe_draining e) (Internal ''The server is restarting - betting resumes in a moment'')) (\<lambda>_.
     bindE (guardE (map_of (xe_nextRoundBets e) userId = None) (Internal ''You already have a bet scheduled for the next round'')) (\<lambda>_.
       Inr (e\<lparr>xe_nextRoundBets := AList.update userId \<lparr>xs_amountLamports = amount, xs_autoCashoutMultiplier = autoCashout\<rparr> (xe_nextRoundBets e)\<rparr>)))"

definition cancelScheduled :: "nat \<Rightarrow> crash_engine \<Rightarrow> (int \<times> crash_engine) result" where
  "cancelScheduled userId e = (case map_of (xe_nextRoundBets e) userId of
      None \<Rightarrow> Inl (Internal ''No scheduled bet to cancel'')
    | Some q \<Rightarrow> Inr (xs_amountLamports q, e\<lparr>xe_nextRoundBets := AList.delete userId (xe_nextRoundBets e)\<rparr>))"

text \<open>\<open>1.00024 ** dt\<close> is a parameter; the result is not below 1 before the start of the round either.\<close>

definition currentMultiplier :: "crash_env \<Rightarrow> crash_live \<Rightarrow> rat" where
  "currentMultiplier env c = (case xc_startedAt c of
      Some t \<Rightarrow> if xc_phase c = CrashRunning
        then (if x_now env \<le> t then 1 else to_fixed2 (max 1 (env_powi (en_play env) (fl (100024 / 100000)) (nat (x_now env - t)))))
        else 1
    | None \<Rightarrow> 1)"

record cash_reply =
  ca_payoutLamports :: int
  ca_multiplier :: rat
  ca_remainingLamports :: int

definition round_payout_at :: "int \<Rightarrow> rat \<Rightarrow> int" where
  "round_payout_at portion m = bigint_div (portion * js_round (fl (m * 100))) 100"

text \<open>The part of a cash-out that is done in memory, before the row of the bet is written.\<close>

definition cash_out_mem :: "crash_env \<Rightarrow> nat \<Rightarrow> rat \<Rightarrow> rat option \<Rightarrow> crash_engine \<Rightarrow> (cash_reply \<times> crash_engine) result" where
  "cash_out_mem env userId percent atMultiplier e =
     (let c = xe_current e; pct = min 100 (max 1 (js_floor percent)); live = currentMultiplier env c in
     bindE (guardE (xc_phase c = CrashRunning) (Internal ''Cash out only allowed while running'')) (\<lambda>_.
     (case map_of (xc_bets c) userId of
        None \<Rightarrow> Inl (Internal ''No bet to cash out'')
      | Some b \<Rightarrow>
         bindE (guardE (lv_cashedOutAt b = None \<and> lv_amountLamports b \<noteq> 0) (Internal ''Already cashed out'')) (\<lambda>_.
         bindE (guardE (atMultiplier \<noteq> None \<or> live < xc_bustPoint c) (Internal ''Too late - round already busting'')) (\<lambda>_.
           let m = (case atMultiplier of Some x \<Rightarrow> x | None \<Rightarrow> live);
               portion = (if pct \<ge> 100 then lv_amountLamports b else bigint_div (lv_amountLamports b * pct) 100) in
         bindE (guardE (portion > 0) (Internal ''Position too small to split'')) (\<lambda>_.
           let raw = round_payout_at portion m;
               payoutRoom = lv_originalAmountLamports b + MAX_WIN_PER_BET_LAMPORTS - lv_payoutLamports b;
               payout = (if raw > payoutRoom then (if payoutRoom > 0 then payoutRoom else 0) else raw);
               left = lv_amountLamports b - portion;
               b1 = b\<lparr>lv_amountLamports := left, lv_payoutLamports := lv_payoutLamports b + payout,
                      lv_cashedOutAt := (if left = 0 then Some m else lv_cashedOutAt b)\<rparr>
           in Inr (\<lparr>ca_payoutLamports = payout, ca_multiplier = m, ca_remainingLamports = left\<rparr>,
                   e\<lparr>xe_current := c\<lparr>xc_bets := AList.update userId b1 (xc_bets c)\<rparr>\<rparr>)))))))"

definition cash_out_row :: "nat option \<Rightarrow> nat \<Rightarrow> rat \<Rightarrow> live_bet \<Rightarrow> db \<Rightarrow> db result" where
  "cash_out_row roundId userId m b d = (case roundId of
      None \<Rightarrow> Inl (Internal ''invalid uuid'')
    | Some rid \<Rightarrow> (case map_of (crashBets d) (rid, userId) of
        None \<Rightarrow> Inl (Internal ''P2025'')
      | Some r \<Rightarrow> Inr (d\<lparr>crashBets := AList.update (rid, userId)
          (r\<lparr>xb_remainingLamports := lv_amountLamports b, xb_payoutLamports := lv_payoutLamports b,
             xb_cashoutMultiplier := Some (case lv_cashedOutAt b of Some x \<Rightarrow> x | None \<Rightarrow> m)\<rparr>) (crashBets d)\<rparr>)))"

definition cashOut :: "crash_env \<Rightarrow> nat \<Rightarrow> rat \<Rightarrow> rat option \<Rightarrow> crash_engine \<Rightarrow> db \<Rightarrow> cash_reply result \<times> crash_engine \<times> db" where
  "cashOut env userId percent atMultiplier e d = (case cash_out_mem env userId percent atMultiplier e of
      Inl err \<Rightarrow> (Inl err, e, d)
    | Inr (reply, e1) \<Rightarrow> (case map_of (xc_bets (xe_current e1)) userId of
          None \<Rightarrow> (Inl (Internal ''unreachable''), e1, d)
        | Some b \<Rightarrow> (case cash_out_row (xc_id (xe_current e1)) userId (ca_multiplier reply) b d of
            Inl err \<Rightarrow> (Inl err, e1, d)
          | Inr d1 \<Rightarrow> (Inr reply, e1, d1))))"


subsection \<open>Settlement\<close>

definition live_status :: "crash_status \<Rightarrow> bool" where
  "live_status s \<longleftrightarrow> s = CrashWaiting \<or> s = CrashRunning"

definition update_live_round :: "nat \<Rightarrow> (crash_round \<Rightarrow> crash_round) \<Rightarrow> db \<Rightarrow> nat \<times> db" where
  "update_live_round rid f d = (case map_of (crashRounds d) rid of
      None \<Rightarrow> (0, d)
    | Some r \<Rightarrow> if live_status (xr_status r) then (1, d\<lparr>crashRounds := AList.update rid (f r) (crashRounds d)\<rparr>) else (0, d))"

definition claim_crash :: "nat \<Rightarrow> (crash_round \<Rightarrow> crash_round) \<Rightarrow> db \<Rightarrow> db result" where
  "claim_crash rid f d = (let (n, d1) = update_live_round rid f d in bindE (assertRoundClaimed n ''crash'') (\<lambda>_. Inr d1))"

definition settled_row :: "live_bet \<Rightarrow> crash_bet option \<Rightarrow> crash_bet" where
  "settled_row b old = (case old of
      Some r \<Rightarrow> r\<lparr>xb_cashoutMultiplier := lv_cashedOutAt b, xb_payoutLamports := lv_payoutLamports b, xb_remainingLamports := 0, xb_won := lv_payoutLamports b > 0\<rparr>
    | None \<Rightarrow> \<lparr>xb_amountLamports = lv_originalAmountLamports b, xb_remainingLamports = 0, xb_autoCashoutMultiplier = lv_autoCashout b,
        xb_cashoutMultiplier = lv_cashedOutAt b, xb_payoutLamports = lv_payoutLamports b, xb_won = lv_payoutLamports b > 0\<rparr>)"

definition crash_bet_row :: "play_env \<Rightarrow> crash_live \<Rightarrow> nat \<Rightarrow> live_bet \<Rightarrow> bet" where
  "crash_bet_row env c uid b =
     (let stake = lv_originalAmountLamports b; payout = lv_payoutLamports b in
      \<lparr>b_userId = uid, b_gameType = Crash, b_amountLamports = stake, b_payoutLamports = payout,
       b_multiplier = Some (if stake > 0 \<and> payout > 0 then fl (fl (of_int payout) / fl (of_int stake))
                            else (case lv_cashedOutAt b of Some x \<Rightarrow> x | None \<Rightarrow> xc_bustPoint c)),
       b_status = (if payout > 0 then BetWon else BetLost), b_nonce = Some (xc_nonce c), b_seedId = Some (xc_seedId c), b_createdAt = env_now env\<rparr>)"

definition settle_bet :: "play_env \<Rightarrow> nat \<Rightarrow> crash_live \<Rightarrow> nat \<times> live_bet \<Rightarrow> db \<Rightarrow> db result" where
  "settle_bet env rid c = (\<lambda>(uid, b) d.
     let stake = lv_originalAmountLamports b; payout = lv_payoutLamports b; netProfit = payout - stake in
     bindE (updateUser uid (bump_stats stake netProfit) d) (\<lambda>d1.
       let d3 = snd (accrue (env_now env) uid stake (executeUser uid (raise_biggest netProfit) d1)) in
     bindE (if payout > 0 then applyBalanceDelta uid payout ((jeton_meta ''crash_settle'' ''Bet'')\<lparr>refId := Some (length (bets d3))\<rparr>) d3 else Inr (0, d3)) (\<lambda>(_, d4).
       let d5 = d4\<lparr>crashBets := AList.update (rid, uid) (settled_row b (map_of (crashBets d4) (rid, uid))) (crashBets d4)\<rparr>
       in Inr (snd (create_bet (crash_bet_row env c uid b) d5)))))"

fun settle_bets :: "play_env \<Rightarrow> nat \<Rightarrow> crash_live \<Rightarrow> (nat \<times> live_bet) list \<Rightarrow> db \<Rightarrow> db result" where
  "settle_bets env rid c [] d = Inr d"
| "settle_bets env rid c (b # bs) d = bindE (settle_bet env rid c b d) (settle_bets env rid c bs)"

definition settleOnce :: "crash_env \<Rightarrow> nat \<Rightarrow> crash_live \<Rightarrow> db \<Rightarrow> db result" where
  "settleOnce env rid c d =
     bindE (assertStillLeader (en_leader env) ''crash'') (\<lambda>_.
     bindE (claim_crash rid (\<lambda>r. r\<lparr>xr_status := CrashBusted, xr_bustMultiplier := Some (xc_bustPoint c), xr_endedAt := Some (x_now env)\<rparr>) d) (\<lambda>d1.
     bindE (settle_bets (en_play env) rid c (xc_bets c) d1) (\<lambda>d2. reveal_seed (x_now env) (xc_seedId c) d2)))"

datatype settle_outcome = Settled | Claim_lost | Settle_failed

fun settle_attempts :: "crash_env \<Rightarrow> nat \<Rightarrow> crash_live \<Rightarrow> attempt_fault list \<Rightarrow> db \<Rightarrow> settle_outcome \<times> db" where
  "settle_attempts env rid c [] d = (Settle_failed, d)"
| "settle_attempts env rid c (f # fs) d = (case attempt f (settleOnce env rid c) d of
      (Inr _, d1) \<Rightarrow> (Settled, d1)
    | (Inl (SettleClaimLost _), d1) \<Rightarrow> (Claim_lost, d1)
    | (Inl _, d1) \<Rightarrow> settle_attempts env rid c fs d1)"

definition settle_crash :: "crash_env \<Rightarrow> attempt_fault list \<Rightarrow> nat \<Rightarrow> crash_live \<Rightarrow> db \<Rightarrow> settle_outcome \<times> db" where
  "settle_crash env faults rid c d =
     (case settle_attempts env rid c (take (settleRetryAttempts (en_tuning env)) faults) d of
        (Settle_failed, d1) \<Rightarrow> (Settle_failed, recordFailure ''crash'' (Some rid) d1)
      | (out, d1) \<Rightarrow> (out, d1))"

subsection \<open>Recovery\<close>

definition recovered_bet_row :: "play_env \<Rightarrow> nat \<Rightarrow> nat \<Rightarrow> crash_bet \<Rightarrow> bet" where
  "recovered_bet_row env seedId uid r =
     (let stake = xb_amountLamports r; credit = xb_payoutLamports r + xb_remainingLamports r in
      \<lparr>b_userId = uid, b_gameType = Crash, b_amountLamports = stake, b_payoutLamports = credit,
       b_multiplier = (if stake > 0 \<and> credit > 0 then Some (fl (fl (of_int credit) / fl (of_int stake))) else None),
       b_status = (if xb_payoutLamports r > 0 then BetWon else BetLost), b_nonce = Some 0, b_seedId = Some seedId, b_createdAt = env_now env\<rparr>)"

definition recover_bet :: "play_env \<Rightarrow> nat \<Rightarrow> nat \<Rightarrow> nat \<times> crash_bet \<Rightarrow> db \<Rightarrow> db result" where
  "recover_bet env rid seedId = (\<lambda>(uid, r) d.
     let payout = xb_payoutLamports r; credit = payout + xb_remainingLamports r; stake = xb_amountLamports r in
     bindE (if credit > 0 then applyBalanceDelta uid credit ((jeton_meta ''crash_recovery_refund'' ''CrashRound'')\<lparr>refId := Some rid\<rparr>) d else Inr (0, d)) (\<lambda>(_, d1).
     (case map_of (crashBets d1) (rid, uid) of
        None \<Rightarrow> Inl (Internal ''P2025'')
      | Some old \<Rightarrow>
          let d2 = d1\<lparr>crashBets := AList.update (rid, uid) (old\<lparr>xb_payoutLamports := payout, xb_remainingLamports := 0, xb_won := payout > 0\<rparr>) (crashBets d1)\<rparr> in
     bindE (updateUser uid (bump_stats stake (credit - stake)) d2) (\<lambda>d3.
       let d4 = snd (accrue (env_now env) uid stake (executeUser uid (raise_biggest (credit - stake)) d3))
       in Inr (snd (create_bet (recovered_bet_row env seedId uid r) d4))))))"

fun recover_bets :: "play_env \<Rightarrow> nat \<Rightarrow> nat \<Rightarrow> (nat \<times> crash_bet) list \<Rightarrow> db \<Rightarrow> db result" where
  "recover_bets env rid seedId [] d = Inr d"
| "recover_bets env rid seedId (r # rs) d = bindE (recover_bet env rid seedId r d) (recover_bets env rid seedId rs)"

text \<open>The rows of a round, which recovery reads before its transaction.\<close>

definition rows_of :: "nat \<Rightarrow> db \<Rightarrow> (nat \<times> crash_bet) list" where
  "rows_of rid d = map (\<lambda>((_, uid), r). (uid, r)) (filter (\<lambda>((q, _), _). q = rid) (crashBets d))"

definition recover_tx :: "crash_env \<Rightarrow> nat \<Rightarrow> nat \<Rightarrow> (nat \<times> crash_bet) list \<Rightarrow> db \<Rightarrow> db result" where
  "recover_tx env rid seedId rows d =
     bindE (claim_crash rid (\<lambda>r. r\<lparr>xr_status := CrashBusted, xr_endedAt := Some (x_now env)\<rparr>) d) (\<lambda>d1.
     bindE (recover_bets (en_play env) rid seedId rows d1) (\<lambda>d2. reveal_seed (x_now env) seedId d2))"

definition stranded_crashes :: "db \<Rightarrow> (nat \<times> nat) list" where
  "stranded_crashes d = map (\<lambda>(rid, r). (rid, xr_seedId r)) (filter (\<lambda>(_, r). live_status (xr_status r)) (crashRounds d))"

fun recover_rounds :: "crash_env \<Rightarrow> (nat \<times> nat) list \<Rightarrow> db \<Rightarrow> db" where
  "recover_rounds env [] d = d"
| "recover_rounds env ((rid, seedId) # rs) d = (case recover_tx env rid seedId (rows_of rid d) d of
      Inr d1 \<Rightarrow> recover_rounds env rs d1
    | Inl (SettleClaimLost _) \<Rightarrow> recover_rounds env rs d
    | Inl _ \<Rightarrow> recover_rounds env rs (recordFailure ''crash'' (Some rid) d))"

definition recover_crashes :: "crash_env \<Rightarrow> db \<Rightarrow> db" where
  "recover_crashes env d = recover_rounds env (stranded_crashes d) d"

text \<open>The refund of a scheduled bet; a failure is recorded under the id of its row, which the model does not have.\<close>

definition refund_scheduled :: "nat \<Rightarrow> int \<Rightarrow> db \<Rightarrow> db result" where
  "refund_scheduled uid amount d =
     bindE (if amount > 0 then applyBalanceDelta uid amount (jeton_meta ''crash_scheduled_refund'' ''CrashRound'') d else Inr (0, d)) (\<lambda>(_, d1).
     (case map_of (scheduledCrashBets d1) uid of
        None \<Rightarrow> Inl (Internal ''P2025'')
      | Some _ \<Rightarrow> Inr (d1\<lparr>scheduledCrashBets := AList.delete uid (scheduledCrashBets d1)\<rparr>)))"

fun refund_each :: "(nat \<times> scheduled_bet) list \<Rightarrow> db \<Rightarrow> db" where
  "refund_each [] d = d"
| "refund_each ((uid, s) # ss) d = (case refund_scheduled uid (xs_amountLamports s) d of
      Inl _ \<Rightarrow> refund_each ss (recordFailure ''crash'' None d)
    | Inr d1 \<Rightarrow> refund_each ss d1)"

definition recoverScheduledBets :: "db \<Rightarrow> db" where
  "recoverScheduledBets d = refund_each (scheduledCrashBets d) d"


subsection \<open>Opening a round\<close>

text \<open>What fixes the bust point: the server seed, folded with the on-chain entropy when there is one.\<close>

definition bust_seed :: "crash_env \<Rightarrow> string \<Rightarrow> string \<Rightarrow> (string \<times> bool) result" where
  "bust_seed env serverSeed clientSeed = (case env_chain (en_play env) of
      None \<Rightarrow> Inr (serverSeed, False)
    | Some roundEntropy \<Rightarrow>
        (case roundEntropy \<lparr>ctx_serverSeed = serverSeed, ctx_serverSeedHash = commitServerSeed (env_sha (en_play env)) serverSeed,
                 ctx_clientSeed = clientSeed, ctx_nonce = 0\<rparr> of
            None \<Rightarrow> Inr (serverSeed, False)
          | Some entropy \<Rightarrow> bindE (deriveSeedContext (env_sha (en_play env)) (env_text (en_play env)) serverSeed clientSeed 0 (Some entropy) [])
              (\<lambda>s. Inr (sc_serverSeed s, True))))"

definition open_round :: "crash_env \<Rightarrow> string \<times> string \<Rightarrow> crash_engine \<Rightarrow> db \<Rightarrow> (crash_engine \<times> db) result" where
  "open_round env fresh e d =
     bindE (bust_seed env (fst fresh) (snd fresh)) (\<lambda>(bustSeed, rngAnchored).
       let (serverSeed, clientSeed) = fresh; now = x_now env;
           hash = commitServerSeed (env_sha (en_play env)) serverSeed;
           beaconRound = (if \<not> rngAnchored \<and> en_beacon env \<noteq> None then Some (beaconRoundAfter (now + BET_WINDOW_MS)) else None);
           entropyOn = (\<not> rngAnchored \<and> beaconRound = None \<and> cn_entropyOn env);
           targetSlot = (if entropyOn then Some ((case cn_currentSlot env of None \<Rightarrow> 0 | Some s \<Rightarrow> s) + CRASH_ENTROPY_SLOT_DELTA) else None);
           bustPoint = (if entropyOn \<or> beaconRound \<noteq> None then 0 else crashPoint (env_hmac (en_play env)) bustSeed clientSeed 0);
           (seedId, seedRows) = insert_row \<lparr>sd_serverSeed = serverSeed, sd_serverSeedHash = hash, sd_clientSeed = clientSeed, sd_nonce = 0, sd_revealedAt = None\<rparr> (seeds d);
           (rid, rows) = insert_row \<lparr>xr_seedId = seedId, xr_nonce = 0, xr_status = CrashWaiting, xr_bustMultiplier = None, xr_startedAt = None,
               xr_endedAt = None, xr_entropyStatus = (if entropyOn \<or> beaconRound \<noteq> None then Some ''entropy_requested'' else None),
               xr_targetSlot = targetSlot, xr_slotHash = None, xr_beaconRound = beaconRound\<rparr> (crashRounds d);
           exposure = (if cn_enabled env then map_option new_guard (cn_bankroll env) else None)
       in Inr (e\<lparr>xe_lastProgressAt := now, xe_currentEntropy := None, xe_current := \<lparr>xc_id = Some rid, xc_seedId = seedId, xc_serverSeed = serverSeed,
               xc_serverSeedHash = hash, xc_clientSeed = clientSeed, xc_nonce = 0, xc_bustPoint = bustPoint, xc_phase = CrashWaiting, xc_startedAt = None,
               xc_waitingStartedAt = Some now, xc_bets = [], xc_targetSlot = targetSlot, xc_beaconRound = beaconRound, xc_betsClosed = False,
               xc_exposure = exposure\<rparr>\<rparr>, d\<lparr>seeds := seedRows, crashRounds := rows\<rparr>))"

text \<open>The transaction that binds a scheduled bet to the round that has just opened.\<close>

definition drain_tx :: "crash_env \<Rightarrow> nat \<Rightarrow> nat \<Rightarrow> scheduled_bet \<Rightarrow> db \<Rightarrow> db result" where
  "drain_tx env rid uid q d =
     (if map_of (crashBets d) (rid, uid) \<noteq> None then Inl (Internal ''P2002'')
      else
        let row = \<lparr>xb_amountLamports = xs_amountLamports q, xb_remainingLamports = xs_amountLamports q,
                   xb_autoCashoutMultiplier = xs_autoCashoutMultiplier q, xb_cashoutMultiplier = None, xb_payoutLamports = 0, xb_won = False\<rparr>;
            d1 = d\<lparr>crashBets := AList.update (rid, uid) row (crashBets d)\<rparr>
        in (case map_of (scheduledCrashBets d1) uid of
              None \<Rightarrow> Inl (Internal ''P2025'')
            | Some _ \<Rightarrow> creditReferral (env_enforced (en_play env)) (x_now env) uid (xs_amountLamports q) Crash
                (d1\<lparr>scheduledCrashBets := AList.delete uid (scheduledCrashBets d1)\<rparr>)))"

definition drop_bet :: "nat \<Rightarrow> crash_engine \<Rightarrow> crash_engine" where
  "drop_bet uid e = e\<lparr>xe_current := (xe_current e)\<lparr>xc_bets := AList.delete uid (xc_bets (xe_current e))\<rparr>\<rparr>"

text \<open>One turn of the loop over the queue: whatever fails, the bet of that user in the current round is removed.\<close>

definition drain_one :: "crash_env \<Rightarrow> nat \<times> scheduled_bet \<Rightarrow> crash_engine \<Rightarrow> db \<Rightarrow> crash_engine \<times> db" where
  "drain_one env = (\<lambda>(uid, q) e d. case placeBet env None uid (xs_amountLamports q) (xs_autoCashoutMultiplier q) e of
      Inl _ \<Rightarrow> (drop_bet uid e, d)
    | Inr e1 \<Rightarrow> (case xc_id (xe_current e1) of
          None \<Rightarrow> (drop_bet uid e1, d)
        | Some rid \<Rightarrow> (case drain_tx env rid uid q d of
              Inl _ \<Rightarrow> (drop_bet uid e1, d)
            | Inr d1 \<Rightarrow> (e1, d1))))"

fun drain_queue :: "crash_env \<Rightarrow> (nat \<times> scheduled_bet) list \<Rightarrow> crash_engine \<Rightarrow> db \<Rightarrow> crash_engine \<times> db" where
  "drain_queue env [] e d = (e, d)"
| "drain_queue env (q # qs) e d = (case drain_one env q e d of (e1, d1) \<Rightarrow> drain_queue env qs e1 d1)"

definition startNewRound :: "crash_env \<Rightarrow> string \<times> string \<Rightarrow> crash_engine \<Rightarrow> db \<Rightarrow> (crash_engine \<times> db) result" where
  "startNewRound env fresh e d =
     (if \<not> en_leader env \<or> xe_draining e then Inr (e, d)
      else bindE (open_round env fresh e d) (\<lambda>(e1, d1).
        let (e2, d2) = drain_queue env (xe_nextRoundBets e1) e1 d1
        in Inr (e2\<lparr>xe_nextRoundBets := [], xe_timers := schedule Begin_run BET_WINDOW_MS (x_now env) (xe_timers e2)\<rparr>, d2)))"

definition resume :: "crash_env \<Rightarrow> string \<times> string \<Rightarrow> crash_engine \<Rightarrow> db \<Rightarrow> crash_engine \<times> db" where
  "resume env fresh e d =
     (if xe_draining e \<or> \<not> en_leader env then (e, d)
      else
        let e1 = (reset_timers e)\<lparr>xe_lastProgressAt := x_now env\<rparr>; d1 = recover_crashes env d in
        (case startNewRound env fresh e1 d1 of
           Inr r \<Rightarrow> r
         | Inl _ \<Rightarrow> (e1\<lparr>xe_timers := schedule Resume_loop (retryDelayMs (en_tuning env) 2) (x_now env) (xe_timers e1)\<rparr>, d1)))"

definition loadHistory :: "db \<Rightarrow> crash_engine \<Rightarrow> crash_engine" where
  "loadHistory d e = e\<lparr>xe_history := List.map_filter (\<lambda>(rid, r). case (map_of (seeds d) (xr_seedId r), xr_bustMultiplier r) of
       (Some s, Some b) \<Rightarrow> Some \<lparr>xh_roundId = rid, xh_bustPoint = b, xh_serverSeed = (if sd_revealedAt s = None then None else Some (sd_serverSeed s)),
          xh_serverSeedHash = sd_serverSeedHash s, xh_clientSeed = sd_clientSeed s, xh_nonce = xr_nonce r, xh_beaconRound = xr_beaconRound r, xh_slotHash = xr_slotHash r\<rparr>
     | _ \<Rightarrow> None)
     (take HISTORY_SIZE (sort_key (\<lambda>(_, r). - (case xr_endedAt r of None \<Rightarrow> 0 | Some t \<Rightarrow> t))
        (filter (\<lambda>(_, r). xr_status r = CrashBusted \<and> xr_bustMultiplier r \<noteq> None) (crashRounds d))))\<rparr>"

definition assumeLeadership :: "crash_env \<Rightarrow> string \<times> string \<Rightarrow> crash_engine \<Rightarrow> db \<Rightarrow> crash_engine \<times> db" where
  "assumeLeadership env fresh e d =
     (let e1 = (reset_timers e)\<lparr>xe_lastProgressAt := x_now env\<rparr>; d1 = recoverScheduledBets (recover_crashes env d) in
      (case startNewRound env fresh (loadHistory d1 e1) d1 of
         Inr r \<Rightarrow> r
       | Inl _ \<Rightarrow> resume env fresh (loadHistory d1 e1) d1))"

subsection \<open>Flying and busting\<close>

definition update_crash :: "crash_live \<Rightarrow> (crash_round \<Rightarrow> crash_round) \<Rightarrow> db \<Rightarrow> db result" where
  "update_crash c f d = (case xc_id c of
      None \<Rightarrow> Inl (Internal ''invalid uuid'')
    | Some rid \<Rightarrow> (case map_of (crashRounds d) rid of
        None \<Rightarrow> Inl (Internal ''P2025'')
      | Some r \<Rightarrow> Inr (d\<lparr>crashRounds := AList.update rid (f r) (crashRounds d)\<rparr>)))"

text \<open>
  The deferred bust point: from the beacon round, which may not be there yet (\<open>False\<close>), or from the pinned slot, or the
  synthetic slot hash when the chain does not have it.
\<close>

definition fulfillBeacon :: "crash_env \<Rightarrow> crash_engine \<Rightarrow> db \<Rightarrow> bool result \<times> crash_engine \<times> db" where
  "fulfillBeacon env e d =
     (let c = xe_current e in
      case (xc_beaconRound c, en_beacon env) of
        (Some n, Some randomness) \<Rightarrow> (case randomness n of
            None \<Rightarrow> (Inr False, e, d)
          | Some v \<Rightarrow> (case crashPointFromSlot (env_sha (en_play env)) (xc_serverSeed c) (xc_clientSeed c) (digest_bytes v) (xc_nonce c) of
              Inl err \<Rightarrow> (Inl err, e, d)
            | Inr b \<Rightarrow>
                let e1 = e\<lparr>xe_current := c\<lparr>xc_bustPoint := b\<rparr>, xe_currentEntropy := Some (digest_hex v)\<rparr> in
                (case update_crash c (\<lambda>r. r\<lparr>xr_slotHash := Some (digest_hex v), xr_entropyStatus := Some ''entropy_fulfilled''\<rparr>) d of
                   Inl err \<Rightarrow> (Inl err, e1, d)
                 | Inr d1 \<Rightarrow> (Inr True, e1, d1))))
      | _ \<Rightarrow> (Inr False, e, d))"

definition fulfillEntropy :: "crash_env \<Rightarrow> crash_engine \<Rightarrow> db \<Rightarrow> unit result \<times> crash_engine \<times> db" where
  "fulfillEntropy env e d =
     (let c = xe_current e; sha = env_sha (en_play env);
          slot = (case xc_targetSlot c of None \<Rightarrow> None | Some s \<Rightarrow> cn_slotHash env s);
          hash = (case slot of Some v \<Rightarrow> v | None \<Rightarrow> sha (utf8 (xc_serverSeed c @ '':'' @ xc_clientSeed c))) in
      (case crashPointFromSlot sha (xc_serverSeed c) (xc_clientSeed c) (digest_bytes hash) (xc_nonce c) of
         Inl err \<Rightarrow> (Inl err, e, d)
       | Inr b \<Rightarrow>
           let e1 = e\<lparr>xe_current := c\<lparr>xc_bustPoint := b\<rparr>\<rparr> in
           (case update_crash c (\<lambda>r. r\<lparr>xr_slotHash := Some (digest_hex hash), xr_entropyStatus := Some ''entropy_fulfilled''\<rparr>) d of
              Inl err \<Rightarrow> (Inl err, e1, d)
            | Inr d1 \<Rightarrow> (Inr (), e1, d1))))"

text \<open>A step that threw is resumed from by the guard of the loop.\<close>

definition guarded :: "crash_env \<Rightarrow> string \<times> string \<Rightarrow> unit result \<times> crash_engine \<times> db \<Rightarrow> crash_engine \<times> db" where
  "guarded env fresh = (\<lambda>(out, e, d). case out of Inl _ \<Rightarrow> resume env fresh e d | Inr _ \<Rightarrow> (e, d))"

definition run_now :: "crash_env \<Rightarrow> crash_engine \<Rightarrow> db \<Rightarrow> unit result \<times> crash_engine \<times> db" where
  "run_now env e d =
     (let now = x_now env; c = (xe_current e)\<lparr>xc_phase := CrashRunning, xc_startedAt := Some now\<rparr>;
          e1 = e\<lparr>xe_current := c, xe_lastProgressAt := now\<rparr> in
      (case update_crash c (\<lambda>r. r\<lparr>xr_status := CrashRunning, xr_startedAt := Some now\<rparr>) d of
         Inl err \<Rightarrow> (Inl err, e1, d)
       | Inr d1 \<Rightarrow> (Inr (), e1\<lparr>xe_timers := schedule Tick_run (1000 div TICK_RATE_HZ) now (xe_timers e1)\<rparr>, d1)))"

definition beginRun :: "crash_env \<Rightarrow> string \<times> string \<Rightarrow> crash_engine \<Rightarrow> db \<Rightarrow> unit result \<times> crash_engine \<times> db" where
  "beginRun env fresh e d =
     (if \<not> en_leader env then (Inr (), e, d)
      else
        let e1 = e\<lparr>xe_current := (xe_current e)\<lparr>xc_betsClosed := True\<rparr>\<rparr> in
        if xc_beaconRound (xe_current e1) \<noteq> None
        then (case fulfillBeacon env (e1\<lparr>xe_lastProgressAt := x_now env\<rparr>) d of
                (Inl err, e2, d2) \<Rightarrow> (Inl err, e2, d2)
              | (Inr False, e2, d2) \<Rightarrow> (Inr (), resume env fresh e2 d2)
              | (Inr True, e2, d2) \<Rightarrow> run_now env e2 d2)
        else if cn_entropyOn env
        then (case fulfillEntropy env e1 d of
                (Inl err, e2, d2) \<Rightarrow> (Inl err, e2, d2)
              | (Inr _, e2, d2) \<Rightarrow> run_now env e2 d2)
        else run_now env e1 d)"

definition auto_target :: "live_bet \<Rightarrow> rat option" where
  "auto_target b = (case (lv_autoCashout b, capMultiplier b) of
      (Some a, Some m) \<Rightarrow> Some (min a m) | (Some a, None) \<Rightarrow> Some a | (None, m) \<Rightarrow> m)"

definition auto_cash :: "crash_env \<Rightarrow> rat \<Rightarrow> nat \<Rightarrow> crash_engine \<Rightarrow> db \<Rightarrow> crash_engine \<times> db" where
  "auto_cash env m uid e d = (case map_of (xc_bets (xe_current e)) uid of
      None \<Rightarrow> (e, d)
    | Some b \<Rightarrow>
        if lv_cashedOutAt b \<noteq> None \<or> lv_amountLamports b \<le> 0 then (e, d)
        else (case auto_target b of
            None \<Rightarrow> (e, d)
          | Some target \<Rightarrow>
              if m \<ge> target \<and> target < xc_bustPoint (xe_current e) then snd (cashOut env uid 100 (Some target) e d) else (e, d)))"

fun auto_cash_all :: "crash_env \<Rightarrow> rat \<Rightarrow> nat list \<Rightarrow> crash_engine \<Rightarrow> db \<Rightarrow> crash_engine \<times> db" where
  "auto_cash_all env m [] e d = (e, d)"
| "auto_cash_all env m (u # us) e d = (case auto_cash env m u e d of (e1, d1) \<Rightarrow> auto_cash_all env m us e1 d1)"

definition runAutoCashouts :: "crash_env \<Rightarrow> rat \<Rightarrow> crash_engine \<Rightarrow> db \<Rightarrow> crash_engine \<times> db" where
  "runAutoCashouts env m e d = auto_cash_all env m (map fst (xc_bets (xe_current e))) e d"

definition bust :: "crash_env \<Rightarrow> attempt_fault list \<Rightarrow> string \<times> string \<Rightarrow> crash_engine \<Rightarrow> db \<Rightarrow> crash_engine \<times> db" where
  "bust env faults fresh e d =
     (if \<not> en_leader env then (e, d)
      else
        let c = (xe_current e)\<lparr>xc_phase := CrashBusted\<rparr>;
            item = \<lparr>xh_roundId = (case xc_id c of None \<Rightarrow> 0 | Some i \<Rightarrow> i), xh_bustPoint = xc_bustPoint c, xh_serverSeed = Some (xc_serverSeed c),
              xh_serverSeedHash = xc_serverSeedHash c, xh_clientSeed = xc_clientSeed c, xh_nonce = xc_nonce c, xh_beaconRound = xc_beaconRound c,
              xh_slotHash = xe_currentEntropy e\<rparr>;
            e1 = e\<lparr>xe_current := c, xe_lastProgressAt := x_now env, xe_history := take HISTORY_SIZE (item # xe_history e)\<rparr>
        in case xc_id c of
             None \<Rightarrow> resume env fresh e1 d
           | Some rid \<Rightarrow> (case settle_crash env faults rid c d of
               (Settle_failed, d1) \<Rightarrow> resume env fresh e1 d1
             | (_, d1) \<Rightarrow> (if xe_draining e1 then e1 else e1\<lparr>xe_timers := schedule Start_round 3000 (x_now env) (xe_timers e1)\<rparr>, d1)))"

definition tick_run :: "crash_env \<Rightarrow> attempt_fault list \<Rightarrow> string \<times> string \<Rightarrow> crash_engine \<Rightarrow> db \<Rightarrow> crash_engine \<times> db" where
  "tick_run env faults fresh e d =
     (if \<not> en_leader env then (e, d)
      else
        let m = currentMultiplier env (xe_current e); (e1, d1) = runAutoCashouts env m (e\<lparr>xe_lastProgressAt := x_now env\<rparr>) d in
        if m \<ge> xc_bustPoint (xe_current e1) then bust env faults fresh e1 d1
        else (e1\<lparr>xe_timers := schedule Tick_run (1000 div TICK_RATE_HZ) (x_now env) (xe_timers e1)\<rparr>, d1))"

definition fire_crash :: "crash_env \<Rightarrow> attempt_fault list \<Rightarrow> string \<times> string \<Rightarrow> crash_timer \<Rightarrow> crash_engine \<Rightarrow> db \<Rightarrow> crash_engine \<times> db" where
  "fire_crash env faults fresh t e d = (case t of
      Begin_run \<Rightarrow> guarded env fresh (beginRun env fresh e d)
    | Tick_run \<Rightarrow> tick_run env faults fresh e d
    | Start_round \<Rightarrow> (case startNewRound env fresh e d of Inr r \<Rightarrow> r | Inl _ \<Rightarrow> resume env fresh e d)
    | Resume_loop \<Rightarrow> resume env fresh e d)"

definition crash_watchdog :: "crash_env \<Rightarrow> string \<times> string \<Rightarrow> crash_engine \<Rightarrow> db \<Rightarrow> crash_engine \<times> db" where
  "crash_watchdog env fresh e d =
     (if en_leader env \<and> \<not> xe_draining e \<and> x_now env - xe_lastProgressAt e > stallMs (en_tuning env) then resume env fresh e d else (e, d))"

text \<open>The start of a drain; it then waits for the round that is in flight.\<close>

definition roundInFlight :: "crash_engine \<Rightarrow> bool" where
  "roundInFlight e \<longleftrightarrow> xc_phase (xe_current e) = CrashRunning \<or> xc_phase (xe_current e) = CrashWaiting \<and> xc_bets (xe_current e) \<noteq> []"

definition begin_drain :: "crash_env \<Rightarrow> int \<Rightarrow> crash_engine \<Rightarrow> db \<Rightarrow> crash_engine \<times> db" where
  "begin_drain env crashDrainTimeoutMs e d =
     (if crashDrainTimeoutMs \<le> 0 \<or> \<not> en_leader env \<or> xc_id (xe_current e) = None then (e, d)
      else (e\<lparr>xe_draining := True, xe_nextRoundBets := []\<rparr>, recoverScheduledBets d))"

text \<open>Before a bet the service makes sure that the row of the current round exists.\<close>

definition ensureRoundPersisted :: "crash_engine \<Rightarrow> db \<Rightarrow> db result" where
  "ensureRoundPersisted e d =
     (let c = xe_current e in
      case xc_id c of
        None \<Rightarrow> Inl (Internal ''invalid uuid'')
      | Some rid \<Rightarrow>
          if map_of (crashRounds d) rid \<noteq> None then Inr d
          else Inr (d\<lparr>seeds := (if map_of (seeds d) (xc_seedId c) = None
                 then seeds d @ [(xc_seedId c, \<lparr>sd_serverSeed = xc_serverSeed c, sd_serverSeedHash = xc_serverSeedHash c,
                   sd_clientSeed = xc_clientSeed c, sd_nonce = xc_nonce c, sd_revealedAt = None\<rparr>)] else seeds d),
               crashRounds := crashRounds d @ [(rid, \<lparr>xr_seedId = xc_seedId c, xr_nonce = xc_nonce c,
                   xr_status = (if xc_phase c = CrashWaiting then CrashWaiting else CrashRunning), xr_bustMultiplier = None, xr_startedAt = None,
                   xr_endedAt = None, xr_entropyStatus = None, xr_targetSlot = None, xr_slotHash = None, xr_beaconRound = None\<rparr>)]\<rparr>))"

record crash_view =
  cv_roundId :: "nat option"
  cv_phase :: crash_status
  cv_startedAt :: "int option"
  cv_bettingMsRemaining :: "int option"
  cv_serverSeedHash :: string
  cv_clientSeed :: string
  cv_nonce :: nat
  cv_serverSeed :: "string option"
  cv_bustPoint :: "rat option"
  cv_beaconRound :: "int option"
  cv_slotHash :: "string option"
  cv_multiplier :: rat
  cv_bets :: "(nat \<times> live_bet) list"
  cv_history :: "history_item list"

definition crash_snapshot :: "crash_env \<Rightarrow> crash_engine \<Rightarrow> crash_view" where
  "crash_snapshot env e =
     (let c = xe_current e; over = (xc_phase c = CrashBusted) in
      \<lparr>cv_roundId = xc_id c, cv_phase = xc_phase c, cv_startedAt = xc_startedAt c,
       cv_bettingMsRemaining = (case xc_waitingStartedAt c of
          Some t \<Rightarrow> if xc_phase c = CrashWaiting then Some (max 0 (t + BET_WINDOW_MS - x_now env)) else None | None \<Rightarrow> None),
       cv_serverSeedHash = xc_serverSeedHash c, cv_clientSeed = xc_clientSeed c, cv_nonce = xc_nonce c,
       cv_serverSeed = (if over then Some (xc_serverSeed c) else None), cv_bustPoint = (if over then Some (xc_bustPoint c) else None),
       cv_beaconRound = xc_beaconRound c, cv_slotHash = (if over then xe_currentEntropy e else None),
       cv_multiplier = currentMultiplier env c, cv_bets = xc_bets c, cv_history = take 20 (xe_history e)\<rparr>)"

end
