(* ===== verification/Crash_Settlement.thy ===== *)
theory Crash_Settlement
  imports Crash
begin

text \<open>
  What the crash engine does to the books: a settlement and a recovery claim the round first, so that of all the attempts only one
  posts, and the bets of a flight stay within the stake and the most a bet may win.
\<close>

subsection \<open>What a settlement does to the books\<close>

definition same_crash :: "db \<Rightarrow> db \<Rightarrow> bool" where
  "same_crash d d' \<longleftrightarrow> crashRounds d' = crashRounds d \<and> crashBets d' = crashBets d \<and> scheduledCrashBets d' = scheduledCrashBets d"

lemma same_crash_refl [simp]: "same_crash d d" by (simp add: same_crash_def)

lemma same_crash_delta: "applyBalanceDelta u x m d = Inr (b, d') \<Longrightarrow> same_crash d d'"
  using applyBalanceDelta_frame[of u x m d b d'] by (simp add: same_crash_def)

lemma create_bet_crash [simp]: "same_crash d (snd (create_bet b d))" "bets (snd (create_bet b d)) = bets d @ [b]"
  "same_money d (snd (create_bet b d))"
  by (auto simp: create_bet_def same_crash_def intro!: same_moneyI)

lemma update_crash_frame: "updateUser uid f d = Inr d' \<Longrightarrow> same_crash d d' \<and> bets d' = bets d"
  by (auto simp: updateUser_Inr same_crash_def)

lemma stats_crash:
  assumes "updateUser uid (bump_stats amt p) d = Inr d1"
  shows "same_crash d (snd (accrue now uid amt (executeUser uid (raise_biggest p) d1)))
    \<and> bets (snd (accrue now uid amt (executeUser uid (raise_biggest p) d1))) = bets d"
  using update_crash_frame[OF assms] by (simp add: same_crash_def)

lemma credit_if:
  assumes "(if x > 0 then applyBalanceDelta uid x m d else Inr (z, d)) = Inr (b, d')" and "currency m = Jeton"
  shows "posts (credit_row uid x) d d' \<and> same_crash d d' \<and> bets d' = bets d"
  using assms applyBalanceDelta_posts[of uid x m d b d'] applyBalanceDelta_frame(3)[of uid x m d b d'] same_crash_delta[of uid x m d b d']
  by (auto simp: credit_row_def split: if_splits)

lemma settle_bet_spec:
  assumes "settle_bet env rid c (uid, b) d = Inr d'"
  shows "posts (credit_row uid (lv_payoutLamports b)) d d' \<and> bets d' = bets d @ [crash_bet_row env c uid b]
    \<and> crashRounds d' = crashRounds d \<and> scheduledCrashBets d' = scheduledCrashBets d
    \<and> crashBets d' = AList.update (rid, uid) (settled_row b (map_of (crashBets d) (rid, uid))) (crashBets d)"
proof -
  let ?stake = "lv_originalAmountLamports b" and ?payout = "lv_payoutLamports b"
  obtain d1 where u: "updateUser uid (bump_stats ?stake (?payout - ?stake)) d = Inr d1"
    using assms by (auto simp: settle_bet_def Let_def)
  define d3 where "d3 = snd (accrue (env_now env) uid ?stake (executeUser uid (raise_biggest (?payout - ?stake)) d1))"
  define m where "m = (jeton_meta ''crash_settle'' ''Bet'')\<lparr>refId := Some (length (bets d3))\<rparr>"
  have "settle_bet env rid c (uid, b) d = bindE (if ?payout > 0 then applyBalanceDelta uid ?payout m d3 else Inr (0, d3)) (\<lambda>(_, d4).
      Inr (snd (create_bet (crash_bet_row env c uid b) (d4\<lparr>crashBets := AList.update (rid, uid) (settled_row b (map_of (crashBets d4) (rid, uid))) (crashBets d4)\<rparr>))))"
    by (simp only: settle_bet_def Let_def u bindE_simps prod.case d3_def m_def)
  from this[unfolded assms, symmetric] obtain x d4 where a: "(if ?payout > 0 then applyBalanceDelta uid ?payout m d3 else Inr (0, d3)) = Inr (x, d4)"
    and d': "d' = snd (create_bet (crash_bet_row env c uid b) (d4\<lparr>crashBets := AList.update (rid, uid) (settled_row b (map_of (crashBets d4) (rid, uid))) (crashBets d4)\<rparr>))"
    by (elim bindE_InrE) (auto simp del: create_bet_simps)
  have C: "posts (credit_row uid ?payout) d3 d4 \<and> same_crash d3 d4 \<and> bets d4 = bets d3" by (rule credit_if[OF a]) (simp add: m_def)
  note S = stats_crash[OF u, of "env_now env", folded d3_def]
  have "same_money d4 d'" by (simp add: d' create_bet_def same_moneyI)
  then have "posts (credit_row uid ?payout) d d'"
    using posts_between[OF stats_money[OF u, of "env_now env", folded d3_def]] C by blast
  then show ?thesis using C S by (simp add: d' create_bet_def same_crash_def)
qed

definition cash_journal :: "(nat \<times> live_bet) list \<Rightarrow> posting list" where
  "cash_journal bs = concat (map (\<lambda>(u, b). credit_row u (lv_payoutLamports b)) bs)"

lemma settle_bets_spec:
  "settle_bets env rid c bs d = Inr d' \<Longrightarrow> posts (cash_journal bs) d d' \<and> crashRounds d' = crashRounds d
    \<and> scheduledCrashBets d' = scheduledCrashBets d \<and> bets d' = bets d @ map (\<lambda>(u, b). crash_bet_row env c u b) bs"
proof (induction bs arbitrary: d)
  case (Cons p bs)
  obtain u b d1 where p: "p = (u, b)" "settle_bet env rid c (u, b) d = Inr d1" "settle_bets env rid c bs d1 = Inr d'"
    using Cons.prems by (cases p) auto
  from settle_bet_spec[OF p(2)] Cons.IH[OF p(3)] show ?case
    using posts_trans[of "credit_row u (lv_payoutLamports b)" d d1] by (auto simp: p(1) cash_journal_def)
qed (simp add: cash_journal_def)

definition crash_over :: "nat \<Rightarrow> db \<Rightarrow> bool" where
  "crash_over rid d \<longleftrightarrow> (case map_of (crashRounds d) rid of None \<Rightarrow> False | Some r \<Rightarrow> xr_status r = CrashBusted)"

lemma claim_crash_Inr: "claim_crash rid f d = Inr d1 \<longleftrightarrow>
    (\<exists>r. map_of (crashRounds d) rid = Some r \<and> live_status (xr_status r) \<and> d1 = d\<lparr>crashRounds := AList.update rid (f r) (crashRounds d)\<rparr>)"
  by (auto simp: claim_crash_def update_live_round_def assertRoundClaimed_def split: option.splits if_splits)

lemma claim_crash_over: "crash_over rid d \<Longrightarrow> claim_crash rid f d = Inl (SettleClaimLost ''crash: already settled by another settler'')"
  by (auto simp: crash_over_def claim_crash_def update_live_round_def assertRoundClaimed_def live_status_def split: option.splits)

lemma settleOnce_cases:
  assumes "settleOnce env rid c d = Inr d'"
  shows "en_leader env \<and> \<not> crash_over rid d \<and> crash_over rid d' \<and> posts (cash_journal (xc_bets c)) d d'
    \<and> bets d' = bets d @ map (\<lambda>(u, b). crash_bet_row (en_play env) c u b) (xc_bets c)"
proof -
  define f :: "crash_round \<Rightarrow> crash_round" where "f = (\<lambda>r. r\<lparr>xr_status := CrashBusted, xr_bustMultiplier := Some (xc_bustPoint c), xr_endedAt := Some (x_now env)\<rparr>)"
  have lead: "en_leader env" using assms by (auto simp: settleOnce_def assertStillLeader_def guardE_def split: if_splits)
  obtain d1 d2 where c: "claim_crash rid f d = Inr d1" "settle_bets (en_play env) rid c (xc_bets c) d1 = Inr d2" "reveal_seed (x_now env) (xc_seedId c) d2 = Inr d'"
    using assms by (auto simp: settleOnce_def f_def)
  obtain r where r: "map_of (crashRounds d) rid = Some r" "live_status (xr_status r)" "d1 = d\<lparr>crashRounds := AList.update rid (f r) (crashRounds d)\<rparr>"
    using c(1) unfolding claim_crash_Inr by blast
  have "same_money d d1" by (simp add: r same_moneyI)
  then show ?thesis using settle_bets_spec[OF c(2)] reveal_seed_spec[OF c(3)] r lead posts_between
    by (fastforce simp: crash_over_def f_def live_status_def)
qed

lemma settleOnce_over: "crash_over rid d \<Longrightarrow> \<exists>err. settleOnce env rid c d = Inl err"
  using claim_crash_over[of rid d] by (auto simp: settleOnce_def assertStillLeader_def guardE_def)

lemma attempts_over:
  "crash_over rid d \<Longrightarrow> settle_attempts env rid c fs d = (out, d') \<Longrightarrow> d' = d \<and> out \<noteq> Settled"
proof (induction fs)
  case (Cons f fs)
  obtain o1 d1 where a: "attempt f (settleOnce env rid c) d = (o1, d1)" by fastforce
  obtain err where "settleOnce env rid c d = Inl err" using settleOnce_over[OF Cons.prems(1)] by blast
  then have "d1 = d" "\<exists>err. o1 = Inl err" using attempt_cases[OF a] by auto
  then show ?case using Cons a by (auto split: failure.splits)
qed simp

lemma attempts_spec:
  assumes "settle_attempts env rid c fs d = (out, d')"
  shows "(d' = d \<and> out \<noteq> Settled) \<or> (settleOnce env rid c d = Inr d' \<and> (out = Settled \<or> Answer_lost \<in> set fs))"
  using assms
proof (induction fs)
  case (Cons f fs)
  obtain o1 d1 where a: "attempt f (settleOnce env rid c) d = (o1, d1)" by fastforce
  from attempt_cases[OF a] show ?case
  proof (elim disjE conjE exE)
    fix err assume "d1 = d" "o1 = Inl err"
    then show ?thesis using Cons a by (auto split: failure.splits)
  next
    assume t: "settleOnce env rid c d = Inr d1" "f \<noteq> Not_committed" "(o1 = Inr ()) = (f = Answers)"
    show ?thesis
    proof (cases o1)
      case (Inr u) then show ?thesis using Cons.prems a t by simp
    next
      case (Inl err)
      then have f: "f = Answer_lost" using t by (cases f) auto
      have "crash_over rid d1" using settleOnce_cases[OF t(1)] by blast
      from attempts_over[OF this] have "d' = d1" using Cons.prems a Inl by (auto split: failure.splits)
      then show ?thesis using t f by simp
    qed
  qed
qed simp

lemma recover_bet_spec:
  assumes "recover_bet env rid sid (uid, r) d = Inr d'"
  shows "posts (credit_row uid (xb_payoutLamports r + xb_remainingLamports r)) d d' \<and> crashRounds d' = crashRounds d
    \<and> (\<exists>old. map_of (crashBets d) (rid, uid) = Some old
        \<and> crashBets d' = AList.update (rid, uid) (old\<lparr>xb_payoutLamports := xb_payoutLamports r, xb_remainingLamports := 0, xb_won := xb_payoutLamports r > 0\<rparr>) (crashBets d))"
proof -
  let ?credit = "xb_payoutLamports r + xb_remainingLamports r" and ?stake = "xb_amountLamports r"
  define m where "m = (jeton_meta ''crash_recovery_refund'' ''CrashRound'')\<lparr>refId := Some rid\<rparr>"
  have "bindE (if ?credit > 0 then applyBalanceDelta uid ?credit m d else Inr (0, d)) (\<lambda>(_, d1).
     case map_of (crashBets d1) (rid, uid) of
       None \<Rightarrow> Inl (Internal ''P2025'')
     | Some old \<Rightarrow>
         bindE (updateUser uid (bump_stats ?stake (?credit - ?stake)) (d1\<lparr>crashBets := AList.update (rid, uid)
           (old\<lparr>xb_payoutLamports := xb_payoutLamports r, xb_remainingLamports := 0, xb_won := xb_payoutLamports r > 0\<rparr>) (crashBets d1)\<rparr>)) (\<lambda>d3.
         Inr (snd (create_bet (recovered_bet_row env sid uid r) (snd (accrue (env_now env) uid ?stake (executeUser uid (raise_biggest (?credit - ?stake)) d3))))))) = Inr d'"
    using assms unfolding recover_bet_def Let_def m_def prod.case by assumption
  then obtain x d1 old d3 where a: "(if ?credit > 0 then applyBalanceDelta uid ?credit m d else Inr (0, d)) = Inr (x, d1)"
    and old: "map_of (crashBets d1) (rid, uid) = Some old"
    and u0: "updateUser uid (bump_stats ?stake (?credit - ?stake)) (d1\<lparr>crashBets := AList.update (rid, uid)
           (old\<lparr>xb_payoutLamports := xb_payoutLamports r, xb_remainingLamports := 0, xb_won := xb_payoutLamports r > 0\<rparr>) (crashBets d1)\<rparr>) = Inr d3"
    and d': "d' = snd (create_bet (recovered_bet_row env sid uid r) (snd (accrue (env_now env) uid ?stake (executeUser uid (raise_biggest (?credit - ?stake)) d3))))"
    by (elim bindE_InrE) (auto simp del: create_bet_simps cong: if_cong split: option.splits elim!: bindE_InrE)
  have C: "posts (credit_row uid ?credit) d d1 \<and> same_crash d d1 \<and> bets d1 = bets d" by (rule credit_if[OF a]) (simp add: m_def)
  define d2 where "d2 = d1\<lparr>crashBets := AList.update (rid, uid) (old\<lparr>xb_payoutLamports := xb_payoutLamports r, xb_remainingLamports := 0, xb_won := xb_payoutLamports r > 0\<rparr>) (crashBets d1)\<rparr>"
  note u = u0[folded d2_def]
  have "same_money d1 d2" by (simp add: d2_def same_moneyI)
  then have "same_money d1 d'" unfolding d' using stats_money[OF u] create_bet_crash(3) same_money_trans by blast
  then have "posts (credit_row uid ?credit) d d'" using C posts_same by blast
  moreover have "same_crash d2 d'" unfolding d' using stats_crash[OF u] create_bet_crash(1) unfolding same_crash_def by metis
  ultimately show ?thesis using C old by (simp add: same_crash_def d2_def)
qed

definition recovery_journal :: "(nat \<times> crash_bet) list \<Rightarrow> posting list" where
  "recovery_journal rs = concat (map (\<lambda>(u, r). credit_row u (xb_payoutLamports r + xb_remainingLamports r)) rs)"

lemma recover_bets_spec:
  assumes "recover_bets env rid sid rs d = Inr d'" and "distinct (map fst rs)"
  shows "posts (recovery_journal rs) d d' \<and> crashRounds d' = crashRounds d
    \<and> (\<forall>(u, r) \<in> set rs. \<exists>new. map_of (crashBets d') (rid, u) = Some new \<and> xb_remainingLamports new = 0 \<and> xb_payoutLamports new = xb_payoutLamports r)
    \<and> (\<forall>k. k \<notin> (\<lambda>(u, _). (rid, u)) ` set rs \<longrightarrow> map_of (crashBets d') k = map_of (crashBets d) k)"
  using assms
proof (induction rs arbitrary: d)
  case (Cons p rs)
  obtain u r d1 where p: "p = (u, r)" "recover_bet env rid sid (u, r) d = Inr d1" "recover_bets env rid sid rs d1 = Inr d'"
    using Cons.prems by (cases p) auto
  have fresh: "(rid, u) \<notin> (\<lambda>(u, _). (rid, u)) ` set rs" "distinct (map fst rs)" using Cons.prems(2) p(1) by force+
  note S = recover_bet_spec[OF p(2)] and I = Cons.IH[OF p(3) fresh(2)]
  have "posts (recovery_journal (p # rs)) d d'"
    using posts_trans[of "credit_row u (xb_payoutLamports r + xb_remainingLamports r)" d d1] S I by (auto simp: p(1) recovery_journal_def)
  moreover have "map_of (crashBets d') (rid, u) = map_of (crashBets d1) (rid, u)" using I fresh(1) by blast
  ultimately show ?case using S I by (auto simp: p(1))
qed (simp add: recovery_journal_def)

lemma recover_tx_cases:
  assumes "recover_tx env rid sid rs d = Inr d'" and "distinct (map fst rs)"
  shows "\<not> crash_over rid d \<and> crash_over rid d' \<and> posts (recovery_journal rs) d d'
    \<and> (\<forall>(u, r) \<in> set rs. \<exists>new. map_of (crashBets d') (rid, u) = Some new \<and> xb_remainingLamports new = 0 \<and> xb_payoutLamports new = xb_payoutLamports r)"
proof -
  define f :: "crash_round \<Rightarrow> crash_round" where "f = (\<lambda>r. r\<lparr>xr_status := CrashBusted, xr_endedAt := Some (x_now env)\<rparr>)"
  obtain d1 d2 where c: "claim_crash rid f d = Inr d1" "recover_bets (en_play env) rid sid rs d1 = Inr d2" "reveal_seed (x_now env) sid d2 = Inr d'"
    using assms(1) by (auto simp: recover_tx_def f_def)
  obtain r where r: "map_of (crashRounds d) rid = Some r" "live_status (xr_status r)" "d1 = d\<lparr>crashRounds := AList.update rid (f r) (crashRounds d)\<rparr>"
    using c(1) unfolding claim_crash_Inr by blast
  have m: "same_money d d1" by (simp add: r same_moneyI)
  note R = recover_bets_spec[OF c(2) assms(2)] and S = reveal_seed_spec[OF c(3)]
  have "posts (recovery_journal rs) d d'" using posts_between[OF m] R S by blast
  moreover have "crashRounds d' = crashRounds d1" "crashBets d' = crashBets d2" using R S by simp_all
  ultimately show ?thesis using R r by (auto simp: crash_over_def f_def live_status_def)
qed

lemma recover_tx_over: "crash_over rid d \<Longrightarrow>
    recover_tx env rid sid rs d = Inl (SettleClaimLost ''crash: already settled by another settler'')"
  by (simp add: recover_tx_def claim_crash_over)

lemma settle_bets_rows:
  "settle_bets env rid c bs d = Inr d' \<Longrightarrow> k \<notin> (\<lambda>(u, _). (rid, u)) ` set bs \<Longrightarrow> map_of (crashBets d') k = map_of (crashBets d) k"
proof (induction bs arbitrary: d)
  case (Cons p bs)
  obtain u b d1 where p: "p = (u, b)" "settle_bet env rid c (u, b) d = Inr d1" "settle_bets env rid c bs d1 = Inr d'"
    using Cons.prems(1) by (cases p) auto
  have "map_of (crashBets d') k = map_of (crashBets d1) k" using Cons.IH[OF p(3)] Cons.prems(2) by (simp add: p(1))
  then show ?case using settle_bet_spec[OF p(2)] Cons.prems(2) by (auto simp: p(1) update_conv')
qed simp

lemma settleOnce_rows:
  assumes "settleOnce env rid c d = Inr d'" and "k \<notin> (\<lambda>(u, _). (rid, u)) ` set (xc_bets c)"
  shows "map_of (crashBets d') k = map_of (crashBets d) k"
proof -
  obtain d1 d2 f where c: "claim_crash rid f d = Inr d1" "settle_bets (en_play env) rid c (xc_bets c) d1 = Inr d2" "reveal_seed (x_now env) (xc_seedId c) d2 = Inr d'"
    using assms(1) by (auto simp: settleOnce_def)
  then show ?thesis using settle_bets_rows[OF c(2) assms(2)] reveal_seed_spec[OF c(3)] by (auto simp: claim_crash_Inr)
qed

lemma recordFailure_frame [simp]: "same_money d (recordFailure g i d)" "same_crash d (recordFailure g i d)"
  "bets (recordFailure g i d) = bets d" "settlementFailures (recordFailure g i d) = settlementFailures d @ [(g, i)]"
  "crash_over rid (recordFailure g i d) = crash_over rid d"
  by (auto simp: recordFailure_def same_crash_def crash_over_def intro: same_moneyI)

lemma settle_crash_cases:
  assumes "settle_crash env faults rid c d = (out, d')"
  obtains d1 where "settle_attempts env rid c (take (settleRetryAttempts (en_tuning env)) faults) d = (out, d1)"
    and "d' = (if out = Settle_failed then recordFailure ''crash'' (Some rid) d1 else d1)"
  using assms by (cases "settle_attempts env rid c (take (settleRetryAttempts (en_tuning env)) faults) d")
    (auto simp: settle_crash_def split: settle_outcome.splits)

text \<open>
  C7. A round of crash is settled at most once, whatever the database does to the attempts: a settlement either leaves the books as they
  were, or it was allowed by the leader on a live round and posts every payout of the round exactly once, with a bet row for each,
  and closes the round. It reports success only in the second case, and after it no settlement, by any process and of any state in
  memory, and no recovery of that round goes through.
\<close>

theorem crash_settled_once:
  assumes "settle_crash env faults rid c d = (out, d')"
  shows "(out \<noteq> Settled \<and> same_money d d' \<and> same_crash d d' \<and> bets d' = bets d)
    \<or> (en_leader env \<and> \<not> crash_over rid d \<and> crash_over rid d' \<and> posts (cash_journal (xc_bets c)) d d'
       \<and> bets d' = bets d @ map (\<lambda>(u, b). crash_bet_row (en_play env) c u b) (xc_bets c)
       \<and> (out = Settled \<or> Answer_lost \<in> set faults)
       \<and> (\<forall>env' c' faults' out' d''. settle_crash env' faults' rid c' d' = (out', d'') \<longrightarrow> out' \<noteq> Settled \<and> same_money d' d'' \<and> same_crash d' d'')
       \<and> (\<forall>env' seedId rows. recover_tx env' rid seedId rows d' = Inl (SettleClaimLost ''crash: already settled by another settler'')))"
proof -
  obtain d1 where s: "settle_attempts env rid c (take (settleRetryAttempts (en_tuning env)) faults) d = (out, d1)"
    and d': "d' = (if out = Settle_failed then recordFailure ''crash'' (Some rid) d1 else d1)" using settle_crash_cases[OF assms] .
  have rec: "same_money d1 d'" "same_crash d1 d'" "bets d' = bets d1" "crash_over rid d' = crash_over rid d1" by (simp_all add: d')
  from attempts_spec[OF s] consider "d1 = d" "out \<noteq> Settled"
    | "settleOnce env rid c d = Inr d1" "out = Settled \<or> Answer_lost \<in> set (take (settleRetryAttempts (en_tuning env)) faults)" by blast
  then show ?thesis
  proof cases
    case 1 then show ?thesis using rec by simp
  next
    case t: 2
    then have out: "out = Settled \<or> Answer_lost \<in> set faults" by (auto dest: in_set_takeD)
    note C = settleOnce_cases[OF t(1)]
    then have over: "crash_over rid d'" using rec by simp
    have again: "out' \<noteq> Settled \<and> same_money d' d'' \<and> same_crash d' d''" if "settle_crash env' faults' rid c' d' = (out', d'')" for env' c' faults' out' d''
      using settle_crash_cases[OF that] attempts_over[OF over] by (metis recordFailure_frame(1,2) same_money_refl same_crash_refl)
    have "posts (cash_journal (xc_bets c)) d d'" using C rec(1) posts_same by blast
    moreover have "bets d' = bets d @ map (\<lambda>(u, b). crash_bet_row (en_play env) c u b) (xc_bets c)" using C rec(3) by simp
    ultimately show ?thesis using C over out again recover_tx_over[OF over] by blast
  qed
qed

text \<open>
  C8. A round that a crash of the process stranded is refunded from its rows exactly: the recovery credits each player what the row
  says was won plus what was still in play, which leaves nothing in play in any row, closes the round, and cannot be repeated, nor
  followed by a settlement.
\<close>

theorem crash_restart_exact:
  assumes "recover_tx env rid seedId (rows_of rid d) d = Inr d'" and "keyed (crashBets d)"
  shows "\<not> crash_over rid d \<and> crash_over rid d' \<and> posts (recovery_journal (rows_of rid d)) d d'
    \<and> (\<forall>u r. map_of (crashBets d) (rid, u) = Some r \<longrightarrow> (\<exists>new. map_of (crashBets d') (rid, u) = Some new
          \<and> xb_remainingLamports new = 0 \<and> xb_payoutLamports new = xb_payoutLamports r))
    \<and> (\<forall>env' seedId' rows. recover_tx env' rid seedId' rows d' = Inl (SettleClaimLost ''crash: already settled by another settler''))
    \<and> (\<forall>env' c. \<exists>err. settleOnce env' rid c d' = Inl err)"
proof -
  have "distinct (map fst (map (\<lambda>((_, uid), r). (uid, r)) (filter (\<lambda>((q, _), _). q = rid) t)))" if "keyed t" for t :: "(nat \<times> nat, crash_bet) table"
    using that by (induction t) (force simp: keyed_def)+
  then have rows: "distinct (map fst (rows_of rid d))" using assms(2) by (simp only: rows_of_def)
  have mem: "(u, r) \<in> set (rows_of rid d)" if "map_of (crashBets d) (rid, u) = Some r" for u r
    using map_of_SomeD[OF that] by (force simp: rows_of_def)
  note C = recover_tx_cases[OF assms(1) rows]
  then show ?thesis using mem recover_tx_over settleOnce_over by blast
qed


subsection \<open>A live round can always be settled or refunded\<close>

lemma same_ids: "users d' = users d \<Longrightarrow> user_ids d' = user_ids d" by (simp add: user_ids_def)

lemma stats_step:
  assumes "uid \<in> user_ids d"
  obtains d1 where "updateUser uid f d = Inr d1" "user_ids (snd (accrue now uid s (executeUser uid g d1))) = user_ids d"
    "seeds (snd (accrue now uid s (executeUser uid g d1))) = seeds d" "crashBets (snd (accrue now uid s (executeUser uid g d1))) = crashBets d"
proof -
  obtain d1 where u: "updateUser uid f d = Inr d1" using update_ok assms .
  then have "seeds d1 = seeds d" "crashBets d1 = crashBets d" by (auto simp: updateUser_Inr)
  then show thesis using that[OF u] update_ids[OF u] by simp
qed

lemma credit_step:
  assumes "uid \<in> user_ids d" and "maxBalance m = None"
  obtains b d1 where "(if x > 0 then applyBalanceDelta uid x m d else Inr (0, d)) = Inr (b, d1)" "user_ids d1 = user_ids d"
    "seeds d1 = seeds d" "crashBets d1 = crashBets d"
proof (cases "x > 0")
  case True
  obtain b d1 where a: "applyBalanceDelta uid x m d = Inr (b, d1)" using credit_ok[OF assms(1) _ assms(2), of x] True by auto
  then show thesis using that[of b d1] True delta_ids[OF a] applyBalanceDelta_frame[OF a] by simp
qed (use that in simp)

lemma settle_bet_ok:
  assumes "uid \<in> user_ids d"
  obtains d' where "settle_bet env rid c (uid, b) d = Inr d'" "user_ids d' = user_ids d" "seeds d' = seeds d"
proof -
  let ?s = "lv_originalAmountLamports b" and ?p = "lv_payoutLamports b"
  obtain d1 where u: "updateUser uid (bump_stats ?s (?p - ?s)) d = Inr d1"
    "user_ids (snd (accrue (env_now env) uid ?s (executeUser uid (raise_biggest (?p - ?s)) d1))) = user_ids d"
    "seeds (snd (accrue (env_now env) uid ?s (executeUser uid (raise_biggest (?p - ?s)) d1))) = seeds d"
    using stats_step[OF assms] by metis
  define d3 where "d3 = snd (accrue (env_now env) uid ?s (executeUser uid (raise_biggest (?p - ?s)) d1))"
  define m where "m = (jeton_meta ''crash_settle'' ''Bet'')\<lparr>refId := Some (length (bets d3))\<rparr>"
  have "uid \<in> user_ids d3" "maxBalance m = None" using u assms by (simp_all add: d3_def m_def)
  then obtain x d4 where a: "(if ?p > 0 then applyBalanceDelta uid ?p m d3 else Inr (0, d3)) = Inr (x, d4)"
    "user_ids d4 = user_ids d3" "seeds d4 = seeds d3" by (metis credit_step)
  have "settle_bet env rid c (uid, b) d = Inr (snd (create_bet (crash_bet_row env c uid b)
      (d4\<lparr>crashBets := AList.update (rid, uid) (settled_row b (map_of (crashBets d4) (rid, uid))) (crashBets d4)\<rparr>)))"
    by (simp only: settle_bet_def Let_def u(1) bindE_simps prod.case d3_def[symmetric] m_def[symmetric] a(1))
  then show thesis using that a(2,3) u(2,3) by (simp add: d3_def create_bet_def user_ids_def)
qed

lemma settle_bets_ok:
  assumes "fst ` set bs \<subseteq> user_ids d"
  obtains d' where "settle_bets env rid c bs d = Inr d'" "seeds d' = seeds d"
  using assms
proof (induction bs arbitrary: d thesis)
  case (Cons p bs)
  obtain u b where p: "p = (u, b)" by fastforce
  obtain d1 where 1: "settle_bet env rid c (u, b) d = Inr d1" "user_ids d1 = user_ids d" "seeds d1 = seeds d"
    using settle_bet_ok[of u d env rid c b] Cons.prems(2) by (auto simp: p)
  then obtain d' where "settle_bets env rid c bs d1 = Inr d'" "seeds d' = seeds d1" using Cons.IH[of d1] Cons.prems(2) by (auto simp: p)
  then show ?case using Cons.prems(1) 1 by (simp add: p)
qed simp

lemma claim_crash_ok:
  assumes "map_of (crashRounds d) rid = Some r" and "live_status (xr_status r)"
  obtains d1 where "claim_crash rid f d = Inr d1" "user_ids d1 = user_ids d" "seeds d1 = seeds d" "crashBets d1 = crashBets d"
  using assms unfolding claim_crash_Inr by (auto simp: user_ids_def)

lemma reveal_ok: "map_of (seeds d) sid \<noteq> None \<Longrightarrow> \<exists>d'. reveal_seed now sid d = Inr d'"
  by (auto simp: reveal_seed_def)

lemma settleOnce_ok:
  assumes "en_leader env" and r: "map_of (crashRounds d) rid = Some r" "live_status (xr_status r)"
    and "fst ` set (xc_bets c) \<subseteq> user_ids d" and "map_of (seeds d) (xc_seedId c) \<noteq> None"
  shows "\<exists>d'. settleOnce env rid c d = Inr d'"
proof -
  obtain d1 where 1: "claim_crash rid (\<lambda>r. r\<lparr>xr_status := CrashBusted, xr_bustMultiplier := Some (xc_bustPoint c), xr_endedAt := Some (x_now env)\<rparr>) d = Inr d1"
    "user_ids d1 = user_ids d" "seeds d1 = seeds d" by (rule claim_crash_ok[OF r])
  obtain d2 where 2: "settle_bets (en_play env) rid c (xc_bets c) d1 = Inr d2" "seeds d2 = seeds d1"
    using settle_bets_ok[of "xc_bets c" d1 "en_play env" rid c] assms(4) 1(2) by auto
  then show ?thesis using reveal_ok[of d2 "xc_seedId c" "x_now env"] assms(1,5) 1
    by (simp add: settleOnce_def assertStillLeader_def guardE_def)
qed

lemma recover_bet_ok:
  assumes "uid \<in> user_ids d" and "map_of (crashBets d) (rid, uid) \<noteq> None"
  obtains d' where "recover_bet env rid sid (uid, r) d = Inr d'" "user_ids d' = user_ids d" "seeds d' = seeds d"
    "dom (map_of (crashBets d')) = dom (map_of (crashBets d))"
proof -
  let ?credit = "xb_payoutLamports r + xb_remainingLamports r" and ?s = "xb_amountLamports r"
  define m where "m = (jeton_meta ''crash_recovery_refund'' ''CrashRound'')\<lparr>refId := Some rid\<rparr>"
  have "maxBalance m = None" by (simp add: m_def)
  then obtain x d1 where a: "(if ?credit > 0 then applyBalanceDelta uid ?credit m d else Inr (0, d)) = Inr (x, d1)"
    "user_ids d1 = user_ids d" "seeds d1 = seeds d" "crashBets d1 = crashBets d" by (metis credit_step assms(1))
  obtain old where old: "map_of (crashBets d1) (rid, uid) = Some old" using assms(2) a(4) by auto
  define d2 where "d2 = d1\<lparr>crashBets := AList.update (rid, uid) (old\<lparr>xb_payoutLamports := xb_payoutLamports r, xb_remainingLamports := 0, xb_won := xb_payoutLamports r > 0\<rparr>) (crashBets d1)\<rparr>"
  have "uid \<in> user_ids d2" using assms(1) a(2) by (simp add: d2_def user_ids_def)
  then obtain d3 where u: "updateUser uid (bump_stats ?s (?credit - ?s)) d2 = Inr d3"
    "user_ids (snd (accrue (env_now env) uid ?s (executeUser uid (raise_biggest (?credit - ?s)) d3))) = user_ids d2"
    "seeds (snd (accrue (env_now env) uid ?s (executeUser uid (raise_biggest (?credit - ?s)) d3))) = seeds d2"
    "crashBets (snd (accrue (env_now env) uid ?s (executeUser uid (raise_biggest (?credit - ?s)) d3))) = crashBets d2"
    by (metis stats_step)
  have "recover_bet env rid sid (uid, r) d = Inr (snd (create_bet (recovered_bet_row env sid uid r)
      (snd (accrue (env_now env) uid ?s (executeUser uid (raise_biggest (?credit - ?s)) d3)))))"
    by (simp only: recover_bet_def Let_def prod.case m_def[symmetric] a(1) bindE_simps old option.case d2_def[symmetric] u(1))
  then show thesis using that a u(2-4) old by (auto simp: create_bet_def user_ids_def d2_def insert_absorb domI)
qed

lemma recover_bets_ok:
  assumes "fst ` set rs \<subseteq> user_ids d" and "\<forall>(u, _) \<in> set rs. map_of (crashBets d) (rid, u) \<noteq> None"
  obtains d' where "recover_bets env rid sid rs d = Inr d'" "seeds d' = seeds d"
  using assms
proof (induction rs arbitrary: d thesis)
  case (Cons p rs)
  obtain u r where p: "p = (u, r)" by fastforce
  obtain d1 where 1: "recover_bet env rid sid (u, r) d = Inr d1" "user_ids d1 = user_ids d" "seeds d1 = seeds d"
    "dom (map_of (crashBets d1)) = dom (map_of (crashBets d))"
    using recover_bet_ok[of u d rid env sid r] Cons.prems(2,3) by (auto simp: p)
  have "\<forall>(u, _) \<in> set rs. map_of (crashBets d1) (rid, u) \<noteq> None" using Cons.prems(3) 1(4) by (fastforce simp: p domIff)
  then obtain d' where "recover_bets env rid sid rs d1 = Inr d'" "seeds d' = seeds d1" using Cons.IH[of d1] Cons.prems(2) 1(2) by (auto simp: p)
  then show ?case using Cons.prems(1) 1 by (simp add: p)
qed simp

lemma recover_tx_ok:
  assumes r: "map_of (crashRounds d) rid = Some r" "live_status (xr_status r)"
    and "\<And>u b. map_of (crashBets d) (rid, u) = Some b \<Longrightarrow> u \<in> user_ids d" and "keyed (crashBets d)" and "map_of (seeds d) sid \<noteq> None"
  shows "\<exists>d'. recover_tx env rid sid (rows_of rid d) d = Inr d'"
proof -
  obtain d1 where 1: "claim_crash rid (\<lambda>r. r\<lparr>xr_status := CrashBusted, xr_endedAt := Some (x_now env)\<rparr>) d = Inr d1"
    "user_ids d1 = user_ids d" "seeds d1 = seeds d" "crashBets d1 = crashBets d" by (rule claim_crash_ok[OF r])
  have rows: "map_of (crashBets d) (rid, u) = Some b" if "(u, b) \<in> set (rows_of rid d)" for u b
    using that assms(4) by (auto simp: rows_of_def keyed_def intro: map_of_is_SomeI)
  have "fst ` set (rows_of rid d) \<subseteq> user_ids d1" using rows assms(3) 1(2) by force
  moreover have "\<forall>(u, _) \<in> set (rows_of rid d). map_of (crashBets d1) (rid, u) \<noteq> None" using rows 1(4) by force
  ultimately obtain d2 where 2: "recover_bets (en_play env) rid sid (rows_of rid d) d1 = Inr d2" "seeds d2 = seeds d1"
    by (rule recover_bets_ok)
  then show ?thesis using reveal_ok[of d2 sid "x_now env"] assms(5) 1 by (simp add: recover_tx_def)
qed

subsection \<open>Witnesses\<close>

definition crash_env0 :: crash_env where
  "crash_env0 = \<lparr>en_play = offline_env, en_leader = True, en_beacon = None, en_tuning = roundLoopTuning, cn_enabled = False, cn_bankroll = None,
     cn_entropyOn = False, cn_currentSlot = None, cn_slotHash = (\<lambda>_. None)\<rparr>"

definition crash_row0 :: crash_round where
  "crash_row0 = \<lparr>xr_seedId = 0, xr_nonce = 0, xr_status = CrashRunning, xr_bustMultiplier = None, xr_startedAt = None, xr_endedAt = None,
     xr_entropyStatus = None, xr_targetSlot = None, xr_slotHash = None, xr_beaconRound = None\<rparr>"

definition crash_db :: db where
  "crash_db = empty_db\<lparr>users := [(1, new_user)],
     seeds := [(0, \<lparr>sd_serverSeed = ''s'', sd_serverSeedHash = ''h'', sd_clientSeed = ''c'', sd_nonce = 0, sd_revealedAt = None\<rparr>)],
     crashRounds := [(7, crash_row0)]\<rparr>"

definition cashed_bet :: live_bet where
  "cashed_bet = \<lparr>lv_amountLamports = 0, lv_originalAmountLamports = 2000000, lv_payoutLamports = 3000000, lv_autoCashout = None, lv_cashedOutAt = Some (3 / 2)\<rparr>"

definition round7 :: "(nat, live_bet) table \<Rightarrow> crash_live" where
  "round7 bs = placeholder_crash\<lparr>xc_id := Some 7, xc_bets := bs, xc_bustPoint := 2\<rparr>"

definition half_row :: crash_bet where
  "half_row = \<lparr>xb_amountLamports = 2000000, xb_remainingLamports = 1000000, xb_autoCashoutMultiplier = None, xb_cashoutMultiplier = Some (3 / 2),
     xb_payoutLamports = 1500000, xb_won = False\<rparr>"

lemma crash_db_ok: "map_of (crashRounds (crash_db\<lparr>crashBets := bs\<rparr>)) 7 = Some crash_row0" "live_status (xr_status crash_row0)"
  "user_ids (crash_db\<lparr>crashBets := bs\<rparr>) = {1}" "map_of (seeds (crash_db\<lparr>crashBets := bs\<rparr>)) 0 \<noteq> None" "\<not> crash_over 7 (crash_db\<lparr>crashBets := bs\<rparr>)"
  "crashBets (crash_db\<lparr>crashBets := bs\<rparr>) = bs" "crash_db\<lparr>crashBets := []\<rparr> = crash_db"
  by (simp_all add: crash_db_def crash_row0_def live_status_def user_ids_def crash_over_def empty_db_def)

lemma round7_settles:
  assumes "fst ` set bs \<subseteq> {1}"
  obtains d' where "settle_crash crash_env0 (Answers # fs) 7 (round7 bs) (crash_db\<lparr>crashBets := rows\<rparr>) = (Settled, d')"
proof -
  have e: "en_leader crash_env0" "settleRetryAttempts (en_tuning crash_env0) = Suc 3" by (simp_all add: crash_env0_def roundLoopTuning_def)
  have r: "xc_bets (round7 bs) = bs" "xc_seedId (round7 bs) = 0" by (simp_all add: round7_def placeholder_crash_def)
  have "\<exists>d'. settleOnce crash_env0 7 (round7 bs) (crash_db\<lparr>crashBets := rows\<rparr>) = Inr d'"
    by (rule settleOnce_ok[OF e(1) crash_db_ok(1,2)]) (use assms crash_db_ok(3,4) r in simp_all)
  then obtain d' where "settleOnce crash_env0 7 (round7 bs) (crash_db\<lparr>crashBets := rows\<rparr>) = Inr d'" by blast
  then show thesis using that by (simp add: settle_crash_def e(2) attempt_def)
qed

theorem crash_settled_once_witness:
  "\<exists>d'. settle_crash crash_env0 [Answers] 7 (round7 [(1, cashed_bet)]) crash_db = (Settled, d') \<and> posts [(1, Jeton, 3000000)] crash_db d'
     \<and> fst (settle_crash crash_env0 [Answers] 7 (round7 [(1, cashed_bet)]) d') \<noteq> Settled"
proof -
  obtain d' where s: "settle_crash crash_env0 [Answers] 7 (round7 [(1, cashed_bet)]) crash_db = (Settled, d')"
    using round7_settles[of "[(1, cashed_bet)]" "[]" "[]"] crash_db_ok(7) by auto
  note C = crash_settled_once[OF s]
  then have "posts [(1, Jeton, 3000000)] crash_db d'" by (simp add: cash_journal_def round7_def cashed_bet_def credit_row_def)
  moreover obtain out d'' where "settle_crash crash_env0 [Answers] 7 (round7 [(1, cashed_bet)]) d' = (out, d'')" by fastforce
  ultimately show ?thesis using s C by auto
qed

theorem crash_restart_exact_witness:
  "\<exists>d'. recover_tx crash_env0 7 0 (rows_of 7 (crash_db\<lparr>crashBets := [((7, 1), half_row)]\<rparr>)) (crash_db\<lparr>crashBets := [((7, 1), half_row)]\<rparr>) = Inr d'
     \<and> posts [(1, Jeton, 2500000)] (crash_db\<lparr>crashBets := [((7, 1), half_row)]\<rparr>) d'"
proof -
  let ?d = "crash_db\<lparr>crashBets := [((7, 1), half_row)]\<rparr>"
  have k: "keyed (crashBets ?d)" by (simp add: crash_db_ok keyed_def)
  have own: "u \<in> user_ids ?d" if "map_of (crashBets ?d) (7, u) = Some b" for u b using that by (simp add: crash_db_ok split: if_splits)
  have "\<exists>d'. recover_tx crash_env0 7 0 (rows_of 7 ?d) ?d = Inr d'" by (rule recover_tx_ok[OF crash_db_ok(1,2) own k crash_db_ok(4)])
  then obtain d' where r: "recover_tx crash_env0 7 0 (rows_of 7 ?d) ?d = Inr d'" by blast
  from crash_restart_exact[OF r k] r show ?thesis
    by (auto simp: rows_of_def crash_db_ok recovery_journal_def half_row_def credit_row_def)
qed


end
