(* ===== verification/Crash_Service.thy ===== *)
theory Crash_Service
  imports Crash_Settlement
begin

text \<open>
  The crash service: \<open>apps/api/src/games/crash/crash.service.ts\<close>. A bet is debited and its row written in one transaction,
  then the engine is asked; when it refuses, the debit is given back in a second transaction and the row deleted in a third. They are
  definitions of their own, so that other steps can run between them.
\<close>

definition crash_bet_ok :: "int \<Rightarrow> rat option \<Rightarrow> unit result" where
  "crash_bet_ok amount autoCashout =
     bindE (guardE (CRASH_MIN_BET_LAMPORTS \<le> amount \<and> amount \<le> CRASH_MAX_BET_LAMPORTS) (BadRequest ''Bet out of range'')) (\<lambda>_.
     guardE (case autoCashout of None \<Rightarrow> True | Some a \<Rightarrow> MIN_CASHOUT_MULTIPLIER \<le> a \<and> a \<le> MAX_CASHOUT_MULTIPLIER)
       (BadRequest ''Auto-cashout out of range''))"

definition crash_bettor :: "crash_env \<Rightarrow> nat \<Rightarrow> int \<Rightarrow> rat option \<Rightarrow> db \<Rightarrow> unit result" where
  "crash_bettor env userId amount autoCashout d =
     bindE (crash_bet_ok amount autoCashout) (\<lambda>_.
     (case map_of (users d) userId of
        None \<Rightarrow> Inl (NotFound ''User not found'')
      | Some u \<Rightarrow> if banned u then Inl (Forbidden ''Account banned'') else assertCanWager (env_wager (en_play env)) userId amount d))"

subsection \<open>A bet in the current round\<close>

datatype bet_claim = Fresh_bet | Replayed_bet string

definition crash_meta_of :: "string \<Rightarrow> nat option \<Rightarrow> meta" where
  "crash_meta_of why roundId = (jeton_meta why ''CrashRound'')\<lparr>refId := roundId\<rparr>"

definition fresh_crash_bet :: "int \<Rightarrow> rat option \<Rightarrow> crash_bet" where
  "fresh_crash_bet amount autoCashout = \<lparr>xb_amountLamports = amount, xb_remainingLamports = amount, xb_autoCashoutMultiplier = autoCashout,
     xb_cashoutMultiplier = None, xb_payoutLamports = 0, xb_won = False\<rparr>"

text \<open>A foreign key needs the round to exist; a row that is there already is skipped.\<close>

definition insert_crash_bet :: "nat \<Rightarrow> nat \<Rightarrow> crash_bet \<Rightarrow> db \<Rightarrow> (nat \<times> db) result" where
  "insert_crash_bet rid userId row d =
     (if map_of (crashRounds d) rid = None then Inl (Internal ''P2003'')
      else if map_of (crashBets d) (rid, userId) \<noteq> None then Inr (0, d)
      else Inr (1, d\<lparr>crashBets := AList.update (rid, userId) row (crashBets d)\<rparr>))"

definition crash_bet_tx :: "nat \<Rightarrow> nat \<Rightarrow> int \<Rightarrow> rat option \<Rightarrow> string option \<Rightarrow> db \<Rightarrow> (bet_claim \<times> db) result" where
  "crash_bet_tx rid userId amount autoCashout key d =
     bindE (claimIdempotency userId ''crash_bet'' key d) (\<lambda>(replay, d0). case replay of
       Some response \<Rightarrow> Inr (Replayed_bet response, d0)
     | None \<Rightarrow>
        bindE (applyBalanceDelta userId (- amount) (crash_meta_of ''crash_bet'' (Some rid)) d0) (\<lambda>(_, d1).
        bindE (insert_crash_bet rid userId (fresh_crash_bet amount autoCashout) d1) (\<lambda>(n, d2).
        bindE (guardE (n \<noteq> 0) (BadRequest ''You already have a bet in this round'')) (\<lambda>_. Inr (Fresh_bet, d2)))))"

definition refund_bet_tx :: "nat option \<Rightarrow> nat \<Rightarrow> int \<Rightarrow> db \<Rightarrow> db result" where
  "refund_bet_tx rid userId amount d = bindE (applyBalanceDelta userId amount (crash_meta_of ''refund'' rid) d) (\<lambda>(_, d1). Inr d1)"

definition drop_bet_row :: "nat \<Rightarrow> nat \<Rightarrow> db \<Rightarrow> db" where
  "drop_bet_row rid userId d = d\<lparr>crashBets := AList.delete (rid, userId) (crashBets d)\<rparr>"

definition drop_bet_key :: "nat \<Rightarrow> string option \<Rightarrow> db \<Rightarrow> db" where
  "drop_bet_key userId key d =
     (if has_key key then d\<lparr>idempotencyKeys := AList.delete (userId, ''crash_bet'', the key) (idempotencyKeys d)\<rparr> else d)"

text \<open>The bet as one request: its refusal by the engine, or its commission and the stored reply.\<close>

definition place_crash_bet :: "crash_env \<Rightarrow> (nat \<Rightarrow> string) \<Rightarrow> nat \<Rightarrow> int \<Rightarrow> rat option \<Rightarrow> string option \<Rightarrow> crash_engine \<Rightarrow> db
    \<Rightarrow> (nat + string) result \<times> crash_engine \<times> db" where
  "place_crash_bet env json userId amount autoCashout key e d =
     (case bindE (crash_bettor env userId amount autoCashout d) (\<lambda>_.
           bindE (ensureRoundPersisted e d) (\<lambda>d0. case xc_id (xe_current e) of None \<Rightarrow> Inl (Internal ''invalid uuid'') | Some rid \<Rightarrow> Inr (rid, d0))) of
        Inl err \<Rightarrow> (Inl err, e, d)
      | Inr (rid, d0) \<Rightarrow> (case crash_bet_tx rid userId amount autoCashout key d0 of
          Inl err \<Rightarrow> (Inl err, e, d0)
        | Inr (Replayed_bet s, d1) \<Rightarrow> (Inr (Inr s), e, d1)
        | Inr (Fresh_bet, d1) \<Rightarrow> (case placeBet env (Some (Some rid)) userId amount autoCashout e of
            Inl rej \<Rightarrow> (case refund_bet_tx (Some rid) userId amount d1 of
                Inl err \<Rightarrow> (Inl err, e, d1)
              | Inr d2 \<Rightarrow> (Inl (BadRequest (failure_message rej)), e, drop_bet_key userId key (drop_bet_row rid userId d2)))
          | Inr e1 \<Rightarrow> (case creditReferral (env_enforced (en_play env)) (x_now env) userId amount Crash d1 of
                Inl err \<Rightarrow> (Inl err, e1, d1)
              | Inr d2 \<Rightarrow> (case storeIdempotency userId ''crash_bet'' key (json rid) d2 of
                  Inl err \<Rightarrow> (Inl err, e1, d2)
                | Inr d3 \<Rightarrow> (Inr (Inl rid), e1, d3))))))"

definition cash_out_request :: "crash_env \<Rightarrow> nat \<Rightarrow> rat \<Rightarrow> crash_engine \<Rightarrow> db \<Rightarrow> cash_reply result \<times> crash_engine \<times> db" where
  "cash_out_request env userId percent e d = (case cashOut env userId percent None e d of
      (Inl err, e1, d1) \<Rightarrow> (Inl (BadRequest (failure_message err)), e1, d1)
    | (Inr reply, e1, d1) \<Rightarrow> (Inr reply, e1, d1))"

subsection \<open>A bet in the next round\<close>

definition schedule_tx :: "nat \<Rightarrow> int \<Rightarrow> rat option \<Rightarrow> db \<Rightarrow> db result" where
  "schedule_tx userId amount autoCashout d =
     bindE (applyBalanceDelta userId (- amount) (crash_meta_of ''crash_bet'' None) d) (\<lambda>(_, d1).
       if map_of (scheduledCrashBets d1) userId \<noteq> None then Inl (Internal ''P2002'')
       else Inr (d1\<lparr>scheduledCrashBets := AList.update userId \<lparr>xs_amountLamports = amount, xs_autoCashoutMultiplier = autoCashout\<rparr> (scheduledCrashBets d1)\<rparr>))"

definition unschedule_tx :: "nat \<Rightarrow> int \<Rightarrow> db \<Rightarrow> db result" where
  "unschedule_tx userId amount d =
     bindE (applyBalanceDelta userId amount (crash_meta_of ''refund'' None) d) (\<lambda>(_, d1).
       Inr (d1\<lparr>scheduledCrashBets := AList.delete userId (scheduledCrashBets d1)\<rparr>))"

definition schedule_crash_bet :: "crash_env \<Rightarrow> nat \<Rightarrow> int \<Rightarrow> rat option \<Rightarrow> crash_engine \<Rightarrow> db \<Rightarrow> unit result \<times> crash_engine \<times> db" where
  "schedule_crash_bet env userId amount autoCashout e d =
     (case crash_bettor env userId amount autoCashout d of
        Inl err \<Rightarrow> (Inl err, e, d)
      | Inr _ \<Rightarrow> (case schedule_tx userId amount autoCashout d of
          Inl err \<Rightarrow> (Inl (BadRequest (if err = Internal ''P2002'' then ''You already have a bet scheduled for the next round'' else failure_message err)), e, d)
        | Inr d1 \<Rightarrow> (case scheduleBet userId amount autoCashout e of
            Inr e1 \<Rightarrow> (Inr (), e1, d1)
          | Inl rej \<Rightarrow> (case unschedule_tx userId amount d1 of
              Inl err \<Rightarrow> (Inl err, e, d1)
            | Inr d2 \<Rightarrow> (Inl (BadRequest (failure_message rej)), e, d2)))))"

definition cancel_tx :: "nat \<Rightarrow> db \<Rightarrow> (int option \<times> db) result" where
  "cancel_tx userId d = (case map_of (scheduledCrashBets d) userId of
      None \<Rightarrow> Inr (None, d)
    | Some row \<Rightarrow>
        bindE (applyBalanceDelta userId (xs_amountLamports row) (crash_meta_of ''refund'' None) d) (\<lambda>(_, d1).
          Inr (Some (xs_amountLamports row), d1\<lparr>scheduledCrashBets := AList.delete userId (scheduledCrashBets d1)\<rparr>)))"

definition cancel_scheduled_bet :: "nat \<Rightarrow> crash_engine \<Rightarrow> db \<Rightarrow> int result \<times> crash_engine \<times> db" where
  "cancel_scheduled_bet userId e d = (case cancel_tx userId d of
      Inl err \<Rightarrow> (Inl err, e, d)
    | Inr (None, d1) \<Rightarrow> (Inl (BadRequest ''No scheduled bet to cancel''), e, d1)
    | Inr (Some amount, d1) \<Rightarrow> (Inr amount, (case cancelScheduled userId e of Inl _ \<Rightarrow> e | Inr (_, e1) \<Rightarrow> e1), d1))"


subsection \<open>What the requests do to the books\<close>

lemma crash_meta_currency [simp]: "currency (crash_meta_of w i) = Jeton"
  by (simp add: crash_meta_of_def)

lemma claim_crash_frame: "claimIdempotency u s k d = Inr (r, d') \<Longrightarrow> same_money d d' \<and> same_crash d d'"
  using claim_same[of u s k d r d'] by (auto simp: claimIdempotency_def same_crash_def split: if_splits option.splits)

lemma store_crash_frame: "storeIdempotency u s k r d = Inr d' \<Longrightarrow> same_money d d' \<and> same_crash d d'"
  using store_same[of u s k r d d'] by (auto simp: storeIdempotency_def same_crash_def split: if_splits option.splits)

lemma referral_crash_frame: "creditReferral enforced now u s g d = Inr d' \<Longrightarrow> same_money d d' \<and> same_crash d d'"
  using creditReferral_same[of enforced now u s g d d'] commission_frame[of enforced now u s g d d'] by (simp add: same_crash_def)

lemma ensure_crash_frame:
  assumes "ensureRoundPersisted e d = Inr d'"
  shows "same_money d d' \<and> crashBets d' = crashBets d \<and> (crash_over rid d \<longrightarrow> crash_over rid d')"
  using assms by (auto simp: ensureRoundPersisted_def Let_def crash_over_def intro!: same_moneyI split: option.splits if_splits)

lemma crash_bet_tx_spec:
  assumes "crash_bet_tx rid u amount auto key d = Inr (Fresh_bet, d')"
  shows "posts [(u, Jeton, - amount)] d d' \<and> crashRounds d' = crashRounds d \<and> map_of (crashBets d) (rid, u) = None
    \<and> crashBets d' = AList.update (rid, u) (fresh_crash_bet amount auto) (crashBets d)"
proof -
  obtain d0 b d1 n where c: "claimIdempotency u ''crash_bet'' key d = Inr (None, d0)"
      "applyBalanceDelta u (- amount) (crash_meta_of ''crash_bet'' (Some rid)) d0 = Inr (b, d1)"
      "insert_crash_bet rid u (fresh_crash_bet amount auto) d1 = Inr (n, d')" "n \<noteq> 0"
    using assms by (auto simp: crash_bet_tx_def split: option.splits)
  have i: "map_of (crashBets d1) (rid, u) = None" "d' = d1\<lparr>crashBets := AList.update (rid, u) (fresh_crash_bet amount auto) (crashBets d1)\<rparr>"
    using c(3,4) by (auto simp: insert_crash_bet_def split: if_splits)
  have "same_money d1 d'" by (simp add: i(2) same_moneyI)
  then have "posts [(u, Jeton, - amount)] d d'"
    using posts_between claim_crash_frame[OF c(1)] applyBalanceDelta_posts[OF c(2)] by fastforce
  then show ?thesis using i claim_crash_frame[OF c(1)] same_crash_delta[OF c(2)] by (simp add: same_crash_def)
qed

text \<open>
  C34. A bet that the engine refuses can be given back twice: its row is deleted in a transaction of its own after the refund, so a
  restart between the two finds it with its whole stake in play. The player ends up with the stake more than before the bet.
\<close>

theorem rejected_bet_refunded_twice:
  assumes "crash_bet_tx rid u amount auto key d = Inr (Fresh_bet, d1)" and "refund_bet_tx (Some rid) u amount d1 = Inr d2"
    and "recover_tx env rid seedId (rows_of rid d2) d2 = Inr d3" and "rows_of rid d = []" and "0 < amount"
  shows "posts [(u, Jeton, - amount), (u, Jeton, amount), (u, Jeton, amount)] d d3"
proof -
  note B = crash_bet_tx_spec[OF assms(1)]
  obtain b where r: "applyBalanceDelta u amount (crash_meta_of ''refund'' (Some rid)) d1 = Inr (b, d2)"
    using assms(2) by (auto simp: refund_bet_tx_def)
  have "rows_of rid d2 = [(u, fresh_crash_bet amount auto)]"
  proof -
    have "AList.update k v t = t @ [(k, v)]" if "map_of t k = None" for k v and t :: "(nat \<times> nat, crash_bet) table"
      using that by (induction t) (auto split: if_splits)
    then show ?thesis using assms(4) B same_crash_delta[OF r] by (simp add: rows_of_def same_crash_def)
  qed
  then have "posts [(u, Jeton, amount)] d2 d3"
    using recover_tx_cases[OF assms(3)] assms(5) by (simp add: recovery_journal_def fresh_crash_bet_def credit_row_def)
  moreover have "posts [(u, Jeton, amount)] d1 d2" using applyBalanceDelta_posts[OF r] by simp
  ultimately show ?thesis using B by (blast intro: posts_Cons)
qed

text \<open>
  C35. Nothing of a bet asks whether the round is still open in the database, nor whether this process still leads: a process that has
  lost its leadership during the betting window keeps taking bets into a round that another process has already closed. The stake is
  debited, and since the round is closed neither a settlement nor a recovery of it, by anyone and at any time, pays anything back.
\<close>

theorem stale_round_takes_bets:
  assumes "place_crash_bet env json u amount auto key e d = (Inr (Inl rid), e', d')" and "crash_over rid d"
  shows "posts [(u, Jeton, - amount)] d d'
    \<and> (\<exists>r. map_of (crashBets d') (rid, u) = Some r \<and> xb_remainingLamports r = amount)
    \<and> (\<forall>env' c faults out d''. settle_crash env' faults rid c d' = (out, d'') \<longrightarrow> out \<noteq> Settled \<and> same_money d' d'')
    \<and> (\<forall>env' seedId rows. \<exists>err. recover_tx env' rid seedId rows d' = Inl err)"
proof -
  obtain d0 d1 d2 where c: "ensureRoundPersisted e d = Inr d0" "crash_bet_tx rid u amount auto key d0 = Inr (Fresh_bet, d1)"
      "creditReferral (env_enforced (en_play env)) (x_now env) u amount Crash d1 = Inr d2"
      "storeIdempotency u ''crash_bet'' key (json rid) d2 = Inr d'"
    using assms(1) by (auto simp: place_crash_bet_def split: option.splits sum.splits bet_claim.splits prod.splits)
  note E = ensure_crash_frame[OF c(1), of rid] and B = crash_bet_tx_spec[OF c(2)]
    and R = referral_crash_frame[OF c(3)] and S = store_crash_frame[OF c(4)]
  have "posts [(u, Jeton, - amount)] d d'" using posts_between B E R S same_money_trans by blast
  moreover have "crashRounds d' = crashRounds d0" "crashBets d' = crashBets d1" using B R S by (simp_all add: same_crash_def)
  then have over: "crash_over rid d'" and "map_of (crashBets d') (rid, u) = Some (fresh_crash_bet amount auto)"
    using E B assms(2) by (auto simp: crash_over_def)
  moreover have "out \<noteq> Settled \<and> same_money d' d''" if "settle_crash env' faults rid c d' = (out, d'')" for env' c faults out d''
    using settle_crash_cases[OF that] attempts_over[OF over] by (metis recordFailure_frame(1) same_money_refl)
  ultimately show ?thesis using recover_tx_over[OF over] by (simp add: fresh_crash_bet_def)
qed

subsection \<open>Witnesses\<close>

lemma crash_db_debit:
  obtains b d1 where "applyBalanceDelta 1 (- 2000000) (crash_meta_of ''crash_bet'' (Some 7)) crash_db = Inr (b, d1)"
  using debit_ok[of crash_db 1 new_user "crash_meta_of ''crash_bet'' (Some 7)" 2000000] by (auto simp: crash_db_def)

lemma crash_db_sel: "crashRounds crash_db = [(7, crash_row0)]" "crashBets crash_db = []" "idempotencyKeys crash_db = []" "users crash_db = [(1, new_user)]"
  by (simp_all add: crash_db_def)

lemma bet_on_7:
  obtains d1 where "crash_bet_tx 7 1 2000000 None None crash_db = Inr (Fresh_bet, d1)" "user_ids d1 = {1}" "seeds d1 = seeds crash_db"
proof -
  obtain b dA where a: "applyBalanceDelta 1 (- 2000000) (crash_meta_of ''crash_bet'' (Some 7)) crash_db = Inr (b, dA)" using crash_db_debit .
  have s: "crashRounds dA = [(7, crash_row0)]" "crashBets dA = []" using same_crash_delta[OF a] by (simp_all add: same_crash_def crash_db_sel)
  have "crash_bet_tx 7 1 2000000 None None crash_db = Inr (Fresh_bet, dA\<lparr>crashBets := [((7, 1), fresh_crash_bet 2000000 None)]\<rparr>)"
    using a s by (simp add: crash_bet_tx_def claimIdempotency_def has_key_def insert_crash_bet_def guardE_def)
  then show thesis using that delta_ids[OF a] applyBalanceDelta_frame[OF a] by (simp add: user_ids_def crash_db_sel)
qed

theorem rejected_bet_refunded_twice_witness:
  "\<exists>d1 d2 d3. crash_bet_tx 7 1 2000000 None None crash_db = Inr (Fresh_bet, d1) \<and> refund_bet_tx (Some 7) 1 2000000 d1 = Inr d2
     \<and> recover_tx crash_env0 7 0 (rows_of 7 d2) d2 = Inr d3
     \<and> posts [(1, Jeton, - 2000000), (1, Jeton, 2000000), (1, Jeton, 2000000)] crash_db d3"
proof -
  obtain d1 where 1: "crash_bet_tx 7 1 2000000 None None crash_db = Inr (Fresh_bet, d1)" "user_ids d1 = {1}" "seeds d1 = seeds crash_db" using bet_on_7 .
  note B = crash_bet_tx_spec[OF 1(1)]
  have "1 \<in> user_ids d1" "maxBalance (crash_meta_of ''refund'' (Some 7)) = None" using 1(2) by (simp_all add: crash_meta_of_def)
  then obtain b d2 where r: "applyBalanceDelta 1 2000000 (crash_meta_of ''refund'' (Some 7)) d1 = Inr (b, d2)" by (meson credit_ok zero_le_numeral)
  then have 2: "refund_bet_tx (Some 7) 1 2000000 d1 = Inr d2" by (simp add: refund_bet_tx_def)
  have rows: "crashRounds d2 = [(7, crash_row0)]" "crashBets d2 = [((7, 1), fresh_crash_bet 2000000 None)]"
    using B same_crash_delta[OF r] by (simp_all add: same_crash_def crash_db_sel)
  have "\<exists>d3. recover_tx crash_env0 7 0 (rows_of 7 d2) d2 = Inr d3"
  proof (rule recover_tx_ok)
    show "map_of (crashRounds d2) 7 = Some crash_row0" "keyed (crashBets d2)" by (simp_all add: rows keyed_def)
    show "live_status (xr_status crash_row0)" by (rule crash_db_ok(2))
    show "map_of (seeds d2) 0 \<noteq> None" using 1(3) applyBalanceDelta_frame[OF r] by (simp add: crash_db_def)
    show "u \<in> user_ids d2" if "map_of (crashBets d2) (7, u) = Some x" for u x
      using that 1(2) delta_ids[OF r] by (simp add: rows split: if_splits)
  qed
  then obtain d3 where 3: "recover_tx crash_env0 7 0 (rows_of 7 d2) d2 = Inr d3" by blast
  have "rows_of 7 crash_db = []" by (simp add: rows_of_def crash_db_sel)
  from rejected_bet_refunded_twice[OF 1(1) 2 3 this] show ?thesis using 1(1) 2 3 by auto
qed

definition busted_db :: db where
  "busted_db = crash_db\<lparr>crashRounds := [(7, crash_row0\<lparr>xr_status := CrashBusted\<rparr>)]\<rparr>"

theorem stale_round_takes_bets_witness:
  "\<exists>e' d'. place_crash_bet crash_env0 (\<lambda>_. ''{}'') 1 2000000 None None ((new_crash_engine 0)\<lparr>xe_current := round7 []\<rparr>) busted_db = (Inr (Inl 7), e', d')
     \<and> crash_over 7 busted_db \<and> posts [(1, Jeton, - 2000000)] busted_db d'"
proof -
  define e where "e = (new_crash_engine 0)\<lparr>xe_current := round7 []\<rparr>"
  have "assertCanWager (env_wager offline_env) 1 2000000 busted_db = Inr ()"
    by (simp add: assertCanWager_def offline_env_def busted_db_def crash_db_def)
  then have ok: "crash_bettor crash_env0 1 2000000 None busted_db = Inr ()"
    by (simp add: crash_bettor_def crash_bet_ok_def guardE_def CRASH_MIN_BET_LAMPORTS_def CRASH_MAX_BET_LAMPORTS_def LAMPORTS_PER_SOL_def
        busted_db_def crash_db_sel crash_env0_def)
  have persisted: "ensureRoundPersisted e busted_db = Inr busted_db" "xc_id (xe_current e) = Some 7"
    by (simp_all add: ensureRoundPersisted_def e_def round7_def busted_db_def Let_def)
  obtain b dA where a: "applyBalanceDelta 1 (- 2000000) (crash_meta_of ''crash_bet'' (Some 7)) busted_db = Inr (b, dA)"
    using debit_ok[of busted_db 1 new_user "crash_meta_of ''crash_bet'' (Some 7)" 2000000] by (auto simp: busted_db_def crash_db_sel)
  define d1 where "d1 = dA\<lparr>crashBets := [((7, 1), fresh_crash_bet 2000000 None)]\<rparr>"
  have s: "crashRounds dA = [(7, crash_row0\<lparr>xr_status := CrashBusted\<rparr>)]" "crashBets dA = []"
    using same_crash_delta[OF a] by (simp_all add: same_crash_def busted_db_def crash_db_sel)
  have t: "crash_bet_tx 7 1 2000000 None None busted_db = Inr (Fresh_bet, d1)"
    using a s by (simp add: crash_bet_tx_def claimIdempotency_def has_key_def insert_crash_bet_def guardE_def d1_def)
  obtain e1 where p: "placeBet crash_env0 (Some (Some 7)) 1 2000000 None e = Inr e1"
    by (simp add: placeBet_def e_def new_crash_engine_def round7_def placeholder_crash_def guardE_def Let_def)
  have "1 \<in> user_ids d1" using delta_ids[OF a] by (simp add: d1_def user_ids_def)
  then obtain d2 where r: "creditReferral (env_enforced (en_play crash_env0)) (x_now crash_env0) 1 2000000 Crash d1 = Inr d2" by (rule referral_ok)
  have "place_crash_bet crash_env0 (\<lambda>_. ''{}'') 1 2000000 None None e busted_db = (Inr (Inl 7), e1, d2)"
    using ok persisted t p r by (simp add: place_crash_bet_def storeIdempotency_def has_key_def)
  moreover have "crash_over 7 busted_db" by (simp add: crash_over_def busted_db_def)
  ultimately show ?thesis using stale_round_takes_bets[of crash_env0 "\<lambda>_. ''{}''" 1 2000000 None None e busted_db 7 e1 d2] by (auto simp: e_def)
qed

end
