(* ===== verification/Crash_Flight.thy ===== *)
theory Crash_Flight
  imports Crash_Service
begin

text \<open>
  The engine of crash with the requests of the players as one transition system: what every state that it can reach looks like,
  whatever the order of bets, cash-outs, timers, restarts and drains, and whatever else happens to the database.
\<close>

inductive crash_step :: "crash_engine \<times> db \<Rightarrow> crash_engine \<times> db \<Rightarrow> bool" where
  Request_bet: "place_crash_bet env json u amount auto key e d = (r, e', d') \<Longrightarrow> crash_step (e, d) (e', d')"
| Request_cash: "cash_out_request env u percent e d = (r', e', d') \<Longrightarrow> crash_step (e, d) (e', d')"
| Request_schedule: "schedule_crash_bet env u amount auto e d = (r'', e', d') \<Longrightarrow> crash_step (e, d) (e', d')"
| Request_cancel: "cancel_scheduled_bet u e d = (r''', e', d') \<Longrightarrow> crash_step (e, d) (e', d')"
| Timer_due: "(t, due) \<in> set (xe_timers e) \<Longrightarrow> due \<le> x_now env
    \<Longrightarrow> fire_crash env faults fresh t (e\<lparr>xe_timers := remove1 (t, due) (xe_timers e)\<rparr>) d = (e', d') \<Longrightarrow> crash_step (e, d) (e', d')"
| Watchdog: "crash_watchdog env fresh e d = (e', d') \<Longrightarrow> crash_step (e, d) (e', d')"
| Elected: "assumeLeadership env fresh e d = (e', d') \<Longrightarrow> crash_step (e, d) (e', d')"
| Demoted: "crash_step (e, d) (reset_timers e, d)"
| Drain: "begin_drain env ms e d = (e', d') \<Longrightarrow> crash_step (e, d) (e', d')"
| Elsewhere: "crash_step (e, d) (e, d')"

definition bet_typed :: "rat \<Rightarrow> crash_status \<Rightarrow> live_bet \<Rightarrow> bool" where
  "bet_typed bp phase b \<longleftrightarrow> CRASH_MIN_BET_LAMPORTS \<le> lv_originalAmountLamports b \<and> lv_originalAmountLamports b \<le> CRASH_MAX_BET_LAMPORTS
     \<and> 0 \<le> lv_amountLamports b \<and> lv_amountLamports b \<le> lv_originalAmountLamports b
     \<and> 0 \<le> lv_payoutLamports b \<and> lv_payoutLamports b \<le> lv_originalAmountLamports b + MAX_WIN_PER_BET_LAMPORTS
     \<and> (case lv_autoCashout b of None \<Rightarrow> True | Some a \<Rightarrow> MIN_CASHOUT_MULTIPLIER \<le> a \<and> a \<le> MAX_CASHOUT_MULTIPLIER)
     \<and> (case lv_cashedOutAt b of None \<Rightarrow> True | Some m \<Rightarrow> m < bp \<and> lv_amountLamports b = 0)
     \<and> (phase = CrashWaiting \<longrightarrow> lv_amountLamports b = lv_originalAmountLamports b \<and> lv_payoutLamports b = 0 \<and> lv_cashedOutAt b = None)"

definition round_typed :: "crash_live \<Rightarrow> bool" where
  "round_typed c \<longleftrightarrow> (\<forall>u b. map_of (xc_bets c) u = Some b \<longrightarrow> bet_typed (xc_bustPoint c) (xc_phase c) b)"

definition queue_typed :: "(nat, scheduled_bet) table \<Rightarrow> bool" where
  "queue_typed qs \<longleftrightarrow> (\<forall>(u, q) \<in> set qs. crash_bet_ok (xs_amountLamports q) (xs_autoCashoutMultiplier q) = Inr ())"

text \<open>At most one callback is pending, and it fits the phase of the round.\<close>

definition timers_typed :: "crash_engine \<Rightarrow> bool" where
  "timers_typed e \<longleftrightarrow> length (xe_timers e) \<le> 1
     \<and> (\<forall>(t, _) \<in> set (xe_timers e). (t = Begin_run \<longrightarrow> xc_phase (xe_current e) = CrashWaiting) \<and> (t = Tick_run \<longrightarrow> xc_phase (xe_current e) = CrashRunning))"

definition engine_typed :: "crash_engine \<Rightarrow> bool" where
  "engine_typed e \<longleftrightarrow> round_typed (xe_current e) \<and> queue_typed (xe_nextRoundBets e) \<and> timers_typed e \<and> length (xe_history e) \<le> HISTORY_SIZE"

subsection \<open>Each operation keeps the types\<close>

lemma to_fixed2_nonneg: "0 \<le> x \<Longrightarrow> 0 \<le> to_fixed2 x"
  unfolding to_fixed2_def by (rule centi_nonneg) simp

lemma currentMultiplier_nonneg: "0 \<le> currentMultiplier env c"
  by (auto simp: currentMultiplier_def to_fixed2_nonneg split: option.splits)

lemma cash_payout_nonneg: "0 \<le> p \<Longrightarrow> 0 \<le> m \<Longrightarrow> 0 \<le> round_payout_at p m"
proof -
  assume "0 \<le> p" "0 \<le> m"
  then have "0 \<le> fl (m * 100)" by (simp add: fl_nonneg)
  then have "0 \<le> js_round (fl (m * 100))" by (simp add: js_round_def)
  then show ?thesis using \<open>0 \<le> p\<close> by (simp add: round_payout_at_def bigint_div_ge0)
qed

lemma crash_bet_ok_iff: "crash_bet_ok amount auto = Inr () \<longleftrightarrow> CRASH_MIN_BET_LAMPORTS \<le> amount \<and> amount \<le> CRASH_MAX_BET_LAMPORTS
    \<and> (case auto of None \<Rightarrow> True | Some a \<Rightarrow> MIN_CASHOUT_MULTIPLIER \<le> a \<and> a \<le> MAX_CASHOUT_MULTIPLIER)"
  by (auto simp: crash_bet_ok_def guardE_def)

lemma placeBet_typed:
  assumes "placeBet env rid u amount auto e = Inr e'" and "engine_typed e" and "crash_bet_ok amount auto = Inr ()"
  shows "engine_typed e' \<and> xe_timers e' = xe_timers e \<and> xe_nextRoundBets e' = xe_nextRoundBets e \<and> xc_phase (xe_current e') = xc_phase (xe_current e)"
proof -
  obtain g where e': "e' = e\<lparr>xe_current := (xe_current e)\<lparr>xc_exposure := g, xc_bets := AList.update u \<lparr>lv_amountLamports = amount,
      lv_originalAmountLamports = amount, lv_payoutLamports = 0, lv_autoCashout = auto, lv_cashedOutAt = None\<rparr> (xc_bets (xe_current e))\<rparr>\<rparr>"
    using assms(1) by (auto simp: placeBet_def Let_def)
  define b where "b = \<lparr>lv_amountLamports = amount, lv_originalAmountLamports = amount, lv_payoutLamports = 0, lv_autoCashout = auto, lv_cashedOutAt = None\<rparr>"
  have "0 < CRASH_MIN_BET_LAMPORTS" "0 < MAX_WIN_PER_BET_LAMPORTS"
    by (simp_all add: CRASH_MIN_BET_LAMPORTS_def MAX_WIN_PER_BET_LAMPORTS_def LAMPORTS_PER_SOL_def)
  then have b: "bet_typed (xc_bustPoint (xe_current e)) (xc_phase (xe_current e)) b" using assms(3) unfolding crash_bet_ok_iff by (simp add: bet_typed_def b_def)
  have "round_typed (xe_current e')" using assms(2) b unfolding e' b_def[symmetric] engine_typed_def round_typed_def
    by simp
  then show ?thesis using assms(2) by (simp add: e' engine_typed_def timers_typed_def)
qed

lemma cash_out_mem_typed:
  assumes c: "cash_out_mem env u percent at' e = Inr (reply, e')" and t: "engine_typed e"
    and m: "case at' of None \<Rightarrow> True | Some x \<Rightarrow> 0 \<le> x \<and> x < xc_bustPoint (xe_current e)"
  shows "engine_typed e' \<and> xe_timers e' = xe_timers e \<and> xe_nextRoundBets e' = xe_nextRoundBets e
    \<and> xc_phase (xe_current e') = xc_phase (xe_current e) \<and> xc_bustPoint (xe_current e') = xc_bustPoint (xe_current e)"
proof -
  define pct where "pct = min 100 (max 1 (js_floor percent))"
  define mult where "mult = (case at' of Some x \<Rightarrow> x | None \<Rightarrow> currentMultiplier env (xe_current e))"
  obtain b where b: "map_of (xc_bets (xe_current e)) u = Some b" using c by (auto simp: cash_out_mem_def Let_def split: option.splits)
  define portion where "portion = (if pct \<ge> 100 then lv_amountLamports b else bigint_div (lv_amountLamports b * pct) 100)"
  define room where "room = lv_originalAmountLamports b + MAX_WIN_PER_BET_LAMPORTS - lv_payoutLamports b"
  define raw where "raw = round_payout_at portion mult"
  define payout where "payout = (if raw > room then (if room > 0 then room else 0) else raw)"
  define b1 where "b1 = b\<lparr>lv_amountLamports := lv_amountLamports b - portion, lv_payoutLamports := lv_payoutLamports b + payout,
      lv_cashedOutAt := (if lv_amountLamports b - portion = 0 then Some mult else lv_cashedOutAt b)\<rparr>"
  have e': "e' = e\<lparr>xe_current := (xe_current e)\<lparr>xc_bets := AList.update u b1 (xc_bets (xe_current e))\<rparr>\<rparr>"
    and g: "xc_phase (xe_current e) = CrashRunning" "lv_cashedOutAt b = None" "at' = None \<longrightarrow> mult < xc_bustPoint (xe_current e)" "0 < portion"
    using c unfolding cash_out_mem_def Let_def b option.case mult_def[symmetric] pct_def[symmetric] portion_def[symmetric] room_def[symmetric]
      raw_def[symmetric] payout_def[symmetric] b1_def[symmetric] by (auto simp: mult_def)
  have old: "bet_typed (xc_bustPoint (xe_current e)) (xc_phase (xe_current e)) b" using t b by (simp add: engine_typed_def round_typed_def)
  then have a: "0 \<le> lv_amountLamports b" "0 \<le> room" by (auto simp: bet_typed_def room_def)
  have pct: "1 \<le> pct" "pct \<le> 100" by (auto simp: pct_def)
  have "bigint_div (lv_amountLamports b * pct) 100 * 100 \<le> lv_amountLamports b * pct" using a pct by (intro bigint_div_mult_le) simp_all
  also have "\<dots> \<le> lv_amountLamports b * 100" using a pct by (intro mult_left_mono) simp_all
  finally have le: "portion \<le> lv_amountLamports b" by (simp add: portion_def)
  have mult: "0 \<le> mult" "mult < xc_bustPoint (xe_current e)"
    using m g(3) currentMultiplier_nonneg by (auto simp: mult_def split: option.splits)
  have "0 \<le> raw" using cash_payout_nonneg[of portion mult] g(4) mult(1) by (simp add: raw_def)
  then have pay: "0 \<le> payout" "payout \<le> room" using a(2) by (auto simp: payout_def)
  have "bet_typed (xc_bustPoint (xe_current e)) (xc_phase (xe_current e)) b1" using old pay le g mult(2) by (auto simp: bet_typed_def b1_def room_def)
  then show ?thesis using t by (simp add: e' engine_typed_def round_typed_def timers_typed_def)
qed

text \<open>What the parts of a step keep: the types, the pending callbacks, the phase and the queue.\<close>

definition keeps :: "crash_engine \<Rightarrow> crash_engine \<Rightarrow> bool" where
  "keeps e e' \<longleftrightarrow> engine_typed e' \<and> xe_timers e' = xe_timers e \<and> xe_nextRoundBets e' = xe_nextRoundBets e \<and> xc_phase (xe_current e') = xc_phase (xe_current e)"

lemma keeps_refl: "engine_typed e \<Longrightarrow> keeps e e" by (simp add: keeps_def)

lemma keeps_trans: "keeps e e1 \<Longrightarrow> keeps e1 e2 \<Longrightarrow> keeps e e2" by (simp add: keeps_def)

lemma keeps_typed: "keeps e e' \<Longrightarrow> engine_typed e'" by (simp add: keeps_def)

lemma cashOut_keeps:
  assumes "cashOut env u percent at' e d = (r, e', d')" and "engine_typed e"
    and "case at' of None \<Rightarrow> True | Some x \<Rightarrow> 0 \<le> x \<and> x < xc_bustPoint (xe_current e)"
  shows "keeps e e'"
proof (cases "cash_out_mem env u percent at' e")
  case (Inl err) then show ?thesis using assms by (simp add: cashOut_def keeps_refl)
next
  case (Inr p)
  obtain reply e1 where p: "p = (reply, e1)" by fastforce
  have "e' = e1" using assms(1) Inr p by (auto simp: cashOut_def split: option.splits sum.splits)
  then show ?thesis using cash_out_mem_typed[OF Inr[unfolded p] assms(2,3)] by (simp add: keeps_def)
qed

lemma capMultiplier_nonneg:
  assumes "bet_typed bp ph b" and "capMultiplier b = Some m"
  shows "0 \<le> m"
proof -
  let ?room = "lv_originalAmountLamports b + MAX_WIN_PER_BET_LAMPORTS - lv_payoutLamports b"
  have a: "0 < lv_amountLamports b" and m: "m = centi (js_floor (fl (of_int (bigint_div (?room * 100) (lv_amountLamports b)))))"
    using assms(2) by (auto simp: capMultiplier_def split: if_splits)
  have "0 \<le> bigint_div (?room * 100) (lv_amountLamports b)" using assms(1) a by (intro bigint_div_ge0) (simp_all add: bet_typed_def)
  then have "0 \<le> fl (of_int (bigint_div (?room * 100) (lv_amountLamports b)))" by (intro fl_nonneg) simp
  then show ?thesis unfolding m js_floor_def by (intro centi_nonneg) simp
qed

lemma auto_target_nonneg: "bet_typed bp ph b \<Longrightarrow> auto_target b = Some x \<Longrightarrow> 0 \<le> x"
  using capMultiplier_nonneg[of bp ph b] fl_nonneg[of "101 / 100"]
  by (auto simp: auto_target_def bet_typed_def MIN_CASHOUT_MULTIPLIER_def split: option.splits)

lemma auto_cash_keeps:
  assumes "auto_cash env m u e d = (e', d')" and "engine_typed e"
  shows "keeps e e'"
proof (cases "e' = e")
  case False
  then obtain b x where b: "map_of (xc_bets (xe_current e)) u = Some b" "auto_target b = Some x" "x < xc_bustPoint (xe_current e)"
    and c: "(e', d') = snd (cashOut env u 100 (Some x) e d)"
    using assms(1) by (auto simp: auto_cash_def split: option.splits if_splits)
  have "bet_typed (xc_bustPoint (xe_current e)) (xc_phase (xe_current e)) b" using assms(2) b(1) by (simp add: engine_typed_def round_typed_def)
  then have "0 \<le> x" using auto_target_nonneg b(2) by blast
  moreover obtain r where "cashOut env u 100 (Some x) e d = (r, e', d')" using c by (metis prod.collapse)
  ultimately show ?thesis using cashOut_keeps assms(2) b(3) by fastforce
qed (simp add: assms(2) keeps_refl)

lemma auto_cash_all_keeps: "auto_cash_all env m us e d = (e', d') \<Longrightarrow> engine_typed e \<Longrightarrow> keeps e e'"
proof (induction us arbitrary: e d)
  case (Cons u us)
  obtain e1 d1 where a: "auto_cash env m u e d = (e1, d1)" by fastforce
  note k = auto_cash_keeps[OF a Cons.prems(2)]
  with Cons.IH[of e1 d1] Cons.prems(1) a keeps_trans keeps_typed[OF k] show ?case by auto
qed (simp add: keeps_refl)

lemma drop_bet_keeps: "engine_typed e \<Longrightarrow> keeps e (drop_bet u e)"
  by (auto simp: keeps_def drop_bet_def engine_typed_def round_typed_def timers_typed_def delete_conv' split: if_splits)

lemma drain_one_keeps:
  assumes "drain_one env (u, q) e d = (e', d')" and "engine_typed e" and q: "crash_bet_ok (xs_amountLamports q) (xs_autoCashoutMultiplier q) = Inr ()"
  shows "keeps e e'"
proof (cases "placeBet env None u (xs_amountLamports q) (xs_autoCashoutMultiplier q) e")
  case (Inl err) then show ?thesis using assms by (auto simp: drain_one_def drop_bet_keeps)
next
  case (Inr e1)
  have k: "keeps e e1" using placeBet_typed[OF Inr assms(2) q] by (simp add: keeps_def)
  have "e' = e1 \<or> e' = drop_bet u e1" using assms(1) Inr by (auto simp: drain_one_def split: option.splits sum.splits)
  then show ?thesis using k keeps_trans drop_bet_keeps keeps_typed by blast
qed

lemma drain_queue_keeps: "drain_queue env qs e d = (e', d') \<Longrightarrow> engine_typed e \<Longrightarrow> queue_typed qs \<Longrightarrow> keeps e e'"
proof (induction qs arbitrary: e d)
  case (Cons p qs)
  obtain u q where p: "p = (u, q)" by fastforce
  obtain e1 d1 where a: "drain_one env (u, q) e d = (e1, d1)" by fastforce
  have k: "keeps e e1" using Cons.prems(3) by (intro drain_one_keeps[OF a Cons.prems(2)]) (simp add: queue_typed_def p)
  have "keeps e1 e'" using Cons.IH[of e1 d1] Cons.prems a keeps_typed[OF k] by (simp add: p queue_typed_def)
  then show ?case using keeps_trans k by blast
qed (simp add: keeps_refl)

text \<open>The steps of the loop start with no callback pending.\<close>

lemma startNewRound_typed:
  assumes "startNewRound env fresh e d = Inr (e', d')" and t: "engine_typed e" "xe_timers e = []"
  shows "engine_typed e'"
proof (cases "\<not> en_leader env \<or> xe_draining e")
  case False
  obtain e1 d1 where o: "open_round env fresh e d = Inr (e1, d1)" using assms(1) False by (auto simp: startNewRound_def)
  have e1: "xc_bets (xe_current e1) = []" "xc_phase (xe_current e1) = CrashWaiting" "xe_timers e1 = []" "xe_nextRoundBets e1 = xe_nextRoundBets e"
    "xe_history e1 = xe_history e"
    using o t(2) by (auto simp: open_round_def Let_def split_def)
  then have typed: "engine_typed e1" using t by (simp add: engine_typed_def round_typed_def timers_typed_def)
  obtain e2 d2 where q: "drain_queue env (xe_nextRoundBets e1) e1 d1 = (e2, d2)" by fastforce
  have k: "keeps e1 e2" using drain_queue_keeps[OF q typed] typed by (simp add: engine_typed_def)
  have "e' = e2\<lparr>xe_nextRoundBets := [], xe_timers := schedule Begin_run BET_WINDOW_MS (x_now env) (xe_timers e2)\<rparr>"
    using assms(1) False o q by (simp add: startNewRound_def)
  then show ?thesis using k e1 by (simp add: keeps_def engine_typed_def timers_typed_def schedule_def queue_typed_def)
qed (use assms in \<open>simp add: startNewRound_def\<close>)

lemma resume_typed:
  assumes "resume env fresh e d = (e', d')" and "engine_typed e"
  shows "engine_typed e'"
proof (cases "xe_draining e \<or> \<not> en_leader env")
  case False
  define e1 where "e1 = (reset_timers e)\<lparr>xe_lastProgressAt := x_now env\<rparr>"
  have e1: "engine_typed e1" "xe_timers e1 = []" using assms(2) by (auto simp: e1_def reset_timers_def engine_typed_def timers_typed_def)
  show ?thesis
  proof (cases "startNewRound env fresh e1 (recover_crashes env d)")
    case (Inl err)
    then have "e' = e1\<lparr>xe_timers := schedule Resume_loop (retryDelayMs (en_tuning env) 2) (x_now env) (xe_timers e1)\<rparr>"
      using assms(1) False by (simp add: resume_def Let_def e1_def[symmetric])
    then show ?thesis using e1 by (simp add: engine_typed_def timers_typed_def schedule_def)
  next
    case (Inr p)
    then have "startNewRound env fresh e1 (recover_crashes env d) = Inr (e', d')"
      using assms(1) False by (simp add: resume_def Let_def e1_def[symmetric])
    then show ?thesis using startNewRound_typed e1 by blast
  qed
qed (use assms in \<open>auto simp: resume_def\<close>)

lemma bet_typed_phase: "bet_typed bp CrashWaiting b \<Longrightarrow> bet_typed bp' ph b" "bet_typed bp ph b \<Longrightarrow> bet_typed bp CrashBusted b"
  by (auto simp: bet_typed_def)

lemma round_typed_waiting: "round_typed c \<Longrightarrow> xc_phase c = CrashWaiting \<Longrightarrow> xc_bets c' = xc_bets c \<Longrightarrow> round_typed c'"
  using bet_typed_phase(1) unfolding round_typed_def by (metis (no_types))

lemma round_typed_busted: "round_typed c \<Longrightarrow> round_typed (c\<lparr>xc_phase := CrashBusted\<rparr>)"
  using bet_typed_phase(2) unfolding round_typed_def by simp blast

text \<open>The bust point may still change while the bets are open.\<close>

lemma waiting_typed:
  assumes "engine_typed e" and "xc_phase (xe_current e) = CrashWaiting" and "xc_bets c = xc_bets (xe_current e)" and "xc_phase c = CrashWaiting"
  shows "engine_typed (e\<lparr>xe_current := c\<rparr>)"
  using assms round_typed_waiting by (auto simp: engine_typed_def timers_typed_def)

lemma run_now_typed:
  assumes "run_now env e d = (r, e', d')" and "engine_typed e" and "xc_phase (xe_current e) = CrashWaiting" and "xe_timers e = []"
  shows "engine_typed e' \<and> (r = Inr () \<or> xe_timers e' = [])"
  using assms round_typed_waiting[of "xe_current e" "(xe_current e)\<lparr>xc_phase := CrashRunning, xc_startedAt := Some (x_now env)\<rparr>"]
  by (auto simp: run_now_def Let_def schedule_def engine_typed_def timers_typed_def split: sum.splits)

lemma typed_fields [simp]: "engine_typed (e\<lparr>xe_lastProgressAt := t\<rparr>) = engine_typed e" "engine_typed (e\<lparr>xe_draining := b\<rparr>) = engine_typed e"
  "engine_typed (e\<lparr>xe_currentEntropy := s\<rparr>) = engine_typed e"
  by (simp_all add: engine_typed_def timers_typed_def)

lemma fulfill_typed:
  assumes "fulfillBeacon env e d = (r, e', d') \<or> fulfillEntropy env e d = (r', e', d')" and "engine_typed e" and "xc_phase (xe_current e) = CrashWaiting"
  shows "engine_typed e' \<and> xc_phase (xe_current e') = CrashWaiting \<and> xe_timers e' = xe_timers e"
  using assms waiting_typed[OF assms(2,3)]
  by (auto simp: fulfillBeacon_def fulfillEntropy_def Let_def split: option.splits sum.splits)

lemma beginRun_typed:
  assumes b: "beginRun env fresh e d = (r, e', d')" and t: "engine_typed e" "xe_timers e = []" "xc_phase (xe_current e) = CrashWaiting"
  shows "engine_typed e'"
proof (cases "en_leader env")
  case True
  define e1 where "e1 = e\<lparr>xe_current := (xe_current e)\<lparr>xc_betsClosed := True\<rparr>\<rparr>"
  have e1: "engine_typed e1" "xe_timers e1 = []" "xc_phase (xe_current e1) = CrashWaiting"
    using t waiting_typed[OF t(1,3), of "(xe_current e)\<lparr>xc_betsClosed := True\<rparr>"] by (simp_all add: e1_def)
  consider (beacon) "xc_beaconRound (xe_current e1) \<noteq> None" | (entropy) "xc_beaconRound (xe_current e1) = None" "cn_entropyOn env"
    | (plain) "xc_beaconRound (xe_current e1) = None" "\<not> cn_entropyOn env" by blast
  then show ?thesis
  proof cases
    case beacon
    obtain r2 e2 d2 where f: "fulfillBeacon env (e1\<lparr>xe_lastProgressAt := x_now env\<rparr>) d = (r2, e2, d2)" by (metis prod_cases3)
    then have e2: "engine_typed e2" "xc_phase (xe_current e2) = CrashWaiting" "xe_timers e2 = []" using fulfill_typed[OF disjI1[OF f]] e1 by auto
    have "(r, e', d') = (case r2 of Inl err \<Rightarrow> (Inl err, e2, d2) | Inr True \<Rightarrow> run_now env e2 d2 | Inr False \<Rightarrow> (Inr (), resume env fresh e2 d2))"
      using b True beacon f by (auto simp: beginRun_def Let_def e1_def[symmetric] split: sum.splits bool.splits)
    then show ?thesis using run_now_typed[of env e2 d2] resume_typed[of env fresh e2 d2] e2
      by (auto split: sum.splits bool.splits) (metis prod.collapse)+
  next
    case entropy
    obtain r2 e2 d2 where f: "fulfillEntropy env e1 d = (r2, e2, d2)" by (metis prod_cases3)
    then have e2: "engine_typed e2" "xc_phase (xe_current e2) = CrashWaiting" "xe_timers e2 = []" using fulfill_typed[OF disjI2[OF f]] e1 by auto
    have "(r, e', d') = (case r2 of Inl err \<Rightarrow> (Inl err, e2, d2) | Inr _ \<Rightarrow> run_now env e2 d2)"
      using b True entropy f by (auto simp: beginRun_def Let_def e1_def[symmetric] split: sum.splits)
    then show ?thesis using run_now_typed[of env e2 d2] e2 by (auto split: sum.splits) metis
  next
    case plain
    then have "run_now env e1 d = (r, e', d')" using b True by (simp add: beginRun_def Let_def e1_def[symmetric])
    then show ?thesis using run_now_typed e1 by blast
  qed
qed (use b t in \<open>simp add: beginRun_def\<close>)

lemma bust_typed:
  assumes b: "bust env faults fresh e d = (e', d')" and t: "engine_typed e" "xe_timers e = []"
  shows "engine_typed e'"
proof (cases "en_leader env")
  case True
  define c where "c = (xe_current e)\<lparr>xc_phase := CrashBusted\<rparr>"
  define e1 where "e1 = e\<lparr>xe_current := c, xe_lastProgressAt := x_now env, xe_history := take HISTORY_SIZE
      (\<lparr>xh_roundId = (case xc_id c of None \<Rightarrow> 0 | Some i \<Rightarrow> i), xh_bustPoint = xc_bustPoint c, xh_serverSeed = Some (xc_serverSeed c),
        xh_serverSeedHash = xc_serverSeedHash c, xh_clientSeed = xc_clientSeed c, xh_nonce = xc_nonce c, xh_beaconRound = xc_beaconRound c,
        xh_slotHash = xe_currentEntropy e\<rparr> # xe_history e)\<rparr>"
  have e1: "engine_typed e1" "xe_timers e1 = []"
    using t round_typed_busted[of "xe_current e"] by (simp_all add: e1_def c_def engine_typed_def timers_typed_def)
  have "(e', d') = (case xc_id c of None \<Rightarrow> resume env fresh e1 d
      | Some rid \<Rightarrow> (case settle_crash env faults rid c d of (Settle_failed, d1) \<Rightarrow> resume env fresh e1 d1
             | (_, d1) \<Rightarrow> (if xe_draining e1 then e1 else e1\<lparr>xe_timers := schedule Start_round 3000 (x_now env) (xe_timers e1)\<rparr>, d1)))"
    using b True unfolding bust_def Let_def c_def[symmetric] e1_def[symmetric] by simp
  then consider d1 where "resume env fresh e1 d1 = (e', d')" | "e' = e1" | "e' = e1\<lparr>xe_timers := schedule Start_round 3000 (x_now env) (xe_timers e1)\<rparr>"
    by (auto split: option.splits settle_outcome.splits prod.splits if_splits)
  then show ?thesis
    by cases (use resume_typed e1 in \<open>auto simp: engine_typed_def timers_typed_def schedule_def\<close>)
qed (use b t in \<open>simp add: bust_def\<close>)

lemma tick_run_typed:
  assumes b: "tick_run env faults fresh e d = (e', d')" and t: "engine_typed e" "xe_timers e = []" "xc_phase (xe_current e) = CrashRunning"
  shows "engine_typed e'"
proof (cases "en_leader env")
  case True
  let ?m = "currentMultiplier env (xe_current e)"
  obtain e1 d1 where a: "runAutoCashouts env ?m (e\<lparr>xe_lastProgressAt := x_now env\<rparr>) d = (e1, d1)" by fastforce
  have k: "keeps (e\<lparr>xe_lastProgressAt := x_now env\<rparr>) e1" using auto_cash_all_keeps a t(1) by (simp add: runAutoCashouts_def)
  have "(e', d') = (if ?m \<ge> xc_bustPoint (xe_current e1) then bust env faults fresh e1 d1
      else (e1\<lparr>xe_timers := schedule Tick_run (1000 div TICK_RATE_HZ) (x_now env) (xe_timers e1)\<rparr>, d1))"
    using b True a by (simp add: tick_run_def Let_def)
  then show ?thesis using k t bust_typed[of env faults fresh e1 d1 e' d']
    by (auto simp: keeps_def engine_typed_def timers_typed_def schedule_def split: if_splits)
qed (use b t in \<open>simp add: tick_run_def\<close>)

lemma fire_typed:
  assumes "fire_crash env faults fresh t e d = (e', d')" and "engine_typed e" and "xe_timers e = []"
    and "t = Begin_run \<longrightarrow> xc_phase (xe_current e) = CrashWaiting" and "t = Tick_run \<longrightarrow> xc_phase (xe_current e) = CrashRunning"
  shows "engine_typed e'"
proof (cases t)
  case Begin_run
  obtain r e1 d1 where b: "beginRun env fresh e d = (r, e1, d1)" by (metis prod_cases3)
  then have "engine_typed e1" using beginRun_typed assms Begin_run by blast
  moreover have "(e', d') = (case r of Inl _ \<Rightarrow> resume env fresh e1 d1 | Inr _ \<Rightarrow> (e1, d1))"
    using assms(1) Begin_run b by (simp add: fire_crash_def guarded_def)
  ultimately show ?thesis using resume_typed[of env fresh e1 d1 e' d'] by (auto split: sum.splits)
next
  case Tick_run then show ?thesis using assms tick_run_typed by (simp add: fire_crash_def)
next
  case Start_round then show ?thesis using assms startNewRound_typed resume_typed by (auto simp: fire_crash_def split: sum.splits)
next
  case Resume_loop then show ?thesis using assms resume_typed by (simp add: fire_crash_def)
qed

subsection \<open>Every state that is reached is well typed\<close>

lemma place_crash_bet_typed:
  assumes "place_crash_bet env json u amount auto key e d = (r, e', d')" and "engine_typed e"
  shows "engine_typed e'"
proof (cases "e' = e")
  case False
  then obtain rid where "crash_bet_ok amount auto = Inr ()" "placeBet env (Some (Some rid)) u amount auto e = Inr e'"
    using assms(1) by (auto simp: place_crash_bet_def crash_bettor_def split: option.splits sum.splits bet_claim.splits prod.splits)
  then show ?thesis using placeBet_typed assms(2) by blast
qed (use assms in simp)

lemma crash_bettor_ok: "crash_bettor env u amount auto d = Inr () \<Longrightarrow> crash_bet_ok amount auto = Inr ()"
  by (auto simp: crash_bettor_def)

lemma watchdog_typed: "crash_watchdog env fresh e d = (e', d') \<Longrightarrow> engine_typed e \<Longrightarrow> engine_typed e'"
  using resume_typed by (auto simp: crash_watchdog_def split: if_splits)

lemma begin_drain_typed: "begin_drain env ms e d = (e', d') \<Longrightarrow> engine_typed e \<Longrightarrow> engine_typed e'"
  by (auto simp: begin_drain_def engine_typed_def queue_typed_def timers_typed_def split: if_splits)

lemma schedule_crash_bet_typed:
  assumes "schedule_crash_bet env u amount auto e d = (r, e', d')" and "engine_typed e"
  shows "engine_typed e'"
proof (cases "e' = e")
  case False
  then have "crash_bettor env u amount auto d = Inr ()" "scheduleBet u amount auto e = Inr e'"
    using assms(1) by (auto simp: schedule_crash_bet_def split: sum.splits)
  then have s: "crash_bet_ok amount auto = Inr ()" "scheduleBet u amount auto e = Inr e'" using crash_bettor_ok by auto
  have "set (AList.update u q qs) \<subseteq> insert (u, q) (set qs)" for q :: scheduled_bet and qs by (induction qs) auto
  then show ?thesis using s assms(2) by (fastforce simp: scheduleBet_def engine_typed_def queue_typed_def timers_typed_def)
qed (use assms in simp)

lemma cancel_typed:
  assumes "cancel_scheduled_bet u e d = (r, e', d')" and "engine_typed e"
  shows "engine_typed e'"
proof (cases "e' = e")
  case False
  then have "e' = e\<lparr>xe_nextRoundBets := AList.delete u (xe_nextRoundBets e)\<rparr>"
    using assms(1) by (auto simp: cancel_scheduled_bet_def cancelScheduled_def split: option.splits sum.splits)
  then show ?thesis using assms(2) by (auto simp: engine_typed_def queue_typed_def timers_typed_def AList.delete_eq)
qed (use assms in simp)

lemma assumeLeadership_typed:
  assumes "assumeLeadership env fresh e d = (e', d')" and "engine_typed e"
  shows "engine_typed e'"
proof -
  define d1 where "d1 = recoverScheduledBets (recover_crashes env d)"
  define e1 where "e1 = loadHistory d1 ((reset_timers e)\<lparr>xe_lastProgressAt := x_now env\<rparr>)"
  have "length (List.map_filter f xs) \<le> length xs" for f :: "nat \<times> crash_round \<Rightarrow> history_item option" and xs
    using length_filter_le[of "\<lambda>x. f x \<noteq> None" xs] by (simp add: List.map_filter_def)
  from order_trans[OF this] have "length (xe_history e1) \<le> HISTORY_SIZE" by (simp add: e1_def loadHistory_def)
  then have "engine_typed e1" "xe_timers e1 = []"
    using assms(2) by (simp_all add: e1_def loadHistory_def reset_timers_def engine_typed_def timers_typed_def)
  moreover have "(case startNewRound env fresh e1 d1 of Inr r \<Rightarrow> r | Inl _ \<Rightarrow> resume env fresh e1 d1) = (e', d')"
    using assms(1) by (simp only: assumeLeadership_def Let_def d1_def e1_def)
  ultimately show ?thesis using startNewRound_typed resume_typed by (auto split: sum.splits)
qed

lemma crash_step_typed: "crash_step s s' \<Longrightarrow> engine_typed (fst s) \<Longrightarrow> engine_typed (fst s')"
proof (induction rule: crash_step.induct)
  case (Request_cash env u percent e d r' e' d')
  obtain x where "cashOut env u percent None e d = (x, e', d')"
    using Request_cash(1) by (auto simp: cash_out_request_def split: prod.splits sum.splits)
  then show ?case using cashOut_keeps Request_cash(2) keeps_typed by fastforce
next
  case (Timer_due t due e env faults fresh d e' d')
  have "xe_timers e = [(t, due)]" using Timer_due(1,4)
    by (cases "xe_timers e") (auto simp: engine_typed_def timers_typed_def)
  then show ?case using Timer_due(3,4) fire_typed[of env faults fresh t "e\<lparr>xe_timers := []\<rparr>" d e' d']
    by (auto simp: engine_typed_def timers_typed_def)
next
  case (Demoted e d) then show ?case by (simp add: reset_timers_def engine_typed_def timers_typed_def)
qed (auto intro: place_crash_bet_typed schedule_crash_bet_typed cancel_typed watchdog_typed assumeLeadership_typed begin_drain_typed)

text \<open>
  C9. Every state that the engine of crash can reach is well typed, whatever the order of the requests of the players, the timers, the
  watchdog, elections, drains and changes of the database by others: each bet in memory lies between the limits of the stake, never has
  more in play than was bet, never owes more than the stake and the most a bet may win, has a legal target, and was cashed out only below the
  bust point and with nothing left in play; while the bets are open nothing has been paid; the queue holds legal bets only; at most one
  callback of the loop is pending, and it fits the phase; and the history stays within its size.
\<close>

theorem crash_engine_typed:
  assumes "crash_step\<^sup>*\<^sup>* (new_crash_engine now, d) (e, d')"
  shows "engine_typed e"
proof -
  have "engine_typed (fst s')" if "crash_step\<^sup>*\<^sup>* s s'" "engine_typed (fst s)" for s s'
    using that by (induction rule: rtranclp_induct) (auto intro: crash_step_typed)
  from this[OF assms] show ?thesis
    by (simp add: new_crash_engine_def placeholder_crash_def engine_typed_def round_typed_def queue_typed_def timers_typed_def)
qed

theorem crash_engine_typed_witness:
  "\<exists>e' d'. crash_step\<^sup>*\<^sup>* (new_crash_engine 0, empty_db) (e', d') \<and> xc_id (xe_current e') \<noteq> None \<and> xe_timers e' \<noteq> [] \<and> engine_typed e'"
proof -
  obtain e' d' where a: "assumeLeadership crash_env0 (''s'', ''c'') (new_crash_engine 0) empty_db = (e', d')" by fastforce
  then have "xc_id (xe_current e') \<noteq> None" "xe_timers e' \<noteq> []"
    by (auto simp: assumeLeadership_def recover_crashes_def stranded_crashes_def recoverScheduledBets_def loadHistory_def startNewRound_def
        open_round_def bust_seed_def insert_row_def schedule_def reset_timers_def new_crash_engine_def crash_env0_def Let_def List.map_filter_def)
  moreover have "crash_step\<^sup>*\<^sup>* (new_crash_engine 0, empty_db) (e', d')" using crash_step.Elected[OF a] by blast
  ultimately show ?thesis using crash_engine_typed by blast
qed

end
