(* ===== verification/Blackjack.thy ===== *)
theory Blackjack
  imports Round_Loop Fair_Cards Progress
begin

text \<open>
  The blackjack tables: \<open>apps/api/src/games/blackjack/blackjack.engine.ts\<close>. A table lives in memory; its round and the
  stakes that a restart gives back live in the database. What runs between two requests is one function here, its pauses between
  cards left out. A request makes at most four writes of its own outside the settlement; \<open>bj_lost\<close> says which of them, if any,
  does not reach the database. Broadcasts and receipts are not modelled.
\<close>

definition BJ_MIN_BET_LAMPORTS :: int where "BJ_MIN_BET_LAMPORTS = 1000000"
definition BJ_MAX_BET_LAMPORTS :: int where "BJ_MAX_BET_LAMPORTS = 100 * LAMPORTS_PER_SOL"
definition DEALER_HITS_SOFT_17 :: bool where "DEALER_HITS_SOFT_17 = True"
definition MAX_SEATS :: nat where "MAX_SEATS = 5"
definition BETTING_WINDOW_MS :: int where "BETTING_WINDOW_MS = 15000"
definition TURN_TIMEOUT_MS :: int where "TURN_TIMEOUT_MS = 15000"
definition SETTLE_PAUSE_MS :: int where "SETTLE_PAUSE_MS = 5000"
definition IDLE_ROUNDS_TO_UNSEAT :: nat where "IDLE_ROUNDS_TO_UNSEAT = 3"
definition MAX_PAYOUT_X :: int where "MAX_PAYOUT_X = 100"

definition twentyOnePlusThree_x :: "twentyone_plus_three \<Rightarrow> int" where
  "twentyOnePlusThree_x r = (case r of SuitedTrips \<Rightarrow> 100 | StraightFlush \<Rightarrow> 40 | ThreeOfAKind \<Rightarrow> 30 | Straight \<Rightarrow> 10 | Flush \<Rightarrow> 6 | NoTriple \<Rightarrow> 0)"

definition perfectPairs_x :: "perfect_pairs \<Rightarrow> int" where
  "perfectPairs_x r = (case r of Perfect \<Rightarrow> 25 | Colored \<Rightarrow> 12 | Mixed \<Rightarrow> 6 | NoPair \<Rightarrow> 0)"

subsection \<open>Tables and seats\<close>

datatype bj_phase = Bj_idle | Bj_betting | Bj_dealing | Bj_player_turns | Bj_dealer_turn | Bj_settled

datatype hand_status = Hand_playing | Hand_standing | Hand_busted | Hand_blackjack

datatype seat_result = Res_win | Res_lose | Res_push | Res_blackjack

record bj_seat =
  st_userId :: nat
  st_idleRounds :: nat
  st_bet :: "seat_bet option"
  st_cards :: "card list"
  st_status :: hand_status
  st_doubled :: bool
  st_side21p3Outcome :: "twentyone_plus_three option"
  st_sidePerfectPairsOutcome :: "perfect_pairs option"
  st_result :: "seat_result option"
  st_payoutLamports :: int

datatype bj_timer = Deal_timer | Turn_timer nat | Idle_timer

record bj_table =
  tb_id :: nat
  tb_name :: string
  tb_isPrivate :: bool
  tb_ownerId :: "nat option"
  tb_maxSeats :: nat
  tb_phase :: bj_phase
  tb_closeAt :: "int option"
  tb_activeSeat :: "nat option"
  tb_seats :: "(nat, bj_seat) table"
  tb_dealerCards :: "card list"
  tb_dealerHidden :: bool
  tb_deckIndex :: nat
  tb_dealLog :: "deal_entry list"
  tb_roundDbId :: "nat option"
  tb_seedId :: "nat option"
  tb_serverSeed :: "string option"
  tb_serverSeedHash :: "string option"
  tb_clientSeed :: "string option"
  tb_dealSeed :: "string option"
  tb_nonce :: nat
  tb_timer :: "(bj_timer \<times> int) option"
  tb_lastActivityAt :: int
  tb_exposure :: "exposure_guard option"

record bj_env = engine_env +
  bj_chainEnabled :: bool
  bj_bankroll :: "int option"
  bj_lost :: "nat option"

abbreviation bj_now :: "bj_env \<Rightarrow> int" where
  "bj_now env \<equiv> env_now (en_play env)"

text \<open>The connection goes at the write that is lost: the earlier ones stay.\<close>

definition written :: "bj_env \<Rightarrow> nat \<Rightarrow> unit result" where
  "written env i = (case bj_lost env of None \<Rightarrow> Inr () | Some n \<Rightarrow> if i < n then Inr () else Inl (Internal ''connection closed''))"

definition betTotal :: "seat_bet \<Rightarrow> int" where
  "betTotal b = mainLamports b + side21p3Lamports b + sidePerfectPairsLamports b"

definition update_bj_round :: "nat option \<Rightarrow> (blackjack_round \<Rightarrow> blackjack_round) \<Rightarrow> db \<Rightarrow> db result" where
  "update_bj_round rid f d = (case rid of
      None \<Rightarrow> Inl (Internal ''invalid uuid'')
    | Some i \<Rightarrow> (case map_of (blackjackRounds d) i of
        None \<Rightarrow> Inl (Internal ''P2025'')
      | Some r \<Rightarrow> Inr (d\<lparr>blackjackRounds := AList.update i (f r) (blackjackRounds d)\<rparr>)))"

definition update_bj_table :: "nat \<Rightarrow> table_status \<Rightarrow> db \<Rightarrow> db result" where
  "update_bj_table tid s d = (case map_of (blackjackTables d) tid of
      None \<Rightarrow> Inl (Internal ''P2025'')
    | Some r \<Rightarrow> Inr (d\<lparr>blackjackTables := AList.update tid (r\<lparr>bt_status := s\<rparr>) (blackjackTables d)\<rparr>))"

text \<open>What \<open>stateJson\<close> keeps of the seats: the bets of the window, or all seats once the hand is dealt.\<close>

definition betting_stakes :: "bj_table \<Rightarrow> (nat \<times> seat_bet option) list" where
  "betting_stakes t = map (\<lambda>(_, s). (st_userId s, st_bet s)) (filter (\<lambda>(_, s). st_bet s \<noteq> None) (tb_seats t))"

definition snapshot_seats :: "bj_table \<Rightarrow> (nat \<times> seat_bet option) list" where
  "snapshot_seats t = map (\<lambda>(_, s). (st_userId s, st_bet s)) (tb_seats t)"

definition persistBettingStakes :: "bj_env \<Rightarrow> nat \<Rightarrow> bj_table \<Rightarrow> db \<Rightarrow> db result" where
  "persistBettingStakes env i t d =
     (if tb_roundDbId t = None then Inr d
      else bindE (written env i) (\<lambda>_. update_bj_round (tb_roundDbId t) (\<lambda>r. r\<lparr>br_seats := betting_stakes t\<rparr>) d))"

definition createTable :: "int \<Rightarrow> string \<Rightarrow> bool \<Rightarrow> nat option \<Rightarrow> (nat, bj_table) table \<Rightarrow> db \<Rightarrow> nat \<times> (nat, bj_table) table \<times> db" where
  "createTable now name isPrivate ownerId ts d =
     (let seats = (if isPrivate then 1 else MAX_SEATS);
          (tid, rows) = insert_row \<lparr>bt_name = name, bt_status = Table_waiting, bt_maxSeats = seats\<rparr> (blackjackTables d);
          t = \<lparr>tb_id = tid, tb_name = name, tb_isPrivate = isPrivate, tb_ownerId = ownerId, tb_maxSeats = seats, tb_phase = Bj_idle,
               tb_closeAt = None, tb_activeSeat = None, tb_seats = [], tb_dealerCards = [], tb_dealerHidden = True, tb_deckIndex = 0,
               tb_dealLog = [], tb_roundDbId = None, tb_seedId = None, tb_serverSeed = None, tb_serverSeedHash = None, tb_clientSeed = None,
               tb_dealSeed = None, tb_nonce = 0, tb_timer = None, tb_lastActivityAt = now, tb_exposure = None\<rparr>
      in (tid, AList.update tid t ts, d\<lparr>blackjackTables := rows\<rparr>))"

definition seatedCount :: "(nat, bj_table) table \<Rightarrow> nat" where
  "seatedCount ts = sum_list (map (\<lambda>(_, t). if tb_isPrivate t then 0 else length (tb_seats t)) ts)"

record table_item =
  ti_id :: nat
  ti_name :: string
  ti_phase :: bj_phase
  ti_seatedCount :: nat
  ti_maxSeats :: nat

definition listTables :: "(nat, bj_table) table \<Rightarrow> table_item list" where
  "listTables ts = map (\<lambda>(_, t). \<lparr>ti_id = tb_id t, ti_name = tb_name t, ti_phase = tb_phase t, ti_seatedCount = length (tb_seats t), ti_maxSeats = tb_maxSeats t\<rparr>)
     (filter (\<lambda>(_, t). \<not> tb_isPrivate t) ts)"

definition findLobby :: "int \<Rightarrow> (nat, bj_table) table \<Rightarrow> db \<Rightarrow> nat \<times> (nat, bj_table) table \<times> db" where
  "findLobby now ts d =
     (case sort_key (\<lambda>(_, t). length (tb_seats t)) (filter (\<lambda>(_, t). \<not> tb_isPrivate t \<and> length (tb_seats t) < tb_maxSeats t) ts) of
        (_, t) # _ \<Rightarrow> (tb_id t, ts, d)
      | [] \<Rightarrow> createTable now (''Table '' @ decimal (length ts + 1)) False None ts d)"

definition soloTable :: "int \<Rightarrow> nat \<Rightarrow> (nat, bj_table) table \<Rightarrow> db \<Rightarrow> nat \<times> (nat, bj_table) table \<times> db" where
  "soloTable now userId ts d = (case find (\<lambda>(_, t). tb_isPrivate t \<and> tb_ownerId t = Some userId) ts of
      Some (_, t) \<Rightarrow> (tb_id t, ts, d)
    | None \<Rightarrow> createTable now ''Private Table'' True (Some userId) ts d)"

definition sweepPrivateTables :: "int \<Rightarrow> (nat, bj_table) table \<Rightarrow> (nat, bj_table) table" where
  "sweepPrivateTables now ts = filter (\<lambda>(_, t). \<not> (tb_isPrivate t \<and> tb_seats t = [] \<and> tb_phase t = Bj_idle \<and> tb_lastActivityAt t < now - 600000)) ts"

definition seat_of :: "nat \<Rightarrow> bj_table \<Rightarrow> (nat \<times> bj_seat) option" where
  "seat_of userId t = find (\<lambda>(_, s). st_userId s = userId) (tb_seats t)"

definition takeSeat :: "int \<Rightarrow> nat \<Rightarrow> nat \<Rightarrow> bj_table \<Rightarrow> bj_table result" where
  "takeSeat now seatIndex userId t =
     bindE (guardE (seatIndex < tb_maxSeats t) (Internal ''Invalid seat'')) (\<lambda>_.
     bindE (guardE (\<not> (tb_isPrivate t \<and> tb_ownerId t \<noteq> Some userId)) (Internal ''Private table'')) (\<lambda>_.
     bindE (guardE (map_of (tb_seats t) seatIndex = None) (Internal ''Seat taken'')) (\<lambda>_.
     bindE (guardE (seat_of userId t = None) (Internal ''You are already seated at this table'')) (\<lambda>_.
       Inr (t\<lparr>tb_seats := AList.update seatIndex \<lparr>st_userId = userId, st_idleRounds = 0, st_bet = None, st_cards = [], st_status = Hand_playing,
              st_doubled = False, st_side21p3Outcome = None, st_sidePerfectPairsOutcome = None, st_result = None, st_payoutLamports = 0\<rparr> (tb_seats t),
              tb_lastActivityAt := now\<rparr>)))))"

text \<open>The refund that the service is told to credit; the seat is gone even when the stakes could not be saved.\<close>

definition leaveSeat :: "bj_env \<Rightarrow> nat \<Rightarrow> bj_table \<Rightarrow> db \<Rightarrow> int result \<times> bj_table \<times> db" where
  "leaveSeat env userId t d = (case seat_of userId t of
      None \<Rightarrow> (Inl (Internal ''Not seated''), t, d)
    | Some (i, s) \<Rightarrow>
        if st_bet s \<noteq> None \<and> tb_phase t \<noteq> Bj_betting \<and> tb_phase t \<noteq> Bj_idle \<and> tb_phase t \<noteq> Bj_settled
        then (Inl (Internal ''Hand in progress - finish the round first''), t, d)
        else
          let t1 = t\<lparr>tb_seats := AList.delete i (tb_seats t), tb_lastActivityAt := bj_now env\<rparr> in
          (case st_bet s of
             Some b \<Rightarrow>
               if tb_phase t = Bj_betting
               then (case persistBettingStakes env 0 t1 d of
                       Inl err \<Rightarrow> (Inl err, t1, d)
                     | Inr d1 \<Rightarrow> (Inr (betTotal b), t1, d1))
               else (Inr 0, t1, d)
           | None \<Rightarrow> (Inr 0, t1, d)))"

subsection \<open>Betting\<close>

definition seat_potential :: "int \<Rightarrow> int" where
  "seat_potential x = potential x (of_int MAX_PAYOUT_X)"

definition reset_seat :: "bj_seat \<Rightarrow> bj_seat" where
  "reset_seat s = s\<lparr>st_cards := [], st_status := Hand_playing, st_doubled := False, st_side21p3Outcome := None,
     st_sidePerfectPairsOutcome := None, st_result := None, st_payoutLamports := 0\<rparr>"

definition map_seats :: "(bj_seat \<Rightarrow> bj_seat) \<Rightarrow> bj_table \<Rightarrow> bj_table" where
  "map_seats f t = t\<lparr>tb_seats := map (\<lambda>(i, s). (i, f s)) (tb_seats t)\<rparr>"

definition round_guard :: "bj_env \<Rightarrow> bj_table \<Rightarrow> exposure_guard option" where
  "round_guard env t = (if bj_chainEnabled env
     then map_option (\<lambda>house. foldl (\<lambda>g (_, s). case st_bet s of None \<Rightarrow> g | Some b \<Rightarrow> snd (reserve (seat_potential (betTotal b)) g))
            (new_guard house) (tb_seats t)) (bj_bankroll env)
     else None)"

text \<open>The seed that the deck is dealt from.\<close>

definition deal_seed :: "bj_env \<Rightarrow> string \<Rightarrow> string \<Rightarrow> string result" where
  "deal_seed env serverSeed clientSeed = (case env_chain (en_play env) of
      None \<Rightarrow> Inr serverSeed
    | Some roundEntropy \<Rightarrow>
        (case roundEntropy \<lparr>ctx_serverSeed = serverSeed, ctx_serverSeedHash = commitServerSeed (env_sha (en_play env)) serverSeed,
                 ctx_clientSeed = clientSeed, ctx_nonce = 0\<rparr> of
            None \<Rightarrow> Inr serverSeed
          | Some entropy \<Rightarrow> bindE (deriveSeedContext (env_sha (en_play env)) (env_text (en_play env)) serverSeed clientSeed 0 (Some entropy) [])
              (\<lambda>s. Inr (sc_serverSeed s))))"

definition betting_round :: "bj_env \<Rightarrow> string \<times> string \<Rightarrow> nat \<Rightarrow> nat \<Rightarrow> bj_table \<Rightarrow> bj_table" where
  "betting_round env = (\<lambda>(serverSeed, clientSeed) seedId rid t.
     (map_seats reset_seat t)\<lparr>tb_exposure := round_guard env t, tb_closeAt := Some (bj_now env + BETTING_WINDOW_MS), tb_activeSeat := None,
        tb_dealerCards := [], tb_dealerHidden := True, tb_deckIndex := 0, tb_dealLog := [], tb_roundDbId := Some rid, tb_seedId := Some seedId,
        tb_serverSeed := Some serverSeed, tb_serverSeedHash := Some (commitServerSeed (env_sha (en_play env)) serverSeed),
        tb_clientSeed := Some clientSeed, tb_nonce := 0, tb_dealSeed := Some serverSeed\<rparr>)"

definition openBetting :: "bj_env \<Rightarrow> string \<times> string \<Rightarrow> bj_table \<Rightarrow> db \<Rightarrow> unit result \<times> bj_table \<times> db" where
  "openBetting env fresh t d =
     (let (serverSeed, clientSeed) = fresh; t0 = t\<lparr>tb_timer := None, tb_phase := Bj_betting, tb_closeAt := None\<rparr> in
      case written env 0 of
        Inl err \<Rightarrow> (Inl err, t0, d)
      | Inr _ \<Rightarrow>
        let (seedId, seedRows) = insert_row \<lparr>sd_serverSeed = serverSeed, sd_serverSeedHash = commitServerSeed (env_sha (en_play env)) serverSeed,
              sd_clientSeed = clientSeed, sd_nonce = 0, sd_revealedAt = None\<rparr> (seeds d); d1 = d\<lparr>seeds := seedRows\<rparr> in
        (case written env 1 of
           Inl err \<Rightarrow> (Inl err, t0, d1)
         | Inr _ \<Rightarrow>
           let (rid, rounds) = insert_row \<lparr>br_tableId = tb_id t, br_seedId = seedId, br_nonce = 0, br_seats = [], br_endedAt = None\<rparr> (blackjackRounds d1);
               d2 = d1\<lparr>blackjackRounds := rounds\<rparr>; t1 = betting_round env fresh seedId rid t0 in
           (case deal_seed env serverSeed clientSeed of
              Inl err \<Rightarrow> (Inl err, t1, d2)
            | Inr seed \<Rightarrow>
              let t2 = t1\<lparr>tb_dealSeed := Some seed\<rparr> in
              (case bindE (written env 2) (\<lambda>_. update_bj_table (tb_id t) Table_betting d2) of
                 Inl err \<Rightarrow> (Inl err, t2, d2)
               | Inr d3 \<Rightarrow> (case persistBettingStakes env 3 t2 d3 of
                   Inl err \<Rightarrow> (Inl err, t2, d3)
                 | Inr d4 \<Rightarrow> (Inr (), t2\<lparr>tb_timer := Some (Deal_timer, bj_now env + BETTING_WINDOW_MS)\<rparr>, d4))))))"

definition swap_reservation :: "int \<Rightarrow> int \<Rightarrow> exposure_guard \<Rightarrow> (exposure_guard, exposure_guard) sum" where
  "swap_reservation prev total' g =
     (let prevPotential = (if prev > 0 then seat_potential prev else 0);
          g1 = release prevPotential g; (ok, g2) = reserve (seat_potential total') g1
      in if ok then Inr g2 else Inl (snd (reserve prevPotential g1)))"

text \<open>The previous stake, which the service credits back.\<close>

definition placeSeatBet :: "bj_env \<Rightarrow> string \<times> string \<Rightarrow> nat \<Rightarrow> seat_bet \<Rightarrow> bj_table \<Rightarrow> db \<Rightarrow> int result \<times> bj_table \<times> db" where
  "placeSeatBet env fresh userId b t d =
     (if tb_phase t \<noteq> Bj_idle \<and> tb_phase t \<noteq> Bj_betting \<and> tb_phase t \<noteq> Bj_settled
      then (Inl (Internal ''Bets are closed - wait for the next round''), t, d)
      else case seat_of userId t of
        None \<Rightarrow> (Inl (Internal ''Take a seat first''), t, d)
      | Some (i, s) \<Rightarrow>
        let t0 = (if tb_phase t = Bj_settled then map_seats (\<lambda>s. s\<lparr>st_bet := None\<rparr>) t else t);
            s0 = (if tb_phase t = Bj_settled then s\<lparr>st_bet := None\<rparr> else s);
            prev = (case st_bet s0 of None \<Rightarrow> 0 | Some p \<Rightarrow> betTotal p) in
        (case (if bj_chainEnabled env \<and> tb_phase t0 = Bj_betting
               then (case tb_exposure t0 of None \<Rightarrow> Inr None | Some g \<Rightarrow> (case swap_reservation prev (betTotal b) g of Inl g1 \<Rightarrow> Inl g1 | Inr g1 \<Rightarrow> Inr (Some g1)))
               else Inr (tb_exposure t0)) of
           Inl g1 \<Rightarrow> (Inl (Internal ''Round exposure limit reached - try a smaller bet or the next round''), t0\<lparr>tb_exposure := Some g1\<rparr>, d)
         | Inr g1 \<Rightarrow>
           let t1 = t0\<lparr>tb_exposure := g1, tb_seats := AList.update i (s0\<lparr>st_bet := Some b, st_idleRounds := 0\<rparr>) (tb_seats t0), tb_lastActivityAt := bj_now env\<rparr> in
           (if tb_phase t1 = Bj_idle \<or> tb_phase t1 = Bj_settled
            then (case openBetting env fresh t1 d of
                    (Inl err, t2, d1) \<Rightarrow> (Inl err, t2, d1)
                  | (Inr _, t2, d1) \<Rightarrow> (Inr prev, t2, d1))
            else (case persistBettingStakes env 0 t1 d of
                    Inl err \<Rightarrow> (Inl err, t1, d)
                  | Inr d1 \<Rightarrow> (Inr prev, t1, d1)))))"

definition clearSeatBet :: "bj_env \<Rightarrow> nat \<Rightarrow> bj_table \<Rightarrow> db \<Rightarrow> int result \<times> bj_table \<times> db" where
  "clearSeatBet env userId t d =
     (if tb_phase t \<noteq> Bj_betting then (Inl (Internal ''No open betting window''), t, d)
      else case seat_of userId t of
        None \<Rightarrow> (Inl (Internal ''No bet to clear''), t, d)
      | Some (i, s) \<Rightarrow> (case st_bet s of
          None \<Rightarrow> (Inl (Internal ''No bet to clear''), t, d)
        | Some b \<Rightarrow>
            let t1 = t\<lparr>tb_seats := AList.update i (s\<lparr>st_bet := None\<rparr>) (tb_seats t),
                       tb_exposure := map_option (release (seat_potential (betTotal b))) (tb_exposure t)\<rparr> in
            (case persistBettingStakes env 0 t1 d of
               Inl err \<Rightarrow> (Inl err, t1, d)
             | Inr d1 \<Rightarrow> (Inr (betTotal b), t1, d1))))"


subsection \<open>The hand\<close>

definition seatHandId :: "nat \<Rightarrow> string" where
  "seatHandId seatIndex = ''seat-'' @ decimal seatIndex @ ''-0''"

definition hand_of :: "recipient \<Rightarrow> string" where
  "hand_of r = (case r of Seat i \<Rightarrow> seatHandId i | Dealer \<Rightarrow> ''dealer'')"

text \<open>The next card of the stream, logged and given to its recipient.\<close>

definition next_card :: "bj_env \<Rightarrow> bj_table \<Rightarrow> card" where
  "next_card env t = (case (tb_dealSeed t, tb_clientSeed t) of
      (Some s, Some c) \<Rightarrow> blackjackDeal (env_hmac (en_play env)) s c (tb_nonce t) (tb_deckIndex t + 1) ! tb_deckIndex t
    | _ \<Rightarrow> deal_card (env_hmac (en_play env)) [] [] (tb_nonce t) (tb_deckIndex t))"

definition drawCard :: "bj_env \<Rightarrow> recipient \<Rightarrow> bj_table \<Rightarrow> bj_table" where
  "drawCard env r t =
     (let c = next_card env t;
          t1 = t\<lparr>tb_deckIndex := tb_deckIndex t + 1,
                 tb_dealLog := tb_dealLog t @ [\<lparr>deckIndex = tb_deckIndex t, dealtTo = r, handId = hand_of r, logged_card = Some c\<rparr>]\<rparr>
      in case r of
           Dealer \<Rightarrow> t1\<lparr>tb_dealerCards := tb_dealerCards t @ [c]\<rparr>
         | Seat i \<Rightarrow> (case map_of (tb_seats t) i of
              None \<Rightarrow> t1
            | Some s \<Rightarrow> t1\<lparr>tb_seats := AList.update i (s\<lparr>st_cards := st_cards s @ [c]\<rparr>) (tb_seats t)\<rparr>))"

definition bettingSeats :: "bj_table \<Rightarrow> (nat \<times> bj_seat) list" where
  "bettingSeats t = sort_key fst (filter (\<lambda>(_, s). st_bet s \<noteq> None) (tb_seats t))"

definition sit_out :: "bj_table \<Rightarrow> bj_table" where
  "sit_out t = t\<lparr>tb_seats := List.map_filter (\<lambda>(i, s).
      if st_bet s \<noteq> None then Some (i, s)
      else if st_idleRounds s + 1 \<ge> IDLE_ROUNDS_TO_UNSEAT then None
      else Some (i, s\<lparr>st_idleRounds := st_idleRounds s + 1\<rparr>)) (tb_seats t)\<rparr>"

definition deal_sequence :: "nat list \<Rightarrow> recipient list" where
  "deal_sequence players = map Seat players @ [Dealer] @ map Seat players @ [Dealer]"

definition side_outcomes :: "card list \<Rightarrow> bj_seat \<Rightarrow> bj_seat" where
  "side_outcomes dealer s = (case (st_bet s, st_cards s, dealer) of
      (Some b, c0 # c1 # _, up # _) \<Rightarrow>
         let s1 = (if side21p3Lamports b > 0 then s\<lparr>st_side21p3Outcome := Some (evaluate21Plus3 c0 c1 up)\<rparr> else s);
             s2 = (if sidePerfectPairsLamports b > 0 then s1\<lparr>st_sidePerfectPairsOutcome := Some (evaluatePerfectPairs c0 c1)\<rparr> else s1)
         in if isBlackjack (st_cards s) then s2\<lparr>st_status := Hand_blackjack\<rparr> else s2
    | _ \<Rightarrow> s)"

text \<open>The dealer hits below 17 and on a soft 17.\<close>

definition dealer_hits :: "card list \<Rightarrow> bool" where
  "dealer_hits cards \<longleftrightarrow> (let (v, soft) = handValue cards in v < 17 \<or> v = 17 \<and> soft \<and> DEALER_HITS_SOFT_17)"

lemma hard_value_pos: "1 \<le> hard_value c"
  by (auto simp: hard_value_def cardValue_def split: rank.split)

lemma dealer_hits_hard: "dealer_hits cards \<Longrightarrow> hard_total cards < 17"
  using hand_value_best[of cards] by (auto simp: dealer_hits_def DEALER_HITS_SOFT_17_def split: prod.splits if_splits)

function dealer_draws :: "bj_env \<Rightarrow> bj_table \<Rightarrow> bj_table" where
  "dealer_draws env t = (if dealer_hits (tb_dealerCards t) then dealer_draws env (drawCard env Dealer t) else t)"
  by auto
termination
proof (relation "measure (\<lambda>(_, t). nat (17 - hard_total (tb_dealerCards t)))")
  show "((env, drawCard env Dealer t), env, t) \<in> measure (\<lambda>(_, t). nat (17 - hard_total (tb_dealerCards t)))"
    if "dealer_hits (tb_dealerCards t)" for env t
    using dealer_hits_hard[OF that] hard_value_pos[of "next_card env t"] by (simp add: drawCard_def Let_def hard_total_def)
qed simp

declare dealer_draws.simps [simp del]

subsection \<open>Settlement\<close>

definition main_result :: "card list \<Rightarrow> bj_seat \<Rightarrow> seat_result" where
  "main_result dealer s =
     (let dealerBJ = isBlackjack dealer; tot = fst (handValue (st_cards s)); dealerTotal = fst (handValue dealer) in
      case st_status s of
        Hand_blackjack \<Rightarrow> if dealerBJ then Res_push else Res_blackjack
      | Hand_busted \<Rightarrow> Res_lose
      | _ \<Rightarrow> if dealerBJ then Res_lose
             else if isBust dealer \<or> tot > dealerTotal then Res_win
             else if tot = dealerTotal then Res_push else Res_lose)"

definition main_payout :: "seat_result \<Rightarrow> int \<Rightarrow> int" where
  "main_payout r x = (case r of Res_blackjack \<Rightarrow> bigint_div (x * 5) 2 | Res_win \<Rightarrow> x * 2 | Res_push \<Rightarrow> x | Res_lose \<Rightarrow> 0)"

definition side_payout :: "bj_seat \<Rightarrow> seat_bet \<Rightarrow> int" where
  "side_payout s b = (case st_side21p3Outcome s of None \<Rightarrow> 0 | Some r \<Rightarrow> side21p3Lamports b * twentyOnePlusThree_x r)
     + (case st_sidePerfectPairsOutcome s of None \<Rightarrow> 0 | Some r \<Rightarrow> sidePerfectPairsLamports b * perfectPairs_x r)"

definition seat_payout :: "card list \<Rightarrow> bj_seat \<Rightarrow> seat_bet \<Rightarrow> int" where
  "seat_payout dealer s b = main_payout (main_result dealer s) (mainLamports b) + side_payout s b"

definition resolve_seat :: "card list \<Rightarrow> bj_seat \<Rightarrow> bj_seat" where
  "resolve_seat dealer s = (case st_bet s of
      None \<Rightarrow> s
    | Some b \<Rightarrow> s\<lparr>st_result := Some (main_result dealer s), st_payoutLamports := seat_payout dealer s b\<rparr>)"

record seat_settle =
  ss_userId :: nat
  ss_stake :: int
  ss_payout :: int

definition seat_data :: "bj_table \<Rightarrow> seat_settle list" where
  "seat_data t = List.map_filter (\<lambda>(_, s). case st_bet s of
      None \<Rightarrow> None
    | Some b \<Rightarrow> Some \<lparr>ss_userId = st_userId s, ss_stake = betTotal b, ss_payout = seat_payout (tb_dealerCards t) s b\<rparr>) (bettingSeats t)"

definition bj_bet_row :: "play_env \<Rightarrow> bj_table \<Rightarrow> seat_settle \<Rightarrow> bet" where
  "bj_bet_row env t x =
     \<lparr>b_userId = ss_userId x, b_gameType = Blackjack, b_amountLamports = ss_stake x, b_payoutLamports = ss_payout x,
      b_multiplier = Some (if ss_stake x > 0 then fl (fl (of_int (ss_payout x)) / fl (of_int (ss_stake x))) else 0),
      b_status = (if ss_payout x > ss_stake x then BetWon else if ss_payout x = ss_stake x \<and> ss_stake x > 0 then BetWon else BetLost),
      b_nonce = Some (tb_nonce t), b_seedId = tb_seedId t, b_createdAt = env_now env\<rparr>"

definition settle_seat :: "play_env \<Rightarrow> bj_table \<Rightarrow> seat_settle \<Rightarrow> db \<Rightarrow> db result" where
  "settle_seat env t x d =
     (let uid = ss_userId x; stake = ss_stake x; payout = ss_payout x; netProfit = payout - stake in
     bindE (updateUser uid (bump_stats stake netProfit) d) (\<lambda>d1.
     bindE (creditReferral (env_enforced env) (env_now env) uid stake Blackjack
              (snd (accrue (env_now env) uid stake (executeUser uid (raise_biggest netProfit) d1)))) (\<lambda>d2.
     bindE (if payout > 0 then applyBalanceDelta uid payout ((jeton_meta ''blackjack_settle'' ''Bet'')\<lparr>refId := Some (length (bets d2))\<rparr>) d2 else Inr (0, d2)) (\<lambda>(_, d3).
       Inr (snd (create_bet (bj_bet_row env t x) d3))))))"

fun settle_seats :: "play_env \<Rightarrow> bj_table \<Rightarrow> seat_settle list \<Rightarrow> db \<Rightarrow> db result" where
  "settle_seats env t [] d = Inr d"
| "settle_seats env t (x # xs) d = bindE (settle_seat env t x d) (settle_seats env t xs)"

text \<open>The round is claimed by the first to set its end.\<close>

definition claim_bj :: "nat option \<Rightarrow> (blackjack_round \<Rightarrow> blackjack_round) \<Rightarrow> db \<Rightarrow> db result" where
  "claim_bj rid f d = (case rid of
      None \<Rightarrow> Inl (Internal ''invalid uuid'')
    | Some i \<Rightarrow>
        let hit = (case map_of (blackjackRounds d) i of None \<Rightarrow> None | Some r \<Rightarrow> if br_endedAt r = None then Some r else None) in
        bindE (assertRoundClaimed (if hit = None then 0 else 1) ''blackjack'') (\<lambda>_.
          Inr (case hit of None \<Rightarrow> d | Some r \<Rightarrow> d\<lparr>blackjackRounds := AList.update i (f r) (blackjackRounds d)\<rparr>)))"

definition settle_bj_tx :: "bj_env \<Rightarrow> bj_table \<Rightarrow> db \<Rightarrow> db result" where
  "settle_bj_tx env t d =
     bindE (assertStillLeader (en_leader env) ''blackjack'') (\<lambda>_.
     bindE (claim_bj (tb_roundDbId t) (\<lambda>r. r\<lparr>br_seats := snapshot_seats t, br_endedAt := Some (bj_now env)\<rparr>) d) (\<lambda>d1.
     bindE (settle_seats (en_play env) t (seat_data t) d1) (\<lambda>d2.
     bindE (case tb_seedId t of None \<Rightarrow> Inl (Internal ''invalid uuid'') | Some s \<Rightarrow> reveal_seed (bj_now env) s d2) (\<lambda>d3.
     update_bj_table (tb_id t) Table_waiting d3))))"

text \<open>A lost claim leaves the table settled without a timer; any other failure leaves it in the turn of the dealer.\<close>

definition settle_table :: "bj_env \<Rightarrow> attempt_fault \<Rightarrow> bj_table \<Rightarrow> db \<Rightarrow> bj_table \<times> db" where
  "settle_table env fault t d =
     (let t1 = (map_seats (resolve_seat (tb_dealerCards t)) t)\<lparr>tb_phase := Bj_settled\<rparr> in
      case attempt fault (settle_bj_tx env t1) d of
        (Inr _, d1) \<Rightarrow> (t1\<lparr>tb_timer := Some (Idle_timer, bj_now env + SETTLE_PAUSE_MS)\<rparr>, d1)
      | (Inl (SettleClaimLost _), d1) \<Rightarrow> (t1, d1)
      | (Inl _, d1) \<Rightarrow> (t1\<lparr>tb_phase := Bj_dealer_turn\<rparr>,
            recordFailure ''blackjack'' (Some (case tb_roundDbId t of None \<Rightarrow> tb_id t | Some r \<Rightarrow> r)) d1))"

subsection \<open>Turns\<close>

definition dealerTurn :: "bj_env \<Rightarrow> attempt_fault \<Rightarrow> bj_table \<Rightarrow> db \<Rightarrow> bj_table \<times> db" where
  "dealerTurn env fault t d =
     (let t1 = t\<lparr>tb_timer := None, tb_phase := Bj_dealer_turn, tb_activeSeat := None, tb_closeAt := None\<rparr> in
      case bindE (written env 2) (\<lambda>_. update_bj_table (tb_id t) Table_dealer_turn d) of
        Inl _ \<Rightarrow> (t1, d)
      | Inr d1 \<Rightarrow>
          let t2 = t1\<lparr>tb_dealerHidden := False\<rparr>;
              anyLive = list_ex (\<lambda>(_, s). st_status s = Hand_standing \<or> st_status s = Hand_blackjack) (bettingSeats t2);
              t3 = (if anyLive then dealer_draws env t2 else t2)
          in settle_table env fault t3 d1)"

definition next_player :: "int \<Rightarrow> bj_table \<Rightarrow> nat option" where
  "next_player fromIndex t = map_option fst (find (\<lambda>(i, s). int i > fromIndex \<and> st_status s = Hand_playing) (bettingSeats t))"

definition advanceTurn :: "bj_env \<Rightarrow> attempt_fault \<Rightarrow> int \<Rightarrow> bj_table \<Rightarrow> db \<Rightarrow> bj_table \<times> db" where
  "advanceTurn env fault fromIndex t d = (case next_player fromIndex t of
      None \<Rightarrow> dealerTurn env fault t d
    | Some i \<Rightarrow> (t\<lparr>tb_activeSeat := Some i, tb_closeAt := Some (bj_now env + TURN_TIMEOUT_MS), tb_timer := Some (Turn_timer i, bj_now env + TURN_TIMEOUT_MS)\<rparr>, d))"

definition deal :: "bj_env \<Rightarrow> attempt_fault \<Rightarrow> bj_table \<Rightarrow> db \<Rightarrow> bj_table \<times> db" where
  "deal env fault t d =
     (let players = map fst (bettingSeats t); t0 = sit_out t in
      if players = []
      then let t1 = t0\<lparr>tb_phase := Bj_idle, tb_closeAt := None\<rparr> in
           (case bindE (written env 0) (\<lambda>_. update_bj_table (tb_id t) Table_waiting d) of Inl _ \<Rightarrow> (t1, d) | Inr d1 \<Rightarrow> (t1, d1))
      else
        let t1 = t0\<lparr>tb_phase := Bj_dealing, tb_closeAt := None\<rparr> in
        (case bindE (written env 0) (\<lambda>_. update_bj_round (tb_roundDbId t) (\<lambda>r. r\<lparr>br_seats := snapshot_seats t1\<rparr>) d) of
           Inl _ \<Rightarrow> (t1, d)
         | Inr d1 \<Rightarrow>
             let t2 = fold (drawCard env) (deal_sequence players) t1; t3 = map_seats (side_outcomes (tb_dealerCards t2)) t2 in
             (case bindE (written env 1) (\<lambda>_. update_bj_table (tb_id t) Table_player_turns d1) of
                Inl _ \<Rightarrow> (t3, d1)
              | Inr d2 \<Rightarrow> advanceTurn env fault (- 1) (t3\<lparr>tb_phase := Bj_player_turns\<rparr>) d2)))"

datatype bj_action = Act_hit | Act_stand | Act_double

text \<open>The active seat when it is this player's turn.\<close>

definition active_hand :: "nat \<Rightarrow> bj_action \<Rightarrow> bj_table \<Rightarrow> (nat \<times> bj_seat) result" where
  "active_hand userId act t = (case tb_activeSeat t of
      None \<Rightarrow> Inl (Internal ''Not your turn'')
    | Some i \<Rightarrow> (case map_of (tb_seats t) i of
        None \<Rightarrow> Inl (Internal ''Not your turn'')
      | Some s \<Rightarrow>
          bindE (guardE (tb_phase t = Bj_player_turns \<and> st_userId s = userId) (Internal ''Not your turn'')) (\<lambda>_.
          bindE (guardE (st_status s = Hand_playing) (Internal ''Hand already finished'')) (\<lambda>_.
          bindE (guardE (act = Act_double \<longrightarrow> length (st_cards s) = 2) (Internal ''Double only on the first two cards'')) (\<lambda>_. Inr (i, s))))))"

definition played_seat :: "bj_action \<Rightarrow> bj_seat \<Rightarrow> bj_seat" where
  "played_seat act s =
     (let s1 = (if act = Act_double then s\<lparr>st_doubled := True, st_bet := map_option (\<lambda>b. b\<lparr>mainLamports := mainLamports b * 2\<rparr>) (st_bet s)\<rparr> else s)
      in if act = Act_stand then s\<lparr>st_status := Hand_standing\<rparr>
         else if isBust (st_cards s) then s1\<lparr>st_status := Hand_busted\<rparr>
         else if act = Act_double \<or> fst (handValue (st_cards s)) = 21 then s1\<lparr>st_status := Hand_standing\<rparr>
         else s1)"

definition play_hand :: "bj_env \<Rightarrow> bj_action \<Rightarrow> nat \<Rightarrow> bj_table \<Rightarrow> bj_table" where
  "play_hand env act i t =
     (let t1 = (if act = Act_stand then t else drawCard env (Seat i) t)
      in case map_of (tb_seats t1) i of None \<Rightarrow> t1 | Some s \<Rightarrow> t1\<lparr>tb_seats := AList.update i (played_seat act s) (tb_seats t1)\<rparr>)"

definition seat_action :: "bj_env \<Rightarrow> attempt_fault \<Rightarrow> nat \<Rightarrow> bj_action \<Rightarrow> bj_table \<Rightarrow> db \<Rightarrow> unit result \<times> bj_table \<times> db" where
  "seat_action env fault userId act t d = (case active_hand userId act t of
      Inl err \<Rightarrow> (Inl err, t, d)
    | Inr (i, _) \<Rightarrow>
        let t1 = play_hand env act i t in
        (case (if act = Act_double \<and> tb_roundDbId t \<noteq> None
               then bindE (written env 0) (\<lambda>_. update_bj_round (tb_roundDbId t) (\<lambda>r. r\<lparr>br_seats := snapshot_seats t1\<rparr>) d)
               else Inr d) of
           Inl err \<Rightarrow> (Inl err, t1, d)
         | Inr d1 \<Rightarrow>
             let t2 = t1\<lparr>tb_lastActivityAt := bj_now env\<rparr>;
                 still = (case map_of (tb_seats t2) i of None \<Rightarrow> False | Some s \<Rightarrow> st_status s = Hand_playing);
                 (t3, d2) = advanceTurn env fault (if still then int i - 1 else int i) t2 d1
             in (Inr (), t3, d2)))"

text \<open>The timer of a table.\<close>

definition fire_table :: "bj_env \<Rightarrow> attempt_fault \<Rightarrow> bj_timer \<Rightarrow> bj_table \<Rightarrow> db \<Rightarrow> bj_table \<times> db" where
  "fire_table env fault k t d = (case k of
      Deal_timer \<Rightarrow> deal env fault t d
    | Turn_timer i \<Rightarrow>
        if tb_phase t = Bj_player_turns \<and> tb_activeSeat t = Some i
        then (case map_of (tb_seats t) i of
                None \<Rightarrow> (t, d)
              | Some s \<Rightarrow>
                  if st_status s = Hand_playing
                  then advanceTurn env fault (int i) (t\<lparr>tb_seats := AList.update i (s\<lparr>st_status := Hand_standing\<rparr>) (tb_seats t)\<rparr>) d
                  else (t, d))
        else (t, d)
    | Idle_timer \<Rightarrow>
        if tb_phase t \<noteq> Bj_settled then (t, d)
        else ((map_seats (\<lambda>s. s\<lparr>st_bet := None\<rparr>) t)\<lparr>tb_phase := Bj_idle, tb_closeAt := None\<rparr>, d))"

subsection \<open>Recovery\<close>

definition toBigInt :: "int \<Rightarrow> int" where
  "toBigInt v = (if v \<ge> 0 then v else 0)"

definition parseSeatStakes :: "(nat \<times> seat_bet option) list \<Rightarrow> (nat \<times> int) list" where
  "parseSeatStakes seats = List.map_filter (\<lambda>(u, b). case b of
      None \<Rightarrow> None
    | Some b \<Rightarrow> Some (u, toBigInt (mainLamports b) + toBigInt (side21p3Lamports b) + toBigInt (sidePerfectPairsLamports b))) seats"

fun refund_seats :: "nat \<Rightarrow> (nat \<times> int) list \<Rightarrow> db \<Rightarrow> db result" where
  "refund_seats rid [] d = Inr d"
| "refund_seats rid ((u, x) # rs) d =
     bindE (if x > 0 then applyBalanceDelta u x ((jeton_meta ''blackjack_recovery_refund'' ''BlackjackRound'')\<lparr>refId := Some rid\<rparr>) d else Inr (0, d))
       (\<lambda>(_, d1). refund_seats rid rs d1)"

definition recover_bj_tx :: "bj_env \<Rightarrow> nat \<Rightarrow> nat \<Rightarrow> (nat \<times> int) list \<Rightarrow> db \<Rightarrow> db result" where
  "recover_bj_tx env rid tableId refunds d =
     bindE (claim_bj (Some rid) (\<lambda>r. r\<lparr>br_endedAt := Some (bj_now env)\<rparr>) d) (\<lambda>d1.
     bindE (refund_seats rid refunds d1) (\<lambda>d2. update_bj_table tableId Table_waiting d2))"

fun recover_bj_rounds :: "bj_env \<Rightarrow> (nat \<times> blackjack_round) list \<Rightarrow> db \<Rightarrow> db" where
  "recover_bj_rounds env [] d = d"
| "recover_bj_rounds env ((rid, r) # rs) d = (case recover_bj_tx env rid (br_tableId r) (parseSeatStakes (br_seats r)) d of
      Inr d1 \<Rightarrow> recover_bj_rounds env rs d1
    | Inl (SettleClaimLost _) \<Rightarrow> recover_bj_rounds env rs d
    | Inl _ \<Rightarrow> recover_bj_rounds env rs (recordFailure ''blackjack'' (Some rid) d))"

definition recover_blackjack :: "bj_env \<Rightarrow> db \<Rightarrow> db" where
  "recover_blackjack env d = recover_bj_rounds env (filter (\<lambda>(_, r). br_endedAt r = None) (blackjackRounds d)) d"

definition own_main_table :: "bj_env \<Rightarrow> (nat, bj_table) table \<Rightarrow> db \<Rightarrow> (nat, bj_table) table \<times> db" where
  "own_main_table env ts d = snd (createTable (bj_now env) ''Main Table'' False None ts (recover_blackjack env d))"

subsection \<open>What the table shows\<close>

record bj_view =
  bv_phase :: bj_phase
  bv_closeAt :: "int option"
  bv_activeSeat :: "nat option"
  bv_seats :: "(nat \<times> bj_seat \<times> int option) list"
  bv_dealerCards :: "card option list"
  bv_dealerTotal :: "int option"
  bv_serverSeedHash :: "string option"
  bv_serverSeed :: "string option"
  bv_dealLog :: "deal_entry list option"
  bv_clientSeed :: "string option"
  bv_nonce :: nat

definition table_view :: "bj_table \<Rightarrow> bj_view" where
  "table_view t =
     (let over = (tb_phase t = Bj_settled \<or> tb_phase t = Bj_idle) in
      \<lparr>bv_phase = tb_phase t, bv_closeAt = tb_closeAt t, bv_activeSeat = tb_activeSeat t,
       bv_seats = map (\<lambda>(i, s). (i, s, if st_cards s = [] then None else Some (fst (handValue (st_cards s))))) (tb_seats t),
       bv_dealerCards = (if tb_dealerHidden t then map (\<lambda>(i, c). if i = 1 then None else Some c) (enumerate 0 (tb_dealerCards t))
                         else map Some (tb_dealerCards t)),
       bv_dealerTotal = (if tb_dealerCards t = [] then None
          else Some (fst (handValue (if tb_dealerHidden t then take 1 (tb_dealerCards t) else tb_dealerCards t)))),
       bv_serverSeedHash = tb_serverSeedHash t, bv_serverSeed = (if over then tb_serverSeed t else None),
       bv_dealLog = (if over then Some (tb_dealLog t) else None), bv_clientSeed = tb_clientSeed t, bv_nonce = tb_nonce t\<rparr>)"

end
