(* ===== verification/Blackjack_Service.thy ===== *)
theory Blackjack_Service
  imports Blackjack Economy
begin

text \<open>
  The requests of the players at the blackjack tables: \<open>apps/api/src/games/blackjack/blackjack.service.ts\<close>. The stake is
  debited before the engine is asked, and what the engine gives back or refuses is credited, each in a transaction of its own.
\<close>

definition bj_bet_ok :: "seat_bet \<Rightarrow> unit result" where
  "bj_bet_ok b =
     bindE (guardE (BJ_MIN_BET_LAMPORTS \<le> mainLamports b \<and> mainLamports b \<le> BJ_MAX_BET_LAMPORTS) (BadRequest ''Main bet out of range'')) (\<lambda>_.
     bindE (guardE (0 \<le> side21p3Lamports b \<and> 0 \<le> sidePerfectPairsLamports b) (BadRequest ''Side bets cannot be negative'')) (\<lambda>_.
     guardE (side21p3Lamports b \<le> BJ_MAX_BET_LAMPORTS \<and> sidePerfectPairsLamports b \<le> BJ_MAX_BET_LAMPORTS) (BadRequest ''Side bet out of range'')))"

definition bj_user :: "nat \<Rightarrow> db \<Rightarrow> unit result" where
  "bj_user userId d = (case map_of (users d) userId of
      None \<Rightarrow> Inl (NotFound ''User not found'')
    | Some u \<Rightarrow> if banned u then Inl (Forbidden ''Account banned'') else Inr ())"

definition bj_debit :: "nat \<Rightarrow> int \<Rightarrow> nat \<Rightarrow> db \<Rightarrow> db result" where
  "bj_debit userId amount tableId d =
     bindE (applyBalanceDelta userId (- amount) ((jeton_meta ''blackjack_bet'' ''BlackjackTable'')\<lparr>refId := Some tableId\<rparr>) d) (\<lambda>(_, d1). Inr d1)"

definition bj_credit :: "nat \<Rightarrow> int \<Rightarrow> nat \<Rightarrow> db \<Rightarrow> db result" where
  "bj_credit userId amount tableId d =
     bindE (applyBalanceDelta userId amount ((jeton_meta ''refund'' ''BlackjackTable'')\<lparr>refId := Some tableId\<rparr>) d) (\<lambda>(_, d1). Inr d1)"

definition credit_back :: "nat \<Rightarrow> int \<Rightarrow> string \<Rightarrow> bj_table \<Rightarrow> db \<Rightarrow> unit result \<times> bj_table \<times> db" where
  "credit_back userId amount why t d = (case bj_credit userId amount (tb_id t) d of
      Inl err \<Rightarrow> (Inl err, t, d)
    | Inr d1 \<Rightarrow> (Inl (BadRequest why), t, d1))"

text \<open>The same handler takes back the whole stake when the engine throws and when the refund of the replaced bet does.\<close>

definition bet_debit :: "bj_env \<Rightarrow> nat \<Rightarrow> seat_bet \<Rightarrow> nat \<Rightarrow> db \<Rightarrow> db result" where
  "bet_debit env userId b tableId d =
     bindE (bj_bet_ok b) (\<lambda>_. bindE (bj_user userId d) (\<lambda>_. bindE (assertDepositedOnly (env_enforced (en_play env)) userId d) (\<lambda>_.
     bindE (assertCanWager (env_wager (en_play env)) userId (betTotal b) d) (\<lambda>_. bj_debit userId (betTotal b) tableId d))))"

definition place_seat_bet :: "bj_env \<Rightarrow> string \<times> string \<Rightarrow> nat \<Rightarrow> seat_bet \<Rightarrow> bj_table \<Rightarrow> db \<Rightarrow> unit result \<times> bj_table \<times> db" where
  "place_seat_bet env fresh userId b t d =
     (let tot = betTotal b in
      case bet_debit env userId b (tb_id t) d of
        Inl err \<Rightarrow> (Inl err, t, d)
      | Inr d1 \<Rightarrow> (case placeSeatBet env fresh userId b t d1 of
          (Inl err, t1, d2) \<Rightarrow> credit_back userId tot (failure_message err) t1 d2
        | (Inr prev, t1, d2) \<Rightarrow> (case (if prev > 0 then bj_credit userId prev (tb_id t) d2 else Inr d2) of
            Inl err \<Rightarrow> credit_back userId tot (failure_message err) t1 d2
          | Inr d3 \<Rightarrow> (Inr (), t1, d3))))"

definition clear_seat_bet :: "bj_env \<Rightarrow> nat \<Rightarrow> bj_table \<Rightarrow> db \<Rightarrow> int result \<times> bj_table \<times> db" where
  "clear_seat_bet env userId t d = (case clearSeatBet env userId t d of
      (Inl err, t1, d1) \<Rightarrow> (Inl (BadRequest (failure_message err)), t1, d1)
    | (Inr refund, t1, d1) \<Rightarrow> (case bj_credit userId refund (tb_id t) d1 of
        Inl err \<Rightarrow> (Inl err, t1, d1)
      | Inr d2 \<Rightarrow> (Inr refund, t1, d2)))"

definition leave_seat :: "bj_env \<Rightarrow> nat \<Rightarrow> bj_table \<Rightarrow> db \<Rightarrow> int result \<times> bj_table \<times> db" where
  "leave_seat env userId t d = (case leaveSeat env userId t d of
      (Inl err, t1, d1) \<Rightarrow> (Inl (BadRequest (failure_message err)), t1, d1)
    | (Inr refund, t1, d1) \<Rightarrow> (case (if refund > 0 then bj_credit userId refund (tb_id t) d1 else Inr d1) of
        Inl err \<Rightarrow> (Inl err, t1, d1)
      | Inr d2 \<Rightarrow> (Inr refund, t1, d2)))"

definition take_seat :: "int \<Rightarrow> nat \<Rightarrow> nat \<Rightarrow> bj_table \<Rightarrow> db \<Rightarrow> unit result \<times> bj_table" where
  "take_seat now seatIndex userId t d = (case bj_user userId d of
      Inl err \<Rightarrow> (Inl err, t)
    | Inr _ \<Rightarrow> (case takeSeat now seatIndex userId t of
        Inl err \<Rightarrow> (Inl (BadRequest (failure_message err)), t)
      | Inr t1 \<Rightarrow> (Inr (), t1)))"

text \<open>What a double costs more, debited before the engine plays it.\<close>

definition double_debit :: "bj_env \<Rightarrow> nat \<Rightarrow> bj_action \<Rightarrow> bj_table \<Rightarrow> db \<Rightarrow> (int \<times> db) result" where
  "double_debit env userId act t d =
     (if act \<noteq> Act_double then Inr (0, d)
      else case seat_of userId t of
        None \<Rightarrow> Inl (BadRequest ''No active bet'')
      | Some (_, s) \<Rightarrow> (case st_bet s of
          None \<Rightarrow> Inl (BadRequest ''No active bet'')
        | Some b \<Rightarrow>
            bindE (bj_user userId d) (\<lambda>_.
            bindE (assertCanWager (env_wager (en_play env)) userId (mainLamports b) d) (\<lambda>_.
            bindE (bj_debit userId (mainLamports b) (tb_id t) d) (\<lambda>d1. Inr (mainLamports b, d1))))))"

definition play_action :: "bj_env \<Rightarrow> attempt_fault \<Rightarrow> nat \<Rightarrow> bj_action \<Rightarrow> bj_table \<Rightarrow> db \<Rightarrow> unit result \<times> bj_table \<times> db" where
  "play_action env fault userId act t d = (case double_debit env userId act t d of
      Inl err \<Rightarrow> (Inl err, t, d)
    | Inr (extra, d1) \<Rightarrow> (case seat_action env fault userId act t d1 of
        (Inr _, t1, d2) \<Rightarrow> (Inr (), t1, d2)
      | (Inl err, t1, d2) \<Rightarrow>
          (if extra > 0 then credit_back userId extra (failure_message err) t1 d2 else (Inl (BadRequest (failure_message err)), t1, d2))))"

text \<open>The table of a request is looked up by its id.\<close>

definition at_table :: "nat \<Rightarrow> failure \<Rightarrow> (bj_table \<Rightarrow> db \<Rightarrow> 'a result \<times> bj_table \<times> db) \<Rightarrow> (nat, bj_table) table \<Rightarrow> db
    \<Rightarrow> 'a result \<times> (nat, bj_table) table \<times> db" where
  "at_table tid err f ts d = (case map_of ts tid of
      None \<Rightarrow> (Inl err, ts, d)
    | Some t \<Rightarrow> (case f t d of (r, t1, d1) \<Rightarrow> (r, AList.update tid t1 ts, d1)))"

end
