(* ===== verification/Blackjack_Settlement.thy ===== *)
theory Blackjack_Settlement
  imports Blackjack_Service
begin

text \<open>
  What the blackjack tables do to the books: a round pays out once, by its settlement or by a recovery; what it can pay against
  what was staked and reserved; and the refunds that are made for the same stake twice.
\<close>

subsection \<open>One payout\<close>

definition bj_journal :: "seat_settle list \<Rightarrow> posting list" where
  "bj_journal xs = concat (map (\<lambda>x. credit_row (ss_userId x) (ss_payout x)) xs)"

definition refund_journal :: "(nat \<times> int) list \<Rightarrow> posting list" where
  "refund_journal rs = concat (map (\<lambda>(u, x). credit_row u x) rs)"

definition bj_over :: "nat \<Rightarrow> db \<Rightarrow> bool" where
  "bj_over rid d \<longleftrightarrow> (case map_of (blackjackRounds d) rid of None \<Rightarrow> False | Some r \<Rightarrow> br_endedAt r \<noteq> None)"

lemma find_in_set: "find P xs = Some x \<Longrightarrow> x \<in> set xs \<and> P x"
  by (induction xs) (auto split: if_splits)

lemma credit_row_frame:
  assumes "(if x > 0 then applyBalanceDelta uid x m d else Inr (z, d)) = Inr (b, d')"
  shows "blackjackRounds d' = blackjackRounds d \<and> bets d' = bets d"
  using assms applyBalanceDelta_frame[of uid x m d b d'] by (auto split: if_splits)

lemma settle_seat_spec:
  assumes "settle_seat env t x d = Inr d'"
  shows "posts (credit_row (ss_userId x) (ss_payout x)) d d' \<and> bets d' = bets d @ [bj_bet_row env t x] \<and> blackjackRounds d' = blackjackRounds d"
proof -
  let ?u = "ss_userId x" and ?s = "ss_stake x" and ?p = "ss_payout x"
  obtain d1 where u: "updateUser ?u (bump_stats ?s (?p - ?s)) d = Inr d1" using assms by (auto simp: settle_seat_def Let_def)
  define da where "da = snd (accrue (env_now env) ?u ?s (executeUser ?u (raise_biggest (?p - ?s)) d1))"
  obtain d2 where c: "creditReferral (env_enforced env) (env_now env) ?u ?s Blackjack da = Inr d2"
    using assms unfolding settle_seat_def Let_def u bindE_simps da_def by (elim bindE_InrE) auto
  define m where "m = (jeton_meta ''blackjack_settle'' ''Bet'')\<lparr>refId := Some (length (bets d2))\<rparr>"
  have "bindE (if ?p > 0 then applyBalanceDelta ?u ?p m d2 else Inr (0, d2)) (\<lambda>(_, d3). Inr (snd (create_bet (bj_bet_row env t x) d3))) = Inr d'"
    using assms unfolding settle_seat_def Let_def u bindE_simps da_def[symmetric] c m_def by assumption
  then obtain b d3 where a: "(if ?p > 0 then applyBalanceDelta ?u ?p m d2 else Inr (0, d2)) = Inr (b, d3)" and d': "d' = snd (create_bet (bj_bet_row env t x) d3)"
    by (elim bindE_InrE) (auto simp del: create_bet_simps)
  have "same_money d da" using stats_money[OF u] by (simp add: da_def)
  then have pre: "same_money d d2" using creditReferral_same[OF c] same_money_trans by blast
  have post: "same_money d3 d'" by (simp add: d' create_bet_def same_moneyI)
  have p: "posts (credit_row ?u ?p) d2 d3" by (rule credit_row_posts[OF a]) (simp add: m_def)
  have f: "bets d1 = bets d" "blackjackRounds d1 = blackjackRounds d" using u by (auto simp: updateUser_Inr)
  have "bets da = bets d" "blackjackRounds da = blackjackRounds d" using f by (simp_all add: da_def)
  then have "bets d3 = bets d" "blackjackRounds d3 = blackjackRounds d"
    using creditReferral_frame[OF c] commission_frame[OF c] credit_row_frame[OF a] by simp_all
  then show ?thesis using posts_between[OF pre p post] by (simp add: d' create_bet_def)
qed

lemma settle_seats_spec:
  "settle_seats env t xs d = Inr d' \<Longrightarrow> posts (bj_journal xs) d d' \<and> bets d' = bets d @ map (bj_bet_row env t) xs \<and> blackjackRounds d' = blackjackRounds d"
proof (induction xs arbitrary: d)
  case (Cons x xs)
  obtain d1 where p: "settle_seat env t x d = Inr d1" "settle_seats env t xs d1 = Inr d'" using Cons.prems by auto
  from settle_seat_spec[OF p(1)] Cons.IH[OF p(2)] show ?case
    using posts_trans[of "credit_row (ss_userId x) (ss_payout x)" d d1] by (auto simp: bj_journal_def)
qed (simp add: bj_journal_def)

lemma refund_seats_spec:
  "refund_seats rid rs d = Inr d' \<Longrightarrow> posts (refund_journal rs) d d' \<and> bets d' = bets d \<and> blackjackRounds d' = blackjackRounds d"
proof (induction rs arbitrary: d)
  case (Cons p rs)
  obtain u x where p: "p = (u, x)" by fastforce
  define m where "m = (jeton_meta ''blackjack_recovery_refund'' ''BlackjackRound'')\<lparr>refId := Some rid\<rparr>"
  have "bindE (if x > 0 then applyBalanceDelta u x m d else Inr (0, d)) (\<lambda>(_, d1). refund_seats rid rs d1) = Inr d'"
    using Cons.prems by (simp only: p refund_seats.simps m_def)
  then obtain b d1 where a: "(if x > 0 then applyBalanceDelta u x m d else Inr (0, d)) = Inr (b, d1)" and r: "refund_seats rid rs d1 = Inr d'"
    by (elim bindE_InrE) auto
  have "posts (credit_row u x) d d1" by (rule credit_row_posts[OF a]) (simp add: m_def)
  then show ?case using Cons.IH[OF r] credit_row_frame[OF a] posts_trans by (auto simp: p refund_journal_def)
qed (simp add: refund_journal_def)

lemma claim_bj_Inr: "claim_bj (Some i) f d = Inr d1 \<longleftrightarrow>
    (\<exists>r. map_of (blackjackRounds d) i = Some r \<and> br_endedAt r = None \<and> d1 = d\<lparr>blackjackRounds := AList.update i (f r) (blackjackRounds d)\<rparr>)"
  by (auto simp: claim_bj_def assertRoundClaimed_def Let_def split: option.splits if_splits)

lemma claim_bj_over: "bj_over i d \<Longrightarrow> claim_bj (Some i) f d = Inl (SettleClaimLost ''blackjack: already settled by another settler'')"
  by (auto simp: bj_over_def claim_bj_def assertRoundClaimed_def Let_def split: option.splits)

lemma update_bj_table_frame: "update_bj_table tid s d = Inr d' \<Longrightarrow> same_money d d' \<and> bets d' = bets d \<and> blackjackRounds d' = blackjackRounds d"
  by (auto simp: update_bj_table_def intro!: same_moneyI split: option.splits)

lemma settle_bj_cases:
  assumes "settle_bj_tx env t d = Inr d'"
  obtains rid where "tb_roundDbId t = Some rid" "en_leader env" "\<not> bj_over rid d" "bj_over rid d'" "posts (bj_journal (seat_data t)) d d'"
    "bets d' = bets d @ map (bj_bet_row (en_play env) t) (seat_data t)"
proof -
  define f :: "blackjack_round \<Rightarrow> blackjack_round" where "f = (\<lambda>r. r\<lparr>br_seats := snapshot_seats t, br_endedAt := Some (bj_now env)\<rparr>)"
  have lead: "en_leader env" using assms by (auto simp: settle_bj_tx_def assertStillLeader_def guardE_def split: if_splits)
  obtain rid where rid: "tb_roundDbId t = Some rid" using assms by (cases "tb_roundDbId t") (auto simp: settle_bj_tx_def claim_bj_def)
  obtain d1 d2 d3 sid where c: "claim_bj (Some rid) f d = Inr d1" "settle_seats (en_play env) t (seat_data t) d1 = Inr d2"
      "reveal_seed (bj_now env) sid d2 = Inr d3" "update_bj_table (tb_id t) Table_waiting d3 = Inr d'"
    using assms rid by (auto simp: settle_bj_tx_def f_def split: option.splits)
  obtain r where r: "map_of (blackjackRounds d) rid = Some r" "br_endedAt r = None" "d1 = d\<lparr>blackjackRounds := AList.update rid (f r) (blackjackRounds d)\<rparr>"
    using c(1) unfolding claim_bj_Inr by blast
  have 1: "same_money d d1" by (simp add: r(3) same_moneyI)
  note S = settle_seats_spec[OF c(2)] and R = reveal_seed_spec[OF c(3)] and T = update_bj_table_frame[OF c(4)]
  have "posts (bj_journal (seat_data t)) d d'" using posts_between[OF 1] S R T same_money_trans by blast
  moreover have "blackjackRounds d' = blackjackRounds d1" using S R T by simp
  moreover have "bets d' = bets d @ map (bj_bet_row (en_play env) t) (seat_data t)" using S R T r(3) by simp
  ultimately show thesis using that[OF rid lead] r by (auto simp: bj_over_def f_def)
qed

lemma recover_bj_cases:
  assumes "recover_bj_tx env rid tid refunds d = Inr d'"
  shows "\<not> bj_over rid d \<and> bj_over rid d' \<and> posts (refund_journal refunds) d d' \<and> bets d' = bets d"
proof -
  obtain d1 d2 where c: "claim_bj (Some rid) (\<lambda>r. r\<lparr>br_endedAt := Some (bj_now env)\<rparr>) d = Inr d1" "refund_seats rid refunds d1 = Inr d2"
      "update_bj_table tid Table_waiting d2 = Inr d'"
    using assms by (auto simp: recover_bj_tx_def)
  obtain r where r: "map_of (blackjackRounds d) rid = Some r" "br_endedAt r = None"
      "d1 = d\<lparr>blackjackRounds := AList.update rid (r\<lparr>br_endedAt := Some (bj_now env)\<rparr>) (blackjackRounds d)\<rparr>"
    using c(1) unfolding claim_bj_Inr by blast
  have 1: "same_money d d1" by (simp add: r(3) same_moneyI)
  note S = refund_seats_spec[OF c(2)] and T = update_bj_table_frame[OF c(3)]
  have "posts (refund_journal refunds) d d'" using posts_between[OF 1] S T by blast
  moreover have "blackjackRounds d' = blackjackRounds d1" "bets d' = bets d" using S T r(3) by simp_all
  ultimately show ?thesis using r by (auto simp: bj_over_def)
qed

lemma bj_over_settle: "bj_over rid d \<Longrightarrow> tb_roundDbId t = Some rid \<Longrightarrow> \<exists>w. settle_bj_tx env t d = Inl (SettleClaimLost w)"
  using claim_bj_over[of rid d] by (auto simp: settle_bj_tx_def assertStillLeader_def guardE_def)

lemma bj_over_recover: "bj_over rid d \<Longrightarrow> recover_bj_tx env rid tid refunds d = Inl (SettleClaimLost ''blackjack: already settled by another settler'')"
  using claim_bj_over[of rid d] by (simp add: recover_bj_tx_def)


subsection \<open>What a hand can pay\<close>

lemma side_x_bounds: "0 \<le> twentyOnePlusThree_x r \<and> twentyOnePlusThree_x r \<le> 100" "0 \<le> perfectPairs_x q \<and> perfectPairs_x q \<le> 25"
  by (cases r; simp add: twentyOnePlusThree_x_def) (cases q; simp add: perfectPairs_x_def)

lemma side_payout_bounds:
  assumes "0 \<le> side21p3Lamports b" and "0 \<le> sidePerfectPairsLamports b"
  shows "0 \<le> side_payout s b \<and> side_payout s b \<le> 100 * side21p3Lamports b + 100 * sidePerfectPairsLamports b"
proof -
  have "0 \<le> side21p3Lamports b * twentyOnePlusThree_x r \<and> side21p3Lamports b * twentyOnePlusThree_x r \<le> side21p3Lamports b * 100" for r
    using side_x_bounds(1)[of r] assms(1) by (auto intro: mult_left_mono)
  moreover have "0 \<le> sidePerfectPairsLamports b * perfectPairs_x q \<and> sidePerfectPairsLamports b * perfectPairs_x q \<le> sidePerfectPairsLamports b * 100" for q
    using side_x_bounds(2)[of q] assms(2) by (auto intro: mult_left_mono)
  ultimately have x: "0 \<le> side21p3Lamports b * twentyOnePlusThree_x r \<and> side21p3Lamports b * twentyOnePlusThree_x r \<le> 100 * side21p3Lamports b"
    "0 \<le> sidePerfectPairsLamports b * perfectPairs_x q \<and> sidePerfectPairsLamports b * perfectPairs_x q \<le> 100 * sidePerfectPairsLamports b" for r q
    by (simp_all add: mult.commute[of 100])
  have "0 \<le> (case o1 of None \<Rightarrow> 0 | Some r \<Rightarrow> side21p3Lamports b * twentyOnePlusThree_x r)
      \<and> (case o1 of None \<Rightarrow> 0 | Some r \<Rightarrow> side21p3Lamports b * twentyOnePlusThree_x r) \<le> 100 * side21p3Lamports b" for o1
    using assms x(1) by (cases o1) simp_all
  moreover have "0 \<le> (case o2 of None \<Rightarrow> 0 | Some q \<Rightarrow> sidePerfectPairsLamports b * perfectPairs_x q)
      \<and> (case o2 of None \<Rightarrow> 0 | Some q \<Rightarrow> sidePerfectPairsLamports b * perfectPairs_x q) \<le> 100 * sidePerfectPairsLamports b" for o2
    using assms x(2) by (cases o2) simp_all
  ultimately show ?thesis unfolding side_payout_def by (intro conjI add_nonneg_nonneg add_mono) blast+
qed

lemma main_payout_bounds: "0 \<le> x \<Longrightarrow> 0 \<le> main_payout r x \<and> 2 * main_payout r x \<le> 5 * x"
  using bigint_div_mult_le[of "x * 5" 2] bigint_div_ge0[of "x * 5" 2] by (cases r) (auto simp: main_payout_def)

text \<open>
  C29. What a hand pays: a push gives the main stake back, a win doubles it, a natural pays 3 to 2, a loss nothing, and the side bets
  add their tables; and the payout, even of a hand whose main stake was doubled after the reservation, is never negative and at most
  \<open>MAX_PAYOUT_X\<close> times what was staked when the exposure was reserved.
\<close>

theorem blackjack_payout_bounded:
  assumes "bj_bet_ok b = Inr ()"
  shows "seat_payout dealer s b = (case main_result dealer s of Res_push \<Rightarrow> mainLamports b | Res_win \<Rightarrow> 2 * mainLamports b
        | Res_blackjack \<Rightarrow> mainLamports b * 5 div 2 | Res_lose \<Rightarrow> 0) + side_payout s b
    \<and> 0 \<le> seat_payout dealer s b \<and> seat_payout dealer s b \<le> MAX_PAYOUT_X * betTotal b
    \<and> 0 \<le> seat_payout dealer s (b\<lparr>mainLamports := mainLamports b * 2\<rparr>)
    \<and> seat_payout dealer s (b\<lparr>mainLamports := mainLamports b * 2\<rparr>) \<le> MAX_PAYOUT_X * betTotal b"
proof -
  have b: "0 \<le> mainLamports b" "0 \<le> side21p3Lamports b" "0 \<le> sidePerfectPairsLamports b"
    using assms by (auto simp: bj_bet_ok_def guardE_def BJ_MIN_BET_LAMPORTS_def split: if_splits)
  have side: "side_payout s (b\<lparr>mainLamports := y\<rparr>) = side_payout s b" for y by (simp add: side_payout_def split: option.split)
  note S = side_payout_bounds[OF b(2,3), of s] and M = main_payout_bounds[of _ "main_result dealer s"]
  have "bigint_div (mainLamports b * 5) 2 = mainLamports b * 5 div 2" using b(1) by (simp add: bigint_div_nonneg)
  then have 1: "seat_payout dealer s b = (case main_result dealer s of Res_push \<Rightarrow> mainLamports b | Res_win \<Rightarrow> 2 * mainLamports b
        | Res_blackjack \<Rightarrow> mainLamports b * 5 div 2 | Res_lose \<Rightarrow> 0) + side_payout s b"
    by (simp add: seat_payout_def main_payout_def split: seat_result.split)
  have 2: "0 \<le> seat_payout dealer s b \<and> seat_payout dealer s b \<le> MAX_PAYOUT_X * betTotal b"
    using S M[OF b(1)] b by (simp add: seat_payout_def MAX_PAYOUT_X_def betTotal_def)
  have "0 \<le> mainLamports b * 2" using b(1) by simp
  from M[OF this] have "0 \<le> seat_payout dealer s (b\<lparr>mainLamports := mainLamports b * 2\<rparr>)
      \<and> seat_payout dealer s (b\<lparr>mainLamports := mainLamports b * 2\<rparr>) \<le> MAX_PAYOUT_X * betTotal b"
    using S b by (simp add: seat_payout_def side MAX_PAYOUT_X_def betTotal_def)
  then show ?thesis using 1 2 by blast
qed

theorem blackjack_payout_bounded_witness:
  "seat_payout [\<lparr>rank = RK, suit = Spades\<rparr>, \<lparr>rank = R7, suit = Spades\<rparr>]
     \<lparr>st_userId = 1, st_idleRounds = 0, st_bet = None, st_cards = [\<lparr>rank = RK, suit = Hearts\<rparr>, \<lparr>rank = R9, suit = Hearts\<rparr>],
      st_status = Hand_standing, st_doubled = False, st_side21p3Outcome = None, st_sidePerfectPairsOutcome = None, st_result = None, st_payoutLamports = 0\<rparr>
     \<lparr>mainLamports = 3000000, side21p3Lamports = 0, sidePerfectPairsLamports = 0\<rparr> \<le> MAX_PAYOUT_X * 3000000"
proof -
  let ?b = "\<lparr>mainLamports = 3000000, side21p3Lamports = 0, sidePerfectPairsLamports = 0\<rparr>"
  have ok: "bj_bet_ok ?b = Inr ()" and tot: "betTotal ?b = 3000000"
    by (simp_all add: bj_bet_ok_def guardE_def BJ_MIN_BET_LAMPORTS_def BJ_MAX_BET_LAMPORTS_def LAMPORTS_PER_SOL_def betTotal_def)
  show ?thesis by (rule blackjack_payout_bounded[OF ok, THEN conjunct2, THEN conjunct2, THEN conjunct1, unfolded tot])
qed


subsection \<open>Stakes given back that still play\<close>

lemma bj_debit_posts: "bj_debit u x tid d = Inr d' \<Longrightarrow> posts [(u, Jeton, - x)] d d' \<and> blackjackRounds d' = blackjackRounds d"
  using applyBalanceDelta_posts applyBalanceDelta_frame by (fastforce simp: bj_debit_def)

lemma bj_credit_posts: "bj_credit u x tid d = Inr d' \<Longrightarrow> posts [(u, Jeton, x)] d d' \<and> blackjackRounds d' = blackjackRounds d"
  using applyBalanceDelta_posts applyBalanceDelta_frame by (fastforce simp: bj_credit_def)

lemma persist_same: "persistBettingStakes env i t d = Inr d' \<Longrightarrow> same_money d d'"
  by (auto simp: persistBettingStakes_def update_bj_round_def intro!: same_moneyI split: if_splits option.splits)

text \<open>
  C37. A recovery and the table that it recovers can both give a stake cb: recovering the open round of a table refunds the saved stakes
  in the database, but the process that holds the table, when it is not told, still lets the player clear the bet, which is credited again.
\<close>

theorem blackjack_refunded_twice:
  assumes "recover_bj_tx env rid tid (parseSeatStakes (betting_stakes t)) d = Inr d1" and "(i, s) \<in> set (tb_seats t)" and "st_bet s = Some b"
    and "seat_of u t = Some (i, s)" and "bj_bet_ok b = Inr ()" and "clear_seat_bet env' u t d1 = (Inr x, t', d2)"
  shows "x = betTotal b \<and> posts (refund_journal (parseSeatStakes (betting_stakes t)) @ [(u, Jeton, x)]) d d2
    \<and> (u, Jeton, x) \<in> set (refund_journal (parseSeatStakes (betting_stakes t)))"
proof -
  have b: "0 < mainLamports b" "0 \<le> side21p3Lamports b" "0 \<le> sidePerfectPairsLamports b"
    using assms(5) by (auto simp: bj_bet_ok_def guardE_def BJ_MIN_BET_LAMPORTS_def split: if_splits)
  have u: "st_userId s = u" using assms(4) by (auto simp: seat_of_def dest: find_in_set)
  obtain dc where c: "clearSeatBet env' u t d1 = (Inr x, t', dc)" and k: "bj_credit u x (tb_id t) dc = Inr d2"
    using assms(6) by (auto simp: clear_seat_bet_def split: sum.splits prod.splits)
  then have x: "x = betTotal b" and m: "same_money d1 dc"
    using assms(3,4) persist_same by (auto simp: clearSeatBet_def Let_def split: if_splits sum.splits)
  have "(st_userId s, st_bet s) \<in> set (betting_stakes t)" using assms(2,3) by (force simp: betting_stakes_def)
  then have "(u, betTotal b) \<in> set (parseSeatStakes (betting_stakes t))"
    using b assms(3) u by (force simp: parseSeatStakes_def List.map_filter_def toBigInt_def betTotal_def)
  moreover have "0 < betTotal b" using b by (simp add: betTotal_def)
  ultimately have "(u, Jeton, x) \<in> set (refund_journal (parseSeatStakes (betting_stakes t)))"
    by (force simp: refund_journal_def credit_row_def x)
  moreover have "posts (refund_journal (parseSeatStakes (betting_stakes t))) d dc" using recover_bj_cases[OF assms(1)] m posts_same by blast
  ultimately show ?thesis using bj_credit_posts[OF k] posts_trans x by blast
qed

lemma bj_credit_error: "0 \<le> x \<Longrightarrow> bj_credit u x tid d \<noteq> Inl (BadRequest why)"
  by (auto simp: bj_credit_def applyBalanceDelta_def updateUser_def Let_def bindE_def split: sum.splits option.splits if_splits)

text \<open>
  C38. A bet whose stakes could not be saved is refused and credited back, but it stays on the table: the refused player has paid nothing
  and is dealt in, and the settlement pays the hand.
\<close>

theorem refused_bet_plays_free:
  assumes "bet_debit env u b (tb_id t) d = Inr d1" and "place_seat_bet env fresh u b t d = (Inl (BadRequest why), t', d')"
    and "tb_phase t = Bj_betting"
    and "\<not> bj_chainEnabled env" and "seat_of u t = Some (i, s)" and "keyed (tb_seats t)"
  shows "posts [(u, Jeton, - betTotal b), (u, Jeton, betTotal b)] d d'
    \<and> (i, s\<lparr>st_bet := Some b, st_idleRounds := 0\<rparr>) \<in> set (bettingSeats t')
    \<and> (\<exists>x \<in> set (seat_data t'). ss_userId x = u \<and> ss_stake x = betTotal b)"
proof -
  define t1 where "t1 = t\<lparr>tb_seats := AList.update i (s\<lparr>st_bet := Some b, st_idleRounds := 0\<rparr>) (tb_seats t), tb_lastActivityAt := bj_now env\<rparr>"
  have u: "st_userId s = u" using assms(5) by (auto simp: seat_of_def dest: find_in_set)
  have db: "bj_debit u (betTotal b) (tb_id t) d = Inr d1" using assms(1) by (auto simp: bet_debit_def)
  have e: "placeSeatBet env fresh u b t d1 = (case persistBettingStakes env 0 t1 d1 of Inl err \<Rightarrow> (Inl err, t1, d1)
      | Inr d2 \<Rightarrow> (Inr (case st_bet s of None \<Rightarrow> 0 | Some p \<Rightarrow> betTotal p), t1, d2))"
    using assms(3-5) by (simp add: placeSeatBet_def Let_def t1_def split: sum.split)
  obtain d2 w where cb: "credit_back u (betTotal b) w t1 d2 = (Inl (BadRequest why), t', d')" and m: "same_money d1 d2"
  proof (cases "persistBettingStakes env 0 t1 d1")
    case (Inl err)
    then show thesis using that[of _ d1] assms(1,2) e by (simp add: place_seat_bet_def same_money_refl)
  next
    case (Inr d2)
    then show thesis using that[of _ d2] assms(1,2) e persist_same[OF Inr] by (simp add: place_seat_bet_def Let_def split: sum.splits if_splits)
  qed
  have "0 \<le> betTotal b" using assms(1) by (auto simp: bet_debit_def bj_bet_ok_def guardE_def BJ_MIN_BET_LAMPORTS_def betTotal_def split: if_splits)
  then have k: "bj_credit u (betTotal b) (tb_id t1) d2 = Inr d'" and t': "t' = t1"
    using cb bj_credit_error by (auto simp: credit_back_def split: sum.splits)
  have "posts [(u, Jeton, - betTotal b)] d d2" using bj_debit_posts[OF db] m posts_same by blast
  then have "posts [(u, Jeton, - betTotal b), (u, Jeton, betTotal b)] d d'" using bj_credit_posts[OF k] posts_Cons by blast
  moreover have seat: "(i, s\<lparr>st_bet := Some b, st_idleRounds := 0\<rparr>) \<in> set (bettingSeats t')"
  proof -
    have "map_of (tb_seats t') i = Some (s\<lparr>st_bet := Some b, st_idleRounds := 0\<rparr>)" by (simp add: t' t1_def)
    from map_of_SomeD[OF this] show ?thesis by (simp add: bettingSeats_def)
  qed
  moreover have "\<exists>x \<in> set (seat_data t'). ss_userId x = u \<and> ss_stake x = betTotal b"
    using seat u by (force simp: seat_data_def List.map_filter_def)
  ultimately show ?thesis by blast
qed

text \<open>
  C39. A double whose snapshot could not be saved stops the table: the extra stake is credited back although the hand has been doubled
  and finished, the turn is not passed on, and from then on neither any action of any player nor the timer of the turn changes the table.
\<close>

theorem lost_double_stalls_table:
  assumes "double_debit env u Act_double t d = Inr (x, d1)" and "play_action env fault u Act_double t d = (Inl (BadRequest why), t', d')"
    and "active_hand u Act_double t = Inr (i, s)" and "seat_of u t = Some (i, s)" and "st_bet s = Some b" and "0 < mainLamports b"
  shows "posts [(u, Jeton, - mainLamports b), (u, Jeton, mainLamports b)] d d'
    \<and> (\<exists>s'. map_of (tb_seats t') i = Some s' \<and> st_bet s' = Some (b\<lparr>mainLamports := mainLamports b * 2\<rparr>))
    \<and> (\<forall>v act. \<exists>err. active_hand v act t' = Inl err)
    \<and> (\<forall>env' fault' j d''. fire_table env' fault' (Turn_timer j) t' d'' = (t', d''))"
proof -
  define t1 where "t1 = play_hand env Act_double i t"
  have a: "tb_phase t = Bj_player_turns" "tb_activeSeat t = Some i" "map_of (tb_seats t) i = Some s"
    using assms(3) by (auto simp: active_hand_def split: option.splits)
  have db: "bj_debit u (mainLamports b) (tb_id t) d = Inr d1" and x: "x = mainLamports b"
    using assms(1,4,5) by (auto simp: double_debit_def)
  obtain r t2 d2 where sa: "seat_action env fault u Act_double t d1 = (r, t2, d2)" using prod_cases3 by blast
  have r: "\<exists>err. r = Inl err" using sa assms(1,2) by (cases r) (auto simp: play_action_def)
  have t2: "t2 = t1" "d2 = d1" using r sa assms(3)
    by (auto simp: seat_action_def t1_def Let_def split: sum.splits prod.splits)
  obtain w where cb: "credit_back u (mainLamports b) w t1 d1 = (Inl (BadRequest why), t', d')"
    using assms(1,2,6) sa r x by (auto simp: play_action_def t2)
  have k: "bj_credit u (mainLamports b) (tb_id t1) d1 = Inr d'" and t': "t' = t1"
    using cb bj_credit_error[of "mainLamports b"] assms(6) by (auto simp: credit_back_def split: sum.splits)
  have p: "posts [(u, Jeton, - mainLamports b), (u, Jeton, mainLamports b)] d d'"
    using bj_debit_posts[OF db] bj_credit_posts[OF k] posts_Cons by blast
  obtain s' where s': "map_of (tb_seats t1) i = Some s'" "st_bet s' = Some (b\<lparr>mainLamports := mainLamports b * 2\<rparr>)" "st_status s' \<noteq> Hand_playing"
    using a(3) assms(5) by (auto simp: t1_def play_hand_def drawCard_def played_seat_def Let_def)
  have f: "tb_phase t1 = Bj_player_turns" "tb_activeSeat t1 = Some i"
    using a by (auto simp: t1_def play_hand_def drawCard_def Let_def)
  have "\<exists>err. active_hand v act t' = Inl err" for v act
    using s' f by (auto simp: active_hand_def guardE_def t')
  moreover have "fire_table env' fault' (Turn_timer j) t' d'' = (t', d'')" for env' fault' j d''
    using s' f by (cases "i = j") (simp_all add: fire_table_def t')
  ultimately show ?thesis using p s' by (auto simp: t')
qed

definition bj_env0 :: "int \<Rightarrow> nat option \<Rightarrow> bj_env" where
  "bj_env0 now lost = \<lparr>en_play = offline_env\<lparr>env_wager := \<lparr>paused = False, realMoneyEnabled = False, now_ms = now\<rparr>\<rparr>, en_leader = True, en_beacon = None, en_tuning = roundLoopTuning, bj_chainEnabled = False,
     bj_bankroll = None, bj_lost = lost\<rparr>"

definition main_bet :: seat_bet where
  "main_bet = \<lparr>mainLamports = 1000000, side21p3Lamports = 0, sidePerfectPairsLamports = 0\<rparr>"

definition seated :: "seat_bet option \<Rightarrow> bj_seat" where
  "seated b = \<lparr>st_userId = 1, st_idleRounds = 0, st_bet = b, st_cards = [], st_status = Hand_playing, st_doubled = False,
     st_side21p3Outcome = None, st_sidePerfectPairsOutcome = None, st_result = None, st_payoutLamports = 0\<rparr>"

definition bj_db :: db where
  "bj_db = empty_db\<lparr>users := [(1, new_user)], blackjackTables := [(0, \<lparr>bt_name = ''T'', bt_status = Table_waiting, bt_maxSeats = 5\<rparr>)],
     blackjackRounds := [(0, \<lparr>br_tableId = 0, br_seedId = 0, br_nonce = 0, br_seats = [], br_endedAt = None\<rparr>)]\<rparr>"

definition new_table :: bj_table where
  "new_table = snd (hd (fst (snd (createTable 0 ''T'' False None [] empty_db))))"

lemma new_table_fields: "new_table = \<lparr>tb_id = 0, tb_name = ''T'', tb_isPrivate = False, tb_ownerId = None, tb_maxSeats = 5, tb_phase = Bj_idle,
     tb_closeAt = None, tb_activeSeat = None, tb_seats = [], tb_dealerCards = [], tb_dealerHidden = True, tb_deckIndex = 0,
     tb_dealLog = [], tb_roundDbId = None, tb_seedId = None, tb_serverSeed = None, tb_serverSeedHash = None, tb_clientSeed = None,
     tb_dealSeed = None, tb_nonce = 0, tb_timer = None, tb_lastActivityAt = 0, tb_exposure = None\<rparr>"
  by (simp add: new_table_def createTable_def insert_row_def fresh_key_def MAX_SEATS_def Let_def)

lemma new_table_created: "\<exists>d. createTable 0 ''T'' False None [] empty_db = (0, [(0, new_table)], d)"
  by (simp add: new_table_def createTable_def insert_row_def fresh_key_def Let_def)

definition betting_table :: bj_table where
  "betting_table = new_table\<lparr>tb_phase := Bj_betting, tb_closeAt := Some 15000, tb_seats := [(0, seated (Some main_bet))], tb_roundDbId := Some 0,
     tb_seedId := Some 0, tb_serverSeed := Some ''s'', tb_serverSeedHash := Some (commitServerSeed toy_sha ''s''), tb_clientSeed := Some ''c'',
     tb_dealSeed := Some ''s'', tb_timer := Some (Deal_timer, 15000)\<rparr>"

lemma bj_db_fields [simp]:
  "map_of (users bj_db) (Suc 0) = Some new_user" "map_of (blackjackTables bj_db) 0 = Some \<lparr>bt_name = ''T'', bt_status = Table_waiting, bt_maxSeats = 5\<rparr>"
  "map_of (blackjackRounds bj_db) 0 = Some \<lparr>br_tableId = 0, br_seedId = 0, br_nonce = 0, br_seats = [], br_endedAt = None\<rparr>"
  by (simp_all add: bj_db_def)

lemma recovers_bj_db: "\<exists>d. recover_bj_tx (bj_env0 0 None) 0 0 [(1, 1000000)] bj_db = Inr d \<and> 1 \<in> user_ids d \<and> (\<exists>r. map_of (blackjackRounds d) 0 = Some r)"
proof -
  let ?m = "(jeton_meta ''blackjack_recovery_refund'' ''BlackjackRound'')\<lparr>refId := Some 0\<rparr>"
  let ?r = "\<lparr>br_tableId = 0, br_seedId = 0, br_nonce = 0, br_seats = [], br_endedAt = Some 0\<rparr>"
  let ?d1 = "bj_db\<lparr>blackjackRounds := [(0, ?r)]\<rparr>"
  have c: "claim_bj (Some 0) (\<lambda>r. r\<lparr>br_endedAt := Some (bj_now (bj_env0 0 None))\<rparr>) bj_db = Inr ?d1"
    by (simp add: claim_bj_Inr) (simp add: bj_db_def bj_env0_def)
  obtain b d where a: "applyBalanceDelta 1 1000000 ?m ?d1 = Inr (b, d)"
    using credit_ok[of 1 ?d1 1000000 ?m] by (auto simp: user_ids_def bj_db_def)
  have f: "blackjackRounds d = [(0, ?r)]" "blackjackTables d = blackjackTables bj_db" using applyBalanceDelta_frame[OF a] by simp_all
  have "1 \<in> user_ids d" using delta_ids[OF a] by simp
  then show ?thesis using c a f by (simp add: recover_bj_tx_def update_bj_table_def user_ids_def)
qed


theorem blackjack_refunded_twice_witness:
  "\<exists>d1 t' d2 x. recover_bj_tx (bj_env0 0 None) 0 0 [(1, 1000000)] bj_db = Inr d1 \<and> clear_seat_bet (bj_env0 0 None) 1 betting_table d1 = (Inr x, t', d2)
     \<and> posts [(1, Jeton, 1000000), (1, Jeton, 1000000)] bj_db d2"
proof -
  obtain d1 r where d1: "recover_bj_tx (bj_env0 0 None) 0 0 [(1, 1000000)] bj_db = Inr d1" and u: "1 \<in> user_ids d1" and r: "map_of (blackjackRounds d1) 0 = Some r"
    using recovers_bj_db by blast
  have p: "parseSeatStakes (betting_stakes betting_table) = [(1, 1000000)]"
    by (simp add: parseSeatStakes_def betting_stakes_def betting_table_def seated_def main_bet_def toBigInt_def List.map_filter_simps)
  have s: "seat_of 1 betting_table = Some (0, seated (Some main_bet))" "(0, seated (Some main_bet)) \<in> set (tb_seats betting_table)"
    "st_bet (seated (Some main_bet)) = Some main_bet" by (simp_all add: seat_of_def betting_table_def seated_def)
  let ?d = "d1\<lparr>blackjackRounds := AList.update 0 (r\<lparr>br_seats := []\<rparr>) (blackjackRounds d1)\<rparr>"
  let ?m = "(jeton_meta ''refund'' ''BlackjackTable'')\<lparr>refId := Some 0\<rparr>"
  obtain b d2 where a: "applyBalanceDelta 1 1000000 ?m ?d = Inr (b, d2)"
    using credit_ok[of 1 ?d 1000000 ?m] u by (auto simp: user_ids_def)
  have "\<exists>t'. clearSeatBet (bj_env0 0 None) 1 betting_table d1 = (Inr 1000000, t', ?d)"
    using s r by (simp add: clearSeatBet_def betting_table_def persistBettingStakes_def written_def bj_env0_def update_bj_round_def betting_stakes_def
        betTotal_def main_bet_def seated_def Let_def)
  then obtain t' where c: "clear_seat_bet (bj_env0 0 None) 1 betting_table d1 = (Inr 1000000, t', d2)"
    using a by (auto simp: clear_seat_bet_def bj_credit_def betting_table_def new_table_fields)
  have ok: "bj_bet_ok main_bet = Inr ()"
    by (simp add: bj_bet_ok_def guardE_def main_bet_def BJ_MIN_BET_LAMPORTS_def BJ_MAX_BET_LAMPORTS_def LAMPORTS_PER_SOL_def)
  from blackjack_refunded_twice[OF _ s(2,3) s(1) ok c, unfolded p, OF d1] show ?thesis using d1 c
    by (auto simp: refund_journal_def credit_row_def)
qed

definition playing_table :: bj_table where
  "playing_table = betting_table\<lparr>tb_phase := Bj_player_turns, tb_activeSeat := Some 0, tb_timer := None,
     tb_seats := [(0, (seated (Some main_bet))\<lparr>st_cards := [\<lparr>rank = R2, suit = Hearts\<rparr>, \<lparr>rank = R9, suit = Hearts\<rparr>]\<rparr>)]\<rparr>"

lemma main_bet_ok: "bj_bet_ok main_bet = Inr ()"
  by (simp add: bj_bet_ok_def guardE_def main_bet_def BJ_MIN_BET_LAMPORTS_def BJ_MAX_BET_LAMPORTS_def LAMPORTS_PER_SOL_def)

lemma main_bet_debited: "\<exists>d1. bj_debit 1 1000000 0 bj_db = Inr d1 \<and> 1 \<in> user_ids d1"
proof -
  let ?m = "(jeton_meta ''blackjack_bet'' ''BlackjackTable'')\<lparr>refId := Some 0\<rparr>"
  obtain b d1 where a: "applyBalanceDelta 1 (- 1000000) ?m bj_db = Inr (b, d1)"
    using debit_ok[of bj_db 1 new_user ?m 1000000] by (auto simp: bj_db_def)
  then show ?thesis using delta_ids[OF a] by (simp add: bj_debit_def del: One_nat_def)
qed

lemma credited_back:
  assumes "1 \<in> user_ids d"
  shows "\<exists>d'. bj_credit 1 1000000 0 d = Inr d'"
proof -
  let ?m = "(jeton_meta ''refund'' ''BlackjackTable'')\<lparr>refId := Some 0\<rparr>"
  obtain b d' where "applyBalanceDelta 1 1000000 ?m d = Inr (b, d')" using credit_ok[OF assms, of 1000000 ?m] by auto
  then show ?thesis by (simp add: bj_credit_def)
qed

lemma bj_player_ok: "bj_user 1 bj_db = Inr ()" "assertCanWager (env_wager (en_play (bj_env0 now lost))) 1 1000000 bj_db = Inr ()"
    "assertDepositedOnly (env_enforced (en_play (bj_env0 now lost))) 1 bj_db = Inr ()"
  by (simp_all add: bj_user_def bj_db_def assertCanWager_def bj_env0_def offline_env_def assertDepositedOnly_def)

theorem refused_bet_plays_free_witness:
  "\<exists>t' d'. place_seat_bet (bj_env0 0 (Some 0)) (''s'', ''c'') 1 main_bet betting_table bj_db = (Inl (BadRequest ''connection closed''), t', d')
     \<and> posts [(1, Jeton, - 1000000), (1, Jeton, 1000000)] bj_db d' \<and> (\<exists>x \<in> set (seat_data t'). ss_userId x = 1 \<and> ss_stake x = 1000000)"
proof -
  obtain d1 where d: "bj_debit 1 1000000 0 bj_db = Inr d1" "1 \<in> user_ids d1" using main_bet_debited by blast
  obtain d2 where c: "bj_credit 1 1000000 0 d1 = Inr d2" using credited_back[OF d(2)] by blast
  have tot: "betTotal main_bet = 1000000" by (simp add: betTotal_def main_bet_def)
  have t: "tb_id betting_table = 0" "tb_phase betting_table = Bj_betting" "seat_of 1 betting_table = Some (0, seated (Some main_bet))" "keyed (tb_seats betting_table)"
    by (simp_all add: betting_table_def new_table_fields seat_of_def seated_def keyed_def)
  have db: "bet_debit (bj_env0 0 (Some 0)) 1 main_bet (tb_id betting_table) bj_db = Inr d1"
    using d(1) by (simp add: bet_debit_def main_bet_ok bj_player_ok tot t del: One_nat_def)
  have "\<exists>t1. placeSeatBet (bj_env0 0 (Some 0)) (''s'', ''c'') 1 main_bet betting_table d1 = (Inl (Internal ''connection closed''), t1, d1) \<and> tb_id t1 = 0"
    using t by (simp add: placeSeatBet_def Let_def bj_env0_def persistBettingStakes_def written_def)
      (simp add: betting_table_def new_table_fields)
  then obtain t1 where p: "place_seat_bet (bj_env0 0 (Some 0)) (''s'', ''c'') 1 main_bet betting_table bj_db = (Inl (BadRequest ''connection closed''), t1, d2)"
    using db c by (auto simp: place_seat_bet_def credit_back_def tot)
  have "\<not> bj_chainEnabled (bj_env0 0 (Some 0))" by (simp add: bj_env0_def)
  from refused_bet_plays_free[OF db p t(2) this t(3,4), unfolded tot] p show ?thesis by blast
qed

theorem lost_double_stalls_table_witness:
  "\<exists>t' d'. play_action (bj_env0 0 (Some 0)) Answers 1 Act_double playing_table bj_db = (Inl (BadRequest ''connection closed''), t', d')
     \<and> posts [(1, Jeton, - 1000000), (1, Jeton, 1000000)] bj_db d' \<and> (\<forall>v act. \<exists>err. active_hand v act t' = Inl err)"
proof -
  let ?s = "(seated (Some main_bet))\<lparr>st_cards := [\<lparr>rank = R2, suit = Hearts\<rparr>, \<lparr>rank = R9, suit = Hearts\<rparr>]\<rparr>"
  obtain d1 where d: "bj_debit 1 1000000 0 bj_db = Inr d1" "1 \<in> user_ids d1" using main_bet_debited by blast
  obtain d2 where c: "bj_credit 1 1000000 0 d1 = Inr d2" using credited_back[OF d(2)] by blast
  have t: "seat_of 1 playing_table = Some (0, ?s)" "active_hand 1 Act_double playing_table = Inr (0, ?s)" "tb_id playing_table = 0"
    "tb_roundDbId playing_table = Some 0"
    by (simp_all add: playing_table_def betting_table_def new_table_fields seat_of_def seated_def active_hand_def guardE_def)
  have b: "st_bet ?s = Some main_bet" "0 < mainLamports main_bet" "mainLamports main_bet = 1000000" by (simp_all add: seated_def main_bet_def)
  have db: "double_debit (bj_env0 0 (Some 0)) 1 Act_double playing_table bj_db = Inr (1000000, d1)"
    using d(1) by (simp add: double_debit_def t b bj_player_ok del: One_nat_def)
  have i: "tb_id (play_hand (bj_env0 0 (Some 0)) Act_double 0 playing_table) = 0"
    by (simp add: play_hand_def drawCard_def Let_def playing_table_def betting_table_def new_table_fields)
  have "seat_action (bj_env0 0 (Some 0)) Answers 1 Act_double playing_table d1
      = (Inl (Internal ''connection closed''), play_hand (bj_env0 0 (Some 0)) Act_double 0 playing_table, d1)"
    using t by (simp add: seat_action_def Let_def written_def) (simp add: bj_env0_def)
  then obtain t' where p: "play_action (bj_env0 0 (Some 0)) Answers 1 Act_double playing_table bj_db = (Inl (BadRequest ''connection closed''), t', d2)"
    using db c i by (simp add: play_action_def credit_back_def)
  from lost_double_stalls_table[OF db p t(2,1) b(1,2), unfolded b(3)] p show ?thesis by blast
qed

end
