(* ===== verification/Blackjack_Hands.thy ===== *)
theory Blackjack_Hands
  imports Blackjack_Settlement
begin

text \<open>
  A table as a transition system, and what its public deal log is worth: whatever the players and the timers do, the cards that
  lie on the table are the ones that anybody reproduces from the log and the revealed seed.
\<close>

text \<open>The steps of one table. The hash is the same in all of them; what else surrounds a step may change.\<close>

inductive table_step :: "hmac \<Rightarrow> bj_table \<times> db \<Rightarrow> bj_table \<times> db \<Rightarrow> bool" for hmac where
  Seat_bet: "env_hmac (en_play env) = hmac \<Longrightarrow> place_seat_bet env fresh u b t d = (r, t', d') \<Longrightarrow> table_step hmac (t, d) (t', d')"
| Seat_clear: "clear_seat_bet env u t d = (r', t', d') \<Longrightarrow> table_step hmac (t, d) (t', d')"
| Seat_left: "leave_seat env u t d = (r', t', d') \<Longrightarrow> table_step hmac (t, d) (t', d')"
| Seat_taken: "take_seat now i u t d = (r, t') \<Longrightarrow> table_step hmac (t, d) (t', d)"
| Seat_plays: "env_hmac (en_play env) = hmac \<Longrightarrow> play_action env fault u act t d = (r, t', d') \<Longrightarrow> table_step hmac (t, d) (t', d')"
| Table_timer: "env_hmac (en_play env) = hmac \<Longrightarrow> tb_timer t = Some (k, due) \<Longrightarrow> due \<le> bj_now env
    \<Longrightarrow> fire_table env fault k (t\<lparr>tb_timer := None\<rparr>) d = (t', d') \<Longrightarrow> table_step hmac (t, d) (t', d')"
| Db_elsewhere: "table_step hmac (t, d) (t, d')"

definition log_cards :: "hmac \<Rightarrow> bj_table \<Rightarrow> recipient \<Rightarrow> card list" where
  "log_cards hmac t r = (case (tb_dealSeed t, tb_clientSeed t) of
      (Some s, Some c) \<Rightarrow> map (\<lambda>e. deal_card hmac s c (tb_nonce t) (deckIndex e)) (filter (\<lambda>e. dealtTo e = r) (tb_dealLog t))
    | _ \<Rightarrow> [])"

definition log_ok :: "bj_table \<Rightarrow> bool" where
  "log_ok t \<longleftrightarrow> map deckIndex (tb_dealLog t) = [0..<tb_deckIndex t] \<and> (\<forall>e \<in> set (tb_dealLog t). handId e = hand_of (dealtTo e))"

definition cards_ok :: "hmac \<Rightarrow> bj_table \<Rightarrow> bool" where
  "cards_ok hmac t \<longleftrightarrow> keyed (tb_seats t) \<and> log_ok t \<and> tb_dealerCards t = log_cards hmac t Dealer
     \<and> (\<forall>i s. map_of (tb_seats t) i = Some s \<longrightarrow> st_cards s = [] \<or> st_cards s = log_cards hmac t (Seat i))"

text \<open>Cards are only drawn for a deal on an empty log or for a hand that is in play.\<close>

definition turn_ok :: "bj_table \<Rightarrow> bool" where
  "turn_ok t \<longleftrightarrow> (\<forall>due. tb_timer t = Some (Deal_timer, due) \<longrightarrow> tb_phase t = Bj_betting \<and> tb_dealLog t = [] \<and> tb_dealSeed t \<noteq> None \<and> tb_clientSeed t \<noteq> None)
     \<and> (tb_phase t = Bj_player_turns \<longrightarrow> tb_dealSeed t \<noteq> None \<and> tb_clientSeed t \<noteq> None
          \<and> (\<forall>i s. map_of (tb_seats t) i = Some s \<longrightarrow> st_bet s \<noteq> None \<longrightarrow> st_cards s \<noteq> [])
          \<and> (\<forall>i. tb_activeSeat t = Some i \<longrightarrow> (\<exists>s. map_of (tb_seats t) i = Some s \<and> st_bet s \<noteq> None)))"

definition table_ok :: "hmac \<Rightarrow> bj_table \<Rightarrow> bool" where
  "table_ok hmac t \<longleftrightarrow> cards_ok hmac t \<and> turn_ok t"

subsection \<open>Drawing a card\<close>

text \<open>Two tables with the same deck.\<close>

definition same_deck :: "bj_table \<Rightarrow> bj_table \<Rightarrow> bool" where
  "same_deck t t' \<longleftrightarrow> tb_dealSeed t' = tb_dealSeed t \<and> tb_clientSeed t' = tb_clientSeed t \<and> tb_nonce t' = tb_nonce t
     \<and> tb_deckIndex t' = tb_deckIndex t \<and> tb_dealLog t' = tb_dealLog t \<and> tb_dealerCards t' = tb_dealerCards t"

lemma same_deck_ok:
  assumes "same_deck t t'" and "cards_ok hmac t" and "keyed (tb_seats t')"
    and "\<And>i s'. map_of (tb_seats t') i = Some s' \<Longrightarrow> st_cards s' = [] \<or> (\<exists>s. map_of (tb_seats t) i = Some s \<and> st_cards s' = st_cards s)"
  shows "cards_ok hmac t'"
proof -
  have "log_cards hmac t' r = log_cards hmac t r" for r using assms(1) by (simp add: log_cards_def same_deck_def split: option.split)
  then show ?thesis using assms unfolding cards_ok_def log_ok_def same_deck_def by (metis (no_types, lifting))
qed

lemma drawCard_deck:
  assumes "env_hmac (en_play env) = hmac" and "tb_dealSeed t = Some sd" and "tb_clientSeed t = Some c" and "log_ok t"
  shows "log_ok (drawCard env r t)"
    and "log_cards hmac (drawCard env r t) q = log_cards hmac t q @ (if q = r then [next_card env t] else [])"
    and "tb_dealSeed (drawCard env r t) = Some sd" and "tb_clientSeed (drawCard env r t) = Some c"
proof -
  have n: "next_card env t = deal_card hmac sd c (tb_nonce t) (tb_deckIndex t)" using assms by (simp add: next_card_def)
  let ?e = "\<lparr>deckIndex = tb_deckIndex t, dealtTo = r, handId = hand_of r, logged_card = Some (next_card env t)\<rparr>"
  have f: "tb_dealLog (drawCard env r t) = tb_dealLog t @ [?e]" "tb_deckIndex (drawCard env r t) = Suc (tb_deckIndex t)"
    "tb_dealSeed (drawCard env r t) = Some sd" "tb_clientSeed (drawCard env r t) = Some c" "tb_nonce (drawCard env r t) = tb_nonce t"
    using assms(2,3) by (auto simp: drawCard_def Let_def split: recipient.split option.split)
  show "log_ok (drawCard env r t)" using assms(4) by (auto simp: log_ok_def f)
  show "log_cards hmac (drawCard env r t) q = log_cards hmac t q @ (if q = r then [next_card env t] else [])"
    using assms(2,3) by (auto simp: log_cards_def f n)
  show "tb_dealSeed (drawCard env r t) = Some sd" "tb_clientSeed (drawCard env r t) = Some c" by (fact f)+
qed

lemma drawCard_seats: "tb_seats (drawCard env r t) = (case r of Dealer \<Rightarrow> tb_seats t
    | Seat i \<Rightarrow> (case map_of (tb_seats t) i of None \<Rightarrow> tb_seats t | Some s \<Rightarrow> AList.update i (s\<lparr>st_cards := st_cards s @ [next_card env t]\<rparr>) (tb_seats t)))"
  "tb_dealerCards (drawCard env r t) = (if r = Dealer then tb_dealerCards t @ [next_card env t] else tb_dealerCards t)"
  by (auto simp: drawCard_def Let_def split: recipient.split option.split)

lemma drawCard_frame [simp]: "tb_phase (drawCard env r t) = tb_phase t" "tb_activeSeat (drawCard env r t) = tb_activeSeat t"
  "tb_timer (drawCard env r t) = tb_timer t" "tb_roundDbId (drawCard env r t) = tb_roundDbId t"
  by (auto simp: drawCard_def Let_def split: recipient.split option.split)

text \<open>A draw keeps the invariant when the recipient's cards are those of the log.\<close>

lemma drawCard_ok:
  assumes "env_hmac (en_play env) = hmac" and "tb_dealSeed t = Some sd" and "tb_clientSeed t = Some c" and "cards_ok hmac t"
    and "\<And>i s. r = Seat i \<Longrightarrow> map_of (tb_seats t) i = Some s \<Longrightarrow> st_cards s = log_cards hmac t (Seat i)"
  shows "cards_ok hmac (drawCard env r t)"
proof -
  have l: "log_ok t" using assms(4) by (simp add: cards_ok_def)
  note D = drawCard_deck[OF assms(1-3) l]
  show ?thesis
  proof (cases r)
    case Dealer then show ?thesis using assms(4) D(1) by (auto simp: cards_ok_def D(2) drawCard_seats)
  next
    case (Seat i)
    then show ?thesis using assms(4) assms(5)[OF Seat] D(1) by (auto simp: cards_ok_def D(2) drawCard_seats split: option.split)
  qed
qed

text \<open>While a hand is dealt every seat holds what the log says.\<close>

definition exact_ok :: "hmac \<Rightarrow> bj_table \<Rightarrow> bool" where
  "exact_ok hmac t \<longleftrightarrow> cards_ok hmac t \<and> tb_dealSeed t \<noteq> None \<and> tb_clientSeed t \<noteq> None
     \<and> (\<forall>i s. map_of (tb_seats t) i = Some s \<longrightarrow> st_cards s = log_cards hmac t (Seat i))"

lemma drawCard_exact:
  assumes "env_hmac (en_play env) = hmac" and "exact_ok hmac t"
  shows "exact_ok hmac (drawCard env r t) \<and> dom (map_of (tb_seats (drawCard env r t))) = dom (map_of (tb_seats t))
    \<and> (\<forall>i s'. map_of (tb_seats (drawCard env r t)) i = Some s' \<longrightarrow> (\<exists>s. map_of (tb_seats t) i = Some s \<and> st_bet s' = st_bet s))
    \<and> dealtTo ` set (tb_dealLog (drawCard env r t)) = insert r (dealtTo ` set (tb_dealLog t))"
proof -
  obtain sd c where sc: "tb_dealSeed t = Some sd" "tb_clientSeed t = Some c" using assms(2) by (auto simp: exact_ok_def)
  have l: "log_ok t" and cards: "cards_ok hmac t" using assms(2) by (simp_all add: exact_ok_def cards_ok_def)
  note D = drawCard_deck[OF assms(1) sc l, of r]
  have "cards_ok hmac (drawCard env r t)" using assms by (intro drawCard_ok[OF assms(1) sc cards]) (auto simp: exact_ok_def)
  moreover have "st_cards s = log_cards hmac (drawCard env r t) (Seat i)" if "map_of (tb_seats (drawCard env r t)) i = Some s" for i s
    using that assms(2) by (auto simp: exact_ok_def D(2) drawCard_seats split: recipient.splits option.splits if_splits)
  moreover have "dealtTo ` set (tb_dealLog (drawCard env r t)) = insert r (dealtTo ` set (tb_dealLog t))"
    by (auto simp: drawCard_def Let_def split: recipient.split option.split)
  ultimately have "exact_ok hmac (drawCard env r t)" "dealtTo ` set (tb_dealLog (drawCard env r t)) = insert r (dealtTo ` set (tb_dealLog t))"
    using D(3,4) by (auto simp: exact_ok_def)
  moreover have "dom (map_of (tb_seats (drawCard env r t))) = dom (map_of (tb_seats t))"
    by (auto simp: drawCard_seats split: recipient.split option.split)
  moreover have "\<exists>s. map_of (tb_seats t) i = Some s \<and> st_bet s' = st_bet s" if "map_of (tb_seats (drawCard env r t)) i = Some s'" for i s'
    using that by (auto simp: drawCard_seats split: recipient.splits option.splits if_splits)
  ultimately show ?thesis by blast
qed

lemma deal_exact:
  assumes "env_hmac (en_play env) = hmac" and "exact_ok hmac t"
  shows "exact_ok hmac (fold (drawCard env) rs t) \<and> dom (map_of (tb_seats (fold (drawCard env) rs t))) = dom (map_of (tb_seats t))
    \<and> (\<forall>i s'. map_of (tb_seats (fold (drawCard env) rs t)) i = Some s' \<longrightarrow> (\<exists>s. map_of (tb_seats t) i = Some s \<and> st_bet s' = st_bet s))
    \<and> dealtTo ` set (tb_dealLog (fold (drawCard env) rs t)) = set rs \<union> dealtTo ` set (tb_dealLog t)"
  using assms(2)
proof (induction rs arbitrary: t)
  case (Cons r rs)
  note D = drawCard_exact[OF assms(1) Cons.prems, of r]
  then show ?case using Cons.IH[of "drawCard env r t"] by (auto; metis)
qed auto

subsection \<open>The steps keep the cards\<close>

definition calm :: "bj_table \<Rightarrow> bool" where
  "calm t \<longleftrightarrow> tb_phase t \<noteq> Bj_player_turns \<and> (\<forall>due. tb_timer t \<noteq> Some (Deal_timer, due))"

lemma calm_ok: "cards_ok hmac t \<Longrightarrow> calm t \<Longrightarrow> table_ok hmac t"
  by (simp add: table_ok_def turn_ok_def calm_def)

lemma cards_frame: "same_deck t t' \<Longrightarrow> tb_seats t' = tb_seats t \<Longrightarrow> cards_ok hmac t \<Longrightarrow> cards_ok hmac t'"
  by (rule same_deck_ok) (auto simp: cards_ok_def)

lemma seats_map_of: "map_of (map (\<lambda>(i, s). (i, f s)) ss) i = map_option f (map_of ss i)"
  by (induction ss) auto

lemma seats_map_fst: "map (fst \<circ> (\<lambda>(i, s). (i, f s))) ss = map fst ss"
  by (induction ss) auto

lemma map_seats_simps [simp]: "map_of (tb_seats (map_seats f t)) i = map_option f (map_of (tb_seats t) i)"
  "keyed (tb_seats (map_seats f t)) = keyed (tb_seats t)" "same_deck t (map_seats f t)"
  "tb_phase (map_seats f t) = tb_phase t" "tb_timer (map_seats f t) = tb_timer t"
  by (simp_all add: map_seats_def seats_map_of seats_map_fst keyed_def same_deck_def)

lemma map_seats_ok: "cards_ok hmac t \<Longrightarrow> (\<And>s. st_cards (f s) = st_cards s \<or> st_cards (f s) = []) \<Longrightarrow> cards_ok hmac (map_seats f t)"
  by (rule same_deck_ok[of t]) (fastforce simp: cards_ok_def)+

lemma update_seat_ok:
  assumes "cards_ok hmac t" and "same_deck t t'" and "tb_seats t' = AList.update i s' (tb_seats t)"
    and "st_cards s' = [] \<or> (\<exists>s. map_of (tb_seats t) i = Some s \<and> st_cards s' = st_cards s)"
  shows "cards_ok hmac t'"
  using assms by (intro same_deck_ok[OF assms(2,1)]) (auto simp: cards_ok_def split: if_splits)

lemma dealer_draws_ok:
  assumes "env_hmac (en_play env) = hmac" and "cards_ok hmac t" and "tb_dealSeed t = Some sd" and "tb_clientSeed t = Some c"
  shows "cards_ok hmac (dealer_draws env t) \<and> tb_phase (dealer_draws env t) = tb_phase t \<and> tb_timer (dealer_draws env t) = tb_timer t"
  using assms
proof (induction env t rule: dealer_draws.induct)
  case (1 env t)
  show ?case
  proof (cases "dealer_hits (tb_dealerCards t)")
    case True
    have l: "log_ok t" using 1(3) by (simp add: cards_ok_def)
    have "cards_ok hmac (drawCard env Dealer t)" by (rule drawCard_ok[OF 1(2,4,5,3)]) simp
    from 1(1)[OF True 1(2) this] show ?thesis using drawCard_deck(3,4)[OF 1(2,4,5) l] True by (simp add: dealer_draws.simps[of env t])
  qed (use 1(3) in \<open>simp add: dealer_draws.simps[of env t]\<close>)
qed

lemma settle_table_ok:
  assumes "settle_table env fault t d = (t', d')" and "cards_ok hmac t" and "calm t"
  shows "table_ok hmac t'"
proof -
  define t1 where "t1 = (map_seats (resolve_seat (tb_dealerCards t)) t)\<lparr>tb_phase := Bj_settled\<rparr>"
  have "cards_ok hmac (map_seats (resolve_seat (tb_dealerCards t)) t)"
    by (rule map_seats_ok[OF assms(2)]) (simp add: resolve_seat_def split: option.split)
  then have t1: "cards_ok hmac t1" by (rule cards_frame[rotated 2]) (simp_all add: t1_def same_deck_def)
  have timer: "tb_timer t1 = tb_timer t" by (simp add: t1_def)
  consider "t' = t1\<lparr>tb_timer := Some (Idle_timer, bj_now env + SETTLE_PAUSE_MS)\<rparr>" | "t' = t1" | "t' = t1\<lparr>tb_phase := Bj_dealer_turn\<rparr>"
    using assms(1) unfolding settle_table_def Let_def t1_def[symmetric] by (auto split: prod.splits sum.splits failure.splits)
  then show ?thesis
  proof cases
    case 1 then show ?thesis by (intro calm_ok cards_frame[OF _ _ t1]) (simp_all add: same_deck_def calm_def t1_def)
  next
    case 2 then show ?thesis using t1 timer assms(3) by (intro calm_ok) (simp_all add: calm_def t1_def)
  next
    case 3 then show ?thesis using timer assms(3) by (intro calm_ok cards_frame[OF _ _ t1]) (simp_all add: same_deck_def calm_def)
  qed
qed

lemma dealerTurn_ok:
  assumes "dealerTurn env fault t d = (t', d')" and h: "env_hmac (en_play env) = hmac" and t: "cards_ok hmac t"
    and sc: "tb_dealSeed t = Some sd" "tb_clientSeed t = Some c"
  shows "table_ok hmac t'"
proof -
  define t1 where "t1 = t\<lparr>tb_timer := None, tb_phase := Bj_dealer_turn, tb_activeSeat := None, tb_closeAt := None\<rparr>"
  define t2 where "t2 = t1\<lparr>tb_dealerHidden := False\<rparr>"
  define t3 where "t3 = (if list_ex (\<lambda>(_, s). st_status s = Hand_standing \<or> st_status s = Hand_blackjack) (bettingSeats t2) then dealer_draws env t2 else t2)"
  have 1: "cards_ok hmac t1" "calm t1" by (auto intro: cards_frame[OF _ _ t] simp: t1_def same_deck_def calm_def)
  have 2: "cards_ok hmac t2" "calm t2" by (auto intro: cards_frame[OF _ _ t] simp: t2_def t1_def same_deck_def calm_def)
  have "cards_ok hmac t3" "calm t3"
    using dealer_draws_ok[OF h 2(1), of sd c] 2 sc by (auto simp: t3_def t2_def t1_def calm_def)
  then show ?thesis using assms(1) settle_table_ok calm_ok[OF 1]
    unfolding dealerTurn_def Let_def t1_def[symmetric] t2_def[symmetric] t3_def[symmetric] by (auto split: sum.splits)
qed

lemma bettingSeats_iff: "keyed (tb_seats t) \<Longrightarrow> (i, s) \<in> set (bettingSeats t) \<longleftrightarrow> map_of (tb_seats t) i = Some s \<and> st_bet s \<noteq> None"
  by (auto simp: bettingSeats_def keyed_def dest: map_of_SomeD)

lemma advanceTurn_ok:
  assumes "advanceTurn env fault n t d = (t', d')" and "env_hmac (en_play env) = hmac" and t: "cards_ok hmac t"
    and sc: "tb_dealSeed t = Some sd" "tb_clientSeed t = Some c" and p: "tb_phase t = Bj_player_turns"
    and b: "\<And>i s. map_of (tb_seats t) i = Some s \<Longrightarrow> st_bet s \<noteq> None \<Longrightarrow> st_cards s \<noteq> []"
  shows "table_ok hmac t'"
proof (cases "next_player n t")
  case None then show ?thesis using assms(1,2) dealerTurn_ok[OF _ _ t sc] by (simp add: advanceTurn_def)
next
  case (Some i)
  then have t': "t' = t\<lparr>tb_activeSeat := Some i, tb_closeAt := Some (bj_now env + TURN_TIMEOUT_MS), tb_timer := Some (Turn_timer i, bj_now env + TURN_TIMEOUT_MS)\<rparr>"
    using assms(1) by (simp add: advanceTurn_def)
  obtain s where "(i, s) \<in> set (bettingSeats t)" using Some by (auto simp: next_player_def dest: find_in_set)
  then have "map_of (tb_seats t) i = Some s" "st_bet s \<noteq> None" using t bettingSeats_iff by (auto simp: cards_ok_def)
  moreover have "cards_ok hmac t'" by (rule cards_frame[OF _ _ t]) (simp_all add: t' same_deck_def)
  ultimately show ?thesis using sc p b by (auto simp: table_ok_def turn_ok_def t')
qed

lemma sit_out_lookup:
  assumes "keyed (tb_seats t)"
  shows "keyed (tb_seats (sit_out t))" and "map_of (tb_seats (sit_out t)) i = (case map_of (tb_seats t) i of None \<Rightarrow> None | Some s \<Rightarrow>
      if st_bet s \<noteq> None then Some s else if st_idleRounds s + 1 \<ge> IDLE_ROUNDS_TO_UNSEAT then None
      else Some (s\<lparr>st_idleRounds := st_idleRounds s + 1\<rparr>))"
proof -
  define g :: "nat \<times> bj_seat \<Rightarrow> (nat \<times> bj_seat) option" where "g = (\<lambda>(i, s). if st_bet s \<noteq> None then Some (i, s)
      else if st_idleRounds s + 1 \<ge> IDLE_ROUNDS_TO_UNSEAT then None
      else Some (i, s\<lparr>st_idleRounds := st_idleRounds s + 1\<rparr>))"
  have keys: "fst ` set (List.map_filter g ss) \<subseteq> fst ` set ss" for ss
    by (force simp: List.map_filter_def g_def split: if_splits)
  have "keyed ss \<Longrightarrow> keyed (List.map_filter g ss) \<and> map_of (List.map_filter g ss) i = (case map_of ss i of None \<Rightarrow> None | Some s \<Rightarrow>
      if st_bet s \<noteq> None then Some s else if st_idleRounds s + 1 \<ge> IDLE_ROUNDS_TO_UNSEAT then None
      else Some (s\<lparr>st_idleRounds := st_idleRounds s + 1\<rparr>))" for ss
  proof (induction ss)
    case (Cons p ss)
    obtain j s where p: "p = (j, s)" by fastforce
    have j: "j \<notin> fst ` set ss" "keyed ss" using Cons.prems by (auto simp: p keyed_def)
    then have "j \<notin> fst ` set (List.map_filter g ss)" using keys[of ss] by blast
    then have "map_of (List.map_filter g ss) j = None" by (simp add: map_of_eq_None_iff)
    then show ?case using Cons.IH[OF j(2)] j keys[of ss] by (auto simp: p g_def List.map_filter_simps keyed_def)
  qed (simp add: List.map_filter_simps keyed_def)
  then show "keyed (tb_seats (sit_out t))" "map_of (tb_seats (sit_out t)) i = (case map_of (tb_seats t) i of None \<Rightarrow> None | Some s \<Rightarrow>
      if st_bet s \<noteq> None then Some s else if st_idleRounds s + 1 \<ge> IDLE_ROUNDS_TO_UNSEAT then None
      else Some (s\<lparr>st_idleRounds := st_idleRounds s + 1\<rparr>))"
    using assms by (simp_all add: sit_out_def g_def)
qed

lemma sit_out_frame [simp]: "same_deck t (sit_out t)" "tb_timer (sit_out t) = tb_timer t" "tb_phase (sit_out t) = tb_phase t"
  "tb_dealSeed (sit_out t) = tb_dealSeed t" "tb_clientSeed (sit_out t) = tb_clientSeed t"
  "tb_dealLog (sit_out t) = tb_dealLog t"
  by (simp_all add: sit_out_def same_deck_def)

lemma sit_out_ok:
  assumes "cards_ok hmac t"
  shows "cards_ok hmac (sit_out t)"
proof (rule same_deck_ok[OF sit_out_frame(1) assms])
  have k: "keyed (tb_seats t)" using assms by (simp add: cards_ok_def)
  show "keyed (tb_seats (sit_out t))" by (rule sit_out_lookup(1)[OF k])
  fix i s' assume "map_of (tb_seats (sit_out t)) i = Some s'"
  then have "\<exists>s. map_of (tb_seats t) i = Some s \<and> st_cards s' = st_cards s"
    unfolding sit_out_lookup(2)[OF k] by (auto split: option.splits if_splits)
  then show "st_cards s' = [] \<or> (\<exists>s. map_of (tb_seats t) i = Some s \<and> st_cards s' = st_cards s)" by blast
qed

lemma deal_ok:
  assumes d: "deal env fault t d = (t', d')" and h: "env_hmac (en_play env) = hmac" and t: "cards_ok hmac t" and e: "tb_dealLog t = []"
    and sc: "tb_dealSeed t = Some sd" "tb_clientSeed t = Some c" and p: "calm t"
  shows "table_ok hmac t'"
proof -
  define players where "players = map fst (bettingSeats t)"
  define t0 where "t0 = sit_out t"
  have t0: "cards_ok hmac t0" "calm t0" using sit_out_ok[OF t] p by (simp_all add: t0_def calm_def)
  show ?thesis
  proof (cases "players = []")
    case True
    then have "t' = t0\<lparr>tb_phase := Bj_idle, tb_closeAt := None\<rparr>"
      using d unfolding deal_def Let_def players_def[symmetric] t0_def[symmetric] by (auto split: sum.splits)
    then show ?thesis using t0(2) by (intro calm_ok cards_frame[OF _ _ t0(1)]) (simp_all add: same_deck_def calm_def)
  next
    case False
    define t1 where "t1 = t0\<lparr>tb_phase := Bj_dealing, tb_closeAt := None\<rparr>"
    define t2 where "t2 = fold (drawCard env) (deal_sequence players) t1"
    define t3 where "t3 = map_seats (side_outcomes (tb_dealerCards t2)) t2"
    have t1: "cards_ok hmac t1" by (rule cards_frame[OF _ _ t0(1)]) (simp_all add: t1_def same_deck_def)
    have "tb_dealLog t1 = []" "tb_dealSeed t1 = Some sd" "tb_clientSeed t1 = Some c" using e sc by (simp_all add: t1_def t0_def)
    then have x: "exact_ok hmac t1" using t1 by (fastforce simp: exact_ok_def cards_ok_def log_cards_def)
    note D = deal_exact[OF h x, of "deal_sequence players", folded t2_def]
    have f: "tb_phase (fold (drawCard env) rs u) = tb_phase u \<and> tb_timer (fold (drawCard env) rs u) = tb_timer u" for rs u
      by (induction rs arbitrary: u) simp_all
    have side: "st_cards (side_outcomes k s) = st_cards s" "st_bet (side_outcomes k s) = st_bet s" for k s
      by (auto simp: side_outcomes_def Let_def split: option.splits list.splits)
    have t3: "cards_ok hmac t3" unfolding t3_def by (rule map_seats_ok) (use D side in \<open>auto simp: exact_ok_def\<close>)
    have seeds3: "tb_dealSeed t3 \<noteq> None" "tb_clientSeed t3 \<noteq> None" using D by (simp_all add: t3_def map_seats_def exact_ok_def)
    have dealt: "st_cards s \<noteq> []" if s: "map_of (tb_seats t3) i = Some s" "st_bet s \<noteq> None" for i s
    proof -
      obtain s2 where s2: "map_of (tb_seats t2) i = Some s2" "st_cards s = st_cards s2" "st_bet s2 \<noteq> None"
        using s by (auto simp: t3_def side)
      then obtain s1 where s1: "map_of (tb_seats t1) i = Some s1" "st_bet s1 \<noteq> None" using D by metis
      then have "map_of (tb_seats t) i = Some s1"
      proof -
        have "keyed (tb_seats t)" "map_of (tb_seats (sit_out t)) i = Some s1" using t s1(1) by (simp_all add: t1_def t0_def cards_ok_def)
        then show ?thesis using s1(2) unfolding sit_out_lookup(2)[OF \<open>keyed (tb_seats t)\<close>] by (auto split: option.splits if_splits)
      qed
      then have "i \<in> set players" using s1(2) t bettingSeats_iff[of t i s1] by (force simp: players_def cards_ok_def)
      then have "Seat i \<in> dealtTo ` set (tb_dealLog t2)" using D by (simp add: deal_sequence_def)
      then have "filter (\<lambda>e. dealtTo e = Seat i) (tb_dealLog t2) \<noteq> []" by (auto simp: filter_empty_conv)
      moreover obtain sd2 c2 where "tb_dealSeed t2 = Some sd2" "tb_clientSeed t2 = Some c2" using D by (auto simp: exact_ok_def)
      ultimately have "log_cards hmac t2 (Seat i) \<noteq> []" by (simp add: log_cards_def)
      then show ?thesis using D s2(1,2) by (simp add: exact_ok_def)
    qed
    have calm3: "calm t3" using f[of "deal_sequence players" t1] t0(2) by (simp add: t3_def t2_def t1_def calm_def)
    consider "t' = t1" | "t' = t3" | d2 where "advanceTurn env fault (- 1) (t3\<lparr>tb_phase := Bj_player_turns\<rparr>) d2 = (t', d')"
      using d False unfolding deal_def Let_def players_def[symmetric] t0_def[symmetric] t1_def[symmetric] t2_def[symmetric] t3_def[symmetric]
      by (auto split: sum.splits)
    then show ?thesis
    proof cases
      case 1 then show ?thesis using calm_ok[OF t1] t0(2) by (simp add: t1_def calm_def)
    next
      case 2 then show ?thesis using calm_ok[OF t3 calm3] by simp
    next
      case (3 d2)
      obtain sd' c' where "tb_dealSeed t3 = Some sd'" "tb_clientSeed t3 = Some c'" using seeds3 by blast
      moreover have "cards_ok hmac (t3\<lparr>tb_phase := Bj_player_turns\<rparr>)" by (rule cards_frame[OF _ _ t3]) (simp_all add: same_deck_def)
      ultimately show ?thesis using advanceTurn_ok[OF 3 h] dealt by simp
    qed
  qed
qed

lemma openBetting_ok:
  assumes o: "openBetting env fresh t d = (r, t', d')" and t: "cards_ok hmac t" and p: "tb_phase t \<noteq> Bj_player_turns"
  shows "table_ok hmac t'"
proof -
  obtain sv c where fresh: "fresh = (sv, c)" by fastforce
  define t0 where "t0 = t\<lparr>tb_timer := None, tb_phase := Bj_betting, tb_closeAt := None\<rparr>"
  have t0: "table_ok hmac t0" by (intro calm_ok cards_frame[OF _ _ t]) (simp_all add: t0_def same_deck_def calm_def)
  have new: "cards_ok hmac (t1\<lparr>tb_dealSeed := Some x, tb_timer := k\<rparr>) \<and> tb_phase t1 = Bj_betting \<and> tb_timer t1 = None \<and> tb_dealLog t1 = []
      \<and> tb_clientSeed t1 = Some c \<and> table_ok hmac t1" if "t1 = betting_round env fresh sid rid t0" for t1 sid rid and x :: string and k
    using t by (auto simp: that betting_round_def fresh cards_ok_def log_ok_def log_cards_def table_ok_def turn_ok_def t0_def map_seats_def
        seats_map_of seats_map_fst keyed_def reset_seat_def)
  note new' = new[OF refl]
  consider "t' = t0" | sid rid where "t' = betting_round env fresh sid rid t0"
    | sid rid x where "t' = (betting_round env fresh sid rid t0)\<lparr>tb_dealSeed := Some x\<rparr>"
    | sid rid x due where "t' = (betting_round env fresh sid rid t0)\<lparr>tb_dealSeed := Some x, tb_timer := Some (Deal_timer, due)\<rparr>"
    using o unfolding openBetting_def fresh Let_def prod.case t0_def[symmetric]
    by (auto split: sum.splits prod.splits)
  then show ?thesis
  proof cases
    case 1 then show ?thesis using t0 by simp
  next
    case (2 sid rid) then show ?thesis using new' by blast
  next
    case (3 sid rid x)
    then have "t' = (betting_round env fresh sid rid t0)\<lparr>tb_dealSeed := Some x, tb_timer := None\<rparr>" using new[of "betting_round env fresh sid rid t0" sid rid] by simp
    then show ?thesis using new[of "betting_round env fresh sid rid t0" sid rid None x] by (auto simp: table_ok_def turn_ok_def)
  next
    case (4 sid rid x due)
    then show ?thesis using new[of "betting_round env fresh sid rid t0" sid rid "Some (Deal_timer, due)" x] by (auto simp: table_ok_def turn_ok_def)
  qed
qed

lemma seat_of_seat: "keyed (tb_seats t) \<Longrightarrow> seat_of u t = Some (i, s) \<Longrightarrow> map_of (tb_seats t) i = Some s"
  by (auto simp: seat_of_def keyed_def dest!: find_in_set)

text \<open>A change of the seats of a table that is not being played.\<close>

lemma quiet_ok:
  assumes "table_ok hmac t" and "tb_phase t \<noteq> Bj_player_turns" and "same_deck t t'" and "tb_phase t' = tb_phase t" and "tb_timer t' = tb_timer t"
    and "cards_ok hmac t'"
  shows "table_ok hmac t'"
  using assms by (auto simp: table_ok_def turn_ok_def same_deck_def)

lemma placeSeatBet_ok:
  assumes o: "placeSeatBet env fresh u b t d = (r, t', d')" and t: "table_ok hmac t"
  shows "table_ok hmac t'"
proof (cases "t' = t")
  case False
  have p: "tb_phase t = Bj_idle \<or> tb_phase t = Bj_betting \<or> tb_phase t = Bj_settled" using o False by (auto simp: placeSeatBet_def split: if_splits)
  then have np: "tb_phase t \<noteq> Bj_player_turns" by auto
  have k: "keyed (tb_seats t)" "cards_ok hmac t" using t by (simp_all add: table_ok_def cards_ok_def)
  obtain i s where s: "seat_of u t = Some (i, s)" using o False p by (auto simp: placeSeatBet_def split: option.splits)
  define t0 where "t0 = (if tb_phase t = Bj_settled then map_seats (\<lambda>s. s\<lparr>st_bet := None\<rparr>) t else t)"
  define s0 where "s0 = (if tb_phase t = Bj_settled then s\<lparr>st_bet := None\<rparr> else s)"
  have t0: "cards_ok hmac t0" "same_deck t t0" "tb_phase t0 = tb_phase t" "tb_timer t0 = tb_timer t"
    using map_seats_ok[OF k(2), of "\<lambda>s. s\<lparr>st_bet := None\<rparr>"] k(2) by (auto simp: t0_def map_seats_def same_deck_def)
  have m0: "map_of (tb_seats t0) i = Some s0" using seat_of_seat[OF k(1) s] by (simp add: t0_def s0_def)
  define t1 where "t1 g = t0\<lparr>tb_exposure := g, tb_seats := AList.update i (s0\<lparr>st_bet := Some b, st_idleRounds := 0\<rparr>) (tb_seats t0), tb_lastActivityAt := bj_now env\<rparr>" for g
  have t1: "cards_ok hmac (t1 g)" for g
    by (rule update_seat_ok[OF t0(1)]) (auto simp: t1_def same_deck_def m0)
  have q1: "table_ok hmac (t1 g)" for g
    by (rule quiet_ok[OF t np _ _ _ t1]) (use t0 in \<open>simp_all add: t1_def same_deck_def\<close>)
  have q0: "table_ok hmac (t0\<lparr>tb_exposure := g\<rparr>)" for g
    by (rule quiet_ok[OF t np]) (use t0 cards_frame[OF _ _ t0(1)] in \<open>simp_all add: same_deck_def\<close>)
  have ph: "tb_phase (t1 g) = tb_phase t" for g using t0(3) by (simp add: t1_def)
  consider g where "t' = t0\<lparr>tb_exposure := g\<rparr>" | g where "t' = t1 g" | g d1 r1 where "openBetting env fresh (t1 g) d = (r1, t', d1)"
    using o p unfolding placeSeatBet_def s option.case prod.case Let_def t0_def[symmetric] s0_def[symmetric] t1_def[symmetric]
    by (auto split: sum.splits prod.splits if_splits)
  then show ?thesis
  proof cases
    case (3 g d1 r1) then show ?thesis using openBetting_ok[OF 3 t1] ph np by simp
  qed (use q0 q1 in auto)
qed (use t in simp)

lemma play_hand_ok:
  assumes h: "env_hmac (en_play env) = hmac" and t: "table_ok hmac t" and a: "active_hand u act t = Inr (i, s)"
  shows "cards_ok hmac (play_hand env act i t)" and "tb_phase (play_hand env act i t) = Bj_player_turns"
    and "\<exists>sd c. tb_dealSeed (play_hand env act i t) = Some sd \<and> tb_clientSeed (play_hand env act i t) = Some c"
    and "\<And>j s'. map_of (tb_seats (play_hand env act i t)) j = Some s' \<Longrightarrow> st_bet s' \<noteq> None \<Longrightarrow> st_cards s' \<noteq> []"
    and "tb_timer (play_hand env act i t) = tb_timer t" and "tb_activeSeat (play_hand env act i t) = Some i" and "tb_activeSeat t = Some i"
    and "\<exists>s'. map_of (tb_seats (play_hand env act i t)) i = Some s' \<and> st_bet s' \<noteq> None"
proof -
  have i: "tb_activeSeat t = Some i" "map_of (tb_seats t) i = Some s" "tb_phase t = Bj_player_turns"
    using a by (auto simp: active_hand_def split: option.splits)
  then obtain sd c where sc: "tb_dealSeed t = Some sd" "tb_clientSeed t = Some c" and b: "st_bet s \<noteq> None" "st_cards s \<noteq> []"
    and all: "\<And>j s'. map_of (tb_seats t) j = Some s' \<Longrightarrow> st_bet s' \<noteq> None \<Longrightarrow> st_cards s' \<noteq> []"
    using t by (auto simp: table_ok_def turn_ok_def)
  have cards: "cards_ok hmac t" using t by (simp add: table_ok_def)
  then have l: "log_ok t" and exact: "st_cards s = log_cards hmac t (Seat i)" using i(2) b(2) by (auto simp: cards_ok_def)
  define t1 where "t1 = (if act = Act_stand then t else drawCard env (Seat i) t)"
  have "cards_ok hmac (drawCard env (Seat i) t)" by (rule drawCard_ok[OF h sc cards]) (use exact i(2) in auto)
  then have t1: "cards_ok hmac t1" using cards by (simp add: t1_def)
  obtain s1 where s1: "map_of (tb_seats t1) i = Some s1" "st_bet s1 \<noteq> None" "st_cards s1 \<noteq> []"
    and others: "\<And>j s'. j \<noteq> i \<Longrightarrow> map_of (tb_seats t1) j = Some s' \<Longrightarrow> map_of (tb_seats t) j = Some s'"
    using i(2) b by (cases "act = Act_stand") (auto simp: t1_def drawCard_seats)
  have e: "play_hand env act i t = t1\<lparr>tb_seats := AList.update i (played_seat act s1) (tb_seats t1)\<rparr>"
    by (simp add: play_hand_def t1_def[symmetric] s1(1))
  have keep: "st_cards (played_seat act s1) = st_cards s1" "st_bet (played_seat act s1) \<noteq> None" using s1(2) by (auto simp: played_seat_def Let_def)
  show "cards_ok hmac (play_hand env act i t)" unfolding e by (rule update_seat_ok[OF t1]) (auto simp: same_deck_def s1(1) keep)
  show "tb_phase (play_hand env act i t) = Bj_player_turns" "tb_timer (play_hand env act i t) = tb_timer t"
    "tb_activeSeat (play_hand env act i t) = Some i" "tb_activeSeat t = Some i" using i by (simp_all add: e t1_def)
  show "\<exists>sd c. tb_dealSeed (play_hand env act i t) = Some sd \<and> tb_clientSeed (play_hand env act i t) = Some c"
    using sc drawCard_deck(3,4)[OF h sc l] by (simp add: e t1_def)
  show "\<And>j s'. map_of (tb_seats (play_hand env act i t)) j = Some s' \<Longrightarrow> st_bet s' \<noteq> None \<Longrightarrow> st_cards s' \<noteq> []"
    using all others s1(3) keep by (auto simp: e split: if_splits)
  show "\<exists>s'. map_of (tb_seats (play_hand env act i t)) i = Some s' \<and> st_bet s' \<noteq> None" using keep by (simp add: e)
qed

lemma seat_action_ok:
  assumes o: "seat_action env fault u act t d = (r, t', d')" and h: "env_hmac (en_play env) = hmac" and t: "table_ok hmac t"
  shows "table_ok hmac t'"
proof (cases "active_hand u act t")
  case (Inr p)
  obtain i s where p: "p = (i, s)" by fastforce
  note P = play_hand_ok[OF h t Inr[unfolded p]]
  define t1 where "t1 = play_hand env act i t"
  define t2 where "t2 = t1\<lparr>tb_lastActivityAt := bj_now env\<rparr>"
  have t2: "cards_ok hmac t2" by (rule cards_frame[OF _ _ P(1)]) (simp_all add: t2_def t1_def same_deck_def)
  have "tb_phase t = Bj_player_turns" using Inr by (auto simp: active_hand_def split: option.splits)
  then have lost: "table_ok hmac t1" using P t unfolding t1_def table_ok_def turn_ok_def by auto
  consider "t' = t1" | n d1 where "advanceTurn env fault n t2 d1 = (t', d')"
    using o unfolding seat_action_def Inr p sum.case prod.case Let_def t1_def[symmetric] t2_def[symmetric] by (auto split: sum.splits prod.splits)
  then show ?thesis
  proof cases
    case (2 n d1)
    obtain sd c where "tb_dealSeed t2 = Some sd" "tb_clientSeed t2 = Some c" using P(3) by (auto simp: t2_def t1_def)
    then show ?thesis using advanceTurn_ok[OF 2 h t2] P(2,4) by (simp add: t2_def t1_def)
  qed (use lost in simp)
qed (use o t in \<open>simp add: seat_action_def\<close>)

lemma fire_table_ok:
  assumes o: "fire_table env fault k (t\<lparr>tb_timer := None\<rparr>) d = (t', d')" and h: "env_hmac (en_play env) = hmac" and t: "table_ok hmac t"
    and k: "tb_timer t = Some (k, due)"
  shows "table_ok hmac t'"
proof -
  define u where "u = t\<lparr>tb_timer := None\<rparr>"
  have ct: "cards_ok hmac t" using t by (simp add: table_ok_def)
  have u: "cards_ok hmac u" by (rule cards_frame[OF _ _ ct]) (simp_all add: u_def same_deck_def)
  have uok: "table_ok hmac u" using t u by (auto simp: table_ok_def turn_ok_def u_def)
  show ?thesis
  proof (cases k)
    case Deal_timer
    then have "tb_phase t = Bj_betting" "tb_dealLog t = []" "tb_dealSeed t \<noteq> None" "tb_clientSeed t \<noteq> None" using t k by (auto simp: table_ok_def turn_ok_def)
    then show ?thesis using deal_ok[of env fault u d t' d' hmac] o h u Deal_timer by (auto simp: fire_table_def u_def calm_def)
  next
    case (Turn_timer i)
    show ?thesis
    proof (cases "t' = u")
      case False
      then obtain s where s: "tb_phase t = Bj_player_turns" "map_of (tb_seats t) i = Some s"
        "advanceTurn env fault (int i) (u\<lparr>tb_seats := AList.update i (s\<lparr>st_status := Hand_standing\<rparr>) (tb_seats u)\<rparr>) d = (t', d')"
        using o Turn_timer by (auto simp: fire_table_def u_def split: option.splits if_splits)
      have c: "cards_ok hmac (u\<lparr>tb_seats := AList.update i (s\<lparr>st_status := Hand_standing\<rparr>) (tb_seats u)\<rparr>)"
        by (rule update_seat_ok[OF u, of _ i "s\<lparr>st_status := Hand_standing\<rparr>"]) (use s(2) in \<open>auto simp: same_deck_def u_def\<close>)
      obtain sd cl where "tb_dealSeed t = Some sd" "tb_clientSeed t = Some cl"
        and all: "\<And>j s'. map_of (tb_seats t) j = Some s' \<Longrightarrow> st_bet s' \<noteq> None \<Longrightarrow> st_cards s' \<noteq> []"
        using t s(1) by (auto simp: table_ok_def turn_ok_def)
      then show ?thesis by (intro advanceTurn_ok[OF s(3) h c]) (use s(1,2) in \<open>auto simp: u_def split: if_splits\<close>)
    qed (use uok in simp)
  next
    case Idle_timer
    show ?thesis
    proof (cases "t' = u")
      case False
      then have s: "tb_phase t = Bj_settled" "t' = (map_seats (\<lambda>s. s\<lparr>st_bet := None\<rparr>) u)\<lparr>tb_phase := Bj_idle, tb_closeAt := None\<rparr>"
        using o Idle_timer by (auto simp: fire_table_def u_def split: if_splits)
      have c: "cards_ok hmac (map_seats (\<lambda>s. s\<lparr>st_bet := None\<rparr>) u)" by (rule map_seats_ok[OF u]) simp
      show ?thesis unfolding s(2) by (rule calm_ok, rule cards_frame[OF _ _ c]) (simp_all add: same_deck_def calm_def u_def)
    qed (use uok in simp)
  qed
qed

lemma leaveSeat_ok:
  assumes o: "leaveSeat env u t d = (r, t', d')" and t: "table_ok hmac t"
  shows "table_ok hmac t'"
proof (cases "t' = t")
  case False
  then obtain i s where s: "seat_of u t = Some (i, s)" and e: "t' = t\<lparr>tb_seats := AList.delete i (tb_seats t), tb_lastActivityAt := bj_now env\<rparr>"
    and p: "tb_phase t = Bj_player_turns \<Longrightarrow> st_bet s = None"
    using o by (auto simp: leaveSeat_def Let_def split: option.splits if_splits sum.splits)
  have c: "cards_ok hmac t" and k: "keyed (tb_seats t)" using t by (simp_all add: table_ok_def cards_ok_def)
  have "cards_ok hmac t'"
    using k by (intro same_deck_ok[OF _ c]) (auto simp: e same_deck_def delete_conv' keyed_def distinct_delete split: if_splits)
  then show ?thesis using t p seat_of_seat[OF k s] by (auto simp: table_ok_def turn_ok_def e delete_conv')
qed (use t in simp)

lemma clearSeatBet_ok:
  assumes o: "clearSeatBet env u t d = (r, t', d')" and t: "table_ok hmac t"
  shows "table_ok hmac t'"
proof (cases "t' = t")
  case False
  then obtain i s g where s: "seat_of u t = Some (i, s)" and p: "tb_phase t = Bj_betting"
    and e: "t' = t\<lparr>tb_seats := AList.update i (s\<lparr>st_bet := None\<rparr>) (tb_seats t), tb_exposure := g\<rparr>"
    using o by (auto simp: clearSeatBet_def Let_def split: option.splits if_splits sum.splits)
  have c: "cards_ok hmac t" and k: "keyed (tb_seats t)" using t by (simp_all add: table_ok_def cards_ok_def)
  have "cards_ok hmac t'" by (rule update_seat_ok[OF c, of _ i "s\<lparr>st_bet := None\<rparr>"]) (use seat_of_seat[OF k s] in \<open>auto simp: e same_deck_def\<close>)
  then show ?thesis by (intro quiet_ok[OF t]) (simp_all add: p e same_deck_def)
qed (use t in simp)

lemma takeSeat_ok:
  assumes o: "takeSeat now i u t = Inr t'" and t: "table_ok hmac t"
  shows "table_ok hmac t'"
proof -
  define s where "s = \<lparr>st_userId = u, st_idleRounds = 0, st_bet = None, st_cards = [], st_status = Hand_playing,
              st_doubled = False, st_side21p3Outcome = None, st_sidePerfectPairsOutcome = None, st_result = None, st_payoutLamports = 0\<rparr>"
  have e: "t' = t\<lparr>tb_seats := AList.update i s (tb_seats t), tb_lastActivityAt := now\<rparr>" and free: "map_of (tb_seats t) i = None"
    using o by (auto simp: takeSeat_def s_def)
  have c: "cards_ok hmac t" using t by (simp add: table_ok_def)
  have "cards_ok hmac t'" by (rule update_seat_ok[OF c, of _ i s]) (auto simp: e same_deck_def s_def)
  then show ?thesis using t free by (auto simp: table_ok_def turn_ok_def e s_def split: if_splits)
qed

lemma credit_back_table: "credit_back u x w t d = (r, t', d') \<Longrightarrow> t' = t"
  by (auto simp: credit_back_def split: sum.splits)

lemma table_step_ok: "table_step hmac s s' \<Longrightarrow> table_ok hmac (fst s) \<Longrightarrow> table_ok hmac (fst s')"
proof (induction rule: table_step.induct)
  case (Seat_bet env fresh u b t d r t' d')
  show ?case
  proof (cases "t' = t")
    case False
    then obtain r1 d1 d2 where "placeSeatBet env fresh u b t d1 = (r1, t', d2)"
      using Seat_bet(2) by (auto simp: place_seat_bet_def Let_def split: sum.splits prod.splits dest!: credit_back_table)
    then show ?thesis using placeSeatBet_ok Seat_bet(3) by simp
  qed (use Seat_bet in simp)
next
  case (Seat_clear env u t d r' t' d')
  then obtain r1 d1 where "clearSeatBet env u t d = (r1, t', d1)" by (auto simp: clear_seat_bet_def split: sum.splits prod.splits)
  then show ?case using clearSeatBet_ok Seat_clear by simp
next
  case (Seat_left env u t d r' t' d')
  then obtain r1 d1 where "leaveSeat env u t d = (r1, t', d1)" by (auto simp: leave_seat_def split: sum.splits prod.splits if_splits)
  then show ?case using leaveSeat_ok Seat_left by simp
next
  case (Seat_taken now i u t d r t')
  then show ?case using takeSeat_ok by (auto simp: take_seat_def split: sum.splits)
next
  case (Seat_plays env fault u act t d r t' d')
  show ?case
  proof (cases "t' = t")
    case False
    then obtain r1 d1 d2 where "seat_action env fault u act t d1 = (r1, t', d2)"
      using Seat_plays(2) by (auto simp: play_action_def split: sum.splits prod.splits if_splits dest!: credit_back_table)
    then show ?thesis using seat_action_ok Seat_plays by simp
  qed (use Seat_plays in simp)
next
  case (Table_timer env t k due fault d t' d') then show ?case using fire_table_ok by simp
qed simp

text \<open>
  C11. Whatever the players, the timers and the database do to a table, the cards that lie on it are those of the public log: the log
  numbers the cards of the stream from 0 without a gap, and reproducing the round from it with the seed of the deal gives, for every seat that
  holds cards and for the dealer, exactly the hand that was played.
\<close>

theorem blackjack_hands_reproduced:
  assumes "(table_step hmac)\<^sup>*\<^sup>* (t0, d0) (t, d)" and "createTable now name isPrivate ownerId ts d1 = (tid, ts', d2)" and "map_of ts' tid = Some t0"
    and "tb_dealSeed t = Some seed" and "tb_clientSeed t = Some clientSeed"
  shows "map deckIndex (tb_dealLog t) = [0..<tb_deckIndex t]
    \<and> (\<forall>i s. map_of (tb_seats t) i = Some s \<longrightarrow> st_cards s \<noteq> [] \<longrightarrow>
         (\<exists>h \<in> set (reproduceRound hmac seed clientSeed (tb_nonce t) (tb_dealLog t)). hand_to h = Seat i \<and> hand_cards h = st_cards s))
    \<and> (tb_dealerCards t \<noteq> [] \<longrightarrow>
         (\<exists>h \<in> set (reproduceRound hmac seed clientSeed (tb_nonce t) (tb_dealLog t)). hand_to h = Dealer \<and> hand_cards h = tb_dealerCards t))"
proof -
  have "table_ok hmac t0"
    using assms(2,3) by (auto simp: createTable_def Let_def split_def table_ok_def turn_ok_def cards_ok_def log_ok_def log_cards_def)
  moreover have "table_ok hmac (fst s')" if "(table_step hmac)\<^sup>*\<^sup>* s s'" "table_ok hmac (fst s)" for s s'
    using that by (induction rule: rtranclp_induct) (auto intro: table_step_ok)
  ultimately have "table_ok hmac t" using assms(1) by fastforce
  then have ok: "cards_ok hmac t" and l: "log_ok t" by (simp_all add: table_ok_def cards_ok_def)
  let ?log = "tb_dealLog t" and ?n = "tb_nonce t"
  have "sorted (map deckIndex ?log)" using l by (simp add: log_ok_def)
  then have sort: "sort_key deckIndex ?log = ?log" by (rule sort_key_id_if_sorted)
  have cards: "log_cards hmac t r = map (\<lambda>e. deal_card hmac seed clientSeed ?n (deckIndex e)) (filter (\<lambda>e. dealtTo e = r) ?log)" for r
    using assms(4,5) by (simp add: log_cards_def)
  have "\<exists>h \<in> set (reproduceRound hmac seed clientSeed ?n ?log). hand_to h = r \<and> hand_cards h = log_cards hmac t r"
    if dealt: "log_cards hmac t r \<noteq> []" for r
  proof -
    obtain e where e: "e \<in> set ?log" "dealtTo e = r" using dealt by (auto simp: cards filter_empty_conv)
    obtain h where h: "(hand_key e, h) \<in> set (round_hands hmac seed clientSeed ?n ?log)" using round_hands_complete[OF e(1)] by blast
    obtain f where f: "f \<in> set ?log" "hand_key e = hand_key f" "hand_to h = dealtTo f" "hand_id h = handId f" using round_hands_row[OF h] by blast
    then have to: "hand_to h = r" "hand_id h = hand_of r" using hand_key_inj[of e f] e l by (auto simp: log_ok_def)
    have "filter (\<lambda>e. dealtTo e = r \<and> handId e = hand_of r) ?log = filter (\<lambda>e. dealtTo e = r) ?log" using l by (auto simp: log_ok_def intro: filter_cong)
    then have "hand_cards h = log_cards hmac t r" using round_hands_cards[OF h] by (simp add: to sort cards o_def)
    then show ?thesis using h to(1) by (force simp: reproduceRound_hands)
  qed
  note R = this
  show ?thesis
  proof (intro conjI allI impI)
    show "map deckIndex ?log = [0..<tb_deckIndex t]" using l by (simp add: log_ok_def)
    fix i s assume "map_of (tb_seats t) i = Some s" "st_cards s \<noteq> []"
    then have "st_cards s = log_cards hmac t (Seat i)" using ok by (auto simp: cards_ok_def)
    then show "\<exists>h \<in> set (reproduceRound hmac seed clientSeed ?n ?log). hand_to h = Seat i \<and> hand_cards h = st_cards s"
      using R[of "Seat i"] \<open>st_cards s \<noteq> []\<close> by simp
  next
    assume "tb_dealerCards t \<noteq> []"
    moreover have "tb_dealerCards t = log_cards hmac t Dealer" using ok by (simp add: cards_ok_def)
    ultimately show "\<exists>h \<in> set (reproduceRound hmac seed clientSeed ?n ?log). hand_to h = Dealer \<and> hand_cards h = tb_dealerCards t" using R by simp
  qed
qed

subsection \<open>Witness\<close>

lemma bet_opens: "\<exists>r d'. place_seat_bet (bj_env0 0 None) (''s'', ''c'') 1 main_bet (new_table\<lparr>tb_seats := [(0, seated None)]\<rparr>) (bj_db\<lparr>blackjackRounds := []\<rparr>)
    = (r, betting_table, d')"
proof -
  let ?d = "bj_db\<lparr>blackjackRounds := []\<rparr>"
  have checks: "bj_bet_ok main_bet = Inr ()" "bj_user 1 ?d = Inr ()" "assertCanWager \<lparr>paused = False, realMoneyEnabled = False, now_ms = 0\<rparr> 1 1000000 ?d = Inr ()"
    by (simp_all add: bj_bet_ok_def guardE_def main_bet_def BJ_MIN_BET_LAMPORTS_def BJ_MAX_BET_LAMPORTS_def LAMPORTS_PER_SOL_def bj_user_def bj_db_def
        assertCanWager_def offline_env_def)
  obtain b d1 where a: "applyBalanceDelta 1 (- 1000000) ((jeton_meta ''blackjack_bet'' ''BlackjackTable'')\<lparr>refId := Some 0\<rparr>) ?d = Inr (b, d1)"
    using debit_ok[of ?d 1 new_user "(jeton_meta ''blackjack_bet'' ''BlackjackTable'')\<lparr>refId := Some 0\<rparr>" 1000000] by (auto simp: bj_db_def)
  have f: "seeds d1 = []" "blackjackRounds d1 = []" "blackjackTables d1 = [(0, \<lparr>bt_name = ''T'', bt_status = Table_waiting, bt_maxSeats = 5\<rparr>)]"
    using applyBalanceDelta_frame[OF a] by (simp_all add: bj_db_def)
  have "\<exists>d'. placeSeatBet (bj_env0 0 None) (''s'', ''c'') 1 main_bet (new_table\<lparr>tb_seats := [(0, seated None)]\<rparr>) d1 = (Inr 0, betting_table, d')"
    by (simp add: placeSeatBet_def seat_of_def new_table_fields seated_def bj_env0_def openBetting_def written_def insert_row_def fresh_key_def f
        betting_round_def deal_seed_def map_seats_def reset_seat_def round_guard_def update_bj_table_def persistBettingStakes_def update_bj_round_def
        betting_table_def BETTING_WINDOW_MS_def Let_def)
  then show ?thesis using checks a
    by (auto simp: place_seat_bet_def bet_debit_def betTotal_def main_bet_def bj_env0_def assertDepositedOnly_def bj_debit_def new_table_fields)
qed

lemma deal_shows_cards:
  obtains t d' s where "deal (bj_env0 15000 (Some 1)) Answers (betting_table\<lparr>tb_timer := None\<rparr>) bj_db = (t, d')" "map_of (tb_seats t) 0 = Some s"
    "length (st_cards s) = 2" "length (tb_dealerCards t) = 2" "tb_dealSeed t = Some ''s''" "tb_clientSeed t = Some ''c''"
proof -
  obtain t d' where d: "deal (bj_env0 15000 (Some 1)) Answers (betting_table\<lparr>tb_timer := None\<rparr>) bj_db = (t, d')" by fastforce
  have side: "st_cards (side_outcomes k s) = st_cards s" for k s by (auto simp: side_outcomes_def Let_def split: option.splits list.splits)
  have "(\<exists>s. map_of (tb_seats t) 0 = Some s \<and> length (st_cards s) = 2) \<and> length (tb_dealerCards t) = 2 \<and> tb_dealSeed t = Some ''s'' \<and> tb_clientSeed t = Some ''c''"
    using d by (auto simp: deal_def bettingSeats_def sit_out_def List.map_filter_simps betting_table_def new_table_fields seated_def bj_env0_def written_def
        update_bj_round_def update_bj_table_def bj_db_def deal_sequence_def drawCard_def Let_def map_seats_def side)
  then show thesis using that[OF d] by blast
qed

theorem blackjack_hands_reproduced_witness:
  "\<exists>t d. (table_step toy_hmac)\<^sup>*\<^sup>* (new_table, bj_db) (t, d)
     \<and> (\<exists>h \<in> set (reproduceRound toy_hmac ''s'' ''c'' (tb_nonce t) (tb_dealLog t)). hand_to h = Seat 0 \<and> length (hand_cards h) = 2)"
proof -
  have h: "env_hmac (en_play (bj_env0 x y)) = toy_hmac" for x y by (simp add: bj_env0_def)
  have 1: "table_step toy_hmac (new_table, bj_db) (new_table\<lparr>tb_seats := [(0, seated None)]\<rparr>, bj_db)"
    by (rule table_step.Seat_taken[where now = 0 and i = 0 and u = 1 and r = "Inr ()"])
      (simp add: take_seat_def bj_user_def bj_db_def takeSeat_def guardE_def seat_of_def new_table_fields seated_def)
  have 2: "table_step toy_hmac (new_table\<lparr>tb_seats := [(0, seated None)]\<rparr>, bj_db) (new_table\<lparr>tb_seats := [(0, seated None)]\<rparr>, bj_db\<lparr>blackjackRounds := []\<rparr>)"
    by (rule table_step.Db_elsewhere)
  obtain q d1 where "place_seat_bet (bj_env0 0 None) (''s'', ''c'') 1 main_bet (new_table\<lparr>tb_seats := [(0, seated None)]\<rparr>) (bj_db\<lparr>blackjackRounds := []\<rparr>)
    = (q, betting_table, d1)" using bet_opens by blast
  from table_step.Seat_bet[OF h this]
  have 3: "table_step toy_hmac (new_table\<lparr>tb_seats := [(0, seated None)]\<rparr>, bj_db\<lparr>blackjackRounds := []\<rparr>) (betting_table, d1)" .
  have 4: "table_step toy_hmac (betting_table, d1) (betting_table, bj_db)" by (rule table_step.Db_elsewhere)
  obtain t d2 s where d: "deal (bj_env0 15000 (Some 1)) Answers (betting_table\<lparr>tb_timer := None\<rparr>) bj_db = (t, d2)" "map_of (tb_seats t) 0 = Some s"
    "length (st_cards s) = 2" "tb_dealSeed t = Some ''s''" "tb_clientSeed t = Some ''c''" using deal_shows_cards by metis
  have 5: "table_step toy_hmac (betting_table, bj_db) (t, d2)"
    by (rule table_step.Table_timer[OF h, where k = Deal_timer and due = 15000 and fault = Answers])
      (use d(1) in \<open>simp_all add: betting_table_def fire_table_def, simp add: bj_env0_def\<close>)
  have r: "(table_step toy_hmac)\<^sup>*\<^sup>* (new_table, bj_db) (t, d2)" using 1 2 3 4 5 by (meson converse_rtranclp_into_rtranclp rtranclp.rtrancl_refl)
  obtain d3 where c: "createTable 0 ''T'' False None [] empty_db = (0, [(0, new_table)], d3)" using new_table_created by blast
  have m: "map_of [(0, new_table)] (0 :: nat) = Some new_table" and ne: "st_cards s \<noteq> []" using d(3) by auto
  have "\<exists>h \<in> set (reproduceRound toy_hmac ''s'' ''c'' (tb_nonce t) (tb_dealLog t)). hand_to h = Seat 0 \<and> hand_cards h = st_cards s"
    using blackjack_hands_reproduced[OF r c m d(4,5)] d(2) ne by blast
  then have "\<exists>h \<in> set (reproduceRound toy_hmac ''s'' ''c'' (tb_nonce t) (tb_dealLog t)). hand_to h = Seat 0 \<and> length (hand_cards h) = 2"
    using d(3) by (auto elim!: bexI[rotated])
  then show ?thesis using r by blast
qed

end
