(* ===== verification/Rewards.thy ===== *)
theory Rewards
  imports Periods Seeds Transactions Shared_Payouts
begin

text \<open>
  \<open>apps/api/src/rewards/rewards.service.ts\<close>: the claims of $SCAD and USDS that have accrued. A claim reserves the balance in one
  transaction; a later attempt calls the chain and confirms or fails the claim in another. What an attempt knows of its claim is what it
  read before the call, so the attempts of the API and of the sweep interleave. The chain is the record of the claims it has paid
  (\<open>claim_reward\<close> of \<open>programs/scadium_vault/src/lib.rs\<close> creates an account per user, kind and period and fails when it exists);
  whether a call reaches it, and whether its answer comes back, is an argument.
\<close>

subsection \<open>Accrual\<close>

definition CASHBACK_PER_LAMPORT_LOST :: int where "CASHBACK_PER_LAMPORT_LOST = 32"

definition MAX_CLAIM_ATTEMPTS :: nat where "MAX_CLAIM_ATTEMPTS = 5"

record case_tier =
  ct_tier :: string
  ct_chance :: rat
  ct_scadBase :: int

definition CASE_TIERS :: "case_tier list" where
  "CASE_TIERS =
     [\<lparr>ct_tier = ''legendary'', ct_chance = lit 1 1000, ct_scadBase = 100000000000000\<rparr>,
      \<lparr>ct_tier = ''epic'', ct_chance = lit 1 100, ct_scadBase = 10000000000000\<rparr>,
      \<lparr>ct_tier = ''rare'', ct_chance = lit 1 10, ct_scadBase = 1000000000000\<rparr>,
      \<lparr>ct_tier = ''common'', ct_chance = 1, ct_scadBase = 100000000000\<rparr>]"

definition cashbackAccrued :: "int \<Rightarrow> int \<Rightarrow> int" where
  "cashbackAccrued lost baseline = (let delta = lost - baseline in if delta \<le> 0 then 0 else delta * CASHBACK_PER_LAMPORT_LOST)"

record reward_env =
  rw_chain :: bool
  rw_now :: int
  rw_hmac :: hmac
  rw_sha :: sha
  rw_seeds :: fresh_seeds
  rw_json :: "reward_kind \<Rightarrow> int \<Rightarrow> nat \<Rightarrow> string"

record rewards_view =
  rv_wagerClaimable :: int
  rv_cashbackClaimable :: int
  rv_caseAvailable :: bool
  rv_nextCaseAt :: "int option"
  rv_chainEnabled :: bool

definition rewards_summary :: "reward_env \<Rightarrow> nat \<Rightarrow> db \<Rightarrow> rewards_view result" where
  "rewards_summary env userId d = (case map_of (users d) userId of
      None \<Rightarrow> Inl (NotFound ''User not found'')
    | Some u \<Rightarrow>
        let nextCaseAt = (case lastDailyCaseAt u of None \<Rightarrow> 0 | Some t \<Rightarrow> t + MS_PER_DAY) in
        Inr \<lparr>rv_wagerClaimable = scadiumBalance u, rv_cashbackClaimable = cashbackAccrued (totalLost u) (cashbackBaselineLost u),
             rv_caseAvailable = (nextCaseAt \<le> rw_now env), rv_nextCaseAt = (if nextCaseAt \<le> rw_now env then None else Some nextCaseAt),
             rv_chainEnabled = rw_chain env\<rparr>)"

subsection \<open>Claims\<close>

datatype claim_reply = Replayed_claim string | New_claim nat

definition pending_claims :: "nat \<Rightarrow> reward_kind \<Rightarrow> db \<Rightarrow> nat" where
  "pending_claims userId kind d =
     length (filter (\<lambda>(_, c). rc_userId c = userId \<and> rc_kind c = kind \<and> rc_status c = Claim_pending) (rewardClaims d))"

definition new_claim :: "nat \<Rightarrow> reward_kind \<Rightarrow> int \<Rightarrow> int \<Rightarrow> claim_status \<Rightarrow> case_trail option \<Rightarrow> db \<Rightarrow> nat \<times> db" where
  "new_claim userId kind period amount status trail d =
     (let (cid, rows) = insert_row \<lparr>rc_userId = userId, rc_kind = kind, rc_period = period, rc_amountScad = amount, rc_status = status,
            rc_attempts = 0, rc_txSignature = None, rc_result = trail\<rparr> (rewardClaims d)
      in (cid, d\<lparr>rewardClaims := rows\<rparr>))"

text \<open>\<open>updateMany\<close> with the balance in its condition, and the error of the code when it matches no row.\<close>

definition reserve_user :: "(user \<Rightarrow> int) \<Rightarrow> (user \<Rightarrow> user) \<Rightarrow> int \<Rightarrow> nat \<Rightarrow> db \<Rightarrow> db result" where
  "reserve_user own f amount userId d = (case map_of (users d) userId of
      None \<Rightarrow> Inl (BadRequest ''Balance changed - retry the claim'')
    | Some u \<Rightarrow> if own u \<ge> amount then Inr (d\<lparr>users := AList.update userId (f u) (users d)\<rparr>)
                else Inl (BadRequest ''Balance changed - retry the claim''))"

definition move_scad :: "int \<Rightarrow> user \<Rightarrow> user" where
  "move_scad x u = u\<lparr>scadiumBalance := scadiumBalance u - x, scadiumReserved := scadiumReserved u + x\<rparr>"

definition move_usds :: "int \<Rightarrow> user \<Rightarrow> user" where
  "move_usds x u = u\<lparr>usdsBalance := usdsBalance u - x, usdsReserved := usdsReserved u + x\<rparr>"

definition claim_scope :: "reward_kind \<Rightarrow> string" where
  "claim_scope k = ''reward_claim_'' @ (case k of Wager_reward \<Rightarrow> ''wagerReward'' | Cashback \<Rightarrow> ''cashback'' | Dividend \<Rightarrow> ''dividend''
     | Daily_case \<Rightarrow> ''dailyCase'' | Airdrop_reward \<Rightarrow> ''airdrop'')"

definition store_claim :: "reward_env \<Rightarrow> nat \<Rightarrow> string \<Rightarrow> string option \<Rightarrow> reward_kind \<Rightarrow> int \<Rightarrow> db \<Rightarrow> (claim_reply \<times> db) result" where
  "store_claim env userId scope key kind amount d =
     (let (cid, d1) = new_claim userId kind (rw_now env) amount Claim_pending None d in
      bindE (storeIdempotency userId scope key (rw_json env kind amount cid) d1) (\<lambda>d2. Inr (New_claim cid, d2)))"

definition claim_tx :: "reward_env \<Rightarrow> nat \<Rightarrow> reward_kind \<Rightarrow> string option \<Rightarrow> db \<Rightarrow> (claim_reply \<times> db) result" where
  "claim_tx env userId kind key d =
     bindE (claimIdempotency userId (claim_scope kind) key d) (\<lambda>(replay, d1). case replay of
       Some r \<Rightarrow> Inr (Replayed_claim r, d1)
     | None \<Rightarrow> (case map_of (users d1) userId of
         None \<Rightarrow> Inl (NotFound ''User not found'')
       | Some u \<Rightarrow>
           bindE (guardE (pending_claims userId kind d1 = 0) (BadRequest ''A claim is already pending confirmation'')) (\<lambda>_.
           if kind = Wager_reward then
             let amount = scadiumBalance u in
             bindE (guardE (amount > 0) (BadRequest ''Nothing to claim'')) (\<lambda>_.
             bindE (reserve_user scadiumBalance (move_scad amount) amount userId d1) (store_claim env userId (claim_scope kind) key kind amount))
           else
             let amount = cashbackAccrued (totalLost u) (cashbackBaselineLost u) in
             bindE (guardE (amount > 0) (BadRequest ''Nothing to claim'')) (\<lambda>_. store_claim env userId (claim_scope kind) key kind amount d1))))"

definition claim_dividend_tx :: "reward_env \<Rightarrow> nat \<Rightarrow> string option \<Rightarrow> db \<Rightarrow> (claim_reply \<times> db) result" where
  "claim_dividend_tx env userId key d =
     bindE (claimIdempotency userId ''reward_claim_dividend'' key d) (\<lambda>(replay, d1). case replay of
       Some r \<Rightarrow> Inr (Replayed_claim r, d1)
     | None \<Rightarrow> (case map_of (users d1) userId of
         None \<Rightarrow> Inl (NotFound ''User not found'')
       | Some u \<Rightarrow>
           bindE (guardE (pending_claims userId Dividend d1 = 0) (BadRequest ''A claim is already pending confirmation'')) (\<lambda>_.
           let amount = usdsBalance u in
           bindE (guardE (amount > 0) (BadRequest ''Nothing to claim'')) (\<lambda>_.
           bindE (reserve_user usdsBalance (move_usds amount) amount userId d1) (store_claim env userId ''reward_claim_dividend'' key Dividend amount)))))"

definition require_chain :: "reward_env \<Rightarrow> unit result" where
  "require_chain env = guardE (rw_chain env) (BadRequest ''On-chain claims are disabled on this server'')"

text \<open>\<open>YYYYMMDD\<close> of the day, in UTC.\<close>

definition case_period :: "int \<Rightarrow> int" where
  "case_period now = (let (y, mm, dd) = civil_of_days (now div MS_PER_DAY) in y * 10000 + mm * 100 + dd)"

definition open_case_tx :: "reward_env \<Rightarrow> nat \<Rightarrow> string option \<Rightarrow> db \<Rightarrow> (claim_reply \<times> db) result" where
  "open_case_tx env userId key d =
     bindE (claimIdempotency userId ''daily_case'' key d) (\<lambda>(replay, d1). case replay of
       Some r \<Rightarrow> Inr (Replayed_claim r, d1)
     | None \<Rightarrow> (case map_of (users d1) userId of
         None \<Rightarrow> Inl (NotFound ''User not found'')
       | Some u \<Rightarrow>
           let prev = (case lastDailyCaseAt u of None \<Rightarrow> 0 | Some t \<Rightarrow> t) in
           bindE (guardE (rw_now env - prev \<ge> MS_PER_DAY) (BadRequest ''Daily case already opened'')) (\<lambda>_.
           bindE (consumeNonce (rw_sha env) (rw_seeds env) userId d1) (\<lambda>(ctx, d2).
           let roll = dailyCaseRoll (rw_hmac env) (ctx_serverSeed ctx) (ctx_clientSeed ctx) (ctx_nonce ctx) in
           bindE (pickCaseTier ct_chance roll CASE_TIERS) (\<lambda>tier.
           bindE (updateUser userId (\<lambda>u. u\<lparr>lastDailyCaseAt := Some (rw_now env)\<rparr>) d2) (\<lambda>d3.
           let trail = \<lparr>tr_tier = ct_tier tier, tr_roll = roll, tr_serverSeedHash = ctx_serverSeedHash ctx, tr_clientSeed = ctx_clientSeed ctx,
                 tr_nonce = ctx_nonce ctx\<rparr>;
               (cid, d4) = new_claim userId Daily_case (case_period (rw_now env)) (ct_scadBase tier)
                 (if rw_chain env then Claim_pending else Claim_offchain) (Some trail) d3 in
           bindE (storeIdempotency userId ''daily_case'' key (rw_json env Daily_case (ct_scadBase tier) cid) d4) (\<lambda>d5. Inr (New_claim cid, d5))))))))"

definition recentClaims :: "nat \<Rightarrow> int \<Rightarrow> db \<Rightarrow> (nat \<times> reward_claim) list" where
  "recentClaims userId limit d =
     take (nat (min (max limit 1) 100)) (rev (filter (\<lambda>(_, c). rc_userId c = userId) (rewardClaims d)))"

subsection \<open>Attempts\<close>

text \<open>The claims the program has paid, and one call of it.\<close>

type_synonym reward_chain = "((string \<times> reward_kind \<times> int) \<times> int) list"

datatype net = Net_down | Net_lost | Net_ok string

definition call_chain :: "net \<Rightarrow> string \<Rightarrow> reward_kind \<Rightarrow> int \<Rightarrow> int \<Rightarrow> reward_chain \<Rightarrow> string option \<times> reward_chain" where
  "call_chain net wallet kind period amount ch =
     (if net = Net_down \<or> amount \<le> 0 \<or> map_of ch (wallet, kind, period) \<noteq> None then (None, ch)
      else ((case net of Net_ok sig \<Rightarrow> Some sig | _ \<Rightarrow> None), ch @ [((wallet, kind, period), amount)]))"

text \<open>What an attempt reads: the claim with the wallet and the losses of its user at that time.\<close>

record claim_read =
  cr_claim :: reward_claim
  cr_wallet :: string
  cr_totalLost :: int

definition read_claim :: "nat \<Rightarrow> db \<Rightarrow> claim_read option" where
  "read_claim cid d = (case map_of (rewardClaims d) cid of
      None \<Rightarrow> None
    | Some c \<Rightarrow> if rc_status c \<noteq> Claim_pending then None else (case map_of (users d) (rc_userId c) of
        None \<Rightarrow> None
      | Some u \<Rightarrow> Some \<lparr>cr_claim = c, cr_wallet = walletAddress u, cr_totalLost = totalLost u\<rparr>))"

text \<open>\<open>updateMany\<close> that flips a claim that is still pending; the rest of the transaction runs when it did.\<close>

definition flip_claim :: "nat \<Rightarrow> (reward_claim \<Rightarrow> reward_claim) \<Rightarrow> (db \<Rightarrow> db result) \<Rightarrow> db \<Rightarrow> db result" where
  "flip_claim cid f rest d = (case map_of (rewardClaims d) cid of
      None \<Rightarrow> Inr d
    | Some c \<Rightarrow> if rc_status c \<noteq> Claim_pending then Inr d else rest (d\<lparr>rewardClaims := AList.update cid (f c) (rewardClaims d)\<rparr>))"

definition claim_confirm_tx :: "nat \<Rightarrow> claim_read \<Rightarrow> string \<Rightarrow> db \<Rightarrow> db result" where
  "claim_confirm_tx cid r sig d =
     (let c = cr_claim r in
      flip_claim cid (\<lambda>c. c\<lparr>rc_status := Claim_confirmed, rc_txSignature := Some sig\<rparr>) (\<lambda>d1. case rc_kind c of
          Wager_reward \<Rightarrow> updateUser (rc_userId c) (\<lambda>u. u\<lparr>scadiumReserved := scadiumReserved u - rc_amountScad c\<rparr>) d1
        | Cashback \<Rightarrow> updateUser (rc_userId c) (\<lambda>u. u\<lparr>cashbackBaselineLost := cr_totalLost r\<rparr>) d1
        | Dividend \<Rightarrow> updateUser (rc_userId c) (\<lambda>u. u\<lparr>usdsReserved := usdsReserved u - rc_amountScad c\<rparr>) d1
        | _ \<Rightarrow> Inr d1) d)"

definition fail_tx :: "nat \<Rightarrow> claim_read \<Rightarrow> db \<Rightarrow> db result" where
  "fail_tx cid r d =
     (let c = cr_claim r in
      flip_claim cid (\<lambda>c'. c'\<lparr>rc_status := Claim_failed, rc_attempts := rc_attempts c + 1\<rparr>) (\<lambda>d1. case rc_kind c of
          Wager_reward \<Rightarrow> updateUser (rc_userId c) (move_scad (- rc_amountScad c)) d1
        | Dividend \<Rightarrow> updateUser (rc_userId c) (move_usds (- rc_amountScad c)) d1
        | _ \<Rightarrow> Inr d1) d)"

definition count_attempt :: "nat \<Rightarrow> nat \<Rightarrow> db \<Rightarrow> db result" where
  "count_attempt cid attempts d = (case map_of (rewardClaims d) cid of
      None \<Rightarrow> Inl (Internal ''P2025'')
    | Some c \<Rightarrow> Inr (d\<lparr>rewardClaims := AList.update cid (c\<lparr>rc_attempts := attempts\<rparr>) (rewardClaims d)\<rparr>))"

datatype attempt_outcome = At_confirmed | At_failed | At_pending | At_skipped

definition finish_attempt :: "nat \<Rightarrow> claim_read \<Rightarrow> string option \<Rightarrow> db \<Rightarrow> (attempt_outcome \<times> db) result" where
  "finish_attempt cid r sig d = (case sig of
      Some s \<Rightarrow> bindE (claim_confirm_tx cid r s d) (\<lambda>d1. Inr (At_confirmed, d1))
    | None \<Rightarrow>
        let attempts = rc_attempts (cr_claim r) + 1 in
        if attempts < MAX_CLAIM_ATTEMPTS then bindE (count_attempt cid attempts d) (\<lambda>d1. Inr (At_pending, d1))
        else bindE (fail_tx cid r d) (\<lambda>d1. Inr (At_failed, d1)))"

definition attemptChainClaim :: "reward_env \<Rightarrow> net \<Rightarrow> nat \<Rightarrow> reward_chain \<times> db \<Rightarrow> attempt_outcome result \<times> reward_chain \<times> db" where
  "attemptChainClaim env net cid s =
     (let (ch, d) = s in
      if \<not> rw_chain env then (Inr At_skipped, ch, d)
      else case read_claim cid d of
        None \<Rightarrow> (Inr At_skipped, ch, d)
      | Some r \<Rightarrow>
          let (sig, ch1) = call_chain net (cr_wallet r) (rc_kind (cr_claim r)) (rc_period (cr_claim r)) (rc_amountScad (cr_claim r)) ch in
          (case finish_attempt cid r sig d of Inl err \<Rightarrow> (Inl err, ch1, d) | Inr (out, d1) \<Rightarrow> (Inr out, ch1, d1)))"

fun attempt_each :: "reward_env \<Rightarrow> (nat \<Rightarrow> net) \<Rightarrow> nat list \<Rightarrow> reward_chain \<times> db \<Rightarrow> reward_chain \<times> db" where
  "attempt_each env net [] s = s"
| "attempt_each env net (cid # cids) s = attempt_each env net cids (snd (attemptChainClaim env (net cid) cid s))"

definition reconcilePendingClaims :: "reward_env \<Rightarrow> (nat \<Rightarrow> net) \<Rightarrow> nat \<Rightarrow> reward_chain \<times> db \<Rightarrow> nat \<times> reward_chain \<times> db" where
  "reconcilePendingClaims env net limit s =
     (if \<not> rw_chain env then (0, s)
      else let cids = map fst (take limit (filter (\<lambda>(_, c). rc_status c = Claim_pending) (rewardClaims (snd s))))
           in (length cids, attempt_each env net cids s))"

text \<open>A claim as a request: the transaction, then an attempt that nobody waits for.\<close>

definition claim_request :: "reward_env \<Rightarrow> net \<Rightarrow> (db \<Rightarrow> (claim_reply \<times> db) result) \<Rightarrow> reward_chain \<times> db \<Rightarrow> claim_reply result \<times> reward_chain \<times> db" where
  "claim_request env net tx s =
     (case bindE (require_chain env) (\<lambda>_. tx (snd s)) of
        Inl err \<Rightarrow> (Inl err, s)
      | Inr (Replayed_claim r, d1) \<Rightarrow> (Inr (Replayed_claim r), fst s, d1)
      | Inr (New_claim cid, d1) \<Rightarrow> (Inr (New_claim cid), snd (attemptChainClaim env net cid (fst s, d1))))"

definition openDailyCase :: "reward_env \<Rightarrow> net \<Rightarrow> nat \<Rightarrow> string option \<Rightarrow> reward_chain \<times> db \<Rightarrow> claim_reply result \<times> reward_chain \<times> db" where
  "openDailyCase env net userId key s =
     (case open_case_tx env userId key (snd s) of
        Inl err \<Rightarrow> (Inl err, s)
      | Inr (Replayed_claim r, d1) \<Rightarrow> (Inr (Replayed_claim r), fst s, d1)
      | Inr (New_claim cid, d1) \<Rightarrow> (Inr (New_claim cid), if rw_chain env then snd (attemptChainClaim env net cid (fst s, d1)) else (fst s, d1)))"


subsection \<open>Interleavings\<close>

text \<open>
  The state of the service: the chain, the database and the attempts that have called the chain and not yet written their outcome.
  Everything else that happens to the database may change balances and losses, but not the claims and the reserves.
\<close>

record reward_state =
  rs_chain :: reward_chain
  rs_db :: db
  rs_open :: "(nat \<times> claim_read \<times> string option) list"

definition reserves :: "db \<Rightarrow> nat \<Rightarrow> int \<times> int" where
  "reserves d uid = (case map_of (users d) uid of None \<Rightarrow> (0, 0) | Some u \<Rightarrow> (scadiumReserved u, usdsReserved u))"

definition leaves_claims :: "db \<Rightarrow> db \<Rightarrow> bool" where
  "leaves_claims d d' \<longleftrightarrow> rewardClaims d' = rewardClaims d \<and> dom (map_of (users d)) \<subseteq> dom (map_of (users d')) \<and> reserves d' = reserves d"

inductive reward_step :: "reward_state \<Rightarrow> reward_state \<Rightarrow> bool" where
  Claimed: "claim_tx env uid kind key (rs_db s) = Inr (r, d) \<Longrightarrow> kind = Wager_reward \<or> kind = Cashback \<Longrightarrow> reward_step s (s\<lparr>rs_db := d\<rparr>)"
| Dividend_claimed: "claim_dividend_tx env uid key (rs_db s) = Inr (r, d) \<Longrightarrow> reward_step s (s\<lparr>rs_db := d\<rparr>)"
| Case_opened: "open_case_tx env uid key (rs_db s) = Inr (r, d) \<Longrightarrow> reward_step s (s\<lparr>rs_db := d\<rparr>)"
| Called: "read_claim cid (rs_db s) = Some r \<Longrightarrow>
    call_chain net (cr_wallet r) (rc_kind (cr_claim r)) (rc_period (cr_claim r)) (rc_amountScad (cr_claim r)) (rs_chain s) = (sig, ch) \<Longrightarrow>
    reward_step s (s\<lparr>rs_chain := ch, rs_open := (cid, r, sig) # rs_open s\<rparr>)"
| Finished: "(cid, r, sig) \<in> set (rs_open s) \<Longrightarrow> finish_attempt cid r sig (rs_db s) = Inr (out, d) \<Longrightarrow> reward_step s (s\<lparr>rs_db := d\<rparr>)"
| Elsewhere: "leaves_claims (rs_db s) d \<Longrightarrow> reward_step s (s\<lparr>rs_db := d\<rparr>)"

text \<open>What the pending claims of a kind hold for a user.\<close>

definition pending_of :: "nat \<Rightarrow> reward_kind \<Rightarrow> reward_claim \<Rightarrow> bool" where
  "pending_of uid k c \<longleftrightarrow> rc_userId c = uid \<and> rc_kind c = k \<and> rc_status c = Claim_pending"

definition claims_held :: "reward_kind \<Rightarrow> nat \<Rightarrow> db \<Rightarrow> int" where
  "claims_held k uid d = col_sum (\<lambda>c. if pending_of uid k c then rc_amountScad c else 0) (rewardClaims d)"

definition paid_as :: "reward_claim \<Rightarrow> reward_chain \<Rightarrow> bool" where
  "paid_as c ch \<longleftrightarrow> (\<exists>w. ((w, rc_kind c, rc_period c), rc_amountScad c) \<in> set ch)"

definition same_claim :: "reward_claim \<Rightarrow> reward_claim \<Rightarrow> bool" where
  "same_claim c c' \<longleftrightarrow> rc_userId c' = rc_userId c \<and> rc_kind c' = rc_kind c \<and> rc_period c' = rc_period c \<and> rc_amountScad c' = rc_amountScad c"

definition rewards_ok :: "reward_state \<Rightarrow> bool" where
  "rewards_ok s \<longleftrightarrow> keyed (rewardClaims (rs_db s))
     \<and> (\<forall>uid. reserves (rs_db s) uid = (claims_held Wager_reward uid (rs_db s), claims_held Dividend uid (rs_db s)))
     \<and> (\<forall>uid k. k \<noteq> Daily_case \<longrightarrow> pending_claims uid k (rs_db s) \<le> 1)
     \<and> (\<forall>cid c. map_of (rewardClaims (rs_db s)) cid = Some c \<longrightarrow> rc_userId c \<in> dom (map_of (users (rs_db s))) \<and> 0 < rc_amountScad c
          \<and> (rc_status c = Claim_confirmed \<longrightarrow> paid_as c (rs_chain s)))
     \<and> (\<forall>cid r sig. (cid, r, sig) \<in> set (rs_open s) \<longrightarrow>
          (\<exists>c. map_of (rewardClaims (rs_db s)) cid = Some c \<and> same_claim (cr_claim r) c) \<and> (sig \<noteq> None \<longrightarrow> paid_as (cr_claim r) (rs_chain s)))"

lemma pending_claims_alt: "pending_claims uid k d = length (filter (pending_of uid k \<circ> snd) (rewardClaims d))"
  by (simp add: pending_claims_def pending_of_def split_def comp_def)

lemma length_filter_update:
  "map_of t k = Some v \<Longrightarrow> length (filter (P \<circ> snd) (AList.update k w t)) + (if P v then 1 else 0) = length (filter (P \<circ> snd) t) + (if P w then 1 else 0)"
  by (induction t) (auto split: if_splits)

lemma rewards_ok_rows: "rewards_ok s \<Longrightarrow> map_of (rewardClaims (rs_db s)) cid = Some c \<Longrightarrow> rc_userId c \<in> dom (map_of (users (rs_db s))) \<and> 0 < rc_amountScad c
    \<and> (rc_status c = Claim_confirmed \<longrightarrow> paid_as c (rs_chain s))"
  unfolding rewards_ok_def by blast

lemma rewards_ok_open:
  assumes "rewards_ok s" and "(cid, r, sig) \<in> set (rs_open s)"
  obtains c where "map_of (rewardClaims (rs_db s)) cid = Some c" "same_claim (cr_claim r) c" "sig \<noteq> None \<longrightarrow> paid_as (cr_claim r) (rs_chain s)"
proof -
  have "\<forall>cid r sig. (cid, r, sig) \<in> set (rs_open s) \<longrightarrow>
      (\<exists>c. map_of (rewardClaims (rs_db s)) cid = Some c \<and> same_claim (cr_claim r) c) \<and> (sig \<noteq> None \<longrightarrow> paid_as (cr_claim r) (rs_chain s))"
    using assms(1) unfolding rewards_ok_def by (elim conjE)
  from this[THEN spec, THEN spec, THEN spec, THEN mp, OF assms(2)] show thesis by (elim conjE exE) (rule that)
qed

text \<open>A claim is added: it is the only pending one of its kind, and the reserves grow by what it holds.\<close>

lemma rewards_ok_new:
  assumes ok: "rewards_ok s" and claims: "rewardClaims d = rewardClaims (rs_db s) @ [(fresh_key (rewardClaims (rs_db s)), c)]"
    and dom: "dom (map_of (users d)) = dom (map_of (users (rs_db s)))" and user: "rc_userId c \<in> dom (map_of (users (rs_db s)))"
    and pos: "0 < rc_amountScad c" and status: "rc_status c \<noteq> Claim_confirmed"
    and one: "rc_kind c \<noteq> Daily_case \<Longrightarrow> pending_claims (rc_userId c) (rc_kind c) (rs_db s) = 0"
    and res: "\<And>uid. reserves d uid = (fst (reserves (rs_db s) uid) + (if pending_of uid Wager_reward c then rc_amountScad c else 0),
        snd (reserves (rs_db s) uid) + (if pending_of uid Dividend c then rc_amountScad c else 0))"
  shows "rewards_ok (s\<lparr>rs_db := d\<rparr>)"
proof -
  let ?k = "fresh_key (rewardClaims (rs_db s))"
  have h: "claims_held k uid d = claims_held k uid (rs_db s) + (if pending_of uid k c then rc_amountScad c else 0)" for k uid
    by (simp add: claims_held_def claims)
  have p: "pending_claims uid k d = pending_claims uid k (rs_db s) + (if pending_of uid k c then 1 else 0)" for uid k
    by (simp add: pending_claims_alt claims)
  have one': "pending_claims uid k d \<le> 1" if "k \<noteq> Daily_case" for uid k
    using ok that one unfolding p by (auto simp: rewards_ok_def pending_of_def)
  have new: "map_of (rewardClaims d) = (map_of (rewardClaims (rs_db s)))(?k \<mapsto> c)" unfolding claims by (rule map_of_snoc_fresh)
  have old: "map_of (rewardClaims (rs_db s)) ?k = None" by simp
  have rows: "rc_userId c' \<in> dom (map_of (users d)) \<and> 0 < rc_amountScad c' \<and> (rc_status c' = Claim_confirmed \<longrightarrow> paid_as c' (rs_chain s))"
    if "map_of (rewardClaims d) cid = Some c'" for cid c'
    using that ok user pos status by (cases "cid = ?k") (auto simp: new dom rewards_ok_def)
  have flying: "(\<exists>c. map_of (rewardClaims d) cid = Some c \<and> same_claim (cr_claim r) c) \<and> (sig \<noteq> None \<longrightarrow> paid_as (cr_claim r) (rs_chain s))"
    if fl: "(cid, r, sig) \<in> set (rs_open s)" for cid r sig
  proof -
    obtain c1 where c1: "map_of (rewardClaims (rs_db s)) cid = Some c1" "same_claim (cr_claim r) c1" "sig \<noteq> None \<longrightarrow> paid_as (cr_claim r) (rs_chain s)"
      using rewards_ok_open[OF ok fl] by blast
    then have "cid \<noteq> ?k" using old by auto
    then show ?thesis using c1 by (simp add: new)
  qed
  have keyed: "keyed (rewardClaims d)" using ok by (simp add: rewards_ok_def claims)
  have "reserves d uid = (claims_held Wager_reward uid d, claims_held Dividend uid d)" for uid
    using ok by (simp add: res h rewards_ok_def)
  then show ?thesis using keyed one' rows flying by (simp add: rewards_ok_def)
qed


text \<open>A claim is rewritten: confirmed or failed, or with another count of attempts.\<close>

lemma rewards_ok_rewrite:
  assumes ok: "rewards_ok s" and c: "map_of (rewardClaims (rs_db s)) cid = Some c" and claims: "rewardClaims d = AList.update cid c' (rewardClaims (rs_db s))"
    and dom: "dom (map_of (users d)) = dom (map_of (users (rs_db s)))" and same: "same_claim c c'"
    and st: "rc_status c' = rc_status c \<or> (rc_status c = Claim_pending \<and> (rc_status c' = Claim_failed \<or> (rc_status c' = Claim_confirmed \<and> paid_as c (rs_chain s))))"
    and res: "\<And>uid. reserves d uid = (fst (reserves (rs_db s) uid) - (if pending_of uid Wager_reward c \<and> rc_status c' \<noteq> Claim_pending then rc_amountScad c else 0),
        snd (reserves (rs_db s) uid) - (if pending_of uid Dividend c \<and> rc_status c' \<noteq> Claim_pending then rc_amountScad c else 0))"
  shows "rewards_ok (s\<lparr>rs_db := d\<rparr>)"
proof -
  have fields: "rc_userId c' = rc_userId c" "rc_kind c' = rc_kind c" "rc_period c' = rc_period c" "rc_amountScad c' = rc_amountScad c"
    using same by (simp_all add: same_claim_def)
  have p': "pending_of uid k c' \<longleftrightarrow> pending_of uid k c \<and> rc_status c' = Claim_pending" for uid k
    using st by (auto simp: pending_of_def fields)
  have h: "claims_held k uid d = claims_held k uid (rs_db s) - (if pending_of uid k c \<and> rc_status c' \<noteq> Claim_pending then rc_amountScad c else 0)" for k uid
    by (auto simp: claims_held_def claims col_sum_update_Some[OF c] p' fields)
  have p: "pending_claims uid k d \<le> pending_claims uid k (rs_db s)" for uid k
    using length_filter_update[OF c, of "pending_of uid k" c'] by (auto simp: pending_claims_alt claims p' split: if_splits)
  have rows: "rc_userId e \<in> dom (map_of (users d)) \<and> 0 < rc_amountScad e \<and> (rc_status e = Claim_confirmed \<longrightarrow> paid_as e (rs_chain s))"
    if e: "map_of (rewardClaims d) i = Some e" for i e
  proof (cases "i = cid")
    case True
    then have "e = c'" using e by (simp add: claims)
    moreover have "rc_status c' = Claim_confirmed \<Longrightarrow> paid_as c (rs_chain s)" using st ok c by (auto simp: rewards_ok_def)
    ultimately show ?thesis using ok c by (auto simp: rewards_ok_def dom fields paid_as_def)
  next
    case False
    then show ?thesis using e ok by (simp add: claims rewards_ok_def dom)
  qed
  have flying: "(\<exists>c. map_of (rewardClaims d) i = Some c \<and> same_claim (cr_claim r) c) \<and> (sig \<noteq> None \<longrightarrow> paid_as (cr_claim r) (rs_chain s))"
    if fl: "(i, r, sig) \<in> set (rs_open s)" for i r sig
  proof -
    obtain e where "map_of (rewardClaims (rs_db s)) i = Some e" "same_claim (cr_claim r) e" "sig \<noteq> None \<longrightarrow> paid_as (cr_claim r) (rs_chain s)"
      using rewards_ok_open[OF ok fl] by blast
    then show ?thesis using same c by (cases "i = cid") (auto simp: claims same_claim_def)
  qed
  have keyed: "keyed (rewardClaims d)" using ok by (simp add: rewards_ok_def claims)
  have rs: "reserves d uid = (claims_held Wager_reward uid d, claims_held Dividend uid d)" for uid
    using ok by (simp add: res h rewards_ok_def)
  have one: "pending_claims uid k d \<le> 1" if "k \<noteq> Daily_case" for uid k
    using ok p[of uid k] that by (auto simp: rewards_ok_def intro: order_trans)
  show ?thesis using keyed rs one rows flying by (simp add: rewards_ok_def)
qed

lemma rewards_ok_elsewhere:
  assumes ok: "rewards_ok s" and l: "leaves_claims (rs_db s) d"
  shows "rewards_ok (s\<lparr>rs_db := d\<rparr>)"
proof -
  have c: "rewardClaims d = rewardClaims (rs_db s)" and r: "reserves d = reserves (rs_db s)" and u: "dom (map_of (users (rs_db s))) \<subseteq> dom (map_of (users d))"
    using l by (simp_all add: leaves_claims_def)
  have h: "claims_held k uid d = claims_held k uid (rs_db s)" "pending_claims uid k d = pending_claims uid k (rs_db s)" for k uid
    by (simp_all add: claims_held_def pending_claims_def c)
  have rows: "rc_userId e \<in> dom (map_of (users d)) \<and> 0 < rc_amountScad e \<and> (rc_status e = Claim_confirmed \<longrightarrow> paid_as e (rs_chain s))"
    if "map_of (rewardClaims d) cid = Some e" for cid e
    using rewards_ok_rows[OF ok, of cid e] that u unfolding c by blast
  show ?thesis using ok rows unfolding rewards_ok_def by (simp add: h c r)
qed

subsection \<open>What the transactions do\<close>

lemma idem_frame: "claimIdempotency u s k d = Inr (r, d') \<Longrightarrow> users d' = users d \<and> rewardClaims d' = rewardClaims d"
    "storeIdempotency u s k x d = Inr d' \<Longrightarrow> users d' = users d \<and> rewardClaims d' = rewardClaims d"
  by (auto simp: claimIdempotency_def storeIdempotency_def split: if_splits option.splits)

lemma reserves_users: "users d' = users d \<Longrightarrow> reserves d' = reserves d"
  by (simp add: reserves_def fun_eq_iff)

lemma store_claim_spec:
  assumes "store_claim env uid scope key kind amount d = Inr (r, d')"
  shows "users d' = users d \<and> rewardClaims d' = rewardClaims d @ [(fresh_key (rewardClaims d), \<lparr>rc_userId = uid, rc_kind = kind, rc_period = rw_now env,
     rc_amountScad = amount, rc_status = Claim_pending, rc_attempts = 0, rc_txSignature = None, rc_result = None\<rparr>)]"
  using assms idem_frame(2) by (fastforce simp: store_claim_def new_claim_def insert_row_def Let_def)

lemma reserve_user_spec:
  assumes "reserve_user own f amount uid d = Inr d'"
  obtains u where "map_of (users d) uid = Some u" "own u \<ge> amount" "d' = d\<lparr>users := AList.update uid (f u) (users d)\<rparr>"
  using assms by (auto simp: reserve_user_def split: option.splits if_splits)

lemma dom_update_known: "map_of t k = Some v \<Longrightarrow> dom (map_of (AList.update k w t)) = dom (map_of t)"
  by auto


lemma rewards_ok_same: "rewards_ok s \<Longrightarrow> users d = users (rs_db s) \<Longrightarrow> rewardClaims d = rewardClaims (rs_db s) \<Longrightarrow> rewards_ok (s\<lparr>rs_db := d\<rparr>)"
  by (rule rewards_ok_elsewhere) (simp_all add: leaves_claims_def reserves_def fun_eq_iff)

lemma pending_same: "rewardClaims d' = rewardClaims d \<Longrightarrow> pending_claims uid k d' = pending_claims uid k d"
  by (simp add: pending_claims_def)

lemma stored_claim_ok:
  assumes ok: "rewards_ok s" and st: "store_claim env uid scope key kind amount d2 = Inr (r, d)" and u: "map_of (users (rs_db s)) uid = Some u"
    and c: "rewardClaims d2 = rewardClaims (rs_db s)" and dom: "dom (map_of (users d2)) = dom (map_of (users (rs_db s)))" and amount: "0 < amount"
    and none: "pending_claims uid kind (rs_db s) = 0"
    and res: "\<And>v. reserves d2 v = (fst (reserves (rs_db s) v) + (if v = uid \<and> kind = Wager_reward then amount else 0),
        snd (reserves (rs_db s) v) + (if v = uid \<and> kind = Dividend then amount else 0))"
  shows "rewards_ok (s\<lparr>rs_db := d\<rparr>)"
proof -
  note S = store_claim_spec[OF st]
  let ?c = "\<lparr>rc_userId = uid, rc_kind = kind, rc_period = rw_now env, rc_amountScad = amount, rc_status = Claim_pending, rc_attempts = 0,
    rc_txSignature = None, rc_result = None\<rparr>"
  show ?thesis
  proof (rule rewards_ok_new[OF ok, of d ?c])
    show "rewardClaims d = rewardClaims (rs_db s) @ [(fresh_key (rewardClaims (rs_db s)), ?c)]" using S by (simp add: c)
    show "dom (map_of (users d)) = dom (map_of (users (rs_db s)))" using S dom by simp
    show "rc_userId ?c \<in> dom (map_of (users (rs_db s)))" using u by (simp add: domI)
    show "reserves d v = (fst (reserves (rs_db s) v) + (if pending_of v Wager_reward ?c then rc_amountScad ?c else 0),
        snd (reserves (rs_db s) v) + (if pending_of v Dividend ?c then rc_amountScad ?c else 0))" for v
      using reserves_users[of d d2] S res[of v] by (cases "uid = v") (simp_all add: pending_of_def)
  qed (simp_all add: amount none)
qed

lemma reserves_move:
  assumes "map_of (users d) uid = Some u" and "scadiumReserved u' = scadiumReserved u + x" and "usdsReserved u' = usdsReserved u + y"
  shows "reserves (d\<lparr>users := AList.update uid u' (users d)\<rparr>) v = (fst (reserves d v) + (if v = uid then x else 0), snd (reserves d v) + (if v = uid then y else 0))"
  using assms by (auto simp: reserves_def)

lemma claimed_ok:
  assumes ok: "rewards_ok s" and c: "claim_tx env uid kind key (rs_db s) = Inr (r, d)" and k: "kind = Wager_reward \<or> kind = Cashback"
  shows "rewards_ok (s\<lparr>rs_db := d\<rparr>)"
proof -
  obtain rep d1 where i: "claimIdempotency uid (claim_scope kind) key (rs_db s) = Inr (rep, d1)" using c by (auto simp: claim_tx_def)
  note I = idem_frame(1)[OF i]
  show ?thesis
  proof (cases rep)
    case (Some x)
    then show ?thesis using c i I rewards_ok_same[OF ok] by (simp add: claim_tx_def)
  next
    case None
    obtain u where u: "map_of (users (rs_db s)) uid = Some u" using c i I None by (auto simp: claim_tx_def split: option.splits)
    have p: "pending_claims uid kind (rs_db s) = 0" using c i I None u pending_same[of d1 "rs_db s"] by (auto simp: claim_tx_def)
    show ?thesis
    proof (cases "kind = Wager_reward")
      case True
      obtain d2 where pos: "0 < scadiumBalance u" and m: "reserve_user scadiumBalance (move_scad (scadiumBalance u)) (scadiumBalance u) uid d1 = Inr d2"
        and st: "store_claim env uid (claim_scope kind) key kind (scadiumBalance u) d2 = Inr (r, d)"
        using c i I None u True by (auto simp: claim_tx_def Let_def)
      have d2: "d2 = d1\<lparr>users := AList.update uid (move_scad (scadiumBalance u) u) (users d1)\<rparr>"
        using reserve_user_spec[OF m] u I by (metis option.inject)
      have u1: "map_of (users d1) uid = Some u" using u I by simp
      show ?thesis
        by (rule stored_claim_ok[OF ok st u _ _ pos p])
          (use I True reserves_move[OF u1, of "move_scad (scadiumBalance u) u" "scadiumBalance u" 0] reserves_users[of d1 "rs_db s"] u in \<open>auto simp: d2 move_scad_def\<close>)
    next
      case False
      have pos: "0 < cashbackAccrued (totalLost u) (cashbackBaselineLost u)"
        and st: "store_claim env uid (claim_scope kind) key kind (cashbackAccrued (totalLost u) (cashbackBaselineLost u)) d1 = Inr (r, d)"
        using c i I None u False by (auto simp: claim_tx_def Let_def)
      show ?thesis by (rule stored_claim_ok[OF ok st u _ _ pos p]) (use I False k reserves_users[of d1 "rs_db s"] in auto)
    qed
  qed
qed

lemma dividend_claimed_ok:
  assumes ok: "rewards_ok s" and c: "claim_dividend_tx env uid key (rs_db s) = Inr (r, d)"
  shows "rewards_ok (s\<lparr>rs_db := d\<rparr>)"
proof -
  obtain rep d1 where i: "claimIdempotency uid ''reward_claim_dividend'' key (rs_db s) = Inr (rep, d1)" using c by (auto simp: claim_dividend_tx_def)
  note I = idem_frame(1)[OF i]
  show ?thesis
  proof (cases rep)
    case (Some x)
    then show ?thesis using c i I rewards_ok_same[OF ok] by (simp add: claim_dividend_tx_def)
  next
    case None
    obtain u where u: "map_of (users (rs_db s)) uid = Some u" using c i I None by (auto simp: claim_dividend_tx_def split: option.splits)
    have p: "pending_claims uid Dividend (rs_db s) = 0" using c i I None u pending_same[of d1 "rs_db s"] by (auto simp: claim_dividend_tx_def)
    obtain d2 where pos: "0 < usdsBalance u" and m: "reserve_user usdsBalance (move_usds (usdsBalance u)) (usdsBalance u) uid d1 = Inr d2"
      and st: "store_claim env uid ''reward_claim_dividend'' key Dividend (usdsBalance u) d2 = Inr (r, d)"
      using c i I None u by (auto simp: claim_dividend_tx_def Let_def)
    have d2: "d2 = d1\<lparr>users := AList.update uid (move_usds (usdsBalance u) u) (users d1)\<rparr>"
      using reserve_user_spec[OF m] u I by (metis option.inject)
    have u1: "map_of (users d1) uid = Some u" using u I by simp
    show ?thesis
      by (rule stored_claim_ok[OF ok st u _ _ pos p])
        (use I reserves_move[OF u1, of "move_usds (usdsBalance u) u" 0 "usdsBalance u"] reserves_users[of d1 "rs_db s"] u in \<open>auto simp: d2 move_usds_def\<close>)
  qed
qed

lemma updateUser_reserves:
  assumes "updateUser uid f d1 = Inr d" and "\<And>u. scadiumReserved (f u) = scadiumReserved u - x \<and> usdsReserved (f u) = usdsReserved u - y"
  shows "rewardClaims d = rewardClaims d1 \<and> dom (map_of (users d)) = dom (map_of (users d1))
    \<and> (\<forall>v. reserves d v = (fst (reserves d1 v) - (if v = uid then x else 0), snd (reserves d1 v) - (if v = uid then y else 0)))"
proof -
  obtain u where u: "map_of (users d1) uid = Some u" "d = d1\<lparr>users := AList.update uid (f u) (users d1)\<rparr>"
    using assms(1) by (auto simp: updateUser_def split: option.splits)
  show ?thesis using reserves_move[OF u(1), of "f u" "- x" "- y"] assms(2)[of u] u by auto
qed

definition released :: "reward_claim \<Rightarrow> db \<Rightarrow> db \<Rightarrow> bool" where
  "released c d1 d \<longleftrightarrow> rewardClaims d = rewardClaims d1 \<and> dom (map_of (users d)) = dom (map_of (users d1))
     \<and> (\<forall>v. reserves d v = (fst (reserves d1 v) - (if v = rc_userId c \<and> rc_kind c = Wager_reward then rc_amountScad c else 0),
          snd (reserves d1 v) - (if v = rc_userId c \<and> rc_kind c = Dividend then rc_amountScad c else 0)))"

lemma flipped_ok:
  assumes ok: "rewards_ok s" and c: "map_of (rewardClaims (rs_db s)) cid = Some c" and f: "flip_claim cid g rest (rs_db s) = Inr d" and same: "same_claim c (g c)"
    and st: "rc_status (g c) = Claim_failed \<or> (rc_status (g c) = Claim_confirmed \<and> paid_as c (rs_chain s))"
    and rest: "\<And>d1. rest d1 = Inr d \<Longrightarrow> released c d1 d"
  shows "rewards_ok (s\<lparr>rs_db := d\<rparr>)"
proof (cases "rc_status c = Claim_pending")
  case False
  then have "d = rs_db s" using f c by (simp add: flip_claim_def)
  then show ?thesis using rewards_ok_same[OF ok, of d] by simp
next
  case True
  let ?d1 = "(rs_db s)\<lparr>rewardClaims := AList.update cid (g c) (rewardClaims (rs_db s))\<rparr>"
  have "rest ?d1 = Inr d" using f c True by (simp add: flip_claim_def)
  from rest[OF this] have r: "released c ?d1 d" .
  have res: "reserves ?d1 = reserves (rs_db s)" by (rule reserves_users) simp
  have np: "rc_status (g c) \<noteq> Claim_pending" using st by auto
  show ?thesis
  proof (rule rewards_ok_rewrite[OF ok c _ _ same])
    show "rewardClaims d = AList.update cid (g c) (rewardClaims (rs_db s))" using r by (simp add: released_def)
    show "dom (map_of (users d)) = dom (map_of (users (rs_db s)))" using r by (simp add: released_def)
    show "reserves d v = (fst (reserves (rs_db s) v) - (if pending_of v Wager_reward c \<and> rc_status (g c) \<noteq> Claim_pending then rc_amountScad c else 0),
        snd (reserves (rs_db s) v) - (if pending_of v Dividend c \<and> rc_status (g c) \<noteq> Claim_pending then rc_amountScad c else 0))" for v
      using r True np by (cases "v = rc_userId c") (auto simp: released_def res pending_of_def)
  qed (use st True in auto)
qed

lemma releasedI:
  assumes "case rc_kind c of Wager_reward \<Rightarrow> updateUser (rc_userId c) fw d1 = Inr d | Dividend \<Rightarrow> updateUser (rc_userId c) fd d1 = Inr d
      | Cashback \<Rightarrow> updateUser (rc_userId c) fc d1 = Inr d \<or> d1 = d | _ \<Rightarrow> d1 = d"
    and "\<And>u. scadiumReserved (fw u) = scadiumReserved u - rc_amountScad c \<and> usdsReserved (fw u) = usdsReserved u"
    and "\<And>u. scadiumReserved (fc u) = scadiumReserved u \<and> usdsReserved (fc u) = usdsReserved u"
    and "\<And>u. scadiumReserved (fd u) = scadiumReserved u \<and> usdsReserved (fd u) = usdsReserved u - rc_amountScad c"
  shows "released c d1 d"
proof (cases "rc_kind c")
  case Wager_reward
  then show ?thesis using updateUser_reserves[of "rc_userId c" fw d1 d "rc_amountScad c" 0] assms(1,2) by (auto simp: released_def)
next
  case Cashback
  then show ?thesis using updateUser_reserves[of "rc_userId c" fc d1 d 0 0] assms(1,3) by (auto simp: released_def)
next
  case Dividend
  then show ?thesis using updateUser_reserves[of "rc_userId c" fd d1 d 0 "rc_amountScad c"] assms(1,4) by (auto simp: released_def)
qed (use assms(1) in \<open>auto simp: released_def\<close>)

lemma finished_ok:
  assumes ok: "rewards_ok s" and o: "(cid, r, sig) \<in> set (rs_open s)" and f: "finish_attempt cid r sig (rs_db s) = Inr (out, d)"
  shows "rewards_ok (s\<lparr>rs_db := d\<rparr>)"
proof -
  obtain c where c: "map_of (rewardClaims (rs_db s)) cid = Some c" "same_claim (cr_claim r) c" "sig \<noteq> None \<longrightarrow> paid_as (cr_claim r) (rs_chain s)"
    using rewards_ok_open[OF ok o] by blast
  have sc: "rc_userId (cr_claim r) = rc_userId c" "rc_kind (cr_claim r) = rc_kind c" "rc_amountScad (cr_claim r) = rc_amountScad c"
    "paid_as (cr_claim r) ch \<longleftrightarrow> paid_as c ch" for ch
    using c(2) by (auto simp: same_claim_def paid_as_def)
  show ?thesis
  proof (cases sig)
    case (Some x)
    then have "claim_confirm_tx cid r x (rs_db s) = Inr d" and "paid_as c (rs_chain s)" using f c(3) sc by (auto simp: finish_attempt_def)
    then have f1: "flip_claim cid (\<lambda>c. c\<lparr>rc_status := Claim_confirmed, rc_txSignature := Some x\<rparr>) (\<lambda>d1. case rc_kind c of
          Wager_reward \<Rightarrow> updateUser (rc_userId c) (\<lambda>u. u\<lparr>scadiumReserved := scadiumReserved u - rc_amountScad c\<rparr>) d1
        | Cashback \<Rightarrow> updateUser (rc_userId c) (\<lambda>u. u\<lparr>cashbackBaselineLost := cr_totalLost r\<rparr>) d1
        | Dividend \<Rightarrow> updateUser (rc_userId c) (\<lambda>u. u\<lparr>usdsReserved := usdsReserved u - rc_amountScad c\<rparr>) d1
        | _ \<Rightarrow> Inr d1) (rs_db s) = Inr d" and paid: "paid_as c (rs_chain s)"
      unfolding claim_confirm_tx_def Let_def sc by simp_all
    show ?thesis
    proof (rule flipped_ok[OF ok c(1) f1])
      fix d1 assume "(case rc_kind c of
          Wager_reward \<Rightarrow> updateUser (rc_userId c) (\<lambda>u. u\<lparr>scadiumReserved := scadiumReserved u - rc_amountScad c\<rparr>) d1
        | Cashback \<Rightarrow> updateUser (rc_userId c) (\<lambda>u. u\<lparr>cashbackBaselineLost := cr_totalLost r\<rparr>) d1
        | Dividend \<Rightarrow> updateUser (rc_userId c) (\<lambda>u. u\<lparr>usdsReserved := usdsReserved u - rc_amountScad c\<rparr>) d1
        | _ \<Rightarrow> Inr d1) = Inr d"
      then show "released c d1 d"
        by (intro releasedI[where fw = "\<lambda>u. u\<lparr>scadiumReserved := scadiumReserved u - rc_amountScad c\<rparr>" and fc = "\<lambda>u. u\<lparr>cashbackBaselineLost := cr_totalLost r\<rparr>"
            and fd = "\<lambda>u. u\<lparr>usdsReserved := usdsReserved u - rc_amountScad c\<rparr>"]) (cases "rc_kind c"; simp)+
    qed (simp_all add: same_claim_def paid)
  next
    case None
    show ?thesis
    proof (cases "rc_attempts (cr_claim r) + 1 < MAX_CLAIM_ATTEMPTS")
      case True
      then have d: "d = (rs_db s)\<lparr>rewardClaims := AList.update cid (c\<lparr>rc_attempts := rc_attempts (cr_claim r) + 1\<rparr>) (rewardClaims (rs_db s))\<rparr>"
        using f None c(1) by (auto simp: finish_attempt_def count_attempt_def Let_def)
      show ?thesis
        by (rule rewards_ok_rewrite[OF ok c(1), where c' = "c\<lparr>rc_attempts := rc_attempts (cr_claim r) + 1\<rparr>"])
          (auto simp: d same_claim_def pending_of_def reserves_def)
    next
      case False
      then have "fail_tx cid r (rs_db s) = Inr d" using f None by (auto simp: finish_attempt_def Let_def)
      then have f1: "flip_claim cid (\<lambda>c'. c'\<lparr>rc_status := Claim_failed, rc_attempts := rc_attempts (cr_claim r) + 1\<rparr>) (\<lambda>d1. case rc_kind c of
          Wager_reward \<Rightarrow> updateUser (rc_userId c) (move_scad (- rc_amountScad c)) d1
        | Dividend \<Rightarrow> updateUser (rc_userId c) (move_usds (- rc_amountScad c)) d1
        | _ \<Rightarrow> Inr d1) (rs_db s) = Inr d"
        unfolding fail_tx_def Let_def sc by simp
      show ?thesis
      proof (rule flipped_ok[OF ok c(1) f1])
        fix d1 assume "(case rc_kind c of
          Wager_reward \<Rightarrow> updateUser (rc_userId c) (move_scad (- rc_amountScad c)) d1
        | Dividend \<Rightarrow> updateUser (rc_userId c) (move_usds (- rc_amountScad c)) d1
        | _ \<Rightarrow> Inr d1) = Inr d"
        then show "released c d1 d"
          by (intro releasedI[where fw = "move_scad (- rc_amountScad c)" and fc = id and fd = "move_usds (- rc_amountScad c)"])
            (cases "rc_kind c"; simp add: move_scad_def move_usds_def)+
      qed (simp_all add: same_claim_def)
    qed
  qed
qed


lemma pick_tier_pos: "pickCaseTier ct_chance roll CASE_TIERS = Inr t \<Longrightarrow> 0 < ct_scadBase t"
proof -
  assume a: "pickCaseTier ct_chance roll CASE_TIERS = Inr t"
  have "t \<in> set CASE_TIERS"
    using a by (auto simp: pickCaseTier_def CASE_TIERS_def split: option.splits if_splits)
  then show ?thesis by (auto simp: CASE_TIERS_def)
qed

lemma opened_ok:
  assumes ok: "rewards_ok s" and c: "open_case_tx env uid key (rs_db s) = Inr (r, d)"
  shows "rewards_ok (s\<lparr>rs_db := d\<rparr>)"
proof -
  obtain rep d1 where i: "claimIdempotency uid ''daily_case'' key (rs_db s) = Inr (rep, d1)" using c by (auto simp: open_case_tx_def)
  note I = idem_frame(1)[OF i]
  show ?thesis
  proof (cases rep)
    case (Some x)
    then show ?thesis using c i I rewards_ok_same[OF ok] by (simp add: open_case_tx_def)
  next
    case None
    obtain u where u: "map_of (users (rs_db s)) uid = Some u" using c i I None by (auto simp: open_case_tx_def split: option.splits)
    obtain ctx d2 tier d3 cid d4 d5 trail where n: "consumeNonce (rw_sha env) (rw_seeds env) uid d1 = Inr (ctx, d2)"
        "pickCaseTier ct_chance (dailyCaseRoll (rw_hmac env) (ctx_serverSeed ctx) (ctx_clientSeed ctx) (ctx_nonce ctx)) CASE_TIERS = Inr tier"
        "updateUser uid (\<lambda>u. u\<lparr>lastDailyCaseAt := Some (rw_now env)\<rparr>) d2 = Inr d3"
        "new_claim uid Daily_case (case_period (rw_now env)) (ct_scadBase tier) (if rw_chain env then Claim_pending else Claim_offchain) (Some trail) d3 = (cid, d4)"
        "storeIdempotency uid ''daily_case'' key (rw_json env Daily_case (ct_scadBase tier) cid) d4 = Inr d5" "d = d5"
      using c i I None u by (auto simp: open_case_tx_def Let_def split: prod.splits)
    have d2: "users d2 = users d1" "rewardClaims d2 = rewardClaims d1" using n(1) by (auto simp: consumeNonce_eq Let_def put_seed_def)
    note U = updateUser_reserves[OF n(3), of 0 0] and F = idem_frame(2)[OF n(5)]
    let ?c = "\<lparr>rc_userId = uid, rc_kind = Daily_case, rc_period = case_period (rw_now env), rc_amountScad = ct_scadBase tier,
      rc_status = (if rw_chain env then Claim_pending else Claim_offchain), rc_attempts = 0, rc_txSignature = None, rc_result = Some trail\<rparr>"
    have d4: "rewardClaims d4 = rewardClaims d3 @ [(fresh_key (rewardClaims d3), ?c)]" "users d4 = users d3"
      using n(4) by (auto simp: new_claim_def insert_row_def Let_def)
    have r: "reserves d v = reserves (rs_db s) v" for v
      using U d2 d4 F I n(6) by (simp add: reserves_def)
    show ?thesis
    proof (rule rewards_ok_new[OF ok, of d ?c])
      show "rewardClaims d = rewardClaims (rs_db s) @ [(fresh_key (rewardClaims (rs_db s)), ?c)]" using U d2 d4 F I n(6) by simp
      show "dom (map_of (users d)) = dom (map_of (users (rs_db s)))" using U d2 d4 F I n(6) by simp
      show "rc_userId ?c \<in> dom (map_of (users (rs_db s)))" using u by (simp add: domI)
      show "0 < rc_amountScad ?c" using pick_tier_pos[OF n(2)] by simp
    qed (simp_all add: r pending_of_def)
  qed
qed

lemma called_ok:
  assumes ok: "rewards_ok s" and r: "read_claim cid (rs_db s) = Some r"
    and c: "call_chain net (cr_wallet r) (rc_kind (cr_claim r)) (rc_period (cr_claim r)) (rc_amountScad (cr_claim r)) (rs_chain s) = (sig, ch)"
  shows "rewards_ok (s\<lparr>rs_chain := ch, rs_open := (cid, r, sig) # rs_open s\<rparr>)"
proof -
  have m: "map_of (rewardClaims (rs_db s)) cid = Some (cr_claim r)"
    using r by (auto simp: read_claim_def split: option.splits if_splits)
  have more: "set (rs_chain s) \<subseteq> set ch" using c by (auto simp: call_chain_def split: if_splits)
  then have mono: "paid_as e (rs_chain s) \<Longrightarrow> paid_as e ch" for e by (auto simp: paid_as_def)
  have new: "sig \<noteq> None \<Longrightarrow> paid_as (cr_claim r) ch" using c by (auto simp: call_chain_def paid_as_def split: if_splits)
  have rows: "rc_status e = Claim_confirmed \<longrightarrow> paid_as e ch" if "map_of (rewardClaims (rs_db s)) i = Some e" for i e
    using rewards_ok_rows[OF ok that] mono by blast
  have flying: "(\<exists>e. map_of (rewardClaims (rs_db s)) i = Some e \<and> same_claim (cr_claim q) e) \<and> (g \<noteq> None \<longrightarrow> paid_as (cr_claim q) ch)"
    if fl: "(i, q, g) \<in> set ((cid, r, sig) # rs_open s)" for i q g
  proof (cases "(i, q, g) = (cid, r, sig)")
    case True
    then show ?thesis using m new by (auto simp: same_claim_def)
  next
    case False
    then have "(i, q, g) \<in> set (rs_open s)" using fl by auto
    from rewards_ok_open[OF ok this] show ?thesis using mono by metis
  qed
  have base: "keyed (rewardClaims (rs_db s))" "\<forall>uid. reserves (rs_db s) uid = (claims_held Wager_reward uid (rs_db s), claims_held Dividend uid (rs_db s))"
    "\<forall>uid k. k \<noteq> Daily_case \<longrightarrow> pending_claims uid k (rs_db s) \<le> 1" using ok unfolding rewards_ok_def by blast+
  have rows': "rc_userId e \<in> dom (map_of (users (rs_db s))) \<and> 0 < rc_amountScad e \<and> (rc_status e = Claim_confirmed \<longrightarrow> paid_as e ch)"
    if "map_of (rewardClaims (rs_db s)) i = Some e" for i e
    using rewards_ok_rows[OF ok that] rows[OF that] by blast
  have e: "rs_db (s\<lparr>rs_chain := ch, rs_open := (cid, r, sig) # rs_open s\<rparr>) = rs_db s" "rs_chain (s\<lparr>rs_chain := ch, rs_open := (cid, r, sig) # rs_open s\<rparr>) = ch"
    "rs_open (s\<lparr>rs_chain := ch, rs_open := (cid, r, sig) # rs_open s\<rparr>) = (cid, r, sig) # rs_open s" by simp_all
  show ?thesis unfolding rewards_ok_def e
  proof (intro conjI)
    show "\<forall>i q g. (i, q, g) \<in> set ((cid, r, sig) # rs_open s) \<longrightarrow>
        (\<exists>c. map_of (rewardClaims (rs_db s)) i = Some c \<and> same_claim (cr_claim q) c) \<and> (g \<noteq> None \<longrightarrow> paid_as (cr_claim q) ch)"
      by (intro allI impI) (rule flying)
  qed (use base rows' in blast)+
qed

lemma reward_step_ok: "reward_step s s' \<Longrightarrow> rewards_ok s \<Longrightarrow> rewards_ok s'"
  by (induction rule: reward_step.induct) (blast intro: claimed_ok dividend_claimed_ok opened_ok called_ok finished_ok rewards_ok_elsewhere)+



subsection \<open>Claims one after the other\<close>

definition attempts :: "reward_env \<Rightarrow> nat \<Rightarrow> net list \<Rightarrow> reward_chain \<times> db \<Rightarrow> reward_chain \<times> db" where
  "attempts env cid nets s = foldl (\<lambda>s n. snd (attemptChainClaim env n cid s)) s nets"

lemma attempts_simps: "attempts env cid [] s = s" "attempts env cid (n # ns) s = attempts env cid ns (snd (attemptChainClaim env n cid s))"
  by (simp_all add: attempts_def)

definition put_claim :: "nat \<Rightarrow> reward_claim \<Rightarrow> db \<Rightarrow> db" where
  "put_claim cid c d = d\<lparr>rewardClaims := AList.update cid c (rewardClaims d)\<rparr>"

lemma put_claim_sel [simp]: "map_of (rewardClaims (put_claim cid c d)) = (map_of (rewardClaims d))(cid \<mapsto> c)" "users (put_claim cid c d) = users d"
  "put_claim cid c2 (put_claim cid c d) = put_claim cid c2 d"
  by (simp_all add: put_claim_def)

lemma unanswered_attempt:
  assumes "rw_chain env" and "map_of (rewardClaims d) cid = Some c" and "rc_status c = Claim_pending" and "map_of (users d) (rc_userId c) = Some u"
    and "call_chain net (walletAddress u) (rc_kind c) (rc_period c) (rc_amountScad c) ch = (None, ch1)" and "rc_attempts c + 1 < MAX_CLAIM_ATTEMPTS"
  shows "snd (attemptChainClaim env net cid (ch, d)) = (ch1, put_claim cid (c\<lparr>rc_attempts := rc_attempts c + 1\<rparr>) d)"
  using assms by (simp add: attemptChainClaim_def read_claim_def finish_attempt_def count_attempt_def put_claim_def Let_def)

lemma last_attempt:
  assumes "rw_chain env" and "map_of (rewardClaims d) cid = Some c" and "rc_status c = Claim_pending" and "map_of (users d) (rc_userId c) = Some u"
    and "call_chain net (walletAddress u) (rc_kind c) (rc_period c) (rc_amountScad c) ch = (None, ch1)" and "\<not> rc_attempts c + 1 < MAX_CLAIM_ATTEMPTS"
    and "rc_kind c = Wager_reward"
  shows "snd (attemptChainClaim env net cid (ch, d)) = (ch1, (put_claim cid (c\<lparr>rc_status := Claim_failed, rc_attempts := rc_attempts c + 1\<rparr>) d)
     \<lparr>users := AList.update (rc_userId c) (move_scad (- rc_amountScad c) u) (users d)\<rparr>)"
  using assms by (simp add: attemptChainClaim_def read_claim_def finish_attempt_def fail_tx_def flip_claim_def put_claim_def updateUser_def Let_def)

text \<open>
  C30. A claim can be given back after it was paid. When the chain pays a claim but the answer to the first attempt is lost, no later attempt
  can succeed, because the program refuses a claim that it has a record of; after the fifth attempt the claim is failed and its whole
  amount returns to the balance, to be claimed again under a new period.
\<close>

theorem paid_claim_given_back:
  assumes "rw_chain env" and "map_of (rewardClaims d) cid = Some c" and "rc_status c = Claim_pending" and "map_of (users d) (rc_userId c) = Some u"
    and "rc_kind c = Wager_reward" and "rc_attempts c = 0" and "0 < rc_amountScad c" and "map_of ch (walletAddress u, Wager_reward, rc_period c) = None"
  shows "\<exists>d'. attempts env cid [Net_lost, n2, n3, n4, n5] (ch, d) = (ch @ [((walletAddress u, Wager_reward, rc_period c), rc_amountScad c)], d')
    \<and> map_of (rewardClaims d') cid = Some (c\<lparr>rc_status := Claim_failed, rc_attempts := 5\<rparr>)
    \<and> map_of (users d') (rc_userId c) = Some (u\<lparr>scadiumBalance := scadiumBalance u + rc_amountScad c, scadiumReserved := scadiumReserved u - rc_amountScad c\<rparr>)"
proof -
  let ?ch = "ch @ [((walletAddress u, Wager_reward, rc_period c), rc_amountScad c)]"
  let ?c = "\<lambda>k. c\<lparr>rc_attempts := k\<rparr>"
  have first: "call_chain Net_lost (walletAddress u) Wager_reward (rc_period c) (rc_amountScad c) ch = (None, ?ch)"
    using assms(7,8) by (simp add: call_chain_def)
  have again: "call_chain n (walletAddress u) Wager_reward (rc_period c) (rc_amountScad c) ?ch = (None, ?ch)" for n
    by (simp add: call_chain_def)
  have step: "snd (attemptChainClaim env n cid (?ch, put_claim cid (?c k) d)) = (?ch, put_claim cid (?c (k + 1)) d)" if "k < 4" for n k
    using unanswered_attempt[OF assms(1), of "put_claim cid (?c k) d" cid "?c k" u n ?ch ?ch] that assms(3-5) again by (simp add: MAX_CLAIM_ATTEMPTS_def)
  have one: "snd (attemptChainClaim env Net_lost cid (ch, d)) = (?ch, put_claim cid (?c 1) d)"
    using unanswered_attempt[OF assms(1-4), of Net_lost ch ?ch] first assms(5,6) by (simp add: MAX_CLAIM_ATTEMPTS_def)
  have fin: "snd (attemptChainClaim env n5 cid (?ch, put_claim cid (?c 4) d)) = (?ch, (put_claim cid (c\<lparr>rc_status := Claim_failed, rc_attempts := 5\<rparr>) d)
      \<lparr>users := AList.update (rc_userId c) (move_scad (- rc_amountScad c) u) (users d)\<rparr>)"
    using last_attempt[OF assms(1), of "put_claim cid (?c 4) d" cid "?c 4" u n5 ?ch ?ch] assms(3-5) again by (simp add: MAX_CLAIM_ATTEMPTS_def)
  have "attempts env cid [Net_lost, n2, n3, n4, n5] (ch, d) = (?ch, (put_claim cid (c\<lparr>rc_status := Claim_failed, rc_attempts := 5\<rparr>) d)
      \<lparr>users := AList.update (rc_userId c) (move_scad (- rc_amountScad c) u) (users d)\<rparr>)"
    using step[of 1 n2] step[of 2 n3] step[of 3 n4] fin by (simp add: attempts_simps one eval_nat_numeral)
  then show ?thesis by (simp add: move_scad_def)
qed

text \<open>
  C31. Cashback swallows what is lost while a claim waits: the claim is made of the losses up to then, but its confirmation moves the baseline
  to the losses that the attempt read, so whatever was lost in between is never paid: the amount that is claimed and what can be claimed
  afterwards fall short of the rate by exactly those losses.
\<close>

theorem cashback_window_lost:
  assumes "claim_tx env uid Cashback key d = Inr (New_claim cid, d1)" and "map_of (users d) uid = Some u"
    and "read_claim cid d2 = Some r" and "map_of (rewardClaims d2) cid = map_of (rewardClaims d1) cid"
    and "claim_confirm_tx cid r sig d3 = Inr d4" and "map_of (rewardClaims d3) cid = Some (cr_claim r)" and "map_of (users d4) uid = Some u4"
    and "cashbackBaselineLost u \<le> cr_totalLost r" and "cr_totalLost r \<le> totalLost u4" and "totalLost u \<le> cr_totalLost r"
  shows "rc_amountScad (cr_claim r) + cashbackAccrued (totalLost u4) (cashbackBaselineLost u4)
    = CASHBACK_PER_LAMPORT_LOST * (totalLost u4 - cashbackBaselineLost u) - CASHBACK_PER_LAMPORT_LOST * (cr_totalLost r - totalLost u)"
proof -
  obtain d0 where i: "claimIdempotency uid (claim_scope Cashback) key d = Inr (None, d0)"
    using assms(1) by (auto simp: claim_tx_def split: option.splits)
  note I = idem_frame(1)[OF i]
  have pos: "0 < cashbackAccrued (totalLost u) (cashbackBaselineLost u)"
    and st: "store_claim env uid (claim_scope Cashback) key Cashback (cashbackAccrued (totalLost u) (cashbackBaselineLost u)) d0 = Inr (New_claim cid, d1)"
    using assms(1,2) i I by (auto simp: claim_tx_def Let_def)
  have cid: "cid = fresh_key (rewardClaims d0)" using st by (auto simp: store_claim_def new_claim_def insert_row_def Let_def)
  have "map_of (rewardClaims d1) cid = Some \<lparr>rc_userId = uid, rc_kind = Cashback, rc_period = rw_now env,
     rc_amountScad = cashbackAccrued (totalLost u) (cashbackBaselineLost u), rc_status = Claim_pending, rc_attempts = 0, rc_txSignature = None, rc_result = None\<rparr>"
    using store_claim_spec[OF st] unfolding cid by (metis map_of_snoc_fresh fun_upd_same)
  moreover have "map_of (rewardClaims d2) cid = Some (cr_claim r)" and pend: "rc_status (cr_claim r) = Claim_pending"
    using assms(3) by (auto simp: read_claim_def split: option.splits if_splits)
  ultimately have e: "cr_claim r = \<lparr>rc_userId = uid, rc_kind = Cashback, rc_period = rw_now env,
     rc_amountScad = cashbackAccrued (totalLost u) (cashbackBaselineLost u), rc_status = Claim_pending, rc_attempts = 0, rc_txSignature = None, rc_result = None\<rparr>"
    using assms(4) by simp
  have c: "rc_userId (cr_claim r) = uid" "rc_kind (cr_claim r) = Cashback" "rc_amountScad (cr_claim r) = cashbackAccrued (totalLost u) (cashbackBaselineLost u)"
    by (simp_all add: e)
  have "cashbackBaselineLost u4 = cr_totalLost r"
    using assms(5-7) pend c by (auto simp: claim_confirm_tx_def flip_claim_def updateUser_def Let_def split: option.splits)
  moreover have "cashbackAccrued (totalLost u) (cashbackBaselineLost u) = (totalLost u - cashbackBaselineLost u) * CASHBACK_PER_LAMPORT_LOST"
    using pos by (auto simp: cashbackAccrued_def Let_def split: if_splits)
  ultimately show ?thesis using c(3) assms(9) by (auto simp: cashbackAccrued_def CASHBACK_PER_LAMPORT_LOST_def Let_def)
qed


subsection \<open>Witnesses\<close>

definition claim_env :: "int \<Rightarrow> reward_env" where
  "claim_env now = \<lparr>rw_chain = True, rw_now = now, rw_hmac = (\<lambda>_ _. 0), rw_sha = (\<lambda>_. 0), rw_seeds = \<lparr>fs_client = ''c'', fs_server = ''s'', fs_next = ''n''\<rparr>,
     rw_json = (\<lambda>_ _ _. ''{}'')\<rparr>"

definition earner :: user where
  "earner = new_user\<lparr>scadiumBalance := 100, totalLost := 1000, walletAddress := ''w''\<rparr>"

definition earner_db :: db where
  "earner_db = empty_db\<lparr>users := [(1, earner)]\<rparr>"

definition earned_claim :: "reward_kind \<Rightarrow> int \<Rightarrow> reward_claim" where
  "earned_claim k x = \<lparr>rc_userId = 1, rc_kind = k, rc_period = 7, rc_amountScad = x, rc_status = Claim_pending, rc_attempts = 0, rc_txSignature = None, rc_result = None\<rparr>"

lemma no_key: "claimIdempotency u s None d = Inr (None, d)" "storeIdempotency u s None x d = Inr d"
  by (simp_all add: claimIdempotency_def storeIdempotency_def has_key_def)

definition claimed_db :: db where
  "claimed_db = earner_db\<lparr>users := [(1, move_scad 100 earner)], rewardClaims := [(0, earned_claim Wager_reward 100)]\<rparr>"

lemma wager_claimed: "claim_tx (claim_env 7) 1 Wager_reward None earner_db = Inr (New_claim 0, claimed_db)"
  by (simp add: claim_tx_def no_key earner_db_def earner_def claim_env_def pending_claims_def guardE_def reserve_user_def store_claim_def new_claim_def
      insert_row_def fresh_key_def Let_def claimed_db_def earned_claim_def move_scad_def)


theorem paid_claim_given_back_witness:
  "\<exists>d'. attempts (claim_env 8) 0 [Net_lost, Net_ok ''a'', Net_ok ''b'', Net_ok ''c'', Net_ok ''d''] ([], claimed_db) = ([((''w'', Wager_reward, 7), 100)], d')
     \<and> map_of (users d') 1 = Some earner"
proof -
  have "\<exists>d'. attempts (claim_env 8) 0 [Net_lost, Net_ok ''a'', Net_ok ''b'', Net_ok ''c'', Net_ok ''d''] ([], claimed_db)
      = ([] @ [((walletAddress (move_scad 100 earner), Wager_reward, rc_period (earned_claim Wager_reward 100)), rc_amountScad (earned_claim Wager_reward 100))], d')
    \<and> map_of (rewardClaims d') 0 = Some ((earned_claim Wager_reward 100)\<lparr>rc_status := Claim_failed, rc_attempts := 5\<rparr>)
    \<and> map_of (users d') (rc_userId (earned_claim Wager_reward 100)) = Some ((move_scad 100 earner)
        \<lparr>scadiumBalance := scadiumBalance (move_scad 100 earner) + rc_amountScad (earned_claim Wager_reward 100),
         scadiumReserved := scadiumReserved (move_scad 100 earner) - rc_amountScad (earned_claim Wager_reward 100)\<rparr>)"
    by (rule paid_claim_given_back) (simp_all add: claim_env_def claimed_db_def earned_claim_def)
  then show ?thesis by (auto simp: earned_claim_def move_scad_def earner_def)
qed

definition cashback_db :: db where
  "cashback_db = earner_db\<lparr>rewardClaims := [(0, earned_claim Cashback 32000)]\<rparr>"

definition lost_more :: "int \<Rightarrow> db" where
  "lost_more x = cashback_db\<lparr>users := [(1, earner\<lparr>totalLost := x\<rparr>)]\<rparr>"

theorem cashback_window_lost_witness:
  "\<exists>(d4 :: db) u4. map_of (users d4) 1 = Some u4 \<and> totalLost u4 = 5000 \<and> 32000 + cashbackAccrued (totalLost u4) (cashbackBaselineLost u4) = 32 * 5000 - 32 * 4000"
proof -
  let ?r = "\<lparr>cr_claim = earned_claim Cashback 32000, cr_wallet = ''w'', cr_totalLost = 5000\<rparr>"
  let ?u4 = "earner\<lparr>totalLost := 5000, cashbackBaselineLost := 5000\<rparr>"
  let ?d4 = "(lost_more 5000)\<lparr>rewardClaims := [(0, (earned_claim Cashback 32000)\<lparr>rc_status := Claim_confirmed, rc_txSignature := Some ''sig''\<rparr>)], users := [(1, ?u4)]\<rparr>"
  have 1: "claim_tx (claim_env 7) 1 Cashback None earner_db = Inr (New_claim 0, cashback_db)"
    by (simp add: claim_tx_def no_key earner_db_def earner_def claim_env_def pending_claims_def guardE_def store_claim_def new_claim_def cashbackAccrued_def
        CASHBACK_PER_LAMPORT_LOST_def insert_row_def fresh_key_def Let_def cashback_db_def earned_claim_def)
  have 2: "read_claim 0 (lost_more 5000) = Some ?r"
    by (simp add: read_claim_def lost_more_def cashback_db_def earned_claim_def earner_def)
  have 3: "claim_confirm_tx 0 ?r ''sig'' (lost_more 5000) = Inr ?d4"
    by (simp add: claim_confirm_tx_def flip_claim_def updateUser_def lost_more_def cashback_db_def earned_claim_def Let_def)
  have "rc_amountScad (cr_claim ?r) + cashbackAccrued (totalLost ?u4) (cashbackBaselineLost ?u4)
      = CASHBACK_PER_LAMPORT_LOST * (totalLost ?u4 - cashbackBaselineLost earner) - CASHBACK_PER_LAMPORT_LOST * (cr_totalLost ?r - totalLost earner)"
    by (rule cashback_window_lost[OF 1 _ 2 _ 3]) (simp_all add: earner_db_def earner_def lost_more_def cashback_db_def)
  then show ?thesis by (intro exI[of _ ?d4]) (simp add: earned_claim_def earner_def CASHBACK_PER_LAMPORT_LOST_def)
qed

end
