(* ===== verification/Fair_Browser.thy ===== *)
theory Fair_Browser
  imports Fair_Shuffle Fair_Tickets Fair_Cards Shared_Payouts
begin

text \<open>
  The fairness verifier of the web application (\<open>apps/web/src/lib/fair-browser.ts\<close>): every game of \<open>packages/fair\<close>
  written a second time over WebCrypto, with its own byte and hexadecimal handling. The definitions carry the prefix \<open>web_\<close>;
  the theorems show that what a player computes in the browser is what the server computed. WebCrypto and Node's \<open>crypto\<close>
  are the same two parameters, HMAC-SHA256 and SHA-256.
\<close>

subsection \<open>Bytes and hexadecimal text\<close>

text \<open>\<open>Array.from(bytes).map((b) => b.toString(16).padStart(2, '0')).join('')\<close>\<close>

fun radix16 :: "nat \<Rightarrow> string" where
  "radix16 n = (if n < 16 then [hex_digit n] else radix16 (n div 16) @ [hex_digit (n mod 16)])"

declare radix16.simps [simp del]

definition padStart :: "nat \<Rightarrow> char \<Rightarrow> string \<Rightarrow> string" where
  "padStart n c s = replicate (n - length s) c @ s"

definition web_toHex :: "byte list \<Rightarrow> string" where
  "web_toHex bs = concat (map (\<lambda>b. padStart 2 (CHR ''0'') (radix16 (unat b))) bs)"

definition web_hmacSha256Bytes :: "hmac \<Rightarrow> string \<Rightarrow> string \<Rightarrow> byte list" where
  "web_hmacSha256Bytes hmac key message = digest_bytes (hmac key message)"

definition web_hmacSha256Hex :: "hmac \<Rightarrow> string \<Rightarrow> string \<Rightarrow> string" where
  "web_hmacSha256Hex hmac key message = web_toHex (digest_bytes (hmac key message))"

definition web_sha256Bytes :: "sha \<Rightarrow> byte list \<Rightarrow> byte list" where
  "web_sha256Bytes sha bs = digest_bytes (sha bs)"

definition web_sha256Hex :: "sha \<Rightarrow> string \<Rightarrow> string" where
  "web_sha256Hex sha input = web_toHex (web_sha256Bytes sha (utf8 input))"

definition web_buildMessage :: "string \<Rightarrow> nat \<Rightarrow> string" where
  "web_buildMessage clientSeed nonce = clientSeed @ '':'' @ decimal nonce"

text \<open>\<open>parseInt(s, 16)\<close> reads the longest prefix of hexadecimal digits; with none it is \<open>NaN\<close>, which a byte array stores as 0.\<close>

definition is_hex :: "char \<Rightarrow> bool" where
  "is_hex c \<longleftrightarrow> c \<in> set ''0123456789abcdef''"

definition parse_byte :: "string \<Rightarrow> byte" where
  "parse_byte s = of_nat (parse_hex (takeWhile is_hex s))"

definition web_space :: "char \<Rightarrow> bool" where
  "web_space c \<longleftrightarrow> of_char c \<in> {9, 10, 11, 12, 13, 32 :: nat}"

definition web_trim :: "string \<Rightarrow> string" where
  "web_trim s = rev (dropWhile web_space (rev (dropWhile web_space s)))"

definition lower_char :: "char \<Rightarrow> char" where
  "lower_char c = (let n = of_char c :: nat in if 65 \<le> n \<and> n \<le> 90 then char_of (n + 32) else c)"

definition toLowerCase :: "string \<Rightarrow> string" where
  "toLowerCase s = map lower_char s"

definition web_hexToBytes :: "string \<Rightarrow> byte list" where
  "web_hexToBytes hex =
     (let clean0 = toLowerCase (web_trim hex);
          clean = (if take 2 clean0 = ''0x'' then drop 2 clean0 else clean0)
      in map (\<lambda>i. parse_byte (take 2 (drop (2 * i) clean))) [0..<length clean div 2])"

subsection \<open>Crash, coinflip and cards\<close>

definition web_crash_formula :: "int \<Rightarrow> rat" where
  "web_crash_formula h =
     (if h mod 20 = 0 then 1
      else let e = 2 ^ 52 in fl (of_int (js_floor (fl (fl (fl (100 * e) - of_int h) / fl (e - of_int h)))) / 100))"

definition web_crashPoint :: "hmac \<Rightarrow> string \<Rightarrow> string \<Rightarrow> nat \<Rightarrow> rat" where
  "web_crashPoint hmac serverSeed clientSeed nonce =
     web_crash_formula (int (parse_hex (take 13 (web_hmacSha256Hex hmac serverSeed (web_buildMessage clientSeed nonce)))))"

definition web_coinflipResult :: "hmac \<Rightarrow> string \<Rightarrow> string \<Rightarrow> nat \<Rightarrow> side" where
  "web_coinflipResult hmac serverSeed clientSeed nonce =
     (let firstByte = parse_hex (take 2 (web_hmacSha256Hex hmac serverSeed (web_buildMessage clientSeed nonce)))
      in if firstByte mod 2 = 0 then Heads else Tails)"

definition web_blackjackDeal :: "hmac \<Rightarrow> string \<Rightarrow> string \<Rightarrow> nat \<Rightarrow> nat \<Rightarrow> card list" where
  "web_blackjackDeal hmac serverSeed clientSeed nonce cnt =
     fold (\<lambda>i cards. let hash = web_hmacSha256Hex hmac serverSeed (web_buildMessage clientSeed nonce @ '':'' @ decimal i);
                          n = parse_hex (take 4 hash) mod 52
                      in cards @ [\<lparr>rank = RANKS ! (n mod 13), suit = SUITS ! (n div 13)\<rparr>]) [0..<cnt] []"

definition web_reproduceHand :: "hmac \<Rightarrow> string \<Rightarrow> string \<Rightarrow> nat \<Rightarrow> nat list \<Rightarrow> card list" where
  "web_reproduceHand hmac serverSeed clientSeed nonce deckIndices =
     (if deckIndices = [] then []
      else let stream = web_blackjackDeal hmac serverSeed clientSeed nonce (fold max deckIndices 0 + 1)
           in map (\<lambda>i. stream ! i) deckIndices)"

text \<open>The map is first given the empty hand of a new key; the card is then pushed on the hand it holds.\<close>

definition web_push_card :: "card list \<Rightarrow> deal_entry \<Rightarrow> (string, reproduced_hand) table \<Rightarrow> (string, reproduced_hand) table" where
  "web_push_card stream e hands =
     (let key = (case dealtTo e of Seat i \<Rightarrow> decimal i | Dealer \<Rightarrow> ''dealer'') @ ''|'' @ handId e;
          hands1 = (if map_of hands key = None then AList.update key \<lparr>hand_to = dealtTo e, hand_id = handId e, hand_cards = []\<rparr> hands else hands)
      in case map_of hands1 key of None \<Rightarrow> hands1 | Some h \<Rightarrow> AList.update key (h\<lparr>hand_cards := hand_cards h @ [stream ! deckIndex e]\<rparr>) hands1)"

definition web_reproduceRound :: "hmac \<Rightarrow> string \<Rightarrow> string \<Rightarrow> nat \<Rightarrow> deal_entry list \<Rightarrow> reproduced_hand list" where
  "web_reproduceRound hmac serverSeed clientSeed nonce dealOrder =
     (if dealOrder = [] then []
      else let maxIndex = fold (\<lambda>e m. max m (deckIndex e)) dealOrder 0;
               stream = web_blackjackDeal hmac serverSeed clientSeed nonce (maxIndex + 1)
           in map snd (fold (web_push_card stream) (sort_key deckIndex dealOrder) []))"

subsection \<open>Lottery and jackpot\<close>

definition web_seed32 :: "string \<Rightarrow> byte list" where
  "web_seed32 clientSeed = (let b = take 32 (utf8 clientSeed) in map (\<lambda>i. if i < length b then b ! i else 0) [0..<32])"

definition web_u32le :: "nat \<Rightarrow> byte list" where
  "web_u32le nonce = (let w = (of_nat nonce :: 32 word) in map (\<lambda>i. ucast (drop_bit (8 * i) w)) [0..<4])"

definition web_finalEntropy :: "sha \<Rightarrow> string \<Rightarrow> string \<Rightarrow> string \<Rightarrow> nat \<Rightarrow> string \<Rightarrow> digest result" where
  "web_finalEntropy sha serverSeed clientSeed entropyHex nonce err =
     (let entropy = web_hexToBytes entropyHex
      in if length entropy \<noteq> 32 then Inl (Internal err)
         else Inr (sha (concat [utf8 serverSeed, entropy, web_seed32 clientSeed, web_u32le nonce])))"

definition web_roll :: "sha \<Rightarrow> digest \<Rightarrow> byte list \<Rightarrow> nat" where
  "web_roll sha entropy tag =
     (let h = web_sha256Bytes sha (concat [digest_bytes entropy, tag]) in \<Sum>i<8. unat (h ! i) * 256 ^ (7 - i))"

definition web_lotteryDraw :: "sha \<Rightarrow> string \<Rightarrow> string \<Rightarrow> string \<Rightarrow> nat \<Rightarrow> (nat list \<times> nat) result" where
  "web_lotteryDraw sha serverSeed clientSeed slotHashHex nonce =
     bindE (web_finalEntropy sha serverSeed clientSeed slotHashHex nonce ''slot hash must be 32 bytes (64 hex chars)'') (\<lambda>entropy.
       let digits = fold (\<lambda>i ds. ds @ [web_roll sha entropy [0x64, of_nat i] mod 10]) [0..<6] [];
           value = fold (\<lambda>d v. v * 10 + d) digits 0
       in Inr (digits, 1000000 + value))"

definition web_crashPointFromEntropy :: "sha \<Rightarrow> string \<Rightarrow> string \<Rightarrow> string \<Rightarrow> nat \<Rightarrow> rat result" where
  "web_crashPointFromEntropy sha serverSeed clientSeed entropyHex nonce =
     bindE (web_finalEntropy sha serverSeed clientSeed entropyHex nonce ''entropy must be 32 bytes (64 hex chars)'') (\<lambda>folded.
       Inr (web_crash_formula (int (parse_hex (take 13 (web_toHex (digest_bytes folded)))))))"

definition web_jackpotRoll :: "hmac \<Rightarrow> string \<Rightarrow> string \<Rightarrow> nat \<Rightarrow> int" where
  "web_jackpotRoll hmac serverSeed clientSeed nonce =
     int (parse_hex (web_hmacSha256Hex hmac serverSeed (web_buildMessage clientSeed nonce)))"

definition web_jackpotTicketFromEntropy :: "sha \<Rightarrow> string \<Rightarrow> string \<Rightarrow> string \<Rightarrow> nat \<Rightarrow> int \<Rightarrow> int result" where
  "web_jackpotTicketFromEntropy sha serverSeed clientSeed entropyHex nonce totalLamports =
     (if totalLamports \<le> 0 then Inr 0
      else bindE (web_finalEntropy sha serverSeed clientSeed entropyHex nonce ''entropy must be 32 bytes (64 hex chars)'') (\<lambda>folded.
             Inr (int (parse_hex (web_toHex (digest_bytes folded))) mod totalLamports)))"

text \<open>The callback of \<open>map\<close> moves the cursor that it closes over.\<close>

definition web_jackpotRanges :: "int list \<Rightarrow> (int \<times> int) list" where
  "web_jackpotRanges amounts =
     fst (fold (\<lambda>amount (out, cursor). (out @ [(cursor, cursor + amount)], cursor + amount)) amounts ([], 0))"

definition web_jackpotWinnerIndex :: "int list \<Rightarrow> int \<Rightarrow> int" where
  "web_jackpotWinnerIndex amounts ticket = find_index (\<lambda>(start, stop). start \<le> ticket \<and> ticket < stop) 0 (web_jackpotRanges amounts)"

text \<open>A relay answers with a status and a body, or the request throws; the first usable answer wins.\<close>

record relay_answer =
  ra_ok :: bool
  ra_round :: "nat option"
  ra_randomness :: string

fun fetchBeaconRandomness :: "(string \<Rightarrow> relay_answer option) \<Rightarrow> nat \<Rightarrow> string list \<Rightarrow> (string \<times> string) option" where
  "fetchBeaconRandomness fetch r [] = None"
| "fetchBeaconRandomness fetch r (relay # relays) = (case fetch relay of
      None \<Rightarrow> fetchBeaconRandomness fetch r relays
    | Some a \<Rightarrow>
        if ra_ok a \<and> ra_round a = Some r \<and> length (ra_randomness a) = 64 \<and> list_all is_hex (ra_randomness a)
        then Some (ra_randomness a, relay) else fetchBeaconRandomness fetch r relays)"

subsection \<open>The float stream and its games\<close>

text \<open>The inner loop reads a block four bytes at a time, the outer one asks for blocks until there are enough floats.\<close>

fun web_read_block :: "nat \<Rightarrow> byte list \<Rightarrow> rat list \<Rightarrow> rat list" where
  "web_read_block cnt (b0 # b1 # b2 # b3 # bytes) out =
     (if length out < cnt then web_read_block cnt bytes (out @ [float4 (unat b0) (unat b1) (unat b2) (unat b3)]) else out)"
| "web_read_block cnt bytes out = out"

lemma web_read_block_grows: "length out \<le> length (web_read_block cnt bytes out)"
  by (induction cnt bytes out rule: web_read_block.induct) auto

lemma digest_bytes_Cons: "\<exists>b0 b1 b2 b3 bs. digest_bytes d = b0 # b1 # b2 # b3 # bs"
proof -
  have "[0..<32] = 0 # 1 # 2 # 3 # [4..<32::nat]" by (simp add: upt_rec)
  then show ?thesis by (simp add: digest_bytes_def)
qed

lemma web_read_block_progress: "length out < cnt \<Longrightarrow> length out < length (web_read_block cnt (digest_bytes d) out)"
  using digest_bytes_Cons[of d] web_read_block_grows by (metis Suc_le_lessD length_append_singleton web_read_block.simps(1))

function web_float_blocks :: "hmac \<Rightarrow> string \<Rightarrow> string \<Rightarrow> nat \<Rightarrow> nat \<Rightarrow> nat \<Rightarrow> rat list \<Rightarrow> rat list" where
  "web_float_blocks hmac serverSeed clientSeed nonce cnt block out =
     (if length out < cnt
      then web_float_blocks hmac serverSeed clientSeed nonce cnt (block + 1)
             (web_read_block cnt (web_hmacSha256Bytes hmac serverSeed (clientSeed @ '':'' @ decimal nonce @ '':'' @ decimal block)) out)
      else out)"
  by pat_completeness auto

termination
  by (relation "measure (\<lambda>(h, s, c, n, cnt, b, out). cnt - length out)")
    (auto simp: web_hmacSha256Bytes_def intro: diff_less_mono2 web_read_block_progress)

declare web_float_blocks.simps [simp del]

definition web_floatsFromHmac :: "hmac \<Rightarrow> string \<Rightarrow> string \<Rightarrow> nat \<Rightarrow> nat \<Rightarrow> rat list" where
  "web_floatsFromHmac hmac serverSeed clientSeed nonce cnt = web_float_blocks hmac serverSeed clientSeed nonce cnt 0 []"

definition web_diceRoll :: "hmac \<Rightarrow> string \<Rightarrow> string \<Rightarrow> nat \<Rightarrow> rat" where
  "web_diceRoll hmac serverSeed clientSeed nonce =
     fl (of_int (js_floor (fl (hd (web_floatsFromHmac hmac serverSeed clientSeed nonce 1) * 10000))) / 100)"

definition web_limboResult :: "hmac \<Rightarrow> string \<Rightarrow> string \<Rightarrow> nat \<Rightarrow> rat \<Rightarrow> rat" where
  "web_limboResult hmac serverSeed clientSeed nonce edge =
     (let u = hd (web_floatsFromHmac hmac serverSeed clientSeed nonce 1);
          raw = (if u \<le> 0 then 1000000 else fl (fl (1 - edge) / u))
      in max 1 (fl (of_int (js_floor (fl (raw * 100))) / 100)))"

text \<open>The default of the parameter \<open>edge\<close>.\<close>

definition WEB_LIMBO_EDGE :: rat where "WEB_LIMBO_EDGE = lit 1 100"

definition web_wheelSpin :: "hmac \<Rightarrow> string \<Rightarrow> string \<Rightarrow> nat \<Rightarrow> int \<Rightarrow> int" where
  "web_wheelSpin hmac serverSeed clientSeed nonce segmentCount =
     (let idx = js_floor (fl (hd (web_floatsFromHmac hmac serverSeed clientSeed nonce 1) * of_int segmentCount))
      in if idx \<ge> segmentCount then segmentCount - 1 else idx)"

definition web_plinkoDrop :: "hmac \<Rightarrow> string \<Rightarrow> string \<Rightarrow> nat \<Rightarrow> nat \<Rightarrow> nat list \<times> nat" where
  "web_plinkoDrop hmac serverSeed clientSeed nonce rows =
     (let path = map (\<lambda>f. if f \<ge> 1 / 2 then 1 else 0) (web_floatsFromHmac hmac serverSeed clientSeed nonce rows)
      in (path, fold (\<lambda>b a. a + b) path 0))"

definition web_hiloSequence :: "hmac \<Rightarrow> string \<Rightarrow> string \<Rightarrow> nat \<Rightarrow> nat \<Rightarrow> int list" where
  "web_hiloSequence hmac serverSeed clientSeed nonce len =
     map (\<lambda>f. js_floor (fl (f * 52))) (web_floatsFromHmac hmac serverSeed clientSeed nonce len)"

text \<open>\<open>for (let i = n - 1; i > 0; i -= 1)\<close>, swapping \<open>arr[i]\<close> with \<open>arr[j]\<close> by way of \<open>tmp\<close>.\<close>

definition web_shuffle :: "(nat \<Rightarrow> rat) \<Rightarrow> nat \<Rightarrow> nat list \<Rightarrow> nat list" where
  "web_shuffle f n arr0 =
     fold (\<lambda>i arr. let j = nat (js_floor (fl (f i * of_int (int i + 1)))); tmp = arr ! i; arr1 = arr[i := arr ! j] in arr1[j := tmp])
       (rev [1..<n]) arr0"

definition web_mineField :: "hmac \<Rightarrow> string \<Rightarrow> string \<Rightarrow> nat \<Rightarrow> nat \<Rightarrow> nat \<Rightarrow> nat list" where
  "web_mineField hmac serverSeed clientSeed nonce cells mines =
     (let floats = web_floatsFromHmac hmac serverSeed clientSeed nonce cells
      in sort (take mines (web_shuffle (\<lambda>i. floats ! (cells - 1 - i)) cells [0..<cells])))"

definition web_towerTraps :: "hmac \<Rightarrow> string \<Rightarrow> string \<Rightarrow> nat \<Rightarrow> nat \<Rightarrow> nat \<Rightarrow> nat \<Rightarrow> nat list list" where
  "web_towerTraps hmac serverSeed clientSeed nonce rows columns safePerRow =
     (let trapsPerRow = columns - safePerRow;
          floats = web_floatsFromHmac hmac serverSeed clientSeed nonce (rows * columns)
      in fold (\<lambda>r out. out @ [sort (take trapsPerRow (web_shuffle (\<lambda>i. floats ! (r * columns + (columns - 1 - i))) columns [0..<columns]))])
           [0..<rows] [])"

definition web_kenoDraw :: "hmac \<Rightarrow> string \<Rightarrow> string \<Rightarrow> nat \<Rightarrow> nat \<Rightarrow> nat \<Rightarrow> nat list" where
  "web_kenoDraw hmac serverSeed clientSeed nonce cells draws =
     (let floats = web_floatsFromHmac hmac serverSeed clientSeed nonce cells
      in sort (take draws (web_shuffle (\<lambda>i. floats ! (cells - 1 - i)) cells (map (\<lambda>i. i + 1) [0..<cells]))))"

definition web_verifyCommit :: "sha \<Rightarrow> string \<Rightarrow> string \<Rightarrow> bool" where
  "web_verifyCommit sha serverSeed committedHash \<longleftrightarrow> toLowerCase (web_sha256Hex sha serverSeed) = toLowerCase committedHash"


subsection \<open>The text of a digest\<close>

lemma radix16_byte: "n < 256 \<Longrightarrow> padStart 2 (CHR ''0'') (radix16 n) = [hex_digit (n div 16), hex_digit (n mod 16)]"
  by (cases "n < 16") (simp_all add: padStart_def radix16.simps[of n] radix16.simps[of "n div 16"] hex_digit_def)

lemma unat_digest_byte: "i < 32 \<Longrightarrow> unat (digest_bytes d ! i) = digest_byte d i"
  by (simp add: digest_bytes_def digest_byte_def unsigned_of_nat take_bit_eq_mod)

lemma length_digest_bytes [simp]: "length (digest_bytes d) = 32"
  by (simp add: digest_bytes_def)

lemma concat_pairs_nth:
  "i < 2 * length xs \<Longrightarrow> concat (map (\<lambda>x. [f x, g x]) xs) ! i = (if even i then f else g) (xs ! (i div 2))"
proof (induction xs arbitrary: i)
  case (Cons x xs)
  show ?case
  proof (cases i)
    case (Suc j)
    then show ?thesis using Cons by (cases j) auto
  qed simp
qed simp

lemma length_concat_pairs: "length (concat (map (\<lambda>x. [f x, g x]) xs)) = 2 * length xs"
  by (induction xs) auto

lemma web_toHex_pairs: "web_toHex bs = concat (map (\<lambda>b. [hex_digit (unat b div 16), hex_digit (unat b mod 16)]) bs)"
proof -
  have "unat b < 256" for b :: byte using unsigned_less[of b, where 'a = nat] by simp
  then show ?thesis by (simp add: web_toHex_def radix16_byte)
qed

lemma web_toHex_digest: "web_toHex (digest_bytes d) = digest_hex d"
proof (rule nth_equalityI)
  fix i assume "i < length (web_toHex (digest_bytes d))"
  then have i: "i < 64" by (simp add: web_toHex_pairs length_concat_pairs)
  have "web_toHex (digest_bytes d) ! i = hex_digit (if even i then digest_byte d (i div 2) div 16 else digest_byte d (i div 2) mod 16)"
    using i by (simp add: web_toHex_pairs concat_pairs_nth unat_digest_byte)
  also have "(if even i then digest_byte d (i div 2) div 16 else digest_byte d (i div 2) mod 16) = unat d div 16 ^ (63 - i) mod 16"
  proof (cases "even i")
    case True
    then obtain k where k: "i = 2 * k" by blast
    then have e: "63 - i = 2 * (31 - k) + 1" using i by simp
    have w: "(16 :: nat) ^ (63 - i) = 256 ^ (31 - k) * 16" unfolding e by (simp add: power_mult)
    have "unat d div 256 ^ (31 - k) mod 256 div 16 = unat d div 256 ^ (31 - k) div 16 mod 16"
      using mod_mult2_eq[of "unat d div 256 ^ (31 - k)" 16 16] by simp
    then show ?thesis using True unfolding w by (simp add: k digest_byte_def div_mult2_eq)
  next
    case False
    then obtain k where k: "i = 2 * k + 1" using oddE by blast
    then have e: "63 - i = 2 * (31 - k)" using i by simp
    have w: "(16 :: nat) ^ (63 - i) = 256 ^ (31 - k)" unfolding e by (simp add: power_mult)
    show ?thesis using False unfolding w by (simp add: k digest_byte_def mod_mod_cancel)
  qed
  finally show "web_toHex (digest_bytes d) ! i = digest_hex d ! i" using i by (simp add: digest_hex_def)
qed (simp add: web_toHex_pairs length_concat_pairs digest_hex_def)

lemma web_hmacSha256Hex_eq: "web_hmacSha256Hex hmac k m = hmacSha256 hmac k m"
  by (simp add: web_hmacSha256Hex_def hmacSha256_def web_toHex_digest)

lemma web_buildMessage_eq: "web_buildMessage c n = buildMessage c n"
  by (simp add: web_buildMessage_def buildMessage_def)

lemma fold_snoc: "fold (\<lambda>x ys. ys @ [f x]) xs ys = ys @ map f xs"
  by (induction xs arbitrary: ys) auto

subsection \<open>The float stream\<close>

fun floats_of :: "byte list \<Rightarrow> rat list" where
  "floats_of (b0 # b1 # b2 # b3 # bytes) = float4 (unat b0) (unat b1) (unat b2) (unat b3) # floats_of bytes"
| "floats_of bytes = []"

lemma web_read_block_eq: "length out \<le> cnt \<Longrightarrow> web_read_block cnt bytes out = take cnt (out @ floats_of bytes)"
  by (induction cnt bytes out rule: web_read_block.induct) auto

lemma upt_32: "[0..<32] = [0,1,2,3,4,5,6,7,8,9,10,11,12,13,14,15,16,17,18,19,20,21,22,23,24,25,26,27,28,29,30,31::nat]"
  by (simp add: upt_rec)

lemma upt_8: "[0..<8] = [0,1,2,3,4,5,6,7::nat]"
  by (simp add: upt_rec)

lemma floats_of_digest: "floats_of (digest_bytes (hmac s (c @ '':'' @ decimal n @ '':'' @ decimal b))) = floatBlock hmac s c n b"
proof -
  have u: "unat (word_of_nat (digest_byte d i) :: byte) = digest_byte d i" for d i
    by (simp add: digest_byte_def unsigned_of_nat take_bit_eq_mod)
  show ?thesis by (simp add: digest_bytes_def upt_32 u floatBlock_def Let_def upt_8 numeral_2_eq_2)
qed

lemma take_take_append: "take n (take n xs @ ys) = take n (xs @ ys)"
  by (cases "length xs \<le> n") simp_all

lemma web_float_blocks_eq:
  assumes "length out \<le> cnt" and "cnt \<le> length out + 8 * k"
  shows "web_float_blocks hmac s c n cnt b out = take cnt (out @ concat (map (floatBlock hmac s c n) [b..<b + k]))"
  using assms
proof (induction k arbitrary: b out)
  case 0
  then show ?case by (simp add: web_float_blocks.simps)
next
  case (Suc k)
  show ?case
  proof (cases "length out < cnt")
    case True
    let ?o = "take cnt (out @ floatBlock hmac s c n b)"
    have l: "length (floatBlock hmac s c n b) = 8" by (simp add: floatBlock_def Let_def)
    have "web_float_blocks hmac s c n cnt b out = web_float_blocks hmac s c n cnt (b + 1) ?o"
      using True by (simp add: web_float_blocks.simps[of _ _ _ _ _ b] web_hmacSha256Bytes_def web_read_block_eq floats_of_digest[simplified])
    also have "\<dots> = take cnt (?o @ concat (map (floatBlock hmac s c n) [b + 1..<b + 1 + k]))"
      using Suc.IH[of ?o "b + 1"] Suc.prems(2) l by simp
    also have "\<dots> = take cnt ((out @ floatBlock hmac s c n b) @ concat (map (floatBlock hmac s c n) [b + 1..<b + 1 + k]))"
      by (rule take_take_append)
    also have "(out @ floatBlock hmac s c n b) @ concat (map (floatBlock hmac s c n) [b + 1..<b + 1 + k])
        = out @ concat (map (floatBlock hmac s c n) [b..<b + Suc k])"
      by (simp add: upt_conv_Cons del: upt_Suc)
    finally show ?thesis .
  next
    case False
    then show ?thesis using Suc.prems(1) by (simp add: web_float_blocks.simps)
  qed
qed

lemma web_floats_eq: "web_floatsFromHmac hmac s c n cnt = floatsFromHmac hmac s c n cnt"
proof -
  have "cnt \<le> 8 * ((cnt + 7) div 8)" by linarith
  then show ?thesis using web_float_blocks_eq[of "[]" cnt "(cnt + 7) div 8"] by (simp add: web_floatsFromHmac_def floatsFromHmac_def)
qed


subsection \<open>Hexadecimal input\<close>

lemma hex_digit_props: "n < 16 \<Longrightarrow> is_hex (hex_digit n) \<and> \<not> web_space (hex_digit n) \<and> lower_char (hex_digit n) = hex_digit n \<and> hex_digit n \<noteq> CHR ''x''"
  using nat_less_16_cases[of n] by (auto simp: hex_digit_def is_hex_def web_space_def lower_char_def Let_def)

lemma hex_pairs_chars: "c \<in> set (web_toHex bs) \<Longrightarrow> \<not> web_space c \<and> lower_char c = c \<and> c \<noteq> CHR ''x''"
proof -
  assume "c \<in> set (web_toHex bs)"
  then have "\<exists>b :: byte. c = hex_digit (unat b div 16) \<or> c = hex_digit (unat b mod 16)" by (auto simp: web_toHex_pairs)
  then obtain b :: byte where b: "c = hex_digit (unat b div 16) \<or> c = hex_digit (unat b mod 16)" by blast
  have "unat b < 256" using unsigned_less[of b, where 'a = nat] by simp
  then have "unat b div 16 < 16" "unat b mod 16 < 16" by simp_all
  then show ?thesis using b hex_digit_props[of "unat b div 16"] hex_digit_props[of "unat b mod 16"] by auto
qed

lemma web_trim_id: "\<forall>c \<in> set s. \<not> web_space c \<Longrightarrow> web_trim s = s"
proof -
  assume a: "\<forall>c \<in> set s. \<not> web_space c"
  have "dropWhile web_space xs = xs" if "set xs \<subseteq> set s" for xs using a that by (cases xs) auto
  then show "web_trim s = s" by (simp add: web_trim_def)
qed

lemma concat_pairs_take: "i < length xs \<Longrightarrow> take 2 (drop (2 * i) (concat (map (\<lambda>x. [f x, g x]) xs))) = [f (xs ! i), g (xs ! i)]"
proof (induction xs arbitrary: i)
  case (Cons x xs)
  then show ?case by (cases i) auto
qed simp

lemma parse_byte_pair: "parse_byte [hex_digit (unat b div 16), hex_digit (unat b mod 16)] = b"
proof -
  have "unat b < 256" using unsigned_less[of b, where 'a = nat] by simp
  then have "unat b div 16 < 16" "unat b mod 16 < 16" by simp_all
  then show ?thesis using hex_digit_props by (simp add: parse_byte_def parse_hex_def)
qed

lemma web_hexToBytes_toHex: "web_hexToBytes (web_toHex bs) = bs"
proof -
  have c: "toLowerCase (web_trim (web_toHex bs)) = web_toHex bs"
    using hex_pairs_chars by (simp add: web_trim_id toLowerCase_def map_idI)
  have "take 2 (web_toHex bs) \<noteq> ''0x''"
  proof
    assume "take 2 (web_toHex bs) = ''0x''"
    then have "CHR ''x'' \<in> set (take 2 (web_toHex bs))" by simp
    then show False using hex_pairs_chars in_set_takeD by metis
  qed
  then have "web_hexToBytes (web_toHex bs) = map (\<lambda>i. parse_byte (take 2 (drop (2 * i) (web_toHex bs)))) [0..<length bs]"
    by (simp add: web_hexToBytes_def c Let_def) (simp add: web_toHex_pairs length_concat_pairs)
  also have "\<dots> = map (\<lambda>i. bs ! i) [0..<length bs]"
    by (intro map_cong refl) (simp add: web_toHex_pairs concat_pairs_take parse_byte_pair)
  finally show ?thesis by (simp add: map_nth)
qed

lemma web_hexToBytes_digest: "web_hexToBytes (digest_hex e) = digest_bytes e"
  using web_hexToBytes_toHex[of "digest_bytes e"] by (simp add: web_toHex_digest)

lemma web_seed32_eq: "web_seed32 c = padClientSeed32 c"
  by (rule nth_equalityI) (auto simp: web_seed32_def padClientSeed32_def Let_def nth_append)

lemma web_u32le_eq: "web_u32le n = u32le n"
proof -
  have "ucast (drop_bit (8 * i) (of_nat n :: 32 word)) = (of_nat (n mod 2 ^ 32 div 256 ^ i) :: byte)" for i
  proof -
    have "unat (drop_bit (8 * i) (of_nat n :: 32 word)) = n mod 2 ^ 32 div 2 ^ (8 * i)"
      by (simp only: unsigned_drop_bit_eq unsigned_of_nat) (simp add: take_bit_eq_mod drop_bit_eq_div)
    also have "\<dots> = n mod 2 ^ 32 div 256 ^ i" by (simp add: power_mult)
    finally have u: "unat (drop_bit (8 * i) (of_nat n :: 32 word)) = n mod 2 ^ 32 div 256 ^ i" .
    have "unat (ucast (drop_bit (8 * i) (of_nat n :: 32 word)) :: byte) = unat (of_nat (n mod 2 ^ 32 div 256 ^ i) :: byte)"
      by (simp only: unsigned_ucast_eq unsigned_of_nat u) simp
    then show ?thesis by (rule unsigned_word_eqI)
  qed
  then show ?thesis by (simp add: web_u32le_def u32le_def)
qed


subsection \<open>Every game agrees\<close>

lemma web_crash_formula_eq: "web_crash_formula h = crash_formula h"
  by (simp add: web_crash_formula_def crash_formula_def centi_def Let_def)

lemma web_roll_eq: "web_roll sha e tag = lottery_roll sha e tag"
proof -
  have s: "(\<Sum>i<8. f i) = f 0 + f 1 + f 2 + f 3 + f 4 + f 5 + f 6 + f 7" for f :: "nat \<Rightarrow> nat"
    by (simp add: eval_nat_numeral)
  have u: "unat (digest_bytes d ! i) = digest_byte d i" if "i \<in> {0, 1, 2, 3, 4, 5, 6, 7}" for d i
    using that by (intro unat_digest_byte) auto
  show ?thesis by (simp add: web_roll_def lottery_roll_def web_sha256Bytes_def Let_def s u upt_8)
qed

lemma web_finalEntropy_eq:
  "web_finalEntropy sha s c hex n err =
     (if length (web_hexToBytes hex) = 32 then lotteryFinalEntropy sha s (padClientSeed32 c) (web_hexToBytes hex) n else Inl (Internal err))"
proof -
  have "length (padClientSeed32 c) = 32" by (simp add: padClientSeed32_def Let_def)
  then show ?thesis by (simp add: web_finalEntropy_def lotteryFinalEntropy_def web_seed32_eq web_u32le_eq Let_def)
qed

lemma web_blackjackDeal_eq: "web_blackjackDeal hmac s c n cnt = blackjackDeal hmac s c n cnt"
  by (simp add: web_blackjackDeal_def blackjackDeal_def deal_card_def[abs_def] fold_snoc web_hmacSha256Hex_eq web_buildMessage_eq Let_def)

lemma fold_max_nat: "xs \<noteq> [] \<Longrightarrow> fold max xs (0 :: nat) = Max (set xs)"
  using Max.set_eq_fold[of "hd xs" "tl xs"] by (cases xs) auto

lemma web_push_card_eq: "web_push_card stream e hands = add_to_hand stream e hands"
  by (auto simp: web_push_card_def add_to_hand_def hand_key_def Let_def split: option.splits)

lemma web_shuffle_eq: "web_shuffle f n arr = fy_loop f (n - 1) arr"
proof -
  have "fold (\<lambda>i arr. arr[i := arr ! nat (js_floor (fl (f i * of_int (int i + 1)))), nat (js_floor (fl (f i * of_int (int i + 1)))) := arr ! i])
      (rev [1..<Suc k]) arr = fy_loop f k arr" for k
    by (induction k arbitrary: arr) (simp_all add: fy_index_def Let_def)
  from this[of "n - 1"] show ?thesis by (cases n) (simp_all add: web_shuffle_def Let_def)
qed

lemma web_jackpotRanges_eq: "web_jackpotRanges amounts = jackpotRanges amounts"
proof -
  have "fst (fold (\<lambda>amount (out, cursor). (out @ [(cursor, cursor + amount)], cursor + amount)) amounts (out, x)) = out @ jackpot_ranges_from x amounts"
    for out x by (induction amounts arbitrary: out x) auto
  then show ?thesis by (simp add: web_jackpotRanges_def jackpotRanges_def)
qed

lemma web_jackpotWinnerIndex_eq: "web_jackpotWinnerIndex amounts ticket = jackpotWinnerIndex amounts ticket"
  by (simp add: web_jackpotWinnerIndex_def jackpotWinnerIndex_def web_jackpotRanges_eq)

lemma web_lotteryDraw_eq: "length slot = 32 \<Longrightarrow> web_lotteryDraw sha s c (web_toHex slot) n = lotteryDraw sha s (padClientSeed32 c) slot n"
  by (simp add: web_lotteryDraw_def lotteryDraw_def web_finalEntropy_eq web_hexToBytes_toHex fold_snoc web_roll_eq encodeLotteryNumber_def
      LOTTERY_DIGITS_def LOTTERY_DIGIT_MAX_def LOTTERY_TICKET_OFFSET_def foldl_conv_fold Let_def)

text \<open>
  C27. What the player computes in the browser is what the server computed: for every seed pair and nonce each game of the web verifier gives
  the result of the corresponding function of \<open>packages/fair\<close>, hex text included, and the commitment of a seed passes its check.
\<close>

theorem browser_agrees:
  "web_crashPoint hmac s c n = crashPoint hmac s c n \<and> web_coinflipResult hmac s c n = coinflipResult hmac s c n
   \<and> web_blackjackDeal hmac s c n cnt = blackjackDeal hmac s c n cnt \<and> web_reproduceHand hmac s c n is = reproduceHand hmac s c n is
   \<and> web_reproduceRound hmac s c n lg = reproduceRound hmac s c n lg
   \<and> web_diceRoll hmac s c n = diceRoll hmac s c n \<and> web_limboResult hmac s c n edge = limboResult hmac s c n edge
   \<and> web_wheelSpin hmac s c n segs = wheelSpin hmac s c n segs \<and> web_plinkoDrop hmac s c n rows = plinkoDrop hmac s c n rows
   \<and> web_hiloSequence hmac s c n len = hiloSequence hmac s c n len \<and> web_mineField hmac s c n cells mines = mineField hmac s c n cells mines
   \<and> web_towerTraps hmac s c n rows cols safe = towerTraps hmac s c n rows cols safe
   \<and> web_kenoDraw hmac s c n KENO_CELLS KENO_DRAWS = kenoDraw hmac s c n
   \<and> web_jackpotRoll hmac s c n = jackpotRoll hmac s c n \<and> web_jackpotWinnerIndex amounts ticket = jackpotWinnerIndex amounts ticket
   \<and> (\<forall>e :: digest. web_lotteryDraw sha s c (web_toHex (digest_bytes e)) n = lotteryDraw sha s (padClientSeed32 c) (digest_bytes e) n
        \<and> web_crashPointFromEntropy sha s c (web_toHex (digest_bytes e)) n = crashPointFromSlot sha s c (digest_bytes e) n
        \<and> web_jackpotTicketFromEntropy sha s c (web_toHex (digest_bytes e)) n tot = jackpotTicketFromEntropy sha s c (digest_bytes e) n tot)
   \<and> web_verifyCommit sha s (commitServerSeed sha s)"
proof -
  have f: "web_floatsFromHmac hmac s c n = floatsFromHmac hmac s c n" by (rule ext) (rule web_floats_eq)
  have p: "web_push_card st = add_to_hand st" for st by (intro ext) (rule web_push_card_eq)
  have h: "web_reproduceHand hmac s c n is = reproduceHand hmac s c n is"
    using fold_max_nat[of "is"] by (simp add: web_reproduceHand_def reproduceHand_def web_blackjackDeal_eq Let_def)
  have r: "web_reproduceRound hmac s c n lg = reproduceRound hmac s c n lg"
    by (simp add: web_reproduceRound_def reproduceRound_def web_blackjackDeal_eq p Let_def)
  have one: "web_crashPoint hmac s c n = crashPoint hmac s c n" "web_coinflipResult hmac s c n = coinflipResult hmac s c n"
    "web_jackpotRoll hmac s c n = jackpotRoll hmac s c n"
    by (simp_all add: web_crashPoint_def crashPoint_def hash52_def web_crash_formula_eq web_coinflipResult_def coinflipResult_def web_jackpotRoll_def
        jackpotRoll_def web_hmacSha256Hex_eq web_buildMessage_eq)
  have stream: "web_diceRoll hmac s c n = diceRoll hmac s c n" "web_limboResult hmac s c n edge = limboResult hmac s c n edge"
    "web_wheelSpin hmac s c n segs = wheelSpin hmac s c n segs" "web_plinkoDrop hmac s c n rows = plinkoDrop hmac s c n rows"
    "web_hiloSequence hmac s c n len = hiloSequence hmac s c n len"
    by (simp_all add: web_diceRoll_def diceRoll_def web_limboResult_def limboResult_def web_wheelSpin_def wheelSpin_def web_plinkoDrop_def
        plinkoDrop_def web_hiloSequence_def hiloSequence_def first_float_def f centi_def floor2_def Let_def)
  have boards: "web_mineField hmac s c n cells mines = mineField hmac s c n cells mines"
    "web_towerTraps hmac s c n rows cols safe = towerTraps hmac s c n rows cols safe" "web_kenoDraw hmac s c n KENO_CELLS KENO_DRAWS = kenoDraw hmac s c n"
    by (simp_all add: web_mineField_def mineField_def web_towerTraps_def towerTraps_def web_kenoDraw_def kenoDraw_def web_shuffle_eq f fold_snoc Let_def)
  have ent: "web_crashPointFromEntropy sha s c (web_toHex (digest_bytes e)) n = crashPointFromSlot sha s c (digest_bytes e) n"
    "web_jackpotTicketFromEntropy sha s c (web_toHex (digest_bytes e)) n tot = jackpotTicketFromEntropy sha s c (digest_bytes e) n tot" for e
    by (simp_all add: web_crashPointFromEntropy_def crashPointFromSlot_def web_jackpotTicketFromEntropy_def jackpotTicketFromEntropy_def
        web_finalEntropy_eq web_hexToBytes_digest web_toHex_digest web_crash_formula_eq)
  have "web_verifyCommit sha s (commitServerSeed sha s)"
    by (simp add: web_verifyCommit_def commitServerSeed_def web_sha256Hex_def sha256_hex_def web_sha256Bytes_def web_toHex_digest)
  then show ?thesis using h r one stream boards ent web_blackjackDeal_eq web_jackpotWinnerIndex_eq
    by (simp add: web_lotteryDraw_eq)
qed

end
