(* ===== verification/Spec2Isabelle.thy ===== *)
theory Spec2Isabelle
  imports Fair_Games Fair_Shuffle Fair_Tickets Fair_Cards Shared_Payouts Shared_Money Round_Games Coinflip_Escrow
    Periods Vault Vault_Strategy Custody_Drive Custody_Deposit Staking Distribution Mining Jackpot Lottery_Tickets Crash_Flight Blackjack_Hands Rewards Fair_Browser
begin

text \<open>
  Verification library of the Scadium casino: the fairness package \<open>packages/fair\<close>, the shared arithmetic of
  \<open>packages/shared/src/constants.ts\<close>, the money-moving services and game engines of \<open>apps/api/src\<close>, and the fairness
  verifier \<open>apps/web/src/lib/fair-browser.ts\<close>.

  \<^bold>\<open>The program.\<close> A player bets out of an off-chain balance kept in a database. Each bet takes the next nonce of the
  player's seeds (\<open>fairness\<close>), the outcome is derived from HMAC-SHA256 over seeds and nonce (\<open>packages/fair\<close>), the payout
  from the tables of \<open>packages/shared\<close>, and one transaction moves the stake and the payout through
  \<open>applyBalanceDelta\<close>, which writes the ledger, and updates statistics, commission and proof-of-wager points. Games with
  several moves (mines, tower, hi-lo) persist a round between them; scheduled games (jackpot, lottery, crash) and the
  blackjack tables keep a round in the memory of an engine with its timers and recover it from rows after a restart.
  Custody moves money between balances and the chain; vault, staking, dividends, mining and rewards pay out what accrues.

  \<^bold>\<open>Theories and sources.\<close> Paths are under \<open>apps/api/src\<close> unless they begin with \<open>packages\<close> or \<open>apps\<close>. Definitions have
  the names of the functions, methods and types they model; a record per row, per engine and per request environment, a
  datatype per enumeration, one definition per function, handler or transaction.
  \<^item> \<open>Js_Number\<close>, \<open>Prelude\<close>: doubles with their rounding, bigint division; errors, fallible sequencing, keyed tables.
  \<^item> \<open>Fair_Core\<close>, \<open>Fair_Games\<close>, \<open>Fair_Shuffle\<close>, \<open>Fair_Tickets\<close>, \<open>Fair_Cards\<close>, \<open>Fair_Derive\<close>: \<open>packages/fair/src\<close>.
    \<open>Fair_Browser\<close>: the second implementation of the same games, \<open>apps/web/src/lib/fair-browser.ts\<close>.
  \<^item> \<open>Shared_Config\<close>, \<open>Shared_Payouts\<close>, \<open>Shared_Money\<close>: \<open>packages/shared/src/constants.ts\<close>.
  \<^item> \<open>Store\<close>: the tables of \<open>apps/api/prisma/schema.prisma\<close> that the services use. \<open>Ledger\<close>: \<open>prisma/apply-balance-delta.ts\<close>.
    \<open>Transactions\<close>: \<open>prisma/with-serializable.ts\<close>, \<open>prisma/idempotency.ts\<close>, \<open>common/exposure-guard.ts\<close>, \<open>games/settle-claim.ts\<close>.
  \<^item> \<open>Seeds\<close>: \<open>fairness/seed-manager.service.ts\<close>. \<open>Economy\<close>: \<open>custody/economy.ts\<close>. \<open>Proof_Of_Wager\<close>, \<open>Affiliates\<close>,
    \<open>Responsible_Gambling\<close>: the services of these names. \<open>Periods\<close>: \<open>queue/queue.constants.ts\<close>.
  \<^item> \<open>Instant\<close>: \<open>games/instant/instant-settle.ts\<close> with dice, limbo, wheel, plinko and keno. \<open>Stateful\<close>:
    \<open>games/instant/stateful-round.ts\<close>. \<open>Round_Games\<close>: mines, tower, hi-lo. \<open>Progress\<close>: when their shared steps succeed.
  \<^item> \<open>Coinflip\<close>, \<open>Coinflip_Escrow\<close>: \<open>games/coinflip\<close>. \<open>Round_Loop\<close>: \<open>games/round-loop.ts\<close>. \<open>Jackpot\<close>: \<open>games/jackpot\<close>.
    \<open>Lottery\<close>, \<open>Lottery_Tickets\<close>: \<open>games/lottery\<close>. \<open>Crash\<close>, \<open>Crash_Settlement\<close>, \<open>Crash_Service\<close>, \<open>Crash_Flight\<close>:
    \<open>games/crash\<close>. \<open>Blackjack\<close>, \<open>Blackjack_Service\<close>, \<open>Blackjack_Settlement\<close>, \<open>Blackjack_Hands\<close>: \<open>games/blackjack\<close>.
  \<^item> \<open>Custody\<close>, \<open>Custody_Chain\<close>, \<open>Custody_Drive\<close>: withdrawals; \<open>Custody_Deposit\<close>: deposits (\<open>custody\<close>).
  \<^item> \<open>Vault\<close>, \<open>Vault_Strategy\<close>: \<open>vault\<close>. \<open>Staking\<close>: \<open>staking\<close>. \<open>Distribution\<close>, \<open>Mining\<close>: \<open>engine\<close>. \<open>Rewards\<close>: \<open>rewards\<close>.

  \<^bold>\<open>State and effects.\<close> The database is the record \<open>db\<close> of keyed tables; a transaction is a function \<open>db \<Rightarrow> ('a \<times> db) result\<close>,
  whose \<open>Inl\<close> is the exception that rolls it back. Where a handler commits several transactions, or waits between a read
  and a write, the pieces are separate definitions that other steps may run between. Engines are explicit state next to the
  database. The runs of several actors are step relations (\<open>custody_step\<close>, \<open>jackpot_step\<close>, \<open>crash_step\<close>, \<open>table_step\<close>,
  \<open>mining_run\<close>, \<open>reward_step\<close>), whose invariants are proved by rule induction.
\<close>

text \<open>
  \<^bold>\<open>Specifications.\<close> The contract of everything that moves money is double-entry posting: \<open>posts ps d d'\<close> (theory \<open>Ledger\<close>)
  says that the balances change by exactly the postings \<open>ps\<close>, each with its ledger row and running balance. The locale
  \<open>money_command\<close> states that a command refines its journal and proves once that no balance goes below zero, the ledger only
  grows and nobody else is touched; it is interpreted on instant and stateful settlements, coinflips, commission claims,
  the vault, staking and dividends, and the settlements of jackpot, lottery, crash and blackjack prove the same refinement
  for their own journals. The locales \<open>instant_game\<close> and \<open>stateful_game\<close> are the contracts between a settlement path and
  the games that plug into it, interpreted on the five instant games and on mines, tower and hi-lo.

  \<^bold>\<open>What is shown.\<close>
  \<^item> Custody: however processes, crashes and the chain interleave, a withdrawal is paid or refunded once and never both, a
    deposit is credited once, and driving a withdrawal ends.
  \<^item> Settlement: every game settles once and moves exactly what its rules say; flips and the jackpot create no money; an
    active board keeps its committed layout and its seed stays hidden; a blackjack hand is bounded by its reserve factor.
  \<^item> Fairness: the shuffle reaches every permutation by exactly one choice of swaps, draws are in range, a round of
    blackjack is reproduced from its public log in every reachable state of a table, and the verifier of the browser
    computes what the server computed for every game.
  \<^item> Yield: the vault covers its shares, stakes equal their trail of events, a dividend and a block are paid once and within
    their pools, commission is paid once, and reserves of rewards equal the pending claims.
  \<^item> Termination: the loops of the source that poll or retry come to an end.
  \<^item> Hazards: some theorems state what the code does where that is not what it means to do (a refund made twice, a bet
    that no settlement sees, a claim paid twice, an uncapped win), each with a concrete run that shows it.

  \<^bold>\<open>Bounds and termination.\<close> Nothing runs on fuel of the model's own. Retry loops have the budget of the source
  (\<open>serializable_loop\<close>, the beacon retries of the jackpot, \<open>MAX_CLAIM_ATTEMPTS\<close>, the withdrawal attempts). The list of reads
  given to \<open>drive\<close> is what the clock leaves of its window; \<open>polls_left\<close> bounds the reads it needs. The dealer's loop
  (\<open>dealer_draws\<close>) ends because the hard total grows with every card, the blocks of \<open>web_float_blocks\<close> because each adds up to eight
  floats and at least one. Doubles are rationals rounded after every operation; overflow, subnormals and NaN do not occur in the modelled
  code. Columns of 32 and 64 bits are checked in the vault, where a write outside of them rolls back.

  \<^bold>\<open>Parameters.\<close> HMAC-SHA256 and SHA-256 (\<open>node:crypto\<close>, WebCrypto), the random generators, the clock, number printing,
  powers and logarithms of JavaScript, the JSON text stored under an idempotency key, the answers of the
  Solana RPC, of the chain's randomness and of the public beacon, and which writes of an engine reach the database are arguments. The
  chain itself appears as rules in \<open>Custody_Chain\<close> (a signature lands at most once, before its block height expires) and as
  the table of paid claims in \<open>Rewards\<close>.

  \<^bold>\<open>Not modelled.\<close> HTTP controllers, sign-in and compliance gates, broadcasts, chat and the live feed, leaderboards and
  statistics queries, metrics, the scheduling of jobs, bots, and the clients of Redis and of the chain: they move no money
  or only call what is modelled. The hourly airdrop, the on-chain swap and the reconciliation reports are left out, as
  are the React pages and the Rust programs under \<open>programs\<close>.
\<close>

end
